(* ===== verification/Prelude.thy ===== *)
theory Prelude
  imports Main "HOL-Library.Word" "HOL-Library.List_Lexorder" "HOL-Library.Product_Lexorder"
begin

text \<open>
  Shared vocabulary of the development: Go results as sums, error-aware loops, byte strings,
  fixed-point decimals, and the ordered key-value store that every keeper of the chain keeps its
  state in.

  A Go function that returns \<open>(T, error)\<close> or may panic is a function into \<open>'e + 'a\<close>:
  \<open>Inl\<close> is the error or panic, \<open>Inr\<close> the result. \<open>bindE\<close> is the
  \<open>if err != nil { return err }\<close> of the sources and \<open>foldE\<close> a \<open>for\<close> loop whose
  body may fail.
\<close>

named_theorems res_simps \<comment> \<open>inversion of results: what a successful call went through\<close>
named_theorems kv_simps \<comment> \<open>reading a store back after writes\<close>

subsection \<open>Results and loops\<close>

definition bindE :: "'e + 'a \<Rightarrow> ('a \<Rightarrow> 'e + 'b) \<Rightarrow> 'e + 'b" where
  "bindE m f = (case m of Inl e \<Rightarrow> Inl e | Inr x \<Rightarrow> f x)"

lemma bindE_Inl [simp]: "bindE (Inl e) f = Inl e"
  by (simp add: bindE_def)

lemma bindE_Inr [simp]: "bindE (Inr x) f = f x"
  by (simp add: bindE_def)

lemma bindE_eq_Inr [res_simps]: "bindE m f = Inr y \<longleftrightarrow> (\<exists>x. m = Inr x \<and> f x = Inr y)"
  by (cases m) simp_all

lemma bindE_eq_Inl: "bindE m f = Inl e \<longleftrightarrow> m = Inl e \<or> (\<exists>x. m = Inr x \<and> f x = Inl e)"
  by (cases m) simp_all

lemma bindE_assoc: "bindE (bindE m f) g = bindE m (\<lambda>x. bindE (f x) g)"
  by (cases m) simp_all

lemma bindE_cong [fundef_cong]:
  "m = m' \<Longrightarrow> (\<And>x. m' = Inr x \<Longrightarrow> f x = f' x) \<Longrightarrow> bindE m f = bindE m' f'"
  by (cases m') simp_all

text \<open>Evaluating a concrete run with the simplifier: the first computation first.\<close>

lemma bindE_weak_cong: "m = m' \<Longrightarrow> bindE m f = bindE m' f"
  by simp

lemma if_Inl_eq_Inr [res_simps]: "(if b then Inl e else m) = Inr y \<longleftrightarrow> \<not> b \<and> m = Inr y"
  by simp

lemma if_Inr_Inl_eq_Inr [res_simps]: "(if b then m else Inl e) = Inr y \<longleftrightarrow> b \<and> m = Inr y"
  by simp

fun foldE :: "('s \<Rightarrow> 'a \<Rightarrow> 'e + 's) \<Rightarrow> 's \<Rightarrow> 'a list \<Rightarrow> 'e + 's" where
  "foldE f s [] = Inr s"
| "foldE f s (x # xs) = bindE (f s x) (\<lambda>s'. foldE f s' xs)"

lemma foldE_append: "foldE f s (xs @ ys) = bindE (foldE f s xs) (\<lambda>s'. foldE f s' ys)"
  by (induction xs arbitrary: s) (simp_all add: bindE_assoc)

text \<open>The loop rule: a property every successful iteration keeps holds after the loop.\<close>

lemma foldE_invariant:
  assumes "foldE f s xs = Inr s'" and "P s"
    and "\<And>x s s'. x \<in> set xs \<Longrightarrow> P s \<Longrightarrow> f s x = Inr s' \<Longrightarrow> P s'"
  shows "P s'"
  using assms
proof (induction xs arbitrary: s)
  case Nil
  then show ?case by simp
next
  case (Cons x xs)
  from Cons.prems(1) obtain t where t: "f s x = Inr t" and rest: "foldE f t xs = Inr s'"
    by (auto simp: res_simps)
  from Cons.prems(2,3) t have "P t" by (meson list.set_intros(1))
  from Cons.IH [OF rest this] Cons.prems(3) show ?case by (meson list.set_intros(2))
qed

lemma foldE_total:
  assumes "P s" and "\<And>x s. x \<in> set xs \<Longrightarrow> P s \<Longrightarrow> \<exists>s'. f s x = Inr s' \<and> P s'"
  shows "\<exists>s'. foldE f s xs = Inr s' \<and> P s'"
  using assms
proof (induction xs arbitrary: s)
  case Nil
  then show ?case by simp
next
  case (Cons x xs)
  then obtain t where "f s x = Inr t" and "P t" by (meson list.set_intros(1))
  with Cons.IH [of t] Cons.prems(2) show ?case by auto
qed

lemma foldE_Inr: "foldE (\<lambda>s x. Inr (g s x)) s xs = Inr (foldl g s xs)"
  by (induction xs arbitrary: s) simp_all

subsection \<open>Bytes, addresses, decimals\<close>

type_synonym byte = "8 word"
type_synonym bytes = "byte list"

text \<open>
  \<open>sdk.Dec\<close> is a fixed-point decimal; a value is the integer number of its smallest units, on
  which addition, subtraction and comparison act. The operations that round (products, quotients)
  are parameters of the definitions that call them.
\<close>

type_synonym dec = int

subsection \<open>Ordered key-value stores\<close>

text \<open>
  A keeper reads and writes a \<open>KVStore\<close>: a finite map whose iterators visit the keys in
  ascending order. \<open>kv\<close> is its type, a list of entries with strictly increasing keys;
  \<open>kv_list\<close> is what an iterator over the whole store yields. Each key prefix of a module
  is a store of its own.
\<close>

typedef (overloaded) ('k::linorder, 'v) kv =
  "{xs :: ('k \<times> 'v) list. sorted_wrt (<) (map fst xs)}"
  morphisms kv_list Abs_kv
proof
  show "[] \<in> {xs :: ('k \<times> 'v) list. sorted_wrt (<) (map fst xs)}" by simp
qed

setup_lifting type_definition_kv

fun entry_put :: "'k::linorder \<Rightarrow> 'v \<Rightarrow> ('k \<times> 'v) list \<Rightarrow> ('k \<times> 'v) list" where
  "entry_put k v [] = [(k, v)]"
| "entry_put k v (e # es) =
     (if fst e < k then e # entry_put k v es
      else if fst e = k then (k, v) # es
      else (k, v) # e # es)"

fun entry_drop :: "'k::linorder \<Rightarrow> ('k \<times> 'v) list \<Rightarrow> ('k \<times> 'v) list" where
  "entry_drop k [] = []"
| "entry_drop k (e # es) = (if fst e = k then es else e # entry_drop k es)"

lemma keys_entry_put: "set (map fst (entry_put k v es)) = insert k (set (map fst es))"
  by (induction es) auto

lemma set_entry_drop: "set (entry_drop k es) \<subseteq> set es"
  by (induction es) auto

lemma sorted_entry_put:
  "sorted_wrt (<) (map fst es) \<Longrightarrow> sorted_wrt (<) (map fst (entry_put k v es))"
proof (induction es)
  case Nil
  then show ?case by simp
next
  case (Cons e es)
  have keys: "set (map fst (entry_put k v es)) = insert k (set (map fst es))"
    by (rule keys_entry_put)
  from Cons.prems have smaller: "\<forall>x \<in> set (map fst es). fst e < x" by simp
  from Cons show ?case
    using keys smaller by (auto intro: less_trans)
qed

lemma sorted_entry_drop:
  "sorted_wrt (<) (map fst es) \<Longrightarrow> sorted_wrt (<) (map fst (entry_drop k es))"
proof (induction es)
  case Nil
  then show ?case by simp
next
  case (Cons e es)
  then show ?case using set_entry_drop [of k es] by auto
qed

lift_definition kv_empty :: "('k::linorder, 'v) kv" is "[]"
  by simp

lift_definition kv_set :: "'k::linorder \<Rightarrow> 'v \<Rightarrow> ('k, 'v) kv \<Rightarrow> ('k, 'v) kv" is entry_put
  by (rule sorted_entry_put)

lift_definition kv_del :: "'k::linorder \<Rightarrow> ('k, 'v) kv \<Rightarrow> ('k, 'v) kv" is entry_drop
  by (rule sorted_entry_drop)

lift_definition kv_get :: "('k::linorder, 'v) kv \<Rightarrow> 'k \<Rightarrow> 'v option" is map_of .

lemmas kv_list_ops [simp, code] = kv_empty.rep_eq kv_set.rep_eq kv_del.rep_eq

lemma map_of_entry_put: "map_of (entry_put k v es) k' = (if k' = k then Some v else map_of es k')"
  by (induction es) auto

lemma map_of_less_None: "\<forall>x \<in> set (map fst es). k < x \<Longrightarrow> map_of es (k :: 'k::linorder) = None"
  by (induction es) auto

lemma map_of_entry_drop:
  "sorted_wrt (<) (map fst es) \<Longrightarrow>
     map_of (entry_drop k es) k' = (if k' = k then None else map_of es k')"
proof (induction es)
  case Nil
  then show ?case by simp
next
  case (Cons e es)
  then have "fst e = k \<Longrightarrow> map_of es k = None"
    by (intro map_of_less_None) auto
  with Cons show ?case by auto
qed

lemma kv_get_empty [simp, kv_simps]: "kv_get kv_empty k = None"
  by transfer simp

lemma kv_get_set [simp, kv_simps]:
  "kv_get (kv_set k v m) k' = (if k' = k then Some v else kv_get m k')"
  by transfer (rule map_of_entry_put)

lemma kv_get_del [simp, kv_simps]: "kv_get (kv_del k m) k' = (if k' = k then None else kv_get m k')"
  by transfer (rule map_of_entry_drop)

lemma sorted_keys_distinct: "sorted_wrt (<) (map fst es) \<Longrightarrow> distinct (map fst (es :: ('k::linorder \<times> 'v) list))"
  by (induction es) auto

lemma kv_keys_distinct: "distinct (map fst (kv_list m))"
  by transfer (rule sorted_keys_distinct)

lemma kv_keys_sorted: "sorted_wrt (<) (map fst (kv_list m))"
  by transfer simp

lemma kv_in_list [kv_simps]: "(k, v) \<in> set (kv_list m) \<longleftrightarrow> kv_get m k = Some v"
  using kv_keys_distinct [of m] by (simp add: kv_get.rep_eq)

text \<open>Two stores with the same contents are the same store: iteration order is determined.\<close>

lemma sorted_entries_unique:
  fixes xs ys :: "('k::linorder \<times> 'v) list"
  assumes "sorted_wrt (<) (map fst xs)" and "sorted_wrt (<) (map fst ys)"
    and "map_of xs = map_of ys"
  shows "xs = ys"
  using assms
proof (induction xs arbitrary: ys)
  case Nil
  then show ?case by (cases ys) (auto simp: fun_eq_iff split: if_splits)
next
  case (Cons x xs)
  have same: "set (x # xs) = set ys"
    using Cons.prems sorted_keys_distinct [of "x # xs"] sorted_keys_distinct [of ys]
    by (metis map_of_eq_Some_iff subrelI subset_antisym)
  then obtain y zs where ys: "ys = y # zs" by (cases ys) auto
  have xy: "x = y"
  proof (rule ccontr)
    assume "x \<noteq> y"
    then have "x \<in> set zs" and "y \<in> set xs" using same unfolding ys by auto
    then have "fst y < fst x" and "fst x < fst y" using Cons.prems(1,2) unfolding ys by auto
    then show False by simp
  qed
  have "set xs = set zs"
    using same Cons.prems(1,2) unfolding ys xy by auto
  moreover from this have "map_of xs = map_of zs"
    using Cons.prems(1,2) unfolding ys
    by (intro map_of_inject_set [THEN iffD2]) (auto intro: sorted_keys_distinct)
  ultimately show ?case
    using Cons.IH [of zs] Cons.prems(1,2) unfolding ys xy by simp
qed

lemma kv_eqI: "(\<And>k. kv_get m k = kv_get n k) \<Longrightarrow> m = n"
  by transfer (auto intro!: sorted_entries_unique)

lemma kv_eq_iff: "m = n \<longleftrightarrow> (\<forall>k. kv_get m k = kv_get n k)"
  by (auto intro: kv_eqI)

lemma kv_set_set [simp]: "kv_set k v (kv_set k w m) = kv_set k v m"
  by (rule kv_eqI) simp

lemma kv_del_set [simp]: "kv_del k (kv_set k v m) = kv_del k m"
  by (rule kv_eqI) simp

lemma kv_del_del [simp]: "kv_del k (kv_del k m) = kv_del k m"
  by (rule kv_eqI) simp

lemma kv_set_same: "kv_get m k = Some v \<Longrightarrow> kv_set k v m = m"
  by (rule kv_eqI) simp

lemma kv_del_same: "kv_get m k = None \<Longrightarrow> kv_del k m = m"
  by (rule kv_eqI) simp

lemma kv_set_swap: "j \<noteq> k \<Longrightarrow> kv_set j v (kv_set k w m) = kv_set k w (kv_set j v m)"
  by (rule kv_eqI) simp

text \<open>Writing the entries of a store back one by one gives the store.\<close>

lemma foldl_kv_get:
  "distinct (map fst es) \<Longrightarrow> kv_get (foldl (\<lambda>m e. kv_set (fst e) (snd e) m) m es) k =
     (case map_of es k of None \<Rightarrow> kv_get m k | Some v \<Rightarrow> Some v)"
proof (induction es arbitrary: m)
  case (Cons e es)
  then have "map_of es (fst e) = None" by (simp add: map_of_eq_None_iff)
  with Cons show ?case by (auto split: option.splits)
qed simp

lemma kv_rebuild: "foldl (\<lambda>m e. kv_set (fst e) (snd e) m) kv_empty (kv_list m) = m"
proof (rule kv_eqI)
  fix k
  have "map_of (kv_list m) k = kv_get m k"
    using map_of_eq_Some_iff [OF kv_keys_distinct, of m k] kv_in_list [of k _ m] by (metis option.exhaust)
  then show "kv_get (foldl (\<lambda>m e. kv_set (fst e) (snd e) m) kv_empty (kv_list m)) k = kv_get m k"
    by (simp add: foldl_kv_get [OF kv_keys_distinct] split: option.splits)
qed

lemma foldl_map: "foldl f a (map g xs) = foldl (\<lambda>a x. f a (g x)) a xs"
  by (induction xs arbitrary: a) simp_all

subsection \<open>Sums over a store\<close>

definition kv_sum :: "('k::linorder \<Rightarrow> 'v \<Rightarrow> int) \<Rightarrow> ('k, 'v) kv \<Rightarrow> int" where
  "kv_sum f m = sum_list (map (\<lambda>(k, v). f k v) (kv_list m))"

abbreviation opt_val :: "('v \<Rightarrow> int) \<Rightarrow> 'v option \<Rightarrow> int" where
  "opt_val g x \<equiv> (case x of None \<Rightarrow> 0 | Some v \<Rightarrow> g v)"

lemma sum_entry_put:
  "sorted_wrt (<) (map fst es) \<Longrightarrow>
     sum_list (map (\<lambda>(k, v). f k v) (entry_put k v es)) =
     sum_list (map (\<lambda>(k, v). f k v) es) - opt_val (f k) (map_of es k) + f k v"
proof (induction es)
  case Nil
  then show ?case by simp
next
  case (Cons e es)
  then have "k < fst e \<Longrightarrow> map_of es k = None"
    by (intro map_of_less_None) (auto intro: less_trans)
  with Cons show ?case by (cases e) auto
qed

lemma sum_entry_drop:
  "sum_list (map (\<lambda>(k, v). f k v) (entry_drop k es)) =
     sum_list (map (\<lambda>(k, v). f k v) es) - opt_val (f k) (map_of es k)"
  by (induction es) auto

lemma kv_sum_empty [simp]: "kv_sum f kv_empty = 0"
  by (simp add: kv_sum_def)

lemma kv_sum_set: "kv_sum f (kv_set k v m) = kv_sum f m - opt_val (f k) (kv_get m k) + f k v"
  unfolding kv_sum_def kv_get.rep_eq kv_set.rep_eq by (rule sum_entry_put) (rule kv_keys_sorted)

lemma kv_sum_del: "kv_sum f (kv_del k m) = kv_sum f m - opt_val (f k) (kv_get m k)"
  unfolding kv_sum_def kv_get.rep_eq kv_del.rep_eq by (rule sum_entry_drop)

lemma kv_sum_cong:
  "(\<And>k v. kv_get m k = Some v \<Longrightarrow> f k v = g k v) \<Longrightarrow> kv_sum f m = kv_sum g m"
  unfolding kv_sum_def by (rule arg_cong [of _ _ sum_list]) (auto simp: kv_in_list)

lemma kv_sum_nonneg: "(\<And>k v. kv_get m k = Some v \<Longrightarrow> 0 \<le> f k v) \<Longrightarrow> 0 \<le> kv_sum f m"
  unfolding kv_sum_def by (rule sum_list_nonneg) (auto simp: kv_in_list)

lemma kv_sum_ge:
  assumes "\<And>k v. kv_get m k = Some v \<Longrightarrow> 0 \<le> f k v" and "kv_get m k = Some v"
  shows "f k v \<le> kv_sum f m"
proof -
  have "0 \<le> kv_sum f (kv_del k m)"
    using assms(1) by (intro kv_sum_nonneg) (auto split: if_splits)
  with assms(2) show ?thesis by (simp add: kv_sum_del)
qed

end
