(* ===== verification/Sdk.thy ===== *)
theory Sdk
  imports Prelude
begin

text \<open>
  The interface to the Cosmos SDK, whose code is not part of the repository. What the modules use
  of it and what rounds, hashes or encodes is a parameter: \<open>sdk_dec\<close> collects the decimal
  operations, \<open>sdk_codec\<close> the key and address encodings. Named predicates state the documented
  behaviour a property relies on, and \<open>dec18\<close> is a concrete instance (18 decimal places,
  rounding as documented) that shows they can hold.
\<close>

type_synonym acc_address = bytes
type_synonym val_address = bytes
type_synonym cons_address = bytes
type_synonym pubkey = bytes
type_synonym timestamp = int \<comment> \<open>\<open>time.Time\<close> in nanoseconds since the epoch\<close>

record sys_coin =
  Denom :: string
  Amount :: dec

type_synonym sys_coins = "sys_coin list"

record sdk_dec =
  OneDec :: dec
  DecMul :: "dec \<Rightarrow> dec \<Rightarrow> dec"
  DecMulTruncate :: "dec \<Rightarrow> dec \<Rightarrow> dec"
  DecQuo :: "dec \<Rightarrow> dec \<Rightarrow> dec option" \<comment> \<open>\<open>None\<close>: division by zero panics\<close>
  DecQuoTruncate :: "dec \<Rightarrow> dec \<Rightarrow> dec option"
  DecQuoInt :: "dec \<Rightarrow> int \<Rightarrow> dec"
  DecInt64 :: "dec \<Rightarrow> int"
  NewDecFromStr :: "string \<Rightarrow> dec option"
  ToCoins :: "sys_coin \<Rightarrow> sys_coins"
  PowerReduction :: int
  DefaultBondDenom :: string
  CoinIsValid :: "sys_coin \<Rightarrow> bool"

record sdk_codec =
  PubKeyAddress :: "pubkey \<Rightarrow> cons_address"
  PubKeyType :: "pubkey \<Rightarrow> string"
  ConvertAndEncode :: "pubkey \<Rightarrow> string option" \<comment> \<open>bech32 of a consensus key, \<open>None\<close> on error\<close>
  DecodePubKey :: "string \<Rightarrow> pubkey option"
  FormatTimeBytes :: "timestamp \<Rightarrow> bytes"
  ParseTimeBytes :: "bytes \<Rightarrow> timestamp option"
  LenTime :: nat

definition NewDec :: "sdk_dec \<Rightarrow> int \<Rightarrow> dec" where
  "NewDec A n = n * OneDec A"

definition NewDecWithPrec :: "sdk_dec \<Rightarrow> int \<Rightarrow> nat \<Rightarrow> dec" where
  "NewDecWithPrec A n prec = n * OneDec A div 10 ^ prec"

definition EmptyAddr :: "bytes \<Rightarrow> bool" where
  "EmptyAddr a \<longleftrightarrow> a = []"

definition NewDecCoinFromDec :: "string \<Rightarrow> dec \<Rightarrow> sys_coin" where
  "NewDecCoinFromDec d a = \<lparr>Denom = d, Amount = a\<rparr>"

text \<open>The amount of one denomination in a list of coins, and that conversion to coins keeps
  it.\<close>

definition AmountOf :: "string \<Rightarrow> sys_coins \<Rightarrow> dec" where
  "AmountOf d cs = (\<Sum>c\<leftarrow>cs. if Denom c = d then Amount c else 0)"

definition to_coins_keeps :: "sdk_dec \<Rightarrow> bool" where
  "to_coins_keeps A \<longleftrightarrow> (\<forall>c d. AmountOf d (ToCoins A c) = AmountOf d [c])"

text \<open>Documented behaviour of the rounding operations, as properties use it.\<close>

definition mul_neg_one :: "sdk_dec \<Rightarrow> bool" where
  "mul_neg_one A \<longleftrightarrow> (\<forall>x. DecMul A x (NewDec A (- 1)) = - x)"

definition mul_truncates :: "sdk_dec \<Rightarrow> bool" where
  "mul_truncates A \<longleftrightarrow> 0 < OneDec A \<and>
     (\<forall>x y. 0 \<le> x \<longrightarrow> 0 \<le> y \<longrightarrow> DecMulTruncate A x y = x * y div OneDec A)"

definition quo_truncates :: "sdk_dec \<Rightarrow> bool" where
  "quo_truncates A \<longleftrightarrow> 0 < OneDec A \<and>
     (\<forall>x y. DecQuoTruncate A x y = None \<longleftrightarrow> y = 0) \<and>
     (\<forall>x y. 0 \<le> x \<longrightarrow> 0 < y \<longrightarrow> DecQuoTruncate A x y = Some (x * OneDec A div y))"

definition power_floor :: "sdk_dec \<Rightarrow> bool" where
  "power_floor A \<longleftrightarrow> 0 < OneDec A \<and> 0 < PowerReduction A \<and>
     (\<forall>x. 0 \<le> x \<longrightarrow> DecInt64 A (DecQuoInt A x (PowerReduction A)) = x div (PowerReduction A * OneDec A))"

text \<open>A concrete instance: 18 decimal places, quotients and truncated products towards zero,
  \<open>DecMul\<close> rounding half away from zero.\<close>

definition quot0 :: "int \<Rightarrow> int \<Rightarrow> int" where
  "quot0 a b = sgn a * sgn b * (\<bar>a\<bar> div \<bar>b\<bar>)"

definition digitVal :: "char \<Rightarrow> int" where
  "digitVal c = of_char c - 48"

definition digitsVal :: "string \<Rightarrow> int" where
  "digitsVal cs = foldl (\<lambda>acc c. acc * 10 + digitVal c) 0 cs"

definition allDigits :: "string \<Rightarrow> bool" where
  "allDigits cs \<longleftrightarrow> list_all (\<lambda>c. 0 \<le> digitVal c \<and> digitVal c < 10) cs"

definition parseUnsigned18 :: "string \<Rightarrow> dec option" where
  "parseUnsigned18 cs =
     (let ip = takeWhile (\<lambda>c. c \<noteq> CHR ''.'') cs;
          fp = drop 1 (dropWhile (\<lambda>c. c \<noteq> CHR ''.'') cs)
      in if ip = [] \<or> 18 < length fp \<or> \<not> allDigits (ip @ fp) then None
         else Some (digitsVal (ip @ fp) * 10 ^ (18 - length fp)))"

definition parseDec18 :: "string \<Rightarrow> dec option" where
  "parseDec18 cs =
     (case cs of
        [] \<Rightarrow> None
      | c # cs' \<Rightarrow>
          if c = CHR ''-'' then map_option uminus (parseUnsigned18 cs') else parseUnsigned18 cs)"

definition dec18 :: sdk_dec where
  "dec18 = \<lparr>
     OneDec = 10 ^ 18,
     DecMul = (\<lambda>x y. sgn x * sgn y * ((\<bar>x\<bar> * \<bar>y\<bar> + 5 * 10 ^ 17) div 10 ^ 18)),
     DecMulTruncate = (\<lambda>x y. quot0 (x * y) (10 ^ 18)),
     DecQuo = (\<lambda>x y. if y = 0 then None else Some (quot0 (x * 10 ^ 18) y)),
     DecQuoTruncate = (\<lambda>x y. if y = 0 then None else Some (quot0 (x * 10 ^ 18) y)),
     DecQuoInt = quot0,
     DecInt64 = (\<lambda>x. quot0 x (10 ^ 18)),
     NewDecFromStr = parseDec18,
     ToCoins = (\<lambda>c. if Amount c = 0 then [] else [c]),
     PowerReduction = 1,
     DefaultBondDenom = ''okt'',
     CoinIsValid = (\<lambda>c. Denom c \<noteq> [] \<and> 0 \<le> Amount c)\<rparr>"

lemma quot0_pos [simp]: "0 \<le> a \<Longrightarrow> 0 < b \<Longrightarrow> quot0 a b = a div b"
  by (cases "a = 0") (simp_all add: quot0_def)

lemma dec18_mul_truncates: "mul_truncates dec18"
  by (simp add: mul_truncates_def dec18_def)

lemma dec18_quo_truncates: "quo_truncates dec18"
  by (simp add: quo_truncates_def dec18_def)

lemma dec18_power_floor: "power_floor dec18"
  by (simp add: power_floor_def dec18_def)

lemma dec18_to_coins_keeps: "to_coins_keeps dec18"
  by (simp add: to_coins_keeps_def dec18_def AmountOf_def)

lemma dec18_mul_neg_one: "mul_neg_one dec18"
proof -
  have "(\<bar>x\<bar> * 10 ^ 18 + 5 * 10 ^ 17) div 10 ^ 18 = \<bar>x\<bar>" for x :: int
    by simp
  then show ?thesis
    by (simp add: mul_neg_one_def dec18_def NewDec_def sgn_mult mult_sgn_abs)
qed

text \<open>Documented behaviour of the encodings: bech32 and the sortable time format are decoded by
  their inverses; a formatted time has a fixed length.\<close>

definition pubkey_decodes :: "sdk_codec \<Rightarrow> bool" where
  "pubkey_decodes C \<longleftrightarrow> (\<forall>pk str. ConvertAndEncode C pk = Some str \<longrightarrow> DecodePubKey C str = Some pk)"

definition time_decodes :: "sdk_codec \<Rightarrow> timestamp \<Rightarrow> bool" where
  "time_decodes C t \<longleftrightarrow>
     length (FormatTimeBytes C t) = LenTime C \<and> ParseTimeBytes C (FormatTimeBytes C t) = Some t"

text \<open>A concrete instance: keys are spelled byte by byte, times are eight big-endian bytes.\<close>

definition codec0 :: sdk_codec where
  "codec0 = \<lparr>
     PubKeyAddress = (\<lambda>pk. pk),
     PubKeyType = (\<lambda>pk. ''ed25519''),
     ConvertAndEncode = (\<lambda>pk. Some (map (\<lambda>b. char_of (unat b)) pk)),
     DecodePubKey = (\<lambda>str. Some (map (\<lambda>c. word_of_nat (of_char c)) str)),
     FormatTimeBytes = (\<lambda>t. map (\<lambda>i. word_of_int (t div 256 ^ i)) [7, 6, 5, 4, 3, 2, 1, 0]),
     ParseTimeBytes = (\<lambda>bs. Some (foldl (\<lambda>acc b. acc * 256 + uint b) 0 bs)),
     LenTime = 8\<rparr>"

lemma codec0_pubkey_decodes: "pubkey_decodes codec0"
proof -
  have "word_of_nat (of_char (char_of (unat b))) = b" for b :: byte
    using unsigned_less [of b, where ?'a = nat] by (simp add: of_char_of unat_of_nat word_unat_eq_iff)
  then show ?thesis by (auto simp: pubkey_decodes_def codec0_def comp_def)
qed

end
