(* ===== verification/Staking_Types.thy ===== *)
theory Staking_Types
  imports Sdk
begin

text \<open>
  The data of the staking module (staking/types): validators, commissions, delegators,
  undelegations, parameters and messages, with their constructors, their checks and the error
  values of staking/types/errors.go. Durations and times are nanoseconds; a \<open>nil\<close> proxy
  address is \<open>None\<close>.
\<close>

subsection \<open>Errors\<close>

datatype (plugins only: code) staking_error =
    ErrNoValidatorFound val_address
  | ErrInvalidDelegation acc_address
  | ErrNilValidatorAddr
  | ErrBadValidatorAddr
  | ErrMoreMinSelfDelegation val_address
  | ErrProxyNotFound acc_address
  | ErrEmptyValidators
  | ErrProxyAlreadyExist acc_address
  | ErrDescriptionIsEmpty
  | ErrValidatorOwnerExists
  | ErrValidatorPubKeyExists
  | ErrValidatorPubKeyTypeNotSupported string "string list"
  | ErrDescriptionLength string nat nat
  | ErrCommissionNegative
  | ErrCommissionHuge
  | ErrCommissionGTMaxRate
  | ErrCommissionUpdateTime
  | ErrCommissionChangeRateNegative
  | ErrCommissionChangeRateGTMaxRate
  | ErrCommissionGTMaxChangeRate
  | ErrMinSelfDelegationInvalid
  | ErrNilDelegatorAddr
  | ErrDelegatorEqualToProxyAddr
  | ErrBadDenom
  | ErrBadDelegationAmount
  | ErrAddSharesToDismission val_address
  | ErrAddSharesDuringProxy acc_address "acc_address option"
  | ErrDoubleProxy acc_address
  | ErrExceedValidatorAddrs nat
  | ErrNoDelegationToAddShares acc_address
  | ErrNotInDelegating acc_address
  | ErrInsufficientDelegation dec dec
  | ErrInsufficientQuantity dec dec
  | ErrNoMinSelfDelegation val_address
  | ErrBadUnDelegationAmount
  | ErrInvalidProxyUpdating
  | ErrInvalidProxyWithdrawTotal acc_address
  | ErrAlreadyAddedShares acc_address
  | ErrNoDelegatorExisted acc_address
  | ErrTargetValsDuplicate
  | ErrAlreadyBound acc_address
  | ErrInvalidAddress "acc_address option"
  | ErrUnknownRequest
  | ErrParams string
  | ErrSupply string \<comment> \<open>an error of the supply keeper, handed on\<close>
  | Panic string

subsection \<open>Descriptions\<close>

definition MaxMonikerLength :: nat where "MaxMonikerLength = 70"
definition MaxIdentityLength :: nat where "MaxIdentityLength = 3000"
definition MaxWebsiteLength :: nat where "MaxWebsiteLength = 140"
definition MaxDetailsLength :: nat where "MaxDetailsLength = 280"

definition DoNotModifyDesc :: string where "DoNotModifyDesc = ''[do-not-modify]''"

record description =
  Moniker :: string
  Identity :: string
  Website :: string
  Details :: string

definition NewDescription :: "string \<Rightarrow> string \<Rightarrow> string \<Rightarrow> string \<Rightarrow> description" where
  "NewDescription moniker identity website details =
     \<lparr>Moniker = moniker, Identity = identity, Website = website, Details = details\<rparr>"

definition EnsureLength :: "description \<Rightarrow> staking_error + description" where
  "EnsureLength d =
     (if length (Moniker d) > MaxMonikerLength
        then Inl (ErrDescriptionLength ''moniker'' (length (Moniker d)) MaxMonikerLength)
      else if length (Identity d) > MaxIdentityLength
        then Inl (ErrDescriptionLength ''identity'' (length (Identity d)) MaxIdentityLength)
      else if length (Website d) > MaxWebsiteLength
        then Inl (ErrDescriptionLength ''website'' (length (Website d)) MaxWebsiteLength)
      else if length (Details d) > MaxDetailsLength
        then Inl (ErrDescriptionLength ''details'' (length (Details d)) MaxDetailsLength)
      else Inr d)"

definition UpdateDescription :: "description \<Rightarrow> description \<Rightarrow> staking_error + description" where
  "UpdateDescription d d2 =
     EnsureLength \<lparr>
       Moniker = (if Moniker d2 = DoNotModifyDesc then Moniker d else Moniker d2),
       Identity = (if Identity d2 = DoNotModifyDesc then Identity d else Identity d2),
       Website = (if Website d2 = DoNotModifyDesc then Website d else Website d2),
       Details = (if Details d2 = DoNotModifyDesc then Details d else Details d2)\<rparr>"

subsection \<open>Commissions\<close>

record commission_rates =
  Rate :: dec
  MaxRate :: dec
  MaxChangeRate :: dec

record commission = commission_rates +
  UpdateTime :: timestamp

definition NewCommissionRates :: "dec \<Rightarrow> dec \<Rightarrow> dec \<Rightarrow> commission_rates" where
  "NewCommissionRates rate maxRate maxChangeRate =
     \<lparr>Rate = rate, MaxRate = maxRate, MaxChangeRate = maxChangeRate\<rparr>"

definition NewCommission :: "dec \<Rightarrow> dec \<Rightarrow> dec \<Rightarrow> commission" where
  "NewCommission rate maxRate maxChangeRate =
     commission_rates.extend (NewCommissionRates rate maxRate maxChangeRate)
       (commission.fields 0)"

definition NewCommissionWithTime :: "dec \<Rightarrow> dec \<Rightarrow> dec \<Rightarrow> timestamp \<Rightarrow> commission" where
  "NewCommissionWithTime rate maxRate maxChangeRate updatedAt =
     commission_rates.extend (NewCommissionRates rate maxRate maxChangeRate)
       (commission.fields updatedAt)"

definition CommissionEqual :: "commission \<Rightarrow> commission \<Rightarrow> bool" where
  "CommissionEqual c c2 \<longleftrightarrow>
     Rate c = Rate c2 \<and> MaxRate c = MaxRate c2 \<and>
     MaxChangeRate c = MaxChangeRate c2 \<and> UpdateTime c = UpdateTime c2"

definition CommissionValidate :: "sdk_dec \<Rightarrow> 'a commission_rates_scheme \<Rightarrow> staking_error option" where
  "CommissionValidate A c =
     (if MaxRate c < 0 then Some ErrCommissionNegative
      else if MaxRate c > OneDec A then Some ErrCommissionHuge
      else if Rate c < 0 then Some ErrCommissionNegative
      else if Rate c > MaxRate c then Some ErrCommissionGTMaxRate
      else if MaxChangeRate c < 0 then Some ErrCommissionChangeRateNegative
      else if MaxChangeRate c > MaxRate c then Some ErrCommissionChangeRateGTMaxRate
      else None)"

definition DefaultValidateRateUpdateInterval :: int where
  "DefaultValidateRateUpdateInterval = 24" \<comment> \<open>hours\<close>

definition nanosPerHour :: int where
  "nanosPerHour = 3600 * 10 ^ 9"

definition ValidateNewRate :: "commission \<Rightarrow> dec \<Rightarrow> timestamp \<Rightarrow> staking_error option" where
  "ValidateNewRate c newRate blockTime =
     (if blockTime - UpdateTime c < DefaultValidateRateUpdateInterval * nanosPerHour
        then Some ErrCommissionUpdateTime
      else if newRate < 0 then Some ErrCommissionNegative
      else if newRate > MaxRate c then Some ErrCommissionGTMaxRate
      else if newRate - Rate c > MaxChangeRate c then Some ErrCommissionGTMaxChangeRate
      else None)"

subsection \<open>Validators\<close>

datatype bond_status = Unbonded | Unbonding | Bonded

record validator =
  OperatorAddress :: val_address
  ConsPubKey :: pubkey
  Jailed :: bool
  Status :: bond_status
  vTokens :: int
  DelegatorShares :: dec
  vDescription :: description
  UnbondingHeight :: int
  UnbondingCompletionTime :: timestamp
  vCommission :: commission
  MinSelfDelegation :: dec

definition NewValidator :: "val_address \<Rightarrow> pubkey \<Rightarrow> description \<Rightarrow> dec \<Rightarrow> validator" where
  "NewValidator operator pubKey desc minSelfDelegation = \<lparr>
     OperatorAddress = operator,
     ConsPubKey = pubKey,
     Jailed = False,
     Status = Unbonded,
     vTokens = 0,
     DelegatorShares = 0,
     vDescription = desc,
     UnbondingHeight = 0,
     UnbondingCompletionTime = 0,
     vCommission = NewCommission 0 0 0,
     MinSelfDelegation = minSelfDelegation\<rparr>"

definition IsBonded :: "validator \<Rightarrow> bool" where "IsBonded v \<longleftrightarrow> Status v = Bonded"
definition IsUnbonded :: "validator \<Rightarrow> bool" where "IsUnbonded v \<longleftrightarrow> Status v = Unbonded"
definition IsUnbonding :: "validator \<Rightarrow> bool" where "IsUnbonding v \<longleftrightarrow> Status v = Unbonding"

definition ConsAddress :: "sdk_codec \<Rightarrow> validator \<Rightarrow> cons_address" where
  "ConsAddress C v = PubKeyAddress C (ConsPubKey v)"

definition SetInitialCommission :: "sdk_dec \<Rightarrow> validator \<Rightarrow> commission \<Rightarrow> staking_error + validator" where
  "SetInitialCommission A v c =
     (case CommissionValidate A c of Some e \<Rightarrow> Inl e | None \<Rightarrow> Inr (v\<lparr>vCommission := c\<rparr>))"

definition UpdateStatus :: "validator \<Rightarrow> bond_status \<Rightarrow> validator" where
  "UpdateStatus v newStatus = v\<lparr>Status := newStatus\<rparr>"

definition BondedTokens :: "validator \<Rightarrow> int" where
  "BondedTokens v = (if IsBonded v then vTokens v else 0)"

definition sharesToConsensusPower :: "sdk_dec \<Rightarrow> dec \<Rightarrow> int" where
  "sharesToConsensusPower A shares = DecInt64 A (DecQuoInt A shares (PowerReduction A))"

definition PotentialConsensusPowerByShares :: "sdk_dec \<Rightarrow> validator \<Rightarrow> int" where
  "PotentialConsensusPowerByShares A v = sharesToConsensusPower A (DelegatorShares v)"

definition ConsensusPowerByShares :: "sdk_dec \<Rightarrow> validator \<Rightarrow> int" where
  "ConsensusPowerByShares A v = (if IsBonded v then PotentialConsensusPowerByShares A v else 0)"

definition ConsensusPower :: "sdk_dec \<Rightarrow> validator \<Rightarrow> int" where
  "ConsensusPower A v = (if IsBonded v then PotentialConsensusPowerByShares A v else 0)"

record validator_update =
  vuPubKey :: pubkey
  vuPower :: int

definition ABCIValidatorUpdate :: "sdk_dec \<Rightarrow> validator \<Rightarrow> validator_update" where
  "ABCIValidatorUpdate A v = \<lparr>vuPubKey = ConsPubKey v, vuPower = ConsensusPower A v\<rparr>"

definition ABCIValidatorUpdateZero :: "validator \<Rightarrow> validator_update" where
  "ABCIValidatorUpdateZero v = \<lparr>vuPubKey = ConsPubKey v, vuPower = 0\<rparr>"

definition ABCIValidatorUpdateByShares :: "sdk_dec \<Rightarrow> validator \<Rightarrow> validator_update" where
  "ABCIValidatorUpdateByShares A v =
     \<lparr>vuPubKey = ConsPubKey v, vuPower = ConsensusPowerByShares A v\<rparr>"

definition TestEquivalent :: "validator \<Rightarrow> validator \<Rightarrow> bool" where
  "TestEquivalent v v2 \<longleftrightarrow>
     ConsPubKey v = ConsPubKey v2 \<and> OperatorAddress v = OperatorAddress v2 \<and>
     Status v = Status v2 \<and> vTokens v = vTokens v2 \<and>
     DelegatorShares v = DelegatorShares v2 \<and> vDescription v = vDescription v2 \<and>
     CommissionEqual (vCommission v) (vCommission v2)"

subsection \<open>Delegators, undelegations, pools\<close>

record delegator =
  DelegatorAddress :: acc_address
  ValidatorAddresses :: "val_address list"
  dShares :: dec
  dTokens :: dec
  IsProxy :: bool
  TotalDelegatedTokens :: dec
  ProxyAddress :: "acc_address option"

definition NewDelegator :: "acc_address \<Rightarrow> delegator" where
  "NewDelegator delAddr = \<lparr>
     DelegatorAddress = delAddr,
     ValidatorAddresses = [],
     dShares = 0,
     dTokens = 0,
     IsProxy = False,
     TotalDelegatedTokens = 0,
     ProxyAddress = None\<rparr>"

definition UnbindProxy :: "delegator \<Rightarrow> delegator" where
  "UnbindProxy d = d\<lparr>ProxyAddress := None\<rparr>"

definition RegProxy :: "delegator \<Rightarrow> bool \<Rightarrow> delegator" where
  "RegProxy d reg =
     (let d1 = d\<lparr>IsProxy := reg\<rparr> in if reg then UnbindProxy d1 else d1)"

definition BindProxy :: "delegator \<Rightarrow> acc_address \<Rightarrow> delegator" where
  "BindProxy d proxyAddr = d\<lparr>ProxyAddress := Some proxyAddr, IsProxy := False\<rparr>"

definition HasProxy :: "delegator \<Rightarrow> bool" where
  "HasProxy d \<longleftrightarrow> ProxyAddress d \<noteq> None"

definition GetShareAddedValidatorAddresses :: "delegator \<Rightarrow> val_address list" where
  "GetShareAddedValidatorAddresses d = ValidatorAddresses d"

definition GetLastAddedShares :: "delegator \<Rightarrow> dec" where
  "GetLastAddedShares d = dShares d"

record undelegation_info =
  udDelegatorAddress :: acc_address
  Quantity :: dec
  CompletionTime :: timestamp

definition NewUndelegationInfo :: "acc_address \<Rightarrow> dec \<Rightarrow> timestamp \<Rightarrow> undelegation_info" where
  "NewUndelegationInfo delegatorAddr sharesQuantity completionTime =
     \<lparr>udDelegatorAddress = delegatorAddr, Quantity = sharesQuantity, CompletionTime = completionTime\<rparr>"

definition DefaultUndelegation :: undelegation_info where
  "DefaultUndelegation = \<lparr>udDelegatorAddress = [], Quantity = 0, CompletionTime = 0\<rparr>"

definition NotBondedPoolName :: string where "NotBondedPoolName = ''not_bonded_tokens_pool''"
definition BondedPoolName :: string where "BondedPoolName = ''bonded_tokens_pool''"

subsection \<open>Parameters\<close>

record staking_params =
  pUnbondingTime :: int
  pMaxValidators :: nat
  pEpoch :: nat
  pMaxValsToAddShares :: nat
  pMinDelegation :: dec
  pMinSelfDelegation :: dec

definition NewParams :: "int \<Rightarrow> nat \<Rightarrow> nat \<Rightarrow> nat \<Rightarrow> dec \<Rightarrow> dec \<Rightarrow> staking_params" where
  "NewParams unbondingTime maxValidators epoch maxValsToAddShares minDelegation minSelfDelegation = \<lparr>
     pUnbondingTime = unbondingTime,
     pMaxValidators = maxValidators,
     pEpoch = epoch,
     pMaxValsToAddShares = maxValsToAddShares,
     pMinDelegation = minDelegation,
     pMinSelfDelegation = minSelfDelegation\<rparr>"

definition DefaultUnbondingTime :: int where "DefaultUnbondingTime = nanosPerHour * 24 * 7 * 2"
definition DefaultMaxValidators :: nat where "DefaultMaxValidators = 21"
definition DefaultEpoch :: nat where "DefaultEpoch = 276"
definition DefaultMaxValsToAddShares :: nat where "DefaultMaxValsToAddShares = 30"

definition DefaultMinDelegation :: "sdk_dec \<Rightarrow> dec" where
  "DefaultMinDelegation A = NewDecWithPrec A 1 4"

definition DefaultMinSelfDelegation :: "sdk_dec \<Rightarrow> dec" where
  "DefaultMinSelfDelegation A = NewDec A 500"

definition DefaultParams :: "sdk_dec \<Rightarrow> staking_params" where
  "DefaultParams A =
     NewParams DefaultUnbondingTime DefaultMaxValidators DefaultEpoch DefaultMaxValsToAddShares
       (DefaultMinDelegation A) (DefaultMinSelfDelegation A)"

definition ParamsValidate :: "staking_params \<Rightarrow> staking_error option" where
  "ParamsValidate p =
     (if pMaxValidators p = 0
        then Some (ErrParams ''staking parameter MaxValidators must be a positive integer'')
      else if pEpoch p = 0
        then Some (ErrParams ''staking parameter Epoch must be a positive integer'')
      else if pMaxValsToAddShares p = 0
        then Some (ErrParams ''staking parameter MaxValsToAddShares must be a positive integer'')
      else None)"

subsection \<open>Messages\<close>

record msg_create_validator =
  mcvDescription :: description
  mcvMinSelfDelegation :: sys_coin
  mcvDelegatorAddress :: acc_address
  mcvValidatorAddress :: val_address
  mcvPubKey :: pubkey

record msg_edit_validator =
  mevDescription :: description
  mevValidatorAddress :: val_address

record msg_add_shares =
  masDelAddr :: acc_address
  masValAddrs :: "val_address list"

record msg_bind_proxy =
  mbpDelAddr :: acc_address
  mbpProxyAddress :: acc_address

datatype staking_msg =
    MsgCreateValidator msg_create_validator
  | MsgEditValidator msg_edit_validator
  | MsgDestroyValidator acc_address
  | MsgDeposit acc_address sys_coin
  | MsgWithdraw acc_address sys_coin
  | MsgAddShares msg_add_shares
  | MsgBindProxy msg_bind_proxy
  | MsgUnbindProxy acc_address
  | MsgRegProxy acc_address bool

definition NewMsgCreateValidator ::
    "val_address \<Rightarrow> pubkey \<Rightarrow> description \<Rightarrow> sys_coin \<Rightarrow> staking_msg" where
  "NewMsgCreateValidator valAddr pubKey desc minSelfDelegation =
     MsgCreateValidator \<lparr>
       mcvDescription = desc,
       mcvMinSelfDelegation = minSelfDelegation,
       mcvDelegatorAddress = valAddr,
       mcvValidatorAddress = valAddr,
       mcvPubKey = pubKey\<rparr>"

definition emptyDescription :: description where
  "emptyDescription = \<lparr>Moniker = [], Identity = [], Website = [], Details = []\<rparr>"

text \<open>The loop of \<open>isValsDuplicate\<close>: the set of addresses seen so far is the Go map
  \<open>filter\<close>.\<close>

fun valsDuplicateLoop :: "val_address list \<Rightarrow> val_address list \<Rightarrow> bool" where
  "valsDuplicateLoop seen [] = False"
| "valsDuplicateLoop seen (a # as) = (if a \<in> set seen then True else valsDuplicateLoop (a # seen) as)"

definition isValsDuplicate :: "val_address list \<Rightarrow> bool" where
  "isValsDuplicate valAddrs = valsDuplicateLoop [] valAddrs"

definition ValidateBasicCreateValidator :: "sdk_dec \<Rightarrow> msg_create_validator \<Rightarrow> staking_error option" where
  "ValidateBasicCreateValidator A m =
     (if EmptyAddr (mcvDelegatorAddress m) then Some ErrNilDelegatorAddr
      else if EmptyAddr (mcvValidatorAddress m) then Some ErrNilValidatorAddr
      else if mcvValidatorAddress m \<noteq> mcvDelegatorAddress m then Some ErrBadValidatorAddr
      else if Amount (mcvMinSelfDelegation m) \<le> 0
            \<or> \<not> CoinIsValid A (mcvMinSelfDelegation m)
            \<or> Amount (mcvMinSelfDelegation m) < NewDec A 500
        then Some ErrMinSelfDelegationInvalid
      else if mcvDescription m = emptyDescription then Some ErrDescriptionIsEmpty
      else None)"

definition ValidateBasicEditValidator :: "msg_edit_validator \<Rightarrow> staking_error option" where
  "ValidateBasicEditValidator m =
     (if EmptyAddr (mevValidatorAddress m) then Some ErrNilValidatorAddr
      else if mevDescription m = emptyDescription then Some ErrNilValidatorAddr
      else None)"

definition ValidateBasicBindProxy :: "msg_bind_proxy \<Rightarrow> staking_error option" where
  "ValidateBasicBindProxy m =
     (if EmptyAddr (mbpDelAddr m) \<or> EmptyAddr (mbpProxyAddress m) then Some ErrNilDelegatorAddr
      else if mbpDelAddr m = mbpProxyAddress m then Some ErrDelegatorEqualToProxyAddr
      else None)"

definition ValidateBasicAddShares :: "msg_add_shares \<Rightarrow> staking_error option" where
  "ValidateBasicAddShares m =
     (if EmptyAddr (masDelAddr m) then Some ErrNilDelegatorAddr
      else if masValAddrs m = [] then Some ErrBadValidatorAddr
      else if isValsDuplicate (masValAddrs m) then Some ErrTargetValsDuplicate
      else None)"

definition ValidateBasicDeposit :: "sdk_dec \<Rightarrow> acc_address \<Rightarrow> sys_coin \<Rightarrow> staking_error option" where
  "ValidateBasicDeposit A delAddr amount =
     (if EmptyAddr delAddr then Some ErrNilDelegatorAddr
      else if Amount amount \<le> 0 \<or> \<not> CoinIsValid A amount then Some ErrBadDelegationAmount
      else None)"

definition ValidateBasicWithdraw :: "sdk_dec \<Rightarrow> acc_address \<Rightarrow> sys_coin \<Rightarrow> staking_error option" where
  "ValidateBasicWithdraw A delAddr amount =
     (if EmptyAddr delAddr then Some ErrNilDelegatorAddr
      else if \<not> CoinIsValid A amount then Some ErrBadUnDelegationAmount
      else None)"

definition ValidateBasicNonEmpty :: "acc_address \<Rightarrow> staking_error option" where
  "ValidateBasicNonEmpty delAddr = (if EmptyAddr delAddr then Some ErrNilDelegatorAddr else None)"

fun ValidateBasic :: "sdk_dec \<Rightarrow> staking_msg \<Rightarrow> staking_error option" where
  "ValidateBasic A (MsgCreateValidator m) = ValidateBasicCreateValidator A m"
| "ValidateBasic A (MsgEditValidator m) = ValidateBasicEditValidator m"
| "ValidateBasic A (MsgDestroyValidator d) = ValidateBasicNonEmpty d"
| "ValidateBasic A (MsgDeposit d c) = ValidateBasicDeposit A d c"
| "ValidateBasic A (MsgWithdraw d c) = ValidateBasicWithdraw A d c"
| "ValidateBasic A (MsgAddShares m) = ValidateBasicAddShares m"
| "ValidateBasic A (MsgBindProxy m) = ValidateBasicBindProxy m"
| "ValidateBasic A (MsgUnbindProxy d) = ValidateBasicNonEmpty d"
| "ValidateBasic A (MsgRegProxy p reg) = ValidateBasicNonEmpty p"

fun GetSigners :: "staking_msg \<Rightarrow> acc_address list" where
  "GetSigners (MsgCreateValidator m) = [mcvDelegatorAddress m]"
| "GetSigners (MsgEditValidator m) = [mevValidatorAddress m]"
| "GetSigners (MsgDestroyValidator d) = [d]"
| "GetSigners (MsgDeposit d c) = [d]"
| "GetSigners (MsgWithdraw d c) = [d]"
| "GetSigners (MsgAddShares m) = [masDelAddr m]"
| "GetSigners (MsgBindProxy m) = [mbpDelAddr m]"
| "GetSigners (MsgUnbindProxy d) = [d]"
| "GetSigners (MsgRegProxy p reg) = [p]"

subsection \<open>Exported validators\<close>

record validator_exported =
  xOperatorAddress :: val_address
  xConsPubKey :: string
  xJailed :: bool
  xStatus :: bond_status
  xDelegatorShares :: dec
  xDescription :: description
  xUnbondingHeight :: int
  xUnbondingCompletionTime :: timestamp
  xMinSelfDelegation :: dec

definition Export :: "sdk_codec \<Rightarrow> validator \<Rightarrow> staking_error + validator_exported" where
  "Export C v =
     (case ConvertAndEncode C (ConsPubKey v) of
        None \<Rightarrow> Inl (Panic ''bech32 of consensus pubkey error'')
      | Some consPkStr \<Rightarrow> Inr \<lparr>
          xOperatorAddress = OperatorAddress v,
          xConsPubKey = consPkStr,
          xJailed = Jailed v,
          xStatus = Status v,
          xDelegatorShares = DelegatorShares v,
          xDescription = vDescription v,
          xUnbondingHeight = UnbondingHeight v,
          xUnbondingCompletionTime = UnbondingCompletionTime v,
          xMinSelfDelegation = MinSelfDelegation v\<rparr>)"

definition Import :: "sdk_dec \<Rightarrow> sdk_codec \<Rightarrow> validator_exported \<Rightarrow> staking_error + validator" where
  "Import A C ve =
     (case DecodePubKey C (xConsPubKey ve) of
        None \<Rightarrow> Inl (Panic ''failed. consensus pubkey is parsed error'')
      | Some consPk \<Rightarrow> Inr \<lparr>
          OperatorAddress = xOperatorAddress ve,
          ConsPubKey = consPk,
          Jailed = xJailed ve,
          Status = xStatus ve,
          vTokens = 0,
          DelegatorShares = xDelegatorShares ve,
          vDescription = xDescription ve,
          UnbondingHeight = xUnbondingHeight ve,
          UnbondingCompletionTime = xUnbondingCompletionTime ve,
          vCommission = NewCommission (NewDec A 1) (NewDec A 1) (NewDec A 0),
          MinSelfDelegation = xMinSelfDelegation ve\<rparr>)"

subsection \<open>Properties\<close>

lemma valsDuplicateLoop_iff:
  "valsDuplicateLoop seen as \<longleftrightarrow> \<not> (distinct as \<and> set as \<inter> set seen = {})"
  by (induction as arbitrary: seen) auto

text \<open>the duplicate check of the share messages answers true exactly when an address occurs
  twice in the list.\<close>

theorem isValsDuplicate_iff: "isValsDuplicate valAddrs \<longleftrightarrow> \<not> distinct valAddrs"
  by (simp add: isValsDuplicate_def valsDuplicateLoop_iff)

text \<open>a validator that was exported to genesis and imported again is the validator with its
  consensus key, status and shares, no tokens and the fixed commission.\<close>

theorem Import_Export:
  assumes "pubkey_decodes C" and "Export C v = Inr ve"
  shows "Import A C ve =
    Inr (v\<lparr>vTokens := 0, vCommission := NewCommission (NewDec A 1) (NewDec A 1) (NewDec A 0)\<rparr>)"
  using assms by (auto simp: Export_def Import_def pubkey_decodes_def split: option.splits)

theorem Import_Export_witness:
  "Import dec18 codec0 (projr (Export codec0 (NewValidator [1] [2] emptyDescription 7))) =
     Inr ((NewValidator [1] [2] emptyDescription 7)
       \<lparr>vTokens := 0, vCommission := NewCommission (10 ^ 18) (10 ^ 18) 0\<rparr>)"
proof -
  have "Export codec0 (NewValidator [1] [2] emptyDescription 7) =
      Inr (projr (Export codec0 (NewValidator [1] [2] emptyDescription 7)))"
    by (simp add: Export_def codec0_def)
  from Import_Export [OF codec0_pubkey_decodes this, of dec18] show ?thesis
    by (simp add: NewDec_def dec18_def)
qed

lemma CommissionValidate_None:
  "CommissionValidate A c = None \<longleftrightarrow>
     0 \<le> Rate c \<and> Rate c \<le> MaxRate c \<and> MaxRate c \<le> OneDec A \<and>
     0 \<le> MaxChangeRate c \<and> MaxChangeRate c \<le> MaxRate c"
  by (auto simp: CommissionValidate_def)

text \<open>a rate change that \<open>ValidateNewRate\<close> accepts keeps a valid commission valid, comes
  at least a day after the last one and rises by at most the maximal change.\<close>

theorem ValidateNewRate_keeps_valid:
  assumes "CommissionValidate A c = None" and "ValidateNewRate c newRate blockTime = None"
  shows "CommissionValidate A (c\<lparr>Rate := newRate, UpdateTime := blockTime\<rparr>) = None
    \<and> newRate \<le> Rate c + MaxChangeRate c \<and> UpdateTime c + 24 * nanosPerHour \<le> blockTime"
  using assms
  by (auto simp: CommissionValidate_None ValidateNewRate_def DefaultValidateRateUpdateInterval_def
      split: if_splits)

theorem ValidateNewRate_keeps_valid_witness:
  "CommissionValidate dec18 ((NewCommissionWithTime 5 20 10 0)
     \<lparr>Rate := 12, UpdateTime := 86400 * 10 ^ 9\<rparr>) = None"
proof -
  have "CommissionValidate dec18 (NewCommissionWithTime 5 20 10 0) = None"
    and "ValidateNewRate (NewCommissionWithTime 5 20 10 0) 12 (86400 * 10 ^ 9) = None"
    by (simp_all add: CommissionValidate_def ValidateNewRate_def NewCommissionWithTime_def
        NewCommissionRates_def commission_rates.defs commission.defs dec18_def
        DefaultValidateRateUpdateInterval_def nanosPerHour_def)
  from ValidateNewRate_keeps_valid [OF this] show ?thesis by blast
qed

end
