(* ===== verification/Staking_Keys.thy ===== *)
theory Staking_Keys
  imports Staking_Types
begin

unbundle bit_operations_syntax

text \<open>
  The store keys of the staking module (staking/types/keys.go) as byte strings. The power-index
  key is the one the code iterates over to choose the validator set; its order is what makes the
  choice right, so the lemmas here show that the byte order of the keys is the order by power and,
  between equal powers, the reverse order of the operator addresses.
\<close>

definition AddrLen :: nat where "AddrLen = 20"

definition LastValidatorPowerKey :: byte where "LastValidatorPowerKey = 0x11"
definition ValidatorsKey :: byte where "ValidatorsKey = 0x21"
definition ValidatorsByConsAddrKey :: byte where "ValidatorsByConsAddrKey = 0x22"
definition ValidatorsByPowerIndexKey :: byte where "ValidatorsByPowerIndexKey = 0x23"
definition ValidatorQueueKey :: byte where "ValidatorQueueKey = 0x43"
definition SharesKey :: byte where "SharesKey = 0x51"
definition DelegatorKey :: byte where "DelegatorKey = 0x52"
definition UnDelegationInfoKey :: byte where "UnDelegationInfoKey = 0x53"
definition UnDelegateQueueKey :: byte where "UnDelegateQueueKey = 0x54"
definition ProxyKey :: byte where "ProxyKey = 0x55"

definition GetValidatorKey :: "val_address \<Rightarrow> bytes" where
  "GetValidatorKey operatorAddr = ValidatorsKey # operatorAddr"

definition GetValidatorByConsAddrKey :: "cons_address \<Rightarrow> bytes" where
  "GetValidatorByConsAddrKey addr = ValidatorsByConsAddrKey # addr"

definition AddressFromLastValidatorPowerKey :: "bytes \<Rightarrow> bytes" where
  "AddressFromLastValidatorPowerKey key = drop 1 key"

definition GetLastValidatorPowerKey :: "val_address \<Rightarrow> bytes" where
  "GetLastValidatorPowerKey operator = LastValidatorPowerKey # operator"

definition GetValidatorQueueTimeKey :: "sdk_codec \<Rightarrow> timestamp \<Rightarrow> bytes" where
  "GetValidatorQueueTimeKey C t = ValidatorQueueKey # FormatTimeBytes C t"

definition GetDelegatorKey :: "acc_address \<Rightarrow> bytes" where
  "GetDelegatorKey delAddr = DelegatorKey # delAddr"

definition GetProxyDelegatorKey :: "acc_address \<Rightarrow> acc_address \<Rightarrow> bytes" where
  "GetProxyDelegatorKey proxyAddr delAddr = (ProxyKey # proxyAddr) @ delAddr"

definition GetSharesToValidatorsKey :: "val_address \<Rightarrow> bytes" where
  "GetSharesToValidatorsKey valAddr = SharesKey # valAddr"

definition GetSharesKey :: "val_address \<Rightarrow> acc_address \<Rightarrow> bytes" where
  "GetSharesKey valAddr delAddr = GetSharesToValidatorsKey valAddr @ delAddr"

definition GetUndelegationInfoKey :: "acc_address \<Rightarrow> bytes" where
  "GetUndelegationInfoKey delAddr = UnDelegationInfoKey # delAddr"

definition GetCompleteTimeKey :: "sdk_codec \<Rightarrow> timestamp \<Rightarrow> bytes" where
  "GetCompleteTimeKey C t = UnDelegateQueueKey # FormatTimeBytes C t"

definition GetCompleteTimeWithAddrKey :: "sdk_codec \<Rightarrow> timestamp \<Rightarrow> acc_address \<Rightarrow> bytes" where
  "GetCompleteTimeWithAddrKey C t delAddr = GetCompleteTimeKey C t @ delAddr"

definition SplitCompleteTimeWithAddrKey ::
    "sdk_codec \<Rightarrow> bytes \<Rightarrow> staking_error + (timestamp \<times> acc_address)" where
  "SplitCompleteTimeWithAddrKey C key =
     (if length (drop 1 key) \<noteq> LenTime C + AddrLen then Inl (Panic ''unexpected key length'')
      else case ParseTimeBytes C (take (LenTime C) (drop 1 key)) of
        None \<Rightarrow> Inl (Panic ''parse time'')
      | Some endTime \<Rightarrow> Inr (endTime, drop (1 + LenTime C) key))"

text \<open>\<open>binary.BigEndian.PutUint64\<close> and the rank key
  \<open>prefix || power || inverted address\<close>, in a slice of fixed length.\<close>

definition PutUint64 :: "64 word \<Rightarrow> bytes" where
  "PutUint64 v = map (\<lambda>s. ucast (drop_bit s v)) [56, 48, 40, 32, 24, 16, 8, 0]"

definition copyInto :: "nat \<Rightarrow> bytes \<Rightarrow> bytes" where
  "copyInto n bs = take n (bs @ replicate n 0)"

definition getValidatorPowerRank :: "sdk_dec \<Rightarrow> validator \<Rightarrow> bytes" where
  "getValidatorPowerRank A v =
     (let consensusPower = sharesToConsensusPower A (DelegatorShares v);
          powerBytes = PutUint64 (word_of_int consensusPower);
          operAddrInvr = map (\<lambda>b. NOT b) (OperatorAddress v)
      in ValidatorsByPowerIndexKey # powerBytes @ copyInto AddrLen operAddrInvr)"

definition GetValidatorsByPowerIndexKey :: "sdk_dec \<Rightarrow> validator \<Rightarrow> bytes" where
  "GetValidatorsByPowerIndexKey A v = getValidatorPowerRank A v"

subsection \<open>Byte order of big-endian integers\<close>

text \<open>The reference encoding: \<open>k\<close> base-256 digits, most significant first.\<close>

fun digits256 :: "nat \<Rightarrow> nat \<Rightarrow> bytes" where
  "digits256 0 n = []"
| "digits256 (Suc k) n = word_of_nat (n div 256 ^ k) # digits256 k (n mod 256 ^ k)"

lemma length_digits256 [simp]: "length (digits256 k n) = k"
  by (induction k arbitrary: n) simp_all

lemma word_of_nat_less_byte:
  "a < 256 \<Longrightarrow> b < 256 \<Longrightarrow> (word_of_nat a :: byte) < word_of_nat b \<longleftrightarrow> a < b"
  by (simp add: word_less_nat_alt unat_of_nat)

lemma word_of_nat_eq_byte:
  "a < 256 \<Longrightarrow> b < 256 \<Longrightarrow> (word_of_nat a :: byte) = word_of_nat b \<longleftrightarrow> a = b"
  by (simp add: word_unat_eq_iff unat_of_nat)

lemma less_by_div_mod:
  fixes a b c :: nat
  assumes "0 < c"
  shows "a < b \<longleftrightarrow> a div c < b div c \<or> a div c = b div c \<and> a mod c < b mod c"
proof -
  have "a div c \<le> b div c" if "a < b"
    using that by (simp add: div_le_mono)
  moreover have "a < b" if "a div c < b div c"
    using that by (metis div_le_mono not_le)
  moreover have "a div c = b div c \<Longrightarrow> a < b \<longleftrightarrow> a mod c < b mod c"
    by (metis add_less_cancel_left div_mult_mod_eq)
  ultimately show ?thesis by (metis le_neq_implies_less)
qed

lemma digits256_less:
  "a < 256 ^ k \<Longrightarrow> b < 256 ^ k \<Longrightarrow> digits256 k a < digits256 k b \<longleftrightarrow> a < b"
proof (induction k arbitrary: a b)
  case 0
  then show ?case by simp
next
  case (Suc k)
  have small: "a div 256 ^ k < 256" "b div 256 ^ k < 256"
    using Suc.prems by (simp_all add: less_mult_imp_div_less)
  have "a mod 256 ^ k < 256 ^ k" "b mod 256 ^ k < 256 ^ k" by simp_all
  then have "digits256 k (a mod 256 ^ k) < digits256 k (b mod 256 ^ k) \<longleftrightarrow>
      a mod 256 ^ k < b mod 256 ^ k"
    by (rule Suc.IH)
  with small show ?case
    by (simp add: word_of_nat_less_byte word_of_nat_eq_byte less_by_div_mod [of "256 ^ k" a b])
qed

lemma byte_of_mod:
  assumes "i < k"
  shows "(word_of_nat (n mod 256 ^ k div 256 ^ i) :: byte) = word_of_nat (n div 256 ^ i)"
proof -
  have p: "(256 :: nat) ^ j = 2 ^ (8 * j)" for j by (simp add: power_mult)
  have "take_bit 8 (drop_bit (8 * i) (take_bit (8 * k) n)) = take_bit 8 (drop_bit (8 * i) n)"
    using assms by (simp add: drop_bit_take_bit)
  then have "n mod 256 ^ k div 256 ^ i mod 256 = n div 256 ^ i mod 256"
    by (simp add: take_bit_eq_mod drop_bit_eq_div p)
  then show ?thesis by (simp add: word_unat_eq_iff unat_of_nat)
qed

lemma digits256_map: "digits256 k n = map (\<lambda>i. word_of_nat (n div 256 ^ i)) (rev [0..<k])"
proof (induction k arbitrary: n)
  case 0
  then show ?case by simp
next
  case (Suc k)
  have "digits256 k (n mod 256 ^ k) = map (\<lambda>i. word_of_nat (n div 256 ^ i)) (rev [0..<k])"
    unfolding Suc.IH by (rule map_cong) (simp_all add: byte_of_mod)
  then show ?case by simp
qed

lemma PutUint64_digits: "PutUint64 v = digits256 8 (unat v)"
proof -
  have "unat (drop_bit s v) = unat v div 2 ^ s" for s
    by (metis unat_drop_bit_eq drop_bit_eq_div)
  then have "ucast (drop_bit s v) = (word_of_nat (unat v div 2 ^ s) :: byte)" for s
    by (simp add: word_unat_eq_iff unat_of_nat unsigned_ucast_eq take_bit_eq_mod)
  moreover have "rev [0..<8] = [7, 6, 5, 4, 3, 2, 1, 0::nat]" by (simp add: upt_rec)
  ultimately show ?thesis by (simp add: PutUint64_def digits256_map)
qed

lemma length_PutUint64 [simp]: "length (PutUint64 v) = 8"
  by (simp add: PutUint64_def)

lemma PutUint64_less: "PutUint64 v < PutUint64 w \<longleftrightarrow> v < w"
proof -
  have "unat x < 256 ^ 8" for x :: "64 word"
    using unsigned_less [of x, where ?'a = nat] by simp
  then show ?thesis
    unfolding PutUint64_digits by (subst digits256_less) (auto simp: word_less_nat_alt)
qed

lemma PutUint64_inj: "PutUint64 v = PutUint64 w \<longleftrightarrow> v = w"
  using PutUint64_less [of v w] PutUint64_less [of w v] by (metis less_irrefl linorder_neqE)

subsection \<open>Order of the rank keys\<close>

lemma append_less_append:
  fixes xs ys :: "'a::linorder list"
  shows "length xs = length ys \<Longrightarrow> xs @ us < ys @ vs \<longleftrightarrow> xs < ys \<or> xs = ys \<and> us < vs"
  by (induction xs ys rule: list_induct2) auto

lemma not_byte_less: "NOT a < NOT b \<longleftrightarrow> b < (a :: byte)"
proof -
  have flip: "unat (NOT x) = 255 - unat x" for x :: byte
  proof -
    have "NOT x = - 1 - x" and "(- 1 :: byte) = 255" by (simp_all add: not_eq_complement)
    moreover have "x \<le> - 1" by simp
    ultimately have "unat (NOT x) = unat (255 :: byte) - unat x" by (metis unat_sub)
    then show ?thesis by simp
  qed
  have "unat a < 256" "unat b < 256"
    using unsigned_less [of a, where ?'a = nat] unsigned_less [of b, where ?'a = nat] by simp_all
  then show ?thesis by (auto simp: word_less_nat_alt flip)
qed

lemma map_not_less:
  "length xs = length ys \<Longrightarrow> map (\<lambda>b. NOT b) xs < map (\<lambda>b. NOT b) ys \<longleftrightarrow> ys < (xs :: bytes)"
  by (induction xs ys rule: list_induct2) (auto simp: not_byte_less)

lemma copyInto_exact: "length bs = n \<Longrightarrow> copyInto n bs = bs"
  by (simp add: copyInto_def)

text \<open>A power is an \<open>int64\<close> that is not negative.\<close>

definition power_ok :: "sdk_dec \<Rightarrow> validator \<Rightarrow> bool" where
  "power_ok A v \<longleftrightarrow> 0 \<le> PotentialConsensusPowerByShares A v
     \<and> PotentialConsensusPowerByShares A v < 2 ^ 63"

lemma word_of_int_less_64:
  assumes "0 \<le> a" "a < 2 ^ 63" "0 \<le> b" "b < 2 ^ 63"
  shows "(word_of_int a :: 64 word) < word_of_int b \<longleftrightarrow> a < b"
  using assms by (simp add: word_less_def uint_word_of_int)

lemma rank_less:
  assumes "length (OperatorAddress v) = AddrLen" "length (OperatorAddress w) = AddrLen"
    and "power_ok A v" "power_ok A w"
  shows "getValidatorPowerRank A v < getValidatorPowerRank A w \<longleftrightarrow>
     PotentialConsensusPowerByShares A v < PotentialConsensusPowerByShares A w \<or>
     PotentialConsensusPowerByShares A v = PotentialConsensusPowerByShares A w \<and>
     OperatorAddress w < OperatorAddress v"
proof -
  let ?p = "PotentialConsensusPowerByShares A v" and ?q = "PotentialConsensusPowerByShares A w"
  have less: "(word_of_int ?p :: 64 word) < word_of_int ?q \<longleftrightarrow> ?p < ?q"
    and eq: "(word_of_int ?p :: 64 word) = word_of_int ?q \<longleftrightarrow> ?p = ?q"
    using assms(3,4) word_of_int_less_64 [of ?p ?q] word_of_int_less_64 [of ?q ?p]
    by (auto simp: power_ok_def)
  show ?thesis
    using assms(1,2) less eq
    by (simp add: getValidatorPowerRank_def PotentialConsensusPowerByShares_def append_less_append
        PutUint64_less PutUint64_inj copyInto_exact map_not_less)
qed

lemma rank_inj:
  assumes "length (OperatorAddress v) = AddrLen" "length (OperatorAddress w) = AddrLen"
    and "power_ok A v" "power_ok A w"
    and "getValidatorPowerRank A v = getValidatorPowerRank A w"
  shows "OperatorAddress v = OperatorAddress w"
  using rank_less [OF assms(1-4)] rank_less [OF assms(2,1,4,3)] assms(5)
  by (metis less_irrefl linorder_neqE)

text \<open>the undelegation queue key of a time and an address splits back into them.\<close>

theorem SplitCompleteTimeWithAddrKey_roundtrip:
  assumes "time_decodes C t" and "length delAddr = AddrLen"
  shows "SplitCompleteTimeWithAddrKey C (GetCompleteTimeWithAddrKey C t delAddr) = Inr (t, delAddr)"
  using assms
  by (simp add: SplitCompleteTimeWithAddrKey_def GetCompleteTimeWithAddrKey_def
      GetCompleteTimeKey_def time_decodes_def)

theorem SplitCompleteTimeWithAddrKey_roundtrip_witness:
  "SplitCompleteTimeWithAddrKey codec0 (GetCompleteTimeWithAddrKey codec0 5 (replicate 20 3)) =
     Inr (5, replicate 20 3)"
proof -
  have "time_decodes codec0 5"
    by (simp add: time_decodes_def codec0_def)
  then show ?thesis
    by (rule SplitCompleteTimeWithAddrKey_roundtrip) (simp add: AddrLen_def)
qed

end
