(* ===== verification/Staking_Store.thy ===== *)
theory Staking_Store
  imports Staking_Keys
begin

text \<open>
  The staking keeper's state and its elementary reads and writes (staking/keeper/validator.go,
  delegator.go, shares.go, params.go, keeper.go and the record accessors of delegation.go and
  proxy.go). One field per key prefix of staking/types/keys.go; records are stored decoded. The
  time queues are keyed by the time itself, whose byte encoding is sortable, and composite keys by
  pairs of addresses, whose length is fixed.

  The state outside the module (accounts, module accounts, the stores of the other modules) is a
  value of type \<open>'w\<close>; \<open>staking_env\<close> holds the supply keeper and the hooks as functions on
  it, together with the SDK operations and constants.
\<close>

record 'w staking_state =
  st_validators :: "(val_address, validator) kv"
  st_byConsAddr :: "(cons_address, val_address) kv"
  st_powerIndex :: "(bytes, val_address) kv"
  st_lastPower :: "(val_address, int) kv"
  st_lastTotalPower :: "int option"
  st_valQueue :: "(timestamp, val_address list) kv"
  st_shares :: "(val_address \<times> acc_address, dec) kv"
  st_delegators :: "(acc_address, delegator) kv"
  st_undelegations :: "(acc_address, undelegation_info) kv"
  st_unQueue :: "(timestamp \<times> acc_address, unit) kv"
  st_proxies :: "(acc_address \<times> acc_address, unit) kv"
  st_abandoned :: "val_address list"
  st_epoch :: "nat option"
  st_endOfLastEpoch :: "int option"
  st_params :: staking_params
  st_world :: 'w

record block_ctx =
  BlockHeight :: int
  BlockTime :: timestamp
  PubKeyTypes :: "string list option" \<comment> \<open>\<open>ConsensusParams().Validator.PubKeyTypes\<close>, if set\<close>

datatype staking_hook =
    HookValidatorCreated val_address
  | HookValidatorModified val_address
  | HookValidatorRemoved cons_address val_address
  | HookValidatorBonded cons_address val_address
  | HookValidatorBeginUnbonding cons_address val_address
  | HookValidatorDestroyed cons_address val_address

type_synonym 'w hook_impl =
  "staking_hook \<Rightarrow> 'w staking_state \<Rightarrow> staking_error + 'w staking_state"

record 'w staking_env =
  arith :: sdk_dec
  codec :: sdk_codec
  DelegateCoinsFromAccountToModule ::
    "'w \<Rightarrow> acc_address \<Rightarrow> string \<Rightarrow> sys_coins \<Rightarrow> staking_error + 'w"
  UndelegateCoinsFromModuleToAccount ::
    "'w \<Rightarrow> string \<Rightarrow> acc_address \<Rightarrow> sys_coins \<Rightarrow> staking_error + 'w"
  SendCoinsFromModuleToModule ::
    "'w \<Rightarrow> string \<Rightarrow> string \<Rightarrow> sys_coins \<Rightarrow> staking_error + 'w"
  poolAmount :: "'w \<Rightarrow> string \<Rightarrow> dec"
    \<comment> \<open>\<open>GetModuleAccount(name).GetCoins().AmountOf(BondDenom)\<close>\<close>
  hooks :: "'w hook_impl option"
  DefaultLevelUpBlockHeight :: int
  DefaultLevelUpUnbondingTime :: int
  Precision :: nat

subsection \<open>Validators\<close>

definition GetValidator :: "'w staking_state \<Rightarrow> val_address \<Rightarrow> validator option" where
  "GetValidator s addr = kv_get (st_validators s) addr"

definition mustGetValidator :: "'w staking_state \<Rightarrow> val_address \<Rightarrow> staking_error + validator" where
  "mustGetValidator s addr =
     (case GetValidator s addr of
        None \<Rightarrow> Inl (Panic ''validator record not found for address'')
      | Some v \<Rightarrow> Inr v)"

definition GetValidatorByConsAddr :: "'w staking_state \<Rightarrow> cons_address \<Rightarrow> validator option" where
  "GetValidatorByConsAddr s consAddr =
     (case kv_get (st_byConsAddr s) consAddr of None \<Rightarrow> None | Some opAddr \<Rightarrow> GetValidator s opAddr)"

definition mustGetValidatorByConsAddr ::
    "'w staking_state \<Rightarrow> cons_address \<Rightarrow> staking_error + validator" where
  "mustGetValidatorByConsAddr s consAddr =
     (case GetValidatorByConsAddr s consAddr of
        None \<Rightarrow> Inl (Panic ''validator with consensus-Address not found'')
      | Some v \<Rightarrow> Inr v)"

definition SetValidator :: "'w staking_state \<Rightarrow> validator \<Rightarrow> 'w staking_state" where
  "SetValidator s v = s\<lparr>st_validators := kv_set (OperatorAddress v) v (st_validators s)\<rparr>"

definition SetValidatorByConsAddr ::
    "'w staking_env \<Rightarrow> 'w staking_state \<Rightarrow> validator \<Rightarrow> 'w staking_state" where
  "SetValidatorByConsAddr E s v =
     s\<lparr>st_byConsAddr := kv_set (ConsAddress (codec E) v) (OperatorAddress v) (st_byConsAddr s)\<rparr>"

definition SetNewValidatorByPowerIndex ::
    "'w staking_env \<Rightarrow> 'w staking_state \<Rightarrow> validator \<Rightarrow> 'w staking_state" where
  "SetNewValidatorByPowerIndex E s v =
     s\<lparr>st_powerIndex :=
         kv_set (GetValidatorsByPowerIndexKey (arith E) v) (OperatorAddress v) (st_powerIndex s)\<rparr>"

definition SetValidatorByPowerIndex ::
    "'w staking_env \<Rightarrow> 'w staking_state \<Rightarrow> validator \<Rightarrow> 'w staking_state" where
  "SetValidatorByPowerIndex E s v =
     (if Jailed v then s
      else s\<lparr>st_powerIndex :=
               kv_set (GetValidatorsByPowerIndexKey (arith E) v) (OperatorAddress v) (st_powerIndex s)\<rparr>)"

definition DeleteValidatorByPowerIndex ::
    "'w staking_env \<Rightarrow> 'w staking_state \<Rightarrow> validator \<Rightarrow> 'w staking_state" where
  "DeleteValidatorByPowerIndex E s v =
     s\<lparr>st_powerIndex := kv_del (GetValidatorsByPowerIndexKey (arith E) v) (st_powerIndex s)\<rparr>"

definition runHook ::
    "'w staking_env \<Rightarrow> staking_hook \<Rightarrow> 'w staking_state \<Rightarrow> staking_error + 'w staking_state" where
  "runHook E ev s = (case hooks E of None \<Rightarrow> Inr s | Some h \<Rightarrow> h ev s)"

definition AfterValidatorCreated ::
    "'w staking_env \<Rightarrow> 'w staking_state \<Rightarrow> val_address \<Rightarrow> staking_error + 'w staking_state" where
  "AfterValidatorCreated E s valAddr = runHook E (HookValidatorCreated valAddr) s"

definition BeforeValidatorModified ::
    "'w staking_env \<Rightarrow> 'w staking_state \<Rightarrow> val_address \<Rightarrow> staking_error + 'w staking_state" where
  "BeforeValidatorModified E s valAddr = runHook E (HookValidatorModified valAddr) s"

definition AfterValidatorRemoved ::
    "'w staking_env \<Rightarrow> 'w staking_state \<Rightarrow> cons_address \<Rightarrow> val_address \<Rightarrow> staking_error + 'w staking_state" where
  "AfterValidatorRemoved E s consAddr valAddr = runHook E (HookValidatorRemoved consAddr valAddr) s"

definition AfterValidatorBonded ::
    "'w staking_env \<Rightarrow> 'w staking_state \<Rightarrow> cons_address \<Rightarrow> val_address \<Rightarrow> staking_error + 'w staking_state" where
  "AfterValidatorBonded E s consAddr valAddr = runHook E (HookValidatorBonded consAddr valAddr) s"

definition AfterValidatorBeginUnbonding ::
    "'w staking_env \<Rightarrow> 'w staking_state \<Rightarrow> cons_address \<Rightarrow> val_address \<Rightarrow> staking_error + 'w staking_state" where
  "AfterValidatorBeginUnbonding E s consAddr valAddr =
     runHook E (HookValidatorBeginUnbonding consAddr valAddr) s"

definition AfterValidatorDestroyed ::
    "'w staking_env \<Rightarrow> 'w staking_state \<Rightarrow> cons_address \<Rightarrow> val_address \<Rightarrow> staking_error + 'w staking_state" where
  "AfterValidatorDestroyed E s consAddr valAddr = runHook E (HookValidatorDestroyed consAddr valAddr) s"

text \<open>Several hooks run in array sequence.\<close>

definition MultiStakingHooks :: "'w hook_impl list \<Rightarrow> 'w hook_impl" where
  "MultiStakingHooks hs ev s = foldE (\<lambda>s h. h ev s) s hs"

definition RemoveValidator ::
    "'w staking_env \<Rightarrow> 'w staking_state \<Rightarrow> val_address \<Rightarrow> staking_error + 'w staking_state" where
  "RemoveValidator E s address =
     (case GetValidator s address of
        None \<Rightarrow> Inr s
      | Some v \<Rightarrow>
          if \<not> IsUnbonded v
            then Inl (Panic ''cannot call RemoveValidator on bonded or unbonding validators'')
          else if vTokens v > 0
            then Inl (Panic ''attempting to remove a validator which still contains tokens'')
          else
            AfterValidatorRemoved E
              (s\<lparr>st_validators := kv_del address (st_validators s),
                 st_byConsAddr := kv_del (ConsAddress (codec E) v) (st_byConsAddr s),
                 st_powerIndex := kv_del (GetValidatorsByPowerIndexKey (arith E) v) (st_powerIndex s)\<rparr>)
              (ConsAddress (codec E) v) (OperatorAddress v))"

definition GetAllValidators :: "'w staking_state \<Rightarrow> validator list" where
  "GetAllValidators s = map snd (kv_list (st_validators s))"

text \<open>The power index is iterated from the highest key to the lowest.\<close>

definition ValidatorsPowerStoreIterator :: "'w staking_state \<Rightarrow> (bytes \<times> val_address) list" where
  "ValidatorsPowerStoreIterator s = rev (kv_list (st_powerIndex s))"

subsection \<open>Last validator powers\<close>

definition GetLastValidatorPower :: "'w staking_state \<Rightarrow> val_address \<Rightarrow> int" where
  "GetLastValidatorPower s operator =
     (case kv_get (st_lastPower s) operator of None \<Rightarrow> 0 | Some p \<Rightarrow> p)"

definition SetLastValidatorPower :: "'w staking_state \<Rightarrow> val_address \<Rightarrow> int \<Rightarrow> 'w staking_state" where
  "SetLastValidatorPower s operator pwr = s\<lparr>st_lastPower := kv_set operator pwr (st_lastPower s)\<rparr>"

definition DeleteLastValidatorPower :: "'w staking_state \<Rightarrow> val_address \<Rightarrow> 'w staking_state" where
  "DeleteLastValidatorPower s operator = s\<lparr>st_lastPower := kv_del operator (st_lastPower s)\<rparr>"

definition GetLastTotalPower :: "'w staking_state \<Rightarrow> int" where
  "GetLastTotalPower s = (case st_lastTotalPower s of None \<Rightarrow> 0 | Some p \<Rightarrow> p)"

definition SetLastTotalPower :: "'w staking_state \<Rightarrow> int \<Rightarrow> 'w staking_state" where
  "SetLastTotalPower s pwr = s\<lparr>st_lastTotalPower := Some pwr\<rparr>"

subsection \<open>The queue of unbonding validators\<close>

definition GetValidatorQueueTimeSlice :: "'w staking_state \<Rightarrow> timestamp \<Rightarrow> val_address list" where
  "GetValidatorQueueTimeSlice s t = (case kv_get (st_valQueue s) t of None \<Rightarrow> [] | Some xs \<Rightarrow> xs)"

definition SetValidatorQueueTimeSlice ::
    "'w staking_state \<Rightarrow> timestamp \<Rightarrow> val_address list \<Rightarrow> 'w staking_state" where
  "SetValidatorQueueTimeSlice s t keys = s\<lparr>st_valQueue := kv_set t keys (st_valQueue s)\<rparr>"

definition DeleteValidatorQueueTimeSlice :: "'w staking_state \<Rightarrow> timestamp \<Rightarrow> 'w staking_state" where
  "DeleteValidatorQueueTimeSlice s t = s\<lparr>st_valQueue := kv_del t (st_valQueue s)\<rparr>"

definition InsertValidatorQueue :: "'w staking_state \<Rightarrow> validator \<Rightarrow> 'w staking_state" where
  "InsertValidatorQueue s val =
     (let timeSlice = GetValidatorQueueTimeSlice s (UnbondingCompletionTime val);
          keys = (if timeSlice = [] then [OperatorAddress val] else timeSlice @ [OperatorAddress val])
      in SetValidatorQueueTimeSlice s (UnbondingCompletionTime val) keys)"

definition DeleteValidatorQueue :: "'w staking_state \<Rightarrow> validator \<Rightarrow> 'w staking_state" where
  "DeleteValidatorQueue s val =
     (let timeSlice = GetValidatorQueueTimeSlice s (UnbondingCompletionTime val);
          newTimeSlice = filter (\<lambda>addr. addr \<noteq> OperatorAddress val) timeSlice
      in if newTimeSlice = [] then DeleteValidatorQueueTimeSlice s (UnbondingCompletionTime val)
         else SetValidatorQueueTimeSlice s (UnbondingCompletionTime val) newTimeSlice)"

definition ValidatorQueueIterator :: "'w staking_state \<Rightarrow> timestamp \<Rightarrow> (timestamp \<times> val_address list) list" where
  "ValidatorQueueIterator s endTime = filter (\<lambda>(t, _). t \<le> endTime) (kv_list (st_valQueue s))"

subsection \<open>Delegators, shares, proxies\<close>

definition GetDelegator :: "'w staking_state \<Rightarrow> acc_address \<Rightarrow> delegator option" where
  "GetDelegator s delAddr = kv_get (st_delegators s) delAddr"

definition SetDelegator :: "'w staking_state \<Rightarrow> delegator \<Rightarrow> 'w staking_state" where
  "SetDelegator s d = s\<lparr>st_delegators := kv_set (DelegatorAddress d) d (st_delegators s)\<rparr>"

definition DeleteDelegator :: "'w staking_state \<Rightarrow> acc_address \<Rightarrow> 'w staking_state" where
  "DeleteDelegator s delAddr = s\<lparr>st_delegators := kv_del delAddr (st_delegators s)\<rparr>"

definition GetShares :: "'w staking_state \<Rightarrow> acc_address \<Rightarrow> val_address \<Rightarrow> dec option" where
  "GetShares s delAddr valAddr = kv_get (st_shares s) (valAddr, delAddr)"

definition SetShares :: "'w staking_state \<Rightarrow> acc_address \<Rightarrow> val_address \<Rightarrow> dec \<Rightarrow> 'w staking_state" where
  "SetShares s delAddr valAddr x = s\<lparr>st_shares := kv_set (valAddr, delAddr) x (st_shares s)\<rparr>"

definition DeleteShares :: "'w staking_state \<Rightarrow> val_address \<Rightarrow> acc_address \<Rightarrow> 'w staking_state" where
  "DeleteShares s valAddr delAddr = s\<lparr>st_shares := kv_del (valAddr, delAddr) (st_shares s)\<rparr>"

definition GetValidatorAllShares :: "'w staking_state \<Rightarrow> val_address \<Rightarrow> (acc_address \<times> dec) list" where
  "GetValidatorAllShares s valAddr =
     map (\<lambda>((v, d), x). (d, x)) (filter (\<lambda>((v, d), x). v = valAddr) (kv_list (st_shares s)))"

definition SetProxyBinding ::
    "'w staking_state \<Rightarrow> acc_address \<Rightarrow> acc_address \<Rightarrow> bool \<Rightarrow> 'w staking_state" where
  "SetProxyBinding s proxyAddress delegatorAddress isRemove =
     (if isRemove then s\<lparr>st_proxies := kv_del (proxyAddress, delegatorAddress) (st_proxies s)\<rparr>
      else s\<lparr>st_proxies := kv_set (proxyAddress, delegatorAddress) () (st_proxies s)\<rparr>)"

definition GetDelegatorsByProxy :: "'w staking_state \<Rightarrow> acc_address \<Rightarrow> acc_address list" where
  "GetDelegatorsByProxy s proxyAddr =
     map (\<lambda>((p, d), _). d) (filter (\<lambda>((p, d), _). p = proxyAddr) (kv_list (st_proxies s)))"

subsection \<open>Undelegations\<close>

definition GetUndelegating :: "'w staking_state \<Rightarrow> acc_address \<Rightarrow> undelegation_info option" where
  "GetUndelegating s delAddr = kv_get (st_undelegations s) delAddr"

definition SetUndelegating :: "'w staking_state \<Rightarrow> undelegation_info \<Rightarrow> 'w staking_state" where
  "SetUndelegating s u = s\<lparr>st_undelegations := kv_set (udDelegatorAddress u) u (st_undelegations s)\<rparr>"

definition DeleteUndelegating :: "'w staking_state \<Rightarrow> acc_address \<Rightarrow> 'w staking_state" where
  "DeleteUndelegating s delAddr = s\<lparr>st_undelegations := kv_del delAddr (st_undelegations s)\<rparr>"

definition SetAddrByTimeKeyWithNilValue ::
    "'w staking_state \<Rightarrow> timestamp \<Rightarrow> acc_address \<Rightarrow> 'w staking_state" where
  "SetAddrByTimeKeyWithNilValue s t delAddr = s\<lparr>st_unQueue := kv_set (t, delAddr) () (st_unQueue s)\<rparr>"

definition DeleteAddrByTimeKey :: "'w staking_state \<Rightarrow> timestamp \<Rightarrow> acc_address \<Rightarrow> 'w staking_state" where
  "DeleteAddrByTimeKey s t delAddr = s\<lparr>st_unQueue := kv_del (t, delAddr) (st_unQueue s)\<rparr>"

text \<open>The keys of the undelegation queue from time 0 up to and including \<open>endTime\<close>.\<close>

definition getAddrByTimeKeyIterator :: "'w staking_state \<Rightarrow> timestamp \<Rightarrow> (timestamp \<times> acc_address) list" where
  "getAddrByTimeKeyIterator s endTime =
     filter (\<lambda>(t, _). t \<le> endTime) (map fst (kv_list (st_unQueue s)))"

subsection \<open>Parameters and epochs\<close>

definition BondDenom :: "'w staking_env \<Rightarrow> string" where
  "BondDenom E = DefaultBondDenom (arith E)"

definition GetParams :: "'w staking_env \<Rightarrow> block_ctx \<Rightarrow> 'w staking_state \<Rightarrow> staking_params" where
  "GetParams E ctx s =
     (let p = st_params s
      in if BlockHeight ctx \<ge> DefaultLevelUpBlockHeight E
         then NewParams (DefaultLevelUpUnbondingTime E) (pMaxValidators p) (pEpoch p)
                (pMaxValsToAddShares p) (pMinDelegation p) (pMinSelfDelegation p)
         else NewParams (pUnbondingTime p) (pMaxValidators p) (pEpoch p)
                (pMaxValsToAddShares p) (pMinDelegation p) (pMinSelfDelegation p))"

definition SetParams :: "'w staking_state \<Rightarrow> staking_params \<Rightarrow> 'w staking_state" where
  "SetParams s p = s\<lparr>st_params := p\<rparr>"

definition ParamsEpoch :: "'w staking_state \<Rightarrow> nat" where "ParamsEpoch s = pEpoch (st_params s)"
definition ParamsMaxValsToAddShares :: "'w staking_state \<Rightarrow> nat" where
  "ParamsMaxValsToAddShares s = pMaxValsToAddShares (st_params s)"
definition ParamsMinDelegation :: "'w staking_state \<Rightarrow> dec" where
  "ParamsMinDelegation s = pMinDelegation (st_params s)"
definition UnbondingTime :: "'w staking_state \<Rightarrow> int" where
  "UnbondingTime s = pUnbondingTime (st_params s)"
definition MaxValidators :: "'w staking_state \<Rightarrow> nat" where
  "MaxValidators s = pMaxValidators (st_params s)"

definition GetEpoch :: "'w staking_state \<Rightarrow> nat" where
  "GetEpoch s = (case st_epoch s of None \<Rightarrow> DefaultEpoch | Some e \<Rightarrow> e)"

definition SetEpoch :: "'w staking_state \<Rightarrow> nat \<Rightarrow> 'w staking_state" where
  "SetEpoch s e = s\<lparr>st_epoch := Some e\<rparr>"

definition GetTheEndOfLastEpoch :: "'w staking_state \<Rightarrow> int" where
  "GetTheEndOfLastEpoch s = (case st_endOfLastEpoch s of None \<Rightarrow> 0 | Some h \<Rightarrow> h)"

definition SetTheEndOfLastEpoch :: "block_ctx \<Rightarrow> 'w staking_state \<Rightarrow> 'w staking_state" where
  "SetTheEndOfLastEpoch ctx s = s\<lparr>st_endOfLastEpoch := Some (BlockHeight ctx)\<rparr>"

text \<open>Go's \<open>%\<close> is zero exactly when the divisor divides; a zero divisor panics.\<close>

definition IsEndOfEpoch :: "block_ctx \<Rightarrow> 'w staking_state \<Rightarrow> staking_error + bool" where
  "IsEndOfEpoch ctx s =
     (let blockInterval = BlockHeight ctx - GetTheEndOfLastEpoch s
      in if GetEpoch s = 0 then Inl (Panic ''integer divide by zero'')
         else Inr (int (GetEpoch s) dvd blockInterval))"

subsection \<open>Abandoned validators\<close>

definition getAbandonedValidatorAddrs :: "'w staking_state \<Rightarrow> val_address list" where
  "getAbandonedValidatorAddrs s = st_abandoned s"

definition AppendAbandonedValidatorAddrs ::
    "'w staking_state \<Rightarrow> cons_address \<Rightarrow> staking_error + 'w staking_state" where
  "AppendAbandonedValidatorAddrs s consAddr =
     bindE (mustGetValidatorByConsAddr s consAddr) (\<lambda>v.
       Inr (s\<lparr>st_abandoned := getAbandonedValidatorAddrs s @ [OperatorAddress v]\<rparr>))"

definition DeleteAbandonedValidatorAddrs :: "'w staking_state \<Rightarrow> 'w staking_state" where
  "DeleteAbandonedValidatorAddrs s = s\<lparr>st_abandoned := []\<rparr>"

definition IsKickedOut :: "'w staking_state \<Rightarrow> bool" where
  "IsKickedOut s \<longleftrightarrow> st_abandoned s \<noteq> []"

lemmas store_defs =
  GetValidator_def SetValidator_def SetValidatorByConsAddr_def SetNewValidatorByPowerIndex_def
  SetValidatorByPowerIndex_def DeleteValidatorByPowerIndex_def
  SetLastValidatorPower_def DeleteLastValidatorPower_def SetLastTotalPower_def
  SetValidatorQueueTimeSlice_def DeleteValidatorQueueTimeSlice_def
  GetDelegator_def SetDelegator_def DeleteDelegator_def GetShares_def SetShares_def DeleteShares_def
  SetProxyBinding_def GetUndelegating_def SetUndelegating_def DeleteUndelegating_def
  SetAddrByTimeKeyWithNilValue_def DeleteAddrByTimeKey_def SetParams_def SetEpoch_def
  SetTheEndOfLastEpoch_def DeleteAbandonedValidatorAddrs_def

end
