(* ===== verification/Staking_Shares.thy ===== *)
theory Staking_Shares
  imports Staking_Store
begin

text \<open>
  Delegating, withdrawing and adding shares (staking/keeper/weight.go, proxy.go, delegation.go,
  pool.go, min_self_delegation.go). A call that fails leaves no state behind: the transaction that
  made it is rolled back. Iterators see the store as it is when they are opened; the loops only
  write entries they have already passed.
\<close>

subsection \<open>Weights\<close>

text \<open>
  \<open>calculateWeight\<close> divides in \<open>float64\<close> and prints the quotient with
  \<open>sdk.Precision\<close> decimals. A finite positive double is \<open>m / 2 ^ e\<close> with a 53-bit
  \<open>m\<close>; division rounds to the nearest such value and printing to the nearest decimal, ties to
  even. The number of weeks is an \<open>int64\<close> divided by \<open>secondsPerWeek\<close>, below
  \<open>2 ^ 44\<close>, so it is exact as a double and \<open>e\<close> lies between 14 and 58.
\<close>

definition blockTimestampEpoch :: int where "blockTimestampEpoch = 1625439902"
definition secondsPerWeek :: int where "secondsPerWeek = 60 * 60 * 24 * 7"
definition weeksPerYear :: int where "weeksPerYear = 52"

definition roundHalfEven :: "int \<Rightarrow> int \<Rightarrow> int" where
  "roundHalfEven a b =
     (let q = a div b; r = a mod b
      in if 2 * r < b then q else if 2 * r > b then q + 1 else if even q then q else q + 1)"

definition float64Div :: "int \<Rightarrow> int \<Rightarrow> int \<times> nat" where
  "float64Div a b =
     (case find (\<lambda>e. a * 2 ^ e \<ge> b * 2 ^ 52) [0..<59] of
        None \<Rightarrow> (0, 0)
      | Some e \<Rightarrow> (roundHalfEven (a * 2 ^ e) b, e))"

fun showDigits :: "nat \<Rightarrow> int \<Rightarrow> string" where
  "showDigits 0 n = []"
| "showDigits (Suc k) n = showDigits k (n div 10) @ [char_of (48 + nat (n mod 10))]"

definition numDigits :: "int \<Rightarrow> nat" where
  "numDigits n = (case find (\<lambda>k. n < 10 ^ k) [1..<40] of None \<Rightarrow> 40 | Some k \<Rightarrow> k)"

definition showFixed :: "nat \<Rightarrow> int \<Rightarrow> string" where
  "showFixed prec n =
     (let ip = n div 10 ^ prec
      in showDigits (numDigits ip) ip
         @ (if prec = 0 then [] else CHR ''.'' # showDigits prec (n mod 10 ^ prec)))"

definition weightUnits :: "nat \<Rightarrow> int \<Rightarrow> int" where
  "weightUnits prec nowWeek =
     (let (m, e) = float64Div \<bar>nowWeek\<bar> weeksPerYear in roundHalfEven (m * 10 ^ prec) (2 ^ e))"

definition calculateWeight :: "'w staking_env \<Rightarrow> int \<Rightarrow> dec \<Rightarrow> staking_error + dec" where
  "calculateWeight E nowTime tokens =
     (let nowWeek = quot0 (nowTime - blockTimestampEpoch) secondsPerWeek;
          weight = (if nowWeek < 0 then ''-'' else []) @ showFixed (Precision E) (weightUnits (Precision E) nowWeek)
      in case NewDecFromStr (arith E) weight of
           None \<Rightarrow> Inl (ErrParams ''invalid decimal'')
         | Some weightByDec \<Rightarrow> Inr (DecMul (arith E) tokens weightByDec))"

definition SimulateWeight :: "'w staking_env \<Rightarrow> int \<Rightarrow> dec \<Rightarrow> staking_error + dec" where
  "SimulateWeight E nowTime tokens = calculateWeight E nowTime tokens"

definition blockUnix :: "block_ctx \<Rightarrow> int" where
  "blockUnix ctx = BlockTime ctx div 10 ^ 9"

subsection \<open>Shares\<close>

definition addShares ::
    "'w staking_env \<Rightarrow> acc_address \<Rightarrow> dec \<Rightarrow> 'w staking_state \<Rightarrow> validator \<Rightarrow> 'w staking_state" where
  "addShares E delAddr shares s val =
     (let s1 = SetShares s delAddr (OperatorAddress val) shares;
          s2 = DeleteValidatorByPowerIndex E s1 val;
          val' = val\<lparr>DelegatorShares := DelegatorShares val + shares\<rparr>
      in SetValidatorByPowerIndex E (SetValidator s2 val') val')"

definition withdrawShares ::
    "'w staking_env \<Rightarrow> acc_address \<Rightarrow> dec \<Rightarrow> 'w staking_state \<Rightarrow> validator \<Rightarrow>
     staking_error + 'w staking_state" where
  "withdrawShares E delAddr shares s val =
     (let s1 = DeleteShares s (OperatorAddress val) delAddr;
          s2 = DeleteValidatorByPowerIndex E s1 val;
          val' = val\<lparr>DelegatorShares := DelegatorShares val - shares\<rparr>
      in if IsUnbonded val' \<and> MinSelfDelegation val' = 0 \<and> DelegatorShares val' = 0
         then RemoveValidator E s2 (OperatorAddress val')
         else Inr (SetValidatorByPowerIndex E (SetValidator s2 val') val'))"

definition WithdrawLastShares ::
    "'w staking_env \<Rightarrow> 'w staking_state \<Rightarrow> acc_address \<Rightarrow> validator list \<Rightarrow> dec \<Rightarrow>
     staking_error + 'w staking_state" where
  "WithdrawLastShares E s delAddr lastVals lastShares =
     foldE (withdrawShares E delAddr lastShares) s lastVals"

definition AddSharesToValidators ::
    "'w staking_env \<Rightarrow> block_ctx \<Rightarrow> 'w staking_state \<Rightarrow> acc_address \<Rightarrow> validator list \<Rightarrow> dec \<Rightarrow>
     staking_error + ('w staking_state \<times> dec)" where
  "AddSharesToValidators E ctx s delAddr vals tokens =
     bindE (calculateWeight E (blockUnix ctx) tokens) (\<lambda>shares.
       Inr (foldl (addShares E delAddr shares) s vals, shares))"

definition existingValidators :: "'w staking_state \<Rightarrow> val_address list \<Rightarrow> validator list" where
  "existingValidators s addrs = List.map_filter (GetValidator s) addrs"

definition GetLastValsAddedSharesExisted ::
    "'w staking_state \<Rightarrow> acc_address \<Rightarrow> validator list \<times> dec" where
  "GetLastValsAddedSharesExisted s delAddr =
     (case GetDelegator s delAddr of
        None \<Rightarrow> ([], 0)
      | Some d \<Rightarrow> (existingValidators s (ValidatorAddresses d), dShares d))"

fun GetValidatorsToAddShares ::
    "'w staking_state \<Rightarrow> val_address list \<Rightarrow> staking_error + validator list" where
  "GetValidatorsToAddShares s [] = Inr []"
| "GetValidatorsToAddShares s (a # as) =
     (case GetValidator s a of
        None \<Rightarrow> Inl (ErrNoValidatorFound a)
      | Some v \<Rightarrow> bindE (GetValidatorsToAddShares s as) (\<lambda>vs. Inr (v # vs)))"

text \<open>The body of the loop in \<open>UpdateShares\<close>.\<close>

definition updateSharesStep ::
    "'w staking_env \<Rightarrow> acc_address \<Rightarrow> dec \<Rightarrow> dec \<Rightarrow> 'w staking_state \<Rightarrow> validator \<Rightarrow>
     staking_error + 'w staking_state" where
  "updateSharesStep E delAddr lastShares shares s val =
     (if MinSelfDelegation val = 0 then Inl (ErrAddSharesToDismission (OperatorAddress val))
      else
        let s1 = DeleteValidatorByPowerIndex E s val;
            s2 = SetShares s1 delAddr (OperatorAddress val) shares;
            val' = val\<lparr>DelegatorShares := DelegatorShares val - lastShares + shares\<rparr>
        in Inr (SetValidatorByPowerIndex E (SetValidator s2 val') val'))"

definition UpdateShares ::
    "'w staking_env \<Rightarrow> block_ctx \<Rightarrow> 'w staking_state \<Rightarrow> acc_address \<Rightarrow> dec \<Rightarrow>
     staking_error + 'w staking_state" where
  "UpdateShares E ctx s delAddr tokens =
     (let (vals, lastShares) = GetLastValsAddedSharesExisted s delAddr
      in if vals = [] then Inr s
         else bindE (calculateWeight E (blockUnix ctx) tokens) (\<lambda>shares.
           case GetDelegator s delAddr of
             None \<Rightarrow> Inl (ErrNoDelegatorExisted delAddr)
           | Some d \<Rightarrow>
               bindE (foldE (updateSharesStep E delAddr lastShares shares) s vals) (\<lambda>s'.
                 Inr (SetDelegator s' (d\<lparr>dShares := shares\<rparr>)))))"

subsection \<open>Proxies\<close>

text \<open>\<open>ClearProxy\<close> runs the callback of \<open>IterateProxy\<close> on each binding and deletes the
  binding after it.\<close>

definition IterateProxyClear ::
    "('w staking_state \<Rightarrow> acc_address \<Rightarrow> 'w staking_state) \<Rightarrow> 'w staking_state \<Rightarrow> acc_address \<Rightarrow> 'w staking_state" where
  "IterateProxyClear fn s proxyAddr =
     foldl (\<lambda>s d. SetProxyBinding (fn s d) proxyAddr d True) s (GetDelegatorsByProxy s proxyAddr)"

definition ClearProxy :: "'w staking_state \<Rightarrow> acc_address \<Rightarrow> 'w staking_state" where
  "ClearProxy s proxyAddr =
     IterateProxyClear (\<lambda>s delAddr.
       case GetDelegator s delAddr of None \<Rightarrow> s | Some d \<Rightarrow> SetDelegator s (UnbindProxy d)) s proxyAddr"

definition UpdateProxy ::
    "'w staking_env \<Rightarrow> block_ctx \<Rightarrow> 'w staking_state \<Rightarrow> delegator \<Rightarrow> dec \<Rightarrow>
     staking_error + 'w staking_state" where
  "UpdateProxy E ctx s d tokens =
     (case ProxyAddress d of
        None \<Rightarrow> Inr s
      | Some pa \<Rightarrow>
          case GetDelegator s pa of
            None \<Rightarrow> Inl (ErrInvalidAddress (ProxyAddress d))
          | Some proxy \<Rightarrow>
              let total = TotalDelegatedTokens proxy + tokens
              in if total < 0 then Inl ErrInvalidProxyUpdating
                 else
                   let finalTokens = total + dTokens proxy;
                       s1 = SetDelegator s (proxy\<lparr>TotalDelegatedTokens := total\<rparr>)
                   in UpdateShares E ctx s1 (DelegatorAddress proxy) finalTokens)"

subsection \<open>Delegation\<close>

definition liftWorld ::
    "(staking_error + 'w) \<Rightarrow> 'w staking_state \<Rightarrow> staking_error + 'w staking_state" where
  "liftWorld r s = bindE r (\<lambda>w. Inr (s\<lparr>st_world := w\<rparr>))"

definition asPanic :: "staking_error + 'a \<Rightarrow> staking_error + 'a" where
  "asPanic r = (case r of Inl _ \<Rightarrow> Inl (Panic ''bondedTokensToNotBonded'') | Inr x \<Rightarrow> Inr x)"

definition bondedTokensToNotBonded ::
    "'w staking_env \<Rightarrow> 'w staking_state \<Rightarrow> sys_coin \<Rightarrow> staking_error + 'w staking_state" where
  "bondedTokensToNotBonded E s tokens =
     asPanic (liftWorld
       (SendCoinsFromModuleToModule E (st_world s) BondedPoolName NotBondedPoolName (ToCoins (arith E) tokens)) s)"

text \<open>The tokens that count for a delegator that acts for others.\<close>

definition finalTokensOf :: "delegator \<Rightarrow> dec" where
  "finalTokensOf d = (if IsProxy d then dTokens d + TotalDelegatedTokens d else dTokens d)"

definition Delegate ::
    "'w staking_env \<Rightarrow> block_ctx \<Rightarrow> 'w staking_state \<Rightarrow> acc_address \<Rightarrow> sys_coin \<Rightarrow>
     staking_error + 'w staking_state" where
  "Delegate E ctx s delAddr token =
     (let delQuantity = Amount token; minDelLimit = ParamsMinDelegation s
      in if delQuantity < minDelLimit then Inl (ErrInsufficientQuantity delQuantity minDelLimit)
         else
           bindE (liftWorld
               (DelegateCoinsFromAccountToModule E (st_world s) delAddr BondedPoolName [token]) s) (\<lambda>s1.
             let d0 = (case GetDelegator s1 delAddr of None \<Rightarrow> NewDelegator delAddr | Some d \<Rightarrow> d);
                 d = d0\<lparr>dTokens := dTokens d0 + delQuantity\<rparr>;
                 s2 = SetDelegator s1 d
             in if HasProxy d then UpdateProxy E ctx s2 d delQuantity
                else UpdateShares E ctx s2 (DelegatorAddress d) (finalTokensOf d)))"

definition completionTimeOf :: "'w staking_env \<Rightarrow> block_ctx \<Rightarrow> 'w staking_state \<Rightarrow> timestamp" where
  "completionTimeOf E ctx s =
     (if BlockHeight ctx \<ge> DefaultLevelUpBlockHeight E
      then BlockTime ctx + DefaultLevelUpUnbondingTime E
      else BlockTime ctx + UnbondingTime s)"

text \<open>The undelegation record and its queue entry, the last block of \<open>Withdraw\<close> and the
  middle of \<open>WithdrawMinSelfDelegation\<close>; \<open>queueAddr\<close> is the address the caller queues.\<close>

definition recordUndelegation ::
    "(undelegation_info \<Rightarrow> acc_address) \<Rightarrow> 'w staking_state \<Rightarrow> acc_address \<Rightarrow> dec \<Rightarrow> timestamp \<Rightarrow>
     'w staking_state" where
  "recordUndelegation queueAddr s delAddr quantity completionTime =
     (let (s1, u) =
        (case GetUndelegating s delAddr of
           None \<Rightarrow> (s, NewUndelegationInfo delAddr quantity completionTime)
         | Some u \<Rightarrow>
             (DeleteAddrByTimeKey s (CompletionTime u) delAddr,
              u\<lparr>Quantity := Quantity u + quantity, CompletionTime := completionTime\<rparr>))
      in SetAddrByTimeKeyWithNilValue (SetUndelegating s1 u) completionTime (queueAddr u))"

text \<open>The part of \<open>Withdraw\<close> that deletes the delegator or sets it back.\<close>

definition settleDelegator ::
    "'w staking_env \<Rightarrow> block_ctx \<Rightarrow> 'w staking_state \<Rightarrow> acc_address \<Rightarrow> delegator \<Rightarrow> dec \<Rightarrow>
     staking_error + 'w staking_state" where
  "settleDelegator E ctx s delAddr d leftTokens =
     (if leftTokens = 0 then
        let (lastVals, lastShares) = GetLastValsAddedSharesExisted s delAddr
        in bindE (WithdrawLastShares E s delAddr lastVals lastShares) (\<lambda>s1.
             let s2 = (case ProxyAddress d of
                         None \<Rightarrow> s1
                       | Some pa \<Rightarrow> SetProxyBinding s1 pa delAddr True)
             in Inr (DeleteDelegator s2 delAddr))
      else
        let d' = d\<lparr>dTokens := leftTokens\<rparr>;
            s1 = SetDelegator s d'
        in if HasProxy d' then Inr s1
           else UpdateShares E ctx s1 (DelegatorAddress d') (finalTokensOf d'))"

definition Withdraw ::
    "'w staking_env \<Rightarrow> block_ctx \<Rightarrow> 'w staking_state \<Rightarrow> acc_address \<Rightarrow> sys_coin \<Rightarrow>
     staking_error + ('w staking_state \<times> timestamp)" where
  "Withdraw E ctx s delAddr token =
     (case GetDelegator s delAddr of
        None \<Rightarrow> Inl (ErrNoDelegationToAddShares delAddr)
      | Some d \<Rightarrow>
          let quantity = Amount token; minDelLimit = ParamsMinDelegation s; leftTokens = dTokens d - quantity
          in if quantity < minDelLimit then Inl (ErrInsufficientQuantity quantity minDelLimit)
             else if dTokens d < quantity then Inl (ErrInsufficientDelegation quantity (dTokens d))
             else if IsProxy d \<and> leftTokens = 0 then Inl (ErrInvalidProxyWithdrawTotal delAddr)
             else
               bindE (bondedTokensToNotBonded E s token) (\<lambda>s1.
               bindE (if HasProxy d
                      then UpdateProxy E ctx s1 d (DecMul (arith E) quantity (NewDec (arith E) (- 1)))
                      else Inr s1) (\<lambda>s2.
               bindE (settleDelegator E ctx s2 delAddr d leftTokens) (\<lambda>s3.
                 let completionTime = completionTimeOf E ctx s3
                 in Inr (recordUndelegation (\<lambda>_. delAddr) s3 delAddr quantity completionTime, completionTime)))))"

definition CompleteUndelegation ::
    "'w staking_env \<Rightarrow> 'w staking_state \<Rightarrow> acc_address \<Rightarrow> staking_error + ('w staking_state \<times> dec)" where
  "CompleteUndelegation E s delAddr =
     (case GetUndelegating s delAddr of
        None \<Rightarrow> Inl (ErrNotInDelegating delAddr)
      | Some ud \<Rightarrow>
          bindE (liftWorld
              (UndelegateCoinsFromModuleToAccount E (st_world s) NotBondedPoolName (udDelegatorAddress ud)
                [NewDecCoinFromDec (BondDenom E) (Quantity ud)]) s) (\<lambda>s1.
            Inr (DeleteUndelegating s1 delAddr, Quantity ud)))"

subsection \<open>Minimal self delegation\<close>

definition getSharesFromDefaultMinSelfDelegation :: "'w staking_env \<Rightarrow> dec" where
  "getSharesFromDefaultMinSelfDelegation E = OneDec (arith E)"

definition addSharesAsDefaultMinSelfDelegation ::
    "'w staking_env \<Rightarrow> 'w staking_state \<Rightarrow> validator \<Rightarrow> 'w staking_state \<times> validator" where
  "addSharesAsDefaultMinSelfDelegation E s v =
     (let s1 = DeleteValidatorByPowerIndex E s v;
          v' = v\<lparr>DelegatorShares := DelegatorShares v + getSharesFromDefaultMinSelfDelegation E\<rparr>
      in (SetValidatorByPowerIndex E (SetValidator s1 v') v', v'))"

definition AddSharesAsMinSelfDelegation ::
    "'w staking_env \<Rightarrow> 'w staking_state \<Rightarrow> acc_address \<Rightarrow> validator \<Rightarrow> sys_coin \<Rightarrow>
     staking_error + ('w staking_state \<times> validator)" where
  "AddSharesAsMinSelfDelegation E s delAddr v defaultMSDToken =
     bindE (liftWorld
         (DelegateCoinsFromAccountToModule E (st_world s) delAddr BondedPoolName [defaultMSDToken]) s) (\<lambda>s1.
       Inr (addSharesAsDefaultMinSelfDelegation E s1 v))"

text \<open>The end of \<open>WithdrawMinSelfDelegation\<close>: an unbonded validator without shares is
  removed, another one leaves the power index and keeps its remaining shares.\<close>

definition retireValidator ::
    "'w staking_env \<Rightarrow> 'w staking_state \<Rightarrow> validator \<Rightarrow> dec \<Rightarrow> staking_error + 'w staking_state" where
  "retireValidator E s v remainShares =
     (if Status v = Unbonded \<and> remainShares = 0 \<and> MinSelfDelegation v = 0
      then RemoveValidator E s (OperatorAddress v)
      else Inr (SetValidator (DeleteValidatorByPowerIndex E s v) (v\<lparr>DelegatorShares := remainShares\<rparr>)))"

definition WithdrawMinSelfDelegation ::
    "'w staking_env \<Rightarrow> block_ctx \<Rightarrow> 'w staking_state \<Rightarrow> acc_address \<Rightarrow> validator \<Rightarrow>
     staking_error + ('w staking_state \<times> timestamp)" where
  "WithdrawMinSelfDelegation E ctx s delAddr v =
     (let remainShares = DelegatorShares v - getSharesFromDefaultMinSelfDelegation E
      in if MinSelfDelegation v = 0 then Inl (ErrNoMinSelfDelegation (OperatorAddress v))
         else if remainShares < 0 then Inl (ErrMoreMinSelfDelegation (OperatorAddress v))
         else
           bindE (bondedTokensToNotBonded E s (NewDecCoinFromDec (BondDenom E) (MinSelfDelegation v))) (\<lambda>s1.
             let completionTime = completionTimeOf E ctx s1;
                 s2 = recordUndelegation udDelegatorAddress s1 delAddr (MinSelfDelegation v) completionTime;
                 v' = v\<lparr>MinSelfDelegation := 0, Jailed := True\<rparr>
             in bindE (AfterValidatorDestroyed E s2 (ConsAddress (codec E) v') (OperatorAddress v')) (\<lambda>s3.
                bindE (if Status v' = Bonded then AppendAbandonedValidatorAddrs s3 (ConsAddress (codec E) v')
                       else Inr s3) (\<lambda>s4.
                bindE (retireValidator E s4 v' remainShares) (\<lambda>s5.
                  Inr (s5, completionTime))))))"

end
