(* ===== verification/Staking_ValState.thy ===== *)
theory Staking_ValState
  imports Staking_Shares
begin

text \<open>
  The validator set (staking/keeper/val_state_change.go, val_state.go, slash.go and the mature
  queue of validator.go): the transitions between the bond states, the election at the end of an
  epoch and the replacement of abandoned validators inside one. Iterators over the power index see
  the index as it is at the start; the transitions delete and set the same key again.
\<close>

subsection \<open>State transitions\<close>

definition bondValidator ::
    "'w staking_env \<Rightarrow> 'w staking_state \<Rightarrow> validator \<Rightarrow> staking_error + ('w staking_state \<times> validator)" where
  "bondValidator E s v =
     (let s1 = DeleteValidatorByPowerIndex E s v;
          v' = UpdateStatus v Bonded;
          s2 = SetValidatorByPowerIndex E (SetValidator s1 v') v';
          s3 = DeleteValidatorQueue s2 v'
      in bindE (AfterValidatorBonded E s3 (ConsAddress (codec E) v') (OperatorAddress v')) (\<lambda>s4.
           Inr (s4, v')))"

definition beginUnbondingValidator ::
    "'w staking_env \<Rightarrow> block_ctx \<Rightarrow> 'w staking_state \<Rightarrow> validator \<Rightarrow>
     staking_error + ('w staking_state \<times> validator)" where
  "beginUnbondingValidator E ctx s v =
     (let params = GetParams E ctx s;
          s1 = DeleteValidatorByPowerIndex E s v
      in if Status v \<noteq> Bonded then Inl (Panic ''should not already be unbonded or unbonding'')
         else
           let v' = (UpdateStatus v Unbonding)
                      \<lparr>UnbondingCompletionTime := BlockTime ctx + pUnbondingTime params,
                       UnbondingHeight := BlockHeight ctx\<rparr>;
               s2 = SetValidatorByPowerIndex E (SetValidator s1 v') v';
               s3 = InsertValidatorQueue s2 v'
           in bindE (AfterValidatorBeginUnbonding E s3 (ConsAddress (codec E) v') (OperatorAddress v')) (\<lambda>s4.
                Inr (s4, v')))"

definition completeUnbondingValidator ::
    "'w staking_state \<Rightarrow> validator \<Rightarrow> 'w staking_state \<times> validator" where
  "completeUnbondingValidator s v =
     (let v' = UpdateStatus v Unbonded in (SetValidator s v', v'))"

definition bondedToUnbonding ::
    "'w staking_env \<Rightarrow> block_ctx \<Rightarrow> 'w staking_state \<Rightarrow> validator \<Rightarrow>
     staking_error + ('w staking_state \<times> validator)" where
  "bondedToUnbonding E ctx s v =
     (if \<not> IsBonded v then Inl (Panic ''bad state transition bondedToUnbonding'')
      else beginUnbondingValidator E ctx s v)"

definition unbondingToBonded ::
    "'w staking_env \<Rightarrow> 'w staking_state \<Rightarrow> validator \<Rightarrow> staking_error + ('w staking_state \<times> validator)" where
  "unbondingToBonded E s v =
     (if \<not> IsUnbonding v then Inl (Panic ''bad state transition unbondingToBonded'')
      else bondValidator E s v)"

definition unbondedToBonded ::
    "'w staking_env \<Rightarrow> 'w staking_state \<Rightarrow> validator \<Rightarrow> staking_error + ('w staking_state \<times> validator)" where
  "unbondedToBonded E s v =
     (if \<not> IsUnbonded v then Inl (Panic ''bad state transition unbondedToBonded'')
      else bondValidator E s v)"

definition unbondingToUnbonded ::
    "'w staking_state \<Rightarrow> validator \<Rightarrow> staking_error + ('w staking_state \<times> validator)" where
  "unbondingToUnbonded s v =
     (if \<not> IsUnbonding v then Inl (Panic ''bad state transition unbondingToBonded'')
      else Inr (completeUnbondingValidator s v))"

definition jailValidator ::
    "'w staking_env \<Rightarrow> 'w staking_state \<Rightarrow> validator \<Rightarrow> staking_error + 'w staking_state" where
  "jailValidator E s v =
     (if Jailed v then Inl (Panic ''cannot jail already jailed validator'')
      else let v' = v\<lparr>Jailed := True\<rparr>
           in Inr (DeleteValidatorByPowerIndex E (SetValidator s v') v'))"

definition unjailValidator ::
    "'w staking_env \<Rightarrow> 'w staking_state \<Rightarrow> validator \<Rightarrow> staking_error + 'w staking_state" where
  "unjailValidator E s v =
     (if \<not> Jailed v then Inl (Panic ''cannot unjail already unjailed validator'')
      else let v' = v\<lparr>Jailed := False\<rparr>
           in Inr (SetValidatorByPowerIndex E (SetValidator s v') v'))"

definition Jail ::
    "'w staking_env \<Rightarrow> 'w staking_state \<Rightarrow> cons_address \<Rightarrow> staking_error + 'w staking_state" where
  "Jail E s consAddr = bindE (mustGetValidatorByConsAddr s consAddr) (jailValidator E s)"

definition Unjail ::
    "'w staking_env \<Rightarrow> 'w staking_state \<Rightarrow> cons_address \<Rightarrow> staking_error + 'w staking_state" where
  "Unjail E s consAddr = bindE (mustGetValidatorByConsAddr s consAddr) (unjailValidator E s)"

definition Slash :: "'w staking_state \<Rightarrow> cons_address \<Rightarrow> int \<Rightarrow> int \<Rightarrow> dec \<Rightarrow> 'w staking_state" where
  "Slash s consAddr infractionHeight pwr slashFactor = s"

subsection \<open>Election\<close>

text \<open>The last validator set maps operator addresses, which have the fixed length of the array
  type of its keys, to powers; powers are equal exactly when their encodings are.\<close>

type_synonym validators_by_addr = "(val_address, int) kv"

definition getLastValidatorsByAddr :: "'w staking_state \<Rightarrow> validators_by_addr" where
  "getLastValidatorsByAddr s = st_lastPower s"

definition sortNoLongerBonded :: "validators_by_addr \<Rightarrow> val_address list" where
  "sortNoLongerBonded lastVals = sort (map fst (kv_list lastVals))"

definition minSelfDelegationToBond :: "sdk_dec \<Rightarrow> dec" where
  "minSelfDelegationToBond A = NewDec A 1000"

record 'w election =
  elState :: "'w staking_state"
  elLast :: validators_by_addr
  elUpdates :: "validator_update list"
  elPower :: int

text \<open>One elected validator: its state change, its power, the bookkeeping.\<close>

definition electValidator ::
    "'w staking_env \<Rightarrow> val_address \<Rightarrow> validator \<Rightarrow> 'w election \<Rightarrow> staking_error + 'w election" where
  "electValidator E valAddr v el =
     bindE (case Status v of
              Unbonded \<Rightarrow> unbondedToBonded E (elState el) v
            | Unbonding \<Rightarrow> unbondingToBonded E (elState el) v
            | Bonded \<Rightarrow> Inr (elState el, v)) (\<lambda>(s1, v1).
       let newPower = ConsensusPowerByShares (arith E) v1;
           changed = (kv_get (elLast el) valAddr \<noteq> Some newPower)
       in Inr \<lparr>
            elState = (if changed then SetLastValidatorPower s1 valAddr newPower else s1),
            elLast = kv_del valAddr (elLast el),
            elUpdates = (if changed then elUpdates el @ [ABCIValidatorUpdateByShares (arith E) v1]
                         else elUpdates el),
            elPower = elPower el + newPower\<rparr>)"

text \<open>The loop over the power index; its first argument is the number of places left.\<close>

fun electLoop ::
    "'w staking_env \<Rightarrow> nat \<Rightarrow> (bytes \<times> val_address) list \<Rightarrow> 'w election \<Rightarrow> staking_error + 'w election" where
  "electLoop E n [] el = Inr el"
| "electLoop E 0 (e # es) el = Inr el"
| "electLoop E (Suc n) ((k, valAddr) # es) el =
     bindE (mustGetValidator (elState el) valAddr) (\<lambda>v.
       if Jailed v then Inl (Panic ''should never retrieve a jailed validator from the power store'')
       else if PotentialConsensusPowerByShares (arith E) v = 0 then Inr el
       else if MinSelfDelegation v < minSelfDelegationToBond (arith E) then electLoop E (Suc n) es el
       else bindE (electValidator E valAddr v el) (electLoop E n es))"

definition dismissValidator ::
    "'w staking_env \<Rightarrow> block_ctx \<Rightarrow> ('w staking_state \<times> validator_update list) \<Rightarrow> val_address \<Rightarrow>
     staking_error + ('w staking_state \<times> validator_update list)" where
  "dismissValidator E ctx su valAddr =
     bindE (mustGetValidator (fst su) valAddr) (\<lambda>v.
     bindE (bondedToUnbonding E ctx (fst su) v) (\<lambda>(s1, v1).
       Inr (DeleteLastValidatorPower s1 (OperatorAddress v1), snd su @ [ABCIValidatorUpdateZero v1])))"

definition ApplyAndReturnValidatorSetUpdates ::
    "'w staking_env \<Rightarrow> block_ctx \<Rightarrow> 'w staking_state \<Rightarrow>
     staking_error + ('w staking_state \<times> validator_update list)" where
  "ApplyAndReturnValidatorSetUpdates E ctx s =
     (let maxValidators = pMaxValidators (GetParams E ctx s);
          el0 = \<lparr>elState = s, elLast = getLastValidatorsByAddr s, elUpdates = [], elPower = 0\<rparr>
      in bindE (electLoop E maxValidators (ValidatorsPowerStoreIterator s) el0) (\<lambda>el.
         bindE (foldE (dismissValidator E ctx) (elState el, elUpdates el)
                  (sortNoLongerBonded (elLast el))) (\<lambda>(s', updates).
           Inr (if updates \<noteq> [] then SetLastTotalPower s' (elPower el) else s', updates))))"

subsection \<open>Replacing abandoned validators inside an epoch\<close>

record 'w kickout =
  koState :: "'w staking_state"
  koUpdates :: "validator_update list"
  koPower :: int

definition promoteCandidate ::
    "'w staking_env \<Rightarrow> val_address \<Rightarrow> validator \<Rightarrow> 'w kickout \<Rightarrow> staking_error + 'w kickout" where
  "promoteCandidate E valAddr v ko =
     bindE (case Status v of
              Unbonded \<Rightarrow> unbondedToBonded E (koState ko) v
            | Unbonding \<Rightarrow> unbondingToBonded E (koState ko) v
            | Bonded \<Rightarrow> Inl (Panic ''Candidate validator is not allowed to be in bonded status'')) (\<lambda>(s1, v1).
       let newPower = ConsensusPowerByShares (arith E) v1
       in Inr \<lparr>
            koState = SetLastValidatorPower s1 valAddr newPower,
            koUpdates = koUpdates ko @ [ABCIValidatorUpdateByShares (arith E) v1],
            koPower = koPower ko + newPower\<rparr>)"

fun promoteLoop ::
    "'w staking_env \<Rightarrow> validators_by_addr \<Rightarrow> nat \<Rightarrow> (bytes \<times> val_address) list \<Rightarrow> 'w kickout \<Rightarrow>
     staking_error + 'w kickout" where
  "promoteLoop E lastBonded n [] ko = Inr ko"
| "promoteLoop E lastBonded 0 (e # es) ko = Inr ko"
| "promoteLoop E lastBonded (Suc n) ((k, valAddr) # es) ko =
     (if kv_get lastBonded valAddr \<noteq> None then promoteLoop E lastBonded (Suc n) es ko
      else bindE (mustGetValidator (koState ko) valAddr) (\<lambda>v.
        if PotentialConsensusPowerByShares (arith E) v = 0 then promoteLoop E lastBonded (Suc n) es ko
        else if MinSelfDelegation v < minSelfDelegationToBond (arith E)
          then promoteLoop E lastBonded (Suc n) es ko
        else bindE (promoteCandidate E valAddr v ko) (promoteLoop E lastBonded n es)))"

definition dischargeAbandoned ::
    "'w staking_env \<Rightarrow> block_ctx \<Rightarrow> validators_by_addr \<Rightarrow> 'w kickout \<Rightarrow> val_address \<Rightarrow>
     staking_error + 'w kickout" where
  "dischargeAbandoned E ctx lastBonded ko valAddr =
     bindE (mustGetValidator (koState ko) valAddr) (\<lambda>v.
       if \<not> IsBonded v then Inr ko
       else
         bindE (bondedToUnbonding E ctx (koState ko) v) (\<lambda>(s1, _).
           case kv_get lastBonded valAddr of
             None \<Rightarrow> Inl (Panic ''Never occur'')
           | Some oldPower \<Rightarrow>
               Inr \<lparr>
                 koState = DeleteLastValidatorPower s1 (OperatorAddress v),
                 koUpdates = koUpdates ko @ [ABCIValidatorUpdateZero v],
                 koPower = koPower ko - oldPower\<rparr>))"

definition KickOutAndReturnValidatorSetUpdates ::
    "'w staking_env \<Rightarrow> block_ctx \<Rightarrow> 'w staking_state \<Rightarrow>
     staking_error + ('w staking_state \<times> validator_update list)" where
  "KickOutAndReturnValidatorSetUpdates E ctx s =
     (let lastBonded = getLastValidatorsByAddr s;
          abandoned = getAbandonedValidatorAddrs s;
          ko0 = \<lparr>koState = s, koUpdates = [], koPower = GetLastTotalPower s\<rparr>
      in bindE (promoteLoop E lastBonded (length abandoned) (ValidatorsPowerStoreIterator s) ko0) (\<lambda>ko1.
         bindE (foldE (dischargeAbandoned E ctx lastBonded) ko1 abandoned) (\<lambda>ko2.
           Inr (SetLastTotalPower (koState ko2) (koPower ko2), koUpdates ko2))))"

subsection \<open>Mature validators\<close>

definition unbondMatureValidator ::
    "'w staking_env \<Rightarrow> 'w staking_state \<Rightarrow> val_address \<Rightarrow> staking_error + 'w staking_state" where
  "unbondMatureValidator E s valAddr =
     (case GetValidator s valAddr of
        None \<Rightarrow> Inl (Panic ''validator in the unbonding queue was not found'')
      | Some v \<Rightarrow>
          if \<not> IsUnbonding v
          then Inl (Panic ''unexpected validator in unbonding queue; status was not unbonding'')
          else
            bindE (unbondingToUnbonded s v) (\<lambda>(s1, v1).
              if DelegatorShares v1 = 0 \<and> MinSelfDelegation v1 = 0
              then RemoveValidator E s1 (OperatorAddress v1)
              else Inr s1))"

definition UnbondAllMatureValidatorQueue ::
    "'w staking_env \<Rightarrow> block_ctx \<Rightarrow> 'w staking_state \<Rightarrow> staking_error + 'w staking_state" where
  "UnbondAllMatureValidatorQueue E ctx s =
     foldE (\<lambda>s (t, timeslice).
         bindE (foldE (unbondMatureValidator E) s timeslice) (\<lambda>s'. Inr (DeleteValidatorQueueTimeSlice s' t)))
       s (ValidatorQueueIterator s (BlockTime ctx))"

subsection \<open>Reading the validator set\<close>

fun bondedByPowerLoop ::
    "'w staking_state \<Rightarrow> nat \<Rightarrow> (bytes \<times> val_address) list \<Rightarrow> staking_error + validator list" where
  "bondedByPowerLoop s n [] = Inr []"
| "bondedByPowerLoop s 0 (e # es) = Inr []"
| "bondedByPowerLoop s (Suc n) ((k, address) # es) =
     bindE (mustGetValidator s address) (\<lambda>v.
       if IsBonded v then bindE (bondedByPowerLoop s n es) (\<lambda>vs. Inr (v # vs))
       else bondedByPowerLoop s (Suc n) es)"

text \<open>The validators a callback of \<open>IterateBondedValidatorsByPower\<close> that never stops sees.\<close>

definition IterateBondedValidatorsByPower :: "'w staking_state \<Rightarrow> staking_error + validator list" where
  "IterateBondedValidatorsByPower s =
     bondedByPowerLoop s (MaxValidators s) (ValidatorsPowerStoreIterator s)"

definition IsValidator :: "'w staking_state \<Rightarrow> acc_address \<Rightarrow> staking_error + bool" where
  "IsValidator s addr =
     bindE (IterateBondedValidatorsByPower s) (\<lambda>vs. Inr (addr \<in> set (map OperatorAddress vs)))"

end
