(* ===== verification/Staking_Handler.thy ===== *)
theory Staking_Handler
  imports Staking_ValState
begin

text \<open>
  The message handlers and the end blocker of the staking module (staking/handler.go,
  handler_shares.go). Events are not modelled; a result that carries data returns it beside the
  state. Before a message reaches its handler the transaction runs \<open>ValidateBasic\<close>.
\<close>

definition StringInSlice :: "string \<Rightarrow> string list \<Rightarrow> bool" where
  "StringInSlice a xs = list_ex (\<lambda>b. b = a) xs"

definition handleMsgCreateValidator ::
    "'w staking_env \<Rightarrow> block_ctx \<Rightarrow> msg_create_validator \<Rightarrow> 'w staking_state \<Rightarrow>
     staking_error + 'w staking_state" where
  "handleMsgCreateValidator E ctx msg s =
     (if GetValidator s (mcvValidatorAddress msg) \<noteq> None then Inl ErrValidatorOwnerExists
      else if GetValidatorByConsAddr s (PubKeyAddress (codec E) (mcvPubKey msg)) \<noteq> None
        then Inl ErrValidatorPubKeyExists
      else if Denom (mcvMinSelfDelegation msg) \<noteq> BondDenom E then Inl ErrBadDenom
      else bindE (EnsureLength (mcvDescription msg)) (\<lambda>_.
        bindE (case PubKeyTypes ctx of
                 None \<Rightarrow> Inr ()
               | Some types \<Rightarrow>
                   if \<not> StringInSlice (PubKeyType (codec E) (mcvPubKey msg)) types
                   then Inl (ErrValidatorPubKeyTypeNotSupported (PubKeyType (codec E) (mcvPubKey msg)) types)
                   else Inr ()) (\<lambda>_.
        bindE (SetInitialCommission (arith E)
                 (NewValidator (mcvValidatorAddress msg) (mcvPubKey msg) (mcvDescription msg)
                    (Amount (mcvMinSelfDelegation msg)))
                 (NewCommission (NewDec (arith E) 1) (NewDec (arith E) 1) (NewDec (arith E) 0))) (\<lambda>v.
          let s1 = SetValidator s v;
              s2 = SetValidatorByConsAddr E s1 v;
              s3 = SetNewValidatorByPowerIndex E s2 v
          in bindE (AddSharesAsMinSelfDelegation E s3 (mcvDelegatorAddress msg) v
                      (NewDecCoinFromDec (BondDenom E) (MinSelfDelegation v))) (\<lambda>(s4, v4).
               AfterValidatorCreated E s4 (OperatorAddress v4))))))"

definition handleMsgEditValidator ::
    "msg_edit_validator \<Rightarrow> 'w staking_state \<Rightarrow> staking_error + 'w staking_state" where
  "handleMsgEditValidator msg s =
     (case GetValidator s (mevValidatorAddress msg) of
        None \<Rightarrow> Inl (ErrNoValidatorFound (mevValidatorAddress msg))
      | Some v \<Rightarrow>
          bindE (UpdateDescription (vDescription v) (mevDescription msg)) (\<lambda>desc.
            Inr (SetValidator s (v\<lparr>vDescription := desc\<rparr>))))"

subsection \<open>Proxies\<close>

text \<open>An error of the shares update is replaced by \<open>ErrInvalidDelegation\<close>; a panic
  stays a panic.\<close>

definition orInvalidDelegation :: "acc_address \<Rightarrow> staking_error + 'a \<Rightarrow> staking_error + 'a" where
  "orInvalidDelegation addr r =
     (case r of
        Inl (Panic m) \<Rightarrow> Inl (Panic m)
      | Inl _ \<Rightarrow> Inl (ErrInvalidDelegation addr)
      | Inr x \<Rightarrow> Inr x)"

text \<open>\<open>len(delegator.ProxyAddress) != 0\<close>\<close>

definition proxyNonEmpty :: "delegator \<Rightarrow> bool" where
  "proxyNonEmpty d = (case ProxyAddress d of None \<Rightarrow> False | Some a \<Rightarrow> a \<noteq> [])"

definition unbindProxy ::
    "'w staking_env \<Rightarrow> block_ctx \<Rightarrow> acc_address \<Rightarrow> 'w staking_state \<Rightarrow> staking_error + 'w staking_state" where
  "unbindProxy E ctx delAddr s =
     (case GetDelegator s delAddr of
        None \<Rightarrow> Inl (ErrNoDelegationToAddShares delAddr)
      | Some d \<Rightarrow>
          case GetDelegator s (case ProxyAddress d of None \<Rightarrow> [] | Some pa \<Rightarrow> pa) of
            None \<Rightarrow> Inl (ErrProxyNotFound delAddr)
          | Some proxyDelegator \<Rightarrow>
              bindE (orInvalidDelegation delAddr
                      (UpdateProxy E ctx s d (DecMul (arith E) (dTokens d) (NewDec (arith E) (- 1))))) (\<lambda>s1.
                let d' = UnbindProxy d;
                    s2 = SetDelegator s1 d'
                in Inr (SetProxyBinding s2 (DelegatorAddress proxyDelegator) (DelegatorAddress d') True)))"

definition handleMsgUnbindProxy ::
    "'w staking_env \<Rightarrow> block_ctx \<Rightarrow> acc_address \<Rightarrow> 'w staking_state \<Rightarrow> staking_error + 'w staking_state" where
  "handleMsgUnbindProxy E ctx delAddr s = unbindProxy E ctx delAddr s"

definition handleMsgBindProxy ::
    "'w staking_env \<Rightarrow> block_ctx \<Rightarrow> msg_bind_proxy \<Rightarrow> 'w staking_state \<Rightarrow> staking_error + 'w staking_state" where
  "handleMsgBindProxy E ctx msg s =
     (case GetDelegator s (mbpDelAddr msg) of
        None \<Rightarrow> Inl (ErrNoDelegationToAddShares (mbpDelAddr msg))
      | Some d \<Rightarrow>
          if dTokens d = 0 then Inl (ErrNoDelegationToAddShares (mbpDelAddr msg))
          else if dShares d \<noteq> 0 then Inl (ErrAlreadyAddedShares (DelegatorAddress d))
          else case GetDelegator s (mbpProxyAddress msg) of
            None \<Rightarrow> Inl (ErrProxyNotFound (mbpProxyAddress msg))
          | Some p \<Rightarrow>
              if dTokens p = 0 then Inl (ErrProxyNotFound (mbpProxyAddress msg))
              else if \<not> IsProxy p then Inl (ErrProxyNotFound (mbpProxyAddress msg))
              else if IsProxy d then Inl (ErrDoubleProxy (DelegatorAddress d))
              else if ProxyAddress d = Some (DelegatorAddress p) then
                orInvalidDelegation (DelegatorAddress p)
                  (UpdateShares E ctx s (DelegatorAddress p) (TotalDelegatedTokens p + dTokens p))
              else
                bindE (if proxyNonEmpty d then unbindProxy E ctx (DelegatorAddress d) s else Inr s) (\<lambda>s1.
                  let d' = BindProxy d (mbpProxyAddress msg);
                      p' = p\<lparr>TotalDelegatedTokens := TotalDelegatedTokens p + dTokens d'\<rparr>;
                      s2 = SetDelegator (SetDelegator s1 d') p';
                      s3 = SetProxyBinding s2 (DelegatorAddress p') (DelegatorAddress d') False;
                      finalTokens = TotalDelegatedTokens p' + dTokens p'
                  in orInvalidDelegation (DelegatorAddress p')
                       (UpdateShares E ctx s3 (DelegatorAddress p') finalTokens)))"

definition regProxy ::
    "'w staking_env \<Rightarrow> block_ctx \<Rightarrow> acc_address \<Rightarrow> 'w staking_state \<Rightarrow> staking_error + 'w staking_state" where
  "regProxy E ctx proxyAddr s =
     (case GetDelegator s proxyAddr of
        None \<Rightarrow> Inl (ErrNoDelegationToAddShares proxyAddr)
      | Some p \<Rightarrow>
          if IsProxy p then Inl (ErrProxyAlreadyExist proxyAddr)
          else if proxyNonEmpty p then Inl (ErrAlreadyBound proxyAddr)
          else
            let p' = RegProxy p True;
                s1 = SetDelegator s p'
            in orInvalidDelegation (DelegatorAddress p')
                 (UpdateShares E ctx s1 (DelegatorAddress p') (dTokens p')))"

definition unregProxy ::
    "'w staking_env \<Rightarrow> block_ctx \<Rightarrow> acc_address \<Rightarrow> 'w staking_state \<Rightarrow> staking_error + 'w staking_state" where
  "unregProxy E ctx proxyAddr s =
     (case GetDelegator s proxyAddr of
        None \<Rightarrow> Inl (ErrProxyNotFound proxyAddr)
      | Some p \<Rightarrow>
          if \<not> IsProxy p then Inl (ErrProxyNotFound proxyAddr)
          else
            let p' = (RegProxy p False)\<lparr>TotalDelegatedTokens := 0\<rparr>;
                s1 = ClearProxy s (DelegatorAddress p');
                s2 = SetDelegator s1 p'
            in orInvalidDelegation (DelegatorAddress p')
                 (UpdateShares E ctx s2 (DelegatorAddress p') (dTokens p')))"

definition handleRegProxy ::
    "'w staking_env \<Rightarrow> block_ctx \<Rightarrow> acc_address \<Rightarrow> bool \<Rightarrow> 'w staking_state \<Rightarrow>
     staking_error + 'w staking_state" where
  "handleRegProxy E ctx proxyAddr reg s =
     (if reg then regProxy E ctx proxyAddr s else unregProxy E ctx proxyAddr s)"

subsection \<open>Adding shares\<close>

fun isDismissed :: "validator list \<Rightarrow> val_address option" where
  "isDismissed [] = None"
| "isDismissed (v # vs) = (if MinSelfDelegation v = 0 then Some (OperatorAddress v) else isDismissed vs)"

definition validateSharesAdding :: "validator list \<Rightarrow> staking_error option" where
  "validateSharesAdding vals =
     (if vals = [] then Some ErrEmptyValidators
      else case isDismissed vals of Some a \<Rightarrow> Some (ErrAddSharesToDismission a) | None \<Rightarrow> None)"

definition getValsAddrs :: "validator list \<Rightarrow> val_address list" where
  "getValsAddrs vals = map OperatorAddress vals"

definition handleMsgAddShares ::
    "'w staking_env \<Rightarrow> block_ctx \<Rightarrow> msg_add_shares \<Rightarrow> 'w staking_state \<Rightarrow> staking_error + 'w staking_state" where
  "handleMsgAddShares E ctx msg s =
     (let delAddr = masDelAddr msg; maxVals = ParamsMaxValsToAddShares s
      in if masValAddrs msg = [] then Inl ErrEmptyValidators
         else if length (masValAddrs msg) > maxVals then Inl (ErrExceedValidatorAddrs maxVals)
         else case GetDelegator s delAddr of
           None \<Rightarrow> Inl (ErrNoDelegationToAddShares delAddr)
         | Some d \<Rightarrow>
             if dTokens d = 0 then Inl (ErrNoDelegationToAddShares delAddr)
             else if HasProxy d then Inl (ErrAddSharesDuringProxy (DelegatorAddress d) (ProxyAddress d))
             else
               let (lastVals, lastShares) = GetLastValsAddedSharesExisted s delAddr
               in bindE (WithdrawLastShares E s delAddr lastVals lastShares) (\<lambda>s1.
                  bindE (GetValidatorsToAddShares s1 (masValAddrs msg)) (\<lambda>vals.
                    case validateSharesAdding vals of
                      Some e \<Rightarrow> Inl e
                    | None \<Rightarrow>
                        bindE (AddSharesToValidators E ctx s1 delAddr vals
                                 (dTokens d + TotalDelegatedTokens d)) (\<lambda>(s2, shares).
                          Inr (SetDelegator s2
                                 (d\<lparr>ValidatorAddresses := getValsAddrs vals, dShares := shares\<rparr>))))))"

subsection \<open>Deposits, withdrawals, destruction\<close>

definition handleMsgDeposit ::
    "'w staking_env \<Rightarrow> block_ctx \<Rightarrow> acc_address \<Rightarrow> sys_coin \<Rightarrow> 'w staking_state \<Rightarrow>
     staking_error + 'w staking_state" where
  "handleMsgDeposit E ctx delAddr amount s =
     (if Denom amount \<noteq> BondDenom E then Inl ErrBadDenom else Delegate E ctx s delAddr amount)"

definition handleMsgWithdraw ::
    "'w staking_env \<Rightarrow> block_ctx \<Rightarrow> acc_address \<Rightarrow> sys_coin \<Rightarrow> 'w staking_state \<Rightarrow>
     staking_error + ('w staking_state \<times> timestamp)" where
  "handleMsgWithdraw E ctx delAddr amount s =
     (if Denom amount \<noteq> BondDenom E then Inl ErrBadDenom else Withdraw E ctx s delAddr amount)"

definition handleMsgDestroyValidator ::
    "'w staking_env \<Rightarrow> block_ctx \<Rightarrow> acc_address \<Rightarrow> 'w staking_state \<Rightarrow>
     staking_error + ('w staking_state \<times> timestamp)" where
  "handleMsgDestroyValidator E ctx delAddr s =
     (case GetValidator s delAddr of
        None \<Rightarrow> Inl (ErrNoValidatorFound delAddr)
      | Some v \<Rightarrow> WithdrawMinSelfDelegation E ctx s delAddr v)"

text \<open>The data of a result is the encoded completion time.\<close>

definition withData :: "'w staking_state \<times> timestamp \<Rightarrow> 'w staking_state \<times> timestamp option" where
  "withData r = (fst r, Some (snd r))"

definition noData :: "'w staking_state \<Rightarrow> 'w staking_state \<times> timestamp option" where
  "noData s = (s, None)"

fun staking_handler ::
    "'w staking_env \<Rightarrow> block_ctx \<Rightarrow> staking_msg \<Rightarrow> 'w staking_state \<Rightarrow>
     staking_error + ('w staking_state \<times> timestamp option)" where
  "staking_handler E ctx (MsgCreateValidator m) s =
     bindE (handleMsgCreateValidator E ctx m s) (\<lambda>s. Inr (noData s))"
| "staking_handler E ctx (MsgEditValidator m) s =
     bindE (handleMsgEditValidator m s) (\<lambda>s. Inr (noData s))"
| "staking_handler E ctx (MsgDeposit d c) s =
     bindE (handleMsgDeposit E ctx d c s) (\<lambda>s. Inr (noData s))"
| "staking_handler E ctx (MsgWithdraw d c) s =
     bindE (handleMsgWithdraw E ctx d c s) (\<lambda>r. Inr (withData r))"
| "staking_handler E ctx (MsgAddShares m) s =
     bindE (handleMsgAddShares E ctx m s) (\<lambda>s. Inr (noData s))"
| "staking_handler E ctx (MsgBindProxy m) s =
     bindE (handleMsgBindProxy E ctx m s) (\<lambda>s. Inr (noData s))"
| "staking_handler E ctx (MsgUnbindProxy d) s =
     bindE (handleMsgUnbindProxy E ctx d s) (\<lambda>s. Inr (noData s))"
| "staking_handler E ctx (MsgRegProxy p reg) s =
     bindE (handleRegProxy E ctx p reg s) (\<lambda>s. Inr (noData s))"
| "staking_handler E ctx (MsgDestroyValidator d) s =
     bindE (handleMsgDestroyValidator E ctx d s) (\<lambda>r. Inr (withData r))"

subsection \<open>End of a block\<close>

text \<open>An undelegation that cannot be completed is logged and skipped; a panic is not.\<close>

definition completeMatureUndelegation ::
    "'w staking_env \<Rightarrow> 'w staking_state \<Rightarrow> timestamp \<times> acc_address \<Rightarrow> staking_error + 'w staking_state" where
  "completeMatureUndelegation E s key =
     (let (oldTime, delAddr) = key;
          s1 = DeleteAddrByTimeKey s oldTime delAddr
      in case CompleteUndelegation E s1 delAddr of
           Inl (Panic m) \<Rightarrow> Inl (Panic m)
         | Inl _ \<Rightarrow> Inr s1
         | Inr (s2, _) \<Rightarrow> Inr s2)"

definition IterateKeysBeforeCurrentTime ::
    "('w staking_state \<Rightarrow> timestamp \<times> acc_address \<Rightarrow> staking_error + 'w staking_state) \<Rightarrow>
     'w staking_state \<Rightarrow> timestamp \<Rightarrow> staking_error + 'w staking_state" where
  "IterateKeysBeforeCurrentTime fn s currentTime = foldE fn s (getAddrByTimeKeyIterator s currentTime)"

definition updateValidatorSet ::
    "'w staking_env \<Rightarrow> block_ctx \<Rightarrow> 'w staking_state \<Rightarrow>
     staking_error + ('w staking_state \<times> validator_update list)" where
  "updateValidatorSet E ctx s =
     bindE (IsEndOfEpoch ctx s) (\<lambda>isEnd.
       if isEnd then
         let s1 = (if GetEpoch s \<noteq> ParamsEpoch s then SetEpoch s (ParamsEpoch s) else s);
             s2 = SetTheEndOfLastEpoch ctx s1
         in bindE (ApplyAndReturnValidatorSetUpdates E ctx s2) (\<lambda>(s3, updates).
              Inr (DeleteAbandonedValidatorAddrs s3, updates))
       else if IsKickedOut s then
         bindE (KickOutAndReturnValidatorSetUpdates E ctx s) (\<lambda>(s1, updates).
           Inr (DeleteAbandonedValidatorAddrs s1, updates))
       else Inr (s, []))"

definition EndBlocker ::
    "'w staking_env \<Rightarrow> block_ctx \<Rightarrow> 'w staking_state \<Rightarrow>
     staking_error + ('w staking_state \<times> validator_update list)" where
  "EndBlocker E ctx s =
     bindE (updateValidatorSet E ctx s) (\<lambda>(s1, validatorUpdates).
     bindE (UnbondAllMatureValidatorQueue E ctx s1) (\<lambda>s2.
     bindE (IterateKeysBeforeCurrentTime (completeMatureUndelegation E) s2 (BlockTime ctx)) (\<lambda>s3.
       Inr (s3, validatorUpdates))))"

end
