(* ===== verification/Staking_Laws.thy ===== *)
theory Staking_Laws
  imports Staking_Handler
begin

text \<open>
  The laws of the staking module's environment and the effect of the keeper's compound operations
  on the stores, field by field. \<open>hooks_frame\<close> says that a hook changes no staking record and
  neither pool (the distribution and slashing hooks work on their own stores); \<open>supply_moves\<close>
  says what the supply keeper's transfers do to the balances of the two pools; both are documented
  behaviour of code outside the module. \<open>env0\<close> is a concrete environment that meets them.
\<close>

subsection \<open>The environment\<close>

definition same_pools :: "'w staking_env \<Rightarrow> 'w \<Rightarrow> 'w \<Rightarrow> bool" where
  "same_pools E w w' \<longleftrightarrow>
     poolAmount E w' BondedPoolName = poolAmount E w BondedPoolName \<and>
     poolAmount E w' NotBondedPoolName = poolAmount E w NotBondedPoolName"

definition hooks_frame :: "'w staking_env \<Rightarrow> bool" where
  "hooks_frame E \<longleftrightarrow>
     (\<forall>ev s s'. runHook E ev s = Inr s' \<longrightarrow>
        (\<exists>w. s' = s\<lparr>st_world := w\<rparr> \<and> same_pools E (st_world s) w))"

definition supply_moves :: "'w staking_env \<Rightarrow> bool" where
  "supply_moves E \<longleftrightarrow>
     (\<forall>w a cs w'. DelegateCoinsFromAccountToModule E w a BondedPoolName cs = Inr w' \<longrightarrow>
        poolAmount E w' BondedPoolName = poolAmount E w BondedPoolName + AmountOf (BondDenom E) cs \<and>
        poolAmount E w' NotBondedPoolName = poolAmount E w NotBondedPoolName) \<and>
     (\<forall>w a cs w'. UndelegateCoinsFromModuleToAccount E w NotBondedPoolName a cs = Inr w' \<longrightarrow>
        poolAmount E w' BondedPoolName = poolAmount E w BondedPoolName \<and>
        poolAmount E w' NotBondedPoolName = poolAmount E w NotBondedPoolName - AmountOf (BondDenom E) cs) \<and>
     (\<forall>w cs w'. SendCoinsFromModuleToModule E w BondedPoolName NotBondedPoolName cs = Inr w' \<longrightarrow>
        poolAmount E w' BondedPoolName = poolAmount E w BondedPoolName - AmountOf (BondDenom E) cs \<and>
        poolAmount E w' NotBondedPoolName = poolAmount E w NotBondedPoolName + AmountOf (BondDenom E) cs)"

text \<open>A concrete environment: the balances of the two pools are the world, transfers out of a
  pool need the funds, and no hook is registered.\<close>

record pools =
  bondedBalance :: dec
  notBondedBalance :: dec

definition env0 :: "pools staking_env" where
  "env0 = \<lparr>
     arith = dec18,
     codec = codec0,
     DelegateCoinsFromAccountToModule = (\<lambda>w a p cs.
       if p = BondedPoolName
       then Inr (w\<lparr>bondedBalance := bondedBalance w + AmountOf ''okt'' cs\<rparr>)
       else Inr (w\<lparr>notBondedBalance := notBondedBalance w + AmountOf ''okt'' cs\<rparr>)),
     UndelegateCoinsFromModuleToAccount = (\<lambda>w p a cs.
       if p = NotBondedPoolName
       then (if notBondedBalance w < AmountOf ''okt'' cs then Inl (ErrSupply ''insufficient funds'')
             else Inr (w\<lparr>notBondedBalance := notBondedBalance w - AmountOf ''okt'' cs\<rparr>))
       else (if bondedBalance w < AmountOf ''okt'' cs then Inl (ErrSupply ''insufficient funds'')
             else Inr (w\<lparr>bondedBalance := bondedBalance w - AmountOf ''okt'' cs\<rparr>))),
     SendCoinsFromModuleToModule = (\<lambda>w p q cs.
       if bondedBalance w < AmountOf ''okt'' cs then Inl (ErrSupply ''insufficient funds'')
       else Inr (w\<lparr>bondedBalance := bondedBalance w - AmountOf ''okt'' cs,
                   notBondedBalance := notBondedBalance w + AmountOf ''okt'' cs\<rparr>)),
     poolAmount = (\<lambda>w p. if p = BondedPoolName then bondedBalance w else notBondedBalance w),
     hooks = None,
     DefaultLevelUpBlockHeight = 1000000,
     DefaultLevelUpUnbondingTime = 0,
     Precision = 18\<rparr>"

definition state0 :: "pools staking_state" where
  "state0 = \<lparr>
     st_validators = kv_empty, st_byConsAddr = kv_empty, st_powerIndex = kv_empty,
     st_lastPower = kv_empty, st_lastTotalPower = None, st_valQueue = kv_empty,
     st_shares = kv_empty, st_delegators = kv_empty, st_undelegations = kv_empty,
     st_unQueue = kv_empty, st_proxies = kv_empty, st_abandoned = [], st_epoch = None,
     st_endOfLastEpoch = None, st_params = DefaultParams dec18,
     st_world = \<lparr>bondedBalance = 0, notBondedBalance = 0\<rparr>\<rparr>"

lemma pool_names_differ [simp]: "NotBondedPoolName \<noteq> BondedPoolName" "BondedPoolName \<noteq> NotBondedPoolName"
  by (simp_all add: NotBondedPoolName_def BondedPoolName_def)

lemma env0_fields [simp]:
  "hooks env0 = None" "arith env0 = dec18" "codec env0 = codec0" "Precision env0 = 18"
  by (simp_all add: env0_def)

lemma env0_hooks_frame: "hooks_frame env0"
  unfolding hooks_frame_def
proof (intro allI impI)
  fix ev and s s' :: "pools staking_state"
  assume "runHook env0 ev s = Inr s'"
  then have "s' = s\<lparr>st_world := st_world s\<rparr>" by (simp add: runHook_def)
  then show "\<exists>w. s' = s\<lparr>st_world := w\<rparr> \<and> same_pools env0 (st_world s) w"
    by (intro exI [of _ "st_world s"]) (simp add: same_pools_def)
qed

lemma env0_supply_moves: "supply_moves env0"
  by (simp add: supply_moves_def env0_def BondDenom_def dec18_def)

subsection \<open>Effects\<close>

text \<open>The copy of a validator a caller holds is the stored one.\<close>

definition stored :: "'w staking_state \<Rightarrow> validator \<Rightarrow> bool" where
  "stored s v \<longleftrightarrow> kv_get (st_validators s) (OperatorAddress v) = Some v"

text \<open>The power index after a record \<open>v\<close> is replaced by \<open>v'\<close>.\<close>

definition reindex :: "sdk_dec \<Rightarrow> validator \<Rightarrow> validator \<Rightarrow> (bytes, val_address) kv \<Rightarrow> (bytes, val_address) kv" where
  "reindex A v v' idx =
     (let idx' = kv_del (GetValidatorsByPowerIndexKey A v) idx
      in if Jailed v' then idx' else kv_set (GetValidatorsByPowerIndexKey A v') (OperatorAddress v') idx')"

definition withShares :: "validator \<Rightarrow> dec \<Rightarrow> validator" where
  "withShares v x = v\<lparr>DelegatorShares := x\<rparr>"

lemma withShares_simps [simp]:
  "OperatorAddress (withShares v x) = OperatorAddress v"
  "MinSelfDelegation (withShares v x) = MinSelfDelegation v"
  "Jailed (withShares v x) = Jailed v"
  "Status (withShares v x) = Status v"
  "ConsPubKey (withShares v x) = ConsPubKey v"
  "vTokens (withShares v x) = vTokens v"
  "DelegatorShares (withShares v x) = x"
  "UnbondingCompletionTime (withShares v x) = UnbondingCompletionTime v"
  by (simp_all add: withShares_def)

lemma addShares_effect:
  "addShares E d x s v =
     s\<lparr>st_shares := kv_set (OperatorAddress v, d) x (st_shares s),
       st_validators := kv_set (OperatorAddress v) (withShares v (DelegatorShares v + x)) (st_validators s),
       st_powerIndex := reindex (arith E) v (withShares v (DelegatorShares v + x)) (st_powerIndex s)\<rparr>"
  by (simp add: addShares_def store_defs reindex_def withShares_def Let_def)

lemma updateSharesStep_effect:
  "updateSharesStep E d lastShares x s v = Inr s' \<longleftrightarrow>
     MinSelfDelegation v \<noteq> 0 \<and> s' =
     s\<lparr>st_shares := kv_set (OperatorAddress v, d) x (st_shares s),
       st_validators :=
         kv_set (OperatorAddress v) (withShares v (DelegatorShares v - lastShares + x)) (st_validators s),
       st_powerIndex :=
         reindex (arith E) v (withShares v (DelegatorShares v - lastShares + x)) (st_powerIndex s)\<rparr>"
  by (auto simp: updateSharesStep_def store_defs reindex_def withShares_def Let_def)

lemma RemoveValidator_effect:
  assumes "hooks_frame E" and "RemoveValidator E s a = Inr s'" and "kv_get (st_validators s) a = Some v"
  obtains w where "IsUnbonded v" and "same_pools E (st_world s) w"
    and "s' = s\<lparr>st_validators := kv_del a (st_validators s),
                 st_byConsAddr := kv_del (ConsAddress (codec E) v) (st_byConsAddr s),
                 st_powerIndex := kv_del (GetValidatorsByPowerIndexKey (arith E) v) (st_powerIndex s),
                 st_world := w\<rparr>"
proof -
  let ?s = "s\<lparr>st_validators := kv_del a (st_validators s),
               st_byConsAddr := kv_del (ConsAddress (codec E) v) (st_byConsAddr s),
               st_powerIndex := kv_del (GetValidatorsByPowerIndexKey (arith E) v) (st_powerIndex s)\<rparr>"
  from assms(2,3) have "IsUnbonded v"
    and hook: "runHook E (HookValidatorRemoved (ConsAddress (codec E) v) (OperatorAddress v)) ?s = Inr s'"
    by (simp_all add: RemoveValidator_def GetValidator_def AfterValidatorRemoved_def split: if_splits)
  moreover from assms(1) hook obtain w where "s' = ?s\<lparr>st_world := w\<rparr>" and "same_pools E (st_world ?s) w"
    unfolding hooks_frame_def by blast
  ultimately show ?thesis by (intro that [of w]) simp_all
qed

lemma withdrawShares_effect:
  assumes "hooks_frame E" and "withdrawShares E d x s v = Inr s'" and "stored s v"
  obtains
    (kept) "\<not> (IsUnbonded v \<and> MinSelfDelegation v = 0 \<and> DelegatorShares v = x)"
      "s' = s\<lparr>st_shares := kv_del (OperatorAddress v, d) (st_shares s),
               st_validators := kv_set (OperatorAddress v) (withShares v (DelegatorShares v - x)) (st_validators s),
               st_powerIndex := reindex (arith E) v (withShares v (DelegatorShares v - x)) (st_powerIndex s)\<rparr>"
  | (removed) w where "IsUnbonded v" "MinSelfDelegation v = 0" "DelegatorShares v = x"
      "same_pools E (st_world s) w"
      "s' = s\<lparr>st_shares := kv_del (OperatorAddress v, d) (st_shares s),
               st_validators := kv_del (OperatorAddress v) (st_validators s),
               st_byConsAddr := kv_del (ConsAddress (codec E) v) (st_byConsAddr s),
               st_powerIndex := kv_del (GetValidatorsByPowerIndexKey (arith E) v) (st_powerIndex s),
               st_world := w\<rparr>"
proof (cases "IsUnbonded v \<and> MinSelfDelegation v = 0 \<and> DelegatorShares v = x")
  case False
  with assms(2) show ?thesis
    by (intro kept) (auto simp: withdrawShares_def store_defs reindex_def withShares_def IsUnbonded_def Let_def)
next
  case True
  let ?s2 = "DeleteValidatorByPowerIndex E (DeleteShares s (OperatorAddress v) d) v"
  have rm: "RemoveValidator E ?s2 (OperatorAddress v) = Inr s'"
    using assms(2) True by (simp add: withdrawShares_def IsUnbonded_def Let_def)
  have "kv_get (st_validators ?s2) (OperatorAddress v) = Some v"
    using assms(3) by (simp add: stored_def store_defs)
  from RemoveValidator_effect [OF assms(1) rm this] obtain w where
    pools: "same_pools E (st_world ?s2) w" and s': "s' = ?s2\<lparr>st_validators := kv_del (OperatorAddress v) (st_validators ?s2),
                 st_byConsAddr := kv_del (ConsAddress (codec E) v) (st_byConsAddr ?s2),
                 st_powerIndex := kv_del (GetValidatorsByPowerIndexKey (arith E) v) (st_powerIndex ?s2),
                 st_world := w\<rparr>"
    by blast
  show ?thesis
  proof (rule removed)
    show "same_pools E (st_world s) w" using pools by (simp add: store_defs)
    show "s' = s\<lparr>st_shares := kv_del (OperatorAddress v, d) (st_shares s),
               st_validators := kv_del (OperatorAddress v) (st_validators s),
               st_byConsAddr := kv_del (ConsAddress (codec E) v) (st_byConsAddr s),
               st_powerIndex := kv_del (GetValidatorsByPowerIndexKey (arith E) v) (st_powerIndex s),
               st_world := w\<rparr>"
      unfolding s' by (simp add: store_defs)
  qed (use True in simp_all)
qed

text \<open>Lists of stored validators with different operators: what a loop over them sees.\<close>

definition all_stored :: "'w staking_state \<Rightarrow> validator list \<Rightarrow> bool" where
  "all_stored s vs \<longleftrightarrow> distinct (map OperatorAddress vs) \<and> (\<forall>v \<in> set vs. stored s v)"

text \<open>Records are kept under their own addresses, which have the length of an address, and a
  delegator never lists a validator twice.\<close>

definition keyed :: "'w staking_state \<Rightarrow> bool" where
  "keyed s \<longleftrightarrow>
     (\<forall>a v. kv_get (st_validators s) a = Some v \<longrightarrow> OperatorAddress v = a \<and> length a = AddrLen) \<and>
     (\<forall>a d. kv_get (st_delegators s) a = Some d \<longrightarrow>
        DelegatorAddress d = a \<and> distinct (ValidatorAddresses d)) \<and>
     (\<forall>a u. kv_get (st_undelegations s) a = Some u \<longrightarrow> udDelegatorAddress u = a)"

lemma keyed_validator: "keyed s \<Longrightarrow> kv_get (st_validators s) a = Some v \<Longrightarrow> OperatorAddress v = a"
  by (simp add: keyed_def)

lemma keyed_delegator: "keyed s \<Longrightarrow> kv_get (st_delegators s) a = Some d \<Longrightarrow> DelegatorAddress d = a"
  by (simp add: keyed_def)

lemma keyed_undelegation:
  "keyed s \<Longrightarrow> kv_get (st_undelegations s) a = Some u \<Longrightarrow> udDelegatorAddress u = a"
  by (simp add: keyed_def)

lemma existingValidators_addresses:
  assumes "keyed s"
  shows "map OperatorAddress (existingValidators s addrs) =
    filter (\<lambda>a. kv_get (st_validators s) a \<noteq> None) addrs"
  using assms
  by (induction addrs)
    (auto simp: existingValidators_def map_filter_simps GetValidator_def keyed_validator split: option.splits)

lemma existingValidators_stored:
  assumes "keyed s" and "distinct addrs"
  shows "all_stored s (existingValidators s addrs)"
proof -
  have "stored s v" if "v \<in> set (existingValidators s addrs)" for v
    using that assms(1)
    by (auto simp: existingValidators_def List.map_filter_def GetValidator_def stored_def keyed_validator)
  with assms show ?thesis
    by (simp add: all_stored_def existingValidators_addresses)
qed

lemma lastVals_stored:
  assumes "keyed s" and "GetLastValsAddedSharesExisted s d = (vals, x)"
  shows "all_stored s vals"
proof (cases "kv_get (st_delegators s) d")
  case None
  with assms(2) show ?thesis
    by (simp add: GetLastValsAddedSharesExisted_def GetDelegator_def all_stored_def)
next
  case (Some del)
  with assms(1) have "distinct (ValidatorAddresses del)" by (simp add: keyed_def)
  from existingValidators_stored [OF assms(1) this] Some assms(2) show ?thesis
    by (simp add: GetLastValsAddedSharesExisted_def GetDelegator_def)
qed

lemma GetValidatorsToAddShares_eq:
  "GetValidatorsToAddShares s as = Inr vs \<longleftrightarrow> map (GetValidator s) as = map Some vs"
  by (induction as arbitrary: vs) (auto simp: res_simps split: option.splits)

lemma toAddShares_stored:
  assumes "keyed s" and "distinct as" and "GetValidatorsToAddShares s as = Inr vs"
  shows "map OperatorAddress vs = as \<and> all_stored s vs"
proof -
  have eq: "map (GetValidator s) as = map Some vs"
    using assms(3) by (simp add: GetValidatorsToAddShares_eq)
  have ops: "map OperatorAddress vs = as"
    using eq assms(1)
  proof (induction as arbitrary: vs)
    case Nil
    then show ?case by simp
  next
    case (Cons a as)
    then show ?case by (auto simp: GetValidator_def keyed_validator)
  qed
  have "stored s v" if "v \<in> set vs" for v
  proof -
    from that have "Some v \<in> set (map (GetValidator s) as)" by (simp add: eq)
    then show ?thesis
      using assms(1) by (auto simp: GetValidator_def stored_def keyed_validator)
  qed
  with ops assms(2) show ?thesis by (simp add: all_stored_def)
qed

end
