(* ===== verification/Staking_Inv.thy ===== *)
theory Staking_Inv
  imports Staking_Laws
begin

text \<open>
  The invariant of the staking module. It is a conjunction of relations between the stores, each
  stated on the fields it relates, with one lemma per kind of update (a validator record replaced,
  added or removed), so that an operation preserves the invariant by the lemmas for its updates.
  The invariants the code registers itself (staking/keeper/invariants.go) are modelled in
  \<open>Staking_Inv_Code\<close> and follow from these relations.
\<close>

subsection \<open>The relations\<close>

type_synonym val_store = "(val_address, validator) kv"

text \<open>Validators are stored under their operator address; the self delegation is not negative,
  and a validator without one is jailed.\<close>

definition vals_ok :: "val_store \<Rightarrow> bool" where
  "vals_ok vals \<longleftrightarrow>
     (\<forall>a v. kv_get vals a = Some v \<longrightarrow>
        OperatorAddress v = a \<and> length a = AddrLen \<and> 0 \<le> MinSelfDelegation v \<and> vTokens v = 0 \<and>
        (MinSelfDelegation v = 0 \<longrightarrow> Jailed v))"

text \<open>An index holds exactly the validators with property \<open>P\<close>, each under its
  \<open>key\<close>.\<close>

definition inverse_rel ::
    "(validator \<Rightarrow> bytes) \<Rightarrow> (validator \<Rightarrow> bool) \<Rightarrow> val_store \<Rightarrow> (bytes, val_address) kv \<Rightarrow> bool" where
  "inverse_rel key P vals idx \<longleftrightarrow>
     (\<forall>k a. kv_get idx k = Some a \<longleftrightarrow> (\<exists>v. kv_get vals a = Some v \<and> P v \<and> k = key v))"

text \<open>The power index holds exactly the validators that are not jailed, each under the key of its
  current shares.\<close>

definition index_rel :: "sdk_dec \<Rightarrow> val_store \<Rightarrow> (bytes, val_address) kv \<Rightarrow> bool" where
  "index_rel A vals idx \<longleftrightarrow> inverse_rel (GetValidatorsByPowerIndexKey A) (\<lambda>v. \<not> Jailed v) vals idx"

text \<open>The consensus address index holds exactly the validators.\<close>

definition cons_rel :: "sdk_codec \<Rightarrow> val_store \<Rightarrow> (cons_address, val_address) kv \<Rightarrow> bool" where
  "cons_rel C vals byCons \<longleftrightarrow> inverse_rel (ConsAddress C) (\<lambda>v. True) vals byCons"

text \<open>The unbonding queue holds exactly the unbonding validators, at their completion times.\<close>

definition queue_at :: "(timestamp, val_address list) kv \<Rightarrow> timestamp \<Rightarrow> val_address list" where
  "queue_at q t = (case kv_get q t of None \<Rightarrow> [] | Some xs \<Rightarrow> xs)"

definition queue_rel :: "val_store \<Rightarrow> (timestamp, val_address list) kv \<Rightarrow> bool" where
  "queue_rel vals q \<longleftrightarrow>
     (\<forall>t. distinct (queue_at q t) \<and>
       (\<forall>a. a \<in> set (queue_at q t) \<longleftrightarrow>
          (\<exists>v. kv_get vals a = Some v \<and> Status v = Unbonding \<and> UnbondingCompletionTime v = t)))"

text \<open>The last validator set is the set of bonded validators.\<close>

definition last_rel :: "val_store \<Rightarrow> (val_address, int) kv \<Rightarrow> bool" where
  "last_rel vals lp \<longleftrightarrow>
     (\<forall>a. kv_get lp a \<noteq> None \<longleftrightarrow> (\<exists>v. kv_get vals a = Some v \<and> Status v = Bonded))"

text \<open>An abandoned validator is still there, bonded, or unbonding and jailed.\<close>

definition abandonable :: "validator \<Rightarrow> bool" where
  "abandonable v \<longleftrightarrow> Status v = Bonded \<or> Status v = Unbonding \<and> Jailed v"

definition aband_rel :: "val_store \<Rightarrow> val_address list \<Rightarrow> bool" where
  "aband_rel vals ab \<longleftrightarrow> (\<forall>a \<in> set ab. \<exists>v. kv_get vals a = Some v \<and> abandonable v)"

text \<open>The shares of a validator are those of its self delegation and those added to it.\<close>

definition baseShares :: "sdk_dec \<Rightarrow> validator \<Rightarrow> dec" where
  "baseShares A v = (if MinSelfDelegation v = 0 \<and> Jailed v then 0 else OneDec A)"

definition sharesOf :: "(val_address \<times> acc_address, dec) kv \<Rightarrow> val_address \<Rightarrow> dec" where
  "sharesOf sh a = kv_sum (\<lambda>k x. if fst k = a then x else 0) sh"

definition sums_rel :: "sdk_dec \<Rightarrow> val_store \<Rightarrow> (val_address \<times> acc_address, dec) kv \<Rightarrow> bool" where
  "sums_rel A vals sh \<longleftrightarrow>
     (\<forall>a v. kv_get vals a = Some v \<longrightarrow> DelegatorShares v = baseShares A v + sharesOf sh a)"

definition validators_inv :: "'w staking_env \<Rightarrow> 'w staking_state \<Rightarrow> bool" where
  "validators_inv E s \<longleftrightarrow>
     vals_ok (st_validators s) \<and>
     index_rel (arith E) (st_validators s) (st_powerIndex s) \<and>
     cons_rel (codec E) (st_validators s) (st_byConsAddr s) \<and>
     queue_rel (st_validators s) (st_valQueue s) \<and>
     last_rel (st_validators s) (st_lastPower s) \<and>
     aband_rel (st_validators s) (st_abandoned s) \<and>
     sums_rel (arith E) (st_validators s) (st_shares s)"

text \<open>Delegators and undelegations are stored under their addresses; a delegator's tokens are
  positive, it lists no validator twice and is not its own proxy.\<close>

definition dels_ok :: "(acc_address, delegator) kv \<Rightarrow> bool" where
  "dels_ok dels \<longleftrightarrow>
     (\<forall>a d. kv_get dels a = Some d \<longrightarrow>
        DelegatorAddress d = a \<and> distinct (ValidatorAddresses d) \<and> 0 < dTokens d \<and>
        ProxyAddress d \<noteq> Some a)"

definition undels_ok :: "(acc_address, undelegation_info) kv \<Rightarrow> bool" where
  "undels_ok us \<longleftrightarrow> (\<forall>a u. kv_get us a = Some u \<longrightarrow> udDelegatorAddress u = a)"

text \<open>A delegator's shares are the entry of each validator it lists that still exists, and there
  are no other entries for existing validators.\<close>

definition link_rel :: "val_store \<Rightarrow> (acc_address, delegator) kv \<Rightarrow> (val_address \<times> acc_address, dec) kv \<Rightarrow> bool" where
  "link_rel vals dels sh \<longleftrightarrow>
     (\<forall>a d. kv_get vals a \<noteq> None \<longrightarrow>
        kv_get sh (a, d) =
          (case kv_get dels d of
             None \<Rightarrow> None
           | Some del \<Rightarrow> if a \<in> set (ValidatorAddresses del) then Some (dShares del) else None))"

text \<open>The two pools hold what the records say.\<close>

definition bondedSum :: "'w staking_state \<Rightarrow> dec" where
  "bondedSum s = kv_sum (\<lambda>_ v. MinSelfDelegation v) (st_validators s) + kv_sum (\<lambda>_ d. dTokens d) (st_delegators s)"

definition notBondedSum :: "'w staking_state \<Rightarrow> dec" where
  "notBondedSum s = kv_sum (\<lambda>_ u. Quantity u) (st_undelegations s)"

definition records_inv :: "'w staking_env \<Rightarrow> 'w staking_state \<Rightarrow> bool" where
  "records_inv E s \<longleftrightarrow>
     validators_inv E s \<and> dels_ok (st_delegators s) \<and> undels_ok (st_undelegations s) \<and>
     link_rel (st_validators s) (st_delegators s) (st_shares s)"

text \<open>Inside an operation the pools may run ahead of the records, by \<open>b\<close> and \<open>n\<close>.\<close>

definition inv_at :: "'w staking_env \<Rightarrow> dec \<Rightarrow> dec \<Rightarrow> 'w staking_state \<Rightarrow> bool" where
  "inv_at E b n s \<longleftrightarrow>
     records_inv E s \<and>
     poolAmount E (st_world s) BondedPoolName = bondedSum s + b \<and>
     poolAmount E (st_world s) NotBondedPoolName = notBondedSum s + n"

definition staking_inv :: "'w staking_env \<Rightarrow> 'w staking_state \<Rightarrow> bool" where
  "staking_inv E s \<longleftrightarrow> inv_at E 0 0 s"

lemma records_inv_keyed: "records_inv E s \<Longrightarrow> keyed s"
  by (auto simp: records_inv_def validators_inv_def vals_ok_def dels_ok_def undels_ok_def keyed_def)

lemma vals_okD:
  assumes "vals_ok vals" and "kv_get vals a = Some v"
  shows "OperatorAddress v = a" "length a = AddrLen" "0 \<le> MinSelfDelegation v" "vTokens v = 0"
    "MinSelfDelegation v = 0 \<Longrightarrow> Jailed v"
  using assms by (auto simp: vals_ok_def)

lemma validators_inv_vals: "validators_inv E s \<Longrightarrow> vals_ok (st_validators s)"
  by (simp add: validators_inv_def)

lemmas validators_invD = vals_okD [OF validators_inv_vals]

subsection \<open>Updates of the power index\<close>

text \<open>The key of a validator determines its operator address, whatever the powers.\<close>

lemma map_not_inj: "map (\<lambda>b. NOT b) xs = map (\<lambda>b. NOT b) ys \<longleftrightarrow> xs = (ys :: bytes)"
  by (rule inj_map_eq_map) (metis bit.double_compl injI)

lemma index_key_inj:
  assumes "length (OperatorAddress v) = AddrLen" and "length (OperatorAddress w) = AddrLen"
    and "GetValidatorsByPowerIndexKey A v = GetValidatorsByPowerIndexKey A w"
  shows "OperatorAddress v = OperatorAddress w"
  using assms
  by (simp add: GetValidatorsByPowerIndexKey_def getValidatorPowerRank_def copyInto_exact Let_def map_not_inj)

lemma inverse_rel_get:
  "inverse_rel key P vals idx \<Longrightarrow> kv_get vals a = Some v \<Longrightarrow> P v \<Longrightarrow> kv_get idx (key v) = Some a"
  by (auto simp: inverse_rel_def)

lemma inverse_rel_del:
  assumes "inverse_rel key P vals idx" and "kv_get vals a = Some v"
    and "\<And>b w. kv_get vals b = Some w \<Longrightarrow> key w = key v \<Longrightarrow> b = a"
  shows "inverse_rel key P (kv_del a vals) (kv_del (key v) idx)"
  unfolding inverse_rel_def
proof (intro allI)
  fix k b
  have "kv_get idx k = Some b \<longleftrightarrow> (\<exists>w. kv_get vals b = Some w \<and> P w \<and> k = key w)"
    using assms(1) by (simp add: inverse_rel_def)
  moreover have "kv_get vals b = Some w \<Longrightarrow> b = a \<longleftrightarrow> key w = key v" for w
    using assms(2) assms(3) [of b w] by auto
  ultimately show "kv_get (kv_del (key v) idx) k = Some b \<longleftrightarrow>
      (\<exists>w. kv_get (kv_del a vals) b = Some w \<and> P w \<and> k = key w)"
    by (cases "kv_get vals b") auto
qed

lemma inverse_rel_set:
  assumes "inverse_rel key P vals idx" and "kv_get vals a = None"
    and "\<And>b w. kv_get vals b = Some w \<Longrightarrow> key w \<noteq> key v"
  shows "inverse_rel key P (kv_set a v vals) (if P v then kv_set (key v) a idx else idx)"
  unfolding inverse_rel_def
proof (intro allI)
  fix k b
  have "kv_get idx k = Some b \<longleftrightarrow> (\<exists>w. kv_get vals b = Some w \<and> P w \<and> k = key w)"
    using assms(1) by (simp add: inverse_rel_def)
  moreover have "kv_get idx (key v) = None"
    using assms(1) assms(3) unfolding inverse_rel_def by (metis not_None_eq)
  moreover have "kv_get vals b = Some w \<Longrightarrow> key w \<noteq> key v \<and> b \<noteq> a" for w
    using assms(2) assms(3) [of b w] by auto
  ultimately show "kv_get (if P v then kv_set (key v) a idx else idx) k = Some b \<longleftrightarrow>
      (\<exists>w. kv_get (kv_set a v vals) b = Some w \<and> P w \<and> k = key w)"
    using assms(2) by (cases "kv_get vals b") auto
qed

text \<open>Replacing a record is removing it and adding the new one.\<close>

lemma inverse_rel_replace:
  assumes "inverse_rel key P vals idx" and "kv_get vals a = Some v"
    and "\<And>b w. kv_get vals b = Some w \<Longrightarrow> key w = key v \<Longrightarrow> b = a"
    and "\<And>b w. kv_get vals b = Some w \<Longrightarrow> key w = key v' \<Longrightarrow> b = a"
  shows "inverse_rel key P (kv_set a v' vals)
    (if P v' then kv_set (key v') a (kv_del (key v) idx) else kv_del (key v) idx)"
proof -
  have "inverse_rel key P (kv_set a v' (kv_del a vals))
    (if P v' then kv_set (key v') a (kv_del (key v) idx) else kv_del (key v) idx)"
    using assms(3,4) inverse_rel_del [OF assms(1,2)] by (intro inverse_rel_set) (auto split: if_splits)
  moreover have "kv_set a v' (kv_del a vals) = kv_set a v' vals" by (rule kv_eqI) simp
  ultimately show ?thesis by simp
qed

text \<open>Replacing a record changes nothing if its key and its membership stay.\<close>

lemma inverse_rel_same:
  assumes "inverse_rel key P vals idx" and "kv_get vals a = Some v" and "key v' = key v" and "P v' = P v"
  shows "inverse_rel key P (kv_set a v' vals) idx"
  using assms by (auto simp: inverse_rel_def split: if_splits)

lemma index_uniq:
  assumes "vals_ok vals" and "OperatorAddress v = a" and "length a = AddrLen"
    and "kv_get vals b = Some w"
    and "GetValidatorsByPowerIndexKey A w = GetValidatorsByPowerIndexKey A v"
  shows "b = a"
  using assms index_key_inj [of w v A] by (simp add: vals_okD)

lemma index_rel_del:
  assumes "vals_ok vals" and "index_rel A vals idx" and "kv_get vals a = Some v"
  shows "index_rel A (kv_del a vals) (kv_del (GetValidatorsByPowerIndexKey A v) idx)"
  using assms unfolding index_rel_def
  by (intro inverse_rel_del) (auto intro: index_uniq vals_okD)

lemma index_rel_replace:
  assumes "vals_ok vals" and "index_rel A vals idx" and "kv_get vals a = Some v" and "OperatorAddress v' = a"
  shows "index_rel A (kv_set a v' vals) (reindex A v v' idx)"
proof -
  have "index_rel A (kv_set a v' vals)
    (if \<not> Jailed v' then kv_set (GetValidatorsByPowerIndexKey A v') a (kv_del (GetValidatorsByPowerIndexKey A v) idx)
     else kv_del (GetValidatorsByPowerIndexKey A v) idx)"
    using assms unfolding index_rel_def
    by (intro inverse_rel_replace) (auto intro: index_uniq vals_okD)
  then show ?thesis using assms(4) by (simp add: reindex_def Let_def if_distrib)
qed

lemma cons_rel_del:
  assumes "cons_rel C vals byCons" and "kv_get vals a = Some v"
  shows "cons_rel C (kv_del a vals) (kv_del (ConsAddress C v) byCons)"
proof -
  have inv: "inverse_rel (ConsAddress C) (\<lambda>_. True) vals byCons"
    using assms(1) by (simp add: cons_rel_def)
  have "b = a" if "kv_get vals b = Some w" "ConsAddress C w = ConsAddress C v" for b w
    using inverse_rel_get [OF inv assms(2)] inverse_rel_get [OF inv that(1)] that(2) by simp
  then show ?thesis unfolding cons_rel_def by (intro inverse_rel_del inv assms(2))
qed

lemma cons_rel_same:
  "cons_rel C vals byCons \<Longrightarrow> kv_get vals a = Some v \<Longrightarrow> ConsPubKey v' = ConsPubKey v \<Longrightarrow>
     cons_rel C (kv_set a v' vals) byCons"
  unfolding cons_rel_def by (rule inverse_rel_same) (simp_all add: ConsAddress_def)

lemma cons_rel_insert:
  assumes "cons_rel C vals byCons" and "kv_get vals a = None" and "kv_get byCons (ConsAddress C v) = None"
  shows "cons_rel C (kv_set a v vals) (kv_set (ConsAddress C v) a byCons)"
proof -
  have inv: "inverse_rel (ConsAddress C) (\<lambda>_. True) vals byCons"
    using assms(1) by (simp add: cons_rel_def)
  have "ConsAddress C w \<noteq> ConsAddress C v" if "kv_get vals b = Some w" for b w
    using inverse_rel_get [OF inv that] assms(3) by auto
  from inverse_rel_set [OF inv assms(2) this] show ?thesis by (simp add: cons_rel_def)
qed

subsection \<open>Updates of the other relations\<close>

text \<open>A record replaced by one with the same status, completion time and self delegation.\<close>

lemma vals_ok_replace:
  "vals_ok vals \<Longrightarrow> kv_get vals a = Some v \<Longrightarrow> OperatorAddress v' = a \<Longrightarrow>
     0 \<le> MinSelfDelegation v' \<Longrightarrow> vTokens v' = 0 \<Longrightarrow> (MinSelfDelegation v' = 0 \<Longrightarrow> Jailed v') \<Longrightarrow>
     vals_ok (kv_set a v' vals)"
  by (auto simp: vals_ok_def split: if_splits)

lemma vals_ok_del: "vals_ok vals \<Longrightarrow> vals_ok (kv_del a vals)"
  by (auto simp: vals_ok_def split: if_splits)

lemma queue_rel_same:
  assumes "queue_rel vals q" and "kv_get vals a = Some v"
    and "Status v' = Unbonding \<longleftrightarrow> Status v = Unbonding"
    and "Status v = Unbonding \<Longrightarrow> UnbondingCompletionTime v' = UnbondingCompletionTime v"
  shows "queue_rel (kv_set a v' vals) q"
  using assms unfolding queue_rel_def by (auto split: if_splits)

lemma queue_rel_del:
  assumes "queue_rel vals q" and "kv_get vals a = Some v" and "Status v \<noteq> Unbonding"
  shows "queue_rel (kv_del a vals) q"
  using assms unfolding queue_rel_def by (auto split: if_splits)

lemma queue_rel_insert:
  assumes "queue_rel vals q" and "kv_get vals a = None" and "Status v \<noteq> Unbonding"
  shows "queue_rel (kv_set a v vals) q"
  using assms unfolding queue_rel_def by (auto split: if_splits)

lemma last_rel_same:
  "last_rel vals lp \<Longrightarrow> kv_get vals a = Some v \<Longrightarrow> (Status v' = Bonded \<longleftrightarrow> Status v = Bonded) \<Longrightarrow>
     last_rel (kv_set a v' vals) lp"
  by (auto simp: last_rel_def)

lemma last_rel_del:
  "last_rel vals lp \<Longrightarrow> kv_get vals a = Some v \<Longrightarrow> Status v \<noteq> Bonded \<Longrightarrow> last_rel (kv_del a vals) lp"
  by (auto simp: last_rel_def)

lemma last_rel_insert:
  "last_rel vals lp \<Longrightarrow> kv_get vals a = None \<Longrightarrow> Status v \<noteq> Bonded \<Longrightarrow> last_rel (kv_set a v vals) lp"
  by (auto simp: last_rel_def)

lemma aband_rel_same:
  "aband_rel vals ab \<Longrightarrow> kv_get vals a = Some v \<Longrightarrow>
     (a \<in> set ab \<Longrightarrow> abandonable v \<Longrightarrow> abandonable v') \<Longrightarrow>
     aband_rel (kv_set a v' vals) ab"
  unfolding aband_rel_def by (metis kv_get_set option.inject)

lemma aband_rel_del:
  "aband_rel vals ab \<Longrightarrow> kv_get vals a = Some v \<Longrightarrow> Status v = Unbonded \<Longrightarrow> aband_rel (kv_del a vals) ab"
  unfolding aband_rel_def abandonable_def by (metis bond_status.distinct(1,3) kv_get_del option.inject)

lemma aband_rel_insert: "aband_rel vals ab \<Longrightarrow> kv_get vals a = None \<Longrightarrow> aband_rel (kv_set a v vals) ab"
  by (fastforce simp: aband_rel_def)

lemma sharesOf_set:
  "sharesOf (kv_set (a, d) x sh) b =
     (if b = a then sharesOf sh a - opt_val id (kv_get sh (a, d)) + x else sharesOf sh b)"
  by (auto simp: sharesOf_def kv_sum_set split: option.splits)

lemma sharesOf_del:
  "sharesOf (kv_del (a, d) sh) b =
     (if b = a then sharesOf sh a - opt_val id (kv_get sh (a, d)) else sharesOf sh b)"
  by (auto simp: sharesOf_def kv_sum_del split: option.splits)

lemma sums_rel_same:
  "sums_rel A vals sh \<Longrightarrow> kv_get vals a = Some v \<Longrightarrow> DelegatorShares v' = DelegatorShares v \<Longrightarrow>
     baseShares A v' = baseShares A v \<Longrightarrow> sums_rel A (kv_set a v' vals) sh"
  by (auto simp: sums_rel_def)

lemma sums_rel_del: "sums_rel A vals sh \<Longrightarrow> sums_rel A (kv_del a vals) sh"
  by (auto simp: sums_rel_def)

lemma abandonable_withShares [simp]: "abandonable (withShares v x) = abandonable v"
  by (simp add: abandonable_def)

lemma baseShares_withShares [simp]: "baseShares A (withShares v x) = baseShares A v"
  by (simp add: baseShares_def)

subsection \<open>Updates of the whole invariant\<close>

text \<open>The shares of one validator change together with its entries.\<close>

lemma validators_inv_shares:
  assumes inv: "validators_inv E s" and v: "kv_get (st_validators s) a = Some v"
    and sh: "\<And>b. sharesOf sh' b = (if b = a then sharesOf (st_shares s) a - DelegatorShares v + x
                                       else sharesOf (st_shares s) b)"
  shows "validators_inv E (s\<lparr>st_shares := sh', st_validators := kv_set a (withShares v x) (st_validators s),
    st_powerIndex := reindex (arith E) v (withShares v x) (st_powerIndex s)\<rparr>)"
proof -
  have ok: "vals_ok (st_validators s)" using inv by (simp add: validators_inv_def)
  have sums: "sums_rel (arith E) (kv_set a (withShares v x) (st_validators s)) sh'"
    using inv v by (auto simp: validators_inv_def sums_rel_def sh)
  have "vals_ok (kv_set a (withShares v x) (st_validators s))"
    by (rule vals_ok_replace [OF ok v]) (simp_all add: vals_okD [OF ok v])
  with inv show ?thesis
    by (simp add: validators_inv_def sums vals_okD(1) [OF ok v] index_rel_replace [OF ok _ v] cons_rel_same [OF _ v] queue_rel_same [OF _ v]
        last_rel_same [OF _ v] aband_rel_same [OF _ v])
qed

text \<open>A validator disappears from all stores.\<close>

lemma validators_inv_remove:
  assumes inv: "validators_inv E s" and v: "kv_get (st_validators s) a = Some v" and "IsUnbonded v"
    and sh: "\<And>b. b \<noteq> a \<Longrightarrow> sharesOf sh' b = sharesOf (st_shares s) b"
  shows "validators_inv E (s\<lparr>st_shares := sh', st_validators := kv_del a (st_validators s),
    st_byConsAddr := kv_del (ConsAddress (codec E) v) (st_byConsAddr s),
    st_powerIndex := kv_del (GetValidatorsByPowerIndexKey (arith E) v) (st_powerIndex s), st_world := w\<rparr>)"
proof -
  have st: "Status v = Unbonded" using assms(3) by (simp add: IsUnbonded_def)
  have ok: "vals_ok (st_validators s)" using inv by (simp add: validators_inv_def)
  have sums: "sums_rel (arith E) (kv_del a (st_validators s)) sh'"
    using inv by (auto simp: validators_inv_def sums_rel_def sh split: if_splits)
  from inv show ?thesis
    by (simp add: validators_inv_def sums vals_ok_del index_rel_del [OF ok _ v] cons_rel_del [OF _ v]
        queue_rel_del [OF _ v] last_rel_del [OF _ v] aband_rel_del [OF _ v] st)
qed

text \<open>A record changes in its self delegation, jail or shares, and is indexed again.\<close>

lemma validators_inv_replace:
  assumes inv: "validators_inv E s" and v: "kv_get (st_validators s) a = Some v"
    and same: "OperatorAddress v' = a" "ConsPubKey v' = ConsPubKey v" "Status v' = Status v"
      "UnbondingCompletionTime v' = UnbondingCompletionTime v" "vTokens v' = 0"
    and msd: "0 \<le> MinSelfDelegation v'" "MinSelfDelegation v' = 0 \<Longrightarrow> Jailed v'"
    and sums: "DelegatorShares v' - baseShares (arith E) v' = DelegatorShares v - baseShares (arith E) v"
    and aband: "a \<in> set (st_abandoned s) \<Longrightarrow> abandonable v \<Longrightarrow> abandonable v'"
  shows "validators_inv E (s\<lparr>st_validators := kv_set a v' (st_validators s),
    st_powerIndex := reindex (arith E) v v' (st_powerIndex s)\<rparr>)"
proof -
  have ok: "vals_ok (st_validators s)" using inv by (simp add: validators_inv_def)
  have "vals_ok (kv_set a v' (st_validators s))"
    using same msd by (intro vals_ok_replace [OF ok v]) simp_all
  moreover have "sums_rel (arith E) (kv_set a v' (st_validators s)) (st_shares s)"
  proof -
    have "DelegatorShares v = baseShares (arith E) v + sharesOf (st_shares s) a"
      using inv v by (simp add: validators_inv_def sums_rel_def)
    with sums inv show ?thesis by (auto simp: validators_inv_def sums_rel_def)
  qed
  ultimately show ?thesis
    using inv same
    by (simp add: validators_inv_def index_rel_replace [OF ok _ v] cons_rel_same [OF _ v]
        queue_rel_same [OF _ v] last_rel_same [OF _ v] aband_rel_same [OF _ v] aband)
qed

lemma index_key_cong:
  "OperatorAddress v' = OperatorAddress v \<Longrightarrow> DelegatorShares v' = DelegatorShares v \<Longrightarrow>
     GetValidatorsByPowerIndexKey A v' = GetValidatorsByPowerIndexKey A v"
  by (simp add: GetValidatorsByPowerIndexKey_def getValidatorPowerRank_def)

text \<open>A record that stays under its key, with its membership, need not be indexed again.\<close>

lemma reindex_same:
  assumes "index_rel A vals idx" and "kv_get vals a = Some v" and "OperatorAddress v = a"
    and "OperatorAddress v' = a" and "DelegatorShares v' = DelegatorShares v" and "Jailed v' = Jailed v"
    and "vals_ok vals"
  shows "reindex A v v' idx = idx"
proof (cases "Jailed v")
  case False
  then have "kv_get idx (GetValidatorsByPowerIndexKey A v) = Some a"
    using assms(1,2) by (auto simp: index_rel_def dest: inverse_rel_get)
  then show ?thesis
    using False assms index_key_cong [of v' v A]
    by (intro kv_eqI) (simp add: reindex_def)
next
  case True
  have "kv_get idx (GetValidatorsByPowerIndexKey A v) = None"
  proof (rule ccontr)
    assume "kv_get idx (GetValidatorsByPowerIndexKey A v) \<noteq> None"
    then obtain b w where w: "kv_get vals b = Some w" "\<not> Jailed w"
      and key: "GetValidatorsByPowerIndexKey A w = GetValidatorsByPowerIndexKey A v"
      using assms(1) unfolding index_rel_def inverse_rel_def by (metis not_None_eq)
    have "b = a" by (rule index_uniq [OF assms(7,3) vals_okD(2) [OF assms(7,2)] w(1) key])
    with w assms(2) True show False by simp
  qed
  with True assms(6) show ?thesis by (simp add: reindex_def kv_del_same)
qed

text \<open>A new validator.\<close>

lemma validators_inv_insert:
  assumes inv: "validators_inv E s" and new: "kv_get (st_validators s) a = None"
    and cons: "kv_get (st_byConsAddr s) (ConsAddress (codec E) v) = None"
    and v: "OperatorAddress v = a" "length a = AddrLen" "0 < MinSelfDelegation v" "vTokens v = 0"
      "\<not> Jailed v" "Status v = Unbonded" "DelegatorShares v = OneDec (arith E)"
    and fresh: "sharesOf (st_shares s) a = 0"
  shows "validators_inv E (s\<lparr>st_validators := kv_set a v (st_validators s),
    st_byConsAddr := kv_set (ConsAddress (codec E) v) a (st_byConsAddr s),
    st_powerIndex := kv_set (GetValidatorsByPowerIndexKey (arith E) v) a (st_powerIndex s)\<rparr>)"
proof -
  have ok: "vals_ok (st_validators s)" using inv by (simp add: validators_inv_def)
  have "index_rel (arith E) (kv_set a v (st_validators s))
      (kv_set (GetValidatorsByPowerIndexKey (arith E) v) a (st_powerIndex s))"
  proof -
    have "GetValidatorsByPowerIndexKey (arith E) w \<noteq> GetValidatorsByPowerIndexKey (arith E) v"
      if "kv_get (st_validators s) b = Some w" for b w
      using index_uniq [OF ok v(1,2) that] that new by auto
    moreover have "inverse_rel (GetValidatorsByPowerIndexKey (arith E)) (\<lambda>v. \<not> Jailed v) (st_validators s)
        (st_powerIndex s)"
      using inv by (simp add: validators_inv_def index_rel_def)
    ultimately show ?thesis
      using inverse_rel_set [where P = "\<lambda>v. \<not> Jailed v" and v = v] new v(5)
      by (fastforce simp: index_rel_def)
  qed
  moreover have "vals_ok (kv_set a v (st_validators s))"
    using ok v by (auto simp: vals_ok_def)
  moreover have "sums_rel (arith E) (kv_set a v (st_validators s)) (st_shares s)"
    using inv v fresh by (auto simp: validators_inv_def sums_rel_def baseShares_def)
  ultimately show ?thesis
    using inv v(6) cons
    by (simp add: validators_inv_def cons_rel_insert [OF _ new] queue_rel_insert [OF _ new]
        last_rel_insert [OF _ new] aband_rel_insert [OF _ new])
qed

text \<open>A validator changes its status: the caller says how the queue, the last validator set and
  the abandoned list follow.\<close>

lemma validators_inv_status:
  assumes inv: "validators_inv E s" and v: "kv_get (st_validators s) a = Some v"
    and same: "OperatorAddress v' = OperatorAddress v" "ConsPubKey v' = ConsPubKey v"
      "DelegatorShares v' = DelegatorShares v" "MinSelfDelegation v' = MinSelfDelegation v"
      "Jailed v' = Jailed v" "vTokens v' = vTokens v"
    and q: "queue_rel (kv_set a v' (st_validators s)) q'"
    and lp: "last_rel (kv_set a v' (st_validators s)) lp'"
    and ab: "aband_rel (kv_set a v' (st_validators s)) ab'"
  shows "validators_inv E (s\<lparr>st_validators := kv_set a v' (st_validators s), st_valQueue := q',
    st_lastPower := lp', st_abandoned := ab'\<rparr>)"
    and "reindex (arith E) v v' (st_powerIndex s) = st_powerIndex s"
proof -
  note own = validators_invD [OF inv v]
  have ok: "vals_ok (st_validators s)" using inv by (rule validators_inv_vals)
  show re: "reindex (arith E) v v' (st_powerIndex s) = st_powerIndex s"
    using inv own same ok by (intro reindex_same [OF _ v]) (simp_all add: validators_inv_def)
  have "index_rel (arith E) (kv_set a v' (st_validators s)) (st_powerIndex s)"
    using index_rel_replace [OF ok _ v, of "arith E" "st_powerIndex s" v'] inv own same re
    by (simp add: validators_inv_def)
  moreover have "vals_ok (kv_set a v' (st_validators s))"
    using own same by (intro vals_ok_replace [OF ok v]) simp_all
  moreover have "sums_rel (arith E) (kv_set a v' (st_validators s)) (st_shares s)"
    using inv same by (intro sums_rel_same [OF _ v]) (simp_all add: validators_inv_def baseShares_def)
  ultimately show "validators_inv E (s\<lparr>st_validators := kv_set a v' (st_validators s), st_valQueue := q',
    st_lastPower := lp', st_abandoned := ab'\<rparr>)"
    using inv q lp ab same by (simp add: validators_inv_def cons_rel_same [OF _ v])
qed

end
