(* ===== verification/Staking_Inv_Shares.thy ===== *)
theory Staking_Inv_Shares
  imports Staking_Inv
begin

text \<open>
  The three loops over validators that move a delegator's shares (withdrawing, updating, adding)
  follow one contract, the locale \<open>share_loop\<close>: each step keeps the validators' invariant and
  replaces the entry of its validator. The loops' lemmas are proved once from the contract and used
  through its interpretations on \<open>withdrawShares\<close>, \<open>updateSharesStep\<close> and
  \<open>addShares\<close>. The handlers that move shares preserve the invariant of the module.
\<close>

subsection \<open>The contract of a step\<close>

definition shares_frame :: "'w staking_env \<Rightarrow> 'w staking_state \<Rightarrow> 'w staking_state \<Rightarrow> bool" where
  "shares_frame E s s' \<longleftrightarrow>
     st_delegators s' = st_delegators s \<and> st_undelegations s' = st_undelegations s \<and>
     st_unQueue s' = st_unQueue s \<and> st_proxies s' = st_proxies s \<and>
     st_valQueue s' = st_valQueue s \<and> st_lastPower s' = st_lastPower s \<and>
     st_abandoned s' = st_abandoned s \<and> st_params s' = st_params s \<and>
     kv_sum (\<lambda>_ v. MinSelfDelegation v) (st_validators s') = kv_sum (\<lambda>_ v. MinSelfDelegation v) (st_validators s) \<and>
     same_pools E (st_world s) (st_world s')"

lemma shares_frame_refl: "shares_frame E s s"
  by (simp add: shares_frame_def same_pools_def)

lemma shares_frame_trans: "shares_frame E s t \<Longrightarrow> shares_frame E t u \<Longrightarrow> shares_frame E s u"
  by (simp add: shares_frame_def same_pools_def)

text \<open>The entries of \<open>d\<close> at the operators \<open>ops\<close> become \<open>after\<close>; a validator
  may only disappear if its entry does.\<close>

definition shares_moved ::
    "'w staking_env \<Rightarrow> acc_address \<Rightarrow> dec option \<Rightarrow> val_address set \<Rightarrow> 'w staking_state \<Rightarrow> 'w staking_state \<Rightarrow> bool" where
  "shares_moved E d after ops s s' \<longleftrightarrow>
     shares_frame E s s' \<and>
     (\<forall>a e. kv_get (st_shares s') (a, e) = (if a \<in> ops \<and> e = d then after else kv_get (st_shares s) (a, e))) \<and>
     (\<forall>a. a \<notin> ops \<longrightarrow> kv_get (st_validators s') a = kv_get (st_validators s) a) \<and>
     (\<forall>a. kv_get (st_validators s') a \<noteq> None \<longrightarrow> kv_get (st_validators s) a \<noteq> None) \<and>
     (after \<noteq> None \<longrightarrow> (\<forall>a. kv_get (st_validators s) a \<noteq> None \<longrightarrow> kv_get (st_validators s') a \<noteq> None))"

lemma shares_moved_empty: "shares_moved E d after {} s s"
  by (simp add: shares_moved_def shares_frame_refl)

lemma shares_moved_trans:
  assumes "shares_moved E d after A s t" and "shares_moved E d after B t u"
  shows "shares_moved E d after (A \<union> B) s u"
  unfolding shares_moved_def
proof (intro conjI allI impI)
  show "shares_frame E s u" using assms unfolding shares_moved_def by (blast intro: shares_frame_trans)
  show "kv_get (st_shares u) (a, e) = (if a \<in> A \<union> B \<and> e = d then after else kv_get (st_shares s) (a, e))" for a e
    using assms by (simp add: shares_moved_def)
  show "kv_get (st_validators u) a = kv_get (st_validators s) a" if "a \<notin> A \<union> B" for a
    using that assms by (simp add: shares_moved_def)
  show "kv_get (st_validators s) a \<noteq> None" if "kv_get (st_validators u) a \<noteq> None" for a
    using that assms unfolding shares_moved_def by blast
  show "kv_get (st_validators u) a \<noteq> None" if "after \<noteq> None" "kv_get (st_validators s) a \<noteq> None" for a
    using that assms unfolding shares_moved_def by blast
qed

locale share_loop =
  fixes E :: "'w staking_env" and step :: "'w staking_state \<Rightarrow> validator \<Rightarrow> staking_error + 'w staking_state"
    and d :: acc_address and before after :: "dec option"
  assumes step_moves: "hooks_frame E \<Longrightarrow> validators_inv E s \<Longrightarrow> stored s v \<Longrightarrow>
      kv_get (st_shares s) (OperatorAddress v, d) = before \<Longrightarrow> step s v = Inr s' \<Longrightarrow>
      validators_inv E s' \<and> shares_moved E d after {OperatorAddress v} s s'"
begin

lemma loop_moves:
  assumes "hooks_frame E" and "validators_inv E s" and "all_stored s vs"
    and "\<forall>v \<in> set vs. kv_get (st_shares s) (OperatorAddress v, d) = before"
    and "foldE step s vs = Inr s'"
  shows "validators_inv E s' \<and> shares_moved E d after (OperatorAddress ` set vs) s s'"
  using assms
proof (induction vs arbitrary: s)
  case Nil
  then show ?case by (simp add: shares_moved_empty)
next
  case (Cons v vs)
  from Cons.prems(5) obtain t where t: "step s v = Inr t" and rest: "foldE step t vs = Inr s'"
    by (auto simp: res_simps)
  have st: "stored s v" and others: "\<forall>w \<in> set vs. stored s w \<and> OperatorAddress w \<noteq> OperatorAddress v"
    and dist: "distinct (map OperatorAddress vs)"
    using Cons.prems(3) by (auto simp: all_stored_def image_iff)
  have moved: "validators_inv E t" "shares_moved E d after {OperatorAddress v} s t"
    using step_moves [OF Cons.prems(1,2) st _ t] Cons.prems(4) by simp_all
  have "all_stored t vs"
    using others dist moved(2) by (auto simp: all_stored_def stored_def shares_moved_def)
  moreover have "\<forall>w \<in> set vs. kv_get (st_shares t) (OperatorAddress w, d) = before"
    using others Cons.prems(4) moved(2) by (auto simp: shares_moved_def)
  ultimately have "validators_inv E s'" and tail: "shares_moved E d after (OperatorAddress ` set vs) t s'"
    using Cons.IH [OF Cons.prems(1) moved(1) _ _ rest] by simp_all
  with shares_moved_trans [OF moved(2) tail] show ?case by simp
qed

end

subsection \<open>The three loops\<close>

lemma msd_sum_withShares:
  "kv_get vals a = Some v \<Longrightarrow>
     kv_sum (\<lambda>_ v. MinSelfDelegation v) (kv_set a (withShares v x) vals) = kv_sum (\<lambda>_ v. MinSelfDelegation v) vals"
  by (simp add: kv_sum_set)

lemma msd_sum_remove:
  "kv_get vals a = Some v \<Longrightarrow> MinSelfDelegation v = 0 \<Longrightarrow>
     kv_sum (\<lambda>_ v. MinSelfDelegation v) (kv_del a vals) = kv_sum (\<lambda>_ v. MinSelfDelegation v) vals"
  by (simp add: kv_sum_del)

lemma withdrawShares_moves:
  assumes "hooks_frame E" and "validators_inv E s" and "stored s v"
    and "kv_get (st_shares s) (OperatorAddress v, d) = Some x" and "withdrawShares E d x s v = Inr s'"
  shows "validators_inv E s' \<and> shares_moved E d None {OperatorAddress v} s s'"
  using assms(1,5,3)
proof (cases rule: withdrawShares_effect)
  case kept
  have v: "kv_get (st_validators s) (OperatorAddress v) = Some v" using assms(3) by (simp add: stored_def)
  show ?thesis
    unfolding kept(2) using assms(4) v
    by (auto simp: shares_moved_def shares_frame_def same_pools_def msd_sum_withShares sharesOf_del
        intro!: validators_inv_shares [OF assms(2) v])
next
  case (removed w)
  have v: "kv_get (st_validators s) (OperatorAddress v) = Some v" using assms(3) by (simp add: stored_def)
  show ?thesis
    unfolding removed(5) using v removed
    by (auto simp: shares_moved_def shares_frame_def msd_sum_remove sharesOf_del
        intro!: validators_inv_remove [OF assms(2) v])
qed

lemma updateSharesStep_moves:
  assumes "validators_inv E s" and "stored s v"
    and "kv_get (st_shares s) (OperatorAddress v, d) = Some x" and "updateSharesStep E d x y s v = Inr s'"
  shows "validators_inv E s' \<and> shares_moved E d (Some y) {OperatorAddress v} s s'"
proof -
  have v: "kv_get (st_validators s) (OperatorAddress v) = Some v" using assms(2) by (simp add: stored_def)
  from assms(4) show ?thesis
    unfolding updateSharesStep_effect using assms(3) v
    by (auto simp: shares_moved_def shares_frame_def same_pools_def msd_sum_withShares sharesOf_set
        intro!: validators_inv_shares [OF assms(1) v])
qed

lemma addShares_moves:
  assumes "validators_inv E s" and "stored s v"
    and "kv_get (st_shares s) (OperatorAddress v, d) = None"
  shows "validators_inv E (addShares E d y s v) \<and>
    shares_moved E d (Some y) {OperatorAddress v} s (addShares E d y s v)"
proof -
  have v: "kv_get (st_validators s) (OperatorAddress v) = Some v" using assms(2) by (simp add: stored_def)
  show ?thesis
    unfolding addShares_effect using assms(3) v
    by (auto simp: shares_moved_def shares_frame_def same_pools_def msd_sum_withShares sharesOf_set
        intro!: validators_inv_shares [OF assms(1) v])
qed

interpretation withdrawing: share_loop E "withdrawShares E d x" d "Some x" None for E d x
  by unfold_locales (rule withdrawShares_moves)

interpretation updating: share_loop E "updateSharesStep E d x y" d "Some x" "Some y" for E d x y
  by unfold_locales (rule updateSharesStep_moves)

interpretation adding: share_loop E "\<lambda>s v. Inr (addShares E d y s v)" d None "Some y" for E d y
  by unfold_locales (auto dest: addShares_moves)

subsection \<open>Updating the shares of a delegator\<close>

lemma link_entry:
  assumes "link_rel vals dels sh" and "kv_get dels d = Some del" and "kv_get vals a \<noteq> None"
  shows "kv_get sh (a, d) = (if a \<in> set (ValidatorAddresses del) then Some (dShares del) else None)"
  using assms by (simp add: link_rel_def)

lemma existing_entries:
  assumes "records_inv E s" and "kv_get (st_delegators s) d = Some del"
  shows "\<forall>v \<in> set (existingValidators s (ValidatorAddresses del)).
    kv_get (st_shares s) (OperatorAddress v, d) = Some (dShares del)"
proof
  fix v assume "v \<in> set (existingValidators s (ValidatorAddresses del))"
  then have "OperatorAddress v \<in> set (filter (\<lambda>a. kv_get (st_validators s) a \<noteq> None) (ValidatorAddresses del))"
    using existingValidators_addresses [OF records_inv_keyed [OF assms(1)], of "ValidatorAddresses del"]
    by (metis image_eqI list.set_map)
  then show "kv_get (st_shares s) (OperatorAddress v, d) = Some (dShares del)"
    using assms link_entry [of "st_validators s"] by (auto simp: records_inv_def)
qed

lemma existing_ops:
  assumes "records_inv E s"
  shows "OperatorAddress ` set (existingValidators s as) = {a \<in> set as. kv_get (st_validators s) a \<noteq> None}"
proof -
  have "set (map OperatorAddress (existingValidators s as)) =
      set (filter (\<lambda>a. kv_get (st_validators s) a \<noteq> None) as)"
    by (simp only: existingValidators_addresses [OF records_inv_keyed [OF assms]])
  then show ?thesis by simp
qed

text \<open>What a successful update of shares does: nothing, or the entries of the delegator at its
  existing validators and its own record get the new weight.\<close>

lemma UpdateShares_effect:
  assumes "hooks_frame E" and "records_inv E s" and "UpdateShares E ctx s d tokens = Inr s'"
  obtains (none) "s' = s"
  | (moved) del x t where "kv_get (st_delegators s) d = Some del"
      "calculateWeight E (blockUnix ctx) tokens = Inr x"
      "validators_inv E t"
      "shares_moved E d (Some x) {a \<in> set (ValidatorAddresses del). kv_get (st_validators s) a \<noteq> None} s t"
      "s' = SetDelegator t (del\<lparr>dShares := x\<rparr>)"
proof (cases "s' = s")
  case True
  then show ?thesis by (rule none)
next
  case False
  then obtain del x t where del: "kv_get (st_delegators s) d = Some del"
    and x: "calculateWeight E (blockUnix ctx) tokens = Inr x"
    and t: "foldE (updateSharesStep E d (dShares del) x) s (existingValidators s (ValidatorAddresses del)) = Inr t"
    and s': "s' = SetDelegator t (del\<lparr>dShares := x\<rparr>)"
    using assms(3)
    by (auto simp: UpdateShares_def GetLastValsAddedSharesExisted_def GetDelegator_def res_simps
        split: option.splits if_splits)
  have "all_stored s (existingValidators s (ValidatorAddresses del))"
    using assms(2) del existingValidators_stored [OF records_inv_keyed [OF assms(2)]]
    by (simp add: records_inv_def dels_ok_def)
  moreover have "validators_inv E s" using assms(2) by (simp add: records_inv_def)
  ultimately show ?thesis
    using updating.loop_moves [OF assms(1) _ _ existing_entries [OF assms(2) del] t]
    by (intro moved [OF del x _ _ s']) (simp_all only: existing_ops [OF assms(2)])
qed

text \<open>Two delegator stores that differ only in shares.\<close>

definition same_but_shares :: "(acc_address, delegator) kv \<Rightarrow> (acc_address, delegator) kv \<Rightarrow> bool" where
  "same_but_shares dels dels' \<longleftrightarrow>
     (\<forall>a. map_option (\<lambda>d. d\<lparr>dShares := 0\<rparr>) (kv_get dels' a) = map_option (\<lambda>d. d\<lparr>dShares := 0\<rparr>) (kv_get dels a))"

lemma UpdateShares_records:
  assumes "hooks_frame E" and "records_inv E s" and "UpdateShares E ctx s d tokens = Inr s'"
  shows "records_inv E s'"
  using assms
proof (cases rule: UpdateShares_effect)
  case none
  then show ?thesis using assms(2) by simp
next
  case (moved del x t)
  have dels: "st_delegators t = st_delegators s" and un: "st_undelegations t = st_undelegations s"
    using moved(4) by (simp_all add: shares_moved_def shares_frame_def)
  have addr: "DelegatorAddress del = d" using assms(2) moved(1) by (simp add: records_inv_def dels_ok_def)
  have "link_rel (st_validators t) (kv_set d (del\<lparr>dShares := x\<rparr>) (st_delegators s)) (st_shares t)"
    using assms(2) moved(1,4) by (auto simp: records_inv_def link_rel_def shares_moved_def)
  moreover have "dels_ok (kv_set d (del\<lparr>dShares := x\<rparr>) (st_delegators s))"
    using assms(2) moved(1) by (auto simp: records_inv_def dels_ok_def)
  moreover have "validators_inv E s'"
    using moved(3) by (simp add: moved(5) SetDelegator_def validators_inv_def)
  ultimately show ?thesis
    using assms(2) by (simp add: records_inv_def moved(5) SetDelegator_def addr dels un)
qed

lemma UpdateShares_frame:
  assumes "hooks_frame E" and "records_inv E s" and "UpdateShares E ctx s d tokens = Inr s'"
  shows "same_but_shares (st_delegators s) (st_delegators s') \<and>
    (\<forall>a. a \<noteq> d \<longrightarrow> kv_get (st_delegators s') a = kv_get (st_delegators s) a) \<and>
    bondedSum s' = bondedSum s \<and> notBondedSum s' = notBondedSum s \<and>
    same_pools E (st_world s) (st_world s') \<and> st_undelegations s' = st_undelegations s \<and>
    st_unQueue s' = st_unQueue s \<and> st_proxies s' = st_proxies s \<and> st_params s' = st_params s"
  using assms
proof (cases rule: UpdateShares_effect)
  case none
  then show ?thesis by (simp add: same_but_shares_def same_pools_def)
next
  case (moved del x t)
  have addr: "DelegatorAddress del = d" using assms(2) moved(1) by (simp add: records_inv_def dels_ok_def)
  from moved(1,4) show ?thesis
    by (auto simp: moved(5) SetDelegator_def addr shares_moved_def shares_frame_def same_but_shares_def
        bondedSum_def notBondedSum_def kv_sum_set same_pools_def)
qed

lemma UpdateShares_inv_at:
  assumes "hooks_frame E" and "inv_at E b n s" and "UpdateShares E ctx s d tokens = Inr s'"
  shows "inv_at E b n s'"
proof -
  have "records_inv E s" using assms(2) by (simp add: inv_at_def)
  from UpdateShares_records [OF assms(1) this assms(3)] UpdateShares_frame [OF assms(1) this assms(3)]
  show ?thesis using assms(2) by (simp add: inv_at_def same_pools_def)
qed

end
