(* ===== verification/Staking_Inv_Handlers.thy ===== *)
theory Staking_Inv_Handlers
  imports Staking_Inv_Shares
begin

text \<open>
  Every message handler of the staking module preserves the invariant. The pools and the records
  move together: what an operation takes from or adds to a pool is what it takes from or adds to
  the records.
\<close>

subsection \<open>Elementary updates\<close>

text \<open>A delegator record is replaced by one with the same shares.\<close>

lemma SetDelegator_inv_at:
  assumes "inv_at E b n s" and "kv_get (st_delegators s) a = Some d" and "DelegatorAddress d' = a"
    and "ValidatorAddresses d' = ValidatorAddresses d" and "dShares d' = dShares d"
    and "0 < dTokens d'" and "ProxyAddress d' \<noteq> Some a"
  shows "inv_at E (b - dTokens d' + dTokens d) n (SetDelegator s d')"
proof -
  have "link_rel (st_validators s) (kv_set a d' (st_delegators s)) (st_shares s)"
    using assms by (auto simp: inv_at_def records_inv_def link_rel_def)
  moreover have "dels_ok (kv_set a d' (st_delegators s))"
    using assms by (auto simp: inv_at_def records_inv_def dels_ok_def)
  ultimately show ?thesis
    using assms
    by (simp add: inv_at_def records_inv_def SetDelegator_def validators_inv_def bondedSum_def
        notBondedSum_def kv_sum_set)
qed

text \<open>A new delegator without shares.\<close>

lemma SetDelegator_new_inv_at:
  assumes "inv_at E b n s" and "kv_get (st_delegators s) a = None" and "DelegatorAddress d' = a"
    and "ValidatorAddresses d' = []" and "0 < dTokens d'" and "ProxyAddress d' \<noteq> Some a"
  shows "inv_at E (b - dTokens d') n (SetDelegator s d')"
proof -
  have "link_rel (st_validators s) (kv_set a d' (st_delegators s)) (st_shares s)"
    using assms by (auto simp: inv_at_def records_inv_def link_rel_def)
  moreover have "dels_ok (kv_set a d' (st_delegators s))"
    using assms by (auto simp: inv_at_def records_inv_def dels_ok_def)
  ultimately show ?thesis
    using assms
    by (simp add: inv_at_def records_inv_def SetDelegator_def validators_inv_def bondedSum_def
        notBondedSum_def kv_sum_set)
qed

lemma inv_at_same_records:
  assumes "inv_at E b n s"
    and "st_validators s' = st_validators s" "st_powerIndex s' = st_powerIndex s"
    "st_byConsAddr s' = st_byConsAddr s" "st_valQueue s' = st_valQueue s"
    "st_lastPower s' = st_lastPower s" "st_abandoned s' = st_abandoned s"
    "st_shares s' = st_shares s" "st_delegators s' = st_delegators s"
    "st_undelegations s' = st_undelegations s"
    and "poolAmount E (st_world s') BondedPoolName = poolAmount E (st_world s) BondedPoolName + x"
    "poolAmount E (st_world s') NotBondedPoolName = poolAmount E (st_world s) NotBondedPoolName + y"
  shows "inv_at E (b + x) (n + y) s'"
  using assms
  by (simp add: inv_at_def records_inv_def validators_inv_def bondedSum_def notBondedSum_def)

text \<open>The transfers of the supply keeper.\<close>

lemma delegateCoins_inv_at:
  assumes "supply_moves E" and "inv_at E b n s"
    and "liftWorld (DelegateCoinsFromAccountToModule E (st_world s) a BondedPoolName [c]) s = Inr s'"
    and "Denom c = BondDenom E"
  shows "inv_at E (b + Amount c) n s' \<and> s' = s\<lparr>st_world := st_world s'\<rparr>"
proof -
  from assms(3) obtain w where
    w: "DelegateCoinsFromAccountToModule E (st_world s) a BondedPoolName [c] = Inr w"
    and s': "s' = s\<lparr>st_world := w\<rparr>"
    by (auto simp: liftWorld_def res_simps)
  have "poolAmount E w BondedPoolName = poolAmount E (st_world s) BondedPoolName + Amount c"
    and "poolAmount E w NotBondedPoolName = poolAmount E (st_world s) NotBondedPoolName + 0"
    using assms(1,4) w by (auto simp: supply_moves_def AmountOf_def)
  then have "inv_at E (b + Amount c) (n + 0) s'"
    by (intro inv_at_same_records [OF assms(2)]) (simp_all add: s')
  then show ?thesis by (simp add: s')
qed

lemma toNotBonded_world:
  "bondedTokensToNotBonded E s c = Inr s' \<Longrightarrow>
     st_delegators s' = st_delegators s \<and> st_validators s' = st_validators s"
  by (auto simp: bondedTokensToNotBonded_def asPanic_def liftWorld_def res_simps split: sum.splits)

lemma toNotBonded_inv_at:
  assumes "supply_moves E" and "to_coins_keeps (arith E)" and "inv_at E b n s"
    and "bondedTokensToNotBonded E s c = Inr s'" and "Denom c = BondDenom E"
  shows "inv_at E (b - Amount c) (n + Amount c) s' \<and> s' = s\<lparr>st_world := st_world s'\<rparr>"
proof -
  from assms(4) obtain w where
    w: "SendCoinsFromModuleToModule E (st_world s) BondedPoolName NotBondedPoolName (ToCoins (arith E) c) = Inr w"
    and s': "s' = s\<lparr>st_world := w\<rparr>"
    by (auto simp: bondedTokensToNotBonded_def asPanic_def liftWorld_def res_simps split: sum.splits)
  have amt: "AmountOf (BondDenom E) (ToCoins (arith E) c) = Amount c"
    using assms(2,5) by (simp add: to_coins_keeps_def AmountOf_def)
  have "poolAmount E w BondedPoolName = poolAmount E (st_world s) BondedPoolName + - Amount c"
    and "poolAmount E w NotBondedPoolName = poolAmount E (st_world s) NotBondedPoolName + Amount c"
    using assms(1) w amt by (auto simp: supply_moves_def)
  then have "inv_at E (b + - Amount c) (n + Amount c) s'"
    by (intro inv_at_same_records [OF assms(3)]) (simp_all add: s')
  then show ?thesis by (simp add: s')
qed

lemma recordUndelegation_inv_at:
  assumes "inv_at E b n s"
  shows "inv_at E b (n - q) (recordUndelegation f s d q t)"
proof -
  have undels: "undels_ok (st_undelegations s)" using assms by (simp add: inv_at_def records_inv_def)
  have own: "udDelegatorAddress u = d" if "kv_get (st_undelegations s) d = Some u" for u
    using undels that by (simp add: undels_ok_def)
  show ?thesis
  proof (cases "kv_get (st_undelegations s) d")
    case None
    with assms undels show ?thesis
      by (auto simp: recordUndelegation_def store_defs NewUndelegationInfo_def inv_at_def records_inv_def
          validators_inv_def undels_ok_def bondedSum_def notBondedSum_def kv_sum_set Let_def)
  next
    case (Some u)
    with assms undels own [OF Some] show ?thesis
      by (auto simp: recordUndelegation_def store_defs inv_at_def records_inv_def
          validators_inv_def undels_ok_def bondedSum_def notBondedSum_def kv_sum_set Let_def)
  qed
qed

subsection \<open>Proxies and deposits\<close>

lemma UpdateProxy_inv_at:
  assumes "hooks_frame E" and "inv_at E b n s" and "UpdateProxy E ctx s d tokens = Inr s'"
  shows "inv_at E b n s'"
proof (cases "ProxyAddress d")
  case None
  with assms(2,3) show ?thesis by (simp add: UpdateProxy_def)
next
  case (Some pa)
  then obtain p where p: "kv_get (st_delegators s) pa = Some p"
    and up: "UpdateShares E ctx (SetDelegator s (p\<lparr>TotalDelegatedTokens := TotalDelegatedTokens p + tokens\<rparr>))
        (DelegatorAddress p) (TotalDelegatedTokens p + tokens + dTokens p) = Inr s'"
    using assms(3) by (auto simp: UpdateProxy_def GetDelegator_def Let_def split: option.splits if_splits)
  have "DelegatorAddress p = pa" "0 < dTokens p" "ProxyAddress p \<noteq> Some pa"
    using assms(2) p by (simp_all add: inv_at_def records_inv_def dels_ok_def)
  then have "inv_at E b n (SetDelegator s (p\<lparr>TotalDelegatedTokens := TotalDelegatedTokens p + tokens\<rparr>))"
    using SetDelegator_inv_at [OF assms(2) p, of "p\<lparr>TotalDelegatedTokens := TotalDelegatedTokens p + tokens\<rparr>"]
    by simp
  from UpdateShares_inv_at [OF assms(1) this up] show ?thesis .
qed

text \<open>Updating a proxy touches no delegator but the proxy.\<close>

lemma UpdateProxy_others:
  assumes "hooks_frame E" and "inv_at E b n s" and "UpdateProxy E ctx s d tokens = Inr s'"
    and "ProxyAddress d \<noteq> Some a"
  shows "kv_get (st_delegators s') a = kv_get (st_delegators s) a"
proof (cases "ProxyAddress d")
  case None
  with assms(3) show ?thesis by (simp add: UpdateProxy_def)
next
  case (Some pa)
  then obtain p where p: "kv_get (st_delegators s) pa = Some p"
    and up: "UpdateShares E ctx (SetDelegator s (p\<lparr>TotalDelegatedTokens := TotalDelegatedTokens p + tokens\<rparr>))
        (DelegatorAddress p) (TotalDelegatedTokens p + tokens + dTokens p) = Inr s'"
    using assms(3) by (auto simp: UpdateProxy_def GetDelegator_def Let_def split: option.splits if_splits)
  have own: "DelegatorAddress p = pa" "0 < dTokens p" "ProxyAddress p \<noteq> Some pa"
    using assms(2) p by (simp_all add: inv_at_def records_inv_def dels_ok_def)
  then have "records_inv E (SetDelegator s (p\<lparr>TotalDelegatedTokens := TotalDelegatedTokens p + tokens\<rparr>))"
    using SetDelegator_inv_at [OF assms(2) p, of "p\<lparr>TotalDelegatedTokens := TotalDelegatedTokens p + tokens\<rparr>"]
    by (simp add: inv_at_def)
  from UpdateShares_frame [OF assms(1) this up] own assms(4) Some show ?thesis
    by (simp add: SetDelegator_def)
qed

lemma Delegate_inv:
  assumes "hooks_frame E" and "supply_moves E" and "staking_inv E s" and "Denom c = BondDenom E"
    and "0 < Amount c" and "Delegate E ctx s a c = Inr s'"
  shows "staking_inv E s'"
proof -
  have inv: "inv_at E 0 0 s" using assms(3) by (simp add: staking_inv_def)
  from assms(6) obtain s1 where
    s1: "liftWorld (DelegateCoinsFromAccountToModule E (st_world s) a BondedPoolName [c]) s = Inr s1"
    and rest: "let d0 = (case GetDelegator s1 a of None \<Rightarrow> NewDelegator a | Some d \<Rightarrow> d);
                   d = d0\<lparr>dTokens := dTokens d0 + Amount c\<rparr>; s2 = SetDelegator s1 d
               in (if HasProxy d then UpdateProxy E ctx s2 d (Amount c)
                   else UpdateShares E ctx s2 (DelegatorAddress d) (finalTokensOf d)) = Inr s'"
    by (auto simp: Delegate_def Let_def res_simps split: if_splits)
  have inv1: "inv_at E (Amount c) 0 s1"
    using delegateCoins_inv_at [OF assms(2) inv s1 assms(4)] by simp
  define d0 where "d0 = (case GetDelegator s1 a of None \<Rightarrow> NewDelegator a | Some d \<Rightarrow> d)"
  define d where "d = d0\<lparr>dTokens := dTokens d0 + Amount c\<rparr>"
  have "inv_at E 0 0 (SetDelegator s1 d)"
  proof (cases "kv_get (st_delegators s1) a")
    case None
    then show ?thesis
      using SetDelegator_new_inv_at [OF inv1 None, of d] assms(5)
      by (simp add: d_def d0_def GetDelegator_def NewDelegator_def)
  next
    case (Some x)
    then have "DelegatorAddress x = a" "0 < dTokens x" "ProxyAddress x \<noteq> Some a"
      using inv1 by (simp_all add: inv_at_def records_inv_def dels_ok_def)
    then show ?thesis
      using SetDelegator_inv_at [OF inv1 Some, of d] assms(5) Some
      by (simp add: d_def d0_def GetDelegator_def)
  qed
  with rest show ?thesis
    unfolding staking_inv_def
    by (auto simp: Let_def d0_def [symmetric] d_def [symmetric] split: if_splits
        intro: UpdateProxy_inv_at [OF assms(1)] UpdateShares_inv_at [OF assms(1)])
qed

subsection \<open>Withdrawals\<close>

text \<open>Withdrawing all shares of a delegator clears its entries at existing validators.\<close>

lemma WithdrawLastShares_moves:
  assumes "hooks_frame E" and "records_inv E s" and "kv_get (st_delegators s) a = Some d"
    and "GetLastValsAddedSharesExisted s a = (vals, x)" and "WithdrawLastShares E s a vals x = Inr t"
  shows "validators_inv E t \<and>
    shares_moved E a None {b \<in> set (ValidatorAddresses d). kv_get (st_validators s) b \<noteq> None} s t"
proof -
  have vals: "vals = existingValidators s (ValidatorAddresses d)" and x: "x = dShares d"
    using assms(3,4) by (auto simp: GetLastValsAddedSharesExisted_def GetDelegator_def)
  have "all_stored s vals"
    using lastVals_stored [OF records_inv_keyed [OF assms(2)] assms(4)] .
  moreover have "validators_inv E s" using assms(2) by (simp add: records_inv_def)
  moreover have "foldE (withdrawShares E a (dShares d)) s vals = Inr t"
    using assms(5) by (simp add: WithdrawLastShares_def x)
  moreover have "\<forall>v \<in> set vals. kv_get (st_shares s) (OperatorAddress v, a) = Some (dShares d)"
    unfolding vals by (rule existing_entries [OF assms(2,3)])
  ultimately have "validators_inv E t \<and> shares_moved E a None (OperatorAddress ` set vals) s t"
    by (intro withdrawing.loop_moves [OF assms(1)])
  then show ?thesis by (simp only: vals existing_ops [OF assms(2)])
qed

lemma link_after_move:
  assumes "link_rel (st_validators s) (st_delegators s) (st_shares s)" and "shares_moved E a after ops s t"
    and "\<And>e. e \<noteq> a \<Longrightarrow> kv_get dels' e = kv_get (st_delegators s) e"
    and "\<And>b. kv_get (st_validators t) b \<noteq> None \<Longrightarrow> kv_get (st_shares t) (b, a) =
      (case kv_get dels' a of
         None \<Rightarrow> None
       | Some del \<Rightarrow> if b \<in> set (ValidatorAddresses del) then Some (dShares del) else None)"
  shows "link_rel (st_validators t) dels' (st_shares t)"
  unfolding link_rel_def
proof (intro allI impI)
  fix b e
  assume b: "kv_get (st_validators t) b \<noteq> None"
  then have "kv_get (st_validators s) b \<noteq> None" using assms(2) unfolding shares_moved_def by blast
  moreover have "e \<noteq> a \<Longrightarrow> kv_get (st_shares t) (b, e) = kv_get (st_shares s) (b, e)"
    using assms(2) by (simp add: shares_moved_def)
  ultimately show "kv_get (st_shares t) (b, e) =
      (case kv_get dels' e of
         None \<Rightarrow> None
       | Some del \<Rightarrow> if b \<in> set (ValidatorAddresses del) then Some (dShares del) else None)"
    using assms(1,3) assms(4) [OF b] by (cases "e = a") (simp_all add: link_rel_def)
qed

lemma no_entries_left:
  assumes "records_inv E s" and "kv_get (st_delegators s) a = Some d"
    and "shares_moved E a None {b \<in> set (ValidatorAddresses d). kv_get (st_validators s) b \<noteq> None} s t"
    and "kv_get (st_validators t) b \<noteq> None"
  shows "kv_get (st_shares t) (b, a) = None"
proof -
  have "kv_get (st_validators s) b \<noteq> None" using assms(3,4) by (simp add: shares_moved_def)
  with assms(1,2) have "kv_get (st_shares s) (b, a) =
      (if b \<in> set (ValidatorAddresses d) then Some (dShares d) else None)"
    by (intro link_entry) (simp_all add: records_inv_def)
  with assms(3) \<open>kv_get (st_validators s) b \<noteq> None\<close> show ?thesis by (simp add: shares_moved_def)
qed

lemma settleDelegator_inv_at:
  assumes "hooks_frame E" and "inv_at E b n s" and "kv_get (st_delegators s) a = Some d"
    and "0 \<le> dTokens d - q" and "settleDelegator E ctx s a d (dTokens d - q) = Inr s'"
  shows "inv_at E (b + q) n s'"
proof (cases "dTokens d = q")
  case True
  obtain vals x where lv: "GetLastValsAddedSharesExisted s a = (vals, x)" by fastforce
  from assms(5) True lv obtain t where t: "WithdrawLastShares E s a vals x = Inr t"
    and s': "s' = DeleteDelegator (case ProxyAddress d of None \<Rightarrow> t | Some pa \<Rightarrow> SetProxyBinding t pa a True) a"
    by (auto simp: settleDelegator_def res_simps Let_def)
  have rec: "records_inv E s" using assms(2) by (simp add: inv_at_def)
  from WithdrawLastShares_moves [OF assms(1) rec assms(3) lv t]
  have vt: "validators_inv E t"
    and moved: "shares_moved E a None {b \<in> set (ValidatorAddresses d). kv_get (st_validators s) b \<noteq> None} s t"
    by simp_all
  note gone = no_entries_left [OF rec assms(3) moved]
  have link: "link_rel (st_validators t) (kv_del a (st_delegators s)) (st_shares t)"
    using rec gone by (intro link_after_move [OF _ moved]) (simp_all add: records_inv_def)
  have "dels_ok (kv_del a (st_delegators s))"
    using rec by (auto simp: records_inv_def dels_ok_def split: if_splits)
  with assms(2,3) vt link moved True show ?thesis
    by (cases "ProxyAddress d")
      (simp_all add: s' DeleteDelegator_def SetProxyBinding_def inv_at_def records_inv_def validators_inv_def
        bondedSum_def notBondedSum_def shares_moved_def shares_frame_def same_pools_def kv_sum_del)
next
  case False
  let ?d = "d\<lparr>dTokens := dTokens d - q\<rparr>"
  have "DelegatorAddress d = a" "ProxyAddress d \<noteq> Some a"
    using assms(2,3) by (simp_all add: inv_at_def records_inv_def dels_ok_def)
  then have inv: "inv_at E (b + q) n (SetDelegator s ?d)"
    using SetDelegator_inv_at [OF assms(2,3), of ?d] assms(4) False by (simp add: algebra_simps)
  from assms(5) False have "s' = SetDelegator s ?d \<or>
      UpdateShares E ctx (SetDelegator s ?d) (DelegatorAddress ?d) (finalTokensOf ?d) = Inr s'"
    by (auto simp: settleDelegator_def Let_def split: if_splits)
  with inv UpdateShares_inv_at [OF assms(1) inv] show ?thesis by auto
qed

lemma Withdraw_inv:
  assumes "hooks_frame E" and "supply_moves E" and "to_coins_keeps (arith E)" and "staking_inv E s"
    and "Denom c = BondDenom E" and "Withdraw E ctx s a c = Inr (s', t)"
  shows "staking_inv E s'"
proof -
  have inv: "inv_at E 0 0 s" using assms(4) by (simp add: staking_inv_def)
  from assms(6) obtain d s1 s2 s3 where
    d: "kv_get (st_delegators s) a = Some d" and left: "0 \<le> dTokens d - Amount c"
    and s1: "bondedTokensToNotBonded E s c = Inr s1"
    and s2: "(if HasProxy d
              then UpdateProxy E ctx s1 d (DecMul (arith E) (Amount c) (NewDec (arith E) (- 1)))
              else Inr s1) = Inr s2"
    and s3: "settleDelegator E ctx s2 a d (dTokens d - Amount c) = Inr s3"
    and s': "s' = recordUndelegation (\<lambda>_. a) s3 a (Amount c) t"
    by (auto simp: Withdraw_def GetDelegator_def Let_def res_simps split: option.splits)
  have inv1: "inv_at E (- Amount c) (Amount c) s1" and eq1: "st_delegators s1 = st_delegators s"
    using toNotBonded_inv_at [OF assms(2,3) inv s1 assms(5)] by (simp_all add: toNotBonded_world [OF s1])
  have inv2: "inv_at E (- Amount c) (Amount c) s2"
    using s2 inv1 by (auto split: if_splits intro: UpdateProxy_inv_at [OF assms(1)])
  have "ProxyAddress d \<noteq> Some a"
    using inv d by (simp add: inv_at_def records_inv_def dels_ok_def)
  then have "kv_get (st_delegators s2) a = Some d"
    using s2 d eq1 UpdateProxy_others [OF assms(1) inv1] by (auto split: if_splits)
  from settleDelegator_inv_at [OF assms(1) inv2 this left s3] have "inv_at E 0 (Amount c) s3" by simp
  from recordUndelegation_inv_at [OF this, of "Amount c"] show ?thesis
    by (simp add: staking_inv_def s')
qed

lemma CompleteUndelegation_inv:
  assumes "supply_moves E" and "staking_inv E s" and "CompleteUndelegation E s a = Inr (s', q)"
  shows "staking_inv E s'"
proof -
  from assms(3) obtain u w where u: "kv_get (st_undelegations s) a = Some u"
    and w: "UndelegateCoinsFromModuleToAccount E (st_world s) NotBondedPoolName (udDelegatorAddress u)
              [NewDecCoinFromDec (BondDenom E) (Quantity u)] = Inr w"
    and s': "s' = s\<lparr>st_world := w, st_undelegations := kv_del a (st_undelegations s)\<rparr>"
    by (auto simp: CompleteUndelegation_def GetUndelegating_def DeleteUndelegating_def liftWorld_def
        res_simps split: option.splits)
  have "poolAmount E w BondedPoolName = poolAmount E (st_world s) BondedPoolName"
    and "poolAmount E w NotBondedPoolName = poolAmount E (st_world s) NotBondedPoolName - Quantity u"
    using assms(1) w by (auto simp: supply_moves_def AmountOf_def NewDecCoinFromDec_def)
  moreover have "undels_ok (kv_del a (st_undelegations s))"
    using assms(2) by (auto simp: staking_inv_def inv_at_def records_inv_def undels_ok_def split: if_splits)
  ultimately show ?thesis
    using assms(2) u
    by (simp add: s' staking_inv_def inv_at_def records_inv_def validators_inv_def bondedSum_def
        notBondedSum_def kv_sum_del)
qed

subsection \<open>Adding shares\<close>

lemma keyedI:
  "validators_inv E s \<Longrightarrow> dels_ok (st_delegators s) \<Longrightarrow> undels_ok (st_undelegations s) \<Longrightarrow> keyed s"
  by (auto simp: validators_inv_def vals_ok_def dels_ok_def undels_ok_def keyed_def)

lemma AddShares_loop:
  assumes "hooks_frame E" and "validators_inv E s" and "all_stored s vs"
    and "\<forall>v \<in> set vs. kv_get (st_shares s) (OperatorAddress v, d) = None"
  shows "validators_inv E (foldl (addShares E d y) s vs) \<and>
    shares_moved E d (Some y) (OperatorAddress ` set vs) s (foldl (addShares E d y) s vs)"
  by (rule adding.loop_moves [OF assms]) (rule foldE_Inr)

lemma handleMsgAddShares_inv:
  assumes "hooks_frame E" and "staking_inv E s" and "distinct (masValAddrs msg)"
    and "handleMsgAddShares E ctx msg s = Inr s'"
  shows "staking_inv E s'"
proof -
  let ?a = "masDelAddr msg"
  obtain vals x where lv: "GetLastValsAddedSharesExisted s ?a = (vals, x)" by fastforce
  from assms(4) lv obtain d t vs y where d: "kv_get (st_delegators s) ?a = Some d"
    and t: "WithdrawLastShares E s ?a vals x = Inr t"
    and vs: "GetValidatorsToAddShares t (masValAddrs msg) = Inr vs"
    and s': "s' = SetDelegator (foldl (addShares E ?a y) t vs)
              (d\<lparr>ValidatorAddresses := getValsAddrs vs, dShares := y\<rparr>)"
    by (auto simp: handleMsgAddShares_def AddSharesToValidators_def GetDelegator_def Let_def res_simps
        split: option.splits)
  have rec: "records_inv E s" using assms(2) by (simp add: staking_inv_def inv_at_def)
  have vt: "validators_inv E t"
    and moved: "shares_moved E ?a None {b \<in> set (ValidatorAddresses d). kv_get (st_validators s) b \<noteq> None} s t"
    using WithdrawLastShares_moves [OF assms(1) rec d lv t] by simp_all
  have frame: "st_delegators t = st_delegators s" "st_undelegations t = st_undelegations s"
    using moved by (simp_all add: shares_moved_def shares_frame_def)
  have "keyed t"
    using rec by (intro keyedI [OF vt]) (simp_all add: frame records_inv_def)
  from toAddShares_stored [OF this assms(3) vs]
  have ops: "map OperatorAddress vs = masValAddrs msg" and st: "all_stored t vs" by simp_all
  let ?u = "foldl (addShares E ?a y) t vs"
  let ?d = "d\<lparr>ValidatorAddresses := getValsAddrs vs, dShares := y\<rparr>"
  have "\<forall>v \<in> set vs. kv_get (st_shares t) (OperatorAddress v, ?a) = None"
    using st no_entries_left [OF rec d moved] by (auto simp: all_stored_def stored_def)
  from AddShares_loop [OF assms(1) vt st this]
  have vu: "validators_inv E ?u" and moved2: "shares_moved E ?a (Some y) (OperatorAddress ` set vs) t ?u"
    by simp_all
  have addr: "DelegatorAddress d = ?a" using rec d by (simp add: records_inv_def dels_ok_def)
  have "link_rel (st_validators ?u) (kv_set ?a ?d (st_delegators s)) (st_shares ?u)"
    unfolding link_rel_def
  proof (intro allI impI)
    fix b e
    assume "kv_get (st_validators ?u) b \<noteq> None"
    then have bt: "kv_get (st_validators t) b \<noteq> None" using moved2 unfolding shares_moved_def by blast
    then have bs: "kv_get (st_validators s) b \<noteq> None" using moved unfolding shares_moved_def by blast
    show "kv_get (st_shares ?u) (b, e) = (case kv_get (kv_set ?a ?d (st_delegators s)) e of
        None \<Rightarrow> None
      | Some del \<Rightarrow> if b \<in> set (ValidatorAddresses del) then Some (dShares del) else None)"
    proof (cases "e = ?a")
      case True
      then show ?thesis
        using moved2 no_entries_left [OF rec d moved bt] by (simp add: shares_moved_def getValsAddrs_def)
    next
      case False
      then have "kv_get (st_shares ?u) (b, e) = kv_get (st_shares s) (b, e)"
        using moved moved2 by (simp add: shares_moved_def)
      with False bs rec show ?thesis by (simp add: records_inv_def link_rel_def)
    qed
  qed
  moreover have "dels_ok (kv_set ?a ?d (st_delegators s))"
    using rec d assms(3) ops by (auto simp: records_inv_def dels_ok_def getValsAddrs_def)
  ultimately show ?thesis
    using assms(2) vu moved moved2 d addr
    by (simp add: s' SetDelegator_def staking_inv_def inv_at_def records_inv_def validators_inv_def
        bondedSum_def notBondedSum_def shares_moved_def shares_frame_def same_pools_def kv_sum_set)
qed

subsection \<open>Creating, editing and destroying validators\<close>

text \<open>An operator address that no delegator lists and no shares entry mentions.\<close>

definition fresh_operator :: "'w staking_state \<Rightarrow> val_address \<Rightarrow> bool" where
  "fresh_operator s a \<longleftrightarrow>
     length a = AddrLen \<and>
     list_all (\<lambda>e. fst (fst e) \<noteq> a) (kv_list (st_shares s)) \<and>
     list_all (\<lambda>e. a \<notin> set (ValidatorAddresses (snd e))) (kv_list (st_delegators s))"

lemma fresh_operatorD:
  assumes "fresh_operator s a"
  shows "length a = AddrLen" "kv_get (st_shares s) (a, d) = None" "sharesOf (st_shares s) a = 0"
    "kv_get (st_delegators s) e = Some del \<Longrightarrow> a \<notin> set (ValidatorAddresses del)"
proof -
  have none: "kv_get (st_shares s) (a, d) = None" for d
    using assms by (cases "kv_get (st_shares s) (a, d)")
      (auto simp: fresh_operator_def list_all_iff simp flip: kv_in_list)
  show "length a = AddrLen" using assms by (simp add: fresh_operator_def)
  show "kv_get (st_shares s) (a, d) = None" by (rule none)
  have "sharesOf (st_shares s) a = kv_sum (\<lambda>_ _. 0) (st_shares s)"
    unfolding sharesOf_def using none by (intro kv_sum_cong) (metis option.distinct(1) prod.collapse)
  then show "sharesOf (st_shares s) a = 0" by (simp add: kv_sum_def case_prod_unfold)
  show "a \<notin> set (ValidatorAddresses del)" if "kv_get (st_delegators s) e = Some del"
    using assms that by (auto simp: fresh_operator_def list_all_iff simp flip: kv_in_list)
qed

lemma create_effect:
  assumes "hooks_frame E" and "handleMsgCreateValidator E ctx msg s = Inr s'"
  obtains v w w' where
    "v = (NewValidator (mcvValidatorAddress msg) (mcvPubKey msg) (mcvDescription msg)
            (Amount (mcvMinSelfDelegation msg)))
          \<lparr>vCommission := NewCommission (NewDec (arith E) 1) (NewDec (arith E) 1) (NewDec (arith E) 0)\<rparr>"
    "kv_get (st_validators s) (mcvValidatorAddress msg) = None"
    "GetValidatorByConsAddr s (ConsAddress (codec E) v) = None"
    "DelegateCoinsFromAccountToModule E (st_world s) (mcvDelegatorAddress msg) BondedPoolName
       [NewDecCoinFromDec (BondDenom E) (Amount (mcvMinSelfDelegation msg))] = Inr w"
    "same_pools E w w'"
    "s' = s\<lparr>st_validators := kv_set (mcvValidatorAddress msg) (withShares v (OneDec (arith E))) (st_validators s),
      st_byConsAddr := kv_set (ConsAddress (codec E) v) (mcvValidatorAddress msg) (st_byConsAddr s),
      st_powerIndex := kv_set (GetValidatorsByPowerIndexKey (arith E) (withShares v (OneDec (arith E))))
        (mcvValidatorAddress msg) (kv_del (GetValidatorsByPowerIndexKey (arith E) v) (st_powerIndex s)),
      st_world := w'\<rparr>"
proof -
  let ?a = "mcvValidatorAddress msg"
  let ?v = "(NewValidator ?a (mcvPubKey msg) (mcvDescription msg) (Amount (mcvMinSelfDelegation msg)))
          \<lparr>vCommission := NewCommission (NewDec (arith E) 1) (NewDec (arith E) 1) (NewDec (arith E) 0)\<rparr>"
  let ?s3 = "SetNewValidatorByPowerIndex E (SetValidatorByConsAddr E (SetValidator s ?v) ?v) ?v"
  from assms(2) obtain w where
    none: "kv_get (st_validators s) ?a = None" "GetValidatorByConsAddr s (ConsAddress (codec E) ?v) = None"
    and w: "DelegateCoinsFromAccountToModule E (st_world s) (mcvDelegatorAddress msg) BondedPoolName
       [NewDecCoinFromDec (BondDenom E) (Amount (mcvMinSelfDelegation msg))] = Inr w"
    and hook: "runHook E (HookValidatorCreated ?a)
       (fst (addSharesAsDefaultMinSelfDelegation E (?s3\<lparr>st_world := w\<rparr>) ?v)) = Inr s'"
    by (auto simp: handleMsgCreateValidator_def SetInitialCommission_def AddSharesAsMinSelfDelegation_def
        addSharesAsDefaultMinSelfDelegation_def AfterValidatorCreated_def NewValidator_def ConsAddress_def
        GetValidator_def liftWorld_def store_defs res_simps Let_def split: option.splits)
  from assms(1) hook obtain w' where "same_pools E w w'"
    and s': "s' = (fst (addSharesAsDefaultMinSelfDelegation E (?s3\<lparr>st_world := w\<rparr>) ?v))\<lparr>st_world := w'\<rparr>"
    unfolding hooks_frame_def
    by (fastforce simp: addSharesAsDefaultMinSelfDelegation_def store_defs Let_def split: if_splits)
  moreover have "s' = s\<lparr>st_validators := kv_set ?a (withShares ?v (OneDec (arith E))) (st_validators s),
      st_byConsAddr := kv_set (ConsAddress (codec E) ?v) ?a (st_byConsAddr s),
      st_powerIndex := kv_set (GetValidatorsByPowerIndexKey (arith E) (withShares ?v (OneDec (arith E))))
        ?a (kv_del (GetValidatorsByPowerIndexKey (arith E) ?v) (st_powerIndex s)),
      st_world := w'\<rparr>"
    unfolding s'
    by (simp add: addSharesAsDefaultMinSelfDelegation_def getSharesFromDefaultMinSelfDelegation_def
        store_defs withShares_def NewValidator_def Let_def)
  ultimately show ?thesis using none w by (intro that [of ?v w w']) simp_all
qed

lemma byConsAddr_free:
  assumes "validators_inv E s" and "GetValidatorByConsAddr s c = None"
  shows "kv_get (st_byConsAddr s) c = None"
proof (rule ccontr)
  assume "kv_get (st_byConsAddr s) c \<noteq> None"
  then obtain a where a: "kv_get (st_byConsAddr s) c = Some a" by blast
  moreover from this assms(1) obtain v where "kv_get (st_validators s) a = Some v"
    unfolding validators_inv_def cons_rel_def inverse_rel_def by blast
  ultimately show False using assms(2) by (simp add: GetValidatorByConsAddr_def GetValidator_def)
qed

lemma unused_index_key:
  assumes "validators_inv E s" and "kv_get (st_validators s) a = None"
    and "OperatorAddress v = a" and "length a = AddrLen"
  shows "kv_get (st_powerIndex s) (GetValidatorsByPowerIndexKey (arith E) v) = None"
proof (rule ccontr)
  assume "kv_get (st_powerIndex s) (GetValidatorsByPowerIndexKey (arith E) v) \<noteq> None"
  then obtain b w where "kv_get (st_validators s) b = Some w"
    "GetValidatorsByPowerIndexKey (arith E) w = GetValidatorsByPowerIndexKey (arith E) v"
    using assms(1) unfolding validators_inv_def index_rel_def inverse_rel_def by (metis not_None_eq)
  with index_uniq [OF _ assms(3,4)] assms(1,2) show False by (fastforce simp: validators_inv_def)
qed

lemma handleMsgCreateValidator_inv:
  assumes "hooks_frame E" and "supply_moves E" and "staking_inv E s"
    and "fresh_operator s (mcvValidatorAddress msg)" and "0 < Amount (mcvMinSelfDelegation msg)"
    and "handleMsgCreateValidator E ctx msg s = Inr s'"
  shows "staking_inv E s'"
  using assms(1,6)
proof (cases rule: create_effect)
  case (1 v w w')
  let ?a = "mcvValidatorAddress msg" and ?v = "withShares v (OneDec (arith E))"
  have val: "validators_inv E s" and rec: "records_inv E s"
    using assms(3) by (simp_all add: staking_inv_def inv_at_def records_inv_def)
  have v: "OperatorAddress v = ?a" "MinSelfDelegation v = Amount (mcvMinSelfDelegation msg)"
    "\<not> Jailed v" "Status v = Unbonded" "vTokens v = 0"
    using 1(1) by (simp_all add: NewValidator_def)
  note fresh = fresh_operatorD [OF assms(4)]
  have idx: "kv_get (st_powerIndex s) (GetValidatorsByPowerIndexKey (arith E) v) = None"
    by (rule unused_index_key [OF val 1(2) v(1) fresh(1)])
  have cons: "ConsAddress (codec E) ?v = ConsAddress (codec E) v" by (simp add: ConsAddress_def)
  have "validators_inv E (s\<lparr>st_validators := kv_set ?a ?v (st_validators s),
    st_byConsAddr := kv_set (ConsAddress (codec E) ?v) ?a (st_byConsAddr s),
    st_powerIndex := kv_set (GetValidatorsByPowerIndexKey (arith E) ?v) ?a (st_powerIndex s)\<rparr>)"
    using v fresh assms(5) byConsAddr_free [OF val 1(3)]
    by (intro validators_inv_insert [OF val 1(2)]) (simp_all add: cons)
  moreover have "link_rel (kv_set ?a ?v (st_validators s)) (st_delegators s) (st_shares s)"
    using rec fresh(2,4) by (auto simp: records_inv_def link_rel_def split: option.splits)
  moreover have "poolAmount E w' BondedPoolName =
      poolAmount E (st_world s) BondedPoolName + Amount (mcvMinSelfDelegation msg)"
    "poolAmount E w' NotBondedPoolName = poolAmount E (st_world s) NotBondedPoolName"
    using assms(2) 1(4,5) by (auto simp: supply_moves_def same_pools_def AmountOf_def NewDecCoinFromDec_def)
  ultimately show ?thesis
    using assms(3) 1(2) v(2) idx
    by (simp add: 1(6) staking_inv_def inv_at_def records_inv_def validators_inv_def bondedSum_def
        notBondedSum_def kv_sum_set kv_del_same cons)
qed

lemma handleMsgEditValidator_inv:
  assumes "staking_inv E s" and "handleMsgEditValidator msg s = Inr s'"
  shows "staking_inv E s'"
proof -
  let ?a = "mevValidatorAddress msg"
  from assms(2) obtain v desc where v: "kv_get (st_validators s) ?a = Some v"
    and s': "s' = SetValidator s (v\<lparr>vDescription := desc\<rparr>)"
    by (auto simp: handleMsgEditValidator_def GetValidator_def res_simps split: option.splits)
  have val: "validators_inv E s" using assms(1) by (simp add: staking_inv_def inv_at_def records_inv_def)
  then have ok: "vals_ok (st_validators s)" by (simp add: validators_inv_def)
  let ?v = "v\<lparr>vDescription := desc\<rparr>"
  have "validators_inv E (s\<lparr>st_validators := kv_set ?a ?v (st_validators s),
    st_powerIndex := reindex (arith E) v ?v (st_powerIndex s)\<rparr>)"
    using vals_okD [OF ok v]
    by (intro validators_inv_replace [OF val v]) (simp_all add: baseShares_def abandonable_def)
  moreover have "reindex (arith E) v ?v (st_powerIndex s) = st_powerIndex s"
    using val vals_okD(1) [OF ok v] by (intro reindex_same [OF _ v]) (simp_all add: validators_inv_def)
  moreover have "link_rel (kv_set ?a ?v (st_validators s)) (st_delegators s) (st_shares s)"
    using assms(1) v by (auto simp: staking_inv_def inv_at_def records_inv_def link_rel_def)
  ultimately show ?thesis
    using assms(1) v vals_okD(1) [OF ok v]
    by (simp add: s' SetValidator_def staking_inv_def inv_at_def records_inv_def validators_inv_def
        bondedSum_def notBondedSum_def kv_sum_set)
qed

text \<open>A change of the abandoned list or the world.\<close>

lemma inv_at_hook:
  assumes "hooks_frame E" and "inv_at E b n s" and "runHook E ev s = Inr s'"
  shows "inv_at E b n s' \<and> st_validators s' = st_validators s"
proof -
  from assms(1,3) obtain w where s': "s' = s\<lparr>st_world := w\<rparr>" and "same_pools E (st_world s) w"
    unfolding hooks_frame_def by blast
  then have "inv_at E (b + 0) (n + 0) s'"
    by (intro inv_at_same_records [OF assms(2)]) (simp_all add: same_pools_def)
  then show ?thesis by (simp add: s')
qed

lemma abandon_inv_at:
  assumes "inv_at E b n s" and "kv_get (st_validators s) a = Some v" and "Status v = Bonded"
    and "AppendAbandonedValidatorAddrs s (ConsAddress (codec E) v) = Inr s'"
  shows "inv_at E b n s' \<and> st_validators s' = st_validators s"
proof -
  have val: "validators_inv E s" using assms(1) by (simp add: inv_at_def records_inv_def)
  then have "kv_get (st_byConsAddr s) (ConsAddress (codec E) v) = Some a"
    using assms(2) by (auto simp: validators_inv_def cons_rel_def inverse_rel_def)
  moreover have "OperatorAddress v = a" by (rule validators_invD(1) [OF val assms(2)])
  ultimately have s': "s' = s\<lparr>st_abandoned := st_abandoned s @ [a]\<rparr>"
    using assms(2,4)
    by (simp add: AppendAbandonedValidatorAddrs_def mustGetValidatorByConsAddr_def GetValidatorByConsAddr_def
        GetValidator_def getAbandonedValidatorAddrs_def)
  have "aband_rel (st_validators s) (st_abandoned s @ [a])"
    using val assms(2,3) by (auto simp: validators_inv_def aband_rel_def abandonable_def)
  with assms(1) show ?thesis
    by (simp add: s' inv_at_def records_inv_def validators_inv_def bondedSum_def notBondedSum_def)
qed

lemma remove_inv_at:
  assumes "hooks_frame E" and "inv_at E b n s" and "kv_get (st_validators s) a = Some v"
    and "RemoveValidator E s a = Inr s'"
  shows "inv_at E (b + MinSelfDelegation v) n s'"
  using assms(1,4,3)
proof (cases rule: RemoveValidator_effect)
  case (1 w)
  have val: "validators_inv E s" using assms(2) by (simp add: inv_at_def records_inv_def)
  from validators_inv_remove [OF val assms(3) 1(1), of "st_shares s" w] have "validators_inv E s'"
    by (simp add: 1(3))
  moreover have "link_rel (kv_del a (st_validators s)) (st_delegators s) (st_shares s)"
    using assms(2) by (auto simp: inv_at_def records_inv_def link_rel_def split: if_splits)
  ultimately show ?thesis
    using assms(2,3) 1(2)
    by (simp add: 1(3) inv_at_def records_inv_def bondedSum_def notBondedSum_def kv_sum_del same_pools_def)
qed

text \<open>Taking the self delegation and its share from a validator and jailing it.\<close>

lemma destroy_inv_at:
  assumes "inv_at E b n s" and "kv_get (st_validators s) a = Some v" and "MinSelfDelegation v \<noteq> 0"
  shows "inv_at E (b + MinSelfDelegation v) n
    (SetValidator (DeleteValidatorByPowerIndex E s (v\<lparr>MinSelfDelegation := 0, Jailed := True\<rparr>))
      (v\<lparr>MinSelfDelegation := 0, Jailed := True, DelegatorShares := DelegatorShares v - OneDec (arith E)\<rparr>))"
proof -
  let ?v = "v\<lparr>MinSelfDelegation := 0, Jailed := True, DelegatorShares := DelegatorShares v - OneDec (arith E)\<rparr>"
  have val: "validators_inv E s" using assms(1) by (simp add: inv_at_def records_inv_def)
  note own = validators_invD [OF val assms(2)]
  have "validators_inv E (s\<lparr>st_validators := kv_set a ?v (st_validators s),
    st_powerIndex := reindex (arith E) v ?v (st_powerIndex s)\<rparr>)"
    using own assms(3)
    by (intro validators_inv_replace [OF val assms(2)]) (auto simp: baseShares_def abandonable_def)
  moreover have "GetValidatorsByPowerIndexKey (arith E) (v\<lparr>MinSelfDelegation := 0, Jailed := True\<rparr>) =
      GetValidatorsByPowerIndexKey (arith E) v"
    by (rule index_key_cong) simp_all
  moreover have "link_rel (kv_set a ?v (st_validators s)) (st_delegators s) (st_shares s)"
    using assms(1,2) by (auto simp: inv_at_def records_inv_def link_rel_def)
  ultimately show ?thesis
    using assms(1,2) own
    by (simp add: SetValidator_def DeleteValidatorByPowerIndex_def reindex_def inv_at_def records_inv_def
        validators_inv_def bondedSum_def notBondedSum_def kv_sum_set)
qed

lemma WithdrawMinSelfDelegation_inv:
  assumes "hooks_frame E" and "supply_moves E" and "to_coins_keeps (arith E)" and "staking_inv E s"
    and "kv_get (st_validators s) a = Some v" and "WithdrawMinSelfDelegation E ctx s d v = Inr (s', t)"
  shows "staking_inv E s'"
proof -
  let ?m = "MinSelfDelegation v" and ?r = "DelegatorShares v - OneDec (arith E)"
  let ?v = "v\<lparr>MinSelfDelegation := 0, Jailed := True\<rparr>"
  from assms(6) obtain s1 s3 s4 where m: "?m \<noteq> 0"
    and s1: "bondedTokensToNotBonded E s (NewDecCoinFromDec (BondDenom E) ?m) = Inr s1"
    and s3: "runHook E (HookValidatorDestroyed (ConsAddress (codec E) ?v) (OperatorAddress ?v))
              (recordUndelegation udDelegatorAddress s1 d ?m (completionTimeOf E ctx s1)) = Inr s3"
    and s4: "(if Status v = Bonded then AppendAbandonedValidatorAddrs s3 (ConsAddress (codec E) ?v) else Inr s3) = Inr s4"
    and fin: "retireValidator E s4 ?v ?r = Inr s'"
    by (auto simp: WithdrawMinSelfDelegation_def AfterValidatorDestroyed_def
        getSharesFromDefaultMinSelfDelegation_def Let_def res_simps)
  have inv: "inv_at E 0 0 s" using assms(4) by (simp add: staking_inv_def)
  have i1: "inv_at E (- ?m) ?m s1" and v1: "st_validators s1 = st_validators s"
    using toNotBonded_inv_at [OF assms(2,3) inv s1] by (simp_all add: NewDecCoinFromDec_def toNotBonded_world [OF s1])
  let ?s2 = "recordUndelegation udDelegatorAddress s1 d ?m (completionTimeOf E ctx s1)"
  have i2: "inv_at E (- ?m) 0 ?s2" using recordUndelegation_inv_at [OF i1, of ?m] by simp
  have v2: "st_validators ?s2 = st_validators s"
    by (simp add: recordUndelegation_def store_defs v1 Let_def split: option.splits)
  have i3: "inv_at E (- ?m) 0 s3" and v3: "kv_get (st_validators s3) a = Some v"
    using inv_at_hook [OF assms(1) i2 s3] v2 assms(5) by simp_all
  have "ConsAddress (codec E) ?v = ConsAddress (codec E) v" by (simp add: ConsAddress_def)
  then have i4: "inv_at E (- ?m) 0 s4" and v4: "kv_get (st_validators s4) a = Some v"
    using s4 i3 v3 abandon_inv_at [OF i3 v3, of s4] by (auto split: if_splits)
  have own: "OperatorAddress v = a"
    using inv by (intro validators_invD(1) [OF _ assms(5)]) (auto simp: inv_at_def records_inv_def)
  have "inv_at E (- ?m + ?m) 0 s'"
    using fin remove_inv_at [OF assms(1) i4 v4] destroy_inv_at [OF i4 v4 m] own
    by (auto simp: retireValidator_def split: if_splits)
  then show ?thesis by (simp add: staking_inv_def)
qed

subsection \<open>Proxy messages\<close>

lemma orInvalidDelegation_Inr [res_simps]: "orInvalidDelegation a r = Inr x \<longleftrightarrow> r = Inr x"
  by (auto simp: orInvalidDelegation_def split: sum.splits staking_error.splits)

text \<open>A delegator record that changes neither tokens nor shares.\<close>

lemma SetDelegator_keeps:
  assumes "inv_at E b n s" and "kv_get (st_delegators s) a = Some d" and "DelegatorAddress d' = a"
    and "ValidatorAddresses d' = ValidatorAddresses d" and "dShares d' = dShares d"
    and "dTokens d' = dTokens d" and "ProxyAddress d' \<noteq> Some a"
  shows "inv_at E b n (SetDelegator s d')"
proof -
  have "0 < dTokens d'" using assms(1,2,6) by (simp add: inv_at_def records_inv_def dels_ok_def)
  from SetDelegator_inv_at [OF assms(1-5) this assms(7)] assms(6) show ?thesis by simp
qed

lemma inv_at_delegator:
  assumes "inv_at E b n s" and "kv_get (st_delegators s) a = Some d"
  shows "DelegatorAddress d = a" "ProxyAddress d \<noteq> Some a" "0 < dTokens d"
  using assms by (simp_all add: inv_at_def records_inv_def dels_ok_def)

lemma SetProxyBinding_inv_at: "inv_at E b n (SetProxyBinding s p d r) = inv_at E b n s"
  by (simp add: SetProxyBinding_def inv_at_def records_inv_def validators_inv_def bondedSum_def notBondedSum_def)

lemma unbindProxy_inv:
  assumes "hooks_frame E" and "inv_at E b n s" and "kv_get (st_delegators s) a = Some d"
    and "unbindProxy E ctx a s = Inr s'"
  shows "inv_at E b n s' \<and> kv_get (st_delegators s') a = Some (UnbindProxy d) \<and>
    (\<forall>e. e \<noteq> a \<longrightarrow> ProxyAddress d \<noteq> Some e \<longrightarrow> kv_get (st_delegators s') e = kv_get (st_delegators s) e)"
proof -
  from assms(3,4) obtain q s1 where
    up: "UpdateProxy E ctx s d (DecMul (arith E) (dTokens d) (NewDec (arith E) (- 1))) = Inr s1"
    and s': "s' = SetProxyBinding (SetDelegator s1 (UnbindProxy d)) q (DelegatorAddress (UnbindProxy d)) True"
    by (auto simp: unbindProxy_def GetDelegator_def Let_def res_simps split: option.splits)
  note own = inv_at_delegator [OF assms(2,3)]
  have i1: "inv_at E b n s1" by (rule UpdateProxy_inv_at [OF assms(1,2) up])
  have d1: "kv_get (st_delegators s1) a = Some d"
    using UpdateProxy_others [OF assms(1,2) up own(2)] assms(3) by simp
  have "inv_at E b n (SetDelegator s1 (UnbindProxy d))"
    using own by (intro SetDelegator_keeps [OF i1 d1]) (simp_all add: UnbindProxy_def)
  then have "inv_at E b n s'" by (simp add: s' SetProxyBinding_inv_at)
  with own UpdateProxy_others [OF assms(1,2) up] show ?thesis
    by (simp add: s' SetDelegator_def UnbindProxy_def SetProxyBinding_def)
qed

lemma handleMsgUnbindProxy_inv:
  assumes "hooks_frame E" and "staking_inv E s" and "handleMsgUnbindProxy E ctx a s = Inr s'"
  shows "staking_inv E s'"
proof -
  from assms(3) obtain d where "kv_get (st_delegators s) a = Some d"
    by (auto simp: handleMsgUnbindProxy_def unbindProxy_def GetDelegator_def split: option.splits)
  from unbindProxy_inv [OF assms(1) _ this] assms(2,3) show ?thesis
    by (auto simp: staking_inv_def handleMsgUnbindProxy_def)
qed

text \<open>The last part of binding: the delegator and the proxy are set and the proxy's shares
  updated.\<close>

lemma bind_inv_at:
  assumes "hooks_frame E" and "inv_at E b n s" and "kv_get (st_delegators s) a = Some d0"
    and "d0 = d \<or> d0 = UnbindProxy d" and "kv_get (st_delegators s) pa = Some p" and "a \<noteq> pa"
    and "UpdateShares E ctx (SetProxyBinding (SetDelegator (SetDelegator s (BindProxy d pa))
           (p\<lparr>TotalDelegatedTokens := tot\<rparr>)) x y False) z tokens = Inr s'"
  shows "inv_at E b n s'"
proof -
  note own = inv_at_delegator [OF assms(2,3)] and pown = inv_at_delegator [OF assms(2,5)]
  have i1: "inv_at E b n (SetDelegator s (BindProxy d pa))"
    using own assms(4,6) by (intro SetDelegator_keeps [OF assms(2,3)]) (auto simp: BindProxy_def UnbindProxy_def)
  have "DelegatorAddress (BindProxy d pa) = a"
    using own assms(4) by (auto simp: BindProxy_def UnbindProxy_def)
  then have p1: "kv_get (st_delegators (SetDelegator s (BindProxy d pa))) pa = Some p"
    using assms(5,6) by (simp add: SetDelegator_def)
  have "inv_at E b n (SetDelegator (SetDelegator s (BindProxy d pa)) (p\<lparr>TotalDelegatedTokens := tot\<rparr>))"
    using pown by (intro SetDelegator_keeps [OF i1 p1]) simp_all
  then show ?thesis
    by (intro UpdateShares_inv_at [OF assms(1) _ assms(7)]) (simp add: SetProxyBinding_inv_at)
qed

lemma handleMsgBindProxy_inv:
  assumes "hooks_frame E" and "staking_inv E s" and "handleMsgBindProxy E ctx msg s = Inr s'"
  shows "staking_inv E s'"
proof -
  let ?a = "mbpDelAddr msg" and ?pa = "mbpProxyAddress msg"
  have inv: "inv_at E 0 0 s" using assms(2) by (simp add: staking_inv_def)
  from assms(3) obtain d p where d: "kv_get (st_delegators s) ?a = Some d"
    and p: "kv_get (st_delegators s) ?pa = Some p" and prox: "IsProxy p" "\<not> IsProxy d"
    and rest: "(if ProxyAddress d = Some (DelegatorAddress p)
      then orInvalidDelegation (DelegatorAddress p)
             (UpdateShares E ctx s (DelegatorAddress p) (TotalDelegatedTokens p + dTokens p))
      else bindE (if proxyNonEmpty d then unbindProxy E ctx (DelegatorAddress d) s else Inr s) (\<lambda>s1.
             let d' = BindProxy d ?pa;
                 p' = p\<lparr>TotalDelegatedTokens := TotalDelegatedTokens p + dTokens d'\<rparr>;
                 s2 = SetDelegator (SetDelegator s1 d') p';
                 s3 = SetProxyBinding s2 (DelegatorAddress p') (DelegatorAddress d') False;
                 finalTokens = TotalDelegatedTokens p' + dTokens p'
             in orInvalidDelegation (DelegatorAddress p') (UpdateShares E ctx s3 (DelegatorAddress p') finalTokens)))
      = Inr s'"
    unfolding handleMsgBindProxy_def by (clarsimp simp: GetDelegator_def res_simps split: option.splits)
  note own = inv_at_delegator [OF inv d] and pown = inv_at_delegator [OF inv p]
  have ne: "?a \<noteq> ?pa" using d p prox by auto
  show ?thesis
  proof (cases "ProxyAddress d = Some (DelegatorAddress p)")
    case True
    with rest show ?thesis
      by (auto simp: staking_inv_def res_simps intro: UpdateShares_inv_at [OF assms(1) inv])
  next
    case False
    then obtain s1 where s1: "(if proxyNonEmpty d then unbindProxy E ctx (DelegatorAddress d) s else Inr s) = Inr s1"
      and up: "UpdateShares E ctx (SetProxyBinding (SetDelegator (SetDelegator s1 (BindProxy d ?pa))
          (p\<lparr>TotalDelegatedTokens := TotalDelegatedTokens p + dTokens (BindProxy d ?pa)\<rparr>))
          (DelegatorAddress p) (DelegatorAddress (BindProxy d ?pa)) False) (DelegatorAddress p)
          (TotalDelegatedTokens p + dTokens (BindProxy d ?pa) + dTokens p) = Inr s'"
      using rest by (clarsimp simp: Let_def res_simps)
    have "inv_at E 0 0 s1 \<and> (\<exists>d0. kv_get (st_delegators s1) ?a = Some d0 \<and> (d0 = d \<or> d0 = UnbindProxy d)) \<and>
        kv_get (st_delegators s1) ?pa = Some p"
      using s1 inv d p ne own pown False unbindProxy_inv [OF assms(1) inv d, of ctx s1]
      by (auto split: if_splits)
    with bind_inv_at [OF assms(1) _ _ _ _ ne up] show ?thesis by (auto simp: staking_inv_def)
  qed
qed

lemma regProxy_inv:
  assumes "hooks_frame E" and "staking_inv E s" and "regProxy E ctx a s = Inr s'"
  shows "staking_inv E s'"
proof -
  have inv: "inv_at E 0 0 s" using assms(2) by (simp add: staking_inv_def)
  from assms(3) obtain p where p: "kv_get (st_delegators s) a = Some p"
    and up: "UpdateShares E ctx (SetDelegator s (RegProxy p True)) (DelegatorAddress (RegProxy p True))
              (dTokens (RegProxy p True)) = Inr s'"
    by (auto simp: regProxy_def GetDelegator_def Let_def res_simps split: option.splits)
  have "inv_at E 0 0 (SetDelegator s (RegProxy p True))"
    using inv_at_delegator [OF inv p]
    by (intro SetDelegator_keeps [OF inv p]) (simp_all add: RegProxy_def UnbindProxy_def)
  from UpdateShares_inv_at [OF assms(1) this up] show ?thesis by (simp add: staking_inv_def)
qed

text \<open>Clearing the bindings of a proxy changes delegators only in their proxy.\<close>

lemma ClearProxy_inv_at:
  assumes "inv_at E b n s" and "kv_get (st_delegators s) a = Some d"
  shows "inv_at E b n (ClearProxy s pa) \<and>
    (\<exists>x. kv_get (st_delegators (ClearProxy s pa)) a = Some (d\<lparr>ProxyAddress := x\<rparr>))"
proof -
  let ?f = "\<lambda>s delAddr. case GetDelegator s delAddr of None \<Rightarrow> s | Some d \<Rightarrow> SetDelegator s (UnbindProxy d)"
  let ?P = "\<lambda>s. inv_at E b n s \<and> (\<exists>x. kv_get (st_delegators s) a = Some (d\<lparr>ProxyAddress := x\<rparr>))"
  have step: "?P (SetProxyBinding (?f t e) pa e True)" if t: "?P t" for t e
  proof (cases "kv_get (st_delegators t) e")
    case None
    with t show ?thesis by (simp add: GetDelegator_def SetProxyBinding_inv_at) (simp add: SetProxyBinding_def)
  next
    case (Some f)
    have ft: "inv_at E b n t" using t by simp
    note own = inv_at_delegator [OF ft Some]
    have "inv_at E b n (SetDelegator t (UnbindProxy f))"
      using own by (intro SetDelegator_keeps [OF ft Some]) (simp_all add: UnbindProxy_def)
    moreover have "\<exists>x. kv_get (st_delegators (SetDelegator t (UnbindProxy f))) a = Some (d\<lparr>ProxyAddress := x\<rparr>)"
    proof (cases "e = a")
      case True
      then have "kv_get (st_delegators (SetDelegator t (UnbindProxy f))) a = Some (d\<lparr>ProxyAddress := None\<rparr>)"
        using t Some own by (auto simp: SetDelegator_def UnbindProxy_def)
      then show ?thesis by blast
    next
      case False
      with t own show ?thesis by (auto simp: SetDelegator_def UnbindProxy_def)
    qed
    ultimately show ?thesis
      using Some by (simp add: GetDelegator_def SetProxyBinding_inv_at) (simp add: SetProxyBinding_def)
  qed
  have "?P (foldl (\<lambda>s d. SetProxyBinding (?f s d) pa d True) t es)" if "?P t" for t es
    using that step by (induction es arbitrary: t) simp_all
  moreover have "?P s"
  proof -
    have "d = d\<lparr>ProxyAddress := ProxyAddress d\<rparr>" by simp
    with assms show ?thesis by metis
  qed
  ultimately show ?thesis by (simp add: ClearProxy_def IterateProxyClear_def)
qed

lemma unregProxy_inv:
  assumes "hooks_frame E" and "staking_inv E s" and "unregProxy E ctx a s = Inr s'"
  shows "staking_inv E s'"
proof -
  have inv: "inv_at E 0 0 s" using assms(2) by (simp add: staking_inv_def)
  from assms(3) obtain p where p: "kv_get (st_delegators s) a = Some p"
    and up: "UpdateShares E ctx
        (SetDelegator (ClearProxy s (DelegatorAddress p)) ((RegProxy p False)\<lparr>TotalDelegatedTokens := 0\<rparr>))
        (DelegatorAddress p) (dTokens p) = Inr s'"
    by (auto simp: unregProxy_def GetDelegator_def RegProxy_def Let_def res_simps split: option.splits)
  from ClearProxy_inv_at [OF inv p, of "DelegatorAddress p"] obtain x where
    c: "inv_at E 0 0 (ClearProxy s (DelegatorAddress p))"
      "kv_get (st_delegators (ClearProxy s (DelegatorAddress p))) a = Some (p\<lparr>ProxyAddress := x\<rparr>)" by blast
  have "inv_at E 0 0 (SetDelegator (ClearProxy s (DelegatorAddress p)) ((RegProxy p False)\<lparr>TotalDelegatedTokens := 0\<rparr>))"
    using inv_at_delegator [OF inv p] by (intro SetDelegator_keeps [OF c]) (simp_all add: RegProxy_def)
  from UpdateShares_inv_at [OF assms(1) this up] show ?thesis by (simp add: staking_inv_def)
qed

subsection \<open>All messages\<close>

text \<open>The messages a transaction may carry: the basic checks passed, and a new validator has an
  operator address that was not in use before.\<close>

definition msg_ok :: "'w staking_env \<Rightarrow> 'w staking_state \<Rightarrow> staking_msg \<Rightarrow> bool" where
  "msg_ok E s m \<longleftrightarrow>
     ValidateBasic (arith E) m = None \<and>
     (case m of MsgCreateValidator c \<Rightarrow> fresh_operator s (mcvValidatorAddress c) | _ \<Rightarrow> True)"

definition env_ok :: "'w staking_env \<Rightarrow> bool" where
  "env_ok E \<longleftrightarrow> hooks_frame E \<and> supply_moves E \<and> to_coins_keeps (arith E)"

lemma env0_ok: "env_ok env0"
  by (simp add: env_ok_def env0_hooks_frame env0_supply_moves dec18_to_coins_keeps)

lemma staking_handler_inv:
  assumes "env_ok E" and "staking_inv E s" and "msg_ok E s m" and "staking_handler E ctx m s = Inr (s', r)"
  shows "staking_inv E s'"
proof (cases m)
  case (MsgCreateValidator c)
  with assms show ?thesis
    by (auto simp: res_simps noData_def msg_ok_def env_ok_def ValidateBasicCreateValidator_def not_le
        split: if_splits intro!: handleMsgCreateValidator_inv [of E s c ctx s'])
next
  case (MsgEditValidator c)
  with assms show ?thesis by (auto simp: res_simps noData_def intro: handleMsgEditValidator_inv)
next
  case (MsgDeposit d c)
  with assms show ?thesis
    by (auto simp: res_simps noData_def msg_ok_def env_ok_def handleMsgDeposit_def ValidateBasicDeposit_def
        split: if_splits intro: Delegate_inv)
next
  case (MsgWithdraw d c)
  with assms show ?thesis
    by (auto simp: res_simps withData_def env_ok_def handleMsgWithdraw_def split: if_splits intro: Withdraw_inv)
next
  case (MsgAddShares c)
  with assms show ?thesis
    by (auto simp: res_simps noData_def msg_ok_def env_ok_def ValidateBasicAddShares_def isValsDuplicate_def
        valsDuplicateLoop_iff split: if_splits intro: handleMsgAddShares_inv)
next
  case (MsgDestroyValidator d)
  with assms show ?thesis
    by (auto simp: res_simps withData_def env_ok_def handleMsgDestroyValidator_def GetValidator_def
        split: option.splits intro: WithdrawMinSelfDelegation_inv)
qed (use assms in \<open>auto simp: res_simps noData_def env_ok_def handleRegProxy_def split: if_splits
      intro: handleMsgBindProxy_inv handleMsgUnbindProxy_inv regProxy_inv unregProxy_inv\<close>)

end
