(* ===== verification/Staking_Inv_Set.thy ===== *)
theory Staking_Inv_Set
  imports Staking_Inv_Handlers
begin

text \<open>
  The end of a block: the transitions of the bond state machine, the election of the validator set
  and the queues. Under the invariant none of the panics of val_state_change.go, val_state.go and
  validator.go can happen, the invariant holds again at the end of the block, and the bonded
  validators after an election are exactly the first \<open>MaxValidators\<close> eligible ones of the
  power index.
\<close>

subsection \<open>The unbonding queue\<close>

definition unqueue :: "(timestamp, val_address list) kv \<Rightarrow> timestamp \<Rightarrow> val_address \<Rightarrow> (timestamp, val_address list) kv" where
  "unqueue q t a =
     (let ys = filter (\<lambda>b. b \<noteq> a) (queue_at q t) in if ys = [] then kv_del t q else kv_set t ys q)"

definition enqueue :: "(timestamp, val_address list) kv \<Rightarrow> timestamp \<Rightarrow> val_address \<Rightarrow> (timestamp, val_address list) kv" where
  "enqueue q t a = kv_set t (queue_at q t @ [a]) q"

lemma queue_at_unqueue [simp]:
  "queue_at (unqueue q t a) u = (if u = t then filter (\<lambda>b. b \<noteq> a) (queue_at q t) else queue_at q u)"
  by (simp add: unqueue_def queue_at_def Let_def)

lemma queue_at_enqueue [simp]:
  "queue_at (enqueue q t a) u = (if u = t then queue_at q t @ [a] else queue_at q u)"
  by (simp add: enqueue_def queue_at_def)

lemma queue_at_set [simp]: "queue_at (kv_set t xs q) u = (if u = t then xs else queue_at q u)"
  by (simp add: queue_at_def)

lemma queue_at_del [simp]: "queue_at (kv_del t q) u = (if u = t then [] else queue_at q u)"
  by (simp add: queue_at_def)

lemma DeleteValidatorQueue_effect:
  "DeleteValidatorQueue s v =
     s\<lparr>st_valQueue := unqueue (st_valQueue s) (UnbondingCompletionTime v) (OperatorAddress v)\<rparr>"
  by (simp add: DeleteValidatorQueue_def unqueue_def GetValidatorQueueTimeSlice_def queue_at_def store_defs Let_def)

lemma InsertValidatorQueue_effect:
  "InsertValidatorQueue s v =
     s\<lparr>st_valQueue := enqueue (st_valQueue s) (UnbondingCompletionTime v) (OperatorAddress v)\<rparr>"
  by (simp add: InsertValidatorQueue_def enqueue_def GetValidatorQueueTimeSlice_def queue_at_def store_defs Let_def)

lemma queue_rel_cong: "(\<And>t. queue_at q' t = queue_at q t) \<Longrightarrow> queue_rel vals q' = queue_rel vals q"
  by (simp add: queue_rel_def)

lemma queue_rel_unqueue:
  assumes "queue_rel vals q" and "kv_get vals a = Some v" and "Status v' \<noteq> Unbonding"
  shows "queue_rel (kv_set a v' vals) (unqueue q (UnbondingCompletionTime v) a)"
  using assms unfolding queue_rel_def by (auto split: if_splits)

lemma queue_rel_enqueue:
  assumes "queue_rel vals q" and "kv_get vals a = Some v" and "Status v \<noteq> Unbonding" and "Status v' = Unbonding"
  shows "queue_rel (kv_set a v' vals) (enqueue q (UnbondingCompletionTime v') a)"
  using assms unfolding queue_rel_def by (auto split: if_splits)

subsection \<open>Transitions\<close>

definition hooks_total :: "'w staking_env \<Rightarrow> bool" where
  "hooks_total E \<longleftrightarrow> (\<forall>ev s. \<exists>s'. runHook E ev s = Inr s')"

lemma hook_world:
  assumes "hooks_frame E" and "hooks_total E"
  shows "\<exists>w. runHook E ev s = Inr (s\<lparr>st_world := w\<rparr>) \<and> same_pools E (st_world s) w"
proof -
  from assms(2) obtain s' where "runHook E ev s = Inr s'" unfolding hooks_total_def by blast
  with assms(1) show ?thesis unfolding hooks_frame_def by metis
qed

text \<open>During the update of the validator set the abandoned list no longer counts: it is deleted
  afterwards.\<close>

definition set_inv :: "'w staking_env \<Rightarrow> 'w staking_state \<Rightarrow> bool" where
  "set_inv E s \<longleftrightarrow> staking_inv E (s\<lparr>st_abandoned := []\<rparr>)"

lemma set_inv_validators: "set_inv E s \<Longrightarrow> validators_inv E (s\<lparr>st_abandoned := []\<rparr>)"
  by (simp add: set_inv_def staking_inv_def inv_at_def records_inv_def)

lemma staking_inv_set_inv: "staking_inv E s \<Longrightarrow> set_inv E s"
  by (simp add: set_inv_def staking_inv_def inv_at_def records_inv_def validators_inv_def aband_rel_def
      bondedSum_def notBondedSum_def)

lemma set_inv_operator:
  assumes "set_inv E s" and "kv_get (st_validators s) a = Some v"
  shows "OperatorAddress v = a"
  using validators_invD(1) [OF set_inv_validators [OF assms(1)]] assms(2) by simp

lemma set_inv_bonded:
  assumes "set_inv E s"
  shows "kv_get (st_lastPower s) a \<noteq> None \<longleftrightarrow> (\<exists>v. kv_get (st_validators s) a = Some v \<and> Status v = Bonded)"
  using set_inv_validators [OF assms] by (simp add: validators_inv_def last_rel_def)

lemma set_inv_status:
  assumes inv: "set_inv E s" and v: "kv_get (st_validators s) a = Some v"
    and same: "OperatorAddress v' = OperatorAddress v" "ConsPubKey v' = ConsPubKey v"
      "DelegatorShares v' = DelegatorShares v" "MinSelfDelegation v' = MinSelfDelegation v"
      "Jailed v' = Jailed v" "vTokens v' = vTokens v"
    and q: "queue_rel (kv_set a v' (st_validators s)) q'"
    and lp: "last_rel (kv_set a v' (st_validators s)) lp'"
    and w: "same_pools E (st_world s) w"
  shows "set_inv E (s\<lparr>st_validators := kv_set a v' (st_validators s), st_valQueue := q',
      st_world := w, st_lastPower := lp'\<rparr>)"
    and "reindex (arith E) v v' (st_powerIndex s) = st_powerIndex s"
proof -
  have val: "validators_inv E (s\<lparr>st_abandoned := []\<rparr>)" by (rule set_inv_validators [OF inv])
  have v': "kv_get (st_validators (s\<lparr>st_abandoned := []\<rparr>)) a = Some v" using v by simp
  have ab: "aband_rel vals []" for vals by (simp add: aband_rel_def)
  note status = validators_inv_status [OF val v' same _ _ ab, of q' lp']
  show "reindex (arith E) v v' (st_powerIndex s) = st_powerIndex s"
    using status(2) q lp by simp
  have "link_rel (kv_set a v' (st_validators s)) (st_delegators s) (st_shares s)"
    using inv v by (auto simp: set_inv_def staking_inv_def inv_at_def records_inv_def link_rel_def)
  with status(1) inv v same w show "set_inv E (s\<lparr>st_validators := kv_set a v' (st_validators s),
      st_valQueue := q', st_world := w, st_lastPower := lp'\<rparr>)"
    using q lp
    by (simp add: set_inv_def staking_inv_def inv_at_def records_inv_def validators_inv_def bondedSum_def
        notBondedSum_def kv_sum_set same_pools_def)
qed

lemma reindexed_effect:
  assumes "OperatorAddress v' = OperatorAddress v"
  shows "SetValidatorByPowerIndex E (SetValidator (DeleteValidatorByPowerIndex E s v) v') v' =
    s\<lparr>st_validators := kv_set (OperatorAddress v) v' (st_validators s),
      st_powerIndex := reindex (arith E) v v' (st_powerIndex s)\<rparr>"
  using assms by (simp add: store_defs reindex_def Let_def)

text \<open>Bonding a validator that is not bonded and entering it into the last validator set.\<close>

lemma bondValidator_total:
  assumes env: "hooks_frame E" "hooks_total E" and inv: "set_inv E s"
    and v: "kv_get (st_validators s) a = Some v" and st: "Status v \<noteq> Bonded"
  obtains w where
    "bondValidator E s v = Inr (s\<lparr>st_validators := kv_set a (v\<lparr>Status := Bonded\<rparr>) (st_validators s),
       st_valQueue := unqueue (st_valQueue s) (UnbondingCompletionTime v) a, st_world := w\<rparr>, v\<lparr>Status := Bonded\<rparr>)"
    "\<And>p. set_inv E (s\<lparr>st_validators := kv_set a (v\<lparr>Status := Bonded\<rparr>) (st_validators s),
       st_valQueue := unqueue (st_valQueue s) (UnbondingCompletionTime v) a,
       st_world := w, st_lastPower := kv_set a p (st_lastPower s)\<rparr>)"
proof -
  let ?v = "v\<lparr>Status := Bonded\<rparr>"
  let ?q = "unqueue (st_valQueue s) (UnbondingCompletionTime v) a"
  let ?s = "s\<lparr>st_validators := kv_set a ?v (st_validators s), st_powerIndex := reindex (arith E) v ?v (st_powerIndex s),
              st_valQueue := ?q\<rparr>"
  have own: "OperatorAddress v = a" by (rule set_inv_operator [OF inv v])
  from hook_world [OF env] obtain w where
    hook: "runHook E (HookValidatorBonded (ConsAddress (codec E) ?v) a) ?s = Inr (?s\<lparr>st_world := w\<rparr>)"
    and w: "same_pools E (st_world s) w" by fastforce
  have val: "validators_inv E (s\<lparr>st_abandoned := []\<rparr>)" by (rule set_inv_validators [OF inv])
  have q: "queue_rel (kv_set a ?v (st_validators s)) ?q"
    using val v by (intro queue_rel_unqueue) (simp_all add: validators_inv_def)
  have lp: "last_rel (kv_set a ?v (st_validators s)) (kv_set a p (st_lastPower s))" for p
    using val by (auto simp: validators_inv_def last_rel_def)
  note status = set_inv_status [OF inv v, of ?v, OF _ _ _ _ _ _ q lp w]
  have "bondValidator E s v = Inr (?s\<lparr>st_world := w\<rparr>, ?v)"
    using hook own
    by (simp add: bondValidator_def UpdateStatus_def DeleteValidatorQueue_effect AfterValidatorBonded_def
        reindexed_effect Let_def)
  moreover have "reindex (arith E) v ?v (st_powerIndex s) = st_powerIndex s" using status(2) by simp
  ultimately show ?thesis using status(1) by (intro that [of w]) simp_all
qed

text \<open>Beginning to unbond a bonded validator and deleting it from the last validator set.\<close>

lemma bondedToUnbonding_total:
  assumes env: "hooks_frame E" "hooks_total E" and inv: "set_inv E s"
    and v: "kv_get (st_validators s) a = Some v" and st: "Status v = Bonded"
  obtains w v' where
    "bondedToUnbonding E ctx s v = Inr (s\<lparr>st_validators := kv_set a v' (st_validators s),
       st_valQueue := enqueue (st_valQueue s) (UnbondingCompletionTime v') a, st_world := w\<rparr>, v')"
    "set_inv E (s\<lparr>st_validators := kv_set a v' (st_validators s),
       st_valQueue := enqueue (st_valQueue s) (UnbondingCompletionTime v') a,
       st_world := w, st_lastPower := kv_del a (st_lastPower s)\<rparr>)"
    "v' = v\<lparr>Status := Unbonding, UnbondingCompletionTime := BlockTime ctx + pUnbondingTime (GetParams E ctx s),
            UnbondingHeight := BlockHeight ctx\<rparr>"
proof -
  let ?v = "v\<lparr>Status := Unbonding, UnbondingCompletionTime := BlockTime ctx + pUnbondingTime (GetParams E ctx s),
              UnbondingHeight := BlockHeight ctx\<rparr>"
  let ?q = "enqueue (st_valQueue s) (UnbondingCompletionTime ?v) a"
  let ?s = "s\<lparr>st_validators := kv_set a ?v (st_validators s), st_powerIndex := reindex (arith E) v ?v (st_powerIndex s),
              st_valQueue := ?q\<rparr>"
  have own: "OperatorAddress v = a" by (rule set_inv_operator [OF inv v])
  from hook_world [OF env] obtain w where
    hook: "runHook E (HookValidatorBeginUnbonding (ConsAddress (codec E) ?v) a) ?s = Inr (?s\<lparr>st_world := w\<rparr>)"
    and w: "same_pools E (st_world s) w" by fastforce
  have val: "validators_inv E (s\<lparr>st_abandoned := []\<rparr>)" by (rule set_inv_validators [OF inv])
  have q: "queue_rel (kv_set a ?v (st_validators s)) ?q"
    using val st by (intro queue_rel_enqueue [OF _ v]) (simp_all add: validators_inv_def)
  have lp: "last_rel (kv_set a ?v (st_validators s)) (kv_del a (st_lastPower s))"
    using val by (auto simp: validators_inv_def last_rel_def)
  note status = set_inv_status [OF inv v, of ?v, OF _ _ _ _ _ _ q lp w]
  have "bondedToUnbonding E ctx s v = Inr (?s\<lparr>st_world := w\<rparr>, ?v)"
    using hook own st
    by (simp add: bondedToUnbonding_def beginUnbondingValidator_def IsBonded_def UpdateStatus_def
        InsertValidatorQueue_effect AfterValidatorBeginUnbonding_def reindexed_effect Let_def)
  moreover have "reindex (arith E) v ?v (st_powerIndex s) = st_powerIndex s" using status(2) by simp
  ultimately show ?thesis using status(1) by (intro that [of w ?v]) simp_all
qed

subsection \<open>Election\<close>

text \<open>The specification of the election: the validators of the power index from the highest key
  down to the first without power, those with enough self delegation, the first \<open>n\<close> of
  them.\<close>

definition powerOf :: "sdk_dec \<Rightarrow> val_store \<Rightarrow> val_address \<Rightarrow> int" where
  "powerOf A vals a = (case kv_get vals a of None \<Rightarrow> 0 | Some v \<Rightarrow> PotentialConsensusPowerByShares A v)"

definition enoughSelf :: "sdk_dec \<Rightarrow> val_store \<Rightarrow> val_address \<Rightarrow> bool" where
  "enoughSelf A vals a =
     (case kv_get vals a of None \<Rightarrow> False | Some v \<Rightarrow> minSelfDelegationToBond A \<le> MinSelfDelegation v)"

definition elected :: "sdk_dec \<Rightarrow> val_store \<Rightarrow> nat \<Rightarrow> val_address list \<Rightarrow> val_address list" where
  "elected A vals n as = take n (filter (enoughSelf A vals) (takeWhile (\<lambda>a. powerOf A vals a \<noteq> 0) as))"

text \<open>Two validator stores that differ in the bond status only.\<close>

definition same_but_status :: "val_store \<Rightarrow> val_store \<Rightarrow> bool" where
  "same_but_status vals vals' \<longleftrightarrow>
     (\<forall>a. map_option (\<lambda>v. v\<lparr>Status := Unbonded\<rparr>) (kv_get vals' a) = map_option (\<lambda>v. v\<lparr>Status := Unbonded\<rparr>) (kv_get vals a))"

lemma status_only_cong:
  assumes "v'\<lparr>Status := Unbonded\<rparr> = v\<lparr>Status := Unbonded\<rparr>"
  shows "PotentialConsensusPowerByShares A v' = PotentialConsensusPowerByShares A v"
    "MinSelfDelegation v' = MinSelfDelegation v"
  using assms by (cases v; cases v'; simp add: PotentialConsensusPowerByShares_def)+

lemma elected_cong:
  assumes "same_but_status vals vals'"
  shows "powerOf A vals' = powerOf A vals" "enoughSelf A vals' = enoughSelf A vals"
    "elected A vals' = elected A vals"
proof -
  have eq: "powerOf A vals' a = powerOf A vals a \<and> enoughSelf A vals' a = enoughSelf A vals a" for a
  proof (cases "kv_get vals a")
    case None
    with assms have "kv_get vals' a = None" by (metis same_but_status_def map_option_is_None)
    with None show ?thesis by (simp add: powerOf_def enoughSelf_def)
  next
    case (Some v)
    with assms obtain v' where v': "kv_get vals' a = Some v'" and "v'\<lparr>Status := Unbonded\<rparr> = v\<lparr>Status := Unbonded\<rparr>"
      unfolding same_but_status_def by (metis (no_types, lifting) map_option_eq_Some option.simps(9))
    from status_only_cong [OF this(2)] Some v' show ?thesis by (simp add: powerOf_def enoughSelf_def)
  qed
  then show same: "powerOf A vals' = powerOf A vals" "enoughSelf A vals' = enoughSelf A vals" by auto
  show "elected A vals' = elected A vals" by (intro ext) (simp add: elected_def same)
qed

lemma elected_Cons:
  "elected A vals n [] = []"
  "elected A vals 0 (a # as) = []"
  "elected A vals (Suc n) (a # as) =
     (if powerOf A vals a = 0 then []
      else if enoughSelf A vals a then a # elected A vals n as else elected A vals (Suc n) as)"
  by (simp_all add: elected_def)

text \<open>The state of the loop: the copy of the last validator set is part of the stored one.\<close>

definition election_inv :: "'w staking_env \<Rightarrow> 'w election \<Rightarrow> bool" where
  "election_inv E el \<longleftrightarrow>
     set_inv E (elState el) \<and>
     (\<forall>a p. kv_get (elLast el) a = Some p \<longrightarrow> kv_get (st_lastPower (elState el)) a = Some p)"

text \<open>What the election of the validators \<open>as\<close> changes.\<close>

definition elects :: "sdk_dec \<Rightarrow> val_address list \<Rightarrow> 'w election \<Rightarrow> 'w election \<Rightarrow> bool" where
  "elects A as el el' \<longleftrightarrow>
     st_powerIndex (elState el') = st_powerIndex (elState el) \<and>
     st_params (elState el') = st_params (elState el) \<and>
     same_but_status (st_validators (elState el)) (st_validators (elState el')) \<and>
     (\<forall>a. kv_get (st_lastPower (elState el')) a =
        (if a \<in> set as then Some (powerOf A (st_validators (elState el)) a) else kv_get (st_lastPower (elState el)) a)) \<and>
     (\<forall>a. kv_get (elLast el') a = (if a \<in> set as then None else kv_get (elLast el) a)) \<and>
     elPower el' = elPower el + (\<Sum>a\<leftarrow>as. powerOf A (st_validators (elState el)) a)"

lemma elects_Nil: "elects A [] el el"
  by (simp add: elects_def same_but_status_def)

lemma elects_append:
  assumes "elects A as el el'" and "elects A bs el' el''"
  shows "elects A (as @ bs) el el''"
proof -
  have same: "same_but_status (st_validators (elState el)) (st_validators (elState el'))"
    using assms(1) by (simp add: elects_def)
  with assms elected_cong(1) [OF same, of A] show ?thesis
    by (auto simp: elects_def same_but_status_def)
qed

lemma same_but_status_set:
  "kv_get vals a = Some v \<Longrightarrow> same_but_status vals (kv_set a (v\<lparr>Status := x\<rparr>) vals)"
  by (simp add: same_but_status_def)

lemma electValidator_total:
  assumes env: "hooks_frame E" "hooks_total E" and inv: "election_inv E el"
    and v: "kv_get (st_validators (elState el)) a = Some v"
  shows "\<exists>el'. electValidator E a v el = Inr el' \<and> election_inv E el' \<and> elects (arith E) [a] el el'"
proof (cases "Status v = Bonded")
  case True
  let ?p = "PotentialConsensusPowerByShares (arith E) v" and ?s = "elState el"
  have set: "set_inv E ?s" using inv by (simp add: election_inv_def)
  let ?el = "\<lparr>elState = (if kv_get (elLast el) a \<noteq> Some ?p then SetLastValidatorPower ?s a ?p else ?s),
    elLast = kv_del a (elLast el),
    elUpdates = (if kv_get (elLast el) a \<noteq> Some ?p then elUpdates el @ [ABCIValidatorUpdateByShares (arith E) v]
                 else elUpdates el),
    elPower = elPower el + ?p\<rparr>"
  have run: "electValidator E a v el = Inr ?el"
    using True by (simp add: electValidator_def ConsensusPowerByShares_def IsBonded_def Let_def)
  have "kv_get (elLast el) a = Some ?p \<Longrightarrow> kv_set a ?p (st_lastPower ?s) = st_lastPower ?s"
    using inv by (intro kv_set_same) (simp add: election_inv_def)
  then have st: "elState ?el = ?s\<lparr>st_lastPower := kv_set a ?p (st_lastPower ?s)\<rparr>"
    by (simp add: SetLastValidatorPower_def)
  have "last_rel (st_validators ?s) (kv_set a ?p (st_lastPower ?s))"
    using set_inv_bonded [OF set] v True by (auto simp: last_rel_def)
  then have "set_inv E (?s\<lparr>st_lastPower := kv_set a ?p (st_lastPower ?s)\<rparr>)"
    using set by (simp add: set_inv_def staking_inv_def inv_at_def records_inv_def validators_inv_def
        bondedSum_def notBondedSum_def)
  then have "election_inv E ?el"
    using inv by (auto simp: election_inv_def st simp del: election.select_convs(1))
  moreover have "elects (arith E) [a] el ?el"
    using v by (simp add: elects_def st same_but_status_def powerOf_def del: election.select_convs(1))
  ultimately show ?thesis using run by blast
next
  case False
  let ?p = "PotentialConsensusPowerByShares (arith E) v" and ?s = "elState el" and ?v = "v\<lparr>Status := Bonded\<rparr>"
  have set: "set_inv E ?s" using inv by (simp add: election_inv_def)
  from bondValidator_total [OF env set v False] obtain w where
    bond: "bondValidator E ?s v = Inr (?s\<lparr>st_validators := kv_set a ?v (st_validators ?s),
       st_valQueue := unqueue (st_valQueue ?s) (UnbondingCompletionTime v) a, st_world := w\<rparr>, ?v)"
    and ok: "set_inv E (?s\<lparr>st_validators := kv_set a ?v (st_validators ?s),
       st_valQueue := unqueue (st_valQueue ?s) (UnbondingCompletionTime v) a,
       st_world := w, st_lastPower := kv_set a ?p (st_lastPower ?s)\<rparr>)" by blast
  have none: "kv_get (elLast el) a = None"
  proof (rule ccontr)
    assume "kv_get (elLast el) a \<noteq> None"
    then have "kv_get (st_lastPower ?s) a \<noteq> None" using inv by (auto simp: election_inv_def)
    with set_inv_bonded [OF set] v False show False by simp
  qed
  let ?el = "\<lparr>elState = SetLastValidatorPower (?s\<lparr>st_validators := kv_set a ?v (st_validators ?s),
       st_valQueue := unqueue (st_valQueue ?s) (UnbondingCompletionTime v) a, st_world := w\<rparr>) a ?p,
    elLast = kv_del a (elLast el),
    elUpdates = elUpdates el @ [ABCIValidatorUpdateByShares (arith E) ?v],
    elPower = elPower el + ?p\<rparr>"
  have "electValidator E a v el = Inr ?el"
    using False bond none
    by (cases "Status v") (simp_all add: electValidator_def unbondedToBonded_def unbondingToBonded_def
        IsUnbonded_def IsUnbonding_def IsBonded_def ConsensusPowerByShares_def PotentialConsensusPowerByShares_def Let_def)
  moreover have "election_inv E ?el"
    using inv ok by (auto simp: election_inv_def SetLastValidatorPower_def)
  moreover have "elects (arith E) [a] el ?el"
    using v same_but_status_set [OF v] by (simp add: elects_def SetLastValidatorPower_def powerOf_def)
  ultimately show ?thesis by blast
qed

text \<open>The loop never panics and elects what the specification says.\<close>

lemma electLoop_elects:
  "hooks_frame E \<Longrightarrow> hooks_total E \<Longrightarrow> election_inv E el \<Longrightarrow> set es \<subseteq> set (kv_list (st_powerIndex (elState el))) \<Longrightarrow>
    \<exists>el'. electLoop E n es el = Inr el' \<and> election_inv E el' \<and>
      elects (arith E) (elected (arith E) (st_validators (elState el)) n (map snd es)) el el'"
proof (induction E n es el rule: electLoop.induct)
  case (3 E n k a es el)
  have set: "set_inv E (elState el)" using "3.prems" by (simp add: election_inv_def)
  have "(k, a) \<in> set (kv_list (st_powerIndex (elState el)))" using "3.prems" by simp
  then obtain v where v: "kv_get (st_validators (elState el)) a = Some v" "\<not> Jailed v"
    using set_inv_validators [OF set]
    by (auto simp: kv_in_list validators_inv_def index_rel_def inverse_rel_def)
  have must: "mustGetValidator (elState el) a = Inr v" using v by (simp add: mustGetValidator_def GetValidator_def)
  have pw: "powerOf (arith E) (st_validators (elState el)) a = PotentialConsensusPowerByShares (arith E) v"
    and self: "enoughSelf (arith E) (st_validators (elState el)) a \<longleftrightarrow>
      minSelfDelegationToBond (arith E) \<le> MinSelfDelegation v"
    using v by (simp_all add: powerOf_def enoughSelf_def)
  show ?case
  proof (cases "PotentialConsensusPowerByShares (arith E) v = 0 \<or> MinSelfDelegation v < minSelfDelegationToBond (arith E)")
    case True
    with "3.prems" "3.IH"(1) [OF must] v must pw self show ?thesis
      by (auto simp: elected_Cons elects_Nil)
  next
    case False
    from electValidator_total [OF "3.prems"(1-3) v(1)] obtain el1 where
      run: "electValidator E a v el = Inr el1" and inv1: "election_inv E el1"
      and el1: "elects (arith E) [a] el el1" by blast
    have same: "same_but_status (st_validators (elState el)) (st_validators (elState el1))"
      and idx: "st_powerIndex (elState el1) = st_powerIndex (elState el)"
      using el1 by (simp_all add: elects_def)
    have "set es \<subseteq> set (kv_list (st_powerIndex (elState el1)))" using "3.prems"(4) idx by simp
    from "3.IH"(2) [OF must v(2) _ _ _ "3.prems"(1,2) inv1 this] run False obtain el' where
      rest: "electLoop E n es el1 = Inr el'" "election_inv E el'"
      and tail: "elects (arith E) (elected (arith E) (st_validators (elState el)) n (map snd es)) el1 el'"
      by (auto simp: elected_cong(3) [OF same])
    from elects_append [OF el1 tail] rest run must v False pw self show ?thesis
      by (auto simp: elected_Cons)
  qed
qed (simp_all add: elected_Cons elects_Nil)

text \<open>The validators that are left in the copy begin to unbond.\<close>

lemma dismissValidator_total:
  assumes env: "hooks_frame E" "hooks_total E" and inv: "set_inv E s"
    and a: "kv_get (st_lastPower s) a \<noteq> None"
  shows "\<exists>s' u. dismissValidator E ctx (s, us) a = Inr (s', u) \<and> u \<noteq> [] \<and> set_inv E s' \<and>
    st_lastPower s' = kv_del a (st_lastPower s)"
proof -
  from a set_inv_bonded [OF inv] obtain v where v: "kv_get (st_validators s) a = Some v" and st: "Status v = Bonded"
    by blast
  from bondedToUnbonding_total [OF env inv v st, of ctx] obtain w v' where
    run: "bondedToUnbonding E ctx s v = Inr (s\<lparr>st_validators := kv_set a v' (st_validators s),
       st_valQueue := enqueue (st_valQueue s) (UnbondingCompletionTime v') a, st_world := w\<rparr>, v')"
    and ok: "set_inv E (s\<lparr>st_validators := kv_set a v' (st_validators s),
       st_valQueue := enqueue (st_valQueue s) (UnbondingCompletionTime v') a,
       st_world := w, st_lastPower := kv_del a (st_lastPower s)\<rparr>)"
    and v': "v' = v\<lparr>Status := Unbonding, UnbondingCompletionTime := BlockTime ctx + pUnbondingTime (GetParams E ctx s),
            UnbondingHeight := BlockHeight ctx\<rparr>" .
  have "OperatorAddress v' = a" using set_inv_operator [OF inv v] by (simp add: v')
  with run v ok show ?thesis
    by (simp add: dismissValidator_def mustGetValidator_def GetValidator_def DeleteLastValidatorPower_def)
qed

lemma dismiss_all:
  assumes "hooks_frame E" "hooks_total E" and "set_inv E s" and "distinct as"
    and "\<forall>a \<in> set as. kv_get (st_lastPower s) a \<noteq> None"
  shows "\<exists>s' u. foldE (dismissValidator E ctx) (s, us) as = Inr (s', u) \<and> (as \<noteq> [] \<longrightarrow> u \<noteq> []) \<and> (us \<noteq> [] \<longrightarrow> u \<noteq> []) \<and>
    set_inv E s' \<and> (\<forall>a. kv_get (st_lastPower s') a = (if a \<in> set as then None else kv_get (st_lastPower s) a))"
  using assms
proof (induction as arbitrary: s us)
  case Nil
  then show ?case by simp
next
  case (Cons a as)
  have a: "kv_get (st_lastPower s) a \<noteq> None" using Cons.prems(5) by simp
  from dismissValidator_total [OF Cons.prems(1-3) a] obtain t u where
    t: "dismissValidator E ctx (s, us) a = Inr (t, u)" "u \<noteq> []" "set_inv E t"
    and lp: "st_lastPower t = kv_del a (st_lastPower s)" by blast
  have "\<forall>b \<in> set as. kv_get (st_lastPower t) b \<noteq> None" using Cons.prems(4,5) lp by auto
  with Cons.IH [OF Cons.prems(1,2) t(3), of u] Cons.prems(4) t lp show ?case by auto
qed

text \<open>The election at the end of an epoch: it does not panic, it keeps the invariant, and
  afterwards the last validator set (and with it the set of bonded validators) is the elected
  one, with its powers.\<close>

lemma ApplyAndReturnValidatorSetUpdates_elects:
  assumes env: "hooks_frame E" "hooks_total E" and inv: "set_inv E s"
  defines "new \<equiv> elected (arith E) (st_validators s) (pMaxValidators (st_params s))
                   (map snd (ValidatorsPowerStoreIterator s))"
  shows "\<exists>s' u. ApplyAndReturnValidatorSetUpdates E ctx s = Inr (s', u) \<and> set_inv E s' \<and>
    (\<forall>a. kv_get (st_lastPower s') a =
       (if a \<in> set new then Some (powerOf (arith E) (st_validators s) a) else None))"
proof -
  let ?el0 = "\<lparr>elState = s, elLast = st_lastPower s, elUpdates = [], elPower = 0\<rparr>"
  have n: "pMaxValidators (GetParams E ctx s) = pMaxValidators (st_params s)"
    by (simp add: GetParams_def NewParams_def Let_def)
  have e0: "election_inv E ?el0" using inv by (simp add: election_inv_def)
  have sub: "set (ValidatorsPowerStoreIterator s) \<subseteq> set (kv_list (st_powerIndex (elState ?el0)))"
    by (simp add: ValidatorsPowerStoreIterator_def)
  from electLoop_elects [OF env e0 sub, of "pMaxValidators (st_params s)"] obtain el where
    el: "electLoop E (pMaxValidators (st_params s)) (ValidatorsPowerStoreIterator s) ?el0 = Inr el"
    and eli: "election_inv E el" and els: "elects (arith E) new ?el0 el"
    by (auto simp: new_def)
  have last: "kv_get (elLast el) a = (if a \<in> set new then None else kv_get (st_lastPower s) a)" for a
    using els by (simp add: elects_def)
  have lp: "kv_get (st_lastPower (elState el)) a =
      (if a \<in> set new then Some (powerOf (arith E) (st_validators s) a) else kv_get (st_lastPower s) a)" for a
    using els by (simp add: elects_def)
  let ?as = "sortNoLongerBonded (elLast el)"
  have set_as: "a \<in> set ?as \<longleftrightarrow> kv_get (elLast el) a \<noteq> None" for a
    using kv_in_list [of a _ "elLast el"] by (force simp: sortNoLongerBonded_def)
  have "distinct ?as" using kv_keys_distinct [of "elLast el"] by (simp add: sortNoLongerBonded_def)
  moreover have "\<forall>a \<in> set ?as. kv_get (st_lastPower (elState el)) a \<noteq> None"
    using set_as eli by (auto simp: election_inv_def)
  moreover have "set_inv E (elState el)" using eli by (simp add: election_inv_def)
  ultimately obtain s' u where
    dis: "foldE (dismissValidator E ctx) (elState el, elUpdates el) ?as = Inr (s', u)" and s': "set_inv E s'"
    and lp': "\<And>a. kv_get (st_lastPower s') a = (if a \<in> set ?as then None else kv_get (st_lastPower (elState el)) a)"
    using dismiss_all [OF env] by meson
  let ?s = "if u \<noteq> [] then SetLastTotalPower s' (elPower el) else s'"
  have "ApplyAndReturnValidatorSetUpdates E ctx s = Inr (?s, u)"
    using el dis n by (simp add: ApplyAndReturnValidatorSetUpdates_def getLastValidatorsByAddr_def Let_def)
  moreover have "set_inv E ?s"
    using s' by (simp add: SetLastTotalPower_def set_inv_def staking_inv_def inv_at_def records_inv_def
        validators_inv_def bondedSum_def notBondedSum_def)
  moreover have "kv_get (st_lastPower ?s) a =
      (if a \<in> set new then Some (powerOf (arith E) (st_validators s) a) else None)" for a
    using lp' lp last set_as by (simp add: SetLastTotalPower_def)
  ultimately show ?thesis by blast
qed

subsection \<open>Replacing abandoned validators\<close>

lemma index_entry:
  assumes "set_inv E s" and "(k, a) \<in> set (kv_list (st_powerIndex s))"
  obtains v where "kv_get (st_validators s) a = Some v" "\<not> Jailed v" "k = GetValidatorsByPowerIndexKey (arith E) v"
  using assms(2) set_inv_validators [OF assms(1)]
  by (auto simp: kv_in_list validators_inv_def index_rel_def inverse_rel_def)

lemma iterator_distinct:
  assumes "set_inv E s"
  shows "distinct (map snd (ValidatorsPowerStoreIterator s))"
proof -
  have "inj_on snd (set (kv_list (st_powerIndex s)))"
  proof (rule inj_onI, clarsimp)
    fix k k' a
    assume "(k, a) \<in> set (kv_list (st_powerIndex s))" "(k', a) \<in> set (kv_list (st_powerIndex s))"
    then show "k = k'" by (elim index_entry [OF assms]) simp
  qed
  moreover have "distinct (kv_list (st_powerIndex s))"
    using kv_keys_distinct [of "st_powerIndex s"] by (simp add: distinct_map)
  ultimately show ?thesis by (simp add: ValidatorsPowerStoreIterator_def distinct_map rev_map [symmetric])
qed

text \<open>The last validator set is not changed on the members of \<open>lastBonded\<close> and on those
  outside the remaining index.\<close>

definition untouched :: "val_address set \<Rightarrow> 'w staking_state \<Rightarrow> 'w staking_state \<Rightarrow> bool" where
  "untouched S s s' \<longleftrightarrow>
     st_powerIndex s' = st_powerIndex s \<and>
     (\<forall>a. a \<notin> S \<longrightarrow> kv_get (st_validators s') a = kv_get (st_validators s) a \<and>
        kv_get (st_lastPower s') a = kv_get (st_lastPower s) a)"

lemma promoteCandidate_total:
  assumes env: "hooks_frame E" "hooks_total E" and inv: "set_inv E (koState ko)"
    and v: "kv_get (st_validators (koState ko)) a = Some v"
    and lp: "kv_get (st_lastPower (koState ko)) a = None"
  shows "\<exists>ko'. promoteCandidate E a v ko = Inr ko' \<and> set_inv E (koState ko') \<and>
    untouched {a} (koState ko) (koState ko')"
proof -
  let ?s = "koState ko"
  have st: "Status v \<noteq> Bonded" using set_inv_bonded [OF inv, of a] v lp by auto
  from bondValidator_total [OF env inv v st] obtain w where
    bond: "bondValidator E ?s v = Inr (?s\<lparr>st_validators := kv_set a (v\<lparr>Status := Bonded\<rparr>) (st_validators ?s),
       st_valQueue := unqueue (st_valQueue ?s) (UnbondingCompletionTime v) a, st_world := w\<rparr>, v\<lparr>Status := Bonded\<rparr>)"
    and ok: "\<And>p. set_inv E (?s\<lparr>st_validators := kv_set a (v\<lparr>Status := Bonded\<rparr>) (st_validators ?s),
       st_valQueue := unqueue (st_valQueue ?s) (UnbondingCompletionTime v) a,
       st_world := w, st_lastPower := kv_set a p (st_lastPower ?s)\<rparr>)" by blast
  show ?thesis
    using st bond ok
    by (cases "Status v") (simp_all add: promoteCandidate_def unbondedToBonded_def unbondingToBonded_def
        IsUnbonded_def IsUnbonding_def SetLastValidatorPower_def untouched_def Let_def)
qed

lemma untouched_trans: "untouched A s t \<Longrightarrow> untouched B t u \<Longrightarrow> untouched (A \<union> B) s u"
  by (simp add: untouched_def)

lemma untouched_mono: "untouched A s t \<Longrightarrow> A \<subseteq> B \<Longrightarrow> untouched B s t"
  by (auto simp: untouched_def)

lemma promoteLoop_total:
  "hooks_frame E \<Longrightarrow> hooks_total E \<Longrightarrow> set_inv E (koState ko) \<Longrightarrow>
   set es \<subseteq> set (kv_list (st_powerIndex (koState ko))) \<Longrightarrow> distinct (map snd es) \<Longrightarrow>
   \<forall>a \<in> snd ` set es. kv_get lb a = None \<longrightarrow> kv_get (st_lastPower (koState ko)) a = None \<Longrightarrow>
   \<exists>ko'. promoteLoop E lb n es ko = Inr ko' \<and> set_inv E (koState ko') \<and>
     untouched {a \<in> snd ` set es. kv_get lb a = None} (koState ko) (koState ko')"
proof (induction E lb n es ko rule: promoteLoop.induct)
  case (3 E lb n k a es ko)
  have "(k, a) \<in> set (kv_list (st_powerIndex (koState ko)))" using "3.prems"(4) by simp
  then obtain v where v: "kv_get (st_validators (koState ko)) a = Some v"
    by (rule index_entry [OF "3.prems"(3)])
  have must: "mustGetValidator (koState ko) a = Inr v" using v by (simp add: mustGetValidator_def GetValidator_def)
  have sub: "{b \<in> snd ` set es. kv_get lb b = None} \<subseteq> {b \<in> snd ` set ((k, a) # es). kv_get lb b = None}" by auto
  consider (skip) "kv_get lb a \<noteq> None" | (pass) "kv_get lb a = None"
      "PotentialConsensusPowerByShares (arith E) v = 0 \<or> MinSelfDelegation v < minSelfDelegationToBond (arith E)"
    | (promote) "kv_get lb a = None" "PotentialConsensusPowerByShares (arith E) v \<noteq> 0"
      "\<not> MinSelfDelegation v < minSelfDelegationToBond (arith E)" by blast
  then show ?case
  proof cases
    case skip
    from "3.IH"(1) [OF skip "3.prems"(1-3)] "3.prems"(4-6) obtain ko' where
      "promoteLoop E lb (Suc n) es ko = Inr ko'" "set_inv E (koState ko')"
      "untouched {b \<in> snd ` set es. kv_get lb b = None} (koState ko) (koState ko')" by auto
    with skip untouched_mono [OF _ sub] show ?thesis by auto
  next
    case pass
    have "\<exists>ko'. promoteLoop E lb (Suc n) es ko = Inr ko' \<and> set_inv E (koState ko') \<and>
      untouched {b \<in> snd ` set es. kv_get lb b = None} (koState ko) (koState ko')"
      using pass(2) "3.IH"(2) [OF _ must _ "3.prems"(1-3)] "3.IH"(3) [OF _ must _ _ "3.prems"(1-3)]
        pass(1) "3.prems"(4-6) by auto
    with pass must untouched_mono [OF _ sub] show ?thesis by auto
  next
    case promote
    have "kv_get (st_lastPower (koState ko)) a = None" using promote(1) "3.prems"(6) by simp
    from promoteCandidate_total [OF "3.prems"(1-3) v this] obtain ko1 where
      run: "promoteCandidate E a v ko = Inr ko1" and inv1: "set_inv E (koState ko1)"
      and un1: "untouched {a} (koState ko) (koState ko1)" by blast
    have "set es \<subseteq> set (kv_list (st_powerIndex (koState ko1)))"
      using un1 "3.prems"(4) by (simp add: untouched_def)
    moreover have "\<forall>b \<in> snd ` set es. kv_get lb b = None \<longrightarrow> kv_get (st_lastPower (koState ko1)) b = None"
    proof
      fix b assume b: "b \<in> snd ` set es"
      then have "b \<noteq> a" using "3.prems"(5) by auto
      with b un1 "3.prems"(6) show "kv_get lb b = None \<longrightarrow> kv_get (st_lastPower (koState ko1)) b = None"
        unfolding untouched_def by auto
    qed
    ultimately obtain ko' where
      rest: "promoteLoop E lb n es ko1 = Inr ko'" "set_inv E (koState ko')"
      and un: "untouched {b \<in> snd ` set es. kv_get lb b = None} (koState ko1) (koState ko')"
      using "3.IH"(4) [OF _ must _ _ run "3.prems"(1,2) inv1] promote "3.prems"(5) by auto
    have "untouched {b \<in> snd ` set ((k, a) # es). kv_get lb b = None} (koState ko) (koState ko')"
      using promote(1) by (intro untouched_mono [OF untouched_trans [OF un1 un]]) auto
    with promote must run rest show ?thesis by auto
  qed
qed (simp_all add: untouched_def)

lemma dischargeAbandoned_total:
  assumes env: "hooks_frame E" "hooks_total E" and inv: "set_inv E (koState ko)"
    and v: "kv_get (st_validators (koState ko)) a = Some v"
    and lb: "Status v = Bonded \<Longrightarrow> kv_get lb a \<noteq> None"
  shows "\<exists>ko' v'. dischargeAbandoned E ctx lb ko a = Inr ko' \<and> set_inv E (koState ko') \<and>
    kv_get (st_validators (koState ko')) a = Some v' \<and> Status v' \<noteq> Bonded \<and>
    (\<forall>b. b \<noteq> a \<longrightarrow> kv_get (st_validators (koState ko')) b = kv_get (st_validators (koState ko)) b)"
proof (cases "Status v = Bonded")
  case False
  with v inv show ?thesis
    by (simp add: dischargeAbandoned_def mustGetValidator_def GetValidator_def IsBonded_def)
next
  case True
  let ?s = "koState ko"
  from lb True obtain p where p: "kv_get lb a = Some p" by blast
  from bondedToUnbonding_total [OF env inv v True, of ctx] obtain w v' where
    run: "bondedToUnbonding E ctx ?s v = Inr (?s\<lparr>st_validators := kv_set a v' (st_validators ?s),
       st_valQueue := enqueue (st_valQueue ?s) (UnbondingCompletionTime v') a, st_world := w\<rparr>, v')"
    and ok: "set_inv E (?s\<lparr>st_validators := kv_set a v' (st_validators ?s),
       st_valQueue := enqueue (st_valQueue ?s) (UnbondingCompletionTime v') a,
       st_world := w, st_lastPower := kv_del a (st_lastPower ?s)\<rparr>)"
    and v': "v' = v\<lparr>Status := Unbonding, UnbondingCompletionTime := BlockTime ctx + pUnbondingTime (GetParams E ctx ?s),
            UnbondingHeight := BlockHeight ctx\<rparr>" .
  have st: "Status v' \<noteq> Bonded" by (simp add: v')
  show ?thesis
    using run ok v True p st set_inv_operator [OF inv v]
    by (simp add: dischargeAbandoned_def mustGetValidator_def GetValidator_def IsBonded_def
        DeleteLastValidatorPower_def)
qed

lemma discharge_all:
  assumes "hooks_frame E" "hooks_total E" and "set_inv E (koState ko)"
    and "\<forall>a \<in> set as. \<exists>v. kv_get (st_validators (koState ko)) a = Some v \<and> (Status v = Bonded \<longrightarrow> kv_get lb a \<noteq> None)"
  shows "\<exists>ko'. foldE (dischargeAbandoned E ctx lb) ko as = Inr ko' \<and> set_inv E (koState ko')"
  using assms
proof (induction as arbitrary: ko)
  case Nil
  then show ?case by simp
next
  case (Cons a as)
  from Cons.prems(4) obtain v where v: "kv_get (st_validators (koState ko)) a = Some v"
    and lb: "Status v = Bonded \<Longrightarrow> kv_get lb a \<noteq> None" by auto
  from dischargeAbandoned_total [OF Cons.prems(1-3) v lb, of ctx] obtain ko1 v1 where
    run: "dischargeAbandoned E ctx lb ko a = Inr ko1" and inv1: "set_inv E (koState ko1)"
    and v1: "kv_get (st_validators (koState ko1)) a = Some v1" "Status v1 \<noteq> Bonded"
    and others: "\<And>b. b \<noteq> a \<Longrightarrow> kv_get (st_validators (koState ko1)) b = kv_get (st_validators (koState ko)) b" by blast
  have "\<forall>b \<in> set as. \<exists>v. kv_get (st_validators (koState ko1)) b = Some v \<and> (Status v = Bonded \<longrightarrow> kv_get lb b \<noteq> None)"
  proof
    fix b assume "b \<in> set as"
    with v1 others Cons.prems(4) show "\<exists>v. kv_get (st_validators (koState ko1)) b = Some v \<and>
        (Status v = Bonded \<longrightarrow> kv_get lb b \<noteq> None)"
      by (cases "b = a") auto
  qed
  with Cons.IH [OF Cons.prems(1,2) inv1] run show ?case by simp
qed

lemma KickOutAndReturnValidatorSetUpdates_total:
  assumes env: "hooks_frame E" "hooks_total E" and inv: "staking_inv E s"
  shows "\<exists>s' u. KickOutAndReturnValidatorSetUpdates E ctx s = Inr (s', u) \<and> set_inv E s'"
proof -
  let ?lb = "st_lastPower s" and ?es = "ValidatorsPowerStoreIterator s"
  let ?ko = "\<lparr>koState = s, koUpdates = [], koPower = GetLastTotalPower s\<rparr>"
  have set: "set_inv E (koState ?ko)" using staking_inv_set_inv [OF inv] by simp
  have sub: "set ?es \<subseteq> set (kv_list (st_powerIndex (koState ?ko)))" by (simp add: ValidatorsPowerStoreIterator_def)
  have "\<forall>a \<in> snd ` set ?es. kv_get ?lb a = None \<longrightarrow> kv_get (st_lastPower (koState ?ko)) a = None" by simp
  from promoteLoop_total [OF env set sub _ this] iterator_distinct [of E s] set obtain ko1 where
    ko1: "promoteLoop E ?lb (length (st_abandoned s)) ?es ?ko = Inr ko1" and inv1: "set_inv E (koState ko1)"
    and un: "untouched {a \<in> snd ` set ?es. kv_get ?lb a = None} s (koState ko1)" by auto
  have "\<forall>a \<in> set (st_abandoned s). \<exists>v. kv_get (st_validators (koState ko1)) a = Some v \<and>
      (Status v = Bonded \<longrightarrow> kv_get ?lb a \<noteq> None)"
  proof
    fix a assume "a \<in> set (st_abandoned s)"
    then obtain v where v: "kv_get (st_validators s) a = Some v" and "abandonable v"
      using inv by (auto simp: staking_inv_def inv_at_def records_inv_def validators_inv_def aband_rel_def)
    then have bonded: "Status v = Bonded \<Longrightarrow> kv_get ?lb a \<noteq> None"
      using set_inv_bonded [OF set, of a] by simp
    have "a \<notin> {a \<in> snd ` set ?es. kv_get ?lb a = None}"
    proof
      assume a: "a \<in> {a \<in> snd ` set ?es. kv_get ?lb a = None}"
      then have jailed: "Jailed v" using \<open>abandonable v\<close> bonded by (auto simp: abandonable_def)
      from a sub obtain k where "(k, a) \<in> set (kv_list (st_powerIndex s))" by auto
      then show False using index_entry [of E s k a] set v jailed by auto
    qed
    then have "kv_get (st_validators (koState ko1)) a = Some v" using un v by (simp add: untouched_def)
    with bonded show "\<exists>v. kv_get (st_validators (koState ko1)) a = Some v \<and>
      (Status v = Bonded \<longrightarrow> kv_get ?lb a \<noteq> None)" by blast
  qed
  from discharge_all [OF env inv1 this] obtain ko2 where
    ko2: "foldE (dischargeAbandoned E ctx ?lb) ko1 (st_abandoned s) = Inr ko2" and inv2: "set_inv E (koState ko2)"
    by blast
  have "KickOutAndReturnValidatorSetUpdates E ctx s = Inr (SetLastTotalPower (koState ko2) (koPower ko2), koUpdates ko2)"
    using ko1 ko2
    by (simp add: KickOutAndReturnValidatorSetUpdates_def getLastValidatorsByAddr_def
        getAbandonedValidatorAddrs_def Let_def)
  moreover have "set_inv E (SetLastTotalPower (koState ko2) (koPower ko2))"
    using inv2 by (simp add: SetLastTotalPower_def set_inv_def staking_inv_def inv_at_def records_inv_def
        validators_inv_def bondedSum_def notBondedSum_def)
  ultimately show ?thesis by blast
qed

subsection \<open>Mature validators and undelegations\<close>

text \<open>While the validators of a time slice are unbonded, the slice in the store is that of the
  start; the invariant holds with the rest of the slice in its place.\<close>

definition slice_inv :: "'w staking_env \<Rightarrow> timestamp \<Rightarrow> val_address list \<Rightarrow> 'w staking_state \<Rightarrow> bool" where
  "slice_inv E t rest s \<longleftrightarrow>
     staking_inv E (s\<lparr>st_valQueue := kv_set t rest (st_valQueue s)\<rparr>) \<and> st_abandoned s = []"

lemma queue_rel_complete:
  assumes "queue_rel vals (kv_set t (a # rest) q)" and "kv_get vals a = Some v" and "Status v' = Unbonded"
  shows "queue_rel (kv_set a v' vals) (kv_set t rest q)"
proof -
  have at: "a \<in> set (queue_at (kv_set t (a # rest) q) t)" by simp
  then have ut: "UnbondingCompletionTime v = t"
    using assms(1,2) unfolding queue_rel_def by (metis option.inject)
  have "distinct (a # rest)" using assms(1) unfolding queue_rel_def by (metis queue_at_set)
  with queue_rel_unqueue [OF assms(1,2), of v'] assms(3) ut
  have "queue_rel (kv_set a v' vals) (unqueue (kv_set t (a # rest) q) t a)" by simp
  moreover have "filter (\<lambda>b. b \<noteq> a) rest = rest" using \<open>distinct (a # rest)\<close> by (auto simp: filter_id_conv)
  ultimately show ?thesis by (subst queue_rel_cong [of _ "unqueue (kv_set t (a # rest) q) t a"]) auto
qed

lemma unbondMatureValidator_total:
  assumes env: "hooks_frame E" "hooks_total E" and inv: "slice_inv E t (a # rest) s"
  shows "\<exists>s'. unbondMatureValidator E s a = Inr s' \<and> slice_inv E t rest s' \<and> st_valQueue s' = st_valQueue s"
proof -
  let ?q = "kv_set t (a # rest) (st_valQueue s)"
  let ?s = "s\<lparr>st_valQueue := ?q\<rparr>"
  have i: "inv_at E 0 0 ?s" and ab: "st_abandoned s = []"
    using inv by (simp_all add: slice_inv_def staking_inv_def)
  then have val: "validators_inv E ?s" by (simp add: inv_at_def records_inv_def)
  have "a \<in> set (queue_at ?q t)" by simp
  then obtain v where v: "kv_get (st_validators s) a = Some v" and st: "Status v = Unbonding"
    using val by (auto simp: validators_inv_def queue_rel_def simp del: queue_at_set)
  let ?v = "v\<lparr>Status := Unbonded\<rparr>" and ?r = "kv_set t rest (st_valQueue s)"
  have own: "OperatorAddress v = a" using validators_invD(1) [OF val] v by simp
  have v': "kv_get (st_validators ?s) a = Some v" using v by simp
  have "queue_rel (kv_set a ?v (st_validators ?s)) ?r"
    using val v by (intro queue_rel_complete) (simp_all add: validators_inv_def)
  moreover have "last_rel (kv_set a ?v (st_validators ?s)) (st_lastPower s)"
    using val st by (intro last_rel_same [OF _ v']) (simp_all add: validators_inv_def)
  moreover have "aband_rel (kv_set a ?v (st_validators ?s)) []" by (simp add: aband_rel_def)
  ultimately have "validators_inv E (?s\<lparr>st_validators := kv_set a ?v (st_validators ?s), st_valQueue := ?r,
      st_lastPower := st_lastPower s, st_abandoned := []\<rparr>)"
    by (intro validators_inv_status(1) [OF val v']) simp_all
  moreover have "link_rel (kv_set a ?v (st_validators s)) (st_delegators s) (st_shares s)"
    using i v by (auto simp: inv_at_def records_inv_def link_rel_def)
  ultimately have s1: "slice_inv E t rest (SetValidator s ?v)"
    using i v ab own
    by (simp add: slice_inv_def staking_inv_def inv_at_def records_inv_def validators_inv_def SetValidator_def
        bondedSum_def notBondedSum_def kv_sum_set)
  have run: "unbondMatureValidator E s a =
      (if DelegatorShares v = 0 \<and> MinSelfDelegation v = 0 then RemoveValidator E (SetValidator s ?v) a
       else Inr (SetValidator s ?v))"
    using v st own
    by (simp add: unbondMatureValidator_def GetValidator_def IsUnbonding_def unbondingToUnbonded_def
        completeUnbondingValidator_def UpdateStatus_def Let_def)
  show ?thesis
  proof (cases "DelegatorShares v = 0 \<and> MinSelfDelegation v = 0")
    case False
    with run s1 show ?thesis by (simp add: SetValidator_def)
  next
    case True
    let ?t = "SetValidator s ?v"
    have vt: "kv_get (st_validators ?t) a = Some ?v" by (simp add: SetValidator_def own)
    have tok: "vTokens v = 0" using validators_invD(4) [OF val] v by simp
    from hook_world [OF env] obtain w where
      rm: "RemoveValidator E ?t a = Inr (?t\<lparr>st_validators := kv_del a (st_validators ?t),
                 st_byConsAddr := kv_del (ConsAddress (codec E) ?v) (st_byConsAddr ?t),
                 st_powerIndex := kv_del (GetValidatorsByPowerIndexKey (arith E) ?v) (st_powerIndex ?t),
                 st_world := w\<rparr>)" and w: "same_pools E (st_world s) w"
      using vt tok
      by (fastforce simp: RemoveValidator_def GetValidator_def IsUnbonded_def AfterValidatorRemoved_def SetValidator_def)
    let ?u = "?t\<lparr>st_valQueue := kv_set t rest (st_valQueue ?t)\<rparr>"
    have iu: "inv_at E 0 0 ?u" using s1 by (simp add: slice_inv_def staking_inv_def)
    then have valu: "validators_inv E ?u" by (simp add: inv_at_def records_inv_def)
    have "kv_get (st_validators ?u) a = Some ?v" using vt by simp
    from validators_inv_remove [OF valu this, of "st_shares s" w] have
      "validators_inv E (?u\<lparr>st_shares := st_shares s, st_validators := kv_del a (st_validators ?u),
        st_byConsAddr := kv_del (ConsAddress (codec E) ?v) (st_byConsAddr ?u),
        st_powerIndex := kv_del (GetValidatorsByPowerIndexKey (arith E) ?v) (st_powerIndex ?u), st_world := w\<rparr>)"
      by (simp add: IsUnbonded_def SetValidator_def)
    moreover have "link_rel (kv_del a (st_validators ?t)) (st_delegators s) (st_shares s)"
      using iu by (auto simp: inv_at_def records_inv_def link_rel_def SetValidator_def split: if_splits)
    ultimately show ?thesis
      using run rm iu ab w True vt
      by (simp add: slice_inv_def staking_inv_def inv_at_def records_inv_def validators_inv_def SetValidator_def
          bondedSum_def notBondedSum_def kv_sum_del same_pools_def)
  qed
qed

lemma unbond_slice_total:
  assumes "hooks_frame E" "hooks_total E" and "slice_inv E t xs s"
  shows "\<exists>s'. foldE (unbondMatureValidator E) s xs = Inr s' \<and> slice_inv E t [] s' \<and> st_valQueue s' = st_valQueue s"
  using assms
proof (induction xs arbitrary: s)
  case Nil
  then show ?case by simp
next
  case (Cons a rest)
  from unbondMatureValidator_total [OF Cons.prems] obtain u where
    "unbondMatureValidator E s a = Inr u" "slice_inv E t rest u" "st_valQueue u = st_valQueue s" by blast
  with Cons.IH [OF Cons.prems(1,2)] show ?case by fastforce
qed

lemma slice_inv_start:
  assumes "staking_inv E s" and "st_abandoned s = []" and "kv_get (st_valQueue s) t = Some xs"
  shows "slice_inv E t xs s"
  using assms by (simp add: slice_inv_def kv_set_same)

lemma slice_inv_end:
  assumes "slice_inv E t [] s"
  shows "staking_inv E (DeleteValidatorQueueTimeSlice s t)"
proof -
  have "queue_rel vals (kv_del t (st_valQueue s)) = queue_rel vals (kv_set t [] (st_valQueue s))" for vals
    by (rule queue_rel_cong) simp
  with assms show ?thesis
    by (simp add: slice_inv_def DeleteValidatorQueueTimeSlice_def staking_inv_def inv_at_def records_inv_def
        validators_inv_def bondedSum_def notBondedSum_def aband_rel_def)
qed

lemma unbond_slices_total:
  assumes "hooks_frame E" "hooks_total E" and "staking_inv E s" and "st_abandoned s = []"
    and "distinct (map fst sl)" and "\<forall>(t, xs) \<in> set sl. kv_get (st_valQueue s) t = Some xs"
  shows "\<exists>s'. foldE (\<lambda>s (t, timeslice).
      bindE (foldE (unbondMatureValidator E) s timeslice) (\<lambda>s'. Inr (DeleteValidatorQueueTimeSlice s' t))) s sl = Inr s'
    \<and> staking_inv E s' \<and> st_abandoned s' = []"
  using assms
proof (induction sl arbitrary: s)
  case Nil
  then show ?case by simp
next
  case (Cons e sl)
  obtain t xs where e: "e = (t, xs)" by fastforce
  have "kv_get (st_valQueue s) t = Some xs" using Cons.prems(6) e by simp
  from unbond_slice_total [OF Cons.prems(1,2) slice_inv_start [OF Cons.prems(3,4) this]] obtain u where
    u: "foldE (unbondMatureValidator E) s xs = Inr u" "slice_inv E t [] u" "st_valQueue u = st_valQueue s" by blast
  let ?u = "DeleteValidatorQueueTimeSlice u t"
  have "staking_inv E ?u" by (rule slice_inv_end [OF u(2)])
  moreover have "st_abandoned ?u = []" using u(2) by (simp add: slice_inv_def DeleteValidatorQueueTimeSlice_def)
  moreover have "\<forall>(t, xs) \<in> set sl. kv_get (st_valQueue ?u) t = Some xs"
    using Cons.prems(5,6) e u(3) by (force simp: DeleteValidatorQueueTimeSlice_def)
  ultimately show ?case using Cons.IH [OF Cons.prems(1,2), of ?u] Cons.prems(5) u(1) e by simp
qed

lemma UnbondAllMatureValidatorQueue_total:
  assumes "hooks_frame E" "hooks_total E" and "staking_inv E s" and "st_abandoned s = []"
  shows "\<exists>s'. UnbondAllMatureValidatorQueue E ctx s = Inr s' \<and> staking_inv E s' \<and> st_abandoned s' = []"
  unfolding UnbondAllMatureValidatorQueue_def
proof (rule unbond_slices_total [OF assms])
  have "distinct (map fst (kv_list (st_valQueue s)))" by (rule kv_keys_distinct)
  then show "distinct (map fst (ValidatorQueueIterator s (BlockTime ctx)))"
    by (simp add: ValidatorQueueIterator_def distinct_map_filter)
  show "\<forall>(t, xs) \<in> set (ValidatorQueueIterator s (BlockTime ctx)). kv_get (st_valQueue s) t = Some xs"
    by (auto simp: ValidatorQueueIterator_def kv_in_list)
qed

text \<open>Paying out an undelegation may fail, but does not panic.\<close>

definition undelegate_no_panic :: "'w staking_env \<Rightarrow> bool" where
  "undelegate_no_panic E \<longleftrightarrow>
     (\<forall>w a cs m. UndelegateCoinsFromModuleToAccount E w NotBondedPoolName a cs \<noteq> Inl (Panic m))"

lemma DeleteAddrByTimeKey_inv [simp]: "staking_inv E (DeleteAddrByTimeKey s t a) = staking_inv E s"
  by (simp add: DeleteAddrByTimeKey_def staking_inv_def inv_at_def records_inv_def validators_inv_def
      bondedSum_def notBondedSum_def)

lemma completeMatureUndelegation_total:
  assumes "supply_moves E" and "undelegate_no_panic E" and "staking_inv E s"
  shows "\<exists>s'. completeMatureUndelegation E s key = Inr s' \<and> staking_inv E s'"
proof (cases "CompleteUndelegation E (DeleteAddrByTimeKey s (fst key) (snd key)) (snd key)")
  case (Inl e)
  moreover have "e \<noteq> Panic m" for m
    using Inl assms(2)
    by (auto simp: CompleteUndelegation_def undelegate_no_panic_def liftWorld_def bindE_eq_Inl
        split: option.splits)
  ultimately show ?thesis
    using assms(3) by (cases e) (auto simp: completeMatureUndelegation_def case_prod_unfold)
next
  case (Inr r)
  obtain u q where r: "r = (u, q)" by fastforce
  have "staking_inv E u"
    using CompleteUndelegation_inv [OF assms(1), of "DeleteAddrByTimeKey s (fst key) (snd key)" "snd key" u q]
      assms(3) Inr r by simp
  then show ?thesis using Inr r by (simp add: completeMatureUndelegation_def case_prod_unfold)
qed

subsection \<open>The end of a block\<close>

lemma set_inv_end: "set_inv E s \<Longrightarrow> staking_inv E (DeleteAbandonedValidatorAddrs s)"
  by (simp add: set_inv_def DeleteAbandonedValidatorAddrs_def)

lemma epoch_fields_inv [simp]:
  "set_inv E (s\<lparr>st_epoch := e\<rparr>) = set_inv E s" "set_inv E (s\<lparr>st_endOfLastEpoch := h\<rparr>) = set_inv E s"
  by (simp_all add: set_inv_def staking_inv_def inv_at_def records_inv_def validators_inv_def
      bondedSum_def notBondedSum_def)

lemma updateValidatorSet_total:
  assumes env: "hooks_frame E" "hooks_total E" and inv: "staking_inv E s" and ep: "GetEpoch s \<noteq> 0"
  shows "\<exists>s' u. updateValidatorSet E ctx s = Inr (s', u) \<and> staking_inv E s' \<and> st_abandoned s' = []"
proof -
  have set: "set_inv E s" by (rule staking_inv_set_inv [OF inv])
  obtain e where e: "IsEndOfEpoch ctx s = Inr e" using ep by (simp add: IsEndOfEpoch_def Let_def)
  consider (epoch) "e" | (kick) "\<not> e" "IsKickedOut s" | (none) "\<not> e" "\<not> IsKickedOut s" by blast
  then show ?thesis
  proof cases
    case epoch
    let ?s = "SetTheEndOfLastEpoch ctx (if GetEpoch s \<noteq> ParamsEpoch s then SetEpoch s (ParamsEpoch s) else s)"
    have "set_inv E ?s" using set by (simp add: SetTheEndOfLastEpoch_def SetEpoch_def)
    from ApplyAndReturnValidatorSetUpdates_elects [OF env this, of ctx] obtain t u where
      "ApplyAndReturnValidatorSetUpdates E ctx ?s = Inr (t, u)" "set_inv E t" by blast
    with e epoch set_inv_end [of E t] show ?thesis
      by (simp add: updateValidatorSet_def Let_def) (simp add: DeleteAbandonedValidatorAddrs_def)
  next
    case kick
    from KickOutAndReturnValidatorSetUpdates_total [OF env inv, of ctx] obtain t u where
      "KickOutAndReturnValidatorSetUpdates E ctx s = Inr (t, u)" "set_inv E t" by blast
    with e kick set_inv_end [of E t] show ?thesis
      by (simp add: updateValidatorSet_def) (simp add: DeleteAbandonedValidatorAddrs_def)
  next
    case none
    with e inv show ?thesis by (simp add: updateValidatorSet_def IsKickedOut_def)
  qed
qed

lemma EndBlocker_total:
  assumes "env_ok E" and "hooks_total E" and "undelegate_no_panic E" and "staking_inv E s" and "GetEpoch s \<noteq> 0"
  shows "\<exists>s' u. EndBlocker E ctx s = Inr (s', u) \<and> staking_inv E s'"
proof -
  have env: "hooks_frame E" "supply_moves E" using assms(1) by (simp_all add: env_ok_def)
  from updateValidatorSet_total [OF env(1) assms(2,4,5), of ctx] obtain s1 u where
    s1: "updateValidatorSet E ctx s = Inr (s1, u)" "staking_inv E s1" "st_abandoned s1 = []" by blast
  from UnbondAllMatureValidatorQueue_total [OF env(1) assms(2) s1(2,3), of ctx] obtain s2 where
    s2: "UnbondAllMatureValidatorQueue E ctx s1 = Inr s2" "staking_inv E s2" by blast
  have "\<exists>s3. foldE (completeMatureUndelegation E) s2 (getAddrByTimeKeyIterator s2 (BlockTime ctx)) = Inr s3 \<and>
      staking_inv E s3"
    by (rule foldE_total [where P = "staking_inv E", OF s2(2)]) (rule completeMatureUndelegation_total [OF env(2) assms(3)])
  with s1 s2 show ?thesis by (auto simp: EndBlocker_def IterateKeysBeforeCurrentTime_def)
qed

subsection \<open>Jailing\<close>

lemma reindexed_inv:
  assumes "staking_inv E s" and "kv_get (st_validators s) a = Some v" and "MinSelfDelegation v \<noteq> 0"
    and "a \<in> set (st_abandoned s) \<Longrightarrow> abandonable v \<Longrightarrow> abandonable (v\<lparr>Jailed := j\<rparr>)"
  shows "staking_inv E (s\<lparr>st_validators := kv_set a (v\<lparr>Jailed := j\<rparr>) (st_validators s),
    st_powerIndex := reindex (arith E) v (v\<lparr>Jailed := j\<rparr>) (st_powerIndex s)\<rparr>)"
proof -
  let ?v = "v\<lparr>Jailed := j\<rparr>"
  have val: "validators_inv E s" using assms(1) by (simp add: staking_inv_def inv_at_def records_inv_def)
  have "validators_inv E (s\<lparr>st_validators := kv_set a ?v (st_validators s),
    st_powerIndex := reindex (arith E) v ?v (st_powerIndex s)\<rparr>)"
    using validators_invD [OF val assms(2)] assms(3,4)
    by (intro validators_inv_replace [OF val assms(2)]) (simp_all add: baseShares_def)
  moreover have "link_rel (kv_set a ?v (st_validators s)) (st_delegators s) (st_shares s)"
    using assms(1,2) by (auto simp: staking_inv_def inv_at_def records_inv_def link_rel_def)
  ultimately show ?thesis
    using assms(1,2)
    by (simp add: staking_inv_def inv_at_def records_inv_def bondedSum_def notBondedSum_def kv_sum_set)
qed

lemma consAddr_validator:
  assumes "staking_inv E s" and "mustGetValidatorByConsAddr s c = Inr v"
  shows "kv_get (st_validators s) (OperatorAddress v) = Some v"
proof -
  from assms(2) obtain a where "kv_get (st_validators s) a = Some v"
    by (auto simp: mustGetValidatorByConsAddr_def GetValidatorByConsAddr_def GetValidator_def split: option.splits)
  moreover from this assms(1) have "OperatorAddress v = a"
    by (auto simp: staking_inv_def inv_at_def records_inv_def validators_inv_def vals_ok_def)
  ultimately show ?thesis by simp
qed

lemma Jail_inv:
  assumes "staking_inv E s" and "Jail E s c = Inr s'"
  shows "staking_inv E s'"
proof -
  from assms(2) obtain v where v: "mustGetValidatorByConsAddr s c = Inr v" and j: "\<not> Jailed v"
    and s': "s' = DeleteValidatorByPowerIndex E (SetValidator s (v\<lparr>Jailed := True\<rparr>)) (v\<lparr>Jailed := True\<rparr>)"
    by (auto simp: Jail_def jailValidator_def res_simps Let_def split: if_splits)
  note st = consAddr_validator [OF assms(1) v]
  have "MinSelfDelegation v \<noteq> 0"
    using assms(1) st j by (auto simp: staking_inv_def inv_at_def records_inv_def validators_inv_def vals_ok_def)
  moreover have "abandonable v \<Longrightarrow> abandonable (v\<lparr>Jailed := True\<rparr>)" by (auto simp: abandonable_def)
  ultimately show ?thesis
    using reindexed_inv [OF assms(1) st, of True]
    by (simp add: s' store_defs reindex_def index_key_cong [of "v\<lparr>Jailed := True\<rparr>" v])
qed

lemma Unjail_inv:
  assumes "staking_inv E s" and "Unjail E s c = Inr s'"
    and "\<And>v. GetValidatorByConsAddr s c = Some v \<Longrightarrow>
      MinSelfDelegation v \<noteq> 0 \<and> OperatorAddress v \<notin> set (st_abandoned s)"
  shows "staking_inv E s'"
proof -
  from assms(2) obtain v where v: "mustGetValidatorByConsAddr s c = Inr v" and j: "Jailed v"
    and s': "s' = SetValidatorByPowerIndex E (SetValidator s (v\<lparr>Jailed := False\<rparr>)) (v\<lparr>Jailed := False\<rparr>)"
    by (auto simp: Unjail_def unjailValidator_def res_simps Let_def split: if_splits)
  note st = consAddr_validator [OF assms(1) v]
  have ok: "MinSelfDelegation v \<noteq> 0" "OperatorAddress v \<notin> set (st_abandoned s)"
    using assms(3) v by (auto simp: mustGetValidatorByConsAddr_def split: option.splits)
  have val: "validators_inv E s" using assms(1) by (simp add: staking_inv_def inv_at_def records_inv_def)
  have "reindex (arith E) v v (st_powerIndex s) = st_powerIndex s"
    using val by (intro reindex_same [OF _ st]) (simp_all add: validators_inv_def)
  then have "kv_del (GetValidatorsByPowerIndexKey (arith E) v) (st_powerIndex s) = st_powerIndex s"
    using j by (simp add: reindex_def)
  with reindexed_inv [OF assms(1) st ok(1), of False] ok(2) show ?thesis
    by (simp add: s' store_defs reindex_def)
qed

end
