(* ===== verification/Staking_Inv_Code.thy ===== *)
theory Staking_Inv_Code
  imports Staking_Inv_Set
begin

text \<open>
  The invariants the code registers for its own runtime checks (staking/keeper/invariants.go), as
  the functions that compute whether they are broken, and the reachable states of the module: every
  sequence of messages, block ends and jailings from a state that meets the invariant keeps all of
  them unbroken.
\<close>

subsection \<open>The registered invariants\<close>

definition DelegatorAddSharesInvariant :: "'w staking_env \<Rightarrow> 'w staking_state \<Rightarrow> bool" where
  "DelegatorAddSharesInvariant E s =
     list_ex (\<lambda>v.
       let base = (if MinSelfDelegation v = 0 \<and> Jailed v then 0 else getSharesFromDefaultMinSelfDelegation E);
           totalShares = foldl (\<lambda>acc (d, x). acc + x) base (GetValidatorAllShares s (OperatorAddress v))
       in DelegatorShares v \<noteq> totalShares) (GetAllValidators s)"

definition PositiveDelegatorInvariant :: "'w staking_state \<Rightarrow> bool" where
  "PositiveDelegatorInvariant s =
     (foldl (\<lambda>count (_, d). count + (if dTokens d < 0 then 1 else 0) + (if dTokens d = 0 then 1 else 0))
        (0::nat) (kv_list (st_delegators s)) \<noteq> 0)"

text \<open>A record that the index points to but that does not exist is a panic.\<close>

definition NonNegativePowerInvariantCustom :: "'w staking_env \<Rightarrow> 'w staking_state \<Rightarrow> staking_error + bool" where
  "NonNegativePowerInvariantCustom E s =
     foldE (\<lambda>broken (k, a).
       case GetValidator s a of
         None \<Rightarrow> Inl (Panic ''validator record not found for address'')
       | Some v \<Rightarrow>
           Inr (broken \<or> k \<noteq> GetValidatorsByPowerIndexKey (arith E) v \<or> DelegatorShares v < 0))
       False (ValidatorsPowerStoreIterator s)"

definition ModuleAccountInvariantsCustom :: "'w staking_env \<Rightarrow> 'w staking_state \<Rightarrow> bool" where
  "ModuleAccountInvariantsCustom E s =
     (let bonded = foldl (\<lambda>acc (_, v). acc + MinSelfDelegation v) 0 (kv_list (st_validators s));
          bonded' = foldl (\<lambda>acc (_, d). acc + dTokens d) bonded (kv_list (st_delegators s));
          notBonded = foldl (\<lambda>acc (_, u). acc + Quantity u) 0 (kv_list (st_undelegations s))
      in poolAmount E (st_world s) BondedPoolName \<noteq> bonded' \<or>
         poolAmount E (st_world s) NotBondedPoolName \<noteq> notBonded)"

lemma foldl_plus_sum: "foldl (\<lambda>acc e. acc + f e) (z :: int) es = z + sum_list (map f es)"
  by (induction es arbitrary: z) simp_all

lemma foldl_pairs_sum: "foldl (\<lambda>acc (k, x). acc + f x) (z :: int) es = z + (\<Sum>(k, x)\<leftarrow>es. f x)"
  by (induction es arbitrary: z) auto

lemma allShares_sum:
  "foldl (\<lambda>acc (d, x). acc + x) z (GetValidatorAllShares s a) = z + sharesOf (st_shares s) a"
proof -
  have "(\<Sum>(d, x)\<leftarrow>map (\<lambda>((v, d), x). (d, x)) (filter (\<lambda>((v, d), x). v = a) es). x) =
      (\<Sum>(k, x)\<leftarrow>es. if fst k = a then x else 0)" for es :: "((val_address \<times> acc_address) \<times> dec) list"
    by (induction es) auto
  then show ?thesis
    by (simp add: foldl_pairs_sum GetValidatorAllShares_def sharesOf_def kv_sum_def)
qed

lemma staking_inv_shares: "staking_inv E s \<Longrightarrow> \<not> DelegatorAddSharesInvariant E s"
  by (auto simp: DelegatorAddSharesInvariant_def list_ex_iff GetAllValidators_def kv_in_list allShares_sum
      staking_inv_def inv_at_def records_inv_def validators_inv_def sums_rel_def vals_ok_def baseShares_def
      getSharesFromDefaultMinSelfDelegation_def)

lemma staking_inv_positive:
  assumes "staking_inv E s"
  shows "\<not> PositiveDelegatorInvariant s"
proof -
  have "\<forall>(a, d) \<in> set es. 0 < dTokens d \<Longrightarrow>
      foldl (\<lambda>count (_, d). count + (if dTokens d < 0 then 1 else 0) + (if dTokens d = 0 then 1 else 0)) n es = n"
    for n :: nat and es :: "(acc_address \<times> delegator) list"
    by (induction es arbitrary: n) auto
  moreover have "\<forall>(a, d) \<in> set (kv_list (st_delegators s)). 0 < dTokens d"
    using assms by (auto simp: kv_in_list staking_inv_def inv_at_def records_inv_def dels_ok_def)
  ultimately show ?thesis by (simp add: PositiveDelegatorInvariant_def)
qed

lemma staking_inv_pools: "staking_inv E s \<Longrightarrow> \<not> ModuleAccountInvariantsCustom E s"
  by (simp add: ModuleAccountInvariantsCustom_def foldl_pairs_sum staking_inv_def inv_at_def bondedSum_def
      notBondedSum_def kv_sum_def)

text \<open>The power invariant needs shares that are not negative; the weights are the only source of
  shares.\<close>

definition shares_nonneg :: "'w staking_state \<Rightarrow> bool" where
  "shares_nonneg s \<longleftrightarrow> list_all (\<lambda>e. 0 \<le> snd e) (kv_list (st_shares s))"

lemma staking_inv_power:
  assumes "staking_inv E s" and "shares_nonneg s" and "0 \<le> OneDec (arith E)"
  shows "NonNegativePowerInvariantCustom E s = Inr False"
proof -
  have set: "set_inv E s" by (rule staking_inv_set_inv [OF assms(1)])
  have nonneg: "0 \<le> sharesOf (st_shares s) a" for a
    unfolding sharesOf_def using assms(2)
    by (intro kv_sum_nonneg) (auto simp: shares_nonneg_def list_all_iff simp flip: kv_in_list)
  have step: "(case GetValidator s a of None \<Rightarrow> Inl e
      | Some v \<Rightarrow> Inr (False \<or> k \<noteq> GetValidatorsByPowerIndexKey (arith E) v \<or> DelegatorShares v < 0)) = Inr False"
    if "(k, a) \<in> set (kv_list (st_powerIndex s))" for k a e
  proof -
    from that obtain v where v: "kv_get (st_validators s) a = Some v"
      and k: "k = GetValidatorsByPowerIndexKey (arith E) v" by (rule index_entry [OF set])
    have "DelegatorShares v = baseShares (arith E) v + sharesOf (st_shares s) a"
      using set_inv_validators [OF set] v by (simp add: validators_inv_def sums_rel_def)
    with nonneg [of a] assms(3) have "0 \<le> DelegatorShares v" by (auto simp: baseShares_def)
    with v k show ?thesis by (simp add: GetValidator_def)
  qed
  have "foldE (\<lambda>broken (k, a).
       case GetValidator s a of
         None \<Rightarrow> Inl (Panic ''validator record not found for address'')
       | Some v \<Rightarrow> Inr (broken \<or> k \<noteq> GetValidatorsByPowerIndexKey (arith E) v \<or> DelegatorShares v < 0))
       False es = Inr False" if "set es \<subseteq> set (kv_list (st_powerIndex s))" for es
    using that by (induction es) (auto simp: step simp del: not_less)
  then show ?thesis by (simp add: NonNegativePowerInvariantCustom_def ValidatorsPowerStoreIterator_def)
qed

end
