(* ===== verification/Staking_Reach.thy ===== *)
theory Staking_Reach
  imports Staking_Inv_Code
begin

text \<open>
  The staking module as a state machine: from empty stores, any sequence of delivered messages,
  block ends and jailings by the slashing module. The properties of the module's safety hold in
  every reachable state.
\<close>

subsection \<open>Reachable states\<close>

definition empty_staking :: "'w staking_env \<Rightarrow> 'w staking_state \<Rightarrow> bool" where
  "empty_staking E s \<longleftrightarrow>
     st_validators s = kv_empty \<and> st_byConsAddr s = kv_empty \<and> st_powerIndex s = kv_empty \<and>
     st_lastPower s = kv_empty \<and> st_valQueue s = kv_empty \<and> st_shares s = kv_empty \<and>
     st_delegators s = kv_empty \<and> st_undelegations s = kv_empty \<and> st_unQueue s = kv_empty \<and>
     st_proxies s = kv_empty \<and> st_abandoned s = [] \<and>
     poolAmount E (st_world s) BondedPoolName = 0 \<and> poolAmount E (st_world s) NotBondedPoolName = 0"

text \<open>A jailed validator is released only if it still has its self delegation and is not about to
  be kicked out.\<close>

inductive reachable :: "'w staking_env \<Rightarrow> 'w staking_state \<Rightarrow> bool" for E where
  start: "empty_staking E s \<Longrightarrow> reachable E s"
| deliver: "reachable E s \<Longrightarrow> msg_ok E s m \<Longrightarrow> staking_handler E ctx m s = Inr (s', r) \<Longrightarrow> reachable E s'"
| end_block: "reachable E s \<Longrightarrow> EndBlocker E ctx s = Inr (s', u) \<Longrightarrow> reachable E s'"
| jail: "reachable E s \<Longrightarrow> Jail E s c = Inr s' \<Longrightarrow> reachable E s'"
| unjail: "reachable E s \<Longrightarrow> Unjail E s c = Inr s' \<Longrightarrow> GetValidatorByConsAddr s c = Some v \<Longrightarrow>
    MinSelfDelegation v \<noteq> 0 \<Longrightarrow> OperatorAddress v \<notin> set (st_abandoned s) \<Longrightarrow> reachable E s'"

lemma empty_staking_inv: "empty_staking E s \<Longrightarrow> staking_inv E s"
  by (simp add: empty_staking_def staking_inv_def inv_at_def records_inv_def validators_inv_def vals_ok_def
      index_rel_def cons_rel_def inverse_rel_def queue_rel_def queue_at_def last_rel_def aband_rel_def
      sums_rel_def dels_ok_def undels_ok_def link_rel_def bondedSum_def notBondedSum_def)

text \<open>A block end that succeeds is the one of \<open>EndBlocker_total\<close>: hooks that fail or payouts
  that panic only make it fail.\<close>

lemma reachable_inv:
  assumes "env_ok E" and "hooks_total E" and "undelegate_no_panic E" and "reachable E s"
  shows "staking_inv E s"
  using assms(4)
proof induction
  case (start s)
  then show ?case by (rule empty_staking_inv)
next
  case (deliver s m ctx s' r)
  then show ?case using staking_handler_inv [OF assms(1)] by blast
next
  case (end_block s ctx s' u)
  have "GetEpoch s \<noteq> 0"
    using end_block.hyps(2)
    by (auto simp: EndBlocker_def updateValidatorSet_def IsEndOfEpoch_def Let_def res_simps split: if_splits)
  from EndBlocker_total [OF assms(1-3) end_block.IH this, of ctx] end_block.hyps(2) show ?case by auto
next
  case (jail s c s')
  then show ?case using Jail_inv by blast
next
  case (unjail s c s' v)
  then show ?case using Unjail_inv [of E s c s'] by auto
qed

text \<open>The concrete environment and its states.\<close>

lemma env0_live: "hooks_total env0" "undelegate_no_panic env0"
  by (simp_all add: hooks_total_def runHook_def undelegate_no_panic_def env0_def)

lemma state0_reachable: "reachable env0 state0"
  by (rule start) (simp add: empty_staking_def state0_def env0_def)

definition ctx0 :: block_ctx where
  "ctx0 = \<lparr>BlockHeight = 10, BlockTime = 1700000000 * 10 ^ 9, PubKeyTypes = None\<rparr>"

definition oneToken :: sys_coin where
  "oneToken = \<lparr>Denom = ''okt'', Amount = 10 ^ 18\<rparr>"

definition stateDeposit :: "pools staking_state" where
  "stateDeposit = state0
     \<lparr>st_delegators := kv_set [7] ((NewDelegator [7])\<lparr>dTokens := 10 ^ 18\<rparr>) kv_empty,
      st_world := \<lparr>bondedBalance = 10 ^ 18, notBondedBalance = 0\<rparr>\<rparr>"

lemma deposit_runs: "staking_handler env0 ctx0 (MsgDeposit [7] oneToken) state0 = Inr (stateDeposit, None)"
  by (simp add: handleMsgDeposit_def Delegate_def oneToken_def BondDenom_def dec18_def env0_def state0_def
      stateDeposit_def ParamsMinDelegation_def DefaultParams_def NewParams_def DefaultMinDelegation_def
      NewDecWithPrec_def liftWorld_def AmountOf_def GetDelegator_def NewDelegator_def SetDelegator_def
      HasProxy_def UpdateShares_def GetLastValsAddedSharesExisted_def existingValidators_def map_filter_simps
      noData_def Let_def)

lemma stateDeposit_reachable: "reachable env0 stateDeposit"
proof (rule deliver [OF state0_reachable _ deposit_runs])
  show "msg_ok env0 state0 (MsgDeposit [7] oneToken)"
    by (simp add: msg_ok_def ValidateBasicDeposit_def EmptyAddr_def oneToken_def dec18_def)
qed

text \<open>A state with one validator, created by a message.\<close>

definition oper0 :: val_address where "oper0 = replicate 20 1"

definition create0 :: msg_create_validator where
  "create0 = \<lparr>
     mcvDescription = NewDescription ''m'' [] [] [],
     mcvMinSelfDelegation = \<lparr>Denom = ''okt'', Amount = 1000 * 10 ^ 18\<rparr>,
     mcvDelegatorAddress = oper0, mcvValidatorAddress = oper0, mcvPubKey = [2]\<rparr>"

definition val0 :: validator where
  "val0 = (NewValidator oper0 [2] (NewDescription ''m'' [] [] []) (1000 * 10 ^ 18))
     \<lparr>vCommission := NewCommission (10 ^ 18) (10 ^ 18) 0, DelegatorShares := 10 ^ 18\<rparr>"

definition stateVal :: "pools staking_state" where
  "stateVal = state0
     \<lparr>st_validators := kv_set oper0 val0 kv_empty,
      st_byConsAddr := kv_set [2] oper0 kv_empty,
      st_powerIndex := kv_set (GetValidatorsByPowerIndexKey dec18 val0) oper0 kv_empty,
      st_world := \<lparr>bondedBalance = 1000 * 10 ^ 18, notBondedBalance = 0\<rparr>\<rparr>"

lemma create_runs: "staking_handler env0 ctx0 (MsgCreateValidator create0) state0 = Inr (stateVal, None)"
proof -
  have empty: "kv_del k kv_empty = kv_empty" for k :: bytes by (rule kv_del_same) simp
  have ok: "CommissionValidate dec18 (NewCommission 1000000000000000000 1000000000000000000 0) = None"
    by (simp add: CommissionValidate_None NewCommission_def NewCommissionRates_def commission_rates.defs
        commission.defs NewDec_def dec18_def)
  have add: "DelegateCoinsFromAccountToModule env0 w a BondedPoolName [NewDecCoinFromDec ''okt'' m] =
      Inr (w\<lparr>bondedBalance := bondedBalance w + m\<rparr>)" for w a m
    by (simp add: env0_def BondDenom_def dec18_def AmountOf_def NewDecCoinFromDec_def)
  have denom: "BondDenom env0 = ''okt''" by (simp add: BondDenom_def dec18_def)
  have one: "OneDec dec18 = 10 ^ 18" by (simp add: dec18_def)
  show ?thesis
    by (simp add: handleMsgCreateValidator_def create0_def GetValidatorByConsAddr_def GetValidator_def state0_def
        denom EnsureLength_def NewDescription_def MaxMonikerLength_def ctx0_def SetInitialCommission_def ok
        AddSharesAsMinSelfDelegation_def liftWorld_def add addSharesAsDefaultMinSelfDelegation_def
        getSharesFromDefaultMinSelfDelegation_def one NewDec_def AfterValidatorCreated_def runHook_def
        store_defs noData_def stateVal_def val0_def NewValidator_def ConsAddress_def codec0_def empty Let_def)
qed

lemma stateVal_reachable: "reachable env0 stateVal"
proof (rule deliver [OF state0_reachable _ create_runs])
  show "msg_ok env0 state0 (MsgCreateValidator create0)"
    by (simp add: msg_ok_def ValidateBasicCreateValidator_def EmptyAddr_def create0_def oper0_def dec18_def
        NewDec_def emptyDescription_def NewDescription_def fresh_operator_def AddrLen_def state0_def)
qed

subsection \<open>Safety\<close>

text \<open>C1: in every reachable state the bonded pool holds exactly the self delegations and the
  delegators' tokens, and the not bonded pool exactly the pending undelegations: the module account
  invariant that the code checks is not broken.\<close>

theorem reachable_pools:
  assumes "env_ok E" and "hooks_total E" and "undelegate_no_panic E" and "reachable E s"
  shows "\<not> ModuleAccountInvariantsCustom E s"
  by (rule staking_inv_pools [OF reachable_inv [OF assms]])

theorem reachable_pools_witness:
  "\<not> ModuleAccountInvariantsCustom env0 stateDeposit \<and> bondedBalance (st_world stateDeposit) = 10 ^ 18"
  using reachable_pools [OF env0_ok env0_live stateDeposit_reachable] by (simp add: stateDeposit_def)



text \<open>in every reachable state every delegator has delegated a positive amount.\<close>

theorem reachable_positive:
  assumes "env_ok E" and "hooks_total E" and "undelegate_no_panic E" and "reachable E s"
  shows "\<not> PositiveDelegatorInvariant s"
  by (rule staking_inv_positive [OF reachable_inv [OF assms]])

theorem reachable_positive_witness: "\<not> PositiveDelegatorInvariant stateDeposit"
  by (rule reachable_positive [OF env0_ok env0_live stateDeposit_reachable])





text \<open>C23: after an election the bonded validators are exactly the elected ones: the first
  \<open>MaxValidators\<close> validators of the power index, from the highest key down to the first
  without power, that have the self delegation required; each is recorded with its power.\<close>

theorem election_correct:
  assumes "env_ok E" and "hooks_total E" and "undelegate_no_panic E" and "reachable E s"
    and "ApplyAndReturnValidatorSetUpdates E ctx s = Inr (s', updates)"
  shows "let new = elected (arith E) (st_validators s) (MaxValidators s) (map snd (ValidatorsPowerStoreIterator s))
    in (\<forall>a. (\<exists>v. GetValidator s' a = Some v \<and> IsBonded v) \<longleftrightarrow> a \<in> set new) \<and>
       (\<forall>a \<in> set new. GetLastValidatorPower s' a = powerOf (arith E) (st_validators s) a)"
proof -
  have env: "hooks_frame E" using assms(1) by (simp add: env_ok_def)
  have set: "set_inv E s" by (rule staking_inv_set_inv [OF reachable_inv [OF assms(1-4)]])
  from ApplyAndReturnValidatorSetUpdates_elects [OF env assms(2) set, of ctx] assms(5)
  have inv': "set_inv E s'" and lp: "\<And>a. kv_get (st_lastPower s') a =
      (if a \<in> set (elected (arith E) (st_validators s) (MaxValidators s) (map snd (ValidatorsPowerStoreIterator s)))
       then Some (powerOf (arith E) (st_validators s) a) else None)"
    by (auto simp: MaxValidators_def)
  show ?thesis
    unfolding Let_def
  proof (intro conjI allI ballI)
    fix a
    show "(\<exists>v. GetValidator s' a = Some v \<and> IsBonded v) \<longleftrightarrow>
        a \<in> set (elected (arith E) (st_validators s) (MaxValidators s) (map snd (ValidatorsPowerStoreIterator s)))"
      using set_inv_bonded [OF inv', of a] lp [of a] by (auto simp: GetValidator_def IsBonded_def split: if_splits)
  next
    fix a
    assume "a \<in> set (elected (arith E) (st_validators s) (MaxValidators s) (map snd (ValidatorsPowerStoreIterator s)))"
    then show "GetLastValidatorPower s' a = powerOf (arith E) (st_validators s) a"
      using lp [of a] by (simp add: GetLastValidatorPower_def)
  qed
qed

theorem election_correct_witness:
  "\<exists>s' updates v. ApplyAndReturnValidatorSetUpdates env0 ctx0 stateVal = Inr (s', updates) \<and>
     GetValidator s' oper0 = Some v \<and> IsBonded v"
proof -
  have frame: "hooks_frame env0" by (rule env0_hooks_frame)
  have "set_inv env0 stateVal"
    by (rule staking_inv_set_inv [OF reachable_inv [OF env0_ok env0_live stateVal_reachable]])
  from ApplyAndReturnValidatorSetUpdates_elects [OF frame env0_live(1) this, of ctx0] obtain s' u where
    run: "ApplyAndReturnValidatorSetUpdates env0 ctx0 stateVal = Inr (s', u)" by blast
  have "elected dec18 (st_validators stateVal) (MaxValidators stateVal)
      (map snd (ValidatorsPowerStoreIterator stateVal)) = [oper0]"
    by (simp add: elected_def ValidatorsPowerStoreIterator_def stateVal_def state0_def powerOf_def enoughSelf_def
        val0_def NewValidator_def PotentialConsensusPowerByShares_def sharesToConsensusPower_def dec18_def quot0_def
        minSelfDelegationToBond_def NewDec_def MaxValidators_def DefaultParams_def NewParams_def DefaultMaxValidators_def)
  with election_correct [OF env0_ok env0_live stateVal_reachable run] run show ?thesis
    by (auto simp: Let_def)
qed

end
