(* ===== verification/Staking_Genesis.thy ===== *)
theory Staking_Genesis
  imports Staking_Reach
begin

text \<open>
  Genesis of the staking module (staking/genesis.go and staking/types/genesis.go): check, import and export of all its
  stores. The properties, in \<open>Staking_Genesis_Props\<close>, say what a chain that is started from an export has in
  common with the chain that was exported.
\<close>

subsection \<open>Genesis data\<close>

record LastValidatorPower =
  lvAddress :: val_address
  lvPower :: int

record SharesExported =
  seDelAddress :: acc_address
  seValidatorAddress :: val_address
  seShares :: dec

record ProxyDelegatorKeyExported =
  pdDelAddr :: acc_address
  pdProxyAddr :: acc_address

record staking_genesis =
  gParams :: staking_params
  gLastTotalPower :: int
  gLastValidatorPowers :: "LastValidatorPower list"
  gValidators :: "validator_exported list"
  gDelegators :: "delegator list"
  gUnbondingDelegations :: "undelegation_info list"
  gAllShares :: "SharesExported list"
  gProxyDelegatorKeys :: "ProxyDelegatorKeyExported list"
  gExported :: bool

definition NewLastValidatorPower :: "val_address \<Rightarrow> int \<Rightarrow> LastValidatorPower" where
  "NewLastValidatorPower valAddr pwr = \<lparr>lvAddress = valAddr, lvPower = pwr\<rparr>"

definition NewSharesExported :: "acc_address \<Rightarrow> val_address \<Rightarrow> dec \<Rightarrow> SharesExported" where
  "NewSharesExported delAddr valAddr x = \<lparr>seDelAddress = delAddr, seValidatorAddress = valAddr, seShares = x\<rparr>"

definition NewProxyDelegatorKeyExported :: "acc_address \<Rightarrow> acc_address \<Rightarrow> ProxyDelegatorKeyExported" where
  "NewProxyDelegatorKeyExported delAddr proxyAddr = \<lparr>pdDelAddr = delAddr, pdProxyAddr = proxyAddr\<rparr>"

text \<open>\<open>Validators.Export\<close>: the first validator that cannot be exported panics.\<close>

fun ExportValidators :: "sdk_codec \<Rightarrow> validator list \<Rightarrow> staking_error + validator_exported list" where
  "ExportValidators C [] = Inr []"
| "ExportValidators C (v # vs) = bindE (Export C v) (\<lambda>ve. bindE (ExportValidators C vs) (\<lambda>ves. Inr (ve # ves)))"

text \<open>Fields that Go leaves out of a composite literal are zero; a zero \<open>sdk.Int\<close> is encoded as 0.\<close>

definition emptyStakingGenesis :: "staking_params \<Rightarrow> staking_genesis" where
  "emptyStakingGenesis params = \<lparr>gParams = params, gLastTotalPower = 0, gLastValidatorPowers = [], gValidators = [],
     gDelegators = [], gUnbondingDelegations = [], gAllShares = [], gProxyDelegatorKeys = [], gExported = False\<rparr>"

definition NewStakingGenesisState ::
    "sdk_codec \<Rightarrow> staking_params \<Rightarrow> validator list \<Rightarrow> delegator list \<Rightarrow> staking_error + staking_genesis" where
  "NewStakingGenesisState C params validators delegators =
     bindE (ExportValidators C validators) (\<lambda>ves.
       Inr ((emptyStakingGenesis params)\<lparr>gValidators := ves, gDelegators := delegators\<rparr>))"

definition DefaultStakingGenesisState :: "sdk_dec \<Rightarrow> staking_genesis" where
  "DefaultStakingGenesisState A = emptyStakingGenesis (DefaultParams A)"

definition ExportedConsAddress :: "sdk_codec \<Rightarrow> validator_exported \<Rightarrow> staking_error + cons_address" where
  "ExportedConsAddress C ve =
     (case DecodePubKey C (xConsPubKey ve) of
        None \<Rightarrow> Inl (Panic ''failed. consensus pubkey is parsed error'')
      | Some consPk \<Rightarrow> Inr (PubKeyAddress C consPk))"

definition ExportedIsBonded :: "validator_exported \<Rightarrow> bool" where
  "ExportedIsBonded ve \<longleftrightarrow> xStatus ve = Bonded"

subsection \<open>Check\<close>

datatype staking_genesis_error =
    GenesisDuplicate string cons_address
  | GenesisBondedAndJailed string cons_address
  | GenesisZeroShares validator_exported
  | GenesisParams staking_error
  | GenesisPanic staking_error

text \<open>The address in a message is decoded when the message is made, which may panic.\<close>

definition withConsAddress ::
    "sdk_codec \<Rightarrow> (string \<Rightarrow> cons_address \<Rightarrow> staking_genesis_error) \<Rightarrow> validator_exported \<Rightarrow> staking_genesis_error" where
  "withConsAddress C mk ve =
     (case ExportedConsAddress C ve of
        Inl e \<Rightarrow> GenesisPanic e
      | Inr a \<Rightarrow> mk (Moniker (xDescription ve)) a)"

fun validateValidatorsLoop ::
    "sdk_codec \<Rightarrow> string list \<Rightarrow> validator_exported list \<Rightarrow> staking_genesis_error option" where
  "validateValidatorsLoop C addrMap [] = None"
| "validateValidatorsLoop C addrMap (ve # ves) =
     (if xConsPubKey ve \<in> set addrMap then Some (withConsAddress C GenesisDuplicate ve)
      else if xJailed ve \<and> ExportedIsBonded ve then Some (withConsAddress C GenesisBondedAndJailed ve)
      else if xDelegatorShares ve = 0 then Some (GenesisZeroShares ve)
      else validateValidatorsLoop C (xConsPubKey ve # addrMap) ves)"

definition validateGenesisStateValidators ::
    "sdk_codec \<Rightarrow> validator_exported list \<Rightarrow> staking_genesis_error option" where
  "validateGenesisStateValidators C valsExported = validateValidatorsLoop C [] valsExported"

definition ValidateStakingGenesis :: "sdk_codec \<Rightarrow> staking_genesis \<Rightarrow> staking_genesis_error option" where
  "ValidateStakingGenesis C data =
     (case validateGenesisStateValidators C (gValidators data) of
        Some e \<Rightarrow> Some e
      | None \<Rightarrow> map_option GenesisParams (ParamsValidate (gParams data)))"

subsection \<open>Import\<close>

text \<open>What the import uses of the SDK beside \<open>staking_env\<close>: the coins of a module account, if it has been set, and the
  comparisons of coin sets, of which equality panics on different denominations.\<close>

record 'w pool_env =
  pe_GetCoins :: "'w \<Rightarrow> string \<Rightarrow> sys_coins option"
  pe_IsZero :: "sys_coins \<Rightarrow> bool"
  pe_IsEqual :: "sys_coins \<Rightarrow> sys_coins \<Rightarrow> bool option"
  ValidatorUpdateDelay :: int

definition checkTokenSum :: "'w staking_env \<Rightarrow> 'w pool_env \<Rightarrow> sys_coin \<Rightarrow> sys_coins \<Rightarrow> staking_error + unit" where
  "checkTokenSum E G tokenSum poolCoins =
     (if pe_IsZero G poolCoins then Inr ()
      else if length poolCoins \<noteq> 1 then Inl (Panic ''only okt in the pool'')
      else case pe_IsEqual G (ToCoins (arith E) tokenSum) poolCoins of
          None \<Rightarrow> Inl (Panic ''invalid coin denominations'')
        | Some eq \<Rightarrow> if eq then Inr () else Inl (Panic ''coins in the pool do not match the token sum''))"

definition checkPools ::
    "'w staking_env \<Rightarrow> 'w pool_env \<Rightarrow> 'w staking_state \<Rightarrow> sys_coin \<Rightarrow> sys_coin \<Rightarrow> bool \<Rightarrow> staking_error + unit" where
  "checkPools E G s bondedDecCoin notBondedDecCoin isExported =
     (case pe_GetCoins G (st_world s) BondedPoolName of
        None \<Rightarrow> Inl (Panic ''bonded_tokens_pool module account has not been set'')
      | Some bonded \<Rightarrow>
          case pe_GetCoins G (st_world s) NotBondedPoolName of
            None \<Rightarrow> Inl (Panic ''not_bonded_tokens_pool module account has not been set'')
          | Some notBonded \<Rightarrow>
              if isExported
              then bindE (checkTokenSum E G bondedDecCoin bonded) (\<lambda>_. checkTokenSum E G notBondedDecCoin notBonded)
              else Inr ())"

definition initValidator ::
    "'w staking_env \<Rightarrow> bool \<Rightarrow> 'w staking_state \<times> dec \<Rightarrow> validator_exported \<Rightarrow>
     staking_error + ('w staking_state \<times> dec)" where
  "initValidator E isExported sb ve =
     bindE (Import (arith E) (codec E) ve) (\<lambda>v.
       let s1 = SetValidatorByPowerIndex E (SetValidatorByConsAddr E (SetValidator (fst sb) v) v) v
       in bindE (if \<not> isExported then AfterValidatorCreated E s1 (OperatorAddress v) else Inr s1) (\<lambda>s2.
          Inr (if IsUnbonding v then InsertValidatorQueue s2 v else s2, snd sb + MinSelfDelegation v)))"

definition initDelegator :: "'w staking_state \<times> dec \<Rightarrow> delegator \<Rightarrow> 'w staking_state \<times> dec" where
  "initDelegator sb d = (SetDelegator (fst sb) d, snd sb + dTokens d)"

definition initUnbondingDelegation :: "'w staking_state \<times> dec \<Rightarrow> undelegation_info \<Rightarrow> 'w staking_state \<times> dec" where
  "initUnbondingDelegation sn u =
     (SetAddrByTimeKeyWithNilValue (SetUndelegating (fst sn) u) (CompletionTime u) (udDelegatorAddress u),
      snd sn + Quantity u)"

text \<open>An exported chain keeps its last validator set: the powers are recorded and told to Tendermint as they were.\<close>

definition restoreLastPower ::
    "'w staking_env \<Rightarrow> 'w staking_state \<times> validator_update list \<Rightarrow> LastValidatorPower \<Rightarrow>
     staking_error + ('w staking_state \<times> validator_update list)" where
  "restoreLastPower E su lv =
     (let s1 = SetLastValidatorPower (fst su) (lvAddress lv) (lvPower lv)
      in case GetValidator s1 (lvAddress lv) of
          None \<Rightarrow> Inl (Panic ''validator not found'')
        | Some v \<Rightarrow> Inr (s1, snd su @ [(ABCIValidatorUpdate (arith E) v)\<lparr>vuPower := lvPower lv\<rparr>]))"

definition loadDelegations ::
    "staking_genesis \<Rightarrow> 'w staking_state \<times> dec \<Rightarrow> ('w staking_state \<times> dec) \<times> dec" where
  "loadDelegations data sb =
     (let (s1, bonded) = foldl initDelegator sb (gDelegators data);
          (s2, notBonded) = foldl initUnbondingDelegation (s1, 0) (gUnbondingDelegations data);
          s3 = foldl (\<lambda>s x. SetShares s (seDelAddress x) (seValidatorAddress x) (seShares x)) s2 (gAllShares data);
          s4 = foldl (\<lambda>s p. SetProxyBinding s (pdProxyAddr p) (pdDelAddr p) False) s3 (gProxyDelegatorKeys data)
      in ((s4, bonded), notBonded))"

definition InitStakingGenesis ::
    "'w staking_env \<Rightarrow> 'w pool_env \<Rightarrow> block_ctx \<Rightarrow> 'w staking_state \<Rightarrow> staking_genesis \<Rightarrow>
     staking_error + ('w staking_state \<times> validator_update list)" where
  "InitStakingGenesis E G bctx s data =
     (let ctx = bctx\<lparr>BlockHeight := 1 - ValidatorUpdateDelay G\<rparr>;
          s0 = SetLastTotalPower (SetParams s (gParams data)) (gLastTotalPower data)
      in bindE (foldE (initValidator E (gExported data)) (s0, 0) (gValidators data)) (\<lambda>sb.
         let ((s1, bonded), notBonded) = loadDelegations data sb
         in bindE (checkPools E G s1 (NewDecCoinFromDec (DefaultBondDenom (arith E)) bonded)
                    (NewDecCoinFromDec (DefaultBondDenom (arith E)) notBonded) (gExported data)) (\<lambda>_.
              if gExported data
              then foldE (restoreLastPower E) (s1, []) (gLastValidatorPowers data)
              else ApplyAndReturnValidatorSetUpdates E ctx s1)))"

subsection \<open>Export\<close>

text \<open>The iterators with the callbacks that \<open>ExportGenesis\<close> gives them, which collect every entry in the order of the
  keys.\<close>

definition IterateDelegator :: "'w staking_state \<Rightarrow> delegator list" where
  "IterateDelegator s = map snd (kv_list (st_delegators s))"

definition IterateUndelegationInfo :: "'w staking_state \<Rightarrow> undelegation_info list" where
  "IterateUndelegationInfo s = map snd (kv_list (st_undelegations s))"

definition IterateLastValidatorPowers :: "'w staking_state \<Rightarrow> (val_address \<times> int) list" where
  "IterateLastValidatorPowers s = kv_list (st_lastPower s)"

definition IterateShares :: "'w staking_state \<Rightarrow> (acc_address \<times> val_address \<times> dec) list" where
  "IterateShares s = map (\<lambda>((v, d), x). (d, v, x)) (kv_list (st_shares s))"

definition IterateProxyAll :: "'w staking_state \<Rightarrow> (acc_address \<times> acc_address) list" where
  "IterateProxyAll s = map (\<lambda>((p, d), _). (d, p)) (kv_list (st_proxies s))"

definition ExportStakingGenesis ::
    "'w staking_env \<Rightarrow> block_ctx \<Rightarrow> 'w staking_state \<Rightarrow> staking_error + staking_genesis" where
  "ExportStakingGenesis E ctx s =
     bindE (ExportValidators (codec E) (GetAllValidators s)) (\<lambda>ves.
       Inr \<lparr>gParams = GetParams E ctx s,
            gLastTotalPower = GetLastTotalPower s,
            gLastValidatorPowers = map (\<lambda>(a, p). NewLastValidatorPower a p) (IterateLastValidatorPowers s),
            gValidators = ves,
            gDelegators = IterateDelegator s,
            gUnbondingDelegations = IterateUndelegationInfo s,
            gAllShares = map (\<lambda>(d, v, x). NewSharesExported d v x) (IterateShares s),
            gProxyDelegatorKeys = map (\<lambda>(d, p). NewProxyDelegatorKeyExported d p) (IterateProxyAll s),
            gExported = True\<rparr>)"

record GenesisValidator =
  gvPubKey :: pubkey
  gvPower :: int
  gvName :: string

text \<open>\<open>IterateLastValidators\<close>: a last power without its validator panics.\<close>

definition IterateLastValidators :: "'w staking_state \<Rightarrow> staking_error + validator list" where
  "IterateLastValidators s = foldE (\<lambda>vs a. bindE (mustGetValidator s a) (\<lambda>v. Inr (vs @ [v]))) [] (map fst (kv_list (st_lastPower s)))"

definition GetLatestGenesisValidator :: "'w staking_env \<Rightarrow> 'w staking_state \<Rightarrow> staking_error + GenesisValidator list" where
  "GetLatestGenesisValidator E s =
     bindE (IterateLastValidators s) (\<lambda>vs.
       Inr (map (\<lambda>v. \<lparr>gvPubKey = ConsPubKey v, gvPower = ConsensusPower (arith E) v, gvName = Moniker (vDescription v)\<rparr>) vs))"

end
