(* ===== verification/Staking_Genesis_Props.thy ===== *)
theory Staking_Genesis_Props
  imports Staking_Genesis
begin

text \<open>
  A chain that is started from the export of another one. The relations of the staking invariant determine the indexes
  from the records, so that the import, which builds them anew, finds those of the exported chain.
\<close>

subsection \<open>Loading the records\<close>

text \<open>A store whose entries carry their keys is built from its values.\<close>

lemma keyed_rebuild:
  assumes "\<And>k v. kv_get m k = Some v \<Longrightarrow> key v = k"
  shows "foldl (\<lambda>m v. kv_set (key v) v m) kv_empty (map snd (kv_list m)) = m"
proof -
  have "foldl (\<lambda>m v. kv_set (key v) v m) a (map snd es) = foldl (\<lambda>m e. kv_set (fst e) (snd e) m) a es"
    if "\<forall>e \<in> set es. key (snd e) = fst e" for a es
    using that by (induction es arbitrary: a) simp_all
  moreover have "\<forall>e \<in> set (kv_list m). key (snd e) = fst e"
    using assms by (auto simp: kv_in_list)
  ultimately show ?thesis using kv_rebuild [of m] by simp
qed

lemma kv_values: "v \<in> snd ` set (kv_list m) \<longleftrightarrow> (\<exists>k. kv_get m k = Some v)"
proof -
  have "v \<in> snd ` set (kv_list m) \<longleftrightarrow> (\<exists>k. (k, v) \<in> set (kv_list m))" by force
  then show ?thesis by (simp add: kv_in_list)
qed

definition reset :: "sdk_dec \<Rightarrow> validator \<Rightarrow> validator" where
  "reset A v = v\<lparr>vTokens := 0, vCommission := NewCommission (NewDec A 1) (NewDec A 1) (NewDec A 0)\<rparr>"

lemma reset_simps [simp]:
  "OperatorAddress (reset A v) = OperatorAddress v" "ConsPubKey (reset A v) = ConsPubKey v"
  "Jailed (reset A v) = Jailed v" "Status (reset A v) = Status v" "vTokens (reset A v) = 0"
  "DelegatorShares (reset A v) = DelegatorShares v" "MinSelfDelegation (reset A v) = MinSelfDelegation v"
  "UnbondingCompletionTime (reset A v) = UnbondingCompletionTime v" "ConsAddress C (reset A v) = ConsAddress C v"
  "baseShares A' (reset A v) = baseShares A' v"
  "GetValidatorsByPowerIndexKey A' (reset A v) = GetValidatorsByPowerIndexKey A' v"
  by (simp_all add: reset_def ConsAddress_def baseShares_def GetValidatorsByPowerIndexKey_def getValidatorPowerRank_def)

definition loadValidator :: "'w staking_env \<Rightarrow> 'w staking_state \<Rightarrow> validator \<Rightarrow> 'w staking_state" where
  "loadValidator E s v =
     (let s1 = SetValidatorByPowerIndex E (SetValidatorByConsAddr E (SetValidator s v) v) v
      in if IsUnbonding v then InsertValidatorQueue s1 v else s1)"

lemma import_export: "pubkey_decodes C \<Longrightarrow> Export C v = Inr ve \<Longrightarrow> Import A C ve = Inr (reset A v)"
  unfolding reset_def by (rule Import_Export)

lemma init_exported:
  assumes "pubkey_decodes (codec E)" and "ExportValidators (codec E) vs = Inr ves"
  shows "foldE (initValidator E True) (s, b) ves =
    Inr (foldl (loadValidator E) s (map (reset (arith E)) vs), b + (\<Sum>v\<leftarrow>vs. MinSelfDelegation v))"
  using assms(2)
proof (induction vs arbitrary: ves s b)
  case (Cons v vs)
  then obtain ve ves' where "Export (codec E) v = Inr ve" "ExportValidators (codec E) vs = Inr ves'" "ves = ve # ves'"
    by (auto simp: res_simps)
  with Cons.IH import_export [OF assms(1)] show ?case
    by (simp add: initValidator_def loadValidator_def Let_def IsUnbonding_def add.assoc)
qed simp

lemma loadValidator_fields:
  "loadValidator E s v = s
     \<lparr>st_validators := kv_set (OperatorAddress v) v (st_validators s),
      st_byConsAddr := kv_set (ConsAddress (codec E) v) (OperatorAddress v) (st_byConsAddr s),
      st_powerIndex := (if \<not> Jailed v then kv_set (GetValidatorsByPowerIndexKey (arith E) v) (OperatorAddress v) (st_powerIndex s)
                        else st_powerIndex s),
      st_valQueue := (if Status v = Unbonding
        then kv_set (UnbondingCompletionTime v) (queue_at (st_valQueue s) (UnbondingCompletionTime v) @ [OperatorAddress v])
               (st_valQueue s)
        else st_valQueue s)\<rparr>"
  by (simp add: loadValidator_def Let_def IsUnbonding_def InsertValidatorQueue_def GetValidatorQueueTimeSlice_def
      queue_at_def store_defs split: option.splits)

lemma queue_rel_add:
  assumes "queue_rel vals q" and "kv_get vals a = None" and "Status v = Unbonding"
  shows "queue_rel (kv_set a v vals) (kv_set (UnbondingCompletionTime v) (queue_at q (UnbondingCompletionTime v) @ [a]) q)"
proof -
  have "queue_at (kv_set (UnbondingCompletionTime v) (queue_at q (UnbondingCompletionTime v) @ [a]) q) t =
      queue_at q t @ (if t = UnbondingCompletionTime v then [a] else [])" for t
    by (simp add: queue_at_def)
  then show ?thesis using assms by (auto simp: queue_rel_def)
qed

text \<open>The stores of validators while they are loaded.\<close>

definition loaded :: "'w staking_env \<Rightarrow> validator list \<Rightarrow> 'w staking_state \<Rightarrow> bool" where
  "loaded E vs s \<longleftrightarrow>
     (\<forall>a v. kv_get (st_validators s) a = Some v \<longleftrightarrow> v \<in> set vs \<and> OperatorAddress v = a) \<and>
     index_rel (arith E) (st_validators s) (st_powerIndex s) \<and>
     cons_rel (codec E) (st_validators s) (st_byConsAddr s) \<and> queue_rel (st_validators s) (st_valQueue s)"

lemma loaded_step:
  assumes "loaded E vs s" and "OperatorAddress v \<notin> OperatorAddress ` set vs"
    and "ConsAddress (codec E) v \<notin> ConsAddress (codec E) ` set vs"
    and "\<And>w. w \<in> set (vs @ [v]) \<Longrightarrow> length (OperatorAddress w) = AddrLen"
  shows "loaded E (vs @ [v]) (loadValidator E s v)"
proof -
  have dom: "kv_get (st_validators s) a = Some w \<longleftrightarrow> w \<in> set vs \<and> OperatorAddress w = a" for a w
    using assms(1) by (simp add: loaded_def)
  have new: "kv_get (st_validators s) (OperatorAddress v) = None"
    using dom assms(2) by (metis image_eqI option.exhaust)
  have keys: "GetValidatorsByPowerIndexKey (arith E) w \<noteq> GetValidatorsByPowerIndexKey (arith E) v"
    and cons: "ConsAddress (codec E) w \<noteq> ConsAddress (codec E) v"
    if "kv_get (st_validators s) b = Some w" for b w
  proof -
    have w: "w \<in> set vs" using that dom by simp
    then show "ConsAddress (codec E) w \<noteq> ConsAddress (codec E) v" using assms(3) by (metis image_eqI)
    show "GetValidatorsByPowerIndexKey (arith E) w \<noteq> GetValidatorsByPowerIndexKey (arith E) v"
      using index_key_inj [of w v "arith E"] w assms(2) assms(4) [of w] assms(4) [of v] by (metis Un_iff image_eqI list.set_intros(1) set_append)
  qed
  have "index_rel (arith E) (st_validators (loadValidator E s v)) (st_powerIndex (loadValidator E s v))"
    using inverse_rel_set [of "GetValidatorsByPowerIndexKey (arith E)" "\<lambda>v. \<not> Jailed v" _ "st_powerIndex s", OF _ new, of v] keys
      assms(1)
    by (simp add: loaded_def index_rel_def loadValidator_fields)
  moreover have "cons_rel (codec E) (st_validators (loadValidator E s v)) (st_byConsAddr (loadValidator E s v))"
    using inverse_rel_set [of "ConsAddress (codec E)" "\<lambda>v. True" _ "st_byConsAddr s", OF _ new, of v] cons assms(1)
    by (simp add: loaded_def cons_rel_def loadValidator_fields)
  moreover have "queue_rel (st_validators (loadValidator E s v)) (st_valQueue (loadValidator E s v))"
    using assms(1) queue_rel_add [OF _ new] queue_rel_insert [OF _ new] by (simp add: loaded_def loadValidator_fields)
  moreover have "kv_get (st_validators (loadValidator E s v)) a = Some w \<longleftrightarrow> w \<in> set (vs @ [v]) \<and> OperatorAddress w = a" for a w
    using dom [of a w] new assms(2) by (auto simp: loadValidator_fields)
  ultimately show ?thesis by (simp add: loaded_def)
qed

lemma loaded_all:
  assumes "loaded E [] s" and "distinct (map OperatorAddress vs)" and "distinct (map (ConsAddress (codec E)) vs)"
    and "\<And>w. w \<in> set vs \<Longrightarrow> length (OperatorAddress w) = AddrLen"
  shows "loaded E vs (foldl (loadValidator E) s vs)"
  using assms(2-4)
proof (induction vs rule: rev_induct)
  case Nil
  show ?case using assms(1) by simp
next
  case (snoc v vs)
  then have "loaded E vs (foldl (loadValidator E) s vs)" by simp
  then have "loaded E (vs @ [v]) (loadValidator E (foldl (loadValidator E) s vs) v)"
    by (rule loaded_step) (use snoc.prems in auto)
  then show ?case by simp
qed

lemma loadValidators_frame:
  "\<exists>vals bc pi vq. foldl (loadValidator E) s vs =
     s\<lparr>st_validators := vals, st_byConsAddr := bc, st_powerIndex := pi, st_valQueue := vq\<rparr>"
proof (induction vs arbitrary: s)
  case Nil
  have "s = s\<lparr>st_validators := st_validators s, st_byConsAddr := st_byConsAddr s, st_powerIndex := st_powerIndex s,
      st_valQueue := st_valQueue s\<rparr>" by simp
  then show ?case by (metis foldl_Nil)
next
  case (Cons v vs)
  from Cons.IH [of "loadValidator E s v"] show ?case by (auto simp: loadValidator_fields)
qed


lemma load_delegators:
  "foldl initDelegator (s, b) ds =
     (s\<lparr>st_delegators := foldl (\<lambda>m d. kv_set (DelegatorAddress d) d m) (st_delegators s) ds\<rparr>, b + (\<Sum>d\<leftarrow>ds. dTokens d))"
  by (induction ds arbitrary: s b) (simp_all add: initDelegator_def SetDelegator_def add.assoc)

lemma load_undelegations:
  "foldl initUnbondingDelegation (s, n) us =
     (s\<lparr>st_undelegations := foldl (\<lambda>m u. kv_set (udDelegatorAddress u) u m) (st_undelegations s) us,
        st_unQueue := foldl (\<lambda>q u. kv_set (CompletionTime u, udDelegatorAddress u) () q) (st_unQueue s) us\<rparr>,
      n + (\<Sum>u\<leftarrow>us. Quantity u))"
  by (induction us arbitrary: s n) (simp_all add: initUnbondingDelegation_def store_defs add.assoc)

lemma load_shares:
  "foldl (\<lambda>s x. SetShares s (seDelAddress x) (seValidatorAddress x) (seShares x)) s xs =
     s\<lparr>st_shares := foldl (\<lambda>m x. kv_set (seValidatorAddress x, seDelAddress x) (seShares x) m) (st_shares s) xs\<rparr>"
  by (induction xs arbitrary: s) (simp_all add: SetShares_def)

lemma load_proxies:
  "foldl (\<lambda>s p. SetProxyBinding s (pdProxyAddr p) (pdDelAddr p) False) s ps =
     s\<lparr>st_proxies := foldl (\<lambda>m p. kv_set (pdProxyAddr p, pdDelAddr p) () m) (st_proxies s) ps\<rparr>"
  by (induction ps arbitrary: s) (simp_all add: SetProxyBinding_def)

lemma queue_entries:
  "kv_get (foldl (\<lambda>q u. kv_set (key u) () q) q us) k \<noteq> None \<longleftrightarrow> kv_get q k \<noteq> None \<or> k \<in> key ` set us"
  by (induction us arbitrary: q) auto

text \<open>The last powers are restored when their validators are there.\<close>

lemma restore_powers:
  assumes "\<forall>e \<in> set es. kv_get (st_validators s) (fst e) \<noteq> None"
  shows "foldE (restoreLastPower E) (s, us) (map (\<lambda>(a, p). NewLastValidatorPower a p) es) =
    Inr (s\<lparr>st_lastPower := foldl (\<lambda>m e. kv_set (fst e) (snd e) m) (st_lastPower s) es\<rparr>,
      us @ map (\<lambda>e. \<lparr>vuPubKey = ConsPubKey (the (kv_get (st_validators s) (fst e))), vuPower = snd e\<rparr>) es)"
  using assms
proof (induction es arbitrary: s us)
  case (Cons e es)
  then obtain v where "kv_get (st_validators s) (fst e) = Some v" by auto
  with Cons show ?case
    by (simp add: case_prod_beta restoreLastPower_def NewLastValidatorPower_def store_defs ABCIValidatorUpdate_def Let_def)
qed simp

subsection \<open>What the export says of the stores\<close>

lemma rebuild_shares:
  "foldl (\<lambda>m x. kv_set (seValidatorAddress x, seDelAddress x) (seShares x) m) kv_empty
     (map (\<lambda>(d, v, x). NewSharesExported d v x) (IterateShares s)) = st_shares s"
  using kv_rebuild [of "st_shares s"]
  by (simp add: IterateShares_def foldl_map NewSharesExported_def case_prod_beta)

lemma rebuild_proxies:
  "foldl (\<lambda>m p. kv_set (pdProxyAddr p, pdDelAddr p) () m) kv_empty
     (map (\<lambda>(d, p). NewProxyDelegatorKeyExported d p) (IterateProxyAll s)) = st_proxies s"
  using kv_rebuild [of "st_proxies s"]
  by (simp add: IterateProxyAll_def foldl_map NewProxyDelegatorKeyExported_def case_prod_beta)

lemma kv_sum_values: "kv_sum (\<lambda>_ v. f v) m = (\<Sum>v\<leftarrow>map snd (kv_list m). f v)"
  by (simp add: kv_sum_def split_def comp_def)

text \<open>Stores of an index are determined by the records.\<close>

lemma inverse_rel_unique:
  assumes "inverse_rel key P vals idx" and "inverse_rel key P vals' idx'"
    and "\<And>a. map_option (\<lambda>v. (key v, P v)) (kv_get vals' a) = map_option (\<lambda>v. (key v, P v)) (kv_get vals a)"
  shows "idx' = idx"
proof (rule kv_eqI)
  fix k
  have "(\<exists>v. kv_get vals' a = Some v \<and> P v \<and> k = key v) \<longleftrightarrow> (\<exists>v. kv_get vals a = Some v \<and> P v \<and> k = key v)" for a
    using assms(3) [of a] by (cases "kv_get vals' a"; cases "kv_get vals a") auto
  then have "kv_get idx' k = Some a \<longleftrightarrow> kv_get idx k = Some a" for a
    using assms(1,2) by (simp add: inverse_rel_def)
  then show "kv_get idx' k = kv_get idx k" by (metis option.exhaust)
qed


lemma stored_validators:
  assumes "validators_inv E s"
  shows "distinct (map OperatorAddress (GetAllValidators s))" and "distinct (map (ConsAddress (codec E)) (GetAllValidators s))"
    and "v \<in> set (GetAllValidators s) \<longleftrightarrow> kv_get (st_validators s) (OperatorAddress v) = Some v"
proof -
  have key: "OperatorAddress w = a" if "(a, w) \<in> set (kv_list (st_validators s))" for a w
    using that validators_invD(1) [OF assms] by (simp add: kv_in_list)
  have "map OperatorAddress (GetAllValidators s) = map fst (kv_list (st_validators s))"
    using key by (auto simp: GetAllValidators_def)
  then show dist: "distinct (map OperatorAddress (GetAllValidators s))" by (simp add: kv_keys_distinct)
  have mem: "w \<in> set (GetAllValidators s) \<longleftrightarrow> kv_get (st_validators s) (OperatorAddress w) = Some w" for w
    using validators_invD(1) [OF assms] by (auto simp: GetAllValidators_def kv_values)
  then show "v \<in> set (GetAllValidators s) \<longleftrightarrow> kv_get (st_validators s) (OperatorAddress v) = Some v" .
  have "inverse_rel (ConsAddress (codec E)) (\<lambda>_. True) (st_validators s) (st_byConsAddr s)"
    using assms by (simp add: validators_inv_def cons_rel_def)
  then have "v = w" if "v \<in> set (GetAllValidators s)" "w \<in> set (GetAllValidators s)"
      "ConsAddress (codec E) v = ConsAddress (codec E) w" for v w
    using that inverse_rel_get unfolding mem by (metis option.inject)
  then show "distinct (map (ConsAddress (codec E)) (GetAllValidators s))"
    using dist by (simp add: distinct_map inj_on_def)
qed

text \<open>Stores without any entry, beside the accounts of the exported chain.\<close>

definition blank_stores :: "'w staking_state \<Rightarrow> bool" where
  "blank_stores s \<longleftrightarrow>
     st_validators s = kv_empty \<and> st_byConsAddr s = kv_empty \<and> st_powerIndex s = kv_empty \<and>
     st_lastPower s = kv_empty \<and> st_valQueue s = kv_empty \<and> st_shares s = kv_empty \<and>
     st_delegators s = kv_empty \<and> st_undelegations s = kv_empty \<and> st_unQueue s = kv_empty \<and>
     st_proxies s = kv_empty \<and> st_abandoned s = []"

lemma load_reset_validators:
  assumes inv: "validators_inv E s" and "blank_stores r"
  defines "t \<equiv> foldl (loadValidator E) r (map (reset (arith E)) (GetAllValidators s))"
  shows "kv_get (st_validators t) a = map_option (reset (arith E)) (kv_get (st_validators s) a)"
    and "st_powerIndex t = st_powerIndex s" and "st_byConsAddr t = st_byConsAddr s"
    and "queue_rel (st_validators t) (st_valQueue t)"
    and "index_rel (arith E) (st_validators t) (st_powerIndex t)"
    and "cons_rel (codec E) (st_validators t) (st_byConsAddr t)"
proof -
  note own = validators_invD [OF inv] and mem = stored_validators(3) [OF inv]
  have "loaded E [] r"
    using assms(2)
    by (simp add: blank_stores_def loaded_def index_rel_def cons_rel_def inverse_rel_def queue_rel_def queue_at_def)
  then have ld: "loaded E (map (reset (arith E)) (GetAllValidators s)) t"
    unfolding t_def
    by (rule loaded_all)
      (use stored_validators(1,2) [OF inv] mem own(2) in \<open>auto simp: comp_def\<close>)
  then show "queue_rel (st_validators t) (st_valQueue t)"
    and ix: "index_rel (arith E) (st_validators t) (st_powerIndex t)"
    and co: "cons_rel (codec E) (st_validators t) (st_byConsAddr t)" by (simp_all add: loaded_def)
  have get: "kv_get (st_validators t) a = map_option (reset (arith E)) (kv_get (st_validators s) a)" for a
  proof (cases "kv_get (st_validators s) a")
    case None
    then have "kv_get (st_validators t) a \<noteq> Some w" for w
      using ld mem by (auto simp: loaded_def)
    then show ?thesis using None by (cases "kv_get (st_validators t) a") auto
  next
    case (Some v)
    then have "reset (arith E) v \<in> set (map (reset (arith E)) (GetAllValidators s))" and "OperatorAddress v = a"
      using own(1) mem by auto
    then show ?thesis using ld Some by (auto simp: loaded_def)
  qed
  then show "kv_get (st_validators t) a = map_option (reset (arith E)) (kv_get (st_validators s) a)" .
  have old: "inverse_rel (GetValidatorsByPowerIndexKey (arith E)) (\<lambda>v. \<not> Jailed v) (st_validators s) (st_powerIndex s)"
      "inverse_rel (ConsAddress (codec E)) (\<lambda>_. True) (st_validators s) (st_byConsAddr s)"
    using inv by (simp_all add: validators_inv_def index_rel_def cons_rel_def)
  show "st_powerIndex t = st_powerIndex s"
    by (rule inverse_rel_unique [OF old(1) ix [unfolded index_rel_def]])
      (simp add: get option.map_comp comp_def)
  show "st_byConsAddr t = st_byConsAddr s"
    by (rule inverse_rel_unique [OF old(2) co [unfolded cons_rel_def]])
      (simp add: get option.map_comp comp_def)
qed


text \<open>A sum over a store whose values are replaced by ones that count the same.\<close>

lemma kv_sum_map:
  assumes "\<And>a. kv_get m' a = map_option g (kv_get m a)" and "\<And>v. f (g v) = f v"
  shows "kv_sum (\<lambda>_ v. f v) m' = kv_sum (\<lambda>_ v. f v) m"
proof -
  have dist: "distinct (kv_list n)" for n :: "('a, 'b) kv"
    using kv_keys_distinct [of n] by (simp add: distinct_map)
  have img: "set (kv_list m') = (\<lambda>(a, v). (a, g v)) ` set (kv_list m)"
  proof (intro set_eqI iffI)
    fix e
    assume "e \<in> set (kv_list m')"
    then have "kv_get m' (fst e) = Some (snd e)" by (simp add: kv_in_list [symmetric])
    then obtain v where "kv_get m (fst e) = Some v" "snd e = g v" by (auto simp: assms(1))
    then show "e \<in> (\<lambda>(a, v). (a, g v)) ` set (kv_list m)"
      by (intro image_eqI [of _ _ "(fst e, v)"]) (simp_all add: kv_in_list prod_eq_iff)
  qed (auto simp: kv_in_list assms(1))
  have inj: "inj_on (\<lambda>(a, v). (a, g v)) (set (kv_list m))"
    by (auto simp: inj_on_def kv_in_list)
  show ?thesis
    unfolding kv_sum_def sum_list_distinct_conv_sum_set [OF dist] img sum.reindex [OF inj]
    by (rule sum.cong) (auto simp: assms(2))
qed

subsection \<open>Import of an export\<close>

definition pools_hold_bond :: "'w staking_env \<Rightarrow> 'w pool_env \<Rightarrow> 'w \<Rightarrow> bool" where
  "pools_hold_bond E G w \<longleftrightarrow>
     (\<forall>n \<in> {BondedPoolName, NotBondedPoolName}. pe_GetCoins G w n =
        Some (ToCoins (arith E) (NewDecCoinFromDec (DefaultBondDenom (arith E)) (poolAmount E w n))))"

definition coin_sets_ok :: "'w staking_env \<Rightarrow> 'w pool_env \<Rightarrow> bool" where
  "coin_sets_ok E G \<longleftrightarrow>
     (\<forall>c. length (ToCoins (arith E) c) \<le> 1) \<and> pe_IsZero G [] \<and> (\<forall>cs. pe_IsEqual G cs cs = Some True)"

lemma checkTokenSum_exact:
  "coin_sets_ok E G \<Longrightarrow> checkTokenSum E G c (ToCoins (arith E) c) = Inr ()"
  by (cases "ToCoins (arith E) c = []") (auto simp: coin_sets_ok_def checkTokenSum_def le_Suc_eq)

lemma checkPools_exact:
  assumes "coin_sets_ok E G" and "pools_hold_bond E G (st_world s)"
    and "b = poolAmount E (st_world s) BondedPoolName" and "n = poolAmount E (st_world s) NotBondedPoolName"
  shows "checkPools E G s (NewDecCoinFromDec (DefaultBondDenom (arith E)) b)
    (NewDecCoinFromDec (DefaultBondDenom (arith E)) n) exported = Inr ()"
  using assms by (simp add: checkPools_def pools_hold_bond_def checkTokenSum_exact)

lemma exportedD:
  assumes "ExportStakingGenesis E ctx s = Inr g"
  obtains ves where "ExportValidators (codec E) (GetAllValidators s) = Inr ves"
    and "g = \<lparr>gParams = GetParams E ctx s, gLastTotalPower = GetLastTotalPower s,
      gLastValidatorPowers = map (\<lambda>(a, p). NewLastValidatorPower a p) (IterateLastValidatorPowers s),
      gValidators = ves, gDelegators = IterateDelegator s, gUnbondingDelegations = IterateUndelegationInfo s,
      gAllShares = map (\<lambda>(d, v, x). NewSharesExported d v x) (IterateShares s),
      gProxyDelegatorKeys = map (\<lambda>(d, p). NewProxyDelegatorKeyExported d p) (IterateProxyAll s), gExported = True\<rparr>"
  using assms by (auto simp: ExportStakingGenesis_def res_simps)

definition queueOf :: "'w staking_state \<Rightarrow> (timestamp \<times> acc_address, unit) kv" where
  "queueOf s = foldl (\<lambda>q u. kv_set (CompletionTime u, udDelegatorAddress u) () q) kv_empty (IterateUndelegationInfo s)"

lemma queueOf_entries:
  assumes "undels_ok (st_undelegations s)"
  shows "kv_get (queueOf s) (t, a) \<noteq> None \<longleftrightarrow> (\<exists>u. GetUndelegating s a = Some u \<and> CompletionTime u = t)"
proof -
  have "(t, a) \<in> (\<lambda>u. (CompletionTime u, udDelegatorAddress u)) ` set (IterateUndelegationInfo s) \<longleftrightarrow>
      (\<exists>b u. kv_get (st_undelegations s) b = Some u \<and> CompletionTime u = t \<and> udDelegatorAddress u = a)"
    unfolding IterateUndelegationInfo_def set_map image_iff [of "(t, a)"] Bex_def kv_values by auto
  then show ?thesis
    using assms unfolding queueOf_def queue_entries by (auto simp: undels_ok_def GetUndelegating_def)
qed

lemma load_delegations:
  assumes "records_inv E s" and "ExportStakingGenesis E ctx s = Inr g" and "blank_stores t'"
    and "t = t'\<lparr>st_validators := vals, st_byConsAddr := bc, st_powerIndex := pi, st_valQueue := vq\<rparr>"
  shows "loadDelegations g (t, b) =
    ((t\<lparr>st_delegators := st_delegators s, st_undelegations := st_undelegations s, st_unQueue := queueOf s,
        st_shares := st_shares s, st_proxies := st_proxies s\<rparr>,
      b + kv_sum (\<lambda>_ d. dTokens d) (st_delegators s)), notBondedSum s)"
proof -
  from exportedD [OF assms(2)] obtain ves where g: "gDelegators g = IterateDelegator s"
    "gUnbondingDelegations g = IterateUndelegationInfo s"
    "gAllShares g = map (\<lambda>(d, v, x). NewSharesExported d v x) (IterateShares s)"
    "gProxyDelegatorKeys g = map (\<lambda>(d, p). NewProxyDelegatorKeyExported d p) (IterateProxyAll s)"
    by (metis staking_genesis.select_convs(5-8))
  have "foldl (\<lambda>m d. kv_set (DelegatorAddress d) d m) kv_empty (IterateDelegator s) = st_delegators s"
    using assms(1) unfolding IterateDelegator_def by (intro keyed_rebuild) (simp add: records_inv_def dels_ok_def)
  moreover have "foldl (\<lambda>m u. kv_set (udDelegatorAddress u) u m) kv_empty (IterateUndelegationInfo s) = st_undelegations s"
    using assms(1) unfolding IterateUndelegationInfo_def by (intro keyed_rebuild) (simp add: records_inv_def undels_ok_def)
  ultimately show ?thesis
    using assms(3,4)
    by (simp add: loadDelegations_def g load_delegators load_undelegations load_shares load_proxies rebuild_shares
        rebuild_proxies blank_stores_def queueOf_def notBondedSum_def kv_sum_values IterateDelegator_def
        IterateUndelegationInfo_def)
qed


lemma reset_store_inv:
  assumes inv: "staking_inv E s"
    and get: "\<And>a. kv_get (st_validators t) a = map_option (reset (arith E)) (kv_get (st_validators s) a)"
    and rels: "queue_rel (st_validators t) (st_valQueue t)" "index_rel (arith E) (st_validators t) (st_powerIndex t)"
      "cons_rel (codec E) (st_validators t) (st_byConsAddr t)"
    and same: "st_lastPower t = st_lastPower s" "st_abandoned t = []" "st_shares t = st_shares s"
      "st_delegators t = st_delegators s" "st_undelegations t = st_undelegations s" "st_world t = st_world s"
  shows "staking_inv E t"
proof -
  have rec: "records_inv E s" and vals: "validators_inv E s" using inv by (simp_all add: staking_inv_def inv_at_def records_inv_def)
  have "vals_ok (st_validators t)"
    using validators_invD [OF vals] by (auto simp: vals_ok_def get)
  moreover have "last_rel (st_validators t) (st_lastPower t)"
    using vals by (auto simp: validators_inv_def last_rel_def get same)
  moreover have "sums_rel (arith E) (st_validators t) (st_shares t)"
    using vals by (auto simp: validators_inv_def sums_rel_def get same)
  ultimately have "validators_inv E t"
    using rels by (simp add: validators_inv_def same aband_rel_def)
  moreover have "link_rel (st_validators t) (st_delegators t) (st_shares t)"
    using rec by (simp add: records_inv_def link_rel_def get same)
  moreover have "bondedSum t = bondedSum s"
    using kv_sum_map [where f = MinSelfDelegation, OF get] by (simp add: bondedSum_def same)
  ultimately show ?thesis
    using inv by (simp add: staking_inv_def inv_at_def records_inv_def notBondedSum_def same)
qed

text \<open>The queue of unbonding validators may list the validators of one time in another order.\<close>

lemma queue_slices_same:
  assumes "queue_rel vals q" and "queue_rel vals' q'" and "\<And>a. kv_get vals' a = map_option (reset A) (kv_get vals a)"
  shows "set (queue_at q' t) = set (queue_at q t)"
proof -
  have "(\<exists>v. kv_get vals' a = Some v \<and> Status v = Unbonding \<and> UnbondingCompletionTime v = t) \<longleftrightarrow>
      (\<exists>v. kv_get vals a = Some v \<and> Status v = Unbonding \<and> UnbondingCompletionTime v = t)" for a
    by (auto simp: assms(3))
  then show ?thesis using assms(1,2) by (auto simp: queue_rel_def)
qed

text \<open>The state that the import builds: the validators are loaded one by one, the other records are those of the
  export.\<close>

definition loadedState :: "'w staking_env \<Rightarrow> block_ctx \<Rightarrow> 'w staking_state \<Rightarrow> 'w staking_state \<Rightarrow> 'w staking_state" where
  "loadedState E ctx s r =
     foldl (loadValidator E) (SetLastTotalPower (SetParams r (GetParams E ctx s)) (GetLastTotalPower s))
       (map (reset (arith E)) (GetAllValidators s))"

definition importState :: "'w staking_env \<Rightarrow> block_ctx \<Rightarrow> 'w staking_state \<Rightarrow> 'w staking_state \<Rightarrow> 'w staking_state" where
  "importState E ctx s r = (loadedState E ctx s r)
     \<lparr>st_delegators := st_delegators s, st_undelegations := st_undelegations s, st_unQueue := queueOf s,
      st_shares := st_shares s, st_proxies := st_proxies s, st_lastPower := st_lastPower s\<rparr>"

lemma staking_inv_parts:
  assumes "staking_inv E s"
  shows "records_inv E s" "validators_inv E s" "undels_ok (st_undelegations s)"
    and "(\<Sum>v\<leftarrow>GetAllValidators s. MinSelfDelegation v) + kv_sum (\<lambda>_ d. dTokens d) (st_delegators s) =
      poolAmount E (st_world s) BondedPoolName"
    and "notBondedSum s = poolAmount E (st_world s) NotBondedPoolName"
  using assms
  by (simp_all add: staking_inv_def inv_at_def records_inv_def bondedSum_def kv_sum_values [of MinSelfDelegation] GetAllValidators_def)

lemma loadedState_cases:
  assumes "blank_stores r"
  obtains r1 va bc px vq where "blank_stores r1" and "st_world r1 = st_world r"
    and "r1 = r\<lparr>st_params := GetParams E ctx s, st_lastTotalPower := Some (GetLastTotalPower s)\<rparr>"
    and "loadedState E ctx s r = foldl (loadValidator E) r1 (map (reset (arith E)) (GetAllValidators s))"
    and "loadedState E ctx s r = r1\<lparr>st_validators := va, st_byConsAddr := bc, st_powerIndex := px, st_valQueue := vq\<rparr>"
proof -
  let ?r1 = "SetLastTotalPower (SetParams r (GetParams E ctx s)) (GetLastTotalPower s)"
  obtain va bc px vq where "loadedState E ctx s r =
      ?r1\<lparr>st_validators := va, st_byConsAddr := bc, st_powerIndex := px, st_valQueue := vq\<rparr>"
    unfolding loadedState_def using loadValidators_frame by blast
  then show ?thesis
    using assms by (intro that [of ?r1]) (simp_all add: blank_stores_def store_defs loadedState_def)
qed

lemma import_run:
  assumes inv: "staking_inv E s" and codec: "pubkey_decodes (codec E)" and exp: "ExportStakingGenesis E ctx s = Inr g"
    and pools: "coin_sets_ok E G" "pools_hold_bond E G (st_world s)"
    and blank: "blank_stores r" and w: "st_world r = st_world s"
  shows "InitStakingGenesis E G ictx r g = Inr (importState E ctx s r,
    map (\<lambda>(a, p). \<lparr>vuPubKey = ConsPubKey (the (GetValidator s a)), vuPower = p\<rparr>) (kv_list (st_lastPower s)))"
proof -
  note parts = staking_inv_parts [OF inv]
  from exportedD [OF exp] obtain ves where ves: "ExportValidators (codec E) (GetAllValidators s) = Inr ves"
    and g: "gParams g = GetParams E ctx s" "gLastTotalPower g = GetLastTotalPower s" "gValidators g = ves" "gExported g"
      "gLastValidatorPowers g = map (\<lambda>(a, p). NewLastValidatorPower a p) (IterateLastValidatorPowers s)"
    by (metis staking_genesis.select_convs)
  obtain r1 va bc px vq where blank1: "blank_stores r1" and w1: "st_world r1 = st_world r"
    and r1: "r1 = r\<lparr>st_params := GetParams E ctx s, st_lastTotalPower := Some (GetLastTotalPower s)\<rparr>"
    and t1: "loadedState E ctx s r = foldl (loadValidator E) r1 (map (reset (arith E)) (GetAllValidators s))"
    and fr: "loadedState E ctx s r = r1\<lparr>st_validators := va, st_byConsAddr := bc, st_powerIndex := px, st_valQueue := vq\<rparr>"
    by (rule loadedState_cases [OF blank])
  define t2 where "t2 = (importState E ctx s r)\<lparr>st_lastPower := kv_empty\<rparr>"
  have t2: "t2 = (loadedState E ctx s r)\<lparr>st_delegators := st_delegators s, st_undelegations := st_undelegations s,
      st_unQueue := queueOf s, st_shares := st_shares s, st_proxies := st_proxies s\<rparr>"
    using blank1 by (simp add: t2_def importState_def fr blank_stores_def)
  have get: "kv_get (st_validators t2) a = map_option (reset (arith E)) (kv_get (st_validators s) a)" for a
    by (simp add: t2 t1 load_reset_validators(1) [OF parts(2) blank1])
  have "kv_get (st_validators s) a \<noteq> None" if "(a, p) \<in> set (kv_list (st_lastPower s))" for a p
    using that parts(2) by (auto simp: kv_in_list validators_inv_def last_rel_def)
  then have last: "\<forall>e \<in> set (kv_list (st_lastPower s)). kv_get (st_validators t2) (fst e) \<noteq> None"
    by (auto simp: get)
  have init: "foldE (initValidator E True) (r1, 0) (gValidators g) =
      Inr (loadedState E ctx s r, \<Sum>v\<leftarrow>GetAllValidators s. MinSelfDelegation v)"
    using init_exported [OF codec ves, of r1 0] by (simp add: g(3) t1)
  have "SetLastTotalPower (SetParams r (gParams g)) (gLastTotalPower g) = r1" by (simp add: r1 store_defs g)
  then have "InitStakingGenesis E G ictx r g = foldE (restoreLastPower E) (t2, []) (gLastValidatorPowers g)"
    using checkPools_exact [OF pools(1), of t2 "poolAmount E (st_world s) BondedPoolName"
        "poolAmount E (st_world s) NotBondedPoolName" True] pools(2) parts(4,5) w w1
    by (simp add: InitStakingGenesis_def Let_def init load_delegations [OF parts(1) exp blank1 fr] t2 [symmetric] g(4))
      (simp add: t2 fr)
  moreover have "map (\<lambda>e. \<lparr>vuPubKey = ConsPubKey (the (kv_get (st_validators t2) (fst e))), vuPower = snd e\<rparr>) (kv_list (st_lastPower s)) =
      map (\<lambda>(a, p). \<lparr>vuPubKey = ConsPubKey (the (GetValidator s a)), vuPower = p\<rparr>) (kv_list (st_lastPower s))"
    using last by (auto simp: get GetValidator_def)
  moreover have "t2\<lparr>st_lastPower := st_lastPower s\<rparr> = importState E ctx s r" "st_lastPower t2 = kv_empty"
    by (simp_all add: t2_def importState_def)
  ultimately show ?thesis
    using restore_powers [OF last, of E "[]"] kv_rebuild [of "st_lastPower s"] by (simp add: g(5) IterateLastValidatorPowers_def)
qed

lemma importState_fields:
  fixes ctx :: block_ctx
  assumes inv: "staking_inv E s" and blank: "blank_stores r" and w: "st_world r = st_world s"
  defines "t \<equiv> importState E ctx s r"
  shows "t = r\<lparr>st_params := GetParams E ctx s, st_lastTotalPower := Some (GetLastTotalPower s),
      st_validators := st_validators t, st_byConsAddr := st_byConsAddr s, st_powerIndex := st_powerIndex s,
      st_lastPower := st_lastPower s, st_valQueue := st_valQueue t, st_delegators := st_delegators s,
      st_undelegations := st_undelegations s, st_unQueue := st_unQueue t, st_shares := st_shares s,
      st_proxies := st_proxies s\<rparr>"
    and "GetValidator t a = map_option (reset (arith E)) (GetValidator s a)"
    and "set (GetValidatorQueueTimeSlice t at) = set (GetValidatorQueueTimeSlice s at)"
    and "kv_get (st_unQueue t) (at, a) \<noteq> None \<longleftrightarrow> (\<exists>u. GetUndelegating s a = Some u \<and> CompletionTime u = at)"
    and "staking_inv E t"
proof -
  note parts = staking_inv_parts [OF inv]
  obtain r1 va bc px vq where blank1: "blank_stores r1" and w1: "st_world r1 = st_world r"
    and r1: "r1 = r\<lparr>st_params := GetParams E ctx s, st_lastTotalPower := Some (GetLastTotalPower s)\<rparr>"
    and t1: "loadedState E ctx s r = foldl (loadValidator E) r1 (map (reset (arith E)) (GetAllValidators s))"
    and fr: "loadedState E ctx s r = r1\<lparr>st_validators := va, st_byConsAddr := bc, st_powerIndex := px, st_valQueue := vq\<rparr>"
    by (rule loadedState_cases [OF blank])
  note load = load_reset_validators [OF parts(2) blank1, folded t1]
  show "GetValidator t a = map_option (reset (arith E)) (GetValidator s a)"
    by (simp add: GetValidator_def t_def importState_def load(1))
  show "set (GetValidatorQueueTimeSlice t at) = set (GetValidatorQueueTimeSlice s at)"
    using queue_slices_same [OF _ load(4,1)] parts(2)
    by (simp add: validators_inv_def GetValidatorQueueTimeSlice_def queue_at_def [symmetric] t_def importState_def)
  show "kv_get (st_unQueue t) (at, a) \<noteq> None \<longleftrightarrow> (\<exists>u. GetUndelegating s a = Some u \<and> CompletionTime u = at)"
    using queueOf_entries [OF parts(3)] by (simp add: t_def importState_def)
  show "staking_inv E t"
  proof (rule reset_store_inv [OF inv])
    show "st_abandoned t = []" "st_world t = st_world s"
      using blank1 w w1 by (simp_all add: t_def importState_def fr blank_stores_def)
  qed (use load in \<open>simp_all add: t_def importState_def\<close>)
  show "t = r\<lparr>st_params := GetParams E ctx s, st_lastTotalPower := Some (GetLastTotalPower s),
      st_validators := st_validators t, st_byConsAddr := st_byConsAddr s, st_powerIndex := st_powerIndex s,
      st_lastPower := st_lastPower s, st_valQueue := st_valQueue t, st_delegators := st_delegators s,
      st_undelegations := st_undelegations s, st_unQueue := st_unQueue t, st_shares := st_shares s,
      st_proxies := st_proxies s\<rparr>"
    using load(2,3) by (simp add: t_def importState_def fr r1)
qed

subsection \<open>The check of an export\<close>

lemma validateValidatorsLoop_None:
  "validateValidatorsLoop C seen ves = None \<longleftrightarrow>
     distinct (map xConsPubKey ves) \<and> set (map xConsPubKey ves) \<inter> set seen = {} \<and>
     (\<forall>ve \<in> set ves. \<not> (xJailed ve \<and> ExportedIsBonded ve) \<and> xDelegatorShares ve \<noteq> 0)"
  by (induction ves arbitrary: seen) auto

lemma ExportValidators_all2:
  "ExportValidators C vs = Inr ves \<Longrightarrow> list_all2 (\<lambda>v ve. Export C v = Inr ve) vs ves"
  by (induction vs arbitrary: ves) (auto simp: res_simps)

lemma Export_fields:
  "Export C v = Inr ve \<Longrightarrow> ConvertAndEncode C (ConsPubKey v) = Some (xConsPubKey ve) \<and> xJailed ve = Jailed v \<and>
     xStatus ve = Status v \<and> xDelegatorShares ve = DelegatorShares v"
  by (auto simp: Export_def split: option.splits)

lemma all2_source: "list_all2 P xs ys \<Longrightarrow> y \<in> set ys \<Longrightarrow> \<exists>x \<in> set xs. P x y"
  by (induction rule: list_all2_induct) auto

lemma exported_keys_distinct:
  assumes "pubkey_decodes C" and "list_all2 (\<lambda>v ve. Export C v = Inr ve) vs ves" and "distinct (map (ConsAddress C) vs)"
  shows "distinct (map xConsPubKey ves)"
  using assms(2,3)
proof (induction rule: list_all2_induct)
  case (Cons v vs ve ves)
  have "xConsPubKey ve \<noteq> xConsPubKey ve'" if mem: "ve' \<in> set ves" for ve'
  proof
    assume same: "xConsPubKey ve = xConsPubKey ve'"
    obtain v' where v': "v' \<in> set vs" "Export C v' = Inr ve'"
      using all2_source [OF Cons.hyps(2) mem] by blast
    have "ConsPubKey v = ConsPubKey v'"
      using Export_fields [OF Cons.hyps(1)] Export_fields [OF v'(2)] same assms(1)
      unfolding pubkey_decodes_def by (metis option.inject)
    then have "ConsAddress C v = ConsAddress C v'" by (simp add: ConsAddress_def)
    with v'(1) Cons.prems show False by auto
  qed
  then have "xConsPubKey ve \<notin> xConsPubKey ` set ves" by blast
  then show ?case using Cons.IH Cons.prems by simp
qed simp

lemma exported_flags:
  assumes "list_all2 (\<lambda>v ve. Export C v = Inr ve) vs ves"
  shows "(\<forall>ve \<in> set ves. \<not> (xJailed ve \<and> ExportedIsBonded ve) \<and> xDelegatorShares ve \<noteq> 0) \<longleftrightarrow>
    (\<forall>v \<in> set vs. \<not> (Jailed v \<and> IsBonded v) \<and> DelegatorShares v \<noteq> 0)"
  using assms
proof (induction rule: list_all2_induct)
  case (Cons v vs ve ves)
  with Export_fields [OF Cons.hyps(1)] show ?case by (simp add: ExportedIsBonded_def IsBonded_def)
qed simp

lemma export_check:
  assumes inv: "staking_inv E s" and codec: "pubkey_decodes (codec E)" and exp: "ExportStakingGenesis E ctx s = Inr g"
  shows "ValidateStakingGenesis (codec E) g = None \<longleftrightarrow>
    (\<forall>v \<in> set (GetAllValidators s). \<not> (Jailed v \<and> IsBonded v) \<and> DelegatorShares v \<noteq> 0) \<and>
    ParamsValidate (GetParams E ctx s) = None"
proof -
  from exportedD [OF exp] obtain ves where ves: "ExportValidators (codec E) (GetAllValidators s) = Inr ves"
    and g: "gParams g = GetParams E ctx s" "gValidators g = ves"
    by (metis staking_genesis.select_convs(1,4))
  have vals: "validators_inv E s" using inv by (simp add: staking_inv_def inv_at_def records_inv_def)
  note all2 = ExportValidators_all2 [OF ves]
  have "validateGenesisStateValidators (codec E) ves = None \<longleftrightarrow>
      (\<forall>v \<in> set (GetAllValidators s). \<not> (Jailed v \<and> IsBonded v) \<and> DelegatorShares v \<noteq> 0)"
    using exported_keys_distinct [OF codec all2 stored_validators(2) [OF vals]] exported_flags [OF all2]
    by (simp add: validateGenesisStateValidators_def validateValidatorsLoop_None)
  then show ?thesis
    by (auto simp: ValidateStakingGenesis_def g split: option.splits)
qed

subsection \<open>Properties\<close>

definition pools0 :: "pools pool_env" where
  "pools0 = \<lparr>
     pe_GetCoins = (\<lambda>w n. Some (ToCoins dec18 (NewDecCoinFromDec ''okt'' (poolAmount env0 w n)))),
     pe_IsZero = (\<lambda>cs. \<forall>c \<in> set cs. Amount c = 0),
     pe_IsEqual = (\<lambda>cs cs'. if length cs \<noteq> length cs' then Some False
       else if map Denom cs \<noteq> map Denom cs' then None else Some (cs = cs')),
     ValidatorUpdateDelay = 1\<rparr>"

lemma pools0_ok: "coin_sets_ok env0 pools0" "pools_hold_bond env0 pools0 w"
  by (simp_all add: coin_sets_ok_def pools_hold_bond_def pools0_def dec18_def)

lemma stateVal_exports: "\<exists>g. ExportStakingGenesis env0 ctx0 stateVal = Inr g"
  by (simp add: ExportStakingGenesis_def GetAllValidators_def stateVal_def Export_def codec0_def)



text \<open>C39: When an export passes the check of genesis files. The export of a reachable state is accepted exactly when no
  validator is bonded and jailed or without shares and the parameters are positive; the keys of its validators are
  never found twice. A destroyed validator that nobody voted for has no shares until its unbonding ends, so that an
  export in this time is refused.\<close>

theorem export_validates_iff:
  assumes "env_ok E" and "hooks_total E" and "undelegate_no_panic E" and "reachable E s"
    and "pubkey_decodes (codec E)" and "ExportStakingGenesis E ctx s = Inr g"
  shows "ValidateStakingGenesis (codec E) g = None \<longleftrightarrow>
    (\<forall>v \<in> set (GetAllValidators s). \<not> (Jailed v \<and> IsBonded v) \<and> DelegatorShares v \<noteq> 0) \<and>
    ParamsValidate (GetParams E ctx s) = None"
  by (rule export_check [OF reachable_inv [OF assms(1-4)] assms(5,6)])

theorem export_validates_iff_witness:
  "\<exists>g. ExportStakingGenesis env0 ctx0 stateVal = Inr g \<and> ValidateStakingGenesis codec0 g = None"
proof -
  obtain g where g: "ExportStakingGenesis env0 ctx0 stateVal = Inr g" using stateVal_exports by blast
  have "ParamsValidate (GetParams env0 ctx0 stateVal) = None"
    by (simp add: ParamsValidate_def GetParams_def stateVal_def state0_def DefaultParams_def NewParams_def
        DefaultMaxValidators_def DefaultEpoch_def DefaultMaxValsToAddShares_def Let_def)
  moreover have "\<forall>v \<in> set (GetAllValidators stateVal). \<not> (Jailed v \<and> IsBonded v) \<and> DelegatorShares v \<noteq> 0"
    by (simp add: GetAllValidators_def stateVal_def val0_def NewValidator_def)
  ultimately show ?thesis
    using g export_validates_iff [OF env0_ok env0_live stateVal_reachable _ g] by (auto simp: codec0_pubkey_decodes)
qed

end
