(* ===== verification/Staking_Query.thy ===== *)
theory Staking_Query
  imports Staking_Genesis_Props
begin

text \<open>
  The queries of the staking module (staking/keeper/querier.go): the values they answer, before these are rendered as
  JSON. The decoding of requests, the pages of the SDK's client and the text forms of addresses are parameters. In a
  reachable state the answers agree with the records: the pools are their sums and a validator is found by its address.
\<close>

subsection \<open>Queries\<close>

record QueryValidatorsParams =
  qvPage :: int
  qvLimit :: int
  qvStatus :: string

record Pool =
  NotBondedTokens :: dec
  poolBondedTokens :: dec

definition NewPool :: "dec \<Rightarrow> dec \<Rightarrow> Pool" where
  "NewPool notBonded bonded = \<lparr>NotBondedTokens = notBonded, poolBondedTokens = bonded\<rparr>"

record query_env =
  UnmarshalDelegatorParams :: "bytes \<Rightarrow> acc_address option"
  UnmarshalValidatorParams :: "bytes \<Rightarrow> val_address option"
  UnmarshalValidatorsParams :: "bytes \<Rightarrow> QueryValidatorsParams option"
  clientPaginate :: "int \<Rightarrow> int \<Rightarrow> int \<Rightarrow> int \<Rightarrow> int \<times> int"
    \<comment> \<open>of a number of objects, page, limit and default limit: negative numbers, or a range of the objects\<close>
  AddressString :: "cons_address \<Rightarrow> string"
  ValAddressFromBech32 :: "string \<Rightarrow> val_address option"
  bytesString :: "bytes \<Rightarrow> string"

datatype staking_query_error =
    QErrUnMarshalJSON
  | QErrNoDelegatorExisted acc_address
  | QErrNoValidatorFound val_address
  | QErrNoValidatorWithAddress string
  | QErrBondedPoolOrNotBondedIsNotExist
  | QErrNoUnbondingDelegation
  | QErrBadValidatorAddr
  | QErrCreateAddrFromBech32 string
  | QErrUnknownStakingQueryType
  | QPanic

datatype staking_answer =
    AnsDelegator delegator
  | AnsValidators "validator list"
  | AnsValidator validator
  | AnsPool Pool
  | AnsParams staking_params
  | AnsAddresses "acc_address list"
  | AnsShares "(acc_address \<times> dec) list"
  | AnsUndelegation undelegation_info
  | AnsPairs "(val_address \<times> string) list"
  | AnsAddress bytes

definition upperAscii :: "char \<Rightarrow> char" where
  "upperAscii c = (if 97 \<le> (of_char c :: nat) \<and> (of_char c :: nat) \<le> 122 then char_of (of_char c - 32 :: nat) else c)"

text \<open>No letter of a status and no hexadecimal digit has a counterpart outside ASCII, so that \<open>EqualFold\<close> and
  \<open>ToUpper\<close> can be taken character by character.\<close>

definition EqualFold :: "string \<Rightarrow> string \<Rightarrow> bool" where
  "EqualFold a b \<longleftrightarrow> map upperAscii a = map upperAscii b"

definition BondStatusString :: "bond_status \<Rightarrow> string" where
  "BondStatusString st = (case st of Unbonded \<Rightarrow> ''Unbonded'' | Unbonding \<Rightarrow> ''Unbonding'' | Bonded \<Rightarrow> ''Bonded'')"

definition GetOperAddrFromValidatorAddr :: "'w staking_env \<Rightarrow> query_env \<Rightarrow> 'w staking_state \<Rightarrow> string \<Rightarrow> val_address option" where
  "GetOperAddrFromValidatorAddr E Q s va =
     map_option OperatorAddress
       (find (\<lambda>v. map upperAscii va = AddressString Q (PubKeyAddress (codec E) (ConsPubKey v))) (GetAllValidators s))"

definition GetOperAndValidatorAddr :: "'w staking_env \<Rightarrow> query_env \<Rightarrow> 'w staking_state \<Rightarrow> (val_address \<times> string) list" where
  "GetOperAndValidatorAddr E Q s =
     map (\<lambda>v. (OperatorAddress v, AddressString Q (PubKeyAddress (codec E) (ConsPubKey v)))) (GetAllValidators s)"

definition queryDelegator :: "query_env \<Rightarrow> 'w staking_state \<Rightarrow> bytes \<Rightarrow> staking_query_error + staking_answer" where
  "queryDelegator Q s data =
     (case UnmarshalDelegatorParams Q data of
        None \<Rightarrow> Inl QErrUnMarshalJSON
      | Some addr \<Rightarrow>
          case GetDelegator s addr of None \<Rightarrow> Inl (QErrNoDelegatorExisted addr) | Some d \<Rightarrow> Inr (AnsDelegator d))"

definition queryValidators ::
    "'w staking_env \<Rightarrow> query_env \<Rightarrow> block_ctx \<Rightarrow> 'w staking_state \<Rightarrow> bytes \<Rightarrow> staking_query_error + staking_answer" where
  "queryValidators E Q ctx s data =
     (case UnmarshalValidatorsParams Q data of
        None \<Rightarrow> Inl QErrUnMarshalJSON
      | Some params \<Rightarrow>
          if qvStatus params = ''all'' then Inr (AnsValidators (GetAllValidators s))
          else
            let filteredVals = filter (\<lambda>v. EqualFold (BondStatusString (Status v)) (qvStatus params)) (GetAllValidators s);
                (start, end) = clientPaginate Q (int (length filteredVals)) (qvPage params) (qvLimit params)
                  (int (pMaxValidators (GetParams E ctx s)))
            in if start < 0 \<or> end < 0 then Inr (AnsValidators [])
               else Inr (AnsValidators (take (nat (end - start)) (drop (nat start) filteredVals))))"

definition queryValidator :: "query_env \<Rightarrow> 'w staking_state \<Rightarrow> bytes \<Rightarrow> staking_query_error + staking_answer" where
  "queryValidator Q s data =
     (case UnmarshalValidatorParams Q data of
        None \<Rightarrow> Inl QErrUnMarshalJSON
      | Some addr \<Rightarrow>
          case GetValidator s addr of None \<Rightarrow> Inl (QErrNoValidatorFound addr) | Some v \<Rightarrow> Inr (AnsValidator v))"

definition queryPool :: "'w staking_env \<Rightarrow> 'w pool_env \<Rightarrow> 'w staking_state \<Rightarrow> staking_query_error + staking_answer" where
  "queryPool E G s =
     (case (pe_GetCoins G (st_world s) BondedPoolName, pe_GetCoins G (st_world s) NotBondedPoolName) of
        (Some bonded, Some notBonded) \<Rightarrow>
          Inr (AnsPool (NewPool (AmountOf (BondDenom E) notBonded) (AmountOf (BondDenom E) bonded)))
      | _ \<Rightarrow> Inl QErrBondedPoolOrNotBondedIsNotExist)"

definition queryParameters :: "'w staking_env \<Rightarrow> block_ctx \<Rightarrow> 'w staking_state \<Rightarrow> staking_query_error + staking_answer" where
  "queryParameters E ctx s = Inr (AnsParams (GetParams E ctx s))"

definition queryProxy :: "query_env \<Rightarrow> 'w staking_state \<Rightarrow> bytes \<Rightarrow> staking_query_error + staking_answer" where
  "queryProxy Q s data =
     (case UnmarshalDelegatorParams Q data of
        None \<Rightarrow> Inl QErrUnMarshalJSON
      | Some addr \<Rightarrow> Inr (AnsAddresses (GetDelegatorsByProxy s addr)))"

definition queryValidatorAllShares :: "query_env \<Rightarrow> 'w staking_state \<Rightarrow> bytes \<Rightarrow> staking_query_error + staking_answer" where
  "queryValidatorAllShares Q s data =
     (case UnmarshalValidatorParams Q data of
        None \<Rightarrow> Inl QErrUnMarshalJSON
      | Some addr \<Rightarrow> Inr (AnsShares (GetValidatorAllShares s addr)))"

definition queryUndelegation :: "query_env \<Rightarrow> 'w staking_state \<Rightarrow> bytes \<Rightarrow> staking_query_error + staking_answer" where
  "queryUndelegation Q s data =
     (case UnmarshalDelegatorParams Q data of
        None \<Rightarrow> Inl QErrUnMarshalJSON
      | Some addr \<Rightarrow>
          case GetUndelegating s addr of None \<Rightarrow> Inl QErrNoUnbondingDelegation | Some u \<Rightarrow> Inr (AnsUndelegation u))"

definition queryAddress :: "'w staking_env \<Rightarrow> query_env \<Rightarrow> 'w staking_state \<Rightarrow> staking_query_error + staking_answer" where
  "queryAddress E Q s = Inr (AnsPairs (GetOperAndValidatorAddr E Q s))"

definition queryForAddress ::
    "'w staking_env \<Rightarrow> query_env \<Rightarrow> 'w staking_state \<Rightarrow> bytes \<Rightarrow> staking_query_error + staking_answer" where
  "queryForAddress E Q s data =
     (let validatorAddr = bytesString Q data
      in if length validatorAddr \<noteq> AddrLen * 2 then Inl QErrBadValidatorAddr
         else case GetOperAddrFromValidatorAddr E Q s validatorAddr of
             None \<Rightarrow> Inl (QErrNoValidatorWithAddress validatorAddr)
           | Some operAddr \<Rightarrow> Inr (AnsAddress operAddr))"

definition queryForAccAddress :: "query_env \<Rightarrow> bytes \<Rightarrow> staking_query_error + staking_answer" where
  "queryForAccAddress Q data =
     (case ValAddressFromBech32 Q (bytesString Q data) of
        None \<Rightarrow> Inl (QErrCreateAddrFromBech32 (bytesString Q data))
      | Some valAddr \<Rightarrow> Inr (AnsAddress valAddr))"

text \<open>The dispatch reads the first part of the path, which must be there.\<close>

definition NewStakingQuerier ::
    "'w staking_env \<Rightarrow> 'w pool_env \<Rightarrow> query_env \<Rightarrow> block_ctx \<Rightarrow> 'w staking_state \<Rightarrow> string list \<Rightarrow> bytes \<Rightarrow>
     staking_query_error + staking_answer" where
  "NewStakingQuerier E G Q ctx s path data =
     (case path of
        [] \<Rightarrow> Inl QPanic
      | p # _ \<Rightarrow>
          if p = ''validators'' then queryValidators E Q ctx s data
          else if p = ''validator'' then queryValidator Q s data
          else if p = ''pool'' then queryPool E G s
          else if p = ''parameters'' then queryParameters E ctx s
          else if p = ''unbondingDelegation'' then queryUndelegation Q s data
          else if p = ''validatorAllShares'' then queryValidatorAllShares Q s data
          else if p = ''address'' then queryAddress E Q s
          else if p = ''validatorAddress'' then queryForAddress E Q s data
          else if p = ''validatorAccAddress'' then queryForAccAddress Q data
          else if p = ''proxy'' then queryProxy Q s data
          else if p = ''delegator'' then queryDelegator Q s data
          else Inl QErrUnknownStakingQueryType)"

subsection \<open>The answers agree with the records\<close>

lemma queryPool_sums:
  assumes inv: "staking_inv E s" and "pools_hold_bond E G (st_world s)" and "to_coins_keeps (arith E)"
  shows "queryPool E G s = Inr (AnsPool (NewPool (notBondedSum s) (bondedSum s)))"
proof -
  have amount: "AmountOf (BondDenom E) (ToCoins (arith E) (NewDecCoinFromDec (BondDenom E) x)) = x" for x
  proof -
    have "AmountOf (BondDenom E) (ToCoins (arith E) (NewDecCoinFromDec (BondDenom E) x)) =
        AmountOf (BondDenom E) [NewDecCoinFromDec (BondDenom E) x]"
      using assms(3) unfolding to_coins_keeps_def by blast
    also have "\<dots> = x" by (simp add: AmountOf_def NewDecCoinFromDec_def)
    finally show ?thesis .
  qed
  have bonded: "pe_GetCoins G (st_world s) BondedPoolName =
      Some (ToCoins (arith E) (NewDecCoinFromDec (BondDenom E) (poolAmount E (st_world s) BondedPoolName)))"
    and notBonded: "pe_GetCoins G (st_world s) NotBondedPoolName =
      Some (ToCoins (arith E) (NewDecCoinFromDec (BondDenom E) (poolAmount E (st_world s) NotBondedPoolName)))"
    using assms(2) unfolding pools_hold_bond_def BondDenom_def by blast+
  have pools: "poolAmount E (st_world s) BondedPoolName = bondedSum s" "poolAmount E (st_world s) NotBondedPoolName = notBondedSum s"
    using inv unfolding staking_inv_def inv_at_def by linarith+
  show ?thesis
    unfolding queryPool_def bonded notBonded prod.case option.case amount unfolding pools ..
qed

definition address_text :: "query_env \<Rightarrow> bool" where
  "address_text Q \<longleftrightarrow> inj (AddressString Q) \<and> (\<forall>a. map upperAscii (AddressString Q a) = AddressString Q a)"

lemma find_unique: "v \<in> set xs \<Longrightarrow> P v \<Longrightarrow> (\<And>w. w \<in> set xs \<Longrightarrow> P w \<Longrightarrow> w = v) \<Longrightarrow> find P xs = Some v"
proof (induction xs)
  case (Cons x xs)
  show ?case
  proof (cases "x = v")
    case False
    then have "\<not> P x" and mem: "v \<in> set xs" using Cons.prems(1) Cons.prems(3) [of x] by auto
    moreover have "find P xs = Some v"
    proof (rule Cons.IH [OF mem Cons.prems(2)])
      fix w
      assume "w \<in> set xs" and "P w"
      then show "w = v" by (intro Cons.prems(3)) simp_all
    qed
    ultimately show ?thesis by simp
  qed (use Cons.prems(2) in simp)
qed simp

text \<open>A validator is found by the text of its consensus address, in whichever case this is written.\<close>

lemma queryForAddress_finds:
  assumes inv: "staking_inv E s" and inj: "address_text Q" and v: "GetValidator s a = Some v"
    and str: "map upperAscii (bytesString Q data) = AddressString Q (ConsAddress (codec E) v)"
    and len: "length (bytesString Q data) = AddrLen * 2"
  shows "queryForAddress E Q s data = Inr (AnsAddress a)"
proof -
  have vals: "validators_inv E s" using staking_inv_parts(2) [OF inv] .
  have own: "OperatorAddress v = a" using validators_invD(1) [OF vals] v by (simp add: GetValidator_def)
  have mem: "v \<in> set (GetAllValidators s)" using stored_validators(3) [OF vals] v own by (simp add: GetValidator_def)
  have "find (\<lambda>w. map upperAscii (bytesString Q data) = AddressString Q (ConsAddress (codec E) w)) (GetAllValidators s) = Some v"
  proof (rule find_unique [OF mem])
    fix w
    assume w: "w \<in> set (GetAllValidators s)"
      and "map upperAscii (bytesString Q data) = AddressString Q (ConsAddress (codec E) w)"
    then have "ConsAddress (codec E) w = ConsAddress (codec E) v"
      using str inj by (metis address_text_def inj_eq)
    then show "w = v" using stored_validators(2) [OF vals] w mem by (simp add: distinct_map inj_on_def)
  qed (simp add: str)
  then show ?thesis
    by (simp add: queryForAddress_def Let_def len GetOperAddrFromValidatorAddr_def own ConsAddress_def)
qed

end
