(* ===== verification/Evm_Types.thy ===== *)
theory Evm_Types
  imports Sdk
begin

text \<open>
  The data the EVM module shares: Ethereum addresses and hashes, accounts
  (app/types/account.go), the errors and panics of the module, and the interface to the code
  outside the repository.

  \<open>common.Address\<close> and \<open>common.Hash\<close> are arrays of 20 and 32 bytes; they are words of that
  width. The conversions from and to byte slices, Keccak, the coin arithmetic of the SDK, the
  account prototype numbering and the bank blacklist are fields of \<open>evm_env\<close>; \<open>evm_env_ok\<close>
  states the documented laws the properties use. A nil byte slice in an account is the empty
  list.
\<close>

type_synonym address = "160 word"
type_synonym hash = "256 word"
type_synonym uint64 = "64 word"

record EthAccount =
  Address :: bytes
  Coins :: sys_coins
  PubKey :: "bytes option"
  AccountNumber :: uint64
  Sequence :: uint64
  CodeHash :: bytes

text \<open>What the account keeper stores: an Ethereum account, or an account of another type (a module
  account), which the EVM refuses.\<close>

datatype account = EthAcc EthAccount | OtherAcc bytes

datatype evm_error =
    PanicAccountType
  | PanicNilObject
  | PanicCoins
  | PanicSlotAddress
  | PanicIndex
  | PanicRefund
  | PanicRevision int
  | PanicBlocked address
  | ErrInvalidBalance
  | ErrBlacklisted

record evm_env =
  evm_dec :: sdk_dec
  AddressBytes :: "address \<Rightarrow> bytes"
  BytesToAddress :: "bytes \<Rightarrow> address"
  HashBytes :: "hash \<Rightarrow> bytes"
  BytesToHash :: "bytes \<Rightarrow> hash"
  Keccak256Hash :: "bytes \<Rightarrow> hash"
  CoinsAdd :: "sys_coins \<Rightarrow> sys_coins \<Rightarrow> sys_coins"
  CoinsSub :: "sys_coins \<Rightarrow> sys_coins \<Rightarrow> sys_coins option" \<comment> \<open>\<open>None\<close>: a negative amount panics\<close>
  NewAccount :: "uint64 \<Rightarrow> bytes \<Rightarrow> account" \<comment> \<open>by account number and address\<close>
  BlacklistedAddr :: "bytes \<Rightarrow> bool"

definition Keccak256 :: "evm_env \<Rightarrow> bytes \<Rightarrow> bytes" where
  "Keccak256 E b = HashBytes E (Keccak256Hash E b)"

definition emptyCodeHash :: "evm_env \<Rightarrow> bytes" where
  "emptyCodeHash E = Keccak256 E []"

abbreviation bondDenom :: "evm_env \<Rightarrow> string" where
  "bondDenom E \<equiv> DefaultBondDenom (evm_dec E)"

subsection \<open>Accounts\<close>

definition EthAddress :: "evm_env \<Rightarrow> EthAccount \<Rightarrow> address" where
  "EthAddress E acc = BytesToAddress E (Address acc)"

definition ProtoAccount :: "evm_env \<Rightarrow> EthAccount" where
  "ProtoAccount E = \<lparr>Address = [], Coins = [], PubKey = None, AccountNumber = 0, Sequence = 0,
     CodeHash = Keccak256 E []\<rparr>"

definition Balance :: "EthAccount \<Rightarrow> string \<Rightarrow> dec" where
  "Balance acc denom = AmountOf denom (Coins acc)"

definition accSetBalance :: "evm_env \<Rightarrow> string \<Rightarrow> dec \<Rightarrow> EthAccount \<Rightarrow> evm_error + EthAccount" where
  "accSetBalance E denom amt acc =
     (let coins = Coins acc;
          diff = amt - AmountOf denom coins
      in if 0 < diff then
           Inr (acc\<lparr>Coins := CoinsAdd E coins [\<lparr>Denom = denom, Amount = diff\<rparr>]\<rparr>)
         else if diff < 0 then
           (case CoinsSub E coins [\<lparr>Denom = denom, Amount = - diff\<rparr>] of
              None \<Rightarrow> Inl PanicCoins
            | Some coins' \<Rightarrow> Inr (acc\<lparr>Coins := coins'\<rparr>))
         else Inr acc)"

subsection \<open>The laws of the environment\<close>

definition coins_laws :: "evm_env \<Rightarrow> bool" where
  "coins_laws E \<longleftrightarrow>
     (\<forall>cs ds d. AmountOf d (CoinsAdd E cs ds) = AmountOf d cs + AmountOf d ds) \<and>
     (\<forall>cs ds. CoinsSub E cs ds = None \<longleftrightarrow> (\<exists>d. AmountOf d cs < AmountOf d ds)) \<and>
     (\<forall>cs ds rs d. CoinsSub E cs ds = Some rs \<longrightarrow> AmountOf d rs = AmountOf d cs - AmountOf d ds)"

definition bytes_laws :: "evm_env \<Rightarrow> bool" where
  "bytes_laws E \<longleftrightarrow>
     (\<forall>a. BytesToAddress E (AddressBytes E a) = a) \<and>
     (\<forall>h. BytesToHash E (HashBytes E h) = h \<and> HashBytes E h \<noteq> [])"

definition new_account_law :: "evm_env \<Rightarrow> bool" where
  "new_account_law E \<longleftrightarrow>
     (\<forall>n b. NewAccount E n b = EthAcc ((ProtoAccount E)\<lparr>Address := b, AccountNumber := n\<rparr>))"

definition evm_env_ok :: "evm_env \<Rightarrow> bool" where
  "evm_env_ok E \<longleftrightarrow> coins_laws E \<and> bytes_laws E \<and> new_account_law E"

lemma evm_env_okD:
  assumes "evm_env_ok E"
  shows "AmountOf d (CoinsAdd E cs ds) = AmountOf d cs + AmountOf d ds"
    and "BytesToAddress E (AddressBytes E a) = a"
    and "BytesToHash E (HashBytes E h) = h" and "HashBytes E h \<noteq> []"
    and "NewAccount E n b = EthAcc ((ProtoAccount E)\<lparr>Address := b, AccountNumber := n\<rparr>)"
  using assms by (simp_all add: evm_env_ok_def coins_laws_def bytes_laws_def new_account_law_def)

lemma AmountOf_single [simp]: "AmountOf d [c] = (if Denom c = d then Amount c else 0)"
  by (simp add: AmountOf_def)

text \<open>Setting a balance succeeds exactly on amounts that are not negative, and changes no other
  denomination.\<close>

lemma accSetBalance_ok:
  assumes E: "evm_env_ok E" and amt: "0 \<le> amt"
    and nonneg: "\<forall>d. 0 \<le> AmountOf d (Coins acc)"
  shows "\<exists>cs. accSetBalance E denom amt acc = Inr (acc\<lparr>Coins := cs\<rparr>) \<and>
     (\<forall>d. AmountOf d cs = (if d = denom then amt else AmountOf d (Coins acc)))"
proof -
  let ?diff = "amt - AmountOf denom (Coins acc)"
  consider "0 < ?diff" | "?diff = 0" | "?diff < 0" by linarith
  then show ?thesis
  proof cases
    case 1
    then show ?thesis by (auto simp: accSetBalance_def Let_def evm_env_okD(1) [OF E])
  next
    case 2
    then show ?thesis by (intro exI [of _ "Coins acc"]) (simp add: accSetBalance_def Let_def)
  next
    case 3
    have "CoinsSub E (Coins acc) [\<lparr>Denom = denom, Amount = - ?diff\<rparr>] \<noteq> None"
      using E amt nonneg by (auto simp: evm_env_ok_def coins_laws_def not_less)
    then obtain rs where "CoinsSub E (Coins acc) [\<lparr>Denom = denom, Amount = - ?diff\<rparr>] = Some rs"
      by auto
    then show ?thesis using 3 E
      by (auto simp: accSetBalance_def Let_def evm_env_ok_def coins_laws_def)
  qed
qed

lemma accSetBalance_nonneg:
  assumes E: "evm_env_ok E" and set: "accSetBalance E denom amt acc = Inr acc'"
    and nonneg: "\<forall>d. 0 \<le> AmountOf d (Coins acc)"
  shows "0 \<le> amt"
proof (rule ccontr)
  assume neg: "\<not> 0 \<le> amt"
  then have lt: "amt - AmountOf denom (Coins acc) < 0" using nonneg [rule_format, of denom] by linarith
  have "CoinsSub E (Coins acc) [\<lparr>Denom = denom, Amount = - (amt - AmountOf denom (Coins acc))\<rparr>] = None"
    using E neg by (auto simp: evm_env_ok_def coins_laws_def not_less intro!: exI [of _ denom])
  with lt set show False by (simp add: accSetBalance_def Let_def)
qed

lemma accSetBalance_fields:
  assumes "accSetBalance E denom amt acc = Inr acc'"
  shows "\<exists>cs. acc' = acc\<lparr>Coins := cs\<rparr>"
proof -
  have "\<exists>cs. acc = acc\<lparr>Coins := cs\<rparr>" by (rule exI [of _ "Coins acc"]) simp
  with assms show ?thesis by (auto simp: accSetBalance_def Let_def split: if_splits option.splits)
qed

subsection \<open>A concrete environment\<close>

fun natBytes :: "nat \<Rightarrow> nat \<Rightarrow> bytes" where
  "natBytes 0 k = []"
| "natBytes (Suc n) k = natBytes n (k div 256) @ [word_of_nat (k mod 256)]"

definition bytesNat :: "bytes \<Rightarrow> nat" where
  "bytesNat bs = foldl (\<lambda>acc b. acc * 256 + unat b) 0 bs"

lemma bytesNat_natBytes: "bytesNat (natBytes n k) = k mod 256 ^ n"
proof (induction n arbitrary: k)
  case 0
  then show ?case by (simp add: bytesNat_def)
next
  case (Suc n)
  have "unat (word_of_nat (k mod 256) :: byte) = k mod 256"
    by (simp add: unat_of_nat)
  then have "bytesNat (natBytes (Suc n) k) = k div 256 mod 256 ^ n * 256 + k mod 256"
    using Suc.IH [of "k div 256"] by (simp add: bytesNat_def)
  also have "\<dots> = k mod 256 ^ Suc n"
    by (simp add: mod_mult2_eq)
  finally show ?case .
qed

lemma length_natBytes [simp]: "length (natBytes n k) = n"
  by (induction n arbitrary: k) simp_all

lemma natBytes_roundtrip:
  fixes w :: "'a::len word"
  assumes "LENGTH('a) = 8 * n"
  shows "word_of_nat (bytesNat (natBytes n (unat w))) = w"
proof -
  have "unat w < 256 ^ n"
    using unsigned_less [of w] assms by (simp add: power_mult)
  then show ?thesis by (simp add: bytesNat_natBytes)
qed

definition subDenoms :: "sys_coins \<Rightarrow> sys_coins \<Rightarrow> bool" where
  "subDenoms cs ds \<longleftrightarrow>
     list_all (\<lambda>c. AmountOf (Denom c) ds \<le> AmountOf (Denom c) cs) (cs @ ds)"

definition negCoin :: "sys_coin \<Rightarrow> sys_coin" where
  "negCoin c = c\<lparr>Amount := - Amount c\<rparr>"

definition evm_env0 :: evm_env where
  "evm_env0 = (let proto = natBytes 32 0 in \<lparr>
     evm_dec = dec18,
     AddressBytes = (\<lambda>a. natBytes 20 (unat a)),
     BytesToAddress = (\<lambda>b. word_of_nat (bytesNat b)),
     HashBytes = (\<lambda>h. natBytes 32 (unat h)),
     BytesToHash = (\<lambda>b. word_of_nat (bytesNat b)),
     Keccak256Hash = (\<lambda>b. word_of_nat (bytesNat b)),
     CoinsAdd = (\<lambda>cs ds. cs @ ds),
     CoinsSub = (\<lambda>cs ds. if subDenoms cs ds then Some (cs @ map negCoin ds) else None),
     NewAccount = (\<lambda>n b. EthAcc \<lparr>Address = b, Coins = [], PubKey = None, AccountNumber = n,
       Sequence = 0, CodeHash = proto\<rparr>),
     BlacklistedAddr = (\<lambda>b. False)\<rparr>)"

lemma AmountOf_append: "AmountOf d (cs @ ds) = AmountOf d cs + AmountOf d ds"
  by (simp add: AmountOf_def)

lemma AmountOf_neg: "AmountOf d (map negCoin ds) = - AmountOf d ds"
  by (induction ds) (auto simp: AmountOf_def negCoin_def)

lemma AmountOf_absent: "d \<notin> set (map Denom cs) \<Longrightarrow> AmountOf d cs = 0"
  by (induction cs) (auto simp: AmountOf_def)

lemma subDenoms_iff: "subDenoms cs ds \<longleftrightarrow> (\<forall>d. AmountOf d ds \<le> AmountOf d cs)"
proof
  assume sub: "subDenoms cs ds"
  show "\<forall>d. AmountOf d ds \<le> AmountOf d cs"
  proof
    fix d
    show "AmountOf d ds \<le> AmountOf d cs"
    proof (cases "d \<in> set (map Denom (cs @ ds))")
      case True
      with sub show ?thesis by (auto simp: subDenoms_def list_all_iff)
    next
      case False
      then show ?thesis by (simp add: AmountOf_absent)
    qed
  qed
qed (simp add: subDenoms_def list_all_iff)

lemma evm_env0_ok: "evm_env_ok evm_env0"
proof -
  have "natBytes 32 k \<noteq> []" for k using length_natBytes [of 32 k] by (metis length_0_conv zero_neq_numeral)
  then have "bytes_laws evm_env0"
    by (simp add: bytes_laws_def evm_env0_def natBytes_roundtrip)
  moreover have "coins_laws evm_env0"
    by (auto simp: coins_laws_def evm_env0_def AmountOf_append AmountOf_neg subDenoms_iff not_less [symmetric]
        split: if_splits)
  moreover have "new_account_law evm_env0"
    by (simp add: new_account_law_def evm_env0_def ProtoAccount_def Keccak256_def bytesNat_def)
  ultimately show ?thesis by (simp add: evm_env_ok_def)
qed

end
