(* ===== verification/Go_Text.thy ===== *)
theory Go_Text
  imports Prelude "HOL-Library.Char_ord"
begin

text \<open>
  Text functions of the Go standard library that the modules use, on byte strings: ASCII classes,
  the white space of \<open>strings.TrimSpace\<close> and \<open>strings.Fields\<close>, and the decimal text of
  \<open>big.Int\<close> with its bit length and its conversion to \<open>uint64\<close>.
\<close>

subsection \<open>Classes of bytes\<close>

definition byteIn :: "nat \<Rightarrow> nat \<Rightarrow> char \<Rightarrow> bool" where
  "byteIn lo hi c \<longleftrightarrow> lo \<le> of_char c \<and> of_char c \<le> hi"

definition isLowerAscii :: "char \<Rightarrow> bool" where
  "isLowerAscii c \<longleftrightarrow> byteIn 97 122 c"

definition isUpperAscii :: "char \<Rightarrow> bool" where
  "isUpperAscii c \<longleftrightarrow> byteIn 65 90 c"

definition isDigitAscii :: "char \<Rightarrow> bool" where
  "isDigitAscii c \<longleftrightarrow> byteIn 48 57 c"

text \<open>Tab, newline, vertical tab, form feed, carriage return and space: the class \<open>[:space:]\<close> and
  Go's white space below 128.\<close>

definition isSpaceAscii :: "char \<Rightarrow> bool" where
  "isSpaceAscii c \<longleftrightarrow> byteIn 9 13 c \<or> of_char c = (32 :: nat)"

subsection \<open>White space\<close>

text \<open>
  Go's white space on UTF-8 bytes: \<open>spaceWidth\<close> is the number of bytes of a white space rune that
  a string starts with, 0 if it starts with none. The lead bytes of these encodings are no
  continuation bytes, so looking at every position finds the same runes as decoding does.
\<close>

definition codes :: "string \<Rightarrow> nat list" where
  "codes s = map of_char s"

definition isSpace3 :: "nat \<Rightarrow> nat \<Rightarrow> nat \<Rightarrow> bool" where
  "isSpace3 a b c \<longleftrightarrow>
     (a = 225 \<and> b = 154 \<and> c = 128) \<or>
     (a = 226 \<and> b = 128 \<and> (128 \<le> c \<and> c \<le> 138 \<or> c = 168 \<or> c = 169 \<or> c = 175)) \<or>
     (a = 226 \<and> b = 129 \<and> c = 159) \<or>
     (a = 227 \<and> b = 128 \<and> c = 128)"

definition spaceWidth :: "string \<Rightarrow> nat" where
  "spaceWidth s =
     (case s of
        [] \<Rightarrow> 0
      | c # s' \<Rightarrow>
          if isSpaceAscii c then 1
          else if codes (take 2 s) = [194, 133] \<or> codes (take 2 s) = [194, 160] then 2
          else if 3 \<le> length s \<and> isSpace3 (codes s ! 0) (codes s ! 1) (codes s ! 2) then 3
          else 0)"

lemma spaceWidth_le: "spaceWidth s \<le> length s"
proof (cases s)
  case (Cons c s')
  have "2 \<le> length s" if "codes (take 2 s) = [a, b]" for a b
    using arg_cong [OF that, of length] by (simp add: codes_def)
  with Cons show ?thesis by (auto simp: spaceWidth_def)
qed (simp add: spaceWidth_def)

text \<open>\<open>strings.Fields\<close>: the maximal runs without white space.\<close>

definition addField :: "string \<Rightarrow> string list \<Rightarrow> string list" where
  "addField w ws = (if w = [] then ws else w # ws)"

function fieldsFrom :: "string \<Rightarrow> string \<Rightarrow> string list" where
  "fieldsFrom w s =
     (if s = [] then addField w []
      else if 0 < spaceWidth s then addField w (fieldsFrom [] (drop (spaceWidth s) s))
      else fieldsFrom (w @ [hd s]) (tl s))"
  by pat_completeness auto
termination
  by (relation "measure (\<lambda>(w, s). length s)") auto

declare fieldsFrom.simps [simp del]

definition Fields :: "string \<Rightarrow> string list" where
  "Fields s = fieldsFrom [] s"

fun joinSpace :: "string list \<Rightarrow> string" where
  "joinSpace [] = []"
| "joinSpace [w] = w"
| "joinSpace (w # ws) = w @ CHR '' '' # joinSpace ws"

text \<open>\<open>strings.TrimSpace\<close> drops white space runes from both ends.\<close>

function trimLeft :: "string \<Rightarrow> string" where
  "trimLeft s = (if 0 < spaceWidth s then trimLeft (drop (spaceWidth s) s) else s)"
  by pat_completeness auto
termination
proof (relation "measure length")
  fix s :: string
  assume "0 < spaceWidth s"
  with spaceWidth_le [of s] show "(drop (spaceWidth s) s, s) \<in> measure length" by simp
qed simp

declare trimLeft.simps [simp del]

definition lastSpaceWidth :: "string \<Rightarrow> nat" where
  "lastSpaceWidth s =
     (case filter (\<lambda>k. k \<le> length s \<and> spaceWidth (drop (length s - k) s) = k) [1, 2, 3] of [] \<Rightarrow> 0 | k # _ \<Rightarrow> k)"

lemma lastSpaceWidth_le: "lastSpaceWidth s \<le> length s"
  by (simp add: lastSpaceWidth_def)

function trimRight :: "string \<Rightarrow> string" where
  "trimRight s = (if 0 < lastSpaceWidth s then trimRight (take (length s - lastSpaceWidth s) s) else s)"
  by pat_completeness auto
termination
proof (relation "measure length")
  fix s :: string
  assume "0 < lastSpaceWidth s"
  with lastSpaceWidth_le [of s] show "(take (length s - lastSpaceWidth s) s, s) \<in> measure length" by simp
qed simp

declare trimRight.simps [simp del]

definition TrimSpace :: "string \<Rightarrow> string" where
  "TrimSpace s = trimRight (trimLeft s)"

subsection \<open>Big integers\<close>

text \<open>\<open>BitLen\<close> and \<open>Uint64\<close> of \<open>big.Int\<close> look at the absolute value only.\<close>

fun natBits :: "nat \<Rightarrow> nat" where
  "natBits n = (if n = 0 then 0 else Suc (natBits (n div 2)))"

declare natBits.simps [simp del]

definition BitLen :: "int \<Rightarrow> nat" where
  "BitLen x = natBits (nat \<bar>x\<bar>)"

definition bigUint64 :: "int \<Rightarrow> 64 word" where
  "bigUint64 x = word_of_int \<bar>x\<bar>"

lemma natBits_le: "natBits n \<le> k \<longleftrightarrow> n < 2 ^ k"
proof (induction n arbitrary: k rule: natBits.induct)
  case (1 n)
  show ?case
  proof (cases "n = 0")
    case True
    then show ?thesis by (simp add: natBits.simps)
  next
    case False
    show ?thesis
    proof (cases k)
      case 0
      with False show ?thesis by (simp add: natBits.simps)
    next
      case (Suc j)
      have "natBits n \<le> k \<longleftrightarrow> natBits (n div 2) \<le> j" using False Suc by (simp add: natBits.simps)
      also have "\<dots> \<longleftrightarrow> n div 2 < 2 ^ j" using 1 False by blast
      also have "\<dots> \<longleftrightarrow> n < 2 ^ k" by (simp add: Suc) linarith
      finally show ?thesis .
    qed
  qed
qed

lemma BitLen_le: "BitLen x \<le> k \<longleftrightarrow> \<bar>x\<bar> < 2 ^ k"
  unfolding BitLen_def natBits_le by (metis abs_ge_zero int_nat_eq of_nat_less_iff of_nat_numeral of_nat_power)

text \<open>\<open>MarshalText\<close>: decimal digits without leading zeros, after a minus sign for negative
  numbers.\<close>

definition digitChar :: "nat \<Rightarrow> char" where
  "digitChar d = char_of (48 + d)"

fun natText :: "nat \<Rightarrow> string" where
  "natText n = (if n < 10 then [digitChar n] else natText (n div 10) @ [digitChar (n mod 10)])"

declare natText.simps [simp del]

definition bigText :: "int \<Rightarrow> string" where
  "bigText x = (if x < 0 then CHR ''-'' # natText (nat (- x)) else natText (nat x))"

definition textNat :: "string \<Rightarrow> nat" where
  "textNat cs = foldl (\<lambda>acc c. acc * 10 + (of_char c - 48)) 0 cs"

definition isDecimal :: "string \<Rightarrow> bool" where
  "isDecimal cs \<longleftrightarrow> cs \<noteq> [] \<and> list_all isDigitAscii cs"

lemma digitChar_digit: "d < 10 \<Longrightarrow> isDigitAscii (digitChar d)"
  by (simp add: digitChar_def isDigitAscii_def byteIn_def)

lemma digitChar_code: "d < 10 \<Longrightarrow> of_char (digitChar d) = 48 + d"
  by (simp add: digitChar_def)

lemma natText_decimal: "isDecimal (natText n)"
proof (induction n rule: natText.induct)
  case (1 n)
  then show ?case
    by (subst natText.simps) (auto simp: isDecimal_def digitChar_digit)
qed

lemma textNat_natText: "textNat (natText n) = n"
proof (induction n rule: natText.induct)
  case (1 n)
  then show ?case
    by (subst natText.simps) (auto simp: textNat_def digitChar_code)
qed

lemma natText_first:
  assumes "0 < n"
  shows "byteIn 49 57 (hd (natText n))"
  using assms
proof (induction n rule: natText.induct)
  case (1 n)
  have ne: "natText (n div 10) \<noteq> []" using natText_decimal [of "n div 10"] by (simp add: isDecimal_def)
  from 1 ne show ?case
    by (subst natText.simps) (auto simp: digitChar_def byteIn_def hd_append)
qed

text \<open>
  \<open>UnmarshalText\<close>: a sign, the prefixes of the bases 2, 8 and 16 (a leading zero is base 8), digits
  and separators between digits, up to the end of the text. \<open>prev\<close> is the class of the previous
  character as \<open>nat.scan\<close> keeps it: a digit (or prefix), a separator, or nothing yet.
\<close>

definition hexValue :: "char \<Rightarrow> nat" where
  "hexValue c =
     (if byteIn 48 57 c then of_char c - 48
      else if byteIn 97 122 c then of_char c - 87
      else if byteIn 65 90 c then of_char c - 55
      else 63)"

fun scanNat :: "nat \<Rightarrow> char \<Rightarrow> nat \<Rightarrow> nat \<Rightarrow> string \<Rightarrow> (nat \<times> nat) option" where
  "scanNat b prev count acc [] = (if prev = CHR ''_'' then None else Some (count, acc))"
| "scanNat b prev count acc (c # cs) =
     (if c = CHR ''_'' then (if prev \<noteq> CHR ''0'' then None else scanNat b (CHR ''_'') count acc cs)
      else if b \<le> hexValue c then None
      else scanNat b (CHR ''0'') (Suc count) (acc * b + hexValue c) cs)"

definition scanDigits :: "nat \<Rightarrow> char \<Rightarrow> bool \<Rightarrow> string \<Rightarrow> nat option" where
  "scanDigits b prev octal cs =
     (case scanNat b prev 0 0 cs of
        None \<Rightarrow> None
      | Some (count, n) \<Rightarrow> if count = 0 \<and> \<not> octal then None else Some n)"

fun textToNat :: "string \<Rightarrow> nat option" where
  "textToNat cs =
     (if cs = [] \<or> hd cs \<noteq> CHR ''0'' then scanDigits 10 (CHR ''.'') False cs
      else case tl cs of
        [] \<Rightarrow> Some 0
      | c # rest \<Rightarrow>
          if c = CHR ''b'' \<or> c = CHR ''B'' then scanDigits 2 (CHR ''0'') False rest
          else if c = CHR ''o'' \<or> c = CHR ''O'' then scanDigits 8 (CHR ''0'') False rest
          else if c = CHR ''x'' \<or> c = CHR ''X'' then scanDigits 16 (CHR ''0'') False rest
          else scanDigits 8 (CHR ''0'') True (c # rest))"

declare textToNat.simps [simp del]

definition bigFromText :: "string \<Rightarrow> int option" where
  "bigFromText cs =
     (case cs of
        [] \<Rightarrow> None
      | c # rest \<Rightarrow>
          if c = CHR ''-'' then map_option (\<lambda>n. - int n) (textToNat rest)
          else if c = CHR ''+'' then map_option int (textToNat rest)
          else map_option int (textToNat cs))"

lemma hexDigit_decimal: "isDigitAscii c \<Longrightarrow> hexValue c = of_char c - 48 \<and> hexValue c < 10 \<and> c \<noteq> CHR ''_''"
  by (auto simp: hexValue_def isDigitAscii_def byteIn_def)

lemma scanNat_decimal:
  "list_all isDigitAscii cs \<Longrightarrow> cs \<noteq> [] \<Longrightarrow>
     scanNat 10 prev n acc cs = Some (n + length cs, foldl (\<lambda>acc c. acc * 10 + (of_char c - 48)) acc cs)"
proof (induction cs arbitrary: prev n acc)
  case (Cons c cs)
  then have c: "hexValue c = of_char c - 48" "hexValue c < 10" "c \<noteq> CHR ''_''" using hexDigit_decimal [of c] by auto
  with Cons show ?case by (cases "cs = []") auto
qed simp

lemma textToNat_natText: "textToNat (natText n) = Some n"
proof (cases "n = 0")
  case True
  have "digitChar 0 = CHR ''0''" by code_simp
  then have "natText 0 = ''0''" by (simp add: natText.simps)
  with True show ?thesis by (simp add: textToNat.simps)
next
  case False
  have dec: "natText n \<noteq> []" "list_all isDigitAscii (natText n)" using natText_decimal [of n] by (auto simp: isDecimal_def)
  moreover have "hd (natText n) \<noteq> CHR ''0''" using natText_first [of n] False by (auto simp: byteIn_def)
  ultimately show ?thesis
    using textNat_natText [of n] by (simp add: textToNat.simps scanDigits_def scanNat_decimal textNat_def)
qed

lemma bigFromText_bigText: "bigFromText (bigText x) = Some x"
proof (cases "x < 0")
  case True
  then show ?thesis by (simp add: bigFromText_def bigText_def textToNat_natText)
next
  case False
  obtain c cs where c: "natText (nat x) = c # cs" "isDigitAscii c"
    using natText_decimal [of "nat x"] by (cases "natText (nat x)") (auto simp: isDecimal_def)
  then have "c \<noteq> CHR ''-''" "c \<noteq> CHR ''+''" by (auto simp: isDigitAscii_def byteIn_def)
  with False c(1) textToNat_natText [of "nat x"] show ?thesis by (simp add: bigFromText_def bigText_def)
qed

text \<open>\<open>strconv.ParseInt\<close> in base 10 with 64 bits, which is also what \<open>Atoi\<close> does.\<close>

definition parseInt64 :: "string \<Rightarrow> int option" where
  "parseInt64 s =
     (let (neg, ds) = (case s of
            c # cs \<Rightarrow> if c = CHR ''-'' then (True, cs) else if c = CHR ''+'' then (False, cs) else (False, s)
          | [] \<Rightarrow> (False, []));
          n = int (textNat ds)
      in if \<not> isDecimal ds then None
         else if neg then if 2 ^ 63 < n then None else Some (- n)
         else if 2 ^ 63 \<le> n then None else Some n)"

end
