(* ===== verification/Evm_Msg.thy ===== *)
theory Evm_Msg
  imports Evm_Types Go_Text
begin

text \<open>
  Chain identifiers (app/types/chain_id.go), the Ethereum transaction with its amino encoding
  (evm/types/tx_data.go, app/utils/int.go), the two messages of the EVM module and their signatures
  (evm/types/msg.go, evm/types/utils.go).

  Elliptic curve operations, RLP and amino are not part of the repository: they are fields of
  \<open>tx_env\<close>. The sender cache of a message (an \<open>atomic.Value\<close>) is a field of the message, so that
  \<open>VerifySig\<close> returns the message with its cache filled. A nil address is the empty byte string.
\<close>

subsection \<open>Errors\<close>

text \<open>What the checks, the handlers and the state transition of Ethereum transactions return or panic
  with.\<close>

datatype tx_error =
    ErrInvalidChainID
  | ErrGasPriceZero
  | ErrGasPriceNegative
  | ErrAmountNegative
  | ErrChainIDZero
  | ErrInvalidSignature
  | ErrRecoverFailed
  | ErrInvalidPublicKey
  | ErrSignFailed
  | ErrSignatureSize nat
  | ErrMarshal
  | ErrUnmarshal
  | ErrUnauthorized tx_error
  | ErrTxTooLarge
  | ErrInsufficientFee
  | ErrInvalidSequence
  | ErrInsufficientFunds
  | ErrUnknownAddress
  | ErrIntrinsicGas
  | ErrIntrinsicGasTooLow
  | ErrDeductFees
  | ErrRefundFees
  | ErrOutOfGas
  | ErrGasOverflow
  | ErrUnknownRequest
  | ErrNoMessages
  | ErrTxDecode
  | ErrInvalidMsgType
  | ErrChainConfigNotFound
  | ErrCreateDisabled
  | ErrCallDisabled
  | ErrUnauthorizedAccount address
  | ErrCallBlockedContract address
  | ErrEvmExecution string
  | ErrEncodeResult
  | ErrState evm_error
  | ErrEvmCallFailed tx_error
  | PanicSigLength
  | PanicNoSigner
  | PanicEmptySender
  | PanicNilAccount
  | PanicSetSequence
  | PanicNewCoin
  | PanicDivByZero
  | PanicCoinSub
  | PanicNilInt
  | PanicBloom
  | PanicState evm_error

subsection \<open>Chain identifiers\<close>

text \<open>\<open>^([a-z]*)-{1}([1-9][0-9]*)$\<close>: no lower case letter is a dash, so the first dash ends the first
  group.\<close>

definition epochPattern :: "string \<Rightarrow> bool" where
  "epochPattern cs =
     (case cs of [] \<Rightarrow> False | c # rest \<Rightarrow> byteIn 49 57 c \<and> list_all isDigitAscii rest)"

definition chainIDGroups :: "string \<Rightarrow> (string \<times> string) option" where
  "chainIDGroups chainID =
     (let name = takeWhile (\<lambda>c. c \<noteq> CHR ''-'') chainID;
          rest = dropWhile (\<lambda>c. c \<noteq> CHR ''-'') chainID
      in if list_all isLowerAscii name \<and> rest \<noteq> [] \<and> epochPattern (tl rest)
         then Some (name, tl rest) else None)"

definition IsValidChainID :: "string \<Rightarrow> bool" where
  "IsValidChainID chainID = (if 48 < length chainID then False else chainIDGroups chainID \<noteq> None)"

definition ParseChainID :: "string \<Rightarrow> tx_error + int" where
  "ParseChainID chainID =
     (let chainID = TrimSpace chainID
      in if 48 < length chainID then Inl ErrInvalidChainID
         else case chainIDGroups chainID of
           None \<Rightarrow> Inl ErrInvalidChainID
         | Some (name, epoch) \<Rightarrow>
             if name = [] then Inl ErrInvalidChainID else Inr (int (textNat epoch)))"

subsection \<open>Transactions\<close>

record TxData =
  td_AccountNonce :: uint64
  td_Price :: int
  td_GasLimit :: uint64
  td_Recipient :: "address option" \<comment> \<open>\<open>None\<close> means contract creation\<close>
  td_Amount :: int
  td_Payload :: bytes
  td_V :: int
  td_R :: int
  td_S :: int
  td_Hash :: "hash option"

record encodableTxData =
  en_AccountNonce :: uint64
  en_Price :: string
  en_GasLimit :: uint64
  en_Recipient :: "address option"
  en_Amount :: string
  en_Payload :: bytes
  en_V :: string
  en_R :: string
  en_S :: string
  en_Hash :: "hash option"

datatype rlp_item = RlpUint uint64 | RlpBig int | RlpAddress "address option" | RlpBytes bytes

record tx_env =
  te_evm :: evm_env
  EcSign :: "bytes \<Rightarrow> bytes \<Rightarrow> bytes option" \<comment> \<open>of a hash and a private key\<close>
  Ecrecover :: "bytes \<Rightarrow> bytes \<Rightarrow> bytes option" \<comment> \<open>of a hash and a signature\<close>
  ValidateSignatureValues :: "byte \<Rightarrow> int \<Rightarrow> int \<Rightarrow> bool \<Rightarrow> bool"
  RlpEncode :: "rlp_item list \<Rightarrow> bytes"
  MarshalBinaryBare :: "encodableTxData \<Rightarrow> bytes option"
  UnmarshalBinaryBare :: "bytes \<Rightarrow> encodableTxData option"

definition MarshalBigInt :: "int \<Rightarrow> tx_error + string" where
  "MarshalBigInt i = Inr (bigText i)"

definition UnmarshalBigInt :: "string \<Rightarrow> tx_error + int" where
  "UnmarshalBigInt s = (case bigFromText s of None \<Rightarrow> Inl ErrUnmarshal | Some i \<Rightarrow> Inr i)"

definition MarshalAmino :: "tx_env \<Rightarrow> TxData \<Rightarrow> tx_error + bytes" where
  "MarshalAmino E td =
     bindE (MarshalBigInt (td_Price td)) (\<lambda>gasPrice.
     bindE (MarshalBigInt (td_Amount td)) (\<lambda>amount.
     bindE (MarshalBigInt (td_V td)) (\<lambda>v.
     bindE (MarshalBigInt (td_R td)) (\<lambda>r.
     bindE (MarshalBigInt (td_S td)) (\<lambda>s.
       case MarshalBinaryBare E \<lparr>en_AccountNonce = td_AccountNonce td, en_Price = gasPrice,
              en_GasLimit = td_GasLimit td, en_Recipient = td_Recipient td, en_Amount = amount,
              en_Payload = td_Payload td, en_V = v, en_R = r, en_S = s, en_Hash = td_Hash td\<rparr> of
         None \<Rightarrow> Inl ErrMarshal
       | Some bz \<Rightarrow> Inr bz)))))"

text \<open>\<open>Set\<close> on an allocated number and the assignment of a new one store the same value.\<close>

definition UnmarshalAmino :: "tx_env \<Rightarrow> bytes \<Rightarrow> tx_error + TxData" where
  "UnmarshalAmino E bz =
     (case UnmarshalBinaryBare E bz of
        None \<Rightarrow> Inl ErrUnmarshal
      | Some e \<Rightarrow>
          bindE (UnmarshalBigInt (en_Price e)) (\<lambda>price.
          bindE (UnmarshalBigInt (en_Amount e)) (\<lambda>amt.
          bindE (UnmarshalBigInt (en_V e)) (\<lambda>v.
          bindE (UnmarshalBigInt (en_R e)) (\<lambda>r.
          bindE (UnmarshalBigInt (en_S e)) (\<lambda>s.
            Inr \<lparr>td_AccountNonce = en_AccountNonce e, td_Price = price, td_GasLimit = en_GasLimit e,
                 td_Recipient = en_Recipient e, td_Amount = amt, td_Payload = en_Payload e,
                 td_V = v, td_R = r, td_S = s, td_Hash = en_Hash e\<rparr>))))))"

subsection \<open>Messages\<close>

record MsgEthermint =
  me_AccountNonce :: uint64
  me_Price :: int
  me_GasLimit :: uint64
  me_Recipient :: "acc_address option"
  me_Amount :: int
  me_Payload :: bytes
  me_From :: acc_address

definition ethermintValidateBasic :: "MsgEthermint \<Rightarrow> tx_error + unit" where
  "ethermintValidateBasic msg =
     (if me_Price msg = 0 then Inl ErrGasPriceZero
      else if me_Price msg < 0 then Inl ErrGasPriceNegative
      else if me_Amount msg < 0 then Inl ErrAmountNegative
      else Inr ())"

definition ethermintGetSigners :: "MsgEthermint \<Rightarrow> acc_address list" where
  "ethermintGetSigners msg = [me_From msg]"

definition ethermintTo :: "evm_env \<Rightarrow> MsgEthermint \<Rightarrow> address option" where
  "ethermintTo E msg = map_option (BytesToAddress E) (me_Recipient msg)"

datatype signer = EIP155Signer int | HomesteadSigner

record MsgEthereumTx =
  msg_Data :: TxData
  msg_from :: "(signer \<times> address) option" \<comment> \<open>the sender cache\<close>

definition newMsgEthereumTx ::
    "uint64 \<Rightarrow> address option \<Rightarrow> int option \<Rightarrow> uint64 \<Rightarrow> int option \<Rightarrow> bytes \<Rightarrow> MsgEthereumTx" where
  "newMsgEthereumTx nonce to amount gasLimit gasPrice payload =
     \<lparr>msg_Data = \<lparr>td_AccountNonce = nonce,
        td_Price = (case gasPrice of None \<Rightarrow> 0 | Some p \<Rightarrow> p), td_GasLimit = gasLimit,
        td_Recipient = to, td_Amount = (case amount of None \<Rightarrow> 0 | Some a \<Rightarrow> a),
        td_Payload = payload, td_V = 0, td_R = 0, td_S = 0, td_Hash = None\<rparr>,
      msg_from = None\<rparr>"

definition NewMsgEthereumTx ::
    "uint64 \<Rightarrow> address option \<Rightarrow> int option \<Rightarrow> uint64 \<Rightarrow> int option \<Rightarrow> bytes \<Rightarrow> MsgEthereumTx" where
  "NewMsgEthereumTx nonce to amount gasLimit gasPrice payload =
     newMsgEthereumTx nonce to amount gasLimit gasPrice payload"

definition NewMsgEthereumTxContract ::
    "uint64 \<Rightarrow> int option \<Rightarrow> uint64 \<Rightarrow> int option \<Rightarrow> bytes \<Rightarrow> MsgEthereumTx" where
  "NewMsgEthereumTxContract nonce amount gasLimit gasPrice payload =
     newMsgEthereumTx nonce None amount gasLimit gasPrice payload"

definition ethValidateBasic :: "MsgEthereumTx \<Rightarrow> tx_error + unit" where
  "ethValidateBasic msg =
     (if td_Price (msg_Data msg) = 0 then Inl ErrGasPriceZero
      else if td_Price (msg_Data msg) < 0 then Inl ErrGasPriceNegative
      else if td_Amount (msg_Data msg) < 0 then Inl ErrAmountNegative
      else Inr ())"

definition msgTo :: "MsgEthereumTx \<Rightarrow> address option" where
  "msgTo msg = td_Recipient (msg_Data msg)"

definition GetGas :: "MsgEthereumTx \<Rightarrow> uint64" where
  "GetGas msg = td_GasLimit (msg_Data msg)"

definition Fee :: "MsgEthereumTx \<Rightarrow> int" where
  "Fee msg = td_Price (msg_Data msg) * uint (td_GasLimit (msg_Data msg))"

definition Cost :: "MsgEthereumTx \<Rightarrow> int" where
  "Cost msg = Fee msg + td_Amount (msg_Data msg)"

definition RawSignatureValues :: "MsgEthereumTx \<Rightarrow> int \<times> int \<times> int" where
  "RawSignatureValues msg = (td_V (msg_Data msg), td_R (msg_Data msg), td_S (msg_Data msg))"

text \<open>\<open>NewDecFromBigIntWithPrec\<close> at the full precision takes the number as the smallest units;
  \<open>NewCoin\<close> panics on a coin that is not valid.\<close>

definition NewCoinE :: "sdk_dec \<Rightarrow> string \<Rightarrow> dec \<Rightarrow> tx_error + sys_coin" where
  "NewCoinE A denom amt =
     (if CoinIsValid A \<lparr>Denom = denom, Amount = amt\<rparr> then Inr \<lparr>Denom = denom, Amount = amt\<rparr>
      else Inl PanicNewCoin)"

definition GetFee :: "evm_env \<Rightarrow> MsgEthereumTx \<Rightarrow> tx_error + sys_coins" where
  "GetFee E msg = bindE (NewCoinE (evm_dec E) (bondDenom E) (Fee msg)) (\<lambda>c. Inr [c])"

subsection \<open>Signatures\<close>

definition rlpHash :: "tx_env \<Rightarrow> rlp_item list \<Rightarrow> hash" where
  "rlpHash E x = Keccak256Hash (te_evm E) (RlpEncode E x)"

definition signItems :: "MsgEthereumTx \<Rightarrow> rlp_item list" where
  "signItems msg =
     [RlpUint (td_AccountNonce (msg_Data msg)), RlpBig (td_Price (msg_Data msg)),
      RlpUint (td_GasLimit (msg_Data msg)), RlpAddress (td_Recipient (msg_Data msg)),
      RlpBig (td_Amount (msg_Data msg)), RlpBytes (td_Payload (msg_Data msg))]"

definition RLPSignBytes :: "tx_env \<Rightarrow> MsgEthereumTx \<Rightarrow> int \<Rightarrow> hash" where
  "RLPSignBytes E msg chainID = rlpHash E (signItems msg @ [RlpBig chainID, RlpUint 0, RlpUint 0])"

definition HomesteadSignHash :: "tx_env \<Rightarrow> MsgEthereumTx \<Rightarrow> hash" where
  "HomesteadSignHash E msg = rlpHash E (signItems msg)"

text \<open>A byte is added to with wrap-around before it is widened.\<close>

definition Sign :: "tx_env \<Rightarrow> MsgEthereumTx \<Rightarrow> int \<Rightarrow> bytes \<Rightarrow> tx_error + MsgEthereumTx" where
  "Sign E msg chainID priv =
     (case EcSign E (HashBytes (te_evm E) (RLPSignBytes E msg chainID)) priv of
        None \<Rightarrow> Inl ErrSignFailed
      | Some sig \<Rightarrow>
          if length sig \<noteq> 65 then Inl (ErrSignatureSize (length sig))
          else
            let r = int (bytesNat (take 32 sig));
                s = int (bytesNat (take 32 (drop 32 sig)));
                v = (if chainID = 0 then uint (sig ! 64 + 27) else uint (sig ! 64 + 35) + chainID * 2)
            in Inr (msg\<lparr>msg_Data := (msg_Data msg)\<lparr>td_V := v, td_R := r, td_S := s\<rparr>\<rparr>))"

definition isProtectedV :: "int \<Rightarrow> bool" where
  "isProtectedV v =
     (if BitLen v \<le> 8 then bigUint64 v \<noteq> 27 \<and> bigUint64 v \<noteq> 28 else True)"

text \<open>\<open>copy(sig[32-len(r):32], r)\<close>: the bytes of a number of at most 32 bytes, padded on the left.\<close>

definition pad32 :: "int \<Rightarrow> tx_error + bytes" where
  "pad32 x = (if 256 ^ 32 \<le> \<bar>x\<bar> then Inl PanicSigLength else Inr (natBytes 32 (nat \<bar>x\<bar>)))"

definition recoverEthSig :: "tx_env \<Rightarrow> int \<Rightarrow> int \<Rightarrow> int \<Rightarrow> hash \<Rightarrow> tx_error + address" where
  "recoverEthSig E r s vb sigHash =
     (if 8 < BitLen vb then Inl ErrInvalidSignature
      else
        let v = (ucast (bigUint64 vb - 27) :: byte)
        in if \<not> ValidateSignatureValues E v r s True then Inl ErrInvalidSignature
           else
             bindE (pad32 r) (\<lambda>rb. bindE (pad32 s) (\<lambda>sb.
               case Ecrecover E (HashBytes (te_evm E) sigHash) (rb @ sb @ [v]) of
                 None \<Rightarrow> Inl ErrRecoverFailed
               | Some pub \<Rightarrow>
                   if pub = [] \<or> hd pub \<noteq> 4 then Inl ErrInvalidPublicKey
                   else Inr (BytesToAddress (te_evm E) (drop 12 (Keccak256 (te_evm E) (tl pub)))))))"

definition signerOf :: "int \<Rightarrow> int \<Rightarrow> signer" where
  "signerOf v chainID = (if isProtectedV v then EIP155Signer chainID else HomesteadSigner)"

definition VerifySig :: "tx_env \<Rightarrow> MsgEthereumTx \<Rightarrow> int \<Rightarrow> tx_error + (address \<times> MsgEthereumTx)" where
  "VerifySig E msg chainID =
     (let signer = signerOf (td_V (msg_Data msg)) chainID;
          fresh =
            (if isProtectedV (td_V (msg_Data msg)) \<and> chainID = 0 then Inl ErrChainIDZero
             else
               let v = (if isProtectedV (td_V (msg_Data msg))
                        then td_V (msg_Data msg) - chainID * 2 - 8 else td_V (msg_Data msg));
                   sigHash = (if isProtectedV (td_V (msg_Data msg))
                              then RLPSignBytes E msg chainID else HomesteadSignHash E msg)
               in bindE (recoverEthSig E (td_R (msg_Data msg)) (td_S (msg_Data msg)) v sigHash) (\<lambda>sender.
                    Inr (sender, msg\<lparr>msg_from := Some (signer, sender)\<rparr>)))
      in case msg_from msg of
           Some (cached, a) \<Rightarrow> if cached = signer then Inr (a, msg) else fresh
         | None \<Rightarrow> fresh)"

definition deriveChainID :: "int \<Rightarrow> int" where
  "deriveChainID v =
     (if BitLen v \<le> 64 then
        let w = bigUint64 v
        in if w = 27 \<or> w = 28 then 0 else uint ((w - 35) div 2)
      else (v - 35) div 2)"

definition ChainID :: "MsgEthereumTx \<Rightarrow> int" where
  "ChainID msg = deriveChainID (td_V (msg_Data msg))"

definition msgFrom :: "evm_env \<Rightarrow> MsgEthereumTx \<Rightarrow> acc_address" where
  "msgFrom E msg = (case msg_from msg of None \<Rightarrow> [] | Some (_, a) \<Rightarrow> AddressBytes E a)"

definition ethGetSigners :: "evm_env \<Rightarrow> MsgEthereumTx \<Rightarrow> tx_error + acc_address list" where
  "ethGetSigners E msg =
     (if EmptyAddr (msgFrom E msg) then Inl PanicNoSigner else Inr [msgFrom E msg])"

definition FeePayer :: "tx_env \<Rightarrow> MsgEthereumTx \<Rightarrow> acc_address" where
  "FeePayer E msg =
     (case VerifySig E msg (ChainID msg) of Inl _ \<Rightarrow> [] | Inr (_, msg) \<Rightarrow> msgFrom (te_evm E) msg)"

record ExTxInfo =
  ex_Sender :: "address option" \<comment> \<open>\<open>None\<close> is the empty string\<close>
  ex_GasPrice :: int
  ex_Nonce :: uint64

definition GetTxInfo :: "tx_env \<Rightarrow> MsgEthereumTx \<Rightarrow> string \<Rightarrow> ExTxInfo" where
  "GetTxInfo E msg ctxChainID =
     (let exTxInfo = \<lparr>ex_Sender = None, ex_GasPrice = 0, ex_Nonce = td_AccountNonce (msg_Data msg)\<rparr>
      in case ParseChainID ctxChainID of
           Inl _ \<Rightarrow> exTxInfo
         | Inr chainIDEpoch \<Rightarrow>
             case VerifySig E msg chainIDEpoch of
               Inl _ \<Rightarrow> exTxInfo
             | Inr (sender, _) \<Rightarrow>
                 exTxInfo\<lparr>ex_Sender := Some sender, ex_GasPrice := td_Price (msg_Data msg)\<rparr>)"

end
