(* ===== verification/Evm_AccessList.thy ===== *)
theory Evm_AccessList
  imports Evm_Types
begin

text \<open>
  The per-transaction access list (evm/types/access_list.go): a map from addresses to positions in
  a slice of slot sets, \<open>-1\<close> for an address without slots. \<open>al_wf\<close> is the invariant of the
  representation, \<open>al_slotset\<close> the set of (address, slot) pairs it stands for. Adding is described
  by what \<open>Contains\<close> answers afterwards; deleting, which the journal calls in reverse order, is the
  exact inverse of adding.
\<close>

record accessList =
  addresses :: "address \<rightharpoonup> int"
  slots :: "hash set list"

definition ContainsAddress :: "accessList \<Rightarrow> address \<Rightarrow> bool" where
  "ContainsAddress al a \<longleftrightarrow> addresses al a \<noteq> None"

definition Contains :: "accessList \<Rightarrow> address \<Rightarrow> hash \<Rightarrow> bool \<times> bool" where
  "Contains al a slot =
     (case addresses al a of
        None \<Rightarrow> (False, False)
      | Some idx \<Rightarrow>
          if idx = - 1 then (True, False)
          else if int (length (slots al)) \<le> idx then (True, False)
          else (True, slot \<in> slots al ! nat idx))"

definition newAccessList :: accessList where
  "newAccessList = \<lparr>addresses = Map.empty, slots = []\<rparr>"

text \<open>\<open>Copy\<close> rebuilds both maps element by element.\<close>

definition alCopy :: "accessList \<Rightarrow> accessList" where
  "alCopy al = \<lparr>addresses = (\<lambda>k. addresses al k), slots = map (\<lambda>m. {k \<in> m. True}) (slots al)\<rparr>"

definition AddAddress :: "accessList \<Rightarrow> address \<Rightarrow> bool \<times> accessList" where
  "AddAddress al a =
     (if addresses al a \<noteq> None then (False, al)
      else (True, al\<lparr>addresses := (addresses al)(a \<mapsto> - 1)\<rparr>))"

definition AddSlot :: "accessList \<Rightarrow> address \<Rightarrow> hash \<Rightarrow> bool \<times> bool \<times> accessList" where
  "AddSlot al a slot =
     (let new = al\<lparr>addresses := (addresses al)(a \<mapsto> int (length (slots al))),
                   slots := slots al @ [{slot}]\<rparr>
      in case addresses al a of
           None \<Rightarrow> (True, True, new)
         | Some idx \<Rightarrow>
             if idx = - 1 then (False, True, new)
             else if int (length (slots al)) \<le> idx then (False, False, al)
             else if slot \<notin> slots al ! nat idx then
               (False, True, al\<lparr>slots := (slots al)[nat idx := insert slot (slots al ! nat idx)]\<rparr>)
             else (False, False, al))"

definition DeleteSlot :: "accessList \<Rightarrow> address \<Rightarrow> hash \<Rightarrow> evm_error + accessList" where
  "DeleteSlot al a slot =
     (case addresses al a of
        None \<Rightarrow> Inl PanicSlotAddress
      | Some idx \<Rightarrow>
          if idx < 0 \<or> int (length (slots al)) \<le> idx then Inl PanicIndex
          else
            let slotmap = slots al ! nat idx - {slot};
                al' = al\<lparr>slots := (slots al)[nat idx := slotmap]\<rparr>
            in if slotmap = {}
               then Inr (al'\<lparr>slots := take (nat idx) (slots al'), addresses := (addresses al')(a \<mapsto> - 1)\<rparr>)
               else Inr al')"

definition DeleteAddress :: "accessList \<Rightarrow> address \<Rightarrow> accessList" where
  "DeleteAddress al a = al\<lparr>addresses := (addresses al)(a := None)\<rparr>"

subsection \<open>The representation invariant\<close>

definition al_wf :: "accessList \<Rightarrow> bool" where
  "al_wf al \<longleftrightarrow>
     (\<forall>a i. addresses al a = Some i \<longrightarrow> i \<noteq> - 1 \<longrightarrow>
        0 \<le> i \<and> i < int (length (slots al)) \<and> slots al ! nat i \<noteq> {}) \<and>
     (\<forall>a b i. addresses al a = Some i \<longrightarrow> addresses al b = Some i \<longrightarrow> i \<noteq> - 1 \<longrightarrow> a = b)"

definition al_slotset :: "accessList \<Rightarrow> (address \<times> hash) set" where
  "al_slotset al = {(a, s). snd (Contains al a s)}"

lemma al_wf_index:
  assumes "al_wf al" and "addresses al a = Some i" and "i \<noteq> - 1"
  shows "0 \<le> i" and "i < int (length (slots al))" and "slots al ! nat i \<noteq> {}"
    and "addresses al b = Some i \<Longrightarrow> b = a"
  using assms unfolding al_wf_def by blast+

lemma al_wf_empty: "al_wf newAccessList"
  by (simp add: al_wf_def newAccessList_def)

lemma alCopy_eq: "alCopy al = al"
  by (simp add: alCopy_def)

lemma AddAddress_wf: "al_wf al \<Longrightarrow> al_wf (snd (AddAddress al a))"
  unfolding AddAddress_def al_wf_def by (auto split: if_splits)

text \<open>The two ways \<open>AddSlot\<close> changes the list: a new slot set at the end of the slice, or one
  more element in the set of the address.\<close>

lemma AddSlot_append:
  assumes "addresses al a = None \<or> addresses al a = Some (- 1)"
  shows "AddSlot al a slot = (addresses al a = None, True,
     al\<lparr>addresses := (addresses al)(a \<mapsto> int (length (slots al))), slots := slots al @ [{slot}]\<rparr>)"
  using assms by (auto simp: AddSlot_def)

lemma AddSlot_insert:
  assumes "addresses al a = Some i" and "i \<noteq> - 1" and "i < int (length (slots al))"
  shows "AddSlot al a slot = (False, slot \<notin> slots al ! nat i,
     if slot \<in> slots al ! nat i then al
     else al\<lparr>slots := (slots al)[nat i := insert slot (slots al ! nat i)]\<rparr>)"
  using assms by (simp add: AddSlot_def)

lemma al_wf_append:
  assumes "al_wf al" and "addresses al a = None \<or> addresses al a = Some (- 1)"
  shows "al_wf (al\<lparr>addresses := (addresses al)(a \<mapsto> int (length (slots al))), slots := slots al @ [{slot}]\<rparr>)"
  using assms unfolding al_wf_def by (fastforce simp: nth_append split: if_splits)

lemma al_wf_insert:
  assumes "al_wf al" and "i < int (length (slots al))"
  shows "al_wf (al\<lparr>slots := (slots al)[nat i := insert slot (slots al ! nat i)]\<rparr>)"
proof -
  have "(slots al)[nat i := insert slot (slots al ! nat i)] ! j \<noteq> {}"
    if "slots al ! j \<noteq> {}" for j
    using that by (cases "nat i = j"; cases "j < length (slots al)") (simp_all add: list_update_beyond)
  with assms show ?thesis unfolding al_wf_def by auto
qed

lemma AddSlot_wf:
  assumes wf: "al_wf al"
  shows "al_wf (snd (snd (AddSlot al a slot)))"
proof (cases "addresses al a = None \<or> addresses al a = Some (- 1)")
  case True
  from AddSlot_append [OF this] al_wf_append [OF wf this] show ?thesis by simp
next
  case False
  then obtain i where i: "addresses al a = Some i" "i \<noteq> - 1" by auto
  note idx = al_wf_index [OF wf i]
  from AddSlot_insert [OF i idx(2)] al_wf_insert [OF wf idx(2)] wf show ?thesis by simp
qed

text \<open>What the list contains after an addition.\<close>

lemma AddAddress_contains:
  "ContainsAddress (snd (AddAddress al a)) b \<longleftrightarrow> ContainsAddress al b \<or> b = a"
  by (auto simp: AddAddress_def ContainsAddress_def)

lemma AddAddress_slotset: "al_slotset (snd (AddAddress al a)) = al_slotset al"
  by (auto simp: AddAddress_def al_slotset_def Contains_def split: option.splits)

lemma AddSlot_contains:
  "ContainsAddress (snd (snd (AddSlot al a slot))) b \<longleftrightarrow> ContainsAddress al b \<or> b = a"
  by (auto simp: AddSlot_def ContainsAddress_def Let_def split: option.splits)

lemma in_al_slotset:
  assumes "al_wf al"
  shows "(a, s) \<in> al_slotset al \<longleftrightarrow>
     (case addresses al a of None \<Rightarrow> False | Some i \<Rightarrow> i \<noteq> - 1 \<and> s \<in> slots al ! nat i)"
  using al_wf_index(2) [OF assms, of a]
  by (auto simp: al_slotset_def Contains_def not_le [symmetric] split: option.splits)

lemma AddSlot_slotset:
  assumes wf: "al_wf al"
  shows "al_slotset (snd (snd (AddSlot al a slot))) = insert (a, slot) (al_slotset al)"
proof (cases "addresses al a = None \<or> addresses al a = Some (- 1)")
  case True
  have old: "\<And>b i. addresses al b = Some i \<Longrightarrow> i \<noteq> - 1 \<Longrightarrow> nat i < length (slots al)"
    using al_wf_index(1,2) [OF wf] by (simp add: nat_less_iff)
  show ?thesis
    using True old AddSlot_append [OF True]
    by (auto simp: in_al_slotset [OF wf] in_al_slotset [OF al_wf_append [OF wf True]] nth_append
        split: if_splits option.splits)
next
  case False
  then obtain i where i: "addresses al a = Some i" "i \<noteq> - 1" by auto
  note idx = al_wf_index [OF wf i]
  have other: "addresses al b = Some j \<and> j \<noteq> - 1 \<and> nat i = nat j \<longrightarrow> b = a" for b j
    using idx(1,4) al_wf_index(1) [OF wf] by (metis eq_nat_nat_iff)
  show ?thesis
    using i idx(1,2) AddSlot_insert [OF i idx(2)]
    by (auto intro: other [rule_format] simp: in_al_slotset [OF wf] in_al_slotset [OF al_wf_insert [OF wf idx(2)]]
        nth_list_update nat_less_iff split: if_splits option.splits)
qed

subsection \<open>Deleting undoes adding\<close>

lemma DeleteAddress_AddAddress:
  "AddAddress al a = (True, al') \<Longrightarrow> DeleteAddress al' a = al"
  by (auto simp: AddAddress_def DeleteAddress_def fun_upd_idem split: if_splits)

lemma DeleteSlot_AddSlot:
  assumes wf: "al_wf al" and add: "AddSlot al a slot = (addrChange, True, al')"
  shows "DeleteSlot al' a slot =
     Inr (if addrChange then al\<lparr>addresses := (addresses al)(a \<mapsto> - 1)\<rparr> else al)"
proof (cases "addresses al a = None \<or> addresses al a = Some (- 1)")
  case True
  have idem: "addresses al a = Some (- 1) \<Longrightarrow> (addresses al)(a \<mapsto> - 1) = addresses al"
    by (simp add: fun_upd_idem)
  show ?thesis using True add AddSlot_append [OF True, of slot] idem
    by (auto simp: DeleteSlot_def nth_append list_update_append)
next
  case False
  then obtain i where i: "addresses al a = Some i" "i \<noteq> - 1" by auto
  note idx = al_wf_index [OF wf i]
  from add AddSlot_insert [OF i idx(2), of slot] have slot: "slot \<notin> slots al ! nat i" "\<not> addrChange"
    and al': "al' = al\<lparr>slots := (slots al)[nat i := insert slot (slots al ! nat i)]\<rparr>"
    by (auto split: if_splits)
  have "insert slot (slots al ! nat i) - {slot} = slots al ! nat i" using slot by simp
  then show ?thesis using i idx(1-3) slot
    by (simp add: al' DeleteSlot_def nat_less_iff)
qed

lemma DeleteAddress_fresh: "addresses al a = None \<Longrightarrow>
  DeleteAddress (al\<lparr>addresses := (addresses al)(a \<mapsto> i)\<rparr>) a = al"
  by (simp add: DeleteAddress_def fun_upd_idem)

lemma AddSlot_addrChange: "AddSlot al a slot = (addrChange, slotChange, al') \<Longrightarrow>
  addrChange \<longleftrightarrow> addresses al a = None"
  by (auto simp: AddSlot_def Let_def split: option.splits if_splits)

lemma AddSlot_addr_slot: "AddSlot al a slot = (True, slotChange, al') \<Longrightarrow> slotChange"
  by (auto simp: AddSlot_def Let_def split: option.splits if_splits)

lemma AddSlot_nochange: "AddSlot al a slot = (addrChange, False, al') \<Longrightarrow> al' = al"
  by (auto simp: AddSlot_def Let_def split: option.splits if_splits)

end
