(* ===== verification/Indexed_List.thy ===== *)
theory Indexed_List
  imports Prelude
begin

text \<open>
  A Go idiom the EVM state uses five times: a slice together with a map from keys to positions in
  it, for deterministic iteration and constant time lookup. \<open>indexed\<close> says that the map is exactly
  the index of the slice. Reading through the index is \<open>map_of\<close> on the slice, appending and
  writing in place keep the index, and so does removing an element by shifting the rest of the slice
  one position to the left.
\<close>

text \<open>Reading a slice out of range panics.\<close>

definition nthE :: "'e \<Rightarrow> 'a list \<Rightarrow> nat \<Rightarrow> 'e + 'a" where
  "nthE e xs i = (if i < length xs then Inr (xs ! i) else Inl e)"

lemma nthE_Inr [res_simps]: "nthE e xs i = Inr x \<longleftrightarrow> i < length xs \<and> xs ! i = x"
  by (simp add: nthE_def)

lemma nthE_in [simp]: "i < length xs \<Longrightarrow> nthE e xs i = Inr (xs ! i)"
  by (simp add: nthE_def)

definition indexed :: "'k list \<Rightarrow> ('k \<rightharpoonup> nat) \<Rightarrow> bool" where
  "indexed ks m \<longleftrightarrow> (\<forall>k i. m k = Some i \<longleftrightarrow> i < length ks \<and> ks ! i = k)"

lemma indexedD: "indexed ks m \<Longrightarrow> m k = Some i \<Longrightarrow> i < length ks \<and> ks ! i = k"
  by (simp add: indexed_def)

lemma indexed_empty [simp]: "indexed [] Map.empty"
  by (simp add: indexed_def)

lemma indexed_None: "indexed ks m \<Longrightarrow> m k = None \<longleftrightarrow> k \<notin> set ks"
  unfolding indexed_def in_set_conv_nth by (metis option.exhaust option.distinct(1))

lemma indexed_distinct: "indexed ks m \<Longrightarrow> distinct ks"
  unfolding indexed_def distinct_conv_nth by (metis option.inject)

lemma indexed_unique:
  assumes "indexed ks m" and "indexed ks m'"
  shows "m = m'"
proof
  fix k
  show "m k = m' k"
    using assms unfolding indexed_def by (metis option.exhaust)
qed

lemma indexed_append:
  assumes "indexed ks m" and "m k = None"
  shows "indexed (ks @ [k]) (m(k \<mapsto> length ks))"
proof -
  have "k \<notin> set ks" using assms by (simp add: indexed_None)
  then have "\<And>i. i < length ks \<Longrightarrow> ks ! i \<noteq> k" by (metis nth_mem)
  with assms show ?thesis
    unfolding indexed_def by (auto simp: nth_append less_Suc_eq split: if_splits)
qed

lemma indexed_butlast:
  assumes "indexed (ks @ [k]) m"
  shows "indexed ks (m(k := None))"
proof -
  have "distinct (ks @ [k])" using assms by (rule indexed_distinct)
  then have "\<And>i. i < length ks \<Longrightarrow> ks ! i \<noteq> k" by (metis distinct_append disjoint_insert(1) list.set(2) nth_mem)
  with assms show ?thesis
    unfolding indexed_def by (auto simp: nth_append less_Suc_eq split: if_splits)
qed

lemma indexed_map_of:
  assumes "indexed (map fst xs) m"
  shows "map_of xs k = map_option (\<lambda>i. snd (xs ! i)) (m k)"
proof (cases "m k")
  case None
  with indexed_None [OF assms, of k] have "map_of xs k = None" by (simp add: map_of_eq_None_iff)
  with None show ?thesis by simp
next
  case (Some i)
  with assms have i: "i < length xs" "fst (xs ! i) = k" by (auto dest: indexedD)
  then have "(k, snd (xs ! i)) \<in> set xs" by (metis nth_mem prod.collapse)
  with Some indexed_distinct [OF assms] show ?thesis by simp
qed

lemma map_of_update:
  assumes "indexed (map fst xs) m" and "m k = Some i"
  shows "map_of (xs[i := (k, v)]) = (map_of xs)(k \<mapsto> v)"
    and "map fst (xs[i := (k, v)]) = map fst xs"
proof -
  have i: "i < length xs" "fst (xs ! i) = k" using indexedD [OF assms] by auto
  then show fst: "map fst (xs[i := (k, v)]) = map fst xs"
    by (metis fst_conv length_map list_update_id map_update nth_map)
  show "map_of (xs[i := (k, v)]) = (map_of xs)(k \<mapsto> v)"
  proof
    fix k'
    have "indexed (map fst (xs[i := (k, v)])) m" using assms(1) fst by simp
    then show "map_of (xs[i := (k, v)]) k' = ((map_of xs)(k \<mapsto> v)) k'"
      using i indexed_map_of [OF assms(1), of k'] assms
      by (cases "m k'") (auto simp: indexed_map_of nth_list_update dest: indexedD [OF assms(1)])
  qed
qed

subsection \<open>Removing an element\<close>

text \<open>The loop \<open>for i := idx + 1; i < len(xs); i++ { xs[i-1] = xs[i]; m[key(xs[i])] = i - 1 }\<close>
  of the journal reverts, and the reverts around it.\<close>

definition shiftLeft :: "('a \<Rightarrow> 'k) \<Rightarrow> nat \<Rightarrow> 'a list \<Rightarrow> ('k \<rightharpoonup> nat) \<Rightarrow> 'a list \<times> ('k \<rightharpoonup> nat)" where
  "shiftLeft key idx xs m =
     foldl (\<lambda>(xs, m) i. (xs[i - 1 := xs ! i], m(key (xs ! i) \<mapsto> i - 1)))
       (xs, m) [idx + 1..<length xs]"

definition removeAt :: "('a \<Rightarrow> 'k) \<Rightarrow> nat \<Rightarrow> 'a list \<Rightarrow> ('k \<rightharpoonup> nat) \<Rightarrow> 'a list \<times> ('k \<rightharpoonup> nat)" where
  "removeAt key idx xs m =
     (if length xs = 1 then ([], m)
      else let (ys, m') = shiftLeft key idx xs m in (take (length ys - 1) ys, m'))"

lemma shiftLeft_steps:
  assumes "n < length xs" and "idx \<le> n"
  shows "foldl (\<lambda>(xs, m) i. (xs[i - 1 := xs ! i], m(key (xs ! i) \<mapsto> i - 1))) (xs, m) [idx + 1..<Suc n] =
     (take idx xs @ drop (Suc idx) (take (Suc n) xs) @ drop n xs,
      foldl (\<lambda>m i. m(key (xs ! i) \<mapsto> i - 1)) m [idx + 1..<Suc n])"
  using assms
proof (induction n)
  case 0
  then show ?case by simp
next
  case (Suc n)
  show ?case
  proof (cases "idx = Suc n")
    case True
    with Suc.prems show ?thesis by simp
  next
    case False
    with Suc.prems have idx: "idx \<le> n" and n: "n < length xs" "Suc n < length xs" by simp_all
    let ?ys = "take idx xs @ drop (Suc idx) (take (Suc n) xs) @ drop n xs"
    have len: "length (take idx xs @ drop (Suc idx) (take (Suc n) xs)) = n" using n idx by simp
    have nth: "?ys ! Suc n = xs ! Suc n"
      using n len by (metis append.assoc add.commute le_add2 nth_append_right nth_drop plus_1_eq_Suc diff_add_inverse2 less_imp_le)
    have upd: "?ys[n := xs ! Suc n] = take idx xs @ drop (Suc idx) (take (Suc n) xs) @ (drop n xs)[0 := xs ! Suc n]"
      using len by (metis append.assoc diff_self_eq_0 list_update_append less_irrefl)
    have "(drop n xs)[0 := xs ! Suc n] = xs ! Suc n # drop (Suc n) xs"
      using n by (simp add: Cons_nth_drop_Suc [symmetric])
    moreover have "drop (Suc idx) (take (Suc (Suc n)) xs) = drop (Suc idx) (take (Suc n) xs) @ [xs ! Suc n]"
      using n idx by (simp add: take_Suc_conv_app_nth [of "Suc n"] del: take_Suc_conv_app_nth)
    ultimately show ?thesis
      using Suc.IH [OF n(1) idx] idx nth upd by simp
  qed
qed

lemma foldl_upd_cases:
  "(\<exists>j \<in> set ps. f j = k \<and> foldl (\<lambda>m i. m(f i \<mapsto> g i)) m ps k = Some (g j)) \<or>
   (k \<notin> f ` set ps \<and> foldl (\<lambda>m i. m(f i \<mapsto> g i)) m ps k = m k)"
  by (induction ps rule: rev_induct) auto

lemma indexed_shift:
  assumes idx: "indexed ks m" and k: "m k = Some i"
  shows "indexed (take i ks @ drop (Suc i) ks)
     (foldl (\<lambda>m i. m(ks ! i \<mapsto> i - 1)) (m(k := None)) [i + 1..<length ks])"
    (is "indexed ?ys ?m")
proof -
  have i: "i < length ks" "ks ! i = k" using indexedD [OF idx k] by simp_all
  have inj: "\<And>p q. p < length ks \<Longrightarrow> q < length ks \<Longrightarrow> ks ! p = ks ! q \<Longrightarrow> p = q"
    using indexed_distinct [OF idx] by (simp add: nth_eq_iff_index_eq)
  have ys: "?ys ! j = (if j < i then ks ! j else ks ! Suc j)" if "j < length ks - 1" for j
    using that i by (auto simp: nth_append min_def)
  have len: "length ?ys = length ks - 1" using i by simp
  have "?m a = Some j \<longleftrightarrow> j < length ?ys \<and> ?ys ! j = a" for a j
  proof (cases "a \<in> (\<lambda>p. ks ! p) ` set [i + 1..<length ks]")
    case True
    then obtain p where "p \<in> set [i + 1..<length ks]" and p: "ks ! p = a" "?m a = Some (p - 1)"
      using foldl_upd_cases [where f = "\<lambda>p. ks ! p" and g = "\<lambda>p. p - 1" and k = a
          and m = "m(k := None)" and ps = "[i + 1..<length ks]"] by blast
    then have p: "i < p" "p < length ks" "ks ! p = a" "?m a = Some (p - 1)" by auto
    show ?thesis
    proof
      assume "?m a = Some j"
      with p have "j = p - 1" by simp
      with p ys [of j] i show "j < length ?ys \<and> ?ys ! j = a" by (auto simp: len)
    next
      assume j: "j < length ?ys \<and> ?ys ! j = a"
      then have "(if j < i then ks ! j else ks ! Suc j) = ks ! p" using ys [of j] p len by simp
      with j p i inj [of j p] inj [of "Suc j" p] have "Suc j = p" by (auto simp: len split: if_splits)
      with p show "?m a = Some j" by simp
    qed
  next
    case False
    then have m: "?m a = (m(k := None)) a"
      using foldl_upd_cases [where f = "\<lambda>p. ks ! p" and g = "\<lambda>p. p - 1" and k = a
          and m = "m(k := None)" and ps = "[i + 1..<length ks]"] by auto
    have right: "\<And>p. i < p \<Longrightarrow> p < length ks \<Longrightarrow> ks ! p \<noteq> a" using False by auto
    show ?thesis
    proof
      assume "?m a = Some j"
      with m have j: "a \<noteq> k" "j < length ks" "ks ! j = a" using indexedD [OF idx] by (auto split: if_splits)
      with right [of j] i have "j < i" by (metis linorder_neqE_nat)
      with j i ys [of j] show "j < length ?ys \<and> ?ys ! j = a" by (auto simp: len)
    next
      assume j: "j < length ?ys \<and> ?ys ! j = a"
      then have lt': "j < length ks - 1" using len by simp
      have lt: "j < i"
      proof (rule ccontr)
        assume "\<not> j < i"
        moreover have "Suc j < length ks" using lt' by simp
        ultimately show False using right [of "Suc j"] ys [OF lt'] j by auto
      qed
      with j ys [OF lt'] have "ks ! j = a" by auto
      with lt i have "m a = Some j" "a \<noteq> k" using idx inj [of j i] by (auto simp: indexed_def)
      with m show "?m a = Some j" by simp
    qed
  qed
  then show ?thesis unfolding indexed_def by blast
qed

lemma removeAt_indexed:
  assumes idx: "indexed (map key xs) m" and k: "m k = Some i"
  shows "\<exists>m'. removeAt key i xs (m(k := None)) = (take i xs @ drop (Suc i) xs, m') \<and>
     indexed (map key (take i xs @ drop (Suc i) xs)) m'"
proof -
  have i: "i < length xs" using indexedD [OF idx k] by simp
  let ?f = "\<lambda>m i. m(map key xs ! i \<mapsto> i - 1)"
  let ?m = "foldl ?f (m(k := None)) [i + 1..<length xs]"
  have new: "indexed (map key (take i xs @ drop (Suc i) xs)) ?m"
    using indexed_shift [OF idx k] by (simp add: take_map drop_map)
  show ?thesis
  proof (cases "length xs = 1")
    case True
    with i new show ?thesis by (simp add: removeAt_def)
  next
    case False
    then obtain n where n: "length xs = Suc n" "n < length xs" "i \<le> n" using i by (cases xs) auto
    have "foldl (\<lambda>m i. m(key (xs ! i) \<mapsto> i - 1)) (m(k := None)) [i + 1..<Suc n] = ?m"
      unfolding n(1) by (rule foldl_cong) (auto simp: n)
    with shiftLeft_steps [OF n(2,3), of key "m(k := None)"] n new False
    show ?thesis by (simp add: removeAt_def shiftLeft_def)
  qed
qed

lemma map_of_remove:
  assumes idx: "indexed (map fst xs) m" and k: "m k = Some i"
  shows "map_of (take i xs @ drop (Suc i) xs) = (map_of xs)(k := None)"
proof -
  have i: "i < length xs" "fst (xs ! i) = k" using indexedD [OF idx k] by auto
  have xs: "xs = take i xs @ xs ! i # drop (Suc i) xs" using i by (simp add: id_take_nth_drop [symmetric])
  have "distinct (map fst (take i xs @ xs ! i # drop (Suc i) xs))" using indexed_distinct [OF idx] xs by simp
  then have "k \<notin> fst ` set (take i xs)" "k \<notin> fst ` set (drop (Suc i) xs)" using i(2) by auto
  then have none: "map_of (take i xs) k = None" "map_of (drop (Suc i) xs) k = None"
    by (simp_all add: map_of_eq_None_iff)
  show ?thesis
  proof
    fix a
    have "map_of xs a = map_of (take i xs @ xs ! i # drop (Suc i) xs) a" using xs by simp
    then show "map_of (take i xs @ drop (Suc i) xs) a = ((map_of xs)(k := None)) a"
      using none i(2) by (cases "xs ! i") (auto simp: map_add_def split: option.splits)
  qed
qed

end
