(* ===== verification/Evm_Object.thy ===== *)
theory Evm_Object
  imports Evm_AccessList Indexed_List
begin

text \<open>
  State objects and the journal (evm/types/storage.go, state_object.go, journal.go). An object
  caches an account together with the storage entries read (\<open>originStorage\<close>) and written
  (\<open>dirtyStorage\<close>) since the last commit. Operations that journal a change take the journal and
  return it extended; a write through the \<open>*stateObject\<close> pointer returns the object.

  The persistent stores of the module are the fields of \<open>evm_stores\<close>, one per key prefix of
  evm/types/key.go, together with the account store and the parameter subspace.
\<close>

record State =
  Key :: hash
  Value :: hash

type_synonym Storage = "State list"

definition NewState :: "hash \<Rightarrow> hash \<Rightarrow> State" where
  "NewState k v = \<lparr>Key = k, Value = v\<rparr>"

datatype storage_error = ErrDuplicateKey nat | ErrEmptyKey

definition stateValidate :: "State \<Rightarrow> storage_error + unit" where
  "stateValidate s = (if Key s = 0 then Inl ErrEmptyKey else Inr ())"

fun storageValidateFrom :: "nat \<Rightarrow> hash set \<Rightarrow> Storage \<Rightarrow> storage_error + unit" where
  "storageValidateFrom i seen [] = Inr ()"
| "storageValidateFrom i seen (s # ss) =
     (if Key s \<in> seen then Inl (ErrDuplicateKey i)
      else bindE (stateValidate s) (\<lambda>_. storageValidateFrom (Suc i) (insert (Key s) seen) ss))"

definition storageValidate :: "Storage \<Rightarrow> storage_error + unit" where
  "storageValidate ss = storageValidateFrom 0 {} ss"

record evm_params =
  EnableCreate :: bool
  EnableCall :: bool
  ExtraEIPs :: "int list"
  EnableContractDeploymentWhitelist :: bool
  EnableContractBlockedList :: bool
  MaxGasLimitPerTx :: uint64

record evm_stores =
  ev_accounts :: "(bytes, account) kv"
  ev_codes :: "(bytes, bytes) kv"
  ev_storage :: "(address \<times> hash, hash) kv"
  ev_heightHash :: "(uint64, hash) kv"
  ev_whitelist :: "(bytes, unit) kv"
  ev_blocked :: "(bytes, unit) kv"
  ev_params :: evm_params

subsection \<open>State objects\<close>

datatype db_error = NoAccountFor address | NoCodeFor bytes address

record stateObject =
  so_code :: "bytes option" \<comment> \<open>\<open>None\<close> is the nil slice\<close>
  originStorage :: Storage
  dirtyStorage :: Storage
  so_dbErr :: "db_error option"
  so_account :: EthAccount
  keyToOriginStorageIndex :: "hash \<rightharpoonup> nat"
  keyToDirtyStorageIndex :: "hash \<rightharpoonup> nat"
  so_address :: address
  dirtyCode :: bool
  suicided :: bool
  deleted :: bool

definition objectOf :: "evm_env \<Rightarrow> EthAccount \<Rightarrow> stateObject" where
  "objectOf E acc =
     (let acc' = (if CodeHash acc = [] then acc\<lparr>CodeHash := emptyCodeHash E\<rparr> else acc)
      in \<lparr>so_code = None, originStorage = [], dirtyStorage = [], so_dbErr = None, so_account = acc',
          keyToOriginStorageIndex = Map.empty, keyToDirtyStorageIndex = Map.empty,
          so_address = EthAddress E acc', dirtyCode = False, suicided = False, deleted = False\<rparr>)"

definition newStateObject :: "evm_env \<Rightarrow> account \<Rightarrow> evm_error + stateObject" where
  "newStateObject E acc =
     (case acc of EthAcc a \<Rightarrow> Inr (objectOf E a) | OtherAcc _ \<Rightarrow> Inl PanicAccountType)"

definition setState :: "stateObject \<Rightarrow> hash \<Rightarrow> hash \<Rightarrow> evm_error + stateObject" where
  "setState so key val =
     (case keyToDirtyStorageIndex so key of
        Some idx \<Rightarrow>
          bindE (nthE PanicIndex (dirtyStorage so) idx) (\<lambda>e.
            Inr (so\<lparr>dirtyStorage := (dirtyStorage so)[idx := e\<lparr>Value := val\<rparr>]\<rparr>))
      | None \<Rightarrow>
          Inr (so\<lparr>dirtyStorage := dirtyStorage so @ [NewState key val],
                  keyToDirtyStorageIndex := (keyToDirtyStorageIndex so)(key \<mapsto> length (dirtyStorage so))\<rparr>))"

definition setCode :: "evm_env \<Rightarrow> stateObject \<Rightarrow> hash \<Rightarrow> bytes option \<Rightarrow> stateObject" where
  "setCode E so codeHash cd =
     so\<lparr>so_code := cd, so_account := (so_account so)\<lparr>CodeHash := HashBytes E codeHash\<rparr>, dirtyCode := True\<rparr>"

definition setBalance :: "evm_env \<Rightarrow> stateObject \<Rightarrow> string \<Rightarrow> dec \<Rightarrow> evm_error + stateObject" where
  "setBalance E so denom amount =
     bindE (accSetBalance E denom amount (so_account so)) (\<lambda>acc. Inr (so\<lparr>so_account := acc\<rparr>))"

definition setNonce :: "stateObject \<Rightarrow> uint64 \<Rightarrow> stateObject" where
  "setNonce so nonce = so\<lparr>so_account := (so_account so)\<lparr>Sequence := nonce\<rparr>\<rparr>"

definition soSetError :: "stateObject \<Rightarrow> db_error \<Rightarrow> stateObject" where
  "soSetError so err = (if so_dbErr so = None then so\<lparr>so_dbErr := Some err\<rparr> else so)"

definition markSuicided :: "stateObject \<Rightarrow> stateObject" where
  "markSuicided so = so\<lparr>suicided := True\<rparr>"

definition soBalance :: "evm_env \<Rightarrow> stateObject \<Rightarrow> int" where
  "soBalance E so = Balance (so_account so) (bondDenom E)"

definition soCodeHash :: "evm_env \<Rightarrow> stateObject \<Rightarrow> bytes" where
  "soCodeHash E so =
     (if CodeHash (so_account so) = [] then emptyCodeHash E else CodeHash (so_account so))"

definition soNonce :: "stateObject \<Rightarrow> uint64" where
  "soNonce so = Sequence (so_account so)"

definition codeLen :: "bytes option \<Rightarrow> nat" where
  "codeLen c = (case c of None \<Rightarrow> 0 | Some b \<Rightarrow> length b)"

definition soCode :: "evm_env \<Rightarrow> evm_stores \<Rightarrow> stateObject \<Rightarrow> bytes option \<times> stateObject" where
  "soCode E st so =
     (if 0 < codeLen (so_code so) then (so_code so, so)
      else if soCodeHash E so = emptyCodeHash E then (None, so)
      else
        let c = kv_get (ev_codes st) (soCodeHash E so)
        in (c, if codeLen c = 0 then soSetError so (NoCodeFor (soCodeHash E so) (so_address so)) else so))"

definition soEmpty :: "evm_env \<Rightarrow> stateObject \<Rightarrow> bool" where
  "soEmpty E so \<longleftrightarrow>
     Sequence (so_account so) = 0 \<and> Balance (so_account so) (bondDenom E) = 0 \<and>
     CodeHash (so_account so) = emptyCodeHash E"

definition GetStorageByAddressKey :: "evm_env \<Rightarrow> stateObject \<Rightarrow> bytes \<Rightarrow> hash" where
  "GetStorageByAddressKey E so key = Keccak256Hash E (AddressBytes E (so_address so) @ key)"

definition soGetCommittedState ::
    "evm_env \<Rightarrow> evm_stores \<Rightarrow> stateObject \<Rightarrow> hash \<Rightarrow> evm_error + (hash \<times> stateObject)" where
  "soGetCommittedState E st so key =
     (let prefixKey = GetStorageByAddressKey E so (HashBytes E key)
      in case keyToOriginStorageIndex so prefixKey of
           Some idx \<Rightarrow> bindE (nthE PanicIndex (originStorage so) idx) (\<lambda>e. Inr (Value e, so))
         | None \<Rightarrow>
             let state = NewState prefixKey
                   (case kv_get (ev_storage st) (so_address so, prefixKey) of None \<Rightarrow> 0 | Some v \<Rightarrow> v)
             in Inr (Value state,
                  so\<lparr>originStorage := originStorage so @ [state],
                     keyToOriginStorageIndex :=
                       (keyToOriginStorageIndex so)(prefixKey \<mapsto> length (originStorage so))\<rparr>))"

definition soGetState ::
    "evm_env \<Rightarrow> evm_stores \<Rightarrow> stateObject \<Rightarrow> hash \<Rightarrow> evm_error + (hash \<times> stateObject)" where
  "soGetState E st so key =
     (let prefixKey = GetStorageByAddressKey E so (HashBytes E key)
      in case keyToDirtyStorageIndex so prefixKey of
           Some idx \<Rightarrow> bindE (nthE PanicIndex (dirtyStorage so) idx) (\<lambda>e. Inr (Value e, so))
         | None \<Rightarrow> soGetCommittedState E st so key)"

text \<open>One round of the loop of \<open>commitState\<close>, on the object and the storage store.\<close>

definition commitStateStep ::
    "stateObject \<times> evm_stores \<Rightarrow> State \<Rightarrow> evm_error + (stateObject \<times> evm_stores)" where
  "commitStateStep p state =
     (let (so, st) = p;
          key = (so_address so, Key state);
          st = (if Value state = 0 then st\<lparr>ev_storage := kv_del key (ev_storage st)\<rparr> else st);
          so = so\<lparr>keyToDirtyStorageIndex := (keyToDirtyStorageIndex so)(Key state := None)\<rparr>
      in case keyToOriginStorageIndex so (Key state) of
           None \<Rightarrow> Inr (so, st)
         | Some idx \<Rightarrow>
             if Value state = 0 then
               Inr (so\<lparr>keyToOriginStorageIndex := (keyToOriginStorageIndex so)(Key state := None)\<rparr>, st)
             else
               bindE (nthE PanicIndex (originStorage so) idx) (\<lambda>e.
                 if Value state = Value e then Inr (so, st)
                 else Inr (so\<lparr>originStorage := (originStorage so)[idx := e\<lparr>Value := Value state\<rparr>]\<rparr>,
                           st\<lparr>ev_storage := kv_set key (Value state) (ev_storage st)\<rparr>)))"

definition commitState :: "stateObject \<Rightarrow> evm_stores \<Rightarrow> evm_error + (stateObject \<times> evm_stores)" where
  "commitState so st =
     bindE (foldE commitStateStep (so, st) (dirtyStorage so)) (\<lambda>(so, st).
       Inr (so\<lparr>dirtyStorage := []\<rparr>, st))"

definition commitCode :: "evm_env \<Rightarrow> stateObject \<Rightarrow> evm_stores \<Rightarrow> evm_stores" where
  "commitCode E so st =
     st\<lparr>ev_codes := kv_set (soCodeHash E so) (case so_code so of None \<Rightarrow> [] | Some b \<Rightarrow> b) (ev_codes st)\<rparr>"

subsection \<open>The journal\<close>

datatype journalEntry =
    createObjectChange address
  | resetObjectChange stateObject
  | suicideChange address bool dec
  | balanceChange address dec
  | nonceChange address uint64
  | storageChange address hash hash
  | codeChange address "bytes option" bytes
  | refundChange uint64
  | addLogChange hash
  | addPreimageChange hash
  | touchChange address
  | accessListAddAccountChange address
  | accessListAddSlotChange address hash

primrec dirtied :: "journalEntry \<Rightarrow> address option" where
  "dirtied (createObjectChange a) = Some a"
| "dirtied (resetObjectChange so) = None"
| "dirtied (suicideChange a s b) = Some a"
| "dirtied (balanceChange a b) = Some a"
| "dirtied (nonceChange a n) = Some a"
| "dirtied (storageChange a k v) = Some a"
| "dirtied (codeChange a c h) = Some a"
| "dirtied (refundChange n) = None"
| "dirtied (addLogChange h) = None"
| "dirtied (addPreimageChange h) = None"
| "dirtied (touchChange a) = Some a"
| "dirtied (accessListAddAccountChange a) = None"
| "dirtied (accessListAddSlotChange a h) = None"

record journal =
  entries :: "journalEntry list"
  dirties :: "(address \<times> int) list"
  addressToJournalIndex :: "address \<rightharpoonup> nat"

definition newJournal :: journal where
  "newJournal = \<lparr>entries = [], dirties = [], addressToJournalIndex = Map.empty\<rparr>"

definition getDirty :: "journal \<Rightarrow> address \<Rightarrow> evm_error + int" where
  "getDirty j a =
     (case addressToJournalIndex j a of
        None \<Rightarrow> Inr 0
      | Some idx \<Rightarrow> bindE (nthE PanicIndex (dirties j) idx) (\<lambda>d. Inr (snd d)))"

definition addDirty :: "journal \<Rightarrow> address \<Rightarrow> evm_error + journal" where
  "addDirty j a =
     (let (j, idx) =
        (case addressToJournalIndex j a of
           Some idx \<Rightarrow> (j, idx)
         | None \<Rightarrow> (j\<lparr>dirties := dirties j @ [(a, 0)],
                       addressToJournalIndex := (addressToJournalIndex j)(a \<mapsto> length (dirties j))\<rparr>,
                    length (dirties j)))
      in bindE (nthE PanicIndex (dirties j) idx) (\<lambda>d.
           Inr (j\<lparr>dirties := (dirties j)[idx := (fst d, snd d + 1)]\<rparr>)))"

definition substractDirty :: "journal \<Rightarrow> address \<Rightarrow> evm_error + journal" where
  "substractDirty j a =
     (case addressToJournalIndex j a of
        None \<Rightarrow> Inr j
      | Some idx \<Rightarrow>
          bindE (nthE PanicIndex (dirties j) idx) (\<lambda>d.
            if snd d = 0 then Inr j
            else Inr (j\<lparr>dirties := (dirties j)[idx := (fst d, snd d - 1)]\<rparr>)))"

definition deleteDirty :: "journal \<Rightarrow> address \<Rightarrow> evm_error + journal" where
  "deleteDirty j a =
     (case addressToJournalIndex j a of
        None \<Rightarrow> Inr j
      | Some idx \<Rightarrow>
          if length (dirties j) \<le> idx then Inl PanicIndex
          else Inr (j\<lparr>dirties := take idx (dirties j) @ drop (Suc idx) (dirties j),
                      addressToJournalIndex := (addressToJournalIndex j)(a := None)\<rparr>))"

definition jappend :: "journal \<Rightarrow> journalEntry \<Rightarrow> evm_error + journal" where
  "jappend j entry =
     (let j = j\<lparr>entries := entries j @ [entry]\<rparr>
      in case dirtied entry of None \<Rightarrow> Inr j | Some a \<Rightarrow> addDirty j a)"

text \<open>The dirty bookkeeping of one reverted entry, in the loop of \<open>journal.revert\<close>.\<close>

definition dropDirty :: "journal \<Rightarrow> journalEntry \<Rightarrow> evm_error + journal" where
  "dropDirty j entry =
     (case dirtied entry of
        None \<Rightarrow> Inr j
      | Some a \<Rightarrow>
          bindE (substractDirty j a) (\<lambda>j.
            bindE (getDirty j a) (\<lambda>n.
              if n = 0 then deleteDirty j a else Inr j)))"

subsection \<open>Setters of an object that journal their change\<close>

definition ripemd :: address where
  "ripemd = 3"

definition soSetState ::
    "evm_env \<Rightarrow> evm_stores \<Rightarrow> journal \<Rightarrow> stateObject \<Rightarrow> hash \<Rightarrow> hash \<Rightarrow> evm_error + (journal \<times> stateObject)" where
  "soSetState E st j so key val =
     bindE (soGetState E st so key) (\<lambda>(prev, so).
       if prev = val then Inr (j, so)
       else
         let prefixKey = GetStorageByAddressKey E so (HashBytes E key)
         in bindE (jappend j (storageChange (so_address so) prefixKey prev)) (\<lambda>j.
              bindE (setState so prefixKey val) (\<lambda>so. Inr (j, so))))"

definition soSetCode ::
    "evm_env \<Rightarrow> evm_stores \<Rightarrow> journal \<Rightarrow> stateObject \<Rightarrow> hash \<Rightarrow> bytes option \<Rightarrow> evm_error + (journal \<times> stateObject)" where
  "soSetCode E st j so codeHash cd =
     (let (prevCode, so) = soCode E st so
      in bindE (jappend j (codeChange (so_address so) prevCode (soCodeHash E so))) (\<lambda>j.
           Inr (j, setCode E so codeHash cd)))"

definition soSetBalance ::
    "evm_env \<Rightarrow> journal \<Rightarrow> stateObject \<Rightarrow> int \<Rightarrow> evm_error + (journal \<times> stateObject)" where
  "soSetBalance E j so amount =
     bindE (jappend j (balanceChange (so_address so) (AmountOf (bondDenom E) (Coins (so_account so))))) (\<lambda>j.
       bindE (setBalance E so (bondDenom E) amount) (\<lambda>so. Inr (j, so)))"

definition touch :: "journal \<Rightarrow> stateObject \<Rightarrow> evm_error + journal" where
  "touch j so =
     bindE (jappend j (touchChange (so_address so))) (\<lambda>j.
       if so_address so = ripemd then addDirty j (so_address so) else Inr j)"

definition soAddBalance ::
    "evm_env \<Rightarrow> journal \<Rightarrow> stateObject \<Rightarrow> int \<Rightarrow> evm_error + (journal \<times> stateObject)" where
  "soAddBalance E j so amount =
     (if amount = 0 then
        (if soEmpty E so then bindE (touch j so) (\<lambda>j. Inr (j, so)) else Inr (j, so))
      else soSetBalance E j so (AmountOf (bondDenom E) (Coins (so_account so)) + amount))"

definition soSubBalance ::
    "evm_env \<Rightarrow> journal \<Rightarrow> stateObject \<Rightarrow> int \<Rightarrow> evm_error + (journal \<times> stateObject)" where
  "soSubBalance E j so amount =
     (if amount = 0 then Inr (j, so)
      else soSetBalance E j so (AmountOf (bondDenom E) (Coins (so_account so)) - amount))"

definition soSetNonce :: "journal \<Rightarrow> stateObject \<Rightarrow> uint64 \<Rightarrow> evm_error + (journal \<times> stateObject)" where
  "soSetNonce j so nonce =
     bindE (jappend j (nonceChange (so_address so) (Sequence (so_account so)))) (\<lambda>j.
       Inr (j, setNonce so nonce))"

end
