(* ===== verification/Evm_StateDB.thy ===== *)
theory Evm_StateDB
  imports Evm_Object
begin

text \<open>
  \<open>CommitStateDB\<close> (evm/types/statedb.go) with the reverts of the journal entries
  (evm/types/journal.go). The SDK context and the keepers the Go struct holds are the field
  \<open>stores\<close> and the environment; \<open>nextAccountNumber\<close> is the counter from which the account
  keeper numbers new accounts. Getters load objects into the cache, so they return the state too.
\<close>

record eth_log =
  log_Address :: address
  log_Topics :: "hash list"
  log_Data :: bytes
  log_BlockNumber :: uint64
  log_TxHash :: hash
  log_TxIndex :: uint64
  log_BlockHash :: hash
  log_Index :: uint64

record revision =
  rev_id :: int
  journalIndex :: nat

record commitStateDB =
  stores :: evm_stores
  nextAccountNumber :: uint64
  stateObjects :: "(address \<times> stateObject) list"
  addressToObjectIndex :: "address \<rightharpoonup> nat"
  stateObjectsDirty :: "address set"
  refund :: uint64
  thash :: hash
  bhash :: hash
  txIndex :: int
  logSize :: uint64
  logs :: "eth_log list"
  preimages :: "(hash \<times> bytes) list"
  hashToPreimageIndex :: "hash \<rightharpoonup> nat"
  csdb_dbErr :: "db_error option"
  jrnl :: journal
  validRevisions :: "revision list"
  nextRevisionID :: int
  access_list :: accessList
  params_cache :: "evm_params option"
  codeCache :: "address \<rightharpoonup> bytes option"

definition CreateEmptyCommitStateDB :: "evm_stores \<Rightarrow> uint64 \<Rightarrow> commitStateDB" where
  "CreateEmptyCommitStateDB st n = \<lparr>
     stores = st, nextAccountNumber = n,
     stateObjects = [], addressToObjectIndex = Map.empty, stateObjectsDirty = {},
     refund = 0, thash = 0, bhash = 0, txIndex = 0, logSize = 0, logs = [],
     preimages = [], hashToPreimageIndex = Map.empty, csdb_dbErr = None,
     jrnl = newJournal, validRevisions = [], nextRevisionID = 0,
     access_list = newAccessList, params_cache = None, codeCache = Map.empty\<rparr>"

subsection \<open>The cache of state objects\<close>

definition csdbSetError :: "commitStateDB \<Rightarrow> db_error \<Rightarrow> commitStateDB" where
  "csdbSetError s err = (if csdb_dbErr s = None then s\<lparr>csdb_dbErr := Some err\<rparr> else s)"

definition setStateObject :: "commitStateDB \<Rightarrow> stateObject \<Rightarrow> evm_error + commitStateDB" where
  "setStateObject s so =
     (case addressToObjectIndex s (so_address so) of
        Some idx \<Rightarrow>
          bindE (nthE PanicIndex (stateObjects s) idx) (\<lambda>e.
            Inr (s\<lparr>stateObjects := (stateObjects s)[idx := (fst e, so)]\<rparr>))
      | None \<Rightarrow>
          Inr (s\<lparr>stateObjects := stateObjects s @ [(so_address so, so)],
                 addressToObjectIndex :=
                   (addressToObjectIndex s)(so_address so \<mapsto> length (stateObjects s))\<rparr>))"

definition liveObject :: "commitStateDB \<Rightarrow> address \<Rightarrow> evm_error + stateObject option" where
  "liveObject s addr =
     (case addressToObjectIndex s addr of
        None \<Rightarrow> Inr None
      | Some idx \<Rightarrow> bindE (nthE PanicIndex (stateObjects s) idx) (\<lambda>e. Inr (Some (snd e))))"

definition getStateObject ::
    "evm_env \<Rightarrow> commitStateDB \<Rightarrow> address \<Rightarrow> evm_error + (stateObject option \<times> commitStateDB)" where
  "getStateObject E s addr =
     bindE (liveObject s addr) (\<lambda>live.
       case live of
         Some so \<Rightarrow> Inr (if deleted so then None else Some so, s)
       | None \<Rightarrow>
           case kv_get (ev_accounts (stores s)) (AddressBytes E addr) of
             None \<Rightarrow> Inr (None, csdbSetError s (NoAccountFor addr))
           | Some acc \<Rightarrow>
               bindE (newStateObject E acc) (\<lambda>so.
                 bindE (setStateObject s so) (\<lambda>s. Inr (Some so, s))))"

definition createObject ::
    "evm_env \<Rightarrow> commitStateDB \<Rightarrow> address \<Rightarrow> evm_error + (stateObject \<times> stateObject option \<times> commitStateDB)" where
  "createObject E s addr =
     bindE (getStateObject E s addr) (\<lambda>(prevObj, s).
       let acc = NewAccount E (nextAccountNumber s) (AddressBytes E addr);
           s = s\<lparr>nextAccountNumber := nextAccountNumber s + 1\<rparr>
       in bindE (newStateObject E acc) (\<lambda>newObj.
            let newObj = setNonce newObj 0
            in bindE (jappend (jrnl s)
                 (case prevObj of None \<Rightarrow> createObjectChange addr | Some p \<Rightarrow> resetObjectChange p)) (\<lambda>j.
                 bindE (setStateObject (s\<lparr>jrnl := j\<rparr>) newObj) (\<lambda>s. Inr (newObj, prevObj, s)))))"

definition GetOrNewStateObject ::
    "evm_env \<Rightarrow> commitStateDB \<Rightarrow> address \<Rightarrow> evm_error + (stateObject \<times> commitStateDB)" where
  "GetOrNewStateObject E s addr =
     bindE (getStateObject E s addr) (\<lambda>(so, s).
       case so of
         Some so \<Rightarrow>
           if deleted so then bindE (createObject E s addr) (\<lambda>(so, _, s). Inr (so, s)) else Inr (so, s)
       | None \<Rightarrow> bindE (createObject E s addr) (\<lambda>(so, _, s). Inr (so, s)))"

text \<open>The write through the object pointer after a setter that journals.\<close>

definition putBack :: "commitStateDB \<Rightarrow> journal \<times> stateObject \<Rightarrow> evm_error + commitStateDB" where
  "putBack s p = setStateObject (s\<lparr>jrnl := fst p\<rparr>) (snd p)"

subsection \<open>Setters\<close>

definition SetHeightHash :: "commitStateDB \<Rightarrow> uint64 \<Rightarrow> hash \<Rightarrow> commitStateDB" where
  "SetHeightHash s height h =
     s\<lparr>stores := (stores s)\<lparr>ev_heightHash := kv_set height h (ev_heightHash (stores s))\<rparr>\<rparr>"

definition csdbSetParams :: "commitStateDB \<Rightarrow> evm_params \<Rightarrow> commitStateDB" where
  "csdbSetParams s p = s\<lparr>params_cache := Some p, stores := (stores s)\<lparr>ev_params := p\<rparr>\<rparr>"

definition csdbSetBalance :: "evm_env \<Rightarrow> commitStateDB \<Rightarrow> address \<Rightarrow> int \<Rightarrow> evm_error + commitStateDB" where
  "csdbSetBalance E s addr amount =
     bindE (GetOrNewStateObject E s addr) (\<lambda>(so, s).
       bindE (soSetBalance E (jrnl s) so amount) (putBack s))"

definition AddBalance :: "evm_env \<Rightarrow> commitStateDB \<Rightarrow> address \<Rightarrow> int \<Rightarrow> evm_error + commitStateDB" where
  "AddBalance E s addr amount =
     bindE (GetOrNewStateObject E s addr) (\<lambda>(so, s).
       bindE (soAddBalance E (jrnl s) so amount) (putBack s))"

definition SubBalance :: "evm_env \<Rightarrow> commitStateDB \<Rightarrow> address \<Rightarrow> int \<Rightarrow> evm_error + commitStateDB" where
  "SubBalance E s addr amount =
     bindE (GetOrNewStateObject E s addr) (\<lambda>(so, s).
       bindE (soSubBalance E (jrnl s) so amount) (putBack s))"

definition SetNonce :: "evm_env \<Rightarrow> commitStateDB \<Rightarrow> address \<Rightarrow> uint64 \<Rightarrow> evm_error + commitStateDB" where
  "SetNonce E s addr nonce =
     bindE (GetOrNewStateObject E s addr) (\<lambda>(so, s).
       bindE (soSetNonce (jrnl s) so nonce) (putBack s))"

definition SetState :: "evm_env \<Rightarrow> commitStateDB \<Rightarrow> address \<Rightarrow> hash \<Rightarrow> hash \<Rightarrow> evm_error + commitStateDB" where
  "SetState E s addr key val =
     bindE (GetOrNewStateObject E s addr) (\<lambda>(so, s).
       bindE (soSetState E (stores s) (jrnl s) so key val) (putBack s))"

definition SetCode :: "evm_env \<Rightarrow> commitStateDB \<Rightarrow> address \<Rightarrow> bytes option \<Rightarrow> evm_error + commitStateDB" where
  "SetCode E s addr cd =
     bindE (GetOrNewStateObject E s addr) (\<lambda>(so, s).
       bindE (soSetCode E (stores s) (jrnl s) so
                (Keccak256Hash E (case cd of None \<Rightarrow> [] | Some b \<Rightarrow> b)) cd) (\<lambda>p.
         bindE (putBack s p) (\<lambda>s. Inr (s\<lparr>codeCache := (codeCache s)(addr \<mapsto> cd)\<rparr>))))"

definition SetLogs :: "commitStateDB \<Rightarrow> hash \<Rightarrow> eth_log list \<Rightarrow> commitStateDB" where
  "SetLogs s h ls = s\<lparr>logs := ls\<rparr>"

definition DeleteLogs :: "commitStateDB \<Rightarrow> hash \<Rightarrow> commitStateDB" where
  "DeleteLogs s h = s\<lparr>logs := []\<rparr>"

definition AddLog :: "commitStateDB \<Rightarrow> eth_log \<Rightarrow> evm_error + commitStateDB" where
  "AddLog s log =
     bindE (jappend (jrnl s) (addLogChange (thash s))) (\<lambda>j.
       let log = log\<lparr>log_TxHash := thash s, log_BlockHash := bhash s,
                     log_TxIndex := word_of_int (txIndex s), log_Index := logSize s\<rparr>
       in Inr (s\<lparr>jrnl := j, logSize := logSize s + 1, logs := logs s @ [log]\<rparr>))"

definition AddPreimage :: "commitStateDB \<Rightarrow> hash \<Rightarrow> bytes \<Rightarrow> evm_error + commitStateDB" where
  "AddPreimage s h preimage =
     (if hashToPreimageIndex s h = None then
        bindE (jappend (jrnl s) (addPreimageChange h)) (\<lambda>j.
          Inr (s\<lparr>jrnl := j, preimages := preimages s @ [(h, preimage)],
                 hashToPreimageIndex := (hashToPreimageIndex s)(h \<mapsto> length (preimages s))\<rparr>))
      else Inr s)"

definition AddRefund :: "commitStateDB \<Rightarrow> uint64 \<Rightarrow> evm_error + commitStateDB" where
  "AddRefund s gas =
     bindE (jappend (jrnl s) (refundChange (refund s))) (\<lambda>j. Inr (s\<lparr>jrnl := j, refund := refund s + gas\<rparr>))"

definition SubRefund :: "commitStateDB \<Rightarrow> uint64 \<Rightarrow> evm_error + commitStateDB" where
  "SubRefund s gas =
     bindE (jappend (jrnl s) (refundChange (refund s))) (\<lambda>j.
       if refund s < gas then Inl PanicRefund else Inr (s\<lparr>jrnl := j, refund := refund s - gas\<rparr>))"

definition AddAddressToAccessList :: "commitStateDB \<Rightarrow> address \<Rightarrow> evm_error + commitStateDB" where
  "AddAddressToAccessList s addr =
     (let (added, al) = AddAddress (access_list s) addr
      in if added then
           bindE (jappend (jrnl s) (accessListAddAccountChange addr)) (\<lambda>j.
             Inr (s\<lparr>jrnl := j, access_list := al\<rparr>))
         else Inr (s\<lparr>access_list := al\<rparr>))"

definition AddSlotToAccessList :: "commitStateDB \<Rightarrow> address \<Rightarrow> hash \<Rightarrow> evm_error + commitStateDB" where
  "AddSlotToAccessList s addr slot =
     (let (addrMod, slotMod, al) = AddSlot (access_list s) addr slot
      in bindE (if addrMod then jappend (jrnl s) (accessListAddAccountChange addr) else Inr (jrnl s)) (\<lambda>j.
           bindE (if slotMod then jappend j (accessListAddSlotChange addr slot) else Inr j) (\<lambda>j.
             Inr (s\<lparr>jrnl := j, access_list := al\<rparr>))))"

definition AddressInAccessList :: "commitStateDB \<Rightarrow> address \<Rightarrow> bool" where
  "AddressInAccessList s addr = ContainsAddress (access_list s) addr"

definition SlotInAccessList :: "commitStateDB \<Rightarrow> address \<Rightarrow> hash \<Rightarrow> bool \<times> bool" where
  "SlotInAccessList s addr slot = Contains (access_list s) addr slot"

subsection \<open>Getters\<close>

definition GetHeightHash :: "commitStateDB \<Rightarrow> uint64 \<Rightarrow> hash" where
  "GetHeightHash s height =
     (case kv_get (ev_heightHash (stores s)) height of None \<Rightarrow> 0 | Some h \<Rightarrow> h)"

definition csdbGetParams :: "commitStateDB \<Rightarrow> evm_params \<times> commitStateDB" where
  "csdbGetParams s =
     (case params_cache s of
        Some p \<Rightarrow> (p, s)
      | None \<Rightarrow> (ev_params (stores s), s\<lparr>params_cache := Some (ev_params (stores s))\<rparr>))"

text \<open>A getter that reads the object of an address, with a default for a missing account.\<close>

definition readObject ::
    "evm_env \<Rightarrow> commitStateDB \<Rightarrow> address \<Rightarrow> 'a \<Rightarrow> (stateObject \<Rightarrow> 'a) \<Rightarrow> evm_error + ('a \<times> commitStateDB)" where
  "readObject E s addr dflt f =
     bindE (getStateObject E s addr) (\<lambda>(so, s).
       Inr (case so of None \<Rightarrow> dflt | Some so \<Rightarrow> f so, s))"

definition GetBalance :: "evm_env \<Rightarrow> commitStateDB \<Rightarrow> address \<Rightarrow> evm_error + (int \<times> commitStateDB)" where
  "GetBalance E s addr = readObject E s addr 0 (soBalance E)"

definition GetNonce :: "evm_env \<Rightarrow> commitStateDB \<Rightarrow> address \<Rightarrow> evm_error + (uint64 \<times> commitStateDB)" where
  "GetNonce E s addr = readObject E s addr 0 soNonce"

definition GetCodeHash :: "evm_env \<Rightarrow> commitStateDB \<Rightarrow> address \<Rightarrow> evm_error + (hash \<times> commitStateDB)" where
  "GetCodeHash E s addr = readObject E s addr 0 (\<lambda>so. BytesToHash E (soCodeHash E so))"

definition HasSuicided :: "evm_env \<Rightarrow> commitStateDB \<Rightarrow> address \<Rightarrow> evm_error + (bool \<times> commitStateDB)" where
  "HasSuicided E s addr = readObject E s addr False suicided"

definition Empty :: "evm_env \<Rightarrow> commitStateDB \<Rightarrow> address \<Rightarrow> evm_error + (bool \<times> commitStateDB)" where
  "Empty E s addr = readObject E s addr True (soEmpty E)"

definition Exist :: "evm_env \<Rightarrow> commitStateDB \<Rightarrow> address \<Rightarrow> evm_error + (bool \<times> commitStateDB)" where
  "Exist E s addr = readObject E s addr False (\<lambda>so. True)"

definition IsContractInBlockedList :: "commitStateDB \<Rightarrow> bytes \<Rightarrow> bool" where
  "IsContractInBlockedList s contractAddr \<longleftrightarrow> kv_get (ev_blocked (stores s)) contractAddr \<noteq> None"

definition GetCode :: "evm_env \<Rightarrow> commitStateDB \<Rightarrow> address \<Rightarrow> evm_error + (bytes option \<times> commitStateDB)" where
  "GetCode E s addr =
     (let (p, s) = csdbGetParams s
      in if EnableContractBlockedList p \<and> IsContractInBlockedList s (AddressBytes E addr)
         then Inl (PanicBlocked addr)
         else
           bindE (getStateObject E s addr) (\<lambda>(so, s).
             case so of
               None \<Rightarrow> Inr (None, s)
             | Some so \<Rightarrow>
                 let (c, so) = soCode E (stores s) so
                 in bindE (setStateObject s so) (\<lambda>s. Inr (c, s))))"

definition GetCodeSize :: "evm_env \<Rightarrow> commitStateDB \<Rightarrow> address \<Rightarrow> evm_error + (nat \<times> commitStateDB)" where
  "GetCodeSize E s addr =
     bindE (getStateObject E s addr) (\<lambda>(so, s).
       case so of
         None \<Rightarrow> Inr (0, s)
       | Some so \<Rightarrow>
           (case so_code so of
              Some c \<Rightarrow> Inr (length c, s)
            | None \<Rightarrow>
                let (c, so) = soCode E (stores s) so
                in bindE (setStateObject s so) (\<lambda>s. Inr (codeLen c, s))))"

definition GetState :: "evm_env \<Rightarrow> commitStateDB \<Rightarrow> address \<Rightarrow> hash \<Rightarrow> evm_error + (hash \<times> commitStateDB)" where
  "GetState E s addr key =
     bindE (getStateObject E s addr) (\<lambda>(so, s).
       case so of
         None \<Rightarrow> Inr (0, s)
       | Some so \<Rightarrow>
           bindE (soGetState E (stores s) so key) (\<lambda>(v, so).
             bindE (setStateObject s so) (\<lambda>s. Inr (v, s))))"

definition GetCommittedState :: "evm_env \<Rightarrow> commitStateDB \<Rightarrow> address \<Rightarrow> hash \<Rightarrow> evm_error + (hash \<times> commitStateDB)" where
  "GetCommittedState E s addr key =
     bindE (getStateObject E s addr) (\<lambda>(so, s).
       case so of
         None \<Rightarrow> Inr (0, s)
       | Some so \<Rightarrow>
           bindE (soGetCommittedState E (stores s) so key) (\<lambda>(v, so).
             bindE (setStateObject s so) (\<lambda>s. Inr (v, s))))"

definition GetRefund :: "commitStateDB \<Rightarrow> uint64" where
  "GetRefund s = refund s"

definition Preimages :: "commitStateDB \<Rightarrow> hash \<rightharpoonup> bytes" where
  "Preimages s = foldl (\<lambda>m (h, p). m(h \<mapsto> p)) Map.empty (preimages s)"

definition GetCacheCode :: "commitStateDB \<Rightarrow> address \<Rightarrow> bytes option" where
  "GetCacheCode s addr = (case codeCache s addr of Some c \<Rightarrow> c | None \<Rightarrow> None)"

subsection \<open>Accounts\<close>

definition Suicide :: "evm_env \<Rightarrow> commitStateDB \<Rightarrow> address \<Rightarrow> evm_error + (bool \<times> commitStateDB)" where
  "Suicide E s addr =
     bindE (getStateObject E s addr) (\<lambda>(so, s).
       case so of
         None \<Rightarrow> Inr (False, s)
       | Some so \<Rightarrow>
           bindE (jappend (jrnl s) (suicideChange addr (suicided so) (soBalance E so))) (\<lambda>j.
             bindE (soSetBalance E j (markSuicided so) 0) (\<lambda>p.
               bindE (putBack s p) (\<lambda>s. Inr (True, s)))))"

definition CreateAccount :: "evm_env \<Rightarrow> commitStateDB \<Rightarrow> address \<Rightarrow> evm_error + commitStateDB" where
  "CreateAccount E s addr =
     bindE (createObject E s addr) (\<lambda>(newobj, prevobj, s).
       case prevobj of
         None \<Rightarrow> Inr s
       | Some p \<Rightarrow>
           bindE (setBalance E newobj (bondDenom E) (soBalance E p)) (\<lambda>so. setStateObject s so))"

definition clearJournalAndRefund :: "commitStateDB \<Rightarrow> commitStateDB" where
  "clearJournalAndRefund s = s\<lparr>jrnl := newJournal, validRevisions := [], refund := 0\<rparr>"

definition Reset :: "commitStateDB \<Rightarrow> commitStateDB" where
  "Reset s = clearJournalAndRefund (s\<lparr>stateObjects := [], addressToObjectIndex := Map.empty,
     stateObjectsDirty := {}, thash := 0, bhash := 0, txIndex := 0, logSize := 0, preimages := [],
     hashToPreimageIndex := Map.empty, access_list := newAccessList, params_cache := None\<rparr>)"

definition ClearStateObjects :: "commitStateDB \<Rightarrow> commitStateDB" where
  "ClearStateObjects s =
     s\<lparr>stateObjects := [], addressToObjectIndex := Map.empty, stateObjectsDirty := {}\<rparr>"

definition Prepare :: "commitStateDB \<Rightarrow> hash \<Rightarrow> hash \<Rightarrow> int \<Rightarrow> commitStateDB" where
  "Prepare s th bh txi = s\<lparr>thash := th, bhash := bh, txIndex := txi\<rparr>"

subsection \<open>Snapshots\<close>

definition Snapshot :: "commitStateDB \<Rightarrow> int \<times> commitStateDB" where
  "Snapshot s =
     (nextRevisionID s,
      s\<lparr>nextRevisionID := nextRevisionID s + 1,
        validRevisions := validRevisions s @
          [\<lparr>rev_id = nextRevisionID s, journalIndex = length (entries (jrnl s))\<rparr>]\<rparr>)"

text \<open>Removing the object of an address from the slice, and a preimage from its slice.\<close>

definition dropObject :: "commitStateDB \<Rightarrow> address \<Rightarrow> commitStateDB" where
  "dropObject s addr =
     (let s = s\<lparr>stateObjectsDirty := stateObjectsDirty s - {addr}\<rparr>
      in case addressToObjectIndex s addr of
           None \<Rightarrow> s
         | Some idx \<Rightarrow>
             let (objs, index) =
               removeAt fst idx (stateObjects s) ((addressToObjectIndex s)(addr := None))
             in s\<lparr>stateObjects := objs, addressToObjectIndex := index\<rparr>)"

definition dropPreimage :: "commitStateDB \<Rightarrow> hash \<Rightarrow> commitStateDB" where
  "dropPreimage s h =
     (case hashToPreimageIndex s h of
        None \<Rightarrow> s
      | Some idx \<Rightarrow>
          let (ps, index) = removeAt fst idx (preimages s) ((hashToPreimageIndex s)(h := None))
          in s\<lparr>preimages := ps, hashToPreimageIndex := index\<rparr>)"

text \<open>A revert that writes to the object of an address dereferences the pointer it gets.\<close>

definition withObject ::
    "evm_env \<Rightarrow> commitStateDB \<Rightarrow> address \<Rightarrow> (stateObject \<Rightarrow> evm_error + stateObject) \<Rightarrow>
     evm_error + commitStateDB" where
  "withObject E s addr f =
     bindE (getStateObject E s addr) (\<lambda>(so, s).
       case so of
         None \<Rightarrow> Inl PanicNilObject
       | Some so \<Rightarrow> bindE (f so) (\<lambda>so. setStateObject s so))"

primrec undo :: "evm_env \<Rightarrow> commitStateDB \<Rightarrow> journalEntry \<Rightarrow> evm_error + commitStateDB" where
  "undo E s (createObjectChange a) = Inr (dropObject s a)"
| "undo E s (resetObjectChange prev) = setStateObject s prev"
| "undo E s (suicideChange a prev prevBalance) =
     bindE (getStateObject E s a) (\<lambda>(so, s).
       case so of
         None \<Rightarrow> Inr s
       | Some so \<Rightarrow>
           bindE (setBalance E (so\<lparr>suicided := prev\<rparr>) (bondDenom E) prevBalance) (\<lambda>so. setStateObject s so))"
| "undo E s (balanceChange a prev) = withObject E s a (\<lambda>so. setBalance E so (bondDenom E) prev)"
| "undo E s (nonceChange a prev) = withObject E s a (\<lambda>so. Inr (setNonce so prev))"
| "undo E s (storageChange a key prevValue) = withObject E s a (\<lambda>so. setState so key prevValue)"
| "undo E s (codeChange a prevCode prevHash) =
     withObject E s a (\<lambda>so. Inr (setCode E so (BytesToHash E prevHash) prevCode))"
| "undo E s (refundChange prev) = Inr (s\<lparr>refund := prev\<rparr>)"
| "undo E s (addLogChange txhash) =
     Inr ((if length (logs s) \<le> 1 then DeleteLogs s txhash
           else SetLogs s txhash (take (length (logs s) - 1) (logs s)))\<lparr>logSize := logSize s - 1\<rparr>)"
| "undo E s (addPreimageChange h) = Inr (dropPreimage s h)"
| "undo E s (touchChange a) = Inr s"
| "undo E s (accessListAddAccountChange a) = Inr (s\<lparr>access_list := DeleteAddress (access_list s) a\<rparr>)"
| "undo E s (accessListAddSlotChange a slot) =
     bindE (DeleteSlot (access_list s) a slot) (\<lambda>al. Inr (s\<lparr>access_list := al\<rparr>))"

definition revertStep :: "evm_env \<Rightarrow> commitStateDB \<Rightarrow> journalEntry \<Rightarrow> evm_error + commitStateDB" where
  "revertStep E s e =
     bindE (undo E s e) (\<lambda>s. bindE (dropDirty (jrnl s) e) (\<lambda>j. Inr (s\<lparr>jrnl := j\<rparr>)))"

definition jrevert :: "evm_env \<Rightarrow> commitStateDB \<Rightarrow> nat \<Rightarrow> evm_error + commitStateDB" where
  "jrevert E s snapshot =
     (if length (entries (jrnl s)) < snapshot then Inl PanicIndex
      else
        bindE (foldE (revertStep E) s (rev (drop snapshot (entries (jrnl s))))) (\<lambda>s.
          Inr (s\<lparr>jrnl := (jrnl s)\<lparr>entries := take snapshot (entries (jrnl s))\<rparr>\<rparr>)))"

text \<open>\<open>sort.Search\<close> of the standard library: binary search for the first index at which a
  predicate holds.\<close>

function searchLoop :: "(nat \<Rightarrow> bool) \<Rightarrow> nat \<Rightarrow> nat \<Rightarrow> nat" where
  "searchLoop f i j =
     (if i < j then
        let h = (i + j) div 2
        in if \<not> f h then searchLoop f (h + 1) j else searchLoop f i h
      else i)"
  by auto
termination
  by (relation "measure (\<lambda>(f, i, j). j - i)") auto

declare searchLoop.simps [simp del]

definition sortSearch :: "nat \<Rightarrow> (nat \<Rightarrow> bool) \<Rightarrow> nat" where
  "sortSearch n f = searchLoop f 0 n"

definition RevertToSnapshot :: "evm_env \<Rightarrow> commitStateDB \<Rightarrow> int \<Rightarrow> evm_error + commitStateDB" where
  "RevertToSnapshot E s revID =
     (let idx = sortSearch (length (validRevisions s)) (\<lambda>i. revID \<le> rev_id (validRevisions s ! i))
      in if idx = length (validRevisions s) \<or> rev_id (validRevisions s ! idx) \<noteq> revID
         then Inl (PanicRevision revID)
         else
           bindE (jrevert E s (journalIndex (validRevisions s ! idx))) (\<lambda>s.
             Inr (s\<lparr>validRevisions := take idx (validRevisions s)\<rparr>)))"

end
