(* ===== verification/Evm_View.thy ===== *)
theory Evm_View
  imports Evm_StateDB
begin

text \<open>
  What the state database stands for. \<open>csdb_wf\<close> is the invariant of the representation: the
  slices agree with their index maps, the storage caches with the stores, and accounts are well
  formed. \<open>view\<close> gives the account an address denotes, whether it is cached or still in the
  store; \<open>observe\<close> collects everything the EVM can observe. The operations on the object cache
  are described by their effect on views.
\<close>

record obj_view =
  v_account :: EthAccount \<comment> \<open>without the coins\<close>
  v_amount :: "string \<Rightarrow> dec"
  v_code :: bytes
  v_storage :: "hash \<Rightarrow> hash" \<comment> \<open>by hashed key\<close>
  v_suicided :: bool

definition stateAt :: "evm_stores \<Rightarrow> address \<Rightarrow> hash \<Rightarrow> hash" where
  "stateAt st a k = (case kv_get (ev_storage st) (a, k) of None \<Rightarrow> 0 | Some v \<Rightarrow> v)"

definition codeFor :: "evm_env \<Rightarrow> evm_stores \<Rightarrow> bytes option \<Rightarrow> bytes \<Rightarrow> bytes" where
  "codeFor E st c h =
     (if 0 < codeLen c then the c
      else if h = emptyCodeHash E then []
      else (case kv_get (ev_codes st) h of None \<Rightarrow> [] | Some b \<Rightarrow> b))"

definition soStorage :: "evm_stores \<Rightarrow> stateObject \<Rightarrow> hash \<Rightarrow> hash" where
  "soStorage st so k =
     (case keyToDirtyStorageIndex so k of
        Some i \<Rightarrow> Value (dirtyStorage so ! i)
      | None \<Rightarrow> stateAt st (so_address so) k)"

definition soView :: "evm_env \<Rightarrow> evm_stores \<Rightarrow> stateObject \<Rightarrow> obj_view" where
  "soView E st so = \<lparr>
     v_account = (so_account so)\<lparr>Coins := []\<rparr>,
     v_amount = (\<lambda>d. AmountOf d (Coins (so_account so))),
     v_code = codeFor E st (so_code so) (CodeHash (so_account so)),
     v_storage = soStorage st so,
     v_suicided = suicided so\<rparr>"

text \<open>The account in the store, as an object that has not been touched.\<close>

definition storedObject :: "evm_env \<Rightarrow> evm_stores \<Rightarrow> address \<Rightarrow> stateObject option" where
  "storedObject E st a =
     (case kv_get (ev_accounts st) (AddressBytes E a) of
        Some (EthAcc acc) \<Rightarrow> Some (objectOf E acc)
      | _ \<Rightarrow> None)"

definition fetch :: "evm_env \<Rightarrow> commitStateDB \<Rightarrow> address \<Rightarrow> stateObject option" where
  "fetch E s a =
     (case map_of (stateObjects s) a of
        Some so \<Rightarrow> if deleted so then None else Some so
      | None \<Rightarrow> storedObject E (stores s) a)"

definition view :: "evm_env \<Rightarrow> commitStateDB \<Rightarrow> address \<Rightarrow> obj_view option" where
  "view E s a = map_option (soView E (stores s)) (fetch E s a)"

record observation =
  o_view :: "address \<Rightarrow> obj_view option"
  o_refund :: uint64
  o_logs :: "eth_log list"
  o_logSize :: uint64
  o_preimages :: "(hash \<times> bytes) list"
  o_access :: accessList

definition observe :: "evm_env \<Rightarrow> commitStateDB \<Rightarrow> observation" where
  "observe E s = \<lparr>o_view = view E s, o_refund = refund s, o_logs = logs s, o_logSize = logSize s,
     o_preimages = preimages s, o_access = access_list s\<rparr>"

subsection \<open>The representation invariant\<close>

definition account_wf :: "evm_env \<Rightarrow> address \<Rightarrow> EthAccount \<Rightarrow> bool" where
  "account_wf E a acc \<longleftrightarrow>
     Address acc = AddressBytes E a \<and>
     (CodeHash acc = [] \<or> CodeHash acc \<in> range (HashBytes E)) \<and>
     (\<forall>d. 0 \<le> AmountOf d (Coins acc))"

definition accounts_wf :: "evm_env \<Rightarrow> evm_stores \<Rightarrow> bool" where
  "accounts_wf E st \<longleftrightarrow>
     (\<forall>a acc. kv_get (ev_accounts st) (AddressBytes E a) = Some (EthAcc acc) \<longrightarrow> account_wf E a acc)"

definition object_wf :: "evm_env \<Rightarrow> evm_stores \<Rightarrow> stateObject \<Rightarrow> bool" where
  "object_wf E st so \<longleftrightarrow>
     account_wf E (so_address so) (so_account so) \<and> CodeHash (so_account so) \<noteq> [] \<and>
     indexed (map Key (dirtyStorage so)) (keyToDirtyStorageIndex so) \<and>
     (\<forall>k i. keyToOriginStorageIndex so k = Some i \<longrightarrow>
        i < length (originStorage so) \<and> Key (originStorage so ! i) = k \<and>
        Value (originStorage so ! i) = stateAt st (so_address so) k) \<and>
     dom (keyToDirtyStorageIndex so) \<subseteq> dom (keyToOriginStorageIndex so)"

definition live_wf :: "evm_env \<Rightarrow> evm_stores \<Rightarrow> address \<times> stateObject \<Rightarrow> bool" where
  "live_wf E st p \<longleftrightarrow>
     so_address (snd p) = fst p \<and> object_wf E st (snd p) \<and>
     (deleted (snd p) \<longrightarrow> kv_get (ev_accounts st) (AddressBytes E (fst p)) = None \<and>
        (suicided (snd p) \<or> soEmpty E (snd p)))"

definition csdb_wf :: "evm_env \<Rightarrow> commitStateDB \<Rightarrow> bool" where
  "csdb_wf E s \<longleftrightarrow>
     indexed (map fst (stateObjects s)) (addressToObjectIndex s) \<and>
     (\<forall>p \<in> set (stateObjects s). live_wf E (stores s) p) \<and>
     accounts_wf E (stores s) \<and>
     indexed (map fst (preimages s)) (hashToPreimageIndex s) \<and>
     al_wf (access_list s)"

lemma csdb_wfD:
  assumes "csdb_wf E s"
  shows "indexed (map fst (stateObjects s)) (addressToObjectIndex s)"
    and "map_of (stateObjects s) a = Some so \<Longrightarrow> live_wf E (stores s) (a, so)"
    and "accounts_wf E (stores s)"
    and "indexed (map fst (preimages s)) (hashToPreimageIndex s)"
    and "al_wf (access_list s)"
  using assms by (auto simp: csdb_wf_def dest: map_of_SomeD)

text \<open>States that differ only in the object cache and the recorded database error.\<close>

definition same_but_cache :: "commitStateDB \<Rightarrow> commitStateDB \<Rightarrow> bool" where
  "same_but_cache s s' \<longleftrightarrow>
     s' = s\<lparr>stateObjects := stateObjects s', addressToObjectIndex := addressToObjectIndex s',
            csdb_dbErr := csdb_dbErr s'\<rparr>"

lemma same_but_cache_refl [simp]: "same_but_cache s s"
  by (simp add: same_but_cache_def)

lemma same_but_cacheD:
  assumes "same_but_cache s s'"
  shows "stores s' = stores s" and "jrnl s' = jrnl s" and "refund s' = refund s" and "logs s' = logs s"
    and "logSize s' = logSize s" and "preimages s' = preimages s" and "access_list s' = access_list s"
    and "hashToPreimageIndex s' = hashToPreimageIndex s" and "validRevisions s' = validRevisions s"
    and "nextRevisionID s' = nextRevisionID s" and "stateObjectsDirty s' = stateObjectsDirty s"
  using assms unfolding same_but_cache_def by (cases s; cases s'; simp)+

lemma same_but_cache_trans:
  "same_but_cache s t \<Longrightarrow> same_but_cache t u \<Longrightarrow> same_but_cache s u"
  unfolding same_but_cache_def by (cases s; cases t; cases u) simp

subsection \<open>Loading and storing objects\<close>

lemma objectOf_wf:
  assumes E: "evm_env_ok E" and acc: "account_wf E a acc"
  shows "object_wf E st (objectOf E acc)" and "so_address (objectOf E acc) = a"
    and "\<not> deleted (objectOf E acc)"
proof -
  have "emptyCodeHash E \<in> range (HashBytes E)" "emptyCodeHash E \<noteq> []"
    using evm_env_okD(4) [OF E] by (auto simp: emptyCodeHash_def Keccak256_def)
  with acc E show "object_wf E st (objectOf E acc)" and "so_address (objectOf E acc) = a"
    by (auto simp: objectOf_def object_wf_def account_wf_def EthAddress_def Let_def evm_env_okD(2))
  show "\<not> deleted (objectOf E acc)" by (simp add: objectOf_def Let_def)
qed

lemma fetch_wf:
  assumes E: "evm_env_ok E" and wf: "csdb_wf E s" and "fetch E s a = Some so"
  shows "object_wf E (stores s) so" and "so_address so = a" and "\<not> deleted so"
proof -
  consider "map_of (stateObjects s) a = Some so" "\<not> deleted so"
    | acc where "kv_get (ev_accounts (stores s)) (AddressBytes E a) = Some (EthAcc acc)"
        "so = objectOf E acc"
    using assms(3) by (auto simp: fetch_def storedObject_def split: option.splits if_splits account.splits)
  then have "object_wf E (stores s) so \<and> so_address so = a \<and> \<not> deleted so"
  proof cases
    case 1
    with csdb_wfD(2) [OF wf 1(1)] show ?thesis by (simp add: live_wf_def)
  next
    case 2
    then have "account_wf E a acc" using csdb_wfD(3) [OF wf] by (simp add: accounts_wf_def)
    from objectOf_wf [OF E this] 2 show ?thesis by simp
  qed
  then show "object_wf E (stores s) so" and "so_address so = a" and "\<not> deleted so" by simp_all
qed

lemma liveObject_eq:
  assumes "csdb_wf E s"
  shows "liveObject s a = Inr (map_of (stateObjects s) a)"
  using indexed_map_of [OF csdb_wfD(1) [OF assms], of a] indexedD [OF csdb_wfD(1) [OF assms], of a]
  by (auto simp: liveObject_def split: option.splits)

text \<open>Storing an object.\<close>

lemma setStateObject_spec:
  assumes wf: "csdb_wf E s" and live: "live_wf E (stores s) (so_address so, so)"
  shows "\<exists>s'. setStateObject s so = Inr s' \<and> same_but_cache s s' \<and> csdb_wf E s' \<and>
     map_of (stateObjects s') = (map_of (stateObjects s))(so_address so \<mapsto> so)"
proof (cases "addressToObjectIndex s (so_address so)")
  case None
  let ?s = "s\<lparr>stateObjects := stateObjects s @ [(so_address so, so)],
     addressToObjectIndex := (addressToObjectIndex s)(so_address so \<mapsto> length (stateObjects s))\<rparr>"
  have "indexed (map fst (stateObjects s) @ [so_address so]) (addressToObjectIndex ?s)"
    using indexed_append [OF csdb_wfD(1) [OF wf] None] by simp
  then have "csdb_wf E ?s"
    using wf live by (auto simp: csdb_wf_def)
  moreover have "map_of (stateObjects s) (so_address so) = None"
    using indexed_map_of [OF csdb_wfD(1) [OF wf]] None by simp
  then have "map_of (stateObjects ?s) = (map_of (stateObjects s))(so_address so \<mapsto> so)"
    by (auto simp: map_add_def split: option.splits)
  ultimately show ?thesis
    using None by (simp add: setStateObject_def same_but_cache_def)
next
  case (Some i)
  note ix = csdb_wfD(1) [OF wf]
  have i: "i < length (stateObjects s)" "fst (stateObjects s ! i) = so_address so"
    using indexedD [OF ix Some] by auto
  let ?s = "s\<lparr>stateObjects := (stateObjects s)[i := (so_address so, so)]\<rparr>"
  have "csdb_wf E ?s"
    using wf live map_of_update(2) [OF ix Some, of so]
    by (auto simp: csdb_wf_def dest!: subsetD [OF set_update_subset_insert])
  with Some i map_of_update(1) [OF ix Some, of so] show ?thesis
    by (simp add: setStateObject_def same_but_cache_def)
qed

lemma fetch_stored:
  assumes "same_but_cache s s'" and "map_of (stateObjects s') = (map_of (stateObjects s))(a \<mapsto> so)"
  shows "fetch E s' = (fetch E s)(a := if deleted so then None else Some so)"
  using assms(2) same_but_cacheD [OF assms(1)] by (auto simp: fetch_def fun_eq_iff split: option.splits)

lemma view_stored:
  assumes "same_but_cache s s'" and "map_of (stateObjects s') = (map_of (stateObjects s))(a \<mapsto> so)"
  shows "view E s' = (view E s)(a := if deleted so then None else Some (soView E (stores s) so))"
  using fetch_stored [OF assms, of E] same_but_cacheD [OF assms(1)] by (auto simp: view_def fun_eq_iff)

text \<open>Loading an object: it fails only on an account of another type, and changes nothing but
  the cache.\<close>

definition loads :: "evm_env \<Rightarrow> commitStateDB \<Rightarrow> address \<Rightarrow> commitStateDB \<Rightarrow> bool" where
  "loads E s a s' \<longleftrightarrow> same_but_cache s s' \<and> csdb_wf E s' \<and> fetch E s' = fetch E s \<and>
     map_of (stateObjects s') = (map_of (stateObjects s))
       (a := case map_of (stateObjects s) a of None \<Rightarrow> fetch E s a | Some so \<Rightarrow> Some so)"

lemma csdb_wf_dbErr [simp]: "csdb_wf E (s\<lparr>csdb_dbErr := e\<rparr>) = csdb_wf E s"
  by (simp add: csdb_wf_def)

lemma fetch_dbErr [simp]: "fetch E (s\<lparr>csdb_dbErr := e\<rparr>) = fetch E s"
  by (simp add: fetch_def fun_eq_iff split: option.splits)

lemma getStateObject_spec:
  assumes E: "evm_env_ok E" and wf: "csdb_wf E s"
  shows "(\<exists>s'. getStateObject E s a = Inr (fetch E s a, s') \<and> loads E s a s') \<or>
     (fetch E s a = None \<and> (\<exists>e. getStateObject E s a = Inl e))"
proof (cases "map_of (stateObjects s) a")
  case (Some so)
  then show ?thesis
    using wf by (auto simp: getStateObject_def liveObject_eq [OF wf] fetch_def loads_def)
next
  case None
  show ?thesis
  proof (cases "kv_get (ev_accounts (stores s)) (AddressBytes E a)")
    case none: None
    with None wf show ?thesis
      by (auto simp: getStateObject_def liveObject_eq [OF wf] fetch_def loads_def storedObject_def
          csdbSetError_def same_but_cache_def fun_upd_idem)
  next
    case (Some acc)
    show ?thesis
    proof (cases acc)
      case (OtherAcc b)
      with None Some show ?thesis
        by (simp add: getStateObject_def liveObject_eq [OF wf] newStateObject_def fetch_def storedObject_def)
    next
      case (EthAcc x)
      have accwf: "account_wf E a x"
        using csdb_wfD(3) [OF wf] Some EthAcc by (simp add: accounts_wf_def)
      note obj = objectOf_wf [OF E accwf]
      have f: "fetch E s a = Some (objectOf E x)"
        using None Some EthAcc by (simp add: fetch_def storedObject_def)
      from setStateObject_spec [OF wf, of "objectOf E x"] obj obtain s' where
        s': "setStateObject s (objectOf E x) = Inr s'" "same_but_cache s s'" "csdb_wf E s'"
          "map_of (stateObjects s') = (map_of (stateObjects s))(a \<mapsto> objectOf E x)"
        by (auto simp: live_wf_def)
      have "fetch E s' = fetch E s"
        using fetch_stored [OF s'(2,4), of E] obj f by auto
      then show ?thesis using None Some EthAcc f s'
        by (auto simp: getStateObject_def liveObject_eq [OF wf] newStateObject_def loads_def)
    qed
  qed
qed

lemma getStateObject_Inr:
  assumes E: "evm_env_ok E" and wf: "csdb_wf E s" and get: "getStateObject E s a = Inr (r, s')"
  shows "r = fetch E s a" and "loads E s a s'"
  using getStateObject_spec [OF E wf, of a] get by auto

lemma getStateObject_Some:
  assumes E: "evm_env_ok E" and wf: "csdb_wf E s" and "fetch E s a = Some so"
  shows "\<exists>s'. getStateObject E s a = Inr (Some so, s') \<and> loads E s a s' \<and>
     map_of (stateObjects s') a = Some so"
proof -
  from getStateObject_spec [OF E wf, of a] assms(3) obtain s' where
    s': "getStateObject E s a = Inr (Some so, s')" "loads E s a s'" by auto
  moreover have "map_of (stateObjects s') a = Some so"
    using s'(2) assms(3) by (auto simp: loads_def fetch_def split: option.splits if_splits)
  ultimately show ?thesis by blast
qed

lemma loads_view: "loads E s a s' \<Longrightarrow> view E s' = view E s"
  using same_but_cacheD(1) [of s s'] by (simp add: loads_def view_def fun_eq_iff)

lemma loads_observe: "loads E s a s' \<Longrightarrow> observe E s' = observe E s"
  using same_but_cacheD [of s s'] loads_view [of E s a s'] by (simp add: observe_def loads_def)

end
