(* ===== verification/Evm_Undo.thy ===== *)
theory Evm_Undo
  imports Evm_View
begin

text \<open>
  The reverts of the journal entries refine an abstract undo on observations. The abstract state
  \<open>abs\<close> adds to the observation which storage keys each cached object has loaded, which the
  commit relies on; undoing on states ordered by \<open>abs_le\<close> (same observation, more loaded) is
  monotone.
\<close>

record abs_state = observation +
  o_cache :: "address \<Rightarrow> hash set option"

abbreviation loadedKeys :: "stateObject \<Rightarrow> hash set" where
  "loadedKeys so \<equiv> dom (keyToOriginStorageIndex so)"

definition cached :: "commitStateDB \<Rightarrow> address \<Rightarrow> hash set option" where
  "cached s a =
     (case map_of (stateObjects s) a of
        None \<Rightarrow> None
      | Some so \<Rightarrow> if deleted so then None else Some (loadedKeys so))"

definition abs :: "evm_env \<Rightarrow> commitStateDB \<Rightarrow> abs_state" where
  "abs E s = observation.extend (observe E s) (abs_state.fields (cached s))"

definition cache_le :: "(address \<Rightarrow> hash set option) \<Rightarrow> (address \<Rightarrow> hash set option) \<Rightarrow> bool" where
  "cache_le C D \<longleftrightarrow> (\<forall>a X. C a = Some X \<longrightarrow> (\<exists>Y. D a = Some Y \<and> X \<subseteq> Y))"

definition abs_le :: "abs_state \<Rightarrow> abs_state \<Rightarrow> bool" where
  "abs_le A B \<longleftrightarrow> A = B\<lparr>o_cache := o_cache A\<rparr> \<and> cache_le (o_cache A) (o_cache B)"

definition keysOf :: "hash set option \<Rightarrow> hash set" where
  "keysOf C = (case C of None \<Rightarrow> {} | Some D \<Rightarrow> D)"

definition change :: "abs_state \<Rightarrow> address \<Rightarrow> (obj_view \<Rightarrow> obj_view) \<Rightarrow> abs_state option" where
  "change A a f =
     (case o_view A a of
        None \<Rightarrow> None
      | Some v \<Rightarrow> Some (A\<lparr>o_view := (o_view A)(a \<mapsto> f v),
                          o_cache := (o_cache A)(a \<mapsto> keysOf (o_cache A a))\<rparr>))"

primrec aundo :: "evm_env \<Rightarrow> evm_stores \<Rightarrow> abs_state \<Rightarrow> journalEntry \<Rightarrow> abs_state option" where
  "aundo E st A (createObjectChange a) =
     Some (A\<lparr>o_view := (o_view A)(a := map_option (soView E st) (storedObject E st a)),
             o_cache := (o_cache A)(a := None)\<rparr>)"
| "aundo E st A (resetObjectChange p) =
     Some (A\<lparr>o_view := (o_view A)(so_address p \<mapsto> soView E st p),
             o_cache := (o_cache A)(so_address p \<mapsto> loadedKeys p)\<rparr>)"
| "aundo E st A (suicideChange a prev bal) =
     change A a (\<lambda>v. v\<lparr>v_suicided := prev, v_amount := (v_amount v)(bondDenom E := bal)\<rparr>)"
| "aundo E st A (balanceChange a bal) = change A a (\<lambda>v. v\<lparr>v_amount := (v_amount v)(bondDenom E := bal)\<rparr>)"
| "aundo E st A (nonceChange a n) = change A a (\<lambda>v. v\<lparr>v_account := (v_account v)\<lparr>Sequence := n\<rparr>\<rparr>)"
| "aundo E st A (storageChange a k x) =
     (if k \<in> keysOf (o_cache A a) then change A a (\<lambda>v. v\<lparr>v_storage := (v_storage v)(k := x)\<rparr>) else None)"
| "aundo E st A (codeChange a c h) =
     change A a (\<lambda>v. v\<lparr>v_account := (v_account v)\<lparr>CodeHash := h\<rparr>, v_code := codeFor E st c h\<rparr>)"
| "aundo E st A (refundChange n) = Some (A\<lparr>o_refund := n\<rparr>)"
| "aundo E st A (addLogChange h) = Some (A\<lparr>o_logs := butlast (o_logs A), o_logSize := o_logSize A - 1\<rparr>)"
| "aundo E st A (addPreimageChange h) = Some (A\<lparr>o_preimages := filter (\<lambda>p. fst p \<noteq> h) (o_preimages A)\<rparr>)"
| "aundo E st A (touchChange a) = Some A"
| "aundo E st A (accessListAddAccountChange a) = Some (A\<lparr>o_access := DeleteAddress (o_access A) a\<rparr>)"
| "aundo E st A (accessListAddSlotChange a slot) =
     (case DeleteSlot (o_access A) a slot of
        Inl _ \<Rightarrow> None
      | Inr al \<Rightarrow> if al_wf al then Some (A\<lparr>o_access := al\<rparr>) else None)"

text \<open>What a journalled entry has to satisfy for its revert to work.\<close>

primrec entry_ok :: "evm_env \<Rightarrow> evm_stores \<Rightarrow> journalEntry \<Rightarrow> bool" where
  "entry_ok E st (createObjectChange a) = True"
| "entry_ok E st (resetObjectChange p) = (object_wf E st p \<and> \<not> deleted p)"
| "entry_ok E st (suicideChange a prev bal) = (0 \<le> bal)"
| "entry_ok E st (balanceChange a bal) = (0 \<le> bal)"
| "entry_ok E st (nonceChange a n) = True"
| "entry_ok E st (storageChange a k x) = True"
| "entry_ok E st (codeChange a c h) = (h \<in> range (HashBytes E))"
| "entry_ok E st (refundChange n) = True"
| "entry_ok E st (addLogChange h) = True"
| "entry_ok E st (addPreimageChange h) = True"
| "entry_ok E st (touchChange a) = True"
| "entry_ok E st (accessListAddAccountChange a) = True"
| "entry_ok E st (accessListAddSlotChange a slot) = True"

lemma abs_sel [simp]:
  "o_view (abs E s) = view E s" "o_refund (abs E s) = refund s" "o_logs (abs E s) = logs s"
  "o_logSize (abs E s) = logSize s" "o_preimages (abs E s) = preimages s"
  "o_access (abs E s) = access_list s" "o_cache (abs E s) = cached s"
  by (simp_all add: abs_def observe_def observation.extend_def abs_state.fields_def)

lemma abs_eqI:
  fixes A B :: abs_state
  assumes "o_view A = o_view B" and "o_refund A = o_refund B" and "o_logs A = o_logs B"
    and "o_logSize A = o_logSize B" and "o_preimages A = o_preimages B" and "o_access A = o_access B"
    and "o_cache A = o_cache B"
  shows "A = B"
  using assms by (cases A; cases B) simp

subsection \<open>The order is preserved\<close>

lemma cache_le_refl [simp]: "cache_le C C"
  by (simp add: cache_le_def)

lemma cache_le_trans: "cache_le A B \<Longrightarrow> cache_le B C \<Longrightarrow> cache_le A C"
  unfolding cache_le_def by (meson subset_trans)

lemma cache_le_upd: "cache_le C D \<Longrightarrow> X \<subseteq> Y \<Longrightarrow> cache_le (C(a \<mapsto> X)) (D(a \<mapsto> Y))"
  by (simp add: cache_le_def)

lemma cache_le_del: "cache_le C D \<Longrightarrow> cache_le (C(a := None)) (D(a := None))"
  by (simp add: cache_le_def)

lemma keysOf_mono: "cache_le C D \<Longrightarrow> keysOf (C a) \<subseteq> keysOf (D a)"
  unfolding keysOf_def cache_le_def by (cases "C a") fastforce+

lemma abs_le_refl [simp]: "abs_le A A"
  by (simp add: abs_le_def)

lemma abs_le_trans: "abs_le A B \<Longrightarrow> abs_le B C \<Longrightarrow> abs_le A C"
  by (auto simp: abs_le_def intro: cache_le_trans) (metis abs_state.surjective abs_state.update_convs)

lemma abs_leD:
  assumes "abs_le A B"
  shows "o_view A = o_view B" and "o_refund A = o_refund B" and "o_logs A = o_logs B"
    and "o_logSize A = o_logSize B" and "o_preimages A = o_preimages B" and "o_access A = o_access B"
    and "cache_le (o_cache A) (o_cache B)"
  using assms unfolding abs_le_def by (cases A; cases B; simp)+

lemma abs_leI:
  assumes "o_view A = o_view B" and "o_refund A = o_refund B" and "o_logs A = o_logs B"
    and "o_logSize A = o_logSize B" and "o_preimages A = o_preimages B" and "o_access A = o_access B"
    and "cache_le (o_cache A) (o_cache B)"
  shows "abs_le A B"
  using assms unfolding abs_le_def by (cases A; cases B) simp

lemma change_mono:
  assumes "abs_le A B" and "change A a f = Some A'"
  shows "\<exists>B'. change B a f = Some B' \<and> abs_le A' B'"
  using assms(2) abs_leD [OF assms(1)]
  by (auto simp: change_def split: option.splits intro!: abs_leI cache_le_upd keysOf_mono)

lemma aundo_mono:
  assumes le: "abs_le A B" and un: "aundo E st A e = Some A'"
  shows "\<exists>B'. aundo E st B e = Some B' \<and> abs_le A' B'"
proof (cases e)
  case (storageChange a k x)
  with un have "k \<in> keysOf (o_cache B a)"
    using keysOf_mono [OF abs_leD(7) [OF le], of a] by (auto split: if_splits)
  with un storageChange change_mono [OF le] show ?thesis by (auto split: if_splits)
next
  case (accessListAddSlotChange a slot)
  with un abs_leD [OF le] show ?thesis by (auto split: sum.splits if_splits intro!: abs_leI)
qed (use un abs_leD [OF le] change_mono [OF le] in
  \<open>auto intro!: abs_leI cache_le_upd cache_le_del\<close>)

subsection \<open>Effects on one object\<close>

lemma setBalance_object:
  assumes E: "evm_env_ok E" and wf: "object_wf E st so" and amt: "0 \<le> amt"
  shows "\<exists>so'. setBalance E so (bondDenom E) amt = Inr so' \<and> object_wf E st so' \<and>
     soView E st so' = (soView E st so)\<lparr>v_amount := (v_amount (soView E st so))(bondDenom E := amt)\<rparr> \<and>
     so_address so' = so_address so \<and> deleted so' = deleted so \<and> loadedKeys so' = loadedKeys so \<and>
     suicided so' = suicided so"
proof -
  have "\<forall>d. 0 \<le> AmountOf d (Coins (so_account so))" using wf by (simp add: object_wf_def account_wf_def)
  from accSetBalance_ok [OF E amt this, of "bondDenom E"] obtain cs where
    cs: "accSetBalance E (bondDenom E) amt (so_account so) = Inr ((so_account so)\<lparr>Coins := cs\<rparr>)"
      "\<forall>d. AmountOf d cs = (if d = bondDenom E then amt else AmountOf d (Coins (so_account so)))" by blast
  let ?so = "so\<lparr>so_account := (so_account so)\<lparr>Coins := cs\<rparr>\<rparr>"
  have storage: "soStorage st ?so = soStorage st so" by (simp add: soStorage_def fun_eq_iff split: option.splits)
  have "object_wf E st ?so" using wf cs(2) amt by (auto simp: object_wf_def account_wf_def)
  moreover have "soView E st ?so = (soView E st so)\<lparr>v_amount := (v_amount (soView E st so))(bondDenom E := amt)\<rparr>"
    using cs(2) storage by (auto simp: soView_def)
  ultimately show ?thesis using cs(1) by (simp add: setBalance_def)
qed

lemma setBalance_nonneg:
  assumes E: "evm_env_ok E" and wf: "object_wf E st so" and set: "setBalance E so (bondDenom E) amt = Inr so'"
  shows "0 \<le> amt"
  using set wf accSetBalance_nonneg [OF E, of "bondDenom E" amt "so_account so"]
  by (auto simp: setBalance_def res_simps object_wf_def account_wf_def)

lemma setNonce_object:
  assumes wf: "object_wf E st so"
  shows "object_wf E st (setNonce so n)"
    and "soView E st (setNonce so n) =
       (soView E st so)\<lparr>v_account := (v_account (soView E st so))\<lparr>Sequence := n\<rparr>\<rparr>"
    and "so_address (setNonce so n) = so_address so" and "deleted (setNonce so n) = deleted so"
    and "loadedKeys (setNonce so n) = loadedKeys so"
proof -
  have "soStorage st (setNonce so n) = soStorage st so" by (simp add: soStorage_def setNonce_def fun_eq_iff split: option.splits)
  with wf show "object_wf E st (setNonce so n)"
    and "soView E st (setNonce so n) =
       (soView E st so)\<lparr>v_account := (v_account (soView E st so))\<lparr>Sequence := n\<rparr>\<rparr>"
    by (auto simp: setNonce_def object_wf_def account_wf_def soView_def)
qed (simp_all add: setNonce_def)

lemma setCode_object:
  assumes E: "evm_env_ok E" and wf: "object_wf E st so"
  shows "object_wf E st (setCode E so h c)"
    and "soView E st (setCode E so h c) =
       (soView E st so)\<lparr>v_account := (v_account (soView E st so))\<lparr>CodeHash := HashBytes E h\<rparr>,
          v_code := codeFor E st c (HashBytes E h)\<rparr>"
    and "so_address (setCode E so h c) = so_address so" and "deleted (setCode E so h c) = deleted so"
    and "loadedKeys (setCode E so h c) = loadedKeys so"
proof -
  have "soStorage st (setCode E so h c) = soStorage st so" by (simp add: soStorage_def setCode_def fun_eq_iff split: option.splits)
  with wf evm_env_okD(4) [OF E, of h] show "object_wf E st (setCode E so h c)"
    and "soView E st (setCode E so h c) =
       (soView E st so)\<lparr>v_account := (v_account (soView E st so))\<lparr>CodeHash := HashBytes E h\<rparr>,
          v_code := codeFor E st c (HashBytes E h)\<rparr>"
    by (auto simp: setCode_def object_wf_def account_wf_def soView_def)
qed (simp_all add: setCode_def)

lemma setState_object:
  assumes wf: "object_wf E st so" and k: "k \<in> loadedKeys so"
  shows "\<exists>so'. setState so k x = Inr so' \<and> object_wf E st so' \<and>
     soView E st so' = (soView E st so)\<lparr>v_storage := (v_storage (soView E st so))(k := x)\<rparr> \<and>
     so_address so' = so_address so \<and> deleted so' = deleted so \<and> loadedKeys so' = loadedKeys so"
proof -
  have ix: "indexed (map Key (dirtyStorage so)) (keyToDirtyStorageIndex so)"
    using wf by (simp add: object_wf_def)
  show ?thesis
  proof (cases "keyToDirtyStorageIndex so k")
    case None
    let ?so = "so\<lparr>dirtyStorage := dirtyStorage so @ [NewState k x],
       keyToDirtyStorageIndex := (keyToDirtyStorageIndex so)(k \<mapsto> length (dirtyStorage so))\<rparr>"
    have "indexed (map Key (dirtyStorage so) @ [k]) (keyToDirtyStorageIndex ?so)"
      using indexed_append [OF ix None] by simp
    then have "object_wf E st ?so" using wf k by (simp add: object_wf_def NewState_def)
    moreover have "soStorage st ?so = (soStorage st so)(k := x)"
      using indexedD [OF ix] by (auto simp: soStorage_def fun_eq_iff nth_append NewState_def split: option.splits)
    ultimately show ?thesis using None by (simp add: setState_def soView_def)
  next
    case (Some i)
    have i: "i < length (dirtyStorage so)" "Key (dirtyStorage so ! i) = k"
      using indexedD [OF ix Some] by auto
    let ?so = "so\<lparr>dirtyStorage := (dirtyStorage so)[i := (dirtyStorage so ! i)\<lparr>Value := x\<rparr>]\<rparr>"
    have keys: "map Key (dirtyStorage ?so) = map Key (dirtyStorage so)"
      using i by (simp add: map_update) (metis list_update_id nth_map)
    then have "object_wf E st ?so" using wf by (simp add: object_wf_def)
    moreover have "soStorage st ?so = (soStorage st so)(k := x)"
    proof
      fix k'
      show "soStorage st ?so k' = ((soStorage st so)(k := x)) k'"
        using i Some indexedD [OF ix, of k'] by (auto simp: soStorage_def nth_list_update split: option.splits)
    qed
    ultimately show ?thesis using Some i by (simp add: setState_def soView_def)
  qed
qed

subsection \<open>Effects on the state\<close>

lemma cached_stored:
  assumes "map_of (stateObjects s') = (map_of (stateObjects s))(a \<mapsto> so)" and "\<not> deleted so"
  shows "cached s' = (cached s)(a \<mapsto> loadedKeys so)"
  using assms by (auto simp: cached_def fun_eq_iff)

lemma loads_cached:
  assumes E: "evm_env_ok E" and wf: "csdb_wf E s" and "loads E s a s'"
  shows "cached s' = (cached s)(a := case cached s a of None \<Rightarrow> map_option loadedKeys (fetch E s a) | Some D \<Rightarrow> Some D)"
proof -
  have objs: "map_of (stateObjects s') b = (if b = a then
      (case map_of (stateObjects s) a of None \<Rightarrow> fetch E s a | Some so \<Rightarrow> Some so) else map_of (stateObjects s) b)" for b
    using assms(3) by (simp add: loads_def)
  show ?thesis
  proof
    fix b
    show "cached s' b = ((cached s)(a := case cached s a of None \<Rightarrow> map_option loadedKeys (fetch E s a) | Some D \<Rightarrow> Some D)) b"
    proof (cases "map_of (stateObjects s) a")
      case None
      then show ?thesis using fetch_wf(3) [OF E wf, of a]
        by (cases "fetch E s a") (simp_all add: cached_def objs)
    next
      case (Some so)
      then show ?thesis by (simp add: cached_def objs fetch_def)
    qed
  qed
qed

lemma fetch_loaded:
  assumes "fetch E s a = Some so"
  shows "keysOf (cached s a) = loadedKeys so"
  using assms
  by (auto simp: fetch_def cached_def keysOf_def storedObject_def objectOf_def Let_def
      split: option.splits if_splits account.splits)

text \<open>Replacing the object of an address by a live one.\<close>

lemma store_live:
  assumes wf: "csdb_wf E s" and obj: "object_wf E (stores s) so" "\<not> deleted so"
  shows "\<exists>s'. setStateObject s so = Inr s' \<and> same_but_cache s s' \<and> csdb_wf E s' \<and>
     view E s' = (view E s)(so_address so \<mapsto> soView E (stores s) so) \<and>
     cached s' = (cached s)(so_address so \<mapsto> loadedKeys so)"
proof -
  from setStateObject_spec [OF wf, of so] obj obtain s' where
    s': "setStateObject s so = Inr s'" "same_but_cache s s'" "csdb_wf E s'"
      "map_of (stateObjects s') = (map_of (stateObjects s))(so_address so \<mapsto> so)"
    by (auto simp: live_wf_def)
  with view_stored [OF s'(2,4), of E] cached_stored [OF s'(4)] obj show ?thesis by auto
qed

lemma withObject_spec:
  assumes E: "evm_env_ok E" and wf: "csdb_wf E s" and f: "fetch E s a = Some so"
    and g: "g so = Inr so'" and obj: "object_wf E (stores s) so'" "so_address so' = a" "\<not> deleted so'"
    and keys: "loadedKeys so' = loadedKeys so"
  shows "\<exists>s'. withObject E s a g = Inr s' \<and> same_but_cache s s' \<and> csdb_wf E s' \<and>
     view E s' = (view E s)(a \<mapsto> soView E (stores s) so') \<and>
     cached s' = (cached s)(a \<mapsto> keysOf (cached s a))"
proof -
  from getStateObject_Some [OF E wf f] obtain t where
    t: "getStateObject E s a = Inr (Some so, t)" "loads E s a t" by blast
  then have tw: "csdb_wf E t" "same_but_cache s t" by (simp_all add: loads_def)
  from store_live [OF tw(1), of so'] obj same_but_cacheD(1) [OF tw(2)] obtain s' where
    s': "setStateObject t so' = Inr s'" "same_but_cache t s'" "csdb_wf E s'"
      "view E s' = (view E t)(a \<mapsto> soView E (stores s) so')"
      "cached s' = (cached t)(a \<mapsto> loadedKeys so')" by auto
  have "cached s' = (cached s)(a \<mapsto> keysOf (cached s a))"
    using s'(5) loads_cached [OF E wf t(2)] fetch_loaded [OF f] keys by simp
  moreover have "view E s' = (view E s)(a \<mapsto> soView E (stores s) so')"
    using s'(4) loads_view [OF t(2)] by simp
  ultimately show ?thesis
    using t(1) g s'(1,3) same_but_cache_trans [OF tw(2) s'(2)] by (simp add: withObject_def)
qed

text \<open>What an undo leaves alone.\<close>

definition undo_frame :: "commitStateDB \<Rightarrow> commitStateDB \<Rightarrow> bool" where
  "undo_frame s s' \<longleftrightarrow> stores s' = stores s \<and> jrnl s' = jrnl s \<and>
     validRevisions s' = validRevisions s \<and> nextRevisionID s' = nextRevisionID s \<and>
     stateObjectsDirty s' \<subseteq> stateObjectsDirty s"

lemma undo_frame_cache: "same_but_cache s s' \<Longrightarrow> undo_frame s s'"
  by (simp add: undo_frame_def same_but_cacheD)

lemma undo_withObject:
  assumes E: "evm_env_ok E" and wf: "csdb_wf E s" and ch: "change (abs E s) a h = Some A"
    and g: "\<And>so. fetch E s a = Some so \<Longrightarrow> \<exists>so'. g so = Inr so' \<and> object_wf E (stores s) so' \<and>
      soView E (stores s) so' = h (soView E (stores s) so) \<and>
      so_address so' = so_address so \<and> deleted so' = deleted so \<and> loadedKeys so' = loadedKeys so"
  shows "\<exists>s'. withObject E s a g = Inr s' \<and> csdb_wf E s' \<and> abs E s' = A \<and> undo_frame s s'"
proof -
  from ch obtain so where so: "fetch E s a = Some so"
    by (auto simp: change_def view_def split: option.splits)
  then have v: "view E s a = Some (soView E (stores s) so)" by (simp add: view_def)
  from g [OF so] obtain so' where so': "g so = Inr so'" "object_wf E (stores s) so'"
    "soView E (stores s) so' = h (soView E (stores s) so)" "so_address so' = a" "\<not> deleted so'"
    "loadedKeys so' = loadedKeys so" using fetch_wf [OF E wf so] by auto
  from withObject_spec [where g = g, OF E wf so so'(1,2,4-6)] obtain s' where
    s': "withObject E s a g = Inr s'" "same_but_cache s s'" "csdb_wf E s'"
      "view E s' = (view E s)(a \<mapsto> soView E (stores s) so')"
      "cached s' = (cached s)(a \<mapsto> keysOf (cached s a))" by blast
  have "abs E s' = A"
    using ch v s'(4,5) so'(3) same_but_cacheD [OF s'(2)]
    by (intro abs_eqI) (auto simp: change_def)
  with s'(1,3) undo_frame_cache [OF s'(2)] show ?thesis by blast
qed

lemma filter_removed:
  assumes ix: "indexed (map fst xs) m" and k: "m k = Some i"
  shows "take i xs @ drop (Suc i) xs = filter (\<lambda>p. fst p \<noteq> k) xs"
proof -
  have i: "i < length xs" "fst (xs ! i) = k" using indexedD [OF ix k] by auto
  have xs: "xs = take i xs @ xs ! i # drop (Suc i) xs" using i by (simp add: id_take_nth_drop [symmetric])
  have "distinct (map fst (take i xs @ xs ! i # drop (Suc i) xs))" using indexed_distinct [OF ix] xs by simp
  then have "\<forall>p \<in> set (take i xs @ drop (Suc i) xs). fst p \<noteq> k"
    using i(2) by (auto simp: image_iff)
  then have "filter (\<lambda>p. fst p \<noteq> k) (take i xs @ xs ! i # drop (Suc i) xs) = take i xs @ drop (Suc i) xs"
    using i(2) by (simp add: filter_id_conv)
  with xs show ?thesis by simp
qed

lemma filter_absent:
  assumes "indexed (map fst xs) m" and "m k = None"
  shows "filter (\<lambda>p. fst p \<noteq> k) xs = xs"
  using assms by (auto simp: indexed_None filter_id_conv)

lemma dropPreimage_eq:
  assumes wf: "csdb_wf E s"
  shows "\<exists>m. dropPreimage s h = s\<lparr>preimages := filter (\<lambda>p. fst p \<noteq> h) (preimages s), hashToPreimageIndex := m\<rparr> \<and>
     indexed (map fst (filter (\<lambda>p. fst p \<noteq> h) (preimages s))) m"
proof (cases "hashToPreimageIndex s h")
  case None
  with filter_absent [OF csdb_wfD(4) [OF wf] None] csdb_wfD(4) [OF wf] show ?thesis
    by (auto simp: dropPreimage_def intro!: exI [of _ "hashToPreimageIndex s"])
next
  case (Some i)
  from removeAt_indexed [OF csdb_wfD(4) [OF wf] Some] filter_removed [OF csdb_wfD(4) [OF wf] Some] Some
  show ?thesis by (auto simp: dropPreimage_def)
qed

lemma dropObject_spec:
  assumes wf: "csdb_wf E s"
  shows "\<exists>objs m. dropObject s a = s\<lparr>stateObjectsDirty := stateObjectsDirty s - {a}, stateObjects := objs,
       addressToObjectIndex := m\<rparr> \<and>
     map_of objs = (map_of (stateObjects s))(a := None) \<and> csdb_wf E (dropObject s a)"
proof (cases "addressToObjectIndex s a")
  case None
  then have "map_of (stateObjects s) a = None"
    using indexed_map_of [OF csdb_wfD(1) [OF wf]] by simp
  with None wf show ?thesis
    by (auto simp: dropObject_def Let_def csdb_wf_def fun_upd_idem
        intro!: exI [of _ "stateObjects s"] exI [of _ "addressToObjectIndex s"])
next
  case (Some i)
  note ix = csdb_wfD(1) [OF wf]
  from removeAt_indexed [OF ix Some] obtain m where
    m: "removeAt fst i (stateObjects s) ((addressToObjectIndex s)(a := None)) =
        (take i (stateObjects s) @ drop (Suc i) (stateObjects s), m)"
      "indexed (map fst (take i (stateObjects s) @ drop (Suc i) (stateObjects s))) m" by blast
  have eq: "dropObject s a = s\<lparr>stateObjectsDirty := stateObjectsDirty s - {a},
      stateObjects := take i (stateObjects s) @ drop (Suc i) (stateObjects s), addressToObjectIndex := m\<rparr>"
    using Some m(1) by (simp add: dropObject_def Let_def)
  have "csdb_wf E (dropObject s a)"
    using wf m(2) unfolding eq by (auto simp: csdb_wf_def dest: in_set_takeD in_set_dropD)
  with eq map_of_remove [OF ix Some] show ?thesis by blast
qed

lemma undo_createObject:
  assumes wf: "csdb_wf E s" and un: "aundo E (stores s) (abs E s) (createObjectChange a) = Some A"
  shows "\<exists>s'. undo E s (createObjectChange a) = Inr s' \<and> csdb_wf E s' \<and> abs E s' = A \<and> undo_frame s s'"
proof -
  from dropObject_spec [OF wf, of a] obtain objs m where
    eq: "dropObject s a = s\<lparr>stateObjectsDirty := stateObjectsDirty s - {a}, stateObjects := objs,
       addressToObjectIndex := m\<rparr>"
    and objs: "map_of objs = (map_of (stateObjects s))(a := None)" and wf': "csdb_wf E (dropObject s a)"
    by blast
  have "view E (dropObject s a) = (view E s)(a := map_option (soView E (stores s)) (storedObject E (stores s) a))"
    unfolding eq by (auto simp: view_def fetch_def objs fun_eq_iff split: option.splits)
  moreover have "cached (dropObject s a) = (cached s)(a := None)"
    unfolding eq by (auto simp: cached_def objs fun_eq_iff)
  ultimately have "abs E (dropObject s a) = A"
    using un by (intro abs_eqI) (auto simp: eq)
  with wf' show ?thesis by (simp add: eq undo_frame_def)
qed

text \<open>Fields outside the object cache.\<close>

lemma csdb_wf_fields [simp]:
  "csdb_wf E (s\<lparr>refund := r\<rparr>) = csdb_wf E s"
  "csdb_wf E (s\<lparr>logs := l\<rparr>) = csdb_wf E s"
  "csdb_wf E (s\<lparr>logSize := n\<rparr>) = csdb_wf E s"
  "csdb_wf E (s\<lparr>jrnl := j\<rparr>) = csdb_wf E s"
  "csdb_wf E (s\<lparr>validRevisions := v\<rparr>) = csdb_wf E s"
  "csdb_wf E (s\<lparr>nextRevisionID := i\<rparr>) = csdb_wf E s"
  "csdb_wf E (s\<lparr>nextAccountNumber := c\<rparr>) = csdb_wf E s"
  "csdb_wf E (s\<lparr>codeCache := cc\<rparr>) = csdb_wf E s"
  "csdb_wf E (s\<lparr>params_cache := p\<rparr>) = csdb_wf E s"
  by (simp_all add: csdb_wf_def)

lemma fetch_cong:
  "stateObjects s' = stateObjects s \<Longrightarrow> stores s' = stores s \<Longrightarrow> fetch E s' = fetch E s"
  by (auto simp: fetch_def fun_eq_iff split: option.splits)

lemma fetch_fields [simp]:
  "fetch E (s\<lparr>refund := r\<rparr>) = fetch E s"
  "fetch E (s\<lparr>logs := l\<rparr>) = fetch E s"
  "fetch E (s\<lparr>logSize := n\<rparr>) = fetch E s"
  "fetch E (s\<lparr>jrnl := j\<rparr>) = fetch E s"
  "fetch E (s\<lparr>validRevisions := v\<rparr>) = fetch E s"
  "fetch E (s\<lparr>nextRevisionID := i\<rparr>) = fetch E s"
  "fetch E (s\<lparr>nextAccountNumber := c\<rparr>) = fetch E s"
  "fetch E (s\<lparr>codeCache := cc\<rparr>) = fetch E s"
  "fetch E (s\<lparr>params_cache := p\<rparr>) = fetch E s"
  "fetch E (s\<lparr>preimages := ps\<rparr>) = fetch E s"
  "fetch E (s\<lparr>hashToPreimageIndex := m\<rparr>) = fetch E s"
  "fetch E (s\<lparr>access_list := al\<rparr>) = fetch E s"
  by (rule fetch_cong; simp)+

lemma view_fields [simp]:
  "view E (s\<lparr>refund := r\<rparr>) = view E s"
  "view E (s\<lparr>logs := l\<rparr>) = view E s"
  "view E (s\<lparr>logSize := n\<rparr>) = view E s"
  "view E (s\<lparr>jrnl := j\<rparr>) = view E s"
  "view E (s\<lparr>validRevisions := v\<rparr>) = view E s"
  "view E (s\<lparr>nextRevisionID := i\<rparr>) = view E s"
  "view E (s\<lparr>nextAccountNumber := c\<rparr>) = view E s"
  "view E (s\<lparr>codeCache := cc\<rparr>) = view E s"
  "view E (s\<lparr>params_cache := p\<rparr>) = view E s"
  "view E (s\<lparr>preimages := ps\<rparr>) = view E s"
  "view E (s\<lparr>hashToPreimageIndex := m\<rparr>) = view E s"
  "view E (s\<lparr>access_list := al\<rparr>) = view E s"
  by (simp_all add: view_def fun_eq_iff)

lemma cached_fields [simp]:
  "cached (s\<lparr>refund := r\<rparr>) = cached s"
  "cached (s\<lparr>logs := l\<rparr>) = cached s"
  "cached (s\<lparr>logSize := n\<rparr>) = cached s"
  "cached (s\<lparr>jrnl := j\<rparr>) = cached s"
  "cached (s\<lparr>validRevisions := v\<rparr>) = cached s"
  "cached (s\<lparr>nextRevisionID := i\<rparr>) = cached s"
  "cached (s\<lparr>nextAccountNumber := c\<rparr>) = cached s"
  "cached (s\<lparr>codeCache := cc\<rparr>) = cached s"
  "cached (s\<lparr>params_cache := p\<rparr>) = cached s"
  "cached (s\<lparr>preimages := ps\<rparr>) = cached s"
  "cached (s\<lparr>hashToPreimageIndex := m\<rparr>) = cached s"
  "cached (s\<lparr>access_list := al\<rparr>) = cached s"
  by (simp_all add: cached_def fun_eq_iff)

lemma undo_refines:
  assumes E: "evm_env_ok E" and wf: "csdb_wf E s" and ok: "entry_ok E (stores s) e"
    and un: "aundo E (stores s) (abs E s) e = Some A"
  shows "\<exists>s'. undo E s e = Inr s' \<and> csdb_wf E s' \<and> abs E s' = A \<and> undo_frame s s'"
proof (cases e)
  case (createObjectChange a)
  with undo_createObject [OF wf] un show ?thesis by simp
next
  case (resetObjectChange p)
  with ok store_live [OF wf, of p] obtain s' where
    s': "setStateObject s p = Inr s'" "same_but_cache s s'" "csdb_wf E s'"
      "view E s' = (view E s)(so_address p \<mapsto> soView E (stores s) p)"
      "cached s' = (cached s)(so_address p \<mapsto> loadedKeys p)" by auto
  with un resetObjectChange same_but_cacheD [OF s'(2)] have "abs E s' = A"
    by (intro abs_eqI) auto
  with s' resetObjectChange undo_frame_cache [OF s'(2)] show ?thesis by simp
next
  case (suicideChange a prev bal)
  let ?g = "\<lambda>so. setBalance E (so\<lparr>suicided := prev\<rparr>) (bondDenom E) bal"
  have "undo E s e = withObject E s a ?g"
  proof -
    from un suicideChange obtain so where "fetch E s a = Some so"
      by (auto simp: change_def view_def split: option.splits)
    from getStateObject_Some [OF E wf this] show ?thesis
      unfolding suicideChange by (auto simp: withObject_def)
  qed
  moreover have "\<exists>so'. ?g so = Inr so' \<and> object_wf E (stores s) so' \<and>
      soView E (stores s) so' = (soView E (stores s) so)\<lparr>v_suicided := prev,
        v_amount := (v_amount (soView E (stores s) so))(bondDenom E := bal)\<rparr> \<and>
      so_address so' = so_address so \<and> deleted so' = deleted so \<and> loadedKeys so' = loadedKeys so"
    if f: "fetch E s a = Some so" for so
  proof -
    let ?so = "so\<lparr>suicided := prev\<rparr>"
    have "soStorage (stores s) ?so = soStorage (stores s) so"
      by (simp add: soStorage_def fun_eq_iff split: option.splits)
    then have v: "soView E (stores s) ?so = (soView E (stores s) so)\<lparr>v_suicided := prev\<rparr>"
      by (simp add: soView_def)
    have "object_wf E (stores s) ?so" using fetch_wf(1) [OF E wf f] by (simp add: object_wf_def)
    from setBalance_object [OF E this, of bal] ok suicideChange v show ?thesis by auto
  qed
  ultimately show ?thesis
    using undo_withObject [OF E wf, where g = ?g] un suicideChange by simp
next
  case (balanceChange a bal)
  with ok undo_withObject [OF E wf, where g = "\<lambda>so. setBalance E so (bondDenom E) bal"] un
    setBalance_object [OF E fetch_wf(1) [OF E wf], of a _ bal]
  show ?thesis by simp blast
next
  case (nonceChange a n)
  with undo_withObject [OF E wf, where g = "\<lambda>so. Inr (setNonce so n)"] un
    setNonce_object [OF fetch_wf(1) [OF E wf], of a] show ?thesis by simp
next
  case (storageChange a k x)
  with un have "k \<in> keysOf (cached s a)" by (auto split: if_splits)
  then have k: "\<And>so. fetch E s a = Some so \<Longrightarrow> k \<in> loadedKeys so" by (simp add: fetch_loaded)
  with storageChange un undo_withObject [OF E wf, where g = "\<lambda>so. setState so k x"]
    setState_object [OF fetch_wf(1) [OF E wf] k, of a] show ?thesis by (simp split: if_splits)
next
  case (codeChange a c h)
  with ok evm_env_okD(3) [OF E] have h: "HashBytes E (BytesToHash E h) = h" by auto
  with codeChange un undo_withObject [OF E wf, where g = "\<lambda>so. Inr (setCode E so (BytesToHash E h) c)"]
    setCode_object [OF E fetch_wf(1) [OF E wf], of a] show ?thesis by simp
next
  case (addLogChange h)
  have "butlast (logs s) = (if length (logs s) \<le> 1 then [] else take (length (logs s) - 1) (logs s))"
    by (cases "logs s" rule: rev_cases) auto
  with addLogChange un wf show ?thesis
    by (auto intro!: abs_eqI simp: undo_frame_def DeleteLogs_def SetLogs_def)
next
  case (addPreimageChange h)
  from dropPreimage_eq [OF wf, of h] obtain m where
    m: "dropPreimage s h = s\<lparr>preimages := filter (\<lambda>p. fst p \<noteq> h) (preimages s), hashToPreimageIndex := m\<rparr>"
      "indexed (map fst (filter (\<lambda>p. fst p \<noteq> h) (preimages s))) m" by blast
  have "csdb_wf E (dropPreimage s h)" using wf m by (auto simp: csdb_wf_def)
  with addPreimageChange un m(1) show ?thesis
    by (auto intro!: abs_eqI simp: undo_frame_def)
next
  case (accessListAddAccountChange a)
  have "al_wf (DeleteAddress (access_list s) a)"
    using csdb_wfD(5) [OF wf] by (auto simp: al_wf_def DeleteAddress_def split: if_splits)
  with accessListAddAccountChange un wf show ?thesis
    by (auto intro!: abs_eqI simp: undo_frame_def csdb_wf_def)
next
  case (accessListAddSlotChange a slot)
  with un wf show ?thesis
    by (auto intro!: abs_eqI simp: undo_frame_def csdb_wf_def split: sum.splits if_splits)
qed (use un wf in \<open>auto intro!: abs_eqI simp: undo_frame_def\<close>)

end
