(* ===== verification/Undo_Log.thy ===== *)
theory Undo_Log
  imports Prelude
begin

text \<open>
  Logs of undoable changes. \<open>undo_log\<close> is the interface a journal needs of its entries: states
  are ordered (by how much a cache has loaded, say) and undoing an entry is monotone. A log
  \<^emph>\<open>rolls back\<close> from one state to another when undoing its entries, last first, gives at least
  the other state; such logs compose.
\<close>

fun undoAll :: "('a \<Rightarrow> 'e \<Rightarrow> 'a option) \<Rightarrow> 'a \<Rightarrow> 'e list \<Rightarrow> 'a option" where
  "undoAll un x [] = Some x"
| "undoAll un x (e # es) = (case un x e of None \<Rightarrow> None | Some y \<Rightarrow> undoAll un y es)"

lemma undoAll_append:
  "undoAll un x (es @ fs) = (case undoAll un x es of None \<Rightarrow> None | Some y \<Rightarrow> undoAll un y fs)"
  by (induction es arbitrary: x) (auto split: option.splits)

locale undo_log =
  fixes le :: "'a \<Rightarrow> 'a \<Rightarrow> bool"
    and un :: "'a \<Rightarrow> 'e \<Rightarrow> 'a option"
  assumes le_refl: "le x x"
    and le_trans: "le x y \<Longrightarrow> le y z \<Longrightarrow> le x z"
    and un_mono: "le x y \<Longrightarrow> un x e = Some x' \<Longrightarrow> \<exists>y'. un y e = Some y' \<and> le x' y'"
begin

definition rolls_back :: "'a \<Rightarrow> 'e list \<Rightarrow> 'a \<Rightarrow> bool" where
  "rolls_back x es y \<longleftrightarrow> (\<exists>z. undoAll un y (rev es) = Some z \<and> le x z)"

lemma undoAll_mono:
  "le x y \<Longrightarrow> undoAll un x es = Some x' \<Longrightarrow> \<exists>y'. undoAll un y es = Some y' \<and> le x' y'"
proof (induction es arbitrary: x y)
  case Nil
  then show ?case by simp
next
  case (Cons e es)
  then obtain x1 where x1: "un x e = Some x1" "undoAll un x1 es = Some x'" by (auto split: option.splits)
  from un_mono [OF Cons.prems(1) x1(1)] obtain y1 where "un y e = Some y1" "le x1 y1" by blast
  with Cons.IH [OF _ x1(2), of y1] show ?case by simp
qed

lemma rolls_back_nil: "le x y \<Longrightarrow> rolls_back x [] y"
  by (simp add: rolls_back_def)

lemma rolls_back_one: "un y e = Some z \<Longrightarrow> le x z \<Longrightarrow> rolls_back x [e] y"
  by (simp add: rolls_back_def)

lemma rolls_back_append:
  assumes "rolls_back x es y" and "rolls_back y fs z"
  shows "rolls_back x (es @ fs) z"
proof -
  from assms(2) obtain y' where y': "undoAll un z (rev fs) = Some y'" "le y y'" by (auto simp: rolls_back_def)
  from assms(1) obtain x' where x': "undoAll un y (rev es) = Some x'" "le x x'" by (auto simp: rolls_back_def)
  from undoAll_mono [OF y'(2) x'(1)] obtain x'' where "undoAll un y' (rev es) = Some x''" "le x' x''" by blast
  with y'(1) le_trans [OF x'(2)] show ?thesis by (auto simp: rolls_back_def undoAll_append)
qed

lemma rolls_back_le: "le x y \<Longrightarrow> rolls_back y es z \<Longrightarrow> rolls_back x es z"
  by (auto simp: rolls_back_def intro: le_trans)

end

end
