(* ===== verification/Evm_Ops.thy ===== *)
theory Evm_Ops
  imports Evm_Undo Undo_Log
begin

text \<open>
  Every operation of the state database journals what it changes. \<open>logged E s es s'\<close> says that the
  step from \<open>s\<close> to \<open>s'\<close> only appended the entries \<open>es\<close> to the journal, that undoing them brings back what
  was observable in \<open>s\<close>, and that the dirty bookkeeping of the journal is undone with them;
  \<open>journals\<close> adds that the snapshots are left alone. Both relations are transitive, so they extend
  to runs.
\<close>

interpretation evm_log: undo_log abs_le "aundo E st" for E st
  by unfold_locales (auto intro: abs_le_trans aundo_mono)

subsection \<open>Dirty bookkeeping\<close>

definition jpos :: "journal \<Rightarrow> bool" where
  "jpos j \<longleftrightarrow> (\<forall>d \<in> set (dirties j). 1 \<le> snd d)"

lemma addDirty_effect:
  assumes add: "addDirty j a = Inr j'" and pos: "jpos j"
  shows "jpos j' \<and> entries j' = entries j \<and>
     bindE (substractDirty j' a) (\<lambda>j. bindE (getDirty j a) (\<lambda>n. if n = 0 then deleteDirty j a else Inr j)) = Inr j"
proof (cases "addressToJournalIndex j a")
  case None
  with add have j': "j' = j\<lparr>dirties := dirties j @ [(a, 1)],
      addressToJournalIndex := (addressToJournalIndex j)(a \<mapsto> length (dirties j))\<rparr>"
    by (auto simp: addDirty_def)
  have "(addressToJournalIndex j)(a := None) = addressToJournalIndex j" using None by (simp add: fun_upd_idem)
  with pos show ?thesis
    by (auto simp: j' jpos_def substractDirty_def getDirty_def deleteDirty_def)
next
  case (Some i)
  with add have i: "i < length (dirties j)"
    and j': "j' = j\<lparr>dirties := (dirties j)[i := (fst (dirties j ! i), snd (dirties j ! i) + 1)]\<rparr>"
    by (auto simp: addDirty_def res_simps)
  have p: "1 \<le> snd (dirties j ! i)" using pos i by (simp add: jpos_def)
  then have "0 \<le> snd (dirties j ! i)" by simp
  with pos have "jpos j'" unfolding j' jpos_def by (auto dest!: subsetD [OF set_update_subset_insert])
  then show ?thesis using p i Some by (simp add: j' substractDirty_def getDirty_def)
qed

lemma entries_substractDirty [simp]:
  "substractDirty (j\<lparr>entries := es\<rparr>) a = map_sum id (entries_update (\<lambda>_. es)) (substractDirty j a)"
  "getDirty (j\<lparr>entries := es\<rparr>) a = getDirty j a"
  "deleteDirty (j\<lparr>entries := es\<rparr>) a = map_sum id (entries_update (\<lambda>_. es)) (deleteDirty j a)"
  by (auto simp: substractDirty_def getDirty_def deleteDirty_def nthE_def split: option.splits)

lemma dropDirty_entries:
  "dropDirty (j\<lparr>entries := es\<rparr>) e = map_sum id (entries_update (\<lambda>_. es)) (dropDirty j e)"
proof (cases "dirtied e")
  case None
  then show ?thesis by (simp add: dropDirty_def)
next
  case (Some a)
  have keep: "getDirty (entries_update (\<lambda>_. es) k) a = getDirty k a"
    "deleteDirty (entries_update (\<lambda>_. es) k) a = map_sum id (entries_update (\<lambda>_. es)) (deleteDirty k a)" for k
    by simp_all
  show ?thesis
    using Some by (cases "substractDirty j a"; cases "getDirty (projr (substractDirty j a)) a")
      (auto simp: dropDirty_def keep)
qed

lemma jappend_effect:
  assumes "jappend j e = Inr j'" and pos: "jpos j"
  shows "jpos j' \<and> entries j' = entries j @ [e] \<and> dropDirty j' e = Inr (j\<lparr>entries := entries j'\<rparr>)"
proof (cases "dirtied e")
  case None
  with assms show ?thesis by (auto simp: jappend_def dropDirty_def jpos_def)
next
  case (Some a)
  let ?j = "j\<lparr>entries := entries j @ [e]\<rparr>"
  have "addDirty ?j a = Inr j'" using assms(1) Some by (simp add: jappend_def)
  moreover have "jpos ?j" using pos by (simp add: jpos_def)
  ultimately show ?thesis
    using addDirty_effect [of ?j a j'] Some by (simp add: dropDirty_def)
qed

lemma jappends_effect:
  assumes "foldE jappend j es = Inr j'" and "jpos j"
  shows "jpos j' \<and> entries j' = entries j @ es \<and> foldE dropDirty j' (rev es) = Inr (j\<lparr>entries := entries j'\<rparr>)"
  using assms
proof (induction es arbitrary: j)
  case Nil
  then show ?case by simp
next
  case (Cons e es)
  then obtain k where k: "jappend j e = Inr k" "foldE jappend k es = Inr j'" by (auto simp: res_simps)
  note e = jappend_effect [OF k(1) Cons.prems(2)]
  note IH = Cons.IH [OF k(2) conjunct1 [OF e]]
  have "dropDirty (k\<lparr>entries := entries j'\<rparr>) e = Inr (j\<lparr>entries := entries j'\<rparr>)"
    using e by (simp add: dropDirty_entries)
  with e IH show ?case by (simp add: foldE_append)
qed

subsection \<open>Steps that journal what they change\<close>

definition same_admin :: "commitStateDB \<Rightarrow> commitStateDB \<Rightarrow> bool" where
  "same_admin s s' \<longleftrightarrow> stores s' = stores s \<and> validRevisions s' = validRevisions s \<and>
     nextRevisionID s' = nextRevisionID s \<and> stateObjectsDirty s' \<subseteq> stateObjectsDirty s"

definition logged :: "evm_env \<Rightarrow> commitStateDB \<Rightarrow> journalEntry list \<Rightarrow> commitStateDB \<Rightarrow> bool" where
  "logged E s es s' \<longleftrightarrow>
     csdb_wf E s' \<and> jpos (jrnl s) \<and> stores s' = stores s \<and>
     foldE jappend (jrnl s) es = Inr (jrnl s') \<and> list_all (entry_ok E (stores s)) es \<and>
     evm_log.rolls_back E (stores s) (abs E s) es (abs E s')"

definition journals :: "evm_env \<Rightarrow> commitStateDB \<Rightarrow> commitStateDB \<Rightarrow> bool" where
  "journals E s s' \<longleftrightarrow> same_admin s s' \<and> (\<exists>es. logged E s es s')"

text \<open>A state in which operations start.\<close>

definition evm_ready :: "evm_env \<Rightarrow> commitStateDB \<Rightarrow> bool" where
  "evm_ready E s \<longleftrightarrow> csdb_wf E s \<and> jpos (jrnl s)"

lemma logged_journal:
  assumes "logged E s es s'"
  shows "jpos (jrnl s')" and "entries (jrnl s') = entries (jrnl s) @ es"
    and "foldE dropDirty (jrnl s') (rev es) = Inr ((jrnl s)\<lparr>entries := entries (jrnl s')\<rparr>)"
  using assms jappends_effect [of "jrnl s" es "jrnl s'"] by (auto simp: logged_def)

lemma logged_ready: "logged E s es s' \<Longrightarrow> evm_ready E s'"
  using logged_journal(1) by (auto simp: logged_def evm_ready_def)

lemma journals_ready: "journals E s s' \<Longrightarrow> evm_ready E s'"
  by (auto simp: journals_def intro: logged_ready)

lemma logged_trans:
  assumes "logged E s es t" and "logged E t fs u"
  shows "logged E s (es @ fs) u"
proof -
  note 1 = assms(1) [unfolded logged_def] and 2 = assms(2) [unfolded logged_def]
  have st: "stores t = stores s" using 1 by simp
  have "evm_log.rolls_back E (stores s) (abs E s) (es @ fs) (abs E u)"
    using 1 2 st by (auto intro: evm_log.rolls_back_append)
  then show ?thesis using 1 2 st by (auto simp: logged_def foldE_append)
qed

lemma same_admin_trans: "same_admin s t \<Longrightarrow> same_admin t u \<Longrightarrow> same_admin s u"
  by (auto simp: same_admin_def)

lemma journals_trans: "journals E s t \<Longrightarrow> journals E t u \<Longrightarrow> journals E s u"
  by (auto simp: journals_def intro: logged_trans same_admin_trans)

text \<open>A step that changes nothing observable and journals nothing.\<close>

lemma journals_silent:
  assumes "evm_ready E s" and "csdb_wf E s'" and "same_admin s s'" and "jrnl s' = jrnl s"
    and "abs_le (abs E s) (abs E s')"
  shows "journals E s s'"
  unfolding journals_def logged_def using assms
  by (intro conjI exI [of _ "[]"]) (auto simp: evm_ready_def same_admin_def intro: evm_log.rolls_back_nil)

text \<open>A step that appends entries whose undoing restores the observation.\<close>

lemma journals_step:
  assumes "evm_ready E s" and "csdb_wf E s'" and "same_admin s s'"
    and "foldE jappend (jrnl s) es = Inr (jrnl s')" and "list_all (entry_ok E (stores s)) es"
    and "undoAll (aundo E (stores s)) (abs E s') (rev es) = Some A" and "abs_le (abs E s) A"
  shows "journals E s s'"
  using assms
  by (auto simp: journals_def logged_def same_admin_def evm_log.rolls_back_def evm_ready_def)

subsection \<open>Loading, creating and replacing objects\<close>

lemma csdb_wf_jrnl: "csdb_wf E s \<Longrightarrow> evm_ready E (s\<lparr>jrnl := j\<rparr>) \<longleftrightarrow> jpos j"
  by (simp add: evm_ready_def)

lemma journals_loads:
  assumes E: "evm_env_ok E" and r: "evm_ready E s" and l: "loads E s a s'"
  shows "journals E s s'"
proof (rule journals_silent [OF r])
  have c: "same_but_cache s s'" using l by (simp add: loads_def)
  show "csdb_wf E s'" using l by (simp add: loads_def)
  show "same_admin s s'" "jrnl s' = jrnl s" using same_but_cacheD [OF c] by (simp_all add: same_admin_def)
  have wf: "csdb_wf E s" using r by (simp add: evm_ready_def)
  have "cache_le (cached s) (cached s')"
    unfolding loads_cached [OF E wf l] by (simp add: cache_le_def)
  with same_but_cacheD [OF c] loads_view [OF l] show "abs_le (abs E s) (abs E s')"
    by (intro abs_leI) simp_all
qed

definition live :: "commitStateDB \<Rightarrow> address \<Rightarrow> stateObject \<Rightarrow> bool" where
  "live s a so \<longleftrightarrow> map_of (stateObjects s) a = Some so \<and> \<not> deleted so"

lemma live_object:
  assumes "csdb_wf E s" and "live s a so"
  shows "object_wf E (stores s) so" and "so_address so = a" and "view E s a = Some (soView E (stores s) so)"
    and "cached s a = Some (loadedKeys so)" and "fetch E s a = Some so"
  using csdb_wfD(2) [OF assms(1), of a so] assms(2)
  by (simp_all add: live_def live_wf_def view_def fetch_def cached_def)

lemma getStateObject_step:
  assumes E: "evm_env_ok E" and r: "evm_ready E s" and get: "getStateObject E s a = Inr (x, t)"
  shows "journals E s t" and "x = fetch E s a" and "x = Some so \<Longrightarrow> live t a so"
    and "loads E s a t"
proof -
  have wf: "csdb_wf E s" using r by (simp add: evm_ready_def)
  note g = getStateObject_Inr [OF E wf get]
  show "journals E s t" using journals_loads [OF E r g(2)] .
  show x: "x = fetch E s a" using g(1) .
  show "loads E s a t" using g(2) .
  assume "x = Some so"
  with x have f: "fetch E s a = Some so" by simp
  from getStateObject_Some [OF E wf f] get fetch_wf(3) [OF E wf f] show "live t a so"
    by (auto simp: live_def)
qed

text \<open>Changing a live object under journal entries that undo the change.\<close>

definition restores :: "evm_env \<Rightarrow> evm_stores \<Rightarrow> address \<Rightarrow> journalEntry list \<Rightarrow> stateObject \<Rightarrow> stateObject \<Rightarrow> bool" where
  "restores E st a es so so' \<longleftrightarrow>
     (\<forall>A. o_view A a = Some (soView E st so') \<longrightarrow> o_cache A a = Some (loadedKeys so') \<longrightarrow>
        undoAll (aundo E st) A (rev es) = Some (A\<lparr>o_view := (o_view A)(a \<mapsto> soView E st so)\<rparr>))"

lemma object_step:
  assumes r: "evm_ready E t" and lv: "live t a so"
    and so': "object_wf E (stores t) so'" "so_address so' = a" "\<not> deleted so'" "loadedKeys so \<subseteq> loadedKeys so'"
    and j: "foldE jappend (jrnl t) es = Inr j" and ok: "list_all (entry_ok E (stores t)) es"
    and un: "restores E (stores t) a es so so'"
    and set: "setStateObject (t\<lparr>jrnl := j\<rparr>) so' = Inr s'"
  shows "journals E t s'" and "live s' a so'"
proof -
  have wf: "csdb_wf E t" using r by (simp add: evm_ready_def)
  note obj = live_object [OF wf lv]
  let ?t = "t\<lparr>jrnl := j\<rparr>"
  from setStateObject_spec [of E ?t so'] wf so' set have
    s': "same_but_cache ?t s'" "csdb_wf E s'"
      "map_of (stateObjects s') = (map_of (stateObjects t))(a \<mapsto> so')"
    by (auto simp: live_wf_def)
  then show "live s' a so'" using so' by (simp add: live_def)
  note c = same_but_cacheD [OF s'(1), simplified]
  have v: "view E s' = (view E t)(a \<mapsto> soView E (stores t) so')"
    using view_stored [of ?t s' a so' E] s' so' by simp
  have k: "cached s' = (cached t)(a \<mapsto> loadedKeys so')"
    using s'(3) so'(3) by (auto simp: cached_def fun_eq_iff)
  have "undoAll (aundo E (stores t)) (abs E s') (rev es) =
      Some ((abs E s')\<lparr>o_view := (view E s')(a \<mapsto> soView E (stores t) so)\<rparr>)" (is "_ = Some ?A")
    using un v k by (simp add: restores_def)
  moreover have "abs_le (abs E t) ?A"
    using v k obj so'(4) c by (intro abs_leI) (auto simp: fun_upd_idem cache_le_def)
  ultimately show "journals E t s'"
    using journals_step [OF r s'(2) _ _ ok] j c by (simp add: same_admin_def)
qed

text \<open>A new object, in place of none or of a previous one.\<close>

lemma newObject_wf:
  assumes E: "evm_env_ok E" and "newStateObject E (NewAccount E n (AddressBytes E a)) = Inr so"
  shows "object_wf E st (setNonce so 0)" and "so_address (setNonce so 0) = a" and "\<not> deleted (setNonce so 0)"
    and "\<forall>d. AmountOf d (Coins (so_account (setNonce so 0))) = 0"
proof -
  let ?acc = "(ProtoAccount E)\<lparr>Address := AddressBytes E a, AccountNumber := n\<rparr>"
  have so: "so = objectOf E ?acc" using assms(2) evm_env_okD(5) [OF E] by (simp add: newStateObject_def)
  have "account_wf E a ?acc"
    by (auto simp: account_wf_def ProtoAccount_def Keccak256_def AmountOf_def)
  note w = objectOf_wf [OF E this]
  show "object_wf E st (setNonce so 0)" "so_address (setNonce so 0) = a" "\<not> deleted (setNonce so 0)"
    using w setNonce_object [of E st "objectOf E ?acc" 0] by (simp_all add: so)
  show "\<forall>d. AmountOf d (Coins (so_account (setNonce so 0))) = 0"
    by (simp add: so setNonce_def objectOf_def Let_def ProtoAccount_def AmountOf_def)
qed

lemma create_step:
  assumes r: "evm_ready E t" and f: "fetch E t a = None" "storedObject E (stores t) a = None"
    and so': "object_wf E (stores t) so'" "so_address so' = a" "\<not> deleted so'"
    and j: "jappend (jrnl t) (createObjectChange a) = Inr j"
    and set: "setStateObject (t\<lparr>nextAccountNumber := n, jrnl := j\<rparr>) so' = Inr s'"
  shows "journals E t s'" and "live s' a so'"
proof -
  have wf: "csdb_wf E t" using r by (simp add: evm_ready_def)
  let ?t = "t\<lparr>nextAccountNumber := n, jrnl := j\<rparr>"
  from setStateObject_spec [of E ?t so'] wf so' set have
    s': "same_but_cache ?t s'" "csdb_wf E s'"
      "map_of (stateObjects s') = (map_of (stateObjects t))(a \<mapsto> so')"
    by (auto simp: live_wf_def)
  then show "live s' a so'" using so' by (simp add: live_def)
  note c = same_but_cacheD [OF s'(1), simplified]
  have v: "view E s' = (view E t)(a \<mapsto> soView E (stores t) so')"
    using view_stored [of ?t s' a so' E] s' so' by simp
  have k: "cached s' = (cached t)(a \<mapsto> loadedKeys so')"
    using s'(3) so'(3) by (auto simp: cached_def fun_eq_iff)
  have none: "view E t a = None" "cached t a = None"
    using f(1) by (auto simp: view_def cached_def fetch_def split: option.splits)
  let ?A = "(abs E s')\<lparr>o_view := (view E s')(a := None), o_cache := (cached s')(a := None)\<rparr>"
  have "aundo E (stores t) (abs E s') (createObjectChange a) = Some ?A" using f(2) by simp
  moreover have "abs_le (abs E t) ?A"
    using v k none c by (intro abs_leI) (simp_all add: fun_upd_idem)
  ultimately show "journals E t s'"
    using journals_step [OF r s'(2), of "[createObjectChange a]" ?A] j c by (simp add: same_admin_def)
qed

lemma reset_step:
  assumes r: "evm_ready E t" and lv: "live t a p"
    and so': "object_wf E (stores t) so'" "so_address so' = a" "\<not> deleted so'"
    and j: "jappend (jrnl t) (resetObjectChange p) = Inr j"
    and s': "csdb_wf E s'" "same_but_cache (t\<lparr>nextAccountNumber := n, jrnl := j\<rparr>) s'"
      "map_of (stateObjects s') = (map_of (stateObjects t))(a \<mapsto> so')"
  shows "journals E t s'"
proof -
  have wf: "csdb_wf E t" using r by (simp add: evm_ready_def)
  note obj = live_object [OF wf lv]
  let ?t = "t\<lparr>nextAccountNumber := n, jrnl := j\<rparr>"
  note c = same_but_cacheD [OF s'(2), simplified]
  have v: "view E s' = (view E t)(a \<mapsto> soView E (stores t) so')"
    using view_stored [of ?t s' a so' E] s' so' by simp
  have k: "cached s' = (cached t)(a \<mapsto> loadedKeys so')"
    using s'(3) so'(3) by (auto simp: cached_def fun_eq_iff)
  let ?A = "(abs E s')\<lparr>o_view := (view E s')(a \<mapsto> soView E (stores t) p), o_cache := (cached s')(a \<mapsto> loadedKeys p)\<rparr>"
  have "aundo E (stores t) (abs E s') (resetObjectChange p) = Some ?A" using obj(2) by simp
  moreover have "abs_le (abs E t) ?A"
    using v k obj(3,4) c by (intro abs_leI) (simp_all add: fun_upd_idem)
  moreover have "entry_ok E (stores t) (resetObjectChange p)" using obj(1) lv by (simp add: live_def)
  ultimately show ?thesis
    using journals_step [OF r s'(1), of "[resetObjectChange p]" ?A] j c by (simp add: same_admin_def)
qed

lemma fetch_None_stored:
  assumes "csdb_wf E s" and "fetch E s a = None"
  shows "storedObject E (stores s) a = None"
  using csdb_wfD(2) [OF assms(1), of a] assms(2)
  by (auto simp: fetch_def live_wf_def storedObject_def split: option.splits if_splits)

lemma createObject_step:
  assumes E: "evm_env_ok E" and r: "evm_ready E s" and cr: "createObject E s a = Inr (new, prev, u)"
  shows "\<exists>t j n. journals E s t \<and> prev = fetch E t a \<and> (\<forall>p. prev = Some p \<longrightarrow> live t a p) \<and>
     jappend (jrnl t) (case prev of None \<Rightarrow> createObjectChange a | Some p \<Rightarrow> resetObjectChange p) = Inr j \<and>
     setStateObject (t\<lparr>nextAccountNumber := n, jrnl := j\<rparr>) new = Inr u \<and>
     object_wf E (stores t) new \<and> so_address new = a \<and> \<not> deleted new \<and>
     (\<forall>d. AmountOf d (Coins (so_account new)) = 0)"
proof -
  from cr obtain t where get: "getStateObject E s a = Inr (prev, t)"
    by (auto simp: createObject_def res_simps Let_def split: prod.splits)
  note g = getStateObject_step [OF E r get]
  from cr get obtain j so where so: "newStateObject E (NewAccount E (nextAccountNumber t) (AddressBytes E a)) = Inr so"
    "new = setNonce so 0"
    and j: "jappend (jrnl t) (case prev of None \<Rightarrow> createObjectChange a | Some p \<Rightarrow> resetObjectChange p) = Inr j"
    and set: "setStateObject (t\<lparr>nextAccountNumber := nextAccountNumber t + 1, jrnl := j\<rparr>) new = Inr u"
    by (auto simp: createObject_def res_simps Let_def)
  note w = newObject_wf [OF E so(1)]
  have "prev = fetch E t a" using g(2,4) by (simp add: loads_def)
  with g(1,3) j set w show ?thesis unfolding so(2) by blast
qed

lemma createObject_None_step:
  assumes E: "evm_env_ok E" and r: "evm_ready E s" and cr: "createObject E s a = Inr (new, None, u)"
  shows "journals E s u" and "live u a new"
proof -
  from createObject_step [OF E r cr] obtain t j n where
    t: "journals E s t" "fetch E t a = None" "jappend (jrnl t) (createObjectChange a) = Inr j"
      "setStateObject (t\<lparr>nextAccountNumber := n, jrnl := j\<rparr>) new = Inr u"
    and new: "object_wf E (stores t) new" "so_address new = a" "\<not> deleted new" by auto
  have rt: "evm_ready E t" using journals_ready [OF t(1)] .
  then have "storedObject E (stores t) a = None"
    using fetch_None_stored t(2) by (simp add: evm_ready_def)
  note c = create_step [OF rt t(2) this new t(3,4)]
  show "journals E s u" using journals_trans [OF t(1) c(1)] .
  show "live u a new" using c(2) .
qed

lemma GetOrNewStateObject_step:
  assumes E: "evm_env_ok E" and r: "evm_ready E s" and get: "GetOrNewStateObject E s a = Inr (so, u)"
  shows "journals E s u" and "live u a so"
proof -
  from get obtain x t where x: "getStateObject E s a = Inr (x, t)"
    by (auto simp: GetOrNewStateObject_def res_simps)
  note g = getStateObject_step [OF E r x]
  have "journals E s u \<and> live u a so"
  proof (cases x)
    case (Some y)
    with g(3) have "live t a y" by simp
    moreover from this have "\<not> deleted y" by (simp add: live_def)
    ultimately show ?thesis using get x Some g(1) by (simp add: GetOrNewStateObject_def)
  next
    case None
    with get x obtain prev where cr: "createObject E t a = Inr (so, prev, u)"
      by (auto simp: GetOrNewStateObject_def res_simps)
    have rt: "evm_ready E t" using journals_ready [OF g(1)] .
    have "prev = None"
    proof -
      have "fetch E t a = None" using g(2,4) None by (simp add: loads_def)
      moreover from cr obtain t' where "getStateObject E t a = Inr (prev, t')"
        by (auto simp: createObject_def res_simps Let_def)
      ultimately show ?thesis using getStateObject_step(2) [OF E rt] by simp
    qed
    with cr have "createObject E t a = Inr (so, None, u)" by simp
    note c = createObject_None_step [OF E rt this]
    show ?thesis using journals_trans [OF g(1) c(1)] c(2) by blast
  qed
  then show "journals E s u" and "live u a so" by simp_all
qed

subsection \<open>Setters\<close>

lemma restores_amount:
  assumes "soView E st so' = (soView E st so)\<lparr>v_amount := (v_amount (soView E st so))(bondDenom E := amt)\<rparr>"
  shows "restores E st a [balanceChange a (v_amount (soView E st so) (bondDenom E))] so so'"
  using assms by (simp add: restores_def change_def keysOf_def fun_upd_idem)

lemma soSetBalance_step:
  assumes E: "evm_env_ok E" and r: "evm_ready E t" and lv: "live t a so"
    and bal: "soSetBalance E (jrnl t) so amt = Inr p" and put: "putBack t p = Inr s'"
  shows "journals E t s'"
proof -
  have wf: "csdb_wf E t" using r by (simp add: evm_ready_def)
  note obj = live_object [OF wf lv]
  from bal obtain j so' where p: "p = (j, so')"
    and j: "jappend (jrnl t) (balanceChange a (AmountOf (bondDenom E) (Coins (so_account so)))) = Inr j"
    and so': "setBalance E so (bondDenom E) amt = Inr so'"
    using obj(2) by (auto simp: soSetBalance_def res_simps)
  from setBalance_object [OF E obj(1) setBalance_nonneg [OF E obj(1) so']] so' have
    w: "object_wf E (stores t) so'" "so_address so' = a" "\<not> deleted so'" "loadedKeys so' = loadedKeys so"
    and v: "soView E (stores t) so' =
      (soView E (stores t) so)\<lparr>v_amount := (v_amount (soView E (stores t) so))(bondDenom E := amt)\<rparr>"
    using obj(2) lv by (auto simp: live_def)
  have amt: "v_amount (soView E (stores t) so) (bondDenom E) = AmountOf (bondDenom E) (Coins (so_account so))"
    by (simp add: soView_def)
  have "0 \<le> AmountOf (bondDenom E) (Coins (so_account so))"
    using obj(1) by (simp add: object_wf_def account_wf_def)
  then show ?thesis
    using object_step(1) [OF r lv w(1-3) _ _ _ restores_amount [OF v, of a], of j s'] w(4) j put
    by (simp add: amt putBack_def p)
qed

lemma touch_step:
  assumes r: "evm_ready E t" and lv: "live t a so" and a: "a \<noteq> ripemd"
    and j: "touch (jrnl t) so = Inr j" and put: "putBack t (j, so) = Inr s'"
  shows "journals E t s'"
proof -
  have wf: "csdb_wf E t" using r by (simp add: evm_ready_def)
  note obj = live_object [OF wf lv]
  have "restores E (stores t) a [touchChange a] so so" by (simp add: restores_def fun_upd_idem)
  from object_step(1) [OF r lv obj(1,2) _ _ _ _ this] lv j put obj(2) a show ?thesis
    by (auto simp: live_def touch_def putBack_def res_simps)
qed

text \<open>Writing a live object back unchanged.\<close>

lemma putBack_same_step:
  assumes r: "evm_ready E t" and lv: "live t a so" and put: "putBack t (jrnl t, so) = Inr s'"
  shows "journals E t s'"
proof -
  have wf: "csdb_wf E t" using r by (simp add: evm_ready_def)
  note obj = live_object [OF wf lv]
  have "restores E (stores t) a [] so so" by (simp add: restores_def fun_upd_idem)
  from object_step(1) [OF r lv obj(1,2) _ _ _ _ this] lv put show ?thesis
    by (auto simp: live_def putBack_def)
qed

lemma soSetNonce_step:
  assumes r: "evm_ready E t" and lv: "live t a so"
    and n: "soSetNonce (jrnl t) so nonce = Inr p" and put: "putBack t p = Inr s'"
  shows "journals E t s'"
proof -
  have wf: "csdb_wf E t" using r by (simp add: evm_ready_def)
  note obj = live_object [OF wf lv]
  note w = setNonce_object [OF obj(1), of nonce]
  have "restores E (stores t) a [nonceChange a (Sequence (so_account so))] so (setNonce so nonce)"
    using w(2) by (simp add: restores_def change_def keysOf_def fun_upd_idem w(5)) (simp add: soView_def)
  from object_step(1) [OF r lv w(1) _ _ _ _ _ this] w(3-5) obj(2) lv n put show ?thesis
    by (auto simp: live_def soSetNonce_def putBack_def res_simps)
qed

lemma soGetCommittedState_object:
  assumes wf: "object_wf E st so" and get: "soGetCommittedState E st so key = Inr (v, so')"
  shows "object_wf E st so'" and "soView E st so' = soView E st so" and "so_address so' = so_address so"
    and "deleted so' = deleted so" and "loadedKeys so \<subseteq> loadedKeys so'"
    and "GetStorageByAddressKey E so (HashBytes E key) \<in> loadedKeys so'"
    and "v = stateAt st (so_address so) (GetStorageByAddressKey E so (HashBytes E key))"
    and "keyToDirtyStorageIndex so' = keyToDirtyStorageIndex so" and "dirtyStorage so' = dirtyStorage so"
proof -
  let ?k = "GetStorageByAddressKey E so (HashBytes E key)"
  have "object_wf E st so' \<and> soView E st so' = soView E st so \<and> so_address so' = so_address so \<and>
      deleted so' = deleted so \<and> loadedKeys so \<subseteq> loadedKeys so' \<and> ?k \<in> loadedKeys so' \<and>
      v = stateAt st (so_address so) ?k \<and> keyToDirtyStorageIndex so' = keyToDirtyStorageIndex so \<and>
      dirtyStorage so' = dirtyStorage so"
  proof (cases "keyToOriginStorageIndex so ?k")
    case (Some i)
    then have "so' = so" "v = Value (originStorage so ! i)"
      using get by (auto simp: soGetCommittedState_def Let_def res_simps)
    with Some wf show ?thesis by (auto simp: object_wf_def)
  next
    case None
    let ?st = "NewState ?k (stateAt st (so_address so) ?k)"
    have so': "so' = so\<lparr>originStorage := originStorage so @ [?st],
        keyToOriginStorageIndex := (keyToOriginStorageIndex so)(?k \<mapsto> length (originStorage so))\<rparr>"
      and v: "v = stateAt st (so_address so) ?k"
      using get None by (auto simp: soGetCommittedState_def Let_def stateAt_def NewState_def)
    have "soStorage st so' = soStorage st so"
      by (simp add: so' soStorage_def fun_eq_iff split: option.splits)
    then have "soView E st so' = soView E st so" by (simp add: soView_def so')
    moreover have "object_wf E st so'"
      using wf by (auto simp: so' object_wf_def nth_append NewState_def intro: less_SucI)
    ultimately show ?thesis using v by (auto simp: so')
  qed
  then show "object_wf E st so'" and "soView E st so' = soView E st so" and "so_address so' = so_address so"
    and "deleted so' = deleted so" and "loadedKeys so \<subseteq> loadedKeys so'" and "?k \<in> loadedKeys so'"
    and "v = stateAt st (so_address so) ?k"
    and "keyToDirtyStorageIndex so' = keyToDirtyStorageIndex so" and "dirtyStorage so' = dirtyStorage so"
    by blast+
qed

lemma soGetState_object:
  assumes wf: "object_wf E st so" and get: "soGetState E st so key = Inr (v, so')"
  shows "object_wf E st so'" and "soView E st so' = soView E st so" and "so_address so' = so_address so"
    and "deleted so' = deleted so" and "loadedKeys so \<subseteq> loadedKeys so'"
    and "GetStorageByAddressKey E so (HashBytes E key) \<in> loadedKeys so'"
    and "v = soStorage st so (GetStorageByAddressKey E so (HashBytes E key))"
proof -
  let ?k = "GetStorageByAddressKey E so (HashBytes E key)"
  have "object_wf E st so' \<and> soView E st so' = soView E st so \<and> so_address so' = so_address so \<and>
      deleted so' = deleted so \<and> loadedKeys so \<subseteq> loadedKeys so' \<and> ?k \<in> loadedKeys so' \<and>
      v = soStorage st so ?k"
  proof (cases "keyToDirtyStorageIndex so ?k")
    case (Some i)
    then have "so' = so" "v = Value (dirtyStorage so ! i)"
      using get by (auto simp: soGetState_def Let_def res_simps)
    with Some wf show ?thesis by (auto simp: object_wf_def soStorage_def)
  next
    case None
    then have "soGetCommittedState E st so key = Inr (v, so')" using get by (simp add: soGetState_def Let_def)
    from soGetCommittedState_object [OF wf this] None show ?thesis by (simp add: soStorage_def)
  qed
  then show "object_wf E st so'" and "soView E st so' = soView E st so" and "so_address so' = so_address so"
    and "deleted so' = deleted so" and "loadedKeys so \<subseteq> loadedKeys so'" and "?k \<in> loadedKeys so'"
    and "v = soStorage st so ?k"
    by blast+
qed

lemma soSetState_step:
  assumes r: "evm_ready E t" and lv: "live t a so"
    and set: "soSetState E (stores t) (jrnl t) so key val = Inr p" and put: "putBack t p = Inr s'"
  shows "journals E t s'"
proof -
  have wf: "csdb_wf E t" using r by (simp add: evm_ready_def)
  note obj = live_object [OF wf lv]
  let ?k = "GetStorageByAddressKey E so (HashBytes E key)"
  from set obtain prev so1 where get: "soGetState E (stores t) so key = Inr (prev, so1)"
    by (auto simp: soSetState_def res_simps)
  note g = soGetState_object [OF obj(1) get]
  have k: "GetStorageByAddressKey E so1 (HashBytes E key) = ?k" using g(3) by (simp add: GetStorageByAddressKey_def)
  show ?thesis
  proof (cases "prev = val")
    case True
    with set get have p: "p = (jrnl t, so1)" by (simp add: soSetState_def)
    have "restores E (stores t) a [] so so1" using g(2) by (simp add: restores_def fun_upd_idem)
    from object_step(1) [OF r lv g(1) _ _ _ _ _ this] g obj(2) lv put show ?thesis
      by (auto simp: live_def putBack_def p)
  next
    case False
    with set get k g(3) obj(2) obtain j so2 where p: "p = (j, so2)"
      and j: "jappend (jrnl t) (storageChange a ?k prev) = Inr j" and so2: "setState so1 ?k val = Inr so2"
      by (auto simp: soSetState_def res_simps Let_def)
    from setState_object [OF g(1,6), of val] so2 have
      w: "object_wf E (stores t) so2" "so_address so2 = so_address so1" "deleted so2 = deleted so1"
        "loadedKeys so2 = loadedKeys so1"
      and v: "soView E (stores t) so2 = (soView E (stores t) so)\<lparr>v_storage := (v_storage (soView E (stores t) so))(?k := val)\<rparr>"
      using g(2) by auto
    have "prev = v_storage (soView E (stores t) so) ?k" using g(7) by (simp add: soView_def)
    with v g(6) w(4) have "restores E (stores t) a [storageChange a ?k prev] so so2"
      by (simp add: restores_def change_def keysOf_def fun_upd_idem)
    from object_step(1) [OF r lv w(1) _ _ _ _ _ this] w g obj(2) lv put j show ?thesis
      by (auto simp: live_def putBack_def p)
  qed
qed

lemma soCode_object:
  assumes wf: "object_wf E st so" and c: "soCode E st so = (cd, so')"
  shows "object_wf E st so'" and "soView E st so' = soView E st so" and "so_address so' = so_address so"
    and "deleted so' = deleted so" and "loadedKeys so' = loadedKeys so"
    and "codeFor E st cd (CodeHash (so_account so)) = v_code (soView E st so)"
    and "so_account so' = so_account so"
proof -
  have hash: "soCodeHash E so = CodeHash (so_account so)" using wf by (simp add: object_wf_def soCodeHash_def)
  have so': "\<exists>e. so' = so\<lparr>so_dbErr := e\<rparr>"
  proof -
    have "\<exists>e. so = so\<lparr>so_dbErr := e\<rparr>" by (rule exI [of _ "so_dbErr so"]) simp
    then show ?thesis using c by (auto simp: soCode_def Let_def soSetError_def split: if_splits)
  qed
  then obtain e where e: "so' = so\<lparr>so_dbErr := e\<rparr>" ..
  have "soStorage st so' = soStorage st so" by (simp add: e soStorage_def fun_eq_iff split: option.splits)
  then show "soView E st so' = soView E st so" by (simp add: soView_def e)
  show "object_wf E st so'" using wf by (simp add: e object_wf_def)
  show "so_address so' = so_address so" "deleted so' = deleted so" "loadedKeys so' = loadedKeys so"
    "so_account so' = so_account so" by (simp_all add: e)
  show "codeFor E st cd (CodeHash (so_account so)) = v_code (soView E st so)"
    using c hash by (auto simp: soCode_def Let_def soView_def codeFor_def codeLen_def split: if_splits option.splits)
qed

lemma soSetCode_step:
  assumes E: "evm_env_ok E" and r: "evm_ready E t" and lv: "live t a so"
    and set: "soSetCode E (stores t) (jrnl t) so h cd = Inr p" and put: "putBack t p = Inr s'"
  shows "journals E t s'"
proof -
  have wf: "csdb_wf E t" using r by (simp add: evm_ready_def)
  note obj = live_object [OF wf lv]
  obtain prev so1 where c: "soCode E (stores t) so = (prev, so1)" by (cases "soCode E (stores t) so")
  note g = soCode_object [OF obj(1) c]
  note w = setCode_object [OF E g(1), of h cd]
  let ?h = "CodeHash (so_account so)"
  have hash: "soCodeHash E so1 = ?h" "?h \<in> range (HashBytes E)"
    using obj(1) g(7) by (auto simp: object_wf_def soCodeHash_def account_wf_def)
  from set c g(3) obj(2) hash obtain j where j: "jappend (jrnl t) (codeChange a prev ?h) = Inr j"
    and p: "p = (j, setCode E so1 h cd)" by (auto simp: soSetCode_def res_simps)
  have "restores E (stores t) a [codeChange a prev ?h] so (setCode E so1 h cd)"
    using w(2) g(2,6) by (simp add: restores_def change_def keysOf_def fun_upd_idem w(5)) (simp add: soView_def)
  from object_step(1) [OF r lv w(1) _ _ _ _ _ this] w(3-5) g obj(2) lv j put hash show ?thesis
    by (auto simp: live_def putBack_def p)
qed

subsection \<open>Operations of the state database\<close>

text \<open>A setter: get or create the object, change it under the journal, write it back.\<close>

lemma setter_step:
  assumes E: "evm_env_ok E" and r: "evm_ready E s"
    and op: "bindE (GetOrNewStateObject E s a) (\<lambda>(so, s). bindE (f s so) (putBack s)) = Inr s'"
    and f: "\<And>t so p. evm_ready E t \<Longrightarrow> live t a so \<Longrightarrow> f t so = Inr p \<Longrightarrow> putBack t p = Inr s' \<Longrightarrow> journals E t s'"
  shows "journals E s s'"
proof -
  from op obtain so t p where t: "GetOrNewStateObject E s a = Inr (so, t)" and p: "f t so = Inr p" "putBack t p = Inr s'"
    by (auto simp: res_simps)
  note g = GetOrNewStateObject_step [OF E r t]
  show ?thesis using journals_trans [OF g(1) f [OF journals_ready [OF g(1)] g(2) p]] .
qed

lemma csdbSetBalance_step:
  assumes E: "evm_env_ok E" and r: "evm_ready E s" and op: "csdbSetBalance E s a amt = Inr s'"
  shows "journals E s s'"
  by (rule setter_step [OF E r op [unfolded csdbSetBalance_def]]) (rule soSetBalance_step [OF E])

lemma AddBalance_step:
  assumes E: "evm_env_ok E" and r: "evm_ready E s" and op: "AddBalance E s a amt = Inr s'"
    and a: "a = ripemd \<longrightarrow> amt \<noteq> 0"
  shows "journals E s s'"
  using op unfolding AddBalance_def
proof (rule setter_step [OF E r])
  fix t so p
  assume rt: "evm_ready E t" and lv: "live t a so" and p: "soAddBalance E (jrnl t) so amt = Inr p"
    and put: "putBack t p = Inr s'"
  show "journals E t s'"
  proof (cases "amt = 0")
    case False
    with p soSetBalance_step [OF E rt lv _ put] show ?thesis by (simp add: soAddBalance_def)
  next
    case True
    with a p touch_step [OF rt lv] putBack_same_step [OF rt lv] put show ?thesis
      by (auto simp: soAddBalance_def res_simps split: if_splits)
  qed
qed

lemma SubBalance_step:
  assumes E: "evm_env_ok E" and r: "evm_ready E s" and op: "SubBalance E s a amt = Inr s'"
  shows "journals E s s'"
  using op unfolding SubBalance_def
proof (rule setter_step [OF E r])
  fix t so p
  assume rt: "evm_ready E t" and lv: "live t a so" and p: "soSubBalance E (jrnl t) so amt = Inr p"
    and put: "putBack t p = Inr s'"
  show "journals E t s'"
    using p put putBack_same_step [OF rt lv] soSetBalance_step [OF E rt lv _ put]
    by (auto simp: soSubBalance_def split: if_splits)
qed

lemma SetNonce_step:
  "evm_env_ok E \<Longrightarrow> evm_ready E s \<Longrightarrow> SetNonce E s a n = Inr s' \<Longrightarrow> journals E s s'"
  unfolding SetNonce_def by (erule (2) setter_step) (rule soSetNonce_step)

lemma SetState_step:
  "evm_env_ok E \<Longrightarrow> evm_ready E s \<Longrightarrow> SetState E s a k v = Inr s' \<Longrightarrow> journals E s s'"
  unfolding SetState_def by (erule (2) setter_step) (rule soSetState_step)

lemma journals_field:
  assumes "journals E s t" and "stateObjects t' = stateObjects t" and "addressToObjectIndex t' = addressToObjectIndex t"
    and "stores t' = stores t" and "jrnl t' = jrnl t" and "validRevisions t' = validRevisions t"
    and "nextRevisionID t' = nextRevisionID t" and "refund t' = refund t" and "logs t' = logs t"
    and "logSize t' = logSize t" and "preimages t' = preimages t" and "hashToPreimageIndex t' = hashToPreimageIndex t"
    and "access_list t' = access_list t" and "stateObjectsDirty t' = stateObjectsDirty t"
  shows "journals E s t'"
proof -
  have "csdb_wf E t' = csdb_wf E t" using assms(2-) by (simp add: csdb_wf_def)
  moreover have "fetch E t' = fetch E t" using assms(2-) by (intro fetch_cong) simp_all
  then have "view E t' = view E t" using assms(4) by (simp add: view_def fun_eq_iff)
  moreover have "cached t' = cached t" using assms(2) by (simp add: cached_def fun_eq_iff)
  ultimately have "abs E t' = abs E t" using assms(2-) by (intro abs_eqI) simp_all
  with \<open>csdb_wf E t' = csdb_wf E t\<close> assms show ?thesis by (simp add: journals_def logged_def same_admin_def)
qed

lemma SetCode_step:
  assumes E: "evm_env_ok E" and r: "evm_ready E s" and op: "SetCode E s a cd = Inr s'"
  shows "journals E s s'"
proof -
  from op obtain so t p u where t: "GetOrNewStateObject E s a = Inr (so, t)"
    and p: "soSetCode E (stores t) (jrnl t) so (Keccak256Hash E (case cd of None \<Rightarrow> [] | Some b \<Rightarrow> b)) cd = Inr p"
    and u: "putBack t p = Inr u" and s': "s' = u\<lparr>codeCache := (codeCache u)(a \<mapsto> cd)\<rparr>"
    by (auto simp: SetCode_def res_simps)
  note g = GetOrNewStateObject_step [OF E r t]
  from journals_trans [OF g(1) soSetCode_step [OF E journals_ready [OF g(1)] g(2) p u]]
  show ?thesis by (rule journals_field) (simp_all add: s')
qed

text \<open>One journalled entry outside the objects.\<close>

lemma entry_step:
  assumes r: "evm_ready E s" and wf: "csdb_wf E s'" and adm: "same_admin s s'"
    and j: "jappend (jrnl s) e = Inr (jrnl s')" and ok: "entry_ok E (stores s) e"
    and un: "aundo E (stores s) (abs E s') e = Some A" and eq: "A = abs E s"
  shows "journals E s s'"
  using journals_step [OF r wf adm, of "[e]" A] j ok un eq by simp

lemma AddLog_step:
  assumes r: "evm_ready E s" and op: "AddLog s log = Inr s'"
  shows "journals E s s'"
proof -
  from op obtain j l where j: "jappend (jrnl s) (addLogChange (thash s)) = Inr j"
    and s': "s' = s\<lparr>jrnl := j, logSize := logSize s + 1, logs := logs s @ [l]\<rparr>"
    by (auto simp: AddLog_def res_simps Let_def)
  show ?thesis
    by (rule entry_step [OF r, of _ "addLogChange (thash s)"])
      (use r j in \<open>auto simp: s' evm_ready_def same_admin_def intro!: abs_eqI\<close>)
qed

lemma AddPreimage_step:
  assumes r: "evm_ready E s" and op: "AddPreimage s h b = Inr s'"
  shows "journals E s s'"
proof (cases "hashToPreimageIndex s h")
  case (Some i)
  with op r show ?thesis using journals_silent [OF r, of s]
    by (simp add: AddPreimage_def evm_ready_def same_admin_def)
next
  case None
  with op obtain j where j: "jappend (jrnl s) (addPreimageChange h) = Inr j"
    and s': "s' = s\<lparr>jrnl := j, preimages := preimages s @ [(h, b)],
      hashToPreimageIndex := (hashToPreimageIndex s)(h \<mapsto> length (preimages s))\<rparr>"
    by (auto simp: AddPreimage_def res_simps)
  have wf: "csdb_wf E s" using r by (simp add: evm_ready_def)
  have wf': "csdb_wf E s'"
    using wf indexed_append [OF csdb_wfD(4) [OF wf] None] by (auto simp: s' csdb_wf_def)
  have "filter (\<lambda>p. fst p \<noteq> h) (preimages s @ [(h, b)]) = preimages s"
    using filter_absent [OF csdb_wfD(4) [OF wf] None] by simp
  then show ?thesis
    by (intro entry_step [OF r wf', of "addPreimageChange h"])
      (use j in \<open>auto simp: s' same_admin_def intro!: abs_eqI\<close>)
qed

lemma AddRefund_step:
  assumes r: "evm_ready E s" and op: "AddRefund s gas = Inr s'"
  shows "journals E s s'"
proof -
  from op obtain j where j: "jappend (jrnl s) (refundChange (refund s)) = Inr j"
    and s': "s' = s\<lparr>jrnl := j, refund := refund s + gas\<rparr>" by (auto simp: AddRefund_def res_simps)
  show ?thesis
    by (rule entry_step [OF r, of _ "refundChange (refund s)"])
      (use r j in \<open>auto simp: s' evm_ready_def same_admin_def intro!: abs_eqI\<close>)
qed

lemma SubRefund_step:
  assumes r: "evm_ready E s" and op: "SubRefund s gas = Inr s'"
  shows "journals E s s'"
proof -
  from op obtain j where j: "jappend (jrnl s) (refundChange (refund s)) = Inr j"
    and s': "s' = s\<lparr>jrnl := j, refund := refund s - gas\<rparr>" by (auto simp: SubRefund_def res_simps)
  show ?thesis
    by (rule entry_step [OF r, of _ "refundChange (refund s)"])
      (use r j in \<open>auto simp: s' evm_ready_def same_admin_def intro!: abs_eqI\<close>)
qed

lemma AddAddressToAccessList_step:
  assumes r: "evm_ready E s" and op: "AddAddressToAccessList s a = Inr s'"
  shows "journals E s s'"
proof -
  obtain added al where add: "AddAddress (access_list s) a = (added, al)" by force
  have wf: "csdb_wf E s" using r by (simp add: evm_ready_def)
  have al: "al_wf al" using AddAddress_wf [OF csdb_wfD(5) [OF wf], of a] add by simp
  show ?thesis
  proof (cases added)
    case False
    with add have "al = access_list s" by (auto simp: AddAddress_def split: if_splits)
    with False op add have "s' = s" by (simp add: AddAddressToAccessList_def)
    with journals_silent [OF r, of s] wf show ?thesis by (simp add: same_admin_def)
  next
    case True
    with op add obtain j where j: "jappend (jrnl s) (accessListAddAccountChange a) = Inr j"
      and s': "s' = s\<lparr>jrnl := j, access_list := al\<rparr>"
      by (auto simp: AddAddressToAccessList_def res_simps)
    have wf': "csdb_wf E s'" using wf al by (auto simp: s' csdb_wf_def)
    have "DeleteAddress al a = access_list s" by (rule DeleteAddress_AddAddress) (simp add: add True)
    then show ?thesis
      by (intro entry_step [OF r wf', of "accessListAddAccountChange a"])
        (use j in \<open>auto simp: s' same_admin_def intro!: abs_eqI\<close>)
  qed
qed

lemma AddSlotToAccessList_step:
  assumes r: "evm_ready E s" and op: "AddSlotToAccessList s a slot = Inr s'"
  shows "journals E s s'"
proof -
  obtain addr sl al where add: "AddSlot (access_list s) a slot = (addr, sl, al)"
    by (cases "AddSlot (access_list s) a slot") auto
  have wf: "csdb_wf E s" using r by (simp add: evm_ready_def)
  note alwf = csdb_wfD(5) [OF wf]
  have al: "al_wf al" using AddSlot_wf [OF alwf, of a slot] add by simp
  let ?es = "(if addr then [accessListAddAccountChange a] else []) @ (if sl then [accessListAddSlotChange a slot] else [])"
  from op add obtain j where j: "foldE jappend (jrnl s) ?es = Inr j" and s': "s' = s\<lparr>jrnl := j, access_list := al\<rparr>"
    by (cases addr; cases sl) (auto simp: AddSlotToAccessList_def res_simps)
  have wf': "csdb_wf E s'" using wf al by (auto simp: s' csdb_wf_def)
  have "undoAll (aundo E (stores s)) (abs E s') (rev ?es) = Some ((abs E s')\<lparr>o_access := access_list s\<rparr>)"
  proof (cases sl)
    case False
    then have "\<not> addr" using AddSlot_addr_slot [of "access_list s" a slot sl al] add by (cases addr) auto
    moreover have "al = access_list s" using AddSlot_nochange [of "access_list s" a slot addr al] add False by simp
    ultimately show ?thesis using False by (auto simp: s' intro!: abs_eqI)
  next
    case True
    have "AddSlot (access_list s) a slot = (addr, True, al)" using add True by simp
    note del = DeleteSlot_AddSlot [OF alwf this]
    let ?al = "(access_list s)\<lparr>addresses := (addresses (access_list s))(a \<mapsto> - 1)\<rparr>"
    have none: "addr \<Longrightarrow> addresses (access_list s) a = None" using AddSlot_addrChange [OF add] by simp
    then have "addr \<Longrightarrow> al_wf ?al" using AddAddress_wf [OF alwf, of a] by (simp add: AddAddress_def)
    with True del none DeleteAddress_fresh [of "access_list s" a "- 1"] alwf show ?thesis
      by (simp add: s')
  qed
  moreover have "abs_le (abs E s) ((abs E s')\<lparr>o_access := access_list s\<rparr>)"
    by (rule abs_leI) (simp_all add: s')
  ultimately show ?thesis
    using journals_step [OF r wf', of ?es] j by (simp add: s' same_admin_def)
qed

lemma Suicide_step:
  assumes E: "evm_env_ok E" and r: "evm_ready E s" and op: "Suicide E s a = Inr (b, s')"
  shows "journals E s s'"
proof -
  from op obtain x t where x: "getStateObject E s a = Inr (x, t)" by (auto simp: Suicide_def res_simps)
  note g = getStateObject_step [OF E r x]
  show ?thesis
  proof (cases x)
    case None
    with op x g(1) show ?thesis by (simp add: Suicide_def)
  next
    case (Some so)
    note lv = g(3) [OF Some] and rt = journals_ready [OF g(1)]
    have wf: "csdb_wf E t" using rt by (simp add: evm_ready_def)
    note obj = live_object [OF wf lv]
    let ?e = "suicideChange a (suicided so) (soBalance E so)"
    let ?b = "AmountOf (bondDenom E) (Coins (so_account so))"
    from op x Some obtain j p where j: "jappend (jrnl t) ?e = Inr j"
      and p: "soSetBalance E j (markSuicided so) 0 = Inr p" and put: "putBack t p = Inr s'"
      by (auto simp: Suicide_def res_simps)
    from p obtain j' so' where p': "p = (j', so')" and j': "jappend j (balanceChange a ?b) = Inr j'"
      and so': "setBalance E (markSuicided so) (bondDenom E) 0 = Inr so'"
      using obj(2) by (auto simp: soSetBalance_def markSuicided_def res_simps)
    have ms: "object_wf E (stores t) (markSuicided so)" "so_address (markSuicided so) = a"
      "loadedKeys (markSuicided so) = loadedKeys so" "deleted (markSuicided so) = deleted so"
      using obj(1,2) by (simp_all add: markSuicided_def object_wf_def)
    have "soStorage (stores t) (markSuicided so) = soStorage (stores t) so"
      by (simp add: markSuicided_def soStorage_def fun_eq_iff split: option.splits)
    then have mv: "soView E (stores t) (markSuicided so) = (soView E (stores t) so)\<lparr>v_suicided := True\<rparr>"
      by (simp add: markSuicided_def soView_def)
    from setBalance_object [OF E ms(1), of 0] so' have
      w: "object_wf E (stores t) so'" "so_address so' = a" "deleted so' = deleted so" "loadedKeys so' = loadedKeys so"
      and v: "soView E (stores t) so' = (soView E (stores t) so)\<lparr>v_suicided := True,
        v_amount := (v_amount (soView E (stores t) so))(bondDenom E := 0)\<rparr>"
      using ms mv by auto
    have amt: "v_amount (soView E (stores t) so) (bondDenom E) = ?b" "soBalance E so = ?b"
      by (simp_all add: soView_def soBalance_def Balance_def)
    have "(v_amount (soView E (stores t) so))(bondDenom E := ?b) = v_amount (soView E (stores t) so)"
      using amt(1) by (simp add: fun_upd_idem)
    moreover have "(soView E (stores t) so)\<lparr>v_suicided := suicided so\<rparr> = soView E (stores t) so"
      by (simp add: soView_def)
    ultimately have "restores E (stores t) a [?e, balanceChange a ?b] so so'"
      unfolding restores_def v amt(2) by (simp add: change_def keysOf_def fun_upd_idem)
    from object_step(1) [OF rt lv w(1,2) _ _ _ _ this] w lv j j' put obj(1) p'
    have "journals E t s'"
      by (auto simp: live_def putBack_def object_wf_def account_wf_def soBalance_def Balance_def)
    with g(1) show ?thesis by (rule journals_trans)
  qed
qed

lemma CreateAccount_step:
  assumes E: "evm_env_ok E" and r: "evm_ready E s" and op: "CreateAccount E s a = Inr s'"
  shows "journals E s s'"
proof -
  from op obtain new prev u where cr: "createObject E s a = Inr (new, prev, u)"
    by (auto simp: CreateAccount_def res_simps)
  show ?thesis
  proof (cases prev)
    case None
    with op cr createObject_None_step(1) [OF E r] show ?thesis by (simp add: CreateAccount_def)
  next
    case (Some p)
    from createObject_step [OF E r cr] Some obtain t j n where
      t: "journals E s t" "live t a p" "jappend (jrnl t) (resetObjectChange p) = Inr j"
        "setStateObject (t\<lparr>nextAccountNumber := n, jrnl := j\<rparr>) new = Inr u"
      and new: "object_wf E (stores t) new" "so_address new = a" "\<not> deleted new" by auto
    let ?t = "t\<lparr>nextAccountNumber := n, jrnl := j\<rparr>"
    have rt: "evm_ready E t" using journals_ready [OF t(1)] .
    then have wf: "csdb_wf E ?t" by (simp add: evm_ready_def)
    from setStateObject_spec [OF wf, of new] new t(4) have
      u: "same_but_cache ?t u" "csdb_wf E u" "map_of (stateObjects u) = (map_of (stateObjects t))(a \<mapsto> new)"
      by (auto simp: live_wf_def)
    from op cr Some obtain so' where so': "setBalance E new (bondDenom E) (soBalance E p) = Inr so'"
      and put: "setStateObject u so' = Inr s'"
      by (auto simp: CreateAccount_def res_simps)
    from setBalance_object [OF E new(1) setBalance_nonneg [OF E new(1) so']] so' new have
      w: "object_wf E (stores t) so'" "so_address so' = a" "\<not> deleted so'" by auto
    from setStateObject_spec [OF u(2), of so'] w put same_but_cacheD(1) [OF u(1)] have
      f: "same_but_cache u s'" "csdb_wf E s'" "map_of (stateObjects s') = (map_of (stateObjects t))(a \<mapsto> so')"
      by (auto simp: live_wf_def u(3))
    from reset_step [OF rt t(2) w t(3) f(2) same_but_cache_trans [OF u(1) f(1)] f(3)] t(1)
    show ?thesis by (blast intro: journals_trans)
  qed
qed

end
