(* ===== verification/Evm_Revert.thy ===== *)
theory Evm_Revert
  imports Evm_Ops
begin

text \<open>
  Runs of the state database and \<open>RevertToSnapshot\<close>. \<open>evm_op\<close> lists the calls the EVM makes,
  \<open>exec\<close> performs one; a run may take further snapshots and revert to them. Reverting to a snapshot
  after any run restores what was observable when it was taken. The getters return what the
  observation says.
\<close>

subsection \<open>Binary search\<close>

lemma searchLoop_first:
  assumes "i \<le> k" and "k \<le> j" and "\<forall>x. i \<le> x \<and> x < k \<longrightarrow> \<not> f x" and "\<forall>x. k \<le> x \<and> x < j \<longrightarrow> f x"
  shows "searchLoop f i j = k"
  using assms
proof (induction f i j rule: searchLoop.induct)
  case (1 f i j)
  show ?case
  proof (cases "i < j")
    case False
    with 1(3,4) show ?thesis by (subst searchLoop.simps) simp
  next
    case True
    let ?h = "(i + j) div 2"
    have h: "i \<le> ?h" "?h < j" using True by auto
    show ?thesis
    proof (cases "f ?h")
      case True
      with 1(5) h have "k \<le> ?h" by (meson not_le)
      with 1(2) [OF \<open>i < j\<close> refl] True 1(3,5,6) h have "searchLoop f i ?h = k" by simp
      with True \<open>i < j\<close> show ?thesis by (subst searchLoop.simps) (simp add: Let_def)
    next
      case False
      have "?h < k"
      proof (rule ccontr)
        assume "\<not> ?h < k"
        with 1(6) h(2) False show False by simp
      qed
      then have "?h + 1 \<le> k" by simp
      with 1(1) [OF \<open>i < j\<close> refl] False 1(4,5,6) h have "searchLoop f (?h + 1) j = k" by simp
      with False \<open>i < j\<close> show ?thesis by (subst searchLoop.simps) (simp add: Let_def)
    qed
  qed
qed

lemma sortSearch_first:
  assumes "k \<le> n" and "\<And>i. i < k \<Longrightarrow> \<not> f i" and "\<And>i. k \<le> i \<Longrightarrow> i < n \<Longrightarrow> f i"
  shows "sortSearch n f = k"
  unfolding sortSearch_def using assms by (intro searchLoop_first) auto

subsection \<open>Getters\<close>

lemma readObject_step:
  assumes E: "evm_env_ok E" and r: "evm_ready E s" and op: "readObject E s a d f = Inr (x, s')"
  shows "journals E s s'" and "x = (case fetch E s a of None \<Rightarrow> d | Some so \<Rightarrow> f so)"
    and "observe E s' = observe E s"
proof -
  from op obtain y where y: "getStateObject E s a = Inr (y, s')"
    "x = (case y of None \<Rightarrow> d | Some so \<Rightarrow> f so)" by (auto simp: readObject_def res_simps)
  note g = getStateObject_step [OF E r y(1)]
  show "journals E s s'" by (rule g(1))
  show "x = (case fetch E s a of None \<Rightarrow> d | Some so \<Rightarrow> f so)" using g(2) y(2) by simp
  show "observe E s' = observe E s" using loads_observe [OF g(4)] .
qed

text \<open>Writing back an object whose view has not changed.\<close>

lemma refresh_step:
  assumes r: "evm_ready E t" and lv: "live t a so"
    and so': "object_wf E (stores t) so'" "so_address so' = so_address so" "deleted so' = deleted so"
      "loadedKeys so \<subseteq> loadedKeys so'" "soView E (stores t) so' = soView E (stores t) so"
    and set: "setStateObject t so' = Inr s'"
  shows "journals E t s'" and "observe E s' = observe E t"
proof -
  have wf: "csdb_wf E t" using r by (simp add: evm_ready_def)
  note obj = live_object [OF wf lv]
  have a: "so_address so' = a" "\<not> deleted so'" using so' obj(2) lv by (simp_all add: live_def)
  have "restores E (stores t) a [] so so'" using so'(5) by (simp add: restores_def fun_upd_idem)
  moreover have "setStateObject (t\<lparr>jrnl := jrnl t\<rparr>) so' = Inr s'" using set by simp
  ultimately show "journals E t s'"
    by (intro object_step(1) [OF r lv so'(1) a so'(4), of "[]" "jrnl t"]) simp_all
  from setStateObject_spec [OF wf, of so'] so'(1) a set have
    s': "same_but_cache t s'" "map_of (stateObjects s') = (map_of (stateObjects t))(a \<mapsto> so')"
    by (auto simp: live_wf_def)
  have "view E s' = view E t"
    using view_stored [OF s', of E] a obj(3) so'(5) by (simp add: fun_upd_idem)
  with same_but_cacheD [OF s'(1)] show "observe E s' = observe E t" by (simp add: observe_def)
qed

lemma GetCode_step:
  assumes E: "evm_env_ok E" and r: "evm_ready E s" and op: "GetCode E s a = Inr (c, s')"
  shows "journals E s s'" and "observe E s' = observe E s"
    and "(case c of None \<Rightarrow> [] | Some b \<Rightarrow> b) = (case view E s a of None \<Rightarrow> [] | Some v \<Rightarrow> v_code v)"
proof -
  let ?s = "snd (csdbGetParams s)"
  have p: "\<exists>p. ?s = s\<lparr>params_cache := p\<rparr>"
  proof -
    have "\<exists>p. s = s\<lparr>params_cache := p\<rparr>" by (rule exI [of _ "params_cache s"]) simp
    then show ?thesis by (auto simp: csdbGetParams_def split: option.splits)
  qed
  then obtain p where p: "?s = s\<lparr>params_cache := p\<rparr>" ..
  have "evm_ready E ?s" using r by (simp add: p evm_ready_def)
  have j0: "journals E s ?s"
    by (rule journals_silent [OF r]) (use r in \<open>auto simp: p evm_ready_def same_admin_def intro!: abs_leI\<close>)
  have o0: "observe E ?s = observe E s" "view E ?s = view E s" by (simp_all add: p observe_def)
  from op obtain x t where x: "getStateObject E ?s a = Inr (x, t)"
    and rest: "(case x of None \<Rightarrow> Inr (None, t) | Some so \<Rightarrow>
      let (c, so) = soCode E (stores t) so in bindE (setStateObject t so) (\<lambda>s. Inr (c, s))) = Inr (c, s')"
    by (auto simp: GetCode_def Let_def res_simps split: prod.splits)
  note g = getStateObject_step [OF E \<open>evm_ready E ?s\<close> x]
  have ot: "observe E t = observe E s" using loads_observe [OF g(4)] o0 by simp
  have "journals E s s' \<and> observe E s' = observe E s \<and>
    (case c of None \<Rightarrow> [] | Some b \<Rightarrow> b) = (case view E s a of None \<Rightarrow> [] | Some v \<Rightarrow> v_code v)"
  proof (cases x)
    case None
    with g(2) o0(2) have "view E s a = None" by (simp add: view_def [of E ?s, symmetric]) (simp add: view_def p)
    with None rest journals_trans [OF j0 g(1)] ot show ?thesis by simp
  next
    case (Some so)
    note lv = g(3) [OF Some] and rt = journals_ready [OF g(1)]
    have wf: "csdb_wf E t" using rt by (simp add: evm_ready_def)
    note obj = live_object [OF wf lv]
    obtain c' so' where sc: "soCode E (stores t) so = (c', so')" by force
    note w = soCode_object [OF obj(1) sc]
    from rest Some sc have set: "setStateObject t so' = Inr s'" and c: "c = c'" by (auto simp: res_simps)
    note f = refresh_step [OF rt lv w(1,3,4) _ w(2) set]
    have "view E t = view E s" using ot by (simp add: observe_def)
    then have v: "view E s a = Some (soView E (stores t) so)" using obj(3) by simp
    have hash: "soCodeHash E so = CodeHash (so_account so)" using obj(1) by (simp add: object_wf_def soCodeHash_def)
    have "(case c of None \<Rightarrow> [] | Some b \<Rightarrow> b) = v_code (soView E (stores t) so)"
      using sc hash by (auto simp: c soCode_def Let_def soView_def codeFor_def codeLen_def split: if_splits option.splits)
    with f w(5) v ot journals_trans [OF journals_trans [OF j0 g(1)]] show ?thesis by simp
  qed
  then show "journals E s s'" and "observe E s' = observe E s"
    and "(case c of None \<Rightarrow> [] | Some b \<Rightarrow> b) = (case view E s a of None \<Rightarrow> [] | Some v \<Rightarrow> v_code v)"
    by blast+
qed

lemma GetCodeSize_step:
  assumes E: "evm_env_ok E" and r: "evm_ready E s" and op: "GetCodeSize E s a = Inr (c, s')"
  shows "journals E s s'" and "observe E s' = observe E s"
proof -
  from op obtain x t where x: "getStateObject E s a = Inr (x, t)" by (auto simp: GetCodeSize_def res_simps)
  note g = getStateObject_step [OF E r x]
  have ot: "observe E t = observe E s" using loads_observe [OF g(4)] .
  have "journals E s s' \<and> observe E s' = observe E s"
  proof (cases "x = None \<or> (\<exists>so cd. x = Some so \<and> so_code so = Some cd)")
    case True
    with op x g(1) ot show ?thesis by (auto simp: GetCodeSize_def)
  next
    case False
    then obtain so where so: "x = Some so" "so_code so = None" by (cases x) auto
    note lv = g(3) [OF so(1)] and rt = journals_ready [OF g(1)]
    have wf: "csdb_wf E t" using rt by (simp add: evm_ready_def)
    note obj = live_object [OF wf lv]
    obtain c' so' where sc: "soCode E (stores t) so = (c', so')" by force
    note w = soCode_object [OF obj(1) sc]
    from op x so sc have set: "setStateObject t so' = Inr s'" by (auto simp: GetCodeSize_def res_simps)
    from refresh_step [OF rt lv w(1,3,4) _ w(2) set] w(5) ot journals_trans [OF g(1)] show ?thesis by simp
  qed
  then show "journals E s s'" and "observe E s' = observe E s" by blast+
qed

text \<open>The storage getters, for any object getter that keeps the view.\<close>

lemma storage_getter_step:
  assumes E: "evm_env_ok E" and r: "evm_ready E s"
    and op: "bindE (getStateObject E s a) (\<lambda>(so, s).
       case so of
         None \<Rightarrow> Inr (0, s)
       | Some so \<Rightarrow>
           bindE (f (stores s) so) (\<lambda>(v, so). bindE (setStateObject s so) (\<lambda>s. Inr (v, s)))) = Inr (x, s')"
    and f: "\<And>so v so'. object_wf E (stores s) so \<Longrightarrow> f (stores s) so = Inr (v, so') \<Longrightarrow>
       object_wf E (stores s) so' \<and> soView E (stores s) so' = soView E (stores s) so \<and>
       so_address so' = so_address so \<and> deleted so' = deleted so \<and> loadedKeys so \<subseteq> loadedKeys so' \<and>
       v = h so"
  shows "journals E s s'" and "observe E s' = observe E s"
    and "x = (case fetch E s a of None \<Rightarrow> 0 | Some so \<Rightarrow> h so)"
proof -
  from op obtain y t where y: "getStateObject E s a = Inr (y, t)" by (auto simp: res_simps)
  note g = getStateObject_step [OF E r y]
  have ot: "observe E t = observe E s" using loads_observe [OF g(4)] .
  have st: "stores t = stores s" using g(4) same_but_cacheD(1) by (auto simp: loads_def)
  have "journals E s s' \<and> observe E s' = observe E s \<and>
      x = (case fetch E s a of None \<Rightarrow> 0 | Some so \<Rightarrow> h so)"
  proof (cases y)
    case None
    with op y g(1,2) ot show ?thesis by auto
  next
    case (Some so)
    note lv = g(3) [OF Some] and rt = journals_ready [OF g(1)]
    have wf: "csdb_wf E t" using rt by (simp add: evm_ready_def)
    note obj = live_object [OF wf lv, unfolded st]
    from op y Some st obtain so' where so': "f (stores s) so = Inr (x, so')" "setStateObject t so' = Inr s'"
      by (auto simp: res_simps)
    note w = f [OF obj(1) so'(1)]
    from refresh_step [OF rt lv, unfolded st, of so' s'] w so'(2) ot journals_trans [OF g(1)] Some g(2) st
    show ?thesis by auto
  qed
  then show "journals E s s'" and "observe E s' = observe E s"
    and "x = (case fetch E s a of None \<Rightarrow> 0 | Some so \<Rightarrow> h so)" by blast+
qed

lemma GetState_step:
  assumes E: "evm_env_ok E" and r: "evm_ready E s" and op: "GetState E s a key = Inr (x, s')"
  shows "journals E s s'" and "observe E s' = observe E s"
    and "x = (case view E s a of None \<Rightarrow> 0
       | Some v \<Rightarrow> v_storage v (Keccak256Hash E (AddressBytes E a @ HashBytes E key)))"
proof -
  let ?f = "\<lambda>st so. soGetState E st so key"
  let ?h = "\<lambda>so. soStorage (stores s) so (GetStorageByAddressKey E so (HashBytes E key))"
  note g = storage_getter_step [where f = ?f and h = ?h, OF E r op [unfolded GetState_def]]
  have f: "\<And>so v so'. object_wf E (stores s) so \<Longrightarrow> ?f (stores s) so = Inr (v, so') \<Longrightarrow>
       object_wf E (stores s) so' \<and> soView E (stores s) so' = soView E (stores s) so \<and>
       so_address so' = so_address so \<and> deleted so' = deleted so \<and> loadedKeys so \<subseteq> loadedKeys so' \<and>
       v = ?h so" by (intro conjI) (rule soGetState_object; assumption)+
  show "journals E s s'" and "observe E s' = observe E s" using g(1,2) f by blast+
  have wf: "csdb_wf E s" using r by (simp add: evm_ready_def)
  have x: "x = (case fetch E s a of None \<Rightarrow> 0 | Some so \<Rightarrow> ?h so)" using g(3) f by blast
  show "x = (case view E s a of None \<Rightarrow> 0
       | Some v \<Rightarrow> v_storage v (Keccak256Hash E (AddressBytes E a @ HashBytes E key)))"
    using fetch_wf(2) [OF E wf, of a] by (cases "fetch E s a") (simp_all add: x view_def soView_def GetStorageByAddressKey_def)
qed

lemma GetCommittedState_step:
  assumes E: "evm_env_ok E" and r: "evm_ready E s" and op: "GetCommittedState E s a key = Inr (x, s')"
  shows "journals E s s'" and "observe E s' = observe E s"
    and "x = (case view E s a of None \<Rightarrow> 0
       | Some v \<Rightarrow> stateAt (stores s) a (Keccak256Hash E (AddressBytes E a @ HashBytes E key)))"
proof -
  let ?f = "\<lambda>st so. soGetCommittedState E st so key"
  let ?h = "\<lambda>so. stateAt (stores s) (so_address so) (GetStorageByAddressKey E so (HashBytes E key))"
  note g = storage_getter_step [where f = ?f and h = ?h, OF E r op [unfolded GetCommittedState_def]]
  have f: "\<And>so v so'. object_wf E (stores s) so \<Longrightarrow> ?f (stores s) so = Inr (v, so') \<Longrightarrow>
       object_wf E (stores s) so' \<and> soView E (stores s) so' = soView E (stores s) so \<and>
       so_address so' = so_address so \<and> deleted so' = deleted so \<and> loadedKeys so \<subseteq> loadedKeys so' \<and>
       v = ?h so" by (intro conjI) (rule soGetCommittedState_object; assumption)+
  show "journals E s s'" and "observe E s' = observe E s" using g(1,2) f by blast+
  have wf: "csdb_wf E s" using r by (simp add: evm_ready_def)
  have x: "x = (case fetch E s a of None \<Rightarrow> 0 | Some so \<Rightarrow> ?h so)" using g(3) f by blast
  show "x = (case view E s a of None \<Rightarrow> 0
       | Some v \<Rightarrow> stateAt (stores s) a (Keccak256Hash E (AddressBytes E a @ HashBytes E key)))"
    using fetch_wf(2) [OF E wf, of a] by (cases "fetch E s a") (simp_all add: x view_def GetStorageByAddressKey_def)
qed

subsection \<open>Runs\<close>

datatype evm_op =
    OpSetBalance address int | OpAddBalance address int | OpSubBalance address int
  | OpSetNonce address uint64 | OpSetState address hash hash | OpSetCode address "bytes option"
  | OpAddLog eth_log | OpAddPreimage hash bytes | OpAddRefund uint64 | OpSubRefund uint64
  | OpAddAddress address | OpAddSlot address hash
  | OpSuicide address | OpCreateAccount address
  | OpGetBalance address | OpGetNonce address | OpGetCodeHash address | OpGetCode address
  | OpGetCodeSize address | OpGetState address hash | OpGetCommittedState address hash
  | OpHasSuicided address | OpEmpty address | OpExist address
  | OpSnapshot | OpRevert int

abbreviation stateOf :: "evm_error + 'a \<times> commitStateDB \<Rightarrow> evm_error + commitStateDB" where
  "stateOf m \<equiv> bindE m (\<lambda>p. Inr (snd p))"

primrec exec :: "evm_env \<Rightarrow> commitStateDB \<Rightarrow> evm_op \<Rightarrow> evm_error + commitStateDB" where
  "exec E s (OpSetBalance a n) = csdbSetBalance E s a n"
| "exec E s (OpAddBalance a n) = AddBalance E s a n"
| "exec E s (OpSubBalance a n) = SubBalance E s a n"
| "exec E s (OpSetNonce a n) = SetNonce E s a n"
| "exec E s (OpSetState a k v) = SetState E s a k v"
| "exec E s (OpSetCode a c) = SetCode E s a c"
| "exec E s (OpAddLog l) = AddLog s l"
| "exec E s (OpAddPreimage h b) = AddPreimage s h b"
| "exec E s (OpAddRefund g) = AddRefund s g"
| "exec E s (OpSubRefund g) = SubRefund s g"
| "exec E s (OpAddAddress a) = AddAddressToAccessList s a"
| "exec E s (OpAddSlot a k) = AddSlotToAccessList s a k"
| "exec E s (OpSuicide a) = stateOf (Suicide E s a)"
| "exec E s (OpCreateAccount a) = CreateAccount E s a"
| "exec E s (OpGetBalance a) = stateOf (GetBalance E s a)"
| "exec E s (OpGetNonce a) = stateOf (GetNonce E s a)"
| "exec E s (OpGetCodeHash a) = stateOf (GetCodeHash E s a)"
| "exec E s (OpGetCode a) = stateOf (GetCode E s a)"
| "exec E s (OpGetCodeSize a) = stateOf (GetCodeSize E s a)"
| "exec E s (OpGetState a k) = stateOf (GetState E s a k)"
| "exec E s (OpGetCommittedState a k) = stateOf (GetCommittedState E s a k)"
| "exec E s (OpHasSuicided a) = stateOf (HasSuicided E s a)"
| "exec E s (OpEmpty a) = stateOf (Empty E s a)"
| "exec E s (OpExist a) = stateOf (Exist E s a)"
| "exec E s OpSnapshot = Inr (snd (Snapshot s))"
| "exec E s (OpRevert i) = RevertToSnapshot E s i"

text \<open>The runs considered: the explicit dirtying of the RIPEMD precompile is not journalled, and
  nobody reverts to the snapshot \<open>i\<close> under consideration, or below it, in the middle of the run.\<close>

fun op_ok :: "int \<Rightarrow> evm_op \<Rightarrow> bool" where
  "op_ok i (OpAddBalance a n) \<longleftrightarrow> (a = ripemd \<longrightarrow> n \<noteq> 0)"
| "op_ok i (OpRevert k) \<longleftrightarrow> i < k"
| "op_ok i _ \<longleftrightarrow> True"

lemma exec_step:
  assumes E: "evm_env_ok E" and r: "evm_ready E s" and op: "exec E s c = Inr s'" and ok: "op_ok i c"
    and "c \<noteq> OpSnapshot" and "\<And>k. c \<noteq> OpRevert k"
  shows "journals E s s'"
  using assms(3-)
  by (cases c)
    (auto simp: res_simps GetBalance_def GetNonce_def GetCodeHash_def HasSuicided_def Empty_def Exist_def
      dest: csdbSetBalance_step [OF E r] AddBalance_step [OF E r] SubBalance_step [OF E r]
      SetNonce_step [OF E r] SetState_step [OF E r] SetCode_step [OF E r] AddLog_step [OF r]
      AddPreimage_step [OF r] AddRefund_step [OF r] SubRefund_step [OF r] AddAddressToAccessList_step [OF r]
      AddSlotToAccessList_step [OF r] Suicide_step [OF E r] CreateAccount_step [OF E r]
      readObject_step(1) [OF E r] GetCode_step(1) [OF E r] GetCodeSize_step(1) [OF E r]
      GetState_step(1) [OF E r] GetCommittedState_step(1) [OF E r])

subsection \<open>Reverting\<close>

lemma abs_fields [simp]:
  "abs E (s\<lparr>jrnl := j\<rparr>) = abs E s" "abs E (s\<lparr>validRevisions := v\<rparr>) = abs E s"
  "abs E (s\<lparr>nextRevisionID := i\<rparr>) = abs E s"
  by (rule abs_eqI; simp)+

text \<open>The loop of \<open>journal.revert\<close> performs the abstract undo and the dirty bookkeeping.\<close>

lemma revert_loop:
  assumes E: "evm_env_ok E" and "csdb_wf E s" and "list_all (entry_ok E (stores s)) es"
    and "undoAll (aundo E (stores s)) (abs E s) es = Some A" and "foldE dropDirty (jrnl s) es = Inr j"
  shows "\<exists>s'. foldE (revertStep E) s es = Inr s' \<and> csdb_wf E s' \<and> abs E s' = A \<and> jrnl s' = j \<and> same_admin s s'"
  using assms(2-)
proof (induction es arbitrary: s)
  case Nil
  then show ?case by (simp add: same_admin_def)
next
  case (Cons e es)
  from Cons.prems(3) obtain B where B: "aundo E (stores s) (abs E s) e = Some B"
    "undoAll (aundo E (stores s)) B es = Some A" by (auto split: option.splits)
  from Cons.prems(4) obtain k where k: "dropDirty (jrnl s) e = Inr k" "foldE dropDirty k es = Inr j"
    by (auto simp: res_simps)
  from undo_refines [OF E Cons.prems(1) _ B(1)] Cons.prems(2) obtain t where
    t: "undo E s e = Inr t" "csdb_wf E t" "abs E t = B" "undo_frame s t" by auto
  let ?t = "t\<lparr>jrnl := k\<rparr>"
  have rs: "revertStep E s e = Inr ?t" using t k(1) by (simp add: revertStep_def undo_frame_def)
  have "abs E ?t = B" using t(3) by simp
  then obtain s' where "foldE (revertStep E) ?t es = Inr s' \<and> csdb_wf E s' \<and> abs E s' = A \<and> jrnl s' = j \<and> same_admin ?t s'"
    using Cons.IH [of ?t] t B k Cons.prems(2) by (auto simp: undo_frame_def)
  with rs t(4) show ?case by (auto simp: same_admin_def undo_frame_def)
qed

text \<open>Reverting the last entries of a log leaves the log of the others.\<close>

lemma jrevert_logged:
  assumes E: "evm_env_ok E" and l: "logged E s (es @ fs) s1"
  shows "\<exists>s2. jrevert E s1 (length (entries (jrnl s)) + length es) = Inr s2 \<and> logged E s es s2 \<and> same_admin s1 s2"
proof -
  note 1 = l [unfolded logged_def]
  have st: "stores s1 = stores s" using 1 by simp
  let ?n = "length (entries (jrnl s)) + length es"
  have ents: "entries (jrnl s1) = entries (jrnl s) @ es @ fs" using logged_journal(2) [OF l] by simp
  from 1 obtain A where A: "undoAll (aundo E (stores s)) (abs E s1) (rev fs @ rev es) = Some A" "abs_le (abs E s) A"
    by (auto simp: evm_log.rolls_back_def)
  then obtain B where B: "undoAll (aundo E (stores s)) (abs E s1) (rev fs) = Some B"
    "undoAll (aundo E (stores s)) B (rev es) = Some A" by (auto simp: undoAll_append split: option.splits)
  from 1 obtain k where k: "foldE jappend (jrnl s) es = Inr k" "foldE jappend k fs = Inr (jrnl s1)"
    by (auto simp: foldE_append res_simps)
  have ek: "jpos k" "entries k = entries (jrnl s) @ es" using jappends_effect [OF k(1)] 1 by simp_all
  let ?k = "k\<lparr>entries := entries (jrnl s1)\<rparr>"
  have "foldE dropDirty (jrnl s1) (rev fs) = Inr ?k" using jappends_effect [OF k(2) ek(1)] by simp
  with revert_loop [OF E, of s1 "rev fs" B ?k] 1 B(1) st obtain t where
    t: "foldE (revertStep E) s1 (rev fs) = Inr t" "csdb_wf E t" "abs E t = B" "jrnl t = ?k" "same_admin s1 t" by auto
  let ?u = "t\<lparr>jrnl := k\<rparr>"
  have "k = ?k\<lparr>entries := take ?n (entries ?k)\<rparr>" using ents ek(2) by (cases k) simp
  then have rev: "jrevert E s1 ?n = Inr ?u"
    using t(1,4) ents by (simp add: jrevert_def)
  have "abs E ?u = B" using t(3) by simp
  then have "logged E s es ?u"
    using t(2,5) 1 A(2) B(2) st k(1) by (auto simp: logged_def same_admin_def evm_log.rolls_back_def)
  with rev t(5) show ?thesis by (auto simp: same_admin_def)
qed

text \<open>The stack of snapshots: ids increase, and so do the journal positions they point to.\<close>

definition revs_ok :: "commitStateDB \<Rightarrow> bool" where
  "revs_ok s \<longleftrightarrow>
     sorted_wrt (\<lambda>r q. rev_id r < rev_id q \<and> journalIndex r \<le> journalIndex q) (validRevisions s) \<and>
     (\<forall>r \<in> set (validRevisions s). rev_id r < nextRevisionID s \<and> journalIndex r \<le> length (entries (jrnl s)))"

definition csdb_ok :: "evm_env \<Rightarrow> commitStateDB \<Rightarrow> bool" where
  "csdb_ok E s \<longleftrightarrow> evm_ready E s \<and> revs_ok s"

lemma revision_found:
  assumes ok: "revs_ok s" and k: "k < length (validRevisions s)"
  shows "sortSearch (length (validRevisions s)) (\<lambda>i. rev_id (validRevisions s ! k) \<le> rev_id (validRevisions s ! i)) = k"
proof (rule sortSearch_first)
  have lt: "\<And>i j. i < j \<Longrightarrow> j < length (validRevisions s) \<Longrightarrow> rev_id (validRevisions s ! i) < rev_id (validRevisions s ! j)"
    using ok by (simp add: revs_ok_def sorted_wrt_iff_nth_less)
  show "k \<le> length (validRevisions s)" using k by simp
  show "\<not> rev_id (validRevisions s ! k) \<le> rev_id (validRevisions s ! i)" if "i < k" for i
    using lt [OF that k] by simp
  show "rev_id (validRevisions s ! k) \<le> rev_id (validRevisions s ! i)" if "k \<le> i" "i < length (validRevisions s)" for i
    using lt [of k i] that by (cases "i = k") auto
qed

lemma RevertToSnapshot_found:
  assumes ok: "revs_ok s" and rev: "RevertToSnapshot E s i = Inr s'"
  shows "\<exists>k t. k < length (validRevisions s) \<and> rev_id (validRevisions s ! k) = i \<and>
     jrevert E s (journalIndex (validRevisions s ! k)) = Inr t \<and> s' = t\<lparr>validRevisions := take k (validRevisions t)\<rparr>"
proof -
  let ?n = "length (validRevisions s)" and ?f = "\<lambda>x. i \<le> rev_id (validRevisions s ! x)"
  let ?k = "sortSearch ?n ?f"
  have le: "?k \<le> ?n"
  proof -
    have "searchLoop f x y \<le> max x y" for f x y
    proof (induction f x y rule: searchLoop.induct)
      case (1 f x y)
      then show ?case by (subst searchLoop.simps) (auto simp: Let_def)
    qed
    from this [of ?f 0 ?n] show ?thesis by (simp add: sortSearch_def)
  qed
  from rev obtain t where "?k \<noteq> ?n" "rev_id (validRevisions s ! ?k) = i"
    "jrevert E s (journalIndex (validRevisions s ! ?k)) = Inr t"
    "s' = t\<lparr>validRevisions := take ?k (validRevisions t)\<rparr>"
    by (auto simp: RevertToSnapshot_def Let_def res_simps)
  with le show ?thesis by (intro exI [of _ ?k] exI [of _ t]) simp
qed

text \<open>Where a run that started after the snapshot \<open>(i, s0)\<close> of \<open>s\<close> can be.\<close>

definition after_snapshot :: "evm_env \<Rightarrow> commitStateDB \<Rightarrow> commitStateDB \<Rightarrow> bool" where
  "after_snapshot E s t \<longleftrightarrow> (\<exists>es. logged E s es t) \<and> revs_ok t \<and>
     (\<exists>rs. validRevisions t = validRevisions (snd (Snapshot s)) @ rs \<and>
        (\<forall>r \<in> set rs. nextRevisionID s < rev_id r)) \<and> nextRevisionID s < nextRevisionID t"

lemma snapshot_after:
  assumes ok: "csdb_ok E s"
  shows "after_snapshot E s (snd (Snapshot s))"
proof -
  have r: "evm_ready E s" and revs: "revs_ok s" using ok by (simp_all add: csdb_ok_def)
  have "logged E s [] (snd (Snapshot s))"
    using r evm_log.rolls_back_nil [of "abs E s" "abs E s"]
    by (simp add: logged_def Snapshot_def evm_ready_def)
  moreover have "revs_ok (snd (Snapshot s))"
    using revs by (auto simp: revs_ok_def Snapshot_def sorted_wrt_append)
  ultimately show ?thesis unfolding after_snapshot_def by (auto simp: Snapshot_def)
qed

lemma after_snapshot_journals:
  assumes a: "after_snapshot E s t" and j: "journals E t u"
  shows "after_snapshot E s u"
proof -
  from j obtain fs where fs: "logged E t fs u" and adm: "same_admin t u" by (auto simp: journals_def)
  have "revs_ok u" using a fs adm logged_journal(2) [OF fs]
    by (auto simp: after_snapshot_def revs_ok_def same_admin_def)
  with a fs adm show ?thesis unfolding after_snapshot_def same_admin_def by (metis logged_trans)
qed

lemma after_snapshot_Snapshot:
  assumes a: "after_snapshot E s t"
  shows "after_snapshot E s (snd (Snapshot t))"
proof -
  from a obtain es where es: "logged E s es t" and revs: "revs_ok t" by (auto simp: after_snapshot_def)
  have "csdb_ok E t" using logged_ready [OF es] revs by (simp add: csdb_ok_def)
  from snapshot_after [OF this] obtain fs where "logged E t fs (snd (Snapshot t))" "revs_ok (snd (Snapshot t))"
    by (auto simp: after_snapshot_def)
  moreover have "validRevisions (snd (Snapshot t)) = validRevisions t @ [\<lparr>rev_id = nextRevisionID t,
      journalIndex = length (entries (jrnl t))\<rparr>]" "nextRevisionID (snd (Snapshot t)) = nextRevisionID t + 1"
    by (simp_all add: Snapshot_def)
  ultimately show ?thesis using a logged_trans [OF es] by (fastforce simp: after_snapshot_def)
qed

lemma after_snapshot_revert:
  assumes E: "evm_env_ok E" and a: "after_snapshot E s t" and i: "nextRevisionID s < i"
    and rev: "RevertToSnapshot E t i = Inr u"
  shows "after_snapshot E s u"
proof -
  from a obtain es rs where es: "logged E s es t" and revs: "revs_ok t"
    and rs: "validRevisions t = validRevisions (snd (Snapshot s)) @ rs" "\<forall>r \<in> set rs. nextRevisionID s < rev_id r"
    and nx: "nextRevisionID s < nextRevisionID t" by (auto simp: after_snapshot_def)
  let ?vs = "validRevisions t" and ?m = "length (validRevisions (snd (Snapshot s)))"
  from RevertToSnapshot_found [OF revs rev] obtain k v where k: "k < length ?vs" "rev_id (?vs ! k) = i"
    and v: "jrevert E t (journalIndex (?vs ! k)) = Inr v" and u: "u = v\<lparr>validRevisions := take k (validRevisions v)\<rparr>"
    by blast
  let ?l = "length (validRevisions s)"
  have len: "?m = Suc ?l" and own: "?vs ! ?l = \<lparr>rev_id = nextRevisionID s, journalIndex = length (entries (jrnl s))\<rparr>"
    using rs(1) by (simp_all add: Snapshot_def nth_append)
  have srt: "sorted_wrt (\<lambda>r q. rev_id r < rev_id q \<and> journalIndex r \<le> journalIndex q) ?vs"
    using revs by (simp add: revs_ok_def)
  have gt: "?l < k"
  proof (rule ccontr)
    assume "\<not> ?l < k"
    then have "k \<le> ?l" by simp
    moreover have "?l < length ?vs" using rs(1) len by simp
    ultimately have "rev_id (?vs ! k) \<le> rev_id (?vs ! ?l)"
      using srt by (cases "k = ?l") (auto simp: sorted_wrt_iff_nth_less less_imp_le)
    with own k(2) i show False by simp
  qed
  have "journalIndex (?vs ! ?l) \<le> journalIndex (?vs ! k)" using srt gt k(1) by (simp add: sorted_wrt_iff_nth_less)
  then have ge: "length (entries (jrnl s)) \<le> journalIndex (?vs ! k)" using own by simp
  have "journalIndex (?vs ! k) \<le> length (entries (jrnl t))" using revs k(1) by (simp add: revs_ok_def)
  then have le: "journalIndex (?vs ! k) - length (entries (jrnl s)) \<le> length es"
    using logged_journal(2) [OF es] ge by simp
  define d where "d = journalIndex (?vs ! k) - length (entries (jrnl s))"
  have "logged E s (take d es @ drop d es) t" using es by simp
  from jrevert_logged [OF E this] le ge v have lv: "logged E s (take d es) v" and adm: "same_admin t v"
    by (auto simp: d_def min_absorb2)
  have vu: "validRevisions u = take k ?vs" "jrnl u = jrnl v" "nextRevisionID u = nextRevisionID t"
    using u adm by (simp_all add: same_admin_def)
  have "logged E s (take d es) u" using lv by (simp add: u logged_def)
  moreover have "revs_ok u"
  proof -
    have lenu: "length (entries (jrnl u)) = journalIndex (?vs ! k)"
      using logged_journal(2) [OF lv] le ge by (simp add: vu(2) d_def min_absorb2)
    have "journalIndex r \<le> journalIndex (?vs ! k)" if "r \<in> set (take k ?vs)" for r
      using that srt k(1) by (auto simp: in_set_conv_nth sorted_wrt_iff_nth_less)
    then show ?thesis using revs lenu unfolding revs_ok_def vu
      by (auto dest: in_set_takeD intro: sorted_wrt_take)
  qed
  moreover have "take k ?vs = validRevisions (snd (Snapshot s)) @ take (k - ?m) rs"
    using rs(1) gt len by simp
  ultimately show ?thesis using rs(2) nx vu unfolding after_snapshot_def
    by (auto dest: in_set_takeD)
qed

lemma run_after_snapshot:
  assumes E: "evm_env_ok E" and a: "after_snapshot E s t" and run: "foldE (exec E) t ops = Inr u"
    and ok: "list_all (op_ok (nextRevisionID s)) ops"
  shows "after_snapshot E s u"
  using run a
proof (rule foldE_invariant)
  fix c t u
  assume c: "c \<in> set ops" and a: "after_snapshot E s t" and op: "exec E t c = Inr u"
  have okc: "op_ok (nextRevisionID s) c" using ok c by (simp add: list_all_iff)
  have r: "evm_ready E t" using a logged_ready by (auto simp: after_snapshot_def)
  show "after_snapshot E s u"
  proof (cases "c = OpSnapshot \<or> (\<exists>k. c = OpRevert k)")
    case True
    with a op okc after_snapshot_Snapshot [OF a] after_snapshot_revert [OF E a] show ?thesis by auto
  next
    case False
    with exec_step [OF E r op okc] after_snapshot_journals [OF a] show ?thesis by blast
  qed
qed

lemma abs_le_observe: "abs_le (abs E s) (abs E t) \<Longrightarrow> observe E t = observe E s"
  using abs_leD [of "abs E s" "abs E t"] by (simp add: observe_def)

lemma revert_after_snapshot:
  assumes E: "evm_env_ok E" and a: "after_snapshot E s t"
  shows "\<exists>u. RevertToSnapshot E t (nextRevisionID s) = Inr u \<and> observe E u = observe E s \<and>
     jrnl u = jrnl s \<and> stores u = stores s \<and> validRevisions u = validRevisions s \<and> evm_ready E u"
proof -
  from a obtain es rs where es: "logged E s es t" and revs: "revs_ok t"
    and rs: "validRevisions t = validRevisions (snd (Snapshot s)) @ rs" by (auto simp: after_snapshot_def)
  let ?vs = "validRevisions t" and ?l = "length (validRevisions s)"
  have own: "?vs ! ?l = \<lparr>rev_id = nextRevisionID s, journalIndex = length (entries (jrnl s))\<rparr>" "?l < length ?vs"
    "take ?l ?vs = validRevisions s"
    using rs by (simp_all add: Snapshot_def nth_append)
  have found: "sortSearch (length ?vs) (\<lambda>i. nextRevisionID s \<le> rev_id (?vs ! i)) = ?l"
    using revision_found [OF revs own(2)] own(1) by simp
  from jrevert_logged [OF E, of s "[]" es t] es obtain u where
    u: "jrevert E t (length (entries (jrnl s))) = Inr u" "logged E s [] u" "same_admin t u" by auto
  have "abs_le (abs E s) (abs E u)" using u(2) by (simp add: logged_def evm_log.rolls_back_def)
  then have ob: "observe E u = observe E s" by (rule abs_le_observe)
  have j: "jrnl u = jrnl s" using u(2) by (simp add: logged_def)
  let ?w = "u\<lparr>validRevisions := validRevisions s\<rparr>"
  have "RevertToSnapshot E t (nextRevisionID s) = Inr ?w"
    using found own u(1,3) by (simp add: RevertToSnapshot_def Let_def same_admin_def)
  moreover have "observe E ?w = observe E s" using ob by (simp add: observe_def)
  moreover have "evm_ready E ?w" using logged_ready [OF u(2)] by (simp add: evm_ready_def)
  ultimately show ?thesis using j u(2) by (auto simp: logged_def)
qed

subsection \<open>A concrete database\<close>

definition stores0 :: evm_stores where
  "stores0 = \<lparr>ev_accounts = kv_empty, ev_codes = kv_empty, ev_storage = kv_empty, ev_heightHash = kv_empty,
     ev_whitelist = kv_empty, ev_blocked = kv_empty,
     ev_params = \<lparr>EnableCreate = True, EnableCall = True, ExtraEIPs = [],
       EnableContractDeploymentWhitelist = False, EnableContractBlockedList = False, MaxGasLimitPerTx = 30000000\<rparr>\<rparr>"

definition csdb0 :: commitStateDB where
  "csdb0 = CreateEmptyCommitStateDB stores0 0"

lemma csdb0_ok: "csdb_ok evm_env0 csdb0"
  by (simp add: csdb_ok_def evm_ready_def csdb_wf_def csdb0_def CreateEmptyCommitStateDB_def accounts_wf_def
      stores0_def al_wf_empty jpos_def newJournal_def revs_ok_def)

lemma env0_ops [simp]:
  "NewAccount evm_env0 n b = EthAcc ((ProtoAccount evm_env0)\<lparr>Address := b, AccountNumber := n\<rparr>)"
  "BytesToAddress evm_env0 (AddressBytes evm_env0 a) = a"
  "CoinsAdd evm_env0 cs ds = cs @ ds"
  "CoinsSub evm_env0 cs ds = (if subDenoms cs ds then Some (cs @ map negCoin ds) else None)"
  "bondDenom evm_env0 = ''okt''"
  "BlacklistedAddr evm_env0 b = False"
  by (rule evm_env_okD(5) [OF evm_env0_ok], rule evm_env_okD(2) [OF evm_env0_ok])
    (simp_all add: evm_env0_def dec18_def)

lemmas evm_run = AddBalance_def csdbSetBalance_def SubBalance_def SetNonce_def SetState_def
  GetOrNewStateObject_def getStateObject_def liveObject_def csdbSetError_def createObject_def newStateObject_def
  setStateObject_def soAddBalance_def soSubBalance_def soSetBalance_def setBalance_def accSetBalance_def
  soSetState_def soGetState_def soGetCommittedState_def setState_def soSetNonce_def setNonce_def
  jappend_def addDirty_def putBack_def Snapshot_def touch_def soEmpty_def Balance_def soBalance_def
  markSuicided_def Suicide_def CreateAccount_def csdb0_def stores0_def CreateEmptyCommitStateDB_def
  newJournal_def newAccessList_def objectOf_def ProtoAccount_def EthAddress_def AmountOf_def subDenoms_def Let_def
  emptyCodeHash_def

lemmas evm_revert = RevertToSnapshot_def sortSearch_def searchLoop.simps jrevert_def revertStep_def
  withObject_def dropObject_def removeAt_def shiftLeft_def dropDirty_def substractDirty_def getDirty_def
  deleteDirty_def nthE_def

subsection \<open>Properties\<close>

text \<open>C3: Reverting to a snapshot undoes everything. Take a snapshot of a well-formed state database,
  then let the EVM do anything: change balances, nonces, code and storage, create accounts and destroy
  them, emit logs, collect refunds, preimages and access-list entries, take further snapshots and
  revert to them. If the run ends without a panic, \<open>RevertToSnapshot\<close> to the first snapshot
  succeeds, and every account, balance, nonce, code, storage slot and suicide mark, the refund counter,
  the logs, the preimages and the access list are what they were; so are the journal with its dirty
  counts and the stack of valid snapshots, and the stores were not touched.\<close>

theorem RevertToSnapshot_restores:
  assumes "evm_env_ok E" and "csdb_ok E s" and "Snapshot s = (i, s0)"
    and "foldE (exec E) s0 ops = Inr s1" and "list_all (op_ok i) ops"
  shows "\<exists>s2. RevertToSnapshot E s1 i = Inr s2 \<and> observe E s2 = observe E s \<and>
     jrnl s2 = jrnl s \<and> validRevisions s2 = validRevisions s \<and> stores s2 = stores s"
proof -
  have i: "i = nextRevisionID s" "s0 = snd (Snapshot s)" using assms(3) by (auto simp: Snapshot_def)
  have "after_snapshot E s s0" using snapshot_after [OF assms(2)] i(2) by simp
  from run_after_snapshot [OF assms(1) this assms(4)] assms(5) i(1) have "after_snapshot E s s1" by simp
  from revert_after_snapshot [OF assms(1) this] i(1) show ?thesis by blast
qed

definition run0 :: "evm_op list" where
  "run0 = [OpAddBalance 5 7, OpSetState 5 1 9, OpSnapshot, OpCreateAccount 6, OpSuicide 5]"

lemma run0_returns: "\<exists>s. foldE (exec evm_env0) (snd (Snapshot csdb0)) run0 = Inr s"
  by (simp add: run0_def evm_run cong: bindE_weak_cong)

theorem RevertToSnapshot_restores_witness:
  "\<exists>s1 s2. foldE (exec evm_env0) (snd (Snapshot csdb0)) run0 = Inr s1 \<and>
     RevertToSnapshot evm_env0 s1 0 = Inr s2 \<and> observe evm_env0 s2 = observe evm_env0 csdb0"
proof -
  obtain s1 where s1: "foldE (exec evm_env0) (snd (Snapshot csdb0)) run0 = Inr s1" using run0_returns by blast
  have "Snapshot csdb0 = (0, snd (Snapshot csdb0))" by (simp add: Snapshot_def csdb0_def CreateEmptyCommitStateDB_def)
  moreover have "list_all (op_ok 0) run0" by (simp add: run0_def)
  ultimately show ?thesis using RevertToSnapshot_restores [OF evm_env0_ok csdb0_ok _ s1] s1 by blast
qed

text \<open>The getters of the state database return what it stands for: \<open>GetBalance\<close>,
  \<open>GetNonce\<close>, \<open>GetState\<close>, \<open>GetCommittedState\<close> and \<open>GetCode\<close> answer from the view of the address, with
  zero or nothing for an account that does not exist, whether the account is cached or still in the
  store; and reading changes nothing observable.\<close>

theorem getters_read_view:
  assumes "evm_env_ok E" and "csdb_ok E s"
  shows "(GetBalance E s a = Inr (b, s1) \<longrightarrow>
       b = (case view E s a of None \<Rightarrow> 0 | Some v \<Rightarrow> v_amount v (bondDenom E)) \<and> observe E s1 = observe E s) \<and>
     (GetNonce E s a = Inr (n, s2) \<longrightarrow>
       n = (case view E s a of None \<Rightarrow> 0 | Some v \<Rightarrow> Sequence (v_account v)) \<and> observe E s2 = observe E s) \<and>
     (GetState E s a key = Inr (x, s3) \<longrightarrow>
       x = (case view E s a of None \<Rightarrow> 0
          | Some v \<Rightarrow> v_storage v (Keccak256Hash E (AddressBytes E a @ HashBytes E key))) \<and>
       observe E s3 = observe E s) \<and>
     (GetCommittedState E s a key = Inr (y, s4) \<longrightarrow>
       y = (case view E s a of None \<Rightarrow> 0
          | Some v \<Rightarrow> stateAt (stores s) a (Keccak256Hash E (AddressBytes E a @ HashBytes E key))) \<and>
       observe E s4 = observe E s) \<and>
     (GetCode E s a = Inr (c, s5) \<longrightarrow>
       (case c of None \<Rightarrow> [] | Some bs \<Rightarrow> bs) = (case view E s a of None \<Rightarrow> [] | Some v \<Rightarrow> v_code v) \<and>
       observe E s5 = observe E s)"
proof -
  have r: "evm_ready E s" using assms(2) by (simp add: csdb_ok_def)
  note read = readObject_step(2,3) [OF assms(1) r]
  have "GetBalance E s a = Inr (b, s1) \<longrightarrow>
       b = (case view E s a of None \<Rightarrow> 0 | Some v \<Rightarrow> v_amount v (bondDenom E)) \<and> observe E s1 = observe E s"
    using read [of a 0 "soBalance E" b s1]
    by (cases "fetch E s a") (auto simp: GetBalance_def view_def soView_def soBalance_def Balance_def)
  moreover have "GetNonce E s a = Inr (n, s2) \<longrightarrow>
       n = (case view E s a of None \<Rightarrow> 0 | Some v \<Rightarrow> Sequence (v_account v)) \<and> observe E s2 = observe E s"
    using read [of a 0 soNonce n s2]
    by (cases "fetch E s a") (auto simp: GetNonce_def view_def soView_def soNonce_def)
  ultimately show ?thesis
    using GetState_step(2,3) [OF assms(1) r, of a key x s3]
      GetCommittedState_step(2,3) [OF assms(1) r, of a key y s4] GetCode_step(2,3) [OF assms(1) r, of a c s5]
    by blast
qed

lemma csdb_ok_journals:
  assumes "csdb_ok E s" and "journals E s t"
  shows "csdb_ok E t"
proof -
  from assms(2) obtain es where "logged E s es t" "same_admin s t" by (auto simp: journals_def)
  with assms(1) logged_ready logged_journal(2) show ?thesis
    by (fastforce simp: csdb_ok_def revs_ok_def same_admin_def)
qed

theorem getters_read_view_witness:
  "\<exists>s s'. AddBalance evm_env0 csdb0 5 7 = Inr s \<and> GetBalance evm_env0 s 5 = Inr (7, s') \<and>
     (case view evm_env0 s 5 of None \<Rightarrow> 0 | Some v \<Rightarrow> v_amount v (bondDenom evm_env0)) = 7 \<and>
     observe evm_env0 s' = observe evm_env0 s"
proof -
  have "\<exists>s s'. AddBalance evm_env0 csdb0 5 7 = Inr s \<and> GetBalance evm_env0 s 5 = Inr (7, s')"
    by (simp add: evm_run GetBalance_def readObject_def cong: bindE_weak_cong)
  then obtain s s' where s: "AddBalance evm_env0 csdb0 5 7 = Inr s" "GetBalance evm_env0 s 5 = Inr (7, s')" by blast
  have "evm_ready evm_env0 csdb0" using csdb0_ok by (simp add: csdb_ok_def)
  from csdb_ok_journals [OF csdb0_ok AddBalance_step [OF evm_env0_ok this s(1)]]
  have "csdb_ok evm_env0 s" by (simp add: ripemd_def)
  from getters_read_view [OF evm_env0_ok this, of 5 7 s'] s show ?thesis by auto
qed


end
