(* ===== verification/Evm_Commit.thy ===== *)
theory Evm_Commit
  imports Evm_Revert
begin

text \<open>
  Persistence of the state database (evm/types/statedb.go): \<open>Finalise\<close> writes the storage and the
  accounts of the dirty objects, \<open>Commit\<close> the code and the accounts again, and both remove the
  accounts of suicided and of empty dirty objects. Then the accessors that work on the stores alone:
  the contract deployment whitelist, the blocked list, iteration over the storage of an account.

  The theorems show that what was observable before is what a fresh database reads from the stores
  afterwards.
\<close>

definition updateStateObject ::
    "evm_env \<Rightarrow> commitStateDB \<Rightarrow> stateObject \<Rightarrow> evm_error + (stateObject \<times> commitStateDB)" where
  "updateStateObject E s so =
     (let newBalance = \<lparr>Denom = bondDenom E, Amount = soBalance E so\<rparr>
      in if \<not> CoinIsValid (evm_dec E) newBalance then Inl ErrInvalidBalance
         else if BlacklistedAddr E (Address (so_account so)) then Inl ErrBlacklisted
         else
           let coins = Coins (so_account so);
               balance = AmountOf (Denom newBalance) coins;
               coins = (if balance = 0 \<or> balance \<noteq> Amount newBalance then CoinsAdd E coins [newBalance] else coins);
               acc = (so_account so)\<lparr>Coins := coins\<rparr>
           in Inr (so\<lparr>so_account := acc\<rparr>,
                   s\<lparr>stores := (stores s)\<lparr>ev_accounts := kv_set (Address acc) (EthAcc acc) (ev_accounts (stores s))\<rparr>\<rparr>))"

definition deleteStateObject :: "commitStateDB \<Rightarrow> stateObject \<Rightarrow> stateObject \<times> commitStateDB" where
  "deleteStateObject s so =
     (so\<lparr>deleted := True\<rparr>,
      s\<lparr>stores := (stores s)\<lparr>ev_accounts := kv_del (Address (so_account so)) (ev_accounts (stores s))\<rparr>\<rparr>)"

text \<open>The write through the pointer held in the slice at a position.\<close>

definition writeObject :: "nat \<Rightarrow> stateObject \<times> commitStateDB \<Rightarrow> commitStateDB" where
  "writeObject idx p =
     (snd p)\<lparr>stateObjects := (stateObjects (snd p))[idx := (fst (stateObjects (snd p) ! idx), fst p)]\<rparr>"

definition finaliseStep ::
    "evm_env \<Rightarrow> bool \<Rightarrow> commitStateDB \<Rightarrow> address \<times> int \<Rightarrow> evm_error + commitStateDB" where
  "finaliseStep E deleteEmptyObjects s dirty =
     (case addressToObjectIndex s (fst dirty) of
        None \<Rightarrow> Inr s
      | Some idx \<Rightarrow>
          bindE (nthE PanicIndex (stateObjects s) idx) (\<lambda>stateEntry.
            let so = snd stateEntry
            in bindE
                 (if suicided so \<or> (deleteEmptyObjects \<and> soEmpty E so)
                  then Inr (writeObject idx (deleteStateObject s so))
                  else
                    bindE (commitState so (stores s)) (\<lambda>(so, st).
                      bindE (updateStateObject E (s\<lparr>stores := st\<rparr>) so) (\<lambda>p. Inr (writeObject idx p))))
                 (\<lambda>s. Inr (s\<lparr>stateObjectsDirty := insert (fst dirty) (stateObjectsDirty s)\<rparr>))))"

definition Finalise :: "evm_env \<Rightarrow> commitStateDB \<Rightarrow> bool \<Rightarrow> evm_error + commitStateDB" where
  "Finalise E s deleteEmptyObjects =
     bindE (foldE (finaliseStep E deleteEmptyObjects) s (dirties (jrnl s))) (\<lambda>s.
       let s = clearJournalAndRefund s in Inr (DeleteLogs s (thash s)))"

definition IntermediateRoot :: "evm_env \<Rightarrow> commitStateDB \<Rightarrow> bool \<Rightarrow> evm_error + (hash \<times> commitStateDB)" where
  "IntermediateRoot E s deleteEmptyObjects = bindE (Finalise E s deleteEmptyObjects) (\<lambda>s. Inr (0, s))"

definition commitStep :: "evm_env \<Rightarrow> bool \<Rightarrow> commitStateDB \<Rightarrow> nat \<Rightarrow> evm_error + commitStateDB" where
  "commitStep E deleteEmptyObjects s idx =
     bindE (nthE PanicIndex (stateObjects s) idx) (\<lambda>(addr, so).
       let isDirty = (addr \<in> stateObjectsDirty s)
       in bindE
            (if suicided so \<or> (isDirty \<and> deleteEmptyObjects \<and> soEmpty E so)
             then Inr (writeObject idx (deleteStateObject s so))
             else if isDirty then
               let (so, s) =
                 (if so_code so \<noteq> None \<and> dirtyCode so
                  then (so\<lparr>dirtyCode := False\<rparr>, s\<lparr>stores := commitCode E so (stores s)\<rparr>)
                  else (so, s))
               in bindE (updateStateObject E s so) (\<lambda>p. Inr (writeObject idx p))
             else Inr s)
            (\<lambda>s. Inr (s\<lparr>stateObjectsDirty := stateObjectsDirty s - {addr}\<rparr>)))"

definition Commit :: "evm_env \<Rightarrow> commitStateDB \<Rightarrow> bool \<Rightarrow> evm_error + (hash \<times> commitStateDB)" where
  "Commit E s deleteEmptyObjects =
     (let s = s\<lparr>stateObjectsDirty := stateObjectsDirty s \<union> set (map fst (dirties (jrnl s)))\<rparr>
      in bindE (foldE (commitStep E deleteEmptyObjects) s [0..<length (stateObjects s)]) (\<lambda>s.
           Inr (0, clearJournalAndRefund s)))"

text \<open>\<open>UpdateAccounts\<close> compares the two balances as pointers, which are never equal.\<close>

definition updateAccount :: "evm_env \<Rightarrow> evm_stores \<Rightarrow> address \<times> stateObject \<Rightarrow> address \<times> stateObject" where
  "updateAccount E st e =
     (case kv_get (ev_accounts st) (AddressBytes E (fst e)) of
        Some (EthAcc acc) \<Rightarrow>
          let balance = \<lparr>Denom = bondDenom E, Amount = AmountOf (bondDenom E) (Coins acc)\<rparr>
          in if CoinIsValid (evm_dec E) balance \<or> soNonce (snd e) \<noteq> Sequence acc
             then (fst e, (snd e)\<lparr>so_account := acc\<rparr>) else e
      | _ \<Rightarrow> e)"

definition UpdateAccounts :: "evm_env \<Rightarrow> commitStateDB \<Rightarrow> commitStateDB" where
  "UpdateAccounts E s = s\<lparr>stateObjects := map (updateAccount E (stores s)) (stateObjects s)\<rparr>"

subsection \<open>Accessors of the stores\<close>

fun forEachLoop ::
    "stateObject \<Rightarrow> (hash \<Rightarrow> hash \<Rightarrow> 's \<Rightarrow> bool \<times> 's) \<Rightarrow> ((address \<times> hash) \<times> hash) list \<Rightarrow> 's \<Rightarrow> evm_error + 's" where
  "forEachLoop so cb [] x = Inr x"
| "forEachLoop so cb (((a, key), val) # es) x =
     bindE (case keyToDirtyStorageIndex so key of
              Some idx \<Rightarrow> bindE (nthE PanicIndex (dirtyStorage so) idx) (\<lambda>d. Inr (Value d))
            | None \<Rightarrow> Inr val) (\<lambda>v.
       let (stop, x) = cb key v x in if stop then Inr x else forEachLoop so cb es x)"

text \<open>The callback threads the state of its closure.\<close>

definition ForEachStorage ::
    "evm_env \<Rightarrow> commitStateDB \<Rightarrow> address \<Rightarrow> (hash \<Rightarrow> hash \<Rightarrow> 's \<Rightarrow> bool \<times> 's) \<Rightarrow> 's \<Rightarrow> evm_error + ('s \<times> commitStateDB)" where
  "ForEachStorage E s addr cb x =
     bindE (getStateObject E s addr) (\<lambda>(so, s).
       case so of
         None \<Rightarrow> Inr (x, s)
       | Some so \<Rightarrow>
           bindE (forEachLoop so cb
                    (filter (\<lambda>e. fst (fst e) = so_address so) (kv_list (ev_storage (stores s)))) x) (\<lambda>x.
             Inr (x, s)))"

definition SetContractDeploymentWhitelist :: "commitStateDB \<Rightarrow> bytes list \<Rightarrow> commitStateDB" where
  "SetContractDeploymentWhitelist s addrs =
     s\<lparr>stores := (stores s)\<lparr>ev_whitelist := foldl (\<lambda>m a. kv_set a () m) (ev_whitelist (stores s)) addrs\<rparr>\<rparr>"

definition DeleteContractDeploymentWhitelist :: "commitStateDB \<Rightarrow> bytes list \<Rightarrow> commitStateDB" where
  "DeleteContractDeploymentWhitelist s addrs =
     s\<lparr>stores := (stores s)\<lparr>ev_whitelist := foldl (\<lambda>m a. kv_del a m) (ev_whitelist (stores s)) addrs\<rparr>\<rparr>"

definition GetContractDeploymentWhitelist :: "commitStateDB \<Rightarrow> bytes list" where
  "GetContractDeploymentWhitelist s = map fst (kv_list (ev_whitelist (stores s)))"

definition IsDeployerInWhitelist :: "commitStateDB \<Rightarrow> bytes \<Rightarrow> bool" where
  "IsDeployerInWhitelist s deployer \<longleftrightarrow> kv_get (ev_whitelist (stores s)) deployer \<noteq> None"

definition SetContractBlockedList :: "commitStateDB \<Rightarrow> bytes list \<Rightarrow> commitStateDB" where
  "SetContractBlockedList s addrs =
     s\<lparr>stores := (stores s)\<lparr>ev_blocked := foldl (\<lambda>m a. kv_set a () m) (ev_blocked (stores s)) addrs\<rparr>\<rparr>"

definition DeleteContractBlockedList :: "commitStateDB \<Rightarrow> bytes list \<Rightarrow> commitStateDB" where
  "DeleteContractBlockedList s addrs =
     s\<lparr>stores := (stores s)\<lparr>ev_blocked := foldl (\<lambda>m a. kv_del a m) (ev_blocked (stores s)) addrs\<rparr>\<rparr>"

definition GetContractBlockedList :: "commitStateDB \<Rightarrow> bytes list" where
  "GetContractBlockedList s = map fst (kv_list (ev_blocked (stores s)))"

subsection \<open>Committing the storage of one object\<close>

definition origin_ok :: "evm_stores \<Rightarrow> stateObject \<Rightarrow> bool" where
  "origin_ok st so \<longleftrightarrow> (\<forall>k i. keyToOriginStorageIndex so k = Some i \<longrightarrow>
     i < length (originStorage so) \<and> Key (originStorage so ! i) = k \<and>
     Value (originStorage so ! i) = stateAt st (so_address so) k)"

text \<open>Stores that differ in the storage of one account.\<close>

definition same_but_storage :: "address \<Rightarrow> evm_stores \<Rightarrow> evm_stores \<Rightarrow> bool" where
  "same_but_storage a st st' \<longleftrightarrow> st' = st\<lparr>ev_storage := ev_storage st'\<rparr> \<and>
     (\<forall>b k. b \<noteq> a \<longrightarrow> stateAt st' b k = stateAt st b k)"

lemma same_but_storage_refl [simp]: "same_but_storage a st st"
  by (simp add: same_but_storage_def)

lemma same_but_storage_trans:
  "same_but_storage a st st' \<Longrightarrow> same_but_storage a st' st'' \<Longrightarrow> same_but_storage a st st''"
  unfolding same_but_storage_def by (cases st; cases st'; cases st'') simp

definition cache_written :: "stateObject \<Rightarrow> stateObject \<Rightarrow> bool" where
  "cache_written so so' \<longleftrightarrow> so' = so\<lparr>originStorage := originStorage so',
     keyToOriginStorageIndex := keyToOriginStorageIndex so', keyToDirtyStorageIndex := keyToDirtyStorageIndex so'\<rparr>"

lemma cache_written_trans: "cache_written a b \<Longrightarrow> cache_written b c \<Longrightarrow> cache_written a c"
  unfolding cache_written_def by (cases a; cases b; cases c) simp

lemma cache_writtenD:
  assumes "cache_written so so'"
  shows "so_code so' = so_code so" and "dirtyStorage so' = dirtyStorage so" and "so_account so' = so_account so"
    and "so_address so' = so_address so" and "suicided so' = suicided so" and "deleted so' = deleted so"
    and "dirtyCode so' = dirtyCode so"
  using assms unfolding cache_written_def by (cases so; cases so'; simp)+

lemma stateAt_set [simp]:
  "stateAt (st\<lparr>ev_storage := kv_set (a, k) v m\<rparr>) b l = (if b = a \<and> l = k then v else stateAt (st\<lparr>ev_storage := m\<rparr>) b l)"
  "stateAt (st\<lparr>ev_storage := kv_del (a, k) m\<rparr>) b l = (if b = a \<and> l = k then 0 else stateAt (st\<lparr>ev_storage := m\<rparr>) b l)"
  by (auto simp: stateAt_def)

lemma stateAt_other [simp]:
  "stateAt (st\<lparr>ev_accounts := x\<rparr>) = stateAt st" "stateAt (st\<lparr>ev_codes := y\<rparr>) = stateAt st"
  by (simp_all add: stateAt_def fun_eq_iff)

lemma commitStateStep_spec:
  assumes ok: "origin_ok st so" and k: "Key d \<in> loadedKeys so"
  shows "\<exists>so' st'. commitStateStep (so, st) d = Inr (so', st') \<and> origin_ok st' so' \<and> cache_written so so' \<and>
     same_but_storage (so_address so) st st' \<and>
     stateAt st' (so_address so) = (stateAt st (so_address so))(Key d := Value d) \<and>
     keyToDirtyStorageIndex so' = (keyToDirtyStorageIndex so)(Key d := None) \<and>
     loadedKeys so - {Key d} \<subseteq> loadedKeys so'"
proof -
  from k obtain i where i: "keyToOriginStorageIndex so (Key d) = Some i" by auto
  with ok have o: "i < length (originStorage so)" "Key (originStorage so ! i) = Key d"
    "Value (originStorage so ! i) = stateAt st (so_address so) (Key d)" by (auto simp: origin_ok_def)
  let ?so = "so\<lparr>keyToDirtyStorageIndex := (keyToDirtyStorageIndex so)(Key d := None)\<rparr>"
  consider "Value d = 0" | "Value d \<noteq> 0" "Value d = Value (originStorage so ! i)"
    | "Value d \<noteq> 0" "Value d \<noteq> Value (originStorage so ! i)" by blast
  then show ?thesis
  proof cases
    case 1
    then show ?thesis using i ok
      by (auto simp: commitStateStep_def Let_def origin_ok_def cache_written_def same_but_storage_def fun_eq_iff)
  next
    case 2
    then show ?thesis using i ok o
      by (auto simp: commitStateStep_def Let_def origin_ok_def cache_written_def fun_eq_iff)
  next
    case 3
    have "\<And>l j. keyToOriginStorageIndex so l = Some j \<Longrightarrow> l \<noteq> Key d \<Longrightarrow> j \<noteq> i"
      using ok o(2) by (auto simp: origin_ok_def)
    with 3 show ?thesis using i ok o
      by (auto simp: commitStateStep_def Let_def origin_ok_def cache_written_def same_but_storage_def fun_eq_iff
          nth_list_update)
  qed
qed

lemma commitState_loop:
  assumes "origin_ok st so" and "set (map Key ds) \<subseteq> loadedKeys so" and "distinct (map Key ds)"
  shows "\<exists>so' st'. foldE commitStateStep (so, st) ds = Inr (so', st') \<and> origin_ok st' so' \<and> cache_written so so' \<and>
     same_but_storage (so_address so) st st' \<and>
     stateAt st' (so_address so) = (\<lambda>k. case map_of (map (\<lambda>d. (Key d, Value d)) ds) k of
        None \<Rightarrow> stateAt st (so_address so) k | Some v \<Rightarrow> v) \<and>
     keyToDirtyStorageIndex so' = (\<lambda>k. if k \<in> set (map Key ds) then None else keyToDirtyStorageIndex so k)"
  using assms
proof (induction ds arbitrary: so st)
  case Nil
  then show ?case by (simp add: cache_written_def)
next
  case (Cons d ds)
  from commitStateStep_spec [of st so d] Cons.prems obtain so1 st1 where
    1: "commitStateStep (so, st) d = Inr (so1, st1)" "origin_ok st1 so1" "cache_written so so1"
      "same_but_storage (so_address so) st st1"
      "stateAt st1 (so_address so) = (stateAt st (so_address so))(Key d := Value d)"
      "keyToDirtyStorageIndex so1 = (keyToDirtyStorageIndex so)(Key d := None)"
      "loadedKeys so - {Key d} \<subseteq> loadedKeys so1" by auto
  have a: "so_address so1 = so_address so" using cache_writtenD [OF 1(3)] by simp
  have "set (map Key ds) \<subseteq> loadedKeys so - {Key d}"
    using Cons.prems(2,3) by (intro subset_Diff_insert [THEN iffD2]) simp
  then have "set (map Key ds) \<subseteq> loadedKeys so1" using 1(7) by (rule subset_trans)
  from Cons.IH [OF 1(2) this] Cons.prems(3) obtain so2 st2 where
    2: "foldE commitStateStep (so1, st1) ds = Inr (so2, st2)" "origin_ok st2 so2" "cache_written so1 so2"
      "same_but_storage (so_address so) st1 st2"
      "stateAt st2 (so_address so) = (\<lambda>k. case map_of (map (\<lambda>d. (Key d, Value d)) ds) k of
        None \<Rightarrow> stateAt st1 (so_address so) k | Some v \<Rightarrow> v)"
      "keyToDirtyStorageIndex so2 = (\<lambda>k. if k \<in> set (map Key ds) then None else keyToDirtyStorageIndex so1 k)"
    unfolding a by auto
  have none: "map_of (map (\<lambda>d. (Key d, Value d)) ds) (Key d) = None"
    using Cons.prems(3) by (auto simp: map_of_eq_None_iff)
  have "stateAt st2 (so_address so) = (\<lambda>k. case map_of (map (\<lambda>d. (Key d, Value d)) (d # ds)) k of
        None \<Rightarrow> stateAt st (so_address so) k | Some v \<Rightarrow> v)"
    using 1(5) 2(5) none by (auto simp: fun_eq_iff split: option.splits)
  with 1 2 cache_written_trans [OF 1(3) 2(3)] same_but_storage_trans [OF 1(4) 2(4)] show ?case
    by (auto simp: fun_eq_iff)
qed

lemma commitState_spec:
  assumes wf: "object_wf E st so"
  shows "\<exists>so' st'. commitState so st = Inr (so', st') \<and> object_wf E st' so' \<and> same_but_storage (so_address so) st st' \<and>
     stateAt st' (so_address so) = soStorage st so \<and> keyToDirtyStorageIndex so' = Map.empty \<and>
     so_account so' = so_account so \<and> so_code so' = so_code so \<and> so_address so' = so_address so \<and>
     suicided so' = suicided so \<and> deleted so' = deleted so \<and> dirtyCode so' = dirtyCode so"
proof -
  have ix: "indexed (map Key (dirtyStorage so)) (keyToDirtyStorageIndex so)"
    and or: "origin_ok st so" and dom: "dom (keyToDirtyStorageIndex so) \<subseteq> loadedKeys so"
    and acc: "account_wf E (so_address so) (so_account so)" "CodeHash (so_account so) \<noteq> []"
    using wf by (simp_all add: object_wf_def origin_ok_def)
  have keys: "set (map Key (dirtyStorage so)) = dom (keyToDirtyStorageIndex so)"
    by (rule set_eqI) (simp only: domIff indexed_None [OF ix] not_not)
  from commitState_loop [OF or, of "dirtyStorage so"] keys dom indexed_distinct [OF ix] obtain so1 st1 where
    1: "foldE commitStateStep (so, st) (dirtyStorage so) = Inr (so1, st1)" "origin_ok st1 so1" "cache_written so so1"
      "same_but_storage (so_address so) st st1"
      "stateAt st1 (so_address so) = (\<lambda>k. case map_of (map (\<lambda>d. (Key d, Value d)) (dirtyStorage so)) k of
        None \<Rightarrow> stateAt st (so_address so) k | Some v \<Rightarrow> v)"
      "keyToDirtyStorageIndex so1 = (\<lambda>k. if k \<in> set (map Key (dirtyStorage so)) then None else keyToDirtyStorageIndex so k)"
    by auto
  note c = cache_writtenD [OF 1(3)]
  have empty: "keyToDirtyStorageIndex so1 = Map.empty" using 1(6) keys by auto
  have lookup: "map_of (map (\<lambda>d. (Key d, Value d)) (dirtyStorage so)) k =
      map_option (\<lambda>i. Value (dirtyStorage so ! i)) (keyToDirtyStorageIndex so k)" for k
  proof -
    have "indexed (map fst (map (\<lambda>d. (Key d, Value d)) (dirtyStorage so))) (keyToDirtyStorageIndex so)"
      using ix by (simp add: comp_def)
    from indexed_map_of [OF this, of k] indexedD [OF ix, of k] show ?thesis
      by (cases "keyToDirtyStorageIndex so k") auto
  qed
  have st: "stateAt st1 (so_address so) = soStorage st so"
    using 1(5) by (auto simp: fun_eq_iff lookup soStorage_def split: option.splits)
  let ?so = "so1\<lparr>dirtyStorage := []\<rparr>"
  have "object_wf E st1 ?so"
    using 1(2) acc empty c by (simp add: object_wf_def origin_ok_def)
  with 1(1,4) st empty c show ?thesis by (simp add: commitState_def)
qed

subsection \<open>What a fresh database would read\<close>

definition stored_view :: "evm_env \<Rightarrow> evm_stores \<Rightarrow> address \<Rightarrow> obj_view option" where
  "stored_view E st a = map_option (soView E st) (storedObject E st a)"

lemma view_fresh: "view E (CreateEmptyCommitStateDB st n) a = stored_view E st a"
  by (simp add: view_def fetch_def stored_view_def CreateEmptyCommitStateDB_def)

text \<open>Code is addressed by its hash in a store of its own; views are compared without it.\<close>

definition no_code :: "obj_view \<Rightarrow> obj_view" where
  "no_code v = v\<lparr>v_code := []\<rparr>"

abbreviation sview :: "evm_env \<Rightarrow> commitStateDB \<Rightarrow> address \<Rightarrow> obj_view option" where
  "sview E s a \<equiv> map_option no_code (view E s a)"

abbreviation pview :: "evm_env \<Rightarrow> commitStateDB \<Rightarrow> address \<Rightarrow> obj_view option" where
  "pview E s a \<equiv> map_option no_code (stored_view E (stores s) a)"

definition plain :: "evm_stores \<Rightarrow> address \<Rightarrow> EthAccount \<Rightarrow> bool \<Rightarrow> (hash \<Rightarrow> hash) \<Rightarrow> obj_view" where
  "plain st a acc b f = \<lparr>v_account = acc\<lparr>Coins := []\<rparr>, v_amount = (\<lambda>d. AmountOf d (Coins acc)), v_code = [],
     v_storage = f, v_suicided = b\<rparr>"

lemma no_code_soView: "no_code (soView E st so) = plain st (so_address so) (so_account so) (suicided so) (soStorage st so)"
  by (simp add: no_code_def soView_def plain_def)

lemma pview_account:
  assumes E: "evm_env_ok E" and "kv_get (ev_accounts st) (AddressBytes E a) = Some (EthAcc acc)"
    and "account_wf E a acc" and "CodeHash acc \<noteq> []"
  shows "map_option no_code (stored_view E st a) = Some (plain st a acc False (stateAt st a))"
proof -
  have a: "so_address (objectOf E acc) = a" using objectOf_wf(2) [OF E assms(3)] .
  have "soStorage st (objectOf E acc) = stateAt st a"
    using a by (simp add: soStorage_def fun_eq_iff) (simp add: objectOf_def Let_def)
  with assms(2,4) show ?thesis
    by (simp add: stored_view_def storedObject_def no_code_soView plain_def) (simp add: objectOf_def Let_def)
qed

lemma AddressBytes_inj: "evm_env_ok E \<Longrightarrow> AddressBytes E a = AddressBytes E b \<longleftrightarrow> a = b"
  by (metis evm_env_okD(2))

lemma stored_view_cong:
  assumes "kv_get (ev_accounts st') (AddressBytes E b) = kv_get (ev_accounts st) (AddressBytes E b)"
    and "\<And>k. stateAt st' b k = stateAt st b k" and "accounts_wf E st" and "evm_env_ok E"
  shows "map_option no_code (stored_view E st' b) = map_option no_code (stored_view E st b)"
proof -
  have "no_code (soView E st' (objectOf E acc)) = no_code (soView E st (objectOf E acc))"
    if "kv_get (ev_accounts st) (AddressBytes E b) = Some (EthAcc acc)" for acc
  proof -
    have "so_address (objectOf E acc) = b"
      using that assms(3,4) objectOf_wf(2) by (auto simp: accounts_wf_def)
    then have "soStorage st' (objectOf E acc) = soStorage st (objectOf E acc)"
      using assms(2) by (auto simp: soStorage_def fun_eq_iff split: option.splits)
    then show ?thesis by (simp add: no_code_soView plain_def)
  qed
  with assms(1) show ?thesis by (auto simp: stored_view_def storedObject_def split: option.splits account.splits)
qed

subsection \<open>Writing one object\<close>

text \<open>Stores that agree outside one account.\<close>

definition same_but_account :: "evm_env \<Rightarrow> address \<Rightarrow> evm_stores \<Rightarrow> evm_stores \<Rightarrow> bool" where
  "same_but_account E a st st' \<longleftrightarrow>
     (\<forall>b. b \<noteq> a \<longrightarrow> kv_get (ev_accounts st') (AddressBytes E b) = kv_get (ev_accounts st) (AddressBytes E b) \<and>
        (\<forall>k. stateAt st' b k = stateAt st b k))"

definition object_written :: "evm_env \<Rightarrow> address \<Rightarrow> stateObject \<Rightarrow> commitStateDB \<Rightarrow> commitStateDB \<Rightarrow> bool" where
  "object_written E a so s s' \<longleftrightarrow>
     csdb_wf E s' \<and> map fst (stateObjects s') = map fst (stateObjects s) \<and>
     map_of (stateObjects s') = (map_of (stateObjects s))(a \<mapsto> so) \<and>
     addressToObjectIndex s' = addressToObjectIndex s \<and> jrnl s' = jrnl s \<and>
     stateObjectsDirty s' = stateObjectsDirty s \<and>
     (\<forall>b. b \<noteq> a \<longrightarrow> sview E s' b = sview E s b \<and> pview E s' b = pview E s b)"

lemma soStorage_cong:
  "(\<And>k. stateAt st' (so_address so) k = stateAt st (so_address so) k) \<Longrightarrow> soStorage st' so = soStorage st so"
  by (auto simp: soStorage_def fun_eq_iff split: option.splits)

lemma object_wf_cong:
  "(\<And>k. stateAt st' (so_address so) k = stateAt st (so_address so) k) \<Longrightarrow> object_wf E st' so = object_wf E st so"
  by (simp add: object_wf_def)

lemma write_object:
  assumes E: "evm_env_ok E" and wf: "csdb_wf E s" and idx: "addressToObjectIndex s a = Some i"
    and st: "same_but_account E a (stores s) st'" and acc: "accounts_wf E st'" and lv: "live_wf E st' (a, so)"
    and s': "s' = s\<lparr>stores := st', stateObjects := (stateObjects s)[i := (a, so)]\<rparr>"
  shows "object_written E a so s s'"
proof -
  note ix = csdb_wfD(1) [OF wf]
  note upd = map_of_update [OF ix idx, of so]
  have other: "live_wf E st' p" if "p \<in> set (stateObjects s)" "fst p \<noteq> a" for p
  proof -
    have w: "live_wf E (stores s) p" using wf that(1) by (simp add: csdb_wf_def)
    moreover have "object_wf E st' (snd p) = object_wf E (stores s) (snd p)"
      using w that(2) st by (intro object_wf_cong) (simp add: live_wf_def same_but_account_def)
    ultimately show ?thesis using that(2) st by (simp add: live_wf_def same_but_account_def)
  qed
  have "live_wf E st' p" if "p \<in> set ((stateObjects s)[i := (a, so)])" for p
  proof (cases "fst p = a")
    case True
    have "distinct (map fst ((stateObjects s)[i := (a, so)]))" using upd(2) indexed_distinct [OF ix] by simp
    then have "map_of ((stateObjects s)[i := (a, so)]) (fst p) = Some (snd p)" using that by simp
    with True upd(1) have "p = (a, so)" by (cases p) simp
    with lv show ?thesis by simp
  next
    case False
    with that have "p \<in> set (stateObjects s)" using set_update_subset_insert by fastforce
    with False show ?thesis by (rule other [rotated])
  qed
  then have wf': "csdb_wf E s'" using wf acc ix upd(2) by (simp add: s' csdb_wf_def)
  have "sview E s' b = sview E s b \<and> pview E s' b = pview E s b" if b: "b \<noteq> a" for b
  proof -
    have pv: "map_option no_code (stored_view E st' b) = map_option no_code (stored_view E (stores s) b)"
      using b st csdb_wfD(3) [OF wf] E by (intro stored_view_cong) (auto simp: same_but_account_def)
    have "sview E s' b = sview E s b"
    proof (cases "map_of (stateObjects s) b")
      case None
      with b pv show ?thesis by (simp add: s' view_def fetch_def upd(1) stored_view_def)
    next
      case (Some so')
      have "so_address so' = b" using csdb_wfD(2) [OF wf Some] by (simp add: live_wf_def)
      then have "soStorage st' so' = soStorage (stores s) so'"
        using b st by (intro soStorage_cong) (simp add: same_but_account_def)
      with Some b show ?thesis
        by (auto simp: s' view_def fetch_def upd(1) no_code_soView plain_def)
    qed
    with pv show ?thesis by (simp add: s')
  qed
  with wf' upd show ?thesis by (simp add: object_written_def s')
qed

lemma updateStateObject_spec:
  assumes E: "evm_env_ok E" and wf: "object_wf E st so" and up: "updateStateObject E s so = Inr (so', s')"
  shows "\<exists>cs. so' = so\<lparr>so_account := (so_account so)\<lparr>Coins := cs\<rparr>\<rparr> \<and> (\<forall>d. AmountOf d cs = AmountOf d (Coins (so_account so))) \<and>
     s' = s\<lparr>stores := (stores s)\<lparr>ev_accounts := kv_set (Address (so_account so)) (EthAcc (so_account so')) (ev_accounts (stores s))\<rparr>\<rparr>"
proof -
  let ?c = "Coins (so_account so)" and ?n = "\<lparr>Denom = bondDenom E, Amount = soBalance E so\<rparr>"
  let ?cs = "if AmountOf (bondDenom E) ?c = 0 then CoinsAdd E ?c [?n] else ?c"
  have bal: "AmountOf (bondDenom E) ?c = soBalance E so" by (simp add: soBalance_def Balance_def)
  have "\<forall>d. AmountOf d ?cs = AmountOf d ?c" using bal by (auto simp: evm_env_okD(1) [OF E])
  moreover have "so' = so\<lparr>so_account := (so_account so)\<lparr>Coins := ?cs\<rparr>\<rparr> \<and>
     s' = s\<lparr>stores := (stores s)\<lparr>ev_accounts := kv_set (Address (so_account so)) (EthAcc (so_account so')) (ev_accounts (stores s))\<rparr>\<rparr>"
    using up bal by (auto simp: updateStateObject_def Let_def split: if_splits)
  ultimately show ?thesis by blast
qed

lemma object_wf_account:
  "object_wf E st so \<Longrightarrow> account_wf E (so_address so) acc \<Longrightarrow> CodeHash acc \<noteq> [] \<Longrightarrow>
     object_wf E st (so\<lparr>so_account := acc\<rparr>)"
  unfolding object_wf_def by (simp (no_asm_use)) blast

lemma accounts_wf_set:
  "evm_env_ok E \<Longrightarrow> accounts_wf E st \<Longrightarrow> account_wf E a acc \<Longrightarrow>
     accounts_wf E (st\<lparr>ev_accounts := kv_set (AddressBytes E a) (EthAcc acc) (ev_accounts st)\<rparr>)"
  by (auto simp: accounts_wf_def AddressBytes_inj)

lemma accounts_wf_del:
  "accounts_wf E st \<Longrightarrow> accounts_wf E (st\<lparr>ev_accounts := kv_del k (ev_accounts st)\<rparr>)"
  by (auto simp: accounts_wf_def)

lemma object_written_view:
  assumes "object_written E a so s s'"
  shows "sview E s' a = (if deleted so then None else Some (no_code (soView E (stores s') so)))"
  using assms by (simp add: object_written_def view_def fetch_def)

text \<open>Writing an object: the account and the storage of the object become what the stores hold.\<close>

lemma write_update:
  assumes E: "evm_env_ok E" and wf: "csdb_wf E s" and idx: "addressToObjectIndex s a = Some i"
    and st: "same_but_storage a (stores s) st'" and so: "object_wf E st' so" "so_address so = a"
      "\<not> deleted so" "\<not> suicided so" "soStorage st' so = stateAt st' a"
    and codes: "st'' = st'\<lparr>ev_codes := cds\<rparr>"
    and up: "updateStateObject E (s\<lparr>stores := st''\<rparr>) so = Inr p"
  shows "\<exists>so'. object_written E a so' s (writeObject i p) \<and>
     sview E (writeObject i p) a = Some (no_code (soView E st' so)) \<and>
     pview E (writeObject i p) a = Some (no_code (soView E st' so)) \<and> soEmpty E so' = soEmpty E so \<and> \<not> deleted so'"
proof -
  obtain so' s1 where p: "p = (so', s1)" by (cases p)
  have accwf: "account_wf E a (so_account so)" and addr: "Address (so_account so) = AddressBytes E a"
    and ch: "CodeHash (so_account so) \<noteq> []"
    using so(1,2) by (auto simp: object_wf_def account_wf_def)
  from updateStateObject_spec [OF E so(1) up [unfolded p]] obtain cs where
    so': "so' = so\<lparr>so_account := (so_account so)\<lparr>Coins := cs\<rparr>\<rparr>" and cs: "\<forall>d. AmountOf d cs = AmountOf d (Coins (so_account so))"
    and s1: "s1 = s\<lparr>stores := st''\<lparr>ev_accounts := kv_set (AddressBytes E a) (EthAcc (so_account so')) (ev_accounts st'')\<rparr>\<rparr>"
    by (auto simp: addr)
  let ?st = "st''\<lparr>ev_accounts := kv_set (AddressBytes E a) (EthAcc (so_account so')) (ev_accounts st'')\<rparr>"
  have at: "stateAt ?st b k = stateAt st' b k" "stateAt st'' b k = stateAt st' b k" for b k by (simp_all add: codes)
  have acc': "account_wf E a (so_account so')" using accwf cs by (simp add: so' account_wf_def)
  have accs: "ev_accounts st'' = ev_accounts (stores s)" using st codes by (cases "stores s"; cases st') (simp add: same_but_storage_def)
  have sba: "same_but_account E a (stores s) ?st"
    using st accs by (auto simp: same_but_account_def same_but_storage_def at AddressBytes_inj [OF E])
  have "accounts_wf E st''" using csdb_wfD(3) [OF wf] accs by (simp add: accounts_wf_def)
  from accounts_wf_set [OF E this acc'] have awf: "accounts_wf E ?st" .
  have "object_wf E st' so'"
    using object_wf_account [OF so(1), of "so_account so'"] acc' so(2) ch by (simp add: so')
  with object_wf_cong [of ?st so' st' E] at have "object_wf E ?st so'" by blast
  then have lv: "live_wf E ?st (a, so')" using so by (simp add: live_wf_def so')
  have i: "i < length (stateObjects s)" "fst (stateObjects s ! i) = a"
    using indexedD [OF csdb_wfD(1) [OF wf] idx] by auto
  have wr: "writeObject i p = s\<lparr>stores := ?st, stateObjects := (stateObjects s)[i := (a, so')]\<rparr>"
    using i by (simp add: writeObject_def p s1)
  note ow = write_object [OF E wf idx sba awf lv wr]
  have stor: "soStorage ?st so' = soStorage st' so"
    by (auto simp: so' soStorage_def at fun_eq_iff split: option.splits)
  have eq: "no_code (soView E ?st so') = no_code (soView E st' so)"
    unfolding no_code_soView stor using cs by (simp add: plain_def so')
  have "sview E (writeObject i p) a = Some (no_code (soView E st' so))"
    using object_written_view [OF ow] so(3) eq by (simp add: wr so')
  moreover have "pview E (writeObject i p) a = Some (no_code (soView E st' so))"
  proof -
    have "map_option no_code (stored_view E ?st a) = Some (plain ?st a (so_account so') False (stateAt ?st a))"
      using acc' ch by (intro pview_account [OF E]) (simp_all add: so')
    moreover have "stateAt ?st a = soStorage st' so" using so(5) by (simp add: fun_eq_iff at)
    ultimately show ?thesis using so(2,4) cs by (simp add: wr no_code_soView plain_def so')
  qed
  moreover have "soEmpty E so' = soEmpty E so" using cs by (simp add: so' soEmpty_def Balance_def)
  ultimately show ?thesis using ow so(3) by (intro exI [of _ so']) (simp add: so')
qed

text \<open>Deleting an object: neither the database nor the stores know the account any more.\<close>

lemma write_delete:
  assumes E: "evm_env_ok E" and wf: "csdb_wf E s" and idx: "addressToObjectIndex s a = Some i"
    and so: "map_of (stateObjects s) a = Some so" "suicided so \<or> soEmpty E so"
  shows "object_written E a (so\<lparr>deleted := True\<rparr>) s (writeObject i (deleteStateObject s so)) \<and>
     sview E (writeObject i (deleteStateObject s so)) a = None \<and>
     pview E (writeObject i (deleteStateObject s so)) a = None"
proof -
  have lv: "live_wf E (stores s) (a, so)" using csdb_wfD(2) [OF wf so(1)] .
  then have addr: "Address (so_account so) = AddressBytes E a" by (auto simp: live_wf_def object_wf_def account_wf_def)
  let ?st = "(stores s)\<lparr>ev_accounts := kv_del (AddressBytes E a) (ev_accounts (stores s))\<rparr>"
  let ?so = "so\<lparr>deleted := True\<rparr>"
  have at: "stateAt ?st b k = stateAt (stores s) b k" for b k by simp
  have sba: "same_but_account E a (stores s) ?st" by (auto simp: same_but_account_def at AddressBytes_inj [OF E])
  have "object_wf E ?st ?so" using lv by (auto simp: live_wf_def object_wf_def)
  then have lv': "live_wf E ?st (a, ?so)" using lv so(2) by (auto simp: live_wf_def soEmpty_def)
  have i: "i < length (stateObjects s)" "fst (stateObjects s ! i) = a"
    using indexedD [OF csdb_wfD(1) [OF wf] idx] by auto
  have wr: "writeObject i (deleteStateObject s so) = s\<lparr>stores := ?st, stateObjects := (stateObjects s)[i := (a, ?so)]\<rparr>"
    using i by (simp add: writeObject_def deleteStateObject_def addr)
  note ow = write_object [OF E wf idx sba accounts_wf_del [OF csdb_wfD(3) [OF wf]] lv' wr]
  from object_written_view [OF ow] have "sview E (writeObject i (deleteStateObject s so)) a = None" by simp
  moreover have "pview E (writeObject i (deleteStateObject s so)) a = None"
    by (simp add: wr stored_view_def storedObject_def)
  ultimately show ?thesis using ow by blast
qed

subsection \<open>Finalising\<close>

definition emptyView :: "evm_env \<Rightarrow> obj_view \<Rightarrow> bool" where
  "emptyView E v \<longleftrightarrow> Sequence (v_account v) = 0 \<and> v_amount v (bondDenom E) = 0 \<and>
     CodeHash (v_account v) = emptyCodeHash E"

lemma emptyView_eq: "emptyView E (no_code (soView E st so)) = soEmpty E so"
  by (simp add: emptyView_def soEmpty_def no_code_def soView_def Balance_def)

text \<open>What is left of an account: nothing of a dirty one that is suicided or empty.\<close>

definition final_view :: "evm_env \<Rightarrow> bool \<Rightarrow> obj_view option \<Rightarrow> obj_view option" where
  "final_view E d v =
     (case v of None \<Rightarrow> None
      | Some x \<Rightarrow> if d \<and> (v_suicided x \<or> emptyView E x) then None else Some x)"

lemma final_view_False [simp]: "final_view E False v = v"
  by (simp add: final_view_def split: option.splits)

definition kept :: "evm_env \<Rightarrow> commitStateDB \<Rightarrow> address \<Rightarrow> bool" where
  "kept E s a \<longleftrightarrow> (\<forall>so. map_of (stateObjects s) a = Some so \<longrightarrow> \<not> deleted so \<longrightarrow> \<not> soEmpty E so)"

definition finalised :: "evm_env \<Rightarrow> address set \<Rightarrow> commitStateDB \<Rightarrow> commitStateDB \<Rightarrow> bool" where
  "finalised E D s s' \<longleftrightarrow>
     csdb_wf E s' \<and> jrnl s' = jrnl s \<and> addressToObjectIndex s' = addressToObjectIndex s \<and>
     stateObjectsDirty s' = stateObjectsDirty s \<union> D \<and>
     (\<forall>b. sview E s' b = final_view E (b \<in> D) (sview E s b) \<and>
        pview E s' b = (if b \<in> D then sview E s' b else pview E s b) \<and>
        (b \<in> D \<longrightarrow> kept E s' b) \<and> (b \<notin> D \<longrightarrow> map_of (stateObjects s') b = map_of (stateObjects s) b))"

lemma finalisedD:
  assumes "finalised E D s s'"
  shows "csdb_wf E s'" and "jrnl s' = jrnl s" and "addressToObjectIndex s' = addressToObjectIndex s"
    and "stateObjectsDirty s' = stateObjectsDirty s \<union> D"
    and "sview E s' b = final_view E (b \<in> D) (sview E s b)"
    and "b \<in> D \<Longrightarrow> pview E s' b = sview E s' b" and "b \<notin> D \<Longrightarrow> pview E s' b = pview E s b"
    and "b \<in> D \<Longrightarrow> kept E s' b" and "b \<notin> D \<Longrightarrow> map_of (stateObjects s') b = map_of (stateObjects s) b"
  using assms unfolding finalised_def by simp_all

lemma finalised_trans:
  assumes A: "finalised E A s t" and B: "finalised E B t u" and dis: "A \<inter> B = {}"
  shows "finalised E (A \<union> B) s u"
proof -
  note a = finalisedD [OF A] and b = finalisedD [OF B]
  have "sview E u c = final_view E (c \<in> A \<union> B) (sview E s c) \<and>
      pview E u c = (if c \<in> A \<union> B then sview E u c else pview E s c) \<and>
      (c \<in> A \<union> B \<longrightarrow> kept E u c) \<and> (c \<notin> A \<union> B \<longrightarrow> map_of (stateObjects u) c = map_of (stateObjects s) c)" for c
  proof -
    consider "c \<in> A" "c \<notin> B" | "c \<notin> A" "c \<in> B" | "c \<notin> A" "c \<notin> B" using dis by blast
    then show ?thesis
    proof cases
      case 1
      then show ?thesis using a(5,6,8) [of c] b(5,7,9) [of c] by (simp add: kept_def)
    next
      case 2
      then show ?thesis using a(5) [of c] b(5,6,8) [of c] by simp
    next
      case 3
      then show ?thesis using a(5,7,9) [of c] b(5,7,9) [of c] by simp
    qed
  qed
  moreover have "stateObjectsDirty u = stateObjectsDirty s \<union> (A \<union> B)" using a(4) b(4) by blast
  ultimately show ?thesis using a(2,3) b(1-3) unfolding finalised_def by simp
qed

lemma csdb_wf_dirty [simp]: "csdb_wf E (s\<lparr>stateObjectsDirty := d\<rparr>) = csdb_wf E s"
  by (simp add: csdb_wf_def)

lemma view_dirty [simp]: "view E (s\<lparr>stateObjectsDirty := d\<rparr>) = view E s"
  using fetch_cong [of "s\<lparr>stateObjectsDirty := d\<rparr>" s E] by (simp add: view_def fun_eq_iff)

lemma finaliseStep_spec:
  assumes E: "evm_env_ok E" and wf: "csdb_wf E s" and idx: "addressToObjectIndex s a = Some i"
    and step: "finaliseStep E True s (a, n) = Inr s'"
  shows "finalised E {a} s s'"
proof -
  have i: "i < length (stateObjects s)" "fst (stateObjects s ! i) = a"
    using indexedD [OF csdb_wfD(1) [OF wf] idx] by auto
  define so where "so = snd (stateObjects s ! i)"
  have so: "map_of (stateObjects s) a = Some so"
    using indexed_map_of [OF csdb_wfD(1) [OF wf]] idx by (simp add: so_def)
  note lv = csdb_wfD(2) [OF wf so, unfolded live_wf_def, simplified]
  let ?old = "sview E s a"
  have old: "?old = (if deleted so then None else Some (no_code (soView E (stores s) so)))"
    using so by (simp add: view_def fetch_def)
  show ?thesis
  proof (cases "suicided so \<or> soEmpty E so")
    case True
    let ?u = "writeObject i (deleteStateObject s so)"
    from step idx i True have s': "s' = ?u\<lparr>stateObjectsDirty := insert a (stateObjectsDirty ?u)\<rparr>"
      by (simp add: finaliseStep_def so_def [symmetric] Let_def)
    note w = write_delete [OF E wf idx so True]
    have "final_view E True ?old = None"
      using True emptyView_eq [of E "stores s" so] by (simp add: old final_view_def no_code_def soView_def)
    with w show ?thesis
      by (auto simp: finalised_def object_written_def s' kept_def)
  next
    case False
    with lv have nd: "\<not> deleted so" by auto
    from commitState_spec [of E "stores s" so] lv obtain so1 st1 where
      1: "commitState so (stores s) = Inr (so1, st1)" "object_wf E st1 so1" "same_but_storage a (stores s) st1"
        "stateAt st1 a = soStorage (stores s) so" "keyToDirtyStorageIndex so1 = Map.empty"
        "so_account so1 = so_account so" "so_address so1 = a" "suicided so1 = suicided so" "deleted so1 = deleted so"
      by auto
    from step idx i False 1(1) obtain p where p: "updateStateObject E (s\<lparr>stores := st1\<rparr>) so1 = Inr p"
      and s': "s' = (writeObject i p)\<lparr>stateObjectsDirty := insert a (stateObjectsDirty (writeObject i p))\<rparr>"
      by (auto simp: finaliseStep_def so_def [symmetric] Let_def res_simps)
    have stor: "soStorage st1 so1 = stateAt st1 a" using 1(5,7) by (simp add: soStorage_def fun_eq_iff)
    from write_update [OF E wf idx 1(3,2,7) _ _ stor _ p, of "ev_codes st1"] False nd 1(8,9) obtain so' where
      w: "object_written E a so' s (writeObject i p)"
        "sview E (writeObject i p) a = Some (no_code (soView E st1 so1))"
        "pview E (writeObject i p) a = Some (no_code (soView E st1 so1))" "soEmpty E so' = soEmpty E so1" by auto
    have eq: "no_code (soView E st1 so1) = no_code (soView E (stores s) so)"
      unfolding no_code_soView stor using 1 lv by (simp add: plain_def)
    have "soEmpty E so1 = soEmpty E so" using 1(6) by (simp add: soEmpty_def)
    moreover have "final_view E True ?old = Some (no_code (soView E (stores s) so))"
      using False nd emptyView_eq [of E "stores s" so] by (simp add: old final_view_def no_code_def soView_def)
    ultimately show ?thesis using w eq False
      by (auto simp: finalised_def object_written_def s' kept_def)
  qed
qed

lemma finalise_loop:
  assumes E: "evm_env_ok E" and wf: "csdb_wf E s" and dist: "distinct (map fst ds)"
    and run: "foldE (finaliseStep E True) s ds = Inr s'"
  shows "finalised E {a \<in> set (map fst ds). addressToObjectIndex s a \<noteq> None} s s'"
  using wf dist run
proof (induction ds arbitrary: s)
  case Nil
  then show ?case by (auto simp: finalised_def)
next
  case (Cons d ds)
  obtain a n where d: "d = (a, n)" by (cases d)
  from Cons.prems(3) obtain t where t: "finaliseStep E True s (a, n) = Inr t" "foldE (finaliseStep E True) t ds = Inr s'"
    by (auto simp: d res_simps)
  let ?D = "\<lambda>s ds. {a \<in> set (map fst ds). addressToObjectIndex s a \<noteq> None}"
  have a: "a \<notin> set (map fst ds)" using Cons.prems(2) by (simp add: d)
  show ?case
  proof (cases "addressToObjectIndex s a")
    case None
    with t(1) have "t = s" by (simp add: finaliseStep_def)
    moreover have "?D s (d # ds) = ?D s ds" using None by (auto simp: d)
    ultimately show ?thesis using Cons.IH [OF _ _ t(2)] Cons.prems(1,2) by simp
  next
    case (Some i)
    note 1 = finaliseStep_spec [OF E Cons.prems(1) Some t(1)]
    note t' = finalisedD(1,3) [OF 1]
    have 2: "finalised E (?D t ds) t s'" using Cons.IH [OF t'(1) _ t(2)] Cons.prems(2) by simp
    have D: "?D s (d # ds) = insert a (?D t ds)" "a \<notin> ?D t ds" using Some t'(2) a by (auto simp: d)
    have "{a} \<inter> ?D t ds = {}" using D(2) by blast
    from finalised_trans [OF 1 2 this] D(1) show ?thesis by simp
  qed
qed

end
