(* ===== verification/Evm_Ante.thy ===== *)
theory Evm_Ante
  imports Evm_Msg Evm_Commit
begin

text \<open>
  The checks that run before a transaction is executed (app/ante) and the refund of unused gas that
  runs after it (app/refund).

  A decorator is a function from the context, the transaction and the stores to the values it
  passes to the next one; \<open>Inl\<close> is an error or a panic, on which the SDK discards the writes of the
  whole chain. \<open>'g ante_env\<close> holds what the decorators call of the SDK: gas meters (a value of type
  \<open>'g\<close>), fee deduction and refunds, the decorators of the SDK itself, accounts of other types, and the
  settings and contents of the mempool.
\<close>

record ChainConfig =
  HomesteadBlock :: "int option" \<comment> \<open>\<open>None\<close> is the uninitialised \<open>sdk.Int\<close>\<close>
  DAOForkBlock :: "int option"
  DAOForkSupport :: bool
  EIP150Block :: "int option"
  EIP150Hash :: string
  EIP155Block :: "int option"
  EIP158Block :: "int option"
  ByzantiumBlock :: "int option"
  ConstantinopleBlock :: "int option"
  PetersburgBlock :: "int option"
  IstanbulBlock :: "int option"
  MuirGlacierBlock :: "int option"
  YoloV2Block :: "int option"
  EWASMBlock :: "int option"

type_synonym bloom = "2048 word"

text \<open>The stores of the chain that the EVM module and the ante handler use, with the counter of
  account numbers.\<close>

record app_state =
  as_stores :: evm_stores
  as_accNum :: uint64
  as_config :: "ChainConfig option"
  as_blockHash :: "(bytes, int) kv"
  as_bloom :: "(int, bloom) kv"

abbreviation as_accounts :: "app_state \<Rightarrow> (bytes, account) kv" where
  "as_accounts S \<equiv> ev_accounts (as_stores S)"

definition setAccounts :: "(bytes, account) kv \<Rightarrow> app_state \<Rightarrow> app_state" where
  "setAccounts m S = S\<lparr>as_stores := (as_stores S)\<lparr>ev_accounts := m\<rparr>\<rparr>"

record 'g sdk_ctx =
  IsCheckTx :: bool
  IsReCheckTx :: bool
  BlockHeight :: int
  ctxChainID :: string
  MinGasPrices :: sys_coins
  ctxTxBytes :: bytes
  ProposerAddress :: bytes
  BlockTime :: int
  GasMeter :: 'g

record 'g gas_ops =
  GasLimitOf :: "'g \<Rightarrow> uint64"
  GasConsumed :: "'g \<Rightarrow> uint64"
  ConsumeGas :: "'g \<Rightarrow> uint64 \<Rightarrow> tx_error option \<times> 'g" \<comment> \<open>\<open>Some\<close> is the panic when out of gas\<close>
  SetGasMeter :: "bool \<Rightarrow> int \<Rightarrow> uint64 \<Rightarrow> 'g" \<comment> \<open>by simulation, block height and limit\<close>
  InfiniteGasMeter :: 'g

datatype std_msg = SEthermint MsgEthermint | SOther bytes

datatype sdk_tx = StdTx "std_msg list" | EthTx MsgEthereumTx | OtherTx

record 'g ante_env =
  ae_tx :: tx_env
  ae_gas :: "'g gas_ops"
  IntrinsicGas :: "bytes \<Rightarrow> bool \<Rightarrow> bool \<Rightarrow> bool \<Rightarrow> uint64 option"
  DeductFees :: "(bytes, account) kv \<Rightarrow> account \<Rightarrow> sys_coins \<Rightarrow> (bytes, account) kv option"
  RefundFees :: "(bytes, account) kv \<Rightarrow> acc_address \<Rightarrow> sys_coins \<Rightarrow> (bytes, account) kv option"
  NewCoins :: "sys_coin \<Rightarrow> sys_coins"
  MulInt64 :: "dec \<Rightarrow> int \<Rightarrow> dec"
  OtherAddress :: "bytes \<Rightarrow> acc_address"
  OtherCoins :: "bytes \<Rightarrow> sys_coins"
  OtherSequence :: "bytes \<Rightarrow> uint64"
  OtherAccountNumber :: "bytes \<Rightarrow> uint64"
  OtherSetSequence :: "bytes \<Rightarrow> uint64 \<Rightarrow> bytes option"
  ValidateBasicDecorator :: "bool \<Rightarrow> tx_error + unit \<Rightarrow> tx_error + unit" \<comment> \<open>by recheck mode and \<open>ValidateBasic\<close>\<close>
  stdSetUpContext :: "'g sdk_ctx \<Rightarrow> sdk_tx \<Rightarrow> bool \<Rightarrow> app_state \<Rightarrow> tx_error + ('g sdk_ctx \<times> app_state)"
  stdDecorators :: "'g sdk_ctx \<Rightarrow> sdk_tx \<Rightarrow> bool \<Rightarrow> app_state \<Rightarrow> tx_error + ('g sdk_ctx \<times> app_state)"
  MempoolEnableRecheck :: bool
  MempoolEnableSort :: bool
  GetUserPendingTxsCnt :: "address \<Rightarrow> int"

abbreviation ae_evm :: "'g ante_env \<Rightarrow> evm_env" where
  "ae_evm A \<equiv> te_evm (ae_tx A)"

subsection \<open>Accounts of any type\<close>

definition accAddress :: "'g ante_env \<Rightarrow> account \<Rightarrow> acc_address" where
  "accAddress A acc = (case acc of EthAcc a \<Rightarrow> Address a | OtherAcc b \<Rightarrow> OtherAddress A b)"

definition accCoins :: "'g ante_env \<Rightarrow> account \<Rightarrow> sys_coins" where
  "accCoins A acc = (case acc of EthAcc a \<Rightarrow> Coins a | OtherAcc b \<Rightarrow> OtherCoins A b)"

definition accSequence :: "'g ante_env \<Rightarrow> account \<Rightarrow> uint64" where
  "accSequence A acc = (case acc of EthAcc a \<Rightarrow> Sequence a | OtherAcc b \<Rightarrow> OtherSequence A b)"

definition accNumber :: "'g ante_env \<Rightarrow> account \<Rightarrow> uint64" where
  "accNumber A acc = (case acc of EthAcc a \<Rightarrow> AccountNumber a | OtherAcc b \<Rightarrow> OtherAccountNumber A b)"

definition accSetSequence :: "'g ante_env \<Rightarrow> account \<Rightarrow> uint64 \<Rightarrow> tx_error + account" where
  "accSetSequence A acc n =
     (case acc of
        EthAcc a \<Rightarrow> Inr (EthAcc (a\<lparr>Sequence := n\<rparr>))
      | OtherAcc b \<Rightarrow> (case OtherSetSequence A b n of None \<Rightarrow> Inl PanicSetSequence | Some b' \<Rightarrow> Inr (OtherAcc b')))"

definition GetAccount :: "app_state \<Rightarrow> acc_address \<Rightarrow> account option" where
  "GetAccount S addr = kv_get (as_accounts S) addr"

definition SetAccount :: "'g ante_env \<Rightarrow> account \<Rightarrow> app_state \<Rightarrow> app_state" where
  "SetAccount A acc S = setAccounts (kv_set (accAddress A acc) acc (as_accounts S)) S"

text \<open>\<open>NewAccountWithAddress\<close> takes the next account number.\<close>

definition NewAccountWithAddress :: "evm_env \<Rightarrow> acc_address \<Rightarrow> app_state \<Rightarrow> account \<times> app_state" where
  "NewAccountWithAddress E addr S =
     (NewAccount E (as_accNum S) addr, S\<lparr>as_accNum := as_accNum S + 1\<rparr>)"

subsection \<open>Decorators of Ethereum transactions\<close>

definition asEth :: "sdk_tx \<Rightarrow> tx_error + MsgEthereumTx" where
  "asEth tx = (case tx of EthTx msg \<Rightarrow> Inr msg | _ \<Rightarrow> Inl ErrUnknownRequest)"

text \<open>The sender that an earlier decorator put into the cache of the message.\<close>

definition cachedSender :: "evm_env \<Rightarrow> MsgEthereumTx \<Rightarrow> tx_error + acc_address" where
  "cachedSender E msg = (if EmptyAddr (msgFrom E msg) then Inl PanicEmptySender else Inr (msgFrom E msg))"

definition GasLimitDecorator :: "'g ante_env \<Rightarrow> sdk_tx \<Rightarrow> app_state \<Rightarrow> tx_error + unit" where
  "GasLimitDecorator A tx S =
     bindE (asEth tx) (\<lambda>msg.
       if MaxGasLimitPerTx (ev_params (as_stores S)) < GetGas msg then Inl ErrTxTooLarge else Inr ())"

definition EthMempoolFeeDecorator :: "'g ante_env \<Rightarrow> 'g sdk_ctx \<Rightarrow> sdk_tx \<Rightarrow> tx_error + unit" where
  "EthMempoolFeeDecorator A ctx tx =
     (if \<not> IsCheckTx ctx then Inr ()
      else
        bindE (asEth tx) (\<lambda>msg.
        let evmDenom = bondDenom (ae_evm A)
        in bindE (NewCoinE (evm_dec (ae_evm A)) evmDenom (Fee msg)) (\<lambda>fee.
           let minFees = MulInt64 A (AmountOf evmDenom (MinGasPrices ctx)) (sint (td_GasLimit (msg_Data msg)));
               hasEnoughFees = (minFees \<le> Amount fee)
           in if \<not> list_all (\<lambda>c. Amount c = 0) (MinGasPrices ctx) \<and> \<not> hasEnoughFees
              then Inl ErrInsufficientFee else Inr ())))"

definition EthSigVerificationDecorator :: "'g ante_env \<Rightarrow> 'g sdk_ctx \<Rightarrow> sdk_tx \<Rightarrow> tx_error + sdk_tx" where
  "EthSigVerificationDecorator A ctx tx =
     bindE (asEth tx) (\<lambda>msg.
     bindE (ParseChainID (ctxChainID ctx)) (\<lambda>chainIDEpoch.
       case VerifySig (ae_tx A) msg chainIDEpoch of
         Inl e \<Rightarrow> Inl (ErrUnauthorized e)
       | Inr (_, msg) \<Rightarrow> Inr (EthTx msg)))"

definition AccountVerificationDecorator ::
    "'g ante_env \<Rightarrow> 'g sdk_ctx \<Rightarrow> sdk_tx \<Rightarrow> app_state \<Rightarrow> tx_error + app_state" where
  "AccountVerificationDecorator A ctx tx S =
     (if \<not> IsCheckTx ctx then Inr S
      else
        bindE (asEth tx) (\<lambda>msg.
        bindE (cachedSender (ae_evm A) msg) (\<lambda>address.
        let (acc, S) =
              (case GetAccount S address of
                 Some acc \<Rightarrow> (acc, S)
               | None \<Rightarrow>
                   let (acc, S) = NewAccountWithAddress (ae_evm A) address S in (acc, SetAccount A acc S))
        in if BlockHeight ctx = 0 \<and> accNumber A acc \<noteq> 0 then Inl ErrInvalidSequence
           else if AmountOf (bondDenom (ae_evm A)) (accCoins A acc) < Cost msg then Inl ErrInsufficientFunds
           else Inr S)))"

definition NonceVerificationDecorator :: "'g ante_env \<Rightarrow> 'g sdk_ctx \<Rightarrow> sdk_tx \<Rightarrow> app_state \<Rightarrow> tx_error + unit" where
  "NonceVerificationDecorator A ctx tx S =
     bindE (asEth tx) (\<lambda>msg.
     bindE (cachedSender (ae_evm A) msg) (\<lambda>address.
       case GetAccount S address of
         None \<Rightarrow> Inl ErrUnknownAddress
       | Some acc \<Rightarrow>
           let seq = accSequence A acc; nonce = td_AccountNonce (msg_Data msg)
           in if IsCheckTx ctx then
                if IsReCheckTx ctx then
                  if nonce \<noteq> seq then Inl ErrInvalidSequence else Inr ()
                else
                  let checkTxModeNonce =
                        (if \<not> MempoolEnableRecheck A
                         then seq + word_of_int (GetUserPendingTxsCnt A (BytesToAddress (ae_evm A) address))
                         else seq)
                  in if MempoolEnableSort A then
                       if nonce < seq \<or> checkTxModeNonce < nonce then Inl ErrInvalidSequence else Inr ()
                     else if nonce \<noteq> checkTxModeNonce then Inl ErrInvalidSequence else Inr ()
              else if nonce \<noteq> seq then Inl ErrInvalidSequence else Inr ()))"

definition EthGasConsumeDecorator ::
    "'g ante_env \<Rightarrow> 'g sdk_ctx \<Rightarrow> sdk_tx \<Rightarrow> bool \<Rightarrow> app_state \<Rightarrow> tx_error + ('g sdk_ctx \<times> app_state)" where
  "EthGasConsumeDecorator A ctx tx simulate S =
     bindE (asEth tx) (\<lambda>msg.
     bindE (cachedSender (ae_evm A) msg) (\<lambda>address.
       case GetAccount S address of
         None \<Rightarrow> Inl ErrUnknownAddress
       | Some senderAcc \<Rightarrow>
           let gasLimit = GetGas msg
           in case IntrinsicGas A (td_Payload (msg_Data msg)) (msgTo msg = None) True False of
                None \<Rightarrow> Inl ErrIntrinsicGas
              | Some gas \<Rightarrow>
                  if IsCheckTx ctx \<and> gasLimit < gas then Inl ErrIntrinsicGasTooLow
                  else
                    bindE
                      (if gasLimit \<noteq> 0 then
                         bindE (NewCoinE (evm_dec (ae_evm A)) (bondDenom (ae_evm A))
                                  (td_Price (msg_Data msg) * uint gasLimit)) (\<lambda>coin.
                           case DeductFees A (as_accounts S) senderAcc (NewCoins A coin) of
                             None \<Rightarrow> Inl ErrDeductFees
                           | Some m \<Rightarrow> Inr (setAccounts m S))
                       else Inr S)
                      (\<lambda>S. Inr (ctx\<lparr>GasMeter := SetGasMeter (ae_gas A) simulate (BlockHeight ctx) gasLimit\<rparr>, S))))"

definition incrementSequence :: "'g ante_env \<Rightarrow> app_state \<Rightarrow> acc_address \<Rightarrow> tx_error + app_state" where
  "incrementSequence A S addr =
     (case GetAccount S addr of
        None \<Rightarrow> Inl PanicNilAccount
      | Some acc \<Rightarrow>
          bindE (accSetSequence A acc (accSequence A acc + 1)) (\<lambda>acc. Inr (SetAccount A acc S)))"

definition IncrementSenderSequenceDecorator ::
    "'g ante_env \<Rightarrow> 'g sdk_ctx \<Rightarrow> sdk_tx \<Rightarrow> app_state \<Rightarrow> tx_error + app_state" where
  "IncrementSenderSequenceDecorator A ctx tx S =
     (if IsCheckTx ctx \<and> \<not> IsReCheckTx ctx \<and> \<not> MempoolEnableRecheck A then Inr S
      else
        bindE (asEth tx) (\<lambda>msg.
        bindE (ethGetSigners (ae_evm A) msg) (\<lambda>signers. foldE (incrementSequence A) S signers)))"

text \<open>The chain for Ethereum transactions. The outermost decorator turns an out-of-gas panic of the
  chain into the error \<open>ErrOutOfGas\<close>, which is the same value here.\<close>

definition ethAnteHandler ::
    "'g ante_env \<Rightarrow> 'g sdk_ctx \<Rightarrow> sdk_tx \<Rightarrow> bool \<Rightarrow> app_state \<Rightarrow> tx_error + ('g sdk_ctx \<times> sdk_tx \<times> app_state)" where
  "ethAnteHandler A ctx tx simulate S =
     bindE (GasLimitDecorator A tx S) (\<lambda>_.
     bindE (EthMempoolFeeDecorator A ctx tx) (\<lambda>_.
     bindE (ValidateBasicDecorator A (IsReCheckTx ctx) (bindE (asEth tx) ethValidateBasic)) (\<lambda>_.
     bindE (EthSigVerificationDecorator A ctx tx) (\<lambda>tx.
     bindE (AccountVerificationDecorator A ctx tx S) (\<lambda>S.
     bindE (NonceVerificationDecorator A ctx tx S) (\<lambda>_.
     bindE (EthGasConsumeDecorator A ctx tx simulate S) (\<lambda>(ctx, S).
     bindE (IncrementSenderSequenceDecorator A ctx tx S) (\<lambda>S. Inr (ctx, tx, S)))))))))"

subsection \<open>Decorators of standard transactions\<close>

definition setupAccount :: "'g ante_env \<Rightarrow> app_state \<Rightarrow> acc_address \<Rightarrow> app_state" where
  "setupAccount A S addr =
     (case GetAccount S addr of
        Some _ \<Rightarrow> S
      | None \<Rightarrow> let (acc, S) = NewAccountWithAddress (ae_evm A) addr S in SetAccount A acc S)"

definition AccountSetupDecorator :: "'g ante_env \<Rightarrow> std_msg list \<Rightarrow> app_state \<Rightarrow> tx_error + app_state" where
  "AccountSetupDecorator A msgs S =
     (if msgs = [] then Inl ErrNoMessages
      else Inr (foldl (\<lambda>S msg. case msg of
             SEthermint m \<Rightarrow> setupAccount A S (me_From m)
           | SOther _ \<Rightarrow> S) S msgs))"

definition ValidateMsgHandlerDecorator ::
    "'g sdk_ctx \<Rightarrow> std_msg list \<Rightarrow> bool \<Rightarrow> (std_msg list \<Rightarrow> tx_error + unit) option \<Rightarrow> tx_error + unit" where
  "ValidateMsgHandlerDecorator ctx msgs simulate handler =
     (case handler of
        Some h \<Rightarrow> if IsCheckTx ctx \<and> \<not> simulate then h msgs else Inr ()
      | None \<Rightarrow> Inr ())"

definition secp256k1VerifyCost :: uint64 where
  "secp256k1VerifyCost = 21000"

datatype sig_pubkey = EthSecp256k1Key bytes | TmPubKey bytes | UnknownKey

definition sigGasConsumer :: "'g gas_ops \<Rightarrow> 'g \<Rightarrow> sig_pubkey \<Rightarrow> tx_error option \<times> 'g" where
  "sigGasConsumer G meter pubkey =
     (case pubkey of
        EthSecp256k1Key _ \<Rightarrow> ConsumeGas G meter secp256k1VerifyCost
      | TmPubKey _ \<Rightarrow> ConsumeGas G meter secp256k1VerifyCost
      | UnknownKey \<Rightarrow> (Some ErrInvalidPublicKey, meter))"

definition NewAnteHandler ::
    "'g ante_env \<Rightarrow> (std_msg list \<Rightarrow> tx_error + unit) option \<Rightarrow> 'g sdk_ctx \<Rightarrow> sdk_tx \<Rightarrow> bool \<Rightarrow> app_state \<Rightarrow>
     tx_error + ('g sdk_ctx \<times> sdk_tx \<times> app_state)" where
  "NewAnteHandler A handler ctx tx sim S =
     (case tx of
        StdTx msgs \<Rightarrow>
          bindE (stdSetUpContext A ctx tx sim S) (\<lambda>(ctx, S).
          bindE (AccountSetupDecorator A msgs S) (\<lambda>S.
          bindE (stdDecorators A ctx tx sim S) (\<lambda>(ctx, S).
          bindE (ValidateMsgHandlerDecorator ctx msgs sim handler) (\<lambda>_. Inr (ctx, tx, S)))))
      | EthTx _ \<Rightarrow> ethAnteHandler A ctx tx sim S
      | OtherTx \<Rightarrow> Inl ErrUnknownRequest)"

subsection \<open>Refund of unused gas\<close>

definition refundCoin :: "evm_env \<Rightarrow> uint64 \<Rightarrow> uint64 \<Rightarrow> sys_coin \<Rightarrow> tx_error + sys_coin" where
  "refundCoin E gas gasUsed fee =
     (if gas = 0 then Inl PanicDivByZero
      else
        let gasPrice = Amount fee div uint gas;
            gasConsumed = gasPrice * uint gasUsed
        in bindE (NewCoinE (evm_dec E) (Denom fee) gasConsumed) (\<lambda>gasCost.
             if Amount fee < Amount gasCost then Inl PanicCoinSub
             else Inr (fee\<lparr>Amount := Amount fee - Amount gasCost\<rparr>)))"

fun mapE :: "('a \<Rightarrow> 'e + 'b) \<Rightarrow> 'a list \<Rightarrow> 'e + 'b list" where
  "mapE f [] = Inr []"
| "mapE f (x # xs) = bindE (f x) (\<lambda>y. bindE (mapE f xs) (\<lambda>ys. Inr (y # ys)))"

definition GasRefund :: "'g ante_env \<Rightarrow> 'g sdk_ctx \<Rightarrow> MsgEthereumTx \<Rightarrow> app_state \<Rightarrow> tx_error + app_state" where
  "GasRefund A ctx msg S =
     (let gasLimit = GasLimitOf (ae_gas A) (GasMeter ctx);
          gasUsed = GasConsumed (ae_gas A) (GasMeter ctx)
      in if gasLimit \<le> gasUsed then Inr S
         else
           let feePayer = FeePayer (ae_tx A) msg
           in case GetAccount S feePayer of
                None \<Rightarrow> Inl ErrUnknownAddress
              | Some feePayerAcc \<Rightarrow>
                  bindE (GetFee (ae_evm A) msg) (\<lambda>fees.
                  bindE (mapE (refundCoin (ae_evm A) (GetGas msg) gasUsed) fees) (\<lambda>gasFees.
                    case RefundFees A (as_accounts S) (accAddress A feePayerAcc) gasFees of
                      None \<Rightarrow> Inl ErrRefundFees
                    | Some m \<Rightarrow> Inr (setAccounts m S))))"

definition NewGasRefundHandler :: "'g ante_env \<Rightarrow> 'g sdk_ctx \<Rightarrow> sdk_tx \<Rightarrow> app_state \<Rightarrow> tx_error + app_state" where
  "NewGasRefundHandler A ctx tx S = (case tx of EthTx msg \<Rightarrow> GasRefund A ctx msg S | _ \<Rightarrow> Inr S)"

end
