(* ===== verification/Evm_Exec.thy ===== *)
theory Evm_Exec
  imports Evm_Ante
begin

text \<open>
  The chain configuration (evm/types/chain_config.go), the state transition
  (evm/types/state_transition.go), the keeper with its block functions (evm/keeper/keeper.go,
  abci.go) and the message handlers (evm/handler.go).

  The interpreter is go-ethereum's: \<open>vmCreate\<close> and \<open>vmCall\<close> of \<open>'g exec_env\<close> take the block and
  transaction context, the caller, the input, the gas and the amount, and return the outcome with the
  state database they leave, or a panic. A run returns its result together with the gas meter, which keeps
  what a failing run consumed.
\<close>

subsection \<open>Chain configuration\<close>

definition getBlockValue :: "int option \<Rightarrow> tx_error + int option" where
  "getBlockValue block =
     (case block of None \<Rightarrow> Inl PanicNilInt | Some b \<Rightarrow> Inr (if b < 0 then None else Some b))"

record eth_config =
  ec_ChainID :: int
  ec_HomesteadBlock :: "int option"
  ec_DAOForkBlock :: "int option"
  ec_DAOForkSupport :: bool
  ec_EIP150Block :: "int option"
  ec_EIP150Hash :: hash
  ec_EIP155Block :: "int option"
  ec_EIP158Block :: "int option"
  ec_ByzantiumBlock :: "int option"
  ec_ConstantinopleBlock :: "int option"
  ec_PetersburgBlock :: "int option"
  ec_IstanbulBlock :: "int option"
  ec_MuirGlacierBlock :: "int option"
  ec_YoloV2Block :: "int option"
  ec_EWASMBlock :: "int option"

definition EthereumConfig :: "(string \<Rightarrow> hash) \<Rightarrow> ChainConfig \<Rightarrow> int \<Rightarrow> tx_error + eth_config" where
  "EthereumConfig HexToHash cc chainID =
     bindE (getBlockValue (HomesteadBlock cc)) (\<lambda>homestead.
     bindE (getBlockValue (DAOForkBlock cc)) (\<lambda>dao.
     bindE (getBlockValue (EIP150Block cc)) (\<lambda>eip150.
     bindE (getBlockValue (EIP155Block cc)) (\<lambda>eip155.
     bindE (getBlockValue (EIP158Block cc)) (\<lambda>eip158.
     bindE (getBlockValue (ByzantiumBlock cc)) (\<lambda>byzantium.
     bindE (getBlockValue (ConstantinopleBlock cc)) (\<lambda>constantinople.
     bindE (getBlockValue (PetersburgBlock cc)) (\<lambda>petersburg.
     bindE (getBlockValue (IstanbulBlock cc)) (\<lambda>istanbul.
     bindE (getBlockValue (MuirGlacierBlock cc)) (\<lambda>muir.
     bindE (getBlockValue (YoloV2Block cc)) (\<lambda>yolo.
     bindE (getBlockValue (EWASMBlock cc)) (\<lambda>ewasm.
       Inr \<lparr>ec_ChainID = chainID, ec_HomesteadBlock = homestead, ec_DAOForkBlock = dao,
         ec_DAOForkSupport = DAOForkSupport cc, ec_EIP150Block = eip150,
         ec_EIP150Hash = HexToHash (EIP150Hash cc), ec_EIP155Block = eip155, ec_EIP158Block = eip158,
         ec_ByzantiumBlock = byzantium, ec_ConstantinopleBlock = constantinople,
         ec_PetersburgBlock = petersburg, ec_IstanbulBlock = istanbul, ec_MuirGlacierBlock = muir,
         ec_YoloV2Block = yolo, ec_EWASMBlock = ewasm\<rparr>))))))))))))"

definition IsIstanbul :: "ChainConfig \<Rightarrow> tx_error + bool" where
  "IsIstanbul cc = bindE (getBlockValue (IstanbulBlock cc)) (\<lambda>b. Inr (b \<noteq> None))"

definition IsHomestead :: "ChainConfig \<Rightarrow> tx_error + bool" where
  "IsHomestead cc = bindE (getBlockValue (HomesteadBlock cc)) (\<lambda>b. Inr (b \<noteq> None))"

definition zeroHashText :: string where
  "zeroHashText = ''0x0000000000000000000000000000000000000000000000000000000000000000''"

definition DefaultChainConfig :: ChainConfig where
  "DefaultChainConfig = \<lparr>HomesteadBlock = Some 0, DAOForkBlock = Some 0, DAOForkSupport = True,
     EIP150Block = Some 0, EIP150Hash = zeroHashText, EIP155Block = Some 0, EIP158Block = Some 0,
     ByzantiumBlock = Some 0, ConstantinopleBlock = Some 0, PetersburgBlock = Some 0,
     IstanbulBlock = Some 0, MuirGlacierBlock = Some 0, YoloV2Block = Some (- 1), EWASMBlock = Some (- 1)\<rparr>"

datatype config_error = ErrNilBlock string | ErrBlankHash | ErrHashLength nat

definition validateBlock :: "string \<Rightarrow> int option \<Rightarrow> config_error + unit" where
  "validateBlock name block = (case block of None \<Rightarrow> Inl (ErrNilBlock name) | Some _ \<Rightarrow> Inr ())"

definition validateHash :: "(string \<Rightarrow> bytes) \<Rightarrow> string \<Rightarrow> config_error + unit" where
  "validateHash FromHex hex =
     (if hex \<noteq> [] \<and> TrimSpace hex = [] then Inl ErrBlankHash
      else
        let lenHex = length (FromHex hex)
        in if 0 < lenHex \<and> lenHex \<noteq> 32 then Inl (ErrHashLength lenHex) else Inr ())"

definition configValidate :: "(string \<Rightarrow> bytes) \<Rightarrow> ChainConfig \<Rightarrow> config_error + unit" where
  "configValidate FromHex cc =
     bindE (validateBlock ''homesteadBlock'' (HomesteadBlock cc)) (\<lambda>_.
     bindE (validateBlock ''daoForkBlock'' (DAOForkBlock cc)) (\<lambda>_.
     bindE (validateBlock ''eip150Block'' (EIP150Block cc)) (\<lambda>_.
     bindE (validateHash FromHex (EIP150Hash cc)) (\<lambda>_.
     bindE (validateBlock ''eip155Block'' (EIP155Block cc)) (\<lambda>_.
     bindE (validateBlock ''eip158Block'' (EIP158Block cc)) (\<lambda>_.
     bindE (validateBlock ''byzantiumBlock'' (ByzantiumBlock cc)) (\<lambda>_.
     bindE (validateBlock ''constantinopleBlock'' (ConstantinopleBlock cc)) (\<lambda>_.
     bindE (validateBlock ''petersburgBlock'' (PetersburgBlock cc)) (\<lambda>_.
     bindE (validateBlock ''istanbulBlock'' (IstanbulBlock cc)) (\<lambda>_.
     bindE (validateBlock ''muirGlacierBlock'' (MuirGlacierBlock cc)) (\<lambda>_.
     bindE (validateBlock ''yoloV2Block'' (YoloV2Block cc)) (\<lambda>_.
     validateBlock ''eWASMBlock'' (EWASMBlock cc)))))))))))))"

subsection \<open>The interpreter\<close>

record vm_ctx =
  vm_GetHash :: "uint64 \<Rightarrow> hash"
  vm_Coinbase :: address
  vm_BlockNumber :: int
  vm_Time :: int
  vm_Difficulty :: int
  vm_GasLimit :: uint64
  vm_Origin :: address
  vm_GasPrice :: int
  vm_ExtraEips :: "int list"
  vm_Config :: eth_config

record vm_result =
  vr_ret :: "bytes option"
  vr_addr :: address
  vr_leftOver :: uint64
  vr_err :: "string option"

record ResultData =
  rd_ContractAddress :: address
  rd_Bloom :: bloom
  rd_Logs :: "eth_log list"
  rd_Ret :: "bytes option"
  rd_TxHash :: hash

record GasInfo =
  gi_GasLimit :: uint64
  gi_GasConsumed :: uint64
  gi_GasRefunded :: uint64

record ExecutionResult =
  er_Logs :: "eth_log list"
  er_Bloom :: int
  er_Data :: bytes
  er_GasInfo :: GasInfo

record 'g exec_env =
  xe_ante :: "'g ante_env"
  vmCreate :: "vm_ctx \<Rightarrow> address \<Rightarrow> bytes \<Rightarrow> uint64 \<Rightarrow> int \<Rightarrow> commitStateDB \<Rightarrow> evm_error + (vm_result \<times> commitStateDB)"
  vmCall :: "vm_ctx \<Rightarrow> address \<Rightarrow> address \<Rightarrow> bytes \<Rightarrow> uint64 \<Rightarrow> int \<Rightarrow> commitStateDB \<Rightarrow> evm_error + (vm_result \<times> commitStateDB)"
  LogsBloom :: "eth_log list \<Rightarrow> bloom"
  EncodeResultData :: "ResultData \<Rightarrow> bytes option"
  TmTxHash :: "bytes \<Rightarrow> bytes"
  configReadGas :: "ChainConfig option \<Rightarrow> uint64" \<comment> \<open>what the store charges the gas meter for a read\<close>
  HexToHash :: "string \<Rightarrow> hash"
  ErrExecutionReverted :: string
  UnpackRevert :: "bytes \<Rightarrow> string option"
  HexEncode :: "bytes \<Rightarrow> string"
  JsonStrings :: "string list \<Rightarrow> string option"

abbreviation xe_evm :: "'g exec_env \<Rightarrow> evm_env" where
  "xe_evm X \<equiv> ae_evm (xe_ante X)"

abbreviation xe_gas :: "'g exec_env \<Rightarrow> 'g gas_ops" where
  "xe_gas X \<equiv> ae_gas (xe_ante X)"

subsection \<open>State transition\<close>

record StateTransition =
  st_AccountNonce :: uint64
  st_Price :: int
  st_GasLimit :: uint64
  st_Recipient :: "address option"
  st_Amount :: int
  st_Payload :: bytes
  st_ChainID :: int
  st_Csdb :: commitStateDB
  st_TxHash :: hash
  st_Sender :: address
  st_Simulate :: bool

definition GetHashFn :: "'g sdk_ctx \<Rightarrow> commitStateDB \<Rightarrow> uint64 \<Rightarrow> hash" where
  "GetHashFn ctx csdb height =
     (if BlockHeight ctx = sint height then bhash csdb
      else if sint height < BlockHeight ctx then GetHeightHash csdb height
      else 0)"

definition newEVM ::
    "'g exec_env \<Rightarrow> StateTransition \<Rightarrow> 'g sdk_ctx \<Rightarrow> commitStateDB \<Rightarrow> uint64 \<Rightarrow> ChainConfig \<Rightarrow> int list \<Rightarrow> tx_error + vm_ctx" where
  "newEVM X st ctx csdb gasLimit config extraEIPs =
     bindE (EthereumConfig (HexToHash X) config (st_ChainID st)) (\<lambda>ec.
       Inr \<lparr>vm_GetHash = GetHashFn ctx csdb, vm_Coinbase = BytesToAddress (xe_evm X) (ProposerAddress ctx),
         vm_BlockNumber = BlockHeight ctx, vm_Time = BlockTime ctx, vm_Difficulty = 0, vm_GasLimit = gasLimit,
         vm_Origin = st_Sender st, vm_GasPrice = st_Price st, vm_ExtraEips = extraEIPs, vm_Config = ec\<rparr>)"

text \<open>A panic with the address of a blocked contract is recovered into an error.\<close>

definition stateE :: "evm_error + 'a \<Rightarrow> tx_error + 'a" where
  "stateE m =
     (case m of
        Inr x \<Rightarrow> Inr x
      | Inl (PanicBlocked a) \<Rightarrow> Inl (ErrCallBlockedContract a)
      | Inl e \<Rightarrow> Inl (ErrState e))"

definition newRevertError :: "'g exec_env \<Rightarrow> bytes option \<Rightarrow> string \<Rightarrow> tx_error" where
  "newRevertError X data e =
     (case data of
        None \<Rightarrow> ErrEvmExecution e
      | Some d \<Rightarrow>
          if e \<noteq> ErrExecutionReverted X then ErrEvmExecution e
          else
            let reason = (case UnpackRevert X d of
                   Some r \<Rightarrow> ErrExecutionReverted X @ '':'' @ r
                 | None \<Rightarrow> HexEncode X d)
            in case JsonStrings X [e, reason, ''HexData'', HexEncode X d] of
                 None \<Rightarrow> ErrEvmExecution (e @ ''['' @ HexEncode X d @ '']'')
               | Some ret \<Rightarrow> ErrEvmExecution ret)"

text \<open>The part up to the interpreter: the nonce for the run and the permission to create or call.\<close>

definition runMessage ::
    "'g exec_env \<Rightarrow> StateTransition \<Rightarrow> vm_ctx \<Rightarrow> uint64 \<Rightarrow> evm_params \<Rightarrow> commitStateDB \<Rightarrow>
     tx_error + (vm_result \<times> commitStateDB)" where
  "runMessage X st vm gasLimit p s =
     (case st_Recipient st of
        None \<Rightarrow>
          if \<not> EnableCreate p then Inl ErrCreateDisabled
          else if EnableContractDeploymentWhitelist p \<and>
                  \<not> IsDeployerInWhitelist s (AddressBytes (xe_evm X) (st_Sender st))
          then Inl (ErrUnauthorizedAccount (st_Sender st))
          else stateE (vmCreate X vm (st_Sender st) (st_Payload st) gasLimit (st_Amount st) s)
      | Some to \<Rightarrow>
          if \<not> EnableCall p then Inl ErrCallDisabled
          else
            bindE (stateE (GetNonce (xe_evm X) s (st_Sender st))) (\<lambda>(nonce, s).
            bindE (stateE (SetNonce (xe_evm X) s (st_Sender st) (nonce + 1))) (\<lambda>s.
              stateE (vmCall X vm (st_Sender st) to (st_Payload st) gasLimit (st_Amount st) s))))"

text \<open>The part after a successful interpreter run: the nonce of before, the logs, persistence and the
  result.\<close>

definition commitRun ::
    "'g exec_env \<Rightarrow> StateTransition \<Rightarrow> uint64 \<Rightarrow> uint64 \<Rightarrow> vm_result \<Rightarrow> commitStateDB \<Rightarrow>
     tx_error + (ExecutionResult \<times> ResultData \<times> commitStateDB)" where
  "commitRun X st gasLimit currentNonce r s =
     bindE (stateE (SetNonce (xe_evm X) s (st_Sender st) currentNonce)) (\<lambda>s.
     let ls = (if st_Simulate st then [] else logs s);
         bloomInt = (if st_Simulate st then 0 else uint (LogsBloom X ls))
     in bindE
          (if st_Simulate st then Inr s
           else
             bindE (stateE (Finalise (xe_evm X) s True)) (\<lambda>s.
             bindE (stateE (Commit (xe_evm X) s True)) (\<lambda>(_, s). Inr s)))
          (\<lambda>s.
            let resData = \<lparr>rd_ContractAddress = (if st_Recipient st = None then vr_addr r else 0),
                  rd_Bloom = word_of_int bloomInt, rd_Logs = ls, rd_Ret = vr_ret r, rd_TxHash = st_TxHash st\<rparr>
            in case EncodeResultData X resData of
                 None \<Rightarrow> Inl ErrEncodeResult
               | Some bz \<Rightarrow>
                   Inr (\<lparr>er_Logs = ls, er_Bloom = bloomInt, er_Data = bz,
                          er_GasInfo = \<lparr>gi_GasLimit = gasLimit, gi_GasConsumed = gasLimit - vr_leftOver r,
                            gi_GasRefunded = vr_leftOver r\<rparr>\<rparr>, resData, s)))"

text \<open>The transition in three parts: the intrinsic gas is charged, the message is run with the rest of
  the gas, and on every path after the interpreter has returned the gas it used is charged.\<close>

definition payIntrinsic :: "'g exec_env \<Rightarrow> StateTransition \<Rightarrow> ChainConfig \<Rightarrow> 'g \<Rightarrow> (tx_error + unit) \<times> 'g" where
  "payIntrinsic X st config meter =
     (case bindE (IsHomestead config) (\<lambda>homestead. bindE (IsIstanbul config) (\<lambda>istanbul.
             case IntrinsicGas (xe_ante X) (st_Payload st) (st_Recipient st = None) homestead istanbul of
               None \<Rightarrow> Inl ErrIntrinsicGas
             | Some cost \<Rightarrow> Inr cost)) of
        Inl e \<Rightarrow> (Inl e, meter)
      | Inr cost \<Rightarrow>
          let consumedGas = GasConsumed (xe_gas X) meter
          in if consumedGas < cost
             then (case ConsumeGas (xe_gas X) meter (cost - consumedGas) of
                     (Some e, meter) \<Rightarrow> (Inl e, meter)
                   | (None, meter) \<Rightarrow> (Inr (), meter))
             else (Inr (), meter))"

definition executeRun ::
    "'g exec_env \<Rightarrow> StateTransition \<Rightarrow> 'g sdk_ctx \<Rightarrow> ChainConfig \<Rightarrow> uint64 \<Rightarrow>
     tx_error + (uint64 \<times> vm_result \<times> commitStateDB)" where
  "executeRun X st ctx config gasLimit =
     (let (p, s) = csdbGetParams (st_Csdb st)
      in bindE (newEVM X st ctx s gasLimit config (ExtraEIPs p)) (\<lambda>vm.
         bindE (stateE (GetNonce (xe_evm X) s (st_Sender st))) (\<lambda>(currentNonce, s).
         bindE (stateE (SetNonce (xe_evm X) s (st_Sender st) (st_AccountNonce st))) (\<lambda>s.
         bindE (runMessage X st vm gasLimit p s) (\<lambda>(r, s). Inr (currentNonce, r, s))))))"

definition finishRun ::
    "'g exec_env \<Rightarrow> StateTransition \<Rightarrow> uint64 \<Rightarrow> 'g \<Rightarrow> uint64 \<Rightarrow> vm_result \<Rightarrow> commitStateDB \<Rightarrow>
     (tx_error + (ExecutionResult \<times> ResultData \<times> commitStateDB)) \<times> 'g" where
  "finishRun X st gasLimit meter currentNonce r s =
     (let res = (case vr_err r of
                   Some e \<Rightarrow> Inl (newRevertError X (vr_ret r) e)
                 | None \<Rightarrow> commitRun X st gasLimit currentNonce r s)
      in case ConsumeGas (xe_gas X) meter (gasLimit - vr_leftOver r) of
           (Some e, meter) \<Rightarrow> (Inl e, meter)
         | (None, meter) \<Rightarrow> (res, meter))"

definition TransitionDb ::
    "'g exec_env \<Rightarrow> StateTransition \<Rightarrow> 'g sdk_ctx \<Rightarrow> ChainConfig \<Rightarrow>
     (tx_error + (ExecutionResult \<times> ResultData \<times> commitStateDB)) \<times> 'g" where
  "TransitionDb X st ctx config =
     (case payIntrinsic X st config (GasMeter ctx) of
        (Inl e, meter) \<Rightarrow> (Inl e, meter)
      | (Inr _, meter) \<Rightarrow>
          let gasLimit = st_GasLimit st - GasConsumed (xe_gas X) meter
          in case executeRun X st ctx config gasLimit of
               Inl e \<Rightarrow> (Inl e, meter)
             | Inr (currentNonce, r, s) \<Rightarrow> finishRun X st gasLimit meter currentNonce r s)"

subsection \<open>Keeper\<close>

record evm_keeper =
  k_TxCount :: int
  k_Bloom :: int
  k_Bhash :: hash
  k_LogSize :: uint64

definition NewKeeper :: evm_keeper where
  "NewKeeper = \<lparr>k_TxCount = 0, k_Bloom = 0, k_Bhash = 0, k_LogSize = 0\<rparr>"

definition kGetBlockHash :: "app_state \<Rightarrow> bytes \<Rightarrow> int option" where
  "kGetBlockHash S h = kv_get (as_blockHash S) h"

definition kSetBlockHash :: "bytes \<Rightarrow> int \<Rightarrow> app_state \<Rightarrow> app_state" where
  "kSetBlockHash h height S = S\<lparr>as_blockHash := kv_set h height (as_blockHash S)\<rparr>"

definition kGetHeightHash :: "app_state \<Rightarrow> uint64 \<Rightarrow> hash" where
  "kGetHeightHash S height = GetHeightHash (CreateEmptyCommitStateDB (as_stores S) (as_accNum S)) height"

definition kSetHeightHash :: "uint64 \<Rightarrow> hash \<Rightarrow> app_state \<Rightarrow> app_state" where
  "kSetHeightHash height h S =
     S\<lparr>as_stores := stores (SetHeightHash (CreateEmptyCommitStateDB (as_stores S) (as_accNum S)) height h)\<rparr>"

definition GetBlockBloom :: "app_state \<Rightarrow> int \<Rightarrow> bloom" where
  "GetBlockBloom S height = (case kv_get (as_bloom S) height of None \<Rightarrow> 0 | Some b \<Rightarrow> b)"

definition SetBlockBloom :: "int \<Rightarrow> bloom \<Rightarrow> app_state \<Rightarrow> app_state" where
  "SetBlockBloom height b S = S\<lparr>as_bloom := kv_set height b (as_bloom S)\<rparr>"

definition GetChainConfig :: "app_state \<Rightarrow> ChainConfig option" where
  "GetChainConfig S = as_config S"

definition SetChainConfig :: "ChainConfig \<Rightarrow> app_state \<Rightarrow> app_state" where
  "SetChainConfig config S = S\<lparr>as_config := Some config\<rparr>"

record begin_req =
  rq_LastBlockHash :: "bytes option"
  rq_Height :: int
  rq_Hash :: bytes

definition evmBeginBlock :: "evm_env \<Rightarrow> evm_keeper \<Rightarrow> begin_req \<Rightarrow> app_state \<Rightarrow> evm_keeper \<times> app_state" where
  "evmBeginBlock E k req S =
     (case rq_LastBlockHash req of
        None \<Rightarrow> (k, S)
      | Some lastHash \<Rightarrow>
          if rq_Height req < 1 then (k, S)
          else
            let height = rq_Height req - 1;
                S = kSetHeightHash (word_of_int height) (BytesToHash E lastHash) S;
                S = kSetBlockHash lastHash height S
            in (k\<lparr>k_Bloom := 0, k_TxCount := 0, k_LogSize := 0, k_Bhash := BytesToHash E (rq_Hash req)\<rparr>, S))"

text \<open>\<open>BytesToBloom\<close> panics on more than 256 bytes.\<close>

definition evmEndBlock :: "evm_keeper \<Rightarrow> int \<Rightarrow> app_state \<Rightarrow> tx_error + app_state" where
  "evmEndBlock k height S =
     (if 2 ^ 2048 \<le> k_Bloom k then Inl PanicBloom
      else Inr (SetBlockBloom height (word_of_int (k_Bloom k)) S))"

subsection \<open>Handlers\<close>

text \<open>The state database a handler opens; \<open>Prepare\<close> and the log counter outside of simulations.\<close>

definition openCsdb :: "evm_keeper \<Rightarrow> bool \<Rightarrow> hash \<Rightarrow> app_state \<Rightarrow> commitStateDB" where
  "openCsdb k simulate ethHash S =
     (let s = CreateEmptyCommitStateDB (as_stores S) (as_accNum S)
      in if simulate then s else (Prepare s ethHash (k_Bhash k) (k_TxCount k))\<lparr>logSize := k_LogSize k\<rparr>)"

text \<open>What both handlers do from the chain configuration on. A failing run leaves the counters as
  they are.\<close>

definition applyTransition ::
    "'g exec_env \<Rightarrow> 'g sdk_ctx \<Rightarrow> evm_keeper \<Rightarrow> StateTransition \<Rightarrow> app_state \<Rightarrow>
     (tx_error + (ExecutionResult \<times> app_state)) \<times> evm_keeper \<times> 'g" where
  "applyTransition X ctx k st S =
     (let (oog, meter) = ConsumeGas (xe_gas X) (GasMeter ctx) (configReadGas X (GetChainConfig S))
      in case oog of
           Some e \<Rightarrow> (Inl e, k, meter)
         | None \<Rightarrow>
             case GetChainConfig S of
               None \<Rightarrow> (Inl ErrChainConfigNotFound, k, meter)
             | Some config \<Rightarrow>
                 case TransitionDb X st (ctx\<lparr>GasMeter := meter\<rparr>) config of
                   (Inl e, meter) \<Rightarrow> (Inl e, k, meter)
                 | (Inr (er, rd, s), meter) \<Rightarrow>
                     (Inr (er, S\<lparr>as_stores := stores s, as_accNum := nextAccountNumber s\<rparr>),
                      if st_Simulate st then k
                      else k\<lparr>k_Bloom := or (k_Bloom k) (er_Bloom er), k_LogSize := logSize s\<rparr>,
                      meter))"

definition countTx :: "bool \<Rightarrow> evm_keeper \<Rightarrow> evm_keeper" where
  "countTx simulate k = (if simulate then k else k\<lparr>k_TxCount := k_TxCount k + 1\<rparr>)"

definition ethTransition ::
    "'g exec_env \<Rightarrow> 'g sdk_ctx \<Rightarrow> evm_keeper \<Rightarrow> MsgEthereumTx \<Rightarrow> int \<Rightarrow> address \<Rightarrow> app_state \<Rightarrow> StateTransition" where
  "ethTransition X ctx k msg chainIDEpoch sender S =
     (let ethHash = BytesToHash (xe_evm X) (TmTxHash X (ctxTxBytes ctx)); d = msg_Data msg
      in \<lparr>st_AccountNonce = td_AccountNonce d, st_Price = td_Price d, st_GasLimit = td_GasLimit d,
           st_Recipient = td_Recipient d, st_Amount = td_Amount d, st_Payload = td_Payload d,
           st_ChainID = chainIDEpoch, st_Csdb = openCsdb k (IsCheckTx ctx) ethHash S, st_TxHash = ethHash,
           st_Sender = sender, st_Simulate = IsCheckTx ctx\<rparr>)"

definition handleMsgEthereumTx ::
    "'g exec_env \<Rightarrow> 'g sdk_ctx \<Rightarrow> evm_keeper \<Rightarrow> MsgEthereumTx \<Rightarrow> app_state \<Rightarrow>
     (tx_error + (ExecutionResult \<times> app_state)) \<times> evm_keeper \<times> 'g" where
  "handleMsgEthereumTx X ctx k msg S =
     (case bindE (ParseChainID (ctxChainID ctx)) (\<lambda>chainIDEpoch.
           bindE (VerifySig (ae_tx (xe_ante X)) msg chainIDEpoch) (\<lambda>(sender, _). Inr (chainIDEpoch, sender))) of
        Inl e \<Rightarrow> (Inl e, k, GasMeter ctx)
      | Inr (chainIDEpoch, sender) \<Rightarrow>
          applyTransition X ctx (countTx (IsCheckTx ctx) k) (ethTransition X ctx k msg chainIDEpoch sender S) S)"

definition handleMsgEthermint ::
    "'g exec_env \<Rightarrow> 'g sdk_ctx \<Rightarrow> evm_keeper \<Rightarrow> MsgEthermint \<Rightarrow> app_state \<Rightarrow>
     (tx_error + (ExecutionResult \<times> app_state)) \<times> evm_keeper \<times> 'g" where
  "handleMsgEthermint X ctx k msg S =
     (if \<not> IsCheckTx ctx \<and> \<not> IsReCheckTx ctx then (Inl ErrInvalidMsgType, k, GasMeter ctx)
      else case ParseChainID (ctxChainID ctx) of
        Inl e \<Rightarrow> (Inl e, k, GasMeter ctx)
      | Inr chainIDEpoch \<Rightarrow>
          let ethHash = BytesToHash (xe_evm X) (TmTxHash X (ctxTxBytes ctx));
              st = \<lparr>st_AccountNonce = me_AccountNonce msg, st_Price = me_Price msg, st_GasLimit = me_GasLimit msg,
                st_Recipient = ethermintTo (xe_evm X) msg, st_Amount = me_Amount msg, st_Payload = me_Payload msg,
                st_ChainID = chainIDEpoch, st_Csdb = openCsdb k (IsCheckTx ctx) ethHash S, st_TxHash = ethHash,
                st_Sender = BytesToAddress (xe_evm X) (me_From msg), st_Simulate = IsCheckTx ctx\<rparr>
          in applyTransition X ctx (countTx (IsCheckTx ctx) k) st S)"

datatype evm_msg = EthereumMsg MsgEthereumTx | EthermintMsg MsgEthermint | OtherMsg

definition evm_handler ::
    "'g exec_env \<Rightarrow> 'g sdk_ctx \<Rightarrow> evm_keeper \<Rightarrow> evm_msg \<Rightarrow> app_state \<Rightarrow>
     (tx_error + (ExecutionResult \<times> app_state)) \<times> evm_keeper \<times> 'g" where
  "evm_handler X ctx k msg S =
     (let wrap = (\<lambda>(r, k, meter). (case r of Inl e \<Rightarrow> Inl (ErrEvmCallFailed e) | Inr x \<Rightarrow> Inr x, k, meter))
      in case msg of
           EthereumMsg m \<Rightarrow> wrap (handleMsgEthereumTx X ctx k m S)
         | EthermintMsg m \<Rightarrow> wrap (handleMsgEthermint X ctx k m S)
         | OtherMsg \<Rightarrow> (Inl ErrUnknownRequest, k, GasMeter ctx))"

end
