(* ===== verification/Evm_Genesis.thy ===== *)
theory Evm_Genesis
  imports Evm_Exec
begin

text \<open>
  The rest of the EVM module around its state database: parameters, genesis state with its checks, import and
  export (evm/genesis.go, types/genesis.go, logs.go, params.go, export_operation.go), and the direct and the
  per-call accessors of the keeper (keeper/keeper_direct.go, statedb.go, params.go).

  \<open>gen_env\<close> holds the text forms of addresses and hashes and the table of activatable EIPs, which are
  go-ethereum's, and the text lengths of the governance module. Files and databases of an export are values:
  a file is its text, a directory maps the address to it. The goroutines of an import or export only touch the
  entries of their own account, and their writes are modelled in the order in which they are started.
\<close>

record gen_env =
  ge_evm :: evm_env
  AddressString :: "address \<Rightarrow> string"
  HexToAddress :: "string \<Rightarrow> address"
  HashHex :: "hash \<Rightarrow> string"
  HashFromHex :: "string \<Rightarrow> hash"
  BytesHex :: "bytes \<Rightarrow> string"
  MustDecodeHex :: "string \<Rightarrow> bytes option"
  FromHex :: "string \<Rightarrow> bytes"
  ValidEip :: "int \<Rightarrow> bool"
  AccString :: "acc_address \<Rightarrow> string"
  MaxTitleLength :: nat
  MaxDescriptionLength :: nat

subsection \<open>Parameters\<close>

definition DefaultMaxGasLimitPerTx :: uint64 where
  "DefaultMaxGasLimitPerTx = 30000000"

definition evmDefaultParams :: evm_params where
  "evmDefaultParams = \<lparr>EnableCreate = False, EnableCall = False, ExtraEIPs = [],
     EnableContractDeploymentWhitelist = False, EnableContractBlockedList = False, MaxGasLimitPerTx = DefaultMaxGasLimitPerTx\<rparr>"

definition evmNewParams :: "bool \<Rightarrow> bool \<Rightarrow> bool \<Rightarrow> bool \<Rightarrow> uint64 \<Rightarrow> int list \<Rightarrow> evm_params" where
  "evmNewParams enableCreate enableCall enableWhitelist enableBlockedList maxGas extraEIPs =
     \<lparr>EnableCreate = enableCreate, EnableCall = enableCall, ExtraEIPs = extraEIPs,
      EnableContractDeploymentWhitelist = enableWhitelist, EnableContractBlockedList = enableBlockedList, MaxGasLimitPerTx = maxGas\<rparr>"

datatype genesis_error =
    ErrEipNotActivateable int
  | ErrZeroAddress
  | ErrEmptyCode
  | ErrStorage storage_error
  | ErrDuplicatedAccount string
  | ErrInvalidAccount string genesis_error
  | ErrEmptyTxHash
  | ErrNilLog
  | ErrLogAddress
  | ErrLogBlockHash
  | ErrLogBlockNumber
  | ErrLogTxHash
  | ErrInvalidLog nat genesis_error
  | ErrLogTxMismatch
  | ErrDuplicatedLogs hash
  | ErrInvalidLogs hash genesis_error
  | ErrConfig config_error
  | PanicParams genesis_error
  | PanicAccountNotFound string
  | PanicNotEthAccount string
  | PanicMode
  | PanicEvmDb
  | PanicDecode
  | PanicLine
  | PanicCsdb evm_error

fun validateEIPs :: "(int \<Rightarrow> bool) \<Rightarrow> int list \<Rightarrow> genesis_error + unit" where
  "validateEIPs valid [] = Inr ()"
| "validateEIPs valid (eip # eips) = (if valid eip then validateEIPs valid eips else Inl (ErrEipNotActivateable eip))"

definition paramsValidate :: "gen_env \<Rightarrow> evm_params \<Rightarrow> genesis_error + unit" where
  "paramsValidate G p = validateEIPs (ValidEip G) (ExtraEIPs p)"

definition kGetParams :: "app_state \<Rightarrow> evm_params" where
  "kGetParams S = ev_params (as_stores S)"

text \<open>The parameter space checks each value with the function of \<open>ParamSetPairs\<close> and panics on an invalid one.\<close>

definition kSetParams :: "gen_env \<Rightarrow> evm_params \<Rightarrow> app_state \<Rightarrow> genesis_error + app_state" where
  "kSetParams G p S =
     (case validateEIPs (ValidEip G) (ExtraEIPs p) of
        Inl e \<Rightarrow> Inl (PanicParams e)
      | Inr _ \<Rightarrow> Inr (S\<lparr>as_stores := (as_stores S)\<lparr>ev_params := p\<rparr>\<rparr>))"

subsection \<open>Accessors of the keeper\<close>

definition csdbOf :: "app_state \<Rightarrow> commitStateDB" where
  "csdbOf S = CreateEmptyCommitStateDB (as_stores S) (as_accNum S)"

text \<open>What the stores and the counter of account numbers are after a database was used.\<close>

definition putCsdb :: "commitStateDB \<Rightarrow> app_state \<Rightarrow> app_state" where
  "putCsdb s S = S\<lparr>as_stores := stores s, as_accNum := nextAccountNumber s\<rparr>"

definition SetCodeDirectly :: "bytes \<Rightarrow> bytes \<Rightarrow> evm_stores \<Rightarrow> evm_stores" where
  "SetCodeDirectly h cd st = st\<lparr>ev_codes := kv_set h cd (ev_codes st)\<rparr>"

definition SetStateDirectly :: "address \<Rightarrow> hash \<Rightarrow> hash \<Rightarrow> evm_stores \<Rightarrow> evm_stores" where
  "SetStateDirectly addr k v st = st\<lparr>ev_storage := kv_set (addr, k) v (ev_storage st)\<rparr>"

definition setStates :: "address \<Rightarrow> Storage \<Rightarrow> evm_stores \<Rightarrow> evm_stores" where
  "setStates addr ss st = foldl (\<lambda>st s. SetStateDirectly addr (Key s) (Value s) st) st ss"

text \<open>\<open>SetBalance\<close> and \<open>SetNonce\<close> drop the error of \<open>Finalise\<close>; it is returned before the account is
  written, and a panic is not an error.\<close>

definition finaliseQuietly :: "evm_env \<Rightarrow> app_state \<Rightarrow> commitStateDB \<Rightarrow> evm_error + app_state" where
  "finaliseQuietly E S s =
     (case Finalise E s False of
        Inr t \<Rightarrow> Inr (putCsdb t S)
      | Inl ErrInvalidBalance \<Rightarrow> Inr (putCsdb s S)
      | Inl ErrBlacklisted \<Rightarrow> Inr (putCsdb s S)
      | Inl e \<Rightarrow> Inl e)"

definition kSetBalance :: "evm_env \<Rightarrow> address \<Rightarrow> int \<Rightarrow> app_state \<Rightarrow> evm_error + app_state" where
  "kSetBalance E addr amount S = bindE (csdbSetBalance E (csdbOf S) addr amount) (finaliseQuietly E S)"

definition kSetNonce :: "evm_env \<Rightarrow> address \<Rightarrow> uint64 \<Rightarrow> app_state \<Rightarrow> evm_error + app_state" where
  "kSetNonce E addr nonce S = bindE (SetNonce E (csdbOf S) addr nonce) (finaliseQuietly E S)"

definition kGetBalance :: "evm_env \<Rightarrow> app_state \<Rightarrow> address \<Rightarrow> evm_error + int" where
  "kGetBalance E S addr = bindE (GetBalance E (csdbOf S) addr) (\<lambda>(b, _). Inr b)"

definition kGetCode :: "evm_env \<Rightarrow> app_state \<Rightarrow> address \<Rightarrow> evm_error + bytes option" where
  "kGetCode E S addr = bindE (GetCode E (csdbOf S) addr) (\<lambda>(c, _). Inr c)"

definition kGetState :: "evm_env \<Rightarrow> app_state \<Rightarrow> address \<Rightarrow> hash \<Rightarrow> evm_error + hash" where
  "kGetState E S addr h = bindE (GetState E (csdbOf S) addr h) (\<lambda>(v, _). Inr v)"

definition kForEachStorage ::
    "evm_env \<Rightarrow> app_state \<Rightarrow> address \<Rightarrow> (hash \<Rightarrow> hash \<Rightarrow> 's \<Rightarrow> bool \<times> 's) \<Rightarrow> 's \<Rightarrow> evm_error + 's" where
  "kForEachStorage E S addr cb x = bindE (ForEachStorage E (csdbOf S) addr cb x) (\<lambda>(x, _). Inr x)"

definition kGetOrNewStateObject :: "evm_env \<Rightarrow> app_state \<Rightarrow> address \<Rightarrow> evm_error + (stateObject \<times> app_state)" where
  "kGetOrNewStateObject E S addr =
     bindE (GetOrNewStateObject E (csdbOf S) addr) (\<lambda>(so, s). Inr (so, putCsdb s S))"

definition GetAccountStorage :: "evm_env \<Rightarrow> app_state \<Rightarrow> address \<Rightarrow> evm_error + Storage" where
  "GetAccountStorage E S addr = kForEachStorage E S addr (\<lambda>k v storage. (False, storage @ [NewState k v])) []"

subsection \<open>Genesis state and its checks\<close>

record TransactionLogs =
  tl_Hash :: hash
  tl_Logs :: "eth_log option list" \<comment> \<open>\<open>None\<close> is the nil pointer\<close>

definition ValidateLog :: "eth_log option \<Rightarrow> genesis_error + eth_log" where
  "ValidateLog lg =
     (case lg of
        None \<Rightarrow> Inl ErrNilLog
      | Some l \<Rightarrow>
          if log_Address l = 0 then Inl ErrLogAddress
          else if log_BlockHash l = 0 then Inl ErrLogBlockHash
          else if log_BlockNumber l = 0 then Inl ErrLogBlockNumber
          else if log_TxHash l = 0 then Inl ErrLogTxHash
          else Inr l)"

fun logsValidateFrom :: "hash \<Rightarrow> nat \<Rightarrow> eth_log option list \<Rightarrow> genesis_error + unit" where
  "logsValidateFrom h i [] = Inr ()"
| "logsValidateFrom h i (lg # lgs) =
     (case ValidateLog lg of
        Inl e \<Rightarrow> Inl (ErrInvalidLog i e)
      | Inr l \<Rightarrow> if log_TxHash l \<noteq> h then Inl ErrLogTxMismatch else logsValidateFrom h (Suc i) lgs)"

definition txLogsValidate :: "TransactionLogs \<Rightarrow> genesis_error + unit" where
  "txLogsValidate tx = (if tl_Hash tx = 0 then Inl ErrEmptyTxHash else logsValidateFrom (tl_Hash tx) 0 (tl_Logs tx))"

record GenesisAccount =
  ga_Address :: string
  ga_Code :: "bytes option"
  ga_Storage :: Storage

record GenesisState =
  gs_Accounts :: "GenesisAccount list"
  gs_TxsLogs :: "TransactionLogs list"
  gs_Whitelist :: "acc_address list"
  gs_BlockedList :: "acc_address list"
  gs_ChainConfig :: ChainConfig
  gs_Params :: evm_params

definition genAccountValidate :: "gen_env \<Rightarrow> GenesisAccount \<Rightarrow> genesis_error + unit" where
  "genAccountValidate G ga =
     (if ga_Address ga = AddressString G 0 then Inl ErrZeroAddress
      else if codeLen (ga_Code ga) = 0 then Inl ErrEmptyCode
      else case storageValidate (ga_Storage ga) of Inl e \<Rightarrow> Inl (ErrStorage e) | Inr _ \<Rightarrow> Inr ())"

definition evmDefaultGenesisState :: GenesisState where
  "evmDefaultGenesisState = \<lparr>gs_Accounts = [], gs_TxsLogs = [], gs_Whitelist = [], gs_BlockedList = [],
     gs_ChainConfig = DefaultChainConfig, gs_Params = evmDefaultParams\<rparr>"

fun genAccountsValidate :: "gen_env \<Rightarrow> string set \<Rightarrow> GenesisAccount list \<Rightarrow> genesis_error + unit" where
  "genAccountsValidate G seen [] = Inr ()"
| "genAccountsValidate G seen (acc # accs) =
     (if ga_Address acc \<in> seen then Inl (ErrDuplicatedAccount (ga_Address acc))
      else case genAccountValidate G acc of
             Inl e \<Rightarrow> Inl (ErrInvalidAccount (ga_Address acc) e)
           | Inr _ \<Rightarrow> genAccountsValidate G (insert (ga_Address acc) seen) accs)"

fun txsLogsValidate :: "hash set \<Rightarrow> TransactionLogs list \<Rightarrow> genesis_error + unit" where
  "txsLogsValidate seen [] = Inr ()"
| "txsLogsValidate seen (tx # txs) =
     (if tl_Hash tx \<in> seen then Inl (ErrDuplicatedLogs (tl_Hash tx))
      else case txLogsValidate tx of
             Inl e \<Rightarrow> Inl (ErrInvalidLogs (tl_Hash tx) e)
           | Inr _ \<Rightarrow> txsLogsValidate (insert (tl_Hash tx) seen) txs)"

definition genesisValidate :: "gen_env \<Rightarrow> GenesisState \<Rightarrow> genesis_error + unit" where
  "genesisValidate G gs =
     bindE (genAccountsValidate G {} (gs_Accounts gs)) (\<lambda>_.
     bindE (txsLogsValidate {} (gs_TxsLogs gs)) (\<lambda>_.
     bindE (case configValidate (FromHex G) (gs_ChainConfig gs) of Inl e \<Rightarrow> Inl (ErrConfig e) | Inr _ \<Rightarrow> Inr ()) (\<lambda>_.
       paramsValidate G (gs_Params gs))))"

subsection \<open>Files and databases of an export\<close>

datatype genesis_mode = defaultMode | filesMode | dbMode | otherMode

record export_data =
  xd_codeFiles :: "string \<rightharpoonup> string"
  xd_storageFiles :: "string \<rightharpoonup> string"
  xd_codeDB :: "(bytes, bytes) kv"
  xd_stateDB :: "(bytes, bytes) kv"
  xd_emptyDBs :: bool \<comment> \<open>what \<open>isEmptyState\<close> finds in the statistics of one of the databases\<close>

definition codeKey :: "bytes \<Rightarrow> bytes" where
  "codeKey h = 4 # h"

definition AddressStoragePrefix :: "evm_env \<Rightarrow> address \<Rightarrow> bytes" where
  "AddressStoragePrefix E addr = 5 # AddressBytes E addr"

definition liftCsdb :: "evm_error + 'a \<Rightarrow> genesis_error + 'a" where
  "liftCsdb m = (case m of Inl e \<Rightarrow> Inl (PanicCsdb e) | Inr x \<Rightarrow> Inr x)"

definition exportStorage :: "evm_env \<Rightarrow> app_state \<Rightarrow> address \<Rightarrow> (bytes, bytes) kv \<Rightarrow> evm_error + (bytes, bytes) kv" where
  "exportStorage E S addr db =
     kForEachStorage E S addr
       (\<lambda>k v db. (False, kv_set (AddressStoragePrefix E addr @ HashBytes E k) (HashBytes E v) db)) db"

definition exportToDB :: "evm_env \<Rightarrow> app_state \<Rightarrow> address \<Rightarrow> bytes \<Rightarrow> export_data \<Rightarrow> evm_error + export_data" where
  "exportToDB E S addr codeHash D =
     bindE (kGetCode E S addr) (\<lambda>cd.
     let D = (case cd of
                Some c \<Rightarrow> if 0 < length c then D\<lparr>xd_codeDB := kv_set (codeKey codeHash) c (xd_codeDB D)\<rparr> else D
              | None \<Rightarrow> D)
     in bindE (exportStorage E S addr (xd_stateDB D)) (\<lambda>db. Inr (D\<lparr>xd_stateDB := db\<rparr>)))"

definition dbStorage :: "evm_env \<Rightarrow> address \<Rightarrow> (bytes, bytes) kv \<Rightarrow> Storage" where
  "dbStorage E addr db =
     (let prefix = AddressStoragePrefix E addr
      in map (\<lambda>(k, v). NewState (BytesToHash E (drop (length prefix) k)) (BytesToHash E v))
           (filter (\<lambda>e. take (length prefix) (fst e) = prefix) (kv_list db)))"

definition importFromDB :: "evm_env \<Rightarrow> export_data \<Rightarrow> address \<Rightarrow> bytes \<Rightarrow> evm_stores \<Rightarrow> genesis_error + evm_stores" where
  "importFromDB E D addr codeHash st =
     (if xd_emptyDBs D then Inl PanicEvmDb
      else
        let st = (case kv_get (xd_codeDB D) (codeKey codeHash) of
                    Some c \<Rightarrow> if length c \<noteq> 0 then SetCodeDirectly codeHash c st else st
                  | None \<Rightarrow> st)
        in Inr (setStates addr (dbStorage E addr (xd_stateDB D)) st))"

definition codeFile :: "gen_env \<Rightarrow> address \<Rightarrow> string" where
  "codeFile G addr = AddressString G addr @ ''.code''"

definition storageFile :: "gen_env \<Rightarrow> address \<Rightarrow> string" where
  "storageFile G addr = AddressString G addr @ ''.storage''"

definition syncWriteAccountCode :: "gen_env \<Rightarrow> app_state \<Rightarrow> address \<Rightarrow> export_data \<Rightarrow> evm_error + export_data" where
  "syncWriteAccountCode G S addr D =
     bindE (kGetCode (ge_evm G) S addr) (\<lambda>cd.
       case cd of
         Some c \<Rightarrow>
           if length c \<noteq> 0 then Inr (D\<lparr>xd_codeFiles := (xd_codeFiles D)(codeFile G addr \<mapsto> BytesHex G c)\<rparr>) else Inr D
       | None \<Rightarrow> Inr D)"

definition storageLine :: "gen_env \<Rightarrow> hash \<Rightarrow> hash \<Rightarrow> string" where
  "storageLine G k v = HashHex G k @ '':'' @ HashHex G v @ [CHR 0x0A]"

text \<open>The file is removed again when nothing was written.\<close>

definition syncWriteAccountStorage :: "gen_env \<Rightarrow> app_state \<Rightarrow> address \<Rightarrow> export_data \<Rightarrow> evm_error + export_data" where
  "syncWriteAccountStorage G S addr D =
     bindE (kForEachStorage (ge_evm G) S addr (\<lambda>k v (content, index). (False, (content @ storageLine G k v, Suc index))) ([], 0 :: nat))
       (\<lambda>(content, index).
          Inr (D\<lparr>xd_storageFiles := (xd_storageFiles D)(storageFile G addr := if index = 0 then None else Some content)\<rparr>))"

definition exportToFile :: "gen_env \<Rightarrow> app_state \<Rightarrow> address \<Rightarrow> export_data \<Rightarrow> evm_error + export_data" where
  "exportToFile G S addr D = bindE (syncWriteAccountCode G S addr D) (syncWriteAccountStorage G S addr)"

definition syncReadCodeFromFile ::
    "gen_env \<Rightarrow> export_data \<Rightarrow> address \<Rightarrow> bytes \<Rightarrow> evm_stores \<Rightarrow> genesis_error + evm_stores" where
  "syncReadCodeFromFile G D addr codeHash st =
     (case xd_codeFiles D (codeFile G addr) of
        None \<Rightarrow> Inr st
      | Some bin \<Rightarrow>
          (case MustDecodeHex G bin of None \<Rightarrow> Inl PanicDecode | Some cd \<Rightarrow> Inr (SetCodeDirectly codeHash cd st)))"

text \<open>\<open>strings.Split\<close> at a separator of one character.\<close>

fun Split :: "char \<Rightarrow> string \<Rightarrow> string list" where
  "Split sep [] = [[]]"
| "Split sep (c # cs) =
     (if c = sep then [] # Split sep cs
      else case Split sep cs of [] \<Rightarrow> [[c]] | p # ps \<Rightarrow> (c # p) # ps)"

text \<open>The lines that \<open>ReadString\<close> returns without an error, that is with their line break, which is
  removed.\<close>

definition completeLines :: "string \<Rightarrow> string list" where
  "completeLines content = butlast (Split (CHR 0x0A) content)"

definition readStorageLine :: "gen_env \<Rightarrow> address \<Rightarrow> evm_stores \<Rightarrow> string \<Rightarrow> genesis_error + evm_stores" where
  "readStorageLine G addr st line =
     (case Split (CHR '':'') line of
        k # v # _ \<Rightarrow> Inr (SetStateDirectly addr (HashFromHex G k) (HashFromHex G v) st)
      | _ \<Rightarrow> Inl PanicLine)"

definition syncReadStorageFromFile :: "gen_env \<Rightarrow> export_data \<Rightarrow> address \<Rightarrow> evm_stores \<Rightarrow> genesis_error + evm_stores" where
  "syncReadStorageFromFile G D addr st =
     (case xd_storageFiles D (storageFile G addr) of
        None \<Rightarrow> Inr st
      | Some content \<Rightarrow> foldE (readStorageLine G addr) st (completeLines content))"

definition importFromFile ::
    "gen_env \<Rightarrow> export_data \<Rightarrow> address \<Rightarrow> bytes \<Rightarrow> evm_stores \<Rightarrow> genesis_error + evm_stores" where
  "importFromFile G D addr codeHash st =
     bindE (syncReadCodeFromFile G D addr codeHash st) (syncReadStorageFromFile G D addr)"

subsection \<open>Import and export of genesis\<close>

definition initAccount ::
    "gen_env \<Rightarrow> genesis_mode \<Rightarrow> export_data \<Rightarrow> commitStateDB \<Rightarrow> GenesisAccount \<Rightarrow> genesis_error + commitStateDB" where
  "initAccount G mode D s account =
     (let E = ge_evm G; address = HexToAddress G (ga_Address account)
      in case kv_get (ev_accounts (stores s)) (AddressBytes E address) of
           None \<Rightarrow> Inl (PanicAccountNotFound (ga_Address account))
         | Some (OtherAcc _) \<Rightarrow> Inl (PanicNotEthAccount (ga_Address account))
         | Some (EthAcc acc) \<Rightarrow>
             bindE (liftCsdb (SetNonce E s address (Sequence acc))) (\<lambda>s.
             bindE (liftCsdb (csdbSetBalance E s address (AmountOf (bondDenom E) (Coins acc)))) (\<lambda>s.
               case mode of
                 defaultMode \<Rightarrow>
                   bindE (case ga_Code account of None \<Rightarrow> Inr s | Some cd \<Rightarrow> liftCsdb (SetCode E s address (Some cd))) (\<lambda>s.
                     Inr (s\<lparr>stores := setStates address (ga_Storage account) (stores s)\<rparr>))
               | filesMode \<Rightarrow>
                   bindE (importFromFile G D address (CodeHash acc) (stores s)) (\<lambda>st. Inr (s\<lparr>stores := st\<rparr>))
               | dbMode \<Rightarrow>
                   bindE (importFromDB E D address (CodeHash acc) (stores s)) (\<lambda>st. Inr (s\<lparr>stores := st\<rparr>))
               | otherMode \<Rightarrow> Inl PanicMode)))"

definition evmInitGenesis ::
    "gen_env \<Rightarrow> genesis_mode \<Rightarrow> export_data \<Rightarrow> GenesisState \<Rightarrow> app_state \<Rightarrow> genesis_error + app_state" where
  "evmInitGenesis G mode D data S =
     bindE (kSetParams G (gs_Params data) S) (\<lambda>S.
     if mode = otherMode then Inl PanicMode
     else
       bindE (foldE (initAccount G mode D) (csdbOf S) (gs_Accounts data)) (\<lambda>s.
       let s = SetContractDeploymentWhitelist s (gs_Whitelist data);
           s = SetContractBlockedList s (gs_BlockedList data)
       in bindE (liftCsdb (Commit (ge_evm G) s False)) (\<lambda>(_, s).
          bindE (liftCsdb (Finalise (ge_evm G) s False)) (\<lambda>s.
            Inr (SetChainConfig (gs_ChainConfig data) (putCsdb s S))))))"

definition exportAccount ::
    "gen_env \<Rightarrow> genesis_mode \<Rightarrow> app_state \<Rightarrow> GenesisAccount list \<times> export_data \<times> commitStateDB \<Rightarrow> account \<Rightarrow>
     genesis_error + (GenesisAccount list \<times> export_data \<times> commitStateDB)" where
  "exportAccount G mode S x account =
     (case account of
        OtherAcc _ \<Rightarrow> Inr x
      | EthAcc acc \<Rightarrow>
          let E = ge_evm G; addr = EthAddress E acc; (accs, D, s) = x
          in bindE
               (case mode of
                  defaultMode \<Rightarrow>
                    bindE (liftCsdb (GetCode E s addr)) (\<lambda>(cd, s).
                    bindE (liftCsdb (GetAccountStorage E S addr)) (\<lambda>storage. Inr (cd, storage, D, s)))
                | filesMode \<Rightarrow> bindE (liftCsdb (exportToFile G S addr D)) (\<lambda>D. Inr (None, [], D, s))
                | dbMode \<Rightarrow> bindE (liftCsdb (exportToDB E S addr (CodeHash acc) D)) (\<lambda>D. Inr (None, [], D, s))
                | otherMode \<Rightarrow> Inl PanicMode)
               (\<lambda>(cd, storage, D, s).
                  Inr (accs @ [\<lparr>ga_Address = AddressString G addr, ga_Code = cd, ga_Storage = storage\<rparr>], D, s)))"

definition emptyChainConfig :: ChainConfig where
  "emptyChainConfig = \<lparr>HomesteadBlock = None, DAOForkBlock = None, DAOForkSupport = False, EIP150Block = None, EIP150Hash = [],
     EIP155Block = None, EIP158Block = None, ByzantiumBlock = None, ConstantinopleBlock = None, PetersburgBlock = None,
     IstanbulBlock = None, MuirGlacierBlock = None, YoloV2Block = None, EWASMBlock = None\<rparr>"

definition evmExportGenesis ::
    "gen_env \<Rightarrow> genesis_mode \<Rightarrow> export_data \<Rightarrow> app_state \<Rightarrow> genesis_error + (GenesisState \<times> export_data)" where
  "evmExportGenesis G mode D S =
     (if mode = otherMode then Inl PanicMode
      else
        bindE (foldE (exportAccount G mode S) ([], D, csdbOf S) (map snd (kv_list (as_accounts S)))) (\<lambda>(accs, D, s).
          Inr (\<lparr>gs_Accounts = accs, gs_TxsLogs = [], gs_Whitelist = GetContractDeploymentWhitelist s,
                gs_BlockedList = GetContractBlockedList s,
                gs_ChainConfig = (case GetChainConfig S of Some c \<Rightarrow> c | None \<Rightarrow> emptyChainConfig),
                gs_Params = kGetParams S\<rparr>, D)))"

end
