(* ===== verification/Evm_Indexer.thy ===== *)
theory Evm_Indexer
  imports Evm_Exec
begin

text \<open>
  The index of bloom filters by bit (evm/types/indexer.go, bloombits.go): for every section of 4096 blocks
  and each of the 2048 bits of a block's bloom filter, the vector of that bit over the blocks of the
  section.

  The loops of the code are \<open>partial_function\<close>s, so that not returning is the value \<open>None\<close>; heights and
  section numbers are 64-bit words that wrap around. The generator that rotates the filters is
  go-ethereum's, given by \<open>'b gen_ops\<close>, and \<open>bloom_env\<close> holds its compression of vectors and the batch
  writes of the database, which may fail. The database is a map from keys to values.
\<close>

definition BloomBitsBlocks :: uint64 where
  "BloomBitsBlocks = 4096"

definition BloomBitLength :: nat where
  "BloomBitLength = 2048"

record 'b gen_ops =
  NewGenerator :: "uint64 \<Rightarrow> 'b option"
  AddBloom :: "'b \<Rightarrow> uint64 \<Rightarrow> bloom \<Rightarrow> 'b" \<comment> \<open>the error of a wrong index is dropped by the caller\<close>
  Bitset :: "'b \<Rightarrow> nat \<Rightarrow> bytes option"
  CompressBytes :: "bytes \<Rightarrow> bytes"
  BatchWrite :: "(bytes \<times> bytes) list \<Rightarrow> (bytes, bytes) kv \<Rightarrow> (bytes, bytes) kv option"

record 'b bloomIndexer =
  bi_size :: uint64
  bi_db :: "(bytes, bytes) kv"
  bi_gen :: "'b option" \<comment> \<open>\<open>None\<close> is the nil pointer\<close>
  bi_section :: uint64
  bi_head :: hash

definition initBloomIndexer :: "(bytes, bytes) kv \<Rightarrow> 'b bloomIndexer" where
  "initBloomIndexer db = \<lparr>bi_size = BloomBitsBlocks, bi_db = db, bi_gen = None, bi_section = 0, bi_head = 0\<rparr>"

text \<open>\<open>Reset\<close> returns whether there was an error; the fields are overwritten on both paths.\<close>

definition bloomReset :: "'b gen_ops \<Rightarrow> uint64 \<Rightarrow> 'b bloomIndexer \<Rightarrow> bool \<times> 'b bloomIndexer" where
  "bloomReset G section b =
     (let gen = NewGenerator G (bi_size b) in (gen = None, b\<lparr>bi_gen := gen, bi_section := section, bi_head := 0\<rparr>))"

definition Process :: "'b gen_ops \<Rightarrow> uint64 \<Rightarrow> hash \<Rightarrow> uint64 \<Rightarrow> bloom \<Rightarrow> 'b bloomIndexer \<Rightarrow> 'b bloomIndexer" where
  "Process G startHeight h height bl b =
     b\<lparr>bi_gen := map_option (\<lambda>g. AddBloom G g (height - bi_section b * bi_size b - startHeight) bl) (bi_gen b), bi_head := h\<rparr>"

definition putUint16 :: "nat \<Rightarrow> bytes" where
  "putUint16 n = natBytes 2 (n mod 65536)"

definition putUint64 :: "uint64 \<Rightarrow> bytes" where
  "putUint64 w = natBytes 8 (unat w)"

definition bloomBitsKey :: "evm_env \<Rightarrow> nat \<Rightarrow> uint64 \<Rightarrow> hash \<Rightarrow> bytes" where
  "bloomBitsKey E i section h = 66 # putUint16 i @ putUint64 section @ HashBytes E h"

definition ReadBloomBits :: "evm_env \<Rightarrow> (bytes, bytes) kv \<Rightarrow> nat \<Rightarrow> uint64 \<Rightarrow> hash \<Rightarrow> bytes option" where
  "ReadBloomBits E db i section head = kv_get db (bloomBitsKey E i section head)"

definition WriteBloomBits ::
    "evm_env \<Rightarrow> (bytes \<times> bytes) list \<Rightarrow> nat \<Rightarrow> uint64 \<Rightarrow> hash \<Rightarrow> bytes \<Rightarrow> (bytes \<times> bytes) list" where
  "WriteBloomBits E batch i section head bits = batch @ [(bloomBitsKey E i section head, bits)]"

text \<open>\<open>Commit\<close>: the vectors of all bits go into one batch; \<open>None\<close> is the error of the generator or of the write.\<close>

definition commitBit ::
    "evm_env \<Rightarrow> 'b gen_ops \<Rightarrow> 'b bloomIndexer \<Rightarrow> (bytes \<times> bytes) list \<Rightarrow> nat \<Rightarrow> unit + (bytes \<times> bytes) list" where
  "commitBit E G b batch i =
     (case Option.bind (bi_gen b) (\<lambda>g. Bitset G g i) of
        None \<Rightarrow> Inl ()
      | Some bits \<Rightarrow> Inr (WriteBloomBits E batch i (bi_section b) (bi_head b) (CompressBytes G bits)))"

definition bloomCommit :: "evm_env \<Rightarrow> 'b gen_ops \<Rightarrow> 'b bloomIndexer \<Rightarrow> 'b bloomIndexer option" where
  "bloomCommit E G b =
     (case foldE (commitBit E G b) [] [0..<BloomBitLength] of
        Inl _ \<Rightarrow> None
      | Inr batch \<Rightarrow> map_option (\<lambda>db. b\<lparr>bi_db := db\<rparr>) (BatchWrite G batch (bi_db b)))"

record 'b Indexer =
  ix_backend :: "'b bloomIndexer"
  ix_storedSections :: uint64
  ix_processing :: bool

definition dbOf :: "'b Indexer \<Rightarrow> (bytes, bytes) kv" where
  "dbOf ix = bi_db (ix_backend ix)"

definition setDb :: "(bytes, bytes) kv \<Rightarrow> 'b Indexer \<Rightarrow> 'b Indexer" where
  "setDb db ix = ix\<lparr>ix_backend := (ix_backend ix)\<lparr>bi_db := db\<rparr>\<rparr>"

definition countKey :: bytes where
  "countKey = [99, 111, 117, 110, 116]" \<comment> \<open>\<open>count\<close>\<close>

definition sheadKey :: "uint64 \<Rightarrow> bytes" where
  "sheadKey section = [115, 104, 101, 97, 100] @ putUint64 section" \<comment> \<open>\<open>shead\<close>\<close>

definition GetValidSections :: "'b Indexer \<Rightarrow> uint64" where
  "GetValidSections ix =
     (case kv_get (dbOf ix) countKey of
        Some data \<Rightarrow> if length data = 8 then word_of_nat (bytesNat data) else 0
      | None \<Rightarrow> 0)"

definition sectionHead :: "evm_env \<Rightarrow> 'b Indexer \<Rightarrow> uint64 \<Rightarrow> hash" where
  "sectionHead E ix section =
     (case kv_get (dbOf ix) (sheadKey section) of
        Some h \<Rightarrow> if length h = 32 then BytesToHash E h else 0
      | None \<Rightarrow> 0)"

definition setSectionHead :: "evm_env \<Rightarrow> uint64 \<Rightarrow> hash \<Rightarrow> 'b Indexer \<Rightarrow> 'b Indexer" where
  "setSectionHead E section h ix = setDb (kv_set (sheadKey section) (HashBytes E h) (dbOf ix)) ix"

definition removeSectionHead :: "uint64 \<Rightarrow> 'b Indexer \<Rightarrow> 'b Indexer" where
  "removeSectionHead section ix = setDb (kv_del (sheadKey section) (dbOf ix)) ix"

partial_function (option) dropSections :: "uint64 \<Rightarrow> 'b Indexer \<Rightarrow> 'b Indexer option" where
  "dropSections sections ix =
     (if sections < ix_storedSections ix
      then dropSections sections
        (removeSectionHead (ix_storedSections ix - 1) (ix\<lparr>ix_storedSections := ix_storedSections ix - 1\<rparr>))
      else Some ix)"

definition setValidSections :: "uint64 \<Rightarrow> 'b Indexer \<Rightarrow> 'b Indexer option" where
  "setValidSections sections ix =
     map_option (\<lambda>ix. ix\<lparr>ix_storedSections := sections\<rparr>)
       (dropSections sections (setDb (kv_set countKey (putUint64 sections) (dbOf ix)) ix))"

definition InitIndexer :: "(bytes, bytes) kv \<Rightarrow> 'b Indexer option" where
  "InitIndexer db =
     (let ix = \<lparr>ix_backend = initBloomIndexer db, ix_storedSections = 0, ix_processing = False\<rparr>
      in setValidSections (GetValidSections ix) ix)"

text \<open>Hash and bloom filter of a block; those of the first height are empty.\<close>

definition blockHash :: "app_state \<Rightarrow> uint64 \<Rightarrow> uint64 \<Rightarrow> hash" where
  "blockHash S startHeight number = (if number = startHeight then 0 else kGetHeightHash S number)"

definition blockBloom :: "app_state \<Rightarrow> uint64 \<Rightarrow> uint64 \<Rightarrow> bloom" where
  "blockBloom S startHeight number = (if number = startHeight then 0 else GetBlockBloom S (sint number))"

definition indexBlock :: "'b gen_ops \<Rightarrow> app_state \<Rightarrow> uint64 \<Rightarrow> 'b Indexer \<Rightarrow> uint64 \<Rightarrow> 'b Indexer" where
  "indexBlock G S startHeight ix number =
     ix\<lparr>ix_backend := Process G startHeight (blockHash S startHeight number) number
        (blockBloom S startHeight number) (ix_backend ix)\<rparr>"

text \<open>The loop over the blocks of a section: \<open>Inl\<close> when the function returns early, because a block is
  unknown.\<close>

partial_function (option) processBlocks ::
    "'b gen_ops \<Rightarrow> app_state \<Rightarrow> uint64 \<Rightarrow> uint64 \<Rightarrow> uint64 \<Rightarrow> 'b Indexer \<Rightarrow> hash \<Rightarrow>
     ('b Indexer + 'b Indexer \<times> hash) option" where
  "processBlocks G S startHeight stop number ix lastHead =
     (if number < stop then
        if number \<noteq> startHeight \<and> blockHash S startHeight number = 0 then Some (Inl ix)
        else processBlocks G S startHeight stop (number + 1)
               (indexBlock G S startHeight ix number) (blockHash S startHeight number)
      else Some (Inr (ix, lastHead)))"

text \<open>One round of the loop over sections: \<open>Inl\<close> is a return.\<close>

definition processSection ::
    "evm_env \<Rightarrow> 'b gen_ops \<Rightarrow> app_state \<Rightarrow> uint64 \<Rightarrow> 'b Indexer \<Rightarrow> ('b Indexer + 'b Indexer) option" where
  "processSection E G S startHeight ix =
     (let section = ix_storedSections ix;
          lastHead = (if 0 < section then sectionHead E ix (section - 1) else 0);
          (err, b) = bloomReset G section (ix_backend ix);
          ix = ix\<lparr>ix_backend := b\<rparr>
      in if err then map_option Inl (setValidSections 0 ix)
         else
           Option.bind (processBlocks G S startHeight ((section + 1) * BloomBitsBlocks + startHeight)
               (section * BloomBitsBlocks + startHeight) ix lastHead) (\<lambda>r.
             case r of
               Inl ix \<Rightarrow> Some (Inl ix)
             | Inr (ix, lastHead) \<Rightarrow>
                 (case bloomCommit E G (ix_backend ix) of
                    None \<Rightarrow> Some (Inl ix)
                  | Some b \<Rightarrow>
                      map_option Inr (setValidSections (section + 1)
                        (setSectionHead E section lastHead (ix\<lparr>ix_backend := b\<rparr>))))))"

partial_function (option) processSections ::
    "evm_env \<Rightarrow> 'b gen_ops \<Rightarrow> app_state \<Rightarrow> uint64 \<Rightarrow> uint64 \<Rightarrow> 'b Indexer \<Rightarrow> 'b Indexer option" where
  "processSections E G S startHeight knownSection ix =
     (if ix_storedSections ix < knownSection then
        Option.bind (processSection E G S startHeight ix) (\<lambda>r.
          case r of Inl ix \<Rightarrow> Some ix | Inr ix \<Rightarrow> processSections E G S startHeight knownSection ix)
      else Some ix)"

definition ProcessSection ::
    "evm_env \<Rightarrow> 'b gen_ops \<Rightarrow> app_state \<Rightarrow> uint64 \<Rightarrow> uint64 \<Rightarrow> 'b Indexer \<Rightarrow> 'b Indexer option" where
  "ProcessSection E G S startHeight interval ix =
     (if ix_processing ix then Some ix
      else map_option (\<lambda>ix. ix\<lparr>ix_processing := False\<rparr>)
        (processSections E G S startHeight (interval div BloomBitsBlocks) (ix\<lparr>ix_processing := True\<rparr>)))"

declare dropSections.simps [code] processBlocks.simps [code] processSections.simps [code]

end
