(* ===== verification/Evm_Gov.thy ===== *)
theory Evm_Gov
  imports Evm_Genesis Evm_Indexer
begin

text \<open>
  The proposals that manage the deployment whitelist and the blocked list of contracts (evm/types/proposal.go,
  keeper/proposal.go, proposal_handler.go), the invariants that the module registers (keeper/invariants.go) and the
  answers of its queries (keeper/querier.go) before they are rendered as JSON.
\<close>

subsection \<open>Proposals\<close>

record manage_proposal =
  mp_Title :: string
  mp_Description :: string
  mp_Addrs :: "acc_address list"
  mp_IsAdded :: bool

datatype evm_content =
    ManageContractDeploymentWhitelistProposal manage_proposal
  | ManageContractBlockedListProposal manage_proposal
  | OtherContent string

datatype proposal_error =
    ErrTitleRequired
  | ErrTitleTooLong
  | ErrDescriptionRequired
  | ErrDescriptionTooLong
  | ErrEmptyAddressList
  | ErrOversizeAddrList nat
  | ErrDuplicatedAddr
  | ErrUnknownProposalType string
  | ErrUnrecognizedContent string

definition maxAddressListLength :: nat where
  "maxAddressListLength = 100"

fun duplicatedFrom :: "gen_env \<Rightarrow> string set \<Rightarrow> acc_address list \<Rightarrow> bool" where
  "duplicatedFrom G seen [] = False"
| "duplicatedFrom G seen (a # as) =
     (let key = AccString G a in if key \<in> seen then True else duplicatedFrom G (insert key seen) as)"

definition isAddrDuplicated :: "gen_env \<Rightarrow> acc_address list \<Rightarrow> bool" where
  "isAddrDuplicated G addrs = duplicatedFrom G {} addrs"

definition manageValidateBasic :: "gen_env \<Rightarrow> manage_proposal \<Rightarrow> proposal_error option" where
  "manageValidateBasic G mp =
     (if length (TrimSpace (mp_Title mp)) = 0 then Some ErrTitleRequired
      else if MaxTitleLength G < length (mp_Title mp) then Some ErrTitleTooLong
      else if length (mp_Description mp) = 0 then Some ErrDescriptionRequired
      else if MaxDescriptionLength G < length (mp_Description mp) then Some ErrDescriptionTooLong
      else if length (mp_Addrs mp) = 0 then Some ErrEmptyAddressList
      else if maxAddressListLength < length (mp_Addrs mp) then Some (ErrOversizeAddrList (length (mp_Addrs mp)))
      else if isAddrDuplicated G (mp_Addrs mp) then Some ErrDuplicatedAddr
      else None)"

text \<open>The database of these handlers reads no accounts; only its list functions are used.\<close>

definition handleManageContractDeploymentWhitelistProposal :: "manage_proposal \<Rightarrow> app_state \<Rightarrow> app_state" where
  "handleManageContractDeploymentWhitelistProposal mp S =
     (if mp_IsAdded mp then putCsdb (SetContractDeploymentWhitelist (csdbOf S) (mp_Addrs mp)) S
      else putCsdb (DeleteContractDeploymentWhitelist (csdbOf S) (mp_Addrs mp)) S)"

definition handleManageContractBlockedlListProposal :: "manage_proposal \<Rightarrow> app_state \<Rightarrow> app_state" where
  "handleManageContractBlockedlListProposal mp S =
     (if mp_IsAdded mp then putCsdb (SetContractBlockedList (csdbOf S) (mp_Addrs mp)) S
      else putCsdb (DeleteContractBlockedList (csdbOf S) (mp_Addrs mp)) S)"

definition evmProposalHandler :: "evm_content \<Rightarrow> app_state \<Rightarrow> proposal_error + app_state" where
  "evmProposalHandler content S =
     (case content of
        ManageContractDeploymentWhitelistProposal mp \<Rightarrow> Inr (handleManageContractDeploymentWhitelistProposal mp S)
      | ManageContractBlockedListProposal mp \<Rightarrow> Inr (handleManageContractBlockedlListProposal mp S)
      | OtherContent t \<Rightarrow> Inl (ErrUnknownProposalType t))"

record gov_params =
  gp_MinDeposit :: sys_coins
  gp_MaxDepositPeriod :: int
  gp_VotingPeriod :: int

definition evmGetMinDeposit :: "gov_params \<Rightarrow> evm_content \<Rightarrow> sys_coins" where
  "evmGetMinDeposit p content = (case content of OtherContent _ \<Rightarrow> [] | _ \<Rightarrow> gp_MinDeposit p)"

definition evmGetMaxDepositPeriod :: "gov_params \<Rightarrow> evm_content \<Rightarrow> int" where
  "evmGetMaxDepositPeriod p content = (case content of OtherContent _ \<Rightarrow> 0 | _ \<Rightarrow> gp_MaxDepositPeriod p)"

definition evmGetVotingPeriod :: "gov_params \<Rightarrow> evm_content \<Rightarrow> int" where
  "evmGetVotingPeriod p content = (case content of OtherContent _ \<Rightarrow> 0 | _ \<Rightarrow> gp_VotingPeriod p)"

definition evmCheckMsgSubmitProposal :: "evm_content \<Rightarrow> proposal_error option" where
  "evmCheckMsgSubmitProposal content =
     (case content of OtherContent t \<Rightarrow> Some (ErrUnrecognizedContent t) | _ \<Rightarrow> None)"

subsection \<open>Invariants\<close>

text \<open>The number of Ethereum accounts for which a check fails; the database is shared by all of them.\<close>

definition countMismatch ::
    "(commitStateDB \<Rightarrow> EthAccount \<Rightarrow> evm_error + (bool \<times> commitStateDB)) \<Rightarrow> nat \<times> commitStateDB \<Rightarrow> account \<Rightarrow>
     evm_error + (nat \<times> commitStateDB)" where
  "countMismatch check x account =
     (case account of
        OtherAcc _ \<Rightarrow> Inr x
      | EthAcc acc \<Rightarrow> bindE (check (snd x) acc) (\<lambda>(ok, s). Inr (if ok then fst x else Suc (fst x), s)))"

definition BalanceInvariant :: "evm_env \<Rightarrow> app_state \<Rightarrow> evm_error + bool" where
  "BalanceInvariant E S =
     bindE (foldE (countMismatch (\<lambda>s acc.
         bindE (GetBalance E s (EthAddress E acc)) (\<lambda>(b, s). Inr (b = AmountOf (bondDenom E) (Coins acc), s))))
       (0, csdbOf S) (map snd (kv_list (as_accounts S)))) (\<lambda>(count, _). Inr (count \<noteq> 0))"

definition NonceInvariant :: "evm_env \<Rightarrow> app_state \<Rightarrow> evm_error + bool" where
  "NonceInvariant E S =
     bindE (foldE (countMismatch (\<lambda>s acc.
         bindE (GetNonce E s (EthAddress E acc)) (\<lambda>(n, s). Inr (n = Sequence acc, s))))
       (0, csdbOf S) (map snd (kv_list (as_accounts S)))) (\<lambda>(count, _). Inr (count \<noteq> 0))"

subsection \<open>Queries\<close>

datatype query_error =
    ErrInsufficientParameters
  | ErrUnknownEndpoint
  | ErrQueryBalance
  | ErrKeyNotFound string
  | ErrStrConvertFailed
  | ErrBloomDisabled
  | ErrWrongParameters
  | PanicQuery evm_error

datatype query_result =
    QueryResBalance string
  | QueryResBlockNumber int
  | QueryResStorage bytes
  | QueryResCode "bytes option"
  | QueryBloomFilter bloom
  | QueryResAccount string bytes uint64
  | QueryResExportAccount GenesisAccount
  | QueryResParams evm_params
  | QueryResHash hash
  | QueryResSection uint64
  | QueryResAddresses "acc_address list"

definition liftQuery :: "evm_error + 'a \<Rightarrow> query_error + 'a" where
  "liftQuery m = (case m of Inl e \<Rightarrow> Inl (PanicQuery e) | Inr x \<Rightarrow> Inr x)"

definition marshalQuery :: "tx_error + string \<Rightarrow> query_error + string" where
  "marshalQuery m = (case m of Inl _ \<Rightarrow> Inl ErrQueryBalance | Inr x \<Rightarrow> Inr x)"

definition queryContractBlockedList :: "app_state \<Rightarrow> query_result" where
  "queryContractBlockedList S = QueryResAddresses (GetContractBlockedList (csdbOf S))"

definition queryContractDeploymentWhitelist :: "app_state \<Rightarrow> query_result" where
  "queryContractDeploymentWhitelist S = QueryResAddresses (GetContractDeploymentWhitelist (csdbOf S))"

definition queryBlockNumber :: "int \<Rightarrow> query_result" where
  "queryBlockNumber blockHeight = QueryResBlockNumber blockHeight"

definition queryEvmParams :: "app_state \<Rightarrow> query_result" where
  "queryEvmParams S = QueryResParams (kGetParams S)"

definition queryBalance :: "gen_env \<Rightarrow> string list \<Rightarrow> app_state \<Rightarrow> query_error + query_result" where
  "queryBalance G path S =
     (if length path < 2 then Inl ErrInsufficientParameters
      else
        bindE (liftQuery (kGetBalance (ge_evm G) S (HexToAddress G (path ! 1)))) (\<lambda>balance.
        bindE (marshalQuery (MarshalBigInt balance)) (\<lambda>str. Inr (QueryResBalance str))))"

definition queryStorage :: "gen_env \<Rightarrow> string list \<Rightarrow> app_state \<Rightarrow> query_error + query_result" where
  "queryStorage G path S =
     (if length path < 3 then Inl ErrInsufficientParameters
      else
        bindE (liftQuery (kGetState (ge_evm G) S (HexToAddress G (path ! 1)) (HashFromHex G (path ! 2)))) (\<lambda>v.
          Inr (QueryResStorage (HashBytes (ge_evm G) v))))"

definition queryCode :: "gen_env \<Rightarrow> string list \<Rightarrow> app_state \<Rightarrow> query_error + query_result" where
  "queryCode G path S =
     (if length path < 2 then Inl ErrInsufficientParameters
      else bindE (liftQuery (kGetCode (ge_evm G) S (HexToAddress G (path ! 1)))) (\<lambda>c. Inr (QueryResCode c)))"

definition queryHashToHeight :: "gen_env \<Rightarrow> string list \<Rightarrow> app_state \<Rightarrow> query_error + query_result" where
  "queryHashToHeight G path S =
     (if length path < 2 then Inl ErrInsufficientParameters
      else case kGetBlockHash S (FromHex G (path ! 1)) of
             None \<Rightarrow> Inl (ErrKeyNotFound (path ! 1))
           | Some n \<Rightarrow> Inr (QueryResBlockNumber n))"

definition queryBlockBloom :: "string list \<Rightarrow> app_state \<Rightarrow> query_error + query_result" where
  "queryBlockBloom path S =
     (if length path < 2 then Inl ErrInsufficientParameters
      else case parseInt64 (path ! 1) of
             None \<Rightarrow> Inl ErrStrConvertFailed
           | Some num \<Rightarrow> Inr (QueryBloomFilter (GetBlockBloom S num)))"

definition queryEthAccount :: "gen_env \<Rightarrow> string list \<Rightarrow> app_state \<Rightarrow> query_error + query_result" where
  "queryEthAccount G path S =
     (if length path < 2 then Inl ErrInsufficientParameters
      else
        bindE (liftQuery (kGetOrNewStateObject (ge_evm G) S (HexToAddress G (path ! 1)))) (\<lambda>(so, _).
        bindE (marshalQuery (MarshalBigInt (soBalance (ge_evm G) so))) (\<lambda>balance.
          Inr (QueryResAccount balance (soCodeHash (ge_evm G) so) (soNonce so)))))"

definition queryExportAccount :: "gen_env \<Rightarrow> string list \<Rightarrow> app_state \<Rightarrow> query_error + query_result" where
  "queryExportAccount G path S =
     (if length path < 2 then Inl ErrInsufficientParameters
      else
        let addr = HexToAddress G (path ! 1)
        in bindE (liftQuery (kForEachStorage (ge_evm G) S addr (\<lambda>k v storage. (False, storage @ [NewState k v])) [])) (\<lambda>storage.
           bindE (liftQuery (kGetCode (ge_evm G) S addr)) (\<lambda>cd.
             Inr (QueryResExportAccount \<lparr>ga_Address = path ! 1, ga_Code = cd, ga_Storage = storage\<rparr>))))"

definition queryHeightToHash :: "string list \<Rightarrow> app_state \<Rightarrow> query_error + query_result" where
  "queryHeightToHash path S =
     (if length path < 2 then Inl ErrInsufficientParameters
      else case parseInt64 (path ! 1) of
             None \<Rightarrow> Inl ErrStrConvertFailed
           | Some height \<Rightarrow> Inr (QueryResHash (kGetHeightHash S (word_of_int height))))"

definition StoredSection :: "'b Indexer option \<Rightarrow> uint64" where
  "StoredSection ix = (case ix of None \<Rightarrow> 0 | Some i \<Rightarrow> ix_storedSections i)"

definition querySection :: "bool \<Rightarrow> 'b Indexer option \<Rightarrow> string list \<Rightarrow> query_error + query_result" where
  "querySection enableBloomFilter ix path =
     (if \<not> enableBloomFilter then Inl ErrBloomDisabled
      else if length path \<noteq> 1 then Inl ErrWrongParameters
      else Inr (QueryResSection (StoredSection ix)))"

definition evmQuerier ::
    "gen_env \<Rightarrow> bool \<Rightarrow> 'b Indexer option \<Rightarrow> int \<Rightarrow> string list \<Rightarrow> app_state \<Rightarrow> query_error + query_result" where
  "evmQuerier G enableBloomFilter ix blockHeight path S =
     (case path of
        [] \<Rightarrow> Inl ErrInsufficientParameters
      | q # _ \<Rightarrow>
          if q = ''balance'' then queryBalance G path S
          else if q = ''blockNumber'' then Inr (queryBlockNumber blockHeight)
          else if q = ''storage'' then queryStorage G path S
          else if q = ''code'' then queryCode G path S
          else if q = ''hashToHeight'' then queryHashToHeight G path S
          else if q = ''bloom'' then queryBlockBloom path S
          else if q = ''account'' then queryEthAccount G path S
          else if q = ''exportAccount'' then queryExportAccount G path S
          else if q = ''params'' then Inr (queryEvmParams S)
          else if q = ''heightToHash'' then queryHeightToHash path S
          else if q = ''section'' then querySection enableBloomFilter ix path
          else if q = ''contract-deployment-whitelist''
          then Inr (queryContractDeploymentWhitelist S)
          else if q = ''contract-blocked-list''
          then Inr (queryContractBlockedList S)
          else Inl ErrUnknownEndpoint)"

end
