(* ===== verification/Evm_Persist.thy ===== *)
theory Evm_Persist
  imports Evm_Commit
begin

text \<open>
  What a transaction leaves in the stores. A run of state database operations that starts from a
  fresh database, followed by \<open>Finalise\<close> and \<open>Commit\<close>, writes exactly what was observable: another
  database opened on the stores reads the same accounts, without the dirty ones that were empty or
  suicided.
\<close>

subsection \<open>Committing what has been finalised\<close>

definition settled :: "evm_env \<Rightarrow> commitStateDB \<Rightarrow> bool" where
  "settled E s \<longleftrightarrow> csdb_wf E s \<and> (\<forall>b. sview E s b = pview E s b) \<and> (\<forall>b \<in> stateObjectsDirty s. kept E s b)"

lemma pview_not_suicided: "pview E s b = Some v \<Longrightarrow> \<not> v_suicided v"
  by (auto simp: stored_view_def storedObject_def no_code_def soView_def objectOf_def Let_def
      split: option.splits account.splits if_splits)

lemma pview_storage:
  assumes E: "evm_env_ok E" and wf: "csdb_wf E s" and v: "pview E s b = Some v"
  shows "v_storage v = stateAt (stores s) b"
proof -
  from v obtain acc where acc: "kv_get (ev_accounts (stores s)) (AddressBytes E b) = Some (EthAcc acc)"
    and v': "v = no_code (soView E (stores s) (objectOf E acc))"
    by (auto simp: stored_view_def storedObject_def split: option.splits account.splits)
  have "so_address (objectOf E acc) = b"
    using acc objectOf_wf(2) [OF E] csdb_wfD(3) [OF wf] by (auto simp: accounts_wf_def)
  then show ?thesis by (simp add: v' no_code_def soView_def soStorage_def fun_eq_iff) (simp add: objectOf_def Let_def)
qed

lemma settled_written:
  assumes s: "settled E s" and w: "object_written E a so s s'"
    and v: "sview E s' a = sview E s a" "pview E s' a = sview E s a" and k: "\<not> deleted so \<longrightarrow> \<not> soEmpty E so"
    and t: "t = s'\<lparr>stateObjectsDirty := stateObjectsDirty s' - D\<rparr>"
  shows "settled E t" and "pview E t b = pview E s b" and "length (stateObjects t) = length (stateObjects s)"
proof -
  note w' = w [unfolded object_written_def]
  have eq: "sview E s' b = sview E s b" "pview E s' b = pview E s b" for b
    using w' v s by (cases "b = a"; simp add: settled_def)+
  then show "pview E t b = pview E s b" by (simp add: t)
  have "kept E t b" if "b \<in> stateObjectsDirty s" for b
    using that w' s k by (auto simp: settled_def kept_def t)
  moreover have "stateObjectsDirty t \<subseteq> stateObjectsDirty s" using w' by (auto simp: t)
  ultimately show "settled E t" using eq w' s unfolding settled_def by (auto simp: t)
  show "length (stateObjects t) = length (stateObjects s)" using w' by (simp add: t) (metis length_map)
qed

lemma commitStep_spec:
  assumes E: "evm_env_ok E" and s: "settled E s" and step: "commitStep E True s i = Inr t"
  shows "settled E t \<and> (\<forall>b. pview E t b = pview E s b) \<and> length (stateObjects t) = length (stateObjects s)"
proof -
  have wf: "csdb_wf E s" and eq: "\<And>b. sview E s b = pview E s b" using s by (simp_all add: settled_def)
  note ix = csdb_wfD(1) [OF wf]
  from step have i: "i < length (stateObjects s)" by (auto simp: commitStep_def nthE_def split: if_splits)
  obtain a so where e: "stateObjects s ! i = (a, so)" by (cases "stateObjects s ! i")
  have idx: "addressToObjectIndex s a = Some i" using ix i e by (auto simp: indexed_def)
  have so: "map_of (stateObjects s) a = Some so" using indexed_map_of [OF ix, of a] idx e by simp
  note lv = csdb_wfD(2) [OF wf so, unfolded live_wf_def, simplified]
  have old: "sview E s a = (if deleted so then None else Some (no_code (soView E (stores s) so)))"
    using so by (simp add: view_def fetch_def)
  consider (del) "suicided so \<or> (a \<in> stateObjectsDirty s \<and> soEmpty E so)"
    | (upd) "\<not> suicided so" "a \<in> stateObjectsDirty s" "\<not> soEmpty E so"
    | (skip) "\<not> suicided so" "a \<notin> stateObjectsDirty s" by blast
  then show ?thesis
  proof cases
    case del
    have "deleted so"
    proof (rule ccontr)
      assume nd: "\<not> deleted so"
      with del s so have "suicided so" by (auto simp: settled_def kept_def)
      moreover have "pview E s a = Some (no_code (soView E (stores s) so))" using old eq [of a] nd by simp
      from pview_not_suicided [OF this] have "\<not> suicided so" by (simp add: no_code_def soView_def)
      ultimately show False by simp
    qed
    with del have gone: "suicided so \<or> soEmpty E so" and none: "sview E s a = None" using old by auto
    let ?u = "writeObject i (deleteStateObject s so)"
    have t: "t = ?u\<lparr>stateObjectsDirty := stateObjectsDirty ?u - {a}\<rparr>"
      using step i e del by (simp add: commitStep_def nthE_def)
    note w = write_delete [OF E wf idx so gone]
    from settled_written [OF s conjunct1 [OF w] _ _ _ t] w none show ?thesis by simp
  next
    case upd
    with lv have nd: "\<not> deleted so" by auto
    define so1 where "so1 = (if so_code so \<noteq> None \<and> dirtyCode so then so\<lparr>dirtyCode := False\<rparr> else so)"
    define st1 where "st1 = (if so_code so \<noteq> None \<and> dirtyCode so then commitCode E (so\<lparr>dirtyCode := False\<rparr>) (stores s) else stores s)"
    from step i e upd obtain p where p: "updateStateObject E (s\<lparr>stores := st1\<rparr>) so1 = Inr p"
      and t: "t = (writeObject i p)\<lparr>stateObjectsDirty := stateObjectsDirty (writeObject i p) - {a}\<rparr>"
      by (auto simp: commitStep_def nthE_def so1_def st1_def Let_def res_simps commitCode_def soCodeHash_def split: if_splits)
    have st1: "st1 = (stores s)\<lparr>ev_codes := ev_codes st1\<rparr>" by (simp add: st1_def commitCode_def)
    have sto: "soStorage (stores s) (so\<lparr>dirtyCode := False\<rparr>) = soStorage (stores s) so"
      by (simp add: soStorage_def fun_eq_iff split: option.splits)
    have owf: "object_wf E (stores s) (so\<lparr>dirtyCode := False\<rparr>) = object_wf E (stores s) so"
      by (simp add: object_wf_def)
    have wf1: "object_wf E (stores s) so1" and same: "so_address so1 = a" "deleted so1 = deleted so"
      "suicided so1 = suicided so" "so_account so1 = so_account so" "soStorage (stores s) so1 = soStorage (stores s) so"
      using lv owf sto by (simp_all add: so1_def)
    have "pview E s a = Some (no_code (soView E (stores s) so))" using old nd eq [of a] by simp
    from pview_storage [OF E wf this] have stor: "soStorage (stores s) so1 = stateAt (stores s) a"
      using same(5) by (simp add: no_code_def soView_def)
    from write_update [OF E wf idx same_but_storage_refl wf1 same(1) _ _ stor st1 p] same nd upd obtain so' where
      w: "object_written E a so' s (writeObject i p)"
        "sview E (writeObject i p) a = Some (no_code (soView E (stores s) so1))"
        "pview E (writeObject i p) a = Some (no_code (soView E (stores s) so1))" "soEmpty E so' = soEmpty E so1" by auto
    have "no_code (soView E (stores s) so1) = no_code (soView E (stores s) so)"
      using same lv by (simp add: no_code_soView plain_def)
    moreover have "soEmpty E so1 = soEmpty E so" using same(4) by (simp add: soEmpty_def)
    ultimately show ?thesis using settled_written [OF s w(1) _ _ _ t] w old nd upd by simp
  next
    case skip
    with step i e have "t = s\<lparr>stateObjectsDirty := stateObjectsDirty s - {a}\<rparr>"
      by (simp add: commitStep_def nthE_def)
    with s show ?thesis by (auto simp: settled_def kept_def)
  qed
qed

lemma settled_clear: "settled E (clearJournalAndRefund s) = settled E s"
  by (simp add: settled_def clearJournalAndRefund_def csdb_wf_def kept_def view_def fetch_def)

lemma Commit_spec:
  assumes E: "evm_env_ok E" and s: "settled E s" and j: "jrnl s = newJournal"
    and op: "Commit E s True = Inr (h, t)"
  shows "settled E t" and "pview E t b = pview E s b"
proof -
  from op obtain u where t: "t = clearJournalAndRefund u"
    and u: "foldE (commitStep E True) s [0..<length (stateObjects s)] = Inr u"
    using j by (auto simp: Commit_def Let_def res_simps newJournal_def)
  have "settled E u \<and> (\<forall>b. pview E u b = pview E s b)"
    using u by (rule foldE_invariant) (use s commitStep_spec [OF E] in auto)
  then show "settled E t" and "pview E t b = pview E s b"
    by (simp_all add: t settled_clear) (simp add: clearJournalAndRefund_def)
qed

subsection \<open>The dirty accounts\<close>

definition dirtyAddrs :: "commitStateDB \<Rightarrow> address set" where
  "dirtyAddrs s = {a \<in> set (map fst (dirties (jrnl s))). addressToObjectIndex s a \<noteq> None}"

lemma Finalise_spec:
  assumes E: "evm_env_ok E" and wf: "csdb_wf E s" and dist: "distinct (map fst (dirties (jrnl s)))"
    and clean: "stateObjectsDirty s = {}" and same: "\<forall>b. b \<notin> dirtyAddrs s \<longrightarrow> sview E s b = pview E s b"
    and op: "Finalise E s True = Inr t"
  shows "settled E t" and "jrnl t = newJournal" and "pview E t b = final_view E (b \<in> dirtyAddrs s) (sview E s b)"
proof -
  from op obtain u where u: "foldE (finaliseStep E True) s (dirties (jrnl s)) = Inr u"
    and t: "t = DeleteLogs (clearJournalAndRefund u) (thash (clearJournalAndRefund u))"
    by (auto simp: Finalise_def Let_def res_simps)
  note f = finalisedD [OF finalise_loop [OF E wf dist u, folded dirtyAddrs_def]]
  have eq: "pview E u b = sview E u b" for b
    using f(5-7) [of b] same by (cases "b \<in> dirtyAddrs s") simp_all
  then have "settled E u" using f(1,4,8) clean by (simp add: settled_def)
  then show "settled E t" by (simp add: t DeleteLogs_def settled_def clearJournalAndRefund_def csdb_wf_def kept_def view_def fetch_def)
  show "jrnl t = newJournal" by (simp add: t DeleteLogs_def clearJournalAndRefund_def)
  show "pview E t b = final_view E (b \<in> dirtyAddrs s) (sview E s b)"
    using eq [of b] f(5) by (simp add: t DeleteLogs_def clearJournalAndRefund_def)
qed

text \<open>Nothing but the blacklist stops the two.\<close>

definition writable :: "evm_env \<Rightarrow> bool" where
  "writable E \<longleftrightarrow> (\<forall>a. \<not> BlacklistedAddr E (AddressBytes E a)) \<and>
     (\<forall>n. 0 \<le> n \<longrightarrow> CoinIsValid (evm_dec E) \<lparr>Denom = bondDenom E, Amount = n\<rparr>)"

lemma updateStateObject_total:
  assumes "writable E" and "object_wf E st so"
  shows "\<exists>p. updateStateObject E s so = Inr p"
proof -
  have "Address (so_account so) = AddressBytes E (so_address so)" "0 \<le> soBalance E so"
    using assms(2) by (simp_all add: object_wf_def account_wf_def soBalance_def Balance_def)
  with assms(1) show ?thesis by (simp add: updateStateObject_def writable_def Let_def)
qed

lemma finaliseStep_total:
  assumes w: "writable E" and wf: "csdb_wf E s"
  shows "\<exists>t. finaliseStep E True s d = Inr t"
proof (cases "addressToObjectIndex s (fst d)")
  case None
  then show ?thesis by (simp add: finaliseStep_def)
next
  case (Some i)
  let ?so = "snd (stateObjects s ! i)"
  have i: "i < length (stateObjects s)" using indexedD [OF csdb_wfD(1) [OF wf] Some] by simp
  have "live_wf E (stores s) (stateObjects s ! i)" using wf i by (simp add: csdb_wf_def)
  then have "object_wf E (stores s) ?so" by (simp add: live_wf_def)
  from commitState_spec [OF this] obtain so' st' where
    c: "commitState ?so (stores s) = Inr (so', st')" "object_wf E st' so'" by blast
  from updateStateObject_total [OF w c(2)] obtain p where "updateStateObject E (s\<lparr>stores := st'\<rparr>) so' = Inr p" by blast
  with Some i c(1) show ?thesis by (simp add: finaliseStep_def Let_def)
qed

lemma Finalise_total:
  assumes E: "evm_env_ok E" and w: "writable E" and wf: "csdb_wf E s"
  shows "\<exists>t. Finalise E s True = Inr t"
proof -
  have "csdb_wf E s \<Longrightarrow> \<exists>t. foldE (finaliseStep E True) s ds = Inr t" for ds s
  proof (induction ds arbitrary: s)
    case (Cons d ds)
    from finaliseStep_total [OF w Cons.prems, of d] obtain t where t: "finaliseStep E True s d = Inr t" by blast
    have "csdb_wf E t"
    proof (cases "addressToObjectIndex s (fst d)")
      case None
      with t Cons.prems show ?thesis by (simp add: finaliseStep_def)
    next
      case (Some i)
      from finalisedD(1) [OF finaliseStep_spec [OF E Cons.prems Some]] t show ?thesis by (cases d) simp
    qed
    from Cons.IH [OF this] t show ?case by simp
  qed simp
  from this [OF wf, of "dirties (jrnl s)"] show ?thesis by (auto simp: Finalise_def Let_def)
qed

lemma commitStep_total:
  assumes w: "writable E" and wf: "csdb_wf E s" and i: "i < length (stateObjects s)"
  shows "\<exists>t. commitStep E True s i = Inr t"
proof -
  obtain a so where e: "stateObjects s ! i = (a, so)" by (cases "stateObjects s ! i")
  have "live_wf E (stores s) (stateObjects s ! i)" using wf i by (simp add: csdb_wf_def)
  then have "object_wf E (stores s) so" by (simp add: live_wf_def e)
  moreover from this have "object_wf E (stores s) (so\<lparr>dirtyCode := False\<rparr>)" by (simp add: object_wf_def)
  ultimately have wf': "object_wf E (stores s) so" "object_wf E (stores s) (so\<lparr>dirtyCode := False\<rparr>)" by blast+
  obtain p q where "updateStateObject E s so = Inr p"
      "updateStateObject E (s\<lparr>stores := commitCode E so (stores s)\<rparr>) (so\<lparr>dirtyCode := False\<rparr>) = Inr q"
    using updateStateObject_total [OF w wf'(1)] updateStateObject_total [OF w wf'(2)] by blast
  then show ?thesis using i e by (auto simp: commitStep_def Let_def)
qed

lemma Commit_total:
  assumes E: "evm_env_ok E" and w: "writable E" and s: "settled E s" and j: "jrnl s = newJournal"
  shows "\<exists>t. Commit E s True = Inr (0, t)"
proof -
  have "settled E s \<Longrightarrow> \<forall>i \<in> set is. i < length (stateObjects s) \<Longrightarrow> \<exists>t. foldE (commitStep E True) s is = Inr t" for "is" s
  proof (induction "is" arbitrary: s)
    case (Cons i "is")
    from commitStep_total [OF w, of s i] Cons.prems obtain t where t: "commitStep E True s i = Inr t"
      by (auto simp: settled_def)
    from Cons.IH [of t] commitStep_spec [OF E Cons.prems(1) t] Cons.prems(2) t show ?case by simp
  qed simp
  from this [OF s, of "[0..<length (stateObjects s)]"] j show ?thesis by (auto simp: Commit_def Let_def newJournal_def)
qed

text \<open>The journal counts exactly the accounts its entries name.\<close>

lemma addDirty_keys:
  assumes "indexed (map fst (dirties j)) (addressToJournalIndex j)" and "addDirty j a = Inr j'"
  shows "indexed (map fst (dirties j')) (addressToJournalIndex j') \<and>
     set (map fst (dirties j')) = insert a (set (map fst (dirties j)))"
proof (cases "addressToJournalIndex j a")
  case None
  with assms(2) have "dirties j' = dirties j @ [(a, 1)]"
      "addressToJournalIndex j' = (addressToJournalIndex j)(a \<mapsto> length (dirties j))"
    by (auto simp: addDirty_def)
  with indexed_append [OF assms(1) None] show ?thesis by simp
next
  case (Some i)
  with assms have i: "i < length (dirties j)" "fst (dirties j ! i) = a" by (auto dest: indexedD)
  have keys: "map fst ((dirties j)[i := (fst (dirties j ! i), n)]) = map fst (dirties j)" for n
    using i(1) by (simp add: map_update) (metis list_update_id nth_map)
  have "a \<in> set (map fst (dirties j))" using i by (metis length_map nth_map nth_mem)
  moreover have "map fst (dirties j') = map fst (dirties j)" "addressToJournalIndex j' = addressToJournalIndex j"
    using assms(2) Some keys by (auto simp: addDirty_def res_simps)
  ultimately show ?thesis using assms(1) by auto
qed

lemma jappends_keys:
  assumes "foldE jappend j es = Inr j'" and "indexed (map fst (dirties j)) (addressToJournalIndex j)"
  shows "indexed (map fst (dirties j')) (addressToJournalIndex j') \<and>
     set (map fst (dirties j')) = set (map fst (dirties j)) \<union> \<Union> (set_option ` dirtied ` set es)"
  using assms
proof (induction es arbitrary: j)
  case Nil
  then show ?case by simp
next
  case (Cons e es)
  then obtain k where k: "jappend j e = Inr k" "foldE jappend k es = Inr j'" by (auto simp: res_simps)
  have "indexed (map fst (dirties k)) (addressToJournalIndex k) \<and>
      set (map fst (dirties k)) = set (map fst (dirties j)) \<union> set_option (dirtied e)"
  proof (cases "dirtied e")
    case None
    with k(1) Cons.prems(2) show ?thesis by (auto simp: jappend_def)
  next
    case (Some a)
    with k(1) Cons.prems(2) addDirty_keys [of "j\<lparr>entries := entries j @ [e]\<rparr>" a k] show ?thesis
      by (auto simp: jappend_def)
  qed
  with Cons.IH [OF k(2)] show ?case by auto
qed

subsection \<open>Runs from a fresh database\<close>

text \<open>The account an entry can change.\<close>

definition targets :: "journalEntry \<Rightarrow> address set" where
  "targets e = (case e of resetObjectChange p \<Rightarrow> {so_address p} | _ \<Rightarrow> set_option (dirtied e))"

lemma aundo_view:
  assumes "aundo E st A e = Some B" and "b \<notin> targets e"
  shows "o_view B b = o_view A b"
  using assms by (cases e) (auto simp: targets_def change_def split: option.splits sum.splits if_splits)

lemma undoAll_view:
  "undoAll (aundo E st) A es = Some B \<Longrightarrow> \<forall>e \<in> set es. b \<notin> targets e \<Longrightarrow> o_view B b = o_view A b"
  by (induction es arbitrary: A) (auto split: option.splits dest: aundo_view)

lemma logged_untouched:
  assumes "logged E s es t" and "\<forall>e \<in> set es. b \<notin> targets e"
  shows "view E t b = view E s b"
proof -
  from assms(1) obtain A where "undoAll (aundo E (stores s)) (abs E t) (rev es) = Some A" "abs_le (abs E s) A"
    by (auto simp: logged_def evm_log.rolls_back_def)
  with undoAll_view [of E "stores s" "abs E t" "rev es" A b] abs_leD(1) [of "abs E s" A] assms(2) show ?thesis by simp
qed

definition from_fresh :: "evm_env \<Rightarrow> commitStateDB \<Rightarrow> commitStateDB \<Rightarrow> bool" where
  "from_fresh E s t \<longleftrightarrow> (\<exists>es. logged E s es t) \<and> revs_ok t \<and> stateObjectsDirty t \<subseteq> stateObjectsDirty s"

lemma from_fresh_revert:
  assumes E: "evm_env_ok E" and f: "from_fresh E s t" and j: "jrnl s = newJournal"
    and rev: "RevertToSnapshot E t i = Inr u"
  shows "from_fresh E s u"
proof -
  from f obtain es where es: "logged E s es t" and revs: "revs_ok t" and dty: "stateObjectsDirty t \<subseteq> stateObjectsDirty s"
    by (auto simp: from_fresh_def)
  let ?vs = "validRevisions t"
  from RevertToSnapshot_found [OF revs rev] obtain k v where k: "k < length ?vs"
    and v: "jrevert E t (journalIndex (?vs ! k)) = Inr v" and u: "u = v\<lparr>validRevisions := take k (validRevisions v)\<rparr>"
    by blast
  define d where "d = journalIndex (?vs ! k)"
  have d: "d \<le> length es"
    using revs k logged_journal(2) [OF es] j by (simp add: revs_ok_def d_def newJournal_def)
  have "logged E s (take d es @ drop d es) t" using es by simp
  from jrevert_logged [OF E this] d v j have lv: "logged E s (take d es) v" and adm: "same_admin t v"
    by (auto simp: d_def newJournal_def min_absorb2)
  have "logged E s (take d es) u" using lv by (simp add: u logged_def)
  moreover have "revs_ok u"
  proof -
    have srt: "sorted_wrt (\<lambda>r q. rev_id r < rev_id q \<and> journalIndex r \<le> journalIndex q) ?vs"
      using revs by (simp add: revs_ok_def)
    have "length (entries (jrnl u)) = d"
      using logged_journal(2) [OF lv] d j by (simp add: u newJournal_def)
    moreover have "journalIndex r \<le> d" if "r \<in> set (take k ?vs)" for r
      using that srt k by (auto simp: in_set_conv_nth sorted_wrt_iff_nth_less d_def)
    ultimately show ?thesis using revs adm unfolding revs_ok_def same_admin_def u
      by (auto dest: in_set_takeD intro: sorted_wrt_take)
  qed
  moreover have "stateObjectsDirty u \<subseteq> stateObjectsDirty s" using adm dty by (auto simp: u same_admin_def)
  ultimately show ?thesis by (auto simp: from_fresh_def)
qed

lemma run_from_fresh:
  assumes E: "evm_env_ok E" and ok: "csdb_ok E s" and j: "jrnl s = newJournal"
    and run: "foldE (exec E) s ops = Inr t" and ops: "list_all (op_ok i) ops"
  shows "from_fresh E s t"
  using run
proof (rule foldE_invariant)
  show "from_fresh E s s"
    using ok evm_log.rolls_back_nil [of "abs E s" "abs E s"]
    by (auto simp: from_fresh_def csdb_ok_def evm_ready_def logged_def intro!: exI [of _ "[]"])
next
  fix c t u
  assume c: "c \<in> set ops" and f: "from_fresh E s t" and op: "exec E t c = Inr u"
  then obtain es where es: "logged E s es t" and revs: "revs_ok t" and dty: "stateObjectsDirty t \<subseteq> stateObjectsDirty s"
    by (auto simp: from_fresh_def)
  note r = logged_ready [OF es]
  show "from_fresh E s u"
  proof (cases "\<exists>k. c = OpRevert k")
    case True
    with op from_fresh_revert [OF E f j] show ?thesis by auto
  next
    case False
    have "(\<exists>fs. logged E t fs u) \<and> revs_ok u \<and> stateObjectsDirty u \<subseteq> stateObjectsDirty t"
    proof (cases "c = OpSnapshot")
      case True
      with op snapshot_after [of E t] r revs show ?thesis by (auto simp: csdb_ok_def after_snapshot_def Snapshot_def)
    next
      case False
      have "op_ok i c" using ops c by (simp add: list_all_iff)
      from exec_step [OF E r op this] False \<open>\<nexists>k. c = OpRevert k\<close> have "journals E t u" by blast
      then show ?thesis using csdb_ok_journals [of E t u] r revs by (auto simp: journals_def csdb_ok_def same_admin_def)
    qed
    with logged_trans [OF es] dty show ?thesis by (auto simp: from_fresh_def)
  qed
qed

text \<open>An account that was replaced by \<open>CreateAccount\<close> is not dirtied by that alone.\<close>

definition resets_dirty :: "commitStateDB \<Rightarrow> bool" where
  "resets_dirty s \<longleftrightarrow> (\<forall>p. resetObjectChange p \<in> set (entries (jrnl s)) \<longrightarrow> so_address p \<in> set (map fst (dirties (jrnl s))))"

lemma fresh_ok:
  assumes "accounts_wf E st"
  shows "csdb_ok E (CreateEmptyCommitStateDB st n)"
  using assms by (simp add: csdb_ok_def evm_ready_def csdb_wf_def CreateEmptyCommitStateDB_def al_wf_empty jpos_def
      newJournal_def revs_ok_def)

lemma not_cached_stored:
  assumes "csdb_wf E s" and "addressToObjectIndex s b = None"
  shows "sview E s b = pview E s b"
  using indexed_map_of [OF csdb_wfD(1) [OF assms(1)], of b] assms(2) by (simp add: view_def fetch_def stored_view_def)

lemma run_persistent_at:
  assumes E: "evm_env_ok E" and s: "csdb_ok E s" "jrnl s = newJournal" "stateObjectsDirty s = {}"
    and fresh: "\<And>b. view E s b = stored_view E (stores s) b"
    and run: "foldE (exec E) s ops = Inr t" and ops: "list_all (op_ok i) ops" and rd: "resets_dirty t"
  shows "csdb_wf E t" and "distinct (map fst (dirties (jrnl t)))" and "stateObjectsDirty t = {}"
    and "\<forall>b. b \<notin> dirtyAddrs t \<longrightarrow> sview E t b = pview E t b"
proof -
  from run_from_fresh [OF E s(1,2) run ops] obtain es where es: "logged E s es t"
    and "stateObjectsDirty t \<subseteq> stateObjectsDirty s" by (auto simp: from_fresh_def)
  then show wf: "csdb_wf E t" and "stateObjectsDirty t = {}" using s(3) by (simp_all add: logged_def)
  have "foldE jappend newJournal es = Inr (jrnl t)" using es s(2) by (simp add: logged_def)
  from jappends_keys [OF this] have k: "indexed (map fst (dirties (jrnl t))) (addressToJournalIndex (jrnl t))"
    "set (map fst (dirties (jrnl t))) = \<Union> (set_option ` dirtied ` set es)" by (auto simp: newJournal_def)
  show "distinct (map fst (dirties (jrnl t)))" using indexed_distinct [OF k(1)] .
  have ents: "entries (jrnl t) = es" using logged_journal(2) [OF es] s(2) by (simp add: newJournal_def)
  have "sview E t b = pview E t b" if b: "b \<notin> set (map fst (dirties (jrnl t)))" for b
  proof -
    have "b \<notin> targets e" if e: "e \<in> set es" for e
    proof (cases "\<exists>p. e = resetObjectChange p")
      case True
      with b rd e ents show ?thesis by (auto simp: targets_def resets_dirty_def)
    next
      case False
      then have "targets e = set_option (dirtied e)" by (cases e) (auto simp: targets_def)
      with b e k(2) show ?thesis by auto
    qed
    with logged_untouched [OF es, of b] have "view E t b = view E s b" by blast
    moreover have "stores t = stores s" using es by (simp add: logged_def)
    ultimately show ?thesis by (simp add: fresh)
  qed
  with not_cached_stored [OF wf] show "\<forall>b. b \<notin> dirtyAddrs t \<longrightarrow> sview E t b = pview E t b"
    by (auto simp: dirtyAddrs_def)
qed

lemma run_persistent:
  assumes E: "evm_env_ok E" and st: "accounts_wf E st"
    and run: "foldE (exec E) (CreateEmptyCommitStateDB st n) ops = Inr t" and ops: "list_all (op_ok i) ops"
    and rd: "resets_dirty t"
  shows "csdb_wf E t" and "distinct (map fst (dirties (jrnl t)))" and "stateObjectsDirty t = {}"
    and "\<forall>b. b \<notin> dirtyAddrs t \<longrightarrow> sview E t b = pview E t b"
proof -
  let ?s = "CreateEmptyCommitStateDB st n"
  have "jrnl ?s = newJournal" "stateObjectsDirty ?s = {}" "view E ?s b = stored_view E (stores ?s) b" for b
    by (simp_all add: CreateEmptyCommitStateDB_def view_def fetch_def stored_view_def)
  note p = run_persistent_at [OF E fresh_ok [OF st] this run ops rd]
  show "csdb_wf E t" and "distinct (map fst (dirties (jrnl t)))" and "stateObjectsDirty t = {}"
    and "\<forall>b. b \<notin> dirtyAddrs t \<longrightarrow> sview E t b = pview E t b" using p by blast+
qed

subsection \<open>Properties\<close>


definition run1 :: "evm_op list" where
  "run1 = [OpAddBalance 5 7, OpSetState 5 1 9, OpSnapshot, OpAddBalance 6 3, OpRevert 0, OpAddBalance 8 0]"

lemma env0_coin [simp]: "CoinIsValid (evm_dec evm_env0) c \<longleftrightarrow> Denom c \<noteq> [] \<and> 0 \<le> Amount c"
  by (simp add: evm_env0_def dec18_def)

lemma run1_ends:
  "\<exists>t. foldE (exec evm_env0) (CreateEmptyCommitStateDB stores0 0) run1 = Inr t \<and> resets_dirty t \<and> 5 \<in> dirtyAddrs t \<and>
     (\<exists>v. view evm_env0 t 5 = Some v \<and> v_amount v ''okt'' = 7)"
  by (simp add: run1_def evm_run evm_revert resets_dirty_def ripemd_def dirtyAddrs_def view_def fetch_def soView_def
      cong: bindE_weak_cong)

lemma stores0_wf: "accounts_wf E stores0"
  by (simp add: accounts_wf_def stores0_def)

lemma env0_writable: "writable evm_env0"
  by (simp add: writable_def)




text \<open>A contract with one storage slot, and what is left after it destroyed itself.\<close>

definition slot0 :: hash where
  "slot0 = Keccak256Hash evm_env0 (AddressBytes evm_env0 5 @ HashBytes evm_env0 1)"

definition stores1 :: evm_stores where
  "stores1 = stores0\<lparr>ev_accounts := kv_set (AddressBytes evm_env0 5)
       (EthAcc ((ProtoAccount evm_env0)\<lparr>Address := AddressBytes evm_env0 5, Sequence := 1\<rparr>)) kv_empty,
     ev_storage := kv_set (5, slot0) 9 kv_empty\<rparr>"

lemmas evm_finalise = Finalise_def finaliseStep_def deleteStateObject_def writeObject_def
  clearJournalAndRefund_def DeleteLogs_def

lemma env0_keccak [simp]: "Keccak256 evm_env0 b \<noteq> []"
  using evm_env_okD(4) [OF evm_env0_ok] by (simp add: Keccak256_def)


end
