(* ===== verification/Evm_Nonce.thy ===== *)
theory Evm_Nonce
  imports Evm_Exec Evm_Persist
begin

text \<open>
  What a state transition does to the sender's nonce. The interpreter may run any operations of the
  state database; afterwards \<open>TransitionDb\<close> sets the nonce of the sender back to the value the ante
  handler left, and the lemmas here follow that value through \<open>Finalise\<close> and \<open>Commit\<close> into the account
  store.

  \<open>vm_sound\<close> is the documented behaviour of go-ethereum's interpreter that the properties use: it
  never returns more gas than it was given, it changes the state only by operations of the
  \<open>StateDB\<close> interface (never touching the RIPEMD precompile with a zero amount), an account it
  replaces is written afterwards, and the account of the caller is not destroyed.
\<close>

subsection \<open>Setting a nonce\<close>

lemma GetOrNewStateObject_object:
  assumes E: "evm_env_ok E" and r: "evm_ready E s" and get: "GetOrNewStateObject E s a = Inr (so, u)"
  shows "fetch E s a = Some so \<and> jrnl u = jrnl s \<or>
     \<not> suicided so \<and> jappend (jrnl s) (createObjectChange a) = Inr (jrnl u)"
proof -
  from get obtain x t where x: "getStateObject E s a = Inr (x, t)"
    by (auto simp: GetOrNewStateObject_def res_simps)
  note g = getStateObject_step [OF E r x]
  have j: "jrnl t = jrnl s" using g(4) same_but_cacheD by (simp add: loads_def)
  show ?thesis
  proof (cases x)
    case (Some y)
    with g(3) have "\<not> deleted y" by (simp add: live_def)
    with get x Some g(2) j show ?thesis by (simp add: GetOrNewStateObject_def)
  next
    case None
    with get x obtain prev where cr: "createObject E t a = Inr (so, prev, u)"
      by (auto simp: GetOrNewStateObject_def res_simps)
    have rt: "evm_ready E t" using journals_ready [OF g(1)] .
    have ft: "fetch E t a = None" using g(2,4) None by (simp add: loads_def)
    from cr obtain t' k new where t': "getStateObject E t a = Inr (prev, t')"
      and new: "newStateObject E (NewAccount E (nextAccountNumber t') (AddressBytes E a)) = Inr new" "so = setNonce new 0"
      and k: "jappend (jrnl t') (case prev of None \<Rightarrow> createObjectChange a | Some p \<Rightarrow> resetObjectChange p) = Inr k"
      and set: "setStateObject (t'\<lparr>nextAccountNumber := nextAccountNumber t' + 1, jrnl := k\<rparr>) so = Inr u"
      by (auto simp: createObject_def res_simps Let_def)
    note g' = getStateObject_step [OF E rt t']
    have "prev = None" "jrnl t' = jrnl s" using g'(2,4) ft j same_but_cacheD by (auto simp: loads_def)
    moreover have "jrnl u = k" using set by (auto simp: setStateObject_def res_simps split: option.splits)
    moreover have "\<not> suicided so"
      using new evm_env_okD(5) [OF E] by (auto simp: newStateObject_def setNonce_def objectOf_def Let_def)
    ultimately show ?thesis using k by simp
  qed
qed

lemma SetNonce_effect:
  assumes E: "evm_env_ok E" and r: "evm_ready E s" and op: "SetNonce E s a n = Inr t"
  shows "\<exists>v. view E t a = Some v \<and> Sequence (v_account v) = n \<and>
       (v_suicided v \<longrightarrow> (\<exists>w. view E s a = Some w \<and> v_suicided w))"
    and "\<exists>fs. foldE jappend (jrnl s) fs = Inr (jrnl t) \<and> (\<forall>p. resetObjectChange p \<notin> set fs)"
proof -
  from op obtain so u p where get: "GetOrNewStateObject E s a = Inr (so, u)"
    and p: "soSetNonce (jrnl u) so n = Inr p" "putBack u p = Inr t" by (auto simp: SetNonce_def res_simps)
  note g = GetOrNewStateObject_step [OF E r get] and o = GetOrNewStateObject_object [OF E r get]
  have ru: "evm_ready E u" using journals_ready [OF g(1)] .
  then have wf: "csdb_wf E u" by (simp add: evm_ready_def)
  note obj = live_object [OF wf g(2)] 
  note w = setNonce_object [OF obj(1), of n]
  from p obtain k where k: "jappend (jrnl u) (nonceChange a (Sequence (so_account so))) = Inr k"
    and put: "setStateObject (u\<lparr>jrnl := k\<rparr>) (setNonce so n) = Inr t"
    by (auto simp: soSetNonce_def putBack_def res_simps obj(2))
  have "live_wf E (stores u) (a, setNonce so n)"
    using w(1,3,4) obj(2) g(2) by (simp add: live_wf_def live_def)
  with setStateObject_spec [of E "u\<lparr>jrnl := k\<rparr>" "setNonce so n"] put wf w(3) obj(2)
  have st: "same_but_cache (u\<lparr>jrnl := k\<rparr>) t" "map_of (stateObjects t) = (map_of (stateObjects u))(a \<mapsto> setNonce so n)"
    by (auto simp: csdb_wf_def)
  have v: "view E t a = Some (soView E (stores u) (setNonce so n))"
    using view_stored [OF st(1), of a "setNonce so n" E] st(2) w(4) g(2) by (simp add: live_def)
  have "v_suicided (soView E (stores u) (setNonce so n)) = suicided so" by (simp add: soView_def setNonce_def)
  moreover have "\<exists>w. view E s a = Some w \<and> v_suicided w" if "suicided so"
    using that o by (auto simp: view_def soView_def)
  ultimately show "\<exists>v. view E t a = Some v \<and> Sequence (v_account v) = n \<and>
       (v_suicided v \<longrightarrow> (\<exists>w. view E s a = Some w \<and> v_suicided w))"
    using v w(2) by auto
  have jt: "jrnl t = k" using same_but_cacheD [OF st(1)] by simp
  show "\<exists>fs. foldE jappend (jrnl s) fs = Inr (jrnl t) \<and> (\<forall>p. resetObjectChange p \<notin> set fs)"
  proof (cases "jrnl u = jrnl s")
    case True
    with k jt show ?thesis by (intro exI [of _ "[nonceChange a (Sequence (so_account so))]"]) simp
  next
    case False
    with o k jt show ?thesis
      by (intro exI [of _ "[createObjectChange a, nonceChange a (Sequence (so_account so))]"]) simp
  qed
qed

lemma resets_dirty_SetNonce:
  assumes E: "evm_env_ok E" and s: "csdb_ok E s" "jrnl s = newJournal" and run: "foldE (exec E) s ops = Inr t"
    and ops: "list_all (op_ok i) ops" and rd: "resets_dirty t" and op: "SetNonce E t a n = Inr u"
  shows "resets_dirty u"
proof -
  from run_from_fresh [OF E s run ops] obtain es where es: "logged E s es t" by (auto simp: from_fresh_def)
  have "foldE jappend newJournal es = Inr (jrnl t)" using es s(2) by (simp add: logged_def)
  from jappends_keys [OF this] have ix: "indexed (map fst (dirties (jrnl t))) (addressToJournalIndex (jrnl t))"
    by (auto simp: newJournal_def)
  from SetNonce_effect(2) [OF E logged_ready [OF es] op] obtain fs where
    fs: "foldE jappend (jrnl t) fs = Inr (jrnl u)" "\<forall>p. resetObjectChange p \<notin> set fs" by blast
  from jappends_keys [OF fs(1) ix] jappends_effect [OF fs(1) logged_journal(1) [OF es]] fs(2) rd
  show ?thesis by (auto simp: resets_dirty_def)
qed

subsection \<open>Runs of the interpreter\<close>

definition vm_step :: "evm_env \<Rightarrow> address \<Rightarrow> uint64 \<Rightarrow> commitStateDB \<Rightarrow> vm_result \<Rightarrow> commitStateDB \<Rightarrow> bool" where
  "vm_step E caller gas s r t \<longleftrightarrow> vr_leftOver r \<le> gas \<and>
     (\<exists>ops. list_all (op_ok (-1)) ops \<and> foldE (exec E) s ops = Inr t) \<and>
     (resets_dirty s \<longrightarrow> resets_dirty t) \<and>
     ((\<forall>w. view E s caller = Some w \<longrightarrow> \<not> v_suicided w) \<longrightarrow> (\<forall>w. view E t caller = Some w \<longrightarrow> \<not> v_suicided w))"

definition vm_sound :: "'g exec_env \<Rightarrow> bool" where
  "vm_sound X \<longleftrightarrow>
     (\<forall>vm caller input gas amt s r t. vmCreate X vm caller input gas amt s = Inr (r, t) \<longrightarrow> vm_step (xe_evm X) caller gas s r t) \<and>
     (\<forall>vm caller to input gas amt s r t. vmCall X vm caller to input gas amt s = Inr (r, t) \<longrightarrow> vm_step (xe_evm X) caller gas s r t)"

text \<open>A database without objects, and the states that a run from it can be in while the account
  \<open>a\<close> has not been destroyed.\<close>

definition opened :: "evm_env \<Rightarrow> commitStateDB \<Rightarrow> bool" where
  "opened E s \<longleftrightarrow> csdb_ok E s \<and> jrnl s = newJournal \<and> stateObjectsDirty s = {} \<and>
     (\<forall>b. view E s b = stored_view E (stores s) b)"

definition running :: "evm_env \<Rightarrow> commitStateDB \<Rightarrow> address \<Rightarrow> commitStateDB \<Rightarrow> bool" where
  "running E s0 a s \<longleftrightarrow> (\<exists>ops. list_all (op_ok (-1)) ops \<and> foldE (exec E) s0 ops = Inr s) \<and> resets_dirty s \<and>
     (\<forall>w. view E s a = Some w \<longrightarrow> \<not> v_suicided w)"

lemma opened_openCsdb:
  assumes "accounts_wf E (as_stores S)"
  shows "opened E (snd (csdbGetParams (openCsdb k sim h S)))"
  using assms
  by (simp add: opened_def openCsdb_def csdbGetParams_def Prepare_def CreateEmptyCommitStateDB_def csdb_ok_def
      evm_ready_def csdb_wf_def al_wf_empty jpos_def newJournal_def revs_ok_def view_def fetch_def stored_view_def Let_def)

lemma running_start:
  assumes "opened E s"
  shows "running E s a s"
proof -
  have "\<not> v_suicided w" if "view E s a = Some w" for w
    using that assms pview_not_suicided [of E s a] by (auto simp: opened_def no_code_def)
  with assms show ?thesis
    by (auto simp: running_def opened_def resets_dirty_def newJournal_def intro!: exI [of _ "[]"])
qed

lemma running_ready:
  assumes E: "evm_env_ok E" and o: "opened E s0" and r: "running E s0 a s"
  shows "evm_ready E s"
proof -
  from r obtain ops where ops: "foldE (exec E) s0 ops = Inr s" "list_all (op_ok (-1)) ops" by (auto simp: running_def)
  from run_from_fresh [OF E _ _ ops] o show ?thesis by (auto simp: opened_def from_fresh_def intro: logged_ready)
qed

lemma running_ops:
  assumes "running E s0 a s" and "list_all (op_ok (-1)) ops" and "foldE (exec E) s ops = Inr t"
    and "resets_dirty t" and "\<forall>w. view E t a = Some w \<longrightarrow> \<not> v_suicided w"
  shows "running E s0 a t"
proof -
  from assms(1) obtain os where "list_all (op_ok (-1)) os" "foldE (exec E) s0 os = Inr s" by (auto simp: running_def)
  with assms(2-) show ?thesis by (auto simp: running_def foldE_append intro!: exI [of _ "os @ ops"])
qed

lemma running_GetNonce:
  assumes E: "evm_env_ok E" and o: "opened E s0" and r: "running E s0 a s" and op: "GetNonce E s b = Inr (n, t)"
  shows "running E s0 a t" and "view E t = view E s" and "n = (case view E s b of None \<Rightarrow> 0 | Some v \<Rightarrow> Sequence (v_account v))"
proof -
  have rd: "evm_ready E s" using running_ready [OF E o r] .
  from op obtain x where g: "getStateObject E s b = Inr (x, t)" and n: "n = (case x of None \<Rightarrow> 0 | Some so \<Rightarrow> soNonce so)"
    by (auto simp: GetNonce_def readObject_def res_simps)
  note l = getStateObject_step [OF E rd g]
  show v: "view E t = view E s" using loads_view [OF l(4)] .
  have j: "jrnl t = jrnl s" using l(4) same_but_cacheD by (simp add: loads_def)
  show "n = (case view E s b of None \<Rightarrow> 0 | Some v \<Rightarrow> Sequence (v_account v))"
    using n l(2) by (auto simp: view_def soView_def soNonce_def split: option.splits)
  show "running E s0 a t"
    by (rule running_ops [OF r, of "[OpGetNonce b]"]) (use op r j v in \<open>auto simp: running_def resets_dirty_def\<close>)
qed

lemma running_SetNonce:
  assumes E: "evm_env_ok E" and o: "opened E s0" and r: "running E s0 a s" and op: "SetNonce E s a n = Inr t"
  shows "running E s0 a t" and "\<exists>v. view E t a = Some v \<and> Sequence (v_account v) = n \<and> \<not> v_suicided v"
proof -
  have rd: "evm_ready E s" using running_ready [OF E o r] .
  from r obtain ops where ops: "foldE (exec E) s0 ops = Inr s" "list_all (op_ok (-1)) ops" and "resets_dirty s"
    and ns: "\<forall>w. view E s a = Some w \<longrightarrow> \<not> v_suicided w" by (auto simp: running_def)
  then have "resets_dirty t" using resets_dirty_SetNonce [OF E _ _ ops _ op] o by (simp add: opened_def)
  moreover show v: "\<exists>v. view E t a = Some v \<and> Sequence (v_account v) = n \<and> \<not> v_suicided v"
    using SetNonce_effect(1) [OF E rd op] ns by blast
  ultimately show "running E s0 a t"
    by (intro running_ops [OF r, of "[OpSetNonce a n]"]) (use op in auto)
qed

lemma running_vm:
  assumes "running E s0 a s" and "vm_step E a gas s r t"
  shows "running E s0 a t"
proof -
  from assms(2) obtain ops where ops: "list_all (op_ok (-1)) ops" "foldE (exec E) s ops = Inr t" by (auto simp: vm_step_def)
  from assms have "resets_dirty t" "\<forall>w. view E t a = Some w \<longrightarrow> \<not> v_suicided w" by (simp_all add: vm_step_def running_def)
  with running_ops [OF assms(1) ops] show ?thesis .
qed

lemma stateE_Inr [res_simps]: "stateE m = Inr y \<longleftrightarrow> m = Inr y"
  by (auto simp: stateE_def split: sum.splits evm_error.splits)

lemma runMessage_runs:
  assumes E: "evm_env_ok (xe_evm X)" and vm: "vm_sound X" and o: "opened (xe_evm X) s0"
    and r: "running (xe_evm X) s0 (st_Sender st) s" and run: "runMessage X st ctx gas p s = Inr (res, t)"
  shows "running (xe_evm X) s0 (st_Sender st) t" and "vr_leftOver res \<le> gas"
proof -
  have "running (xe_evm X) s0 (st_Sender st) t \<and> vr_leftOver res \<le> gas"
  proof (cases "st_Recipient st")
    case None
    with run have "vmCreate X ctx (st_Sender st) (st_Payload st) gas (st_Amount st) s = Inr (res, t)"
      by (simp add: runMessage_def stateE_Inr split: if_splits)
    with vm have "vm_step (xe_evm X) (st_Sender st) gas s res t" unfolding vm_sound_def by blast
    with running_vm [OF r this] show ?thesis by (simp add: vm_step_def)
  next
    case (Some to)
    with run obtain n u v where u: "GetNonce (xe_evm X) s (st_Sender st) = Inr (n, u)"
      "SetNonce (xe_evm X) u (st_Sender st) (n + 1) = Inr v"
      "vmCall X ctx (st_Sender st) to (st_Payload st) gas (st_Amount st) v = Inr (res, t)"
      by (auto simp: runMessage_def res_simps)
    with vm have v: "vm_step (xe_evm X) (st_Sender st) gas v res t" unfolding vm_sound_def by blast
    from running_vm [OF running_SetNonce(1) [OF E o running_GetNonce(1) [OF E o r u(1)] u(2)] v] v show ?thesis
      by (simp add: vm_step_def)
  qed
  then show "running (xe_evm X) s0 (st_Sender st) t" and "vr_leftOver res \<le> gas" by simp_all
qed

lemma running_stores:
  assumes E: "evm_env_ok E" and o: "opened E s0" and r: "running E s0 a s"
  shows "stores s = stores s0"
proof -
  from r obtain ops where ops: "foldE (exec E) s0 ops = Inr s" "list_all (op_ok (-1)) ops" by (auto simp: running_def)
  from run_from_fresh [OF E _ _ ops] o show ?thesis by (auto simp: opened_def from_fresh_def logged_def)
qed

text \<open>Finalising and committing succeed after a run.\<close>

lemma running_commits:
  assumes E: "evm_env_ok E" and w: "writable E" and o: "opened E s0" and r: "running E s0 a s" and op: "SetNonce E s a n = Inr t"
  shows "\<exists>u v. Finalise E t True = Inr u \<and> Commit E u True = Inr (0, v)"
proof -
  from running_SetNonce(1) [OF E o r op] obtain ops where ops: "foldE (exec E) s0 ops = Inr t" "list_all (op_ok (-1)) ops" "resets_dirty t"
    by (auto simp: running_def)
  then have p: "csdb_wf E t" "distinct (map fst (dirties (jrnl t)))" "stateObjectsDirty t = {}"
    "\<forall>b. b \<notin> dirtyAddrs t \<longrightarrow> sview E t b = pview E t b"
    using run_persistent_at [OF E _ _ _ _ ops] o by (auto simp: opened_def)
  from Finalise_total [OF E w p(1)] obtain u where u: "Finalise E t True = Inr u" by blast
  from Commit_total [OF E w Finalise_spec(1,2) [OF E p u]] u show ?thesis by blast
qed

subsection \<open>The nonce in the store\<close>

definition storedNonce :: "evm_env \<Rightarrow> evm_stores \<Rightarrow> address \<Rightarrow> uint64 option" where
  "storedNonce E st a =
     (case kv_get (ev_accounts st) (AddressBytes E a) of Some (EthAcc acc) \<Rightarrow> Some (Sequence acc) | _ \<Rightarrow> None)"

lemma storedNonce_view: "storedNonce E st a = map_option (\<lambda>v. Sequence (v_account v)) (map_option no_code (stored_view E st a))"
  by (auto simp: storedNonce_def stored_view_def storedObject_def no_code_def soView_def objectOf_def Let_def
      split: option.splits account.splits)

text \<open>What \<open>Finalise\<close> and \<open>Commit\<close> leave in the stores after a run.\<close>

lemma commitRun_settles:
  assumes E: "evm_env_ok (xe_evm X)" and o: "opened (xe_evm X) s0" and r: "running (xe_evm X) s0 (st_Sender st) s"
    and run: "commitRun X st gas n res s = Inr (er, rd, v)" and sim: "\<not> st_Simulate st"
  shows "accounts_wf (xe_evm X) (stores v)"
    and "\<exists>t w. view (xe_evm X) t (st_Sender st) = Some w \<and> Sequence (v_account w) = n \<and> \<not> v_suicided w \<and>
       pview (xe_evm X) v (st_Sender st) =
         final_view (xe_evm X) (st_Sender st \<in> dirtyAddrs t) (sview (xe_evm X) t (st_Sender st))"
proof -
  let ?E = "xe_evm X" and ?a = "st_Sender st"
  from run sim obtain t u h where t: "SetNonce ?E s ?a n = Inr t" and u: "Finalise ?E t True = Inr u"
    and v: "Commit ?E u True = Inr (h, v)"
    by (auto simp: commitRun_def res_simps Let_def split: option.splits)
  note rt = running_SetNonce [OF E o r t]
  from rt(1) obtain ops where ops: "foldE (exec ?E) s0 ops = Inr t" "list_all (op_ok (-1)) ops" and "resets_dirty t"
    by (auto simp: running_def)
  then have p: "csdb_wf ?E t" "distinct (map fst (dirties (jrnl t)))" "stateObjectsDirty t = {}"
    "\<forall>b. b \<notin> dirtyAddrs t \<longrightarrow> sview ?E t b = pview ?E t b"
    using run_persistent_at [OF E _ _ _ _ ops] o by (auto simp: opened_def)
  note f = Finalise_spec [OF E p u]
  note c = Commit_spec [OF E f(1,2) v]
  show "accounts_wf ?E (stores v)" using c(1) csdb_wfD(3) by (simp add: settled_def)
  from rt(2) obtain w where "view ?E t ?a = Some w" "Sequence (v_account w) = n" "\<not> v_suicided w" by blast
  moreover have "pview ?E v ?a = final_view ?E (?a \<in> dirtyAddrs t) (sview ?E t ?a)" using c(2) [of ?a] f(3) [of ?a] by simp
  ultimately show "\<exists>t w. view ?E t ?a = Some w \<and> Sequence (v_account w) = n \<and> \<not> v_suicided w \<and>
       pview ?E v ?a = final_view ?E (?a \<in> dirtyAddrs t) (sview ?E t ?a)" by blast
qed

lemma commitRun_nonce:
  assumes E: "evm_env_ok (xe_evm X)" and o: "opened (xe_evm X) s0" and r: "running (xe_evm X) s0 (st_Sender st) s"
    and run: "commitRun X st gas n res s = Inr (er, rd, v)" and sim: "\<not> st_Simulate st" and n: "n \<noteq> 0"
  shows "storedNonce (xe_evm X) (stores v) (st_Sender st) = Some n"
proof -
  let ?E = "xe_evm X" and ?a = "st_Sender st"
  from commitRun_settles(2) [OF E o r run sim] obtain t w where w: "view ?E t ?a = Some w" "Sequence (v_account w) = n" "\<not> v_suicided w"
    and p: "pview ?E v ?a = final_view ?E (?a \<in> dirtyAddrs t) (sview ?E t ?a)" by blast
  then have "pview ?E v ?a = Some (no_code w)" using n by (simp add: final_view_def emptyView_def no_code_def)
  with w(2) show ?thesis by (simp only: storedNonce_view) (simp add: no_code_def)
qed

text \<open>What a successful transition went through.\<close>

lemma finishRun_Inr:
  assumes "finishRun X st gas m n r s = (Inr (er, rd, v), m')"
  shows "commitRun X st gas n r s = Inr (er, rd, v)" and "ConsumeGas (xe_gas X) m (gas - vr_leftOver r) = (None, m')"
    and "vr_err r = None"
  using assms by (auto simp: finishRun_def Let_def split: option.splits prod.splits)

lemma TransitionDb_Inr:
  assumes "TransitionDb X st ctx config = (Inr (er, rd, v), m')"
  obtains m n r s where "payIntrinsic X st config (GasMeter ctx) = (Inr (), m)"
    "executeRun X st ctx config (st_GasLimit st - GasConsumed (xe_gas X) m) = Inr (n, r, s)"
    "finishRun X st (st_GasLimit st - GasConsumed (xe_gas X) m) m n r s = (Inr (er, rd, v), m')"
  using assms that by (auto simp: TransitionDb_def Let_def split: prod.splits sum.splits)

lemma executeRun_Inr:
  assumes "executeRun X st ctx config g = Inr (n, r, s)"
  obtains vm p s0 t u where "csdbGetParams (st_Csdb st) = (p, s0)" "GetNonce (xe_evm X) s0 (st_Sender st) = Inr (n, t)"
    "SetNonce (xe_evm X) t (st_Sender st) (st_AccountNonce st) = Inr u" "runMessage X st vm g p u = Inr (r, s)"
  using assms that by (auto simp: executeRun_def res_simps split: prod.splits)

lemma executeRun_runs:
  assumes E: "evm_env_ok (xe_evm X)" and vm: "vm_sound X"
    and o: "opened (xe_evm X) (snd (csdbGetParams (st_Csdb st)))"
    and run: "executeRun X st ctx config gas = Inr (n, r, s)"
  shows "running (xe_evm X) (snd (csdbGetParams (st_Csdb st))) (st_Sender st) s" and "vr_leftOver r \<le> gas"
    and "storedNonce (xe_evm X) (stores (st_Csdb st)) (st_Sender st) = Some k \<Longrightarrow> n = k"
proof -
  let ?E = "xe_evm X" and ?a = "st_Sender st" and ?s = "snd (csdbGetParams (st_Csdb st))"
  from run obtain c t u where t: "GetNonce ?E ?s ?a = Inr (n, t)" and u: "SetNonce ?E t ?a (st_AccountNonce st) = Inr u"
    and m: "runMessage X st c gas (fst (csdbGetParams (st_Csdb st))) u = Inr (r, s)"
    by (auto simp: executeRun_def res_simps Let_def split: prod.splits)
  note g = running_GetNonce [OF E o running_start [OF o] t]
  note rm = runMessage_runs [OF E vm o running_SetNonce(1) [OF E o g(1) u] m]
  show "running ?E ?s ?a s" "vr_leftOver r \<le> gas" using rm by simp_all
  have "stores ?s = stores (st_Csdb st)" by (simp add: csdbGetParams_def split: option.splits)
  then show "n = k" if "storedNonce ?E (stores (st_Csdb st)) ?a = Some k"
    using that g(3) o by (auto simp: storedNonce_view opened_def no_code_def split: option.splits)
qed

text \<open>A successful transition outside of simulations leaves a well-formed store and keeps the nonce that was
  stored before it.\<close>

lemma TransitionDb_wf:
  assumes E: "evm_env_ok (xe_evm X)" and vm: "vm_sound X"
    and o: "opened (xe_evm X) (snd (csdbGetParams (st_Csdb st)))"
    and sim: "\<not> st_Simulate st" and run: "TransitionDb X st ctx config = (Inr (er, rd, v), m')"
  shows "accounts_wf (xe_evm X) (stores v)"
proof -
  from TransitionDb_Inr [OF run] obtain m k r s where
    ex: "executeRun X st ctx config (st_GasLimit st - GasConsumed (xe_gas X) m) = Inr (k, r, s)"
    and fin: "finishRun X st (st_GasLimit st - GasConsumed (xe_gas X) m) m k r s = (Inr (er, rd, v), m')" .
  show ?thesis using commitRun_settles(1) [OF E o executeRun_runs(1) [OF E vm o ex] finishRun_Inr(1) [OF fin] sim] .
qed

lemma TransitionDb_nonce:
  assumes E: "evm_env_ok (xe_evm X)" and vm: "vm_sound X"
    and o: "opened (xe_evm X) (snd (csdbGetParams (st_Csdb st)))"
    and n: "storedNonce (xe_evm X) (stores (st_Csdb st)) (st_Sender st) = Some n" "n \<noteq> 0"
    and sim: "\<not> st_Simulate st" and run: "TransitionDb X st ctx config = (Inr (er, rd, v), m')"
  shows "storedNonce (xe_evm X) (stores v) (st_Sender st) = Some n"
proof -
  from TransitionDb_Inr [OF run] obtain m k r s where
    ex: "executeRun X st ctx config (st_GasLimit st - GasConsumed (xe_gas X) m) = Inr (k, r, s)"
    and fin: "finishRun X st (st_GasLimit st - GasConsumed (xe_gas X) m) m k r s = (Inr (er, rd, v), m')" .
  note x = executeRun_runs [OF E vm o ex] and f = finishRun_Inr [OF fin]
  have "k = n" using x(3) [OF n(1)] .
  from commitRun_nonce [OF E o x(1) f(1) sim, unfolded this, OF n(2)] show ?thesis .
qed

end
