(* ===== verification/Evm_Msg_Props.thy ===== *)
theory Evm_Msg_Props
  imports Evm_Msg
begin

text \<open>
  Properties of Ethereum transactions: what a signature recovers, on which chains, and whether the
  encodings can be read back. \<open>ec_law\<close> is the documented behaviour of the signing and recovery
  functions of go-ethereum, with \<open>pub\<close> the public key of a private key.
\<close>

subsection \<open>The laws of the cryptography\<close>

definition ec_law :: "tx_env \<Rightarrow> (bytes \<Rightarrow> bytes) \<Rightarrow> bool" where
  "ec_law E pub \<longleftrightarrow>
     (\<forall>h k sig. EcSign E h k = Some sig \<longrightarrow>
        length sig = 65 \<and> (sig ! 64 = 0 \<or> sig ! 64 = 1) \<and>
        ValidateSignatureValues E (sig ! 64) (int (bytesNat (take 32 sig))) (int (bytesNat (take 32 (drop 32 sig)))) True \<and>
        Ecrecover E h sig = Some (4 # pub k)) \<and>
     (\<forall>v r s b. ValidateSignatureValues E v r s b \<longrightarrow> v = 0 \<or> v = 1)"

definition keyAddress :: "evm_env \<Rightarrow> (bytes \<Rightarrow> bytes) \<Rightarrow> bytes \<Rightarrow> address" where
  "keyAddress E pub k = BytesToAddress E (drop 12 (Keccak256 E (pub k)))"

subsection \<open>Bytes of numbers\<close>

lemma bytesNat_snoc: "bytesNat (bs @ [b]) = bytesNat bs * 256 + unat b"
  by (simp add: bytesNat_def)

lemma bytesNat_less: "bytesNat bs < 256 ^ length bs"
proof (induction bs rule: rev_induct)
  case Nil
  then show ?case by (simp add: bytesNat_def)
next
  case (snoc b bs)
  have "unat b < 256" using unsigned_less [of b] by simp
  with snoc show ?case by (simp add: bytesNat_snoc)
qed

lemma natBytes_bytesNat: "natBytes (length bs) (bytesNat bs) = bs"
proof (induction bs rule: rev_induct)
  case Nil
  then show ?case by simp
next
  case (snoc b bs)
  have b: "unat b < 256" using unsigned_less [of b] by simp
  then have "(bytesNat bs * 256 + unat b) div 256 = bytesNat bs" "(bytesNat bs * 256 + unat b) mod 256 = unat b"
    by simp_all
  with snoc show ?case by (simp add: bytesNat_snoc)
qed

lemma pad32_bytes: "length bs = 32 \<Longrightarrow> pad32 (int (bytesNat bs)) = Inr bs"
  using bytesNat_less [of bs] natBytes_bytesNat [of bs] by (simp add: pad32_def)

lemma split65:
  assumes "length sig = 65"
  shows "take 32 sig @ take 32 (drop 32 sig) @ [sig ! 64] = sig"
proof -
  have "drop 64 sig = [sig ! 64]" using assms by (simp add: Cons_nth_drop_Suc [symmetric])
  then have "take 32 (drop 32 sig) @ [sig ! 64] = drop 32 sig"
    by (metis append_take_drop_id drop_drop numeral_Bit0)
  then show ?thesis by simp
qed

subsection \<open>The value V\<close>

text \<open>Which values of V make a recovery identifier.\<close>

lemma bigUint64_small: "\<bar>x\<bar> < 2 ^ 64 \<Longrightarrow> uint (bigUint64 x) = \<bar>x\<bar>"
  by (simp add: bigUint64_def uint_word_of_int)

lemma BitLen_minus: "BitLen (- x) = BitLen x"
  by (simp only: BitLen_def abs_minus_cancel)

lemma bigUint64_minus: "bigUint64 (- x) = bigUint64 x"
  by (simp only: bigUint64_def abs_minus_cancel)

lemma recid: "(ucast (bigUint64 x - 27) :: byte) = word_of_int (\<bar>x\<bar> - 27)"
proof -
  have "(ucast (word_of_int n :: uint64) :: byte) = word_of_int n" for n
    by transfer (simp add: min_def)
  then show ?thesis unfolding bigUint64_def by (metis of_int_diff of_int_numeral)
qed

lemma mod256_small:
  fixes n :: int
  assumes "- 27 \<le> n" and "n < 229"
  shows "n mod 256 = (if 0 \<le> n then n else n + 256)"
proof (cases "0 \<le> n")
  case False
  then have "(n + 256) mod 256 = n + 256" using assms by (intro mod_pos_pos_trivial) auto
  with False show ?thesis by simp
qed (use assms in simp)

lemma recid_value:
  assumes "BitLen x \<le> 8"
  shows "(ucast (bigUint64 x - 27) :: byte) = 0 \<longleftrightarrow> \<bar>x\<bar> = 27"
    and "(ucast (bigUint64 x - 27) :: byte) = 1 \<longleftrightarrow> \<bar>x\<bar> = 28"
proof -
  let ?n = "\<bar>x\<bar> - 27"
  have n: "- 27 \<le> ?n" "?n < 229" using assms by (auto simp: BitLen_le)
  have eq: "(word_of_int n :: byte) = word_of_int k \<longleftrightarrow> n mod 256 = k mod 256" for n k
    by (simp add: word_of_int_eq_iff take_bit_eq_mod)
  have "(word_of_int ?n :: byte) = 0 \<longleftrightarrow> ?n = 0" "(word_of_int ?n :: byte) = 1 \<longleftrightarrow> ?n = 1"
    using eq [of ?n 0] eq [of ?n 1] n by (simp_all only: mod256_small [OF n] of_int_0 of_int_1) auto
  then show "(ucast (bigUint64 x - 27) :: byte) = 0 \<longleftrightarrow> \<bar>x\<bar> = 27" 
    and "(ucast (bigUint64 x - 27) :: byte) = 1 \<longleftrightarrow> \<bar>x\<bar> = 28"
    unfolding recid by auto
qed

lemma protected_big: "28 < v \<Longrightarrow> isProtectedV v"
proof -
  assume v: "28 < v"
  have "bigUint64 v \<noteq> 27 \<and> bigUint64 v \<noteq> 28" if "BitLen v \<le> 8"
  proof -
    have "\<bar>v\<bar> < 2 ^ 64" using that by (simp add: BitLen_le)
    from bigUint64_small [OF this] v show ?thesis by auto
  qed
  then show ?thesis by (simp add: isProtectedV_def)
qed

lemma deriveChainID_signed:
  assumes "0 < c" and "b = 0 \<or> b = 1"
  shows "deriveChainID (35 + b + c * 2) = c"
proof (cases "BitLen (35 + b + c * 2) \<le> 64")
  case True
  let ?v = "35 + b + c * 2" let ?w = "bigUint64 ?v"
  have lt: "\<bar>?v\<bar> < 2 ^ 64" using True by (simp add: BitLen_le)
  have w: "uint ?w = ?v" using bigUint64_small [OF lt] assms by auto
  then have "?w \<noteq> 27 \<and> ?w \<noteq> 28" using assms by auto
  moreover have "uint (?w - 35) = b + c * 2"
    using w assms lt by (subst uint_sub_lem [THEN iffD1]) (auto simp: word_le_def)
  then have "uint ((?w - 35) div 2) = c" using assms by (auto simp: uint_div)
  ultimately show ?thesis using True by (simp add: deriveChainID_def Let_def)
next
  case False
  with assms show ?thesis by (auto simp: deriveChainID_def)
qed

text \<open>What \<open>VerifySig\<close> does with an empty cache and a protected V.\<close>

lemma VerifySig_protected:
  assumes "msg_from msg = None" and "isProtectedV (td_V (msg_Data msg))" and "c \<noteq> 0"
  shows "VerifySig E msg c =
     bindE (recoverEthSig E (td_R (msg_Data msg)) (td_S (msg_Data msg)) (td_V (msg_Data msg) - c * 2 - 8)
              (RLPSignBytes E msg c))
       (\<lambda>a. Inr (a, msg\<lparr>msg_from := Some (EIP155Signer c, a)\<rparr>))"
  using assms by (simp add: VerifySig_def Let_def signerOf_def)

lemma VerifySig_sender:
  assumes "msg_from msg = None" and "isProtectedV (td_V (msg_Data msg))" and "c \<noteq> 0"
  shows "map_sum id fst (VerifySig E msg c) =
     recoverEthSig E (td_R (msg_Data msg)) (td_S (msg_Data msg)) (td_V (msg_Data msg) - c * 2 - 8) (RLPSignBytes E msg c)"
  unfolding VerifySig_protected [OF assms] by (auto simp: bindE_def split: sum.splits)

lemma recoverEthSig_rejects:
  assumes "ec_law E pub" and "\<bar>vb\<bar> \<noteq> 27" and "\<bar>vb\<bar> \<noteq> 28"
  shows "recoverEthSig E r s vb h = Inl ErrInvalidSignature"
proof (cases "8 < BitLen vb")
  case False
  then have "BitLen vb \<le> 8" by simp
  from recid_value [OF this] assms have "\<not> ValidateSignatureValues E (ucast (bigUint64 vb - 27)) r s True"
    unfolding ec_law_def by blast
  with False show ?thesis by (simp add: recoverEthSig_def Let_def)
qed (simp add: recoverEthSig_def)

lemma recoverEthSig_signed:
  assumes ec: "ec_law E pub" and sig: "EcSign E (HashBytes (te_evm E) h) k = Some sig"
    and vb: "\<bar>vb\<bar> = 27 + uint (sig ! 64)"
  shows "recoverEthSig E (int (bytesNat (take 32 sig))) (int (bytesNat (take 32 (drop 32 sig)))) vb h =
     Inr (keyAddress (te_evm E) pub k)"
proof -
  from ec sig have l: "length sig = 65" and v: "sig ! 64 = 0 \<or> sig ! 64 = 1"
    and val: "ValidateSignatureValues E (sig ! 64) (int (bytesNat (take 32 sig))) (int (bytesNat (take 32 (drop 32 sig)))) True"
    and rec: "Ecrecover E (HashBytes (te_evm E) h) sig = Some (4 # pub k)"
    unfolding ec_law_def by blast+
  have bits: "BitLen vb \<le> 8" using vb v by (auto simp: BitLen_le)
  have "(ucast (bigUint64 vb - 27) :: byte) = sig ! 64"
    using v recid_value [OF bits] vb by auto
  with l bits val rec split65 [OF l] show ?thesis
    by (simp add: recoverEthSig_def pad32_bytes keyAddress_def)
qed

text \<open>What \<open>Sign\<close> leaves in a message.\<close>

lemma signed_V:
  assumes ec: "ec_law E pub" and c: "0 < c" and sign: "Sign E msg c k = Inr msg'" and cache: "msg_from msg = None"
  shows "\<exists>b. (b = 0 \<or> b = 1) \<and> td_V (msg_Data msg') = 35 + b + c * 2 \<and> isProtectedV (td_V (msg_Data msg')) \<and>
     msg_from msg' = None \<and> RLPSignBytes E msg' c = RLPSignBytes E msg c \<and>
     recoverEthSig E (td_R (msg_Data msg')) (td_S (msg_Data msg')) (27 + b) (RLPSignBytes E msg c) =
       Inr (keyAddress (te_evm E) pub k)"
proof -
  let ?h = "RLPSignBytes E msg c"
  from sign obtain sig where sig: "EcSign E (HashBytes (te_evm E) ?h) k = Some sig"
    and m: "msg' = msg\<lparr>msg_Data := (msg_Data msg)\<lparr>td_V := uint (sig ! 64 + 35) + c * 2,
        td_R := int (bytesNat (take 32 sig)), td_S := int (bytesNat (take 32 (drop 32 sig)))\<rparr>\<rparr>"
    using c by (auto simp: Sign_def Let_def split: option.splits if_splits)
  from ec sig have v: "sig ! 64 = 0 \<or> sig ! 64 = 1" unfolding ec_law_def by blast
  then have V: "td_V (msg_Data msg') = 35 + uint (sig ! 64) + c * 2" by (auto simp: m)
  have "isProtectedV (td_V (msg_Data msg'))" using c v by (intro protected_big) (auto simp: V)
  moreover have "RLPSignBytes E msg' c = ?h" by (simp add: m RLPSignBytes_def signItems_def)
  moreover have "recoverEthSig E (td_R (msg_Data msg')) (td_S (msg_Data msg')) (27 + uint (sig ! 64)) ?h =
      Inr (keyAddress (te_evm E) pub k)"
    using recoverEthSig_signed [OF ec sig] v by (auto simp: m)
  ultimately show ?thesis using v V cache by (intro exI [of _ "uint (sig ! 64)"]) (auto simp: m)
qed

lemma sign_facts:
  assumes "ec_law E pub" and c: "0 < c" and "Sign E msg c k = Inr msg'" and "msg_from msg = None"
  shows "VerifySig E msg' c = Inr (keyAddress (te_evm E) pub k,
      msg'\<lparr>msg_from := Some (EIP155Signer c, keyAddress (te_evm E) pub k)\<rparr>)"
proof -
  from signed_V [OF assms] obtain b where b: "td_V (msg_Data msg') = 35 + b + c * 2" "isProtectedV (td_V (msg_Data msg'))"
    "msg_from msg' = None" "RLPSignBytes E msg' c = RLPSignBytes E msg c"
    "recoverEthSig E (td_R (msg_Data msg')) (td_S (msg_Data msg')) (27 + b) (RLPSignBytes E msg c) =
       Inr (keyAddress (te_evm E) pub k)" by blast
  then show ?thesis using VerifySig_protected [OF b(3,2), of c E] c by simp
qed

lemma sign_ChainID:
  assumes "ec_law E pub" and c: "0 < c" and "Sign E msg c k = Inr msg'" and "msg_from msg = None"
  shows "ChainID msg' = c"
proof -
  from signed_V [OF assms] obtain b where "b = 0 \<or> b = 1" "td_V (msg_Data msg') = 35 + b + c * 2" by blast
  with deriveChainID_signed [OF c] show ?thesis by (simp add: ChainID_def)
qed

lemma sign_FeePayer:
  assumes "ec_law E pub" and "0 < c" and "Sign E msg c k = Inr msg'" and "msg_from msg = None"
  shows "FeePayer E msg' = AddressBytes (te_evm E) (keyAddress (te_evm E) pub k)"
  by (simp add: FeePayer_def sign_ChainID [OF assms] sign_facts [OF assms] msgFrom_def)

subsection \<open>A concrete environment\<close>

definition td0 :: TxData where
  "td0 = \<lparr>td_AccountNonce = 7, td_Price = 2, td_GasLimit = 100000, td_Recipient = Some 5, td_Amount = 12,
     td_Payload = [], td_V = 167, td_R = 3, td_S = 1, td_Hash = None\<rparr>"

definition en0 :: encodableTxData where
  "en0 = \<lparr>en_AccountNonce = 7, en_Price = ''2'', en_GasLimit = 100000, en_Recipient = Some 5, en_Amount = ''12'',
     en_Payload = [], en_V = ''167'', en_R = ''3'', en_S = ''1'', en_Hash = None\<rparr>"

definition tx_env0 :: tx_env where
  "tx_env0 = \<lparr>te_evm = evm_env0,
     EcSign = (\<lambda>h k. Some (natBytes 32 (bytesNat k) @ natBytes 32 1 @ [0])),
     Ecrecover = (\<lambda>h sig. Some (4 # take 32 sig)),
     ValidateSignatureValues = (\<lambda>v r s b. v = 0 \<or> v = 1),
     RlpEncode = (\<lambda>items. []),
     MarshalBinaryBare = (\<lambda>e. if e = en0 then Some [1] else None),
     UnmarshalBinaryBare = (\<lambda>b. Some en0)\<rparr>"

definition pub0 :: "bytes \<Rightarrow> bytes" where
  "pub0 k = natBytes 32 (bytesNat k)"

lemma tx_env0_sel [simp]:
  "te_evm tx_env0 = evm_env0"
  "EcSign tx_env0 h k = Some (natBytes 32 (bytesNat k) @ natBytes 32 1 @ [0])"
  "Ecrecover tx_env0 h sig = Some (4 # take 32 sig)"
  "ValidateSignatureValues tx_env0 v r s b \<longleftrightarrow> v = 0 \<or> v = 1"
  "RlpEncode tx_env0 items = []"
  "UnmarshalBinaryBare tx_env0 bz = Some en0"
  "MarshalBinaryBare tx_env0 e = (if e = en0 then Some [1] else None)"
  by (simp_all add: tx_env0_def)

lemma tx_env0_ec: "ec_law tx_env0 pub0"
  by (auto simp: ec_law_def nth_append pub0_def)

subsection \<open>Properties\<close>


definition msg0 :: MsgEthereumTx where
  "msg0 = newMsgEthereumTx 7 (Some 5) (Some 12) 100000 (Some 2) []"

definition msg0_signed :: MsgEthereumTx where
  "msg0_signed = msg0\<lparr>msg_Data := (msg_Data msg0)\<lparr>td_V := 167, td_R := 3, td_S := 1\<rparr>\<rparr>"

lemma msg0_signed: "Sign tx_env0 msg0 66 [3] = Inr msg0_signed"
proof -
  have "bytesNat (natBytes 32 3) = 3" "bytesNat (natBytes 32 1) = 1" by (simp_all add: bytesNat_natBytes)
  then show ?thesis
    by (simp add: Sign_def msg0_signed_def nth_append bytesNat_def [of "[3]"] Let_def)
qed


text \<open>C33: \<open>VerifySig\<close> accepts a second value of V for every signature. V is only checked through the absolute
  value of \<open>V - 2 * chainID - 8\<close>, so besides \<open>2 * chainID + 35\<close> also \<open>2 * chainID - 19\<close> verifies with
  the same sender. The chain identifier derived from the second value is another one, so that the fee payer, to whom
  unused gas is refunded, is recovered from the hash for another chain.\<close>

theorem VerifySig_second_V:
  assumes c: "29 \<le> c" and b: "b = 0 \<or> b = 1" and cache: "msg_from msg = None"
    and v: "td_V (msg_Data msg) = c * 2 + 35 + b"
    and m: "msg' = msg\<lparr>msg_Data := (msg_Data msg)\<lparr>td_V := c * 2 - 19 - b\<rparr>\<rparr>"
  shows "map_sum id fst (VerifySig E msg' c) = map_sum id fst (VerifySig E msg c) \<and>
     ChainID msg = c \<and> ChainID msg' = c - 27 - b"
proof -
  let ?a = "recoverEthSig E (td_R (msg_Data msg)) (td_S (msg_Data msg))"
  have prot: "isProtectedV (td_V (msg_Data msg))" "isProtectedV (td_V (msg_Data msg'))"
    using c b by (auto simp: v m intro!: protected_big)
  have same: "?a (- (27 + b)) h = ?a (27 + b) h" for h
    by (simp only: recoverEthSig_def BitLen_minus bigUint64_minus)
  have h: "RLPSignBytes E msg' c = RLPSignBytes E msg c" by (simp add: m RLPSignBytes_def signItems_def)
  have vb: "td_V (msg_Data msg) - c * 2 - 8 = 27 + b" "td_V (msg_Data msg') - c * 2 - 8 = - (27 + b)"
    by (simp_all add: v m)
  have f: "td_R (msg_Data msg') = td_R (msg_Data msg)" "td_S (msg_Data msg') = td_S (msg_Data msg)" "msg_from msg' = None"
    using cache by (simp_all add: m)
  have "map_sum id fst (VerifySig E msg' c) = map_sum id fst (VerifySig E msg c)"
    using VerifySig_sender [OF cache prot(1), of c E] VerifySig_sender [OF f(3) prot(2), of c E] c
    by (simp only: vb h f(1,2) same)
  moreover have "ChainID msg = c" "ChainID msg' = c - 27 - b"
    using deriveChainID_signed [of c b] deriveChainID_signed [of "c - 27 - b" b] c b
    by (auto simp: ChainID_def v m algebra_simps)
  ultimately show ?thesis by simp
qed

theorem VerifySig_second_V_witness:
  "map_sum id fst (VerifySig tx_env0 (msg0_signed\<lparr>msg_Data := (msg_Data msg0_signed)\<lparr>td_V := 113\<rparr>\<rparr>) 66) =
     map_sum id fst (VerifySig tx_env0 msg0_signed 66) \<and>
   ChainID (msg0_signed\<lparr>msg_Data := (msg_Data msg0_signed)\<lparr>td_V := 113\<rparr>\<rparr>) = 39"
  using VerifySig_second_V [of 66 0 msg0_signed _ tx_env0, OF _ _ _ _ refl]
  by (simp add: msg0_signed_def msg0_def newMsgEthereumTx_def)

text \<open>A transaction that the amino codec encodes decodes to the same transaction: the numbers are written as
  decimal text and read back with the same value, and no field is lost.\<close>

theorem TxData_amino_roundtrip:
  assumes amino: "\<forall>e bz. MarshalBinaryBare E e = Some bz \<longrightarrow> UnmarshalBinaryBare E bz = Some e"
    and enc: "MarshalAmino E td = Inr bz"
  shows "UnmarshalAmino E bz = Inr td"
proof -
  have "UnmarshalBinaryBare E bz = Some \<lparr>en_AccountNonce = td_AccountNonce td, en_Price = bigText (td_Price td),
      en_GasLimit = td_GasLimit td, en_Recipient = td_Recipient td, en_Amount = bigText (td_Amount td),
      en_Payload = td_Payload td, en_V = bigText (td_V td), en_R = bigText (td_R td), en_S = bigText (td_S td),
      en_Hash = td_Hash td\<rparr>"
    using amino enc by (auto simp: MarshalAmino_def MarshalBigInt_def split: option.splits)
  then show ?thesis by (simp add: UnmarshalAmino_def UnmarshalBigInt_def bigFromText_bigText)
qed

lemma natText_small: "natText 1 = ''1''" "natText 2 = ''2''" "natText 3 = ''3''" "natText 12 = ''12''" "natText 167 = ''167''"
proof -
  have "digitChar 1 = CHR ''1''" "digitChar 2 = CHR ''2''" "digitChar 3 = CHR ''3''" "digitChar 6 = CHR ''6''" "digitChar 7 = CHR ''7''"
    by code_simp+
  then show "natText 1 = ''1''" "natText 2 = ''2''" "natText 3 = ''3''" "natText 12 = ''12''" "natText 167 = ''167''"
    by (simp_all add: natText.simps)
qed

theorem TxData_amino_roundtrip_witness: "UnmarshalAmino tx_env0 [1] = Inr td0"
proof (rule TxData_amino_roundtrip)
  show "MarshalAmino tx_env0 td0 = Inr [1]"
    using natText_small by (simp add: MarshalAmino_def MarshalBigInt_def td0_def bigText_def en0_def)
qed (simp add: en0_def)

lemma spaceWidth_ascii: "\<not> isSpaceAscii c \<Longrightarrow> of_char c < (128 :: nat) \<Longrightarrow> spaceWidth (c # s) = 0"
  by (auto simp: spaceWidth_def codes_def isSpace3_def)

lemma spaceWidth_last:
  assumes "spaceWidth u = length u" and "u \<noteq> []"
  shows "isSpaceAscii (last u) \<or> (128 :: nat) \<le> of_char (last u)"
proof -
  have "spaceWidth u \<le> 3" by (auto simp: spaceWidth_def split: list.split)
  then consider a where "u = [a]" | a b where "u = [a, b]" | a b c where "u = [a, b, c]"
    using assms by (cases u; cases "tl u"; cases "tl (tl u)"; cases "tl (tl (tl u))") (auto simp: neq_Nil_conv)
  then show ?thesis
    using assms by cases (auto simp: spaceWidth_def codes_def isSpace3_def split: if_splits)
qed

lemma TrimSpace_id:
  assumes "s \<noteq> []" and "\<not> isSpaceAscii (hd s)" "of_char (hd s) < (128 :: nat)"
    and "\<not> isSpaceAscii (last s)" "of_char (last s) < (128 :: nat)"
  shows "TrimSpace s = s"
proof -
  have "spaceWidth (drop (length s - k) s) \<noteq> k" if "k \<in> {1, 2, 3}" "k \<le> length s" for k
  proof
    let ?u = "drop (length s - k) s"
    assume "spaceWidth ?u = k"
    moreover have u: "length ?u = k" "?u \<noteq> []" "last ?u = last s" using that assms(1) by auto
    ultimately show False using spaceWidth_last [of ?u] assms(4,5) by simp
  qed
  then have "lastSpaceWidth s = 0" by (auto simp: lastSpaceWidth_def)
  moreover have "spaceWidth s = 0" using assms(1-3) spaceWidth_ascii [of "hd s" "tl s"] by simp
  ultimately show ?thesis by (simp add: TrimSpace_def trimLeft.simps [of s] trimRight.simps [of s])
qed

lemma ParseChainID_trimmed:
  assumes name: "name \<noteq> []" "list_all isLowerAscii name" and n: "0 < n"
  shows "TrimSpace (name @ CHR ''-'' # natText n) = name @ CHR ''-'' # natText n"
proof -
  let ?s = "name @ CHR ''-'' # natText n"
  have "natText n \<noteq> []" "list_all isDigitAscii (natText n)" using natText_decimal [of n] by (auto simp: isDecimal_def)
  then have "isLowerAscii (hd ?s)" "isDigitAscii (last ?s)" using name by (auto simp: list_all_iff)
  then show ?thesis
    by (intro TrimSpace_id) (auto simp: isLowerAscii_def isDigitAscii_def isSpaceAscii_def byteIn_def)
qed

lemma ParseChainID_text:
  assumes name: "name \<noteq> []" "list_all isLowerAscii name" and n: "0 < n"
    and len: "length (name @ CHR ''-'' # natText n) \<le> 48"
  shows "ParseChainID (name @ CHR ''-'' # natText n) = Inr (int n)"
proof -
  let ?s = "name @ CHR ''-'' # natText n"
  have dig: "natText n \<noteq> []" "list_all isDigitAscii (natText n)" using natText_decimal [of n] by (auto simp: isDecimal_def)
  have lower: "c \<noteq> CHR ''-''" if "c \<in> set name" for c
    using that name(2) by (auto simp: list_all_iff isLowerAscii_def byteIn_def)
  have "TrimSpace ?s = ?s" using ParseChainID_trimmed [OF name n] .
  moreover have "takeWhile (\<lambda>c. c \<noteq> CHR ''-'') ?s = name" "dropWhile (\<lambda>c. c \<noteq> CHR ''-'') ?s = CHR ''-'' # natText n"
    using lower by (simp_all add: takeWhile_append2 dropWhile_append2)
  moreover have "epochPattern (natText n)"
    using natText_first [OF n] dig by (cases "natText n") (auto simp: epochPattern_def)
  ultimately show ?thesis
    using name len by (simp add: ParseChainID_def chainIDGroups_def textNat_natText)
qed

lemma textNat_snoc: "textNat (cs @ [c]) = textNat cs * 10 + (of_char c - 48)"
  by (simp add: textNat_def)

lemma digitChar_of: "isDigitAscii c \<Longrightarrow> digitChar (of_char c - 48) = c"
  by (simp add: digitChar_def isDigitAscii_def byteIn_def)

lemma natText_textNat: "epochPattern cs \<Longrightarrow> natText (textNat cs) = cs \<and> 0 < textNat cs"
proof (induction cs rule: rev_induct)
  case Nil
  then show ?case by (simp add: epochPattern_def)
next
  case (snoc c cs)
  show ?case
  proof (cases "cs = []")
    case True
    with snoc.prems have c: "isDigitAscii c" "49 \<le> (of_char c :: nat)" "(of_char c :: nat) \<le> 57"
      by (auto simp: epochPattern_def isDigitAscii_def byteIn_def)
    then have "textNat [c] = of_char c - 48" by (simp add: textNat_def)
    with True c digitChar_of [OF c(1)] show ?thesis by (simp add: natText.simps)
  next
    case False
    then obtain a ys where "cs = a # ys" by (cases cs) auto
    with snoc.prems have p: "epochPattern cs" "isDigitAscii c" by (auto simp: epochPattern_def)
    note IH = snoc.IH [OF p(1)]
    have d: "of_char c - 48 < (10 :: nat)" using p(2) unfolding isDigitAscii_def byteIn_def by linarith
    have n: "textNat (cs @ [c]) div 10 = textNat cs" "textNat (cs @ [c]) mod 10 = of_char c - 48" "\<not> textNat (cs @ [c]) < 10"
      using d IH by (simp_all add: textNat_snoc)
    have "natText (textNat (cs @ [c])) = natText (textNat cs) @ [digitChar (of_char c - 48)]"
      by (subst natText.simps) (simp only: n if_False)
    with IH n(3) digitChar_of [OF p(2)] show ?thesis by simp
  qed
qed

text \<open>C34: Which chain identifiers there are. \<open>ParseChainID\<close> accepts a text exactly when, without the white space around
  it, it is a lower case name, a dash and a positive number in decimal without leading zeros, of at most 48 bytes in
  all; the result is that number.\<close>

theorem ParseChainID_accepts:
  "ParseChainID s = Inr n \<longleftrightarrow>
     (\<exists>name k. TrimSpace s = name @ CHR ''-'' # natText k \<and> name \<noteq> [] \<and> list_all isLowerAscii name \<and>
        0 < k \<and> length (TrimSpace s) \<le> 48 \<and> n = int k)"
proof
  let ?t = "TrimSpace s" let ?P = "\<lambda>c. c \<noteq> CHR ''-''"
  assume "ParseChainID s = Inr n"
  then have len: "length ?t \<le> 48" and name: "takeWhile ?P ?t \<noteq> []" "list_all isLowerAscii (takeWhile ?P ?t)"
    and rest: "dropWhile ?P ?t \<noteq> []" "epochPattern (tl (dropWhile ?P ?t))"
    and n: "n = int (textNat (tl (dropWhile ?P ?t)))"
    by (auto simp: ParseChainID_def chainIDGroups_def Let_def split: if_splits option.splits)
  have "hd (dropWhile ?P ?t) = CHR ''-''" using hd_dropWhile [OF rest(1)] by simp
  then have "?t = takeWhile ?P ?t @ CHR ''-'' # tl (dropWhile ?P ?t)"
    using rest(1) by (metis list.collapse takeWhile_dropWhile_id)
  with natText_textNat [OF rest(2)] len name n
  show "\<exists>name k. ?t = name @ CHR ''-'' # natText k \<and> name \<noteq> [] \<and> list_all isLowerAscii name \<and> 0 < k \<and> length ?t \<le> 48 \<and> n = int k"
    by (intro exI [of _ "takeWhile ?P ?t"] exI [of _ "textNat (tl (dropWhile ?P ?t))"]) simp
next
  assume "\<exists>name k. TrimSpace s = name @ CHR ''-'' # natText k \<and> name \<noteq> [] \<and> list_all isLowerAscii name \<and> 0 < k \<and>
     length (TrimSpace s) \<le> 48 \<and> n = int k"
  then obtain name k where t: "TrimSpace s = name @ CHR ''-'' # natText k" and p: "name \<noteq> []" "list_all isLowerAscii name" "0 < k"
    "length (name @ CHR ''-'' # natText k) \<le> 48" "n = int k" by auto
  have "ParseChainID s = ParseChainID (TrimSpace s)"
    using ParseChainID_trimmed [OF p(1-3)] by (simp add: ParseChainID_def t)
  then show "ParseChainID s = Inr n" using ParseChainID_text [OF p(1-4)] by (simp add: t p(5))
qed

end
