(* ===== verification/Evm_Deliver.thy ===== *)
theory Evm_Deliver
  imports Evm_Nonce Evm_Msg_Props
begin

text \<open>
  Delivery of an Ethereum transaction: the ante handler, the message handler and the refund of gas,
  composed as the SDK composes them. The properties show that a transaction is executed at most once,
  that the sender pays exactly for the gas that was used, that the gas of the interpreter never wraps
  around, and that creations and calls obey the parameters of the module.

  \<open>gas_law\<close> and \<open>fee_law\<close> state the documented behaviour of the SDK's gas meters and of its deduction and
  refund of fees; \<open>exec0\<close> is a concrete environment.
\<close>

subsection \<open>The laws of the SDK\<close>

definition gas_law :: "'g gas_ops \<Rightarrow> ('g \<Rightarrow> bool) \<Rightarrow> bool" where
  "gas_law G metered \<longleftrightarrow>
     (\<forall>h l. h \<noteq> 0 \<longrightarrow> metered (SetGasMeter G False h l) \<and>
        GasLimitOf G (SetGasMeter G False h l) = l \<and> GasConsumed G (SetGasMeter G False h l) = 0) \<and>
     (\<forall>m a e m'. metered m \<longrightarrow> ConsumeGas G m a = (e, m') \<longrightarrow>
        metered m' \<and> GasLimitOf G m' = GasLimitOf G m \<and>
        (e = None \<longleftrightarrow> uint (GasConsumed G m) + uint a \<le> uint (GasLimitOf G m)) \<and>
        (e = None \<longrightarrow> GasConsumed G m' = GasConsumed G m + a))"

text \<open>The amount of a denomination that an address holds.\<close>

definition holds :: "'g ante_env \<Rightarrow> (bytes, account) kv \<Rightarrow> bytes \<Rightarrow> string \<Rightarrow> dec" where
  "holds A m b d = (case kv_get m b of None \<Rightarrow> 0 | Some acc \<Rightarrow> AmountOf d (accCoins A acc))"

text \<open>Coins move from one address to another and nothing else of an Ethereum account changes.\<close>

definition coins_moved ::
    "'g ante_env \<Rightarrow> (bytes, account) kv \<Rightarrow> bytes \<Rightarrow> bytes \<Rightarrow> sys_coins \<Rightarrow> (bytes, account) kv \<Rightarrow> bool" where
  "coins_moved A m src dst cs m' \<longleftrightarrow>
     (\<forall>b d. holds A m' b d =
        holds A m b d - (if b = src then AmountOf d cs else 0) + (if b = dst then AmountOf d cs else 0)) \<and>
     (\<forall>b x. kv_get m b = Some (EthAcc x) \<longrightarrow>
        (\<exists>ys. kv_get m' b = Some (EthAcc (x\<lparr>Coins := ys\<rparr>)) \<and>
           ((\<forall>d. 0 \<le> AmountOf d (Coins x)) \<longrightarrow> (\<forall>d. 0 \<le> AmountOf d ys)))) \<and>
     (\<forall>b y. kv_get m' b = Some (EthAcc y) \<longrightarrow> (\<exists>x. kv_get m b = Some (EthAcc x)))"

definition fee_law :: "'g ante_env \<Rightarrow> bytes \<Rightarrow> bool" where
  "fee_law A collector \<longleftrightarrow>
     (\<forall>m acc fees m'. DeductFees A m acc fees = Some m' \<longrightarrow> coins_moved A m (accAddress A acc) collector fees m') \<and>
     (\<forall>m a fees m'. RefundFees A m a fees = Some m' \<longrightarrow> coins_moved A m collector a fees m') \<and>
     (\<forall>c d. AmountOf d (NewCoins A c) = AmountOf d [c])"

lemma coins_moved_nonce:
  assumes "coins_moved A m src dst cs m'" and "ev_accounts st = m" and "ev_accounts st' = m'"
  shows "storedNonce E st' a = storedNonce E st a"
proof (cases "\<exists>x. kv_get m (AddressBytes E a) = Some (EthAcc x)")
  case True
  then show ?thesis using assms unfolding coins_moved_def storedNonce_def by fastforce
next
  case False
  with assms have "\<not> (\<exists>y. kv_get m' (AddressBytes E a) = Some (EthAcc y))" unfolding coins_moved_def by blast
  with False assms(2,3) show ?thesis by (auto simp: storedNonce_def split: option.splits account.splits)
qed

lemma coins_moved_wf:
  assumes "coins_moved A m src dst cs m'" and "ev_accounts st = m" and "ev_accounts st' = m'" and "accounts_wf E st"
  shows "accounts_wf E st'"
  unfolding accounts_wf_def
proof (intro allI impI)
  fix a y
  assume y: "kv_get (ev_accounts st') (AddressBytes E a) = Some (EthAcc y)"
  with assms(1,3) obtain x where x: "kv_get m (AddressBytes E a) = Some (EthAcc x)" unfolding coins_moved_def by blast
  with assms(1) obtain ys where "kv_get m' (AddressBytes E a) = Some (EthAcc (x\<lparr>Coins := ys\<rparr>))"
    "(\<forall>d. 0 \<le> AmountOf d (Coins x)) \<longrightarrow> (\<forall>d. 0 \<le> AmountOf d ys)"
    unfolding coins_moved_def by blast
  moreover have "account_wf E a x" using assms(2,4) x by (auto simp: accounts_wf_def)
  ultimately show "account_wf E a y" using y assms(3) by (auto simp: account_wf_def)
qed

subsection \<open>The ante handler in delivery\<close>

lemma VerifySig_cache: "VerifySig E msg c = Inr (a, msg') \<Longrightarrow> \<exists>s. msg_from msg' = Some (s, a) \<and> msg_Data msg' = msg_Data msg"
  by (auto simp: VerifySig_def Let_def res_simps split: option.splits if_splits)

lemma incrementSequence_eth:
  assumes "GetAccount S addr = Some (EthAcc acc)" and "incrementSequence A S addr = Inr S'"
  shows "S' = SetAccount A (EthAcc (acc\<lparr>Sequence := Sequence acc + 1\<rparr>)) S"
  using assms by (simp add: incrementSequence_def accSetSequence_def accSequence_def)

definition feesTaken :: "'g ante_env \<Rightarrow> MsgEthereumTx \<Rightarrow> account \<Rightarrow> (bytes, account) kv \<Rightarrow> (bytes, account) kv \<Rightarrow> bool" where
  "feesTaken A msg acc m m' \<longleftrightarrow>
     (if GetGas msg = 0 then m' = m
      else DeductFees A m acc (NewCoins A \<lparr>Denom = bondDenom (ae_evm A), Amount = Fee msg\<rparr>) = Some m')"

lemma NewCoinE_Inr [res_simps]: "NewCoinE D d n = Inr c \<longleftrightarrow> CoinIsValid D \<lparr>Denom = d, Amount = n\<rparr> \<and> c = \<lparr>Denom = d, Amount = n\<rparr>"
  by (auto simp: NewCoinE_def)

lemma EthGasConsume_Inr:
  assumes "EthGasConsumeDecorator A ctx (EthTx msg) sim S = Inr (ctx', S')"
  shows "\<exists>acc m. GetAccount S (msgFrom (ae_evm A) msg) = Some acc \<and> feesTaken A msg acc (as_accounts S) m \<and>
     S' = setAccounts m S \<and> ctx' = ctx\<lparr>GasMeter := SetGasMeter (ae_gas A) sim (BlockHeight ctx) (GetGas msg)\<rparr>"
proof -
  have same: "setAccounts (as_accounts S) S = S" by (simp add: setAccounts_def)
  from assms show ?thesis
    by (cases "GetGas msg = 0")
      (auto simp: EthGasConsumeDecorator_def asEth_def cachedSender_def res_simps feesTaken_def Let_def same Fee_def GetGas_def
        split: option.splits if_splits)
qed

lemma EthSig_Inr:
  "EthSigVerificationDecorator A ctx (EthTx msg) = Inr tx \<longleftrightarrow>
     (\<exists>c a msg'. ParseChainID (ctxChainID ctx) = Inr c \<and> VerifySig (ae_tx A) msg c = Inr (a, msg') \<and> tx = EthTx msg')"
proof (cases "ParseChainID (ctxChainID ctx)")
  case (Inr c)
  then show ?thesis by (cases "VerifySig (ae_tx A) msg c") (auto simp: EthSigVerificationDecorator_def asEth_def)
qed (simp add: EthSigVerificationDecorator_def asEth_def)

lemma ethAnte_deliver:
  assumes "\<not> IsCheckTx ctx" and "ethAnteHandler A ctx (EthTx msg) sim S = Inr (ctx1, tx1, S1)"
  obtains c a msg' acc m where "ParseChainID (ctxChainID ctx) = Inr c" "VerifySig (ae_tx A) msg c = Inr (a, msg')"
    "tx1 = EthTx msg'" "GetAccount S (AddressBytes (ae_evm A) a) = Some acc"
    "accSequence A acc = td_AccountNonce (msg_Data msg)" "feesTaken A msg acc (as_accounts S) m"
    "incrementSequence A (setAccounts m S) (AddressBytes (ae_evm A) a) = Inr S1"
    "ctx1 = ctx\<lparr>GasMeter := SetGasMeter (ae_gas A) sim (BlockHeight ctx) (GetGas msg)\<rparr>"
proof -
  from assms obtain c a msg' S2 where c: "ParseChainID (ctxChainID ctx) = Inr c" "VerifySig (ae_tx A) msg c = Inr (a, msg')"
    and tx1: "tx1 = EthTx msg'" and n: "NonceVerificationDecorator A ctx tx1 S = Inr ()"
    and g: "EthGasConsumeDecorator A ctx tx1 sim S = Inr (ctx1, S2)"
    and i: "IncrementSenderSequenceDecorator A ctx1 tx1 S2 = Inr S1"
    by (auto simp: ethAnteHandler_def EthSig_Inr AccountVerificationDecorator_def res_simps)
  from VerifySig_cache [OF c(2)] have fr: "msgFrom (ae_evm A) msg' = AddressBytes (ae_evm A) a"
    and d: "msg_Data msg' = msg_Data msg" by (auto simp: msgFrom_def)
  from EthGasConsume_Inr [of A ctx msg' sim S ctx1 S2] g tx1 obtain acc m where
    m: "GetAccount S (AddressBytes (ae_evm A) a) = Some acc" "feesTaken A msg' acc (as_accounts S) m"
    "S2 = setAccounts m S" "ctx1 = ctx\<lparr>GasMeter := SetGasMeter (ae_gas A) sim (BlockHeight ctx) (GetGas msg')\<rparr>"
    by (auto simp: fr)
  have "accSequence A acc = td_AccountNonce (msg_Data msg)"
    using n m(1) assms(1) tx1 d
    by (auto simp: NonceVerificationDecorator_def asEth_def res_simps cachedSender_def fr Let_def split: if_splits)
  moreover have "incrementSequence A S2 (AddressBytes (ae_evm A) a) = Inr S1"
    using i assms(1) m(4) tx1
    by (auto simp: IncrementSenderSequenceDecorator_def asEth_def ethGetSigners_def fr res_simps)
  moreover have g: "GetGas msg' = GetGas msg" "Fee msg' = Fee msg" by (simp_all add: GetGas_def Fee_def d)
  moreover have "feesTaken A msg acc (as_accounts S) m" using m(2) by (simp only: feesTaken_def g)
  ultimately show thesis using that [OF c tx1 m(1)] m(3,4) by simp
qed

lemma ethAnte_sender:
  assumes "\<not> IsCheckTx ctx" and "ethAnteHandler A ctx (EthTx msg) sim S = Inr (ctx1, tx1, S1)"
    and "ParseChainID (ctxChainID ctx) = Inr c" and "VerifySig (ae_tx A) msg c = Inr (a, msg')"
  obtains acc m where "tx1 = EthTx msg'" "GetAccount S (AddressBytes (ae_evm A) a) = Some acc"
    "accSequence A acc = td_AccountNonce (msg_Data msg)" "feesTaken A msg acc (as_accounts S) m"
    "incrementSequence A (setAccounts m S) (AddressBytes (ae_evm A) a) = Inr S1"
    "ctx1 = ctx\<lparr>GasMeter := SetGasMeter (ae_gas A) sim (BlockHeight ctx) (GetGas msg)\<rparr>"
proof (rule ethAnte_deliver [OF assms(1,2)])
  fix c' a' m' acc m
  assume c': "ParseChainID (ctxChainID ctx) = Inr c'" "VerifySig (ae_tx A) msg c' = Inr (a', m')"
    and r: "tx1 = EthTx m'" "GetAccount S (AddressBytes (ae_evm A) a') = Some acc"
    "accSequence A acc = td_AccountNonce (msg_Data msg)" "feesTaken A msg acc (as_accounts S) m"
    "incrementSequence A (setAccounts m S) (AddressBytes (ae_evm A) a') = Inr S1"
    "ctx1 = ctx\<lparr>GasMeter := SetGasMeter (ae_gas A) sim (BlockHeight ctx) (GetGas msg)\<rparr>"
  from c' assms(3,4) have "a' = a" "m' = msg'" by simp_all
  with r show thesis by (intro that) simp_all
qed

lemma feesTaken_moved:
  assumes "fee_law A col" and "feesTaken A msg acc m m'"
  shows "\<exists>cs. coins_moved A m (accAddress A acc) col cs m' \<and>
     (\<forall>d. AmountOf d cs = (if d = bondDenom (ae_evm A) then Fee msg else 0))"
proof (cases "GetGas msg = 0")
  case True
  have "\<exists>ys. x = x\<lparr>Coins := ys\<rparr> \<and> ((\<forall>d. 0 \<le> AmountOf d (Coins x)) \<longrightarrow> (\<forall>d. 0 \<le> AmountOf d ys))" for x
    by (intro exI [of _ "Coins x"]) simp
  with True assms(2) show ?thesis
    by (intro exI [of _ "[]"]) (auto simp: feesTaken_def coins_moved_def Fee_def GetGas_def AmountOf_def)
next
  case False
  with assms(1,2) have "coins_moved A m (accAddress A acc) col (NewCoins A \<lparr>Denom = bondDenom (ae_evm A), Amount = Fee msg\<rparr>) m'"
    by (auto simp: feesTaken_def fee_law_def)
  moreover have "AmountOf d (NewCoins A c) = AmountOf d [c]" for c d using assms(1) unfolding fee_law_def by blast
  ultimately show ?thesis by (intro exI) auto
qed

subsection \<open>Delivery\<close>

text \<open>One delivered transaction: the writes of the ante handler stay, those of a failing message handler do
  not, and the refund runs on what is left.\<close>

definition afterRefund :: "'g ante_env \<Rightarrow> 'g sdk_ctx \<Rightarrow> sdk_tx \<Rightarrow> app_state \<Rightarrow> app_state" where
  "afterRefund A ctx tx S = (case NewGasRefundHandler A ctx tx S of Inl _ \<Rightarrow> S | Inr S' \<Rightarrow> S')"

inductive deliver_tx ::
    "'g exec_env \<Rightarrow> 'g sdk_ctx \<Rightarrow> MsgEthereumTx \<Rightarrow> evm_keeper \<times> app_state \<Rightarrow> evm_keeper \<times> app_state \<Rightarrow> bool"
  for X ctx msg where
    executed: "\<not> IsCheckTx ctx \<Longrightarrow> ethAnteHandler (xe_ante X) ctx (EthTx msg) False S = Inr (ctx1, tx1, S1) \<Longrightarrow>
      handleMsgEthereumTx X ctx1 k msg S1 = (Inr (er, S2), k', m) \<Longrightarrow>
      deliver_tx X ctx msg (k, S) (k', afterRefund (xe_ante X) (ctx1\<lparr>GasMeter := m\<rparr>) (EthTx msg) S2)"
  | failed: "\<not> IsCheckTx ctx \<Longrightarrow> ethAnteHandler (xe_ante X) ctx (EthTx msg) False S = Inr (ctx1, tx1, S1) \<Longrightarrow>
      handleMsgEthereumTx X ctx1 k msg S1 = (Inl e, k', m) \<Longrightarrow>
      deliver_tx X ctx msg (k, S) (k', afterRefund (xe_ante X) (ctx1\<lparr>GasMeter := m\<rparr>) (EthTx msg) S1)"

inductive_cases deliver_txE: "deliver_tx X ctx msg KS KS'"

lemma afterRefund_nonce:
  assumes "fee_law A col"
  shows "storedNonce E (as_stores (afterRefund A ctx tx S)) a = storedNonce E (as_stores S) a"
proof (cases "NewGasRefundHandler A ctx tx S")
  case (Inr S')
  show ?thesis
  proof (cases "S' = S")
    case False
    with Inr obtain m b fees where m: "RefundFees A (as_accounts S) b fees = Some m" "S' = setAccounts m S"
      by (auto simp: NewGasRefundHandler_def GasRefund_def res_simps Let_def split: sdk_tx.splits if_splits option.splits)
    from m(1) assms have "coins_moved A (as_accounts S) col b fees m" unfolding fee_law_def by blast
    from coins_moved_nonce [OF this refl, of "as_stores S'"] m(2) Inr show ?thesis
      by (simp add: afterRefund_def setAccounts_def)
  qed (simp add: afterRefund_def Inr)
qed (simp add: afterRefund_def)

lemma ante_nonce:
  assumes E: "evm_env_ok (ae_evm A)" and fees: "fee_law A col" and wf: "accounts_wf (ae_evm A) (as_stores S)"
    and del: "\<not> IsCheckTx ctx" and ante: "ethAnteHandler A ctx (EthTx msg) sim S = Inr (ctx1, tx1, S1)"
    and sig: "ParseChainID (ctxChainID ctx) = Inr c" "VerifySig (ae_tx A) msg c = Inr (a, msg')"
    and acc: "GetAccount S (AddressBytes (ae_evm A) a) = Some (EthAcc acc)"
  shows "storedNonce (ae_evm A) (as_stores S) a = Some (td_AccountNonce (msg_Data msg))"
    and "storedNonce (ae_evm A) (as_stores S1) a = Some (td_AccountNonce (msg_Data msg) + 1)"
    and "accounts_wf (ae_evm A) (as_stores S1)"
proof -
  let ?E = "ae_evm A" and ?n = "td_AccountNonce (msg_Data msg)"
  from ethAnte_sender [OF del ante sig] obtain x m where x: "GetAccount S (AddressBytes ?E a) = Some x"
    "accSequence A x = ?n" "feesTaken A msg x (as_accounts S) m"
    and inc: "incrementSequence A (setAccounts m S) (AddressBytes ?E a) = Inr S1" .
  with acc have n: "Sequence acc = ?n" and m: "feesTaken A msg (EthAcc acc) (as_accounts S) m"
    by (simp_all add: accSequence_def)
  show sn: "storedNonce ?E (as_stores S) a = Some ?n" using acc n by (simp add: storedNonce_def GetAccount_def)
  from feesTaken_moved [OF fees m] obtain cs where mv: "coins_moved A (as_accounts S) (accAddress A (EthAcc acc)) col cs m" by blast
  let ?S = "setAccounts m S"
  have wfm: "accounts_wf ?E (as_stores ?S)" using coins_moved_wf [OF mv refl _ wf] by (simp add: setAccounts_def)
  from mv acc obtain ys where ys: "GetAccount ?S (AddressBytes ?E a) = Some (EthAcc (acc\<lparr>Coins := ys\<rparr>))"
    unfolding coins_moved_def GetAccount_def setAccounts_def by fastforce
  then have accwf: "account_wf ?E a (acc\<lparr>Coins := ys\<rparr>)" using wfm by (simp add: accounts_wf_def GetAccount_def)
  from incrementSequence_eth [OF ys inc] have S1: "S1 = SetAccount A (EthAcc (acc\<lparr>Coins := ys, Sequence := ?n + 1\<rparr>)) ?S"
    by (simp add: n)
  have k: "accAddress A (EthAcc (acc\<lparr>Coins := ys, Sequence := ?n + 1\<rparr>)) = AddressBytes ?E a"
    using accwf by (simp add: accAddress_def account_wf_def)
  show "storedNonce ?E (as_stores S1) a = Some (?n + 1)" by (simp add: S1 SetAccount_def setAccounts_def storedNonce_def k)
  show "accounts_wf ?E (as_stores S1)"
    using wfm accwf AddressBytes_inj [OF E] by (auto simp: S1 SetAccount_def setAccounts_def k accounts_wf_def account_wf_def)
qed

lemma applyTransition_Inr:
  assumes "applyTransition X ctx k st S = (Inr (er, S'), k', m')"
  shows "\<exists>m config rd v. TransitionDb X st (ctx\<lparr>GasMeter := m\<rparr>) config = (Inr (er, rd, v), m') \<and>
     ConsumeGas (xe_gas X) (GasMeter ctx) (configReadGas X (as_config S)) = (None, m) \<and> as_config S = Some config \<and>
     as_stores S' = stores v"
  using assms by (auto simp: applyTransition_def GetChainConfig_def Let_def split: prod.splits option.splits sum.splits)

lemma handler_nonce:
  assumes E: "evm_env_ok (xe_evm X)" and vm: "vm_sound X" and wf: "accounts_wf (xe_evm X) (as_stores S)"
    and del: "\<not> IsCheckTx ctx" and sig: "ParseChainID (ctxChainID ctx) = Inr c" "VerifySig (ae_tx (xe_ante X)) msg c = Inr (a, msg')"
    and n: "storedNonce (xe_evm X) (as_stores S) a = Some n" "n \<noteq> 0"
    and run: "handleMsgEthereumTx X ctx k msg S = (Inr (er, S2), k', m')"
  shows "storedNonce (xe_evm X) (as_stores S2) a = Some n"
proof -
  let ?st = "ethTransition X ctx k msg c a S"
  have st: "st_Sender ?st = a" "\<not> st_Simulate ?st" "st_Csdb ?st = openCsdb k False (st_TxHash ?st) S"
    using del by (simp_all add: ethTransition_def Let_def)
  from run sig have "applyTransition X ctx (countTx (IsCheckTx ctx) k) ?st S = (Inr (er, S2), k', m')"
    by (simp add: handleMsgEthereumTx_def)
  from applyTransition_Inr [OF this] obtain m config rd v where
    T: "TransitionDb X ?st (ctx\<lparr>GasMeter := m\<rparr>) config = (Inr (er, rd, v), m')" and S2: "as_stores S2 = stores v" by blast
  have o: "opened (xe_evm X) (snd (csdbGetParams (st_Csdb ?st)))" using opened_openCsdb [OF wf] by (simp add: st(3))
  have "stores (st_Csdb ?st) = as_stores S"
    by (simp add: st(3) openCsdb_def CreateEmptyCommitStateDB_def Prepare_def Let_def)
  with TransitionDb_nonce [OF E vm o _ _ st(2) T, of n] n st(1) S2 show ?thesis by simp
qed

lemma deliver_nonce:
  assumes E: "evm_env_ok (xe_evm X)" and vm: "vm_sound X" and fees: "fee_law (xe_ante X) col"
    and wf: "accounts_wf (xe_evm X) (as_stores S)"
    and sig: "ParseChainID (ctxChainID ctx) = Inr c" "VerifySig (ae_tx (xe_ante X)) msg c = Inr (a, msg')"
    and acc: "GetAccount S (AddressBytes (xe_evm X) a) = Some (EthAcc acc)"
    and n: "td_AccountNonce (msg_Data msg) + 1 \<noteq> 0" and del: "deliver_tx X ctx msg (k, S) (k', S')"
  shows "storedNonce (xe_evm X) (as_stores S') a = Some (td_AccountNonce (msg_Data msg) + 1)"
  using del
proof cases
  case (executed ctx1 tx1 S1 er S2 m)
  note an = ante_nonce [OF E fees wf executed(2,3) sig acc]
  obtain g where "ctx1 = ctx\<lparr>GasMeter := g\<rparr>" using ethAnte_sender [OF executed(2,3) sig] by metis
  then have c: "\<not> IsCheckTx ctx1" "ParseChainID (ctxChainID ctx1) = Inr c" using executed(2) sig(1) by simp_all
  show ?thesis using handler_nonce [OF E vm an(3) c sig(2) an(2) n executed(4)] by (simp add: executed(1) afterRefund_nonce [OF fees])
next
  case (failed ctx1 tx1 S1 e m)
  show ?thesis using ante_nonce(2) [OF E fees wf failed(2,3) sig acc] by (simp add: failed(1) afterRefund_nonce [OF fees])
qed

lemma ante_refuses_nonce:
  assumes "\<not> IsCheckTx ctx" and "ParseChainID (ctxChainID ctx) = Inr c" and "VerifySig (ae_tx A) msg c = Inr (a, msg')"
    and "storedNonce (ae_evm A) (as_stores S) a = Some n" and "n \<noteq> td_AccountNonce (msg_Data msg)"
  shows "\<exists>e. ethAnteHandler A ctx (EthTx msg) sim S = Inl e"
proof (rule ccontr)
  assume "\<not> ?thesis"
  then obtain r where "ethAnteHandler A ctx (EthTx msg) sim S = Inr r" by (cases "ethAnteHandler A ctx (EthTx msg) sim S") auto
  then obtain ctx1 tx1 S1 where r: "ethAnteHandler A ctx (EthTx msg) sim S = Inr (ctx1, tx1, S1)" by (cases r) auto
  from ethAnte_sender [OF assms(1) r assms(2,3)] obtain acc where
    "GetAccount S (AddressBytes (ae_evm A) a) = Some acc" "accSequence A acc = td_AccountNonce (msg_Data msg)" by metis
  with assms(4,5) show False
    by (auto simp: storedNonce_def GetAccount_def accSequence_def split: account.splits)
qed

subsection \<open>Well-formed accounts\<close>

lemma ante_wf:
  assumes fees: "fee_law A col" and wf: "accounts_wf (ae_evm A) (as_stores S)" and E: "evm_env_ok (ae_evm A)"
    and del: "\<not> IsCheckTx ctx" and ante: "ethAnteHandler A ctx (EthTx msg) sim S = Inr (ctx1, tx1, S1)"
  shows "accounts_wf (ae_evm A) (as_stores S1)"
proof -
  let ?E = "ae_evm A"
  from ethAnte_deliver [OF del ante] obtain c a msg' acc m where m: "feesTaken A msg acc (as_accounts S) m"
    and inc: "incrementSequence A (setAccounts m S) (AddressBytes ?E a) = Inr S1" .
  from feesTaken_moved [OF fees m] obtain cs where mv: "coins_moved A (as_accounts S) (accAddress A acc) col cs m" by blast
  have wfm: "accounts_wf ?E (as_stores (setAccounts m S))" using coins_moved_wf [OF mv refl _ wf] by (simp add: setAccounts_def)
  from inc obtain x y where x: "GetAccount (setAccounts m S) (AddressBytes ?E a) = Some x"
    "accSetSequence A x (accSequence A x + 1) = Inr y" and S1: "S1 = SetAccount A y (setAccounts m S)"
    by (auto simp: incrementSequence_def res_simps split: option.splits)
  show ?thesis
  proof (cases x)
    case (EthAcc e)
    with x have y: "y = EthAcc (e\<lparr>Sequence := Sequence e + 1\<rparr>)" by (simp add: accSetSequence_def accSequence_def)
    from x(1) EthAcc have "account_wf ?E a e" using wfm by (simp add: accounts_wf_def GetAccount_def)
    with wfm AddressBytes_inj [OF E] show ?thesis
      by (auto simp: S1 y SetAccount_def setAccounts_def accAddress_def accounts_wf_def account_wf_def)
  next
    case (OtherAcc b)
    with x(2) obtain b' where "y = OtherAcc b'" by (auto simp: accSetSequence_def split: option.splits)
    with wfm show ?thesis by (auto simp: S1 SetAccount_def setAccounts_def accounts_wf_def)
  qed
qed

lemma handler_wf:
  assumes E: "evm_env_ok (xe_evm X)" and vm: "vm_sound X" and wf: "accounts_wf (xe_evm X) (as_stores S)"
    and del: "\<not> IsCheckTx ctx" and run: "handleMsgEthereumTx X ctx k msg S = (Inr (er, S2), k', m')"
  shows "accounts_wf (xe_evm X) (as_stores S2)"
proof -
  from run obtain c a where "applyTransition X ctx (countTx (IsCheckTx ctx) k) (ethTransition X ctx k msg c a S) S = (Inr (er, S2), k', m')"
    by (auto simp: handleMsgEthereumTx_def split: sum.splits)
  from applyTransition_Inr [OF this] obtain m config rd v where
    T: "TransitionDb X (ethTransition X ctx k msg c a S) (ctx\<lparr>GasMeter := m\<rparr>) config = (Inr (er, rd, v), m')" and S2: "as_stores S2 = stores v" by blast
  have "opened (xe_evm X) (snd (csdbGetParams (st_Csdb (ethTransition X ctx k msg c a S))))"
    using opened_openCsdb [OF wf] by (simp add: ethTransition_def Let_def)
  from TransitionDb_wf [OF E vm this _ T] del S2 show ?thesis by (simp add: ethTransition_def Let_def)
qed

lemma afterRefund_wf:
  assumes fees: "fee_law A col" and wf: "accounts_wf E (as_stores S)"
  shows "accounts_wf E (as_stores (afterRefund A ctx tx S))"
proof (cases "NewGasRefundHandler A ctx tx S")
  case (Inr S')
  show ?thesis
  proof (cases "S' = S")
    case False
    with Inr obtain m b cs where m: "RefundFees A (as_accounts S) b cs = Some m" "S' = setAccounts m S"
      by (auto simp: NewGasRefundHandler_def GasRefund_def res_simps Let_def split: sdk_tx.splits if_splits option.splits)
    from m(1) fees have "coins_moved A (as_accounts S) col b cs m" unfolding fee_law_def by blast
    from coins_moved_wf [OF this refl _ wf, of "as_stores S'"] m(2) Inr show ?thesis by (simp add: afterRefund_def setAccounts_def)
  qed (simp add: afterRefund_def Inr wf)
qed (simp add: afterRefund_def wf)

lemma deliver_wf:
  assumes E: "evm_env_ok (xe_evm X)" and vm: "vm_sound X" and fees: "fee_law (xe_ante X) col"
    and wf: "accounts_wf (xe_evm X) (as_stores S)" and del: "deliver_tx X ctx msg (k, S) (k', S')"
  shows "accounts_wf (xe_evm X) (as_stores S')"
  using del
proof cases
  case (executed ctx1 tx1 S1 er S2 m)
  from ethAnte_deliver [OF executed(2,3)] executed(2) have "\<not> IsCheckTx ctx1" by fastforce
  from handler_wf [OF E vm ante_wf [OF fees wf E executed(2,3)] this executed(4)] show ?thesis
    by (simp add: executed(1) afterRefund_wf [OF fees])
next
  case (failed ctx1 tx1 S1 e m)
  from ante_wf [OF fees wf E failed(2,3)] show ?thesis by (simp add: failed(1) afterRefund_wf [OF fees])
qed

subsection \<open>Gas of a transition\<close>

lemma gas_lawD:
  assumes "gas_law G metered" and "metered m" and "ConsumeGas G m a = (e, m')"
  shows "metered m'" and "GasLimitOf G m' = GasLimitOf G m"
    and "e = None \<longleftrightarrow> uint (GasConsumed G m) + uint a \<le> uint (GasLimitOf G m)"
    and "e = None \<Longrightarrow> uint (GasConsumed G m') = uint (GasConsumed G m) + uint a"
proof -
  show m: "metered m'" and "GasLimitOf G m' = GasLimitOf G m"
    and e: "e = None \<longleftrightarrow> uint (GasConsumed G m) + uint a \<le> uint (GasLimitOf G m)"
    using assms unfolding gas_law_def by blast+
  assume "e = None"
  moreover from this assms have "GasConsumed G m' = GasConsumed G m + a" unfolding gas_law_def by blast
  moreover have "uint (GasLimitOf G m) < 2 ^ 64" using unsigned_less [of "GasLimitOf G m"] by simp
  ultimately show "uint (GasConsumed G m') = uint (GasConsumed G m) + uint a"
    using e uint_add_lem [of "GasConsumed G m" a] by simp
qed

lemma payIntrinsic_gas:
  assumes "gas_law (xe_gas X) metered" and "metered m" and "GasConsumed (xe_gas X) m \<le> GasLimitOf (xe_gas X) m"
    and "payIntrinsic X st config m = (Inr (), m')"
  shows "metered m' \<and> GasLimitOf (xe_gas X) m' = GasLimitOf (xe_gas X) m \<and> GasConsumed (xe_gas X) m' \<le> GasLimitOf (xe_gas X) m"
proof -
  from assms(4) consider "m' = m" | a where "ConsumeGas (xe_gas X) m a = (None, m')"
    by (auto simp: payIntrinsic_def Let_def split: sum.splits option.splits prod.splits if_splits)
  then show ?thesis
  proof cases
    case 2
    from gas_lawD [OF assms(1,2) 2] show ?thesis by (simp add: word_le_def)
  qed (use assms in simp)
qed

lemma runMessage_gas:
  assumes vm: "vm_sound X" and run: "runMessage X st c gas p s = Inr (r, t)"
  shows "vr_leftOver r \<le> gas"
proof (cases "st_Recipient st")
  case None
  with run have "vmCreate X c (st_Sender st) (st_Payload st) gas (st_Amount st) s = Inr (r, t)"
    by (simp add: runMessage_def stateE_Inr split: if_splits)
  with vm show ?thesis unfolding vm_sound_def vm_step_def by blast
next
  case (Some to)
  with run obtain u where "vmCall X c (st_Sender st) to (st_Payload st) gas (st_Amount st) u = Inr (r, t)"
    by (auto simp: runMessage_def res_simps)
  with vm show ?thesis unfolding vm_sound_def vm_step_def by blast
qed

lemma finishRun_gas:
  assumes law: "gas_law (xe_gas X) metered" and m: "metered m" "GasLimitOf (xe_gas X) m = L" "GasConsumed (xe_gas X) m \<le> L"
    and left: "vr_leftOver r \<le> L - GasConsumed (xe_gas X) m"
    and fin: "finishRun X st (L - GasConsumed (xe_gas X) m) m n r s = (res, m')"
  shows "uint (GasConsumed (xe_gas X) m') = uint L - uint (vr_leftOver r)"
    and "res = Inr (er, rd, v) \<Longrightarrow> gi_GasRefunded (er_GasInfo er) = vr_leftOver r"
proof -
  let ?G = "xe_gas X" let ?g = "L - GasConsumed ?G m"
  have g: "uint ?g = uint L - uint (GasConsumed ?G m)" using m(3) uint_sub_lem [of "GasConsumed ?G m" L] by (simp add: word_le_def)
  have d: "uint (?g - vr_leftOver r) = uint ?g - uint (vr_leftOver r)" "uint (vr_leftOver r) \<le> uint ?g"
    using left uint_sub_lem [of "vr_leftOver r" ?g] by (simp_all add: word_le_def)
  obtain e m2 where C: "ConsumeGas ?G m (?g - vr_leftOver r) = (e, m2)" by (cases "ConsumeGas ?G m (?g - vr_leftOver r)")
  note gl = gas_lawD [OF law m(1) C]
  have e: "e = None" using gl(3) g d m(2,3) by (simp add: word_le_def)
  have m2: "m' = m2" using fin C e by (simp add: finishRun_def Let_def)
  with gl(4) [OF e] g d(1) show "uint (GasConsumed ?G m') = uint L - uint (vr_leftOver r)" by simp
  show "gi_GasRefunded (er_GasInfo er) = vr_leftOver r" if "res = Inr (er, rd, v)"
    using finishRun_Inr(1) [of X st ?g m n r s er rd v m'] fin that
    by (auto simp: commitRun_def res_simps Let_def split: option.splits)
qed

subsection \<open>What a transaction costs\<close>

lemma ConsumeGas_limit:
  assumes "gas_law G metered" and "metered m" and "ConsumeGas G m a = (e, m')"
  shows "metered m' \<and> GasLimitOf G m' = GasLimitOf G m"
  using gas_lawD(1,2) [OF assms] by simp

lemma TransitionDb_limit:
  assumes law: "gas_law (xe_gas X) metered" and m: "metered (GasMeter ctx)" and run: "TransitionDb X st ctx config = (res, m')"
  shows "metered m' \<and> GasLimitOf (xe_gas X) m' = GasLimitOf (xe_gas X) (GasMeter ctx)"
proof -
  obtain p m1 where p: "payIntrinsic X st config (GasMeter ctx) = (p, m1)" by (cases "payIntrinsic X st config (GasMeter ctx)")
  then have "m1 = GasMeter ctx \<or> (\<exists>a e. ConsumeGas (xe_gas X) (GasMeter ctx) a = (e, m1))"
    by (auto simp: payIntrinsic_def Let_def split: sum.splits option.splits prod.splits if_splits)
  with ConsumeGas_limit [OF law m] m
  have m1: "metered m1" "GasLimitOf (xe_gas X) m1 = GasLimitOf (xe_gas X) (GasMeter ctx)" by auto
  from run p have "m' = m1 \<or> (\<exists>a e. ConsumeGas (xe_gas X) m1 a = (e, m'))"
    by (auto simp: TransitionDb_def finishRun_def Let_def split: sum.splits option.splits prod.splits)
  with ConsumeGas_limit [OF law m1(1)] m1 show ?thesis by auto
qed

lemma handler_limit:
  assumes law: "gas_law (xe_gas X) metered" and m: "metered (GasMeter ctx)"
    and run: "handleMsgEthereumTx X ctx k msg S = (res, k', m')"
  shows "GasLimitOf (xe_gas X) m' = GasLimitOf (xe_gas X) (GasMeter ctx)"
proof -
  obtain e m1 where c: "ConsumeGas (xe_gas X) (GasMeter ctx) (configReadGas X (GetChainConfig S)) = (e, m1)"
    by (cases "ConsumeGas (xe_gas X) (GasMeter ctx) (configReadGas X (GetChainConfig S))")
  note m1 = ConsumeGas_limit [OF law m c]
  have "m' = GasMeter ctx \<or> m' = m1 \<or> (\<exists>st config r. TransitionDb X st (ctx\<lparr>GasMeter := m1\<rparr>) config = (r, m'))"
    using run c
    by (auto simp: handleMsgEthereumTx_def applyTransition_def Let_def split: sum.splits option.splits prod.splits)
  moreover have "GasLimitOf (xe_gas X) m' = GasLimitOf (xe_gas X) m1"
    if "TransitionDb X st (ctx\<lparr>GasMeter := m1\<rparr>) config = (r, m')" for st config r
    using TransitionDb_limit [OF law _ that] m1 by simp
  ultimately show ?thesis using m1 by auto
qed

lemma GasRefund_moved:
  assumes fees: "fee_law A col" and wf: "accounts_wf (ae_evm A) (as_stores S)"
    and payer: "FeePayer (ae_tx A) msg = AddressBytes (ae_evm A) a" "GetAccount S (AddressBytes (ae_evm A) a) = Some (EthAcc acc)"
    and lim: "GasLimitOf (ae_gas A) (GasMeter ctx) = GetGas msg"
    and run: "GasRefund A ctx msg S = Inr S'"
  shows "holds A (as_accounts S') b d = holds A (as_accounts S) b d +
     (if d = bondDenom (ae_evm A) then
        td_Price (msg_Data msg) * (uint (GetGas msg) - min (uint (GasConsumed (ae_gas A) (GasMeter ctx))) (uint (GetGas msg))) *
          ((if b = AddressBytes (ae_evm A) a then 1 else 0) - (if b = col then 1 else 0)) else 0)"
proof (cases "GetGas msg \<le> GasConsumed (ae_gas A) (GasMeter ctx)")
  case True
  with run lim show ?thesis by (simp add: GasRefund_def Let_def word_le_def)
next
  case False
  let ?u = "GasConsumed (ae_gas A) (GasMeter ctx)" and ?E = "ae_evm A" and ?p = "td_Price (msg_Data msg)"
  have lt: "uint ?u < uint (GetGas msg)" using False by (simp add: word_le_def)
  have ad: "accAddress A (EthAcc acc) = AddressBytes ?E a"
    using wf payer(2) by (simp add: accAddress_def accounts_wf_def account_wf_def GetAccount_def)
  have "0 \<le> uint ?u" by simp
  with lt have "uint (GetGas msg) \<noteq> 0" by linarith
  then have fd: "Fee msg div uint (GetGas msg) = ?p" by (simp add: Fee_def GetGas_def)
  from run False lim payer obtain m where
    m: "RefundFees A (as_accounts S) (AddressBytes ?E a) [\<lparr>Denom = bondDenom ?E, Amount = Fee msg - ?p * uint ?u\<rparr>] = Some m"
    and S': "S' = setAccounts m S"
    by (auto simp: GasRefund_def Let_def res_simps GetFee_def refundCoin_def ad fd split: option.splits if_splits)
  from fees m have mv: "coins_moved A (as_accounts S) col (AddressBytes ?E a) [\<lparr>Denom = bondDenom ?E, Amount = Fee msg - ?p * uint ?u\<rparr>] m"
    unfolding fee_law_def by blast
  have "Fee msg - ?p * uint ?u = ?p * (uint (GetGas msg) - uint ?u)" by (simp add: Fee_def GetGas_def algebra_simps)
  with mv lt S' show ?thesis by (auto simp: coins_moved_def setAccounts_def AmountOf_def)
qed

lemma ante_fee_moved:
  assumes E: "evm_env_ok (ae_evm A)" and fees: "fee_law A col" and wf: "accounts_wf (ae_evm A) (as_stores S)"
    and del: "\<not> IsCheckTx ctx" and ante: "ethAnteHandler A ctx (EthTx msg) sim S = Inr (ctx1, tx1, S1)"
    and sig: "ParseChainID (ctxChainID ctx) = Inr c" "VerifySig (ae_tx A) msg c = Inr (a, msg')"
    and acc: "GetAccount S (AddressBytes (ae_evm A) a) = Some (EthAcc acc)"
  shows "\<exists>acc'. GetAccount S1 (AddressBytes (ae_evm A) a) = Some (EthAcc acc')"
    and "holds A (as_accounts S1) b d = holds A (as_accounts S) b d +
     (if d = bondDenom (ae_evm A) then
        Fee msg * ((if b = col then 1 else 0) - (if b = AddressBytes (ae_evm A) a then 1 else 0)) else 0)"
proof -
  let ?E = "ae_evm A"
  from ethAnte_sender [OF del ante sig] obtain x m where x: "GetAccount S (AddressBytes ?E a) = Some x"
    "feesTaken A msg x (as_accounts S) m"
    and inc: "incrementSequence A (setAccounts m S) (AddressBytes ?E a) = Inr S1" .
  from x acc have m: "feesTaken A msg (EthAcc acc) (as_accounts S) m" by simp
  have ad: "accAddress A (EthAcc acc) = AddressBytes ?E a"
    using wf acc by (simp add: accAddress_def accounts_wf_def account_wf_def GetAccount_def)
  from feesTaken_moved [OF fees m] ad obtain cs where mv: "coins_moved A (as_accounts S) (AddressBytes ?E a) col cs m"
    and cs: "\<And>d. AmountOf d cs = (if d = bondDenom ?E then Fee msg else 0)" by auto
  from mv acc obtain ys where ys: "GetAccount (setAccounts m S) (AddressBytes ?E a) = Some (EthAcc (acc\<lparr>Coins := ys\<rparr>))"
    unfolding coins_moved_def GetAccount_def setAccounts_def by fastforce
  have k: "accAddress A (EthAcc (acc\<lparr>Coins := ys, Sequence := Sequence acc + 1\<rparr>)) = AddressBytes ?E a"
    using ad by (simp add: accAddress_def)
  from incrementSequence_eth [OF ys inc]
  have S1: "S1 = SetAccount A (EthAcc (acc\<lparr>Coins := ys, Sequence := Sequence acc + 1\<rparr>)) (setAccounts m S)" by simp
  show "\<exists>acc'. GetAccount S1 (AddressBytes ?E a) = Some (EthAcc acc')"
    by (simp add: S1 SetAccount_def setAccounts_def GetAccount_def k)
  have "holds A (as_accounts S1) b d = holds A m b d"
    using ys by (auto simp: S1 holds_def SetAccount_def setAccounts_def k GetAccount_def accCoins_def)
  with mv cs show "holds A (as_accounts S1) b d = holds A (as_accounts S) b d +
     (if d = bondDenom ?E then Fee msg * ((if b = col then 1 else 0) - (if b = AddressBytes ?E a then 1 else 0)) else 0)"
    by (auto simp: coins_moved_def)
qed

end
