(* ===== verification/Evm_Deliver_Props.thy ===== *)
theory Evm_Deliver_Props
  imports Evm_Deliver
begin

text \<open>
  The properties of delivered Ethereum transactions, with a concrete environment \<open>exec0\<close> in which the
  laws of the SDK and of the interpreter hold and a transaction is delivered.
\<close>

subsection \<open>A concrete environment\<close>

definition gas0 :: "(uint64 \<times> uint64) gas_ops" where
  "gas0 = \<lparr>GasLimitOf = fst, GasConsumed = snd,
     ConsumeGas = (\<lambda>m a. (if uint (snd m) + uint a \<le> uint (fst m) then None else Some ErrOutOfGas, (fst m, snd m + a))),
     SetGasMeter = (\<lambda>sim h l. (l, 0)), InfiniteGasMeter = (- 1, 0)\<rparr>"

lemma gas0_law: "gas_law gas0 (\<lambda>m. True)"
  by (auto simp: gas_law_def gas0_def)

definition moveCoins :: "(bytes, account) kv \<Rightarrow> bytes \<Rightarrow> bytes \<Rightarrow> sys_coins \<Rightarrow> (bytes, account) kv option" where
  "moveCoins m src dst cs =
     (case (kv_get m src, kv_get m dst) of
        (Some (EthAcc x), Some (EthAcc y)) \<Rightarrow>
          if src \<noteq> dst \<and> subDenoms (Coins x) cs \<and> list_all (\<lambda>c. 0 \<le> Amount c) cs
          then Some (kv_set dst (EthAcc (y\<lparr>Coins := Coins y @ cs\<rparr>))
                 (kv_set src (EthAcc (x\<lparr>Coins := Coins x @ map negCoin cs\<rparr>)) m))
          else None
      | _ \<Rightarrow> None)"

definition collector0 :: bytes where
  "collector0 = natBytes 20 1"

definition ante0 :: "(uint64 \<times> uint64) ante_env" where
  "ante0 = \<lparr>ae_tx = tx_env0, ae_gas = gas0, IntrinsicGas = (\<lambda>_ _ _ _. Some 21000),
     DeductFees = (\<lambda>m acc cs. moveCoins m (case acc of EthAcc a \<Rightarrow> Address a | OtherAcc b \<Rightarrow> b) collector0 cs),
     RefundFees = (\<lambda>m a cs. moveCoins m collector0 a cs),
     NewCoins = (\<lambda>c. [c]), MulInt64 = (*), OtherAddress = (\<lambda>b. b), OtherCoins = (\<lambda>b. []),
     OtherSequence = (\<lambda>b. 0), OtherAccountNumber = (\<lambda>b. 0), OtherSetSequence = (\<lambda>b n. None),
     ValidateBasicDecorator = (\<lambda>recheck r. if recheck then Inr () else r),
     stdSetUpContext = (\<lambda>ctx tx sim S. Inr (ctx, S)), stdDecorators = (\<lambda>ctx tx sim S. Inr (ctx, S)),
     MempoolEnableRecheck = False, MempoolEnableSort = False, GetUserPendingTxsCnt = (\<lambda>a. 0)\<rparr>"

lemma ante0_sel [simp]:
  "ae_tx ante0 = tx_env0" "ae_gas ante0 = gas0" "IntrinsicGas ante0 p c h i = Some 21000"
  "DeductFees ante0 m acc cs = moveCoins m (accAddress ante0 acc) collector0 cs"
  "RefundFees ante0 m a cs = moveCoins m collector0 a cs" "NewCoins ante0 co = [co]"
  "ValidateBasicDecorator ante0 b r = (if b then Inr () else r)"
  by (simp_all add: ante0_def accAddress_def split: account.splits)

lemma AmountOf_pos: "list_all (\<lambda>c. 0 \<le> Amount c) cs \<Longrightarrow> 0 \<le> AmountOf d cs"
  by (induction cs) (auto simp: AmountOf_def)

lemma moveCoins_moved:
  assumes "moveCoins m src dst cs = Some m'"
  shows "coins_moved ante0 m src dst cs m'"
proof -
  from assms obtain x y where x: "kv_get m src = Some (EthAcc x)" and y: "kv_get m dst = Some (EthAcc y)"
    and ne: "src \<noteq> dst" and sub: "subDenoms (Coins x) cs" "list_all (\<lambda>c. 0 \<le> Amount c) cs"
    and m': "m' = kv_set dst (EthAcc (y\<lparr>Coins := Coins y @ cs\<rparr>))
                 (kv_set src (EthAcc (x\<lparr>Coins := Coins x @ map negCoin cs\<rparr>)) m)"
    by (auto simp: moveCoins_def split: option.splits account.splits if_splits)
  have "\<exists>ys. kv_get m' b = Some (EthAcc (z\<lparr>Coins := ys\<rparr>)) \<and>
      ((\<forall>d. 0 \<le> AmountOf d (Coins z)) \<longrightarrow> (\<forall>d. 0 \<le> AmountOf d ys))" if z: "kv_get m b = Some (EthAcc z)" for b z
  proof -
    consider "b = dst" | "b = src" | "b \<noteq> dst" "b \<noteq> src" by blast
    then show ?thesis
    proof cases
      case 1
      with z y m' AmountOf_pos [OF sub(2)] show ?thesis by (intro exI [of _ "Coins y @ cs"]) (auto simp: AmountOf_append)
    next
      case 2
      with z x m' ne sub(1) show ?thesis
        by (intro exI [of _ "Coins x @ map negCoin cs"]) (auto simp: AmountOf_append AmountOf_neg subDenoms_iff)
    next
      case 3
      with z m' show ?thesis by (intro exI [of _ "Coins z"]) simp
    qed
  qed
  with x y ne show ?thesis
    by (auto simp: coins_moved_def m' holds_def accCoins_def AmountOf_append AmountOf_neg split: if_splits)
qed

lemma ante0_fees: "fee_law ante0 collector0"
  by (simp add: fee_law_def moveCoins_moved)

definition exec0 :: "(uint64 \<times> uint64) exec_env" where
  "exec0 = \<lparr>xe_ante = ante0,
     vmCreate = (\<lambda>vm caller input gas amt s. Inr (\<lparr>vr_ret = None, vr_addr = 9, vr_leftOver = gas, vr_err = None\<rparr>, s)),
     vmCall = (\<lambda>vm caller to input gas amt s. Inr (\<lparr>vr_ret = None, vr_addr = 0, vr_leftOver = gas, vr_err = None\<rparr>, s)),
     LogsBloom = (\<lambda>ls. 0), EncodeResultData = (\<lambda>r. Some []), TmTxHash = (\<lambda>b. [1]),
     configReadGas = (\<lambda>c. 1000), HexToHash = (\<lambda>s. 0), ErrExecutionReverted = ''execution reverted'',
     UnpackRevert = (\<lambda>b. None), HexEncode = (\<lambda>b. []), JsonStrings = (\<lambda>xs. None)\<rparr>"

lemma exec0_sel [simp]: "xe_ante exec0 = ante0" "configReadGas exec0 c = 1000" "EncodeResultData exec0 rd = Some []"
  by (simp_all add: exec0_def)

lemma exec0_vm: "vm_sound exec0"
proof -
  have "vm_step E a gas s r s" if "vr_leftOver r \<le> gas" for E a gas s r
    using that by (auto simp: vm_step_def intro!: exI [of _ "[]"])
  then show ?thesis by (auto simp: vm_sound_def exec0_def)
qed

text \<open>A chain with two accounts: the sender of the transaction \<open>msg0_signed\<close> and the fee collector.\<close>

definition acct0 :: "address \<Rightarrow> uint64 \<Rightarrow> dec \<Rightarrow> account" where
  "acct0 a n amt = EthAcc ((ProtoAccount evm_env0)\<lparr>Address := AddressBytes evm_env0 a, Sequence := n,
     Coins := [\<lparr>Denom = ''okt'', Amount = amt\<rparr>]\<rparr>)"

definition app0 :: app_state where
  "app0 = \<lparr>as_stores = stores0\<lparr>ev_accounts := kv_set (AddressBytes evm_env0 1) (acct0 1 0 0)
       (kv_set (AddressBytes evm_env0 3) (acct0 3 7 1000000) kv_empty)\<rparr>,
     as_accNum = 2, as_config = Some DefaultChainConfig, as_blockHash = kv_empty, as_bloom = kv_empty\<rparr>"

definition ctxE0 :: "(uint64 \<times> uint64) sdk_ctx" where
  "ctxE0 = \<lparr>IsCheckTx = False, IsReCheckTx = False, BlockHeight = 5, ctxChainID = ''faxchain-66'', MinGasPrices = [],
     ctxTxBytes = [], ProposerAddress = [], BlockTime = 0, GasMeter = (0, 0)\<rparr>"

lemma env0_addresses [simp]: "AddressBytes evm_env0 a = AddressBytes evm_env0 b \<longleftrightarrow> a = b"
  by (rule AddressBytes_inj [OF evm_env0_ok])

lemma collector0_address: "collector0 = AddressBytes evm_env0 1"
  by (simp add: collector0_def evm_env0_def)

lemma app0_wf: "accounts_wf evm_env0 (as_stores app0)"
  by (auto simp: accounts_wf_def app0_def acct0_def account_wf_def ProtoAccount_def Keccak256_def AmountOf_def)

lemma chain0: "ParseChainID (ctxChainID ctxE0) = Inr 66"
proof -
  have "digitChar 6 = CHR ''6''" by code_simp
  then have "natText 66 = ''66''" by (simp add: natText.simps)
  with ParseChainID_text [of "''faxchain''" 66] show ?thesis by (simp add: ctxE0_def isLowerAscii_def byteIn_def)
qed

lemma key0: "keyAddress evm_env0 pub0 [3] = 3"
proof -
  have "drop 12 (natBytes 32 3) = natBytes 20 3" by code_simp
  moreover have "bytesNat (natBytes 20 3) = 3" "bytesNat (natBytes 32 3) = 3" by (simp_all add: bytesNat_natBytes)
  ultimately show ?thesis by (simp add: keyAddress_def pub0_def Keccak256_def evm_env0_def bytesNat_def [of "[3]"])
qed

definition msg0_verified :: MsgEthereumTx where
  "msg0_verified = msg0_signed\<lparr>msg_from := Some (EIP155Signer 66, 3)\<rparr>"

lemma sender0: "VerifySig tx_env0 msg0_signed 66 = Inr (3, msg0_verified)"
  using sign_facts [OF tx_env0_ec _ msg0_signed] key0
  by (simp add: msg0_def newMsgEthereumTx_def msg0_verified_def)

subsection \<open>Properties\<close>


text \<open>C18: The gas of a transition never wraps around. With a gas meter whose limit is the gas limit of the
  transaction, either the intrinsic gas is refused, or the meter ends at no more than the limit. After a
  successful run what was consumed and what the interpreter left add up to the gas limit exactly.\<close>

theorem transition_gas_exact:
  assumes law: "gas_law (xe_gas X) metered" and vm: "vm_sound X" and m: "metered (GasMeter ctx)"
    and lim: "GasLimitOf (xe_gas X) (GasMeter ctx) = st_GasLimit st" "GasConsumed (xe_gas X) (GasMeter ctx) \<le> st_GasLimit st"
    and run: "TransitionDb X st ctx config = (res, m')"
  shows "(\<exists>e. payIntrinsic X st config (GasMeter ctx) = (Inl e, m') \<and> res = Inl e) \<or>
     GasConsumed (xe_gas X) m' \<le> st_GasLimit st \<and>
     (\<forall>er rd v. res = Inr (er, rd, v) \<longrightarrow>
        uint (GasConsumed (xe_gas X) m') + uint (gi_GasRefunded (er_GasInfo er)) = uint (st_GasLimit st))"
proof (cases "payIntrinsic X st config (GasMeter ctx)")
  case (Pair p m1)
  show ?thesis
  proof (cases p)
    case (Inl e)
    with Pair run show ?thesis by (simp add: TransitionDb_def)
  next
    case (Inr u)
    let ?g = "st_GasLimit st - GasConsumed (xe_gas X) m1"
    have p1: "metered m1" "GasLimitOf (xe_gas X) m1 = st_GasLimit st" "GasConsumed (xe_gas X) m1 \<le> st_GasLimit st"
      using payIntrinsic_gas [OF law m _ Pair [unfolded Inr unit_eq [of u]]] lim by simp_all
    show ?thesis
    proof (cases "executeRun X st ctx config ?g")
      case (Inl e)
      with Inr Pair run p1 show ?thesis by (auto simp: TransitionDb_def Let_def)
    next
      case ex: (Inr q)
      obtain n r s where q: "q = (n, r, s)" by (cases q)
      from ex q obtain c pr t where "runMessage X st c ?g pr t = Inr (r, s)"
        by (auto simp: executeRun_def res_simps Let_def split: prod.splits)
      note left = runMessage_gas [OF vm this]
      have "finishRun X st ?g m1 n r s = (res, m')" using run Pair Inr ex q by (simp add: TransitionDb_def Let_def)
      from finishRun_gas [OF law p1 left this] show ?thesis by (auto simp: word_le_def)
    qed
  qed
qed

definition app0_paid :: app_state where
  "app0_paid = setAccounts (kv_set (AddressBytes evm_env0 1)
       (EthAcc ((ProtoAccount evm_env0)\<lparr>Address := AddressBytes evm_env0 1,
          Coins := [\<lparr>Denom = ''okt'', Amount = 0\<rparr>, \<lparr>Denom = ''okt'', Amount = 200000\<rparr>]\<rparr>))
     (kv_set (AddressBytes evm_env0 3)
       (EthAcc ((ProtoAccount evm_env0)\<lparr>Address := AddressBytes evm_env0 3, Sequence := 8,
          Coins := [\<lparr>Denom = ''okt'', Amount = 1000000\<rparr>, \<lparr>Denom = ''okt'', Amount = - 200000\<rparr>]\<rparr>))
       (as_accounts app0))) app0"

lemma msg0_fields [simp]:
  "td_AccountNonce (msg_Data msg0_signed) = 7" "td_Price (msg_Data msg0_signed) = 2" "td_GasLimit (msg_Data msg0_signed) = 100000"
  "td_Amount (msg_Data msg0_signed) = 12" "td_Recipient (msg_Data msg0_signed) = Some 5" "td_Payload (msg_Data msg0_signed) = []"
  "msg_Data msg0_verified = msg_Data msg0_signed" "msgFrom evm_env0 msg0_verified = AddressBytes evm_env0 3"
  by (simp_all add: msg0_signed_def msg0_def newMsgEthereumTx_def msg0_verified_def msgFrom_def)

lemma address0_nonempty [simp]: "AddressBytes evm_env0 a \<noteq> []"
  using length_natBytes [of 20 "unat a"] by (auto simp: evm_env0_def simp del: length_natBytes)

lemma app0_account: "GetAccount app0 (AddressBytes evm_env0 3) = Some (acct0 3 7 1000000)"
  "GetAccount app0 (AddressBytes evm_env0 1) = Some (acct0 1 0 0)"
  by (simp_all add: GetAccount_def app0_def)

lemma ctxE0_sel [simp]: "\<not> IsCheckTx ctxE0" "\<not> IsReCheckTx ctxE0" by (simp_all add: ctxE0_def)

lemma ante0_run: "ethAnteHandler ante0 ctxE0 (EthTx msg0_signed) False app0 =
    Inr (ctxE0\<lparr>GasMeter := (100000, 0)\<rparr>, EthTx msg0_verified, app0_paid)"
proof -
  have 1: "GasLimitDecorator ante0 (EthTx msg0_signed) app0 = Inr ()"
    by (simp add: GasLimitDecorator_def asEth_def GetGas_def app0_def stores0_def)
  have 2: "EthMempoolFeeDecorator ante0 ctxE0 (EthTx msg0_signed) = Inr ()" by (simp add: EthMempoolFeeDecorator_def)
  have 3: "bindE (asEth (EthTx msg0_signed)) ethValidateBasic = Inr ()" by (simp add: asEth_def ethValidateBasic_def)
  have 4: "EthSigVerificationDecorator ante0 ctxE0 (EthTx msg0_signed) = Inr (EthTx msg0_verified)"
    using chain0 sender0 by (simp add: EthSigVerificationDecorator_def asEth_def)
  have 5: "AccountVerificationDecorator ante0 ctxE0 (EthTx msg0_verified) app0 = Inr app0"
    by (simp add: AccountVerificationDecorator_def)
  have 6: "NonceVerificationDecorator ante0 ctxE0 (EthTx msg0_verified) app0 = Inr ()"
    by (simp add: NonceVerificationDecorator_def asEth_def cachedSender_def EmptyAddr_def app0_account acct0_def accSequence_def)
  have "subDenoms [\<lparr>Denom = ''okt'', Amount = 1000000\<rparr>] [\<lparr>Denom = ''okt'', Amount = 200000\<rparr>]"
    by (simp add: subDenoms_def)
  then have 7: "EthGasConsumeDecorator ante0 ctxE0 (EthTx msg0_verified) False app0 = Inr (ctxE0\<lparr>GasMeter := (100000, 0)\<rparr>,
      setAccounts (kv_set (AddressBytes evm_env0 1)
       (EthAcc ((ProtoAccount evm_env0)\<lparr>Address := AddressBytes evm_env0 1,
          Coins := [\<lparr>Denom = ''okt'', Amount = 0\<rparr>, \<lparr>Denom = ''okt'', Amount = 200000\<rparr>]\<rparr>))
     (kv_set (AddressBytes evm_env0 3)
       (EthAcc ((ProtoAccount evm_env0)\<lparr>Address := AddressBytes evm_env0 3, Sequence := 7,
          Coins := [\<lparr>Denom = ''okt'', Amount = 1000000\<rparr>, \<lparr>Denom = ''okt'', Amount = - 200000\<rparr>]\<rparr>))
       (as_accounts app0))) app0)"
    by (simp add: EthGasConsumeDecorator_def asEth_def cachedSender_def EmptyAddr_def app0_account [unfolded GetAccount_def] GetAccount_def
        acct0_def accAddress_def GetGas_def NewCoinE_def moveCoins_def collector0_address gas0_def negCoin_def ProtoAccount_def)
  have 8: "IncrementSenderSequenceDecorator ante0 (ctxE0\<lparr>GasMeter := (100000, 0)\<rparr>) (EthTx msg0_verified)
      (setAccounts (kv_set (AddressBytes evm_env0 1)
       (EthAcc ((ProtoAccount evm_env0)\<lparr>Address := AddressBytes evm_env0 1,
          Coins := [\<lparr>Denom = ''okt'', Amount = 0\<rparr>, \<lparr>Denom = ''okt'', Amount = 200000\<rparr>]\<rparr>))
     (kv_set (AddressBytes evm_env0 3)
       (EthAcc ((ProtoAccount evm_env0)\<lparr>Address := AddressBytes evm_env0 3, Sequence := 7,
          Coins := [\<lparr>Denom = ''okt'', Amount = 1000000\<rparr>, \<lparr>Denom = ''okt'', Amount = - 200000\<rparr>]\<rparr>))
       (as_accounts app0))) app0) = Inr app0_paid"
    by (simp add: IncrementSenderSequenceDecorator_def asEth_def ethGetSigners_def EmptyAddr_def incrementSequence_def GetAccount_def
        setAccounts_def accSetSequence_def accSequence_def SetAccount_def accAddress_def app0_paid_def kv_set_swap ProtoAccount_def)
  show ?thesis by (simp add: ethAnteHandler_def 1 2 3 4 5 6 7 8)
qed


lemma account0_paid:
  "kv_get (as_accounts app0_paid) (AddressBytes evm_env0 3) =
     Some (EthAcc ((ProtoAccount evm_env0)\<lparr>Address := AddressBytes evm_env0 3, Sequence := 8,
          Coins := [\<lparr>Denom = ''okt'', Amount = 1000000\<rparr>, \<lparr>Denom = ''okt'', Amount = - 200000\<rparr>]\<rparr>))"
  "ev_params (as_stores app0_paid) = ev_params stores0"
  "as_config app0_paid = Some DefaultChainConfig"
  by (simp_all add: app0_paid_def setAccounts_def app0_def)


abbreviation st0 :: "(uint64 \<times> uint64) sdk_ctx \<Rightarrow> StateTransition" where
  "st0 ctx \<equiv> ethTransition exec0 ctx NewKeeper msg0_signed 66 3 app0_paid"

lemma exec0_returns:
  "\<exists>s t. executeRun exec0 (st0 ctx) ctx DefaultChainConfig gas =
       Inr (8, \<lparr>vr_ret = None, vr_addr = 0, vr_leftOver = gas, vr_err = None\<rparr>, s) \<and> SetNonce evm_env0 s 3 8 = Inr t"
  by (simp add: executeRun_def ethTransition_def Let_def openCsdb_def Prepare_def csdbGetParams_def
     account0_paid newEVM_def EthereumConfig_def DefaultChainConfig_def getBlockValue_def GetNonce_def readObject_def soNonce_def
     runMessage_def evm_run stateE_def exec0_def cong: bindE_weak_cong)

lemma app0_paid_wf: "accounts_wf evm_env0 (as_stores app0_paid)"
  using ante_nonce(3) [of ante0, simplified, OF evm_env0_ok ante0_fees app0_wf _ ante0_run chain0 sender0]
  by (simp add: app0_account acct0_def)

lemma commit0: "\<exists>er rd v. commitRun exec0 (st0 ctx) gas 8 r s = Inr (er, rd, v) \<and> gi_GasRefunded (er_GasInfo er) = vr_leftOver r"
  if "executeRun exec0 (st0 ctx) ctx DefaultChainConfig g = Inr (8, r, s)" and t: "SetNonce evm_env0 s 3 8 = Inr t"
proof -
  have o: "opened evm_env0 (snd (csdbGetParams (st_Csdb (st0 ctx))))"
    using opened_openCsdb [OF app0_paid_wf] by (simp add: ethTransition_def Let_def)
  have "running evm_env0 (snd (csdbGetParams (st_Csdb (st0 ctx)))) 3 s"
    using executeRun_runs(1) [of exec0 "st0 ctx" ctx DefaultChainConfig g] that(1) o evm_env0_ok exec0_vm
    by (simp add: ethTransition_def Let_def)
  from running_commits [OF evm_env0_ok env0_writable o this t] obtain u v where
    "Finalise evm_env0 t True = Inr u" "Commit evm_env0 u True = Inr (0, v)" by blast
  with t show ?thesis by (auto simp: commitRun_def stateE_def ethTransition_def Let_def)
qed
lemma transition0:
  "\<exists>er rd v. TransitionDb exec0 (st0 (ctxE0\<lparr>GasMeter := (100000, 1000)\<rparr>)) (ctxE0\<lparr>GasMeter := (100000, 1000)\<rparr>) DefaultChainConfig =
     (Inr (er, rd, v), (100000, 21000))"
proof -
  let ?c = "ctxE0\<lparr>GasMeter := (100000, 1000)\<rparr>" and ?r = "\<lparr>vr_ret = None, vr_addr = 0, vr_leftOver = 79000, vr_err = None\<rparr>"
  obtain s t where ex: "executeRun exec0 (st0 ?c) ?c DefaultChainConfig 79000 = Inr (8, ?r, s)" and t: "SetNonce evm_env0 s 3 8 = Inr t"
    using exec0_returns by blast
  from commit0 [OF this, of 79000] obtain er rd v where c: "commitRun exec0 (st0 ?c) 79000 8 ?r s = Inr (er, rd, v)" by blast
  have "payIntrinsic exec0 (st0 ?c) DefaultChainConfig (100000, 1000) = (Inr (), (100000, 21000))"
    by (simp add: payIntrinsic_def IsHomestead_def IsIstanbul_def DefaultChainConfig_def getBlockValue_def gas0_def)
  moreover have "st_GasLimit (st0 ?c) = 100000" by (simp add: ethTransition_def Let_def)
  moreover have "finishRun exec0 (st0 ?c) 79000 (100000, 21000) 8 ?r s = (Inr (er, rd, v), (100000, 21000))"
    by (simp add: finishRun_def c gas0_def)
  ultimately show ?thesis using ex by (simp add: TransitionDb_def Let_def gas0_def)
qed

lemma st0_meter: "ethTransition exec0 (ctxE0\<lparr>GasMeter := g\<rparr>) k m c a S = ethTransition exec0 ctxE0 k m c a S"
  by (simp add: ethTransition_def Let_def)

lemma handler0:
  "\<exists>er S2 k'. handleMsgEthereumTx exec0 (ctxE0\<lparr>GasMeter := (100000, 0)\<rparr>) NewKeeper msg0_signed app0_paid =
     (Inr (er, S2), k', (100000, 21000))"
  using transition0 chain0 sender0
  by (auto simp: handleMsgEthereumTx_def applyTransition_def account0_paid GetChainConfig_def gas0_def st0_meter)

lemma delivered0: "\<exists>k' S'. deliver_tx exec0 ctxE0 msg0_signed (NewKeeper, app0) (k', S')"
proof -
  from handler0 obtain er S2 k' where
    "handleMsgEthereumTx exec0 (ctxE0\<lparr>GasMeter := (100000, 0)\<rparr>) NewKeeper msg0_signed app0_paid = (Inr (er, S2), k', (100000, 21000))" by blast
  from executed [OF ctxE0_sel(1) _ this] ante0_run show ?thesis by fastforce
qed


theorem transition_gas_exact_witness:
  "\<exists>er rd v. TransitionDb exec0 (st0 (ctxE0\<lparr>GasMeter := (100000, 1000)\<rparr>)) (ctxE0\<lparr>GasMeter := (100000, 1000)\<rparr>) DefaultChainConfig =
       (Inr (er, rd, v), (100000, 21000)) \<and> uint (gi_GasRefunded (er_GasInfo er)) = 79000"
proof -
  let ?c = "ctxE0\<lparr>GasMeter := (100000, 1000)\<rparr>"
  from transition0 obtain er rd v where
    r: "TransitionDb exec0 (st0 ?c) ?c DefaultChainConfig = (Inr (er, rd, v), (100000, 21000))" by blast
  have "GasLimitOf (xe_gas exec0) (GasMeter ?c) = st_GasLimit (st0 ?c)" "GasConsumed (xe_gas exec0) (GasMeter ?c) \<le> st_GasLimit (st0 ?c)"
    by (simp_all add: gas0_def ethTransition_def Let_def)
  from transition_gas_exact [OF gas0_law [folded ante0_sel(2), folded exec0_sel(1)] exec0_vm _ this r]
  have "uint (GasConsumed gas0 (100000, 21000)) + uint (gi_GasRefunded (er_GasInfo er)) = uint (st_GasLimit (st0 ?c))" by simp
  with r show ?thesis by (auto simp: gas0_def ethTransition_def Let_def)
qed


definition exec1 :: "(uint64 \<times> uint64) exec_env" where
  "exec1 = exec0\<lparr>vmCall := (\<lambda>vm caller to input gas amt s.
     Inr (\<lparr>vr_ret = Some [], vr_addr = 0, vr_leftOver = gas - 19000, vr_err = Some ''out of gas''\<rparr>, s))\<rparr>"

lemma exec1_sel [simp]: "xe_ante exec1 = ante0" "configReadGas exec1 c = 1000"
  by (simp_all add: exec1_def)

lemma exec1_returns:
  "\<exists>s. executeRun exec1 (ethTransition exec1 ctx NewKeeper msg0_signed 66 3 app0_paid) ctx DefaultChainConfig gas =
       Inr (8, \<lparr>vr_ret = Some [], vr_addr = 0, vr_leftOver = gas - 19000, vr_err = Some ''out of gas''\<rparr>, s)"
  by (simp add: executeRun_def ethTransition_def Let_def openCsdb_def Prepare_def csdbGetParams_def
     account0_paid newEVM_def EthereumConfig_def DefaultChainConfig_def getBlockValue_def GetNonce_def readObject_def soNonce_def
     runMessage_def evm_run stateE_def exec1_def exec0_def cong: bindE_weak_cong)

lemma handler1:
  "\<exists>e k'. handleMsgEthereumTx exec1 (ctxE0\<lparr>GasMeter := (100000, 0)\<rparr>) NewKeeper msg0_signed app0_paid = (Inl e, k', (100000, 40000))"
proof -
  let ?c = "ctxE0\<lparr>GasMeter := (100000, 1000)\<rparr>" and ?d = "ctxE0\<lparr>GasMeter := (100000, 0)\<rparr>"
  let ?t = "ethTransition exec1 ?d NewKeeper msg0_signed 66 3 app0_paid"
  have same: "ethTransition exec1 ?c NewKeeper msg0_signed 66 3 app0_paid = ?t" by (simp add: ethTransition_def Let_def)
  from exec1_returns [of ?c 79000] obtain s where ex: "executeRun exec1 ?t ?c DefaultChainConfig 79000 =
       Inr (8, \<lparr>vr_ret = Some [], vr_addr = 0, vr_leftOver = 60000, vr_err = Some ''out of gas''\<rparr>, s)" by (auto simp: same)
  have "payIntrinsic exec1 ?t DefaultChainConfig (100000, 1000) = (Inr (), (100000, 21000))"
    by (simp add: payIntrinsic_def IsHomestead_def IsIstanbul_def DefaultChainConfig_def getBlockValue_def gas0_def)
  moreover have "st_GasLimit ?t = 100000" by (simp add: ethTransition_def Let_def)
  ultimately have "\<exists>e. TransitionDb exec1 ?t ?c DefaultChainConfig = (Inl e, (100000, 40000))"
    using ex by (simp add: TransitionDb_def finishRun_def Let_def gas0_def)
  then show ?thesis using chain0 sender0
    by (auto simp: handleMsgEthereumTx_def applyTransition_def account0_paid GetChainConfig_def gas0_def)
qed

lemma payer0: "FeePayer tx_env0 msg0_signed = AddressBytes evm_env0 3"
  using sign_FeePayer [OF tx_env0_ec _ msg0_signed] key0 by (simp add: msg0_def newMsgEthereumTx_def)

lemma refund0:
  "\<exists>S'. NewGasRefundHandler ante0 (ctxE0\<lparr>GasMeter := (100000, 40000)\<rparr>) (EthTx msg0_signed) app0_paid = Inr S'"
proof -
  have "GetAccount app0_paid (AddressBytes evm_env0 3) = Some (EthAcc ((ProtoAccount evm_env0)\<lparr>Address := AddressBytes evm_env0 3, Sequence := 8,
          Coins := [\<lparr>Denom = ''okt'', Amount = 1000000\<rparr>, \<lparr>Denom = ''okt'', Amount = - 200000\<rparr>]\<rparr>))"
    "GetAccount app0_paid (AddressBytes evm_env0 1) = Some (EthAcc ((ProtoAccount evm_env0)\<lparr>Address := AddressBytes evm_env0 1,
          Coins := [\<lparr>Denom = ''okt'', Amount = 0\<rparr>, \<lparr>Denom = ''okt'', Amount = 200000\<rparr>]\<rparr>))"
    by (simp_all add: GetAccount_def account0_paid) (simp add: app0_paid_def setAccounts_def)
  moreover have "subDenoms [\<lparr>Denom = ''okt'', Amount = 0\<rparr>, \<lparr>Denom = ''okt'', Amount = 200000\<rparr>] [\<lparr>Denom = ''okt'', Amount = 120000\<rparr>]"
    by (simp add: subDenoms_def AmountOf_def)
  ultimately show ?thesis
    by (simp add: NewGasRefundHandler_def GasRefund_def Let_def gas0_def payer0 GetFee_def NewCoinE_def Fee_def refundCoin_def GetGas_def
        accAddress_def moveCoins_def collector0_address GetAccount_def)
qed


text \<open>C20: Only permitted messages are executed. If an Ethereum transaction was delivered successfully, then at
  that moment the parameters of the module enabled what it did: a creation is enabled and, where the
  deployment whitelist is in force, the sender is on it; a call is enabled.\<close>

theorem execution_permitted:
  assumes E: "evm_env_ok (xe_evm X)" and vm: "vm_sound X" and wf: "accounts_wf (xe_evm X) (as_stores S)"
    and run: "handleMsgEthereumTx X ctx k msg S = (Inr (er, S'), k', m')"
    and sig: "ParseChainID (ctxChainID ctx) = Inr c" "VerifySig (ae_tx (xe_ante X)) msg c = Inr (a, msg')"
  shows "case td_Recipient (msg_Data msg) of
      None \<Rightarrow> EnableCreate (ev_params (as_stores S)) \<and>
        (EnableContractDeploymentWhitelist (ev_params (as_stores S)) \<longrightarrow>
           kv_get (ev_whitelist (as_stores S)) (AddressBytes (xe_evm X) a) \<noteq> None)
    | Some _ \<Rightarrow> EnableCall (ev_params (as_stores S))"
proof -
  let ?st = "ethTransition X ctx k msg c a S"
  have st: "st_Sender ?st = a" "st_Recipient ?st = td_Recipient (msg_Data msg)" "st_Csdb ?st = openCsdb k (IsCheckTx ctx) (st_TxHash ?st) S"
    by (simp_all add: ethTransition_def Let_def)
  from run sig have "applyTransition X ctx (countTx (IsCheckTx ctx) k) ?st S = (Inr (er, S'), k', m')"
    by (simp add: handleMsgEthereumTx_def)
  from applyTransition_Inr [OF this] obtain m config rd v where
    T: "TransitionDb X ?st (ctx\<lparr>GasMeter := m\<rparr>) config = (Inr (er, rd, v), m')" by blast
  from TransitionDb_Inr [OF T] obtain g n r s where ex: "executeRun X ?st (ctx\<lparr>GasMeter := m\<rparr>) config g = Inr (n, r, s)" .
  from executeRun_Inr [OF ex, unfolded st(1)] obtain vm' p s0 t u where p: "csdbGetParams (st_Csdb ?st) = (p, s0)" and t: "GetNonce (xe_evm X) s0 a = Inr (n, t)"
    and u: "SetNonce (xe_evm X) t a (st_AccountNonce ?st) = Inr u" and M: "runMessage X ?st vm' g p u = Inr (r, s)"
    .
  have o: "opened (xe_evm X) s0" using opened_openCsdb [OF wf, of k "IsCheckTx ctx" "st_TxHash ?st"] p by (simp add: st(3))
  have ps: "p = ev_params (as_stores S)" "stores s0 = as_stores S"
    using p by (auto simp: st(3) openCsdb_def csdbGetParams_def CreateEmptyCommitStateDB_def Prepare_def Let_def split: if_splits)
  note ru = running_SetNonce(1) [OF E o running_GetNonce(1) [OF E o running_start [OF o] t] u]
  have su: "stores u = as_stores S" using running_stores [OF E o ru] ps(2) by simp
  show ?thesis
    using M by (auto simp: runMessage_def st ps(1) IsDeployerInWhitelist_def su split: option.splits if_splits)
qed

theorem execution_permitted_witness:
  "\<exists>er S' k'. handleMsgEthereumTx exec0 (ctxE0\<lparr>GasMeter := (100000, 0)\<rparr>) NewKeeper msg0_signed app0_paid =
     (Inr (er, S'), k', (100000, 21000)) \<and> EnableCall (ev_params (as_stores app0_paid))"
proof -
  from handler0 obtain er S' k' where
    h: "handleMsgEthereumTx exec0 (ctxE0\<lparr>GasMeter := (100000, 0)\<rparr>) NewKeeper msg0_signed app0_paid = (Inr (er, S'), k', (100000, 21000))" by blast
  from execution_permitted [of exec0, simplified, OF evm_env0_ok exec0_vm app0_paid_wf h _ sender0] chain0 h show ?thesis by simp
qed



end
