(* ===== verification/Evm_Genesis_Props.thy ===== *)
theory Evm_Genesis_Props
  imports Evm_Gov Evm_Deliver_Props
begin

text \<open>
  What import and export of the EVM module keep, when the export panics, and that the registered invariants hold.
\<close>

subsection \<open>Accounts under their own address\<close>

definition accounts_keyed :: "evm_env \<Rightarrow> app_state \<Rightarrow> bool" where
  "accounts_keyed E S \<longleftrightarrow> (\<forall>(k, acc) \<in> set (kv_list (as_accounts S)). case acc of EthAcc x \<Rightarrow> k = AddressBytes E (EthAddress E x) | _ \<Rightarrow> True)"

lemma keyedD:
  assumes "accounts_keyed E S" and "EthAcc x \<in> set (map snd (kv_list (as_accounts S)))"
  shows "kv_get (as_accounts S) (AddressBytes E (EthAddress E x)) = Some (EthAcc x)"
  using assms by (auto simp: accounts_keyed_def kv_in_list)

lemma csdbOf_facts:
  assumes "accounts_wf E (as_stores S)"
  shows "evm_ready E (csdbOf S)" and "csdb_wf E (csdbOf S)" and "stores (csdbOf S) = as_stores S"
    and "fetch E (csdbOf S) a = storedObject E (as_stores S) a" and "params_cache (csdbOf S) = None"
  using assms
  by (simp_all add: csdbOf_def CreateEmptyCommitStateDB_def evm_ready_def csdb_wf_def al_wf_empty jpos_def newJournal_def fetch_def)

lemma keyed_fetch:
  assumes "accounts_wf E (as_stores S)" and "accounts_keyed E S" and "EthAcc x \<in> set (map snd (kv_list (as_accounts S)))"
  shows "fetch E (csdbOf S) (EthAddress E x) = Some (objectOf E x)"
  using csdbOf_facts(4) [OF assms(1)] keyedD [OF assms(2,3)] by (simp add: storedObject_def)

subsection \<open>The registered invariants\<close>

lemma countMismatch_none:
  assumes "\<And>s x. EthAcc x \<in> set accs \<Longrightarrow> R s \<Longrightarrow> \<exists>t. check s x = Inr (True, t) \<and> R t" and "R s"
  shows "\<exists>t. foldE (countMismatch check) (0, s) accs = Inr (0, t)"
  using assms
proof (induction accs arbitrary: s)
  case (Cons acc accs)
  show ?case
  proof (cases acc)
    case (EthAcc x)
    with Cons.prems obtain t where "check s x = Inr (True, t)" "R t" by force
    with Cons EthAcc show ?thesis by (simp add: countMismatch_def)
  next
    case (OtherAcc b)
    with Cons show ?thesis by (simp add: countMismatch_def)
  qed
qed simp

lemma read_account:
  assumes E: "evm_env_ok E" and wf: "accounts_wf E (as_stores S)" "accounts_keyed E S" and x: "EthAcc x \<in> set (map snd (kv_list (as_accounts S)))"
    and s: "csdb_wf E s \<and> fetch E s = fetch E (csdbOf S)"
  shows "\<exists>t. readObject E s (EthAddress E x) d f = Inr (f (objectOf E x), t) \<and> csdb_wf E t \<and> fetch E t = fetch E (csdbOf S)"
proof -
  have "fetch E s (EthAddress E x) = Some (objectOf E x)" using s keyed_fetch [OF wf x] by simp
  from getStateObject_Some [OF E _ this] s obtain t where "getStateObject E s (EthAddress E x) = Inr (Some (objectOf E x), t)" "loads E s (EthAddress E x) t"
    by blast
  with s show ?thesis by (simp add: readObject_def loads_def)
qed

lemma objectOf_reads: "soBalance E (objectOf E x) = AmountOf (bondDenom E) (Coins x)" "soNonce (objectOf E x) = Sequence x"
  by (simp_all add: soBalance_def Balance_def soNonce_def objectOf_def Let_def)

text \<open>The registered invariants hold. Where accounts are well formed and stored under their own address, the
  balance and the nonce that the state database reads for an account are those of the account, and neither
  invariant of the module is broken.\<close>

theorem evm_invariants_hold:
  assumes E: "evm_env_ok E" and wf: "accounts_wf E (as_stores S)" "accounts_keyed E S"
  shows "BalanceInvariant E S = Inr False \<and> NonceInvariant E S = Inr False"
proof -
  let ?R = "\<lambda>s. csdb_wf E s \<and> fetch E s = fetch E (csdbOf S)"
  have R: "?R (csdbOf S)" using csdbOf_facts(2) [OF wf(1)] by simp
  note r = read_account [OF E wf]
  have "\<exists>t. foldE (countMismatch (\<lambda>s acc.
         bindE (GetBalance E s (EthAddress E acc)) (\<lambda>(b, s). Inr (b = AmountOf (bondDenom E) (Coins acc), s))))
       (0, csdbOf S) (map snd (kv_list (as_accounts S))) = Inr (0, t)"
    by (rule countMismatch_none [of _ ?R, OF _ R]) (use r [of _ _ 0 "soBalance E"] in \<open>fastforce simp: GetBalance_def objectOf_reads\<close>)
  moreover have "\<exists>t. foldE (countMismatch (\<lambda>s acc.
         bindE (GetNonce E s (EthAddress E acc)) (\<lambda>(n, s). Inr (n = Sequence acc, s))))
       (0, csdbOf S) (map snd (kv_list (as_accounts S))) = Inr (0, t)"
    by (rule countMismatch_none [of _ ?R, OF _ R]) (use r [of _ _ 0 soNonce] in \<open>fastforce simp: GetNonce_def objectOf_reads\<close>)
  ultimately show ?thesis by (auto simp: BalanceInvariant_def NonceInvariant_def)
qed

subsection \<open>Export\<close>

text \<open>A database that was only read.\<close>

definition reading :: "evm_env \<Rightarrow> app_state \<Rightarrow> commitStateDB \<Rightarrow> bool" where
  "reading E S s \<longleftrightarrow> evm_ready E s \<and> stores s = as_stores S \<and> view E s = view E (csdbOf S) \<and>
     params_cache s \<in> {None, Some (ev_params (as_stores S))}"

definition blocked :: "evm_env \<Rightarrow> app_state \<Rightarrow> address \<Rightarrow> bool" where
  "blocked E S a \<longleftrightarrow> EnableContractBlockedList (ev_params (as_stores S)) \<and> kv_get (ev_blocked (as_stores S)) (AddressBytes E a) \<noteq> None"

lemma same_but_cache_params: "same_but_cache s t \<Longrightarrow> params_cache t = params_cache s"
  unfolding same_but_cache_def by (cases s; cases t) simp

lemma reading_params:
  assumes "reading E S s"
  shows "csdbGetParams s = (ev_params (as_stores S), s\<lparr>params_cache := Some (ev_params (as_stores S))\<rparr>)"
  using assms by (cases s) (auto simp: reading_def csdbGetParams_def)

lemma GetCode_eq:
  assumes "reading E S s"
  shows "GetCode E s a = (if blocked E S a then Inl (PanicBlocked a)
     else bindE (getStateObject E (s\<lparr>params_cache := Some (ev_params (as_stores S))\<rparr>) a) (\<lambda>(so, s).
       case so of None \<Rightarrow> Inr (None, s)
       | Some so \<Rightarrow> let (c, so) = soCode E (stores s) so in bindE (setStateObject s so) (\<lambda>s. Inr (c, s))))"
proof -
  have "stores s = as_stores S" using assms by (simp add: reading_def)
  then show ?thesis by (simp add: GetCode_def reading_params [OF assms] blocked_def IsContractInBlockedList_def)
qed

lemma GetCode_reads:
  assumes E: "evm_env_ok E" and r: "reading E S s" and nb: "\<not> blocked E S a" and f: "fetch E s a \<noteq> None"
  shows "\<exists>c t. GetCode E s a = Inr (c, t)"
proof -
  let ?s = "s\<lparr>params_cache := Some (ev_params (as_stores S))\<rparr>"
  have "csdb_wf E s" using r by (simp add: reading_def evm_ready_def)
  then have wf: "csdb_wf E ?s" by (simp add: csdb_wf_def)
  from f obtain so where so: "fetch E ?s a = Some so" by (auto simp: fetch_def)
  from getStateObject_Some [OF E wf so] obtain t where t: "getStateObject E ?s a = Inr (Some so, t)" "loads E ?s a t"
    "map_of (stateObjects t) a = Some so" by blast
  have wt: "csdb_wf E t" using t(2) by (simp add: loads_def)
  obtain c so' where c: "soCode E (stores t) so = (c, so')" by force
  have o: "object_wf E (stores t) so" "so_address so = a" using csdb_wfD(2) [OF wt t(3)] by (auto simp: live_wf_def)
  note w = soCode_object [OF o(1) c]
  have "live_wf E (stores t) (so_address so', so')" using w fetch_wf(3) [OF E wf so] o(2) by (auto simp: live_wf_def)
  from setStateObject_spec [OF wt this] obtain u where "setStateObject t so' = Inr u" by blast
  with t(1) c nb show ?thesis by (simp add: GetCode_eq [OF r])
qed

lemma GetCode_reading:
  assumes E: "evm_env_ok E" and r: "reading E S s" and op: "GetCode E s a = Inr (c, t)"
  shows "reading E S t"
proof -
  have rd: "evm_ready E s" using r by (simp add: reading_def)
  note st = GetCode_step [OF E rd op]
  have "evm_ready E t" using journals_ready [OF st(1)] .
  moreover have "stores t = stores s" using st(1) by (auto simp: journals_def logged_def)
  moreover have "view E t = view E s" using st(2) by (simp add: observe_def)
  moreover have "params_cache t = Some (ev_params (as_stores S))"
  proof -
    let ?s = "s\<lparr>params_cache := Some (ev_params (as_stores S))\<rparr>"
    have wf: "csdb_wf E ?s" using rd by (simp add: evm_ready_def csdb_wf_def)
    from op obtain x u where x: "getStateObject E ?s a = Inr (x, u)"
      and rest: "(case x of None \<Rightarrow> Inr (None, u) | Some so \<Rightarrow>
        let (c, so) = soCode E (stores u) so in bindE (setStateObject u so) (\<lambda>s. Inr (c, s))) = Inr (c, t)"
      by (auto simp: GetCode_eq [OF r] res_simps split: if_splits)
    have pu: "params_cache u = Some (ev_params (as_stores S))"
      using getStateObject_Inr(2) [OF E wf x] same_but_cache_params [of ?s u] by (simp add: loads_def)
    have "params_cache t = params_cache u"
      using rest by (auto simp: res_simps setStateObject_def Let_def split: option.splits prod.splits)
    with pu show ?thesis by simp
  qed
  ultimately show ?thesis using r by (simp add: reading_def)
qed

text \<open>The storage of an account in the store, in the order of its keys.\<close>

definition accountStorage :: "app_state \<Rightarrow> address \<Rightarrow> Storage" where
  "accountStorage S a = map (\<lambda>e. NewState (snd (fst e)) (snd e)) (filter (\<lambda>e. fst (fst e) = a) (kv_list (ev_storage (as_stores S))))"

lemma forEachLoop_clean:
  assumes "keyToDirtyStorageIndex so = Map.empty" and "\<And>k v x. \<not> fst (cb k v x)"
  shows "forEachLoop so cb es x = Inr (foldl (\<lambda>x e. snd (cb (snd (fst e)) (snd e) x)) x es)"
proof (induction es arbitrary: x)
  case (Cons e es)
  obtain a k v where e: "e = ((a, k), v)" by (metis prod.collapse)
  have "forEachLoop so cb es y = Inr (foldl (\<lambda>x e. snd (cb (snd (fst e)) (snd e) x)) y es)" for y by (rule Cons.IH)
  with assms(2) [of k v x] show ?case by (cases "cb k v x") (simp add: e assms(1))
qed simp

lemma kForEachStorage_eq:
  assumes E: "evm_env_ok E" and wf: "accounts_wf E (as_stores S)" "accounts_keyed E S" and x: "GetAccount S (AddressBytes E a) = Some (EthAcc x)"
    and cb: "\<And>k v y. \<not> fst (cb k v y)"
  shows "kForEachStorage E S a cb y = Inr (foldl (\<lambda>y s. snd (cb (Key s) (Value s) y)) y (accountStorage S a))"
proof -
  have f: "fetch E (csdbOf S) a = Some (objectOf E x)" using csdbOf_facts(4) [OF wf(1)] x by (simp add: storedObject_def GetAccount_def)
  have a: "EthAddress E x = a" using wf(1) x evm_env_okD(2) [OF E] by (simp add: accounts_wf_def account_wf_def EthAddress_def GetAccount_def)
  from getStateObject_Some [OF E csdbOf_facts(2) [OF wf(1)] f] obtain t where
    t: "getStateObject E (csdbOf S) a = Inr (Some (objectOf E x), t)" "loads E (csdbOf S) a t" by blast
  have st: "stores t = as_stores S" using t(2) same_but_cacheD(1) csdbOf_facts(3) [OF wf(1)] by (auto simp: loads_def)
  have so: "so_address (objectOf E x) = a" "keyToDirtyStorageIndex (objectOf E x) = Map.empty"
    using a by (simp_all add: objectOf_def EthAddress_def Let_def)
  show ?thesis
    using t(1) by (simp add: kForEachStorage_def ForEachStorage_def so forEachLoop_clean [OF so(2) cb] st accountStorage_def foldl_map NewState_def)
qed

lemma GetAccountStorage_eq:
  assumes E: "evm_env_ok E" and wf: "accounts_wf E (as_stores S)" "accounts_keyed E S" and x: "EthAcc x \<in> set (map snd (kv_list (as_accounts S)))"
  shows "GetAccountStorage E S (EthAddress E x) = Inr (accountStorage S (EthAddress E x))"
proof -
  have "foldl (\<lambda>xs s. xs @ [NewState (Key s) (Value s)]) ys ss = ys @ ss" for ys ss :: Storage
    by (induction ss arbitrary: ys) (simp_all add: NewState_def)
  with kForEachStorage_eq [OF E wf, of "EthAddress E x" x "\<lambda>k v storage. (False, storage @ [NewState k v])" "[]"] keyedD [OF wf(2) x]
  show ?thesis by (simp add: GetAccountStorage_def GetAccount_def)
qed

lemma liftCsdb_Inr [res_simps]: "liftCsdb m = Inr y \<longleftrightarrow> m = Inr y"
  by (auto simp: liftCsdb_def split: sum.splits)

text \<open>The loop over the accounts in the default mode.\<close>

lemma exportAccounts_default:
  assumes E: "evm_env_ok (ge_evm G)" and wf: "accounts_wf (ge_evm G) (as_stores S)" "accounts_keyed (ge_evm G) S"
    and accs: "set accs \<subseteq> set (map snd (kv_list (as_accounts S)))" and r: "reading (ge_evm G) S s"
    and nb: "\<And>x. EthAcc x \<in> set accs \<Longrightarrow> \<not> blocked (ge_evm G) S (EthAddress (ge_evm G) x)"
  shows "\<exists>gs t. foldE (exportAccount G defaultMode S) (gs0, D, s) accs = Inr (gs0 @ gs, D, t) \<and> reading (ge_evm G) S t \<and>
     map (\<lambda>g. (ga_Address g, ga_Storage g)) gs =
       concat (map (\<lambda>acc. case acc of EthAcc x \<Rightarrow> [(AddressString G (EthAddress (ge_evm G) x), accountStorage S (EthAddress (ge_evm G) x))] | _ \<Rightarrow> []) accs)"
  using accs r nb
proof (induction accs arbitrary: gs0 s)
  case Nil
  then show ?case by (intro exI [of _ "[]"]) simp
next
  case (Cons acc accs)
  let ?E = "ge_evm G"
  show ?case
  proof (cases acc)
    case (OtherAcc b)
    with Cons.IH [of s gs0] Cons.prems show ?thesis by (simp add: exportAccount_def)
  next
    case (EthAcc x)
    let ?a = "EthAddress ?E x"
    have x: "EthAcc x \<in> set (map snd (kv_list (as_accounts S)))" using Cons.prems(1) EthAcc by simp
    have "view ?E s ?a = view ?E (csdbOf S) ?a" using Cons.prems(2) by (simp add: reading_def)
    then have "fetch ?E s ?a \<noteq> None" using keyed_fetch [OF wf x] by (auto simp: view_def)
    from GetCode_reads [OF E Cons.prems(2) _ this] Cons.prems(3) [of x] EthAcc obtain c t where
      c: "GetCode ?E s ?a = Inr (c, t)" by auto
    let ?g = "\<lparr>ga_Address = AddressString G ?a, ga_Code = c, ga_Storage = accountStorage S ?a\<rparr>"
    have step: "exportAccount G defaultMode S (gs0, D, s) acc = Inr (gs0 @ [?g], D, t)"
      using c GetAccountStorage_eq [OF E wf x] by (simp add: exportAccount_def EthAcc liftCsdb_def Let_def)
    from Cons.IH [of t "gs0 @ [?g]", OF _ GetCode_reading [OF E Cons.prems(2) c]] Cons.prems(1,3) obtain gs u where
      "foldE (exportAccount G defaultMode S) (gs0 @ [?g], D, t) accs = Inr ((gs0 @ [?g]) @ gs, D, u)" "reading ?E S u"
      "map (\<lambda>g. (ga_Address g, ga_Storage g)) gs =
       concat (map (\<lambda>acc. case acc of EthAcc x \<Rightarrow> [(AddressString G (EthAddress ?E x), accountStorage S (EthAddress ?E x))] | _ \<Rightarrow> []) accs)"
      by auto
    with step EthAcc show ?thesis by (intro exI [of _ "?g # gs"]) simp
  qed
qed

lemma exportAccounts_blocked:
  assumes E: "evm_env_ok (ge_evm G)" and r: "reading (ge_evm G) S s"
    and x: "EthAcc x \<in> set accs" "blocked (ge_evm G) S (EthAddress (ge_evm G) x)"
  shows "\<exists>e. foldE (exportAccount G defaultMode S) (gs0, D, s) accs = Inl e"
  using r x(1)
proof (induction accs arbitrary: gs0 s)
  case (Cons acc accs)
  let ?E = "ge_evm G"
  show ?case
  proof (cases "exportAccount G defaultMode S (gs0, D, s) acc")
    case (Inr y)
    have "acc \<noteq> EthAcc x"
      using Inr GetCode_eq [OF Cons.prems(1), of "EthAddress ?E x"] x(2) by (auto simp: exportAccount_def liftCsdb_def Let_def)
    with Cons.prems(2) have "EthAcc x \<in> set accs" by simp
    moreover obtain gs t where y: "y = (gs, D, t)" "reading ?E S t"
    proof (cases acc)
      case (OtherAcc b)
      with Inr have "y = (gs0, D, s)" by (simp add: exportAccount_def)
      from that [OF this Cons.prems(1)] show ?thesis .
    next
      case (EthAcc z)
      with Inr obtain c t where "GetCode ?E s (EthAddress ?E z) = Inr (c, t)" "\<exists>gs. y = (gs, D, t)"
        by (auto simp: exportAccount_def res_simps Let_def)
      with GetCode_reading [OF E Cons.prems(1)] that show ?thesis by blast
    qed
    ultimately show ?thesis using Cons.IH [of t gs] Inr by simp
  qed simp
qed simp

lemma reading_csdbOf:
  assumes "accounts_wf E (as_stores S)"
  shows "reading E S (csdbOf S)"
  using csdbOf_facts [OF assms] by (simp add: reading_def)

text \<open>C37: An export panics exactly when a blocked contract exists. In the default mode the export of the module
  succeeds unless the blocked list is enabled and one of the accounts is on it: \<open>GetCode\<close> panics for such
  an account, and nothing recovers from the panic.\<close>

theorem export_panics_iff_blocked:
  assumes E: "evm_env_ok (ge_evm G)" and wf: "accounts_wf (ge_evm G) (as_stores S)" "accounts_keyed (ge_evm G) S"
  shows "(\<exists>e. evmExportGenesis G defaultMode D S = Inl e) \<longleftrightarrow>
     EnableContractBlockedList (ev_params (as_stores S)) \<and>
     (\<exists>a x. GetAccount S (AddressBytes (ge_evm G) a) = Some (EthAcc x) \<and> kv_get (ev_blocked (as_stores S)) (AddressBytes (ge_evm G) a) \<noteq> None)"
proof -
  let ?E = "ge_evm G" and ?accs = "map snd (kv_list (as_accounts S))"
  note r = reading_csdbOf [OF wf(1)]
  have "(\<exists>x. EthAcc x \<in> set ?accs \<and> blocked ?E S (EthAddress ?E x)) \<longleftrightarrow>
     (\<exists>a x. GetAccount S (AddressBytes ?E a) = Some (EthAcc x) \<and> blocked ?E S a)" (is "?l \<longleftrightarrow> ?r")
  proof
    show "?l \<Longrightarrow> ?r" using keyedD [OF wf(2)] by (auto simp: GetAccount_def)
    assume ?r
    then obtain a x where ax: "kv_get (as_accounts S) (AddressBytes ?E a) = Some (EthAcc x)" "blocked ?E S a" by (auto simp: GetAccount_def)
    then have "EthAcc x \<in> set ?accs" by (force simp: kv_in_list [symmetric])
    moreover have "EthAddress ?E x = a"
      using wf(1) ax(1) evm_env_okD(2) [OF E] by (simp add: accounts_wf_def account_wf_def EthAddress_def)
    ultimately show ?l using ax(2) by auto
  qed
  moreover have "(\<exists>e. evmExportGenesis G defaultMode D S = Inl e) \<longleftrightarrow> ?l"
  proof (cases ?l)
    case True
    then obtain x where "EthAcc x \<in> set ?accs" "blocked ?E S (EthAddress ?E x)" by blast
    from exportAccounts_blocked [OF E r this, of "[]" D] True show ?thesis by (auto simp: evmExportGenesis_def)
  next
    case False
    with exportAccounts_default [OF E wf _ r, of ?accs "[]" D] show ?thesis by (auto simp: evmExportGenesis_def)
  qed
  ultimately show ?thesis by (auto simp: blocked_def)
qed

subsection \<open>Import\<close>

text \<open>The operations on cached objects do not touch the stores.\<close>

lemma setStateObject_stores: "setStateObject s so = Inr t \<Longrightarrow> stores t = stores s"
  by (auto simp: setStateObject_def res_simps split: option.splits)

lemma getStateObject_stores: "getStateObject E s a = Inr (x, t) \<Longrightarrow> stores t = stores s"
  by (auto simp: getStateObject_def res_simps csdbSetError_def split: option.splits if_splits dest!: setStateObject_stores)

lemma createObject_stores: "createObject E s a = Inr (x, p, t) \<Longrightarrow> stores t = stores s"
  by (auto simp: createObject_def res_simps Let_def dest!: setStateObject_stores getStateObject_stores)

lemma GetOrNew_stores: "GetOrNewStateObject E s a = Inr (x, t) \<Longrightarrow> stores t = stores s"
  by (auto simp: GetOrNewStateObject_def res_simps split: option.splits if_splits dest!: createObject_stores getStateObject_stores)

lemma putBack_stores: "putBack s p = Inr t \<Longrightarrow> stores t = stores s"
  by (auto simp: putBack_def dest!: setStateObject_stores)

lemma setter_stores:
  "SetNonce E s a n = Inr t \<Longrightarrow> stores t = stores s"
  "csdbSetBalance E s a m = Inr t \<Longrightarrow> stores t = stores s"
  "SetCode E s a cd = Inr t \<Longrightarrow> stores t = stores s"
  by (auto simp: SetNonce_def csdbSetBalance_def SetCode_def res_simps dest!: GetOrNew_stores putBack_stores)

lemma setStates_eq:
  "setStates a ss st = st\<lparr>ev_storage := foldl (\<lambda>m s. kv_set (a, Key s) (Value s) m) (ev_storage st) ss\<rparr>"
  by (induction ss arbitrary: st) (simp_all add: setStates_def SetStateDirectly_def)

text \<open>The storage of one genesis account put into the store.\<close>

definition putStorage :: "gen_env \<Rightarrow> (address \<times> hash, hash) kv \<Rightarrow> GenesisAccount \<Rightarrow> (address \<times> hash, hash) kv" where
  "putStorage G m g = foldl (\<lambda>m s. kv_set (HexToAddress G (ga_Address g), Key s) (Value s) m) m (ga_Storage g)"

lemma initAccount_stores:
  assumes "initAccount G defaultMode D s g = Inr t"
  shows "stores t = (stores s)\<lparr>ev_storage := putStorage G (ev_storage (stores s)) g\<rparr>"
  using assms
  by (auto simp: initAccount_def Let_def res_simps setter_stores setStates_eq putStorage_def split: option.splits account.splits)

lemma initAccounts_stores:
  assumes "foldE (initAccount G defaultMode D) s gs = Inr t"
  shows "stores t = (stores s)\<lparr>ev_storage := foldl (putStorage G) (ev_storage (stores s)) gs\<rparr>"
  using assms by (induction gs arbitrary: s) (auto simp: res_simps initAccount_stores)

text \<open>What \<open>Commit\<close> leaves alone.\<close>

definition other_stores :: "evm_stores \<Rightarrow> evm_stores" where
  "other_stores st = st\<lparr>ev_accounts := kv_empty, ev_codes := kv_empty\<rparr>"

lemma updateStateObject_other: "updateStateObject E s so = Inr p \<Longrightarrow> other_stores (stores (snd p)) = other_stores (stores s)"
  by (auto simp: updateStateObject_def Let_def other_stores_def split: if_splits)

lemma writeObject_stores: "stores (writeObject i p) = stores (snd p)"
  by (simp add: writeObject_def)

lemma commitStep_other:
  assumes "commitStep E False s i = Inr t"
  shows "other_stores (stores t) = other_stores (stores s)"
proof -
  from assms obtain addr so u where u: "stores t = stores u"
    and step: "(if suicided so then Inr (writeObject i (deleteStateObject s so))
             else if addr \<in> stateObjectsDirty s then
               let (so, s) =
                 (if so_code so \<noteq> None \<and> dirtyCode so
                  then (so\<lparr>dirtyCode := False\<rparr>, s\<lparr>stores := commitCode E so (stores s)\<rparr>)
                  else (so, s))
               in bindE (updateStateObject E s so) (\<lambda>p. Inr (writeObject i p))
             else Inr s) = Inr u"
    by (cases "stateObjects s ! i") (auto simp: commitStep_def Let_def res_simps)
  have code: "other_stores (commitCode E so st) = other_stores st" for so st by (simp add: commitCode_def other_stores_def)
  from step have "other_stores (stores u) = other_stores (stores s)"
    by (auto simp: res_simps writeObject_stores deleteStateObject_def other_stores_def [of "ev_accounts_update _ _"] code
        split: if_splits dest!: updateStateObject_other) (simp_all add: other_stores_def)
  with u show ?thesis by simp
qed

lemma Commit_other:
  assumes "Commit E s False = Inr (h, t)"
  shows "other_stores (stores t) = other_stores (stores s)" and "dirties (jrnl t) = []"
proof -
  have fold: "foldE (commitStep E False) s xs = Inr u \<Longrightarrow> other_stores (stores u) = other_stores (stores s)" for s u xs
    by (induction xs arbitrary: s) (auto simp: res_simps dest!: commitStep_other)
  show "other_stores (stores t) = other_stores (stores s)" and "dirties (jrnl t) = []"
    using assms by (auto simp: Commit_def Let_def res_simps clearJournalAndRefund_def newJournal_def dest!: fold)
qed

lemma Finalise_nothing: "dirties (jrnl s) = [] \<Longrightarrow> Finalise E s b = Inr t \<Longrightarrow> stores t = stores s"
  by (auto simp: Finalise_def Let_def clearJournalAndRefund_def DeleteLogs_def)

lemma init_other_stores:
  assumes "evmInitGenesis G defaultMode D g S0 = Inr S1"
  shows "ev_storage (as_stores S1) = foldl (putStorage G) (ev_storage (as_stores S0)) (gs_Accounts g)"
    and "ev_whitelist (as_stores S1) = foldl (\<lambda>m a. kv_set a () m) (ev_whitelist (as_stores S0)) (gs_Whitelist g)"
    and "ev_blocked (as_stores S1) = foldl (\<lambda>m a. kv_set a () m) (ev_blocked (as_stores S0)) (gs_BlockedList g)"
    and "ev_params (as_stores S1) = gs_Params g" and "as_config S1 = Some (gs_ChainConfig g)"
proof -
  let ?st = "(as_stores S0)\<lparr>ev_params := gs_Params g\<rparr>"
  from assms obtain s t u h where s: "foldE (initAccount G defaultMode D) (csdbOf (S0\<lparr>as_stores := ?st\<rparr>)) (gs_Accounts g) = Inr s"
    and t: "Commit (ge_evm G) (SetContractBlockedList (SetContractDeploymentWhitelist s (gs_Whitelist g)) (gs_BlockedList g)) False = Inr (h, t)"
    and u: "Finalise (ge_evm G) t False = Inr u" and S1: "S1 = SetChainConfig (gs_ChainConfig g) (putCsdb u (S0\<lparr>as_stores := ?st\<rparr>))"
    by (auto simp: evmInitGenesis_def kSetParams_def res_simps Let_def split: sum.splits)
  have s': "stores s = ?st\<lparr>ev_storage := foldl (putStorage G) (ev_storage (as_stores S0)) (gs_Accounts g)\<rparr>"
    using initAccounts_stores [OF s] by (simp add: csdbOf_def CreateEmptyCommitStateDB_def)
  have "as_stores S1 = stores t" using Finalise_nothing [OF Commit_other(2) [OF t] u] by (simp add: S1 SetChainConfig_def putCsdb_def)
  with Commit_other(1) [OF t] have o: "other_stores (as_stores S1) =
      other_stores (stores (SetContractBlockedList (SetContractDeploymentWhitelist s (gs_Whitelist g)) (gs_BlockedList g)))" by simp
  have sel: "ev_storage st = ev_storage (other_stores st)" "ev_whitelist st = ev_whitelist (other_stores st)"
    "ev_blocked st = ev_blocked (other_stores st)" "ev_params st = ev_params (other_stores st)" for st
    by (simp_all add: other_stores_def)
  note defs = SetContractBlockedList_def SetContractDeploymentWhitelist_def s'
  show "ev_storage (as_stores S1) = foldl (putStorage G) (ev_storage (as_stores S0)) (gs_Accounts g)"
    using arg_cong [OF o, of ev_storage] by (simp add: sel [symmetric] defs)
  show "ev_whitelist (as_stores S1) = foldl (\<lambda>m a. kv_set a () m) (ev_whitelist (as_stores S0)) (gs_Whitelist g)"
    using arg_cong [OF o, of ev_whitelist] by (simp add: sel [symmetric] defs)
  show "ev_blocked (as_stores S1) = foldl (\<lambda>m a. kv_set a () m) (ev_blocked (as_stores S0)) (gs_BlockedList g)"
    using arg_cong [OF o, of ev_blocked] by (simp add: sel [symmetric] defs)
  show "ev_params (as_stores S1) = gs_Params g" using arg_cong [OF o, of ev_params] by (simp add: sel [symmetric] defs)
  show "as_config S1 = Some (gs_ChainConfig g)" by (simp add: S1 SetChainConfig_def)
qed

subsection \<open>Export and import\<close>

lemma map_of_kv_list: "map_of (kv_list m) = kv_get m"
  by (simp add: kv_get.rep_eq fun_eq_iff)

lemma map_of_filter_fst: "map_of (filter (\<lambda>e. P (fst e)) es) k = (if P k then map_of es k else None)"
  by (induction es) auto

lemma putStorage_account:
  assumes "HexToAddress G (ga_Address g) = b" and "ga_Storage g = accountStorage S b"
  shows "kv_get (putStorage G m g) (a, k) =
     (if a = b then case kv_get (ev_storage (as_stores S)) (a, k) of Some v \<Rightarrow> Some v | None \<Rightarrow> kv_get m (a, k) else kv_get m (a, k))"
proof -
  let ?es = "filter (\<lambda>e. fst (fst e) = b) (kv_list (ev_storage (as_stores S)))"
  have "foldl (\<lambda>m e. kv_set (b, snd (fst e)) (snd e) m) m es = foldl (\<lambda>m e. kv_set (fst e) (snd e) m) m es"
    if "\<forall>e \<in> set es. fst (fst e) = b" for es :: "((address \<times> hash) \<times> hash) list" and m
    using that by (induction es arbitrary: m) auto
  from this [of ?es m] have "putStorage G m g = foldl (\<lambda>m e. kv_set (fst e) (snd e) m) m ?es"
    by (simp add: putStorage_def assms accountStorage_def foldl_map NewState_def)
  moreover have "distinct (map fst ?es)" using kv_keys_distinct [of "ev_storage (as_stores S)"] by (rule distinct_map_filter)
  ultimately have "kv_get (putStorage G m g) (a, k) = (case map_of ?es (a, k) of Some v \<Rightarrow> Some v | None \<Rightarrow> kv_get m (a, k))"
    by (simp add: foldl_kv_get)
  then show ?thesis by (simp add: map_of_filter_fst [of "\<lambda>k. fst k = b"] map_of_kv_list)
qed

lemma putStorages:
  assumes "\<And>a. HexToAddress G (AddressString G a) = a"
    and "map (\<lambda>g. (ga_Address g, ga_Storage g)) gs = map (\<lambda>a. (AddressString G a, accountStorage S a)) as"
  shows "kv_get (foldl (putStorage G) m gs) (a, k) =
     (if a \<in> set as then case kv_get (ev_storage (as_stores S)) (a, k) of Some v \<Rightarrow> Some v | None \<Rightarrow> kv_get m (a, k) else kv_get m (a, k))"
  using assms(2)
proof (induction gs arbitrary: m "as")
  case (Cons g gs)
  then obtain b bs where b: "as = b # bs" "ga_Address g = AddressString G b" "ga_Storage g = accountStorage S b"
    and r: "map (\<lambda>g. (ga_Address g, ga_Storage g)) gs = map (\<lambda>a. (AddressString G a, accountStorage S a)) bs"
    by (cases "as") auto
  show ?case
    using Cons.IH [OF r, of "putStorage G m g"] putStorage_account [of G g b S m a k] assms(1) b by (auto split: option.splits)
qed simp

lemma kv_set_members: "kv_get (foldl (\<lambda>m a. kv_set a () m) m xs) k = (if k \<in> set xs then Some () else kv_get m k)"
  by (induction xs arbitrary: m) simp_all

lemma list_restored: "foldl (\<lambda>m a. kv_set a () m) kv_empty (map fst (kv_list m)) = m"
proof (rule kv_eqI)
  fix k
  have "k \<in> set (map fst (kv_list m)) \<longleftrightarrow> kv_get m k = Some ()" using kv_in_list [of k "()" m] by force
  moreover have "kv_get m k = Some () \<or> kv_get m k = None" by (cases "kv_get m k") auto
  ultimately show "kv_get (foldl (\<lambda>m a. kv_set a () m) kv_empty (map fst (kv_list m))) k = kv_get m k"
    by (auto simp: kv_set_members simp del: set_map)
qed

text \<open>C36: Genesis keeps what it exports. If the export of a chain is imported into a chain with empty stores, the
  parameters, the chain configuration, the deployment whitelist and the blocked list are those of the exported
  chain, and so is the storage of every contract that still has an account; storage whose account is gone is
  not exported.\<close>

theorem evm_genesis_roundtrip:
  assumes E: "evm_env_ok (ge_evm G)" and wf: "accounts_wf (ge_evm G) (as_stores S)" "accounts_keyed (ge_evm G) S"
    and hex: "\<And>a. HexToAddress G (AddressString G a) = a"
    and export: "evmExportGenesis G defaultMode D S = Inr (g, D')" "as_config S \<noteq> None"
    and empty: "ev_storage (as_stores S0) = kv_empty" "ev_whitelist (as_stores S0) = kv_empty" "ev_blocked (as_stores S0) = kv_empty"
    and init: "evmInitGenesis G defaultMode D0 g S0 = Inr S1"
  shows "ev_params (as_stores S1) = ev_params (as_stores S) \<and> as_config S1 = as_config S \<and>
     ev_whitelist (as_stores S1) = ev_whitelist (as_stores S) \<and> ev_blocked (as_stores S1) = ev_blocked (as_stores S) \<and>
     (\<forall>a k. kv_get (ev_storage (as_stores S1)) (a, k) =
        (if \<exists>x. GetAccount S (AddressBytes (ge_evm G) a) = Some (EthAcc x) then kv_get (ev_storage (as_stores S)) (a, k) else None))"
proof -
  let ?E = "ge_evm G" and ?accs = "map snd (kv_list (as_accounts S))"
  let ?as = "concat (map (\<lambda>acc. case acc of EthAcc x \<Rightarrow> [EthAddress ?E x] | _ \<Rightarrow> []) ?accs)"
  note r = reading_csdbOf [OF wf(1)]
  have nb: "\<not> blocked ?E S (EthAddress ?E x)" if "EthAcc x \<in> set ?accs" for x
    using exportAccounts_blocked [OF E r that, of "[]" D] export(1) by (auto simp: evmExportGenesis_def)
  from exportAccounts_default [OF E wf subset_refl r nb, of "[]" D] obtain gs t where
    f: "foldE (exportAccount G defaultMode S) ([], D, csdbOf S) ?accs = Inr (gs, D, t)" "reading ?E S t"
    and gs: "map (\<lambda>g. (ga_Address g, ga_Storage g)) gs =
       concat (map (\<lambda>acc. case acc of EthAcc x \<Rightarrow> [(AddressString G (EthAddress ?E x), accountStorage S (EthAddress ?E x))] | _ \<Rightarrow> []) ?accs)"
    by auto
  have "map (\<lambda>a. (AddressString G a, accountStorage S a)) (concat (map (\<lambda>acc. case acc of EthAcc x \<Rightarrow> [EthAddress ?E x] | _ \<Rightarrow> []) accs)) =
      concat (map (\<lambda>acc. case acc of EthAcc x \<Rightarrow> [(AddressString G (EthAddress ?E x), accountStorage S (EthAddress ?E x))] | _ \<Rightarrow> []) accs)" for accs
    by (induction accs) (auto split: account.splits)
  from this [of ?accs] gs have gs': "map (\<lambda>g. (ga_Address g, ga_Storage g)) gs = map (\<lambda>a. (AddressString G a, accountStorage S a)) ?as"
    by (simp only:)
  have st: "stores t = as_stores S" using f(2) by (simp add: reading_def)
  have g: "gs_Accounts g = gs" "gs_Params g = ev_params (as_stores S)" "gs_Whitelist g = map fst (kv_list (ev_whitelist (as_stores S)))"
    "gs_BlockedList g = map fst (kv_list (ev_blocked (as_stores S)))" "Some (gs_ChainConfig g) = as_config S"
    using export f(1) st
    by (auto simp: evmExportGenesis_def kGetParams_def GetContractDeploymentWhitelist_def GetContractBlockedList_def GetChainConfig_def)
  note i = init_other_stores [OF init]
  have mem: "a \<in> set ?as \<longleftrightarrow> (\<exists>x. GetAccount S (AddressBytes ?E a) = Some (EthAcc x))" for a
  proof
    assume "a \<in> set ?as"
    then obtain x where "EthAcc x \<in> set ?accs" "a = EthAddress ?E x" by (auto split: account.splits)
    with keyedD [OF wf(2)] show "\<exists>x. GetAccount S (AddressBytes ?E a) = Some (EthAcc x)" by (auto simp: GetAccount_def)
  next
    assume "\<exists>x. GetAccount S (AddressBytes ?E a) = Some (EthAcc x)"
    then obtain x where x: "kv_get (as_accounts S) (AddressBytes ?E a) = Some (EthAcc x)" by (auto simp: GetAccount_def)
    then have "EthAcc x \<in> set ?accs" by (force simp: kv_in_list [symmetric])
    moreover have "EthAddress ?E x = a"
      using wf(1) x evm_env_okD(2) [OF E] by (simp add: accounts_wf_def account_wf_def EthAddress_def)
    ultimately show "a \<in> set ?as" by force
  qed
  have "kv_get (ev_storage (as_stores S1)) (a, k) =
        (if \<exists>x. GetAccount S (AddressBytes ?E a) = Some (EthAcc x) then kv_get (ev_storage (as_stores S)) (a, k) else None)" for a k
    using putStorages [OF hex gs', of kv_empty a k] mem [of a] by (simp add: i(1) g(1) empty(1) split: option.splits)
  with i(2-5) g(2-5) empty(2,3) show ?thesis by (simp add: list_restored)
qed


text \<open>The text file of a storage.\<close>

lemma Split_nonempty: "Split sep cs \<noteq> []"
  by (induction cs) (auto split: list.splits)

lemma Split_append: "sep \<notin> set cs \<Longrightarrow> Split sep (cs @ sep # ds) = cs # Split sep ds"
  by (induction cs) auto

lemma Split_none: "sep \<notin> set cs \<Longrightarrow> Split sep cs = [cs]"
  by (induction cs) auto

lemma completeLines_concat:
  "list_all (\<lambda>l. CHR 0x0A \<notin> set l) ls \<Longrightarrow> completeLines (concat (map (\<lambda>l. l @ [CHR 0x0A]) ls)) = ls"
  by (induction ls) (simp_all add: completeLines_def Split_append Split_nonempty)

definition hash_text :: "gen_env \<Rightarrow> bool" where
  "hash_text G \<longleftrightarrow> (\<forall>h. HashFromHex G (HashHex G h) = h \<and> CHR '':'' \<notin> set (HashHex G h) \<and> CHR 0x0A \<notin> set (HashHex G h))"

lemma readStorageLines:
  assumes "hash_text G"
  shows "foldE (readStorageLine G a) st (map (\<lambda>s. HashHex G (Key s) @ CHR '':'' # HashHex G (Value s)) ss) = Inr (setStates a ss st)"
  using assms
  by (induction ss arbitrary: st) (simp_all add: setStates_def readStorageLine_def Split_append Split_none hash_text_def)

text \<open>The storage file is lossless. Where the text of a hash reads back as the hash and has no colon and no line
  break, the file that an export writes for the storage of an account, read line by line by the import, sets
  exactly the storage of the account; an account without storage has no file and the import changes nothing.\<close>

theorem storage_file_roundtrip:
  assumes E: "evm_env_ok (ge_evm G)" and wf: "accounts_wf (ge_evm G) (as_stores S)" "accounts_keyed (ge_evm G) S" and h: "hash_text G"
    and x: "GetAccount S (AddressBytes (ge_evm G) a) = Some (EthAcc x)"
  shows "\<exists>D'. syncWriteAccountStorage G S a D = Inr D' \<and>
     syncReadStorageFromFile G D' a st = Inr (setStates a (accountStorage S a) st)"
proof -
  let ?line = "\<lambda>s. HashHex G (Key s) @ CHR '':'' # HashHex G (Value s)" and ?ss = "accountStorage S a"
  let ?cb = "\<lambda>k v (content, index). (False, (content @ storageLine G k v, Suc index))"
  have fold: "foldl (\<lambda>y s. snd (?cb (Key s) (Value s) y)) (c, n) ss = (c @ concat (map (\<lambda>l. l @ [CHR 0x0A]) (map ?line ss)), n + length ss)" for c n ss
    by (induction ss arbitrary: c n) (simp_all add: storageLine_def)
  have w: "syncWriteAccountStorage G S a D = Inr (D\<lparr>xd_storageFiles := (xd_storageFiles D)(storageFile G a :=
      if ?ss = [] then None else Some (concat (map (\<lambda>l. l @ [CHR 0x0A]) (map ?line ?ss))))\<rparr>)"
    using kForEachStorage_eq [OF E wf x, of ?cb "([], 0)"] fold [of "[]" 0 ?ss] by (simp add: syncWriteAccountStorage_def split_beta)
  have "list_all (\<lambda>l. CHR 0x0A \<notin> set l) (map ?line ?ss)" using h by (simp add: hash_text_def list_all_iff)
  then have "syncReadStorageFromFile G (D\<lparr>xd_storageFiles := (xd_storageFiles D)(storageFile G a :=
      if ?ss = [] then None else Some (concat (map (\<lambda>l. l @ [CHR 0x0A]) (map ?line ?ss))))\<rparr>) a st = Inr (setStates a ?ss st)"
    using readStorageLines [OF h, of a st ?ss]
    by (simp add: syncReadStorageFromFile_def completeLines_concat setStates_def del: map_map)
  with w show ?thesis by blast
qed

text \<open>A chain with one contract account, storage of it and of an address without account, and a whitelist.\<close>

definition gen_env0 :: gen_env where
  "gen_env0 = \<lparr>ge_evm = evm_env0, AddressString = (\<lambda>a. map (\<lambda>b. char_of (unat b)) (AddressBytes evm_env0 a)),
     HexToAddress = (\<lambda>s. BytesToAddress evm_env0 (map (\<lambda>c. word_of_nat (of_char c)) s)),
     HashHex = (\<lambda>h. map (\<lambda>b. if b then CHR ''1'' else CHR ''0'') (map (bit h) [0..<256])),
     HashFromHex = (\<lambda>s. horner_sum of_bool 2 (map (\<lambda>c. c = CHR ''1'') s)), BytesHex = (\<lambda>b. []), MustDecodeHex = (\<lambda>s. None), FromHex = (\<lambda>s. []),
     ValidEip = (\<lambda>i. True), AccString = (\<lambda>b. []), MaxTitleLength = 10, MaxDescriptionLength = 10\<rparr>"

lemma gen_env0_sel [simp]: "ge_evm gen_env0 = evm_env0" "ValidEip gen_env0 i"
  by (simp_all add: gen_env0_def)

lemma gen_env0_hex [simp]: "HexToAddress gen_env0 (AddressString gen_env0 a) = a"
proof -
  have "map (\<lambda>c. word_of_nat (of_char c)) (map (\<lambda>b. char_of (unat b)) bs) = bs" for bs :: bytes
  proof (induction bs)
    case (Cons b bs)
    have "unat b < 256" using unsigned_less [of b] by simp
    with Cons show ?case by simp
  qed simp
  then show ?thesis by (simp add: gen_env0_def comp_def del: map_map)
qed

definition appG :: app_state where
  "appG = \<lparr>as_stores = stores0\<lparr>ev_accounts := kv_set (AddressBytes evm_env0 3) (acct0 3 7 100) kv_empty,
     ev_storage := kv_set (3, 5) 9 (kv_set (4, 5) 8 kv_empty), ev_whitelist := kv_set [1] () kv_empty\<rparr>,
     as_accNum = 2, as_config = Some DefaultChainConfig, as_blockHash = kv_empty, as_bloom = kv_empty\<rparr>"

definition appG0 :: app_state where
  "appG0 = appG\<lparr>as_stores := stores0\<lparr>ev_accounts := as_accounts appG\<rparr>\<rparr>"

definition xd0 :: export_data where
  "xd0 = \<lparr>xd_codeFiles = Map.empty, xd_storageFiles = Map.empty, xd_codeDB = kv_empty, xd_stateDB = kv_empty, xd_emptyDBs = True\<rparr>"

lemma appG_wf: "accounts_wf evm_env0 (as_stores appG)" "accounts_keyed evm_env0 appG"
  by (auto simp: accounts_wf_def accounts_keyed_def appG_def acct0_def account_wf_def ProtoAccount_def Keccak256_def AmountOf_def EthAddress_def)

theorem evm_invariants_hold_witness:
  "BalanceInvariant evm_env0 appG = Inr False \<and> NonceInvariant evm_env0 appG = Inr False"
  by (rule evm_invariants_hold [OF evm_env0_ok appG_wf])

definition appG_blocked :: app_state where
  "appG_blocked = appG\<lparr>as_stores := (as_stores appG)\<lparr>ev_blocked := kv_set (AddressBytes evm_env0 3) () kv_empty,
     ev_params := (ev_params stores0)\<lparr>EnableContractBlockedList := True\<rparr>\<rparr>\<rparr>"

theorem export_panics_iff_blocked_witness:
  "(\<exists>e. evmExportGenesis gen_env0 defaultMode xd0 appG_blocked = Inl e) \<and> (\<exists>g. evmExportGenesis gen_env0 defaultMode xd0 appG = Inr g)"
proof -
  have "accounts_wf evm_env0 (as_stores appG_blocked)" "accounts_keyed evm_env0 appG_blocked"
    using appG_wf by (simp_all add: appG_blocked_def accounts_wf_def accounts_keyed_def)
  from export_panics_iff_blocked [of gen_env0, simplified, OF evm_env0_ok this]
  have "\<exists>e. evmExportGenesis gen_env0 defaultMode xd0 appG_blocked = Inl e"
    by (auto simp: appG_blocked_def appG_def GetAccount_def acct0_def)
  moreover have "\<not> (\<exists>e. evmExportGenesis gen_env0 defaultMode xd0 appG = Inl e)"
    using export_panics_iff_blocked [of gen_env0, simplified, OF evm_env0_ok appG_wf, of xd0] by (simp add: appG_def stores0_def)
  ultimately show ?thesis by (cases "evmExportGenesis gen_env0 defaultMode xd0 appG") auto
qed

lemmas genesis_run = evm_run SetCode_def soSetCode_def soCode_def setCode_def Commit_def commitStep_def writeObject_def updateStateObject_def
  nthE_def clearJournalAndRefund_def Finalise_def DeleteLogs_def csdbOf_def liftCsdb_def

definition genesisG :: GenesisState where
  "genesisG = \<lparr>gs_Accounts = [\<lparr>ga_Address = AddressString gen_env0 3, ga_Code = None, ga_Storage = [NewState 5 9]\<rparr>], 
     gs_TxsLogs = [], gs_Whitelist = [[1]], gs_BlockedList = [],
    gs_ChainConfig = DefaultChainConfig, gs_Params = ev_params stores0\<rparr>"

lemma appG_exports: "evmExportGenesis gen_env0 defaultMode xd0 appG = Inr (genesisG, xd0)"
  by (simp add: genesisG_def evmExportGenesis_def exportAccount_def appG_def acct0_def GetCode_def csdbGetParams_def GetAccountStorage_def kForEachStorage_def ForEachStorage_def
     GetContractDeploymentWhitelist_def GetContractBlockedList_def GetChainConfig_def kGetParams_def genesis_run cong: bindE_weak_cong)
lemma appG_imports: "\<exists>S. evmInitGenesis gen_env0 defaultMode xd0 genesisG appG0 = Inr S"
  by (simp add: genesisG_def evmInitGenesis_def initAccount_def kSetParams_def appG0_def appG_def acct0_def
     SetContractDeploymentWhitelist_def SetContractBlockedList_def genesis_run setStates_def SetStateDirectly_def cong: bindE_weak_cong)
theorem evm_genesis_roundtrip_witness:
  "\<exists>g D' S. evmExportGenesis gen_env0 defaultMode xd0 appG = Inr (g, D') \<and> evmInitGenesis gen_env0 defaultMode xd0 g appG0 = Inr S \<and>
     ev_whitelist (as_stores S) = ev_whitelist (as_stores appG) \<and>
     kv_get (ev_storage (as_stores S)) (3, 5) = Some 9 \<and> kv_get (ev_storage (as_stores S)) (4, 5) = None"
proof -
  obtain S where S: "evmInitGenesis gen_env0 defaultMode xd0 genesisG appG0 = Inr S" using appG_imports by blast
  have c: "\<exists>y. as_config appG = Some y" by (simp add: appG_def)
  have z: "ev_storage (as_stores appG0) = kv_empty" "ev_whitelist (as_stores appG0) = kv_empty" "ev_blocked (as_stores appG0) = kv_empty"
    by (simp_all add: appG0_def stores0_def)
  from evm_genesis_roundtrip [of gen_env0, simplified, OF evm_env0_ok appG_wf appG_exports c z S] S appG_exports show ?thesis
    by (auto simp: appG_def GetAccount_def acct0_def)
qed

lemma gen_env0_text: "hash_text gen_env0"
proof -
  have "horner_sum of_bool 2 (map (bit h) [0..<256]) = h" for h :: hash
    using take_bit_length_eq [of h] by (simp add: horner_sum_bit_eq_take_bit)
  then show ?thesis by (auto simp: hash_text_def gen_env0_def comp_def)
qed

theorem storage_file_roundtrip_witness:
  "\<exists>D'. syncWriteAccountStorage gen_env0 appG 3 xd0 = Inr D' \<and>
     syncReadStorageFromFile gen_env0 D' 3 stores0 = Inr (stores0\<lparr>ev_storage := kv_set (3, 5) 9 kv_empty\<rparr>)"
proof -
  have "accountStorage appG 3 = [NewState 5 9]" by (simp add: accountStorage_def appG_def)
  with storage_file_roundtrip [of gen_env0, simplified, OF evm_env0_ok appG_wf gen_env0_text, of 3 _ xd0 stores0] show ?thesis
    by (simp add: appG_def GetAccount_def acct0_def setStates_def SetStateDirectly_def NewState_def stores0_def)
qed

end
