(* ===== verification/Evm_Indexer_Props.thy ===== *)
theory Evm_Indexer_Props
  imports Evm_Indexer Evm_Revert
begin

text \<open>
  The loops of the bloom indexer return for every input, and the index they write is right: every bit of
  every stored vector is that bit of the block's bloom filter.
\<close>

subsection \<open>Keys\<close>

lemma natBytes_inject: "a < 256 ^ n \<Longrightarrow> b < 256 ^ n \<Longrightarrow> natBytes n a = natBytes n b \<longleftrightarrow> a = b"
  by (metis bytesNat_natBytes mod_less)

lemma putUint64_eq [simp]: "putUint64 v = putUint64 w \<longleftrightarrow> v = w"
proof -
  have "unat v < 256 ^ 8" "unat w < 256 ^ 8" using unsigned_less [of v] unsigned_less [of w] by simp_all
  then show ?thesis by (simp add: putUint64_def natBytes_inject word_unat_eq_iff)
qed

lemma putUint_length [simp]: "length (putUint64 v) = 8" "length (putUint16 i) = 2"
  by (simp_all add: putUint64_def putUint16_def)

lemma readUint64 [simp]: "word_of_nat (bytesNat (putUint64 w)) = w"
proof -
  have "unat w < 256 ^ 8" using unsigned_less [of w] by simp
  then show ?thesis by (simp add: putUint64_def bytesNat_natBytes)
qed

lemma putUint16_eq: "i < 65536 \<Longrightarrow> j < 65536 \<Longrightarrow> putUint16 i = putUint16 j \<longleftrightarrow> i = j"
  by (simp add: putUint16_def natBytes_inject)

lemma index_keys [simp]:
  "bloomBitsKey E i s h \<noteq> countKey" "countKey \<noteq> bloomBitsKey E i s h"
  "bloomBitsKey E i s h \<noteq> sheadKey t" "sheadKey t \<noteq> bloomBitsKey E i s h"
  "countKey \<noteq> sheadKey t" "sheadKey t \<noteq> countKey" "sheadKey t = sheadKey u \<longleftrightarrow> t = u"
  by (simp_all add: bloomBitsKey_def countKey_def sheadKey_def)

lemma bloomBitsKey_eq:
  assumes "i < 65536" and "j < 65536"
  shows "bloomBitsKey E i s h = bloomBitsKey E j t k \<longleftrightarrow> i = j \<and> s = t \<and> HashBytes E h = HashBytes E k"
  using assms by (auto simp: bloomBitsKey_def putUint16_eq)

subsection \<open>The loops return\<close>

lemma setDb_sel [simp]: "dbOf (setDb db ix) = db" "ix_storedSections (setDb db ix) = ix_storedSections ix"
  "ix_processing (setDb db ix) = ix_processing ix" "bi_size (ix_backend (setDb db ix)) = bi_size (ix_backend ix)"
  by (simp_all add: setDb_def dbOf_def)

lemma dbOf_update [simp]: "dbOf (ix\<lparr>ix_storedSections := n\<rparr>) = dbOf ix" "dbOf (ix\<lparr>ix_processing := p\<rparr>) = dbOf ix"
  by (simp_all add: dbOf_def)

lemma dropSections_returns:
  "\<exists>ix'. dropSections n ix = Some ix' \<and> ix_processing ix' = ix_processing ix \<and> bi_size (ix_backend ix') = bi_size (ix_backend ix) \<and>
     kv_get (dbOf ix') countKey = kv_get (dbOf ix) countKey"
proof (induction "unat (ix_storedSections ix)" arbitrary: ix rule: less_induct)
  case less
  show ?case
  proof (cases "n < ix_storedSections ix")
    case True
    let ?ix = "removeSectionHead (ix_storedSections ix - 1) (ix\<lparr>ix_storedSections := ix_storedSections ix - 1\<rparr>)"
    have "ix_storedSections ix \<noteq> 0" using True by auto
    then have "unat (ix_storedSections ?ix) < unat (ix_storedSections ix)"
      by (simp add: removeSectionHead_def unat_minus_one unat_gt_0)
    from less [OF this] True show ?thesis by (subst dropSections.simps) (auto simp: removeSectionHead_def)
  qed (simp add: dropSections.simps)
qed

lemma setValidSections_returns:
  "\<exists>ix'. setValidSections n ix = Some ix' \<and> ix_storedSections ix' = n \<and> ix_processing ix' = ix_processing ix \<and>
     bi_size (ix_backend ix') = bi_size (ix_backend ix) \<and> GetValidSections ix' = n"
  using dropSections_returns [of n "setDb (kv_set countKey (putUint64 n) (dbOf ix)) ix"]
  by (auto simp: setValidSections_def GetValidSections_def)

lemma less_Suc_word: "(a :: uint64) < b \<Longrightarrow> unat (a + 1) = unat a + 1"
  using unsigned_less [where ?'a = nat, of b] by (simp add: unat_word_ariths word_less_nat_alt)

lemma processBlocks_returns:
  "\<exists>r. processBlocks G S startHeight stop number ix h = Some r \<and>
     (\<forall>ix'. r = Inl ix' \<or> (\<exists>k. r = Inr (ix', k)) \<longrightarrow>
        ix_storedSections ix' = ix_storedSections ix \<and> ix_processing ix' = ix_processing ix)"
proof (induction "unat stop - unat number" arbitrary: number ix h rule: less_induct)
  case less
  show ?case
  proof (cases "number < stop \<and> \<not> (number \<noteq> startHeight \<and> blockHash S startHeight number = 0)")
    case True
    have "unat stop - unat (number + 1) < unat stop - unat number"
      using True less_Suc_word [of number stop] by (auto simp: word_less_nat_alt)
    from less [OF this] True show ?thesis by (subst processBlocks.simps) (fastforce simp: indexBlock_def)
  next
    case False
    then show ?thesis by (subst processBlocks.simps) auto
  qed
qed

lemma processSection_returns:
  "\<exists>r. processSection E G S startHeight ix = Some r \<and>
     (\<forall>ix'. r = Inl ix' \<longrightarrow> ix_processing ix' = ix_processing ix) \<and>
     (\<forall>ix'. r = Inr ix' \<longrightarrow> ix_storedSections ix' = ix_storedSections ix + 1 \<and> ix_processing ix' = ix_processing ix)"
proof -
  let ?s = "ix_storedSections ix"
  let ?h = "if 0 < ?s then sectionHead E ix (?s - 1) else 0" and ?ix = "ix\<lparr>ix_backend := snd (bloomReset G ?s (ix_backend ix))\<rparr>"
  have eq: "processSection E G S startHeight ix =
     (if fst (bloomReset G ?s (ix_backend ix)) then map_option Inl (setValidSections 0 ?ix)
      else Option.bind (processBlocks G S startHeight ((?s + 1) * BloomBitsBlocks + startHeight)
               (?s * BloomBitsBlocks + startHeight) ?ix ?h) (\<lambda>r.
             case r of
               Inl ix \<Rightarrow> Some (Inl ix)
             | Inr (ix, lastHead) \<Rightarrow>
                 (case bloomCommit E G (ix_backend ix) of
                    None \<Rightarrow> Some (Inl ix)
                  | Some b \<Rightarrow>
                      map_option Inr (setValidSections (?s + 1) (setSectionHead E ?s lastHead (ix\<lparr>ix_backend := b\<rparr>))))))"
    by (simp add: processSection_def Let_def split: prod.splits)
  show ?thesis
  proof (cases "fst (bloomReset G ?s (ix_backend ix))")
    case True
    then show ?thesis using setValidSections_returns [of 0 ?ix] by (auto simp: eq)
  next
    case False
    from processBlocks_returns [of G S startHeight "(?s + 1) * BloomBitsBlocks + startHeight" "?s * BloomBitsBlocks + startHeight" ?ix ?h]
    obtain r where r: "processBlocks G S startHeight ((?s + 1) * BloomBitsBlocks + startHeight)
               (?s * BloomBitsBlocks + startHeight) ?ix ?h = Some r"
      "\<And>ix' k. r = Inl ix' \<or> r = Inr (ix', k) \<Longrightarrow> ix_processing ix' = ix_processing ix" by auto
    show ?thesis
    proof (cases r)
      case (Inr p)
      obtain ix' h where p: "p = (ix', h)" by (cases p)
      show ?thesis
      proof (cases "bloomCommit E G (ix_backend ix')")
        case (Some b)
        from setValidSections_returns [of "?s + 1" "setSectionHead E ?s h (ix'\<lparr>ix_backend := b\<rparr>)"] False r Inr p Some
        show ?thesis by (auto simp: eq setSectionHead_def)
      qed (use False r Inr p in \<open>simp add: eq\<close>)
    qed (use False r in \<open>simp add: eq\<close>)
  qed
qed

lemma processSections_returns:
  "\<exists>ix'. processSections E G S startHeight known ix = Some ix' \<and> ix_processing ix' = ix_processing ix"
proof (induction "unat known - unat (ix_storedSections ix)" arbitrary: ix rule: less_induct)
  case less
  show ?case
  proof (cases "ix_storedSections ix < known")
    case True
    obtain r where r: "processSection E G S startHeight ix = Some r"
      "\<And>ix'. r = Inl ix' \<Longrightarrow> ix_processing ix' = ix_processing ix"
      "\<And>ix'. r = Inr ix' \<Longrightarrow> ix_storedSections ix' = ix_storedSections ix + 1 \<and> ix_processing ix' = ix_processing ix"
      using processSection_returns [of E G S startHeight ix] by blast
    show ?thesis
    proof (cases r)
      case (Inl ix')
      with True r show ?thesis by (subst processSections.simps) simp
    next
      case (Inr ix')
      with r(3) have s: "ix_storedSections ix' = ix_storedSections ix + 1" "ix_processing ix' = ix_processing ix" by simp_all
      have "unat known - unat (ix_storedSections ix') < unat known - unat (ix_storedSections ix)"
        using True less_Suc_word [OF True] by (simp add: s(1) word_less_nat_alt)
      from less [OF this] True r(1) Inr s(2) show ?thesis by (subst processSections.simps) simp
    qed
  qed (simp add: processSections.simps)
qed

subsection \<open>What the index holds\<close>

text \<open>The bit vector of one bit over a list of bloom filters: the first filter is the highest bit of the
  first byte.\<close>

definition packBits :: "bool list \<Rightarrow> bytes" where
  "packBits xs = map (\<lambda>k. foldl (\<lambda>b j. if xs ! (8 * k + j) then set_bit (7 - j) b else b) 0 [0..<8]) [0..<length xs div 8]"

definition bloomVector :: "nat \<Rightarrow> bloom list \<Rightarrow> bytes" where
  "bloomVector i bs = packBits (map (\<lambda>b. bit b i) bs)"

lemma packed_byte:
  assumes "r < 8" and "n \<le> 8"
  shows "bit (foldl (\<lambda>b j. if f j then set_bit (7 - j) b else b) (0 :: byte) [0..<n]) (7 - r) \<longleftrightarrow> r < n \<and> f r"
  using assms(2)
proof (induction n)
  case (Suc n)
  have "7 - n = 7 - r \<longleftrightarrow> n = r" using assms(1) Suc.prems by linarith
  with Suc assms(1) show ?case by (auto simp: bit_set_bit_iff less_Suc_eq)
qed simp

lemma packBits_bit:
  assumes "8 dvd length xs" and "j < length xs"
  shows "bit (packBits xs ! (j div 8)) (7 - j mod 8) = xs ! j"
proof -
  have "j div 8 < length xs div 8" using assms by auto
  then have "bit (packBits xs ! (j div 8)) (7 - j mod 8) = xs ! (8 * (j div 8) + j mod 8)"
    using packed_byte [of "j mod 8" 8 "\<lambda>r. xs ! (8 * (j div 8) + r)"] by (simp add: packBits_def)
  then show ?thesis by simp
qed

definition perSection :: nat where
  "perSection = 4096"

lemma word_perSection: "(word_of_nat perSection :: uint64) = BloomBitsBlocks"
  by (simp add: perSection_def BloomBitsBlocks_def)

lemma perSection_facts [simp]: "8 dvd perSection" "0 < perSection" "perSection \<noteq> 0"
  by (simp_all add: perSection_def)

lemma bit_small: "i < BloomBitLength \<Longrightarrow> i < 65536"
  by (simp add: BloomBitLength_def)

text \<open>The documented behaviour of the generator, and of the batch writes where they do not fail.\<close>

definition gen_law :: "'b gen_ops \<Rightarrow> bool" where
  "gen_law G \<longleftrightarrow> (\<exists>g. NewGenerator G BloomBitsBlocks = Some g \<and>
     (\<forall>bs i. length bs = perSection \<longrightarrow> i < BloomBitLength \<longrightarrow>
        Bitset G (foldl (\<lambda>g j. AddBloom G g (word_of_nat j) (bs ! j)) g [0..<perSection]) i = Some (bloomVector i bs)))"

lemma gen_lawD:
  assumes "gen_law G" and "NewGenerator G BloomBitsBlocks = Some g" and "length bs = perSection" and "i < BloomBitLength"
  shows "Bitset G (foldl (\<lambda>g j. AddBloom G g (word_of_nat j) (bs ! j)) g [0..<perSection]) i = Some (bloomVector i bs)"
  using assms by (auto simp: gen_law_def)

definition batch_law :: "'b gen_ops \<Rightarrow> bool" where
  "batch_law G \<longleftrightarrow> (\<forall>batch db. \<exists>db'. BatchWrite G batch db = Some db' \<and>
     (\<forall>k. kv_get db' k = (case map_of (rev batch) k of Some v \<Rightarrow> Some v | None \<Rightarrow> kv_get db k)))"

definition sectionBlock :: "uint64 \<Rightarrow> uint64 \<Rightarrow> nat \<Rightarrow> uint64" where
  "sectionBlock startHeight s j = s * BloomBitsBlocks + startHeight + word_of_nat j"

definition section_indexed :: "evm_env \<Rightarrow> 'b gen_ops \<Rightarrow> app_state \<Rightarrow> uint64 \<Rightarrow> (bytes, bytes) kv \<Rightarrow> uint64 \<Rightarrow> bool" where
  "section_indexed E G S startHeight db s \<longleftrightarrow>
     (\<forall>i < BloomBitLength. \<exists>v. ReadBloomBits E db i s (blockHash S startHeight (sectionBlock startHeight s (perSection - 1))) =
          Some (CompressBytes G v) \<and> length v = perSection div 8 \<and>
        (\<forall>j < perSection. bit (v ! (j div 8)) (7 - j mod 8) = bit (blockBloom S startHeight (sectionBlock startHeight s j)) i))"

definition index_ok :: "evm_env \<Rightarrow> 'b gen_ops \<Rightarrow> app_state \<Rightarrow> uint64 \<Rightarrow> 'b Indexer \<Rightarrow> bool" where
  "index_ok E G S startHeight ix \<longleftrightarrow> bi_size (ix_backend ix) = BloomBitsBlocks \<and>
     (\<forall>s < ix_storedSections ix. section_indexed E G S startHeight (dbOf ix) s)"

lemma processBlocks_known:
  assumes "\<And>j. j < n \<Longrightarrow> number + word_of_nat j = startHeight \<or> blockHash S startHeight (number + word_of_nat j) \<noteq> 0"
    and "unat number + n < 2 ^ 64"
  shows "processBlocks G S startHeight (number + word_of_nat n) number ix h =
     Some (Inr (foldl (\<lambda>ix j. indexBlock G S startHeight ix (number + word_of_nat j)) ix [0..<n],
        if n = 0 then h else blockHash S startHeight (number + word_of_nat (n - 1))))"
  using assms
proof (induction n arbitrary: number ix h)
  case 0
  then show ?case by (subst processBlocks.simps) simp
next
  case (Suc n)
  have less: "number < number + word_of_nat (Suc n)"
    using Suc.prems(2) by (simp add: word_less_nat_alt unat_word_ariths unat_of_nat)
  have known: "\<not> (number \<noteq> startHeight \<and> blockHash S startHeight number = 0)" using Suc.prems(1) [of 0] by auto
  have stop: "number + word_of_nat (Suc n) = (number + 1) + word_of_nat n" by simp
  have k: "number + 1 + word_of_nat j = startHeight \<or> blockHash S startHeight (number + 1 + word_of_nat j) \<noteq> 0" if "j < n" for j
    using Suc.prems(1) [of "Suc j"] that by (simp add: add.assoc)
  have b: "unat (number + 1) + n < 2 ^ 64" using Suc.prems(2) by (simp add: unat_word_ariths)
  have shift: "[0..<Suc n] = 0 # map Suc [0..<n]" by (simp add: map_Suc_upt upt_conv_Cons)
  have "processBlocks G S startHeight (number + word_of_nat (Suc n)) number ix h =
      processBlocks G S startHeight (number + 1 + word_of_nat n) (number + 1) (indexBlock G S startHeight ix number) (blockHash S startHeight number)"
    using less known by (subst processBlocks.simps) (simp only: stop if_True if_False)
  also have "\<dots> = Some (Inr (foldl (\<lambda>ix j. indexBlock G S startHeight ix (number + 1 + word_of_nat j)) (indexBlock G S startHeight ix number) [0..<n],
        if n = 0 then blockHash S startHeight number else blockHash S startHeight (number + 1 + word_of_nat (n - 1))))"
    by (rule Suc.IH [OF k b])
  finally show ?case unfolding shift by (cases n) (simp_all add: foldl_map add.assoc)
qed

lemma foldl_indexBlock:
  assumes "b = ix_backend ix" and "number = bi_section b * bi_size b + startHeight"
  shows "foldl (\<lambda>ix j. indexBlock G S startHeight ix (number + word_of_nat j)) ix [0..<n] =
     ix\<lparr>ix_backend := b\<lparr>bi_gen := map_option (\<lambda>g. foldl (\<lambda>g j. AddBloom G g (word_of_nat j) (blockBloom S startHeight (number + word_of_nat j))) g [0..<n]) (bi_gen b),
        bi_head := (if n = 0 then bi_head b else blockHash S startHeight (number + word_of_nat (n - 1)))\<rparr>\<rparr>"
proof (induction n)
  case 0
  then show ?case by (simp add: assms(1) option.map_ident)
next
  case (Suc n)
  then show ?case by (cases "bi_gen b") (simp_all add: indexBlock_def Process_def assms(2))
qed

lemma commitBits:
  assumes "bi_gen b = Some g" and "\<And>i. i \<in> set is \<Longrightarrow> Bitset G g i = Some (f i)"
  shows "foldE (commitBit E G b) batch is =
     Inr (batch @ map (\<lambda>i. (bloomBitsKey E i (bi_section b) (bi_head b), CompressBytes G (f i))) is)"
  using assms(2) by (induction "is" arbitrary: batch) (simp_all add: commitBit_def WriteBloomBits_def assms(1))

lemma bloomCommit_indexes:
  assumes E: "evm_env_ok E" and gen: "gen_law G" and batch: "batch_law G" and g: "NewGenerator G BloomBitsBlocks = Some g"
    and b: "bi_gen b = Some (foldl (\<lambda>g j. AddBloom G g (word_of_nat j) (bl j)) g [0..<perSection])"
  shows "\<exists>db. bloomCommit E G b = Some (b\<lparr>bi_db := db\<rparr>) \<and>
     (\<forall>k. (\<forall>i. k \<noteq> bloomBitsKey E i (bi_section b) (bi_head b)) \<longrightarrow> kv_get db k = kv_get (bi_db b) k) \<and>
     (\<forall>i < BloomBitLength. kv_get db (bloomBitsKey E i (bi_section b) (bi_head b)) =
        Some (CompressBytes G (bloomVector i (map bl [0..<perSection]))))"
proof -
  let ?f = "\<lambda>i. bloomVector i (map bl [0..<perSection])" and ?k = "\<lambda>i. bloomBitsKey E i (bi_section b) (bi_head b)"
  let ?batch = "map (\<lambda>i. (?k i, CompressBytes G (?f i))) [0..<BloomBitLength]"
  have "foldl (\<lambda>g j. AddBloom G g (word_of_nat j) (map bl [0..<perSection] ! j)) g [0..<perSection] =
      foldl (\<lambda>g j. AddBloom G g (word_of_nat j) (bl j)) g [0..<perSection]"
    by (rule foldl_cong) simp_all
  with gen g have "Bitset G (foldl (\<lambda>g j. AddBloom G g (word_of_nat j) (bl j)) g [0..<perSection]) i = Some (?f i)" if "i < BloomBitLength" for i
    using that gen_lawD [OF gen g, of "map bl [0..<perSection]" i] by simp
  then have "foldE (commitBit E G b) [] [0..<BloomBitLength] = Inr ?batch" using commitBits [OF b, of "[0..<BloomBitLength]" G ?f E "[]"] by simp
  moreover obtain db where db: "BatchWrite G ?batch (bi_db b) = Some db"
    "\<And>k. kv_get db k = (case map_of (rev ?batch) k of Some v \<Rightarrow> Some v | None \<Rightarrow> kv_get (bi_db b) k)"
    using batch unfolding batch_law_def by blast
  ultimately have c: "bloomCommit E G b = Some (b\<lparr>bi_db := db\<rparr>)" by (simp add: bloomCommit_def)
  have "distinct (map fst ?batch)"
    by (auto simp: distinct_map inj_on_def bloomBitsKey_eq bit_small comp_def)
  then have d: "distinct (map fst (rev ?batch))" by (simp only: rev_map [symmetric] distinct_rev)
  have 1: "kv_get db (?k i) = Some (CompressBytes G (?f i))" if "i < BloomBitLength" for i
  proof -
    have "(?k i, CompressBytes G (?f i)) \<in> set (rev ?batch)" using that by simp
    with d have "map_of (rev ?batch) (?k i) = Some (CompressBytes G (?f i))" by (rule map_of_is_SomeI)
    then show ?thesis by (simp only: db(2) option.case)
  qed
  have 2: "kv_get db k = kv_get (bi_db b) k" if "\<forall>i. k \<noteq> ?k i" for k
  proof -
    have "map_of (rev ?batch) k = None" using that by (auto simp: map_of_eq_None_iff)
    then show ?thesis by (simp only: db(2) option.case)
  qed
  from c 1 2 show ?thesis by blast
qed

lemma setValidSections_next:
  assumes "ix_storedSections ix \<le> n"
  shows "setValidSections n (ix :: 'b Indexer) =
     Some ((setDb (kv_set countKey (putUint64 n) (dbOf ix)) ix)\<lparr>ix_storedSections := n\<rparr>)"
proof -
  have "dropSections n ix = Some ix" if "ix_storedSections ix \<le> n" for ix :: "'b Indexer"
    using that by (subst dropSections.simps) (auto dest: leD)
  with assms show ?thesis by (simp add: setValidSections_def)
qed

lemma section_indexed_frame:
  assumes "section_indexed E G S startHeight db s"
    and "\<And>i h. kv_get db' (bloomBitsKey E i s h) = kv_get db (bloomBitsKey E i s h)"
  shows "section_indexed E G S startHeight db' s"
  using assms by (simp add: section_indexed_def ReadBloomBits_def)

lemma bloomVector_bit:
  assumes "j < perSection"
  shows "bit (bloomVector i (map bl [0..<perSection]) ! (j div 8)) (7 - j mod 8) = bit (bl j) i"
  using packBits_bit [of "map (\<lambda>b. bit b i) (map bl [0..<perSection])" j] assms by (simp add: bloomVector_def)

lemma bloomVector_length [simp]: "length (bloomVector i bs) = length bs div 8"
  by (simp add: bloomVector_def packBits_def)

lemma processSection_indexes:
  assumes E: "evm_env_ok E" and gen: "gen_law G" and batch: "batch_law G" and ix: "index_ok E G S startHeight ix"
    and bound: "(unat (ix_storedSections ix) + 1) * 4096 + unat startHeight < 2 ^ 64"
    and known: "\<And>j. j < perSection \<Longrightarrow> sectionBlock startHeight (ix_storedSections ix) j = startHeight \<or>
        blockHash S startHeight (sectionBlock startHeight (ix_storedSections ix) j) \<noteq> 0"
  shows "\<exists>ix'. processSection E G S startHeight ix = Some (Inr ix') \<and> index_ok E G S startHeight ix' \<and>
     ix_storedSections ix' = ix_storedSections ix + 1"
proof -
  let ?s = "ix_storedSections ix" and ?b = "ix_backend ix"
  let ?n = "?s * BloomBitsBlocks + startHeight" and ?h = "if 0 < ?s then sectionHead E ix (?s - 1) else 0"
  have size: "bi_size ?b = BloomBitsBlocks" using ix by (simp add: index_ok_def)
  from gen obtain g where g: "NewGenerator G BloomBitsBlocks = Some g" unfolding gen_law_def by blast
  let ?ix = "ix\<lparr>ix_backend := ?b\<lparr>bi_gen := Some g, bi_section := ?s, bi_head := 0\<rparr>\<rparr>"
  let ?c = "?b\<lparr>bi_gen := Some (foldl (\<lambda>g j. AddBloom G g (word_of_nat j) (blockBloom S startHeight (?n + word_of_nat j))) g [0..<perSection]),
      bi_section := ?s, bi_head := blockHash S startHeight (?n + word_of_nat (perSection - 1))\<rparr>"
  have nn: "unat ?n = unat ?s * 4096 + unat startHeight"
    using bound by (simp add: unat_word_ariths BloomBitsBlocks_def)
  have stop: "(?s + 1) * BloomBitsBlocks + startHeight = ?n + word_of_nat perSection" by (simp add: word_perSection algebra_simps)
  have reset: "bloomReset G ?s ?b = (False, ?b\<lparr>bi_gen := Some g, bi_section := ?s, bi_head := 0\<rparr>)" by (simp add: bloomReset_def size g)
  have "processBlocks G S startHeight (?n + word_of_nat perSection) ?n ?ix ?h =
      Some (Inr (foldl (\<lambda>ix j. indexBlock G S startHeight ix (?n + word_of_nat j)) ?ix [0..<perSection],
        if perSection = 0 then ?h else blockHash S startHeight (?n + word_of_nat (perSection - 1))))"
  proof (rule processBlocks_known)
    show "unat ?n + perSection < 2 ^ 64" using bound nn by (simp add: perSection_def)
  qed (use known in \<open>simp add: sectionBlock_def\<close>)
  also have "foldl (\<lambda>ix j. indexBlock G S startHeight ix (?n + word_of_nat j)) ?ix [0..<perSection] = ?ix\<lparr>ix_backend := ?c\<rparr>"
    by (subst foldl_indexBlock [OF refl]) (simp_all add: size)
  finally have blocks: "processBlocks G S startHeight (?n + word_of_nat perSection) ?n ?ix ?h =
      Some (Inr (?ix\<lparr>ix_backend := ?c\<rparr>, blockHash S startHeight (?n + word_of_nat (perSection - 1))))" by simp
  obtain db where db: "bloomCommit E G ?c = Some (?c\<lparr>bi_db := db\<rparr>)"
    "\<And>k. (\<And>i. k \<noteq> bloomBitsKey E i ?s (blockHash S startHeight (?n + word_of_nat (perSection - 1)))) \<Longrightarrow> kv_get db k = kv_get (bi_db ?b) k"
    "\<And>i. i < BloomBitLength \<Longrightarrow> kv_get db (bloomBitsKey E i ?s (blockHash S startHeight (?n + word_of_nat (perSection - 1)))) =
        Some (CompressBytes G (bloomVector i (map (\<lambda>j. blockBloom S startHeight (?n + word_of_nat j)) [0..<perSection])))"
    using bloomCommit_indexes [OF E gen batch g, of ?c "\<lambda>j. blockBloom S startHeight (?n + word_of_nat j)"] by auto
  have "unat (?s + 1) = unat ?s + 1" using bound by (simp add: unat_word_ariths)
  then have le: "?s \<le> ?s + 1" and lt: "t < ?s + 1 \<longleftrightarrow> t < ?s \<or> t = ?s" for t
    by (auto simp: word_le_nat_alt word_less_nat_alt word_unat_eq_iff)
  let ?r = "?ix\<lparr>ix_backend := ?c\<lparr>bi_db := db\<rparr>\<rparr>" and ?H = "blockHash S startHeight (?n + word_of_nat (perSection - 1))"
  let ?db = "kv_set countKey (putUint64 (?s + 1)) (kv_set (sheadKey ?s) (HashBytes E ?H) db)"
  let ?ix' = "(setDb ?db ?r)\<lparr>ix_storedSections := ?s + 1\<rparr>"
  have "setValidSections (?s + 1) (setSectionHead E ?s ?H ?r) = Some ?ix'"
    using setValidSections_next [of "setSectionHead E ?s ?H ?r" "?s + 1"] le by (simp add: setSectionHead_def setDb_def dbOf_def)
  then have run: "processSection E G S startHeight ix = Some (Inr ?ix')"
    using blocks db(1) by (simp add: processSection_def Let_def reset stop)
  have "section_indexed E G S startHeight ?db t" if t: "t < ?s + 1" for t
  proof (cases "t = ?s")
    case True
    let ?bl = "\<lambda>j. blockBloom S startHeight (?n + word_of_nat j)"
    have "ReadBloomBits E ?db i ?s ?H = Some (CompressBytes G (bloomVector i (map ?bl [0..<perSection]))) \<and>
       length (bloomVector i (map ?bl [0..<perSection])) = perSection div 8 \<and>
       (\<forall>j < perSection. bit (bloomVector i (map ?bl [0..<perSection]) ! (j div 8)) (7 - j mod 8) = bit (?bl j) i)"
      if "i < BloomBitLength" for i
      using db(3) [OF that] bloomVector_bit [of _ i ?bl] by (simp only: ReadBloomBits_def kv_get_set index_keys if_False) simp
    then show ?thesis unfolding True section_indexed_def sectionBlock_def by (intro allI impI exI)
  next
    case False
    with t lt have "section_indexed E G S startHeight (bi_db ?b) t" using ix by (simp add: index_ok_def dbOf_def)
    then show ?thesis
    proof (rule section_indexed_frame)
      fix i h
      have "bloomBitsKey E i t h \<noteq> bloomBitsKey E j ?s ?H" for j using False by (simp add: bloomBitsKey_def)
      with db(2) show "kv_get ?db (bloomBitsKey E i t h) = kv_get (bi_db ?b) (bloomBitsKey E i t h)" by simp
    qed
  qed
  then have "index_ok E G S startHeight ?ix'" by (simp add: index_ok_def size)
  moreover have "ix_storedSections ?ix' = ?s + 1" by simp
  ultimately show ?thesis using run by (intro exI conjI)
qed

lemma processSections_indexes:
  assumes E: "evm_env_ok E" and gen: "gen_law G" and batch: "batch_law G"
    and bound: "unat known * 4096 + unat startHeight < 2 ^ 64"
    and blocks: "\<And>s j. s < known \<Longrightarrow> j < perSection \<Longrightarrow>
        sectionBlock startHeight s j = startHeight \<or> blockHash S startHeight (sectionBlock startHeight s j) \<noteq> 0"
    and ix: "index_ok E G S startHeight ix"
  shows "\<exists>ix'. processSections E G S startHeight known ix = Some ix' \<and> index_ok E G S startHeight ix' \<and>
     ix_storedSections ix' = max (ix_storedSections ix) known"
  using ix
proof (induction "unat known - unat (ix_storedSections ix)" arbitrary: ix rule: less_induct)
  case less
  show ?case
  proof (cases "ix_storedSections ix < known")
    case True
    have "unat (ix_storedSections ix) < unat known" using True by (simp add: word_less_nat_alt)
    then have "(unat (ix_storedSections ix) + 1) * 4096 \<le> unat known * 4096" by (intro mult_le_mono1) simp
    with bound have "(unat (ix_storedSections ix) + 1) * 4096 + unat startHeight < 2 ^ 64" by linarith
    from processSection_indexes [OF E gen batch less.prems this blocks [OF True]] obtain ix' where
      r: "processSection E G S startHeight ix = Some (Inr ix')" "index_ok E G S startHeight ix'"
      "ix_storedSections ix' = ix_storedSections ix + 1" by auto
    have s: "unat (ix_storedSections ix') = unat (ix_storedSections ix) + 1" using less_Suc_word [OF True] by (simp add: r(3))
    then have "unat known - unat (ix_storedSections ix') < unat known - unat (ix_storedSections ix)"
      using True by (simp add: word_less_nat_alt)
    moreover have "max (ix_storedSections ix') known = max (ix_storedSections ix) known"
      using s True by (auto simp: max_def word_le_nat_alt word_less_nat_alt)
    ultimately show ?thesis using less.hyps [of ix'] r True by (subst processSections.simps) simp
  next
    case False
    with less.prems show ?thesis by (subst processSections.simps) (auto simp: max_def)
  qed
qed

subsection \<open>Properties\<close>

text \<open>C31: The bloom indexer always returns. Whatever the database, the chain and the heights are, and even where
  heights and section numbers wrap around, \<open>ProcessSection\<close> ends, and it ends with the flag that guards against
  a second run as it found it, so that the indexer can run again.\<close>

theorem ProcessSection_returns:
  "\<exists>ix'. ProcessSection E G S startHeight interval ix = Some ix' \<and> ix_processing ix' = ix_processing ix"
  using processSections_returns [of E G S startHeight "interval div BloomBitsBlocks" "ix\<lparr>ix_processing := True\<rparr>"]
  by (auto simp: ProcessSection_def)

text \<open>C32: The index answers as the bloom filters do. Where the database takes the writes and all blocks of the
  complete sections are known, \<open>ProcessSection\<close> extends a correct index to all complete sections: for every
  stored section, every bit of the filter and every block of the section, the stored vector has the bit of
  that block set exactly if the block's bloom filter has the bit set.\<close>

theorem ProcessSection_indexes:
  assumes "evm_env_ok E" and "gen_law G" and "batch_law G" and "index_ok E G S startHeight ix" and "\<not> ix_processing ix"
    and bound: "unat startHeight + unat interval < 2 ^ 64"
    and "\<And>s j. s < interval div BloomBitsBlocks \<Longrightarrow> j < perSection \<Longrightarrow>
        sectionBlock startHeight s j = startHeight \<or> kGetHeightHash S (sectionBlock startHeight s j) \<noteq> 0"
  shows "\<exists>ix'. ProcessSection E G S startHeight interval ix = Some ix' \<and> index_ok E G S startHeight ix' \<and>
     ix_storedSections ix' = max (ix_storedSections ix) (interval div BloomBitsBlocks)"
proof -
  have "unat (interval div BloomBitsBlocks) * 4096 \<le> unat interval" by (simp add: BloomBitsBlocks_def unat_div)
  with bound have b: "unat (interval div BloomBitsBlocks) * 4096 + unat startHeight < 2 ^ 64" by linarith
  have i: "index_ok E G S startHeight (ix\<lparr>ix_processing := True\<rparr>)" using assms(4) by (simp add: index_ok_def)
  have u: "index_ok E G S startHeight ix' \<Longrightarrow> index_ok E G S startHeight (ix'\<lparr>ix_processing := False\<rparr>)" for ix'
    by (simp add: index_ok_def)
  have bl: "sectionBlock startHeight s j = startHeight \<or> blockHash S startHeight (sectionBlock startHeight s j) \<noteq> 0"
    if "s < interval div BloomBitsBlocks" "j < perSection" for s j
    using assms(7) [OF that] by (auto simp: blockHash_def)
  from processSections_indexes [OF assms(1-3) b bl i] u assms(5) show ?thesis by (auto simp: ProcessSection_def)
qed

text \<open>A generator that keeps the list of filters, and a chain of one complete section.\<close>

definition gen0 :: "bloom list gen_ops" where
  "gen0 = \<lparr>NewGenerator = (\<lambda>n. if n mod 8 = 0 then Some [] else None),
     AddBloom = (\<lambda>g j b. if unat j = length g then g @ [b] else g),
     Bitset = (\<lambda>g i. if length g = perSection then Some (bloomVector i g) else None), CompressBytes = (\<lambda>b. b),
     BatchWrite = (\<lambda>batch db. Some (foldl (\<lambda>m (k, v). kv_set k v m) db batch))\<rparr>"

lemma gen0_law: "gen_law gen0"
proof -
  have "foldl (\<lambda>g j. AddBloom gen0 g (word_of_nat j) (bs ! j)) [] [0..<n] = take n bs" if "n \<le> length bs" "length bs = perSection" for bs n
    using that
  proof (induction n)
    case (Suc n)
    then have "unat (word_of_nat n :: uint64) = n" by (simp add: unat_of_nat perSection_def)
    with Suc show ?case by (simp add: gen0_def take_Suc_conv_app_nth)
  qed simp
  then show ?thesis by (auto simp: gen_law_def gen0_def BloomBitsBlocks_def intro!: exI)
qed

lemma gen0_batch: "batch_law gen0"
proof -
  have "kv_get (foldl (\<lambda>m (k, v). kv_set k v m) db batch) k = (case map_of (rev batch) k of Some v \<Rightarrow> Some v | None \<Rightarrow> kv_get db k)"
    for batch :: "(bytes \<times> bytes) list" and db k
    by (induction batch arbitrary: db) (auto simp: map_add_def split: option.splits)
  then show ?thesis by (simp add: batch_law_def gen0_def)
qed

definition chain1 :: app_state where
  "chain1 = \<lparr>as_stores = stores0\<lparr>ev_heightHash := foldl (\<lambda>m j. kv_set (word_of_nat j) 7 m) kv_empty [0..<perSection]\<rparr>, as_accNum = 0,
     as_config = None, as_blockHash = kv_empty, as_bloom = kv_set 5 (2 ^ 17) kv_empty\<rparr>"

definition indexer0 :: "bloom list Indexer" where
  "indexer0 = \<lparr>ix_backend = initBloomIndexer kv_empty, ix_storedSections = 0, ix_processing = False\<rparr>"

lemma chain1_hash: "j < perSection \<Longrightarrow> kGetHeightHash chain1 (word_of_nat j) = 7"
proof -
  assume j: "j < perSection"
  have "kv_get (foldl (\<lambda>m j. kv_set (word_of_nat j) v m) m js) k = (if k \<in> word_of_nat ` set js then Some v else kv_get m k)"
    for m :: "(uint64, hash) kv" and js k v by (induction js arbitrary: m) auto
  with j show ?thesis by (simp add: kGetHeightHash_def GetHeightHash_def CreateEmptyCommitStateDB_def chain1_def)
qed

theorem ProcessSection_indexes_witness:
  "\<exists>ix' v. ProcessSection evm_env0 gen0 chain1 0 5000 indexer0 = Some ix' \<and> ix_storedSections ix' = 1 \<and>
     ReadBloomBits evm_env0 (dbOf ix') 17 0 7 = Some v \<and> bit (v ! 0) 2"
proof -
  have i: "index_ok evm_env0 gen0 chain1 0 indexer0" by (simp add: index_ok_def indexer0_def initBloomIndexer_def)
  have d: "(5000 :: uint64) div BloomBitsBlocks = 1" by (simp add: BloomBitsBlocks_def)
  have s: "s < (1 :: uint64) \<longleftrightarrow> s = 0" for s by (simp add: word_less_nat_alt word_unat_eq_iff)
  have k: "sectionBlock 0 s j = 0 \<or> kGetHeightHash chain1 (sectionBlock 0 s j) \<noteq> 0" if "s < 5000 div BloomBitsBlocks" "j < perSection" for s j
    using that chain1_hash by (simp add: d s sectionBlock_def)
  have p: "\<not> ix_processing indexer0" "unat (0 :: uint64) + unat (5000 :: uint64) < 2 ^ 64" by (simp_all add: indexer0_def)
  from ProcessSection_indexes [OF evm_env0_ok gen0_law gen0_batch i p k] obtain ix' where
    r: "ProcessSection evm_env0 gen0 chain1 0 5000 indexer0 = Some ix'" "index_ok evm_env0 gen0 chain1 0 ix'" "ix_storedSections ix' = 1"
    by (auto simp: d indexer0_def)
  have h: "blockHash chain1 0 (sectionBlock 0 0 (perSection - 1)) = 7"
    using chain1_hash [of 4095] by (simp add: blockHash_def sectionBlock_def perSection_def)
  have b: "17 < BloomBitLength" "5 < perSection" by (simp_all add: BloomBitLength_def perSection_def)
  have "section_indexed evm_env0 gen0 chain1 0 (dbOf ix') 0" using r(2,3) by (simp add: index_ok_def)
  then obtain v where v: "ReadBloomBits evm_env0 (dbOf ix') 17 0 7 = Some (CompressBytes gen0 v)"
    "bit (v ! (5 div 8)) (7 - 5 mod 8) = bit (blockBloom chain1 0 (sectionBlock 0 0 5)) 17"
    unfolding section_indexed_def h using b by blast
  moreover have "bit (blockBloom chain1 0 (sectionBlock 0 0 5)) 17"
    by (simp add: blockBloom_def sectionBlock_def GetBlockBloom_def chain1_def bit_simps)
  ultimately show ?thesis using r by (simp add: gen0_def)
qed

end
