(* ===== verification/Sdk_Coins.thy ===== *)
theory Sdk_Coins
  imports Sdk
begin

text \<open>
  Coin sets of the Cosmos SDK and the supply keeper, which are not part of the repository. The
  operations on \<open>SysCoins\<close> are fields of \<open>coin_ops\<close>; \<open>coins_ok\<close> states their documented
  behaviour on valid sets (one positive entry per denomination). The bank is a value of type
  \<open>'b\<close>, and \<open>supply_ops\<close> holds what the modules call of the supply keeper, with its documented
  behaviour in \<open>supply_ok\<close>. \<open>coins0\<close> and \<open>supply0\<close> are concrete instances.
\<close>

record coin_ops =
  AddCoins :: "sys_coins \<Rightarrow> sys_coins \<Rightarrow> sys_coins"
  SubCoins :: "sys_coins \<Rightarrow> sys_coins \<Rightarrow> sys_coins option" \<comment> \<open>\<open>None\<close>: a negative amount panics\<close>
  SafeSub :: "sys_coins \<Rightarrow> sys_coins \<Rightarrow> sys_coins \<times> bool"
  MulDecTruncate :: "sys_coins \<Rightarrow> dec \<Rightarrow> sys_coins"
  TruncateDecimal :: "sys_coins \<Rightarrow> sys_coins \<times> sys_coins"
  CoinsIsZero :: "sys_coins \<Rightarrow> bool"
  CoinsIsValid :: "sys_coins \<Rightarrow> bool"
  CoinsEmpty :: "sys_coins \<Rightarrow> bool"
  IsAnyNegative :: "sys_coins \<Rightarrow> bool"

text \<open>A valid set of coins, up to the order of the denominations.\<close>

definition valid_coins :: "sys_coins \<Rightarrow> bool" where
  "valid_coins cs \<longleftrightarrow> distinct (map Denom cs) \<and> (\<forall>c \<in> set cs. 0 < Amount c)"

lemma AmountOf_Nil [simp]: "AmountOf d [] = 0"
  by (simp add: AmountOf_def)

lemma AmountOf_Cons [simp]: "AmountOf d (c # cs) = (if Denom c = d then Amount c else 0) + AmountOf d cs"
  by (simp add: AmountOf_def)

lemma valid_coins_Nil [simp]: "valid_coins []"
  by (simp add: valid_coins_def)

lemma valid_nonneg: "valid_coins cs \<Longrightarrow> 0 \<le> AmountOf d cs"
  by (induction cs) (auto simp: valid_coins_def)

lemma AmountOf_absent_denom: "d \<notin> set (map Denom cs) \<Longrightarrow> AmountOf d cs = 0"
  by (induction cs) auto

lemma valid_AmountOf: "valid_coins cs \<Longrightarrow> c \<in> set cs \<Longrightarrow> AmountOf (Denom c) cs = Amount c"
proof (induction cs)
  case (Cons a cs)
  then have "valid_coins cs" and "Denom a \<notin> Denom ` set cs" by (auto simp: valid_coins_def)
  with Cons show ?case by (cases "c = a") (auto simp: AmountOf_absent_denom)
qed simp

lemma valid_zero:
  assumes "valid_coins cs" and "\<And>d. AmountOf d cs = 0"
  shows "cs = []"
proof (rule ccontr)
  assume "cs \<noteq> []"
  then have "hd cs \<in> set cs" by simp
  with valid_AmountOf [OF assms(1) this] assms show False by (auto simp: valid_coins_def)
qed

definition add_law :: "coin_ops \<Rightarrow> bool" where
  "add_law C \<longleftrightarrow> (\<forall>a b. valid_coins a \<longrightarrow> valid_coins b \<longrightarrow>
     valid_coins (AddCoins C a b) \<and> (\<forall>d. AmountOf d (AddCoins C a b) = AmountOf d a + AmountOf d b))"

definition sub_law :: "coin_ops \<Rightarrow> bool" where
  "sub_law C \<longleftrightarrow> (\<forall>a b. valid_coins a \<longrightarrow> valid_coins b \<longrightarrow>
     (case SubCoins C a b of
        None \<Rightarrow> \<exists>d. AmountOf d a < AmountOf d b
      | Some c \<Rightarrow> valid_coins c \<and> (\<forall>d. AmountOf d c = AmountOf d a - AmountOf d b)))"

definition safe_sub_law :: "coin_ops \<Rightarrow> bool" where
  "safe_sub_law C \<longleftrightarrow> (\<forall>a b. valid_coins a \<longrightarrow> valid_coins b \<longrightarrow>
     (if snd (SafeSub C a b) then \<exists>d. AmountOf d a < AmountOf d b
      else valid_coins (fst (SafeSub C a b)) \<and> (\<forall>d. AmountOf d (fst (SafeSub C a b)) = AmountOf d a - AmountOf d b)))"

definition scale_law :: "sdk_dec \<Rightarrow> coin_ops \<Rightarrow> bool" where
  "scale_law A C \<longleftrightarrow> (\<forall>a x. valid_coins a \<longrightarrow> 0 \<le> x \<longrightarrow>
     valid_coins (MulDecTruncate C a x) \<and> (\<forall>d. AmountOf d (MulDecTruncate C a x) = DecMulTruncate A (AmountOf d a) x))"

definition truncate_law :: "coin_ops \<Rightarrow> bool" where
  "truncate_law C \<longleftrightarrow> (\<forall>a. valid_coins a \<longrightarrow>
     valid_coins (fst (TruncateDecimal C a)) \<and> valid_coins (snd (TruncateDecimal C a)) \<and>
     (\<forall>d. AmountOf d (fst (TruncateDecimal C a)) + AmountOf d (snd (TruncateDecimal C a)) = AmountOf d a))"

definition coins_ok :: "sdk_dec \<Rightarrow> coin_ops \<Rightarrow> bool" where
  "coins_ok A C \<longleftrightarrow> add_law C \<and> sub_law C \<and> safe_sub_law C \<and> scale_law A C \<and> truncate_law C \<and>
     (\<forall>a. valid_coins a \<longrightarrow> (CoinsIsZero C a \<longleftrightarrow> a = [])) \<and>
     (\<forall>a. CoinsIsValid C a \<longrightarrow> valid_coins a) \<and> (\<forall>a. CoinsEmpty C a \<longleftrightarrow> a = []) \<and>
     (\<forall>a. IsAnyNegative C a \<longleftrightarrow> (\<exists>c \<in> set a. Amount c < 0))"

lemma add_coins:
  assumes "coins_ok A C" and "valid_coins a" and "valid_coins b"
  shows "valid_coins (AddCoins C a b)" and "AmountOf d (AddCoins C a b) = AmountOf d a + AmountOf d b"
  using assms by (simp_all add: coins_ok_def add_law_def)

lemma sub_coins:
  assumes "coins_ok A C" and "valid_coins a" and "valid_coins b"
  shows "SubCoins C a b = Some c \<Longrightarrow> valid_coins c"
    and "SubCoins C a b = Some c \<Longrightarrow> AmountOf d c = AmountOf d a - AmountOf d b"
    and "(\<And>d. AmountOf d b \<le> AmountOf d a) \<Longrightarrow> \<exists>c. SubCoins C a b = Some c"
proof -
  have l: "case SubCoins C a b of None \<Rightarrow> \<exists>d. AmountOf d a < AmountOf d b
      | Some c \<Rightarrow> valid_coins c \<and> (\<forall>d. AmountOf d c = AmountOf d a - AmountOf d b)"
    using assms by (simp add: coins_ok_def sub_law_def)
  then show "SubCoins C a b = Some c \<Longrightarrow> valid_coins c"
    and "SubCoins C a b = Some c \<Longrightarrow> AmountOf d c = AmountOf d a - AmountOf d b" by simp_all
  assume "\<And>d. AmountOf d b \<le> AmountOf d a"
  then have "\<not> (\<exists>d. AmountOf d a < AmountOf d b)" by (simp add: not_less)
  with l show "\<exists>c. SubCoins C a b = Some c" by (cases "SubCoins C a b") simp_all
qed

lemma safe_sub_coins:
  assumes "coins_ok A C" and "valid_coins a" and "valid_coins b"
  shows "\<not> snd (SafeSub C a b) \<Longrightarrow> valid_coins (fst (SafeSub C a b))"
    and "\<not> snd (SafeSub C a b) \<Longrightarrow> AmountOf d (fst (SafeSub C a b)) = AmountOf d a - AmountOf d b"
    and "(\<And>d. AmountOf d b \<le> AmountOf d a) \<Longrightarrow> \<not> snd (SafeSub C a b)"
proof -
  have l: "if snd (SafeSub C a b) then \<exists>d. AmountOf d a < AmountOf d b
      else valid_coins (fst (SafeSub C a b)) \<and> (\<forall>d. AmountOf d (fst (SafeSub C a b)) = AmountOf d a - AmountOf d b)"
    using assms(1) [unfolded coins_ok_def safe_sub_law_def, THEN conjunct2, THEN conjunct2, THEN conjunct1,
      THEN spec, THEN spec, THEN mp, THEN mp, OF assms(2,3)] .
  then show "\<not> snd (SafeSub C a b) \<Longrightarrow> valid_coins (fst (SafeSub C a b))"
    and "\<not> snd (SafeSub C a b) \<Longrightarrow> AmountOf d (fst (SafeSub C a b)) = AmountOf d a - AmountOf d b" by simp_all
  assume "\<And>d. AmountOf d b \<le> AmountOf d a"
  then have "\<not> (\<exists>d. AmountOf d a < AmountOf d b)" by (simp add: not_less)
  with l show "\<not> snd (SafeSub C a b)" by auto
qed

lemma scale_coins:
  assumes "coins_ok A C" and "valid_coins a" and "0 \<le> x"
  shows "valid_coins (MulDecTruncate C a x)" and "AmountOf d (MulDecTruncate C a x) = DecMulTruncate A (AmountOf d a) x"
  using assms by (simp_all add: coins_ok_def scale_law_def)

lemma truncate_coins:
  assumes "coins_ok A C" and "valid_coins a"
  shows "valid_coins (fst (TruncateDecimal C a))" and "valid_coins (snd (TruncateDecimal C a))"
    and "AmountOf d (fst (TruncateDecimal C a)) + AmountOf d (snd (TruncateDecimal C a)) = AmountOf d a"
  using assms by (simp_all add: coins_ok_def truncate_law_def)

lemma zero_coins: "coins_ok A C \<Longrightarrow> valid_coins a \<Longrightarrow> CoinsIsZero C a \<longleftrightarrow> a = []"
  by (simp add: coins_ok_def)

lemma empty_coins: "coins_ok A C \<Longrightarrow> CoinsEmpty C a \<longleftrightarrow> a = []"
  by (simp add: coins_ok_def)

lemma valid_not_negative:
  assumes "coins_ok A C" and "valid_coins cs"
  shows "\<not> IsAnyNegative C cs"
proof -
  have "IsAnyNegative C cs \<longleftrightarrow> (\<exists>c \<in> set cs. Amount c < 0)" using assms(1) unfolding coins_ok_def by blast
  with assms(2) show ?thesis by (force simp: valid_coins_def)
qed

lemma checked_coins: "coins_ok A C \<Longrightarrow> CoinsIsValid C a \<Longrightarrow> valid_coins a"
  by (simp add: coins_ok_def)

subsection \<open>The supply keeper\<close>

record 'b supply_ops =
  GetCoins :: "'b \<Rightarrow> acc_address \<Rightarrow> sys_coins"
  GetModuleAddress :: "string \<Rightarrow> acc_address"
  ModuleToModule :: "'b \<Rightarrow> string \<Rightarrow> string \<Rightarrow> sys_coins \<Rightarrow> string + 'b"
  ModuleToAccount :: "'b \<Rightarrow> string \<Rightarrow> acc_address \<Rightarrow> sys_coins \<Rightarrow> string + 'b"
  AccountToModule :: "'b \<Rightarrow> acc_address \<Rightarrow> string \<Rightarrow> sys_coins \<Rightarrow> string + 'b"
  SetModuleCoins :: "'b \<Rightarrow> string \<Rightarrow> sys_coins \<Rightarrow> 'b"

text \<open>Balances after a transfer.\<close>

definition transferred :: "'b supply_ops \<Rightarrow> 'b \<Rightarrow> acc_address \<Rightarrow> acc_address \<Rightarrow> sys_coins \<Rightarrow> 'b \<Rightarrow> bool" where
  "transferred S b x y cs b' \<longleftrightarrow>
     (\<forall>a. valid_coins (GetCoins S b' a) \<and>
        (\<forall>d. AmountOf d (GetCoins S b' a) =
           AmountOf d (GetCoins S b a) - (if a = x then AmountOf d cs else 0) + (if a = y then AmountOf d cs else 0)))"

definition bank_ok :: "'b supply_ops \<Rightarrow> 'b \<Rightarrow> bool" where
  "bank_ok S b \<longleftrightarrow> (\<forall>a. valid_coins (GetCoins S b a))"

definition module_to_module_law :: "'b supply_ops \<Rightarrow> bool" where
  "module_to_module_law S \<longleftrightarrow> (\<forall>b m n cs. bank_ok S b \<longrightarrow> valid_coins cs \<longrightarrow>
     (case ModuleToModule S b m n cs of
        Inl _ \<Rightarrow> \<exists>d. AmountOf d (GetCoins S b (GetModuleAddress S m)) < AmountOf d cs
      | Inr b' \<Rightarrow> transferred S b (GetModuleAddress S m) (GetModuleAddress S n) cs b'))"

definition module_account_law :: "'b supply_ops \<Rightarrow> bool" where
  "module_account_law S \<longleftrightarrow> (\<forall>b m a cs b'. bank_ok S b \<longrightarrow> valid_coins cs \<longrightarrow>
     (ModuleToAccount S b m a cs = Inr b' \<longrightarrow> transferred S b (GetModuleAddress S m) a cs b') \<and>
     (AccountToModule S b a m cs = Inr b' \<longrightarrow> transferred S b a (GetModuleAddress S m) cs b'))"

definition supply_ok :: "'b supply_ops \<Rightarrow> bool" where
  "supply_ok S \<longleftrightarrow> module_to_module_law S \<and> module_account_law S \<and>
     (\<forall>b m cs. GetCoins S (SetModuleCoins S b m cs) = (GetCoins S b)(GetModuleAddress S m := cs))"

lemma module_to_module:
  assumes "supply_ok S" and "bank_ok S b" and "valid_coins cs"
  shows "ModuleToModule S b m n cs = Inr b' \<Longrightarrow>
      transferred S b (GetModuleAddress S m) (GetModuleAddress S n) cs b'"
    and "(\<And>d. AmountOf d cs \<le> AmountOf d (GetCoins S b (GetModuleAddress S m))) \<Longrightarrow>
      \<exists>b'. ModuleToModule S b m n cs = Inr b'"
proof -
  have l: "case ModuleToModule S b m n cs of
        Inl _ \<Rightarrow> \<exists>d. AmountOf d (GetCoins S b (GetModuleAddress S m)) < AmountOf d cs
      | Inr b' \<Rightarrow> transferred S b (GetModuleAddress S m) (GetModuleAddress S n) cs b'"
    using assms by (simp add: supply_ok_def module_to_module_law_def)
  then show "ModuleToModule S b m n cs = Inr b' \<Longrightarrow>
      transferred S b (GetModuleAddress S m) (GetModuleAddress S n) cs b'" by simp
  assume "\<And>d. AmountOf d cs \<le> AmountOf d (GetCoins S b (GetModuleAddress S m))"
  then have "\<not> (\<exists>d. AmountOf d (GetCoins S b (GetModuleAddress S m)) < AmountOf d cs)" by (simp add: not_less)
  with l show "\<exists>b'. ModuleToModule S b m n cs = Inr b'" by (cases "ModuleToModule S b m n cs") simp_all
qed

lemma module_to_account:
  assumes "supply_ok S" and "bank_ok S b" and "valid_coins cs"
  shows "ModuleToAccount S b m a cs = Inr b' \<Longrightarrow> transferred S b (GetModuleAddress S m) a cs b'"
    and "AccountToModule S b a m cs = Inr b' \<Longrightarrow> transferred S b a (GetModuleAddress S m) cs b'"
  using assms by (simp_all add: supply_ok_def module_account_law_def)

lemma set_module_coins:
  "supply_ok S \<Longrightarrow> GetCoins S (SetModuleCoins S b m cs) = (GetCoins S b)(GetModuleAddress S m := cs)"
  by (simp add: supply_ok_def)

lemma transferred_bank_ok: "transferred S b x y cs b' \<Longrightarrow> bank_ok S b'"
  by (simp add: transferred_def bank_ok_def)

subsection \<open>Concrete instances\<close>

text \<open>Coin sets are normalised to one entry per denomination.\<close>

definition canon :: "sys_coins \<Rightarrow> sys_coins" where
  "canon cs = filter (\<lambda>c. Amount c \<noteq> 0) (map (\<lambda>d. \<lparr>Denom = d, Amount = AmountOf d cs\<rparr>) (remdups (map Denom cs)))"

lemma AmountOf_tabulate:
  "distinct ds \<Longrightarrow> AmountOf d (filter (\<lambda>c. Amount c \<noteq> 0) (map (\<lambda>d. \<lparr>Denom = d, Amount = f d\<rparr>) ds)) =
     (if d \<in> set ds then f d else 0)"
  by (induction ds) auto

lemma AmountOf_canon: "AmountOf d (canon cs) = AmountOf d cs"
  using AmountOf_tabulate [of "remdups (map Denom cs)" d "\<lambda>d. AmountOf d cs"]
  by (auto simp: canon_def AmountOf_absent_denom)

lemma canon_valid: "(\<And>d. 0 \<le> AmountOf d cs) \<Longrightarrow> valid_coins (canon cs)"
proof -
  assume pos: "\<And>d. 0 \<le> AmountOf d cs"
  have "distinct (map Denom (filter P (map (\<lambda>d. \<lparr>Denom = d, Amount = f d\<rparr>) ds)))" if "distinct ds" for ds P f
    using that by (induction ds) auto
  then have "distinct (map Denom (canon cs))" by (simp add: canon_def)
  moreover have "0 < Amount c" if "c \<in> set (canon cs)" for c
    using that pos by (auto simp: canon_def less_le)
  ultimately show ?thesis by (simp add: valid_coins_def)
qed

definition scaleCoins :: "(dec \<Rightarrow> dec) \<Rightarrow> sys_coins \<Rightarrow> sys_coins" where
  "scaleCoins f cs = canon (map (\<lambda>c. c\<lparr>Amount := f (Amount c)\<rparr>) cs)"

lemma AmountOf_map: "distinct (map Denom cs) \<Longrightarrow> f 0 = 0 \<Longrightarrow>
  AmountOf d (map (\<lambda>c. c\<lparr>Amount := f (Amount c)\<rparr>) cs) = f (AmountOf d cs)"
  by (induction cs) (auto simp: AmountOf_absent_denom)

lemma scaleCoins_valid:
  assumes "valid_coins cs" and "f 0 = 0" and "\<And>x. 0 \<le> x \<Longrightarrow> 0 \<le> f x"
  shows "valid_coins (scaleCoins f cs)" and "AmountOf d (scaleCoins f cs) = f (AmountOf d cs)"
proof -
  have "distinct (map Denom cs)" using assms(1) by (simp add: valid_coins_def)
  note m = AmountOf_map [of cs f, OF this assms(2)]
  show "valid_coins (scaleCoins f cs)"
    unfolding scaleCoins_def by (rule canon_valid) (simp add: m assms(3) valid_nonneg [OF assms(1)])
  show "AmountOf d (scaleCoins f cs) = f (AmountOf d cs)" by (simp add: scaleCoins_def AmountOf_canon m)
qed

definition negCoins :: "sys_coins \<Rightarrow> sys_coins" where
  "negCoins cs = map (\<lambda>c. c\<lparr>Amount := - Amount c\<rparr>) cs"

lemma AmountOf_negCoins [simp]: "AmountOf d (negCoins cs) = - AmountOf d cs"
  by (induction cs) (auto simp: negCoins_def)

lemma AmountOf_app [simp]: "AmountOf d (cs @ ds) = AmountOf d cs + AmountOf d ds"
  by (induction cs) auto

definition covered :: "sys_coins \<Rightarrow> sys_coins \<Rightarrow> bool" where
  "covered cs ds \<longleftrightarrow> list_all (\<lambda>c. AmountOf (Denom c) ds \<le> AmountOf (Denom c) cs) (cs @ ds)"

lemma covered_iff: "covered cs ds \<longleftrightarrow> (\<forall>d. AmountOf d ds \<le> AmountOf d cs)"
proof
  assume c: "covered cs ds"
  show "\<forall>d. AmountOf d ds \<le> AmountOf d cs"
  proof
    fix d
    show "AmountOf d ds \<le> AmountOf d cs"
    proof (cases "d \<in> set (map Denom (cs @ ds))")
      case True
      with c show ?thesis by (auto simp: covered_def list_all_iff)
    next
      case False
      then show ?thesis by (simp add: AmountOf_absent_denom)
    qed
  qed
qed (simp add: covered_def list_all_iff)

definition coins0 :: coin_ops where
  "coins0 = \<lparr>
     AddCoins = (\<lambda>a b. canon (a @ b)),
     SubCoins = (\<lambda>a b. if covered a b then Some (canon (a @ negCoins b)) else None),
     SafeSub = (\<lambda>a b. (canon (a @ negCoins b), \<not> covered a b)),
     MulDecTruncate = (\<lambda>a x. scaleCoins (\<lambda>y. DecMulTruncate dec18 y x) a),
     TruncateDecimal = (\<lambda>a. (scaleCoins (\<lambda>y. y - y mod 10 ^ 18) a, scaleCoins (\<lambda>y. y mod 10 ^ 18) a)),
     CoinsIsZero = (\<lambda>a. a = []),
     CoinsIsValid = valid_coins,
     CoinsEmpty = (\<lambda>a. a = []),
     IsAnyNegative = (\<lambda>a. \<exists>c \<in> set a. Amount c < 0)\<rparr>"

lemma coins0_ok: "coins_ok dec18 coins0"
proof -
  have t: "0 \<le> y - y mod 10 ^ 18" if "0 \<le> y" for y :: int
    using that zmod_le_nonneg_dividend [of y "10 ^ 18"] by simp
  have m: "0 \<le> DecMulTruncate dec18 y x" if "0 \<le> y" "0 \<le> x" for x y
    using that by (simp add: dec18_def pos_imp_zdiv_nonneg_iff)
  have z: "DecMulTruncate dec18 0 x = 0" for x by (simp add: dec18_def quot0_def)
  have "add_law coins0"
    by (auto simp: add_law_def coins0_def AmountOf_canon valid_nonneg intro!: canon_valid)
  moreover have "sub_law coins0"
    by (auto simp: sub_law_def coins0_def AmountOf_canon covered_iff not_le intro!: canon_valid)
  moreover have "safe_sub_law coins0"
    by (auto simp: safe_sub_law_def coins0_def AmountOf_canon covered_iff not_le not_less intro!: canon_valid)
  moreover have "scale_law dec18 coins0"
    using scaleCoins_valid m z by (simp add: scale_law_def coins0_def)
  moreover have "truncate_law coins0"
    unfolding truncate_law_def
  proof (intro allI impI)
    fix a :: sys_coins
    assume a: "valid_coins a"
    note whole = scaleCoins_valid [OF a, of "\<lambda>y. y - y mod 10 ^ 18", simplified, OF t [simplified]]
    note part = scaleCoins_valid [OF a, of "\<lambda>y. y mod 10 ^ 18", simplified]
    from whole part show "valid_coins (fst (TruncateDecimal coins0 a)) \<and> valid_coins (snd (TruncateDecimal coins0 a)) \<and>
        (\<forall>d. AmountOf d (fst (TruncateDecimal coins0 a)) + AmountOf d (snd (TruncateDecimal coins0 a)) = AmountOf d a)"
      by (simp add: coins0_def)
  qed
  moreover have "CoinsIsZero coins0 = (\<lambda>a. a = [])" "CoinsIsValid coins0 = valid_coins"
    "CoinsEmpty coins0 = (\<lambda>a. a = [])" "IsAnyNegative coins0 = (\<lambda>a. \<exists>c \<in> set a. Amount c < 0)"
    by (simp_all add: coins0_def)
  ultimately show ?thesis by (simp add: coins_ok_def)
qed

text \<open>A bank that is a map from addresses to coins; a transfer needs the funds.\<close>

definition sendCoins :: "(acc_address \<Rightarrow> sys_coins) \<Rightarrow> acc_address \<Rightarrow> acc_address \<Rightarrow> sys_coins \<Rightarrow> string + (acc_address \<Rightarrow> sys_coins)" where
  "sendCoins b x y cs =
     (if covered (b x) cs then
        let b = b(x := canon (b x @ negCoins cs)) in Inr (b(y := canon (b y @ cs)))
      else Inl ''insufficient funds'')"

definition supply0 :: "(acc_address \<Rightarrow> sys_coins) supply_ops" where
  "supply0 = \<lparr>
     GetCoins = (\<lambda>b a. b a),
     GetModuleAddress = (\<lambda>m. map (\<lambda>c. word_of_nat (of_char c)) m),
     ModuleToModule = (\<lambda>b m n cs. sendCoins b (map (\<lambda>c. word_of_nat (of_char c)) m) (map (\<lambda>c. word_of_nat (of_char c)) n) cs),
     ModuleToAccount = (\<lambda>b m a cs. sendCoins b (map (\<lambda>c. word_of_nat (of_char c)) m) a cs),
     AccountToModule = (\<lambda>b a m cs. sendCoins b a (map (\<lambda>c. word_of_nat (of_char c)) m) cs),
     SetModuleCoins = (\<lambda>b m cs. b(map (\<lambda>c. word_of_nat (of_char c)) m := cs))\<rparr>"

lemma sendCoins_transferred:
  assumes "bank_ok supply0 b" and "valid_coins cs" and "sendCoins b x y cs = Inr b'"
  shows "transferred supply0 b x y cs b'"
proof -
  have v: "\<And>a. valid_coins (b a)" using assms(1) by (simp add: bank_ok_def supply0_def)
  have c: "\<And>d. AmountOf d cs \<le> AmountOf d (b x)" and b': "b' = (let b = b(x := canon (b x @ negCoins cs)) in b(y := canon (b y @ cs)))"
    using assms(3) by (auto simp: sendCoins_def covered_iff split: if_splits)
  have n: "\<And>d. 0 \<le> AmountOf d cs" "\<And>a d. 0 \<le> AmountOf d (b a)" using assms(2) v valid_nonneg by blast+
  have "valid_coins (b' a)" for a
    using v c n by (auto simp: b' Let_def AmountOf_canon intro!: canon_valid add_nonneg_nonneg)
  then show ?thesis by (auto simp: transferred_def supply0_def b' Let_def AmountOf_canon)
qed

lemma supply0_ok: "supply_ok supply0"
proof -
  have sel: "ModuleToModule supply0 b m n cs = sendCoins b (GetModuleAddress supply0 m) (GetModuleAddress supply0 n) cs"
    "ModuleToAccount supply0 b m a cs = sendCoins b (GetModuleAddress supply0 m) a cs"
    "AccountToModule supply0 b a m cs = sendCoins b a (GetModuleAddress supply0 m) cs"
    "GetCoins supply0 b = b" "SetModuleCoins supply0 b m cs = b(GetModuleAddress supply0 m := cs)" for b m n a cs
    by (simp_all add: supply0_def)
  have "\<exists>d. AmountOf d (b x) < AmountOf d cs" if "sendCoins b x y cs = Inl e" for b x y cs e
    using that by (auto simp: sendCoins_def covered_iff not_le Let_def split: if_splits)
  then have "module_to_module_law supply0"
    unfolding module_to_module_law_def sel using sendCoins_transferred by (auto split: sum.splits)
  moreover have "module_account_law supply0"
    unfolding module_account_law_def sel using sendCoins_transferred by blast
  ultimately show ?thesis unfolding supply_ok_def sel by blast
qed

end
