(* ===== verification/Dist_Keeper.thy ===== *)
theory Dist_Keeper
  imports Sdk_Coins Staking_Store
begin

text \<open>
  The distribution module: its parameters, messages and genesis (distribution/types), the records
  of its store (distribution/keeper/store.go), the allocation of the collected fees at the beginning
  of a block (abci.go, keeper/allocation.go), withdrawals, the community pool, the staking hooks
  and the invariants the module registers.

  \<open>'b dist_world\<close> is the bank together with the module's store, one field per key of
  distribution/types/keys.go. \<open>dist_env\<close> holds the SDK's arithmetic and supply keeper and the
  arguments of \<open>NewKeeper\<close>. What the module reads of the staking keeper
  (types/expected_keepers.go) is a value of \<open>staking_view\<close>.
\<close>

datatype dist_error =
    DistNilDelegatorAddr
  | DistNilWithdrawAddr
  | DistNilValidatorAddr
  | ErrNoValidatorCommission
  | ErrSetWithdrawAddrDisabled
  | ErrSendCoinsFromModuleToAccountFailed
  | ErrWithdrawAddrInblacklist
  | ErrBadDistribution
  | ErrInvalidProposalAmount
  | ErrEmptyProposalRecipient
  | ErrUnknownDistributionMsgType
  | ErrUnknownDistributionCommunityPoolProposaType
  | DistUnauthorized acc_address
  | DistAbstract string \<comment> \<open>an error of \<open>govtypes.ValidateAbstract\<close>\<close>
  | DistTax
  | DistNegativePool
  | DistSupply string
  | DistPanic string

subsection \<open>Types\<close>

definition DistModuleName :: string where
  "DistModuleName = ''distribution''"

record dist_params =
  CommunityTax :: dec
  WithdrawAddrEnabled :: bool

definition NewDistParams :: "dec \<Rightarrow> bool \<Rightarrow> dist_params" where
  "NewDistParams communityTax withdrawAddrEnabled =
     \<lparr>CommunityTax = communityTax, WithdrawAddrEnabled = withdrawAddrEnabled\<rparr>"

definition DefaultDistParams :: "sdk_dec \<Rightarrow> dist_params" where
  "DefaultDistParams A = \<lparr>CommunityTax = NewDecWithPrec A 2 2, WithdrawAddrEnabled = True\<rparr>"

definition distParamsValidateBasic :: "sdk_dec \<Rightarrow> dist_params \<Rightarrow> dist_error option" where
  "distParamsValidateBasic A p =
     (if CommunityTax p < 0 \<or> OneDec A < CommunityTax p then Some DistTax else None)"

definition validateCommunityTax :: "sdk_dec \<Rightarrow> dec option \<Rightarrow> dist_error option" where
  "validateCommunityTax A v =
     (case v of
        None \<Rightarrow> Some DistTax
      | Some v \<Rightarrow> if v < 0 then Some DistTax else if OneDec A < v then Some DistTax else None)"

record FeePool =
  CommunityPool :: sys_coins

definition InitialFeePool :: FeePool where
  "InitialFeePool = \<lparr>CommunityPool = []\<rparr>"

definition feePoolValidateGenesis :: "coin_ops \<Rightarrow> FeePool \<Rightarrow> dist_error option" where
  "feePoolValidateGenesis C f = (if IsAnyNegative C (CommunityPool f) then Some DistNegativePool else None)"

definition InitialValidatorAccumulatedCommission :: sys_coins where
  "InitialValidatorAccumulatedCommission = []"

record DelegatorWithdrawInfo =
  dwiDelegatorAddress :: acc_address
  dwiWithdrawAddress :: acc_address

record ValidatorAccumulatedCommissionRecord =
  vacValidatorAddress :: val_address
  vacAccumulated :: sys_coins

record dist_genesis =
  dgParams :: dist_params
  dgFeePool :: FeePool
  dgDelegatorWithdrawInfos :: "DelegatorWithdrawInfo list"
  dgPreviousProposer :: cons_address
  dgValidatorAccumulatedCommissions :: "ValidatorAccumulatedCommissionRecord list"
  dgCommunityAddress :: acc_address

definition DefaultDistGenesis :: "sdk_dec \<Rightarrow> dist_genesis" where
  "DefaultDistGenesis A = \<lparr>
     dgParams = DefaultDistParams A, dgFeePool = InitialFeePool, dgDelegatorWithdrawInfos = [],
     dgPreviousProposer = [], dgValidatorAccumulatedCommissions = [], dgCommunityAddress = []\<rparr>"

definition distValidateGenesis :: "sdk_dec \<Rightarrow> coin_ops \<Rightarrow> dist_genesis \<Rightarrow> dist_error option" where
  "distValidateGenesis A C gs =
     (case distParamsValidateBasic A (dgParams gs) of
        Some e \<Rightarrow> Some e
      | None \<Rightarrow> feePoolValidateGenesis C (dgFeePool gs))"

record community_pool_spend_proposal =
  cspTitle :: string
  cspDescription :: string
  cspRecipient :: acc_address
  cspAmount :: sys_coins

text \<open>The messages of the module; \<open>DistOther\<close> is a message of another type.\<close>

datatype dist_msg =
    MsgSetWithdrawAddress acc_address acc_address
  | MsgWithdrawValidatorCommission val_address
  | DistOther

datatype gov_content = ContentCommunityPoolSpend community_pool_spend_proposal | ContentOther

definition distMsgValidateBasic :: "dist_msg \<Rightarrow> dist_error option" where
  "distMsgValidateBasic m =
     (case m of
        MsgSetWithdrawAddress delegator withdraw \<Rightarrow>
          if EmptyAddr delegator then Some DistNilDelegatorAddr
          else if EmptyAddr withdraw then Some DistNilWithdrawAddr else None
      | MsgWithdrawValidatorCommission validator \<Rightarrow>
          if EmptyAddr validator then Some DistNilValidatorAddr else None
      | DistOther \<Rightarrow> None)"

text \<open>\<open>govtypes.ValidateAbstract\<close> is code of the governance module and an argument here.\<close>

definition cspValidateBasic ::
    "coin_ops \<Rightarrow> (community_pool_spend_proposal \<Rightarrow> string option) \<Rightarrow> community_pool_spend_proposal \<Rightarrow> dist_error option" where
  "cspValidateBasic C validateAbstract csp =
     (case validateAbstract csp of
        Some e \<Rightarrow> Some (DistAbstract e)
      | None \<Rightarrow>
          if \<not> CoinsIsValid C (cspAmount csp) then Some ErrInvalidProposalAmount
          else if EmptyAddr (cspRecipient csp) then Some ErrEmptyProposalRecipient
          else None)"

subsection \<open>The store\<close>

record 'b dist_world =
  dw_bank :: 'b
  dw_feePool :: "FeePool option"
  dw_proposer :: "cons_address option"
  dw_withdrawAddrs :: "(acc_address, acc_address) kv"
  dw_commissions :: "(val_address, sys_coins) kv"
  dw_community :: "acc_address option"
  dw_params :: dist_params

record 'b dist_env =
  dc_dec :: sdk_dec
  dc_coins :: coin_ops
  dc_supply :: "'b supply_ops"
  feeCollectorName :: string
  blacklistedAddrs :: "acc_address \<Rightarrow> bool"
  StartBlockHeight :: int

definition GetDelegatorWithdrawAddr :: "'b dist_world \<Rightarrow> acc_address \<Rightarrow> acc_address" where
  "GetDelegatorWithdrawAddr w delAddr =
     (case kv_get (dw_withdrawAddrs w) delAddr of None \<Rightarrow> delAddr | Some b \<Rightarrow> b)"

definition SetDelegatorWithdrawAddr :: "'b dist_world \<Rightarrow> acc_address \<Rightarrow> acc_address \<Rightarrow> 'b dist_world" where
  "SetDelegatorWithdrawAddr w delAddr withdrawAddr =
     w\<lparr>dw_withdrawAddrs := kv_set delAddr withdrawAddr (dw_withdrawAddrs w)\<rparr>"

definition GetFeePool :: "'b dist_world \<Rightarrow> dist_error + FeePool" where
  "GetFeePool w =
     (case dw_feePool w of
        None \<Rightarrow> Inl (DistPanic ''Stored fee pool should not have been nil'')
      | Some f \<Rightarrow> Inr f)"

definition SetFeePool :: "'b dist_world \<Rightarrow> FeePool \<Rightarrow> 'b dist_world" where
  "SetFeePool w feePool = w\<lparr>dw_feePool := Some feePool\<rparr>"

definition GetFeePoolCommunityCoins :: "'b dist_world \<Rightarrow> dist_error + sys_coins" where
  "GetFeePoolCommunityCoins w = bindE (GetFeePool w) (\<lambda>f. Inr (CommunityPool f))"

definition GetPreviousProposerConsAddr :: "'b dist_world \<Rightarrow> dist_error + cons_address" where
  "GetPreviousProposerConsAddr w =
     (case dw_proposer w of None \<Rightarrow> Inl (DistPanic ''Previous proposer not set'') | Some a \<Rightarrow> Inr a)"

definition SetPreviousProposerConsAddr :: "'b dist_world \<Rightarrow> cons_address \<Rightarrow> 'b dist_world" where
  "SetPreviousProposerConsAddr w consAddr = w\<lparr>dw_proposer := Some consAddr\<rparr>"

definition SetCommunityAddress :: "'b dist_world \<Rightarrow> acc_address \<Rightarrow> 'b dist_world" where
  "SetCommunityAddress w commAddr = w\<lparr>dw_community := Some commAddr\<rparr>"

definition GetCommunityAddress :: "'b dist_world \<Rightarrow> dist_error + acc_address" where
  "GetCommunityAddress w =
     (case dw_community w of None \<Rightarrow> Inl (DistPanic ''Previous proposer not set'') | Some a \<Rightarrow> Inr a)"

definition GetValidatorAccumulatedCommission :: "'b dist_world \<Rightarrow> val_address \<Rightarrow> sys_coins" where
  "GetValidatorAccumulatedCommission w val =
     (case kv_get (dw_commissions w) val of None \<Rightarrow> [] | Some c \<Rightarrow> c)"

definition SetValidatorAccumulatedCommission ::
    "'b dist_env \<Rightarrow> 'b dist_world \<Rightarrow> val_address \<Rightarrow> sys_coins \<Rightarrow> 'b dist_world" where
  "SetValidatorAccumulatedCommission E w val commission =
     w\<lparr>dw_commissions := kv_set val
         (if CoinsIsZero (dc_coins E) commission then InitialValidatorAccumulatedCommission else commission)
         (dw_commissions w)\<rparr>"

definition deleteValidatorAccumulatedCommission :: "'b dist_world \<Rightarrow> val_address \<Rightarrow> 'b dist_world" where
  "deleteValidatorAccumulatedCommission w val = w\<lparr>dw_commissions := kv_del val (dw_commissions w)\<rparr>"

definition GetDistributionAccount :: "'b dist_env \<Rightarrow> 'b dist_world \<Rightarrow> sys_coins" where
  "GetDistributionAccount E w =
     GetCoins (dc_supply E) (dw_bank w) (GetModuleAddress (dc_supply E) DistModuleName)"

text \<open>A call of the supply keeper: its errors are handed on by \<open>f\<close>.\<close>

definition onBank :: "(string \<Rightarrow> dist_error) \<Rightarrow> 'b dist_world \<Rightarrow> string + 'b \<Rightarrow> dist_error + 'b dist_world" where
  "onBank f w r = (case r of Inl e \<Rightarrow> Inl (f e) | Inr b \<Rightarrow> Inr (w\<lparr>dw_bank := b\<rparr>))"

definition panicNone :: "string \<Rightarrow> 'a option \<Rightarrow> dist_error + 'a" where
  "panicNone m x = (case x of None \<Rightarrow> Inl (DistPanic m) | Some y \<Rightarrow> Inr y)"

lemmas dist_store_defs =
  GetDelegatorWithdrawAddr_def SetDelegatorWithdrawAddr_def GetFeePool_def SetFeePool_def
  GetPreviousProposerConsAddr_def SetPreviousProposerConsAddr_def SetCommunityAddress_def GetCommunityAddress_def
  GetValidatorAccumulatedCommission_def SetValidatorAccumulatedCommission_def
  deleteValidatorAccumulatedCommission_def InitialValidatorAccumulatedCommission_def

subsection \<open>Withdrawals\<close>

definition SetWithdrawAddr ::
    "'b dist_env \<Rightarrow> 'b dist_world \<Rightarrow> acc_address \<Rightarrow> acc_address \<Rightarrow> dist_error + 'b dist_world" where
  "SetWithdrawAddr E w delegatorAddr withdrawAddr =
     (if blacklistedAddrs E withdrawAddr then Inl ErrWithdrawAddrInblacklist
      else if \<not> WithdrawAddrEnabled (dw_params w) then Inl ErrSetWithdrawAddrDisabled
      else Inr (SetDelegatorWithdrawAddr w delegatorAddr withdrawAddr))"

definition WithdrawValidatorCommission ::
    "'b dist_env \<Rightarrow> 'b dist_world \<Rightarrow> val_address \<Rightarrow> dist_error + ('b dist_world \<times> sys_coins)" where
  "WithdrawValidatorCommission E w valAddr =
     (let accumCommission = GetValidatorAccumulatedCommission w valAddr
      in if CoinsIsZero (dc_coins E) accumCommission then Inl ErrNoValidatorCommission
         else
           let (commission, remainder) = TruncateDecimal (dc_coins E) accumCommission;
               w = SetValidatorAccumulatedCommission E w valAddr remainder
           in bindE
                (if CoinsIsZero (dc_coins E) commission then Inr w
                 else onBank (\<lambda>_. ErrSendCoinsFromModuleToAccountFailed) w
                        (ModuleToAccount (dc_supply E) (dw_bank w) DistModuleName
                           (GetDelegatorWithdrawAddr w valAddr) commission))
                (\<lambda>w. Inr (w, commission)))"

text \<open>The community pool is part of the module account and reduced separately.\<close>

definition distributeFromFeePool ::
    "'b dist_env \<Rightarrow> 'b dist_world \<Rightarrow> sys_coins \<Rightarrow> acc_address \<Rightarrow> dist_error + 'b dist_world" where
  "distributeFromFeePool E w amount receiveAddr =
     bindE (GetFeePool w) (\<lambda>feePool.
       let (newPool, negative) = SafeSub (dc_coins E) (CommunityPool feePool) amount
       in if negative then Inl ErrBadDistribution
          else
            bindE (onBank DistSupply w (ModuleToAccount (dc_supply E) (dw_bank w) DistModuleName receiveAddr amount)) (\<lambda>w.
              Inr (SetFeePool w (feePool\<lparr>CommunityPool := newPool\<rparr>))))"

definition HandleCommunityPoolSpendProposal ::
    "'b dist_env \<Rightarrow> 'b dist_world \<Rightarrow> community_pool_spend_proposal \<Rightarrow> dist_error + 'b dist_world" where
  "HandleCommunityPoolSpendProposal E w p =
     (if blacklistedAddrs E (cspRecipient p) then Inl (DistUnauthorized (cspRecipient p))
      else distributeFromFeePool E w (cspAmount p) (cspRecipient p))"

definition NewCommunityPoolSpendProposalHandler ::
    "'b dist_env \<Rightarrow> 'b dist_world \<Rightarrow> gov_content \<Rightarrow> dist_error + 'b dist_world" where
  "NewCommunityPoolSpendProposalHandler E w content =
     (case content of
        ContentCommunityPoolSpend c \<Rightarrow> HandleCommunityPoolSpendProposal E w c
      | ContentOther \<Rightarrow> Inl ErrUnknownDistributionCommunityPoolProposaType)"

definition handleMsgModifyWithdrawAddress ::
    "'b dist_env \<Rightarrow> 'b dist_world \<Rightarrow> acc_address \<Rightarrow> acc_address \<Rightarrow> dist_error + 'b dist_world" where
  "handleMsgModifyWithdrawAddress E w delegator withdraw = SetWithdrawAddr E w delegator withdraw"

definition handleMsgWithdrawValidatorCommission ::
    "'b dist_env \<Rightarrow> 'b dist_world \<Rightarrow> val_address \<Rightarrow> dist_error + 'b dist_world" where
  "handleMsgWithdrawValidatorCommission E w validator =
     bindE (WithdrawValidatorCommission E w validator) (\<lambda>(w, _). Inr w)"

definition dist_handler :: "'b dist_env \<Rightarrow> dist_msg \<Rightarrow> 'b dist_world \<Rightarrow> dist_error + 'b dist_world" where
  "dist_handler E msg w =
     (case msg of
        MsgSetWithdrawAddress delegator withdraw \<Rightarrow> handleMsgModifyWithdrawAddress E w delegator withdraw
      | MsgWithdrawValidatorCommission validator \<Rightarrow> handleMsgWithdrawValidatorCommission E w validator
      | DistOther \<Rightarrow> Inl ErrUnknownDistributionMsgType)"

subsection \<open>Allocation\<close>

record staking_view =
  ValidatorByConsAddr :: "cons_address \<Rightarrow> validator option"
  IteratedValidators :: "validator list" \<comment> \<open>what \<open>IterateValidators\<close> passes to its callback, in order\<close>

record vote_info =
  voteAddress :: cons_address
  votePower :: "64 word"

definition valPortion :: "sdk_dec \<Rightarrow> dec" where
  "valPortion A = NewDecWithPrec A 20 2"

definition votePortion :: "sdk_dec \<Rightarrow> dec" where
  "votePortion A = NewDecWithPrec A 80 2"

definition AllocateTokensToValidator ::
    "'b dist_env \<Rightarrow> 'b dist_world \<Rightarrow> validator \<Rightarrow> sys_coins \<Rightarrow> 'b dist_world" where
  "AllocateTokensToValidator E w val tokens =
     SetValidatorAccumulatedCommission E w (OperatorAddress val)
       (AddCoins (dc_coins E) (GetValidatorAccumulatedCommission w (OperatorAddress val)) tokens)"

text \<open>The body both loops share: pay one validator and take the reward off the rest.\<close>

definition payValidator ::
    "'b dist_env \<Rightarrow> sys_coins \<times> 'b dist_world \<Rightarrow> validator \<Rightarrow> sys_coins \<Rightarrow> dist_error + (sys_coins \<times> 'b dist_world)" where
  "payValidator E p val reward =
     bindE (panicNone ''negative coin amount'' (SubCoins (dc_coins E) (fst p) reward)) (\<lambda>remaining.
       Inr (remaining, AllocateTokensToValidator E (snd p) val reward))"

definition unjailedVoters :: "staking_view \<Rightarrow> vote_info list \<Rightarrow> validator list" where
  "unjailedVoters sk votes =
     filter (\<lambda>v. \<not> Jailed v) (List.map_filter (\<lambda>vote. ValidatorByConsAddr sk (voteAddress vote)) votes)"

definition allocateByEqual ::
    "'b dist_env \<Rightarrow> staking_view \<Rightarrow> 'b dist_world \<Rightarrow> sys_coins \<Rightarrow> vote_info list \<Rightarrow> dist_error + (sys_coins \<times> 'b dist_world)" where
  "allocateByEqual E sk w rewards previousVotes =
     (let validators = unjailedVoters sk previousVotes
      in bindE (panicNone ''division by zero''
                  (DecQuoTruncate (dc_dec E) (NewDec (dc_dec E) 1) (NewDec (dc_dec E) (int (length validators))))) (\<lambda>powerFraction.
           let reward = MulDecTruncate (dc_coins E) rewards powerFraction
           in foldE (\<lambda>p val. payValidator E p val reward) (rewards, w) validators))"

definition unjailed :: "staking_view \<Rightarrow> validator list" where
  "unjailed sk = filter (\<lambda>v. \<not> Jailed v) (IteratedValidators sk)"

definition allocateByShares ::
    "'b dist_env \<Rightarrow> staking_view \<Rightarrow> 'b dist_world \<Rightarrow> sys_coins \<Rightarrow> dist_error + (sys_coins \<times> 'b dist_world)" where
  "allocateByShares E sk w rewards =
     (let validators = unjailed sk;
          totalVotes = foldl (\<lambda>acc v. acc + DelegatorShares v) (NewDec (dc_dec E) 0) validators
      in foldE (\<lambda>p val.
           bindE (panicNone ''division by zero'' (DecQuoTruncate (dc_dec E) (DelegatorShares val) totalVotes)) (\<lambda>powerFraction.
             payValidator E p val (MulDecTruncate (dc_coins E) rewards powerFraction)))
           (rewards, w) validators)"

text \<open>An error of the transfer out of the fee pool is only logged; a panic is not caught.\<close>

definition logError :: "'b dist_world \<Rightarrow> dist_error + 'b dist_world \<Rightarrow> dist_error + 'b dist_world" where
  "logError w r =
     (case r of Inl (DistPanic m) \<Rightarrow> Inl (DistPanic m) | Inl _ \<Rightarrow> Inr w | Inr w' \<Rightarrow> Inr w')"

definition AllocateTokens ::
    "'b dist_env \<Rightarrow> staking_view \<Rightarrow> 'b dist_world \<Rightarrow> 64 word \<Rightarrow> cons_address \<Rightarrow> vote_info list \<Rightarrow> dist_error + 'b dist_world" where
  "AllocateTokens E sk w totalPreviousPower previousProposer previousVotes =
     (let C = dc_coins E; S = dc_supply E;
          feesCollected = GetCoins S (dw_bank w) (GetModuleAddress S (feeCollectorName E))
      in if CoinsEmpty C feesCollected then Inr w
         else
           bindE (onBank DistPanic w (ModuleToModule S (dw_bank w) (feeCollectorName E) DistModuleName feesCollected)) (\<lambda>w.
           bindE (GetFeePool w) (\<lambda>feePool.
             if totalPreviousPower = 0 then
               Inr (SetFeePool w (feePool\<lparr>CommunityPool := AddCoins C (CommunityPool feePool) feesCollected\<rparr>))
             else
               let feesToVals = MulDecTruncate C feesCollected (OneDec (dc_dec E) - CommunityTax (dw_params w));
                   feeByEqual = MulDecTruncate C feesToVals (valPortion (dc_dec E));
                   feeByVote = MulDecTruncate C feesToVals (votePortion (dc_dec E))
               in bindE (panicNone ''negative coin amount'' (SubCoins C feesCollected (AddCoins C feeByEqual feeByVote))) (\<lambda>feesToCommunity.
                  bindE (allocateByEqual E sk w feeByEqual previousVotes) (\<lambda>(remainByEqual, w).
                  bindE (allocateByShares E sk w feeByVote) (\<lambda>(remainByShare, w).
                    let feesToCommunity = AddCoins C feesToCommunity (AddCoins C remainByEqual remainByShare);
                        (feePool, w) =
                          (if \<not> CoinsIsZero C feesToCommunity
                           then let feePool = feePool\<lparr>CommunityPool := AddCoins C (CommunityPool feePool) feesToCommunity\<rparr>
                                in (feePool, SetFeePool w feePool)
                           else (feePool, w))
                    in bindE (GetCommunityAddress w) (\<lambda>addr.
                         logError w (distributeFromFeePool E w (CommunityPool feePool) addr))))))))"

definition distBeginBlocker ::
    "'b dist_env \<Rightarrow> staking_view \<Rightarrow> int \<Rightarrow> vote_info list \<Rightarrow> cons_address \<Rightarrow> 'b dist_world \<Rightarrow> dist_error + 'b dist_world" where
  "distBeginBlocker E sk height votes proposerAddress w =
     (let previousTotalPower = foldl (\<lambda>acc v. acc + votePower v) 0 votes
      in bindE
           (if StartBlockHeight E + 1 < height then
              bindE (GetPreviousProposerConsAddr w) (\<lambda>previousProposer.
                AllocateTokens E sk w previousTotalPower previousProposer votes)
            else Inr w)
           (\<lambda>w. Inr (SetPreviousProposerConsAddr w proposerAddress)))"

subsection \<open>Hooks\<close>

definition initializeValidator :: "'b dist_env \<Rightarrow> 'b dist_world \<Rightarrow> val_address \<Rightarrow> 'b dist_world" where
  "initializeValidator E w operator =
     SetValidatorAccumulatedCommission E w operator InitialValidatorAccumulatedCommission"

text \<open>The hook reads the validator back from the staking keeper; a missing one is a nil interface.\<close>

definition distAfterValidatorCreated ::
    "'b dist_env \<Rightarrow> (val_address \<Rightarrow> validator option) \<Rightarrow> 'b dist_world \<Rightarrow> val_address \<Rightarrow> dist_error + 'b dist_world" where
  "distAfterValidatorCreated E Validator w valAddr =
     bindE (panicNone ''nil pointer dereference'' (Validator valAddr)) (\<lambda>val.
       Inr (initializeValidator E w (OperatorAddress val)))"

definition distAfterValidatorRemoved ::
    "'b dist_env \<Rightarrow> 'b dist_world \<Rightarrow> val_address \<Rightarrow> dist_error + 'b dist_world" where
  "distAfterValidatorRemoved E w valAddr =
     (let C = dc_coins E; commission = GetValidatorAccumulatedCommission w valAddr
      in bindE
           (if \<not> CoinsIsZero C commission then
              let (coins, remainder) = TruncateDecimal C commission
              in bindE
                   (if \<not> CoinsIsZero C remainder then
                      bindE (GetFeePool w) (\<lambda>feePool.
                        Inr (SetFeePool w (feePool\<lparr>CommunityPool := AddCoins C (CommunityPool feePool) remainder\<rparr>)))
                    else Inr w)
                   (\<lambda>w. if \<not> CoinsIsZero C coins then
                           onBank DistPanic w
                             (ModuleToAccount (dc_supply E) (dw_bank w) DistModuleName
                                (GetDelegatorWithdrawAddr w valAddr) coins)
                         else Inr w)
            else Inr w)
           (\<lambda>w. Inr (deleteValidatorAccumulatedCommission w valAddr)))"

subsection \<open>Genesis\<close>

definition distInitGenesis :: "'b dist_env \<Rightarrow> 'b dist_world \<Rightarrow> dist_genesis \<Rightarrow> 'b dist_world" where
  "distInitGenesis E w data =
     (let w = SetCommunityAddress w (dgCommunityAddress data);
          w = SetFeePool w (dgFeePool data);
          w = w\<lparr>dw_params := dgParams data\<rparr>;
          w = SetPreviousProposerConsAddr w (dgPreviousProposer data);
          w = foldl (\<lambda>w dwi. SetDelegatorWithdrawAddr w (dwiDelegatorAddress dwi) (dwiWithdrawAddress dwi)) w
                (dgDelegatorWithdrawInfos data);
          (w, moduleHoldings) = foldl (\<lambda>(w, h) acc.
                (SetValidatorAccumulatedCommission E w (vacValidatorAddress acc) (vacAccumulated acc),
                 AddCoins (dc_coins E) h (vacAccumulated acc)))
              (w, []) (dgValidatorAccumulatedCommissions data);
          moduleHoldings = AddCoins (dc_coins E) moduleHoldings (CommunityPool (dgFeePool data))
      in if CoinsIsZero (dc_coins E) (GetDistributionAccount E w)
         then w\<lparr>dw_bank := SetModuleCoins (dc_supply E) (dw_bank w) DistModuleName moduleHoldings\<rparr>
         else w)"

definition distExportGenesis :: "'b dist_world \<Rightarrow> dist_error + dist_genesis" where
  "distExportGenesis w =
     bindE (GetFeePool w) (\<lambda>feePool.
     bindE (GetCommunityAddress w) (\<lambda>communityAddress.
     let dwi = map (\<lambda>(del, addr). \<lparr>dwiDelegatorAddress = del, dwiWithdrawAddress = addr\<rparr>) (kv_list (dw_withdrawAddrs w))
     in bindE (GetPreviousProposerConsAddr w) (\<lambda>pp.
     let acc = map (\<lambda>(addr, c). \<lparr>vacValidatorAddress = addr, vacAccumulated = c\<rparr>) (kv_list (dw_commissions w))
     in Inr \<lparr>dgParams = dw_params w, dgFeePool = feePool, dgDelegatorWithdrawInfos = dwi, dgPreviousProposer = pp,
          dgValidatorAccumulatedCommissions = acc, dgCommunityAddress = communityAddress\<rparr>)))"

subsection \<open>Invariants\<close>

definition NonNegativeCommissionsInvariant :: "'b dist_env \<Rightarrow> 'b dist_world \<Rightarrow> bool" where
  "NonNegativeCommissionsInvariant E w \<longleftrightarrow>
     length (filter (\<lambda>(addr, c). IsAnyNegative (dc_coins E) c) (kv_list (dw_commissions w))) \<noteq> 0"

text \<open>A failing withdrawal leaves the truncated record behind in the cached context.\<close>

definition canWithdrawStep :: "'b dist_env \<Rightarrow> 'b dist_world \<times> nat \<Rightarrow> validator \<Rightarrow> 'b dist_world \<times> nat" where
  "canWithdrawStep E p val =
     (let (w, count) = p; valAddr = OperatorAddress val;
          accumCommission = GetValidatorAccumulatedCommission w valAddr
      in if CoinsIsZero (dc_coins E) accumCommission then (w, count)
         else case WithdrawValidatorCommission E w valAddr of
                Inl e \<Rightarrow> (SetValidatorAccumulatedCommission E w valAddr (snd (TruncateDecimal (dc_coins E) accumCommission)), count + 1)
              | Inr (w', _) \<Rightarrow> (w', count))"

definition CanWithdrawInvariant :: "'b dist_env \<Rightarrow> staking_view \<Rightarrow> 'b dist_world \<Rightarrow> bool" where
  "CanWithdrawInvariant E sk w \<longleftrightarrow> snd (foldl (canWithdrawStep E) (w, 0) (IteratedValidators sk)) \<noteq> 0"

text \<open>\<open>IsEqual\<close> of two coin sets, by denomination.\<close>

definition coinsEqual :: "sys_coins \<Rightarrow> sys_coins \<Rightarrow> bool" where
  "coinsEqual a b \<longleftrightarrow> list_all (\<lambda>c. AmountOf (Denom c) a = AmountOf (Denom c) b) (a @ b)"

definition distModuleAccountInvariant :: "'b dist_env \<Rightarrow> 'b dist_world \<Rightarrow> dist_error + bool" where
  "distModuleAccountInvariant E w =
     (let accumulatedCommission =
        foldl (\<lambda>acc (addr, c). AddCoins (dc_coins E) acc c) [] (kv_list (dw_commissions w))
      in bindE (GetFeePoolCommunityCoins w) (\<lambda>communityPool.
           Inr (\<not> coinsEqual (GetDistributionAccount E w) (AddCoins (dc_coins E) communityPool accumulatedCommission))))"

end
