(* ===== verification/Dist_Alloc.thy ===== *)
theory Dist_Alloc
  imports Dist_Keeper
begin

text \<open>
  Allocation of the collected fees. \<open>reward_split\<close> is the interface of a rule that splits a
  reward: the fractions it gives to the members of a list are not negative and do not exceed one
  in sum, so that the truncated rewards fit into what is to be split. Both rules of the module,
  equal parts and parts by shares, are instances; one lemma about the payment loop serves both.
\<close>

subsection \<open>Splitting a reward\<close>

locale reward_split =
  fixes fraction :: "int \<Rightarrow> 'v list \<Rightarrow> 'v \<Rightarrow> int"
    and fit :: "int \<Rightarrow> 'v list \<Rightarrow> bool"
  assumes one_pos: "fit one vs \<Longrightarrow> 0 < one"
    and fraction_nonneg: "fit one vs \<Longrightarrow> v \<in> set vs \<Longrightarrow> 0 \<le> fraction one vs v"
    and fraction_total: "fit one vs \<Longrightarrow> (\<Sum>v\<leftarrow>vs. fraction one vs v) \<le> one"
begin

lemma rewards_fit:
  assumes "fit one vs" and "0 \<le> r"
  shows "(\<Sum>v\<leftarrow>vs. r * fraction one vs v div one) \<le> r"
proof -
  have one: "0 < one" using one_pos [OF assms(1)] .
  have "one * (\<Sum>v\<leftarrow>us. r * fraction one vs v div one) \<le> r * (\<Sum>v\<leftarrow>us. fraction one vs v)" for us
  proof (induction us)
    case (Cons u us)
    have "one * (r * fraction one vs u div one) \<le> r * fraction one vs u"
      using one by (simp add: mult.commute [of one] div_mult_self1_is_m minus_mod_eq_div_mult [symmetric])
    with Cons show ?case by (simp add: distrib_left)
  qed simp
  from this [of vs] have "one * (\<Sum>v\<leftarrow>vs. r * fraction one vs v div one) \<le> r * one"
    using mult_left_mono [OF fraction_total [OF assms(1)] assms(2)] by linarith
  with one show ?thesis by (simp add: mult.commute)
qed

lemma reward_nonneg: "fit one vs \<Longrightarrow> 0 \<le> r \<Longrightarrow> v \<in> set vs \<Longrightarrow> 0 \<le> r * fraction one vs v div one"
  using one_pos fraction_nonneg by (simp add: pos_imp_zdiv_nonneg_iff)

end

text \<open>Equal parts: every member gets the truncated quotient of one by their number.\<close>

definition equalFraction :: "int \<Rightarrow> validator list \<Rightarrow> validator \<Rightarrow> int" where
  "equalFraction one vs v = one * one div (int (length vs) * one)"

definition equalFit :: "int \<Rightarrow> validator list \<Rightarrow> bool" where
  "equalFit one vs \<longleftrightarrow> 0 < one \<and> vs \<noteq> []"

interpretation by_equal: reward_split equalFraction equalFit
proof
  fix one vs and v :: validator
  assume fit: "equalFit one vs"
  then have one: "0 < one" and n: "0 < int (length vs)" by (simp_all add: equalFit_def)
  then show "0 < one" by simp
  have e: "equalFraction one vs v = one div int (length vs)" for v
    using one n by (simp add: equalFraction_def)
  show "0 \<le> equalFraction one vs v" using one n by (simp add: e pos_imp_zdiv_nonneg_iff)
  have "(\<Sum>v\<leftarrow>vs. equalFraction one vs v) = int (length vs) * (one div int (length vs))"
    by (simp add: e sum_list_triv)
  also have "\<dots> \<le> one"
    using one n by (simp add: mult.commute [of "int (length vs)"] minus_mod_eq_div_mult [symmetric])
  finally show "(\<Sum>v\<leftarrow>vs. equalFraction one vs v) \<le> one" .
qed

text \<open>Parts by shares: the truncated quotient of the member's shares by the sum.\<close>

definition sharesFraction :: "int \<Rightarrow> validator list \<Rightarrow> validator \<Rightarrow> int" where
  "sharesFraction one vs v = DelegatorShares v * one div (\<Sum>v\<leftarrow>vs. DelegatorShares v)"

definition sharesFit :: "int \<Rightarrow> validator list \<Rightarrow> bool" where
  "sharesFit one vs \<longleftrightarrow> 0 < one \<and> (\<forall>v \<in> set vs. 0 \<le> DelegatorShares v) \<and> (vs \<noteq> [] \<longrightarrow> 0 < (\<Sum>v\<leftarrow>vs. DelegatorShares v))"

interpretation by_shares: reward_split sharesFraction sharesFit
proof
  fix one vs and v :: validator
  assume fit: "sharesFit one vs"
  then have one: "0 < one" by (simp add: sharesFit_def)
  then show "0 < one" .
  let ?t = "\<Sum>v\<leftarrow>vs. DelegatorShares v"
  show "0 \<le> sharesFraction one vs v" if "v \<in> set vs"
  proof -
    have "vs \<noteq> []" using that by auto
    then show ?thesis using fit that one by (simp add: sharesFit_def sharesFraction_def pos_imp_zdiv_nonneg_iff)
  qed
  show "(\<Sum>v\<leftarrow>vs. sharesFraction one vs v) \<le> one"
  proof (cases "vs = []")
    case True
    then show ?thesis using one by simp
  next
    case False
    then have t: "0 < ?t" using fit by (simp add: sharesFit_def)
    have "?t * (\<Sum>v\<leftarrow>us. DelegatorShares v * one div ?t) \<le> (\<Sum>v\<leftarrow>us. DelegatorShares v) * one" for us
    proof (induction us)
      case (Cons u us)
      have "?t * (DelegatorShares u * one div ?t) \<le> DelegatorShares u * one"
        using t by (simp add: mult.commute [of ?t] minus_mod_eq_div_mult [symmetric])
      with Cons show ?case by (simp add: distrib_left distrib_right)
    qed simp
    from this [of vs] have "?t * (\<Sum>v\<leftarrow>vs. DelegatorShares v * one div ?t) \<le> ?t * one" .
    with t show ?thesis by (simp add: sharesFraction_def)
  qed
qed

subsection \<open>The environment and the accounts\<close>

abbreviation distAddr :: "'b dist_env \<Rightarrow> acc_address" where
  "distAddr E \<equiv> GetModuleAddress (dc_supply E) DistModuleName"

abbreviation feeAddr :: "'b dist_env \<Rightarrow> acc_address" where
  "feeAddr E \<equiv> GetModuleAddress (dc_supply E) (feeCollectorName E)"

definition dist_ok :: "'b dist_env \<Rightarrow> bool" where
  "dist_ok E \<longleftrightarrow> coins_ok (dc_dec E) (dc_coins E) \<and> supply_ok (dc_supply E) \<and>
     mul_truncates (dc_dec E) \<and> quo_truncates (dc_dec E) \<and>
     blacklistedAddrs E (distAddr E) \<and> feeAddr E \<noteq> distAddr E"

lemma dist_okD:
  assumes "dist_ok E"
  shows "coins_ok (dc_dec E) (dc_coins E)" and "supply_ok (dc_supply E)"
    and "0 < OneDec (dc_dec E)" and "blacklistedAddrs E (distAddr E)" and "feeAddr E \<noteq> distAddr E"
    and "0 \<le> x \<Longrightarrow> 0 \<le> y \<Longrightarrow> DecMulTruncate (dc_dec E) x y = x * y div OneDec (dc_dec E)"
    and "0 \<le> x \<Longrightarrow> 0 < y \<Longrightarrow> DecQuoTruncate (dc_dec E) x y = Some (x * OneDec (dc_dec E) div y)"
    and "DecQuoTruncate (dc_dec E) x 0 = None"
  using assms by (simp_all add: dist_ok_def mul_truncates_def quo_truncates_def)

text \<open>The sum of the commissions in one denomination.\<close>

definition commSum :: "'b dist_world \<Rightarrow> string \<Rightarrow> dec" where
  "commSum w d = kv_sum (\<lambda>k c. AmountOf d c) (dw_commissions w)"

definition comms_valid :: "'b dist_world \<Rightarrow> bool" where
  "comms_valid w \<longleftrightarrow> (\<forall>a c. kv_get (dw_commissions w) a = Some c \<longrightarrow> valid_coins c)"

lemma commission_valid: "comms_valid w \<Longrightarrow> valid_coins (GetValidatorAccumulatedCommission w a)"
  by (auto simp: comms_valid_def GetValidatorAccumulatedCommission_def split: option.splits)

text \<open>Writing a commission stores exactly that coin set.\<close>

lemma set_commission:
  assumes "dist_ok E" and "valid_coins c"
  shows "SetValidatorAccumulatedCommission E w a c = w\<lparr>dw_commissions := kv_set a c (dw_commissions w)\<rparr>"
  using zero_coins [OF dist_okD(1) [OF assms(1)] assms(2)]
  by (simp add: SetValidatorAccumulatedCommission_def InitialValidatorAccumulatedCommission_def)

lemma commSum_set:
  "commSum (w\<lparr>dw_commissions := kv_set a c (dw_commissions w)\<rparr>) d =
     commSum w d - AmountOf d (GetValidatorAccumulatedCommission w a) + AmountOf d c"
  by (simp add: commSum_def kv_sum_set GetValidatorAccumulatedCommission_def split: option.splits)

lemma commSum_del:
  "commSum (w\<lparr>dw_commissions := kv_del a (dw_commissions w)\<rparr>) d =
     commSum w d - AmountOf d (GetValidatorAccumulatedCommission w a)"
  by (simp add: commSum_def kv_sum_del GetValidatorAccumulatedCommission_def split: option.splits)

subsection \<open>The payment loop\<close>

text \<open>What a validator receives from a list of payments.\<close>

definition received :: "(validator \<Rightarrow> sys_coins) \<Rightarrow> validator list \<Rightarrow> val_address \<Rightarrow> string \<Rightarrow> dec" where
  "received g vs a d = (\<Sum>v\<leftarrow>vs. if OperatorAddress v = a then AmountOf d (g v) else 0)"

lemma pay_loop:
  assumes E: "dist_ok E" and rem: "valid_coins rem" and g: "\<And>v. v \<in> set vs \<Longrightarrow> valid_coins (g v)"
    and fits: "\<And>d. (\<Sum>v\<leftarrow>vs. AmountOf d (g v)) \<le> AmountOf d rem" and cv: "comms_valid w"
  shows "\<exists>rem' cs. foldE (\<lambda>p v. payValidator E p v (g v)) (rem, w) vs = Inr (rem', w\<lparr>dw_commissions := cs\<rparr>) \<and>
     valid_coins rem' \<and> comms_valid (w\<lparr>dw_commissions := cs\<rparr>) \<and>
     (\<forall>d. AmountOf d rem' = AmountOf d rem - (\<Sum>v\<leftarrow>vs. AmountOf d (g v)) \<and>
        commSum (w\<lparr>dw_commissions := cs\<rparr>) d = commSum w d + (\<Sum>v\<leftarrow>vs. AmountOf d (g v)) \<and>
        (\<forall>a. AmountOf d (GetValidatorAccumulatedCommission (w\<lparr>dw_commissions := cs\<rparr>) a) =
           AmountOf d (GetValidatorAccumulatedCommission w a) + received g vs a d))"
  using rem g fits cv
proof (induction vs arbitrary: rem w)
  case Nil
  then show ?case by (intro exI [of _ rem] exI [of _ "dw_commissions w"]) (simp add: received_def)
next
  case (Cons v vs)
  note C = dist_okD(1) [OF E]
  have gv: "valid_coins (g v)" using Cons.prems(2) by simp
  have rest: "0 \<le> (\<Sum>v\<leftarrow>vs. AmountOf d (g v))" for d
    using Cons.prems(2) valid_nonneg by (intro sum_list_nonneg) auto
  have "AmountOf d (g v) \<le> AmountOf d rem" for d using Cons.prems(3) [of d] rest [of d] by simp
  from sub_coins(3) [OF C Cons.prems(1) gv this] obtain r where r: "SubCoins (dc_coins E) rem (g v) = Some r" by blast
  note r' = sub_coins(1,2) [OF C Cons.prems(1) gv r]
  let ?old = "GetValidatorAccumulatedCommission w (OperatorAddress v)"
  let ?c = "AddCoins (dc_coins E) ?old (g v)"
  note c = add_coins [OF C commission_valid [OF Cons.prems(4), of "OperatorAddress v"] gv]
  let ?w = "w\<lparr>dw_commissions := kv_set (OperatorAddress v) ?c (dw_commissions w)\<rparr>"
  have step: "payValidator E (rem, w) v (g v) = Inr (r, ?w)"
    using r set_commission [OF E c(1)] by (simp add: payValidator_def panicNone_def AllocateTokensToValidator_def)
  have cv: "comms_valid ?w" using Cons.prems(4) c(1) by (auto simp: comms_valid_def)
  have "(\<Sum>v\<leftarrow>vs. AmountOf d (g v)) \<le> AmountOf d r" for d using Cons.prems(3) [of d] r'(2) by simp
  from Cons.IH [OF r'(1) _ this cv] Cons.prems(2) obtain rem' cs where
    IH: "foldE (\<lambda>p v. payValidator E p v (g v)) (r, ?w) vs = Inr (rem', ?w\<lparr>dw_commissions := cs\<rparr>)"
      "valid_coins rem'" "comms_valid (?w\<lparr>dw_commissions := cs\<rparr>)"
      "\<forall>d. AmountOf d rem' = AmountOf d r - (\<Sum>v\<leftarrow>vs. AmountOf d (g v)) \<and>
        commSum (?w\<lparr>dw_commissions := cs\<rparr>) d = commSum ?w d + (\<Sum>v\<leftarrow>vs. AmountOf d (g v)) \<and>
        (\<forall>a. AmountOf d (GetValidatorAccumulatedCommission (?w\<lparr>dw_commissions := cs\<rparr>) a) =
           AmountOf d (GetValidatorAccumulatedCommission ?w a) + received g vs a d)" by auto
  have sum: "commSum ?w d = commSum w d + AmountOf d (g v)" for d using c(2) by (simp add: commSum_set)
  have own: "AmountOf d (GetValidatorAccumulatedCommission ?w a) =
      AmountOf d (GetValidatorAccumulatedCommission w a) + (if OperatorAddress v = a then AmountOf d (g v) else 0)" for d a
    using c(2) by (auto simp: GetValidatorAccumulatedCommission_def)
  show ?case
    using step IH(1-3) IH(4) r'(2) sum own
    by (intro exI [of _ rem'] exI [of _ cs]) (simp add: received_def)
qed

subsection \<open>The two rules\<close>

definition equalReward :: "'b dist_env \<Rightarrow> sys_coins \<Rightarrow> validator list \<Rightarrow> validator \<Rightarrow> sys_coins" where
  "equalReward E rewards vs v =
     MulDecTruncate (dc_coins E) rewards (equalFraction (OneDec (dc_dec E)) vs v)"

definition sharesReward :: "'b dist_env \<Rightarrow> sys_coins \<Rightarrow> validator list \<Rightarrow> validator \<Rightarrow> sys_coins" where
  "sharesReward E rewards vs v =
     MulDecTruncate (dc_coins E) rewards (sharesFraction (OneDec (dc_dec E)) vs v)"

lemma foldl_shares: "foldl (\<lambda>acc v. acc + DelegatorShares v) x vs = x + (\<Sum>v\<leftarrow>vs. DelegatorShares v)"
  by (induction vs arbitrary: x) simp_all

lemma foldE_cong: "(\<And>x s. x \<in> set xs \<Longrightarrow> f s x = g s x) \<Longrightarrow> foldE f s xs = foldE g s xs"
  by (induction xs arbitrary: s) (simp_all cong: bindE_cong)

lemma allocateByEqual_loop:
  assumes E: "dist_ok E" and vs: "unjailedVoters sk votes \<noteq> []"
  shows "allocateByEqual E sk w rewards votes =
     foldE (\<lambda>p v. payValidator E p v (equalReward E rewards (unjailedVoters sk votes) v)) (rewards, w) (unjailedVoters sk votes)"
  using dist_okD(3) [OF E] dist_okD(7) [OF E, of "OneDec (dc_dec E)" "int (length (unjailedVoters sk votes)) * OneDec (dc_dec E)"] vs
  by (simp add: allocateByEqual_def Let_def panicNone_def NewDec_def equalReward_def equalFraction_def)

lemma allocateByShares_loop:
  assumes E: "dist_ok E" and fit: "sharesFit (OneDec (dc_dec E)) (unjailed sk)"
  shows "allocateByShares E sk w rewards =
     foldE (\<lambda>p v. payValidator E p v (sharesReward E rewards (unjailed sk) v)) (rewards, w) (unjailed sk)"
proof -
  let ?t = "\<Sum>v\<leftarrow>unjailed sk. DelegatorShares v"
  have "DecQuoTruncate (dc_dec E) (DelegatorShares v) ?t = Some (sharesFraction (OneDec (dc_dec E)) (unjailed sk) v)"
    if "v \<in> set (unjailed sk)" for v
  proof -
    have "unjailed sk \<noteq> []" using that by auto
    then show ?thesis using that fit dist_okD(7) [OF E] by (simp add: sharesFit_def sharesFraction_def)
  qed
  then show ?thesis
    by (simp add: allocateByShares_def Let_def foldl_shares NewDec_def panicNone_def sharesReward_def cong: foldE_cong)
qed

text \<open>The truncated rewards of a fitting split are coin sets that fit into the whole.\<close>

lemma split_rewards:
  assumes E: "dist_ok E" and rw: "valid_coins rewards" and split: "reward_split fraction fit" and fit: "fit (OneDec (dc_dec E)) vs"
  shows "v \<in> set vs \<Longrightarrow> valid_coins (MulDecTruncate (dc_coins E) rewards (fraction (OneDec (dc_dec E)) vs v))"
    and "(\<Sum>v\<leftarrow>vs. AmountOf d (MulDecTruncate (dc_coins E) rewards (fraction (OneDec (dc_dec E)) vs v))) \<le> AmountOf d rewards"
proof -
  note nn = reward_split.fraction_nonneg [OF split fit]
  show "v \<in> set vs \<Longrightarrow> valid_coins (MulDecTruncate (dc_coins E) rewards (fraction (OneDec (dc_dec E)) vs v))"
    using scale_coins(1) [OF dist_okD(1) [OF E] rw] nn by blast
  have "AmountOf d (MulDecTruncate (dc_coins E) rewards (fraction (OneDec (dc_dec E)) vs v)) =
      AmountOf d rewards * fraction (OneDec (dc_dec E)) vs v div OneDec (dc_dec E)" if "v \<in> set vs" for v
    using scale_coins(2) [OF dist_okD(1) [OF E] rw nn [OF that]] dist_okD(6) [OF E valid_nonneg [OF rw] nn [OF that]] by simp
  then have "(\<Sum>v\<leftarrow>vs. AmountOf d (MulDecTruncate (dc_coins E) rewards (fraction (OneDec (dc_dec E)) vs v))) =
      (\<Sum>v\<leftarrow>vs. AmountOf d rewards * fraction (OneDec (dc_dec E)) vs v div OneDec (dc_dec E))"
    by (intro arg_cong [of _ _ sum_list] map_cong) auto
  also have "\<dots> \<le> AmountOf d rewards"
    using reward_split.rewards_fit [OF split fit valid_nonneg [OF rw]] .
  finally show "(\<Sum>v\<leftarrow>vs. AmountOf d (MulDecTruncate (dc_coins E) rewards (fraction (OneDec (dc_dec E)) vs v))) \<le> AmountOf d rewards" .
qed

text \<open>What one rule does to the accounts: it pays \<open>g\<close> and returns the rest.\<close>

definition paid :: "(validator \<Rightarrow> sys_coins) \<Rightarrow> validator list \<Rightarrow> sys_coins \<Rightarrow> 'b dist_world \<Rightarrow> sys_coins \<Rightarrow> 'b dist_world \<Rightarrow> bool" where
  "paid g vs rewards w rem w' \<longleftrightarrow>
     (\<exists>cs. w' = w\<lparr>dw_commissions := cs\<rparr>) \<and> valid_coins rem \<and> comms_valid w' \<and>
     (\<forall>d. AmountOf d rem = AmountOf d rewards - (\<Sum>v\<leftarrow>vs. AmountOf d (g v)) \<and>
        commSum w' d = commSum w d + (\<Sum>v\<leftarrow>vs. AmountOf d (g v)) \<and>
        (\<forall>a. AmountOf d (GetValidatorAccumulatedCommission w' a) =
           AmountOf d (GetValidatorAccumulatedCommission w a) + received g vs a d))"

lemma allocateByEqual_pays:
  assumes E: "dist_ok E" and rw: "valid_coins rewards" and cv: "comms_valid w" and vs: "unjailedVoters sk votes \<noteq> []"
  shows "\<exists>rem w'. allocateByEqual E sk w rewards votes = Inr (rem, w') \<and>
     paid (equalReward E rewards (unjailedVoters sk votes)) (unjailedVoters sk votes) rewards w rem w'"
proof -
  have "equalFit (OneDec (dc_dec E)) (unjailedVoters sk votes)" using vs dist_okD(3) [OF E] by (simp add: equalFit_def)
  note s = split_rewards [OF E rw by_equal.reward_split_axioms this]
  show ?thesis
    unfolding allocateByEqual_loop [OF E vs] paid_def
    using pay_loop [OF E rw s [folded equalReward_def] cv] by fastforce
qed

lemma allocateByShares_pays:
  assumes E: "dist_ok E" and rw: "valid_coins rewards" and cv: "comms_valid w"
    and fit: "sharesFit (OneDec (dc_dec E)) (unjailed sk)"
  shows "\<exists>rem w'. allocateByShares E sk w rewards = Inr (rem, w') \<and>
     paid (sharesReward E rewards (unjailed sk)) (unjailed sk) rewards w rem w'"
proof -
  note s = split_rewards [OF E rw by_shares.reward_split_axioms fit]
  show ?thesis
    unfolding allocateByShares_loop [OF E fit] paid_def
    using pay_loop [OF E rw s [folded sharesReward_def] cv] by fastforce
qed

end
