(* ===== verification/Dist_Inv.thy ===== *)
theory Dist_Inv
  imports Dist_Alloc
begin

text \<open>
  The invariant of the distribution module and its preservation by every operation: the module
  account holds exactly the community pool and the accumulated commissions. From it follow the
  invariants the code registers, and that the allocation at the beginning of a block never panics
  where its divisors are positive.
\<close>

definition poolOf :: "'b dist_world \<Rightarrow> sys_coins" where
  "poolOf w = (case dw_feePool w of None \<Rightarrow> [] | Some f \<Rightarrow> CommunityPool f)"

definition holdings :: "'b dist_env \<Rightarrow> 'b dist_world \<Rightarrow> bool" where
  "holdings E w \<longleftrightarrow>
     (\<forall>d. AmountOf d (GetDistributionAccount E w) = AmountOf d (poolOf w) + commSum w d)"

definition dist_inv :: "'b dist_env \<Rightarrow> 'b dist_world \<Rightarrow> bool" where
  "dist_inv E w \<longleftrightarrow>
     bank_ok (dc_supply E) (dw_bank w) \<and> dw_feePool w \<noteq> None \<and> valid_coins (poolOf w) \<and> comms_valid w \<and>
     holdings E w \<and> (\<forall>a b. kv_get (dw_withdrawAddrs w) a = Some b \<longrightarrow> b \<noteq> distAddr E) \<and>
     0 \<le> CommunityTax (dw_params w) \<and> CommunityTax (dw_params w) \<le> OneDec (dc_dec E) \<and>
     (\<exists>a. dw_community w = Some a \<and> a \<noteq> distAddr E)"

lemma dist_invD:
  assumes "dist_inv E w"
  shows "bank_ok (dc_supply E) (dw_bank w)" and "\<exists>f. dw_feePool w = Some f \<and> CommunityPool f = poolOf w"
    and "valid_coins (poolOf w)" and "comms_valid w"
    and "AmountOf d (GetDistributionAccount E w) = AmountOf d (poolOf w) + commSum w d"
    and "a \<noteq> distAddr E \<Longrightarrow> GetDelegatorWithdrawAddr w a \<noteq> distAddr E"
    and "\<exists>a. dw_community w = Some a \<and> a \<noteq> distAddr E"
  using assms by (auto simp: dist_inv_def holdings_def poolOf_def GetDelegatorWithdrawAddr_def split: option.splits)

lemmas dist_fields = GetDistributionAccount_def poolOf_def commSum_def comms_valid_def

lemma dist_inv_cong:
  assumes "dist_inv E w" and "bank_ok (dc_supply E) (dw_bank w')" and "dw_feePool w' \<noteq> None" and "valid_coins (poolOf w')"
    and "comms_valid w'" and "holdings E w'" and "dw_withdrawAddrs w' = dw_withdrawAddrs w"
    and "dw_params w' = dw_params w" and "dw_community w' = dw_community w"
  shows "dist_inv E w'"
  using assms by (simp add: dist_inv_def)

subsection \<open>Paying out of the module account\<close>

lemma pay_out:
  assumes E: "dist_ok E" and bank: "bank_ok (dc_supply E) (dw_bank w)" and cs: "valid_coins cs" and a: "a \<noteq> distAddr E"
    and send: "onBank f w (ModuleToAccount (dc_supply E) (dw_bank w) DistModuleName a cs) = Inr w'"
  shows "\<exists>b. w' = w\<lparr>dw_bank := b\<rparr> \<and> bank_ok (dc_supply E) b \<and>
     (\<forall>d. AmountOf d (GetDistributionAccount E w') = AmountOf d (GetDistributionAccount E w) - AmountOf d cs)"
proof -
  from send obtain b where b: "ModuleToAccount (dc_supply E) (dw_bank w) DistModuleName a cs = Inr b" "w' = w\<lparr>dw_bank := b\<rparr>"
    by (auto simp: onBank_def split: sum.splits)
  note t = module_to_account(1) [OF dist_okD(2) [OF E] bank cs b(1)]
  from t a show ?thesis using b(2) transferred_bank_ok [OF t]
    by (auto simp: transferred_def GetDistributionAccount_def)
qed

lemma distributeFromFeePool_inv:
  assumes E: "dist_ok E" and inv: "dist_inv E w" and amt: "valid_coins amount" and a: "a \<noteq> distAddr E"
    and op: "distributeFromFeePool E w amount a = Inr w'"
  shows "dist_inv E w'"
proof -
  from dist_invD(2) [OF inv] obtain f where f: "dw_feePool w = Some f" "CommunityPool f = poolOf w" by blast
  obtain np neg where ss: "SafeSub (dc_coins E) (poolOf w) amount = (np, neg)" by (cases "SafeSub (dc_coins E) (poolOf w) amount")
  from op f ss obtain v where neg: "\<not> neg"
    and v: "onBank DistSupply w (ModuleToAccount (dc_supply E) (dw_bank w) DistModuleName a amount) = Inr v"
    and w': "w' = v\<lparr>dw_feePool := Some (f\<lparr>CommunityPool := np\<rparr>)\<rparr>"
    by (auto simp: distributeFromFeePool_def GetFeePool_def SetFeePool_def res_simps split: if_splits)
  from pay_out [OF E dist_invD(1) [OF inv] amt a v] obtain b where
    b: "v = w\<lparr>dw_bank := b\<rparr>" "bank_ok (dc_supply E) b"
      "\<forall>d. AmountOf d (GetDistributionAccount E v) = AmountOf d (GetDistributionAccount E w) - AmountOf d amount" by blast
  have np: "valid_coins np" "AmountOf d np = AmountOf d (poolOf w) - AmountOf d amount" for d
    using safe_sub_coins(1,2) [OF dist_okD(1) [OF E] dist_invD(3) [OF inv] amt] ss neg by simp_all
  have "holdings E w'"
    using b(3) np(2) dist_invD(5) [OF inv] by (simp add: holdings_def w' b(1) dist_fields)
  with inv b(2) np(1) dist_invD(4) [OF inv] show ?thesis
    by (intro dist_inv_cong [OF inv]) (simp_all add: w' b(1) dist_fields)
qed

lemma WithdrawValidatorCommission_inv:
  assumes E: "dist_ok E" and inv: "dist_inv E w" and a: "a \<noteq> distAddr E"
    and op: "WithdrawValidatorCommission E w a = Inr (w', c)"
  shows "dist_inv E w'"
proof -
  let ?acc = "GetValidatorAccumulatedCommission w a"
  note C = dist_okD(1) [OF E]
  note acc = commission_valid [OF dist_invD(4) [OF inv], of a]
  obtain whole part where tr: "TruncateDecimal (dc_coins E) ?acc = (whole, part)" by (cases "TruncateDecimal (dc_coins E) ?acc")
  note t = truncate_coins [OF C acc, unfolded tr, simplified]
  let ?w = "w\<lparr>dw_commissions := kv_set a part (dw_commissions w)\<rparr>"
  have set: "SetValidatorAccumulatedCommission E w a part = ?w" using set_commission [OF E t(2)] .
  have cv: "comms_valid ?w" using dist_invD(4) [OF inv] t(2) by (auto simp: comms_valid_def)
  have sum: "commSum ?w d = commSum w d - AmountOf d whole" for d using t(3) [of d] by (simp add: commSum_set)
  have "\<exists>b. w' = ?w\<lparr>dw_bank := b\<rparr> \<and> bank_ok (dc_supply E) b \<and>
     (\<forall>d. AmountOf d (GetDistributionAccount E w') = AmountOf d (GetDistributionAccount E w) - AmountOf d whole)"
  proof (cases "CoinsIsZero (dc_coins E) whole")
    case True
    then have "whole = []" using zero_coins [OF C t(1)] by simp
    moreover from op tr set True have "w' = ?w" by (auto simp: WithdrawValidatorCommission_def Let_def res_simps split: if_splits)
    ultimately show ?thesis using dist_invD(1) [OF inv]
      by (intro exI [of _ "dw_bank w"]) (simp add: GetDistributionAccount_def)
  next
    case False
    with op tr set have "onBank (\<lambda>_. ErrSendCoinsFromModuleToAccountFailed) ?w
        (ModuleToAccount (dc_supply E) (dw_bank ?w) DistModuleName (GetDelegatorWithdrawAddr ?w a) whole) = Inr w'"
      by (auto simp: WithdrawValidatorCommission_def Let_def res_simps split: if_splits)
    moreover have "GetDelegatorWithdrawAddr ?w a \<noteq> distAddr E"
      using dist_invD(6) [OF inv a] by (simp add: GetDelegatorWithdrawAddr_def)
    ultimately show ?thesis using pay_out [OF E, of ?w whole] dist_invD(1) [OF inv] t(1)
      by (fastforce simp: GetDistributionAccount_def)
  qed
  then obtain b where b: "w' = ?w\<lparr>dw_bank := b\<rparr>" "bank_ok (dc_supply E) b"
     "\<forall>d. AmountOf d (GetDistributionAccount E w') = AmountOf d (GetDistributionAccount E w) - AmountOf d whole" by blast
  have "holdings E w'"
    using b(3) sum dist_invD(5) [OF inv] by (simp add: holdings_def b(1) dist_fields)
  with b(2) cv inv show ?thesis
    by (intro dist_inv_cong [OF inv]) (simp_all add: b(1) dist_fields dist_inv_def)
qed

lemma SetWithdrawAddr_inv:
  assumes E: "dist_ok E" and inv: "dist_inv E w" and op: "SetWithdrawAddr E w x y = Inr w'"
  shows "dist_inv E w'"
proof -
  from op have w': "w' = w\<lparr>dw_withdrawAddrs := kv_set x y (dw_withdrawAddrs w)\<rparr>" and "\<not> blacklistedAddrs E y"
    by (auto simp: SetWithdrawAddr_def SetDelegatorWithdrawAddr_def split: if_splits)
  with dist_okD(4) [OF E] have "y \<noteq> distAddr E" by blast
  then have "\<forall>a b. kv_get (kv_set x y (dw_withdrawAddrs w)) a = Some b \<longrightarrow> b \<noteq> distAddr E"
    using inv by (simp add: dist_inv_def)
  with inv show ?thesis by (simp add: w' dist_inv_def holdings_def dist_fields)
qed

lemma HandleCommunityPoolSpendProposal_inv:
  assumes E: "dist_ok E" and inv: "dist_inv E w" and amt: "valid_coins (cspAmount p)"
    and op: "HandleCommunityPoolSpendProposal E w p = Inr w'"
  shows "dist_inv E w'"
proof -
  from op have "\<not> blacklistedAddrs E (cspRecipient p)" and d: "distributeFromFeePool E w (cspAmount p) (cspRecipient p) = Inr w'"
    by (auto simp: HandleCommunityPoolSpendProposal_def split: if_splits)
  with dist_okD(4) [OF E] have "cspRecipient p \<noteq> distAddr E" by metis
  from distributeFromFeePool_inv [OF E inv amt this d] show ?thesis .
qed

text \<open>Nobody signs for the module account, which has no key.\<close>

definition dist_msg_ok :: "'b dist_env \<Rightarrow> dist_msg \<Rightarrow> bool" where
  "dist_msg_ok E m = (case m of MsgWithdrawValidatorCommission a \<Rightarrow> a \<noteq> distAddr E | _ \<Rightarrow> True)"

lemma dist_handler_inv:
  assumes "dist_ok E" and "dist_inv E w" and "dist_handler E m w = Inr w'" and "dist_msg_ok E m"
  shows "dist_inv E w'"
  using assms SetWithdrawAddr_inv [OF assms(1,2)] WithdrawValidatorCommission_inv [OF assms(1,2)]
  by (cases m)
    (auto simp: dist_handler_def handleMsgModifyWithdrawAddress_def handleMsgWithdrawValidatorCommission_def
      dist_msg_ok_def res_simps)

subsection \<open>Hooks\<close>

lemma initializeValidator_inv:
  assumes E: "dist_ok E" and inv: "dist_inv E w" and none: "GetValidatorAccumulatedCommission w a = []"
  shows "dist_inv E (initializeValidator E w a)"
proof -
  let ?w = "w\<lparr>dw_commissions := kv_set a [] (dw_commissions w)\<rparr>"
  have eq: "initializeValidator E w a = ?w"
    using set_commission [OF E, of "[]"] by (simp add: initializeValidator_def InitialValidatorAccumulatedCommission_def)
  have "commSum ?w d = commSum w d" for d by (simp add: commSum_set none)
  then have "holdings E ?w" using dist_invD(5) [OF inv] by (simp add: holdings_def dist_fields)
  moreover have "comms_valid ?w" using dist_invD(4) [OF inv] by (auto simp: comms_valid_def)
  ultimately show ?thesis unfolding eq using inv
    by (intro dist_inv_cong [OF inv]) (simp_all add: dist_inv_def dist_fields)
qed

lemma distAfterValidatorRemoved_inv:
  assumes E: "dist_ok E" and inv: "dist_inv E w" and a: "a \<noteq> distAddr E"
    and op: "distAfterValidatorRemoved E w a = Inr w'"
  shows "dist_inv E w'" and "GetValidatorAccumulatedCommission w' a = []"
proof -
  let ?acc = "GetValidatorAccumulatedCommission w a"
  note C = dist_okD(1) [OF E]
  note acc = commission_valid [OF dist_invD(4) [OF inv], of a]
  from dist_invD(2) [OF inv] obtain f where f: "dw_feePool w = Some f" "CommunityPool f = poolOf w" by blast
  obtain whole part where tr: "TruncateDecimal (dc_coins E) ?acc = (whole, part)" by (cases "TruncateDecimal (dc_coins E) ?acc")
  note t = truncate_coins [OF C acc, unfolded tr, simplified]
  let ?p = "AddCoins (dc_coins E) (poolOf w) part"
  note pool = add_coins [OF C dist_invD(3) [OF inv] t(2)]
  have "\<exists>b g. w' = w\<lparr>dw_bank := b, dw_feePool := Some g, dw_commissions := kv_del a (dw_commissions w)\<rparr> \<and>
     bank_ok (dc_supply E) b \<and> valid_coins (CommunityPool g) \<and>
     (\<forall>d. AmountOf d (GetCoins (dc_supply E) b (distAddr E)) - AmountOf d (CommunityPool g) =
        AmountOf d (GetDistributionAccount E w) - AmountOf d (poolOf w) - AmountOf d ?acc)"
  proof (cases "?acc = []")
    case True
    then have "w' = w\<lparr>dw_commissions := kv_del a (dw_commissions w)\<rparr>"
      using op zero_coins [OF C acc] by (simp add: distAfterValidatorRemoved_def deleteValidatorAccumulatedCommission_def)
    then show ?thesis using f dist_invD(1,3) [OF inv] True
      by (intro exI [of _ "dw_bank w"] exI [of _ f]) (simp add: GetDistributionAccount_def)
  next
    case False
    let ?f = "if part = [] then f else f\<lparr>CommunityPool := ?p\<rparr>"
    let ?w = "w\<lparr>dw_feePool := Some ?f\<rparr>"
    have vf: "valid_coins (CommunityPool ?f)" "AmountOf d (CommunityPool ?f) = AmountOf d (poolOf w) + AmountOf d part" for d
      using pool f dist_invD(3) [OF inv] by simp_all
    have first: "(if \<not> CoinsIsZero (dc_coins E) part then
        bindE (GetFeePool w) (\<lambda>feePool. Inr (SetFeePool w (feePool\<lparr>CommunityPool := AddCoins (dc_coins E) (CommunityPool feePool) part\<rparr>)))
      else Inr w) = (Inr ?w :: dist_error + 'a dist_world)"
      using zero_coins [OF C t(2)] f by (simp add: GetFeePool_def SetFeePool_def)
    from op False zero_coins [OF C acc] tr first obtain v where
      v: "(if \<not> CoinsIsZero (dc_coins E) whole then
           onBank DistPanic ?w (ModuleToAccount (dc_supply E) (dw_bank ?w) DistModuleName (GetDelegatorWithdrawAddr ?w a) whole)
         else Inr ?w) = Inr v" and w': "w' = v\<lparr>dw_commissions := kv_del a (dw_commissions v)\<rparr>"
      by (auto simp: distAfterValidatorRemoved_def Let_def res_simps deleteValidatorAccumulatedCommission_def)
    have "\<exists>b. v = ?w\<lparr>dw_bank := b\<rparr> \<and> bank_ok (dc_supply E) b \<and>
       (\<forall>d. AmountOf d (GetDistributionAccount E v) = AmountOf d (GetDistributionAccount E w) - AmountOf d whole)"
    proof (cases "whole = []")
      case True
      then have "v = ?w" using v zero_coins [OF C t(1)] by simp
      with True show ?thesis using dist_invD(1) [OF inv]
        by (intro exI [of _ "dw_bank w"]) (simp add: GetDistributionAccount_def)
    next
      case False
      then have "onBank DistPanic ?w (ModuleToAccount (dc_supply E) (dw_bank ?w) DistModuleName (GetDelegatorWithdrawAddr ?w a) whole) = Inr v"
        using v zero_coins [OF C t(1)] by simp
      moreover have "GetDelegatorWithdrawAddr ?w a \<noteq> distAddr E"
        using dist_invD(6) [OF inv a] by (simp add: GetDelegatorWithdrawAddr_def)
      ultimately show ?thesis using pay_out [OF E, of ?w whole] dist_invD(1) [OF inv] t(1)
        by (fastforce simp: GetDistributionAccount_def)
    qed
    then obtain b where b: "v = ?w\<lparr>dw_bank := b\<rparr>" "bank_ok (dc_supply E) b"
       "\<forall>d. AmountOf d (GetDistributionAccount E v) = AmountOf d (GetDistributionAccount E w) - AmountOf d whole" by blast
    then show ?thesis using w' vf
      by (intro exI [of _ b] exI [of _ ?f]) (simp add: GetDistributionAccount_def t(3) [symmetric])
  qed
  then obtain b g where w': "w' = w\<lparr>dw_bank := b, dw_feePool := Some g, dw_commissions := kv_del a (dw_commissions w)\<rparr>"
    and b: "bank_ok (dc_supply E) b" "valid_coins (CommunityPool g)"
     "\<And>d. AmountOf d (GetCoins (dc_supply E) b (distAddr E)) - AmountOf d (CommunityPool g) =
        AmountOf d (GetDistributionAccount E w) - AmountOf d (poolOf w) - AmountOf d ?acc" by blast
  have sum: "commSum w' d = commSum w d - AmountOf d ?acc" for d
    using commSum_del [of a w d] by (simp add: w' commSum_def)
  have "holdings E w'"
    unfolding holdings_def
  proof
    fix d
    show "AmountOf d (GetDistributionAccount E w') = AmountOf d (poolOf w') + commSum w' d"
      using b(3) [of d] dist_invD(5) [OF inv, of d] sum [of d] by (simp add: w' GetDistributionAccount_def poolOf_def)
  qed
  moreover have "comms_valid w'" using dist_invD(4) [OF inv] by (auto simp: comms_valid_def w')
  ultimately show "dist_inv E w'" using b by (intro dist_inv_cong [OF inv]) (simp_all add: w' poolOf_def)
  show "GetValidatorAccumulatedCommission w' a = []" by (simp add: w' GetValidatorAccumulatedCommission_def)
qed

subsection \<open>Allocation\<close>

text \<open>When the divisors of the allocation are positive.\<close>

definition alloc_ready :: "'b dist_env \<Rightarrow> staking_view \<Rightarrow> vote_info list \<Rightarrow> bool" where
  "alloc_ready E sk votes \<longleftrightarrow> unjailedVoters sk votes \<noteq> [] \<and> sharesFit (OneDec (dc_dec E)) (unjailed sk)"

text \<open>The parts of the fees, as \<open>AllocateTokens\<close> computes them.\<close>

definition feesOf :: "'b dist_env \<Rightarrow> 'b dist_world \<Rightarrow> sys_coins" where
  "feesOf E w = GetCoins (dc_supply E) (dw_bank w) (feeAddr E)"

definition feesToValidators :: "'b dist_env \<Rightarrow> 'b dist_world \<Rightarrow> sys_coins" where
  "feesToValidators E w = MulDecTruncate (dc_coins E) (feesOf E w) (OneDec (dc_dec E) - CommunityTax (dw_params w))"

definition feeByEqual :: "'b dist_env \<Rightarrow> 'b dist_world \<Rightarrow> sys_coins" where
  "feeByEqual E w = MulDecTruncate (dc_coins E) (feesToValidators E w) (valPortion (dc_dec E))"

definition feeByVote :: "'b dist_env \<Rightarrow> 'b dist_world \<Rightarrow> sys_coins" where
  "feeByVote E w = MulDecTruncate (dc_coins E) (feesToValidators E w) (votePortion (dc_dec E))"

lemma portions:
  assumes "0 < (one :: int)"
  shows "0 \<le> 20 * one div 10 ^ 2" and "0 \<le> 80 * one div 10 ^ 2" and "20 * one div 10 ^ 2 + 80 * one div 10 ^ 2 \<le> one"
proof -
  have "0 \<le> 20 * one div 100" "0 \<le> 80 * one div 100" "20 * one div 100 + 80 * one div 100 \<le> one" using assms by linarith+
  then show "0 \<le> 20 * one div 10 ^ 2" and "0 \<le> 80 * one div 10 ^ 2" and "20 * one div 10 ^ 2 + 80 * one div 10 ^ 2 \<le> one"
    by simp_all
qed

lemma floor_parts:
  assumes "0 < (one :: int)" and "0 \<le> x" and "0 \<le> a" and "0 \<le> b" and "a + b \<le> one"
  shows "x * a div one + x * b div one \<le> x"
proof -
  have "one * (x * a div one) \<le> x * a" "one * (x * b div one) \<le> x * b"
    using assms(1) by (simp_all add: mult.commute [of one] minus_mod_eq_div_mult [symmetric])
  moreover have "x * a + x * b \<le> x * one"
    using mult_left_mono [OF assms(5,2)] by (simp add: distrib_left)
  ultimately have "one * (x * a div one + x * b div one) \<le> one * x" by (simp add: distrib_left mult.commute [of one x])
  with assms(1) show ?thesis by simp
qed

lemma floor_part:
  assumes "0 < (one :: int)" and "0 \<le> x" and "0 \<le> a" and "a \<le> one"
  shows "x * a div one \<le> x"
  using floor_parts [of one x a 0] assms by simp

lemma fee_parts:
  assumes E: "dist_ok E" and inv: "dist_inv E w"
  shows "valid_coins (feesOf E w)" and "valid_coins (feeByEqual E w)" and "valid_coins (feeByVote E w)"
    and "AmountOf d (feeByEqual E w) + AmountOf d (feeByVote E w) \<le> AmountOf d (feesOf E w)"
proof -
  note C = dist_okD(1) [OF E] and one = dist_okD(3) [OF E] and mul = dist_okD(6) [OF E]
  let ?one = "OneDec (dc_dec E)" and ?t = "OneDec (dc_dec E) - CommunityTax (dw_params w)"
  show fv: "valid_coins (feesOf E w)" using dist_invD(1) [OF inv] by (simp add: bank_ok_def feesOf_def)
  have t: "0 \<le> ?t" "?t \<le> ?one" using inv by (simp_all add: dist_inv_def)
  note p = portions [OF one]
  have v: "valid_coins (feesToValidators E w)" using scale_coins(1) [OF C fv t(1)] by (simp add: feesToValidators_def)
  have va: "AmountOf d (feesToValidators E w) = AmountOf d (feesOf E w) * ?t div ?one"
    using scale_coins(2) [OF C fv t(1)] mul [OF valid_nonneg [OF fv] t(1)] by (simp add: feesToValidators_def)
  show "valid_coins (feeByEqual E w)" "valid_coins (feeByVote E w)"
    using scale_coins(1) [OF C v] p by (simp_all add: feeByEqual_def feeByVote_def valPortion_def votePortion_def NewDecWithPrec_def)
  have "AmountOf d (feeByEqual E w) + AmountOf d (feeByVote E w) \<le> AmountOf d (feesToValidators E w)"
    using scale_coins(2) [OF C v] mul [OF valid_nonneg [OF v]] p floor_parts [OF one valid_nonneg [OF v]]
    by (simp add: feeByEqual_def feeByVote_def valPortion_def votePortion_def NewDecWithPrec_def)
  also have "\<dots> \<le> AmountOf d (feesOf E w)" using va floor_part [OF one valid_nonneg [OF fv] t] by simp
  finally show "AmountOf d (feeByEqual E w) + AmountOf d (feeByVote E w) \<le> AmountOf d (feesOf E w)" .
qed

text \<open>Moving the fees into the module account.\<close>

lemma collect_fees:
  assumes E: "dist_ok E" and inv: "dist_inv E w"
  shows "\<exists>b. onBank DistPanic w (ModuleToModule (dc_supply E) (dw_bank w) (feeCollectorName E) DistModuleName (feesOf E w)) =
       Inr (w\<lparr>dw_bank := b\<rparr>) \<and> bank_ok (dc_supply E) b \<and>
     (\<forall>d. AmountOf d (GetCoins (dc_supply E) b (distAddr E)) = AmountOf d (GetDistributionAccount E w) + AmountOf d (feesOf E w))"
proof -
  note S = dist_okD(2) [OF E] and bk = dist_invD(1) [OF inv] and fv = fee_parts(1) [OF E inv]
  from module_to_module(2) [OF S bk fv, of "feeCollectorName E" DistModuleName] obtain b where
    b: "ModuleToModule (dc_supply E) (dw_bank w) (feeCollectorName E) DistModuleName (feesOf E w) = Inr b"
    by (auto simp: feesOf_def)
  note t = module_to_module(1) [OF S bk fv b]
  show ?thesis using b t transferred_bank_ok [OF t] dist_okD(5) [OF E]
    by (auto simp: onBank_def transferred_def GetDistributionAccount_def)
qed

text \<open>The final transfer of the community pool.\<close>

lemma settle_pool:
  assumes E: "dist_ok E" and inv: "dist_inv E w" and a: "a \<noteq> distAddr E"
  shows "\<exists>w'. logError w (distributeFromFeePool E w (poolOf w) a) = Inr w' \<and> dist_inv E w' \<and>
     dw_commissions w' = dw_commissions w"
proof (cases "distributeFromFeePool E w (poolOf w) a")
  case (Inr w')
  then have "dw_commissions w' = dw_commissions w"
    by (auto simp: distributeFromFeePool_def GetFeePool_def SetFeePool_def onBank_def res_simps
        split: option.splits if_splits prod.splits sum.splits)
  with distributeFromFeePool_inv [OF E inv dist_invD(3) [OF inv] a Inr] Inr show ?thesis by (simp add: logError_def)
next
  case (Inl e)
  from dist_invD(2) [OF inv] obtain f where "dw_feePool w = Some f" by blast
  with Inl have "\<forall>m. e \<noteq> DistPanic m"
    by (auto simp: distributeFromFeePool_def GetFeePool_def onBank_def bindE_eq_Inl
        split: if_splits prod.splits sum.splits)
  with Inl inv show ?thesis by (auto simp: logError_def split: dist_error.splits)
qed

end
