(* ===== verification/Dist_Reach.thy ===== *)
theory Dist_Reach
  imports Dist_Inv
begin

text \<open>
  The distribution module at work: what the allocation of a block's fees does to every validator's
  commission, the block boundary, and the module as a state machine whose reachable states satisfy
  the invariants the code registers.
\<close>

subsection \<open>One allocation\<close>

lemma AllocateTokens_spec:
  assumes E: "dist_ok E" and inv: "dist_inv E w" and fees: "feesOf E w \<noteq> []" and pw: "pow \<noteq> 0"
    and rdy: "alloc_ready E sk votes"
  shows "\<exists>w'. AllocateTokens E sk w pow proposer votes = Inr w' \<and> dist_inv E w' \<and>
     (\<forall>a d. AmountOf d (GetValidatorAccumulatedCommission w' a) = AmountOf d (GetValidatorAccumulatedCommission w a) +
        received (equalReward E (feeByEqual E w) (unjailedVoters sk votes)) (unjailedVoters sk votes) a d +
        received (sharesReward E (feeByVote E w) (unjailed sk)) (unjailed sk) a d)"
proof -
  note C = dist_okD(1) [OF E] and parts = fee_parts [OF E inv]
  let ?V = "unjailedVoters sk votes" and ?U = "unjailed sk"
  let ?eq = "feeByEqual E w" and ?vt = "feeByVote E w"
  from collect_fees [OF E inv] obtain b where b: "onBank DistPanic w (ModuleToModule (dc_supply E) (dw_bank w) (feeCollectorName E) DistModuleName (feesOf E w)) =
       Inr (w\<lparr>dw_bank := b\<rparr>)" "bank_ok (dc_supply E) b"
     "\<And>d. AmountOf d (GetCoins (dc_supply E) b (distAddr E)) = AmountOf d (GetDistributionAccount E w) + AmountOf d (feesOf E w)" by blast
  from dist_invD(2) [OF inv] obtain f where f: "dw_feePool w = Some f" "CommunityPool f = poolOf w" by blast
  from dist_invD(7) [OF inv] obtain ca where ca: "dw_community w = Some ca" "ca \<noteq> distAddr E" by blast
  note both = add_coins [OF C parts(2,3)]
  have "AmountOf d (AddCoins (dc_coins E) ?eq ?vt) \<le> AmountOf d (feesOf E w)" for d using both(2) parts(4) by simp
  from sub_coins(3) [OF C parts(1) both(1) this] obtain c0 where c0: "SubCoins (dc_coins E) (feesOf E w) (AddCoins (dc_coins E) ?eq ?vt) = Some c0" by blast
  note c0' = sub_coins(1,2) [OF C parts(1) both(1) c0]
  let ?w1 = "w\<lparr>dw_bank := b\<rparr>"
  have cv: "comms_valid ?w1" using dist_invD(4) [OF inv] by (simp add: comms_valid_def)
  have V: "?V \<noteq> []" and U: "sharesFit (OneDec (dc_dec E)) ?U" using rdy by (simp_all add: alloc_ready_def)
  from allocateByEqual_pays [OF E parts(2) cv V] obtain r2 w2 where
    2: "allocateByEqual E sk ?w1 ?eq votes = Inr (r2, w2)" "paid (equalReward E ?eq ?V) ?V ?eq ?w1 r2 w2" by blast
  then have "comms_valid w2" by (simp add: paid_def)
  from allocateByShares_pays [OF E parts(3) this U] obtain r3 w3 where
    3: "allocateByShares E sk w2 ?vt = Inr (r3, w3)" "paid (sharesReward E ?vt ?U) ?U ?vt w2 r3 w3" by blast
  from 2(2) 3(2) obtain cs where w3: "w3 = ?w1\<lparr>dw_commissions := cs\<rparr>" by (auto simp: paid_def)
  have rems: "valid_coins r2" "valid_coins r3" "comms_valid w3" using 2(2) 3(2) by (simp_all add: paid_def)
  note r23 = add_coins [OF C rems(1,2)]
  let ?c = "AddCoins (dc_coins E) c0 (AddCoins (dc_coins E) r2 r3)"
  note c = add_coins [OF C c0'(1) r23(1)]
  have flow: "AmountOf d ?c + commSum w3 d = AmountOf d (feesOf E w) + commSum w d" for d
  proof -
    have "commSum ?w1 d = commSum w d" by (simp add: commSum_def)
    then show ?thesis using 2(2) 3(2) c(2) r23(2) c0'(2) both(2) by (simp add: paid_def)
  qed
  let ?f = "if ?c = [] then f else f\<lparr>CommunityPool := AddCoins (dc_coins E) (CommunityPool f) ?c\<rparr>"
  let ?w4 = "w3\<lparr>dw_feePool := Some ?f\<rparr>"
  note p = add_coins [OF C dist_invD(3) [OF inv] c(1)]
  have pool: "poolOf ?w4 = CommunityPool ?f" by (simp add: poolOf_def)
  have vp: "valid_coins (poolOf ?w4)" "AmountOf d (poolOf ?w4) = AmountOf d (poolOf w) + AmountOf d ?c" for d
    using p f dist_invD(3) [OF inv] unfolding pool by simp_all
  have "holdings E ?w4"
    unfolding holdings_def
  proof
    fix d
    have "commSum ?w4 d = commSum w3 d" "GetDistributionAccount E ?w4 = GetCoins (dc_supply E) b (distAddr E)"
      by (simp_all add: commSum_def GetDistributionAccount_def w3)
    then show "AmountOf d (GetDistributionAccount E ?w4) = AmountOf d (poolOf ?w4) + commSum ?w4 d"
      using b(3) [of d] dist_invD(5) [OF inv, of d] flow [of d] vp(2) [of d] by simp
  qed
  then have inv4: "dist_inv E ?w4"
    using b(2) vp(1) rems(3) by (intro dist_inv_cong [OF inv]) (simp_all add: w3 comms_valid_def)
  from settle_pool [OF E inv4 ca(2)] obtain w5 where
    5: "logError ?w4 (distributeFromFeePool E ?w4 (poolOf ?w4) ca) = Inr w5" "dist_inv E w5" "dw_commissions w5 = dw_commissions ?w4" by blast
  have vals: "MulDecTruncate (dc_coins E) (feesOf E w) (OneDec (dc_dec E) - CommunityTax (dw_params ?w1)) = feesToValidators E w"
    by (simp add: feesToValidators_def)
  have pooled: "(if \<not> CoinsIsZero (dc_coins E) ?c
      then (f\<lparr>CommunityPool := AddCoins (dc_coins E) (CommunityPool f) ?c\<rparr>,
            SetFeePool w3 (f\<lparr>CommunityPool := AddCoins (dc_coins E) (CommunityPool f) ?c\<rparr>))
      else (f, w3)) = (?f, ?w4)"
    using zero_coins [OF C c(1)] f(1) by (simp add: SetFeePool_def w3)
  have "GetCommunityAddress ?w4 = Inr ca" using ca(1) by (simp add: GetCommunityAddress_def w3)
  note last = this 5(1) [unfolded pool]
  have "CoinsEmpty (dc_coins E) (feesOf E w) = False" "GetFeePool ?w1 = Inr f"
    using fees empty_coins [OF C] f(1) by (simp_all add: GetFeePool_def)
  note first = this b(1) c0
  have "AllocateTokens E sk w pow proposer votes = Inr w5"
    unfolding AllocateTokens_def Let_def feesOf_def [symmetric]
    by (simp only: first if_False bindE_Inr pw vals feeByEqual_def [symmetric] feeByVote_def [symmetric] panicNone_def option.case
        2(1) 3(1) prod.case pooled last)
  moreover have "AmountOf d (GetValidatorAccumulatedCommission w5 a) = AmountOf d (GetValidatorAccumulatedCommission w a) +
        received (equalReward E ?eq ?V) ?V a d + received (sharesReward E ?vt ?U) ?U a d" for a d
  proof -
    have "GetValidatorAccumulatedCommission w5 a = GetValidatorAccumulatedCommission w3 a"
      "GetValidatorAccumulatedCommission ?w1 a = GetValidatorAccumulatedCommission w a"
      using 5(3) by (simp_all add: GetValidatorAccumulatedCommission_def)
    then show ?thesis using 2(2) 3(2) by (simp add: paid_def)
  qed
  ultimately show ?thesis using 5(2) by blast
qed

lemma AllocateTokens_zero_power:
  assumes E: "dist_ok E" and inv: "dist_inv E w" and fees: "feesOf E w \<noteq> []"
  shows "\<exists>w'. AllocateTokens E sk w 0 proposer votes = Inr w' \<and> dist_inv E w'"
proof -
  note C = dist_okD(1) [OF E]
  from collect_fees [OF E inv] obtain b where b: "onBank DistPanic w (ModuleToModule (dc_supply E) (dw_bank w) (feeCollectorName E) DistModuleName (feesOf E w)) =
       Inr (w\<lparr>dw_bank := b\<rparr>)" "bank_ok (dc_supply E) b"
     "\<And>d. AmountOf d (GetCoins (dc_supply E) b (distAddr E)) = AmountOf d (GetDistributionAccount E w) + AmountOf d (feesOf E w)" by blast
  from dist_invD(2) [OF inv] obtain f where f: "dw_feePool w = Some f" "CommunityPool f = poolOf w" by blast
  note p = add_coins [OF C dist_invD(3) [OF inv] fee_parts(1) [OF E inv]]
  let ?w = "w\<lparr>dw_bank := b, dw_feePool := Some (f\<lparr>CommunityPool := AddCoins (dc_coins E) (CommunityPool f) (feesOf E w)\<rparr>)\<rparr>"
  have "AllocateTokens E sk w 0 proposer votes = Inr ?w"
    using b(1) f fees empty_coins [OF C]
    by (simp add: AllocateTokens_def Let_def feesOf_def [symmetric] GetFeePool_def SetFeePool_def)
  moreover have pool: "poolOf ?w = AddCoins (dc_coins E) (poolOf w) (feesOf E w)" unfolding f(2) [symmetric] by (simp add: poolOf_def)
  have "holdings E ?w"
    unfolding holdings_def pool
  proof
    fix d
    have "commSum ?w d = commSum w d" "GetDistributionAccount E ?w = GetCoins (dc_supply E) b (distAddr E)"
      by (simp_all add: commSum_def GetDistributionAccount_def)
    then show "AmountOf d (GetDistributionAccount E ?w) = AmountOf d (AddCoins (dc_coins E) (poolOf w) (feesOf E w)) + commSum ?w d"
      using b(3) [of d] dist_invD(5) [OF inv, of d] p(2) [of d] by simp
  qed
  then have "dist_inv E ?w"
    using b(2) p(1) dist_invD(4) [OF inv] unfolding pool [symmetric]
    by (intro dist_inv_cong [OF inv]) (simp_all add: comms_valid_def)
  ultimately show ?thesis by blast
qed

definition alloc_safe :: "'b dist_env \<Rightarrow> staking_view \<Rightarrow> 64 word \<Rightarrow> vote_info list \<Rightarrow> 'b dist_world \<Rightarrow> bool" where
  "alloc_safe E sk pow votes w \<longleftrightarrow> feesOf E w = [] \<or> pow = 0 \<or> alloc_ready E sk votes"

lemma AllocateTokens_total:
  assumes E: "dist_ok E" and inv: "dist_inv E w" and safe: "alloc_safe E sk pow votes w"
  shows "\<exists>w'. AllocateTokens E sk w pow proposer votes = Inr w' \<and> dist_inv E w'"
proof (cases "feesOf E w = []")
  case True
  then have "CoinsEmpty (dc_coins E) (feesOf E w) = True" using empty_coins [OF dist_okD(1) [OF E]] by simp
  then have "AllocateTokens E sk w pow proposer votes = Inr w"
    unfolding AllocateTokens_def Let_def feesOf_def [symmetric] by (simp only: if_True)
  with inv show ?thesis by blast
next
  case False
  then show ?thesis
    using AllocateTokens_zero_power [OF E inv False] AllocateTokens_spec [OF E inv False] safe
    by (cases "pow = 0") (simp_all add: alloc_safe_def, blast)
qed

text \<open>The two divisions: when no previous voter is left, and when the remaining validators have no shares.\<close>

lemma no_voters_panics:
  assumes E: "dist_ok E" and inv: "dist_inv E w" and fees: "feesOf E w \<noteq> []" and pw: "pow \<noteq> 0"
    and none: "unjailedVoters sk votes = []"
  shows "AllocateTokens E sk w pow proposer votes = Inl (DistPanic ''division by zero'')"
proof -
  note C = dist_okD(1) [OF E] and parts = fee_parts [OF E inv]
  from collect_fees [OF E inv] obtain b where b: "onBank DistPanic w (ModuleToModule (dc_supply E) (dw_bank w) (feeCollectorName E) DistModuleName (feesOf E w)) =
       Inr (w\<lparr>dw_bank := b\<rparr>)" by blast
  from dist_invD(2) [OF inv] obtain f where f: "dw_feePool w = Some f" by blast
  let ?eq = "feeByEqual E w" and ?vt = "feeByVote E w" and ?w1 = "w\<lparr>dw_bank := b\<rparr>"
  note both = add_coins [OF C parts(2,3)]
  have "AmountOf d (AddCoins (dc_coins E) ?eq ?vt) \<le> AmountOf d (feesOf E w)" for d using both(2) parts(4) by simp
  from sub_coins(3) [OF C parts(1) both(1) this] obtain c0 where c0: "SubCoins (dc_coins E) (feesOf E w) (AddCoins (dc_coins E) ?eq ?vt) = Some c0" by blast
  have vals: "MulDecTruncate (dc_coins E) (feesOf E w) (OneDec (dc_dec E) - CommunityTax (dw_params ?w1)) = feesToValidators E w"
    by (simp add: feesToValidators_def)
  have panic: "allocateByEqual E sk ?w1 ?eq votes = Inl (DistPanic ''division by zero'')"
    using dist_okD(8) [OF E] by (simp add: allocateByEqual_def Let_def none NewDec_def panicNone_def)
  have "CoinsEmpty (dc_coins E) (feesOf E w) = False" "GetFeePool ?w1 = Inr f"
    using fees empty_coins [OF C] f(1) by (simp_all add: GetFeePool_def)
  note first = this b(1) c0
  show ?thesis
    unfolding AllocateTokens_def Let_def feesOf_def [symmetric]
    by (simp only: first if_False bindE_Inr bindE_Inl pw vals feeByEqual_def [symmetric] feeByVote_def [symmetric] panicNone_def
        option.case panic)
qed

lemma shares_zero_panics:
  assumes E: "dist_ok E" and vs: "unjailed sk \<noteq> []" and z: "(\<Sum>v\<leftarrow>unjailed sk. DelegatorShares v) = 0"
  shows "allocateByShares E sk w rewards = Inl (DistPanic ''division by zero'')"
  using vs z dist_okD(8) [OF E]
  by (cases "unjailed sk") (simp_all add: allocateByShares_def Let_def foldl_shares NewDec_def panicNone_def)

definition unjailed_nonneg :: "staking_view \<Rightarrow> bool" where
  "unjailed_nonneg sk \<longleftrightarrow> (\<forall>v \<in> set (unjailed sk). 0 \<le> DelegatorShares v)"

lemma AllocateTokens_inv:
  assumes E: "dist_ok E" and inv: "dist_inv E w" and nn: "unjailed_nonneg sk"
    and op: "AllocateTokens E sk w pow proposer votes = Inr w'"
  shows "dist_inv E w'"
proof (cases "alloc_safe E sk pow votes w")
  case True
  from AllocateTokens_total [OF E inv True] op show ?thesis by (metis sum.inject(2))
next
  case False
  then have f: "feesOf E w \<noteq> []" and p: "pow \<noteq> 0" and nr: "\<not> alloc_ready E sk votes" by (simp_all add: alloc_safe_def)
  have V: "unjailedVoters sk votes \<noteq> []" using no_voters_panics [OF E inv f p, of sk votes proposer] op by auto
  have "0 \<le> (\<Sum>v\<leftarrow>unjailed sk. DelegatorShares v)" using nn by (auto simp: unjailed_nonneg_def intro!: sum_list_nonneg)
  moreover have "\<not> sharesFit (OneDec (dc_dec E)) (unjailed sk)" using nr V by (simp add: alloc_ready_def)
  ultimately have z: "unjailed sk \<noteq> []" "(\<Sum>v\<leftarrow>unjailed sk. DelegatorShares v) = 0"
    using nn dist_okD(3) [OF E] by (auto simp: sharesFit_def unjailed_nonneg_def)
  then have "allocateByShares E sk v rw = Inl (DistPanic ''division by zero'')" for v rw using shares_zero_panics [OF E] by blast
  moreover have "CoinsEmpty (dc_coins E) (feesOf E w) = False" using f empty_coins [OF dist_okD(1) [OF E]] by simp
  ultimately show ?thesis using op p
    unfolding AllocateTokens_def Let_def feesOf_def [symmetric] by (auto simp only: if_False bindE_eq_Inr bindE_Inl split: prod.splits)
qed

subsection \<open>The block boundary and the state machine\<close>

lemma distBeginBlocker_inv:
  assumes "dist_ok E" and "dist_inv E w" and "unjailed_nonneg sk" and "distBeginBlocker E sk h votes proposer w = Inr w'"
  shows "dist_inv E w'"
proof -
  from assms(4) obtain v where w': "w' = SetPreviousProposerConsAddr v proposer" and v: "v = w \<or>
      (\<exists>pp. AllocateTokens E sk w (foldl (\<lambda>acc v. acc + votePower v) 0 votes) pp votes = Inr v)"
    by (auto simp: distBeginBlocker_def Let_def res_simps split: if_splits)
  have "dist_inv E v" using v AllocateTokens_inv [OF assms(1-3)] assms(2) by blast
  then show ?thesis by (simp add: w' SetPreviousProposerConsAddr_def dist_inv_def holdings_def dist_fields)
qed

text \<open>A genesis the module accepts, on a bank whose distribution account is empty or already holds what
  the genesis says.\<close>

definition genesis_ok :: "'b dist_env \<Rightarrow> 'b dist_world \<Rightarrow> dist_genesis \<Rightarrow> bool" where
  "genesis_ok E w gs \<longleftrightarrow>
     distParamsValidateBasic (dc_dec E) (dgParams gs) = None \<and> valid_coins (CommunityPool (dgFeePool gs)) \<and>
     distinct (map vacValidatorAddress (dgValidatorAccumulatedCommissions gs)) \<and>
     (\<forall>r \<in> set (dgValidatorAccumulatedCommissions gs). valid_coins (vacAccumulated r)) \<and>
     (\<forall>i \<in> set (dgDelegatorWithdrawInfos gs). dwiWithdrawAddress i \<noteq> distAddr E) \<and>
     dgCommunityAddress gs \<noteq> distAddr E \<and> bank_ok (dc_supply E) (dw_bank w) \<and>
     dw_withdrawAddrs w = kv_empty \<and> dw_commissions w = kv_empty \<and>
     (GetDistributionAccount E w = [] \<or>
      (\<forall>d. AmountOf d (GetDistributionAccount E w) = AmountOf d (CommunityPool (dgFeePool gs)) +
         (\<Sum>r\<leftarrow>dgValidatorAccumulatedCommissions gs. AmountOf d (vacAccumulated r))))"

lemma genesis_withdraw_addrs:
  "foldl (\<lambda>w dwi. SetDelegatorWithdrawAddr w (dwiDelegatorAddress dwi) (dwiWithdrawAddress dwi)) w is =
     w\<lparr>dw_withdrawAddrs := foldl (\<lambda>m dwi. kv_set (dwiDelegatorAddress dwi) (dwiWithdrawAddress dwi) m) (dw_withdrawAddrs w) is\<rparr>"
  by (induction "is" arbitrary: w) (simp_all add: SetDelegatorWithdrawAddr_def)

lemma genesis_withdraw_get:
  "kv_get (foldl (\<lambda>m dwi. kv_set (dwiDelegatorAddress dwi) (dwiWithdrawAddress dwi) m) m is) a = Some b \<Longrightarrow>
     kv_get m a = Some b \<or> b \<in> dwiWithdrawAddress ` set is"
  by (induction "is" arbitrary: m) (fastforce split: if_splits)+

lemma genesis_commissions:
  assumes E: "dist_ok E" and "\<forall>r \<in> set rs. valid_coins (vacAccumulated r)" and "distinct (map vacValidatorAddress rs)"
    and "\<forall>r \<in> set rs. kv_get (dw_commissions w) (vacValidatorAddress r) = None" and "comms_valid w" and "valid_coins h"
  shows "\<exists>cs h'. foldl (\<lambda>(w, h) acc. (SetValidatorAccumulatedCommission E w (vacValidatorAddress acc) (vacAccumulated acc),
                 AddCoins (dc_coins E) h (vacAccumulated acc))) (w, h) rs = (w\<lparr>dw_commissions := cs\<rparr>, h') \<and>
     cs = foldl (\<lambda>m r. kv_set (vacValidatorAddress r) (vacAccumulated r) m) (dw_commissions w) rs \<and>
     comms_valid (w\<lparr>dw_commissions := cs\<rparr>) \<and> valid_coins h' \<and>
     (\<forall>d. commSum (w\<lparr>dw_commissions := cs\<rparr>) d = commSum w d + (\<Sum>r\<leftarrow>rs. AmountOf d (vacAccumulated r)) \<and>
          AmountOf d h' = AmountOf d h + (\<Sum>r\<leftarrow>rs. AmountOf d (vacAccumulated r)))"
  using assms(2-)
proof (induction rs arbitrary: w h)
  case Nil
  then show ?case by (intro exI [of _ "dw_commissions w"] exI [of _ h]) simp
next
  case (Cons r rs)
  let ?w = "w\<lparr>dw_commissions := kv_set (vacValidatorAddress r) (vacAccumulated r) (dw_commissions w)\<rparr>"
  let ?h = "AddCoins (dc_coins E) h (vacAccumulated r)"
  have v: "valid_coins (vacAccumulated r)" using Cons.prems(1) by simp
  note s = set_commission [OF E v, of w "vacValidatorAddress r"] and a = add_coins [OF dist_okD(1) [OF E] Cons.prems(5) v]
  have none: "GetValidatorAccumulatedCommission w (vacValidatorAddress r) = []"
    using Cons.prems(3) by (simp add: GetValidatorAccumulatedCommission_def)
  have "comms_valid ?w" using Cons.prems(4) v by (auto simp: comms_valid_def)
  moreover have "\<forall>r' \<in> set rs. kv_get (dw_commissions ?w) (vacValidatorAddress r') = None"
  proof
    fix r'
    assume r': "r' \<in> set rs"
    then have "vacValidatorAddress r' \<in> vacValidatorAddress ` set rs" by (rule imageI)
    then have "vacValidatorAddress r' \<noteq> vacValidatorAddress r" using Cons.prems(2) by auto
    with r' Cons.prems(3) show "kv_get (dw_commissions ?w) (vacValidatorAddress r') = None" by simp
  qed
  ultimately obtain cs h' where
    IH: "foldl (\<lambda>(w, h) acc. (SetValidatorAccumulatedCommission E w (vacValidatorAddress acc) (vacAccumulated acc),
                 AddCoins (dc_coins E) h (vacAccumulated acc))) (?w, ?h) rs = (?w\<lparr>dw_commissions := cs\<rparr>, h')"
     "cs = foldl (\<lambda>m r. kv_set (vacValidatorAddress r) (vacAccumulated r) m) (dw_commissions ?w) rs"
     "comms_valid (?w\<lparr>dw_commissions := cs\<rparr>)" "valid_coins h'"
     "\<forall>d. commSum (?w\<lparr>dw_commissions := cs\<rparr>) d = commSum ?w d + (\<Sum>r\<leftarrow>rs. AmountOf d (vacAccumulated r)) \<and>
          AmountOf d h' = AmountOf d ?h + (\<Sum>r\<leftarrow>rs. AmountOf d (vacAccumulated r))"
    using Cons.IH [of ?w ?h] Cons.prems(1,2) a(1) by auto
  have "commSum ?w d = commSum w d + AmountOf d (vacAccumulated r)" for d by (simp add: commSum_set none)
  with IH s a(2) show ?case by (intro exI [of _ cs] exI [of _ h']) simp
qed

lemma distInitGenesis_inv:
  assumes E: "dist_ok E" and g: "genesis_ok E w gs"
  shows "dist_inv E (distInitGenesis E w gs)"
proof -
  note C = dist_okD(1) [OF E]
  let ?cs = "dgValidatorAccumulatedCommissions gs" and ?is = "dgDelegatorWithdrawInfos gs"
  let ?m = "foldl (\<lambda>m dwi. kv_set (dwiDelegatorAddress dwi) (dwiWithdrawAddress dwi) m) (dw_withdrawAddrs w) ?is"
  let ?w1 = "w\<lparr>dw_community := Some (dgCommunityAddress gs), dw_feePool := Some (dgFeePool gs), dw_params := dgParams gs,
     dw_proposer := Some (dgPreviousProposer gs), dw_withdrawAddrs := ?m\<rparr>"
  have g': "valid_coins (CommunityPool (dgFeePool gs))" "dw_commissions w = kv_empty" "dw_withdrawAddrs w = kv_empty"
    "bank_ok (dc_supply E) (dw_bank w)" using g by (simp_all add: genesis_ok_def)
  have "comms_valid ?w1" using g' by (simp add: comms_valid_def)
  with genesis_commissions [OF E, of ?cs ?w1 "[]"] g obtain cs h where
    h: "foldl (\<lambda>(w, h) acc. (SetValidatorAccumulatedCommission E w (vacValidatorAddress acc) (vacAccumulated acc),
                 AddCoins (dc_coins E) h (vacAccumulated acc))) (?w1, []) ?cs = (?w1\<lparr>dw_commissions := cs\<rparr>, h)"
      "comms_valid (?w1\<lparr>dw_commissions := cs\<rparr>)" "valid_coins h"
      "\<And>d. commSum (?w1\<lparr>dw_commissions := cs\<rparr>) d = (\<Sum>r\<leftarrow>?cs. AmountOf d (vacAccumulated r))"
      "\<And>d. AmountOf d h = (\<Sum>r\<leftarrow>?cs. AmountOf d (vacAccumulated r))"
    by (auto simp: genesis_ok_def commSum_def)
  let ?w2 = "?w1\<lparr>dw_commissions := cs\<rparr>" and ?h = "AddCoins (dc_coins E) h (CommunityPool (dgFeePool gs))"
  note hold = add_coins [OF C h(3) g'(1)]
  have acc: "GetDistributionAccount E ?w2 = GetDistributionAccount E w" by (simp add: GetDistributionAccount_def)
  have av: "valid_coins (GetDistributionAccount E w)" using g'(4) by (simp add: GetDistributionAccount_def bank_ok_def)
  let ?b = "SetModuleCoins (dc_supply E) (dw_bank w) DistModuleName ?h"
  note set = set_module_coins [OF dist_okD(2) [OF E], of "dw_bank w" DistModuleName ?h]
  have res: "distInitGenesis E w gs = (if GetDistributionAccount E w = [] then ?w2\<lparr>dw_bank := ?b\<rparr> else ?w2)"
    using h(1) acc zero_coins [OF C av]
    by (simp add: distInitGenesis_def Let_def SetCommunityAddress_def SetFeePool_def SetPreviousProposerConsAddr_def
        genesis_withdraw_addrs)
  have m: "\<forall>a b. kv_get ?m a = Some b \<longrightarrow> b \<noteq> distAddr E"
    using genesis_withdraw_get [of "dw_withdrawAddrs w" ?is] g g'(3) by (fastforce simp: genesis_ok_def)
  have tax: "0 \<le> CommunityTax (dgParams gs)" "CommunityTax (dgParams gs) \<le> OneDec (dc_dec E)"
    using g by (auto simp: genesis_ok_def distParamsValidateBasic_def split: if_splits)
  have sum: "commSum (?w2\<lparr>dw_bank := b\<rparr>) d = (\<Sum>r\<leftarrow>?cs. AmountOf d (vacAccumulated r))" for b d
    using h(4) by (simp add: commSum_def)
  have pool: "poolOf ?w2 = CommunityPool (dgFeePool gs)" "poolOf (?w2\<lparr>dw_bank := ?b\<rparr>) = CommunityPool (dgFeePool gs)"
    by (simp_all add: poolOf_def)
  show ?thesis
  proof (cases "GetDistributionAccount E w = []")
    case True
    have "bank_ok (dc_supply E) ?b" using g'(4) hold(1) by (simp add: bank_ok_def set)
    moreover have "holdings E (?w2\<lparr>dw_bank := ?b\<rparr>)"
      using hold(2) h(5) sum pool(2) by (simp add: holdings_def GetDistributionAccount_def set)
    moreover have "comms_valid (?w2\<lparr>dw_bank := ?b\<rparr>)" using h(2) by (simp add: comms_valid_def)
    ultimately show ?thesis using True m tax g g'(1) pool(2) unfolding res by (simp add: dist_inv_def genesis_ok_def)
  next
    case False
    with g have "holdings E ?w2" using h(4) pool(1) acc by (simp add: holdings_def genesis_ok_def)
    then show ?thesis using False m tax g g'(1) h(2) pool(1) unfolding res by (simp add: dist_inv_def genesis_ok_def)
  qed
qed

text \<open>Steps of the module: blocks, messages, passed proposals, the hooks the staking module calls, and
  checked changes of the parameters. A validator is created when no commission is stored for it.\<close>

inductive dist_reachable :: "'b dist_env \<Rightarrow> 'b dist_world \<Rightarrow> bool" for E where
  genesis: "genesis_ok E w gs \<Longrightarrow> dist_reachable E (distInitGenesis E w gs)"
| begin_block: "dist_reachable E w \<Longrightarrow> unjailed_nonneg sk \<Longrightarrow> distBeginBlocker E sk h votes proposer w = Inr w' \<Longrightarrow>
    dist_reachable E w'"
| deliver: "dist_reachable E w \<Longrightarrow> dist_msg_ok E m \<Longrightarrow> dist_handler E m w = Inr w' \<Longrightarrow> dist_reachable E w'"
| proposal: "dist_reachable E w \<Longrightarrow> cspValidateBasic (dc_coins E) va p = None \<Longrightarrow>
    NewCommunityPoolSpendProposalHandler E w (ContentCommunityPoolSpend p) = Inr w' \<Longrightarrow> dist_reachable E w'"
| created: "dist_reachable E w \<Longrightarrow> GetValidatorAccumulatedCommission w a = [] \<Longrightarrow> V a = Some v \<Longrightarrow> OperatorAddress v = a \<Longrightarrow>
    distAfterValidatorCreated E V w a = Inr w' \<Longrightarrow> dist_reachable E w'"
| removed: "dist_reachable E w \<Longrightarrow> a \<noteq> distAddr E \<Longrightarrow> distAfterValidatorRemoved E w a = Inr w' \<Longrightarrow> dist_reachable E w'"
| set_params: "dist_reachable E w \<Longrightarrow> validateCommunityTax (dc_dec E) (Some (CommunityTax p)) = None \<Longrightarrow>
    dist_reachable E (w\<lparr>dw_params := p\<rparr>)"

lemma dist_reachable_inv:
  assumes E: "dist_ok E" and "dist_reachable E w"
  shows "dist_inv E w"
  using assms(2)
proof induction
  case (genesis w gs)
  then show ?case by (rule distInitGenesis_inv [OF E])
next
  case (begin_block w sk h votes proposer w')
  then show ?case using distBeginBlocker_inv [OF E] by blast
next
  case (deliver w m w')
  then show ?case using dist_handler_inv [OF E] by blast
next
  case (proposal w va p w')
  then have "valid_coins (cspAmount p)"
    using checked_coins [OF dist_okD(1) [OF E]] by (auto simp: cspValidateBasic_def split: option.splits if_splits)
  with proposal HandleCommunityPoolSpendProposal_inv [OF E] show ?case by (simp add: NewCommunityPoolSpendProposalHandler_def)
next
  case (created w a V v w')
  then show ?case using initializeValidator_inv [OF E created.IH, of a]
    by (auto simp: distAfterValidatorCreated_def panicNone_def)
next
  case (removed w a w')
  then show ?case using distAfterValidatorRemoved_inv(1) [OF E] by blast
next
  case (set_params w p)
  then show ?case
    by (auto simp: dist_inv_def holdings_def dist_fields validateCommunityTax_def split: if_splits)
qed

subsection \<open>The registered invariants\<close>

lemma foldl_coins:
  assumes C: "coins_ok A C" and "\<forall>e \<in> set es. valid_coins (snd e)" and "valid_coins acc"
  shows "valid_coins (foldl (\<lambda>acc (a, c). AddCoins C acc c) acc es) \<and>
     (\<forall>d. AmountOf d (foldl (\<lambda>acc (a, c). AddCoins C acc c) acc es) = AmountOf d acc + (\<Sum>(a, c)\<leftarrow>es. AmountOf d c))"
  using assms(2-)
proof (induction es arbitrary: acc)
  case (Cons e es)
  obtain a c where e: "e = (a, c)" by (cases e)
  note p = add_coins [OF C Cons.prems(2), of c]
  from Cons.IH [of "AddCoins C acc c"] p Cons.prems(1) show ?case by (simp add: e)
qed simp

lemma coinsEqual_iff: "coinsEqual a b \<longleftrightarrow> (\<forall>d. AmountOf d a = AmountOf d b)"
proof
  assume c: "coinsEqual a b"
  show "\<forall>d. AmountOf d a = AmountOf d b"
  proof
    fix d
    show "AmountOf d a = AmountOf d b"
      using c by (cases "d \<in> set (map Denom (a @ b))") (auto simp: coinsEqual_def list_all_iff AmountOf_absent_denom)
  qed
qed (simp add: coinsEqual_def list_all_iff)

lemma module_account_holds:
  assumes E: "dist_ok E" and inv: "dist_inv E w"
  shows "distModuleAccountInvariant E w = Inr False"
proof -
  from dist_invD(2) [OF inv] obtain f where f: "dw_feePool w = Some f" "CommunityPool f = poolOf w" by blast
  let ?t = "foldl (\<lambda>acc (addr, c). AddCoins (dc_coins E) acc c) [] (kv_list (dw_commissions w))"
  have "\<forall>e \<in> set (kv_list (dw_commissions w)). valid_coins (snd e)"
    using dist_invD(4) [OF inv] by (auto simp: comms_valid_def kv_in_list)
  from foldl_coins [OF dist_okD(1) [OF E] this valid_coins_Nil] have
    t: "valid_coins ?t" "\<And>d. AmountOf d ?t = commSum w d" by (simp_all add: commSum_def kv_sum_def)
  have "AmountOf d (AddCoins (dc_coins E) (poolOf w) ?t) = AmountOf d (GetDistributionAccount E w)" for d
    using add_coins(2) [OF dist_okD(1) [OF E] dist_invD(3) [OF inv] t(1)] t(2) dist_invD(5) [OF inv, of d] by simp
  then have "coinsEqual (GetDistributionAccount E w) (AddCoins (dc_coins E) (poolOf w) ?t)" by (simp add: coinsEqual_iff)
  then show ?thesis unfolding distModuleAccountInvariant_def Let_def GetFeePoolCommunityCoins_def GetFeePool_def f(1)
    by (simp add: f(2))
qed

lemma nonnegative_holds:
  assumes "dist_ok E" and "dist_inv E w"
  shows "\<not> NonNegativeCommissionsInvariant E w"
proof -
  have "\<not> IsAnyNegative (dc_coins E) c" if "(a, c) \<in> set (kv_list (dw_commissions w))" for a c
    using that valid_not_negative [OF dist_okD(1) [OF assms(1)]] dist_invD(4) [OF assms(2)]
    by (auto simp: comms_valid_def kv_in_list)
  then show ?thesis by (auto simp: NonNegativeCommissionsInvariant_def filter_empty_conv)
qed

text \<open>Transfers out of a module account that has the funds succeed.\<close>

definition sends_succeed :: "'b dist_env \<Rightarrow> bool" where
  "sends_succeed E \<longleftrightarrow> (\<forall>b m a cs. bank_ok (dc_supply E) b \<longrightarrow> valid_coins cs \<longrightarrow>
     (\<forall>d. AmountOf d cs \<le> AmountOf d (GetCoins (dc_supply E) b (GetModuleAddress (dc_supply E) m))) \<longrightarrow>
     (\<exists>b'. ModuleToAccount (dc_supply E) b m a cs = Inr b'))"

lemma commission_covered:
  assumes "dist_inv E w"
  shows "AmountOf d (GetValidatorAccumulatedCommission w a) \<le> AmountOf d (GetDistributionAccount E w)"
proof -
  have pos: "0 \<le> AmountOf d c" if "kv_get (dw_commissions w) k = Some c" for k c
    using that dist_invD(4) [OF assms] valid_nonneg by (auto simp: comms_valid_def)
  have "AmountOf d (GetValidatorAccumulatedCommission w a) \<le> commSum w d"
  proof (cases "kv_get (dw_commissions w) a")
    case None
    then show ?thesis using kv_sum_nonneg [of "dw_commissions w" "\<lambda>k c. AmountOf d c"] pos
      by (simp add: commSum_def GetValidatorAccumulatedCommission_def)
  next
    case (Some c)
    then show ?thesis using kv_sum_ge [of "dw_commissions w" "\<lambda>k c. AmountOf d c" a c] pos
      by (simp add: commSum_def GetValidatorAccumulatedCommission_def)
  qed
  also have "\<dots> \<le> AmountOf d (GetDistributionAccount E w)"
    using dist_invD(5) [OF assms, of d] valid_nonneg [OF dist_invD(3) [OF assms], of d] by simp
  finally show ?thesis .
qed

lemma withdraw_succeeds:
  assumes E: "dist_ok E" and send: "sends_succeed E" and inv: "dist_inv E w"
    and some: "GetValidatorAccumulatedCommission w a \<noteq> []"
  shows "\<exists>w' c. WithdrawValidatorCommission E w a = Inr (w', c)"
proof -
  note C = dist_okD(1) [OF E]
  let ?acc = "GetValidatorAccumulatedCommission w a"
  note acc = commission_valid [OF dist_invD(4) [OF inv], of a]
  obtain whole part where tr: "TruncateDecimal (dc_coins E) ?acc = (whole, part)" by (cases "TruncateDecimal (dc_coins E) ?acc")
  note t = truncate_coins [OF C acc, unfolded tr, simplified]
  have "AmountOf d whole \<le> AmountOf d (GetCoins (dc_supply E) (dw_bank w) (distAddr E))" for d
    using commission_covered [OF inv, of d a] t(3) [of d] valid_nonneg [OF t(2), of d] by (simp add: GetDistributionAccount_def)
  with send dist_invD(1) [OF inv] t(1) have "\<exists>b'. ModuleToAccount (dc_supply E) (dw_bank w) DistModuleName x whole = Inr b'" for x
    unfolding sends_succeed_def by blast
  then obtain b' where "ModuleToAccount (dc_supply E) (dw_bank w) DistModuleName
      (GetDelegatorWithdrawAddr (w\<lparr>dw_commissions := kv_set a part (dw_commissions w)\<rparr>) a) whole = Inr b'" by blast
  then show ?thesis using some zero_coins [OF C acc] set_commission [OF E t(2)]
    by (simp add: WithdrawValidatorCommission_def Let_def tr onBank_def)
qed

lemma can_withdraw_loop:
  assumes E: "dist_ok E" and send: "sends_succeed E" and "dist_inv E w" and "\<forall>v \<in> set vs. OperatorAddress v \<noteq> distAddr E"
  shows "\<exists>w'. foldl (canWithdrawStep E) (w, n) vs = (w', n)"
  using assms(3-)
proof (induction vs arbitrary: w)
  case (Cons v vs)
  note acc = commission_valid [OF dist_invD(4) [OF Cons.prems(1)], of "OperatorAddress v"]
  show ?case
  proof (cases "GetValidatorAccumulatedCommission w (OperatorAddress v) = []")
    case True
    then have "canWithdrawStep E (w, n) v = (w, n)"
      using zero_coins [OF dist_okD(1) [OF E] acc] by (simp add: canWithdrawStep_def Let_def)
    with Cons.IH [OF Cons.prems(1)] Cons.prems(2) show ?thesis by simp
  next
    case False
    from withdraw_succeeds [OF E send Cons.prems(1) False] obtain w' c where
      w': "WithdrawValidatorCommission E w (OperatorAddress v) = Inr (w', c)" by blast
    then have "canWithdrawStep E (w, n) v = (w', n)"
      using False zero_coins [OF dist_okD(1) [OF E] acc] by (simp add: canWithdrawStep_def Let_def)
    moreover have "dist_inv E w'" using WithdrawValidatorCommission_inv [OF E Cons.prems(1) _ w'] Cons.prems(2) by simp
    ultimately show ?thesis using Cons.IH [of w'] Cons.prems(2) by simp
  qed
qed simp

subsection \<open>A concrete module\<close>

definition dist_env0 :: "(acc_address \<Rightarrow> sys_coins) dist_env" where
  "dist_env0 = \<lparr>dc_dec = dec18, dc_coins = coins0, dc_supply = supply0, feeCollectorName = ''fee_collector'',
     blacklistedAddrs = (\<lambda>a. a = GetModuleAddress supply0 DistModuleName), StartBlockHeight = 0\<rparr>"

lemma dist_env0_ok: "dist_ok dist_env0"
proof -
  have "GetModuleAddress supply0 ''fee_collector'' \<noteq> GetModuleAddress supply0 DistModuleName"
    by (rule notI, drule arg_cong [of _ _ length]) (simp add: supply0_def DistModuleName_def)
  then show ?thesis
    by (simp add: dist_ok_def dist_env0_def coins0_ok supply0_ok dec18_mul_truncates dec18_quo_truncates)
qed

lemma dist_env0_sends: "sends_succeed dist_env0"
  by (auto simp: sends_succeed_def dist_env0_def supply0_def sendCoins_def covered_iff Let_def)

definition okt :: "dec \<Rightarrow> sys_coins" where
  "okt n = [\<lparr>Denom = ''okt'', Amount = n\<rparr>]"

definition dist_init :: "(acc_address \<Rightarrow> sys_coins) dist_world" where
  "dist_init = \<lparr>dw_bank = (\<lambda>a. if a = feeAddr dist_env0 then okt (10 ^ 19) else []), dw_feePool = None, dw_proposer = None,
     dw_withdrawAddrs = kv_empty, dw_commissions = kv_empty, dw_community = None, dw_params = DefaultDistParams dec18\<rparr>"

definition dist_start :: "(acc_address \<Rightarrow> sys_coins) dist_world" where
  "dist_start = distInitGenesis dist_env0 dist_init (DefaultDistGenesis dec18)"

lemma dist_start_reachable: "dist_reachable dist_env0 dist_start"
  unfolding dist_start_def
proof (rule genesis)
  have ne: "feeAddr dist_env0 \<noteq> distAddr dist_env0" using dist_okD(5) [OF dist_env0_ok] .
  have "distAddr dist_env0 \<noteq> []" by (simp add: dist_env0_def supply0_def DistModuleName_def)
  with ne show "genesis_ok dist_env0 dist_init (DefaultDistGenesis dec18)"
    by (simp add: genesis_ok_def DefaultDistGenesis_def distParamsValidateBasic_def DefaultDistParams_def NewDecWithPrec_def
        dist_env0_def dec18_def InitialFeePool_def dist_init_def bank_ok_def supply0_def okt_def valid_coins_def
        GetDistributionAccount_def)
qed

lemma dist_start_fees: "feesOf dist_env0 dist_start = okt (10 ^ 19)"
proof -
  have ne: "distAddr dist_env0 \<noteq> feeAddr dist_env0" using dist_okD(5) [OF dist_env0_ok] by simp
  have "dw_bank dist_start (feeAddr dist_env0) = okt (10 ^ 19)"
    using ne by (simp add: dist_start_def distInitGenesis_def DefaultDistGenesis_def Let_def SetCommunityAddress_def SetFeePool_def
        SetPreviousProposerConsAddr_def dist_env0_def supply0_def dist_init_def)
  then show ?thesis by (simp add: feesOf_def dist_env0_def supply0_def)
qed

definition dist_val :: validator where
  "dist_val = (NewValidator (replicate 20 1) [2] (NewDescription ''m'' [] [] []) (10 ^ 18))\<lparr>DelegatorShares := 10 ^ 18\<rparr>"

definition dist_view :: staking_view where
  "dist_view = \<lparr>ValidatorByConsAddr = (\<lambda>a. if a = [2] then Some dist_val else None), IteratedValidators = [dist_val]\<rparr>"

lemma dist_view_ready: "alloc_ready dist_env0 dist_view [\<lparr>voteAddress = [2], votePower = 1\<rparr>]"
  by (simp add: alloc_ready_def unjailedVoters_def unjailed_def dist_view_def dist_val_def NewValidator_def sharesFit_def
      dist_env0_def dec18_def map_filter_simps)

subsection \<open>Properties\<close>

text \<open>C7: The distribution module is always solvent. From any accepted genesis, after any sequence of
  blocks, withdrawals, changes of withdraw addresses, community pool proposals, validators created and removed and
  parameter changes, the module account holds, in every denomination, exactly the community pool plus
  all accumulated commissions, and no commission is negative: the two invariants the module registers
  are not broken.\<close>

theorem distribution_solvent:
  assumes "dist_ok E" and "dist_reachable E w"
  shows "distModuleAccountInvariant E w = Inr False \<and> \<not> NonNegativeCommissionsInvariant E w"
  using module_account_holds [OF assms(1) dist_reachable_inv [OF assms]]
    nonnegative_holds [OF assms(1) dist_reachable_inv [OF assms]] by blast

theorem distribution_solvent_witness:
  "dist_reachable dist_env0 dist_start \<and> distModuleAccountInvariant dist_env0 dist_start = Inr False"
  using distribution_solvent [OF dist_env0_ok dist_start_reachable] dist_start_reachable by blast

text \<open>C8: What the allocation of a block's fees pays. When fees were collected, votes were cast, some voter is
  still known and not jailed and the unjailed validators have shares, \<open>AllocateTokens\<close> succeeds, and the
  commission of every validator grows by exactly its two parts: the truncated equal part of the fifth of the
  fees after tax for each of its votes, and the truncated part by shares of the other four fifths;
  nobody else's commission changes.\<close>

theorem AllocateTokens_pays:
  assumes "dist_ok E" and "dist_reachable E w" and "feesOf E w \<noteq> []" and "pow \<noteq> 0" and "alloc_ready E sk votes"
  shows "\<exists>w'. AllocateTokens E sk w pow proposer votes = Inr w' \<and>
     (\<forall>a d. AmountOf d (GetValidatorAccumulatedCommission w' a) = AmountOf d (GetValidatorAccumulatedCommission w a) +
        received (equalReward E (feeByEqual E w) (unjailedVoters sk votes)) (unjailedVoters sk votes) a d +
        received (sharesReward E (feeByVote E w) (unjailed sk)) (unjailed sk) a d)"
  using AllocateTokens_spec [OF assms(1) dist_reachable_inv [OF assms(1,2)] assms(3-5)] by blast

theorem AllocateTokens_pays_witness:
  "\<exists>w'. AllocateTokens dist_env0 dist_view dist_start 1 [] [\<lparr>voteAddress = [2], votePower = 1\<rparr>] = Inr w'"
proof -
  have "feesOf dist_env0 dist_start \<noteq> []" by (simp add: dist_start_fees okt_def)
  from AllocateTokens_pays [OF dist_env0_ok dist_start_reachable this, of 1 dist_view] dist_view_ready show ?thesis
    by (metis zero_neq_one)
qed

text \<open>C26: The begin blocker does not panic in a reachable state when the divisors are positive: fees that
  cannot be split are the only way it fails. In particular no subtraction of coins in the
  allocation goes below zero, however the truncations fall.\<close>

theorem distBeginBlocker_succeeds:
  assumes "dist_ok E" and "dist_reachable E w" and "dw_proposer w \<noteq> None"
    and "alloc_safe E sk (foldl (\<lambda>acc v. acc + votePower v) 0 votes) votes w"
  shows "\<exists>w'. distBeginBlocker E sk h votes proposer w = Inr w'"
proof -
  from assms(3) obtain pp where "dw_proposer w = Some pp" by blast
  moreover from AllocateTokens_total [OF assms(1) dist_reachable_inv [OF assms(1,2)] assms(4), of pp] obtain v where
    "AllocateTokens E sk w (foldl (\<lambda>acc v. acc + votePower v) 0 votes) pp votes = Inr v" by blast
  ultimately show ?thesis by (simp add: distBeginBlocker_def Let_def GetPreviousProposerConsAddr_def)
qed

theorem distBeginBlocker_succeeds_witness:
  "\<exists>w'. distBeginBlocker dist_env0 dist_view 5 [\<lparr>voteAddress = [2], votePower = 1\<rparr>] [3] dist_start = Inr w'"
proof (rule distBeginBlocker_succeeds [OF dist_env0_ok dist_start_reachable])
  show "dw_proposer dist_start \<noteq> None"
    by (simp add: dist_start_def distInitGenesis_def DefaultDistGenesis_def Let_def SetCommunityAddress_def SetFeePool_def
        SetPreviousProposerConsAddr_def)
  show "alloc_safe dist_env0 dist_view (foldl (\<lambda>acc v. acc + votePower v) 0 [\<lparr>voteAddress = [2], votePower = 1\<rparr>])
      [\<lparr>voteAddress = [2], votePower = 1\<rparr>] dist_start"
    using dist_view_ready by (simp add: alloc_safe_def)
qed

text \<open>C27: The chain halts when every validator that signed the previous block is unknown or jailed while fees
  were collected: \<open>allocateByEqual\<close> divides one by the number of remaining voters, and the division by
  zero panics in the begin blocker.\<close>

theorem no_voter_left_panics:
  assumes "dist_ok E" and "dist_reachable E w" and "feesOf E w \<noteq> []" and "pow \<noteq> 0"
    and "unjailedVoters sk votes = []"
  shows "AllocateTokens E sk w pow proposer votes = Inl (DistPanic ''division by zero'')"
  using no_voters_panics [OF assms(1) dist_reachable_inv [OF assms(1,2)] assms(3-5)] .

theorem no_voter_left_panics_witness:
  "AllocateTokens dist_env0 dist_view dist_start 1 [] [\<lparr>voteAddress = [7], votePower = 1\<rparr>] =
     Inl (DistPanic ''division by zero'')"
proof (rule no_voter_left_panics [OF dist_env0_ok dist_start_reachable])
  show "feesOf dist_env0 dist_start \<noteq> []" by (simp add: dist_start_fees okt_def)
  show "unjailedVoters dist_view [\<lparr>voteAddress = [7], votePower = 1\<rparr>] = []"
    by (simp add: unjailedVoters_def dist_view_def map_filter_simps)
qed simp

text \<open>C28: Every accumulated commission can be withdrawn. In a reachable state, with transfers that succeed
  when the funds are there, the module's \<open>can-withdraw\<close> invariant is not broken: the withdrawals of all
  validators one after the other succeed.\<close>

theorem commissions_withdrawable:
  assumes "dist_ok E" and "sends_succeed E" and "dist_reachable E w"
    and "\<forall>v \<in> set (IteratedValidators sk). OperatorAddress v \<noteq> distAddr E"
  shows "\<not> CanWithdrawInvariant E sk w"
  using can_withdraw_loop [OF assms(1,2) dist_reachable_inv [OF assms(1,3)] assms(4), of 0]
  by (auto simp: CanWithdrawInvariant_def)

theorem commissions_withdrawable_witness:
  "\<not> CanWithdrawInvariant dist_env0 dist_view dist_start"
proof (rule commissions_withdrawable [OF dist_env0_ok dist_env0_sends dist_start_reachable])
  have "length (OperatorAddress dist_val) \<noteq> length (distAddr dist_env0)"
    by (simp add: dist_val_def NewValidator_def dist_env0_def supply0_def DistModuleName_def)
  then show "\<forall>v \<in> set (IteratedValidators dist_view). OperatorAddress v \<noteq> distAddr dist_env0"
    by (auto simp: dist_view_def)
qed

text \<open>The genesis export is complete: importing what \<open>ExportGenesis\<close> returns into empty stores
  restores the module's whole store, record by record: the fee pool, the parameters, the previous proposer, the
  community address, every withdraw address and every accumulated commission.\<close>

theorem dist_genesis_roundtrip:
  assumes "dist_ok E" and "dist_reachable E w" and "distExportGenesis w = Inr gs"
    and "dw_withdrawAddrs w0 = kv_empty" and "dw_commissions w0 = kv_empty"
  shows "(distInitGenesis E w0 gs)\<lparr>dw_bank := b\<rparr> = w\<lparr>dw_bank := b\<rparr>"
proof -
  note inv = dist_reachable_inv [OF assms(1,2)]
  from assms(3) obtain f c p where fcp: "dw_feePool w = Some f" "dw_community w = Some c" "dw_proposer w = Some p"
    and gs: "gs = \<lparr>dgParams = dw_params w, dgFeePool = f,
       dgDelegatorWithdrawInfos = map (\<lambda>(del, addr). \<lparr>dwiDelegatorAddress = del, dwiWithdrawAddress = addr\<rparr>) (kv_list (dw_withdrawAddrs w)),
       dgPreviousProposer = p,
       dgValidatorAccumulatedCommissions = map (\<lambda>(addr, c). \<lparr>vacValidatorAddress = addr, vacAccumulated = c\<rparr>) (kv_list (dw_commissions w)),
       dgCommunityAddress = c\<rparr>"
    by (auto simp: distExportGenesis_def GetFeePool_def GetCommunityAddress_def GetPreviousProposerConsAddr_def Let_def res_simps
        split: option.splits)
  let ?rs = "map (\<lambda>(addr, c). \<lparr>vacValidatorAddress = addr, vacAccumulated = c\<rparr>) (kv_list (dw_commissions w))"
  let ?is = "map (\<lambda>(del, addr). \<lparr>dwiDelegatorAddress = del, dwiWithdrawAddress = addr\<rparr>) (kv_list (dw_withdrawAddrs w))"
  have addrs: "foldl (\<lambda>m dwi. kv_set (dwiDelegatorAddress dwi) (dwiWithdrawAddress dwi) m) kv_empty ?is = dw_withdrawAddrs w"
    by (simp add: foldl_map case_prod_unfold kv_rebuild)
  have comms: "foldl (\<lambda>m r. kv_set (vacValidatorAddress r) (vacAccumulated r) m) kv_empty ?rs = dw_commissions w"
    by (simp add: foldl_map case_prod_unfold kv_rebuild)
  let ?w1 = "w0\<lparr>dw_community := Some c, dw_feePool := Some f, dw_params := dw_params w, dw_proposer := Some p,
     dw_withdrawAddrs := dw_withdrawAddrs w\<rparr>"
  have d: "distinct (map vacValidatorAddress ?rs)" using kv_keys_distinct [of "dw_commissions w"] by (simp add: comp_def case_prod_unfold)
  have v: "\<forall>r \<in> set ?rs. valid_coins (vacAccumulated r)"
    using dist_invD(4) [OF inv] by (auto simp: comms_valid_def kv_in_list)
  have "comms_valid ?w1" "\<forall>r \<in> set ?rs. kv_get (dw_commissions ?w1) (vacValidatorAddress r) = None"
    using assms(5) by (simp_all add: comms_valid_def)
  from genesis_commissions [OF assms(1) v d this(2,1) valid_coins_Nil] obtain h where
    "foldl (\<lambda>(w, h) acc. (SetValidatorAccumulatedCommission E w (vacValidatorAddress acc) (vacAccumulated acc),
                 AddCoins (dc_coins E) h (vacAccumulated acc))) (?w1, []) ?rs = (?w1\<lparr>dw_commissions := dw_commissions w\<rparr>, h)"
    using comms assms(5) by auto
  then have "\<exists>bk. distInitGenesis E w0 gs = ?w1\<lparr>dw_commissions := dw_commissions w, dw_bank := bk\<rparr>"
    by (auto simp: distInitGenesis_def gs Let_def SetCommunityAddress_def SetFeePool_def SetPreviousProposerConsAddr_def
        genesis_withdraw_addrs assms(4) addrs intro: exI [of _ "dw_bank w0"])
  then show ?thesis using fcp by auto
qed

theorem dist_genesis_roundtrip_witness:
  "\<exists>gs. distExportGenesis dist_start = Inr gs \<and>
     (distInitGenesis dist_env0 dist_init gs)\<lparr>dw_bank := (\<lambda>a. [])\<rparr> = dist_start\<lparr>dw_bank := (\<lambda>a. [])\<rparr>"
proof -
  have "\<exists>gs. distExportGenesis dist_start = Inr gs"
    by (simp add: dist_start_def distInitGenesis_def DefaultDistGenesis_def Let_def SetCommunityAddress_def SetFeePool_def
        SetPreviousProposerConsAddr_def distExportGenesis_def GetFeePool_def GetCommunityAddress_def GetPreviousProposerConsAddr_def)
  then obtain gs where gs: "distExportGenesis dist_start = Inr gs" by blast
  have "dw_withdrawAddrs dist_init = kv_empty" "dw_commissions dist_init = kv_empty" by (simp_all add: dist_init_def)
  from dist_genesis_roundtrip [OF dist_env0_ok dist_start_reachable gs this] gs show ?thesis by blast
qed

end
