(* ===== verification/Dist_Query.thy ===== *)
theory Dist_Query
  imports Dist_Reach
begin

text \<open>
  The queries of the distribution module (distribution/keeper/querier.go), before their answers are rendered as JSON.
  The decoding of requests is a parameter.
\<close>

record dist_query_env =
  UnmarshalCommissionParams :: "bytes \<Rightarrow> val_address option"
  UnmarshalWithdrawAddrParams :: "bytes \<Rightarrow> acc_address option"

datatype dist_query_error =
    DQErrUnMarshalJSON
  | DQErrUnknownDistributionQueryType
  | DQErrUnknownDistributionParamType
  | DQPanic
  | DQKeeper dist_error

datatype dist_answer =
    DAnsTax dec
  | DAnsEnabled bool
  | DAnsCoins sys_coins
  | DAnsAddress acc_address

definition GetCommunityTax :: "'b dist_world \<Rightarrow> dec" where
  "GetCommunityTax w = CommunityTax (dw_params w)"

definition GetWithdrawAddrEnabled :: "'b dist_world \<Rightarrow> bool" where
  "GetWithdrawAddrEnabled w = WithdrawAddrEnabled (dw_params w)"

definition distQueryParams :: "'b dist_world \<Rightarrow> string list \<Rightarrow> dist_query_error + dist_answer" where
  "distQueryParams w path =
     (case path of
        [] \<Rightarrow> Inl DQPanic
      | p # _ \<Rightarrow>
          if p = ''community_tax'' then Inr (DAnsTax (GetCommunityTax w))
          else if p = ''withdraw_addr_enabled'' then Inr (DAnsEnabled (GetWithdrawAddrEnabled w))
          else Inl DQErrUnknownDistributionParamType)"

definition queryValidatorCommission :: "dist_query_env \<Rightarrow> 'b dist_world \<Rightarrow> bytes \<Rightarrow> dist_query_error + dist_answer" where
  "queryValidatorCommission Q w data =
     (case UnmarshalCommissionParams Q data of
        None \<Rightarrow> Inl DQErrUnMarshalJSON
      | Some addr \<Rightarrow> Inr (DAnsCoins (GetValidatorAccumulatedCommission w addr)))"

definition queryDelegatorWithdrawAddress :: "dist_query_env \<Rightarrow> 'b dist_world \<Rightarrow> bytes \<Rightarrow> dist_query_error + dist_answer" where
  "queryDelegatorWithdrawAddress Q w data =
     (case UnmarshalWithdrawAddrParams Q data of
        None \<Rightarrow> Inl DQErrUnMarshalJSON
      | Some addr \<Rightarrow> Inr (DAnsAddress (GetDelegatorWithdrawAddr w addr)))"

definition queryCommunityPool :: "'b dist_world \<Rightarrow> dist_query_error + dist_answer" where
  "queryCommunityPool w =
     (case GetFeePoolCommunityCoins w of
        Inl e \<Rightarrow> Inl (DQKeeper e)
      | Inr pool \<Rightarrow> Inr (DAnsCoins pool))"

definition NewDistQuerier ::
    "dist_query_env \<Rightarrow> 'b dist_world \<Rightarrow> string list \<Rightarrow> bytes \<Rightarrow> dist_query_error + dist_answer" where
  "NewDistQuerier Q w path data =
     (case path of
        [] \<Rightarrow> Inl DQPanic
      | p # rest \<Rightarrow>
          if p = ''params'' then distQueryParams w rest
          else if p = ''validator_commission'' then queryValidatorCommission Q w data
          else if p = ''withdraw_addr'' then queryDelegatorWithdrawAddress Q w data
          else if p = ''community_pool'' then queryCommunityPool w
          else Inl DQErrUnknownDistributionQueryType)"

text \<open>A withdraw address that was set is the one the query answers with, and other delegators keep theirs.\<close>

lemma query_after_set:
  assumes "UnmarshalWithdrawAddrParams Q data = Some b"
  shows "queryDelegatorWithdrawAddress Q (SetDelegatorWithdrawAddr w a x) data =
    (if b = a then Inr (DAnsAddress x) else queryDelegatorWithdrawAddress Q w data)"
  using assms
  by (simp add: queryDelegatorWithdrawAddress_def SetDelegatorWithdrawAddr_def GetDelegatorWithdrawAddr_def)

end
