(* ===== verification/Token_Types.thy ===== *)
theory Token_Types
  imports Sdk_Coins Go_Text
begin

text \<open>
  The types of the token module (token/types): tokens and their responses, parameters, errors, the
  messages with their basic checks, the checks of symbols and whole names, and the merge of the
  available and locked coins of an account. Strings are byte strings, as in Go, so \<open>length\<close> is
  \<open>len\<close>.

  \<open>'b token_env\<close> holds what the module uses of the SDK besides \<open>supply_ops\<close>: minting and
  burning, the bank's transfers, the account lookup, hashes and parsers.
\<close>

record 'b token_env =
  tc_dec :: sdk_dec
  tc_coins :: coin_ops
  tc_supply :: "'b supply_ops"
  MintCoins :: "'b \<Rightarrow> string \<Rightarrow> sys_coins \<Rightarrow> string + 'b"
  BurnCoins :: "'b \<Rightarrow> string \<Rightarrow> sys_coins \<Rightarrow> string + 'b"
  GetSupplyByDenom :: "'b \<Rightarrow> string \<Rightarrow> dec"
  SendCoins :: "'b \<Rightarrow> acc_address \<Rightarrow> acc_address \<Rightarrow> sys_coins \<Rightarrow> string + 'b"
  GetSendEnabled :: "'b \<Rightarrow> bool"
  bankBlacklisted :: "acc_address \<Rightarrow> bool"
  ethCodeHash :: "'b \<Rightarrow> acc_address \<Rightarrow> bytes option" \<comment> \<open>\<open>None\<close>: no account, or not an \<open>EthAccount\<close>\<close>
  keccakNil :: bytes
  tmhashSum :: "bytes \<Rightarrow> bytes"
  denomValid :: "string \<Rightarrow> bool" \<comment> \<open>\<open>sdk.ValidateDenom\<close> returns no error\<close>
  MustParseCoins :: "string \<Rightarrow> string \<Rightarrow> sys_coins option" \<comment> \<open>\<open>None\<close>: panics\<close>
  Add2 :: "sys_coins \<Rightarrow> sys_coins \<Rightarrow> sys_coins"
  IsAllPositive :: "sys_coins \<Rightarrow> bool"
  DecString :: "dec \<Rightarrow> string"
  tc_feeCollectorName :: string
  enableBackend :: bool

subsection \<open>Errors and constants\<close>

datatype token_error =
    ErrBlockedRecipient acc_address
  | ErrBlockedContractRecipient acc_address
  | ErrSendDisabled
  | ErrSendCoinsFromAccountToModuleFailed string
  | ErrUnrecognizedLockCoinsType int
  | ErrFailedToUnlockAddress sys_coins acc_address
  | ErrInvalidCoins
  | ErrGetConfirmOwnership
  | ErrUpdateLockedCoins
  | ErrUserInputSymbolIsEmpty
  | ErrNotAllowedOriginalSymbol string
  | ErrWholeNameIsNotValidl
  | ErrDescLenBiggerThanLimit
  | ErrTotalSupplyOutOfRange
  | ErrAmountBiggerThanTotalSupplyUpperbound
  | ErrAmountIsNotValid
  | ErrMsgSymbolIsEmpty
  | ErrMintCoinsFailed string
  | ErrTokenModuleToAccountFailed string
  | ErrSendCoinsFromAccountToAccountFailed token_error
  | ErrBurnCoinsFailed string
  | ErrConfirmOwnershipNotExistOrBlockTimeAfter
  | ErrWholeNameAndDescriptionIsNotModified
  | ErrTokenIsNotMintable
  | ErrMsgTransfersAmountBiggerThanSendLimit
  | ErrInputOwnerIsNotEqualTokenOwner acc_address
  | ErrFromAddressIsNotTokenOwner acc_address
  | ErrConfirmAddressNotEqualsMsgAddress acc_address
  | ErrAddressIsRequired
  | ErrGetDecimalFromDecimalStringFailed
  | ErrTotalsupplyExceedsTheUpperLimit dec
  | ErrInsufficientCoins
  | TokenBank string
  | TokenPanic string

definition TokenModuleName :: string where
  "TokenModuleName = ''token''"

definition DescLenLimit :: nat where
  "DescLenLimit = 256"

definition MultiSendLimit :: nat where
  "MultiSendLimit = 1000"

definition TotalSupplyUpperbound :: int where
  "TotalSupplyUpperbound = 9 * 10 ^ 10"

definition LockCoinsTypeQuantity :: int where
  "LockCoinsTypeQuantity = 1"

definition LockCoinsTypeFee :: int where
  "LockCoinsTypeFee = 2"

definition BlackHoleAddress :: acc_address where
  "BlackHoleAddress = replicate 20 0"

subsection \<open>Tokens and parameters\<close>

record Token =
  tDescription :: string
  Symbol :: string
  OriginalSymbol :: string
  WholeName :: string
  OriginalTotalSupply :: dec
  tType :: int
  Owner :: acc_address
  Mintable :: bool

text \<open>The zero value of the structure, what Go's \<open>var token types.Token\<close> holds.\<close>

definition zeroToken :: Token where
  "zeroToken = \<lparr>tDescription = [], Symbol = [], OriginalSymbol = [], WholeName = [], OriginalTotalSupply = 0,
     tType = 0, Owner = [], Mintable = False\<rparr>"

record TokenResp = Token +
  respTotalSupply :: dec

definition GenTokenResp :: "Token \<Rightarrow> TokenResp" where
  "GenTokenResp token = \<lparr>tDescription = tDescription token, Symbol = Symbol token,
     OriginalSymbol = OriginalSymbol token, WholeName = WholeName token,
     OriginalTotalSupply = OriginalTotalSupply token, tType = tType token, Owner = Owner token,
     Mintable = Mintable token, respTotalSupply = 0\<rparr>"

record Currency =
  curDescription :: string
  curSymbol :: string
  curTotalSupply :: dec

record TransferUnit =
  trTo :: acc_address
  trCoins :: sys_coins

record CoinInfo =
  ciSymbol :: string
  ciAvailable :: string
  ciLocked :: string

definition NewCoinInfo :: "string \<Rightarrow> string \<Rightarrow> string \<Rightarrow> CoinInfo" where
  "NewCoinInfo symbol available locked = \<lparr>ciSymbol = symbol, ciAvailable = available, ciLocked = locked\<rparr>"

record AccCoins =
  acAcc :: acc_address
  acCoins :: sys_coins

record ConfirmOwnership =
  coSymbol :: string
  coAddress :: acc_address
  coExpire :: timestamp

record FeeDetail =
  fdAddress :: string
  fdReceiver :: string
  fdFee :: sys_coins
  fdFeeType :: string
  fdTimestamp :: timestamp

record token_params =
  FeeIssue :: sys_coin
  FeeMint :: sys_coin
  FeeBurn :: sys_coin
  FeeModify :: sys_coin
  FeeChown :: sys_coin
  OwnershipConfirmWindow :: int \<comment> \<open>\<open>time.Duration\<close> in nanoseconds\<close>

definition DefaultOwnershipConfirmWindow :: int where
  "DefaultOwnershipConfirmWindow = 24 * 3600 * 10 ^ 9"

definition nativeFee :: "'b token_env \<Rightarrow> string \<Rightarrow> token_error + sys_coin" where
  "nativeFee E amount =
     (case NewDecFromStr (tc_dec E) amount of
        None \<Rightarrow> Inl (TokenPanic ''MustNewDecFromStr'')
      | Some a \<Rightarrow> Inr (NewDecCoinFromDec (DefaultBondDenom (tc_dec E)) a))"

definition DefaultTokenParams :: "'b token_env \<Rightarrow> token_error + token_params" where
  "DefaultTokenParams E =
     bindE (nativeFee E ''2500'') (\<lambda>issue. bindE (nativeFee E ''10'') (\<lambda>mint.
     bindE (nativeFee E ''10'') (\<lambda>burn. bindE (nativeFee E ''0'') (\<lambda>modify.
     bindE (nativeFee E ''10'') (\<lambda>chown.
       Inr \<lparr>FeeIssue = issue, FeeMint = mint, FeeBurn = burn, FeeModify = modify, FeeChown = chown,
            OwnershipConfirmWindow = DefaultOwnershipConfirmWindow\<rparr>)))))"

text \<open>The checks that \<open>ParamSetPairs\<close> registers for the fields.\<close>

definition tokenParamsValid :: "'b token_env \<Rightarrow> token_params \<Rightarrow> bool" where
  "tokenParamsValid E p \<longleftrightarrow>
     list_all (CoinIsValid (tc_dec E)) [FeeIssue p, FeeMint p, FeeBurn p, FeeModify p, FeeChown p] \<and>
     0 < OwnershipConfirmWindow p"

subsection \<open>Symbols and names\<close>

text \<open>\<open>^ammswap.*?\<close>\<close>

definition NotAllowedOriginSymbol :: "string \<Rightarrow> bool" where
  "NotAllowedOriginSymbol name \<longleftrightarrow> take 7 name = ''ammswap''"

text \<open>\<open>^[a-z][a-z0-9]{0,5}$\<close>\<close>

definition regOriginalSymbol :: "string \<Rightarrow> bool" where
  "regOriginalSymbol name =
     (case name of
        [] \<Rightarrow> False
      | c # cs \<Rightarrow> isLowerAscii c \<and> length cs \<le> 5 \<and> list_all (\<lambda>c. isLowerAscii c \<or> isDigitAscii c) cs)"

definition ValidOriginalSymbol :: "string \<Rightarrow> bool" where
  "ValidOriginalSymbol name \<longleftrightarrow> \<not> NotAllowedOriginSymbol name \<and> regOriginalSymbol name"

text \<open>\<open>^[a-zA-Z0-9[:space:]]{1,30}$\<close>\<close>

definition wholeNameValid :: "string \<Rightarrow> bool" where
  "wholeNameValid wholeName \<longleftrightarrow>
     1 \<le> length wholeName \<and> length wholeName \<le> 30 \<and>
     list_all (\<lambda>c. isLowerAscii c \<or> isUpperAscii c \<or> isDigitAscii c \<or> isSpaceAscii c) wholeName"

definition WholeNameCheck :: "string \<Rightarrow> string \<times> bool" where
  "WholeNameCheck wholeName =
     (let wholeName = TrimSpace wholeName;
          wholeName = joinSpace (Fields wholeName)
      in (wholeName, wholeNameValid wholeName))"

subsection \<open>Coins of an account\<close>

definition mergeAvailable :: "(dec \<Rightarrow> string) \<Rightarrow> (string, CoinInfo) kv \<Rightarrow> sys_coin \<Rightarrow> (string, CoinInfo) kv" where
  "mergeAvailable str m coin =
     (case kv_get m (Denom coin) of
        None \<Rightarrow> kv_set (Denom coin) \<lparr>ciSymbol = Denom coin, ciAvailable = str (Amount coin), ciLocked = ''0''\<rparr> m
      | Some _ \<Rightarrow> m)"

definition mergeLocked :: "(dec \<Rightarrow> string) \<Rightarrow> (string, CoinInfo) kv \<Rightarrow> sys_coin \<Rightarrow> (string, CoinInfo) kv" where
  "mergeLocked str m coin =
     (case kv_get m (Denom coin) of
        Some ci \<Rightarrow> kv_set (Denom coin) (ci\<lparr>ciLocked := str (Amount coin)\<rparr>) m
      | None \<Rightarrow>
          kv_set (Denom coin) \<lparr>ciSymbol = Denom coin, ciAvailable = ''0'', ciLocked = str (Amount coin)\<rparr> m)"

text \<open>The Go map is filled and its values are sorted by symbol, which is their key.\<close>

definition MergeCoinInfo :: "(dec \<Rightarrow> string) \<Rightarrow> sys_coins \<Rightarrow> sys_coins \<Rightarrow> CoinInfo list" where
  "MergeCoinInfo str availableCoins lockedCoins =
     (let m = foldl (mergeAvailable str) kv_empty availableCoins;
          m = foldl (mergeLocked str) m lockedCoins
      in map snd (kv_list m))"

subsection \<open>Messages\<close>

record MsgTokenIssue =
  miDescription :: string
  miSymbol :: string
  miOriginalSymbol :: string
  miWholeName :: string
  miTotalSupply :: string
  miOwner :: acc_address
  miMintable :: bool

record MsgTokenModify =
  mmOwner :: acc_address
  mmSymbol :: string
  mmDescription :: string
  mmWholeName :: string
  IsDescriptionModified :: bool
  IsWholeNameModified :: bool

datatype token_msg =
    TokenIssue MsgTokenIssue
  | TokenBurn (tbAmount: sys_coin) (tbOwner: acc_address)
  | TokenMint (tmAmount: sys_coin) (tmOwner: acc_address)
  | MultiSend acc_address "TransferUnit list"
  | Send acc_address acc_address sys_coins
  | TransferOwnership acc_address acc_address string
  | MsgConfirmOwnership string acc_address
  | TokenModify MsgTokenModify

definition issueValidateBasic :: "'b token_env \<Rightarrow> MsgTokenIssue \<Rightarrow> token_error option" where
  "issueValidateBasic E msg =
     (if EmptyAddr (miOwner msg) then Some ErrAddressIsRequired
      else if miOriginalSymbol msg = [] then Some ErrUserInputSymbolIsEmpty
      else if \<not> ValidOriginalSymbol (miOriginalSymbol msg) then Some (ErrNotAllowedOriginalSymbol (miOriginalSymbol msg))
      else if \<not> wholeNameValid (miWholeName msg) then Some ErrWholeNameIsNotValidl
      else if DescLenLimit < length (miDescription msg) then Some ErrDescLenBiggerThanLimit
      else
        case NewDecFromStr (tc_dec E) (miTotalSupply msg) of
          None \<Rightarrow> Some ErrGetDecimalFromDecimalStringFailed
        | Some totalSupply \<Rightarrow>
            if NewDec (tc_dec E) TotalSupplyUpperbound < totalSupply \<or> totalSupply \<le> 0 then Some ErrTotalSupplyOutOfRange
            else None)"

definition burnValidateBasic :: "'b token_env \<Rightarrow> sys_coin \<Rightarrow> acc_address \<Rightarrow> token_error option" where
  "burnValidateBasic E amount owner =
     (if EmptyAddr owner then Some ErrAddressIsRequired
      else if \<not> CoinIsValid (tc_dec E) amount then Some ErrInsufficientCoins
      else None)"

definition mintValidateBasic :: "'b token_env \<Rightarrow> sys_coin \<Rightarrow> acc_address \<Rightarrow> token_error option" where
  "mintValidateBasic E amount owner =
     (if EmptyAddr owner then Some ErrAddressIsRequired
      else if NewDec (tc_dec E) TotalSupplyUpperbound < Amount amount then Some ErrAmountBiggerThanTotalSupplyUpperbound
      else if \<not> CoinIsValid (tc_dec E) amount then Some ErrAmountIsNotValid
      else None)"

fun checkTransfers :: "'b token_env \<Rightarrow> TransferUnit list \<Rightarrow> token_error option" where
  "checkTransfers E [] = None"
| "checkTransfers E (t # ts) =
     (if \<not> IsAllPositive E (trCoins t) \<or> \<not> CoinsIsValid (tc_coins E) (trCoins t) then Some ErrInvalidCoins
      else if EmptyAddr (trTo t) then Some ErrAddressIsRequired
      else checkTransfers E ts)"

definition multiSendValidateBasic :: "'b token_env \<Rightarrow> acc_address \<Rightarrow> TransferUnit list \<Rightarrow> token_error option" where
  "multiSendValidateBasic E from transfers =
     (if EmptyAddr from then Some ErrAddressIsRequired
      else if MultiSendLimit < length transfers then Some ErrMsgTransfersAmountBiggerThanSendLimit
      else checkTransfers E transfers)"

definition sendValidateBasic :: "'b token_env \<Rightarrow> acc_address \<Rightarrow> acc_address \<Rightarrow> sys_coins \<Rightarrow> token_error option" where
  "sendValidateBasic E from to amount =
     (if EmptyAddr from then Some ErrAddressIsRequired
      else if EmptyAddr to then Some ErrAddressIsRequired
      else if \<not> CoinsIsValid (tc_coins E) amount then Some ErrInvalidCoins
      else if \<not> IsAllPositive E amount then Some ErrInsufficientCoins
      else None)"

definition transferValidateBasic :: "'b token_env \<Rightarrow> acc_address \<Rightarrow> acc_address \<Rightarrow> string \<Rightarrow> token_error option" where
  "transferValidateBasic E from to symbol =
     (if EmptyAddr from then Some ErrAddressIsRequired
      else if EmptyAddr to then Some ErrAddressIsRequired
      else if symbol = [] then Some ErrMsgSymbolIsEmpty
      else if \<not> denomValid E symbol then Some ErrConfirmOwnershipNotExistOrBlockTimeAfter
      else None)"

definition modifyValidateBasic :: "'b token_env \<Rightarrow> MsgTokenModify \<Rightarrow> token_error option" where
  "modifyValidateBasic E msg =
     (if EmptyAddr (mmOwner msg) then Some ErrAddressIsRequired
      else if mmSymbol msg = [] then Some ErrMsgSymbolIsEmpty
      else if \<not> denomValid E (mmSymbol msg) then Some (ErrNotAllowedOriginalSymbol (mmSymbol msg))
      else if IsWholeNameModified msg \<and> \<not> wholeNameValid (mmWholeName msg) then Some ErrWholeNameIsNotValidl
      else if IsDescriptionModified msg \<and> DescLenLimit < length (mmDescription msg) then Some ErrDescLenBiggerThanLimit
      else None)"

definition confirmValidateBasic :: "'b token_env \<Rightarrow> string \<Rightarrow> acc_address \<Rightarrow> token_error option" where
  "confirmValidateBasic E symbol addr =
     (if EmptyAddr addr then Some ErrAddressIsRequired
      else if symbol = [] then Some ErrMsgSymbolIsEmpty
      else if \<not> denomValid E symbol then Some (ErrNotAllowedOriginalSymbol symbol)
      else None)"

definition tokenValidateBasic :: "'b token_env \<Rightarrow> token_msg \<Rightarrow> token_error option" where
  "tokenValidateBasic E m =
     (case m of
        TokenIssue msg \<Rightarrow> issueValidateBasic E msg
      | TokenBurn amount owner \<Rightarrow> burnValidateBasic E amount owner
      | TokenMint amount owner \<Rightarrow> mintValidateBasic E amount owner
      | MultiSend from transfers \<Rightarrow> multiSendValidateBasic E from transfers
      | Send from to amount \<Rightarrow> sendValidateBasic E from to amount
      | TransferOwnership from to symbol \<Rightarrow> transferValidateBasic E from to symbol
      | MsgConfirmOwnership symbol addr \<Rightarrow> confirmValidateBasic E symbol addr
      | TokenModify msg \<Rightarrow> modifyValidateBasic E msg)"

definition tokenSigner :: "token_msg \<Rightarrow> acc_address" where
  "tokenSigner m =
     (case m of
        TokenIssue msg \<Rightarrow> miOwner msg
      | TokenBurn amount owner \<Rightarrow> owner
      | TokenMint amount owner \<Rightarrow> owner
      | MultiSend from transfers \<Rightarrow> from
      | Send from to amount \<Rightarrow> from
      | TransferOwnership from to symbol \<Rightarrow> from
      | MsgConfirmOwnership symbol addr \<Rightarrow> addr
      | TokenModify msg \<Rightarrow> mmOwner msg)"

end
