(* ===== verification/Token_Names.thy ===== *)
theory Token_Names
  imports Token_Types
begin

text \<open>
  The checks of names: what \<open>WholeNameCheck\<close> returns, that it is stable, and how the symbol rules
  of the module relate.
\<close>

lemma isSpace3_high: "isSpace3 a b c \<Longrightarrow> 128 \<le> a \<and> 128 \<le> b \<and> 128 \<le> c"
  by (auto simp: isSpace3_def)

text \<open>A word: no position in it starts a white space rune, even when a blank follows it.\<close>

definition isWord :: "string \<Rightarrow> bool" where
  "isWord w \<longleftrightarrow> w \<noteq> [] \<and> (\<forall>u v. w = u @ v \<longrightarrow> v \<noteq> [] \<longrightarrow> spaceWidth v = 0)"

lemma spaceWidth_blank:
  assumes "v \<noteq> []" and "spaceWidth v = 0"
  shows "spaceWidth (v @ CHR '' '' # r) = 0"
proof -
  obtain c v' where v: "v = c # v'" using assms(1) by (cases v) auto
  show ?thesis
  proof (cases v')
    case Nil
    have "\<not> isSpace3 (of_char c) 32 x" for x using isSpace3_high [of "of_char c" 32 x] by auto
    then show ?thesis using assms(2) by (auto simp: v Nil spaceWidth_def codes_def nth_Cons' split: if_splits)
  next
    case (Cons d v'')
    then show ?thesis
    proof (cases v'')
      case Nil
      have "\<not> isSpace3 (of_char c) (of_char d) 32" using isSpace3_high [of "of_char c" "of_char d" 32] by auto
      then show ?thesis using assms(2) by (auto simp: v Cons Nil spaceWidth_def codes_def split: if_splits)
    next
      case (Cons e v3)
      then show ?thesis using assms(2) by (auto simp: v \<open>v' = d # v''\<close> spaceWidth_def codes_def split: if_splits)
    qed
  qed
qed

lemma spaceWidth_append: "0 < spaceWidth v \<Longrightarrow> spaceWidth (v @ s) = spaceWidth v"
  by (cases v; cases "tl v"; cases "tl (tl v)") (auto simp: spaceWidth_def codes_def split: if_splits)

text \<open>White space of more than one byte has no ASCII byte in it.\<close>

lemma spaceWidth_whole:
  assumes "spaceWidth t = length t" and "CHR '' '' \<in> set t"
  shows "length t = 1"
proof (rule ccontr)
  assume n: "length t \<noteq> 1"
  obtain c t' where t: "t = c # t'" using assms(2) by (cases t) auto
  with assms(1) n have "\<not> isSpaceAscii c" "t' \<noteq> []" by (auto simp: spaceWidth_def split: if_splits)
  then have "c \<noteq> CHR '' ''" by (auto simp: isSpaceAscii_def)
  with \<open>t' \<noteq> []\<close> obtain d t'' where t': "t' = d # t''" "c \<noteq> CHR '' ''" by (cases t') auto
  show False
  proof (cases t'')
    case Nil
    then show False using assms n \<open>\<not> isSpaceAscii c\<close> by (auto simp: t t' spaceWidth_def codes_def split: if_splits)
  next
    case (Cons e t3)
    then have sp: "isSpace3 (of_char c) (of_char d) (of_char e) \<and> t3 = []"
      using assms(1) \<open>\<not> isSpaceAscii c\<close> by (auto simp: t t' spaceWidth_def codes_def split: if_splits)
    then have "128 \<le> (of_char d :: nat)" "128 \<le> (of_char e :: nat)" using isSpace3_high by blast+
    with sp assms(2) t'(2) show False by (auto simp: t t' Cons)
  qed
qed

subsection \<open>Fields and their join\<close>

lemma fieldsFrom_word:
  assumes "\<And>u v'. v = u @ v' \<Longrightarrow> v' \<noteq> [] \<Longrightarrow> spaceWidth (v' @ r) = 0"
  shows "fieldsFrom p (v @ r) = fieldsFrom (p @ v) r"
  using assms
proof (induction v arbitrary: p)
  case (Cons c v)
  have "spaceWidth (c # v @ r) = 0" using Cons.prems [of "[]" "c # v"] by simp
  moreover have "spaceWidth (v' @ r) = 0" if "v = u @ v'" "v' \<noteq> []" for u v' using Cons.prems [of "c # u" v'] that by simp
  ultimately show ?case using Cons.IH [of "p @ [c]"] by (subst fieldsFrom.simps) simp
qed simp

lemma fieldsFrom_blank: "fieldsFrom p (CHR '' '' # r) = addField p (fieldsFrom [] r)"
  by (subst fieldsFrom.simps) (simp add: spaceWidth_def isSpaceAscii_def)

lemma fieldsFrom_Nil: "fieldsFrom p [] = addField p []"
  by (subst fieldsFrom.simps) simp

lemma Fields_join: "list_all isWord ws \<Longrightarrow> Fields (joinSpace ws) = ws"
proof (induction ws rule: joinSpace.induct)
  case 1
  then show ?case by (simp add: Fields_def fieldsFrom_Nil addField_def)
next
  case (2 w)
  then have "fieldsFrom [] (w @ []) = fieldsFrom ([] @ w) []" by (intro fieldsFrom_word) (auto simp: isWord_def)
  with 2 show ?case by (simp add: Fields_def fieldsFrom_Nil addField_def isWord_def)
next
  case (3 w x ws)
  let ?r = "CHR '' '' # joinSpace (x # ws)"
  from 3 have "fieldsFrom [] (w @ ?r) = fieldsFrom ([] @ w) ?r"
    by (intro fieldsFrom_word) (auto simp: isWord_def intro!: spaceWidth_blank)
  with 3 show ?case by (simp add: Fields_def fieldsFrom_blank addField_def isWord_def)
qed

lemma isWord_pending:
  assumes "p \<noteq> []" and "\<And>u v. p = u @ v \<Longrightarrow> v \<noteq> [] \<Longrightarrow> spaceWidth (v @ s) = 0"
  shows "isWord p"
  unfolding isWord_def
proof (intro conjI allI impI)
  fix u v
  assume "p = u @ v" "v \<noteq> []"
  from assms(2) [OF this] spaceWidth_append [of v s] show "spaceWidth v = 0" by (cases "spaceWidth v") auto
qed (rule assms(1))

lemma fieldsFrom_words:
  "(\<And>u v. p = u @ v \<Longrightarrow> v \<noteq> [] \<Longrightarrow> spaceWidth (v @ s) = 0) \<Longrightarrow> list_all isWord (fieldsFrom p s)"
proof (induction p s rule: fieldsFrom.induct)
  case (1 p s)
  note q = 1(3)
  have add: "list_all isWord (addField p ws)" if "list_all isWord ws" for ws
    using that isWord_pending [of p s] q by (simp add: addField_def)
  consider "s = []" | "s \<noteq> []" "0 < spaceWidth s" | "s \<noteq> []" "spaceWidth s = 0" by auto
  then show ?case
  proof cases
    case 3
    then have "spaceWidth (v @ tl s) = 0" if "p @ [hd s] = u @ v" "v \<noteq> []" for u v
      using that q [of u "butlast v"] by (cases v rule: rev_cases; cases "butlast v = []") auto
    with 1(2) 3 show ?thesis by (subst fieldsFrom.simps) simp
  qed (use 1(1) add in \<open>subst fieldsFrom.simps; simp\<close>)+
qed

lemma Fields_words: "list_all isWord (Fields s)"
  unfolding Fields_def by (rule fieldsFrom_words) simp

lemma trimLeft_join: "list_all isWord ws \<Longrightarrow> trimLeft (joinSpace ws) = joinSpace ws"
proof -
  assume ws: "list_all isWord ws"
  have "spaceWidth (joinSpace ws) = 0"
  proof (cases ws rule: joinSpace.cases)
    case 1
    then show ?thesis by (simp add: spaceWidth_def)
  next
    case (2 w)
    with ws show ?thesis by (auto simp: isWord_def)
  next
    case (3 w x ws')
    with ws show ?thesis by (auto simp: isWord_def intro!: spaceWidth_blank)
  qed
  then show ?thesis by (subst trimLeft.simps) simp
qed

lemma joinSpace_last: "ws \<noteq> [] \<Longrightarrow> \<exists>pre. joinSpace ws = pre @ last ws \<and> (pre = [] \<or> last pre = CHR '' '')"
proof (induction ws rule: joinSpace.induct)
  case (3 w x ws)
  then obtain pre where "joinSpace (x # ws) = pre @ last (x # ws)" "pre = [] \<or> last pre = CHR '' ''" by auto
  then show ?case by (intro exI [of _ "w @ CHR '' '' # pre"]) auto
qed auto

lemma trimRight_join:
  assumes ws: "list_all isWord ws"
  shows "trimRight (joinSpace ws) = joinSpace ws"
proof (cases "ws = []")
  case False
  let ?s = "joinSpace ws"
  from joinSpace_last [OF False] obtain pre where s: "?s = pre @ last ws" "pre = [] \<or> last pre = CHR '' ''" by blast
  have w: "isWord (last ws)" using ws False by (simp add: list_all_iff)
  have "spaceWidth (drop (length ?s - k) ?s) \<noteq> k" if k: "0 < k" "k \<le> length ?s" for k
  proof (cases "k \<le> length (last ws)")
    case True
    then have "drop (length ?s - k) ?s = drop (length (last ws) - k) (last ws)" using k by (simp add: s(1))
    moreover have "spaceWidth (drop (length (last ws) - k) (last ws)) = 0"
      using w k True unfolding isWord_def by (metis append_take_drop_id diff_diff_cancel length_0_conv length_drop not_gr_zero)
    ultimately show ?thesis using k by simp
  next
    case False
    let ?t = "drop (length ?s - k) pre"
    from False k have t: "?t \<noteq> []" and d: "drop (length ?s - k) ?s = ?t @ last ws" by (simp_all add: s(1))
    from t have "length ?s - k < length pre" by simp
    moreover from this s(2) have "last pre = CHR '' ''" by auto
    ultimately have "last ?t = CHR '' ''" by (simp add: last_drop)
    with last_in_set [OF t] have "CHR '' '' \<in> set (?t @ last ws)" by simp
    moreover have "0 < length ?t" "0 < length (last ws)" using t w by (auto simp: isWord_def)
    then have "length (?t @ last ws) \<noteq> 1" unfolding length_append by linarith
    moreover have "length (?t @ last ws) = k" using k False by (simp add: s(1))
    ultimately show ?thesis unfolding d using spaceWidth_whole [of "?t @ last ws"] by auto
  qed
  then have "lastSpaceWidth ?s = 0" by (simp add: lastSpaceWidth_def)
  then show ?thesis by (subst trimRight.simps) simp
qed (simp add: trimRight.simps lastSpaceWidth_def)

subsection \<open>Properties\<close>

text \<open>Normalising a whole name is stable: checking the name that \<open>WholeNameCheck\<close> returns gives the same name
  and the same verdict, and the normalised name has the same words as the input.\<close>

theorem WholeNameCheck_stable:
  assumes "WholeNameCheck n = (m, b)"
  shows "WholeNameCheck m = (m, b) \<and> Fields m = Fields (TrimSpace n)"
proof -
  from assms have m: "m = joinSpace (Fields (TrimSpace n))" "b = wholeNameValid m" by (auto simp: WholeNameCheck_def Let_def)
  note ws = Fields_words [of "TrimSpace n"]
  have "TrimSpace m = m" unfolding m(1) TrimSpace_def [of "joinSpace _"] trimLeft_join [OF ws] trimRight_join [OF ws] ..
  with Fields_join [OF ws] m show ?thesis by (simp add: WholeNameCheck_def Let_def)
qed

theorem WholeNameCheck_stable_witness:
  "WholeNameCheck ''a b'' = (''a b'', True) \<and> Fields ''a b'' = Fields (TrimSpace ''  a   b '')"
proof (rule WholeNameCheck_stable)
  have tl: "trimLeft ''  a   b '' = ''a   b ''"
    by (simp add: trimLeft.simps spaceWidth_def isSpaceAscii_def byteIn_def codes_def isSpace3_def)
  have tr: "trimRight ''a   b '' = ''a   b''"
    by (simp add: trimRight.simps lastSpaceWidth_def spaceWidth_def isSpaceAscii_def byteIn_def codes_def isSpace3_def)
  have "Fields ''a   b'' = [''a'', ''b'']"
    by (simp add: Fields_def fieldsFrom.simps addField_def spaceWidth_def isSpaceAscii_def byteIn_def codes_def isSpace3_def)
  then show "WholeNameCheck ''  a   b '' = (''a b'', True)"
    by (simp add: WholeNameCheck_def TrimSpace_def tl tr wholeNameValid_def isLowerAscii_def isSpaceAscii_def byteIn_def)
qed

text \<open>The prefix rule of original symbols never decides: the pattern for original symbols allows at most six
  characters, so a symbol it accepts cannot start with \<open>ammswap\<close>, and the two checks accept exactly what the
  pattern accepts.\<close>

theorem ValidOriginalSymbol_is_pattern: "ValidOriginalSymbol name \<longleftrightarrow> regOriginalSymbol name"
proof -
  have "length name \<le> 6" if "regOriginalSymbol name" using that by (auto simp: regOriginalSymbol_def split: list.splits)
  moreover have "7 \<le> length name" if "NotAllowedOriginSymbol name"
    using arg_cong [OF that [unfolded NotAllowedOriginSymbol_def], of length] by simp
  ultimately show ?thesis by (auto simp: ValidOriginalSymbol_def)
qed

subsection \<open>The coins of an account\<close>

definition shown :: "(dec \<Rightarrow> string) \<Rightarrow> dec \<Rightarrow> string" where
  "shown str x = (if x = 0 then ''0'' else str x)"

definition infoAt :: "(dec \<Rightarrow> string) \<Rightarrow> sys_coins \<Rightarrow> sys_coins \<Rightarrow> string \<Rightarrow> CoinInfo option" where
  "infoAt str av lk d =
     (if AmountOf d av = 0 \<and> AmountOf d lk = 0 then None
      else Some \<lparr>ciSymbol = d, ciAvailable = shown str (AmountOf d av), ciLocked = shown str (AmountOf d lk)\<rparr>)"

lemma infoAt_symbol: "infoAt str av lk d = Some x \<Longrightarrow> ciSymbol x = d"
  by (auto simp: infoAt_def split: if_splits)

lemma valid_coins_snoc:
  assumes "valid_coins (cs @ [c])"
  shows "valid_coins cs" and "AmountOf (Denom c) cs = 0" and "0 < Amount c"
  using assms by (auto simp: valid_coins_def intro!: AmountOf_absent_denom)

lemma merge_available: "valid_coins av \<Longrightarrow> kv_get (foldl (mergeAvailable str) kv_empty av) d = infoAt str av [] d"
proof (induction av rule: rev_induct)
  case Nil
  then show ?case by (simp add: infoAt_def)
next
  case (snoc c av)
  note v = valid_coins_snoc [OF snoc.prems] and IH = snoc.IH [OF valid_coins_snoc(1) [OF snoc.prems]]
  show ?case using v IH snoc.IH by (auto simp: mergeAvailable_def infoAt_def shown_def split: option.splits)
qed

lemma merge_locked:
  assumes "\<And>d. kv_get m d = infoAt str av [] d"
  shows "valid_coins lk \<Longrightarrow> kv_get (foldl (mergeLocked str) m lk) d = infoAt str av lk d"
proof (induction lk arbitrary: d rule: rev_induct)
  case Nil
  then show ?case by (simp add: assms)
next
  case (snoc c lk)
  note v = valid_coins_snoc [OF snoc.prems]
  show ?case using v snoc.IH [OF v(1)] by (auto simp: mergeLocked_def infoAt_def shown_def split: option.splits)
qed

lemma kv_list_values: "x \<in> snd ` set (kv_list m) \<longleftrightarrow> (\<exists>k. kv_get m k = Some x)"
  by (force simp flip: kv_in_list)

text \<open>The coins of an account are merged completely: for valid sets of available and locked coins the result has one
  entry for each denomination with an amount, in strictly ascending order of the symbols, and the entry shows
  both amounts, with 0 for an absent one.\<close>

theorem MergeCoinInfo_complete:
  assumes "valid_coins av" and "valid_coins lk"
  shows "set (MergeCoinInfo str av lk) =
      {\<lparr>ciSymbol = d, ciAvailable = shown str (AmountOf d av), ciLocked = shown str (AmountOf d lk)\<rparr> | d. AmountOf d av \<noteq> 0 \<or> AmountOf d lk \<noteq> 0} \<and>
    sorted_wrt (<) (map ciSymbol (MergeCoinInfo str av lk))"
proof -
  define m where "m = foldl (mergeLocked str) (foldl (mergeAvailable str) kv_empty av) lk"
  have g: "kv_get m d = infoAt str av lk d" for d unfolding m_def by (rule merge_locked [OF merge_available [OF assms(1)] assms(2)])
  have list: "MergeCoinInfo str av lk = map snd (kv_list m)" by (simp add: MergeCoinInfo_def m_def)
  have "ciSymbol (snd e) = fst e" if "e \<in> set (kv_list m)" for e
    using that g [of "fst e"] kv_in_list [of "fst e" "snd e" m] by (simp add: infoAt_symbol)
  then have "map ciSymbol (map snd (kv_list m)) = map fst (kv_list m)" by simp
  with kv_keys_sorted [of m] have "sorted_wrt (<) (map ciSymbol (map snd (kv_list m)))" by (simp only:)
  moreover have "set (map snd (kv_list m)) = {x. \<exists>d. infoAt str av lk d = Some x}"
    using kv_list_values [of _ m] by (auto simp: g)
  ultimately show ?thesis unfolding list by (auto simp: infoAt_def split: if_splits)
qed

theorem MergeCoinInfo_complete_witness:
  "sorted_wrt (<) (map ciSymbol (MergeCoinInfo (\<lambda>_. ''5'') [\<lparr>Denom = ''okt'', Amount = 5\<rparr>] [\<lparr>Denom = ''fax'', Amount = 2\<rparr>]))"
  using MergeCoinInfo_complete [of "[\<lparr>Denom = ''okt'', Amount = 5\<rparr>]" "[\<lparr>Denom = ''fax'', Amount = 2\<rparr>]" "\<lambda>_. ''5''"]
  by (simp add: valid_coins_def)

end
