(* ===== verification/Token_Keeper.thy ===== *)
theory Token_Keeper
  imports Token_Types
begin

text \<open>
  The token keeper, its message handlers, genesis and queries (token/keeper.go, handler.go,
  genesis.go, querier.go, querier_v2.go, memory_cache.go). \<open>'b token_world\<close> is the bank together
  with the module's two stores, one field per key prefix of token/types/keys.go, the parameters and
  the fee details the keeper caches in memory. A key that joins an owner and a symbol is the pair of
  both: owners are addresses of one fixed length, so the joined key splits in one way and iterating
  over the prefix of an owner visits the symbols in order.
\<close>

record 'b token_world =
  tw_bank :: 'b
  tw_tokens :: "(string, Token) kv"
  tw_tokenNum :: "64 word option"
  tw_userTokens :: "(acc_address \<times> string, unit) kv"
  tw_confirm :: "(string, ConfirmOwnership) kv"
  tw_locked :: "(acc_address, sys_coins) kv"
  tw_lockedFees :: "(acc_address, sys_coins) kv"
  tw_params :: token_params
  tw_feeDetails :: "FeeDetail list"

record token_ctx =
  tcBlockTime :: timestamp
  TxBytes :: bytes

text \<open>A call of the bank or the supply keeper, with its error wrapped.\<close>

definition withBank :: "(string \<Rightarrow> token_error) \<Rightarrow> 'b token_world \<Rightarrow> string + 'b \<Rightarrow> token_error + 'b token_world" where
  "withBank err w r = (case r of Inl e \<Rightarrow> Inl (err e) | Inr b \<Rightarrow> Inr (w\<lparr>tw_bank := b\<rparr>))"

subsection \<open>Tokens\<close>

definition ResetCache :: "'b token_world \<Rightarrow> 'b token_world" where
  "ResetCache w = w\<lparr>tw_feeDetails := []\<rparr>"

definition GetTokenInfo :: "'b token_world \<Rightarrow> string \<Rightarrow> Token" where
  "GetTokenInfo w symbol = (case kv_get (tw_tokens w) symbol of None \<Rightarrow> zeroToken | Some token \<Rightarrow> token)"

definition GetTokenTotalSupply :: "'b token_env \<Rightarrow> 'b token_world \<Rightarrow> string \<Rightarrow> dec" where
  "GetTokenTotalSupply E w symbol = GetSupplyByDenom E (tw_bank w) symbol"

definition TokenExist :: "'b token_world \<Rightarrow> string \<Rightarrow> bool" where
  "TokenExist w symbol \<longleftrightarrow> kv_get (tw_tokens w) symbol \<noteq> None"

definition GetTokensInfo :: "'b token_world \<Rightarrow> Token list" where
  "GetTokensInfo w = map snd (kv_list (tw_tokens w))"

definition GetUserTokensInfo :: "'b token_world \<Rightarrow> acc_address \<Rightarrow> Token list" where
  "GetUserTokensInfo w owner =
     map (\<lambda>e. GetTokenInfo w (snd (fst e))) (filter (\<lambda>e. fst (fst e) = owner) (kv_list (tw_userTokens w)))"

definition GetCurrenciesInfo :: "'b token_env \<Rightarrow> 'b token_world \<Rightarrow> Currency list" where
  "GetCurrenciesInfo E w =
     map (\<lambda>e. \<lparr>curDescription = tDescription (snd e), curSymbol = Symbol (snd e),
               curTotalSupply = GetSupplyByDenom E (tw_bank w) (Symbol (snd e))\<rparr>) (kv_list (tw_tokens w))"

definition DeleteUserToken :: "'b token_world \<Rightarrow> acc_address \<Rightarrow> string \<Rightarrow> 'b token_world" where
  "DeleteUserToken w owner symbol = w\<lparr>tw_userTokens := kv_del (owner, symbol) (tw_userTokens w)\<rparr>"

definition getTokenNum :: "'b token_world \<Rightarrow> 64 word" where
  "getTokenNum w = (case tw_tokenNum w of None \<Rightarrow> 0 | Some n \<Rightarrow> n)"

definition NewToken :: "'b token_world \<Rightarrow> Token \<Rightarrow> 'b token_world" where
  "NewToken w token =
     (let w = w\<lparr>tw_tokens := kv_set (Symbol token) token (tw_tokens w)\<rparr>;
          w = w\<lparr>tw_userTokens := kv_set (Owner token, Symbol token) () (tw_userTokens w)\<rparr>
      in w\<lparr>tw_tokenNum := Some (getTokenNum w + 1)\<rparr>)"

definition UpdateToken :: "'b token_world \<Rightarrow> Token \<Rightarrow> 'b token_world" where
  "UpdateToken w token = w\<lparr>tw_tokens := kv_set (Symbol token) token (tw_tokens w)\<rparr>"

definition IsContractAddress :: "'b token_env \<Rightarrow> 'b token_world \<Rightarrow> acc_address \<Rightarrow> bool" where
  "IsContractAddress E w addr =
     (case ethCodeHash E (tw_bank w) addr of None \<Rightarrow> False | Some codeHash \<Rightarrow> codeHash \<noteq> keccakNil E)"

definition SendCoinsFromAccountToAccount ::
    "'b token_env \<Rightarrow> 'b token_world \<Rightarrow> acc_address \<Rightarrow> acc_address \<Rightarrow> sys_coins \<Rightarrow> token_error + 'b token_world" where
  "SendCoinsFromAccountToAccount E w from to amt =
     (if bankBlacklisted E to then Inl (ErrBlockedRecipient to)
      else if IsContractAddress E w to then Inl (ErrBlockedContractRecipient to)
      else withBank TokenBank w (SendCoins E (tw_bank w) from to amt))"

definition getNumKeys :: "'b token_world \<Rightarrow> nat \<times> nat" where
  "getNumKeys w =
     (length (kv_list (tw_tokens w)) + (if tw_tokenNum w = None then 0 else 1) +
        length (kv_list (tw_userTokens w)) + length (kv_list (tw_confirm w)),
      length (kv_list (tw_locked w)) + length (kv_list (tw_lockedFees w)))"

subsection \<open>Locked coins\<close>

definition lockStore :: "'b token_world \<Rightarrow> int \<Rightarrow> token_error + (acc_address, sys_coins) kv" where
  "lockStore w lockCoinsType =
     (if lockCoinsType = LockCoinsTypeQuantity then Inr (tw_locked w)
      else if lockCoinsType = LockCoinsTypeFee then Inr (tw_lockedFees w)
      else Inl (ErrUnrecognizedLockCoinsType lockCoinsType))"

definition setLockStore :: "'b token_world \<Rightarrow> int \<Rightarrow> (acc_address, sys_coins) kv \<Rightarrow> 'b token_world" where
  "setLockStore w lockCoinsType m =
     (if lockCoinsType = LockCoinsTypeQuantity then w\<lparr>tw_locked := m\<rparr> else w\<lparr>tw_lockedFees := m\<rparr>)"

text \<open>\<open>sort.Sort\<close> orders coins by denomination.\<close>

definition updateLockedCoins ::
    "'b token_env \<Rightarrow> 'b token_world \<Rightarrow> acc_address \<Rightarrow> sys_coins \<Rightarrow> bool \<Rightarrow> int \<Rightarrow> token_error + 'b token_world" where
  "updateLockedCoins E w addr coins doAdd lockCoinsType =
     bindE (lockStore w lockCoinsType) (\<lambda>store.
     bindE
       (if doAdd then
          (case kv_get store addr of
             None \<Rightarrow> Inr coins
           | Some oldCoins \<Rightarrow> Inr (Add2 E oldCoins coins))
        else
          (case kv_get store addr of
             None \<Rightarrow> Inl (ErrFailedToUnlockAddress coins addr)
           | Some oldCoins \<Rightarrow>
               let (newCoins, isNegative) = SafeSub (tc_coins E) oldCoins coins
               in if isNegative then Inl (ErrFailedToUnlockAddress coins addr) else Inr newCoins))
       (\<lambda>newCoins.
          let newCoins = sort_key Denom newCoins
          in Inr (setLockStore w lockCoinsType
               (if newCoins \<noteq> [] then kv_set addr newCoins store else kv_del addr store))))"

definition LockCoins ::
    "'b token_env \<Rightarrow> 'b token_world \<Rightarrow> acc_address \<Rightarrow> sys_coins \<Rightarrow> int \<Rightarrow> token_error + 'b token_world" where
  "LockCoins E w addr coins lockCoinsType =
     bindE (withBank ErrSendCoinsFromAccountToModuleFailed w
              (AccountToModule (tc_supply E) (tw_bank w) addr TokenModuleName coins)) (\<lambda>w.
       updateLockedCoins E w addr coins True lockCoinsType)"

definition UnlockCoins ::
    "'b token_env \<Rightarrow> 'b token_world \<Rightarrow> acc_address \<Rightarrow> sys_coins \<Rightarrow> int \<Rightarrow> token_error + 'b token_world" where
  "UnlockCoins E w addr coins lockCoinsType =
     bindE (updateLockedCoins E w addr coins False lockCoinsType) (\<lambda>w.
       withBank ErrTokenModuleToAccountFailed w
         (ModuleToAccount (tc_supply E) (tw_bank w) TokenModuleName addr coins))"

definition GetLockedCoins :: "'b token_world \<Rightarrow> acc_address \<Rightarrow> sys_coins" where
  "GetLockedCoins w addr = (case kv_get (tw_locked w) addr of None \<Rightarrow> [] | Some coins \<Rightarrow> coins)"

definition GetAllLockedCoins :: "'b token_world \<Rightarrow> AccCoins list" where
  "GetAllLockedCoins w = map (\<lambda>e. \<lparr>acAcc = fst e, acCoins = snd e\<rparr>) (kv_list (tw_locked w))"

fun iterateFees :: "(acc_address \<Rightarrow> sys_coins \<Rightarrow> 's \<Rightarrow> bool \<times> 's) \<Rightarrow> (acc_address \<times> sys_coins) list \<Rightarrow> 's \<Rightarrow> 's" where
  "iterateFees cb [] s = s"
| "iterateFees cb ((acc, coins) # es) s =
     (case cb acc coins s of (stop, s) \<Rightarrow> if stop then s else iterateFees cb es s)"

text \<open>The callback of the Go iterator closes over variables, passed here as the state \<open>s\<close>.\<close>

definition IterateLockedFees :: "'b token_world \<Rightarrow> (acc_address \<Rightarrow> sys_coins \<Rightarrow> 's \<Rightarrow> bool \<times> 's) \<Rightarrow> 's \<Rightarrow> 's" where
  "IterateLockedFees w cb s = iterateFees cb (kv_list (tw_lockedFees w)) s"

definition BalanceAccount ::
    "'b token_env \<Rightarrow> 'b token_world \<Rightarrow> acc_address \<Rightarrow> sys_coins \<Rightarrow> sys_coins \<Rightarrow> token_error + 'b token_world" where
  "BalanceAccount E w addr outputCoins inputCoins =
     bindE
       (if \<not> CoinsIsZero (tc_coins E) outputCoins then
          (case updateLockedCoins E w addr outputCoins False LockCoinsTypeQuantity of
             Inl _ \<Rightarrow> Inl ErrUpdateLockedCoins
           | Inr w \<Rightarrow> Inr w)
        else Inr w)
       (\<lambda>w. if \<not> CoinsIsZero (tc_coins E) inputCoins then
               withBank TokenBank w (ModuleToAccount (tc_supply E) (tw_bank w) TokenModuleName addr inputCoins)
             else Inr w)"

definition GetCoinsInfo :: "'b token_env \<Rightarrow> 'b token_world \<Rightarrow> acc_address \<Rightarrow> CoinInfo list" where
  "GetCoinsInfo E w addr =
     MergeCoinInfo (DecString E) (GetCoins (tc_supply E) (tw_bank w) addr) (GetLockedCoins w addr)"

definition AddFeeDetail ::
    "'b token_env \<Rightarrow> token_ctx \<Rightarrow> 'b token_world \<Rightarrow> string \<Rightarrow> sys_coins \<Rightarrow> string \<Rightarrow> string \<Rightarrow> 'b token_world" where
  "AddFeeDetail E ctx w from fee feeType receiver =
     (if enableBackend E then
        w\<lparr>tw_feeDetails := tw_feeDetails w @
           [\<lparr>fdAddress = from, fdReceiver = receiver, fdFee = fee, fdFeeType = feeType,
             fdTimestamp = tcBlockTime ctx div 10 ^ 9\<rparr>]\<rparr>
      else w)"

subsection \<open>Symbols and pending ownership\<close>

definition hexDigit :: "nat \<Rightarrow> char" where
  "hexDigit n = char_of (if n < 10 then 48 + n else 87 + n)"

definition hexString :: "bytes \<Rightarrow> string" where
  "hexString bs = concat (map (\<lambda>b. [hexDigit (unat b div 16), hexDigit (unat b mod 16)]) bs)"

definition toLowerAscii :: "char \<Rightarrow> char" where
  "toLowerAscii c = (if isUpperAscii c then char_of (of_char c + 32 :: nat) else c)"

definition suffixName :: "string \<Rightarrow> string \<Rightarrow> nat \<Rightarrow> string" where
  "suffixName originalSymbol hash i = originalSymbol @ ''-'' @ map toLowerAscii (take 3 (drop (3 * i) hash))"

text \<open>The loop of \<open>addTokenSuffix\<close> over \<open>i - 1\<close>, ..., 0; \<open>None\<close> is the result \<open>("", false)\<close>.\<close>

fun suffixLoop :: "'b token_env \<Rightarrow> 'b token_world \<Rightarrow> string \<Rightarrow> string \<Rightarrow> nat \<Rightarrow> string option" where
  "suffixLoop E w originalSymbol hash 0 = None"
| "suffixLoop E w originalSymbol hash (Suc i) =
     (let name = suffixName originalSymbol hash i
      in if \<not> denomValid E name then None
         else if \<not> TokenExist w name then Some name
         else suffixLoop E w originalSymbol hash i)"

definition addTokenSuffix :: "'b token_env \<Rightarrow> token_ctx \<Rightarrow> 'b token_world \<Rightarrow> string \<Rightarrow> string option" where
  "addTokenSuffix E ctx w originalSymbol =
     (let hash = hexString (tmhashSum E (TxBytes ctx))
      in suffixLoop E w originalSymbol hash (length hash div 3))"

definition GetConfirmOwnership :: "'b token_world \<Rightarrow> string \<Rightarrow> ConfirmOwnership option" where
  "GetConfirmOwnership w symbol = kv_get (tw_confirm w) symbol"

definition SetConfirmOwnership :: "'b token_world \<Rightarrow> ConfirmOwnership \<Rightarrow> 'b token_world" where
  "SetConfirmOwnership w c = w\<lparr>tw_confirm := kv_set (coSymbol c) c (tw_confirm w)\<rparr>"

definition DeleteConfirmOwnership :: "'b token_world \<Rightarrow> string \<Rightarrow> 'b token_world" where
  "DeleteConfirmOwnership w symbol = w\<lparr>tw_confirm := kv_del symbol (tw_confirm w)\<rparr>"

subsection \<open>Message handlers\<close>

text \<open>The fee goes to the fee collector. The wrapped message is the one of the bank; three of the handlers
  print the fee there instead.\<close>

definition payFee :: "'b token_env \<Rightarrow> 'b token_world \<Rightarrow> acc_address \<Rightarrow> sys_coin \<Rightarrow> token_error + 'b token_world" where
  "payFee E w payer fee =
     withBank ErrSendCoinsFromAccountToModuleFailed w
       (AccountToModule (tc_supply E) (tw_bank w) payer (tc_feeCollectorName E) (ToCoins (tc_dec E) fee))"

definition handleMsgTokenIssue ::
    "'b token_env \<Rightarrow> token_ctx \<Rightarrow> 'b token_world \<Rightarrow> MsgTokenIssue \<Rightarrow> token_error + 'b token_world" where
  "handleMsgTokenIssue E ctx w msg =
     (case NewDecFromStr (tc_dec E) (miTotalSupply msg) of
        None \<Rightarrow> Inl ErrGetDecimalFromDecimalStringFailed
      | Some totalSupply \<Rightarrow>
          if NewDec (tc_dec E) TotalSupplyUpperbound < totalSupply then Inl ErrAmountBiggerThanTotalSupplyUpperbound
          else
            case addTokenSuffix E ctx w (miOriginalSymbol msg) of
              None \<Rightarrow> Inl ErrInvalidCoins
            | Some newName \<Rightarrow>
                let token = \<lparr>tDescription = miDescription msg, Symbol = newName,
                       OriginalSymbol = miOriginalSymbol msg, WholeName = miWholeName msg,
                       OriginalTotalSupply = totalSupply, tType = 0, Owner = miOwner msg,
                       Mintable = miMintable msg\<rparr>
                in case MustParseCoins E (Symbol token) (miTotalSupply msg) of
                     None \<Rightarrow> Inl (TokenPanic ''MustParseCoins'')
                   | Some coins \<Rightarrow>
                       bindE (withBank ErrMintCoinsFailed w (MintCoins E (tw_bank w) TokenModuleName coins)) (\<lambda>w.
                       bindE (withBank ErrTokenModuleToAccountFailed w
                                (ModuleToAccount (tc_supply E) (tw_bank w) TokenModuleName (Owner token) coins)) (\<lambda>w.
                         let w = NewToken w token
                         in payFee E w (Owner token) (FeeIssue (tw_params w)))))"

definition handleMsgTokenBurn ::
    "'b token_env \<Rightarrow> 'b token_world \<Rightarrow> sys_coin \<Rightarrow> acc_address \<Rightarrow> token_error + 'b token_world" where
  "handleMsgTokenBurn E w amount owner =
     (let token = GetTokenInfo w (Denom amount)
      in if Owner token \<noteq> owner then Inl (ErrInputOwnerIsNotEqualTokenOwner owner)
         else
           let subCoins = ToCoins (tc_dec E) amount
           in bindE (withBank ErrSendCoinsFromAccountToModuleFailed w
                       (AccountToModule (tc_supply E) (tw_bank w) owner TokenModuleName subCoins)) (\<lambda>w.
              bindE (withBank ErrBurnCoinsFailed w (BurnCoins E (tw_bank w) TokenModuleName subCoins)) (\<lambda>w.
                payFee E w owner (FeeBurn (tw_params w)))))"

definition handleMsgTokenMint ::
    "'b token_env \<Rightarrow> 'b token_world \<Rightarrow> sys_coin \<Rightarrow> acc_address \<Rightarrow> token_error + 'b token_world" where
  "handleMsgTokenMint E w amount owner =
     (let token = GetTokenInfo w (Denom amount)
      in if Owner token \<noteq> owner then Inl (ErrInputOwnerIsNotEqualTokenOwner owner)
         else if \<not> Mintable token then Inl ErrTokenIsNotMintable
         else
           let totalSupplyAfterMint = GetSupplyByDenom E (tw_bank w) (Denom amount) + Amount amount
           in if NewDec (tc_dec E) TotalSupplyUpperbound < totalSupplyAfterMint
              then Inl (ErrTotalsupplyExceedsTheUpperLimit totalSupplyAfterMint)
              else
                let mintCoins = ToCoins (tc_dec E) amount
                in bindE (withBank ErrMintCoinsFailed w (MintCoins E (tw_bank w) TokenModuleName mintCoins)) (\<lambda>w.
                   bindE (withBank ErrTokenModuleToAccountFailed w
                            (ModuleToAccount (tc_supply E) (tw_bank w) TokenModuleName owner mintCoins)) (\<lambda>w.
                     payFee E w owner (FeeMint (tw_params w)))))"

definition sendUnit ::
    "'b token_env \<Rightarrow> acc_address \<Rightarrow> 'b token_world \<Rightarrow> acc_address \<Rightarrow> sys_coins \<Rightarrow> token_error + 'b token_world" where
  "sendUnit E from w to coins =
     (case SendCoinsFromAccountToAccount E w from to coins of
        Inl e \<Rightarrow> Inl (ErrSendCoinsFromAccountToAccountFailed e)
      | Inr w \<Rightarrow> Inr w)"

definition handleMsgMultiSend ::
    "'b token_env \<Rightarrow> 'b token_world \<Rightarrow> acc_address \<Rightarrow> TransferUnit list \<Rightarrow> token_error + 'b token_world" where
  "handleMsgMultiSend E w from transfers =
     (if \<not> GetSendEnabled E (tw_bank w) then Inl ErrSendDisabled
      else foldE (\<lambda>w t. sendUnit E from w (trTo t) (trCoins t)) w transfers)"

definition handleMsgSend ::
    "'b token_env \<Rightarrow> 'b token_world \<Rightarrow> acc_address \<Rightarrow> acc_address \<Rightarrow> sys_coins \<Rightarrow> token_error + 'b token_world" where
  "handleMsgSend E w from to amount =
     (if \<not> GetSendEnabled E (tw_bank w) then Inl ErrSendDisabled else sendUnit E from w to amount)"

definition handleMsgTransferOwnership ::
    "'b token_env \<Rightarrow> token_ctx \<Rightarrow> 'b token_world \<Rightarrow> acc_address \<Rightarrow> acc_address \<Rightarrow> string \<Rightarrow> token_error + 'b token_world" where
  "handleMsgTransferOwnership E ctx w from to symbol =
     (let tokenInfo = GetTokenInfo w symbol
      in if Owner tokenInfo \<noteq> from then Inl (ErrFromAddressIsNotTokenOwner from)
         else if (case GetConfirmOwnership w symbol of
                    None \<Rightarrow> False
                  | Some confirmOwnership \<Rightarrow> \<not> coExpire confirmOwnership < tcBlockTime ctx)
         then Inl ErrConfirmOwnershipNotExistOrBlockTimeAfter
         else
           let w =
             (if to = BlackHoleAddress then
                let w = DeleteUserToken w (Owner tokenInfo) (Symbol tokenInfo)
                in NewToken w (tokenInfo\<lparr>Owner := to\<rparr>)
              else
                SetConfirmOwnership w
                  \<lparr>coSymbol = symbol, coAddress = to,
                   coExpire = tcBlockTime ctx + OwnershipConfirmWindow (tw_params w)\<rparr>)
           in payFee E w from (FeeChown (tw_params w)))"

text \<open>The deletion of an expired record is part of a failing message and so rolled back with it.\<close>

definition handleMsgConfirmOwnership ::
    "'b token_env \<Rightarrow> token_ctx \<Rightarrow> 'b token_world \<Rightarrow> string \<Rightarrow> acc_address \<Rightarrow> token_error + 'b token_world" where
  "handleMsgConfirmOwnership E ctx w symbol addr =
     (case GetConfirmOwnership w symbol of
        None \<Rightarrow> Inl ErrGetConfirmOwnership
      | Some confirmOwnership \<Rightarrow>
          if coExpire confirmOwnership < tcBlockTime ctx then Inl ErrConfirmOwnershipNotExistOrBlockTimeAfter
          else if coAddress confirmOwnership \<noteq> addr then Inl (ErrConfirmAddressNotEqualsMsgAddress addr)
          else
            let tokenInfo = GetTokenInfo w symbol;
                w = DeleteUserToken w (Owner tokenInfo) (Symbol tokenInfo);
                w = NewToken w (tokenInfo\<lparr>Owner := addr\<rparr>)
            in Inr (DeleteConfirmOwnership w (coSymbol confirmOwnership)))"

definition handleMsgTokenModify ::
    "'b token_env \<Rightarrow> 'b token_world \<Rightarrow> MsgTokenModify \<Rightarrow> token_error + 'b token_world" where
  "handleMsgTokenModify E w msg =
     (let token = GetTokenInfo w (mmSymbol msg)
      in if Owner token \<noteq> mmOwner msg then Inl (ErrInputOwnerIsNotEqualTokenOwner (mmOwner msg))
         else if \<not> IsWholeNameModified msg \<and> \<not> IsDescriptionModified msg then Inl ErrWholeNameAndDescriptionIsNotModified
         else
           let token = (if IsWholeNameModified msg then token\<lparr>WholeName := mmWholeName msg\<rparr> else token);
               token = (if IsDescriptionModified msg then token\<lparr>tDescription := mmDescription msg\<rparr> else token);
               w = UpdateToken w token
           in payFee E w (mmOwner msg) (FeeModify (tw_params w)))"

definition token_handler ::
    "'b token_env \<Rightarrow> token_ctx \<Rightarrow> 'b token_world \<Rightarrow> token_msg \<Rightarrow> token_error + 'b token_world" where
  "token_handler E ctx w m =
     (case m of
        TokenIssue msg \<Rightarrow> handleMsgTokenIssue E ctx w msg
      | TokenBurn amount owner \<Rightarrow> handleMsgTokenBurn E w amount owner
      | TokenMint amount owner \<Rightarrow> handleMsgTokenMint E w amount owner
      | MultiSend from transfers \<Rightarrow> handleMsgMultiSend E w from transfers
      | Send from to amount \<Rightarrow> handleMsgSend E w from to amount
      | TransferOwnership from to symbol \<Rightarrow> handleMsgTransferOwnership E ctx w from to symbol
      | MsgConfirmOwnership symbol addr \<Rightarrow> handleMsgConfirmOwnership E ctx w symbol addr
      | TokenModify msg \<Rightarrow> handleMsgTokenModify E w msg)"

definition tokenBeginBlocker :: "'b token_world \<Rightarrow> 'b token_world" where
  "tokenBeginBlocker w = ResetCache w"

subsection \<open>Genesis\<close>

record token_genesis =
  tgParams :: token_params
  tgTokens :: "Token list"
  tgLockedAssets :: "AccCoins list"
  tgLockedFees :: "AccCoins list"

text \<open>The owner is the constant address of the source, decoded by the SDK.\<close>

definition defaultGenesisStateOKT :: "'b token_env \<Rightarrow> acc_address \<Rightarrow> Token" where
  "defaultGenesisStateOKT E addr =
     \<lparr>tDescription = ''Token'', Symbol = DefaultBondDenom (tc_dec E), OriginalSymbol = DefaultBondDenom (tc_dec E),
      WholeName = ''FAX'', OriginalTotalSupply = NewDec (tc_dec E) 2009010301, tType = 0, Owner = addr, Mintable = True\<rparr>"

definition defaultTokenGenesis :: "'b token_env \<Rightarrow> acc_address \<Rightarrow> token_error + token_genesis" where
  "defaultTokenGenesis E addr =
     bindE (DefaultTokenParams E) (\<lambda>p.
       Inr \<lparr>tgParams = p, tgTokens = [defaultGenesisStateOKT E addr], tgLockedAssets = [], tgLockedFees = []\<rparr>)"

fun validateTokenGenesis :: "'b token_env \<Rightarrow> Token list \<Rightarrow> token_error option" where
  "validateTokenGenesis E [] = None"
| "validateTokenGenesis E (token # tokens) =
     (case issueValidateBasic E
         \<lparr>miDescription = tDescription token, miSymbol = Symbol token, miOriginalSymbol = OriginalSymbol token,
          miWholeName = WholeName token, miTotalSupply = DecString E (OriginalTotalSupply token),
          miOwner = Owner token, miMintable = Mintable token\<rparr> of
        Some e \<Rightarrow> Some e
      | None \<Rightarrow> validateTokenGenesis E tokens)"

definition lockGenesis :: "'b token_env \<Rightarrow> int \<Rightarrow> 'b token_world \<Rightarrow> AccCoins \<Rightarrow> token_error + 'b token_world" where
  "lockGenesis E ty w lock = updateLockedCoins E w (acAcc lock) (acCoins lock) True ty"

definition tokenInitGenesis :: "'b token_env \<Rightarrow> 'b token_world \<Rightarrow> token_genesis \<Rightarrow> token_error + 'b token_world" where
  "tokenInitGenesis E w data =
     (let w = w\<lparr>tw_params := tgParams data\<rparr>;
          w = foldl NewToken w (tgTokens data)
      in bindE (foldE (lockGenesis E LockCoinsTypeQuantity) w (tgLockedAssets data)) (\<lambda>w.
           foldE (lockGenesis E LockCoinsTypeFee) w (tgLockedFees data)))"

definition tokenExportGenesis :: "'b token_world \<Rightarrow> token_genesis" where
  "tokenExportGenesis w =
     \<lparr>tgParams = tw_params w, tgTokens = GetTokensInfo w, tgLockedAssets = GetAllLockedCoins w,
      tgLockedFees = IterateLockedFees w (\<lambda>acc coins fees. (False, fees @ [\<lparr>acAcc = acc, acCoins = coins\<rparr>])) []\<rparr>"

subsection \<open>Queries\<close>

text \<open>The values the queries answer with, before they are rendered as JSON.\<close>

definition respOf :: "'b token_env \<Rightarrow> 'b token_world \<Rightarrow> Token \<Rightarrow> TokenResp" where
  "respOf E w token = (GenTokenResp token)\<lparr>respTotalSupply := GetTokenTotalSupply E w (Symbol token)\<rparr>"

definition queryInfo :: "'b token_env \<Rightarrow> 'b token_world \<Rightarrow> string \<Rightarrow> token_error + TokenResp" where
  "queryInfo E w name =
     (let token = GetTokenInfo w name
      in if Symbol token = [] then Inl ErrInvalidCoins
         else Inr ((GenTokenResp token)\<lparr>respTotalSupply := GetTokenTotalSupply E w name\<rparr>))"

definition queryTokens :: "'b token_env \<Rightarrow> 'b token_world \<Rightarrow> acc_address option \<Rightarrow> TokenResp list" where
  "queryTokens E w owner =
     map (respOf E w) (case owner of None \<Rightarrow> GetTokensInfo w | Some addr \<Rightarrow> GetUserTokensInfo w addr)"

definition missingTokens :: "'b token_world \<Rightarrow> CoinInfo list \<Rightarrow> CoinInfo list" where
  "missingTokens w coinsInfo =
     map (\<lambda>t. NewCoinInfo (Symbol t) ''0'' ''0'')
       (filter (\<lambda>t. \<not> list_ex (\<lambda>ci. ciSymbol ci = Symbol t) coinsInfo) (GetTokensInfo w))"

definition queryAccount :: "'b token_env \<Rightarrow> 'b token_world \<Rightarrow> acc_address \<Rightarrow> string \<Rightarrow> string \<Rightarrow> CoinInfo list" where
  "queryAccount E w addr symbol shw =
     (let coinsInfo = GetCoinsInfo E w addr
      in if symbol = [] then
           (if shw = ''all'' then coinsInfo @ missingTokens w coinsInfo else coinsInfo)
         else filter (\<lambda>ci. ciSymbol ci = symbol) coinsInfo)"

definition queryAccountV2 :: "'b token_env \<Rightarrow> 'b token_world \<Rightarrow> acc_address \<Rightarrow> string \<Rightarrow> string \<Rightarrow> CoinInfo list" where
  "queryAccountV2 E w addr currency hideZero =
     (let coinsInfo = GetCoinsInfo E w addr
      in if currency = [] then
           (if hideZero = ''no'' then coinsInfo @ missingTokens w coinsInfo else coinsInfo)
         else filter (\<lambda>ci. ciSymbol ci = currency) coinsInfo)"

end
