(* ===== verification/Token_Registry.thy ===== *)
theory Token_Registry
  imports Token_Keeper
begin

text \<open>
  The registry of tokens: which tokens exist, who owns them, the index of tokens by owner and the
  pending transfers of ownership. \<open>registry_ok\<close> is its invariant, kept by every handler, and
  \<open>owner_moves\<close> says which messages change an owner.
\<close>

named_theorems tk_defs \<comment> \<open>operations on the registry\<close>

declare NewToken_def [tk_defs] UpdateToken_def [tk_defs] DeleteUserToken_def [tk_defs] GetTokenInfo_def [tk_defs]
  TokenExist_def [tk_defs] GetConfirmOwnership_def [tk_defs] SetConfirmOwnership_def [tk_defs]
  DeleteConfirmOwnership_def [tk_defs] Let_def [tk_defs]

abbreviation tokenAt :: "'b token_world \<Rightarrow> string \<Rightarrow> Token option" where
  "tokenAt w s \<equiv> kv_get (tw_tokens w) s"

abbreviation pending :: "'b token_world \<Rightarrow> string \<Rightarrow> ConfirmOwnership option" where
  "pending w s \<equiv> kv_get (tw_confirm w) s"

definition ownerOf :: "'b token_world \<Rightarrow> string \<Rightarrow> acc_address option" where
  "ownerOf w s = map_option Owner (tokenAt w s)"

text \<open>Tokens are stored under their symbol.\<close>

definition tokens_keyed :: "'b token_world \<Rightarrow> bool" where
  "tokens_keyed w \<longleftrightarrow> (\<forall>s t. tokenAt w s = Some t \<longrightarrow> Symbol t = s)"

text \<open>The index by owner holds exactly the tokens with their present owners.\<close>

definition index_exact :: "'b token_world \<Rightarrow> bool" where
  "index_exact w \<longleftrightarrow> (\<forall>a s. kv_get (tw_userTokens w) (a, s) \<noteq> None \<longleftrightarrow> ownerOf w s = Some a)"

definition pending_ok :: "'b token_world \<Rightarrow> bool" where
  "pending_ok w \<longleftrightarrow> (\<forall>s c. pending w s = Some c \<longrightarrow> coSymbol c = s \<and> tokenAt w s \<noteq> None \<and> coAddress c \<noteq> BlackHoleAddress)"

text \<open>A token of the black hole has no transfer that could still be confirmed.\<close>

definition hole_closed :: "timestamp \<Rightarrow> 'b token_world \<Rightarrow> bool" where
  "hole_closed now w \<longleftrightarrow>
     (\<forall>s c. ownerOf w s = Some BlackHoleAddress \<longrightarrow> pending w s = Some c \<longrightarrow> coExpire c < now)"

definition registry_ok :: "timestamp \<Rightarrow> 'b token_world \<Rightarrow> bool" where
  "registry_ok now w \<longleftrightarrow> tokens_keyed w \<and> index_exact w \<and> pending_ok w \<and> hole_closed now w"

lemma registry_okD:
  assumes "registry_ok now w"
  shows "tokenAt w s = Some t \<Longrightarrow> Symbol t = s"
    and "kv_get (tw_userTokens w) (a, s) \<noteq> None \<longleftrightarrow> ownerOf w s = Some a"
    and "pending w s = Some c \<Longrightarrow> coSymbol c = s"
    and "pending w s = Some c \<Longrightarrow> \<exists>t. tokenAt w s = Some t"
    and "pending w s = Some c \<Longrightarrow> coAddress c \<noteq> BlackHoleAddress"
    and "ownerOf w s = Some BlackHoleAddress \<Longrightarrow> pending w s = Some c \<Longrightarrow> coExpire c < now"
  using assms
  by (auto simp: registry_ok_def tokens_keyed_def index_exact_def pending_ok_def hole_closed_def)

text \<open>The registry as a part of the state.\<close>

definition same_registry :: "'b token_world \<Rightarrow> 'b token_world \<Rightarrow> bool" where
  "same_registry w w' \<longleftrightarrow>
     tw_tokens w' = tw_tokens w \<and> tw_userTokens w' = tw_userTokens w \<and> tw_confirm w' = tw_confirm w"

lemma same_registry_refl [simp]: "same_registry w w"
  by (simp add: same_registry_def)

lemma same_registry_trans: "same_registry w w' \<Longrightarrow> same_registry w' w'' \<Longrightarrow> same_registry w w''"
  by (simp add: same_registry_def)

lemma same_registry_ok: "same_registry w w' \<Longrightarrow> registry_ok now w \<Longrightarrow> registry_ok now w'"
  by (simp add: same_registry_def registry_ok_def tokens_keyed_def index_exact_def pending_ok_def hole_closed_def ownerOf_def)

lemma same_registry_owner: "same_registry w w' \<Longrightarrow> ownerOf w' = ownerOf w"
  by (simp add: same_registry_def ownerOf_def fun_eq_iff)

lemma registry_later: "registry_ok now w \<Longrightarrow> now \<le> now' \<Longrightarrow> registry_ok now' w"
  by (fastforce simp: registry_ok_def hole_closed_def)

lemma withBank_Inr [res_simps]: "withBank err w r = Inr w' \<longleftrightarrow> (\<exists>b. r = Inr b \<and> w' = w\<lparr>tw_bank := b\<rparr>)"
  by (auto simp: withBank_def split: sum.splits)

lemma same_registry_bank [simp]: "same_registry w (w\<lparr>tw_bank := b\<rparr>)"
  by (simp add: same_registry_def)

lemma same_registry_bank' [simp]: "same_registry (w\<lparr>tw_bank := b\<rparr>) w' \<longleftrightarrow> same_registry w w'"
  by (simp add: same_registry_def)

lemma payFee_registry: "payFee E w a f = Inr w' \<Longrightarrow> same_registry w w'"
  by (auto simp: payFee_def res_simps)

lemma sendUnit_bank: "sendUnit E from w to cs = Inr w' \<Longrightarrow>
    \<exists>b. SendCoins E (tw_bank w) from to cs = Inr b \<and> w' = w\<lparr>tw_bank := b\<rparr> \<and> \<not> bankBlacklisted E to"
  by (auto simp: sendUnit_def SendCoinsFromAccountToAccount_def res_simps split: sum.splits)

lemma sendUnit_registry: "sendUnit E from w to cs = Inr w' \<Longrightarrow> same_registry w w'"
  by (auto dest: sendUnit_bank)

lemma multiSend_registry: "handleMsgMultiSend E w from ts = Inr w' \<Longrightarrow> same_registry w w'"
  unfolding handleMsgMultiSend_def
  by (auto simp: res_simps elim!: foldE_invariant intro: same_registry_trans sendUnit_registry)

subsection \<open>The operations\<close>

lemma ownerOf_zero: "Owner (GetTokenInfo w s) = a \<Longrightarrow> a \<noteq> [] \<Longrightarrow> \<exists>t. tokenAt w s = Some t \<and> GetTokenInfo w s = t \<and> ownerOf w s = Some a"
  by (cases "tokenAt w s") (auto simp: GetTokenInfo_def zeroToken_def ownerOf_def)

text \<open>A new token under a free symbol.\<close>

lemma NewToken_fresh:
  assumes "registry_ok now w" and "\<not> TokenExist w (Symbol t)"
  shows "registry_ok now (NewToken w t)"
proof -
  have none: "tokenAt w (Symbol t) = None" using assms(2) by (simp add: TokenExist_def)
  then have "pending w (Symbol t) = None" using registry_okD(4) [OF assms(1), of "Symbol t"] by (cases "pending w (Symbol t)") auto
  moreover have "kv_get (tw_userTokens w) (a, Symbol t) = None" for a
    using registry_okD(2) [OF assms(1), of a "Symbol t"] none
    by (cases "kv_get (tw_userTokens w) (a, Symbol t)") (auto simp: ownerOf_def)
  ultimately show ?thesis
    using assms(1) none
    by (auto simp: registry_ok_def tokens_keyed_def index_exact_def pending_ok_def hole_closed_def ownerOf_def NewToken_def Let_def)
qed

text \<open>The change of owner both ways of transferring a token end in.\<close>

definition moveToken :: "'b token_world \<Rightarrow> Token \<Rightarrow> acc_address \<Rightarrow> 'b token_world" where
  "moveToken w t a = NewToken (DeleteUserToken w (Owner t) (Symbol t)) (t\<lparr>Owner := a\<rparr>)"

lemma moveToken_get:
  assumes "tokenAt w s = Some t" and "Symbol t = s"
  shows "tokenAt (moveToken w t a) s' = (if s' = s then Some (t\<lparr>Owner := a\<rparr>) else tokenAt w s')"
    and "pending (moveToken w t a) = pending w"
    and "ownerOf (moveToken w t a) s' = (if s' = s then Some a else ownerOf w s')"
    and "kv_get (tw_userTokens (moveToken w t a)) (b, s') =
       (if (b, s') = (a, s) then Some () else if (b, s') = (Owner t, s) then None else kv_get (tw_userTokens w) (b, s'))"
  using assms by (auto simp: moveToken_def NewToken_def DeleteUserToken_def Let_def ownerOf_def)

lemma moveToken_ok:
  assumes R: "registry_ok now w" and t: "tokenAt w s = Some t"
    and closed: "a = BlackHoleAddress \<Longrightarrow> \<forall>c. pending w s = Some c \<longrightarrow> coExpire c < now"
  shows "registry_ok now (moveToken w t a)"
proof -
  note sym = registry_okD(1) [OF R t] and get = moveToken_get [OF t registry_okD(1) [OF R t]]
  have own: "ownerOf w s = Some (Owner t)" using t by (simp add: ownerOf_def)
  have "index_exact (moveToken w t a)"
    using registry_okD(2) [OF R] own unfolding index_exact_def get by auto
  moreover have "tokens_keyed (moveToken w t a)" "pending_ok (moveToken w t a)" "hole_closed now (moveToken w t a)"
    using R sym closed unfolding registry_ok_def tokens_keyed_def pending_ok_def hole_closed_def get by auto
  ultimately show ?thesis by (simp add: registry_ok_def)
qed

lemma SetConfirm_ok:
  assumes R: "registry_ok now w" and t: "tokenAt w (coSymbol c) = Some t" and o: "Owner t \<noteq> BlackHoleAddress"
    and a: "coAddress c \<noteq> BlackHoleAddress"
  shows "registry_ok now (SetConfirmOwnership w c)"
  using assms
  by (auto simp: registry_ok_def tokens_keyed_def index_exact_def pending_ok_def hole_closed_def ownerOf_def SetConfirmOwnership_def)

lemma DeleteConfirm_ok: "registry_ok now w \<Longrightarrow> registry_ok now (DeleteConfirmOwnership w s)"
  by (auto simp: registry_ok_def tokens_keyed_def index_exact_def pending_ok_def hole_closed_def ownerOf_def DeleteConfirmOwnership_def)

lemma UpdateToken_ok:
  assumes "registry_ok now w" and "tokenAt w s = Some t" and "Symbol t' = Symbol t" and "Owner t' = Owner t"
  shows "registry_ok now (UpdateToken w t')" and "ownerOf (UpdateToken w t') = ownerOf w"
proof -
  have "Symbol t' = s" using registry_okD(1) [OF assms(1,2)] assms(3) by simp
  with assms show "registry_ok now (UpdateToken w t')" "ownerOf (UpdateToken w t') = ownerOf w"
    by (auto simp: registry_ok_def tokens_keyed_def index_exact_def pending_ok_def hole_closed_def ownerOf_def UpdateToken_def fun_eq_iff)
qed

lemma suffixLoop_fresh: "suffixLoop E w orig hash n = Some name \<Longrightarrow> \<not> TokenExist w name \<and> denomValid E name"
  by (induction n) (auto simp: Let_def split: if_splits)

lemma addTokenSuffix_fresh: "addTokenSuffix E ctx w orig = Some name \<Longrightarrow> \<not> TokenExist w name \<and> denomValid E name"
  by (auto simp: addTokenSuffix_def Let_def dest: suffixLoop_fresh)

subsection \<open>The handlers\<close>

lemma NewToken_owner: "ownerOf (NewToken w t) s = (if s = Symbol t then Some (Owner t) else ownerOf w s)"
  by (simp add: NewToken_def Let_def ownerOf_def)

lemma NewToken_fields [simp]:
  "tw_bank (NewToken w t) = tw_bank w" "tw_params (NewToken w t) = tw_params w" "tw_locked (NewToken w t) = tw_locked w"
  "tw_lockedFees (NewToken w t) = tw_lockedFees w" "tw_confirm (NewToken w t) = tw_confirm w"
  "tw_tokens (NewToken w t) = kv_set (Symbol t) t (tw_tokens w)"
  by (simp_all add: NewToken_def Let_def)

definition issuedToken :: "MsgTokenIssue \<Rightarrow> string \<Rightarrow> dec \<Rightarrow> Token" where
  "issuedToken msg newName totalSupply =
     \<lparr>tDescription = miDescription msg, Symbol = newName, OriginalSymbol = miOriginalSymbol msg, WholeName = miWholeName msg,
      OriginalTotalSupply = totalSupply, tType = 0, Owner = miOwner msg, Mintable = miMintable msg\<rparr>"

lemma issuedToken_sel [simp]: "Symbol (issuedToken msg n x) = n" "Owner (issuedToken msg n x) = miOwner msg"
  by (simp_all add: issuedToken_def)

lemma issue_cases:
  assumes "handleMsgTokenIssue E ctx w msg = Inr w'"
  obtains x newName coins b1 b2 where
    "NewDecFromStr (tc_dec E) (miTotalSupply msg) = Some x" and "x \<le> NewDec (tc_dec E) TotalSupplyUpperbound"
    and "addTokenSuffix E ctx w (miOriginalSymbol msg) = Some newName"
    and "MustParseCoins E newName (miTotalSupply msg) = Some coins"
    and "MintCoins E (tw_bank w) TokenModuleName coins = Inr b1"
    and "ModuleToAccount (tc_supply E) b1 TokenModuleName (miOwner msg) coins = Inr b2"
    and "payFee E (NewToken (w\<lparr>tw_bank := b2\<rparr>) (issuedToken msg newName x)) (miOwner msg) (FeeIssue (tw_params w)) = Inr w'"
  using assms unfolding handleMsgTokenIssue_def issuedToken_def [symmetric]
  by (auto simp: Let_def res_simps not_less split: option.splits if_splits)

lemma issue_registry:
  assumes R: "registry_ok now w" and h: "handleMsgTokenIssue E ctx w msg = Inr w'"
  shows "registry_ok now w'"
    and "ownerOf w' s \<noteq> ownerOf w s \<Longrightarrow> ownerOf w s = None \<and> ownerOf w' s = Some (miOwner msg)"
proof -
  from h obtain x newName b where new: "addTokenSuffix E ctx w (miOriginalSymbol msg) = Some newName"
    and fee: "payFee E (NewToken (w\<lparr>tw_bank := b\<rparr>) (issuedToken msg newName x)) (miOwner msg) (FeeIssue (tw_params w)) = Inr w'"
    by (rule issue_cases) blast
  let ?t = "issuedToken msg newName x"
  have t: "\<not> TokenExist w (Symbol ?t)" "Owner ?t = miOwner msg" using addTokenSuffix_fresh [OF new] by simp_all
  from fee have same: "same_registry (NewToken (w\<lparr>tw_bank := b\<rparr>) ?t) w'" by (rule payFee_registry)
  have w: "registry_ok now (w\<lparr>tw_bank := b\<rparr>)" "\<not> TokenExist (w\<lparr>tw_bank := b\<rparr>) (Symbol ?t)"
    using same_registry_ok [OF same_registry_bank R] t(1) by (simp_all add: TokenExist_def)
  show "registry_ok now w'" by (rule same_registry_ok [OF same NewToken_fresh [OF w]])
  have "ownerOf w' s = (if s = Symbol ?t then Some (Owner ?t) else ownerOf w s)"
    using same_registry_owner [OF same] NewToken_owner [of "w\<lparr>tw_bank := b\<rparr>" ?t s] by (simp add: ownerOf_def)
  with t show "ownerOf w' s \<noteq> ownerOf w s \<Longrightarrow> ownerOf w s = None \<and> ownerOf w' s = Some (miOwner msg)"
    by (auto simp: TokenExist_def ownerOf_def)
qed

lemma burn_registry: "handleMsgTokenBurn E w amt a = Inr w' \<Longrightarrow> same_registry w w'"
  by (auto simp: handleMsgTokenBurn_def Let_def res_simps dest!: payFee_registry intro: same_registry_trans)

lemma mint_registry: "handleMsgTokenMint E w amt a = Inr w' \<Longrightarrow> same_registry w w'"
  by (auto simp: handleMsgTokenMint_def Let_def res_simps dest!: payFee_registry intro: same_registry_trans)

lemma transfer_registry:
  assumes R: "registry_ok now w" and now: "now \<le> tcBlockTime ctx" and a: "from \<noteq> []" "from \<noteq> BlackHoleAddress"
    and h: "handleMsgTransferOwnership E ctx w from to s = Inr w'"
  shows "registry_ok (tcBlockTime ctx) w'"
    and "ownerOf w' x \<noteq> ownerOf w x \<Longrightarrow>
      x = s \<and> to = BlackHoleAddress \<and> ownerOf w s = Some from \<and> ownerOf w' s = Some BlackHoleAddress"
proof -
  let ?now = "tcBlockTime ctx"
  note R' = registry_later [OF R now]
  let ?t = "GetTokenInfo w s" and ?c = "\<lparr>coSymbol = s, coAddress = to, coExpire = ?now + OwnershipConfirmWindow (tw_params w)\<rparr>"
  let ?w = "if to = BlackHoleAddress then moveToken w ?t to else SetConfirmOwnership w ?c"
  have own: "Owner ?t = from" and exp: "\<And>c. pending w s = Some c \<Longrightarrow> coExpire c < ?now"
    and fee: "\<exists>f. payFee E ?w from f = Inr w'"
    using h by (auto simp: handleMsgTransferOwnership_def Let_def res_simps moveToken_def GetConfirmOwnership_def
        split: if_splits option.splits)
  from ownerOf_zero [OF own a(1)] have t: "tokenAt w s = Some ?t" "ownerOf w s = Some from" by auto
  from fee have same: "same_registry ?w w'" by (auto dest: payFee_registry)
  have "registry_ok ?now ?w"
    using moveToken_ok [OF R' t(1), of to] exp SetConfirm_ok [OF R', of ?c ?t] t a(2) own by auto
  with same_registry_ok [OF same] show "registry_ok ?now w'" by blast
  have "ownerOf ?w x = (if to = BlackHoleAddress \<and> x = s then Some to else ownerOf w x)"
    using moveToken_get(3) [OF t(1) registry_okD(1) [OF R t(1)]] by (simp add: SetConfirmOwnership_def ownerOf_def)
  with same_registry_owner [OF same] t(2)
  show "ownerOf w' x \<noteq> ownerOf w x \<Longrightarrow>
      x = s \<and> to = BlackHoleAddress \<and> ownerOf w s = Some from \<and> ownerOf w' s = Some BlackHoleAddress"
    by (auto split: if_splits)
qed

lemma confirm_registry:
  assumes R: "registry_ok now w" and now: "now \<le> tcBlockTime ctx" and h: "handleMsgConfirmOwnership E ctx w s a = Inr w'"
  shows "registry_ok (tcBlockTime ctx) w'"
    and "\<exists>c. pending w s = Some c \<and> coAddress c = a \<and> tcBlockTime ctx \<le> coExpire c"
    and "ownerOf w' x = (if x = s then Some a else ownerOf w x)"
proof -
  note R' = registry_later [OF R now]
  from h obtain c where c: "pending w s = Some c" "tcBlockTime ctx \<le> coExpire c" "coAddress c = a"
    and w': "w' = DeleteConfirmOwnership (moveToken w (GetTokenInfo w s) a) (coSymbol c)"
    by (auto simp: handleMsgConfirmOwnership_def Let_def res_simps moveToken_def GetConfirmOwnership_def split: option.splits if_splits)
  then show "\<exists>c. pending w s = Some c \<and> coAddress c = a \<and> tcBlockTime ctx \<le> coExpire c" by blast
  from registry_okD(4) [OF R c(1)] have t: "tokenAt w s = Some (GetTokenInfo w s)" by (auto simp: GetTokenInfo_def)
  have "a \<noteq> BlackHoleAddress" using registry_okD(5) [OF R c(1)] c(3) by simp
  with moveToken_ok [OF R' t, of a] show "registry_ok (tcBlockTime ctx) w'" unfolding w' by (intro DeleteConfirm_ok) simp
  show "ownerOf w' x = (if x = s then Some a else ownerOf w x)"
    using moveToken_get(3) [OF t registry_okD(1) [OF R t], of a x] by (simp add: w' DeleteConfirmOwnership_def ownerOf_def)
qed

lemma modify_registry:
  assumes R: "registry_ok now w" and a: "mmOwner msg \<noteq> []" and h: "handleMsgTokenModify E w msg = Inr w'"
  shows "registry_ok now w'" and "ownerOf w' = ownerOf w"
proof -
  let ?t = "GetTokenInfo w (mmSymbol msg)"
  let ?t1 = "if IsWholeNameModified msg then ?t\<lparr>WholeName := mmWholeName msg\<rparr> else ?t"
  define t' where "t' = (if IsDescriptionModified msg then ?t1\<lparr>tDescription := mmDescription msg\<rparr> else ?t1)"
  have t': "Symbol t' = Symbol ?t" "Owner t' = Owner ?t" by (simp_all add: t'_def)
  from h have own: "Owner ?t = mmOwner msg" and fee: "\<exists>f. payFee E (UpdateToken w t') (mmOwner msg) f = Inr w'"
    unfolding handleMsgTokenModify_def Let_def t'_def [symmetric] by (auto simp: res_simps)
  from ownerOf_zero [OF own a] have t: "tokenAt w (mmSymbol msg) = Some ?t" by auto
  from fee have same: "same_registry (UpdateToken w t') w'" by (auto dest: payFee_registry)
  note u = UpdateToken_ok [OF R t t']
  show "registry_ok now w'" "ownerOf w' = ownerOf w"
    using same_registry_ok [OF same u(1)] same_registry_owner [OF same] u(2) by simp_all
qed

text \<open>What a message may do to the owner of a token.\<close>

definition owner_moves :: "token_ctx \<Rightarrow> token_msg \<Rightarrow> 'b token_world \<Rightarrow> 'b token_world \<Rightarrow> string \<Rightarrow> bool" where
  "owner_moves ctx m w w' s \<longleftrightarrow>
     (case m of
        TokenIssue msg \<Rightarrow> ownerOf w s = None \<and> ownerOf w' s = Some (miOwner msg)
      | TransferOwnership from to symbol \<Rightarrow>
          symbol = s \<and> to = BlackHoleAddress \<and> ownerOf w s = Some from \<and> ownerOf w' s = Some to
      | MsgConfirmOwnership symbol addr \<Rightarrow>
          symbol = s \<and> ownerOf w' s = Some addr \<and>
          (case pending w s of None \<Rightarrow> False | Some c \<Rightarrow> coAddress c = addr \<and> tcBlockTime ctx \<le> coExpire c)
      | _ \<Rightarrow> False)"

lemma signer_not_empty: "tokenValidateBasic E m = None \<Longrightarrow> tokenSigner m \<noteq> []"
  by (cases m) (auto simp: tokenValidateBasic_def tokenSigner_def issueValidateBasic_def burnValidateBasic_def mintValidateBasic_def
      multiSendValidateBasic_def sendValidateBasic_def transferValidateBasic_def modifyValidateBasic_def confirmValidateBasic_def
      EmptyAddr_def split: if_splits)

lemma handler_registry:
  assumes R: "registry_ok now w" and now: "now \<le> tcBlockTime ctx" and v: "tokenValidateBasic E m = None"
    and a: "tokenSigner m \<noteq> BlackHoleAddress" and h: "token_handler E ctx w m = Inr w'"
  shows "registry_ok (tcBlockTime ctx) w' \<and> (ownerOf w' s \<noteq> ownerOf w s \<longrightarrow> owner_moves ctx m w w' s)"
proof -
  note R' = registry_later [OF R now] and e = signer_not_empty [OF v]
  have keep: "registry_ok (tcBlockTime ctx) w' \<and> ownerOf w' s = ownerOf w s" if "same_registry w w'"
    using same_registry_ok [OF that R'] same_registry_owner [OF that] by simp
  show ?thesis
  proof (cases m)
    case (TokenIssue msg)
    with h have "handleMsgTokenIssue E ctx w msg = Inr w'" by (simp add: token_handler_def)
    from issue_registry [OF R' this] TokenIssue show ?thesis by (auto simp: owner_moves_def)
  next
    case (TransferOwnership x y s')
    with h have "handleMsgTransferOwnership E ctx w x y s' = Inr w'" by (simp add: token_handler_def)
    from transfer_registry [OF R now _ _ this] a e TransferOwnership show ?thesis
      by (auto simp: owner_moves_def tokenSigner_def)
  next
    case (MsgConfirmOwnership s' addr)
    with h have "handleMsgConfirmOwnership E ctx w s' addr = Inr w'" by (simp add: token_handler_def)
    from confirm_registry [OF R now this] MsgConfirmOwnership show ?thesis by (auto simp: owner_moves_def)
  next
    case (TokenModify msg)
    with h have "handleMsgTokenModify E w msg = Inr w'" by (simp add: token_handler_def)
    from modify_registry [OF R' _ this] e TokenModify show ?thesis by (simp add: tokenSigner_def)
  qed (use h keep in \<open>auto simp: token_handler_def handleMsgSend_def res_simps
        dest: burn_registry mint_registry multiSend_registry sendUnit_registry\<close>)
qed

end
