(* ===== verification/Token_Money.thy ===== *)
theory Token_Money
  imports Token_Registry
begin

text \<open>
  The money side of the token module: the supply of every token stays below the bound, only recorded
  tokens have a supply, and the account of the module holds exactly the coins it keeps locked for
  others. \<open>token_ok\<close> collects the documented behaviour of the bank and the supply keeper. The
  two stores of locked coins obey one contract, the locale \<open>lock_box\<close>.
\<close>

abbreviation tokenAddr :: "'b token_env \<Rightarrow> acc_address" where
  "tokenAddr E \<equiv> GetModuleAddress (tc_supply E) TokenModuleName"

subsection \<open>The bank\<close>

definition supply_kept :: "'b token_env \<Rightarrow> 'b \<Rightarrow> 'b \<Rightarrow> bool" where
  "supply_kept E b b' \<longleftrightarrow> (\<forall>d. GetSupplyByDenom E b' d = GetSupplyByDenom E b d)"

text \<open>The coins \<open>cs\<close> come into being (\<open>k = 1\<close>) or vanish (\<open>k = -1\<close>) in the account of a module.\<close>

definition created :: "'b token_env \<Rightarrow> int \<Rightarrow> 'b \<Rightarrow> string \<Rightarrow> sys_coins \<Rightarrow> 'b \<Rightarrow> bool" where
  "created E k b m cs b' \<longleftrightarrow> bank_ok (tc_supply E) b' \<and>
     (\<forall>a d. AmountOf d (GetCoins (tc_supply E) b' a) = AmountOf d (GetCoins (tc_supply E) b a) +
        (if a = GetModuleAddress (tc_supply E) m then k * AmountOf d cs else 0)) \<and>
     (\<forall>d. GetSupplyByDenom E b' d = GetSupplyByDenom E b d + k * AmountOf d cs)"

definition mint_burn_law :: "'b token_env \<Rightarrow> bool" where
  "mint_burn_law E \<longleftrightarrow> (\<forall>b m cs b'. bank_ok (tc_supply E) b \<longrightarrow> valid_coins cs \<longrightarrow>
     (MintCoins E b m cs = Inr b' \<longrightarrow> created E 1 b m cs b') \<and>
     (BurnCoins E b m cs = Inr b' \<longrightarrow> created E (- 1) b m cs b'))"

definition send_law :: "'b token_env \<Rightarrow> bool" where
  "send_law E \<longleftrightarrow> (\<forall>b x y cs b'. bank_ok (tc_supply E) b \<longrightarrow> valid_coins cs \<longrightarrow>
     SendCoins E b x y cs = Inr b' \<longrightarrow> transferred (tc_supply E) b x y cs b')"

definition supply_law :: "'b token_env \<Rightarrow> bool" where
  "supply_law E \<longleftrightarrow> (\<forall>b x y m cs b'.
     (SendCoins E b x y cs = Inr b' \<longrightarrow> supply_kept E b b') \<and>
     (AccountToModule (tc_supply E) b x m cs = Inr b' \<longrightarrow> supply_kept E b b') \<and>
     (ModuleToAccount (tc_supply E) b m x cs = Inr b' \<longrightarrow> supply_kept E b b'))"

definition parse_law :: "'b token_env \<Rightarrow> bool" where
  "parse_law E \<longleftrightarrow>
     (\<forall>c. CoinIsValid (tc_dec E) c \<longrightarrow> valid_coins (ToCoins (tc_dec E) c)) \<and> to_coins_keeps (tc_dec E) \<and>
     (\<forall>n s x cs. NewDecFromStr (tc_dec E) s = Some x \<longrightarrow> 0 < x \<longrightarrow> MustParseCoins E n s = Some cs \<longrightarrow>
        valid_coins cs \<and> (\<forall>d. AmountOf d cs = (if d = n then x else 0)))"

definition add2_law :: "'b token_env \<Rightarrow> bool" where
  "add2_law E \<longleftrightarrow> (\<forall>a b. valid_coins a \<longrightarrow> valid_coins b \<longrightarrow>
     valid_coins (Add2 E a b) \<and> (\<forall>d. AmountOf d (Add2 E a b) = AmountOf d a + AmountOf d b))"

text \<open>The keeper is set up as the application does: module accounts receive no transfers, and the
  fee collector is another account.\<close>

definition token_ok :: "'b token_env \<Rightarrow> bool" where
  "token_ok E \<longleftrightarrow> coins_ok (tc_dec E) (tc_coins E) \<and> supply_ok (tc_supply E) \<and> mint_burn_law E \<and> send_law E \<and>
     supply_law E \<and> parse_law E \<and> add2_law E \<and> 0 < OneDec (tc_dec E) \<and>
     bankBlacklisted E (tokenAddr E) \<and> GetModuleAddress (tc_supply E) (tc_feeCollectorName E) \<noteq> tokenAddr E"

lemma token_okD:
  assumes "token_ok E"
  shows "coins_ok (tc_dec E) (tc_coins E)" and "supply_ok (tc_supply E)"
    and "bankBlacklisted E (tokenAddr E)" and "GetModuleAddress (tc_supply E) (tc_feeCollectorName E) \<noteq> tokenAddr E"
    and "CoinIsValid (tc_dec E) c \<Longrightarrow> valid_coins (ToCoins (tc_dec E) c)"
    and "AmountOf d (ToCoins (tc_dec E) c) = AmountOf d [c]"
    and "0 < OneDec (tc_dec E)"
  using assms by (auto simp: token_ok_def parse_law_def to_coins_keeps_def)

lemma parse_coins:
  assumes "token_ok E" and "NewDecFromStr (tc_dec E) s = Some x" and "0 < x" and "MustParseCoins E n s = Some cs"
  shows "valid_coins cs" and "AmountOf d cs = (if d = n then x else 0)"
  using assms unfolding token_ok_def parse_law_def by blast+

lemma minted:
  assumes "token_ok E" and "bank_ok (tc_supply E) b" and "valid_coins cs"
  shows "MintCoins E b m cs = Inr b' \<Longrightarrow> created E 1 b m cs b'"
    and "BurnCoins E b m cs = Inr b' \<Longrightarrow> created E (- 1) b m cs b'"
  using assms unfolding token_ok_def mint_burn_law_def by blast+

lemma add2_coins:
  assumes "token_ok E" and "valid_coins a" and "valid_coins b"
  shows "valid_coins (Add2 E a b)" and "AmountOf d (Add2 E a b) = AmountOf d a + AmountOf d b"
  using assms unfolding token_ok_def add2_law_def by blast+

text \<open>What the module's account holds, and steps of the bank that leave it and the supply as they are.\<close>

definition held :: "'b token_env \<Rightarrow> 'b \<Rightarrow> string \<Rightarrow> dec" where
  "held E b d = AmountOf d (GetCoins (tc_supply E) b (tokenAddr E))"

definition quiet :: "'b token_env \<Rightarrow> 'b \<Rightarrow> 'b \<Rightarrow> bool" where
  "quiet E b b' \<longleftrightarrow> bank_ok (tc_supply E) b' \<and> held E b' = held E b \<and> supply_kept E b b'"

lemma quiet_refl: "bank_ok (tc_supply E) b \<Longrightarrow> quiet E b b"
  by (simp add: quiet_def supply_kept_def)

lemma quiet_trans: "quiet E a b \<Longrightarrow> quiet E b c \<Longrightarrow> quiet E a c"
  by (simp add: quiet_def supply_kept_def)

lemma transferred_held: "transferred (tc_supply E) b x y cs b' \<Longrightarrow>
    held E b' d = held E b d - (if x = tokenAddr E then AmountOf d cs else 0) + (if y = tokenAddr E then AmountOf d cs else 0)"
  by (auto simp: transferred_def held_def)

lemma payFee_quiet:
  assumes E: "token_ok E" and b: "bank_ok (tc_supply E) (tw_bank w)" and c: "CoinIsValid (tc_dec E) fee"
    and a: "payer \<noteq> tokenAddr E" and h: "payFee E w payer fee = Inr w'"
  shows "\<exists>b'. quiet E (tw_bank w) b' \<and> w' = w\<lparr>tw_bank := b'\<rparr>"
proof -
  from h obtain b' where b': "AccountToModule (tc_supply E) (tw_bank w) payer (tc_feeCollectorName E) (ToCoins (tc_dec E) fee) = Inr b'"
    "w' = w\<lparr>tw_bank := b'\<rparr>" by (auto simp: payFee_def res_simps)
  note t = module_to_account(2) [OF token_okD(2) [OF E] b token_okD(5) [OF E c] b'(1)]
  have "supply_kept E (tw_bank w) b'" using E b'(1) unfolding token_ok_def supply_law_def by blast
  moreover have "held E b' = held E (tw_bank w)"
    using transferred_held [OF t] a token_okD(4) [OF E] by (simp add: fun_eq_iff)
  ultimately show ?thesis using b'(2) transferred_bank_ok [OF t] by (auto simp: quiet_def)
qed

lemma sendUnit_quiet:
  assumes E: "token_ok E" and b: "bank_ok (tc_supply E) (tw_bank w)" and cs: "valid_coins cs"
    and a: "x \<noteq> tokenAddr E" and h: "sendUnit E x w y cs = Inr w'"
  shows "\<exists>b'. quiet E (tw_bank w) b' \<and> w' = w\<lparr>tw_bank := b'\<rparr>"
proof -
  from sendUnit_bank [OF h] obtain b' where b': "SendCoins E (tw_bank w) x y cs = Inr b'" "w' = w\<lparr>tw_bank := b'\<rparr>"
    "\<not> bankBlacklisted E y" by blast
  have t: "transferred (tc_supply E) (tw_bank w) x y cs b'" using E b cs b'(1) unfolding token_ok_def send_law_def by blast
  have "supply_kept E (tw_bank w) b'" using E b'(1) unfolding token_ok_def supply_law_def by blast
  moreover have "y \<noteq> tokenAddr E" using b'(3) token_okD(3) [OF E] by auto
  then have "held E b' = held E (tw_bank w)" using transferred_held [OF t] a by (simp add: fun_eq_iff)
  ultimately show ?thesis using b'(2) transferred_bank_ok [OF t] by (auto simp: quiet_def)
qed

lemma multiSend_quiet:
  assumes E: "token_ok E" and b: "bank_ok (tc_supply E) (tw_bank w)" and cs: "\<And>t. t \<in> set ts \<Longrightarrow> valid_coins (trCoins t)"
    and a: "x \<noteq> tokenAddr E" and h: "handleMsgMultiSend E w x ts = Inr w'"
  shows "\<exists>b'. quiet E (tw_bank w) b' \<and> w' = w\<lparr>tw_bank := b'\<rparr>"
proof -
  from h have "foldE (\<lambda>w t. sendUnit E x w (trTo t) (trCoins t)) w ts = Inr w'"
    by (simp add: handleMsgMultiSend_def res_simps)
  moreover have "\<exists>b'. quiet E (tw_bank w) b' \<and> w = w\<lparr>tw_bank := b'\<rparr>"
    using quiet_refl [OF b] by (intro exI [of _ "tw_bank w"]) simp
  ultimately show ?thesis
  proof (rule foldE_invariant)
    fix t v v'
    assume t: "t \<in> set ts" and v: "\<exists>b'. quiet E (tw_bank w) b' \<and> v = w\<lparr>tw_bank := b'\<rparr>"
      and s: "sendUnit E x v (trTo t) (trCoins t) = Inr v'"
    from v obtain b' where b': "quiet E (tw_bank w) b'" "v = w\<lparr>tw_bank := b'\<rparr>" by blast
    then have "bank_ok (tc_supply E) (tw_bank v)" by (simp add: quiet_def)
    from sendUnit_quiet [OF E this cs [OF t] a s] b' show "\<exists>b'. quiet E (tw_bank w) b' \<and> v' = w\<lparr>tw_bank := b'\<rparr>"
      by (auto intro: quiet_trans)
  qed
qed

text \<open>Minting to an account through the module's account, and burning the other way.\<close>

lemma mint_to:
  assumes E: "token_ok E" and b: "bank_ok (tc_supply E) b" and cs: "valid_coins cs" and a: "a \<noteq> tokenAddr E"
    and m: "MintCoins E b TokenModuleName cs = Inr b1" and s: "ModuleToAccount (tc_supply E) b1 TokenModuleName a cs = Inr b2"
  shows "bank_ok (tc_supply E) b2" and "held E b2 = held E b"
    and "GetSupplyByDenom E b2 d = GetSupplyByDenom E b d + AmountOf d cs"
proof -
  note c = minted(1) [OF E b cs m, unfolded created_def]
  then have b1: "bank_ok (tc_supply E) b1" by blast
  note t = module_to_account(1) [OF token_okD(2) [OF E] b1 cs s]
  have "supply_kept E b1 b2" using E s unfolding token_ok_def supply_law_def by blast
  then show "GetSupplyByDenom E b2 d = GetSupplyByDenom E b d + AmountOf d cs" using c by (simp add: supply_kept_def)
  show "held E b2 = held E b" using transferred_held [OF t] c a by (auto simp: fun_eq_iff held_def)
  show "bank_ok (tc_supply E) b2" by (rule transferred_bank_ok [OF t])
qed

lemma burn_from:
  assumes E: "token_ok E" and b: "bank_ok (tc_supply E) b" and cs: "valid_coins cs" and a: "a \<noteq> tokenAddr E"
    and s: "AccountToModule (tc_supply E) b a TokenModuleName cs = Inr b1" and m: "BurnCoins E b1 TokenModuleName cs = Inr b2"
  shows "bank_ok (tc_supply E) b2" and "held E b2 = held E b"
    and "GetSupplyByDenom E b2 d = GetSupplyByDenom E b d - AmountOf d cs"
proof -
  note t = module_to_account(2) [OF token_okD(2) [OF E] b cs s]
  note c = minted(2) [OF E transferred_bank_ok [OF t] cs m, unfolded created_def]
  have "supply_kept E b b1" using E s unfolding token_ok_def supply_law_def by blast
  then show "GetSupplyByDenom E b2 d = GetSupplyByDenom E b d - AmountOf d cs" using c by (simp add: supply_kept_def)
  show "held E b2 = held E b" using transferred_held [OF t] c a by (auto simp: fun_eq_iff held_def)
  show "bank_ok (tc_supply E) b2" using c by blast
qed

subsection \<open>Locked coins\<close>

lemma AmountOf_insort: "AmountOf d (insort_key f c cs) = AmountOf d (c # cs)"
  by (induction cs) auto

lemma AmountOf_sort [simp]: "AmountOf d (sort_key f cs) = AmountOf d cs"
  by (induction cs) (simp_all add: AmountOf_insort)

lemma valid_coins_sort [simp]: "valid_coins (sort_key f cs) \<longleftrightarrow> valid_coins cs"
  by (simp add: valid_coins_def distinct_map)

text \<open>Sorted valid sets with the same amounts are the same list.\<close>

definition coin_pairs :: "sys_coins \<Rightarrow> (string \<times> dec) list" where
  "coin_pairs cs = map (\<lambda>c. (Denom c, Amount c)) cs"

lemma coin_pairs_inj: "coin_pairs as = coin_pairs bs \<Longrightarrow> as = bs"
  unfolding coin_pairs_def by (rule map_injective) (auto intro!: inj_onI)

lemma map_of_coin_pairs: "valid_coins cs \<Longrightarrow> map_of (coin_pairs cs) d = (if AmountOf d cs = 0 then None else Some (AmountOf d cs))"
proof (induction cs)
  case (Cons c cs)
  then have v: "valid_coins cs" "Denom c \<notin> Denom ` set cs" "0 < Amount c" by (auto simp: valid_coins_def)
  with Cons.IH AmountOf_absent_denom [of "Denom c" cs] show ?case by (simp add: coin_pairs_def)
qed (simp add: coin_pairs_def)

definition coins_sorted :: "sys_coins \<Rightarrow> bool" where
  "coins_sorted cs \<longleftrightarrow> sorted (map Denom cs)"

lemma coins_unique:
  assumes "valid_coins as" "valid_coins bs" "coins_sorted as" "coins_sorted bs" and "\<And>d. AmountOf d as = AmountOf d bs"
  shows "as = bs"
proof -
  have k: "map fst (coin_pairs cs) = map Denom cs" for cs by (simp add: coin_pairs_def)
  have "sorted_wrt (<) (map fst (coin_pairs as))" "sorted_wrt (<) (map fst (coin_pairs bs))"
    using assms(1-4) by (simp_all add: k strict_sorted_iff valid_coins_def coins_sorted_def)
  then have "coin_pairs as = coin_pairs bs"
    by (rule sorted_entries_unique) (simp add: fun_eq_iff map_of_coin_pairs assms)
  then show ?thesis by (rule coin_pairs_inj)
qed

text \<open>The amount an account has in a box, and whether the entries are well formed.\<close>

definition boxAt :: "(acc_address, sys_coins) kv \<Rightarrow> acc_address \<Rightarrow> sys_coins" where
  "boxAt m a = (case kv_get m a of None \<Rightarrow> [] | Some cs \<Rightarrow> cs)"

definition box_ok :: "(acc_address, sys_coins) kv \<Rightarrow> bool" where
  "box_ok m \<longleftrightarrow> (\<forall>a cs. kv_get m a = Some cs \<longrightarrow> valid_coins cs \<and> coins_sorted cs \<and> cs \<noteq> [])"

definition boxSum :: "(acc_address, sys_coins) kv \<Rightarrow> string \<Rightarrow> dec" where
  "boxSum m d = kv_sum (\<lambda>_ cs. AmountOf d cs) m"

definition boxPut :: "(acc_address, sys_coins) kv \<Rightarrow> acc_address \<Rightarrow> sys_coins \<Rightarrow> (acc_address, sys_coins) kv" where
  "boxPut m a cs = (if cs \<noteq> [] then kv_set a cs m else kv_del a m)"

lemma box_okD: "box_ok m \<Longrightarrow> valid_coins (boxAt m a)"
  by (auto simp: box_ok_def boxAt_def split: option.splits)

lemma boxAt_put [simp]: "boxAt (boxPut m a cs) x = (if x = a then cs else boxAt m x)"
  by (simp add: boxAt_def boxPut_def)

lemma box_ok_put: "box_ok m \<Longrightarrow> valid_coins cs \<Longrightarrow> coins_sorted cs \<Longrightarrow> box_ok (boxPut m a cs)"
  by (auto simp: box_ok_def boxPut_def split: if_splits)

lemma boxSum_put: "boxSum (boxPut m a cs) d = boxSum m d - AmountOf d (boxAt m a) + AmountOf d cs"
  by (simp add: boxSum_def boxPut_def kv_sum_set kv_sum_del boxAt_def split: option.splits)

lemma boxPut_same: "box_ok m \<Longrightarrow> boxPut m a (boxAt m a) = m"
  by (auto simp: boxPut_def boxAt_def box_ok_def kv_set_same kv_del_same split: option.splits)

lemma boxPut_put [simp]: "boxPut (boxPut m a cs) a ds = boxPut m a ds"
  by (rule kv_eqI) (simp add: boxPut_def)

definition lockedTotal :: "'b token_world \<Rightarrow> string \<Rightarrow> dec" where
  "lockedTotal w d = boxSum (tw_locked w) d + boxSum (tw_lockedFees w) d"

definition boxes_ok :: "'b token_world \<Rightarrow> bool" where
  "boxes_ok w \<longleftrightarrow> box_ok (tw_locked w) \<and> box_ok (tw_lockedFees w)"

text \<open>A box of the world: what \<open>updateLockedCoins\<close> selects for the lock type \<open>ty\<close>, and how writing it
  changes the rest.\<close>

locale lock_box =
  fixes ty :: int
    and get :: "'b token_world \<Rightarrow> (acc_address, sys_coins) kv"
    and put :: "'b token_world \<Rightarrow> (acc_address, sys_coins) kv \<Rightarrow> 'b token_world"
  assumes store: "lockStore w ty = Inr (get w)"
    and set: "setLockStore w ty m = put w m"
    and get_put: "get (put w m) = m"
    and get_bank: "get (w\<lparr>tw_bank := b\<rparr>) = get w"
    and put_fields: "tw_bank (put w m) = tw_bank w" "tw_params (put w m) = tw_params w" "same_registry w (put w m)"
    and put_total: "lockedTotal (put w m) d = lockedTotal w d - boxSum (get w) d + boxSum m d"
    and put_ok: "boxes_ok w \<Longrightarrow> box_ok m \<Longrightarrow> boxes_ok (put w m)"
    and get_ok: "boxes_ok w \<Longrightarrow> box_ok (get w)"
begin

lemma lock:
  assumes "token_ok E" and "box_ok (get w)" and "valid_coins cs"
  shows "\<exists>new. updateLockedCoins E w a cs True ty = Inr (put w (boxPut (get w) a new)) \<and> valid_coins new \<and> coins_sorted new \<and>
     (\<forall>d. AmountOf d new = AmountOf d (boxAt (get w) a) + AmountOf d cs)"
proof -
  define sum where "sum = (case kv_get (get w) a of None \<Rightarrow> cs | Some old \<Rightarrow> Add2 E old cs)"
  have "updateLockedCoins E w a cs True ty = Inr (put w (boxPut (get w) a (sort_key Denom sum)))"
    by (cases "kv_get (get w) a") (simp_all add: updateLockedCoins_def store set boxPut_def Let_def sum_def)
  moreover have "valid_coins sum \<and> (\<forall>d. AmountOf d sum = AmountOf d (boxAt (get w) a) + AmountOf d cs)"
    using add2_coins [OF assms(1) box_okD [OF assms(2), of a] assms(3)] assms(3)
    by (auto simp: sum_def boxAt_def split: option.splits)
  ultimately show ?thesis by (intro exI [of _ "sort_key Denom sum"]) (simp add: coins_sorted_def)
qed

lemma unlock:
  assumes "token_ok E" and "box_ok (get w)" and "valid_coins cs" and "updateLockedCoins E w a cs False ty = Inr w'"
  shows "\<exists>new. w' = put w (boxPut (get w) a new) \<and> valid_coins new \<and> coins_sorted new \<and>
     (\<forall>d. AmountOf d new = AmountOf d (boxAt (get w) a) - AmountOf d cs)"
proof -
  from assms(4) obtain old where old: "kv_get (get w) a = Some old" "\<not> snd (SafeSub (tc_coins E) old cs)"
    and w': "w' = put w (boxPut (get w) a (sort_key Denom (fst (SafeSub (tc_coins E) old cs))))"
    by (auto simp: updateLockedCoins_def store set boxPut_def Let_def res_simps split: option.splits prod.splits)
  have v: "valid_coins old" using assms(2) old(1) by (simp add: box_ok_def)
  note sub = safe_sub_coins(1,2) [OF token_okD(1) [OF assms(1)] v assms(3) old(2)]
  show ?thesis
    using sub w' old(1) by (intro exI [of _ "sort_key Denom (fst (SafeSub (tc_coins E) old cs))"]) (simp add: boxAt_def coins_sorted_def)
qed

lemma unlock_covered:
  assumes "token_ok E" and "box_ok (get w)" and "valid_coins cs" and "kv_get (get w) a = Some old"
    and "\<And>d. AmountOf d cs \<le> AmountOf d old"
  shows "\<exists>w'. updateLockedCoins E w a cs False ty = Inr w'"
proof -
  have "valid_coins old" using assms(2,4) by (simp add: box_ok_def)
  from safe_sub_coins(3) [OF token_okD(1) [OF assms(1)] this assms(3,5)]
  have "\<not> snd (SafeSub (tc_coins E) old cs)" by simp
  with assms(4) show ?thesis
    by (cases "SafeSub (tc_coins E) old cs") (simp add: updateLockedCoins_def store set Let_def)
qed

text \<open>Unlocking what was just locked gives the same box.\<close>

lemma unlock_lock:
  assumes E: "token_ok E" and ok: "box_ok (get w)" and cs: "valid_coins cs" "cs \<noteq> []"
    and l: "updateLockedCoins E w a cs True ty = Inr w1"
  shows "\<exists>w2. updateLockedCoins E w1 a cs False ty = Inr w2 \<and> get w2 = get w"
proof -
  from lock [OF E ok cs(1), of a] l obtain new where w1: "w1 = put w (boxPut (get w) a new)" and new: "valid_coins new" "coins_sorted new"
    "\<And>d. AmountOf d new = AmountOf d (boxAt (get w) a) + AmountOf d cs" by auto
  note ok1 = box_ok_put [OF ok new(1,2), of a]
  have le: "AmountOf d cs \<le> AmountOf d new" for d using new(3) valid_nonneg [OF box_okD [OF ok, of a], of d] by simp
  have "new \<noteq> []" using le valid_zero [OF cs(1)] cs(2) valid_nonneg [OF cs(1)] by (metis AmountOf_Nil antisym)
  then have g: "kv_get (get w1) a = Some new" by (simp add: w1 get_put boxPut_def)
  have ok1': "box_ok (get w1)" using ok1 by (simp add: w1 get_put)
  from unlock_covered [OF E ok1' cs(1) g le] obtain w2 where w2: "updateLockedCoins E w1 a cs False ty = Inr w2" by blast
  from unlock [OF E ok1' cs(1) w2] obtain new2 where n2: "w2 = put w1 (boxPut (get w1) a new2)" "valid_coins new2" "coins_sorted new2"
    "\<And>d. AmountOf d new2 = AmountOf d (boxAt (get w1) a) - AmountOf d cs" by blast
  have "coins_sorted (boxAt (get w) a)" using ok by (auto simp: box_ok_def boxAt_def coins_sorted_def split: option.splits)
  from coins_unique [OF n2(2) box_okD [OF ok, of a] n2(3) this] n2(4) new(3)
  have "new2 = boxAt (get w) a" by (simp add: w1 get_put)
  then have "get w2 = get w" using boxPut_same [OF ok, of a] by (simp add: n2(1) w1 get_put)
  with w2 show ?thesis by blast
qed

end

interpretation quantity_box: lock_box LockCoinsTypeQuantity tw_locked "\<lambda>w m. w\<lparr>tw_locked := m\<rparr>"
  by unfold_locales (simp_all add: lockStore_def setLockStore_def lockedTotal_def boxes_ok_def same_registry_def)

interpretation fee_box: lock_box LockCoinsTypeFee tw_lockedFees "\<lambda>w m. w\<lparr>tw_lockedFees := m\<rparr>"
  by unfold_locales
    (simp_all add: lockStore_def setLockStore_def lockedTotal_def boxes_ok_def same_registry_def LockCoinsTypeFee_def LockCoinsTypeQuantity_def)

lemma lock_type: "updateLockedCoins E w a cs dir ty = Inr w' \<Longrightarrow> ty = LockCoinsTypeQuantity \<or> ty = LockCoinsTypeFee"
  by (rule ccontr) (simp add: updateLockedCoins_def lockStore_def)

subsection \<open>The invariant\<close>

definition supply_bounded :: "'b token_env \<Rightarrow> 'b token_world \<Rightarrow> bool" where
  "supply_bounded E w \<longleftrightarrow> (\<forall>d. GetSupplyByDenom E (tw_bank w) d \<le> NewDec (tc_dec E) TotalSupplyUpperbound)"

definition supply_recorded :: "'b token_env \<Rightarrow> 'b token_world \<Rightarrow> bool" where
  "supply_recorded E w \<longleftrightarrow> (\<forall>d. GetSupplyByDenom E (tw_bank w) d \<noteq> 0 \<longrightarrow> TokenExist w d)"

definition locks_backed :: "'b token_env \<Rightarrow> 'b token_world \<Rightarrow> bool" where
  "locks_backed E w \<longleftrightarrow> (\<forall>d. held E (tw_bank w) d = lockedTotal w d)"

definition money_ok :: "'b token_env \<Rightarrow> 'b token_world \<Rightarrow> bool" where
  "money_ok E w \<longleftrightarrow> bank_ok (tc_supply E) (tw_bank w) \<and> tokenParamsValid E (tw_params w) \<and> boxes_ok w \<and> locks_backed E w \<and> supply_bounded E w \<and> supply_recorded E w"

lemma money_okD:
  assumes "money_ok E w"
  shows "bank_ok (tc_supply E) (tw_bank w)" and "boxes_ok w" and "tokenParamsValid E (tw_params w)"
    and "c \<in> {FeeIssue (tw_params w), FeeMint (tw_params w), FeeBurn (tw_params w), FeeModify (tw_params w), FeeChown (tw_params w)} \<Longrightarrow>
       CoinIsValid (tc_dec E) c"
    and "held E (tw_bank w) d = lockedTotal w d"
    and "GetSupplyByDenom E (tw_bank w) d \<le> NewDec (tc_dec E) TotalSupplyUpperbound"
    and "GetSupplyByDenom E (tw_bank w) d \<noteq> 0 \<Longrightarrow> TokenExist w d"
  using assms
  by (auto simp: money_ok_def tokenParamsValid_def locks_backed_def supply_bounded_def supply_recorded_def)

text \<open>Steps that keep the boxes and the parameters, and only add tokens.\<close>

lemma money_step:
  assumes "money_ok E w" and "bank_ok (tc_supply E) (tw_bank w')" and "held E (tw_bank w') = held E (tw_bank w)"
    and "tw_params w' = tw_params w" and "tw_locked w' = tw_locked w" and "tw_lockedFees w' = tw_lockedFees w"
    and "\<And>d. TokenExist w d \<Longrightarrow> TokenExist w' d" and "supply_bounded E w'" and "supply_recorded E w'"
  shows "money_ok E w'"
  using assms by (auto simp: money_ok_def locks_backed_def lockedTotal_def boxes_ok_def)

lemma money_quiet:
  assumes m: "money_ok E w" and q: "quiet E (tw_bank w) (tw_bank w')"
    and f: "tw_params w' = tw_params w" "tw_locked w' = tw_locked w" "tw_lockedFees w' = tw_lockedFees w"
    and t: "\<And>d. TokenExist w d \<Longrightarrow> TokenExist w' d"
  shows "money_ok E w'"
proof (rule money_step [OF m _ _ f t])
  show "bank_ok (tc_supply E) (tw_bank w')" "held E (tw_bank w') = held E (tw_bank w)" using q by (simp_all add: quiet_def)
  show "supply_bounded E w'" "supply_recorded E w'"
    using q money_okD(6,7) [OF m] t by (auto simp: quiet_def supply_kept_def supply_bounded_def supply_recorded_def)
qed

lemma money_fee:
  assumes E: "token_ok E" and m: "money_ok E w" and a: "a \<noteq> tokenAddr E" and c: "CoinIsValid (tc_dec E) f"
    and h: "payFee E w a f = Inr w'"
  shows "money_ok E w'"
proof -
  from payFee_quiet [OF E money_okD(1) [OF m] c a h] obtain b where "quiet E (tw_bank w) b" "w' = w\<lparr>tw_bank := b\<rparr>" by blast
  then show ?thesis by (intro money_quiet [OF m]) (simp_all add: TokenExist_def)
qed

lemma money_registry:
  assumes "money_ok E w" and "tw_bank w' = tw_bank w" "tw_params w' = tw_params w" "tw_locked w' = tw_locked w"
    "tw_lockedFees w' = tw_lockedFees w" and "\<And>d. TokenExist w d \<Longrightarrow> TokenExist w' d"
  shows "money_ok E w'"
  using assms(2-6) money_okD(1) [OF assms(1)] by (intro money_quiet [OF assms(1)]) (simp_all add: quiet_refl)

end
