(* ===== verification/Token_Steps.thy ===== *)
theory Token_Steps
  imports Token_Money
begin

text \<open>
  The messages of the token module and the locking of coins keep the invariant of the money: one lemma
  per handler, and the contract of locking proved once in \<open>lock_box\<close> for both stores.
\<close>

subsection \<open>The handlers and the money\<close>

lemma issue_money:
  assumes E: "token_ok E" and m: "money_ok E w" and a: "miOwner msg \<noteq> tokenAddr E"
    and v: "issueValidateBasic E msg = None" and h: "handleMsgTokenIssue E ctx w msg = Inr w'"
  shows "money_ok E w'"
proof -
  from h obtain x n coins b1 b2 where x: "NewDecFromStr (tc_dec E) (miTotalSupply msg) = Some x" "x \<le> NewDec (tc_dec E) TotalSupplyUpperbound"
    and n: "addTokenSuffix E ctx w (miOriginalSymbol msg) = Some n" and cs: "MustParseCoins E n (miTotalSupply msg) = Some coins"
    and b: "MintCoins E (tw_bank w) TokenModuleName coins = Inr b1" "ModuleToAccount (tc_supply E) b1 TokenModuleName (miOwner msg) coins = Inr b2"
    and fee: "payFee E (NewToken (w\<lparr>tw_bank := b2\<rparr>) (issuedToken msg n x)) (miOwner msg) (FeeIssue (tw_params w)) = Inr w'"
    by (rule issue_cases)
  have "0 < x" using v x(1) by (auto simp: issueValidateBasic_def split: if_splits)
  note coins = parse_coins [OF E x(1) this cs]
  note mt = mint_to [OF E money_okD(1) [OF m] coins(1) a b]
  have "GetSupplyByDenom E (tw_bank w) n = 0" using addTokenSuffix_fresh [OF n] money_okD(7) [OF m] by blast
  then have "money_ok E (NewToken (w\<lparr>tw_bank := b2\<rparr>) (issuedToken msg n x))"
    using mt x(2) coins(2) money_okD(6,7) [OF m]
    by (intro money_step [OF m]) (auto simp: TokenExist_def supply_bounded_def supply_recorded_def)
  from money_fee [OF E this a _ fee] money_okD(4) [OF m] show ?thesis by simp
qed

lemma ToCoins_amount: "token_ok E \<Longrightarrow> AmountOf d (ToCoins (tc_dec E) c) = (if d = Denom c then Amount c else 0)"
  by (simp add: token_okD)

lemma mint_money:
  assumes E: "token_ok E" and m: "money_ok E w" and a: "a \<noteq> tokenAddr E"
    and v: "mintValidateBasic E c a = None" and h: "handleMsgTokenMint E w c a = Inr w'"
  shows "money_ok E w'"
proof -
  from v have c: "CoinIsValid (tc_dec E) c" and e: "a \<noteq> []" by (auto simp: mintValidateBasic_def EmptyAddr_def split: if_splits)
  from h obtain b1 b2 where own: "Owner (GetTokenInfo w (Denom c)) = a"
    and le: "GetSupplyByDenom E (tw_bank w) (Denom c) + Amount c \<le> NewDec (tc_dec E) TotalSupplyUpperbound"
    and b: "MintCoins E (tw_bank w) TokenModuleName (ToCoins (tc_dec E) c) = Inr b1"
      "ModuleToAccount (tc_supply E) b1 TokenModuleName a (ToCoins (tc_dec E) c) = Inr b2"
    and fee: "payFee E (w\<lparr>tw_bank := b2\<rparr>) a (FeeMint (tw_params w)) = Inr w'"
    by (auto simp: handleMsgTokenMint_def Let_def res_simps not_less)
  note mt = mint_to [OF E money_okD(1) [OF m] token_okD(5) [OF E c] a b]
  have "TokenExist w (Denom c)" using ownerOf_zero [OF own e] by (auto simp: TokenExist_def)
  then have "money_ok E (w\<lparr>tw_bank := b2\<rparr>)"
    using mt le ToCoins_amount [OF E] money_okD(6,7) [OF m]
    by (intro money_step [OF m]) (auto simp: TokenExist_def supply_bounded_def supply_recorded_def)
  from money_fee [OF E this a _ fee] money_okD(4) [OF m] show ?thesis by simp
qed

lemma burn_money:
  assumes E: "token_ok E" and m: "money_ok E w" and a: "a \<noteq> tokenAddr E"
    and v: "burnValidateBasic E c a = None" and h: "handleMsgTokenBurn E w c a = Inr w'"
  shows "money_ok E w'"
proof -
  from v have c: "CoinIsValid (tc_dec E) c" and e: "a \<noteq> []" by (auto simp: burnValidateBasic_def EmptyAddr_def split: if_splits)
  from h obtain b1 b2 where own: "Owner (GetTokenInfo w (Denom c)) = a"
    and b: "AccountToModule (tc_supply E) (tw_bank w) a TokenModuleName (ToCoins (tc_dec E) c) = Inr b1"
      "BurnCoins E b1 TokenModuleName (ToCoins (tc_dec E) c) = Inr b2"
    and fee: "payFee E (w\<lparr>tw_bank := b2\<rparr>) a (FeeBurn (tw_params w)) = Inr w'"
    by (auto simp: handleMsgTokenBurn_def Let_def res_simps)
  note bf = burn_from [OF E money_okD(1) [OF m] token_okD(5) [OF E c] a b]
  have "TokenExist w (Denom c)" using ownerOf_zero [OF own e] by (auto simp: TokenExist_def)
  moreover have "GetSupplyByDenom E b2 d \<le> NewDec (tc_dec E) TotalSupplyUpperbound" for d
    using bf(3) [of d] valid_nonneg [OF token_okD(5) [OF E c], of d] money_okD(6) [OF m, of d] by simp
  ultimately have "money_ok E (w\<lparr>tw_bank := b2\<rparr>)"
    using bf ToCoins_amount [OF E] money_okD(7) [OF m]
    by (intro money_step [OF m]) (auto simp: TokenExist_def supply_bounded_def supply_recorded_def)
  from money_fee [OF E this a _ fee] money_okD(4) [OF m] show ?thesis by simp
qed

lemma transfer_money:
  assumes E: "token_ok E" and m: "money_ok E w" and a: "a \<noteq> tokenAddr E"
    and h: "handleMsgTransferOwnership E ctx w a y s = Inr w'"
  shows "money_ok E w'"
proof -
  let ?t = "GetTokenInfo w s"
  let ?w = "if y = BlackHoleAddress then moveToken w ?t y
    else SetConfirmOwnership w \<lparr>coSymbol = s, coAddress = y, coExpire = tcBlockTime ctx + OwnershipConfirmWindow (tw_params w)\<rparr>"
  have fee: "payFee E ?w a (FeeChown (tw_params w)) = Inr w'"
    using h by (auto simp: handleMsgTransferOwnership_def Let_def res_simps moveToken_def DeleteUserToken_def SetConfirmOwnership_def
        split: if_splits)
  have p: "tw_params ?w = tw_params w" by (simp add: moveToken_def DeleteUserToken_def SetConfirmOwnership_def)
  have "money_ok E ?w"
    by (rule money_registry [OF m]) (auto simp: moveToken_def DeleteUserToken_def SetConfirmOwnership_def TokenExist_def)
  from money_fee [OF E this a _ fee] money_okD(4) [OF m] show ?thesis by simp
qed

lemma confirm_money:
  assumes m: "money_ok E w" and h: "handleMsgConfirmOwnership E ctx w s a = Inr w'"
  shows "money_ok E w'"
  using h
  by (intro money_registry [OF m])
    (auto simp: handleMsgConfirmOwnership_def Let_def res_simps DeleteConfirmOwnership_def DeleteUserToken_def TokenExist_def split: option.splits)

lemma modify_money:
  assumes E: "token_ok E" and m: "money_ok E w" and a: "mmOwner msg \<noteq> tokenAddr E" and h: "handleMsgTokenModify E w msg = Inr w'"
  shows "money_ok E w'"
proof -
  from h obtain t where fee: "payFee E (UpdateToken w t) (mmOwner msg) (FeeModify (tw_params w)) = Inr w'"
    unfolding handleMsgTokenModify_def Let_def by (simp only: res_simps) (simp add: UpdateToken_def, blast)
  have "money_ok E (UpdateToken w t)" by (rule money_registry [OF m]) (auto simp: UpdateToken_def TokenExist_def)
  from money_fee [OF E this a _ fee] money_okD(4) [OF m] show ?thesis by simp
qed

lemma checkTransfers_valid:
  "coins_ok A (tc_coins E) \<Longrightarrow> checkTransfers E ts = None \<Longrightarrow> t \<in> set ts \<Longrightarrow> valid_coins (trCoins t)"
  by (induction ts) (auto simp: checked_coins split: if_splits)

lemma handler_money:
  assumes E: "token_ok E" and m: "money_ok E w" and a: "tokenSigner msg \<noteq> tokenAddr E"
    and v: "tokenValidateBasic E msg = None" and h: "token_handler E ctx w msg = Inr w'"
  shows "money_ok E w'"
proof -
  note b = money_okD(1) [OF m] and C = token_okD(1) [OF E]
  have sent: "money_ok E w'" if "\<exists>b'. quiet E (tw_bank w) b' \<and> w' = w\<lparr>tw_bank := b'\<rparr>"
    using that by (auto intro!: money_quiet [OF m] simp: TokenExist_def)
  show ?thesis
  proof (cases msg)
    case (TokenIssue x)
    then show ?thesis using a v h issue_money [OF E m] by (simp add: tokenSigner_def tokenValidateBasic_def token_handler_def)
  next
    case (TokenBurn c x)
    then show ?thesis using a v h burn_money [OF E m] by (simp add: tokenSigner_def tokenValidateBasic_def token_handler_def)
  next
    case (TokenMint c x)
    then show ?thesis using a v h mint_money [OF E m] by (simp add: tokenSigner_def tokenValidateBasic_def token_handler_def)
  next
    case (MultiSend x ts)
    with v have "checkTransfers E ts = None" by (auto simp: tokenValidateBasic_def multiSendValidateBasic_def split: if_splits)
    then have "\<And>t. t \<in> set ts \<Longrightarrow> valid_coins (trCoins t)" by (rule checkTransfers_valid [OF C])
    from sent [OF multiSend_quiet [OF E b this]] MultiSend a h show ?thesis by (simp add: tokenSigner_def token_handler_def)
  next
    case (Send x y cs)
    with v have "valid_coins cs"
      by (auto simp: tokenValidateBasic_def sendValidateBasic_def intro: checked_coins [OF C] split: if_splits)
    from sent [OF sendUnit_quiet [OF E b this]] Send a h show ?thesis
      by (auto simp: tokenSigner_def token_handler_def handleMsgSend_def res_simps)
  next
    case (TransferOwnership x y s)
    then show ?thesis using a h transfer_money [OF E m] by (simp add: tokenSigner_def token_handler_def)
  next
    case (MsgConfirmOwnership s x)
    then show ?thesis using h confirm_money [OF m] by (simp add: token_handler_def)
  next
    case (TokenModify x)
    then show ?thesis using a h modify_money [OF E m] by (simp add: tokenSigner_def token_handler_def)
  qed
qed

subsection \<open>Locking\<close>

lemma TokenExist_registry: "same_registry w w' \<Longrightarrow> TokenExist w' d \<longleftrightarrow> TokenExist w d"
  by (simp add: same_registry_def TokenExist_def)

text \<open>A transfer between the module's account and another one, together with the box that records it.\<close>

context lock_box
begin

lemma money_put:
  assumes m: "money_ok E w" and b: "bank_ok (tc_supply E) b" "supply_kept E (tw_bank w) b"
    and box: "box_ok m'" and held: "\<And>d. held E b d = held E (tw_bank w) d - boxSum (get w) d + boxSum m' d"
    and w': "tw_bank w' = b" "tw_params w' = tw_params w" "same_registry w w'"
      "\<And>d. lockedTotal w' d = lockedTotal w d - boxSum (get w) d + boxSum m' d" "boxes_ok w'"
  shows "money_ok E w'"
  using assms TokenExist_registry [OF w'(3)]
  by (auto simp: money_ok_def locks_backed_def supply_bounded_def supply_recorded_def supply_kept_def)

lemma lock_money:
  fixes E :: "'b token_env"
  assumes E: "token_ok E" and m: "money_ok E w" and a: "a \<noteq> tokenAddr E" and cs: "valid_coins cs"
    and h: "LockCoins E w a cs ty = Inr w'"
  shows "money_ok E w' \<and> same_registry w w'"
proof -
  from h obtain b where b: "AccountToModule (tc_supply E) (tw_bank w) a TokenModuleName cs = Inr b"
    and u: "updateLockedCoins E (w\<lparr>tw_bank := b\<rparr>) a cs True ty = Inr w'" by (auto simp: LockCoins_def res_simps)
  note t = module_to_account(2) [OF token_okD(2) [OF E] money_okD(1) [OF m] cs b]
  have s: "supply_kept E (tw_bank w) b" using E b unfolding token_ok_def supply_law_def by blast
  let ?w = "w\<lparr>tw_bank := b\<rparr>"
  have g: "box_ok (get ?w)" using get_ok [OF money_okD(2) [OF m]] by (simp add: get_bank)
  from lock [OF E this cs, of a] u obtain new where w': "w' = put ?w (boxPut (get w) a new)"
    and new: "valid_coins new" "coins_sorted new" "\<And>d. AmountOf d new = AmountOf d (boxAt (get w) a) + AmountOf d cs"
    by (auto simp: get_bank)
  note ok = box_ok_put [OF g new(1,2), of a, unfolded get_bank]
  have boxes: "boxes_ok ?w" "lockedTotal ?w = lockedTotal w" using money_okD(2) [OF m] by (simp_all add: boxes_ok_def lockedTotal_def fun_eq_iff)
  have r: "same_registry w w'" unfolding w' using put_fields(3) [of ?w] by simp
  have "money_ok E w'"
    using transferred_held [OF t] a new(3) put_ok [OF boxes(1) ok] boxes(2)
    by (intro money_put [OF m transferred_bank_ok [OF t] s ok _ _ _ r])
      (simp_all add: w' put_fields put_total get_bank boxSum_put)
  with r show ?thesis by blast
qed

lemma unlock_money:
  fixes E :: "'b token_env"
  assumes E: "token_ok E" and m: "money_ok E w" and a: "a \<noteq> tokenAddr E" and cs: "valid_coins cs"
    and h: "UnlockCoins E w a cs ty = Inr w'"
  shows "money_ok E w' \<and> same_registry w w'"
proof -
  from h obtain v b where u: "updateLockedCoins E w a cs False ty = Inr v"
    and b: "ModuleToAccount (tc_supply E) (tw_bank v) TokenModuleName a cs = Inr b" and w': "w' = v\<lparr>tw_bank := b\<rparr>"
    by (auto simp: UnlockCoins_def res_simps)
  note g = get_ok [OF money_okD(2) [OF m]]
  from unlock [OF E g cs u] obtain new where v: "v = put w (boxPut (get w) a new)"
    and new: "valid_coins new" "coins_sorted new" "\<And>d. AmountOf d new = AmountOf d (boxAt (get w) a) - AmountOf d cs" by blast
  from b have b: "ModuleToAccount (tc_supply E) (tw_bank w) TokenModuleName a cs = Inr b" by (simp add: v put_fields)
  note t = module_to_account(1) [OF token_okD(2) [OF E] money_okD(1) [OF m] cs b]
  have s: "supply_kept E (tw_bank w) b" using E b unfolding token_ok_def supply_law_def by blast
  note ok = box_ok_put [OF g new(1,2), of a]
  have boxes: "boxes_ok w'" "lockedTotal w' = lockedTotal v"
    using put_ok [OF money_okD(2) [OF m] ok] by (simp_all add: w' v boxes_ok_def lockedTotal_def fun_eq_iff)
  have r: "same_registry w w'" unfolding w' v using put_fields(3) [of w] by (simp add: same_registry_def)
  have "money_ok E w'"
    using transferred_held [OF t] a new(3) boxes
    by (intro money_put [OF m transferred_bank_ok [OF t] s ok _ _ _ r])
      (simp_all add: w' v put_fields put_total boxSum_put)
  with r show ?thesis by blast
qed

text \<open>Locking and unlocking the same coins changes neither the box nor any balance.\<close>

lemma lock_unlock:
  assumes E: "token_ok E" and m: "money_ok E w" and cs: "valid_coins cs" "cs \<noteq> []"
    and l: "LockCoins E w a cs ty = Inr w1" and u: "UnlockCoins E w1 a cs ty = Inr w2"
  shows "get w2 = get w"
    and "AmountOf d (GetCoins (tc_supply E) (tw_bank w2) x) = AmountOf d (GetCoins (tc_supply E) (tw_bank w) x)"
proof -
  from l obtain b where b: "AccountToModule (tc_supply E) (tw_bank w) a TokenModuleName cs = Inr b"
    and l1: "updateLockedCoins E (w\<lparr>tw_bank := b\<rparr>) a cs True ty = Inr w1" by (auto simp: LockCoins_def res_simps)
  have g: "box_ok (get (w\<lparr>tw_bank := b\<rparr>))" using get_ok [OF money_okD(2) [OF m]] by (simp add: get_bank)
  from lock [OF E g cs(1), of a] l1 have b1: "tw_bank w1 = b" by (auto simp: put_fields)
  from unlock_lock [OF E g cs l1] obtain v where v: "updateLockedCoins E w1 a cs False ty = Inr v" "get v = get w"
    by (auto simp: get_bank)
  from lock [OF E g cs(1), of a] l1 box_ok_put [OF g] have g1: "box_ok (get w1)" by (auto simp: get_put)
  from unlock [OF E g1 cs(1) v(1)] have bv: "tw_bank v = b" using b1 by (auto simp: put_fields)
  from u v(1) obtain b2 where b2: "ModuleToAccount (tc_supply E) b TokenModuleName a cs = Inr b2" "w2 = v\<lparr>tw_bank := b2\<rparr>"
    by (auto simp: UnlockCoins_def res_simps bv)
  show "get w2 = get w" using b2(2) v(2) by (simp add: get_bank)
  note t1 = module_to_account(2) [OF token_okD(2) [OF E] money_okD(1) [OF m] cs(1) b]
  note t2 = module_to_account(1) [OF token_okD(2) [OF E] transferred_bank_ok [OF t1] cs(1) b2(1)]
  show "AmountOf d (GetCoins (tc_supply E) (tw_bank w2) x) = AmountOf d (GetCoins (tc_supply E) (tw_bank w) x)"
    using t1 t2 b2(2) by (auto simp: transferred_def)
qed

end

lemma lockCoins_money:
  assumes "token_ok E" and "money_ok E w" and "a \<noteq> tokenAddr E" and "valid_coins cs"
  shows "LockCoins E w a cs ty = Inr w' \<Longrightarrow> money_ok E w' \<and> same_registry w w'"
    and "UnlockCoins E w a cs ty = Inr w' \<Longrightarrow> money_ok E w' \<and> same_registry w w'"
proof -
  have ty: "ty = LockCoinsTypeQuantity \<or> ty = LockCoinsTypeFee"
    if "LockCoins E w a cs ty = Inr w' \<or> UnlockCoins E w a cs ty = Inr w'"
    using that by (auto simp: LockCoins_def UnlockCoins_def res_simps dest: lock_type)
  show "LockCoins E w a cs ty = Inr w' \<Longrightarrow> money_ok E w' \<and> same_registry w w'"
    using ty quantity_box.lock_money [OF assms] fee_box.lock_money [OF assms] by blast
  show "UnlockCoins E w a cs ty = Inr w' \<Longrightarrow> money_ok E w' \<and> same_registry w w'"
    using ty quantity_box.unlock_money [OF assms] fee_box.unlock_money [OF assms] by blast
qed

end
