(* ===== verification/Token_Reach.thy ===== *)
theory Token_Reach
  imports Token_Steps
begin

text \<open>
  The token module as a state machine: genesis, messages with their basic checks, the block
  boundary, locking and unlocking for other modules, parameter changes and the transfers of other
  modules. The invariants of Token_Registry and Token_Money hold in every reachable state, and the
  properties at the end are read off them.
\<close>

subsection \<open>Genesis\<close>

definition fresh_store :: "'b token_world \<Rightarrow> bool" where
  "fresh_store w \<longleftrightarrow> tw_tokens w = kv_empty \<and> tw_userTokens w = kv_empty \<and> tw_confirm w = kv_empty \<and>
     tw_locked w = kv_empty \<and> tw_lockedFees w = kv_empty \<and> tw_tokenNum w = None"

definition sumCoins :: "AccCoins list \<Rightarrow> string \<Rightarrow> dec" where
  "sumCoins ls d = (\<Sum>l\<leftarrow>ls. AmountOf d (acCoins l))"

text \<open>What the genesis file and the bank of the first block have to satisfy.\<close>

definition genesis_fits :: "'b token_env \<Rightarrow> 'b token_world \<Rightarrow> token_genesis \<Rightarrow> bool" where
  "genesis_fits E w g \<longleftrightarrow> fresh_store w \<and> bank_ok (tc_supply E) (tw_bank w) \<and> tokenParamsValid E (tgParams g) \<and>
     distinct (map Symbol (tgTokens g)) \<and>
     (\<forall>l \<in> set (tgLockedAssets g @ tgLockedFees g). valid_coins (acCoins l)) \<and>
     (\<forall>d. held E (tw_bank w) d = sumCoins (tgLockedAssets g) d + sumCoins (tgLockedFees g) d) \<and>
     (\<forall>d. GetSupplyByDenom E (tw_bank w) d \<le> NewDec (tc_dec E) TotalSupplyUpperbound) \<and>
     (\<forall>d. GetSupplyByDenom E (tw_bank w) d \<noteq> 0 \<longrightarrow> d \<in> Symbol ` set (tgTokens g))"

lemma TokenExist_new: "TokenExist (NewToken w t) s \<longleftrightarrow> s = Symbol t \<or> TokenExist w s"
  by (simp add: TokenExist_def)

lemma init_fields:
  "tw_bank (foldl NewToken w ts) = tw_bank w" "tw_params (foldl NewToken w ts) = tw_params w"
  "tw_locked (foldl NewToken w ts) = tw_locked w" "tw_lockedFees (foldl NewToken w ts) = tw_lockedFees w"
  "TokenExist (foldl NewToken w ts) s \<longleftrightarrow> s \<in> Symbol ` set ts \<or> TokenExist w s"
  by (induction ts arbitrary: w) (auto simp: TokenExist_new)

lemma init_tokens:
  assumes "registry_ok now w" and "distinct (map Symbol ts)" and "\<forall>t \<in> set ts. \<not> TokenExist w (Symbol t)"
  shows "registry_ok now (foldl NewToken w ts)"
  using assms
proof (induction ts arbitrary: w)
  case (Cons t ts)
  then have "registry_ok now (NewToken w t)" by (simp add: NewToken_fresh)
  moreover have "\<forall>u \<in> set ts. \<not> TokenExist (NewToken w t) (Symbol u)"
  proof
    fix u
    assume "u \<in> set ts"
    then have "Symbol u \<in> Symbol ` set ts" "u \<in> set (t # ts)" by simp_all
    with Cons.prems(2,3) show "\<not> TokenExist (NewToken w t) (Symbol u)" by (auto simp: TokenExist_new)
  qed
  ultimately show ?case using Cons.IH [of "NewToken w t"] Cons.prems(2) by simp
qed simp

context lock_box
begin

lemma init_locks:
  fixes E :: "'b token_env"
  assumes E: "token_ok E" and "boxes_ok w" and "\<And>l. l \<in> set ls \<Longrightarrow> valid_coins (acCoins l)"
  shows "\<exists>w'. foldE (lockGenesis E ty) w ls = Inr w' \<and> boxes_ok w' \<and> same_registry w w' \<and> tw_bank w' = tw_bank w \<and>
     tw_params w' = tw_params w \<and> (\<forall>d. lockedTotal w' d = lockedTotal w d + sumCoins ls d)"
  using assms(2,3)
proof (induction ls arbitrary: w)
  case (Cons l ls)
  then have cs: "valid_coins (acCoins l)" by simp
  note g = get_ok [OF Cons.prems(1)]
  from lock [OF E g cs, of "acAcc l"] obtain new where
    u: "lockGenesis E ty w l = Inr (put w (boxPut (get w) (acAcc l) new))" and new: "valid_coins new" "coins_sorted new"
      "\<And>d. AmountOf d new = AmountOf d (boxAt (get w) (acAcc l)) + AmountOf d (acCoins l)" by (auto simp: lockGenesis_def)
  let ?w = "put w (boxPut (get w) (acAcc l) new)"
  from put_ok [OF Cons.prems(1) box_ok_put [OF g new(1,2)]] have "boxes_ok ?w" .
  with Cons.IH [of ?w] Cons.prems(2) obtain w' where "foldE (lockGenesis E ty) ?w ls = Inr w'" "boxes_ok w'" "same_registry ?w w'"
    "tw_bank w' = tw_bank w" "tw_params w' = tw_params w" "\<And>d. lockedTotal w' d = lockedTotal ?w d + sumCoins ls d"
    by (auto simp: put_fields)
  then show ?case
    using u same_registry_trans [OF put_fields(3)] by (auto simp: put_total boxSum_put new(3) sumCoins_def)
qed (simp add: sumCoins_def)

end

lemma empty_registry: "fresh_store w \<Longrightarrow> registry_ok now (w\<lparr>tw_params := p\<rparr>)"
  by (simp add: fresh_store_def registry_ok_def tokens_keyed_def index_exact_def pending_ok_def hole_closed_def ownerOf_def)

lemma genesis_inv:
  assumes E: "token_ok E" and g: "genesis_fits E w data"
  shows "\<exists>w'. tokenInitGenesis E w data = Inr w' \<and> registry_ok now w' \<and> money_ok E w'"
proof -
  let ?p = "w\<lparr>tw_params := tgParams data\<rparr>"
  let ?w = "foldl NewToken ?p (tgTokens data)"
  have fresh: "fresh_store w" and d: "distinct (map Symbol (tgTokens data))" using g by (simp_all add: genesis_fits_def)
  have "\<forall>t \<in> set (tgTokens data). \<not> TokenExist ?p (Symbol t)" using fresh by (simp add: fresh_store_def TokenExist_def)
  note t = init_tokens [OF empty_registry [OF fresh] d this]
  have none: "\<not> TokenExist ?p s" for s using fresh by (simp add: fresh_store_def TokenExist_def)
  have b0: "boxes_ok ?w" "\<And>d. lockedTotal ?w d = 0"
    using fresh by (simp_all add: init_fields boxes_ok_def box_ok_def lockedTotal_def fresh_store_def boxSum_def)
  from quantity_box.init_locks [OF E b0(1), of "tgLockedAssets data"] g obtain w1 where
    1: "foldE (lockGenesis E LockCoinsTypeQuantity) ?w (tgLockedAssets data) = Inr w1" "boxes_ok w1" "same_registry ?w w1"
      "tw_bank w1 = tw_bank ?w" "tw_params w1 = tw_params ?w" "\<And>d. lockedTotal w1 d = lockedTotal ?w d + sumCoins (tgLockedAssets data) d"
    unfolding genesis_fits_def by auto
  from fee_box.init_locks [OF E 1(2), of "tgLockedFees data"] g obtain w2 where
    2: "foldE (lockGenesis E LockCoinsTypeFee) w1 (tgLockedFees data) = Inr w2" "boxes_ok w2" "same_registry w1 w2"
      "tw_bank w2 = tw_bank w1" "tw_params w2 = tw_params w1" "\<And>d. lockedTotal w2 d = lockedTotal w1 d + sumCoins (tgLockedFees data) d"
    unfolding genesis_fits_def by auto
  have r: "same_registry ?w w2" using same_registry_trans [OF 1(3) 2(3)] .
  have "money_ok E w2"
    using g 1(4-6) 2(2,4-6) b0(2) TokenExist_registry [OF r] none unfolding genesis_fits_def
    by (auto simp: init_fields money_ok_def locks_backed_def supply_bounded_def supply_recorded_def)
  with 1(1) 2(1) same_registry_ok [OF r t] show ?thesis by (auto simp: tokenInitGenesis_def Let_def)
qed

subsection \<open>The state machine\<close>

text \<open>A step from a state at one time to a state at a later one. Messages come from accounts with
  keys, so neither from the module nor from the black hole; \<open>other_modules\<close> is any change of the bank that
  leaves the module's account and the supplies alone.\<close>

inductive token_step :: "'b token_env \<Rightarrow> timestamp \<times> 'b token_world \<Rightarrow> timestamp \<times> 'b token_world \<Rightarrow> bool" for E where
  message: "now \<le> tcBlockTime ctx \<Longrightarrow> tokenValidateBasic E m = None \<Longrightarrow> tokenSigner m \<noteq> tokenAddr E \<Longrightarrow>
    tokenSigner m \<noteq> BlackHoleAddress \<Longrightarrow> token_handler E ctx w m = Inr w' \<Longrightarrow> token_step E (now, w) (tcBlockTime ctx, w')"
| begin_block: "token_step E (now, w) (now, tokenBeginBlocker w)"
| lock: "a \<noteq> tokenAddr E \<Longrightarrow> valid_coins cs \<Longrightarrow> LockCoins E w a cs ty = Inr w' \<Longrightarrow> token_step E (now, w) (now, w')"
| unlock: "a \<noteq> tokenAddr E \<Longrightarrow> valid_coins cs \<Longrightarrow> UnlockCoins E w a cs ty = Inr w' \<Longrightarrow> token_step E (now, w) (now, w')"
| fee_detail: "token_step E (now, w) (now, AddFeeDetail E ctx w x fee ty y)"
| set_params: "tokenParamsValid E p \<Longrightarrow> token_step E (now, w) (now, w\<lparr>tw_params := p\<rparr>)"
| other_modules: "quiet E (tw_bank w) b \<Longrightarrow> token_step E (now, w) (now, w\<lparr>tw_bank := b\<rparr>)"

inductive token_reach :: "'b token_env \<Rightarrow> timestamp \<times> 'b token_world \<Rightarrow> bool" for E where
  genesis: "genesis_fits E w data \<Longrightarrow> tokenInitGenesis E w data = Inr w' \<Longrightarrow> token_reach E (now, w')"
| step: "token_reach E s \<Longrightarrow> token_step E s s' \<Longrightarrow> token_reach E s'"

inductive_cases token_stepE: "token_step E (now, w) s'"

definition token_inv :: "'b token_env \<Rightarrow> timestamp \<times> 'b token_world \<Rightarrow> bool" where
  "token_inv E s \<longleftrightarrow> registry_ok (fst s) (snd s) \<and> money_ok E (snd s)"

lemma same_registry_fields [simp]: "same_registry w (tokenBeginBlocker w)" "same_registry w (AddFeeDetail E ctx w x fee ty y)"
    "same_registry w (w\<lparr>tw_params := p\<rparr>)"
  by (simp_all add: same_registry_def tokenBeginBlocker_def ResetCache_def AddFeeDetail_def)

text \<open>Every step but a message leaves the registry alone.\<close>

lemma step_registry:
  assumes E: "token_ok E" and st: "token_step E s s'" and inv: "token_inv E s"
  shows "token_inv E s'"
    and "(\<exists>ctx m. tokenValidateBasic E m = None \<and> tokenSigner m \<noteq> BlackHoleAddress \<and> fst s \<le> tcBlockTime ctx \<and>
           token_handler E ctx (snd s) m = Inr (snd s') \<and> fst s' = tcBlockTime ctx) \<or> same_registry (snd s) (snd s')"
  using st inv
proof (induction)
  case (message now ctx m w w')
  { case 1 then show ?case using message handler_registry [of now w ctx E m w'] handler_money [OF E, of w m ctx w'] by (simp add: token_inv_def)
  next
    case 2 then show ?case using message by auto }
next
  case (lock a cs w ty w' now)
  { case 1 then show ?case using lockCoins_money(1) [OF E _ lock] same_registry_ok by (auto simp: token_inv_def)
  next
    case 2 then show ?case using lockCoins_money(1) [OF E _ lock] by (simp add: token_inv_def) }
next
  case (unlock a cs w ty w' now)
  { case 1 then show ?case using lockCoins_money(2) [OF E _ unlock] same_registry_ok by (auto simp: token_inv_def)
  next
    case 2 then show ?case using lockCoins_money(2) [OF E _ unlock] by (simp add: token_inv_def) }
next
  case (begin_block now w)
  { case 1 then show ?case
      using same_registry_ok [OF same_registry_fields(1), of now w] money_registry [of E w "tokenBeginBlocker w"]
      by (simp add: token_inv_def tokenBeginBlocker_def ResetCache_def TokenExist_def)
  next
    case 2 then show ?case by simp }
next
  case (fee_detail now w ctx x fee ty y)
  { case 1 then show ?case
      using same_registry_ok [OF same_registry_fields(2), of now w] money_registry [of E w "AddFeeDetail E ctx w x fee ty y"]
      by (simp add: token_inv_def AddFeeDetail_def TokenExist_def)
  next
    case 2 then show ?case by simp }
next
  case (set_params p now w)
  { case 1 then show ?case
      using same_registry_ok [OF same_registry_fields(3), of now w p] set_params
      by (simp add: token_inv_def money_ok_def boxes_ok_def locks_backed_def lockedTotal_def supply_bounded_def supply_recorded_def TokenExist_def)
  next
    case 2 then show ?case by simp }
next
  case (other_modules w b now)
  { case 1 then show ?case
      using same_registry_ok [OF same_registry_bank, of now w b] money_quiet [of E w "w\<lparr>tw_bank := b\<rparr>"] other_modules
      by (simp add: token_inv_def TokenExist_def)
  next
    case 2 then show ?case by simp }
qed

lemma token_reach_inv:
  assumes "token_ok E" and "token_reach E s"
  shows "token_inv E s"
  using assms(2)
proof induction
  case (genesis w data w' now)
  with genesis_inv [OF assms(1) genesis(1), of now] show ?case by (auto simp: token_inv_def)
next
  case (step s s')
  then show ?case by (rule_tac step_registry(1) [OF assms(1)])
qed

lemma reach_registry: "token_ok E \<Longrightarrow> token_reach E (now, w) \<Longrightarrow> registry_ok now w"
  and reach_money: "token_ok E \<Longrightarrow> token_reach E (now, w) \<Longrightarrow> money_ok E w"
  using token_reach_inv [of E "(now, w)"] by (simp_all add: token_inv_def)

subsection \<open>Reading the invariants off the code's functions\<close>

lemma user_entries: "registry_ok now w \<Longrightarrow> ((a, s), u) \<in> set (kv_list (tw_userTokens w)) \<longleftrightarrow> ownerOf w s = Some a"
  using registry_okD(2) [of now w a s] by (auto simp: kv_in_list)

lemma userTokens_set:
  assumes "registry_ok now w"
  shows "set (GetUserTokensInfo w a) = {t \<in> set (GetTokensInfo w). Owner t = a}"
proof -
  have "t \<in> set (GetUserTokensInfo w a) \<longleftrightarrow> (\<exists>s. ownerOf w s = Some a \<and> t = GetTokenInfo w s)" for t
    using user_entries [OF assms, of a] by (force simp: GetUserTokensInfo_def)
  moreover have "t \<in> set (GetTokensInfo w) \<longleftrightarrow> (\<exists>s. tokenAt w s = Some t)" for t
    by (force simp: GetTokensInfo_def simp flip: kv_in_list)
  ultimately show ?thesis by (force simp: ownerOf_def GetTokenInfo_def)
qed

lemma userTokens_distinct:
  assumes R: "registry_ok now w"
  shows "distinct (map Symbol (GetUserTokensInfo w a))"
proof -
  let ?es = "filter (\<lambda>e. fst (fst e) = a) (kv_list (tw_userTokens w))"
  have "Symbol (GetTokenInfo w (snd (fst e))) = snd (fst e)" if es: "e \<in> set ?es" for e
  proof -
    have "fst (fst e) = a" using es by simp
    then obtain s where e: "e = ((a, s), ())" by (metis prod.collapse old.unit.exhaust)
    with es user_entries [OF R, of a s] registry_okD(1) [OF R, of s] show ?thesis by (auto simp: ownerOf_def GetTokenInfo_def)
  qed
  then have "map Symbol (GetUserTokensInfo w a) = map snd (map fst ?es)" by (simp add: GetUserTokensInfo_def)
  moreover have "distinct (map fst ?es)" using kv_keys_distinct [of "tw_userTokens w"] distinct_map_filter by blast
  then have "distinct (map snd (map fst ?es))"
    unfolding distinct_map [of snd] by (auto intro!: inj_onI)
  ultimately show ?thesis by simp
qed

definition accCoinsOf :: "acc_address \<times> sys_coins \<Rightarrow> AccCoins" where
  "accCoinsOf e = \<lparr>acAcc = fst e, acCoins = snd e\<rparr>"

lemma iterateFees_collect:
  "iterateFees (\<lambda>acc coins fees. (False, fees @ [\<lparr>acAcc = acc, acCoins = coins\<rparr>])) es xs = xs @ map accCoinsOf es"
  by (induction es arbitrary: xs) (auto simp: accCoinsOf_def)

lemma exported_locks:
  "tgLockedAssets (tokenExportGenesis w) = map accCoinsOf (kv_list (tw_locked w))"
  "tgLockedFees (tokenExportGenesis w) = map accCoinsOf (kv_list (tw_lockedFees w))"
  by (simp_all add: tokenExportGenesis_def IterateLockedFees_def GetAllLockedCoins_def iterateFees_collect accCoinsOf_def [abs_def])

lemma sumCoins_entries: "sumCoins (map accCoinsOf (kv_list m)) d = boxSum m d"
  by (simp add: sumCoins_def boxSum_def kv_sum_def accCoinsOf_def comp_def case_prod_unfold)

subsection \<open>Export and import\<close>

lemma import_tokens:
  assumes "\<And>t. t \<in> set ts \<Longrightarrow> Symbol (snd t) = fst t"
  shows "tw_tokens (foldl NewToken w (map snd ts)) = foldl (\<lambda>m e. kv_set (fst e) (snd e) m) (tw_tokens w) ts"
    and "getTokenNum (foldl NewToken w (map snd ts)) = getTokenNum w + of_nat (length ts)"
    and "tw_confirm (foldl NewToken w (map snd ts)) = tw_confirm w"
  using assms by (induction ts arbitrary: w) (auto simp: NewToken_def Let_def getTokenNum_def)

context lock_box
begin

lemma import_locks:
  fixes E :: "'b token_env"
  assumes "distinct (map fst es)" and "\<And>e. e \<in> set es \<Longrightarrow> coins_sorted (snd e) \<and> snd e \<noteq> []"
    and "\<And>e. e \<in> set es \<Longrightarrow> kv_get (get w) (fst e) = None" and putput: "\<And>w m n. put (put w m) n = put w n"
    and putsame: "\<And>w. put w (get w) = w"
  shows "foldE (lockGenesis E ty) w (map accCoinsOf es) = Inr (put w (foldl (\<lambda>m e. kv_set (fst e) (snd e) m) (get w) es))"
  using assms(1-3)
proof (induction es arbitrary: w)
  case (Cons e es)
  have "sort_key Denom (snd e) = snd e" using Cons.prems(2) [of e] by (simp add: coins_sorted_def sorted_sort_id [symmetric] sort_key_id_if_sorted)
  then have "lockGenesis E ty w (accCoinsOf e) = Inr (put w (kv_set (fst e) (snd e) (get w)))"
    using Cons.prems(2,3) [of e] by (simp add: lockGenesis_def updateLockedCoins_def store set accCoinsOf_def Let_def)
  moreover have "kv_get (get (put w (kv_set (fst e) (snd e) (get w)))) (fst x) = None" if "x \<in> set es" for x
  proof -
    have "fst x \<noteq> fst e" using imageI [OF that, of fst] Cons.prems(1) by (metis distinct.simps(2) list.set_map list.simps(9))
    with that Cons.prems(3) [of x] show ?thesis by (simp add: get_put)
  qed
  ultimately show ?case using Cons.IH [of "put w (kv_set (fst e) (snd e) (get w))"] Cons.prems(1,2) by (simp add: get_put putput)
qed (simp add: putsame)

end

lemma import_index:
  assumes "distinct (map Symbol ts)"
  shows "kv_get (tw_userTokens (foldl NewToken w ts)) (a, s) =
     (if \<exists>t \<in> set ts. Symbol t = s \<and> Owner t = a then Some () else kv_get (tw_userTokens w) (a, s))"
  using assms by (induction ts arbitrary: w) (auto simp: NewToken_def Let_def)

lemma genesis_roundtrip:
  assumes E: "token_ok E" and R: "registry_ok now w" and m: "money_ok E w" and f: "fresh_store w0"
  shows "\<exists>w'. tokenInitGenesis E w0 (tokenExportGenesis w) = Inr w' \<and> same_registry (w\<lparr>tw_confirm := kv_empty\<rparr>) w' \<and>
     tw_locked w' = tw_locked w \<and> tw_lockedFees w' = tw_lockedFees w \<and> tw_params w' = tw_params w \<and>
     getTokenNum w' = of_nat (length (GetTokensInfo w)) \<and> tw_bank w' = tw_bank w0"
proof -
  let ?p = "w0\<lparr>tw_params := tw_params w\<rparr>" and ?ts = "kv_list (tw_tokens w)"
  let ?w = "foldl NewToken ?p (map snd ?ts)"
  have sym: "\<And>t. t \<in> set ?ts \<Longrightarrow> Symbol (snd t) = fst t" using registry_okD(1) [OF R] by (auto simp: kv_in_list)
  note i = import_tokens [of ?ts ?p, OF sym]
  have "map Symbol (map snd ?ts) = map fst ?ts" using sym by simp
  then have d: "distinct (map Symbol (map snd ?ts))" using kv_keys_distinct [of "tw_tokens w"] by (simp only:)
  have ex: "(\<exists>t \<in> set (map snd ?ts). Symbol t = s \<and> Owner t = a) \<longleftrightarrow> ownerOf w s = Some a" for a s
    using registry_okD(1) [OF R] by (force simp: ownerOf_def simp flip: kv_in_list)
  have "kv_get (tw_userTokens ?w) (a, s) = kv_get (tw_userTokens w) (a, s)" for a s
    using import_index [OF d, of ?p a s] ex [of s a] registry_okD(2) [OF R, of a s] f
    by (cases "kv_get (tw_userTokens w) (a, s)") (auto simp: fresh_store_def)
  then have u: "tw_userTokens ?w = tw_userTokens w" by (intro kv_eqI) auto
  have boxes: "box_ok (tw_locked w)" "box_ok (tw_lockedFees w)" using money_okD(2) [OF m] by (simp_all add: boxes_ok_def)
  have sorted: "coins_sorted (snd e) \<and> snd e \<noteq> []" if "box_ok b" "e \<in> set (kv_list b)" for e b
    using that by (cases e) (auto simp: box_ok_def kv_in_list)
  have 1: "foldE (lockGenesis E LockCoinsTypeQuantity) ?w (map accCoinsOf (kv_list (tw_locked w))) = Inr (?w\<lparr>tw_locked := tw_locked w\<rparr>)"
    using quantity_box.import_locks [of "kv_list (tw_locked w)" ?w E] kv_keys_distinct [of "tw_locked w"] sorted [OF boxes(1)] f
    by (simp add: init_fields fresh_store_def kv_rebuild)
  have 2: "foldE (lockGenesis E LockCoinsTypeFee) (?w\<lparr>tw_locked := tw_locked w\<rparr>) (map accCoinsOf (kv_list (tw_lockedFees w))) =
      Inr (?w\<lparr>tw_locked := tw_locked w, tw_lockedFees := tw_lockedFees w\<rparr>)"
    using fee_box.import_locks [of "kv_list (tw_lockedFees w)" "?w\<lparr>tw_locked := tw_locked w\<rparr>" E] kv_keys_distinct [of "tw_lockedFees w"]
      sorted [OF boxes(2)] f
    by (simp add: init_fields fresh_store_def kv_rebuild)
  have "tokenInitGenesis E w0 (tokenExportGenesis w) = Inr (?w\<lparr>tw_locked := tw_locked w, tw_lockedFees := tw_lockedFees w\<rparr>)"
    using 1 2 by (simp add: tokenInitGenesis_def Let_def exported_locks) (simp add: tokenExportGenesis_def GetTokensInfo_def)
  moreover have "tw_tokens ?w = tw_tokens w" using i(1) f by (simp add: fresh_store_def kv_rebuild)
  ultimately show ?thesis using u i(2,3) f
    by (simp add: same_registry_def init_fields GetTokensInfo_def fresh_store_def getTokenNum_def)
qed

end
