(* ===== verification/Token_Props.thy ===== *)
theory Token_Props
  imports Token_Reach
begin

text \<open>
  What the token module guarantees: the supply bound, the index by owner, the authority over
  ownership, the backing of locked coins, locking as a round trip, genesis as a round trip, and the
  symbols it hands out; with a concrete environment and state at which the hypotheses hold.
\<close>

subsection \<open>A concrete environment\<close>

type_synonym demo_bank = "(acc_address \<Rightarrow> sys_coins) \<times> (string \<Rightarrow> dec)"

definition demoAddr :: "string \<Rightarrow> acc_address" where
  "demoAddr m = map (\<lambda>c. word_of_nat (of_char c)) m"

definition demoSend :: "demo_bank \<Rightarrow> acc_address \<Rightarrow> acc_address \<Rightarrow> sys_coins \<Rightarrow> string + demo_bank" where
  "demoSend b x y cs = (case sendCoins (fst b) x y cs of Inl e \<Rightarrow> Inl e | Inr f \<Rightarrow> Inr (f, snd b))"

definition supply1 :: "demo_bank supply_ops" where
  "supply1 = \<lparr>
     GetCoins = (\<lambda>b a. fst b a),
     GetModuleAddress = demoAddr,
     ModuleToModule = (\<lambda>b m n cs. demoSend b (demoAddr m) (demoAddr n) cs),
     ModuleToAccount = (\<lambda>b m a cs. demoSend b (demoAddr m) a cs),
     AccountToModule = (\<lambda>b a m cs. demoSend b a (demoAddr m) cs),
     SetModuleCoins = (\<lambda>b m cs. ((fst b)(demoAddr m := cs), snd b))\<rparr>"

definition token_env0 :: "demo_bank token_env" where
  "token_env0 = \<lparr>
     tc_dec = dec18, tc_coins = coins0, tc_supply = supply1,
     MintCoins = (\<lambda>b m cs. Inr ((fst b)(demoAddr m := canon (fst b (demoAddr m) @ cs)), \<lambda>d. snd b d + AmountOf d cs)),
     BurnCoins = (\<lambda>b m cs. if covered (fst b (demoAddr m)) cs
        then Inr ((fst b)(demoAddr m := canon (fst b (demoAddr m) @ negCoins cs)), \<lambda>d. snd b d - AmountOf d cs)
        else Inl ''insufficient funds''),
     GetSupplyByDenom = (\<lambda>b d. snd b d),
     SendCoins = demoSend,
     GetSendEnabled = (\<lambda>_. True),
     bankBlacklisted = (\<lambda>a. a = demoAddr TokenModuleName),
     ethCodeHash = (\<lambda>_ _. None),
     keccakNil = [],
     tmhashSum = (\<lambda>bs. replicate 32 171),
     denomValid = (\<lambda>s. 3 \<le> length s),
     MustParseCoins = (\<lambda>n s. map_option (\<lambda>x. [\<lparr>Denom = n, Amount = x\<rparr>]) (NewDecFromStr dec18 s)),
     Add2 = AddCoins coins0,
     IsAllPositive = (\<lambda>cs. list_all (\<lambda>c. 0 < Amount c) cs),
     DecString = (\<lambda>_. ''0''),
     tc_feeCollectorName = ''fee_collector'',
     enableBackend = False\<rparr>"

lemma supply1_sel [simp]:
  "GetCoins supply1 b = fst b" "GetModuleAddress supply1 = demoAddr" "ModuleToModule supply1 b m n cs = demoSend b (demoAddr m) (demoAddr n) cs"
  "ModuleToAccount supply1 b m a cs = demoSend b (demoAddr m) a cs" "AccountToModule supply1 b a m cs = demoSend b a (demoAddr m) cs"
  "SetModuleCoins supply1 b m cs = ((fst b)(demoAddr m := cs), snd b)"
  by (simp_all add: supply1_def fun_eq_iff)

lemma token_env0_sel [simp]:
  "tc_dec token_env0 = dec18" "tc_coins token_env0 = coins0" "tc_supply token_env0 = supply1"
  "GetSupplyByDenom token_env0 = (\<lambda>b d. snd b d)" "SendCoins token_env0 = demoSend"
  "bankBlacklisted token_env0 = (\<lambda>a. a = demoAddr TokenModuleName)" "Add2 token_env0 = AddCoins coins0"
  "tc_feeCollectorName token_env0 = ''fee_collector''"
  by (simp_all add: token_env0_def)

lemma bank_ok1: "bank_ok supply1 b \<longleftrightarrow> bank_ok supply0 (fst b)"
  by (simp add: bank_ok_def supply0_def)

lemma demoSend_transferred:
  assumes "bank_ok supply1 b" and "valid_coins cs" and "demoSend b x y cs = Inr b'"
  shows "transferred supply1 b x y cs b'" and "snd b' = snd b"
proof -
  from assms(3) obtain f where f: "sendCoins (fst b) x y cs = Inr f" "b' = (f, snd b)" by (auto simp: demoSend_def split: sum.splits)
  from sendCoins_transferred [OF _ assms(2) f(1)] assms(1) f(2) show "transferred supply1 b x y cs b'" "snd b' = snd b"
    by (simp_all add: bank_ok1 transferred_def supply0_def)
qed

lemma demoSend_supply: "demoSend b x y cs = Inr b' \<Longrightarrow> snd b' = snd b"
  by (auto simp: demoSend_def split: sum.splits)

lemma demoSend_fails: "demoSend b x y cs = Inl e \<Longrightarrow> \<exists>d. AmountOf d (fst b x) < AmountOf d cs"
  by (auto simp: demoSend_def sendCoins_def covered_iff not_le Let_def split: sum.splits if_splits)

lemma supply1_ok: "supply_ok supply1"
proof -
  have "module_to_module_law supply1"
    unfolding module_to_module_law_def supply1_sel using demoSend_transferred(1) demoSend_fails by (fastforce split: sum.splits)
  moreover have "module_account_law supply1"
    unfolding module_account_law_def supply1_sel using demoSend_transferred(1) by blast
  ultimately show ?thesis by (simp add: supply_ok_def)
qed

lemma token_env0_mint: "mint_burn_law token_env0"
proof -
  have mint: "created token_env0 1 b m cs ((fst b)(demoAddr m := canon (fst b (demoAddr m) @ cs)), \<lambda>d. snd b d + AmountOf d cs)"
    if "bank_ok supply1 b" "valid_coins cs" for b m cs
    using that by (auto simp: created_def bank_ok_def AmountOf_canon valid_nonneg intro!: canon_valid)
  have burn: "created token_env0 (- 1) b m cs ((fst b)(demoAddr m := canon (fst b (demoAddr m) @ negCoins cs)), \<lambda>d. snd b d - AmountOf d cs)"
    if "bank_ok supply1 b" "covered (fst b (demoAddr m)) cs" for b m cs
    using that by (auto simp: created_def bank_ok_def AmountOf_canon covered_iff intro!: canon_valid)
  show ?thesis using mint burn by (auto simp: mint_burn_law_def token_env0_def)
qed

lemma token_env0_ok: "token_ok token_env0"
proof -
  have "parse_law token_env0"
    by (auto simp: parse_law_def to_coins_keeps_def token_env0_def dec18_def valid_coins_def)
  moreover have "add2_law token_env0"
    using add_coins [OF coins0_ok] by (simp add: add2_law_def)
  moreover have "send_law token_env0" "supply_law token_env0"
    using demoSend_transferred(1) by (auto simp: send_law_def supply_law_def supply_kept_def dest!: demoSend_supply)
  moreover have "demoAddr ''fee_collector'' \<noteq> demoAddr TokenModuleName" by (simp add: demoAddr_def TokenModuleName_def)
  ultimately show ?thesis
    using coins0_ok supply1_ok token_env0_mint by (simp add: token_ok_def dec18_def)
qed

text \<open>One token, owned by the account \<open>[1]\<close>, which holds the whole supply.\<close>

definition demoFax :: Token where
  "demoFax = \<lparr>tDescription = ''Token'', Symbol = ''fax'', OriginalSymbol = ''fax'', WholeName = ''FAX'',
     OriginalTotalSupply = 5, tType = 0, Owner = [1], Mintable = True\<rparr>"

definition demoParams :: token_params where
  "demoParams = (let c = \<lparr>Denom = ''fax'', Amount = 0\<rparr> in
     \<lparr>FeeIssue = c, FeeMint = c, FeeBurn = c, FeeModify = c, FeeChown = c, OwnershipConfirmWindow = 100\<rparr>)"

definition demoBank :: demo_bank where
  "demoBank = ((\<lambda>a. if a = [1] then [\<lparr>Denom = ''fax'', Amount = 5\<rparr>] else []), \<lambda>d. if d = ''fax'' then 5 else 0)"

definition demoWorld :: "demo_bank token_world" where
  "demoWorld = \<lparr>tw_bank = demoBank,
     tw_tokens = kv_empty, tw_tokenNum = None, tw_userTokens = kv_empty, tw_confirm = kv_empty,
     tw_locked = kv_empty, tw_lockedFees = kv_empty, tw_params = demoParams, tw_feeDetails = []\<rparr>"

definition demoStart :: "demo_bank token_world" where
  "demoStart = NewToken demoWorld demoFax"

lemma demoStart_reach: "token_reach token_env0 (0, demoStart)"
proof (rule token_reach.genesis)
  let ?g = "\<lparr>tgParams = demoParams, tgTokens = [demoFax], tgLockedAssets = [], tgLockedFees = []\<rparr>"
  have "demoAddr TokenModuleName \<noteq> [1]" by (simp add: demoAddr_def TokenModuleName_def)
  then show "genesis_fits token_env0 demoWorld ?g"
    by (auto simp: genesis_fits_def fresh_store_def demoWorld_def demoBank_def bank_ok_def valid_coins_def tokenParamsValid_def demoParams_def
        Let_def dec18_def held_def sumCoins_def NewDec_def TotalSupplyUpperbound_def demoFax_def)
  show "tokenInitGenesis token_env0 demoWorld ?g = Inr demoStart"
    by (simp add: tokenInitGenesis_def demoStart_def demoWorld_def Let_def)
qed

lemma demoStart_sel [simp]:
  "tw_tokens demoStart = kv_set ''fax'' demoFax kv_empty" "tw_confirm demoStart = kv_empty" "tw_params demoStart = demoParams"
  "tw_bank demoStart = demoBank"
  "tw_locked demoStart = kv_empty" "tw_lockedFees demoStart = kv_empty"
  by (simp_all add: demoStart_def demoWorld_def demoFax_def)

lemma demoFax_sel [simp]: "Symbol demoFax = ''fax''" "Owner demoFax = [1]" "Mintable demoFax"
  by (simp_all add: demoFax_def)

subsection \<open>Properties\<close>



text \<open>C12: The index of tokens by owner is exact in every reachable state: what \<open>GetUserTokensInfo\<close> lists for an
  address is precisely the recorded tokens it owns, each once.\<close>

theorem user_tokens_exact:
  assumes "token_ok E" and "token_reach E (now, w)"
  shows "set (GetUserTokensInfo w a) = {t \<in> set (GetTokensInfo w). Owner t = a} \<and> distinct (map Symbol (GetUserTokensInfo w a))"
  using userTokens_set [OF reach_registry [OF assms]] userTokens_distinct [OF reach_registry [OF assms]] by blast

theorem user_tokens_exact_witness: "set (GetUserTokensInfo demoStart [1]) = {demoFax}"
proof -
  have "set (GetTokensInfo demoStart) = {demoFax}" by (simp add: GetTokensInfo_def)
  then have "{t \<in> set (GetTokensInfo demoStart). Owner t = [1]} = {demoFax}" by auto
  with user_tokens_exact [OF token_env0_ok demoStart_reach, of "[1]"] show ?thesis by (simp only:)
qed

text \<open>C10: In a reachable state a message changes the owner of a token in three ways only: it issues the token under
  a free symbol; its present owner sends it to the black hole; or the address named in a pending transfer
  confirms in time. No other message, and no other signer, moves a token.\<close>

theorem owner_changes_authorised:
  assumes "token_ok E" and "token_reach E (now, w)" and "now \<le> tcBlockTime ctx" and "tokenValidateBasic E m = None"
    and "tokenSigner m \<noteq> BlackHoleAddress" and "token_handler E ctx w m = Inr w'" and "ownerOf w' s \<noteq> ownerOf w s"
  shows "owner_moves ctx m w w' s"
  using handler_registry [OF reach_registry [OF assms(1,2)] assms(3-6)] assms(7) by blast

definition demoCtx :: token_ctx where
  "demoCtx = \<lparr>tcBlockTime = 10, TxBytes = []\<rparr>"

text \<open>The owner gives the token to the black hole; the fee of the example is zero.\<close>

definition demoHole :: "demo_bank token_world" where
  "demoHole = moveToken demoStart demoFax BlackHoleAddress"

lemma demo_fee: "payFee token_env0 w a \<lparr>Denom = ''fax'', Amount = 0\<rparr> = Inr w' \<longleftrightarrow>
    (\<exists>f. sendCoins (fst (tw_bank w)) a (demoAddr ''fee_collector'') [] = Inr f \<and> w' = w\<lparr>tw_bank := (f, snd (tw_bank w))\<rparr>)"
  by (auto simp: payFee_def res_simps dec18_def demoSend_def split: sum.splits)

lemma demo_send_nothing: "sendCoins (fst demoBank) x y [] = Inr (fst demoBank)"
  by (auto simp: sendCoins_def covered_def negCoins_def fun_eq_iff demoBank_def canon_def)

lemma demo_free:
  assumes "tw_bank w = demoBank"
  shows "payFee token_env0 w a \<lparr>Denom = ''fax'', Amount = 0\<rparr> = Inr w"
  using assms by (simp add: demo_fee demo_send_nothing)

abbreviation demoGive :: token_msg where
  "demoGive \<equiv> TransferOwnership [1] BlackHoleAddress ''fax''"

lemma demoGive_handled: "token_handler token_env0 demoCtx demoStart demoGive = Inr demoHole"
proof -
  have "payFee token_env0 demoHole [1] \<lparr>Denom = ''fax'', Amount = 0\<rparr> = Inr demoHole"
    by (rule demo_free) (simp add: demoHole_def moveToken_def DeleteUserToken_def)
  then show ?thesis
    by (simp add: token_handler_def handleMsgTransferOwnership_def GetTokenInfo_def GetConfirmOwnership_def Let_def
        moveToken_def [symmetric] demoHole_def [symmetric])
      (simp add: demoHole_def moveToken_def DeleteUserToken_def demoParams_def Let_def)
qed

lemma demoGive_valid: "tokenValidateBasic token_env0 demoGive = None" "tokenSigner demoGive \<noteq> BlackHoleAddress"
    "tokenSigner demoGive \<noteq> tokenAddr token_env0" "0 \<le> tcBlockTime demoCtx"
  by (simp_all add: tokenValidateBasic_def transferValidateBasic_def EmptyAddr_def BlackHoleAddress_def token_env0_def
      tokenSigner_def numeral_eq_Suc demoAddr_def TokenModuleName_def demoCtx_def)

lemma demoHole_owner: "ownerOf demoHole ''fax'' = Some BlackHoleAddress"
  by (simp add: demoHole_def ownerOf_def moveToken_def DeleteUserToken_def)

theorem owner_changes_authorised_witness: "owner_moves demoCtx demoGive demoStart demoHole ''fax''"
proof (rule owner_changes_authorised [OF token_env0_ok demoStart_reach demoGive_valid(4,1,2) demoGive_handled])
  show "ownerOf demoHole ''fax'' \<noteq> ownerOf demoStart ''fax''"
    unfolding demoHole_owner by (simp add: ownerOf_def BlackHoleAddress_def numeral_eq_Suc)
qed

text \<open>Nobody can take a token back from the black hole: the address signs nothing, and a transfer that was pending
  has expired.\<close>

lemma hole_step:
  assumes E: "token_ok E" and inv: "token_inv E s" and st: "token_step E s s'" and o: "ownerOf (snd s) x = Some BlackHoleAddress"
  shows "ownerOf (snd s') x = Some BlackHoleAddress"
  using step_registry(2) [OF E st inv]
proof
  assume "\<exists>ctx m. tokenValidateBasic E m = None \<and> tokenSigner m \<noteq> BlackHoleAddress \<and> fst s \<le> tcBlockTime ctx \<and>
           token_handler E ctx (snd s) m = Inr (snd s') \<and> fst s' = tcBlockTime ctx"
  then obtain ctx m where m: "tokenValidateBasic E m = None" "tokenSigner m \<noteq> BlackHoleAddress" "fst s \<le> tcBlockTime ctx"
    "token_handler E ctx (snd s) m = Inr (snd s')" by blast
  have R: "registry_ok (fst s) (snd s)" using inv by (simp add: token_inv_def)
  have "coExpire c < tcBlockTime ctx" if "pending (snd s) x = Some c" for c
    using registry_okD(6) [OF R o that] m(3) by simp
  then show ?thesis
    using handler_registry [OF R m(3,1,2,4), of x] o m(2)
    by (cases "ownerOf (snd s') x = ownerOf (snd s) x")
      (auto simp: owner_moves_def split: token_msg.splits option.splits)
qed (simp add: o same_registry_owner)

text \<open>A token that was given to the black hole stays there: from any reachable state in which the black hole owns
  it, no sequence of messages, blocks, locks or parameter changes gives it another owner.\<close>

theorem black_hole_final:
  assumes "token_ok E" and "token_reach E s" and "ownerOf (snd s) x = Some BlackHoleAddress" and "(token_step E)\<^sup>*\<^sup>* s s'"
  shows "ownerOf (snd s') x = Some BlackHoleAddress"
proof -
  from assms(4) have "token_inv E s' \<and> ownerOf (snd s') x = Some BlackHoleAddress"
  proof induction
    case base
    then show ?case using token_reach_inv [OF assms(1,2)] assms(3) by blast
  next
    case (step t u)
    then show ?case using step_registry(1) [OF assms(1) step(2)] hole_step [OF assms(1) _ step(2)] by blast
  qed
  then show ?thesis by blast
qed

lemma demoHole_step: "token_step token_env0 (0, demoStart) (10, demoHole)"
  using token_step.message [OF demoGive_valid(4,1,3,2) demoGive_handled] by (simp add: demoCtx_def)

theorem black_hole_final_witness: "ownerOf (tokenBeginBlocker demoHole) ''fax'' = Some BlackHoleAddress"
  using black_hole_final [OF token_env0_ok token_reach.step [OF demoStart_reach demoHole_step], of "''fax''" "(10, tokenBeginBlocker demoHole)"]
    token_step.begin_block [of token_env0 10 demoHole] demoHole_owner by auto



text \<open>Locking coins and unlocking the same coins is a round trip: both stores of locked coins, the registry and
  every balance are what they were before.\<close>

theorem lock_unlock_roundtrip:
  assumes "token_ok E" and "token_reach E (now, w)" and "valid_coins cs" and "cs \<noteq> []" and "a \<noteq> tokenAddr E"
    and "LockCoins E w a cs ty = Inr w1" and "UnlockCoins E w1 a cs ty = Inr w2"
  shows "tw_locked w2 = tw_locked w \<and> tw_lockedFees w2 = tw_lockedFees w \<and> same_registry w w2 \<and>
     (\<forall>x d. AmountOf d (GetCoins (tc_supply E) (tw_bank w2) x) = AmountOf d (GetCoins (tc_supply E) (tw_bank w) x))"
proof -
  note m = reach_money [OF assms(1,2)]
  note m1 = lockCoins_money(1) [OF assms(1) m assms(5,3,6)]
  have r: "same_registry w w2"
    using m1 lockCoins_money(2) [OF assms(1) _ assms(5,3,7)] same_registry_trans by blast
  have ty: "ty = LockCoinsTypeQuantity \<or> ty = LockCoinsTypeFee"
    using assms(6) by (auto simp: LockCoins_def res_simps dest: lock_type)
  have other: "(ty = LockCoinsTypeQuantity \<longrightarrow> tw_lockedFees w2 = tw_lockedFees w) \<and> (ty = LockCoinsTypeFee \<longrightarrow> tw_locked w2 = tw_locked w)"
    using assms(6,7) by (auto simp: LockCoins_def UnlockCoins_def updateLockedCoins_def lockStore_def setLockStore_def res_simps Let_def
        LockCoinsTypeFee_def LockCoinsTypeQuantity_def split: if_splits option.splits prod.splits)
  from ty show ?thesis
    using quantity_box.lock_unlock [OF assms(1) m assms(3,4)] fee_box.lock_unlock [OF assms(1) m assms(3,4)] assms(6,7) r other by blast
qed

lemma demo_lock: "\<exists>w1 w2. LockCoins token_env0 demoStart [1] [\<lparr>Denom = ''fax'', Amount = 2\<rparr>] LockCoinsTypeQuantity = Inr w1 \<and>
    UnlockCoins token_env0 w1 [1] [\<lparr>Denom = ''fax'', Amount = 2\<rparr>] LockCoinsTypeQuantity = Inr w2"
  by (simp add: LockCoins_def UnlockCoins_def demoSend_def sendCoins_def demoBank_def covered_def canon_def negCoins_def
      demoAddr_def TokenModuleName_def withBank_def updateLockedCoins_def lockStore_def setLockStore_def Let_def coins0_def)

theorem lock_unlock_roundtrip_witness:
  "\<exists>w1 w2. LockCoins token_env0 demoStart [1] [\<lparr>Denom = ''fax'', Amount = 2\<rparr>] LockCoinsTypeQuantity = Inr w1 \<and>
    UnlockCoins token_env0 w1 [1] [\<lparr>Denom = ''fax'', Amount = 2\<rparr>] LockCoinsTypeQuantity = Inr w2 \<and> tw_locked w2 = tw_locked demoStart"
proof -
  have "valid_coins [\<lparr>Denom = ''fax'', Amount = 2\<rparr>]" "[\<lparr>Denom = ''fax'', Amount = 2\<rparr>] \<noteq> []" "[1] \<noteq> tokenAddr token_env0"
    by (simp_all add: valid_coins_def demoAddr_def TokenModuleName_def)
  from lock_unlock_roundtrip [OF token_env0_ok demoStart_reach this] demo_lock show ?thesis by blast
qed

text \<open>C40: The genesis export restores the module: importing what a reachable state exports into empty stores gives
  the same tokens, the same index by owner, the same locked coins and fees and the same parameters. Pending
  transfers of ownership are not exported, and the token number becomes the number of tokens.\<close>

theorem token_genesis_roundtrip:
  assumes "token_ok E" and "token_reach E (now, w)" and "fresh_store w0"
  shows "\<exists>w'. tokenInitGenesis E w0 (tokenExportGenesis w) = Inr w' \<and> tw_tokens w' = tw_tokens w \<and> tw_userTokens w' = tw_userTokens w \<and>
     tw_locked w' = tw_locked w \<and> tw_lockedFees w' = tw_lockedFees w \<and> tw_params w' = tw_params w \<and> tw_bank w' = tw_bank w0 \<and>
     tw_confirm w' = kv_empty \<and> getTokenNum w' = of_nat (length (GetTokensInfo w))"
  using genesis_roundtrip [OF assms(1) reach_registry [OF assms(1,2)] reach_money [OF assms(1,2)] assms(3)]
  by (auto simp: same_registry_def)

theorem token_genesis_roundtrip_witness:
  "\<exists>w'. tokenInitGenesis token_env0 demoWorld (tokenExportGenesis demoStart) = Inr w' \<and> tw_tokens w' = tw_tokens demoStart"
proof -
  have "fresh_store demoWorld" by (simp add: fresh_store_def demoWorld_def)
  from token_genesis_roundtrip [OF token_env0_ok demoStart_reach this] show ?thesis by blast
qed

text \<open>Confirming a transfer of ownership counts a token that does not exist: the confirmation succeeds, the
  symbols of the recorded tokens are the same as before, and the token number is one higher.\<close>

theorem confirm_counts_a_token:
  assumes "token_ok E" and "token_reach E (now, w)" and "handleMsgConfirmOwnership E ctx w s a = Inr w'"
  shows "getTokenNum w' = getTokenNum w + 1 \<and> (\<forall>x. TokenExist w' x \<longleftrightarrow> TokenExist w x)"
proof -
  note R = reach_registry [OF assms(1,2)]
  from assms(3) obtain c where c: "pending w s = Some c"
    and w': "w' = DeleteConfirmOwnership (moveToken w (GetTokenInfo w s) a) (coSymbol c)"
    by (auto simp: handleMsgConfirmOwnership_def Let_def res_simps moveToken_def GetConfirmOwnership_def split: option.splits if_splits)
  from registry_okD(4) [OF R c] have t: "tokenAt w s = Some (GetTokenInfo w s)" by (auto simp: GetTokenInfo_def)
  with registry_okD(1) [OF R t] show ?thesis
    by (auto simp: w' DeleteConfirmOwnership_def moveToken_def DeleteUserToken_def NewToken_def Let_def getTokenNum_def TokenExist_def)
qed

text \<open>The example: \<open>[1]\<close> offers the token to \<open>[2]\<close>, who confirms.\<close>

definition demoOffer :: "demo_bank token_world" where
  "demoOffer = SetConfirmOwnership demoStart \<lparr>coSymbol = ''fax'', coAddress = [2], coExpire = 110\<rparr>"

lemma demoOffer_reach: "token_reach token_env0 (10, demoOffer)"
proof -
  let ?m = "TransferOwnership [1] [2] ''fax''"
  have "payFee token_env0 demoOffer [1] \<lparr>Denom = ''fax'', Amount = 0\<rparr> = Inr demoOffer"
    by (rule demo_free) (simp add: demoOffer_def SetConfirmOwnership_def)
  then have h: "token_handler token_env0 demoCtx demoStart ?m = Inr demoOffer"
    by (simp add: token_handler_def handleMsgTransferOwnership_def GetTokenInfo_def GetConfirmOwnership_def Let_def
        demoOffer_def SetConfirmOwnership_def demoParams_def demoCtx_def BlackHoleAddress_def numeral_eq_Suc)
  have "tokenValidateBasic token_env0 ?m = None" "tokenSigner ?m \<noteq> tokenAddr token_env0" "tokenSigner ?m \<noteq> BlackHoleAddress"
    by (simp_all add: tokenValidateBasic_def transferValidateBasic_def EmptyAddr_def BlackHoleAddress_def token_env0_def
      tokenSigner_def numeral_eq_Suc demoAddr_def TokenModuleName_def)
  from token_reach.step [OF demoStart_reach token_step.message [OF demoGive_valid(4) this h]] show ?thesis by (simp add: demoCtx_def)
qed

theorem confirm_counts_a_token_witness:
  "\<exists>w'. handleMsgConfirmOwnership token_env0 demoCtx demoOffer ''fax'' [2] = Inr w' \<and> getTokenNum demoOffer = 1 \<and> getTokenNum w' = 2"
proof -
  have num: "getTokenNum demoOffer = 1"
    by (simp add: demoOffer_def SetConfirmOwnership_def demoStart_def NewToken_def Let_def getTokenNum_def demoWorld_def)
  obtain w' where w': "handleMsgConfirmOwnership token_env0 demoCtx demoOffer ''fax'' [2] = Inr w'"
    by (simp add: handleMsgConfirmOwnership_def GetConfirmOwnership_def demoOffer_def SetConfirmOwnership_def demoCtx_def Let_def)
  from confirm_counts_a_token [OF token_env0_ok demoOffer_reach this] w' num show ?thesis by auto
qed

lemma suffixLoop_spec:
  assumes "\<And>i. i < n \<Longrightarrow> denomValid E (suffixName orig hash i)"
  shows "suffixLoop E w orig hash n =
     (if \<forall>i < n. TokenExist w (suffixName orig hash i) then None
      else Some (suffixName orig hash (Max {i. i < n \<and> \<not> TokenExist w (suffixName orig hash i)})))"
  using assms
proof (induction n)
  case (Suc n)
  let ?F = "\<lambda>n. {i. i < n \<and> \<not> TokenExist w (suffixName orig hash i)}"
  have fin: "finite (?F k)" for k by simp
  have "?F (Suc n) = (if TokenExist w (suffixName orig hash n) then ?F n else insert n (?F n))" by (auto simp: less_Suc_eq)
  moreover have "Max (insert n (?F n)) = n" by (rule Max_eqI) auto
  ultimately show ?case using Suc by (auto simp: Let_def less_Suc_eq)
qed simp

text \<open>The symbol of a new token. If every candidate built from the hash of the transaction is a valid denomination,
  \<open>addTokenSuffix\<close> fails only when every three-character piece of the hash is taken, and otherwise returns
  the free candidate of the highest index; it never returns a symbol in use.\<close>

theorem addTokenSuffix_picks_free:
  assumes "hash = hexString (tmhashSum E (TxBytes ctx))" and "\<forall>i < length hash div 3. denomValid E (suffixName orig hash i)"
  shows "addTokenSuffix E ctx w orig =
     (if \<forall>i < length hash div 3. TokenExist w (suffixName orig hash i) then None
      else Some (suffixName orig hash (Max {i. i < length hash div 3 \<and> \<not> TokenExist w (suffixName orig hash i)})))"
  using suffixLoop_spec [of "length hash div 3" E orig hash w] assms by (simp add: addTokenSuffix_def Let_def)

theorem addTokenSuffix_picks_free_witness: "addTokenSuffix token_env0 demoCtx demoStart ''fax'' \<noteq> None"
proof -
  let ?h = "hexString (tmhashSum token_env0 (TxBytes demoCtx))"
  have "\<forall>i < length ?h div 3. denomValid token_env0 (suffixName ''fax'' ?h i)" by (simp add: suffixName_def token_env0_def)
  note p = addTokenSuffix_picks_free [OF refl this, of demoStart]
  have "length ?h = 64" by (simp add: hexString_def token_env0_def length_concat comp_def sum_list_replicate)
  moreover have "\<not> TokenExist demoStart (suffixName ''fax'' ?h 0)" by (simp add: TokenExist_def suffixName_def)
  then have "\<not> (\<forall>i < 21. TokenExist demoStart (suffixName ''fax'' ?h i))" by (intro notI) (drule spec [of _ 0], simp)
  ultimately show ?thesis using p by auto
qed

end
