(* ===== verification/Common_Utils.thy ===== *)
theory Common_Utils
  imports Evm_Types Go_Text Sdk_Coins
begin

text \<open>
  The helpers of \<^verbatim>\<open>src/common/util.go\<close> and types.go that the modules share: pages, byte forms of integers, the check
  of sufficient coins, and the validators of parameters, which the parameter spaces of the SDK call with a value of
  any type: \<open>param_value\<close> has the types that the parameters of the modules have.
\<close>

subsection \<open>Integers and pages\<close>

text \<open>A Go \<open>int64\<close> is a word that is read as signed.\<close>

definition Int64ToBytes :: "64 word \<Rightarrow> bytes" where
  "Int64ToBytes i = natBytes 8 (unat i)"

text \<open>\<open>Uint64\<close> reads the first eight bytes and panics if there are fewer.\<close>

definition BytesToInt64 :: "bytes \<Rightarrow> (64 word) option" where
  "BytesToInt64 buf = (if length buf < 8 then None else Some (word_of_nat (bytesNat (take 8 buf))))"

lemma BytesToInt64_Int64ToBytes: "BytesToInt64 (Int64ToBytes i @ rest) = Some i"
proof -
  have "unat i < 18446744073709551616" using unsigned_less [of i] by simp
  then show ?thesis by (simp add: BytesToInt64_def Int64ToBytes_def bytesNat_natBytes)
qed

datatype page_error = ErrAtoi | ErrNegativePage int int

definition pageNumber :: "string \<Rightarrow> page_error + int" where
  "pageNumber s = (if s = [] then Inr 0 else case parseInt64 s of None \<Rightarrow> Inl ErrAtoi | Some n \<Rightarrow> Inr n)"

definition Paginate :: "string \<Rightarrow> string \<Rightarrow> page_error + (int \<times> int)" where
  "Paginate pageStr perPageStr =
     bindE (pageNumber pageStr) (\<lambda>page.
     bindE (pageNumber perPageStr) (\<lambda>perPage.
       if page < 0 \<or> perPage < 0 then Inl (ErrNegativePage page perPage) else Inr (page, perPage)))"

definition GetPage :: "64 word \<Rightarrow> 64 word \<Rightarrow> 64 word \<times> 64 word" where
  "GetPage page perPage =
     (if sint page \<le> 0 \<or> sint perPage \<le> 0 then (0, 0) else ((page - 1) * perPage, perPage))"

text \<open>Pages follow each other without gap or overlap.\<close>

lemma GetPage_next:
  assumes "0 < sint page" and "sint page < 2 ^ 63 - 1" and "0 < sint perPage"
  shows "fst (GetPage (page + 1) perPage) = fst (GetPage page perPage) + snd (GetPage page perPage)"
proof -
  have "sint (page + 1) = sint page + 1"
    using assms(1,2) by (simp add: sint_word_ariths(1) signed_take_bit_int_eq_self)
  with assms show ?thesis by (simp add: GetPage_def algebra_simps)
qed

subsection \<open>Coins and decimals\<close>

datatype funds_error = ErrInvalidCoins sys_coins | ErrInsufficientFunds acc_address sys_coins sys_coins

definition HasSufficientCoins :: "coin_ops \<Rightarrow> acc_address \<Rightarrow> sys_coins \<Rightarrow> sys_coins \<Rightarrow> funds_error option" where
  "HasSufficientCoins C addr availableCoins amt =
     (if \<not> CoinsIsValid C amt then Some (ErrInvalidCoins amt)
      else if \<not> CoinsIsValid C availableCoins then Some (ErrInvalidCoins amt)
      else if snd (SafeSub C availableCoins amt) then Some (ErrInsufficientFunds addr availableCoins amt)
      else None)"

lemma HasSufficientCoins_covers:
  assumes "coins_ok A C" and "HasSufficientCoins C addr have amt = None"
  shows "AmountOf d amt \<le> AmountOf d have"
proof -
  from assms(2) have v: "CoinsIsValid C amt" "CoinsIsValid C have" "\<not> snd (SafeSub C have amt)"
    by (auto simp: HasSufficientCoins_def split: if_splits)
  with assms(1) have "valid_coins amt" "valid_coins have" by (auto simp: coins_ok_def)
  with assms(1) v(3) have "valid_coins (fst (SafeSub C have amt))" "AmountOf d (fst (SafeSub C have amt)) = AmountOf d have - AmountOf d amt"
    by (auto simp: coins_ok_def safe_sub_law_def)
  with valid_nonneg [of _ d] show ?thesis by fastforce
qed

text \<open>\<open>None\<close> is the panic of a division by zero; \<open>precision\<close> is that of the decimals of the SDK.\<close>

definition MulAndQuo :: "sdk_dec \<Rightarrow> nat \<Rightarrow> dec \<Rightarrow> dec \<Rightarrow> dec \<Rightarrow> dec option" where
  "MulAndQuo A precision a b c =
     (let auxiliaryDec = NewDec A (10 ^ precision);
          a = DecMulTruncate A a auxiliaryDec
      in case DecQuoTruncate A (DecMulTruncate A a b) c of
           None \<Rightarrow> None
         | Some q \<Rightarrow> DecQuoTruncate A q auxiliaryDec)"

text \<open>A handler returns a result or an error, never both and never neither.\<close>

definition SanityCheckHandler :: "'r option \<Rightarrow> 'e option \<Rightarrow> string + unit" where
  "SanityCheckHandler res err =
     (if res = None \<and> err = None then Inl ''Invalid handler''
      else if res \<noteq> None \<and> err \<noteq> None then Inl ''Invalid handler''
      else Inr ())"

subsection \<open>Validators of parameters\<close>

datatype param_value =
    VSysCoin sys_coin
  | VSysCoins sys_coins
  | VDuration int
  | VBool bool
  | VInt64 int
  | VUint64 "64 word"
  | VUint16 "16 word"
  | VDec dec
  | VString string

datatype param_error =
    InvalidParameterType
  | InvalidParam string
  | MustBePositive string
  | CannotBeNegative string
  | TooLarge string

type_synonym param_validator = "param_value \<Rightarrow> param_error option"

definition ValidateSysCoin :: "sdk_dec \<Rightarrow> string \<Rightarrow> param_validator" where
  "ValidateSysCoin A param i =
     (case i of VSysCoin v \<Rightarrow> if \<not> CoinIsValid A v then Some (InvalidParam param) else None | _ \<Rightarrow> Some InvalidParameterType)"

definition ValidateSysCoins :: "coin_ops \<Rightarrow> string \<Rightarrow> param_validator" where
  "ValidateSysCoins C param i =
     (case i of VSysCoins v \<Rightarrow> if \<not> CoinsIsValid C v then Some (InvalidParam param) else None | _ \<Rightarrow> Some InvalidParameterType)"

definition ValidateDurationPositive :: "string \<Rightarrow> param_validator" where
  "ValidateDurationPositive param i =
     (case i of VDuration v \<Rightarrow> if v \<le> 0 then Some (MustBePositive param) else None | _ \<Rightarrow> Some InvalidParameterType)"

definition ValidateBool :: "string \<Rightarrow> param_validator" where
  "ValidateBool param i = (case i of VBool _ \<Rightarrow> None | _ \<Rightarrow> Some InvalidParameterType)"

definition ValidateInt64Positive :: "string \<Rightarrow> param_validator" where
  "ValidateInt64Positive param i =
     (case i of VInt64 v \<Rightarrow> if v \<le> 0 then Some (MustBePositive param) else None | _ \<Rightarrow> Some InvalidParameterType)"

definition ValidateUint64Positive :: "string \<Rightarrow> param_validator" where
  "ValidateUint64Positive param i =
     (case i of VUint64 v \<Rightarrow> if v = 0 then Some (MustBePositive param) else None | _ \<Rightarrow> Some InvalidParameterType)"

definition ValidateRateNotNeg :: "sdk_dec \<Rightarrow> string \<Rightarrow> param_validator" where
  "ValidateRateNotNeg A param i =
     (case i of
        VDec v \<Rightarrow>
          if v < 0 then Some (CannotBeNegative param)
          else if OneDec A < v then Some (TooLarge param)
          else None
      | _ \<Rightarrow> Some InvalidParameterType)"

definition ValidateDecPositive :: "string \<Rightarrow> param_validator" where
  "ValidateDecPositive param i =
     (case i of VDec v \<Rightarrow> if \<not> 0 < v then Some (MustBePositive param) else None | _ \<Rightarrow> Some InvalidParameterType)"

definition ValidateDenom :: "(string \<Rightarrow> bool) \<Rightarrow> string \<Rightarrow> param_validator" where
  "ValidateDenom validDenom param i =
     (case i of VString v \<Rightarrow> if \<not> validDenom v then Some (InvalidParam param) else None | _ \<Rightarrow> Some InvalidParameterType)"

definition ValidateUint16Positive :: "string \<Rightarrow> param_validator" where
  "ValidateUint16Positive param i =
     (case i of VUint16 v \<Rightarrow> if v = 0 then Some (MustBePositive param) else None | _ \<Rightarrow> Some InvalidParameterType)"

text \<open>The pairs of a parameter set: key, value and validator.\<close>

type_synonym param_pair = "string \<times> param_value \<times> param_validator"

subsection \<open>Responses\<close>

record 'd BaseResponse =
  br_Code :: "32 word"
  br_Msg :: string
  br_DetailMsg :: string
  br_Data :: "'d option"

definition GetErrorResponse :: "32 word \<Rightarrow> string \<Rightarrow> string \<Rightarrow> 'd BaseResponse" where
  "GetErrorResponse code msg detailMsg = \<lparr>br_Code = code, br_Msg = msg, br_DetailMsg = detailMsg, br_Data = None\<rparr>"

definition GetBaseResponse :: "'d \<Rightarrow> 'd BaseResponse" where
  "GetBaseResponse d = \<lparr>br_Code = 0, br_Msg = [], br_DetailMsg = [], br_Data = Some d\<rparr>"

record ParamPage =
  pg_Page :: int
  pg_PerPage :: int
  pg_Total :: int

record 'd ListResponse =
  lr_Code :: int
  lr_Msg :: string
  lr_DetailMsg :: string
  lr_Data :: 'd
  lr_ParamPage :: ParamPage

definition GetListResponse :: "int \<Rightarrow> int \<Rightarrow> int \<Rightarrow> 'd \<Rightarrow> 'd ListResponse" where
  "GetListResponse count page perPage d =
     \<lparr>lr_Code = 0, lr_Msg = [], lr_DetailMsg = [], lr_Data = d,
      lr_ParamPage = \<lparr>pg_Page = page, pg_PerPage = perPage, pg_Total = count\<rparr>\<rparr>"

definition GetEmptyListResponse :: "int \<Rightarrow> int \<Rightarrow> int \<Rightarrow> string list ListResponse" where
  "GetEmptyListResponse count page perPage = GetListResponse count page perPage []"

end
