(* ===== verification/Params_Module.thy ===== *)
theory Params_Module
  imports Common_Utils
begin

text \<open>
  Proposals that change parameters (\<^verbatim>\<open>src/params\<close>): the parameters of the module itself, the checks of a proposal when it
  is submitted, and its execution, which waits in a queue of the governance module until the height of the proposal.

  The parameter spaces are the SDK's and the queue is the governance module's: \<open>'w params_env\<close> has their operations on
  the chain state \<open>'w\<close>. \<open>params_law\<close> states what is documented of them, over what the state says of the values
  (\<open>vals\<close>) and of the queue.
\<close>

record param_change =
  pc_Subspace :: string
  pc_Key :: string
  pc_Value :: string

record ParamsParams =
  pp_MaxDepositPeriod :: int
  pp_MinDeposit :: sys_coins
  pp_VotingPeriod :: int
  pp_MaxBlockHeight :: uint64

record ParameterChangeProposal =
  pcp_Title :: string
  pcp_Description :: string
  pcp_Changes :: "param_change list"
  pcp_Height :: uint64

datatype params_content = ParamsContent ParameterChangeProposal | OtherParamsContent string

datatype params_error =
    ErrPcpTitleRequired
  | ErrPcpTitleTooLong
  | ErrPcpDescriptionRequired
  | ErrPcpDescriptionTooLong
  | ErrInvalidParamsNum
  | ErrValidateChanges string
  | ErrUnknownSubspace string
  | ErrSettingParameter string
  | ErrPcpUnknownType string
  | ErrInvalidProposer
  | ErrInitialDeposit sys_coins
  | ErrProposerCoins funds_error
  | ErrInvalidHeight uint64 uint64 uint64
  | ErrGenesisDeposit
  | ErrUnknownParamsQuery
  | PanicContent
  | PanicParamSet param_error
  | PanicNotRegistered

datatype update_error = UpdateError string | UpdatePanic

record 'w params_env =
  pe_dec :: sdk_dec
  pe_coins :: coin_ops
  pe_MulDec :: "sys_coins \<Rightarrow> dec \<Rightarrow> sys_coins"
  pe_MaxTitleLength :: nat
  pe_MaxDescriptionLength :: nat
  pe_ValidateChanges :: "param_change list \<Rightarrow> string option"
  pe_GetSubspace :: "string \<Rightarrow> bool"
  pe_Update :: "string \<Rightarrow> string \<Rightarrow> string \<Rightarrow> 'w \<Rightarrow> update_error + 'w"
  pe_SetParamSet :: "param_pair list \<Rightarrow> 'w \<Rightarrow> param_error + 'w"
  pe_GetParamSet :: "'w \<Rightarrow> ParamsParams"
  pe_IsValidator :: "'w \<Rightarrow> acc_address \<Rightarrow> bool"
  pe_GetCoins :: "'w \<Rightarrow> acc_address \<Rightarrow> sys_coins"
  pe_InsertWaiting :: "uint64 \<Rightarrow> uint64 \<Rightarrow> 'w \<Rightarrow> 'w"
  pe_RemoveWaiting :: "uint64 \<Rightarrow> uint64 \<Rightarrow> 'w \<Rightarrow> 'w"

subsection \<open>Parameters of the module\<close>

definition hour :: int where
  "hour = 3600 * 10 ^ 9"

definition paramsDefaultParams :: "sdk_dec \<Rightarrow> ParamsParams" where
  "paramsDefaultParams A =
     \<lparr>pp_MaxDepositPeriod = hour * 24, pp_MinDeposit = [\<lparr>Denom = DefaultBondDenom A, Amount = NewDec A 100\<rparr>],
      pp_VotingPeriod = hour * 72, pp_MaxBlockHeight = 100000\<rparr>"

definition ParamSetPairs :: "coin_ops \<Rightarrow> ParamsParams \<Rightarrow> param_pair list" where
  "ParamSetPairs C p =
     [(''MaxDepositPeriod'', VDuration (pp_MaxDepositPeriod p), ValidateDurationPositive ''max deposit period''),
      (''MinDeposit'', VSysCoins (pp_MinDeposit p), ValidateSysCoins C ''min deposit''),
      (''VotingPeriod'', VDuration (pp_VotingPeriod p), ValidateDurationPositive ''voting period''),
      (''MaxBlockHeight'', VUint64 (pp_MaxBlockHeight p), ValidateUint64Positive ''max block height'')]"

definition pkSetParams :: "'w params_env \<Rightarrow> ParamsParams \<Rightarrow> 'w \<Rightarrow> params_error + 'w" where
  "pkSetParams P p w =
     (case pe_SetParamSet P (ParamSetPairs (pe_coins P) p) w of Inl e \<Rightarrow> Inl (PanicParamSet e) | Inr w \<Rightarrow> Inr w)"

definition pkGetParams :: "'w params_env \<Rightarrow> 'w \<Rightarrow> ParamsParams" where
  "pkGetParams P w = pe_GetParamSet P w"

subsection \<open>Genesis and query\<close>

record ParamsGenesisState =
  pgs_Params :: ParamsParams

definition paramsDefaultGenesisState :: "sdk_dec \<Rightarrow> ParamsGenesisState" where
  "paramsDefaultGenesisState A = \<lparr>pgs_Params = paramsDefaultParams A\<rparr>"

definition paramsValidateGenesis :: "coin_ops \<Rightarrow> ParamsGenesisState \<Rightarrow> params_error option" where
  "paramsValidateGenesis C d = (if \<not> CoinsIsValid C (pp_MinDeposit (pgs_Params d)) then Some ErrGenesisDeposit else None)"

definition paramsInitGenesis :: "'w params_env \<Rightarrow> ParamsGenesisState \<Rightarrow> 'w \<Rightarrow> params_error + 'w" where
  "paramsInitGenesis P gs w = pkSetParams P (pgs_Params gs) w"

definition paramsExportGenesis :: "'w params_env \<Rightarrow> 'w \<Rightarrow> ParamsGenesisState" where
  "paramsExportGenesis P w = \<lparr>pgs_Params = pkGetParams P w\<rparr>"

definition paramsQueryParams :: "'w params_env \<Rightarrow> 'w \<Rightarrow> ParamsParams" where
  "paramsQueryParams P w = pkGetParams P w"

text \<open>\<open>path[0]\<close> of an empty path is out of range; the router of the SDK does not call a querier without an endpoint.\<close>

definition paramsQuerier :: "'w params_env \<Rightarrow> string list \<Rightarrow> 'w \<Rightarrow> params_error + ParamsParams" where
  "paramsQuerier P path w =
     (case path of
        q # _ \<Rightarrow> if q = ''params'' then Inr (paramsQueryParams P w) else Inl ErrUnknownParamsQuery
      | [] \<Rightarrow> Inl PanicContent)"

subsection \<open>Proposals\<close>

definition pcpValidateBasic :: "'w params_env \<Rightarrow> ParameterChangeProposal \<Rightarrow> params_error option" where
  "pcpValidateBasic P pcp =
     (if length (TrimSpace (pcp_Title pcp)) = 0 then Some ErrPcpTitleRequired
      else if pe_MaxTitleLength P < length (pcp_Title pcp) then Some ErrPcpTitleTooLong
      else if length (pcp_Description pcp) = 0 then Some ErrPcpDescriptionRequired
      else if pe_MaxDescriptionLength P < length (pcp_Description pcp) then Some ErrPcpDescriptionTooLong
      else if length (pcp_Changes pcp) \<noteq> 1 then Some ErrInvalidParamsNum
      else map_option ErrValidateChanges (pe_ValidateChanges P (pcp_Changes pcp)))"

text \<open>What was written before a change fails stays written.\<close>

fun changeParams :: "'w params_env \<Rightarrow> param_change list \<Rightarrow> 'w \<Rightarrow> 'w \<times> params_error option" where
  "changeParams P [] w = (w, None)"
| "changeParams P (c # cs) w =
     (if \<not> pe_GetSubspace P (pc_Subspace c) then (w, Some (ErrUnknownSubspace (pc_Subspace c)))
      else case pe_Update P (pc_Subspace c) (pc_Key c) (pc_Value c) w of
             Inl (UpdateError e) \<Rightarrow> (w, Some (ErrSettingParameter e))
           | Inl UpdatePanic \<Rightarrow> (w, Some PanicNotRegistered)
           | Inr w \<Rightarrow> changeParams P cs w)"

definition handleParameterChangeProposal ::
    "'w params_env \<Rightarrow> int \<Rightarrow> uint64 \<Rightarrow> ParameterChangeProposal \<Rightarrow> 'w \<Rightarrow> 'w \<times> params_error option" where
  "handleParameterChangeProposal P blockHeight proposalID pcp w =
     (let curHeight = word_of_int blockHeight
      in if curHeight < pcp_Height pcp then (pe_InsertWaiting P (pcp_Height pcp) proposalID w, None)
         else
           let (w, err) = changeParams P (pcp_Changes pcp) w
           in (pe_RemoveWaiting P (pcp_Height pcp) proposalID w, err))"

definition NewParamChangeProposalHandler ::
    "'w params_env \<Rightarrow> int \<Rightarrow> uint64 \<Rightarrow> params_content \<Rightarrow> 'w \<Rightarrow> 'w \<times> params_error option" where
  "NewParamChangeProposalHandler P blockHeight proposalID content w =
     (case content of
        ParamsContent pcp \<Rightarrow> handleParameterChangeProposal P blockHeight proposalID pcp w
      | OtherParamsContent t \<Rightarrow> (w, Some (ErrPcpUnknownType t)))"

text \<open>Nothing calls \<open>checkDenom\<close>.\<close>

fun checkDenom :: "param_change list \<Rightarrow> params_error option" where
  "checkDenom [] = None"
| "checkDenom (c # cs) =
     (if pc_Subspace c = ''evm'' \<and> pc_Key c = ''EVMDenom'' then Some (ErrSettingParameter ''evm denom can not be reset'')
      else if pc_Subspace c = ''staking'' \<and> pc_Key c = ''BondDenom''
      then Some (ErrSettingParameter ''staking bond denom can not be reset'')
      else checkDenom cs)"

definition pkGetMinDeposit :: "'w params_env \<Rightarrow> params_content \<Rightarrow> 'w \<Rightarrow> sys_coins" where
  "pkGetMinDeposit P content w = (case content of ParamsContent _ \<Rightarrow> pp_MinDeposit (pkGetParams P w) | _ \<Rightarrow> [])"

definition pkGetMaxDepositPeriod :: "'w params_env \<Rightarrow> params_content \<Rightarrow> 'w \<Rightarrow> int" where
  "pkGetMaxDepositPeriod P content w = (case content of ParamsContent _ \<Rightarrow> pp_MaxDepositPeriod (pkGetParams P w) | _ \<Rightarrow> 0)"

definition pkGetVotingPeriod :: "'w params_env \<Rightarrow> params_content \<Rightarrow> 'w \<Rightarrow> int" where
  "pkGetVotingPeriod P content w = (case content of ParamsContent _ \<Rightarrow> pp_VotingPeriod (pkGetParams P w) | _ \<Rightarrow> 0)"

record MsgSubmitProposal =
  msp_Content :: params_content
  msp_InitialDeposit :: sys_coins
  msp_Proposer :: acc_address

text \<open>The changes are tried on a copy of the state, which is discarded.\<close>

definition pkCheckMsgSubmitProposal :: "'w params_env \<Rightarrow> int \<Rightarrow> MsgSubmitProposal \<Rightarrow> 'w \<Rightarrow> params_error option" where
  "pkCheckMsgSubmitProposal P blockHeight msg w =
     (case msp_Content msg of
        OtherParamsContent _ \<Rightarrow> Some PanicContent
      | ParamsContent pcp \<Rightarrow>
          if \<not> pe_IsValidator P w (msp_Proposer msg) then Some ErrInvalidProposer
          else
            let initDeposit = pe_MulDec P (pp_MinDeposit (pkGetParams P w)) (NewDecWithPrec (pe_dec P) 1 1)
            in if HasSufficientCoins (pe_coins P) (msp_Proposer msg) (msp_InitialDeposit msg) initDeposit \<noteq> None
               then Some (ErrInitialDeposit initDeposit)
               else case HasSufficientCoins (pe_coins P) (msp_Proposer msg) (pe_GetCoins P w (msp_Proposer msg)) (msp_InitialDeposit msg) of
                      Some e \<Rightarrow> Some (ErrProposerCoins e)
                    | None \<Rightarrow>
                        let curHeight = word_of_int blockHeight;
                            maxHeight = (if pp_MaxBlockHeight (pkGetParams P w) = 0 then 0x7FFFFFFFFFFFFFFF - pcp_Height pcp
                                         else pp_MaxBlockHeight (pkGetParams P w))
                        in if pcp_Height pcp < curHeight \<or> curHeight + maxHeight < pcp_Height pcp
                           then Some (ErrInvalidHeight (pcp_Height pcp) curHeight maxHeight)
                           else snd (changeParams P (pcp_Changes pcp) w))"

end
