(* ===== verification/Params_Props.thy ===== *)
theory Params_Props
  imports Params_Module
begin

text \<open>
  The life of a parameter proposal: it is executed at its height and not before, a change that was accepted when it was
  submitted does not fail later while the parameters are the same, and a change that fails leaves the parameters alone.
\<close>

definition queue_law :: "'w params_env \<Rightarrow> ('w \<Rightarrow> 'v) \<Rightarrow> ('w \<Rightarrow> (uint64 \<times> uint64) set) \<Rightarrow> bool" where
  "queue_law P vals queue \<longleftrightarrow>
     (\<forall>h i w. queue (pe_InsertWaiting P h i w) = insert (h, i) (queue w) \<and> vals (pe_InsertWaiting P h i w) = vals w \<and>
       queue (pe_RemoveWaiting P h i w) = queue w - {(h, i)} \<and> vals (pe_RemoveWaiting P h i w) = vals w)"

text \<open>An update keeps the queue, and what it does to the values depends on the values.\<close>

definition update_law :: "'w params_env \<Rightarrow> ('w \<Rightarrow> 'v) \<Rightarrow> ('w \<Rightarrow> (uint64 \<times> uint64) set) \<Rightarrow> bool" where
  "update_law P vals queue \<longleftrightarrow>
     (\<forall>s k v w u. pe_Update P s k v w = Inr u \<longrightarrow> queue u = queue w) \<and>
     (\<forall>s k v w w'. vals w = vals w' \<longrightarrow>
        map_sum id vals (pe_Update P s k v w) = map_sum id vals (pe_Update P s k v w'))"

lemma one_change: "pcpValidateBasic P pcp = None \<Longrightarrow> \<exists>c. pcp_Changes pcp = [c]"
  by (auto simp: pcpValidateBasic_def length_Suc_conv split: if_splits)

lemma accepted_changes:
  "pkCheckMsgSubmitProposal P h msg w = None \<Longrightarrow> msp_Content msg = ParamsContent pcp \<Longrightarrow> snd (changeParams P (pcp_Changes pcp) w) = None"
  by (auto simp: pkCheckMsgSubmitProposal_def Let_def split: if_splits option.splits)

lemma changeParams_failed:
  "changeParams P [c] w = (u, Some e) \<Longrightarrow> u = w"
  by (auto split: if_splits sum.splits update_error.splits)

lemma update_lawD:
  assumes "update_law P vals queue"
  shows "pe_Update P s k v w = Inr u \<Longrightarrow> queue u = queue w"
    and "vals w = vals w' \<Longrightarrow> pe_Update P s k v w = Inl e \<Longrightarrow> pe_Update P s k v w' = Inl e"
    and "vals w = vals w' \<Longrightarrow> pe_Update P s k v w = Inr u \<Longrightarrow> \<exists>u'. pe_Update P s k v w' = Inr u' \<and> vals u = vals u'"
proof -
  show "pe_Update P s k v w = Inr u \<Longrightarrow> queue u = queue w" using assms unfolding update_law_def by blast
  assume "vals w = vals w'"
  then have m: "map_sum id vals (pe_Update P s k v w) = map_sum id vals (pe_Update P s k v w')"
    using assms unfolding update_law_def by blast
  show "pe_Update P s k v w = Inl e \<Longrightarrow> pe_Update P s k v w' = Inl e"
    using m by (cases "pe_Update P s k v w'") simp_all
  show "pe_Update P s k v w = Inr u \<Longrightarrow> \<exists>u'. pe_Update P s k v w' = Inr u' \<and> vals u = vals u'"
    using m by (cases "pe_Update P s k v w'") simp_all
qed

lemma changeParams_queue:
  assumes "update_law P vals queue"
  shows "queue (fst (changeParams P cs w)) = queue w"
proof (induction cs arbitrary: w)
  case (Cons c cs)
  show ?case
  proof (cases "pe_Update P (pc_Subspace c) (pc_Key c) (pc_Value c) w")
    case (Inl e)
    then show ?thesis by (cases e) simp_all
  next
    case (Inr u)
    with Cons update_lawD(1) [OF assms Inr] show ?thesis by simp
  qed
qed simp

lemma changeParams_vals:
  assumes "update_law P vals queue" and "vals w = vals w'"
  shows "snd (changeParams P cs w) = snd (changeParams P cs w') \<and> vals (fst (changeParams P cs w)) = vals (fst (changeParams P cs w'))"
  using assms(2)
proof (induction cs arbitrary: w w')
  case (Cons c cs)
  show ?case
  proof (cases "pe_Update P (pc_Subspace c) (pc_Key c) (pc_Value c) w")
    case (Inl e)
    with update_lawD(2) [OF assms(1) Cons.prems Inl] Cons.prems show ?thesis by (cases e) simp_all
  next
    case (Inr u)
    from update_lawD(3) [OF assms(1) Cons.prems Inr] obtain u' where
      "pe_Update P (pc_Subspace c) (pc_Key c) (pc_Value c) w' = Inr u'" "vals u = vals u'" by blast
    with Inr Cons.IH [of u u'] Cons.prems show ?thesis by simp
  qed
qed simp

text \<open>C38: A parameter proposal is executed at its height, all or nothing. Executed before its height, a valid proposal is
  entered into the waiting queue and changes no parameter. Executed at its height or later, it leaves the queue,
  whether it fails or not; if it fails no parameter has changed, and if it was accepted on submission and the
  parameters are those of then, it does not fail and the parameters become those that the submission had tried.\<close>

theorem param_proposal_execution:
  assumes law: "queue_law P vals queue" "update_law P vals queue" and basic: "pcpValidateBasic P pcp = None"
    and run: "handleParameterChangeProposal P h pid pcp w = (w', err)"
  shows "(word_of_int h < pcp_Height pcp \<longrightarrow> err = None \<and> vals w' = vals w \<and> queue w' = insert (pcp_Height pcp, pid) (queue w)) \<and>
     (pcp_Height pcp \<le> word_of_int h \<longrightarrow> queue w' = queue w - {(pcp_Height pcp, pid)} \<and> (err \<noteq> None \<longrightarrow> vals w' = vals w) \<and>
       (\<forall>h0 msg w0. msp_Content msg = ParamsContent pcp \<and> pkCheckMsgSubmitProposal P h0 msg w0 = None \<and> vals w = vals w0 \<longrightarrow>
          err = None \<and> vals w' = vals (fst (changeParams P (pcp_Changes pcp) w0))))"
proof (cases "word_of_int h < pcp_Height pcp")
  case True
  with run law(1) show ?thesis by (auto simp: handleParameterChangeProposal_def queue_law_def)
next
  case False
  from one_change [OF basic] obtain c where c: "pcp_Changes pcp = [c]" by blast
  obtain u where u: "changeParams P (pcp_Changes pcp) w = (u, err)" "w' = pe_RemoveWaiting P (pcp_Height pcp) pid u"
    using run False by (cases "changeParams P (pcp_Changes pcp) w") (auto simp: handleParameterChangeProposal_def)
  have w': "vals w' = vals u" "queue w' = queue u - {(pcp_Height pcp, pid)}" using law(1) u(2) by (simp_all add: queue_law_def)
  have "queue u = queue w" using changeParams_queue [OF law(2), of "pcp_Changes pcp" w] u(1) by simp
  moreover have "err \<noteq> None \<longrightarrow> u = w" using u(1) c changeParams_failed [of P c w u] by auto
  moreover have "err = None \<and> vals u = vals (fst (changeParams P (pcp_Changes pcp) w0))"
    if "msp_Content msg = ParamsContent pcp" "pkCheckMsgSubmitProposal P h0 msg w0 = None" "vals w = vals w0" for h0 msg w0
    using changeParams_vals [OF law(2) that(3), of "pcp_Changes pcp"] accepted_changes [OF that(2,1)] u(1) by simp
  ultimately show ?thesis using False w' by auto
qed

text \<open>A chain whose only parameter is a number in unary, with the module's own parameters as they are by default.\<close>

type_synonym params_world0 = "(uint64 \<times> uint64) set \<times> nat"

definition params_env0 :: "params_world0 params_env" where
  "params_env0 = \<lparr>pe_dec = dec18, pe_coins = coins0, pe_MulDec = (\<lambda>cs x. MulDecTruncate coins0 cs x), pe_MaxTitleLength = 140,
     pe_MaxDescriptionLength = 5000, pe_ValidateChanges = (\<lambda>cs. None), pe_GetSubspace = (\<lambda>s. s = ''evm''),
     pe_Update = (\<lambda>s k v w. if v = [] then Inl (UpdateError ''empty'') else Inr (fst w, length v)),
     pe_SetParamSet = (\<lambda>ps w. Inr w), pe_GetParamSet = (\<lambda>w. (paramsDefaultParams dec18)\<lparr>pp_MinDeposit := []\<rparr>),
     pe_IsValidator = (\<lambda>w a. True), pe_GetCoins = (\<lambda>w a. []),
     pe_InsertWaiting = (\<lambda>h i w. (insert (h, i) (fst w), snd w)), pe_RemoveWaiting = (\<lambda>h i w. (fst w - {(h, i)}, snd w))\<rparr>"

definition pcp0 :: ParameterChangeProposal where
  "pcp0 = \<lparr>pcp_Title = ''t'', pcp_Description = ''d'', pcp_Changes = [\<lparr>pc_Subspace = ''evm'', pc_Key = ''k'', pc_Value = ''111''\<rparr>],
     pcp_Height = 20\<rparr>"

lemma params_env0_laws: "queue_law params_env0 snd fst" "update_law params_env0 snd fst"
  by (auto simp: queue_law_def update_law_def params_env0_def)

lemma pcp0_valid: "pcpValidateBasic params_env0 pcp0 = None"
  by code_simp

theorem param_proposal_execution_witness:
  "fst (handleParameterChangeProposal params_env0 15 4 pcp0 ({}, 2)) = ({(20, 4)}, 2) \<and>
   fst (handleParameterChangeProposal params_env0 20 4 pcp0 ({(20, 4)}, 2)) = ({}, 3)"
proof -
  let ?msg = "\<lparr>msp_Content = ParamsContent pcp0, msp_InitialDeposit = [], msp_Proposer = [1]\<rparr>"
  note x = param_proposal_execution [OF params_env0_laws pcp0_valid]
  have c: "pkCheckMsgSubmitProposal params_env0 10 ?msg ({}, 2) = None"
    by (simp add: pkCheckMsgSubmitProposal_def pkGetParams_def HasSufficientCoins_def params_env0_def coins0_def covered_def scaleCoins_def
        canon_def paramsDefaultParams_def pcp0_def)
  obtain w1 e1 where 1: "handleParameterChangeProposal params_env0 15 4 pcp0 ({}, 2) = (w1, e1)" by (rule prod.exhaust)
  obtain w2 e2 where 2: "handleParameterChangeProposal params_env0 20 4 pcp0 ({(20, 4)}, 2) = (w2, e2)" by (rule prod.exhaust)
  have "snd w1 = 2" "fst w1 = {(20, 4)}" using x [OF 1] by (simp_all add: pcp0_def)
  moreover have h: "pcp_Height pcp0 = 20" by (simp add: pcp0_def)
  moreover have "fst w2 = {}" using x [OF 2] by (simp add: h)
  moreover have "snd w2 = snd (fst (changeParams params_env0 (pcp_Changes pcp0) ({}, 2)))"
  proof -
    have "pcp_Height pcp0 \<le> word_of_int 20" by (simp add: h)
    from x [OF 2, THEN conjunct2, rule_format, OF this, THEN conjunct2, THEN conjunct2, rule_format, of ?msg 10 "({}, 2)"] c
    show ?thesis by simp
  qed
  moreover have "snd (fst (changeParams params_env0 (pcp_Changes pcp0) ({}, 2))) = 3" by (simp add: params_env0_def pcp0_def)
  ultimately show ?thesis using 1 2 by (simp add: prod_eq_iff)
qed

end
