(* ===== verification/Rpc_Types.thy ===== *)
theory Rpc_Types
  imports Evm_Gov
begin

text \<open>
  The values that the JSON-RPC server answers with (\<^verbatim>\<open>src/app/rpc/types\<close>): block numbers, transactions, headers and
  blocks in the form of Ethereum, made from the blocks of Tendermint. They are records; their rendering as JSON is left
  out.

  \<open>rpc_env\<close> has what comes from outside the repository: the decoders of amino, hashes of Tendermint and the number parser
  of go-ethereum. \<open>tm_header\<close> and \<open>tm_block\<close> have the fields of Tendermint's types that the code reads.
\<close>

record tm_header =
  th_Height :: int
  th_LastBlockHash :: bytes
  th_ProposerAddress :: bytes
  th_AppHash :: bytes
  th_DataHash :: bytes
  th_Unix :: int
  th_Hash :: bytes

record tm_block =
  tb_Header :: tm_header
  tb_Txs :: "bytes list"
  tb_Hash :: bytes
  tb_Size :: int

record rpc_env =
  rp_tx :: tx_env
  rp_gen :: gen_env
  UnmarshalTx :: "bytes \<Rightarrow> sdk_tx option"
  UnmarshalResultData :: "bytes \<Rightarrow> ResultData option"
  TmTxHash :: "bytes \<Rightarrow> bytes"
  DecodeUint64 :: "string \<Rightarrow> uint64 option"

abbreviation rp_evm :: "rpc_env \<Rightarrow> evm_env" where
  "rp_evm R \<equiv> te_evm (rp_tx R)"

datatype rpc_error =
    ErrDecodeTx
  | ErrNotEthereumTx
  | ErrSignature tx_error
  | ErrDecodeUint64
  | ErrBlockNumberTooHigh
  | ErrClient
  | ErrQuery query_error
  | ErrUnknownHeader hash
  | ErrHeightRange int
  | ErrLogsDisabled
  | ErrHeightSpan int
  | ErrMatcher
  | ErrBitsets
  | ErrServerBusy
  | ErrFilterNotFound string
  | ErrFilterType string
  | ErrFromAfterTo int int
  | ErrSubscribe
  | ErrNilHeader
  | ErrFastQueryDisabled
  | ErrKeyMissing
  | ErrJSON
  | ErrAtoi64
  | ErrNotDeployedYet
  | ErrHexDecode
  | ErrNoSuchTransaction
  | PanicNilIndex
  | PanicNilMap
  | PanicNilBlock
  | PanicDecodedType

subsection \<open>Block numbers\<close>

definition LatestBlockNumber :: int where
  "LatestBlockNumber = 0"

definition EarliestBlockNumber :: int where
  "EarliestBlockNumber = 1"

definition PendingBlockNumber :: int where
  "PendingBlockNumber = - 1"

text \<open>\<open>Int64\<close> of a big integer takes its low 64 bits.\<close>

definition bigInt64 :: "int \<Rightarrow> int" where
  "bigInt64 n = sint (word_of_int n :: 64 word)"

definition NewBlockNumber :: "int \<Rightarrow> int" where
  "NewBlockNumber n = bigInt64 n"

definition stripQuotes :: "string \<Rightarrow> string" where
  "stripQuotes input =
     (if 2 \<le> length input \<and> hd input = CHR 0x22 \<and> last input = CHR 0x22 then butlast (tl input) else input)"

definition unmarshalBlockNumber :: "rpc_env \<Rightarrow> string \<Rightarrow> rpc_error + int" where
  "unmarshalBlockNumber R data =
     (let input = stripQuotes (TrimSpace data)
      in if input = ''earliest'' then Inr EarliestBlockNumber
         else if input = ''latest'' then Inr LatestBlockNumber
         else if input = ''pending'' then Inr PendingBlockNumber
         else case DecodeUint64 R input of
                None \<Rightarrow> Inl ErrDecodeUint64
              | Some n \<Rightarrow> if 2 ^ 63 - 1 < uint n then Inl ErrBlockNumberTooHigh else Inr (uint n))"

definition TmHeight :: "int \<Rightarrow> int option" where
  "TmHeight bn = (if bn = LatestBlockNumber then None else Some bn)"

text \<open>A number that was accepted is one of the names or fits a height.\<close>

lemma unmarshalBlockNumber_range:
  "unmarshalBlockNumber R s = Inr n \<Longrightarrow> - 1 \<le> n \<and> n < 2 ^ 63"
  by (auto simp: unmarshalBlockNumber_def Let_def EarliestBlockNumber_def LatestBlockNumber_def PendingBlockNumber_def
      split: if_splits option.splits) (smt (verit) unsigned_greater_eq)

subsection \<open>Transactions\<close>

definition TxDecoder :: "rpc_env \<Rightarrow> bytes \<Rightarrow> rpc_error + sdk_tx" where
  "TxDecoder R txBytes =
     (if length txBytes = 0 then Inl ErrDecodeTx
      else case UnmarshalTx R txBytes of None \<Rightarrow> Inl ErrDecodeTx | Some tx \<Rightarrow> Inr tx)"

definition DecodeResultData :: "rpc_env \<Rightarrow> bytes \<Rightarrow> rpc_error + ResultData" where
  "DecodeResultData R b = (case UnmarshalResultData R b of None \<Rightarrow> Inl ErrDecodeTx | Some d \<Rightarrow> Inr d)"

definition RawTxToEthTx :: "rpc_env \<Rightarrow> bytes \<Rightarrow> rpc_error + MsgEthereumTx" where
  "RawTxToEthTx R bz =
     bindE (TxDecoder R bz) (\<lambda>tx. case tx of EthTx m \<Rightarrow> Inr m | _ \<Rightarrow> Inl ErrNotEthereumTx)"

record RpcTransaction =
  rt_BlockHash :: "hash option"
  rt_BlockNumber :: "int option"
  rt_From :: address
  rt_Gas :: uint64
  rt_GasPrice :: int
  rt_Hash :: hash
  rt_Input :: bytes
  rt_Nonce :: uint64
  rt_To :: "address option"
  rt_TransactionIndex :: "uint64 option"
  rt_Value :: int
  rt_V :: int
  rt_R :: int
  rt_S :: int

definition NewTransaction ::
    "rpc_env \<Rightarrow> MsgEthereumTx \<Rightarrow> hash \<Rightarrow> hash \<Rightarrow> uint64 \<Rightarrow> uint64 \<Rightarrow> rpc_error + RpcTransaction" where
  "NewTransaction R tx txHash bh blockNumber index =
     (case VerifySig (rp_tx R) tx (ChainID tx) of
        Inl e \<Rightarrow> Inl (ErrSignature e)
      | Inr (from, _) \<Rightarrow>
          Inr \<lparr>rt_BlockHash = if bh \<noteq> 0 then Some bh else None,
            rt_BlockNumber = if bh \<noteq> 0 then Some (uint blockNumber) else None,
            rt_From = from, rt_Gas = td_GasLimit (msg_Data tx), rt_GasPrice = td_Price (msg_Data tx), rt_Hash = txHash,
            rt_Input = td_Payload (msg_Data tx), rt_Nonce = td_AccountNonce (msg_Data tx), rt_To = msgTo tx,
            rt_TransactionIndex = if bh \<noteq> 0 then Some index else None,
            rt_Value = td_Amount (msg_Data tx), rt_V = td_V (msg_Data tx), rt_R = td_R (msg_Data tx), rt_S = td_S (msg_Data tx)\<rparr>)"

subsection \<open>Headers and blocks\<close>

record eth_header =
  eh_ParentHash :: hash
  eh_Coinbase :: address
  eh_Root :: hash
  eh_TxHash :: hash
  eh_Number :: int
  eh_Time :: uint64
  eh_Bloom :: bloom

definition EthHeaderFromTendermint :: "rpc_env \<Rightarrow> tm_header \<Rightarrow> eth_header" where
  "EthHeaderFromTendermint R h =
     \<lparr>eh_ParentHash = BytesToHash (rp_evm R) (th_LastBlockHash h), eh_Coinbase = BytesToAddress (rp_evm R) (th_ProposerAddress h),
      eh_Root = BytesToHash (rp_evm R) (th_AppHash h), eh_TxHash = BytesToHash (rp_evm R) (th_DataHash h),
      eh_Number = th_Height h, eh_Time = word_of_int (th_Unix h), eh_Bloom = 0\<rparr>"

record EthHeaderWithBlockHash =
  hb_ParentHash :: hash
  hb_Coinbase :: address
  hb_Root :: hash
  hb_TxHash :: hash
  hb_Number :: int
  hb_Difficulty :: int
  hb_GasLimit :: uint64
  hb_GasUsed :: uint64
  hb_Time :: uint64
  hb_Hash :: hash

definition EthHeaderWithBlockHashFromTendermint :: "rpc_env \<Rightarrow> tm_header option \<Rightarrow> rpc_error + EthHeaderWithBlockHash" where
  "EthHeaderWithBlockHashFromTendermint R tmHeader =
     (case tmHeader of
        None \<Rightarrow> Inl ErrNilHeader
      | Some h \<Rightarrow>
          Inr \<lparr>hb_ParentHash = BytesToHash (rp_evm R) (th_LastBlockHash h), hb_Coinbase = BytesToAddress (rp_evm R) (th_ProposerAddress h),
            hb_Root = BytesToHash (rp_evm R) (th_AppHash h), hb_TxHash = BytesToHash (rp_evm R) (th_DataHash h),
            hb_Number = th_Height h, hb_Difficulty = 0, hb_GasLimit = 0xFFFFFFFF, hb_GasUsed = 0,
            hb_Time = word_of_int (th_Unix h), hb_Hash = BytesToHash (rp_evm R) (th_Hash h)\<rparr>)"

text \<open>The transactions of a block: the hashes of all Ethereum transactions, the sum of their gas limits, and those whose
  signature could be verified, numbered in order.\<close>

definition ethTransactionStep ::
    "rpc_env \<Rightarrow> hash \<Rightarrow> uint64 \<Rightarrow> hash list \<times> int \<times> RpcTransaction list \<times> uint64 \<Rightarrow> bytes \<Rightarrow> hash list \<times> int \<times> RpcTransaction list \<times> uint64" where
  "ethTransactionStep R bh blockNumber x tx =
     (let (hashes, gasUsed, txs, index) = x
      in case RawTxToEthTx R tx of
           Inl _ \<Rightarrow> x
         | Inr ethTx \<Rightarrow>
             let h = BytesToHash (rp_evm R) (TmTxHash R tx);
                 gasUsed = gasUsed + sint (GetGas ethTx)
             in case NewTransaction R ethTx h bh blockNumber index of
                  Inl _ \<Rightarrow> (hashes @ [h], gasUsed, txs, index)
                | Inr t \<Rightarrow> (hashes @ [h], gasUsed, txs @ [t], index + 1))"

definition EthTransactionsFromTendermint ::
    "rpc_env \<Rightarrow> bytes list \<Rightarrow> hash \<Rightarrow> uint64 \<Rightarrow> hash list \<times> int \<times> RpcTransaction list" where
  "EthTransactionsFromTendermint R txs bh blockNumber =
     (let (hashes, gasUsed, ts, _) = foldl (ethTransactionStep R bh blockNumber) ([], 0, [], 0) txs in (hashes, gasUsed, ts))"

datatype block_txs = TxHashes "hash list" | FullTxs "RpcTransaction list"

record RpcBlock =
  rb_Number :: uint64
  rb_Hash :: bytes
  rb_ParentHash :: bytes
  rb_LogsBloom :: bloom
  rb_TransactionsRoot :: bytes
  rb_StateRoot :: bytes
  rb_Miner :: address
  rb_Size :: uint64
  rb_GasLimit :: uint64
  rb_GasUsed :: int
  rb_Timestamp :: uint64
  rb_Transactions :: block_txs

definition BlockMaxGasFromConsensusParams :: int where
  "BlockMaxGasFromConsensusParams = 2 ^ 32 - 1"

definition FormatBlock ::
    "rpc_env \<Rightarrow> tm_header \<Rightarrow> int \<Rightarrow> bytes \<Rightarrow> int \<Rightarrow> int \<Rightarrow> block_txs option \<Rightarrow> bloom \<Rightarrow> RpcBlock" where
  "FormatBlock R h blockSize curBlockHash gasLimit gasUsed transactions bl =
     (let dataHash = (if length (th_DataHash h) = 0 then HashBytes (rp_evm R) 0 else th_DataHash h)
      in \<lparr>rb_Number = word_of_int (th_Height h), rb_Hash = curBlockHash, rb_ParentHash = th_LastBlockHash h, rb_LogsBloom = bl,
          rb_TransactionsRoot = dataHash, rb_StateRoot = th_AppHash h, rb_Miner = BytesToAddress (rp_evm R) (th_ProposerAddress h),
          rb_Size = word_of_int blockSize, rb_GasLimit = word_of_int gasLimit, rb_GasUsed = gasUsed, rb_Timestamp = word_of_int (th_Unix h),
          rb_Transactions = (case transactions of Some txs \<Rightarrow> txs | None \<Rightarrow> TxHashes [])\<rparr>)"

text \<open>The queries of the client are answered by the querier of the module on the state of the chain, which gets the
  pieces of the path.\<close>

definition clientQuery :: "query_error + query_result \<Rightarrow> rpc_error + query_result" where
  "clientQuery m = (case m of Inl e \<Rightarrow> Inl (ErrQuery e) | Inr x \<Rightarrow> Inr x)"

definition queryBloom :: "app_state \<Rightarrow> int \<Rightarrow> rpc_error + bloom" where
  "queryBloom S height =
     bindE (clientQuery (queryBlockBloom [''bloom'', bigText height] S)) (\<lambda>r.
       case r of QueryBloomFilter b \<Rightarrow> Inr b | _ \<Rightarrow> Inl PanicDecodedType)"

lemma parseInt64_bigText:
  assumes "- (2 ^ 63) \<le> n" and "n < 2 ^ 63"
  shows "parseInt64 (bigText n) = Some n"
proof (cases "n < 0")
  case True
  with assms show ?thesis by (simp add: parseInt64_def bigText_def textNat_natText natText_decimal)
next
  case False
  obtain c cs where c: "natText (nat n) = c # cs" "isDigitAscii c"
    using natText_decimal [of "nat n"] by (cases "natText (nat n)") (auto simp: isDecimal_def)
  then have "c \<noteq> CHR ''-''" "c \<noteq> CHR ''+''" by (auto simp: isDigitAscii_def byteIn_def)
  with False c(1) assms textNat_natText [of "nat n"] natText_decimal [of "nat n"] show ?thesis by (simp add: parseInt64_def bigText_def)
qed

lemma queryBloom_eq: "- (2 ^ 63) \<le> h \<Longrightarrow> h < 2 ^ 63 \<Longrightarrow> queryBloom S h = Inr (GetBlockBloom S h)"
  by (simp add: queryBloom_def clientQuery_def queryBlockBloom_def parseInt64_bigText)

text \<open>An empty slice of transactions is nil.\<close>

definition nonNil :: "block_txs \<Rightarrow> block_txs option" where
  "nonNil txs = (if txs = TxHashes [] \<or> txs = FullTxs [] then None else Some txs)"

definition EthBlockFromTendermint :: "rpc_env \<Rightarrow> app_state \<Rightarrow> tm_block \<Rightarrow> bool \<Rightarrow> rpc_error + RpcBlock" where
  "EthBlockFromTendermint R S block fullTx =
     (let h = tb_Header block;
          (hashes, gasUsed, ethTxs) =
            EthTransactionsFromTendermint R (tb_Txs block) (BytesToHash (rp_evm R) (tb_Hash block)) (word_of_int (th_Height h))
      in bindE (queryBloom S (th_Height h)) (\<lambda>bl.
           Inr (FormatBlock R h (tb_Size block) (tb_Hash block) BlockMaxGasFromConsensusParams gasUsed
                  (nonNil (if fullTx then FullTxs ethTxs else TxHashes hashes)) bl)))"

end
