(* ===== verification/Evm_Watcher.thy ===== *)
theory Evm_Watcher
  imports Rpc_Types
begin

text \<open>
  The watcher (\<^verbatim>\<open>src/evm/watcher\<close>): a database beside the consensus path that the EVM module fills with the
  transactions, receipts, contract codes and blocks it executes, and the querier that answers from it.

  Values are stored decoded; a query whose value is of another kind fails as the JSON decoder does. \<open>Commit\<close> hands the
  batch of a block to a goroutine that writes its messages one by one, so that the writes of several blocks may interleave
  with each other and with queries: \<open>watch_step\<close> is the step relation of the whole, whose state has the writers that have
  not finished.
\<close>

record CodeInfo =
  ci_Height :: uint64
  ci_Code :: string

record TransactionReceipt =
  tr_Status :: uint64
  tr_CumulativeGasUsed :: uint64
  tr_LogsBloom :: bloom
  tr_Logs :: "eth_log list"
  tr_TransactionHash :: string
  tr_ContractAddress :: "address option"
  tr_GasUsed :: uint64
  tr_BlockHash :: string
  tr_BlockNumber :: uint64
  tr_TransactionIndex :: uint64
  tr_From :: string
  tr_To :: "address option"

datatype watch_txs = HashTexts "string list" | FullTransactions "RpcTransaction list"

record EthBlock =
  eb_Number :: uint64
  eb_Hash :: hash
  eb_ParentHash :: hash
  eb_LogsBloom :: bloom
  eb_TransactionsRoot :: hash
  eb_StateRoot :: hash
  eb_Miner :: address
  eb_Size :: uint64
  eb_GasLimit :: uint64
  eb_GasUsed :: int
  eb_Timestamp :: uint64
  eb_Transactions :: "watch_txs option"

datatype watch_value =
    ValTx RpcTransaction
  | ValCode CodeInfo
  | ValReceipt TransactionReceipt
  | ValBlock EthBlock
  | ValText string

datatype WatchMessage =
    MsgEthTx string RpcTransaction
  | MsgCode string CodeInfo
  | MsgTransactionReceipt string TransactionReceipt
  | MsgBlock string EthBlock
  | MsgBlockInfo string string
  | MsgLatestHeight string

type_synonym WatchStore = "string \<rightharpoonup> watch_value"

definition KeyLatestHeight :: string where
  "KeyLatestHeight = ''LatestHeight''"

definition latestKey :: string where
  "latestKey = ''0x6'' @ KeyLatestHeight"

fun GetKey :: "WatchMessage \<Rightarrow> string" where
  "GetKey (MsgEthTx k _) = ''0x1'' @ k"
| "GetKey (MsgBlock k _) = ''0x2'' @ k"
| "GetKey (MsgTransactionReceipt k _) = ''0x3'' @ k"
| "GetKey (MsgCode k _) = ''0x4'' @ k"
| "GetKey (MsgBlockInfo h _) = ''0x5'' @ h"
| "GetKey (MsgLatestHeight _) = latestKey"

fun GetValue :: "WatchMessage \<Rightarrow> watch_value" where
  "GetValue (MsgEthTx _ tx) = ValTx tx"
| "GetValue (MsgBlock _ b) = ValBlock b"
| "GetValue (MsgTransactionReceipt _ r) = ValReceipt r"
| "GetValue (MsgCode _ c) = ValCode c"
| "GetValue (MsgBlockInfo _ h) = ValText h"
| "GetValue (MsgLatestHeight h) = ValText h"

subsection \<open>Messages\<close>

record watch_env =
  we_rpc :: rpc_env
  BytesToHex :: "bytes \<Rightarrow> string"

record abci_header = tm_header +
  ah_Size :: int

abbreviation hashText :: "watch_env \<Rightarrow> hash \<Rightarrow> string" where
  "hashText W h \<equiv> HashHex (rp_gen (we_rpc W)) h"

abbreviation addressText :: "watch_env \<Rightarrow> address \<Rightarrow> string" where
  "addressText W a \<equiv> AddressString (rp_gen (we_rpc W)) a"

definition Itoa :: "uint64 \<Rightarrow> string" where
  "Itoa height = bigText (sint height)"

definition NewMsgEthTx :: "watch_env \<Rightarrow> MsgEthereumTx \<Rightarrow> hash \<Rightarrow> hash \<Rightarrow> uint64 \<Rightarrow> uint64 \<Rightarrow> WatchMessage option" where
  "NewMsgEthTx W tx txHash bh height index =
     (case NewTransaction (we_rpc W) tx txHash bh height index of
        Inl _ \<Rightarrow> None
      | Inr t \<Rightarrow> Some (MsgEthTx (hashText W txHash) t))"

definition NewMsgCode :: "watch_env \<Rightarrow> address \<Rightarrow> bytes \<Rightarrow> uint64 \<Rightarrow> WatchMessage" where
  "NewMsgCode W contractAddr cd height =
     MsgCode (addressText W contractAddr) \<lparr>ci_Height = height, ci_Code = BytesToHex W cd\<rparr>"

text \<open>The test for the zero address compares its text.\<close>

definition zeroAddressText :: string where
  "zeroAddressText = ''0x0000000000000000000000000000000000000000''"

definition NewMsgTransactionReceipt ::
    "watch_env \<Rightarrow> uint64 \<Rightarrow> MsgEthereumTx \<Rightarrow> hash \<Rightarrow> hash \<Rightarrow> uint64 \<Rightarrow> uint64 \<Rightarrow> ResultData \<Rightarrow> uint64 \<Rightarrow> uint64 \<Rightarrow> WatchMessage" where
  "NewMsgTransactionReceipt W status tx txHash bh idx height data cumulativeGas gasUsed =
     MsgTransactionReceipt (hashText W txHash)
       \<lparr>tr_Status = status, tr_CumulativeGasUsed = cumulativeGas, tr_LogsBloom = rd_Bloom data, tr_Logs = rd_Logs data,
        tr_TransactionHash = hashText W txHash,
        tr_ContractAddress = (if addressText W (rd_ContractAddress data) = zeroAddressText then None else Some (rd_ContractAddress data)),
        tr_GasUsed = gasUsed, tr_BlockHash = hashText W bh, tr_BlockNumber = height, tr_TransactionIndex = idx,
        tr_From = addressText W (BytesToAddress (rp_evm (we_rpc W)) (msgFrom (rp_evm (we_rpc W)) tx)), tr_To = msgTo tx\<rparr>"

definition NewMsgBlock ::
    "watch_env \<Rightarrow> uint64 \<Rightarrow> bloom \<Rightarrow> hash \<Rightarrow> abci_header \<Rightarrow> uint64 \<Rightarrow> int \<Rightarrow> hash list option \<Rightarrow> WatchMessage" where
  "NewMsgBlock W height bl bh h gasLimit gasUsed txs =
     (let E = rp_evm (we_rpc W)
      in MsgBlock (hashText W bh)
           \<lparr>eb_Number = height, eb_Hash = bh, eb_ParentHash = BytesToHash E (th_LastBlockHash h), eb_LogsBloom = bl,
            eb_TransactionsRoot = BytesToHash E (th_DataHash h), eb_StateRoot = BytesToHash E (th_AppHash h),
            eb_Miner = BytesToAddress E (th_ProposerAddress h), eb_Size = word_of_int (ah_Size h), eb_GasLimit = gasLimit,
            eb_GasUsed = gasUsed, eb_Timestamp = word_of_int (th_Unix h), eb_Transactions = map_option (\<lambda>hs. HashTexts (map (hashText W) hs)) txs\<rparr>)"

definition NewMsgBlockInfo :: "watch_env \<Rightarrow> uint64 \<Rightarrow> hash \<Rightarrow> WatchMessage" where
  "NewMsgBlockInfo W height bh = MsgBlockInfo (Itoa height) (hashText W bh)"

definition NewMsgLatestHeight :: "uint64 \<Rightarrow> WatchMessage" where
  "NewMsgLatestHeight height = MsgLatestHeight (Itoa height)"

subsection \<open>The watcher\<close>

text \<open>The map and the slice of a watcher that has not seen a height are nil.\<close>

record Watcher =
  wa_height :: uint64
  wa_blockHash :: hash
  wa_header :: abci_header
  wa_batch :: "WatchMessage list"
  wa_cumulativeGas :: "(uint64 \<rightharpoonup> uint64) option"
  wa_gasUsed :: uint64
  wa_blockTxs :: "hash list option"
  wa_sw :: bool

definition Enable :: "bool \<Rightarrow> Watcher \<Rightarrow> Watcher" where
  "Enable sw w = w\<lparr>wa_sw := sw\<rparr>"

definition NewHeight :: "uint64 \<Rightarrow> hash \<Rightarrow> abci_header \<Rightarrow> Watcher \<Rightarrow> Watcher" where
  "NewHeight height bh header w =
     (if \<not> wa_sw w then w
      else w\<lparr>wa_batch := [], wa_header := header, wa_height := height, wa_blockHash := bh,
             wa_cumulativeGas := Some Map.empty, wa_gasUsed := 0, wa_blockTxs := Some []\<rparr>)"

definition addBatch :: "WatchMessage \<Rightarrow> Watcher \<Rightarrow> Watcher" where
  "addBatch m w = w\<lparr>wa_batch := wa_batch w @ [m]\<rparr>"

definition these_txs :: "hash list option \<Rightarrow> hash list" where
  "these_txs txs = (case txs of None \<Rightarrow> [] | Some hs \<Rightarrow> hs)"

definition UpdateBlockTxs :: "hash \<Rightarrow> Watcher \<Rightarrow> Watcher" where
  "UpdateBlockTxs txHash w = (if \<not> wa_sw w then w else w\<lparr>wa_blockTxs := Some (these_txs (wa_blockTxs w) @ [txHash])\<rparr>)"

definition SaveEthereumTx :: "watch_env \<Rightarrow> MsgEthereumTx \<Rightarrow> hash \<Rightarrow> uint64 \<Rightarrow> Watcher \<Rightarrow> Watcher" where
  "SaveEthereumTx W msg txHash index w =
     (if \<not> wa_sw w then w
      else
        UpdateBlockTxs txHash
          (case NewMsgEthTx W msg txHash (wa_blockHash w) (wa_height w) index of None \<Rightarrow> w | Some m \<Rightarrow> addBatch m w))"

definition SaveContractCode :: "watch_env \<Rightarrow> address \<Rightarrow> bytes \<Rightarrow> Watcher \<Rightarrow> Watcher" where
  "SaveContractCode W addr cd w = (if \<not> wa_sw w then w else addBatch (NewMsgCode W addr cd (wa_height w)) w)"

text \<open>A missing entry of the map reads as zero; storing into the nil map panics.\<close>

definition gasAt :: "(uint64 \<rightharpoonup> uint64) \<Rightarrow> uint64 \<Rightarrow> uint64" where
  "gasAt m i = (case m i of None \<Rightarrow> 0 | Some g \<Rightarrow> g)"

definition these_gas :: "(uint64 \<rightharpoonup> uint64) option \<Rightarrow> (uint64 \<rightharpoonup> uint64)" where
  "these_gas m = (case m of None \<Rightarrow> Map.empty | Some m \<Rightarrow> m)"

definition UpdateCumulativeGas :: "uint64 \<Rightarrow> uint64 \<Rightarrow> Watcher \<Rightarrow> rpc_error + Watcher" where
  "UpdateCumulativeGas idx gasUsed w =
     (if \<not> wa_sw w then Inr w
      else
        case wa_cumulativeGas w of
          None \<Rightarrow> Inl PanicNilMap
        | Some m \<Rightarrow>
            Inr (w\<lparr>wa_cumulativeGas := Some (m(idx \<mapsto> (if m = Map.empty then gasUsed else gasAt m (idx - 1) + gasUsed))),
              wa_gasUsed := wa_gasUsed w + gasUsed\<rparr>))"

definition SaveTransactionReceipt ::
    "watch_env \<Rightarrow> uint64 \<Rightarrow> MsgEthereumTx \<Rightarrow> hash \<Rightarrow> uint64 \<Rightarrow> ResultData \<Rightarrow> uint64 \<Rightarrow> Watcher \<Rightarrow> rpc_error + Watcher" where
  "SaveTransactionReceipt W status msg txHash idx data gasUsed w =
     (if \<not> wa_sw w then Inr w
      else
        bindE (UpdateCumulativeGas idx gasUsed w) (\<lambda>w.
          Inr (addBatch (NewMsgTransactionReceipt W status msg txHash (wa_blockHash w) idx (wa_height w) data
             (gasAt (these_gas (wa_cumulativeGas w)) idx) gasUsed) w)))"

definition SaveLatestHeight :: "uint64 \<Rightarrow> Watcher \<Rightarrow> Watcher" where
  "SaveLatestHeight height w = (if \<not> wa_sw w then w else addBatch (NewMsgLatestHeight height) w)"

definition SaveBlock :: "watch_env \<Rightarrow> bloom \<Rightarrow> Watcher \<Rightarrow> Watcher" where
  "SaveBlock W bl w =
     (if \<not> wa_sw w then w
      else
        SaveLatestHeight (wa_height w)
          (addBatch (NewMsgBlockInfo W (wa_height w) (wa_blockHash w))
            (addBatch (NewMsgBlock W (wa_height w) bl (wa_blockHash w) (wa_header w) 0xFFFFFFFF (sint (wa_gasUsed w)) (wa_blockTxs w)) w)))"

subsection \<open>Commits and the store\<close>

text \<open>The store with the writers that still run, whether a block is open, and the batches that were committed so far.\<close>

record watch_sys =
  wy_watcher :: Watcher
  wy_open :: bool
  wy_store :: WatchStore
  wy_writers :: "WatchMessage list list"
  wy_committed :: "WatchMessage list list" \<comment> \<open>history\<close>

definition watcherCommit :: "watch_sys \<Rightarrow> watch_sys" where
  "watcherCommit y =
     (if \<not> wa_sw (wy_watcher y) then y
      else y\<lparr>wy_writers := wy_writers y @ [wa_batch (wy_watcher y)], wy_committed := wy_committed y @ [wa_batch (wy_watcher y)]\<rparr>)"

definition writeMessage :: "WatchMessage \<Rightarrow> WatchStore \<Rightarrow> WatchStore" where
  "writeMessage m st = st(GetKey m \<mapsto> GetValue m)"

text \<open>The calls of the EVM module between the beginning and the end of a block. A panic in a call is recovered by the
  application, which then goes on with the watcher as it was.\<close>

datatype watch_call =
    CallEthereumTx MsgEthereumTx hash uint64
  | CallReceipt uint64 MsgEthereumTx hash uint64 ResultData uint64
  | CallCode address bytes

fun runCall :: "watch_env \<Rightarrow> watch_call \<Rightarrow> Watcher \<Rightarrow> Watcher" where
  "runCall W (CallEthereumTx msg h i) w = SaveEthereumTx W msg h i w"
| "runCall W (CallReceipt status msg h i data gas) w =
     (case SaveTransactionReceipt W status msg h i data gas w of Inl _ \<Rightarrow> w | Inr w' \<Rightarrow> w')"
| "runCall W (CallCode a cd) w = SaveContractCode W a cd w"

text \<open>Blocks begin and end in turn. The keeper does not call \<open>NewHeight\<close> in a first block without a predecessor.\<close>

inductive watch_step :: "watch_env \<Rightarrow> watch_sys \<Rightarrow> watch_sys \<Rightarrow> bool" for W where
  begin_block: "\<not> wy_open y \<Longrightarrow>
    watch_step W y (y\<lparr>wy_watcher := NewHeight height bh header (wy_watcher y), wy_open := True\<rparr>)"
| begin_first: "\<not> wy_open y \<Longrightarrow> wy_committed y = [] \<Longrightarrow> watch_step W y (y\<lparr>wy_open := True\<rparr>)"
| call: "wy_open y \<Longrightarrow> watch_step W y (y\<lparr>wy_watcher := runCall W c (wy_watcher y)\<rparr>)"
| end_block: "wy_open y \<Longrightarrow>
    watch_step W y (watcherCommit (y\<lparr>wy_watcher := SaveBlock W bl (wy_watcher y), wy_open := False\<rparr>))"
| write_message: "wy_writers y = ws @ (m # ms) # vs \<Longrightarrow>
    watch_step W y (y\<lparr>wy_store := writeMessage m (wy_store y), wy_writers := ws @ ms # vs\<rparr>)"

inductive_cases watch_stepE: "watch_step W y y'"

definition NewWatcher :: "abci_header \<Rightarrow> bool \<Rightarrow> Watcher" where
  "NewWatcher header sw = \<lparr>wa_height = 0, wa_blockHash = 0, wa_header = header, wa_batch = [], wa_cumulativeGas = None,
     wa_gasUsed = 0, wa_blockTxs = None, wa_sw = sw\<rparr>"

inductive watch_reach :: "watch_env \<Rightarrow> watch_sys \<Rightarrow> bool" for W where
  start: "watch_reach W \<lparr>wy_watcher = NewWatcher header sw, wy_open = False, wy_store = Map.empty, wy_writers = [], wy_committed = []\<rparr>"
| step: "watch_reach W y \<Longrightarrow> watch_step W y y' \<Longrightarrow> watch_reach W y'"

subsection \<open>The querier\<close>

definition storeGet :: "bool \<Rightarrow> WatchStore \<Rightarrow> string \<Rightarrow> rpc_error + watch_value" where
  "storeGet sw st k =
     (if \<not> sw then Inl ErrFastQueryDisabled else case st k of None \<Rightarrow> Inl ErrKeyMissing | Some v \<Rightarrow> Inr v)"

definition qGetTransactionReceipt :: "watch_env \<Rightarrow> bool \<Rightarrow> WatchStore \<Rightarrow> hash \<Rightarrow> rpc_error + TransactionReceipt" where
  "qGetTransactionReceipt W sw st h =
     bindE (storeGet sw st (''0x3'' @ hashText W h)) (\<lambda>v. case v of ValReceipt r \<Rightarrow> Inr r | _ \<Rightarrow> Inl ErrJSON)"

definition qGetTransactionByHash :: "watch_env \<Rightarrow> bool \<Rightarrow> WatchStore \<Rightarrow> hash \<Rightarrow> rpc_error + RpcTransaction" where
  "qGetTransactionByHash W sw st h =
     bindE (storeGet sw st (''0x1'' @ hashText W h)) (\<lambda>v. case v of ValTx t \<Rightarrow> Inr t | _ \<Rightarrow> Inl ErrJSON)"

definition fullTransactions :: "watch_env \<Rightarrow> bool \<Rightarrow> WatchStore \<Rightarrow> string list \<Rightarrow> RpcTransaction list" where
  "fullTransactions W sw st hs =
     concat (map (\<lambda>h. case qGetTransactionByHash W sw st (HashFromHex (rp_gen (we_rpc W)) h) of Inl _ \<Rightarrow> [] | Inr t \<Rightarrow> [t]) hs)"

definition qGetBlockByHash :: "watch_env \<Rightarrow> bool \<Rightarrow> WatchStore \<Rightarrow> hash \<Rightarrow> bool \<Rightarrow> rpc_error + EthBlock" where
  "qGetBlockByHash W sw st h fullTx =
     bindE (storeGet sw st (''0x2'' @ hashText W h)) (\<lambda>v.
       case v of
         ValBlock b \<Rightarrow>
           if fullTx then
             (case eb_Transactions b of
                None \<Rightarrow> Inr b
              | Some (HashTexts hs) \<Rightarrow> Inr (b\<lparr>eb_Transactions := Some (FullTransactions (fullTransactions W sw st hs))\<rparr>)
              | Some (FullTransactions _) \<Rightarrow> Inl PanicDecodedType)
           else Inr b
       | _ \<Rightarrow> Inl ErrJSON)"

definition qGetLatestBlockNumber :: "bool \<Rightarrow> WatchStore \<Rightarrow> rpc_error + uint64" where
  "qGetLatestBlockNumber sw st =
     bindE (storeGet sw st latestKey) (\<lambda>v.
       case v of
         ValText t \<Rightarrow> (case parseInt64 t of None \<Rightarrow> Inl ErrAtoi64 | Some n \<Rightarrow> Inr (word_of_int n))
       | _ \<Rightarrow> Inl ErrAtoi64)"

definition qGetBlockByNumber :: "watch_env \<Rightarrow> bool \<Rightarrow> WatchStore \<Rightarrow> uint64 \<Rightarrow> bool \<Rightarrow> rpc_error + EthBlock" where
  "qGetBlockByNumber W sw st number fullTx =
     bindE (if number = 0 then qGetLatestBlockNumber sw st else if \<not> sw then Inl ErrFastQueryDisabled else Inr number) (\<lambda>height.
     bindE (storeGet sw st (''0x5'' @ Itoa height)) (\<lambda>v.
       case v of
         ValText h \<Rightarrow> qGetBlockByHash W sw st (HashFromHex (rp_gen (we_rpc W)) h) fullTx
       | _ \<Rightarrow> Inl ErrJSON))"

text \<open>\<open>hex.DecodeString\<close>.\<close>

fun hexDecodeString :: "string \<Rightarrow> bytes option" where
  "hexDecodeString [] = Some []"
| "hexDecodeString [c] = None"
| "hexDecodeString (c # d # cs) =
     (if hexValue c < 16 \<and> hexValue d < 16
      then map_option (\<lambda>bs. word_of_nat (16 * hexValue c + hexValue d) # bs) (hexDecodeString cs) else None)"

definition qGetCode :: "watch_env \<Rightarrow> bool \<Rightarrow> WatchStore \<Rightarrow> address \<Rightarrow> uint64 \<Rightarrow> rpc_error + bytes" where
  "qGetCode W sw st contractAddr height =
     bindE (storeGet sw st (''0x4'' @ addressText W contractAddr)) (\<lambda>v.
       case v of
         ValCode c \<Rightarrow>
           if height < ci_Height c \<and> 0 < height then Inl ErrNotDeployedYet
           else (case hexDecodeString (ci_Code c) of None \<Rightarrow> Inl ErrHexDecode | Some b \<Rightarrow> Inr b)
       | _ \<Rightarrow> Inl ErrJSON)"

fun findTransaction :: "uint64 \<Rightarrow> RpcTransaction list \<Rightarrow> rpc_error + RpcTransaction" where
  "findTransaction idx [] = Inl ErrNoSuchTransaction"
| "findTransaction idx (t # ts) =
     (case rt_TransactionIndex t of
        None \<Rightarrow> Inl PanicNilIndex
      | Some i \<Rightarrow> if idx = i then Inr t else findTransaction idx ts)"

definition getTransactionByBlockAndIndex :: "EthBlock \<Rightarrow> uint64 \<Rightarrow> rpc_error + RpcTransaction" where
  "getTransactionByBlockAndIndex block idx =
     (case eb_Transactions block of
        None \<Rightarrow> Inl ErrNoSuchTransaction
      | Some (FullTransactions ts) \<Rightarrow> findTransaction idx ts
      | Some (HashTexts _) \<Rightarrow> Inl PanicDecodedType)"

definition qGetTransactionByBlockNumberAndIndex ::
    "watch_env \<Rightarrow> bool \<Rightarrow> WatchStore \<Rightarrow> uint64 \<Rightarrow> uint64 \<Rightarrow> rpc_error + RpcTransaction" where
  "qGetTransactionByBlockNumberAndIndex W sw st number idx =
     bindE (qGetBlockByNumber W sw st number True) (\<lambda>block. getTransactionByBlockAndIndex block idx)"

definition qGetTransactionByBlockHashAndIndex ::
    "watch_env \<Rightarrow> bool \<Rightarrow> WatchStore \<Rightarrow> hash \<Rightarrow> uint64 \<Rightarrow> rpc_error + RpcTransaction" where
  "qGetTransactionByBlockHashAndIndex W sw st h idx =
     bindE (qGetBlockByHash W sw st h True) (\<lambda>block. getTransactionByBlockAndIndex block idx)"

end
