(* ===== verification/Evm_Watcher_Props.thy ===== *)
theory Evm_Watcher_Props
  imports Evm_Watcher Evm_Indexer_Props Evm_Genesis_Props
begin

text \<open>
  What readers of the watcher's database see while blocks are written by concurrent goroutines: the latest height becomes
  visible after everything else of its block. And the gas in the receipts of a block is the running sum.
\<close>

subsection \<open>The batch of a block\<close>

fun isLatest :: "WatchMessage \<Rightarrow> bool" where
  "isLatest (MsgLatestHeight _) = True"
| "isLatest _ = False"

lemma isLatest_key: "GetKey m = latestKey \<longleftrightarrow> isLatest m"
  by (cases m) (simp_all add: latestKey_def)

lemma addBatch_sel [simp]:
  "wa_batch (addBatch m w) = wa_batch w @ [m]" "wa_sw (addBatch m w) = wa_sw w" "wa_height (addBatch m w) = wa_height w"
  "wa_blockHash (addBatch m w) = wa_blockHash w" "wa_header (addBatch m w) = wa_header w" "wa_gasUsed (addBatch m w) = wa_gasUsed w"
  "wa_cumulativeGas (addBatch m w) = wa_cumulativeGas w" "wa_blockTxs (addBatch m w) = wa_blockTxs w"
  by (simp_all add: addBatch_def)

lemmas watcher_defs = SaveEthereumTx_def SaveTransactionReceipt_def SaveContractCode_def UpdateBlockTxs_def UpdateCumulativeGas_def these_gas_def
  NewMsgCode_def NewMsgTransactionReceipt_def NewMsgEthTx_def Let_def

lemma runCall_sel [simp]: "wa_sw (runCall W c w) = wa_sw w"
  by (cases c) (auto simp: watcher_defs bindE_def split: sum.splits option.splits)

lemma runCall_batch: "\<exists>ms. wa_batch (runCall W c w) = wa_batch w @ ms \<and> list_all (\<lambda>m. \<not> isLatest m) ms"
  by (cases c) (auto simp: watcher_defs bindE_def split: sum.splits option.splits)

text \<open>A batch as the end of a block leaves it.\<close>

definition block_batch :: "watch_env \<Rightarrow> WatchMessage list \<Rightarrow> bool" where
  "block_batch W B \<longleftrightarrow> (\<exists>ms h bh b. B = ms @ [MsgBlock (hashText W bh) b, MsgBlockInfo (Itoa h) (hashText W bh), MsgLatestHeight (Itoa h)] \<and>
     eb_Number b = h \<and> list_all (\<lambda>m. \<not> isLatest m) ms)"

lemma SaveBlock_batch:
  assumes "wa_sw w" and "list_all (\<lambda>m. \<not> isLatest m) (wa_batch w)"
  shows "block_batch W (wa_batch (SaveBlock W bl w))"
  using assms
  by (auto simp: block_batch_def SaveBlock_def SaveLatestHeight_def NewMsgBlock_def NewMsgBlockInfo_def NewMsgLatestHeight_def Let_def
      intro!: exI [of _ "wa_batch w"])

lemma SaveBlock_sw [simp]: "wa_sw (SaveBlock W bl w) = wa_sw w"
  by (simp add: SaveBlock_def SaveLatestHeight_def)

subsection \<open>Writers and the store\<close>

text \<open>Each committed batch is what its writer has written followed by what it has still to write; what is in the store was
  written, and a key that was written is in the store.\<close>

definition written :: "WatchMessage list list \<Rightarrow> WatchMessage set" where
  "written ds = \<Union> (set ` set ds)"

definition watch_inv :: "watch_env \<Rightarrow> WatchMessage list list \<Rightarrow> watch_sys \<Rightarrow> bool" where
  "watch_inv W ds y \<longleftrightarrow>
     length ds = length (wy_writers y) \<and> wy_committed y = map2 (@) ds (wy_writers y) \<and>
     list_all (block_batch W) (wy_committed y) \<and>
     (wa_sw (wy_watcher y) \<or> wy_committed y = []) \<and>
     (wy_open y \<or> wy_committed y = [] \<longrightarrow> list_all (\<lambda>m. \<not> isLatest m) (wa_batch (wy_watcher y))) \<and>
     (\<forall>k v. wy_store y k = Some v \<longrightarrow> (\<exists>m \<in> written ds. GetKey m = k \<and> GetValue m = v)) \<and>
     (\<forall>m \<in> written ds. wy_store y (GetKey m) \<noteq> None)"

lemma watch_inv_start: "watch_inv W [] \<lparr>wy_watcher = NewWatcher header sw, wy_open = False, wy_store = Map.empty, wy_writers = [], wy_committed = []\<rparr>"
  by (simp add: watch_inv_def written_def NewWatcher_def)

lemma watch_inv_write:
  assumes inv: "watch_inv W ds y" and w: "wy_writers y = ws @ (m # ms) # vs"
  shows "\<exists>ds'. watch_inv W ds' (y\<lparr>wy_store := writeMessage m (wy_store y), wy_writers := ws @ ms # vs\<rparr>)"
proof -
  have len: "length ds = length ws + Suc (length vs)" using inv w by (simp add: watch_inv_def)
  define xs d zs where "xs = take (length ws) ds" and "d = ds ! length ws" and "zs = drop (Suc (length ws)) ds"
  with len have ds: "ds = xs @ d # zs" "length xs = length ws" "length zs = length vs"
    by (simp_all add: id_take_nth_drop)
  let ?ds = "xs @ (d @ [m]) # zs"
  have wr: "written ?ds = insert m (written ds)" by (auto simp: written_def ds(1))
  have "watch_inv W ?ds (y\<lparr>wy_store := writeMessage m (wy_store y), wy_writers := ws @ ms # vs\<rparr>)"
    using inv w ds wr by (auto simp: watch_inv_def writeMessage_def split: if_splits)
  then show ?thesis by blast
qed

lemma watch_inv_step:
  assumes inv: "watch_inv W ds y" and step: "watch_step W y y'"
  shows "\<exists>ds'. watch_inv W ds' y'"
  using step
proof (cases rule: watch_step.cases)
  case (begin_block height bh header)
  then show ?thesis using inv by (intro exI [of _ ds]) (auto simp: watch_inv_def NewHeight_def)
next
  case begin_first
  then show ?thesis using inv by (intro exI [of _ ds]) (auto simp: watch_inv_def)
next
  case (call c)
  from runCall_batch [of W c "wy_watcher y"] obtain ms where
    "wa_batch (runCall W c (wy_watcher y)) = wa_batch (wy_watcher y) @ ms" "list_all (\<lambda>m. \<not> isLatest m) ms" by blast
  then show ?thesis using inv call by (intro exI [of _ ds]) (auto simp: watch_inv_def)
next
  case (end_block bl)
  show ?thesis
  proof (cases "wa_sw (wy_watcher y)")
    case True
    have "block_batch W (wa_batch (SaveBlock W bl (wy_watcher y)))"
      using SaveBlock_batch [OF True] inv end_block by (simp add: watch_inv_def)
    then show ?thesis using inv end_block True
      by (intro exI [of _ "ds @ [[]]"]) (auto simp: watch_inv_def watcherCommit_def written_def)
  next
    case False
    then show ?thesis using inv end_block
      by (intro exI [of _ ds]) (auto simp: watch_inv_def watcherCommit_def SaveBlock_def)
  qed
next
  case (write_message ws m ms vs)
  then show ?thesis using watch_inv_write [OF inv] by blast
qed

lemma watch_reach_inv: "watch_reach W y \<Longrightarrow> \<exists>ds. watch_inv W ds y"
  by (induction rule: watch_reach.induct) (use watch_inv_start watch_inv_step in blast)+

subsection \<open>What readers see\<close>

text \<open>No committed batch gives the key of the message another value.\<close>

definition settled_message :: "WatchMessage list list \<Rightarrow> WatchMessage \<Rightarrow> bool" where
  "settled_message C m \<longleftrightarrow> (\<forall>B \<in> set C. \<forall>m' \<in> set B. GetKey m' = GetKey m \<longrightarrow> GetValue m' = GetValue m)"

lemma committed_split:
  assumes "watch_inv W ds y" and "i < length ds"
  shows "wy_committed y ! i = ds ! i @ wy_writers y ! i" and "wy_committed y ! i \<in> set (wy_committed y)"
proof -
  have "length ds = length (wy_writers y)" "wy_committed y = map2 (@) ds (wy_writers y)" using assms(1) by (simp_all add: watch_inv_def)
  with assms(2) have "i < length (wy_committed y)" "wy_committed y ! i = ds ! i @ wy_writers y ! i" by simp_all
  then show "wy_committed y ! i = ds ! i @ wy_writers y ! i" and "wy_committed y ! i \<in> set (wy_committed y)"
    by (simp, intro nth_mem)
qed

lemma written_nth: "m \<in> written ds \<Longrightarrow> \<exists>i < length ds. m \<in> set (ds ! i)"
  by (metis UN_E in_set_conv_nth written_def)

lemma written_committed:
  assumes inv: "watch_inv W ds y" and m: "m \<in> written ds"
  shows "\<exists>B \<in> set (wy_committed y). m \<in> set B"
proof -
  from written_nth [OF m] obtain i where "i < length ds" "m \<in> set (ds ! i)" by blast
  with committed_split [OF inv this(1)] show ?thesis by (intro bexI [of _ "wy_committed y ! i"]) simp_all
qed

lemma settled_stored:
  assumes inv: "watch_inv W ds y" and m: "m \<in> written ds" and s: "settled_message (wy_committed y) m"
  shows "wy_store y (GetKey m) = Some (GetValue m)"
proof -
  from inv m obtain v where v: "wy_store y (GetKey m) = Some v" unfolding watch_inv_def by blast
  with inv obtain m' where m': "m' \<in> written ds" "GetKey m' = GetKey m" "GetValue m' = v" unfolding watch_inv_def by blast
  from written_committed [OF inv m'(1)] s m'(2) have "GetValue m' = GetValue m" unfolding settled_message_def by blast
  with v m'(3) show ?thesis by simp
qed

text \<open>When the latest height was written, its whole batch was.\<close>

lemma latest_written:
  assumes inv: "watch_inv W ds y" and st: "wy_store y latestKey = Some v"
  shows "\<exists>B \<in> set (wy_committed y). block_batch W B \<and> set B \<subseteq> written ds \<and> v = GetValue (last B)"
proof -
  from inv st obtain m where m: "m \<in> written ds" "GetKey m = latestKey" "GetValue m = v"
    unfolding watch_inv_def by blast
  then have l: "isLatest m" by (simp add: isLatest_key)
  from written_nth [OF m(1)] obtain i where i: "i < length ds" "m \<in> set (ds ! i)" by blast
  note c = committed_split [OF inv i(1)]
  have b: "block_batch W (wy_committed y ! i)" using inv c(2) by (auto simp: watch_inv_def list_all_iff)
  then obtain ms t where B: "wy_committed y ! i = ms @ [MsgLatestHeight t]" "list_all (\<lambda>m. \<not> isLatest m) ms"
    unfolding block_batch_def by force
  have "wy_writers y ! i = []"
  proof (rule ccontr)
    assume "wy_writers y ! i \<noteq> []"
    then have "ms = ds ! i @ butlast (wy_writers y ! i)" using B(1) c(1) by (metis butlast_append butlast_snoc)
    with B(2) i(2) l show False by (auto simp: list_all_iff)
  qed
  then have all: "ds ! i = wy_committed y ! i" using c(1) by simp
  then have "m = MsgLatestHeight t" using i(2) l B by (auto simp: list_all_iff)
  moreover have "set (wy_committed y ! i) \<subseteq> written ds" using nth_mem [OF i(1)] unfolding written_def all by blast
  ultimately show ?thesis using b c(2) m(3) B(1) by (intro bexI [of _ "wy_committed y ! i"]) auto
qed

lemma parse_Itoa [simp]: "parseInt64 (Itoa h) = Some (sint h)"
  using sint_greater_eq [of h] sint_less [of h] by (simp add: Itoa_def parseInt64_bigText)

text \<open>C16: The latest height is complete. Although the writers of several blocks interleave in any order, a reader that is
  told a latest height finds the block of that height, and every message of its batch (transactions, receipts,
  codes) is readable unless another block gave the same key another value.\<close>

theorem watched_height_complete:
  assumes reach: "watch_reach W y" and hx: "hash_text (rp_gen (we_rpc W))"
    and latest: "qGetLatestBlockNumber True (wy_store y) = Inr h"
    and blocks: "\<And>B k b. B \<in> set (wy_committed y) \<Longrightarrow> MsgBlock k b \<in> set B \<Longrightarrow> settled_message (wy_committed y) (MsgBlock k b)"
      "\<And>B t k. B \<in> set (wy_committed y) \<Longrightarrow> MsgBlockInfo t k \<in> set B \<Longrightarrow> settled_message (wy_committed y) (MsgBlockInfo t k)"
  shows "\<exists>B \<in> set (wy_committed y). \<exists>b. last B = MsgLatestHeight (Itoa h) \<and> eb_Number b = h \<and>
     qGetBlockByNumber W True (wy_store y) h False = Inr b \<and>
     (\<forall>m \<in> set B. settled_message (wy_committed y) m \<longrightarrow> wy_store y (GetKey m) = Some (GetValue m))"
proof -
  from watch_reach_inv [OF reach] obtain ds where inv: "watch_inv W ds y" by blast
  from latest obtain t where t: "wy_store y latestKey = Some (ValText t)" "map_option word_of_int (parseInt64 t) = Some h"
    by (auto simp: qGetLatestBlockNumber_def storeGet_def split: option.splits watch_value.splits)
  from latest_written [OF inv t(1)] obtain B where B: "B \<in> set (wy_committed y)" "block_batch W B" "set B \<subseteq> written ds"
    "ValText t = GetValue (last B)" by blast
  from B(2) obtain ms h' bh b where b: "B = ms @ [MsgBlock (hashText W bh) b, MsgBlockInfo (Itoa h') (hashText W bh), MsgLatestHeight (Itoa h')]"
    "eb_Number b = h'" by (auto simp: block_batch_def)
  have h': "h' = h" using B(4) t(2) by (simp add: b)
  have "wy_store y (GetKey (MsgBlock (hashText W bh) b)) = Some (ValBlock b)"
    using settled_stored [OF inv _ blocks(1)] B(1,3) by (force simp: b)
  moreover have "wy_store y (GetKey (MsgBlockInfo (Itoa h) (hashText W bh))) = Some (ValText (hashText W bh))"
    using settled_stored [OF inv _ blocks(2)] B(1,3) by (force simp: b h')
  ultimately have "qGetBlockByNumber W True (wy_store y) h False = Inr b"
    using latest hx by (cases "h = 0") (simp_all add: qGetBlockByNumber_def qGetBlockByHash_def storeGet_def hash_text_def)
  moreover have "\<forall>m \<in> set B. settled_message (wy_committed y) m \<longrightarrow> wy_store y (GetKey m) = Some (GetValue m)"
    using settled_stored [OF inv] B(3) by blast
  ultimately show ?thesis using B(1) b h' by (intro bexI [of _ B]) auto
qed

subsection \<open>Cumulative gas\<close>

definition gasCall :: "watch_call \<Rightarrow> (uint64 \<times> uint64) list" where
  "gasCall c = (case c of CallReceipt _ _ _ i _ gas \<Rightarrow> [(i, gas)] | _ \<Rightarrow> [])"

definition receiptOf :: "WatchMessage \<Rightarrow> (uint64 \<times> uint64) list" where
  "receiptOf m = (case m of MsgTransactionReceipt _ r \<Rightarrow> [(tr_TransactionIndex r, tr_CumulativeGasUsed r)] | _ \<Rightarrow> [])"

definition sumUpTo :: "(uint64 \<times> uint64) list \<Rightarrow> nat \<Rightarrow> uint64" where
  "sumUpTo gs i = sum_list (map snd (take (Suc i) gs))"

definition gas_inv :: "(uint64 \<times> uint64) list \<Rightarrow> Watcher \<Rightarrow> bool" where
  "gas_inv gs w \<longleftrightarrow> wa_sw w \<and> wa_gasUsed w = sum_list (map snd gs) \<and>
     wa_cumulativeGas w \<noteq> None \<and> (these_gas (wa_cumulativeGas w) = Map.empty \<longleftrightarrow> gs = []) \<and>
     (\<forall>i < length gs. these_gas (wa_cumulativeGas w) (word_of_nat i) = Some (sumUpTo gs i)) \<and>
     concat (map receiptOf (wa_batch w)) = map (\<lambda>i. (word_of_nat i, sumUpTo gs i)) [0..<length gs]"

lemma sumUpTo_append: "i < length gs \<Longrightarrow> sumUpTo (gs @ hs) i = sumUpTo gs i"
  by (simp add: sumUpTo_def)

lemma sumUpTo_last: "sumUpTo (gs @ [g]) (length gs) = sum_list (map snd gs) + snd g"
  by (simp add: sumUpTo_def)

lemma sumUpTo_all: "length gs = Suc n \<Longrightarrow> sumUpTo gs n = sum_list (map snd gs)"
  by (simp add: sumUpTo_def)

lemma gas_inv_other: "gas_inv gs w \<Longrightarrow> gasCall c = [] \<Longrightarrow> gas_inv gs (runCall W c w)"
  by (cases c) (auto simp: gas_inv_def gasCall_def watcher_defs receiptOf_def split: sum.splits)

lemma word_of_nat_neq: "i < n \<Longrightarrow> n < 2 ^ 64 \<Longrightarrow> (word_of_nat i :: uint64) \<noteq> word_of_nat n"
  by (simp add: word_of_nat_eq_iff take_bit_nat_eq_self)

lemma gas_inv_receipt:
  assumes inv: "gas_inv gs w" and n: "length gs < 2 ^ 64"
  shows "gas_inv (gs @ [(word_of_nat (length gs), gas)]) (runCall W (CallReceipt status msg h (word_of_nat (length gs)) data gas) w)"
proof -
  let ?n = "length gs" and ?g = "gs @ [(word_of_nat (length gs), gas)]"
  from inv obtain m where m: "wa_cumulativeGas w = Some m" by (auto simp: gas_inv_def)
  have cum: "(if m = Map.empty then gas else gasAt m (word_of_nat ?n - 1) + gas) = sumUpTo ?g ?n"
  proof (cases gs rule: rev_cases)
    case Nil
    then show ?thesis using inv m by (simp add: gas_inv_def sumUpTo_def these_gas_def)
  next
    case (snoc hs x)
    have "m (word_of_nat (length hs)) = Some (sumUpTo gs (length hs))" using inv snoc m by (simp add: gas_inv_def these_gas_def)
    moreover have "word_of_nat ?n - 1 = (word_of_nat (length hs) :: uint64)" by (simp add: snoc)
    ultimately show ?thesis using inv snoc sumUpTo_all [of gs "length hs"] sumUpTo_last [of gs "(word_of_nat ?n, gas)"] m
      by (simp add: gas_inv_def gasAt_def these_gas_def)
  qed
  have neq: "(word_of_nat i :: uint64) \<noteq> word_of_nat ?n" if "i < ?n" for i using word_of_nat_neq [OF that n] .
  show ?thesis
    using inv cum neq m
    by (auto simp: gas_inv_def SaveTransactionReceipt_def UpdateCumulativeGas_def NewMsgTransactionReceipt_def Let_def gasAt_def receiptOf_def
        less_Suc_eq sumUpTo_append these_gas_def)
qed


subsection \<open>A concrete watcher\<close>

definition rpc_env0 :: rpc_env where
  "rpc_env0 = \<lparr>rp_tx = tx_env0, rp_gen = gen_env0, UnmarshalTx = (\<lambda>b. None), UnmarshalResultData = (\<lambda>b. None),
     TmTxHash = (\<lambda>b. b), DecodeUint64 = (\<lambda>s. None)\<rparr>"

definition watch_env0 :: watch_env where
  "watch_env0 = \<lparr>we_rpc = rpc_env0, BytesToHex = (\<lambda>b. [])\<rparr>"

definition header0 :: abci_header where
  "header0 = \<lparr>th_Height = 5, th_LastBlockHash = [], th_ProposerAddress = [], th_AppHash = [], th_DataHash = [], th_Unix = 0, th_Hash = [],
     ah_Size = 0\<rparr>"

definition block0 :: EthBlock where
  "block0 = (let E = te_evm tx_env0 in
     \<lparr>eb_Number = 5, eb_Hash = 9, eb_ParentHash = BytesToHash E [], eb_LogsBloom = 0, eb_TransactionsRoot = BytesToHash E [],
      eb_StateRoot = BytesToHash E [], eb_Miner = BytesToAddress E [], eb_Size = 0, eb_GasLimit = 0xFFFFFFFF, eb_GasUsed = 0,
      eb_Timestamp = 0, eb_Transactions = Some (HashTexts [])\<rparr>)"

definition batch0 :: "WatchMessage list" where
  "batch0 = [MsgBlock (hashText watch_env0 9) block0, MsgBlockInfo (Itoa 5) (hashText watch_env0 9), MsgLatestHeight (Itoa 5)]"

definition watched0 :: watch_sys where
  "watched0 = \<lparr>wy_watcher = SaveBlock watch_env0 0 (NewHeight 5 9 header0 (NewWatcher header0 True)), wy_open = False,
     wy_store = foldl (\<lambda>st m. writeMessage m st) Map.empty batch0, wy_writers = [[]], wy_committed = [batch0]\<rparr>"

lemma watched0_reachable: "watch_reach watch_env0 watched0"
proof -
  let ?w0 = "NewWatcher header0 True" and ?w1 = "NewHeight 5 9 header0 (NewWatcher header0 True)"
  let ?y = "\<lambda>w op st ws c. \<lparr>wy_watcher = w, wy_open = op, wy_store = st, wy_writers = ws, wy_committed = c\<rparr>"
  have w2: "wa_batch (SaveBlock watch_env0 0 ?w1) = batch0" "wa_sw (SaveBlock watch_env0 0 ?w1)"
    by (simp_all add: batch0_def block0_def SaveBlock_def SaveLatestHeight_def NewHeight_def NewWatcher_def NewMsgBlock_def NewMsgBlockInfo_def
        NewMsgLatestHeight_def header0_def watch_env0_def rpc_env0_def Let_def)
  have 1: "watch_reach watch_env0 (?y ?w1 True Map.empty [] [])"
    using watch_reach.step [OF watch_reach.start watch_step.begin_block] by simp
  have 2: "watch_reach watch_env0 (?y (SaveBlock watch_env0 0 ?w1) False Map.empty [batch0] [batch0])"
    using watch_reach.step [OF 1 watch_step.end_block, of 0] w2 by (simp add: watcherCommit_def)
  have "watch_reach watch_env0 (?y (SaveBlock watch_env0 0 ?w1) False (foldl (\<lambda>st m. writeMessage m st) st ms) [[]] [batch0])"
    if "watch_reach watch_env0 (?y (SaveBlock watch_env0 0 ?w1) False st [ms] [batch0])" for st ms
    using that
  proof (induction ms arbitrary: st)
    case (Cons m ms)
    from watch_reach.step [OF Cons.prems watch_step.write_message, of "[]" m ms "[]"] Cons.IH show ?case by simp
  qed simp
  from this [OF 2] show ?thesis by (simp add: watched0_def)
qed

lemma watched0_store:
  "wy_store watched0 latestKey = Some (ValText (Itoa 5))"
  by (simp add: watched0_def batch0_def writeMessage_def)

theorem watched_height_complete_witness:
  "\<exists>b. qGetBlockByNumber watch_env0 True (wy_store watched0) 5 False = Inr b \<and> eb_Number b = 5"
proof -
  have hx: "hash_text (rp_gen (we_rpc watch_env0))" using gen_env0_text by (simp add: watch_env0_def rpc_env0_def)
  have latest: "qGetLatestBlockNumber True (wy_store watched0) = Inr 5"
    by (simp add: qGetLatestBlockNumber_def storeGet_def watched0_store)
  have s: "settled_message (wy_committed watched0) m" if "m \<in> set batch0" for m
    using that by (auto simp: settled_message_def watched0_def batch0_def latestKey_def)
  from watched_height_complete [OF watched0_reachable hx latest] s show ?thesis by (fastforce simp: watched0_def)
qed


end
