(* ===== verification/Rpc_Backend.thy ===== *)
theory Rpc_Backend
  imports Evm_Watcher
begin

text \<open>
  The backend of the JSON-RPC server (\<^verbatim>\<open>src/app/rpc/backend/backend.go\<close>): it answers from the watcher's database where
  it can, and otherwise from the queries of the EVM module and the client of Tendermint.

  \<open>tm_client\<close> is Tendermint's client: what it knows of blocks, results of transactions and the mempool; \<open>None\<close> is an
  error. \<open>'b backend\<close> holds it with what the other parts provide while a request is answered: the state of the chain, the
  watcher's database, the bloom indexer. A rate limiter is the answer that its \<open>Allow\<close> gives.
\<close>

record tm_client =
  cl_Block :: "int \<Rightarrow> tm_block option"
  cl_TxData :: "bytes \<Rightarrow> bytes option"
  cl_LastHeight :: "int option"
  cl_UnconfirmedTxs :: "(bytes list \<times> int) option"
  cl_UserNumUnconfirmedTxs :: "string \<Rightarrow> int option"
  cl_UserUnconfirmedTxs :: "string \<Rightarrow> int \<Rightarrow> bytes list option"
  cl_GetUnconfirmedTxByHash :: "hash \<Rightarrow> bytes option"

record 'b backend =
  bk_watch :: watch_env
  bk_client :: tm_client
  bk_state :: app_state
  bk_store :: WatchStore
  bk_sw :: bool
  bk_indexer :: "'b Indexer option"
  bk_start :: int
  DecompressBytes :: "bytes \<Rightarrow> nat \<Rightarrow> bytes option"
  bk_limiters :: "(string \<rightharpoonup> bool) option"

abbreviation bk_rpc :: "'b backend \<Rightarrow> rpc_env" where
  "bk_rpc B \<equiv> we_rpc (bk_watch B)"

abbreviation bk_evm :: "'b backend \<Rightarrow> evm_env" where
  "bk_evm B \<equiv> rp_evm (bk_rpc B)"

definition clientResult :: "'a option \<Rightarrow> rpc_error + 'a" where
  "clientResult r = (case r of None \<Rightarrow> Inl ErrClient | Some x \<Rightarrow> Inr x)"

subsection \<open>Heights and hashes\<close>

definition bLatestBlockNumber :: "'b backend \<Rightarrow> rpc_error + int" where
  "bLatestBlockNumber B = clientResult (cl_LastHeight (bk_client B))"

definition bBlockNumber :: "'b backend \<Rightarrow> rpc_error + uint64" where
  "bBlockNumber B =
     (case qGetLatestBlockNumber (bk_sw B) (bk_store B) of
        Inr ublockNumber \<Rightarrow> Inr (if 0 < ublockNumber then ublockNumber - 1 else ublockNumber)
      | Inl _ \<Rightarrow>
          bindE (bLatestBlockNumber B) (\<lambda>blockNumber.
            Inr (word_of_int (if 0 < blockNumber then blockNumber - 1 else blockNumber))))"

text \<open>Numbers that are not positive stand for the latest block.\<close>

definition resolveHeight :: "'b backend \<Rightarrow> int \<Rightarrow> rpc_error + int" where
  "resolveHeight B height = (if height \<le> 0 then bindE (bBlockNumber B) (\<lambda>num. Inr (sint num)) else Inr height)"

definition queryHeight :: "'b backend \<Rightarrow> hash \<Rightarrow> rpc_error + int" where
  "queryHeight B h =
     bindE (clientQuery (queryHashToHeight (rp_gen (bk_rpc B)) [''hashToHeight'', hashText (bk_watch B) h] (bk_state B))) (\<lambda>r.
       case r of QueryResBlockNumber n \<Rightarrow> Inr n | _ \<Rightarrow> Inl ErrJSON)"

definition GetBlockHashByHeight :: "'b backend \<Rightarrow> int \<Rightarrow> rpc_error + hash" where
  "GetBlockHashByHeight B height =
     bindE (clientQuery (queryHeightToHash [''heightToHash'', bigText height] (bk_state B))) (\<lambda>r.
       case r of QueryResHash h \<Rightarrow> Inr (BytesToHash (bk_evm B) (HashBytes (bk_evm B) h)) | _ \<Rightarrow> Inl ErrJSON)"

subsection \<open>Blocks and headers\<close>

datatype block_answer = WatchedBlock EthBlock | ChainBlock RpcBlock

text \<open>A block that the client does not have is the answer nil without an error.\<close>

definition chainBlock :: "'b backend \<Rightarrow> int \<Rightarrow> bool \<Rightarrow> rpc_error + block_answer option" where
  "chainBlock B height fullTx =
     (case cl_Block (bk_client B) height of
        None \<Rightarrow> Inr None
      | Some block \<Rightarrow> bindE (EthBlockFromTendermint (bk_rpc B) (bk_state B) block fullTx) (\<lambda>b. Inr (Some (ChainBlock b))))"

definition bGetBlockByNumber :: "'b backend \<Rightarrow> int \<Rightarrow> bool \<Rightarrow> rpc_error + block_answer option" where
  "bGetBlockByNumber B blockNum fullTx =
     (case qGetBlockByNumber (bk_watch B) (bk_sw B) (bk_store B) (word_of_int blockNum) fullTx of
        Inr b \<Rightarrow> Inr (Some (WatchedBlock b))
      | Inl _ \<Rightarrow> bindE (resolveHeight B blockNum) (\<lambda>height. chainBlock B height fullTx))"

definition bGetBlockByHash :: "'b backend \<Rightarrow> hash \<Rightarrow> bool \<Rightarrow> rpc_error + block_answer option" where
  "bGetBlockByHash B h fullTx =
     (case qGetBlockByHash (bk_watch B) (bk_sw B) (bk_store B) h fullTx of
        Inr b \<Rightarrow> Inr (Some (WatchedBlock b))
      | Inl _ \<Rightarrow> bindE (queryHeight B h) (\<lambda>n. chainBlock B n fullTx))"

definition headerAt :: "'b backend \<Rightarrow> int \<Rightarrow> rpc_error + eth_header" where
  "headerAt B height =
     bindE (clientResult (cl_Block (bk_client B) height)) (\<lambda>block.
     bindE (queryBloom (bk_state B) (th_Height (tb_Header block))) (\<lambda>bl.
       Inr ((EthHeaderFromTendermint (bk_rpc B) (tb_Header block))\<lparr>eh_Bloom := bl\<rparr>)))"

definition HeaderByNumber :: "'b backend \<Rightarrow> int \<Rightarrow> rpc_error + eth_header" where
  "HeaderByNumber B blockNum = bindE (resolveHeight B blockNum) (headerAt B)"

definition HeaderByHash :: "'b backend \<Rightarrow> hash \<Rightarrow> rpc_error + eth_header" where
  "HeaderByHash B h = bindE (queryHeight B h) (headerAt B)"

subsection \<open>Logs\<close>

definition GetTransactionLogs :: "'b backend \<Rightarrow> hash \<Rightarrow> rpc_error + eth_log list" where
  "GetTransactionLogs B txHash =
     bindE (clientResult (cl_TxData (bk_client B) (HashBytes (bk_evm B) txHash))) (\<lambda>data.
     bindE (DecodeResultData (bk_rpc B) data) (\<lambda>execRes. Inr (rd_Logs execRes)))"

text \<open>Transactions without a result or with other data are skipped.\<close>

definition txLogs :: "'b backend \<Rightarrow> bytes \<Rightarrow> eth_log list list" where
  "txLogs B tx =
     (case cl_TxData (bk_client B) (TmTxHash (bk_rpc B) tx) of
        None \<Rightarrow> []
      | Some data \<Rightarrow> (case DecodeResultData (bk_rpc B) data of Inl _ \<Rightarrow> [] | Inr execRes \<Rightarrow> [rd_Logs execRes]))"

definition bGetLogs :: "'b backend \<Rightarrow> hash \<Rightarrow> rpc_error + eth_log list list" where
  "bGetLogs B h =
     bindE (queryHeight B h) (\<lambda>n.
     bindE (clientResult (cl_Block (bk_client B) n)) (\<lambda>block. Inr (concat (map (txLogs B) (tb_Txs block)))))"

subsection \<open>The mempool\<close>

definition pendingTransaction :: "'b backend \<Rightarrow> bytes \<Rightarrow> MsgEthereumTx \<Rightarrow> rpc_error + RpcTransaction" where
  "pendingTransaction B tx ethTx =
     NewTransaction (bk_rpc B) ethTx (BytesToHash (bk_evm B) (TmTxHash (bk_rpc B) tx)) 0 0 0"

definition pendingStep :: "'b backend \<Rightarrow> RpcTransaction option list \<Rightarrow> bytes \<Rightarrow> rpc_error + RpcTransaction option list" where
  "pendingStep B transactions tx =
     (case RawTxToEthTx (bk_rpc B) tx of
        Inl _ \<Rightarrow> Inr transactions
      | Inr ethTx \<Rightarrow> bindE (pendingTransaction B tx ethTx) (\<lambda>rpcTx. Inr (transactions @ [Some rpcTx])))"

definition PendingTransactions :: "'b backend \<Rightarrow> rpc_error + RpcTransaction option list" where
  "PendingTransactions B =
     bindE (clientResult (cl_UnconfirmedTxs (bk_client B))) (\<lambda>(txs, _). foldE (pendingStep B) [] txs)"

definition PendingTransactionCnt :: "'b backend \<Rightarrow> rpc_error + int" where
  "PendingTransactionCnt B = bindE (clientResult (cl_UnconfirmedTxs (bk_client B))) (\<lambda>(_, count). Inr count)"

definition UserPendingTransactionsCnt :: "'b backend \<Rightarrow> string \<Rightarrow> rpc_error + int" where
  "UserPendingTransactionsCnt B a = clientResult (cl_UserNumUnconfirmedTxs (bk_client B) a)"

text \<open>The slice is made with the length of the transactions, all nil, and then appended to.\<close>

definition UserPendingTransactions :: "'b backend \<Rightarrow> string \<Rightarrow> int \<Rightarrow> rpc_error + RpcTransaction option list" where
  "UserPendingTransactions B a limit =
     bindE (clientResult (cl_UserUnconfirmedTxs (bk_client B) a limit)) (\<lambda>txs.
       foldE (pendingStep B) (replicate (length txs) None) txs)"

definition PendingTransactionsByHash :: "'b backend \<Rightarrow> hash \<Rightarrow> rpc_error + RpcTransaction" where
  "PendingTransactionsByHash B target =
     bindE (clientResult (cl_GetUnconfirmedTxByHash (bk_client B) target)) (\<lambda>tx.
     bindE (RawTxToEthTx (bk_rpc B) tx) (pendingTransaction B tx))"

subsection \<open>Bloom bits\<close>

definition BloomStatus :: "'b backend \<Rightarrow> uint64 \<times> uint64" where
  "BloomStatus B = (BloomBitsBlocks, StoredSection (bk_indexer B))"

text \<open>A retrieval asks for one bit over some sections. An error at any section is the error of the task; its bitset stays
  nil.\<close>

definition bloomSection ::
    "'b backend \<Rightarrow> uint64 \<Rightarrow> (bytes, bytes) kv \<Rightarrow> nat \<Rightarrow> bool \<times> bytes list \<Rightarrow> uint64 \<Rightarrow> bool \<times> bytes list" where
  "bloomSection B sectionSize db b x section =
     (let (failed, bitsets) = x;
          height = sint ((section + 1) * sectionSize - 1 + word_of_int (bk_start B));
          (failed, h) = (case GetBlockHashByHeight B height of Inl _ \<Rightarrow> (True, 0) | Inr h \<Rightarrow> (failed, h))
      in case Option.bind (ReadBloomBits (bk_evm B) db b section h) (\<lambda>v. DecompressBytes B v (unat (sectionSize div 8))) of
           Some blob \<Rightarrow> (failed, bitsets @ [blob])
         | None \<Rightarrow> (True, bitsets @ [[]]))"

definition bloomTask :: "'b backend \<Rightarrow> uint64 \<Rightarrow> (bytes, bytes) kv \<Rightarrow> nat \<Rightarrow> uint64 list \<Rightarrow> bool \<times> bytes list" where
  "bloomTask B sectionSize db b sections = foldl (bloomSection B sectionSize db b) (False, []) sections"

subsection \<open>Rate limiters\<close>

definition GetRateLimiter :: "'b backend \<Rightarrow> string \<Rightarrow> bool option" where
  "GetRateLimiter B apiName = Option.bind (bk_limiters B) (\<lambda>m. m apiName)"

definition rateLimited :: "'b backend \<Rightarrow> string \<Rightarrow> bool" where
  "rateLimited B apiName \<longleftrightarrow> GetRateLimiter B apiName = Some False"

end
