(* ===== verification/Rpc_Filters.thy ===== *)
theory Rpc_Filters
  imports Rpc_Backend
begin

text \<open>
  Log filters (\<^verbatim>\<open>src/app/rpc/namespaces/eth/filters\<close>): the search for logs by block, address and topics behind
  \<open>eth_getLogs\<close>, which reads the bloom index where there is one and the bloom filter of each block elsewhere, and the
  filters that a client installs and polls.

  \<open>log_env\<close> has go-ethereum's lookup in a bloom filter, the bits it looks at, the matcher over the bloom index, and hashes of
  headers. The matcher gets the size of a section, the clauses, the function that serves the retrievals, and the first
  and last number; it answers with the numbers it sends before its channel is closed and whether the session ended in an
  error, or with \<open>None\<close> when it cannot be started. Requests are taken not to be cancelled while they run.
\<close>

record log_env =
  BloomLookup :: "bloom \<Rightarrow> bytes \<Rightarrow> bool"
  BloomBits :: "bytes \<Rightarrow> nat list"
  MatcherRun :: "uint64 \<Rightarrow> bytes list list \<Rightarrow> (nat \<Rightarrow> uint64 list \<Rightarrow> bool \<times> bytes list) \<Rightarrow> uint64 \<Rightarrow> uint64 \<Rightarrow> (uint64 list \<times> bool) option"
  HeaderHash :: "eth_header \<Rightarrow> hash"
  LogsHeightSpan :: int

record FilterCriteria =
  fc_BlockHash :: "hash option"
  fc_FromBlock :: "int option"
  fc_ToBlock :: "int option"
  fc_Addresses :: "address list"
  fc_Topics :: "hash list list"

subsection \<open>Matching logs\<close>

fun includesAddr :: "address list \<Rightarrow> address \<Rightarrow> bool" where
  "includesAddr [] a \<longleftrightarrow> False"
| "includesAddr (addr # rest) a \<longleftrightarrow> addr = a \<or> includesAddr rest a"

fun anyTopic :: "hash \<Rightarrow> hash list \<Rightarrow> bool" where
  "anyTopic t [] \<longleftrightarrow> False"
| "anyTopic t (topic # sub) \<longleftrightarrow> t = topic \<or> anyTopic t sub"

text \<open>The topics of the log and the rules run in step; the log has at least as many topics as there are rules.\<close>

fun topicsMatch :: "hash list \<Rightarrow> hash list list \<Rightarrow> bool" where
  "topicsMatch ts [] \<longleftrightarrow> True"
| "topicsMatch [] (sub # topics) \<longleftrightarrow> False"
| "topicsMatch (t # ts) (sub # topics) \<longleftrightarrow> (length sub = 0 \<or> anyTopic t sub) \<and> topicsMatch ts topics"

definition logPasses :: "int option \<Rightarrow> int option \<Rightarrow> address list \<Rightarrow> hash list list \<Rightarrow> eth_log \<Rightarrow> bool" where
  "logPasses fromBlock toBlock addrs topics l \<longleftrightarrow>
     \<not> (case fromBlock of None \<Rightarrow> False | Some n \<Rightarrow> 0 \<le> bigInt64 n \<and> log_BlockNumber l < bigUint64 n) \<and>
     \<not> (case toBlock of None \<Rightarrow> False | Some n \<Rightarrow> 0 \<le> bigInt64 n \<and> bigUint64 n < log_BlockNumber l) \<and>
     \<not> (0 < length addrs \<and> \<not> includesAddr addrs (log_Address l)) \<and>
     \<not> (length (log_Topics l) < length topics) \<and>
     topicsMatch (log_Topics l) topics"

fun FilterLogs :: "eth_log list \<Rightarrow> int option \<Rightarrow> int option \<Rightarrow> address list \<Rightarrow> hash list list \<Rightarrow> eth_log list" where
  "FilterLogs [] fromBlock toBlock addrs topics = []"
| "FilterLogs (l # ls) fromBlock toBlock addrs topics =
     (if logPasses fromBlock toBlock addrs topics l then l # FilterLogs ls fromBlock toBlock addrs topics
      else FilterLogs ls fromBlock toBlock addrs topics)"

fun anyLookup :: "log_env \<Rightarrow> bloom \<Rightarrow> bytes list \<Rightarrow> bool" where
  "anyLookup L b [] \<longleftrightarrow> False"
| "anyLookup L b (x # xs) \<longleftrightarrow> BloomLookup L b x \<or> anyLookup L b xs"

text \<open>Every list of topics overwrites the verdict of the one before.\<close>

definition bloomFilter :: "evm_env \<Rightarrow> log_env \<Rightarrow> bloom \<Rightarrow> address list \<Rightarrow> hash list list \<Rightarrow> bool" where
  "bloomFilter E L b addrs topics =
     (if 0 < length addrs \<and> \<not> anyLookup L b (map (AddressBytes E) addrs) then False
      else foldl (\<lambda>included sub. length sub = 0 \<or> anyLookup L b (map (HashBytes E) sub)) True topics)"

subsection \<open>The search\<close>

record log_filter =
  lf_criteria :: FilterCriteria
  lf_clauses :: "bytes list list" \<comment> \<open>of the matcher\<close>

definition newBlockFilter :: "FilterCriteria \<Rightarrow> log_filter" where
  "newBlockFilter crit = \<lparr>lf_criteria = crit, lf_clauses = []\<rparr>"

definition NewRangeFilter :: "'b backend \<Rightarrow> int \<Rightarrow> int \<Rightarrow> address list \<Rightarrow> hash list list \<Rightarrow> log_filter" where
  "NewRangeFilter B begin end addrs topics =
     \<lparr>lf_criteria = \<lparr>fc_BlockHash = None, fc_FromBlock = Some begin, fc_ToBlock = Some end, fc_Addresses = addrs, fc_Topics = topics\<rparr>,
      lf_clauses = (if 0 < length addrs then [map (AddressBytes (bk_evm B)) addrs] else []) @ map (map (HashBytes (bk_evm B))) topics\<rparr>"

definition blockLogs :: "'b backend \<Rightarrow> log_env \<Rightarrow> FilterCriteria \<Rightarrow> eth_header \<Rightarrow> hash \<Rightarrow> rpc_error + eth_log list" where
  "blockLogs B L crit header h =
     (if \<not> bloomFilter (bk_evm B) L (eh_Bloom header) (fc_Addresses crit) (fc_Topics crit) then Inr []
      else bindE (bGetLogs B h) (\<lambda>logsList. Inr (FilterLogs (concat logsList) None None (fc_Addresses crit) (fc_Topics crit))))"

text \<open>The package has a second copy of the function.\<close>

definition filterLogs :: "eth_log list \<Rightarrow> int option \<Rightarrow> int option \<Rightarrow> address list \<Rightarrow> hash list list \<Rightarrow> eth_log list" where
  "filterLogs ls fromBlock toBlock addrs topics = FilterLogs ls fromBlock toBlock addrs topics"

definition checkMatches :: "'b backend \<Rightarrow> FilterCriteria \<Rightarrow> hash \<Rightarrow> rpc_error + eth_log list" where
  "checkMatches B crit h =
     bindE (bGetLogs B h) (\<lambda>logsList. Inr (filterLogs (concat logsList) None None (fc_Addresses crit) (fc_Topics crit)))"

text \<open>A block suggested by the matcher: the error of the hash is dropped.\<close>

definition suggestedBlock :: "'b backend \<Rightarrow> FilterCriteria \<Rightarrow> eth_log list \<Rightarrow> uint64 \<Rightarrow> rpc_error + eth_log list" where
  "suggestedBlock B crit ls number =
     (let number = number + word_of_int (bk_start B);
          h = (case GetBlockHashByHeight B (sint number) of Inl _ \<Rightarrow> 0 | Inr h \<Rightarrow> h)
      in bindE (checkMatches B crit h) (\<lambda>found. Inr (ls @ found)))"

text \<open>The logs and the new start of the filter.\<close>

definition indexedLogs ::
    "'b backend \<Rightarrow> log_env \<Rightarrow> (bytes, bytes) kv \<Rightarrow> log_filter \<Rightarrow> int \<Rightarrow> uint64 \<Rightarrow> rpc_error + eth_log list \<times> int" where
  "indexedLogs B L db f fromBlock end =
     (let size = fst (BloomStatus B)
      in case MatcherRun L size (lf_clauses f) (bloomTask B size db) (bigUint64 fromBlock) end of
           None \<Rightarrow> Inl ErrMatcher
         | Some (numbers, failed) \<Rightarrow>
             bindE (foldE (suggestedBlock B (lf_criteria f)) [] numbers) (\<lambda>ls.
               if failed then Inl ErrBitsets else Inr (ls, sint end + 1)))"

definition unindexedStep :: "'b backend \<Rightarrow> log_env \<Rightarrow> FilterCriteria \<Rightarrow> eth_log list \<Rightarrow> int \<Rightarrow> rpc_error + eth_log list" where
  "unindexedStep B L crit ls n =
     bindE (HeaderByNumber B n) (\<lambda>header.
     bindE (GetBlockHashByHeight B n) (\<lambda>h.
     bindE (blockLogs B L crit header h) (\<lambda>found. Inr (ls @ found))))"

definition unindexedLogs :: "'b backend \<Rightarrow> log_env \<Rightarrow> FilterCriteria \<Rightarrow> int \<Rightarrow> uint64 \<Rightarrow> rpc_error + eth_log list" where
  "unindexedLogs B L crit fromBlock end = foldE (unindexedStep B L crit) [] [bigInt64 fromBlock..sint end]"

definition rangeLogs :: "'b backend \<Rightarrow> log_env \<Rightarrow> (bytes, bytes) kv \<Rightarrow> log_filter \<Rightarrow> int \<Rightarrow> int \<Rightarrow> rpc_error + eth_log list" where
  "rangeLogs B L db f fromBlock toBlock =
     (let begin = bigUint64 fromBlock; end = bigUint64 toBlock; (size, sections) = BloomStatus B;
          start = word_of_int (bk_start B); indexed = sections * size + start
      in if begin < indexed then
           bindE (indexedLogs B L db f (fromBlock - bk_start B) (if end < indexed then end - start else indexed - 1 - start)) (\<lambda>(ls, from').
           bindE (unindexedLogs B L (lf_criteria f) (from' + bk_start B) end) (\<lambda>rest. Inr (ls @ rest)))
         else unindexedLogs B L (lf_criteria f) fromBlock end)"

text \<open>A block hash is compared with a fresh pointer, so that the zero hash is looked up too.\<close>

definition latestIfUnset :: "int \<Rightarrow> int \<Rightarrow> int" where
  "latestIfUnset head n = (if bigInt64 n = - 1 then head else n)"

definition filterRun :: "'b backend \<Rightarrow> log_env \<Rightarrow> (bytes, bytes) kv \<Rightarrow> log_filter \<Rightarrow> rpc_error + eth_log list" where
  "filterRun B L db f =
     (case fc_BlockHash (lf_criteria f) of
        Some h \<Rightarrow> bindE (HeaderByHash B h) (\<lambda>header. blockLogs B L (lf_criteria f) header h)
      | None \<Rightarrow>
          bindE (HeaderByNumber B LatestBlockNumber) (\<lambda>header.
            case (fc_FromBlock (lf_criteria f), fc_ToBlock (lf_criteria f)) of
              (Some f0, Some t0) \<Rightarrow>
                let head = bigInt64 (eh_Number header); fromBlock = latestIfUnset head f0; toBlock = latestIfUnset head t0
                in if bigInt64 fromBlock \<le> bk_start B \<or> bigInt64 toBlock \<le> bk_start B then Inl (ErrHeightRange (bk_start B))
                   else if LogsHeightSpan L = 0 then Inl ErrLogsDisabled
                   else if 0 < LogsHeightSpan L \<and> LogsHeightSpan L < bigInt64 toBlock - bigInt64 fromBlock then Inl (ErrHeightSpan (LogsHeightSpan L))
                   else rangeLogs B L db f fromBlock toBlock
            | _ \<Rightarrow> Inl PanicNilBlock))"

text \<open>\<open>LatestBlockNumber\<close> of go-ethereum.\<close>

definition rpcLatest :: int where
  "rpcLatest = - 1"

definition rpcPending :: int where
  "rpcPending = - 2"

definition criteriaFilter :: "'b backend \<Rightarrow> FilterCriteria \<Rightarrow> log_filter" where
  "criteriaFilter B crit =
     (if fc_BlockHash crit \<noteq> None then newBlockFilter crit
      else NewRangeFilter B (case fc_FromBlock crit of None \<Rightarrow> rpcLatest | Some n \<Rightarrow> bigInt64 n)
             (case fc_ToBlock crit of None \<Rightarrow> rpcLatest | Some n \<Rightarrow> bigInt64 n) (fc_Addresses crit) (fc_Topics crit))"

definition apiGetLogs :: "'b backend \<Rightarrow> log_env \<Rightarrow> (bytes, bytes) kv \<Rightarrow> FilterCriteria \<Rightarrow> rpc_error + eth_log list" where
  "apiGetLogs B L db crit =
     (if rateLimited B ''eth_getLogs'' then Inl ErrServerBusy else filterRun B L db (criteriaFilter B crit))"

end
