(* ===== verification/Rpc_Filters_Props.thy ===== *)
theory Rpc_Filters_Props
  imports Rpc_Filters Evm_Watcher_Props
begin

text \<open>
  What \<open>eth_getLogs\<close> answers: the bloom filters lose no log, and the search over the indexed and the other part of the range
  gives the matching logs of every block, in order and once.
\<close>

subsection \<open>Which logs match\<close>

text \<open>The rule of the interface: a list of topics restricts the topic at its position, an empty one restricts nothing.\<close>

definition logMatches :: "address list \<Rightarrow> hash list list \<Rightarrow> eth_log \<Rightarrow> bool" where
  "logMatches addrs topics l \<longleftrightarrow> (addrs = [] \<or> log_Address l \<in> set addrs) \<and> length topics \<le> length (log_Topics l) \<and>
     (\<forall>i < length topics. topics ! i = [] \<or> log_Topics l ! i \<in> set (topics ! i))"

lemma includesAddr_iff [simp]: "includesAddr addrs a \<longleftrightarrow> a \<in> set addrs"
  by (induction addrs) auto

lemma anyTopic_iff [simp]: "anyTopic t sub \<longleftrightarrow> t \<in> set sub"
  by (induction sub) auto

lemma topicsMatch_iff:
  "topicsMatch ts topics \<longleftrightarrow> length topics \<le> length ts \<and> (\<forall>i < length topics. topics ! i = [] \<or> ts ! i \<in> set (topics ! i))"
  by (induction ts topics rule: topicsMatch.induct) (auto simp: less_Suc_eq_0_disj)

lemma logPasses_iff:
  "logPasses fromBlock toBlock addrs topics l \<longleftrightarrow> logMatches addrs topics l \<and>
     (\<forall>n. fromBlock = Some n \<longrightarrow> bigInt64 n < 0 \<or> bigUint64 n \<le> log_BlockNumber l) \<and>
     (\<forall>n. toBlock = Some n \<longrightarrow> bigInt64 n < 0 \<or> log_BlockNumber l \<le> bigUint64 n)"
  by (auto simp: logPasses_def logMatches_def topicsMatch_iff not_less not_le split: option.splits)

lemma FilterLogs_filter: "FilterLogs ls fromBlock toBlock addrs topics = filter (logPasses fromBlock toBlock addrs topics) ls"
  by (induction ls) auto

lemma FilterLogs_matches: "FilterLogs ls None None addrs topics = filter (logMatches addrs topics) ls"
  by (simp add: FilterLogs_filter logPasses_iff cong: filter_cong)

subsection \<open>Bloom filters lose nothing\<close>

text \<open>The documented behaviour of bloom filters: a lookup tests the bits of a value.\<close>

definition bloom_law :: "log_env \<Rightarrow> bool" where
  "bloom_law L \<longleftrightarrow> (\<forall>b x. BloomLookup L b x \<longleftrightarrow> (\<forall>i \<in> set (BloomBits L x). bit b i)) \<and>
     (\<forall>x. \<forall>i \<in> set (BloomBits L x). i < BloomBitLength)"

definition bloom_has :: "log_env \<Rightarrow> bloom \<Rightarrow> bytes \<Rightarrow> bool" where
  "bloom_has L b x \<longleftrightarrow> (\<forall>i \<in> set (BloomBits L x). bit b i)"

text \<open>A bloom filter that has the address and all topics of a log.\<close>

definition bloom_covers :: "evm_env \<Rightarrow> log_env \<Rightarrow> bloom \<Rightarrow> eth_log \<Rightarrow> bool" where
  "bloom_covers E L b l \<longleftrightarrow> bloom_has L b (AddressBytes E (log_Address l)) \<and> (\<forall>t \<in> set (log_Topics l). bloom_has L b (HashBytes E t))"

lemma anyLookup_iff: "bloom_law L \<Longrightarrow> anyLookup L b xs \<longleftrightarrow> (\<exists>x \<in> set xs. bloom_has L b x)"
  by (induction xs) (auto simp: bloom_law_def bloom_has_def)

text \<open>The clauses of a matching log are satisfied.\<close>

definition clauses :: "evm_env \<Rightarrow> address list \<Rightarrow> hash list list \<Rightarrow> bytes list list" where
  "clauses E addrs topics = (if 0 < length addrs then [map (AddressBytes E) addrs] else []) @ map (map (HashBytes E)) topics"

lemma covered_clauses:
  assumes cov: "bloom_covers E L b l" and m: "logMatches addrs topics l" and c: "c \<in> set (clauses E addrs topics)" and ne: "c \<noteq> []"
  shows "\<exists>x \<in> set c. bloom_has L b x"
proof -
  consider "addrs \<noteq> []" "c = map (AddressBytes E) addrs" | sub where "sub \<in> set topics" "c = map (HashBytes E) sub"
    using c by (auto simp: clauses_def split: if_splits)
  then show ?thesis
  proof cases
    case 1
    then have "log_Address l \<in> set addrs" using m by (simp add: logMatches_def)
    then show ?thesis using 1 cov by (auto simp: bloom_covers_def)
  next
    case 2
    then obtain i where i: "i < length topics" "topics ! i = sub" by (auto simp: in_set_conv_nth)
    then have "log_Topics l ! i \<in> set sub" "log_Topics l ! i \<in> set (log_Topics l)"
      using m 2 ne by (auto simp: logMatches_def)
    then show ?thesis using 2 cov by (auto simp: bloom_covers_def)
  qed
qed

lemma foldl_last: "foldl (\<lambda>_. f) a xs = (if xs = [] then a else f (last xs))"
  by (induction xs arbitrary: a) auto

lemma bloomFilter_complete:
  assumes L: "bloom_law L" and cov: "bloom_covers E L b l" and m: "logMatches addrs topics l"
  shows "bloomFilter E L b addrs topics"
proof -
  have a: "addrs = [] \<or> anyLookup L b (map (AddressBytes E) addrs)"
    using covered_clauses [OF cov m, of "map (AddressBytes E) addrs"] L by (auto simp: anyLookup_iff clauses_def)
  have t: "sub = [] \<or> anyLookup L b (map (HashBytes E) sub)" if "sub \<in> set topics" for sub
    using covered_clauses [OF cov m, of "map (HashBytes E) sub"] L that by (auto simp: anyLookup_iff clauses_def)
  show ?thesis using a t by (auto simp: bloomFilter_def foldl_last)
qed

subsection \<open>The view of the chain\<close>

text \<open>The text of a hash reads back as its bytes.\<close>

definition hash_hex :: "gen_env \<Rightarrow> evm_env \<Rightarrow> bool" where
  "hash_hex G E \<longleftrightarrow> (\<forall>h. FromHex G (HashHex G h) = HashBytes E h)"

definition logsAt :: "'b backend \<Rightarrow> int \<Rightarrow> eth_log list" where
  "logsAt B n = (case cl_Block (bk_client B) n of None \<Rightarrow> [] | Some block \<Rightarrow> concat (concat (map (txLogs B) (tb_Txs block))))"

text \<open>The client has the block at a height, the state has the hash of that height and the height of that hash, and the bloom
  filter in the state covers the logs of the block.\<close>

definition block_known :: "'b backend \<Rightarrow> log_env \<Rightarrow> int \<Rightarrow> bool" where
  "block_known B L n \<longleftrightarrow> (\<exists>block. cl_Block (bk_client B) n = Some block \<and> th_Height (tb_Header block) = n) \<and>
     kGetBlockHash (bk_state B) (HashBytes (bk_evm B) (kGetHeightHash (bk_state B) (word_of_int n))) = Some n \<and>
     (\<forall>l \<in> set (logsAt B n). bloom_covers (bk_evm B) L (GetBlockBloom (bk_state B) n) l)"

lemma sint_small: "- (2 ^ 63) \<le> n \<Longrightarrow> n < 2 ^ 63 \<Longrightarrow> sint (word_of_int n :: 64 word) = n"
  by (simp add: sint_sbintrunc' signed_take_bit_int_eq_self)

lemma unat_small: "0 \<le> n \<Longrightarrow> n < 2 ^ 64 \<Longrightarrow> unat (word_of_int n :: 64 word) = nat n"
  by (simp add: unat_eq_nat_uint uint_word_of_int)

text \<open>What the search relies on of the environment.\<close>

definition log_search :: "'b backend \<Rightarrow> log_env \<Rightarrow> bool" where
  "log_search B L \<longleftrightarrow> evm_env_ok (bk_evm B) \<and> hash_hex (rp_gen (bk_rpc B)) (bk_evm B) \<and> bloom_law L"

lemma log_searchD:
  assumes "log_search B L"
  shows "evm_env_ok (bk_evm B)" and "hash_hex (rp_gen (bk_rpc B)) (bk_evm B)" and "bloom_law L"
  using assms by (simp_all add: log_search_def)

abbreviation hashAt :: "'b backend \<Rightarrow> int \<Rightarrow> hash" where
  "hashAt B n \<equiv> kGetHeightHash (bk_state B) (word_of_int n)"

lemma GetBlockHashByHeight_eq:
  "log_search B L \<Longrightarrow> - (2 ^ 63) \<le> n \<Longrightarrow> n < 2 ^ 63 \<Longrightarrow> GetBlockHashByHeight B n = Inr (hashAt B n)"
  by (simp add: GetBlockHashByHeight_def clientQuery_def queryHeightToHash_def parseInt64_bigText evm_env_okD(3) log_search_def)

lemma queryHeight_known: "log_search B L \<Longrightarrow> block_known B L n \<Longrightarrow> queryHeight B (hashAt B n) = Inr n"
  by (simp add: queryHeight_def clientQuery_def queryHashToHeight_def block_known_def hash_hex_def log_search_def)

lemma bGetLogs_known: "log_search B L \<Longrightarrow> block_known B L n \<Longrightarrow> \<exists>lss. bGetLogs B (hashAt B n) = Inr lss \<and> concat lss = logsAt B n"
  using queryHeight_known [of B L n] by (auto simp: bGetLogs_def clientResult_def block_known_def logsAt_def)

lemma HeaderByNumber_known:
  assumes "block_known B L n" and "0 < n" and "n < 2 ^ 63"
  shows "\<exists>h. HeaderByNumber B n = Inr h \<and> eh_Bloom h = GetBlockBloom (bk_state B) n"
  using assms by (auto simp: HeaderByNumber_def resolveHeight_def headerAt_def clientResult_def block_known_def queryBloom_eq EthHeaderFromTendermint_def)

text \<open>The answer for one block, whichever way it is found.\<close>

definition answer :: "'b backend \<Rightarrow> FilterCriteria \<Rightarrow> int \<Rightarrow> eth_log list" where
  "answer B crit n = filter (logMatches (fc_Addresses crit) (fc_Topics crit)) (logsAt B n)"

lemma checkMatches_known: "log_search B L \<Longrightarrow> block_known B L n \<Longrightarrow> checkMatches B crit (hashAt B n) = Inr (answer B crit n)"
  using bGetLogs_known [of B L n] by (auto simp: checkMatches_def filterLogs_def FilterLogs_matches answer_def)

lemma answer_covered:
  assumes "block_known B L n" and "answer B crit n \<noteq> []"
  shows "\<exists>l. logMatches (fc_Addresses crit) (fc_Topics crit) l \<and> bloom_covers (bk_evm B) L (GetBlockBloom (bk_state B) n) l"
  using assms by (auto simp: answer_def filter_empty_conv block_known_def)

lemma blockLogs_known:
  assumes S: "log_search B L" and k: "block_known B L n" and h: "eh_Bloom header = GetBlockBloom (bk_state B) n"
  shows "blockLogs B L crit header (hashAt B n) = Inr (answer B crit n)"
proof (cases "bloomFilter (bk_evm B) L (eh_Bloom header) (fc_Addresses crit) (fc_Topics crit)")
  case True
  then show ?thesis using checkMatches_known [OF S k, of crit] by (simp add: blockLogs_def checkMatches_def filterLogs_def)
next
  case False
  then have "answer B crit n = []"
    using answer_covered [OF k, of crit] bloomFilter_complete [OF log_searchD(3) [OF S]] unfolding h by blast
  with False show ?thesis by (simp add: blockLogs_def)
qed

lemma unindexedStep_known:
  assumes "log_search B L" and "block_known B L n" and "0 < n" and "n < 2 ^ 63"
  shows "unindexedStep B L crit ls n = Inr (ls @ answer B crit n)"
  using HeaderByNumber_known [OF assms(2-4)] GetBlockHashByHeight_eq [OF assms(1), of n] blockLogs_known [OF assms(1,2)] assms(3,4)
  by (auto simp: unindexedStep_def)

lemma foldE_answers:
  assumes "\<And>x ls. x \<in> set xs \<Longrightarrow> f ls x = Inr (ls @ a x)"
  shows "foldE f ls xs = Inr (ls @ concat (map a xs))"
  using assms by (induction xs arbitrary: ls) simp_all

lemma unindexedLogs_known:
  assumes S: "log_search B L" and "\<And>n. from \<le> n \<Longrightarrow> n \<le> to \<Longrightarrow> block_known B L n"
    and r: "0 < from" "from < 2 ^ 63" "0 \<le> to" "to < 2 ^ 63"
  shows "unindexedLogs B L crit from (word_of_int to) = Inr (concat (map (answer B crit) [from..to]))"
proof -
  have "bigInt64 from = from" "sint (word_of_int to :: 64 word) = to" using r by (simp_all add: bigInt64_def sint_small)
  moreover have "foldE (unindexedStep B L crit) [] [from..to] = Inr ([] @ concat (map (answer B crit) [from..to]))"
    by (rule foldE_answers) (use assms unindexedStep_known [OF S] in auto)
  ultimately show ?thesis by (simp add: unindexedLogs_def)
qed

subsection \<open>The indexed part\<close>

definition vectorBit :: "bytes \<Rightarrow> nat \<Rightarrow> bool" where
  "vectorBit v j = bit (v ! (j div 8)) (7 - j mod 8)"

text \<open>The documented behaviour of the matcher: where all retrievals it makes in its range are served, it sends the numbers for
  which every clause that is not empty has a value all of whose bits are set, in order.\<close>

definition matcher_law :: "log_env \<Rightarrow> bool" where
  "matcher_law L \<longleftrightarrow> (\<forall>size cs serve first final vec. 0 < size \<longrightarrow> 8 dvd unat size \<longrightarrow>
     (\<forall>i < BloomBitLength. \<forall>ss. (\<forall>s \<in> set ss. first div size \<le> s \<and> s \<le> final div size) \<longrightarrow> serve i ss = (False, map (vec i) ss)) \<longrightarrow>
     MatcherRun L size cs serve first final =
       Some (filter (\<lambda>n. \<forall>c \<in> set cs. c = [] \<or> (\<exists>x \<in> set c. \<forall>i \<in> set (BloomBits L x). vectorBit (vec i (n div size)) (unat (n mod size))))
         (map word_of_nat [unat first..<Suc (unat final)]), False))"

lemma matcher_lawD:
  assumes "matcher_law L" and "0 < N" and "8 dvd unat N"
    and "\<And>i ss. i < BloomBitLength \<Longrightarrow> \<forall>s \<in> set ss. first div N \<le> s \<and> s \<le> final div N \<Longrightarrow> serve i ss = (False, map (vec i) ss)"
  shows "MatcherRun L N cs serve first final =
    Some (filter (\<lambda>n. \<forall>c \<in> set cs. c = [] \<or> (\<exists>x \<in> set c. \<forall>i \<in> set (BloomBits L x). vectorBit (vec i (n div N)) (unat (n mod N))))
      (map word_of_nat [unat first..<Suc (unat final)]), False)"
  using assms unfolding matcher_law_def by blast

definition inflates :: "'b backend \<Rightarrow> 'b gen_ops \<Rightarrow> bool" where
  "inflates B G \<longleftrightarrow> (\<forall>v. DecompressBytes B (CompressBytes G v) (length v) = Some v)"

lemma upto_upt: "0 \<le> a \<Longrightarrow> 0 \<le> b \<Longrightarrow> [a..b] = map int [nat a..<Suc (nat b)]"
proof (induction "nat (b + 1 - a)" arbitrary: a)
  case 0
  then show ?case by simp
next
  case (Suc n)
  then have ab: "a \<le> b" by simp
  then have "[a..b] = a # [a + 1..b]" by (simp add: upto_rec1)
  also have "[a + 1..b] = map int [nat (a + 1)..<Suc (nat b)]" using Suc by simp
  also have "a # \<dots> = map int [nat a..<Suc (nat b)]" using Suc.prems ab by (simp add: upt_conv_Cons nat_add_distrib del: upt_Suc)
  finally show ?case .
qed

lemma upto_shift: "map (\<lambda>i. i + k) [a..b] = [a + k..b + k]" for a b k :: int
proof (induction "nat (b + 1 - a)" arbitrary: a)
  case 0
  then show ?case by simp
next
  case (Suc n)
  then have ab: "a \<le> b" by simp
  moreover have "map (\<lambda>i. i + k) [a + 1..b] = [a + 1 + k..b + k]" using Suc by simp
  ultimately show ?case using upto_rec1 [of a b] upto_rec1 [of "a + k" "b + k"] by (simp add: algebra_simps)
qed

lemma upt_words:
  assumes "0 \<le> a" and "a < 2 ^ 63" and "0 \<le> b" and "b < 2 ^ 63"
  shows "map word_of_nat [unat (word_of_int a :: uint64)..<Suc (unat (word_of_int b :: uint64))] = map (word_of_int :: int \<Rightarrow> uint64) [a..b]"
  using assms by (simp add: unat_small upto_upt comp_def del: upt_Suc)

lemma concat_filter: "(\<And>x. x \<in> set xs \<Longrightarrow> \<not> P x \<Longrightarrow> f x = []) \<Longrightarrow> concat (map f (filter P xs)) = concat (map f xs)"
  by (induction xs) auto

definition indexed_search :: "'b backend \<Rightarrow> log_env \<Rightarrow> 'b gen_ops \<Rightarrow> 'b Indexer \<Rightarrow> bool" where
  "indexed_search B L G ix \<longleftrightarrow> log_search B L \<and> bk_indexer B = Some ix \<and> matcher_law L \<and> inflates B G \<and>
     index_ok (bk_evm B) G (bk_state B) (word_of_int (bk_start B)) ix \<and>
     0 \<le> bk_start B \<and> int (unat (ix_storedSections ix)) * 4096 + bk_start B < 2 ^ 63"

lemma indexed_searchD:
  assumes "indexed_search B L G ix"
  shows "log_search B L" and "bk_indexer B = Some ix" and "matcher_law L" and "inflates B G"
    and "index_ok (bk_evm B) G (bk_state B) (word_of_int (bk_start B)) ix"
    and "0 \<le> bk_start B" and "int (unat (ix_storedSections ix)) * 4096 + bk_start B < 2 ^ 63"
  using assms unfolding indexed_search_def by blast+

definition sectionEnd :: "'b backend \<Rightarrow> uint64 \<Rightarrow> uint64" where
  "sectionEnd B s = sectionBlock (word_of_int (bk_start B)) s (perSection - 1)"

definition vec :: "'b backend \<Rightarrow> 'b Indexer \<Rightarrow> nat \<Rightarrow> uint64 \<Rightarrow> bytes" where
  "vec B ix i s = the (Option.bind (ReadBloomBits (bk_evm B) (dbOf ix) i s (kGetHeightHash (bk_state B) (sectionEnd B s)))
     (\<lambda>v. DecompressBytes B v (perSection div 8)))"

lemma indexed_vec:
  assumes S: "indexed_search B L G ix" and s: "s < ix_storedSections ix" and i: "i < BloomBitLength"
  shows "Option.bind (ReadBloomBits (bk_evm B) (dbOf ix) i s (kGetHeightHash (bk_state B) (sectionEnd B s)))
       (\<lambda>v. DecompressBytes B v (perSection div 8)) = Some (vec B ix i s)" (is "?read = _")
    and "j < perSection \<Longrightarrow> vectorBit (vec B ix i s) j =
       bit (blockBloom (bk_state B) (word_of_int (bk_start B)) (sectionBlock (word_of_int (bk_start B)) s j)) i"
proof -
  let ?st = "word_of_int (bk_start B) :: uint64"
  have "odd (s * BloomBitsBlocks + 4095)" by (simp add: BloomBitsBlocks_def)
  then have "s * BloomBitsBlocks + 4095 \<noteq> 0" by (metis dvd_0_right)
  then have ne: "sectionEnd B s \<noteq> ?st" by (auto simp: sectionEnd_def sectionBlock_def perSection_def algebra_simps)
  from indexed_searchD(5) [OF S] s i obtain v where
    v: "ReadBloomBits (bk_evm B) (dbOf ix) i s (blockHash (bk_state B) ?st (sectionEnd B s)) = Some (CompressBytes G v)" "length v = perSection div 8"
    "\<And>j. j < perSection \<Longrightarrow> bit (v ! (j div 8)) (7 - j mod 8) = bit (blockBloom (bk_state B) ?st (sectionBlock ?st s j)) i"
    unfolding index_ok_def section_indexed_def sectionEnd_def by blast
  have "DecompressBytes B (CompressBytes G v) (perSection div 8) = Some v" using indexed_searchD(4) [OF S] v(2) by (metis inflates_def)
  then have r: "?read = Some v" using v(1) ne by (simp add: blockHash_def)
  then have "vec B ix i s = v" by (simp add: vec_def)
  then show "?read = Some (vec B ix i s)" and "j < perSection \<Longrightarrow> vectorBit (vec B ix i s) j = bit (blockBloom (bk_state B) ?st (sectionBlock ?st s j)) i"
    using r v(3) by (simp_all add: vectorBit_def)
qed

lemma bloomSection_served:
  assumes S: "indexed_search B L G ix" and s: "s < ix_storedSections ix" and i: "i < BloomBitLength"
  shows "bloomSection B BloomBitsBlocks (dbOf ix) i (x, bs) s = (x, bs @ [vec B ix i s])"
proof -
  let ?w = "(s + 1) * BloomBitsBlocks - 1 + word_of_int (bk_start B)"
  have w: "sectionEnd B s = ?w"
    by (simp add: sectionEnd_def sectionBlock_def perSection_def BloomBitsBlocks_def algebra_simps)
  have "GetBlockHashByHeight B (sint ?w) = Inr (kGetHeightHash (bk_state B) ?w)"
    using GetBlockHashByHeight_eq [OF indexed_searchD(1) [OF S], of "sint ?w"] sint_greater_eq [of ?w] sint_less [of ?w] by simp
  moreover have "unat (BloomBitsBlocks div 8) = perSection div 8" by (simp add: BloomBitsBlocks_def perSection_def unat_div)
  ultimately show ?thesis using indexed_vec(1) [OF S s i] unfolding w by (simp add: bloomSection_def Let_def)
qed

lemma bloomTask_served:
  assumes S: "indexed_search B L G ix" and ss: "\<And>s. s \<in> set ss \<Longrightarrow> s < ix_storedSections ix" and i: "i < BloomBitLength"
  shows "bloomTask B BloomBitsBlocks (dbOf ix) i ss = (False, map (vec B ix i) ss)"
proof -
  have "foldl (bloomSection B BloomBitsBlocks (dbOf ix) i) (False, bs) ss = (False, bs @ map (vec B ix i) ss)" for bs
    using ss by (induction ss arbitrary: bs) (simp_all add: bloomSection_served [OF S] i)
  then show ?thesis by (simp add: bloomTask_def)
qed

text \<open>The bits of a block of the index are those of its bloom filter.\<close>

lemma vec_bloom:
  assumes S: "indexed_search B L G ix" and r: "0 < r" "r < int (unat (ix_storedSections ix)) * 4096" and i: "i < BloomBitLength"
  shows "vectorBit (vec B ix i (word_of_int r div BloomBitsBlocks)) (unat (word_of_int r mod BloomBitsBlocks :: uint64)) =
     bit (GetBlockBloom (bk_state B) (r + bk_start B)) i"
proof -
  note start = indexed_searchD(6,7) [OF S]
  let ?w = "word_of_int r :: uint64" and ?st = "word_of_int (bk_start B) :: uint64"
  have u: "unat ?w = nat r" using r start by (intro unat_small) simp_all
  let ?s = "?w div BloomBitsBlocks" and ?j = "unat (?w mod BloomBitsBlocks)"
  have "nat r < unat (ix_storedSections ix) * 4096" using r by linarith
  then have "unat ?s < unat (ix_storedSections ix)" by (simp add: unat_div u BloomBitsBlocks_def less_mult_imp_div_less)
  then have s: "?s < ix_storedSections ix" by (simp add: word_less_nat_alt)
  have j: "?j < perSection" by (simp add: unat_mod BloomBitsBlocks_def perSection_def)
  have "sectionBlock ?st ?s ?j = ?w + ?st" using word_mod_div_equality [of ?w BloomBitsBlocks]
    by (simp add: sectionBlock_def algebra_simps)
  also have "\<dots> = word_of_int (r + bk_start B)" by simp
  finally have b: "sectionBlock ?st ?s ?j = word_of_int (r + bk_start B)" .
  have st: "sint (word_of_int (r + bk_start B) :: uint64) = r + bk_start B" "sint ?st = bk_start B"
    using r start by (intro sint_small; linarith)+
  then have "word_of_int (r + bk_start B) \<noteq> ?st" using r(1) by force
  then show ?thesis using indexed_vec(2) [OF S s i j] by (simp only: b blockBloom_def st if_False)
qed

lemma suggestedBlock_known:
  assumes S: "indexed_search B L G ix" and k: "block_known B L (r + bk_start B)" and r: "0 \<le> r" "r + bk_start B < 2 ^ 63"
  shows "suggestedBlock B crit ls (word_of_int r) = Inr (ls @ answer B crit (r + bk_start B))"
proof -
  note start = indexed_searchD(6) [OF S]
  have "sint (word_of_int r + word_of_int (bk_start B) :: uint64) = r + bk_start B"
    using sint_small [of "r + bk_start B"] r start by simp
  then show ?thesis
    using GetBlockHashByHeight_eq [OF indexed_searchD(1) [OF S], of "r + bk_start B"] checkMatches_known [OF indexed_searchD(1) [OF S] k] r start
    by (simp add: suggestedBlock_def Let_def)
qed

text \<open>The numbers that the matcher sends, and that it leaves out no block with an answer.\<close>

definition sends :: "'b backend \<Rightarrow> log_env \<Rightarrow> 'b Indexer \<Rightarrow> bytes list list \<Rightarrow> uint64 \<Rightarrow> bool" where
  "sends B L ix cs n \<longleftrightarrow> (\<forall>c \<in> set cs. c = [] \<or>
     (\<exists>x \<in> set c. \<forall>i \<in> set (BloomBits L x). vectorBit (vec B ix i (n div BloomBitsBlocks)) (unat (n mod BloomBitsBlocks))))"

lemma answer_sent:
  assumes S: "indexed_search B L G ix" and k: "block_known B L (r + bk_start B)" and r: "0 < r" "r < int (unat (ix_storedSections ix)) * 4096"
    and a: "answer B crit (r + bk_start B) \<noteq> []"
  shows "sends B L ix (clauses (bk_evm B) (fc_Addresses crit) (fc_Topics crit)) (word_of_int r)"
proof -
  note vb = vec_bloom [OF S r] and law = log_searchD(3) [OF indexed_searchD(1) [OF S]]
  from answer_covered [OF k a] obtain l where l: "logMatches (fc_Addresses crit) (fc_Topics crit) l"
    "bloom_covers (bk_evm B) L (GetBlockBloom (bk_state B) (r + bk_start B)) l" by blast
  show ?thesis using covered_clauses [OF l(2,1)] law vb unfolding sends_def bloom_has_def bloom_law_def by metis
qed

lemma matcher_sends:
  assumes S: "indexed_search B L G ix" and e: "0 \<le> e" "e < int (unat (ix_storedSections ix)) * 4096" and a: "0 \<le> a" "a < 2 ^ 63"
  shows "MatcherRun L BloomBitsBlocks cs (bloomTask B BloomBitsBlocks (dbOf ix)) (word_of_int a) (word_of_int e) =
     Some (filter (sends B L ix cs) (map word_of_int [a..e]), False)"
proof -
  let ?N = BloomBitsBlocks
  have big: "e < 2 ^ 63" using e indexed_searchD(6,7) [OF S] by linarith
  have u: "unat (word_of_int e :: uint64) = nat e" using e big by (intro unat_small) auto
  have "nat e < unat (ix_storedSections ix) * 4096" using e by linarith
  then have "unat (word_of_int e div ?N) < unat (ix_storedSections ix)" by (simp add: unat_div u BloomBitsBlocks_def less_mult_imp_div_less)
  then have "word_of_int e div ?N < ix_storedSections ix" by (simp add: word_less_nat_alt)
  then have served: "bloomTask B ?N (dbOf ix) i ss = (False, map (vec B ix i) ss)"
    if "i < BloomBitLength" "\<forall>s \<in> set ss. word_of_int a div ?N \<le> s \<and> s \<le> word_of_int e div ?N" for i ss
    using bloomTask_served [OF S] that by (meson order_le_less_trans)
  have N: "0 < ?N" "8 dvd unat ?N" by (simp_all add: BloomBitsBlocks_def)
  have "MatcherRun L ?N cs (bloomTask B ?N (dbOf ix)) (word_of_int a) (word_of_int e) =
      Some (filter (sends B L ix cs) (map word_of_nat [unat (word_of_int a :: uint64)..<Suc (unat (word_of_int e :: uint64))]), False)"
    unfolding sends_def by (rule matcher_lawD [OF indexed_searchD(3) [OF S] N served])
  then show ?thesis unfolding upt_words [OF a e(1) big] .
qed

lemma indexedLogs_known:
  assumes S: "indexed_search B L G ix" and known: "\<And>n. from \<le> n \<Longrightarrow> n \<le> e + bk_start B \<Longrightarrow> block_known B L n"
    and f: "bk_start B < from" "from < 2 ^ 63" and e: "0 \<le> e" "e < int (unat (ix_storedSections ix)) * 4096"
    and cs: "lf_clauses flt = clauses (bk_evm B) (fc_Addresses (lf_criteria flt)) (fc_Topics (lf_criteria flt))"
  shows "indexedLogs B L (dbOf ix) flt (from - bk_start B) (word_of_int e) =
     Inr (concat (map (answer B (lf_criteria flt)) [from..e + bk_start B]), e + 1)"
proof -
  let ?a = "from - bk_start B" and ?crit = "lf_criteria flt" and ?P = "sends B L ix (lf_clauses flt)"
  let ?xs = "map (word_of_int :: int \<Rightarrow> uint64) [?a..e]" and ?A = "\<lambda>x :: uint64. answer B ?crit (sint x + bk_start B)"
  have big: "e < 2 ^ 63" using e indexed_searchD(6,7) [OF S] by linarith
  have x: "\<exists>r. x = word_of_int r \<and> sint x = r \<and> 0 < r \<and> r \<le> e \<and> block_known B L (r + bk_start B)" if "x \<in> set ?xs" for x
  proof -
    from that obtain r where r: "x = word_of_int r" "?a \<le> r" "r \<le> e" by auto
    moreover have "sint x = r" using r f big by (auto intro!: sint_small)
    ultimately show ?thesis using f known [of "r + bk_start B"] by auto
  qed
  have sub: "suggestedBlock B ?crit ls x = Inr (ls @ ?A x)" if "x \<in> set ?xs" for x ls
    using x [OF that] suggestedBlock_known [OF S] e(2) indexed_searchD(7) [OF S] by fastforce
  have none: "?A x = []" if "x \<in> set ?xs" "\<not> ?P x" for x
    using x [OF that(1)] answer_sent [OF S] e(2) that(2) unfolding cs by fastforce
  have "map ?A ?xs = map (answer B ?crit) (map (\<lambda>i. i + bk_start B) [?a..e])" using f big by (auto simp: sint_small)
  then have all: "concat (map ?A ?xs) = concat (map (answer B ?crit) [from..e + bk_start B])" by (simp add: upto_shift)
  have "foldE (suggestedBlock B ?crit) [] (filter ?P ?xs) = Inr ([] @ concat (map ?A (filter ?P ?xs)))"
    by (rule foldE_answers) (use sub in simp)
  also have "\<dots> = Inr (concat (map (answer B ?crit) [from..e + bk_start B]))"
    unfolding all [symmetric] append_Nil by (rule arg_cong [where f = Inr]) (rule concat_filter, rule none)
  finally show ?thesis
    using matcher_sends [OF S e, of ?a "lf_clauses flt"] f indexed_searchD(6) [OF S] e big
    by (simp add: indexedLogs_def BloomStatus_def bigUint64_def sint_small)
qed

subsection \<open>The whole range\<close>

lemma rangeLogs_known:
  assumes S: "indexed_search B L G ix" and known: "\<And>n. from \<le> n \<Longrightarrow> n \<le> to \<Longrightarrow> block_known B L n"
    and f: "bk_start B < from" "from < 2 ^ 63" and t: "bk_start B < to" "to < 2 ^ 63"
    and cs: "lf_clauses flt = clauses (bk_evm B) (fc_Addresses (lf_criteria flt)) (fc_Topics (lf_criteria flt))"
  shows "rangeLogs B L (dbOf ix) flt from to = Inr (concat (map (answer B (lf_criteria flt)) [from..to]))"
proof -
  note start = indexed_searchD(6,7) [OF S] and U = unindexedLogs_known [OF indexed_searchD(1) [OF S]] and I = indexedLogs_known [OF S]
  let ?crit = "lf_criteria flt" and ?K = "int (unat (ix_storedSections ix)) * 4096 + bk_start B" and ?st = "word_of_int (bk_start B) :: uint64"
  define indexed where "indexed = ix_storedSections ix * BloomBitsBlocks + ?st"
  have K: "indexed = word_of_int ?K" by (simp add: indexed_def BloomBitsBlocks_def)
  have "uint indexed = ?K" unfolding K uint_word_of_int by (rule mod_pos_pos_trivial) (use start in simp_all)
  then have less: "word_of_int n < indexed \<longleftrightarrow> n < ?K" if "0 \<le> n" "n < 2 ^ 63" for n
    using that by (simp add: word_less_def uint_word_of_int)
  have w: "bigUint64 from = word_of_int from" "bigUint64 to = word_of_int to" using f t start by (simp_all add: bigUint64_def)
  have status: "BloomStatus B = (BloomBitsBlocks, ix_storedSections ix)"
    by (simp add: BloomStatus_def StoredSection_def indexed_searchD(2) [OF S])
  have final: "indexed - 1 - ?st = ix_storedSections ix * 4096 - 1" by (simp add: indexed_def BloomBitsBlocks_def)
  have range: "rangeLogs B L (dbOf ix) flt from to =
      (if from < ?K
       then bindE (indexedLogs B L (dbOf ix) flt (from - bk_start B) (word_of_int ((if to < ?K then to else ?K - 1) - bk_start B))) (\<lambda>(ls, from').
         bindE (unindexedLogs B L ?crit (from' + bk_start B) (word_of_int to)) (\<lambda>rest. Inr (ls @ rest)))
       else unindexedLogs B L ?crit from (word_of_int to))"
    using less [of "from"] less [of to] f t start(1)
    by (simp add: rangeLogs_def status w Let_def indexed_def [symmetric] final)
  consider (early) "from < ?K" "to < ?K" | (across) "from < ?K" "?K \<le> to" | (late) "?K \<le> from" by linarith
  then show ?thesis
  proof cases
    case early
    have "indexedLogs B L (dbOf ix) flt (from - bk_start B) (word_of_int (to - bk_start B)) =
        Inr (concat (map (answer B ?crit) [from..to - bk_start B + bk_start B]), to - bk_start B + 1)"
      by (rule I) (use early known f t start cs in simp_all)
    moreover have "unindexedLogs B L ?crit (to + 1) (word_of_int to) = Inr (concat (map (answer B ?crit) [to + 1..to]))"
      by (rule U) (use early known f t start in simp_all)
    ultimately show ?thesis using early by (simp add: range)
  next
    case across
    have "indexedLogs B L (dbOf ix) flt (from - bk_start B) (word_of_int (?K - 1 - bk_start B)) =
        Inr (concat (map (answer B ?crit) [from..?K - 1 - bk_start B + bk_start B]), ?K - 1 - bk_start B + 1)"
      by (rule I) (use across known f t start cs in simp_all)
    moreover have "unindexedLogs B L ?crit ?K (word_of_int to) = Inr (concat (map (answer B ?crit) [?K..to]))"
      by (rule U) (use across known f t start in simp_all)
    moreover have "[from..to] = [from..?K - 1] @ [?K..to]" using across by (intro upto_split1) simp_all
    ultimately show ?thesis using across by (simp add: range algebra_simps)
  next
    case late
    have "unindexedLogs B L ?crit from (word_of_int to) = Inr (concat (map (answer B ?crit) [from..to]))"
      by (rule U) (use late known f t start in simp_all)
    with late show ?thesis by (simp add: range)
  qed
qed

text \<open>C14: \<open>eth_getLogs\<close> is exact. For a range of heights whose blocks the node has, within the allowed span and above the
  first height, the answer is the logs of the blocks that match the addresses and topics, block by block in order,
  each once, although the blocks below the last indexed section are found through the matcher over the bloom
  index and the others through their own bloom filters.\<close>

theorem getLogs_exact:
  assumes S: "indexed_search B L G ix" and "\<not> rateLimited B ''eth_getLogs''" and "HeaderByNumber B LatestBlockNumber = Inr header"
    and "bk_start B < from" and "from < 2 ^ 63" and "bk_start B < to" and "to < 2 ^ 63"
    and "LogsHeightSpan L < 0 \<or> 0 < LogsHeightSpan L \<and> to - from \<le> LogsHeightSpan L"
    and known: "\<And>n. from \<le> n \<Longrightarrow> n \<le> to \<Longrightarrow> block_known B L n"
  shows "apiGetLogs B L (dbOf ix) \<lparr>fc_BlockHash = None, fc_FromBlock = Some from, fc_ToBlock = Some to, fc_Addresses = addrs, fc_Topics = topics\<rparr> =
     Inr (concat (map (\<lambda>n. filter (logMatches addrs topics) (logsAt B n)) [from..to]))"
proof -
  let ?f = "NewRangeFilter B from to addrs topics"
  have i: "bigInt64 from = from" "bigInt64 to = to" and start: "0 \<le> bk_start B"
    using assms(4-7) indexed_searchD(6) [OF S] by (simp_all add: bigInt64_def sint_small)
  then have "latestIfUnset h from = from" "latestIfUnset h to = to" for h using assms(4,6) by (simp_all add: latestIfUnset_def)
  moreover have "rangeLogs B L (dbOf ix) ?f from to = Inr (concat (map (answer B (lf_criteria ?f)) [from..to]))"
    by (rule rangeLogs_known [OF S known]) (use assms in \<open>simp_all add: NewRangeFilter_def clauses_def\<close>)
  ultimately show ?thesis
    using assms(2-8) i start by (auto simp: apiGetLogs_def criteriaFilter_def filterRun_def NewRangeFilter_def Let_def answer_def [abs_def])
qed

text \<open>A chain with one indexed section, whose block at height 5 has a log, and a matcher that asks for one section at a time.\<close>

definition log_env0 :: log_env where
  "log_env0 = \<lparr>BloomLookup = (\<lambda>b x. bit b 17), BloomBits = (\<lambda>x. [17]),
     MatcherRun = (\<lambda>N cs serve first final.
       Some (filter (\<lambda>n. \<forall>c \<in> set cs. c = [] \<or> (\<exists>x \<in> set c. vectorBit (hd (snd (serve 17 [n div N]))) (unat (n mod N))))
         (map word_of_nat [unat first..<Suc (unat final)]), False)),
     HeaderHash = (\<lambda>h. 0), LogsHeightSpan = - 1\<rparr>"

lemma log_env0_laws: "bloom_law log_env0" "matcher_law log_env0"
proof -
  show "bloom_law log_env0" by (simp add: bloom_law_def log_env0_def BloomBitLength_def)
  have le: "first div N \<le> word_of_nat m div N \<and> word_of_nat m div N \<le> final div N"
    if "unat first \<le> m" "m < Suc (unat final)" "0 < N" for first final N :: uint64 and m
  proof -
    have "unat (word_of_nat m :: uint64) = m" using that unsigned_less [where ?'a = nat, of final] by (simp add: unat_of_nat)
    then show ?thesis using that by (simp add: word_le_nat_alt unat_div div_le_mono)
  qed
  show "matcher_law log_env0"
    unfolding matcher_law_def
  proof (intro allI impI)
    fix N first final :: uint64 and cs serve and vec :: "nat \<Rightarrow> uint64 \<Rightarrow> bytes"
    assume N: "0 < N" and serve: "\<forall>i < BloomBitLength. \<forall>ss. (\<forall>s \<in> set ss. first div N \<le> s \<and> s \<le> final div N) \<longrightarrow> serve i ss = (False, map (vec i) ss)"
    have "serve 17 [n div N] = (False, [vec 17 (n div N)])" if "n \<in> set (map word_of_nat [unat first..<Suc (unat final)])" for n
    proof -
      from that obtain m where "n = word_of_nat m" "unat first \<le> m" "m < Suc (unat final)" by (auto simp del: upt_Suc)
      with le [OF _ _ N] have "first div N \<le> n div N \<and> n div N \<le> final div N" by blast
      moreover have "17 < BloomBitLength" by (simp add: BloomBitLength_def)
      ultimately show ?thesis using serve [rule_format, of 17 "[n div N]"] by simp
    qed
    then show "MatcherRun log_env0 N cs serve first final =
       Some (filter (\<lambda>n. \<forall>c \<in> set cs. c = [] \<or> (\<exists>x \<in> set c. \<forall>i \<in> set (BloomBits log_env0 x). vectorBit (vec i (n div N)) (unat (n mod N))))
         (map word_of_nat [unat first..<Suc (unat final)]), False)"
      by (simp add: log_env0_def del: upt_Suc set_map map_map) (rule filter_cong, simp_all del: upt_Suc set_map)
  qed
qed

definition log0 :: eth_log where
  "log0 = \<lparr>log_Address = 3, log_Topics = [8, 9], log_Data = [], log_BlockNumber = 5, log_TxHash = 0, log_TxIndex = 0, log_BlockHash = 7, log_Index = 0\<rparr>"

definition rpc_env1 :: rpc_env where
  "rpc_env1 = rpc_env0\<lparr>rp_gen := gen_env0\<lparr>FromHex := (\<lambda>s. HashBytes evm_env0 (HashFromHex gen_env0 s))\<rparr>,
     UnmarshalResultData := (\<lambda>b. Some \<lparr>rd_ContractAddress = 0, rd_Bloom = 0, rd_Logs = [log0], rd_Ret = None, rd_TxHash = 0\<rparr>)\<rparr>"

definition client0 :: tm_client where
  "client0 = \<lparr>cl_Block = (\<lambda>n. Some \<lparr>tb_Header = \<lparr>th_Height = n, th_LastBlockHash = [], th_ProposerAddress = [], th_AppHash = [], th_DataHash = [],
       th_Unix = 0, th_Hash = []\<rparr>, tb_Txs = [[1]], tb_Hash = [], tb_Size = 0\<rparr>),
     cl_TxData = (\<lambda>h. Some []), cl_LastHeight = Some 9, cl_UnconfirmedTxs = None, cl_UserNumUnconfirmedTxs = (\<lambda>a. None),
     cl_UserUnconfirmedTxs = (\<lambda>a n. None), cl_GetUnconfirmedTxByHash = (\<lambda>h. None)\<rparr>"

definition chain2 :: app_state where
  "chain2 = chain1\<lparr>as_blockHash := kv_set (HashBytes evm_env0 7) 5 kv_empty\<rparr>"

definition backend0 :: "bloom list Indexer \<Rightarrow> bloom list backend" where
  "backend0 ix = \<lparr>bk_watch = \<lparr>we_rpc = rpc_env1, BytesToHex = (\<lambda>b. [])\<rparr>, bk_client = client0, bk_state = chain2, bk_store = Map.empty,
     bk_sw = False, bk_indexer = Some ix, bk_start = 0, DecompressBytes = (\<lambda>b n. Some b), bk_limiters = None\<rparr>"

lemma chain2_hash: "j < perSection \<Longrightarrow> kGetHeightHash chain2 (word_of_nat j) = 7"
  using chain1_hash [of j] by (simp add: chain2_def kGetHeightHash_def)

lemma chain2_indexed: "\<exists>ix. ix_storedSections ix = 1 \<and> indexed_search (backend0 ix) log_env0 gen0 ix"
proof -
  have i: "index_ok evm_env0 gen0 chain2 0 indexer0" by (simp add: index_ok_def indexer0_def initBloomIndexer_def)
  have s: "s < (1 :: uint64) \<longleftrightarrow> s = 0" for s by (simp add: word_less_nat_alt word_unat_eq_iff)
  have k: "sectionBlock 0 s j = 0 \<or> blockHash chain2 0 (sectionBlock 0 s j) \<noteq> 0" if "s < 1" "j < perSection" for s j
    using that chain2_hash by (simp add: s sectionBlock_def blockHash_def)
  have "unat (1 :: uint64) * 4096 + unat (0 :: uint64) < 2 ^ 64" by simp
  from processSections_indexes [OF evm_env0_ok gen0_law gen0_batch this k i] obtain ix where
    ix: "index_ok evm_env0 gen0 chain2 0 ix" "ix_storedSections ix = 1" by (auto simp: indexer0_def)
  have E: "bk_evm (backend0 ix) = evm_env0" by (simp add: backend0_def rpc_env1_def rpc_env0_def tx_env0_def)
  have "hash_hex (rp_gen (bk_rpc (backend0 ix))) evm_env0"
    using gen_env0_text by (simp add: hash_hex_def hash_text_def backend0_def rpc_env1_def)
  then have "log_search (backend0 ix) log_env0" by (simp add: log_search_def E evm_env0_ok log_env0_laws)
  moreover have "inflates (backend0 ix) gen0" by (simp add: inflates_def backend0_def gen0_def)
  ultimately show ?thesis using ix E log_env0_laws by (intro exI [of _ ix]) (simp add: indexed_search_def backend0_def)
qed

theorem getLogs_exact_witness:
  "\<exists>ix. ix_storedSections ix = 1 \<and> apiGetLogs (backend0 ix) log_env0 (dbOf ix)
     \<lparr>fc_BlockHash = None, fc_FromBlock = Some 5, fc_ToBlock = Some 5, fc_Addresses = [3], fc_Topics = [[], [9, 4]]\<rparr> = Inr [log0]"
proof -
  from chain2_indexed obtain ix where ix: "ix_storedSections ix = 1" "indexed_search (backend0 ix) log_env0 gen0 ix" by blast
  have E: "bk_evm (backend0 ix) = evm_env0" by (simp add: backend0_def rpc_env1_def rpc_env0_def tx_env0_def)
  have logs: "logsAt (backend0 ix) n = [log0]" for n
    by (simp add: logsAt_def txLogs_def DecodeResultData_def backend0_def client0_def rpc_env1_def)
  have "GetBlockBloom chain2 5 = 2 ^ 17" by (simp add: GetBlockBloom_def chain2_def chain1_def)
  moreover have "kGetHeightHash chain2 5 = 7" using chain2_hash [of 5] by (simp add: perSection_def)
  ultimately have known: "block_known (backend0 ix) log_env0 5"
    by (simp add: block_known_def logs E) (simp add: backend0_def client0_def kGetBlockHash_def chain2_def bloom_covers_def bloom_has_def log_env0_def bit_simps)
  have "HeaderByNumber (backend0 ix) LatestBlockNumber =
      Inr ((EthHeaderFromTendermint rpc_env1 (tb_Header (the (cl_Block client0 8))))\<lparr>eh_Bloom := GetBlockBloom chain2 8\<rparr>)"
    by (simp add: HeaderByNumber_def LatestBlockNumber_def resolveHeight_def bBlockNumber_def qGetLatestBlockNumber_def storeGet_def bLatestBlockNumber_def
        clientResult_def headerAt_def queryBloom_eq backend0_def client0_def)
  from getLogs_exact [OF ix(2) _ this, of 5 5 "[3]" "[[], [9, 4]]"] known
  have "apiGetLogs (backend0 ix) log_env0 (dbOf ix)
     \<lparr>fc_BlockHash = None, fc_FromBlock = Some 5, fc_ToBlock = Some 5, fc_Addresses = [3], fc_Topics = [[], [9, 4]]\<rparr> = Inr [log0]"
    by (simp add: rateLimited_def GetRateLimiter_def backend0_def log_env0_def logs [unfolded backend0_def]) (simp add: logMatches_def log0_def less_Suc_eq_0_disj)
  with ix(1) show ?thesis by blast
qed

end
