(* ===== verification/Rpc_FilterApi.thy ===== *)
theory Rpc_FilterApi
  imports Rpc_Filters_Props
begin

text \<open>
  The filters that clients install and poll (\<^verbatim>\<open>src/app/rpc/namespaces/eth/filters/api.go\<close>): a map from identifiers to
  filters under a lock, one goroutine per filter that takes the events of its subscription, a loop that removes filters
  that were not polled for five minutes, and the operations of clients, which run between the steps of the goroutines.

  A subscription with Tendermint gives an identifier or fails with a text. \<open>api_step\<close> is the step relation of the whole;
  its state keeps as history the identifiers issued, the events each goroutine took while its filter was installed, and what
  polls returned.
\<close>

datatype filter_type =
    PendingTransactionsSubscription
  | BlocksSubscription
  | LogsSubscription
  | PendingLogsSubscription
  | MinedAndPendingLogsSubscription

record api_filter =
  af_typ :: filter_type
  af_fired :: bool \<comment> \<open>the deadline's timer\<close>
  af_hashes :: "hash list"
  af_crit :: FilterCriteria
  af_logs :: "eth_log list"

text \<open>What a goroutine was started with.\<close>

datatype reader = TxReader | HeadReader | LogReader FilterCriteria

datatype api_event = EvTx bytes bytes \<comment> \<open>transaction and result data\<close> | EvHeader tm_header | EvOther

definition noCriteria :: FilterCriteria where
  "noCriteria = \<lparr>fc_BlockHash = None, fc_FromBlock = None, fc_ToBlock = None, fc_Addresses = [], fc_Topics = []\<rparr>"

definition freshFilter :: "filter_type \<Rightarrow> api_filter" where
  "freshFilter typ = \<lparr>af_typ = typ, af_fired = False, af_hashes = [], af_crit = noCriteria, af_logs = []\<rparr>"

record filter_api =
  fa_filters :: "string \<rightharpoonup> api_filter"
  fa_readers :: "string \<rightharpoonup> reader"

subsection \<open>Creating filters\<close>

text \<open>The kind of subscription of a criterion.\<close>

definition SubscribeLogs :: "FilterCriteria \<Rightarrow> rpc_error + filter_type" where
  "SubscribeLogs crit =
     (let from = (case fc_FromBlock crit of None \<Rightarrow> rpcLatest | Some n \<Rightarrow> bigInt64 n);
          to = (case fc_ToBlock crit of None \<Rightarrow> rpcLatest | Some n \<Rightarrow> bigInt64 n)
      in if from = rpcPending \<and> to = rpcPending then Inr PendingLogsSubscription
         else if from = rpcLatest \<and> to = rpcLatest \<or> 0 \<le> from \<and> 0 \<le> to \<and> from \<le> to then Inr LogsSubscription
         else if rpcLatest \<le> from \<and> (to = rpcPending \<or> to = rpcLatest) then Inr MinedAndPendingLogsSubscription
         else Inl (ErrFromAfterTo from to))"

definition install :: "string \<Rightarrow> filter_type \<Rightarrow> reader \<Rightarrow> filter_api \<Rightarrow> filter_api" where
  "install i typ r A = A\<lparr>fa_filters := (fa_filters A)(i \<mapsto> freshFilter typ), fa_readers := (fa_readers A)(i \<mapsto> r)\<rparr>"

text \<open>Failures of these two are told in place of the identifier.\<close>

definition NewPendingTransactionFilter :: "'b backend \<Rightarrow> string + string \<Rightarrow> filter_api \<Rightarrow> string \<times> filter_api" where
  "NewPendingTransactionFilter B sub A =
     (if rateLimited B ''eth_newPendingTransactionFilter'' then (''error creating pending tx filter: server is too busy'', A)
      else case sub of
             Inl err \<Rightarrow> (''error creating pending tx filter: '' @ err, A)
           | Inr i \<Rightarrow> (i, install i PendingTransactionsSubscription TxReader A))"

definition apiNewBlockFilter :: "'b backend \<Rightarrow> string + string \<Rightarrow> filter_api \<Rightarrow> string \<times> filter_api" where
  "apiNewBlockFilter B sub A =
     (if rateLimited B ''eth_newBlockFilter'' then (''error creating block filter: server is too busy'', A)
      else case sub of
             Inl err \<Rightarrow> (''error creating block filter: '' @ err, A)
           | Inr i \<Rightarrow> (i, install i BlocksSubscription HeadReader A))"

text \<open>The criteria go to the goroutine; the filter itself does not store them.\<close>

definition NewFilter :: "'b backend \<Rightarrow> string + string \<Rightarrow> FilterCriteria \<Rightarrow> filter_api \<Rightarrow> rpc_error + string \<times> filter_api" where
  "NewFilter B sub crit A =
     (if rateLimited B ''eth_newFilter'' then Inl ErrServerBusy
      else
        bindE (SubscribeLogs crit) (\<lambda>_.
          case sub of
            Inl _ \<Rightarrow> Inl ErrSubscribe
          | Inr i \<Rightarrow> Inr (i, install i LogsSubscription (LogReader crit) A)))"

subsection \<open>The goroutines\<close>

definition updateFilter :: "string \<Rightarrow> (api_filter \<Rightarrow> api_filter) \<Rightarrow> filter_api \<Rightarrow> filter_api" where
  "updateFilter i g A =
     (case fa_filters A i of None \<Rightarrow> A | Some f \<Rightarrow> A\<lparr>fa_filters := (fa_filters A)(i \<mapsto> g f)\<rparr>)"

text \<open>The zero values that stand for the data of an event of another kind.\<close>

definition eventTx :: "api_event \<Rightarrow> bytes" where
  "eventTx ev = (case ev of EvTx tx _ \<Rightarrow> tx | _ \<Rightarrow> [])"

definition eventHeader :: "api_event \<Rightarrow> tm_header" where
  "eventHeader ev = (case ev of EvHeader h \<Rightarrow> h | _ \<Rightarrow>
     \<lparr>th_Height = 0, th_LastBlockHash = [], th_ProposerAddress = [], th_AppHash = [], th_DataHash = [], th_Unix = 0, th_Hash = []\<rparr>)"

definition stopReader :: "string \<Rightarrow> filter_api \<Rightarrow> filter_api" where
  "stopReader i A = A\<lparr>fa_readers := (fa_readers A)(i := None)\<rparr>"

definition onEvent :: "'b backend \<Rightarrow> log_env \<Rightarrow> string \<Rightarrow> reader \<Rightarrow> api_event \<Rightarrow> filter_api \<Rightarrow> filter_api" where
  "onEvent B L i r ev A =
     (case r of
        TxReader \<Rightarrow>
          updateFilter i (\<lambda>f. f\<lparr>af_hashes := af_hashes f @ [BytesToHash (bk_evm B) (TmTxHash (bk_rpc B) (eventTx ev))]\<rparr>) A
      | HeadReader \<Rightarrow>
          updateFilter i (\<lambda>f. f\<lparr>af_hashes := af_hashes f @ [HeaderHash L (EthHeaderFromTendermint (bk_rpc B) (eventHeader ev))]\<rparr>) A
      | LogReader crit \<Rightarrow>
          (case ev of
             EvTx _ data \<Rightarrow>
               (case DecodeResultData (bk_rpc B) data of
                  Inl _ \<Rightarrow> stopReader i A
                | Inr d \<Rightarrow>
                    updateFilter i (\<lambda>f. f\<lparr>af_logs := af_logs f @
                      FilterLogs (rd_Logs d) (fc_FromBlock crit) (fc_ToBlock crit) (fc_Addresses crit) (fc_Topics crit)\<rparr>) A)
           | _ \<Rightarrow> stopReader i A))"

text \<open>The error channel of the subscription: the filter is removed and the goroutine returns, but the one for pending
  transactions goes on.\<close>

definition onError :: "string \<Rightarrow> reader \<Rightarrow> filter_api \<Rightarrow> filter_api" where
  "onError i r A =
     (let A = A\<lparr>fa_filters := (fa_filters A)(i := None)\<rparr> in if r = TxReader then A else stopReader i A)"

definition timeoutTick :: "filter_api \<Rightarrow> filter_api" where
  "timeoutTick A =
     A\<lparr>fa_filters := (\<lambda>i. case fa_filters A i of None \<Rightarrow> None | Some f \<Rightarrow> if af_fired f then None else Some f)\<rparr>"

subsection \<open>Polling and removing\<close>

definition UninstallFilter :: "string \<Rightarrow> filter_api \<Rightarrow> bool \<times> filter_api" where
  "UninstallFilter i A = (fa_filters A i \<noteq> None, A\<lparr>fa_filters := (fa_filters A)(i := None)\<rparr>)"

definition GetFilterLogs ::
    "'b backend \<Rightarrow> log_env \<Rightarrow> (bytes, bytes) kv \<Rightarrow> string \<Rightarrow> filter_api \<Rightarrow> rpc_error + eth_log list" where
  "GetFilterLogs B L db i A =
     (case fa_filters A i of
        None \<Rightarrow> Inl (ErrFilterNotFound i)
      | Some f \<Rightarrow>
          if af_typ f \<noteq> LogsSubscription then Inl (ErrFilterType i) else filterRun B L db (criteriaFilter B (af_crit f)))"

datatype filter_changes = HashChanges "hash list" | LogChanges "eth_log list"

text \<open>A timer that fired is drained and set again.\<close>

definition GetFilterChanges :: "'b backend \<Rightarrow> string \<Rightarrow> filter_api \<Rightarrow> (rpc_error + filter_changes) \<times> filter_api" where
  "GetFilterChanges B i A =
     (if rateLimited B ''eth_getFilterChanges'' then (Inl ErrServerBusy, A)
      else
        case fa_filters A i of
          None \<Rightarrow> (Inl (ErrFilterNotFound i), A)
        | Some f \<Rightarrow>
            let f = f\<lparr>af_fired := False\<rparr>
            in case af_typ f of
                 PendingTransactionsSubscription \<Rightarrow>
                   (Inr (HashChanges (af_hashes f)), A\<lparr>fa_filters := (fa_filters A)(i \<mapsto> f\<lparr>af_hashes := []\<rparr>)\<rparr>)
               | BlocksSubscription \<Rightarrow>
                   (Inr (HashChanges (af_hashes f)), A\<lparr>fa_filters := (fa_filters A)(i \<mapsto> f\<lparr>af_hashes := []\<rparr>)\<rparr>)
               | LogsSubscription \<Rightarrow>
                   (Inr (LogChanges (af_logs f)), A\<lparr>fa_filters := (fa_filters A)(i \<mapsto> f\<lparr>af_logs := []\<rparr>)\<rparr>)
               | MinedAndPendingLogsSubscription \<Rightarrow>
                   (Inr (LogChanges (af_logs f)), A\<lparr>fa_filters := (fa_filters A)(i \<mapsto> f\<lparr>af_logs := []\<rparr>)\<rparr>)
               | PendingLogsSubscription \<Rightarrow> (Inl (ErrFilterType i), A\<lparr>fa_filters := (fa_filters A)(i \<mapsto> f)\<rparr>))"

subsection \<open>Runs\<close>

record api_run =
  ar_api :: filter_api
  ar_issued :: "string \<Rightarrow> reader option" \<comment> \<open>history\<close>
  ar_events :: "string \<Rightarrow> api_event list" \<comment> \<open>history\<close>
  ar_polled :: "string \<Rightarrow> filter_changes list" \<comment> \<open>history\<close>

definition issue :: "string \<Rightarrow> reader \<Rightarrow> filter_api \<Rightarrow> api_run \<Rightarrow> api_run" where
  "issue i r A y = y\<lparr>ar_api := A, ar_issued := (ar_issued y)(i \<mapsto> r)\<rparr>"

inductive api_step :: "'b backend \<Rightarrow> log_env \<Rightarrow> api_run \<Rightarrow> api_run \<Rightarrow> bool" for B L where
  new_pending: "ar_issued y i = None \<Longrightarrow> \<not> rateLimited B ''eth_newPendingTransactionFilter'' \<Longrightarrow>
    api_step B L y (issue i TxReader (snd (NewPendingTransactionFilter B (Inr i) (ar_api y))) y)"
| new_block: "ar_issued y i = None \<Longrightarrow> \<not> rateLimited B ''eth_newBlockFilter'' \<Longrightarrow>
    api_step B L y (issue i HeadReader (snd (apiNewBlockFilter B (Inr i) (ar_api y))) y)"
| new_filter: "ar_issued y i = None \<Longrightarrow> NewFilter B (Inr i) crit (ar_api y) = Inr (i, A) \<Longrightarrow>
    api_step B L y (issue i (LogReader crit) A y)"
| event: "fa_readers (ar_api y) i = Some r \<Longrightarrow>
    api_step B L y (y\<lparr>ar_api := onEvent B L i r ev (ar_api y),
      ar_events := (if fa_filters (ar_api y) i = None then ar_events y else (ar_events y)(i := ar_events y i @ [ev]))\<rparr>)"
| failure: "fa_readers (ar_api y) i = Some r \<Longrightarrow> api_step B L y (y\<lparr>ar_api := onError i r (ar_api y)\<rparr>)"
| deadline: "api_step B L y (y\<lparr>ar_api := updateFilter i (\<lambda>f. f\<lparr>af_fired := True\<rparr>) (ar_api y)\<rparr>)"
| tick: "api_step B L y (y\<lparr>ar_api := timeoutTick (ar_api y)\<rparr>)"
| uninstall: "api_step B L y (y\<lparr>ar_api := snd (UninstallFilter i (ar_api y))\<rparr>)"
| poll: "GetFilterChanges B i (ar_api y) = (Inr c, A) \<Longrightarrow>
    api_step B L y (y\<lparr>ar_api := A, ar_polled := (ar_polled y)(i := ar_polled y i @ [c])\<rparr>)"
| poll_refused: "GetFilterChanges B i (ar_api y) = (Inl e, A) \<Longrightarrow> api_step B L y (y\<lparr>ar_api := A\<rparr>)"

definition NewAPI :: filter_api where
  "NewAPI = \<lparr>fa_filters = Map.empty, fa_readers = Map.empty\<rparr>"

inductive api_reach :: "'b backend \<Rightarrow> log_env \<Rightarrow> api_run \<Rightarrow> bool" for B L where
  start: "api_reach B L \<lparr>ar_api = NewAPI, ar_issued = Map.empty, ar_events = (\<lambda>_. []), ar_polled = (\<lambda>_. [])\<rparr>"
| step: "api_reach B L y \<Longrightarrow> api_step B L y y' \<Longrightarrow> api_reach B L y'"

subsection \<open>Each change is told once\<close>

fun changesOf :: "'b backend \<Rightarrow> log_env \<Rightarrow> reader \<Rightarrow> api_event \<Rightarrow> hash list \<times> eth_log list" where
  "changesOf B L TxReader ev = ([BytesToHash (bk_evm B) (TmTxHash (bk_rpc B) (eventTx ev))], [])"
| "changesOf B L HeadReader ev = ([HeaderHash L (EthHeaderFromTendermint (bk_rpc B) (eventHeader ev))], [])"
| "changesOf B L (LogReader crit) ev =
     ([], case ev of
            EvTx _ data \<Rightarrow>
              (case UnmarshalResultData (bk_rpc B) data of
                 None \<Rightarrow> []
               | Some d \<Rightarrow> filter (logPasses (fc_FromBlock crit) (fc_ToBlock crit) (fc_Addresses crit) (fc_Topics crit)) (rd_Logs d))
          | _ \<Rightarrow> [])"

fun toldHashes :: "filter_changes \<Rightarrow> hash list" where
  "toldHashes (HashChanges hs) = hs"
| "toldHashes (LogChanges ls) = []"

fun toldLogs :: "filter_changes \<Rightarrow> eth_log list" where
  "toldLogs (HashChanges hs) = []"
| "toldLogs (LogChanges ls) = ls"

fun readerType :: "reader \<Rightarrow> filter_type" where
  "readerType TxReader = PendingTransactionsSubscription"
| "readerType HeadReader = BlocksSubscription"
| "readerType (LogReader _) = LogsSubscription"

definition told_once :: "'b backend \<Rightarrow> log_env \<Rightarrow> api_run \<Rightarrow> string \<Rightarrow> api_filter \<Rightarrow> bool" where
  "told_once B L y i f \<longleftrightarrow> (\<exists>r. ar_issued y i = Some r \<and> af_typ f = readerType r \<and> af_crit f = noCriteria \<and>
     concat (map toldHashes (ar_polled y i)) @ af_hashes f = concat (map (\<lambda>ev. fst (changesOf B L r ev)) (ar_events y i)) \<and>
     concat (map toldLogs (ar_polled y i)) @ af_logs f = concat (map (\<lambda>ev. snd (changesOf B L r ev)) (ar_events y i)))"

definition filter_inv :: "'b backend \<Rightarrow> log_env \<Rightarrow> api_run \<Rightarrow> string \<Rightarrow> bool" where
  "filter_inv B L y i \<longleftrightarrow>
     (\<forall>r. fa_readers (ar_api y) i = Some r \<longrightarrow> ar_issued y i = Some r) \<and>
     (ar_issued y i = None \<longrightarrow> ar_events y i = [] \<and> ar_polled y i = []) \<and>
     (\<forall>f. fa_filters (ar_api y) i = Some f \<longrightarrow> told_once B L y i f)"

lemma updateFilter_sel [simp]:
  "fa_filters (updateFilter i g A) j = (if i = j then map_option g (fa_filters A i) else fa_filters A j)"
  "fa_readers (updateFilter i g A) = fa_readers A"
  by (auto simp: updateFilter_def split: option.splits)

lemma stopReader_sel [simp]:
  "fa_filters (stopReader i A) = fa_filters A" "fa_readers (stopReader i A) = (fa_readers A)(i := None)"
  by (simp_all add: stopReader_def)

text \<open>One event of a goroutine whose filter is installed.\<close>

lemma onEvent_filter:
  assumes "fa_filters A i = Some f" and "fa_readers A i = Some r"
  shows "\<exists>f'. fa_filters (onEvent B L i r ev A) i = Some f' \<and> af_typ f' = af_typ f \<and> af_crit f' = af_crit f \<and>
     af_hashes f' = af_hashes f @ fst (changesOf B L r ev) \<and> af_logs f' = af_logs f @ snd (changesOf B L r ev)"
  using assms by (cases r) (auto simp: onEvent_def DecodeResultData_def FilterLogs_filter split: api_event.splits option.splits)

lemma onEvent_frame:
  "j \<noteq> i \<or> fa_filters A i = None \<Longrightarrow> fa_filters (onEvent B L i r ev A) j = fa_filters A j"
  "fa_readers (onEvent B L i r ev A) j = Some s \<Longrightarrow> fa_readers A j = Some s"
  by (cases r; auto simp: onEvent_def split: api_event.splits sum.splits if_splits)+

lemma filter_inv_same:
  assumes "filter_inv B L y i"
    and "\<And>f'. fa_filters (ar_api y') i = Some f' \<Longrightarrow> \<exists>f. fa_filters (ar_api y) i = Some f \<and>
        af_typ f' = af_typ f \<and> af_crit f' = af_crit f \<and> af_hashes f' = af_hashes f \<and> af_logs f' = af_logs f"
    and "\<And>r. fa_readers (ar_api y') i = Some r \<Longrightarrow> fa_readers (ar_api y) i = Some r"
    and "ar_issued y' i = ar_issued y i" and "ar_events y' i = ar_events y i" and "ar_polled y' i = ar_polled y i"
  shows "filter_inv B L y' i"
proof -
  have "told_once B L y' i f'" if "fa_filters (ar_api y') i = Some f'" for f'
  proof -
    from assms(2) [OF that] obtain f where f: "fa_filters (ar_api y) i = Some f" and
      eq: "af_typ f' = af_typ f" "af_crit f' = af_crit f" "af_hashes f' = af_hashes f" "af_logs f' = af_logs f" by blast
    have "told_once B L y i f" using assms(1) f by (simp add: filter_inv_def)
    then show ?thesis by (simp add: told_once_def eq assms(4-6))
  qed
  then show ?thesis using assms(1) assms(3) unfolding filter_inv_def assms(4-6) by blast
qed

lemma filter_inv_issue:
  assumes inv: "filter_inv B L y j" and new: "ar_issued y i = None"
  shows "filter_inv B L (issue i r (install i (readerType r) r (ar_api y)) y) j"
  using assms by (auto simp: filter_inv_def told_once_def issue_def install_def freshFilter_def)

lemma filter_inv_event:
  assumes inv: "\<And>j. filter_inv B L y j" and r: "fa_readers (ar_api y) i = Some r"
  shows "filter_inv B L (y\<lparr>ar_api := onEvent B L i r ev (ar_api y),
      ar_events := (if fa_filters (ar_api y) i = None then ar_events y else (ar_events y)(i := ar_events y i @ [ev]))\<rparr>) j"
proof (cases "j = i \<and> fa_filters (ar_api y) i \<noteq> None")
  case True
  then obtain f where f: "fa_filters (ar_api y) i = Some f" by blast
  from onEvent_filter [OF f r, of B L ev] inv [of i] r f True onEvent_frame(2) [of B L i r ev "ar_api y" i] show ?thesis
    by (auto simp: filter_inv_def told_once_def)
next
  case False
  then have "fa_filters (onEvent B L i r ev (ar_api y)) j = fa_filters (ar_api y) j" using onEvent_frame(1) by metis
  with False show ?thesis
    by (intro filter_inv_same [OF inv]) (auto dest: onEvent_frame(2))
qed

lemma filter_inv_poll:
  assumes inv: "filter_inv B L y j" and p: "GetFilterChanges B i (ar_api y) = (Inr c, A)"
  shows "filter_inv B L (y\<lparr>ar_api := A, ar_polled := (ar_polled y)(i := ar_polled y i @ [c])\<rparr>) j"
proof -
  from p obtain f where f: "fa_filters (ar_api y) i = Some f"
    by (auto simp: GetFilterChanges_def split: if_splits option.splits)
  show ?thesis
  proof (cases "j = i")
    case False
    with p f show ?thesis
      by (intro filter_inv_same [OF inv]) (auto simp: GetFilterChanges_def Let_def split: if_splits filter_type.splits)
  next
    case True
    with inv f obtain r where r: "ar_issued y i = Some r" "af_typ f = readerType r" by (auto simp: filter_inv_def told_once_def)
    with inv p f True show ?thesis
      by (cases r) (auto simp: GetFilterChanges_def Let_def filter_inv_def told_once_def split: if_splits)
  qed
qed

lemma filter_inv_step:
  assumes inv: "\<And>j. filter_inv B L y j" and step: "api_step B L y y'"
  shows "filter_inv B L y' j"
  using step
proof (cases rule: api_step.cases)
  case (new_pending i)
  then show ?thesis using filter_inv_issue [OF inv, where i = i and j = j and r = TxReader] by (simp add: NewPendingTransactionFilter_def)
next
  case (new_block i)
  then show ?thesis using filter_inv_issue [OF inv, where i = i and j = j and r = HeadReader] by (simp add: apiNewBlockFilter_def)
next
  case (new_filter i crit A)
  then have "A = install i LogsSubscription (LogReader crit) (ar_api y)" by (auto simp: NewFilter_def bindE_eq_Inr split: if_splits)
  with new_filter show ?thesis using filter_inv_issue [OF inv, where i = i and j = j and r = "LogReader crit"] by simp
next
  case (event i r ev)
  then show ?thesis using filter_inv_event [OF inv] by simp
next
  case (failure i r)
  then show ?thesis
    by (intro filter_inv_same [OF inv]) (auto simp: onError_def Let_def split: if_splits)
next
  case (deadline i)
  then show ?thesis by (intro filter_inv_same [OF inv]) (auto split: if_splits)
next
  case tick
  then show ?thesis by (intro filter_inv_same [OF inv]) (auto simp: timeoutTick_def split: option.splits if_splits)
next
  case (uninstall i)
  then show ?thesis by (intro filter_inv_same [OF inv]) (auto simp: UninstallFilter_def split: if_splits)
next
  case (poll i c A)
  then show ?thesis using filter_inv_poll [OF inv] by simp
next
  case (poll_refused i e A)
  then show ?thesis
    by (intro filter_inv_same [OF inv]) (auto simp: GetFilterChanges_def Let_def split: if_splits option.splits filter_type.splits)
qed

lemma api_reach_inv: "api_reach B L y \<Longrightarrow> filter_inv B L y i"
proof (induction arbitrary: i rule: api_reach.induct)
  case start
  then show ?case by (simp add: filter_inv_def NewAPI_def)
next
  case (step y y')
  then show ?case using filter_inv_step by blast
qed

text \<open>C15: A filter tells each change exactly once. However clients, goroutines and the removal of old filters interleave, the
  hashes and logs that the polls of an installed filter have returned, followed by those it still holds, are those of all
  events that its goroutine took, in order; for a log filter these are the logs that pass its criteria.\<close>

theorem filter_changes_once:
  assumes "api_reach B L y" and "fa_filters (ar_api y) i = Some f"
  shows "\<exists>r. ar_issued y i = Some r \<and>
     concat (map toldHashes (ar_polled y i)) @ af_hashes f = concat (map (\<lambda>ev. fst (changesOf B L r ev)) (ar_events y i)) \<and>
     concat (map toldLogs (ar_polled y i)) @ af_logs f = concat (map (\<lambda>ev. snd (changesOf B L r ev)) (ar_events y i))"
  using api_reach_inv [OF assms(1), of i] assms(2) by (auto simp: filter_inv_def told_once_def)

text \<open>C35: \<open>eth_getFilterLogs\<close> does not use the criteria of the filter: whatever log filter it is asked for, it answers with the
  search for all logs of the latest block.\<close>

theorem getFilterLogs_ignores_criteria:
  assumes "api_reach B L y" and "ar_issued y i = Some (LogReader crit)" and "fa_filters (ar_api y) i = Some f"
  shows "GetFilterLogs B L db i (ar_api y) = filterRun B L db (NewRangeFilter B rpcLatest rpcLatest [] [])"
  using api_reach_inv [OF assms(1), of i] assms(2,3)
  by (auto simp: filter_inv_def told_once_def GetFilterLogs_def criteriaFilter_def noCriteria_def)

text \<open>A filter on an address that takes an event, is polled, and takes another event.\<close>

definition crit0 :: FilterCriteria where
  "crit0 = noCriteria\<lparr>fc_Addresses := [3]\<rparr>"

abbreviation back0 :: "bloom list backend" where
  "back0 \<equiv> backend0 indexer0"

definition polled0 :: api_run where
  "polled0 = \<lparr>ar_api = \<lparr>fa_filters = [''7'' \<mapsto> (freshFilter LogsSubscription)\<lparr>af_logs := [log0]\<rparr>], fa_readers = [''7'' \<mapsto> LogReader crit0]\<rparr>,
     ar_issued = [''7'' \<mapsto> LogReader crit0], ar_events = (\<lambda>_. [])(''7'' := [EvTx [1] [], EvTx [2] []]), ar_polled = (\<lambda>_. [])(''7'' := [LogChanges [log0]])\<rparr>"

lemma polled0_reachable: "api_reach back0 log_env0 polled0"
proof -
  let ?y = "\<lambda>ls evs ps. \<lparr>ar_api = \<lparr>fa_filters = [''7'' \<mapsto> (freshFilter LogsSubscription)\<lparr>af_logs := ls\<rparr>], fa_readers = [''7'' \<mapsto> LogReader crit0]\<rparr>,
     ar_issued = [''7'' \<mapsto> LogReader crit0], ar_events = (\<lambda>_. [])(''7'' := evs), ar_polled = (\<lambda>_. [])(''7'' := ps)\<rparr>"
  have free: "\<not> rateLimited back0 a" for a by (simp add: rateLimited_def GetRateLimiter_def backend0_def)
  have pass: "logPasses None None [3] [] log0" by (simp add: logPasses_iff logMatches_def log0_def)
  have log: "onEvent back0 log_env0 ''7'' (LogReader crit0) (EvTx tx d) (ar_api (?y ls evs ps)) = ar_api (?y (ls @ [log0]) evs ps)" for tx d ls evs ps
    by (simp add: onEvent_def DecodeResultData_def backend0_def rpc_env1_def updateFilter_def crit0_def noCriteria_def pass)
  let ?s = "\<lparr>ar_api = NewAPI, ar_issued = Map.empty, ar_events = (\<lambda>_. []), ar_polled = (\<lambda>_. [])\<rparr>"
  have "NewFilter back0 (Inr ''7'') crit0 NewAPI = Inr (''7'', ar_api (?y [] [] []))"
    by (simp add: NewFilter_def free SubscribeLogs_def crit0_def noCriteria_def rpcLatest_def rpcPending_def install_def NewAPI_def freshFilter_def)
  then have "api_step back0 log_env0 ?s (?y [] [] [])"
    using api_step.new_filter [where B = back0 and L = log_env0 and y = ?s and i = "''7''" and crit = crit0] by (simp add: issue_def fun_upd_def)
  then have 1: "api_reach back0 log_env0 (?y [] [] [])" by (rule api_reach.step [OF api_reach.start])
  have ev: "api_step back0 log_env0 (?y ls evs ps) (?y (ls @ [log0]) (evs @ [EvTx tx d]) ps)" for tx d ls evs ps
    using api_step.event [where B = back0 and L = log_env0 and y = "?y ls evs ps" and i = "''7''" and r = "LogReader crit0" and ev = "EvTx tx d"]
      log [of tx d ls evs ps] by simp
  have "api_step back0 log_env0 (?y [log0] evs ps) (?y [] evs (ps @ [LogChanges [log0]]))" for evs ps
    using api_step.poll [where B = back0 and L = log_env0 and y = "?y [log0] evs ps" and i = "''7''" and c = "LogChanges [log0]"]
    by (simp add: GetFilterChanges_def free freshFilter_def)
  note poll = this
  have 2: "api_reach back0 log_env0 (?y [log0] [EvTx [1] []] [])" using api_reach.step [OF 1 ev [of "[]" "[]" "[]" "[1]" "[]"]] by simp
  have 3: "api_reach back0 log_env0 (?y [] [EvTx [1] []] [LogChanges [log0]])" using api_reach.step [OF 2 poll] by simp
  show ?thesis using api_reach.step [OF 3 ev [of _ _ _ "[2]" "[]"]] by (simp add: polled0_def)
qed

theorem filter_changes_once_witness:
  "concat (map (\<lambda>ev. snd (changesOf back0 log_env0 (LogReader crit0) ev)) [EvTx [1] [], EvTx [2] []]) = [log0, log0]"
  using filter_changes_once [OF polled0_reachable, of "''7''"] by (simp add: polled0_def freshFilter_def)

theorem getFilterLogs_ignores_criteria_witness:
  "GetFilterLogs back0 log_env0 kv_empty ''7'' (ar_api polled0) = filterRun back0 log_env0 kv_empty (NewRangeFilter back0 rpcLatest rpcLatest [] [])"
  using getFilterLogs_ignores_criteria [OF polled0_reachable, of "''7''" crit0] by (simp add: polled0_def)

end
