(* ===== verification/Spec2Isabelle.thy ===== *)
theory Spec2Isabelle
  imports Staking_Query Evm_Genesis_Props Evm_Indexer_Props Dist_Query Token_Names Token_Props Params_Props Evm_Watcher_Props
    Rpc_FilterApi
begin

text \<open>
  \<^bold>\<open>The program.\<close> The repository is an application on the Cosmos SDK with an Ethereum virtual machine: modules
  with stores of their own, message handlers, functions that run at the beginning and end of a block, and an ante
  handler that every transaction passes first. Beside the consensus path a node keeps a store of blocks, transactions
  and receipts (the watcher) and answers Ethereum JSON-RPC calls from it and from the chain. This development models
  the modules \<^verbatim>\<open>src/staking\<close>, \<^verbatim>\<open>src/evm\<close>, \<^verbatim>\<open>src/distribution\<close>, \<^verbatim>\<open>src/token\<close> and
  \<^verbatim>\<open>src/params\<close>, the helpers of \<^verbatim>\<open>src/common\<close>, and of \<^verbatim>\<open>src/app\<close> the transaction path (\<^verbatim>\<open>ante\<close>,
  \<^verbatim>\<open>refund\<close>, \<^verbatim>\<open>types\<close>, \<^verbatim>\<open>utils\<close>) and the log filters and backend of \<^verbatim>\<open>rpc\<close>. The staking module
  keeps the delegations and chooses the validators; the distribution module splits the collected fees among them and is
  called by the staking module's hooks; the token module issues tokens and locks coins for other modules; the EVM module
  executes Ethereum transactions on the accounts of the chain; the parameter module changes the parameters of the others
  after a vote. They meet in the accounts and module accounts of the SDK.

  \<^bold>\<open>How Go is translated.\<close> A function that returns an error or may panic is a function into \<open>'e + 'a\<close>, with the
  error or the panic as \<open>Inl\<close>; the error types have a constructor for every error and panic of the code. Stores are
  values of type \<open>kv\<close> (Prelude), finite maps that iterate in the order of their keys; a keeper's state is a record with
  one field for each key prefix, holding the decoded entries. A failing message leaves the state of before, as the SDK
  discards its writes; fields of a keeper that live in memory are not rolled back. Loops are structural recursions or
  folds (\<open>foldE\<close> stops at the first error). The loops of the bloom indexer, which may run over wrapped heights, are
  \<open>partial_function (option)\<close>, and it is proved that they return for every input; there is no fuel anywhere. Decimals
  are integers in units of \<open>10 ^ -18\<close>; nonces, gas, heights and indices are 64-bit words and wrap; addresses and hashes
  are words of 160 and 256 bits; strings are byte strings.

  \<^bold>\<open>What is outside.\<close> Code that is not in the repository is a parameter, a field of one of the records \<open>sdk_dec\<close>,
  \<open>sdk_codec\<close>, \<open>coin_ops\<close>, \<open>supply_ops\<close>, \<open>staking_env\<close>, \<open>dist_env\<close>, \<open>token_env\<close>, \<open>evm_env\<close>,
  \<open>tx_env\<close>, \<open>gas_ops\<close>, \<open>ante_env\<close>, \<open>exec_env\<close>, \<open>gen_ops\<close>, \<open>gen_env\<close>, \<open>params_env\<close>,
  \<open>watch_env\<close>, \<open>rpc_env\<close>, \<open>tm_client\<close>, \<open>log_env\<close>, \<open>pool_env\<close>, \<open>query_env\<close>,
  \<open>dist_query_env\<close>: rounding, encodings, hashes, elliptic curves, the bank, gas
  meters, parameter spaces, the queue of governance, the Tendermint client, bloom filters and their matcher, and the
  interpreter, of which only is assumed that it acts on the state database through its operations. What a theorem needs of them is a named hypothesis (\<open>evm_env_ok\<close>,
  \<open>vm_sound\<close>, \<open>gas_law\<close>, \<open>fee_law\<close>, \<open>ec_law\<close>, \<open>gen_law\<close>, \<open>coins_ok\<close> and others, each defined
  where it is first used), and the witnesses discharge it for concrete functions.

  \<^bold>\<open>Staking\<close> (\<^verbatim>\<open>src/staking\<close>). Staking_Types, Staking_Keys: data, messages, checks, byte keys, with the order of
  the power index. Staking_Store: the keeper's record and its accessors. Staking_Shares: delegation, undelegation,
  minimum self delegation, shares, proxies. Staking_ValState: bond states, election, kick-out, queues.
  Staking_Handler: message handlers and end blocker. Staking_Laws: laws of the environment, effect of the operations on
  each store. Staking_Inv, Staking_Inv_Shares (locale \<open>share_loop\<close>, interpreted for withdrawing, updating and adding
  shares), Staking_Inv_Handlers, Staking_Inv_Set: the invariant and its preservation. Staking_Inv_Code: the invariants
  that the code registers. Staking_Reach: the step relation \<open>reachable\<close> and the properties: pools are exact, shares add
  up, the end blocker never panics, the election bonds exactly the first eligible validators. Staking_Genesis: check,
  import and export of genesis; Staking_Genesis_Props: a chain started from an export has the records, indexes and powers
  of the exported one and keeps the invariant, and when an export passes the check of genesis files. Staking_Query: the
  answers of the queries, which agree with the records.

  \<^bold>\<open>EVM state\<close> (\<^verbatim>\<open>src/evm/types\<close>). Evm_Types: accounts and the environment. Evm_AccessList, Evm_Object,
  Evm_StateDB: access list, state objects with the journal, CommitStateDB. Indexed_List: slices with an index map, an
  idiom the code uses five times. Undo_Log: the locale \<open>undo_log\<close> of journals of undoable changes; Evm_Undo shows that the
  reverts refine an undo on observations and Evm_Ops interprets the locale for them; Evm_View: the invariant of the
  representation and the view a reader has. Evm_Revert: \<open>RevertToSnapshot\<close> restores everything observable, for any run
  of operations. Evm_Commit, Evm_Persist: \<open>Finalise\<close> and \<open>Commit\<close>; what a run left is what a fresh database reads.

  \<^bold>\<open>EVM transactions\<close> (\<^verbatim>\<open>src/evm\<close>, \<^verbatim>\<open>src/app/ante\<close>, \<^verbatim>\<open>src/app/refund\<close>). Go_Text: text functions of the
  standard library. Evm_Msg, Evm_Msg_Props: chain identifiers, transaction data and its encoding, messages, signing and
  recovery. Evm_Ante: the decorators and the refund. Evm_Exec: chain configuration, state transition, handlers, keeper,
  block functions. Evm_Nonce, Evm_Deliver, Evm_Deliver_Props: delivery as the composition of ante handler, message handler
  and refund: a transaction is executed at most once, a failing one costs exactly its gas, gas does not wrap, permissions
  are obeyed, accounts stay well formed. Evm_Indexer, Evm_Indexer_Props: the index of bloom filters, that its loops
  return and that the index is right. Evm_Genesis, Evm_Gov, Evm_Genesis_Props: parameters, genesis and its export to
  files and databases, proposals, invariants, queries; what an export and import keep, and when the export panics.

  \<^bold>\<open>Distribution\<close> (\<^verbatim>\<open>src/distribution\<close>). Sdk_Coins: coin sets and the supply keeper. Dist_Keeper: the module.
  Dist_Alloc: the locale \<open>reward_split\<close> for a rule that splits rewards, interpreted for the equal split and the split by
  shares. Dist_Inv, Dist_Reach: the account of the module holds exactly the community pool and the commissions in every
  reachable state, commissions can be withdrawn, and the one case in which the begin blocker panics. Dist_Query: the
  queries.

  \<^bold>\<open>Token\<close> (\<^verbatim>\<open>src/token\<close>). Token_Types, Token_Keeper: types, checks, keeper, handlers, genesis, queries.
  Token_Names: symbols and names. Token_Registry: tokens, owners and their index. Token_Money, Token_Steps: supply and
  locked coins, with the locale \<open>lock_box\<close> interpreted for locked assets and locked fees. Token_Reach, Token_Props: the
  step relation and the properties: bounded supply, authority over owners, backing of locked coins.

  \<^bold>\<open>Parameters and helpers\<close> (\<^verbatim>\<open>src/params\<close>, \<^verbatim>\<open>src/common\<close>). Common_Utils: validators of parameters, the
  check of sufficient coins, pages, byte forms. Params_Module, Params_Props: the proposals that change parameters, their
  checks, the waiting queue until their height, genesis and query; a proposal changes all parameters it names or none.

  \<^bold>\<open>Watcher\<close> (\<^verbatim>\<open>src/evm/watcher\<close>). Rpc_Types: the values that clients see. Evm_Watcher: the watcher, its batch, its
  store and the querier; the commits, which the code starts as goroutines, are a step relation in which they interleave.
  Evm_Watcher_Props: once the latest height of a block is readable so is the block with all its transactions, whatever the
  interleaving; the cumulative gas of the receipts is the running sum of the gas used.

  \<^bold>\<open>JSON-RPC\<close> (\<^verbatim>\<open>src/app/rpc\<close>). Rpc_Backend: the answers of the backend. Rpc_Filters, Rpc_Filters_Props: the
  search for logs, first over the sections that the bloom index covers and then block by block; it returns exactly the
  logs of the range that match, in their order. Rpc_FilterApi: creation, events, polling, time out and removal of the
  filters of a client as a state machine; a change is delivered once.

  \<^bold>\<open>Not modelled.\<close> JSON, YAML and string renderings, sign bytes and events. Command line and REST
  (\<^verbatim>\<open>client\<close> directories), the namespaces of JSON-RPC other than the filters (\<^verbatim>\<open>eth/api.go\<close>, \<^verbatim>\<open>personal\<close>,
  \<^verbatim>\<open>web3\<close>, \<^verbatim>\<open>net\<close>) and the websocket server: they pass requests to a node, a key store or a socket and the
  behaviour is that of the other side. The event loop of the filter system, whose channels come from Tendermint.
  Migrations of old genesis files. Registration of codecs and modules and the wiring of the application
  (\<^verbatim>\<open>src/app/app.go\<close>) together with its export, which is a sequence of calls into modules of the SDK. Key types over
  external cryptography. Monitoring and performance counters. Goroutines are modelled where they share state (the
  commits of the watcher); those of an export touch disjoint entries and are run in the order in which they start.
\<close>

end
